(* ===== verification/Prelude.thy ===== *)
theory Prelude
  imports Main "HOL-Library.Word"
begin

text \<open>
  Shared vocabulary of the development: names for the machine integers of the emulator, the
  rendering of the bit operations of the source, the big-endian byte splits that memory, caches
  and frame codecs use, and the named collections the component theories fill.

  Arithmetic follows the release build of the emulator (the build the README documents): \<open>+\<close>,
  \<open>-\<close> and \<open>*\<close> on fixed-width integers wrap, and a shift amount is taken modulo the width.
\<close>

unbundle bit_operations_syntax

section \<open>Machine integers\<close>

type_synonym u8 = "8 word"
type_synonym u16 = "16 word"
type_synonym u32 = "32 word"
type_synonym u64 = "64 word"

text \<open>A signed integer is the same word read with \<^const>\<open>sint\<close>; the casts between
  \<open>u32\<close> and \<open>i32\<close> of the source keep the bits.\<close>

type_synonym i32 = "32 word"

named_theorems bit_defs \<open>definitions that unfold to plain bit operations\<close>
named_theorems exec_defs \<open>definitions of instruction semantics\<close>

section \<open>Bits of a word\<close>

text \<open>\<open>(x >> n) & 1 != 0\<close>\<close>

abbreviation bit_set :: "'a::len word \<Rightarrow> nat \<Rightarrow> bool" where
  "bit_set x n \<equiv> drop_bit n x AND 1 \<noteq> 0"

text \<open>\<open>(b as u32) << n\<close>\<close>

abbreviation bool_at :: "nat \<Rightarrow> bool \<Rightarrow> 'a::len word" where
  "bool_at n b \<equiv> push_bit n (of_bool b)"

lemma bit_set_iff_bit [simp]: "drop_bit n x AND 1 = 0 \<longleftrightarrow> \<not> bit x n"
  for x :: "'a::len word"
  by (simp add: and_one_eq mod_2_eq_odd bit_iff_odd_drop_bit)

lemma bit_set_0_iff_bit [simp]: "x AND 1 = 0 \<longleftrightarrow> \<not> bit x 0" for x :: "'a::len word"
  using bit_set_iff_bit [of 0 x] by simp

lemma bit_drop_bit_0 [simp]: "bit (drop_bit n x) 0 \<longleftrightarrow> bit x n" for x :: "'a::len word"
  by (simp add: bit_drop_bit_eq)

lemma bit_bool_at: "bit (bool_at n b :: 'a::len word) k \<longleftrightarrow> b \<and> k = n \<and> n < LENGTH('a)"
  by (auto simp: bit_simps)

lemma and_exp_eq_0_iff: "x AND push_bit n 1 = 0 \<longleftrightarrow> \<not> bit x n"
  if "n < LENGTH('a)" for x :: "'a::len word"
proof -
  have "x AND push_bit n 1 = (if bit x n then push_bit n 1 else 0)"
    by (rule bit_word_eqI) (auto simp: bit_simps)
  moreover have "bit (push_bit n (1 :: 'a word)) n"
    using that by (simp add: bit_simps)
  then have "push_bit n (1 :: 'a word) \<noteq> 0" by (metis bit_0_eq bot_apply bot_bool_def)
  ultimately show ?thesis by simp
qed

section \<open>Small ranges\<close>

lemma unat_less_32: "unat x < 4294967296" for x :: u32
  using unsigned_less [of x] by simp

lemma unat_plus_small: "unat a + n < 2 ^ 32 \<Longrightarrow> unat (a + of_nat n) = unat a + n" for a :: u32
  using of_nat_inverse [of "unat a + n" "a + of_nat n"] by simp

text \<open>The bytes of an aligned word or halfword: consecutive, and in one line.\<close>

lemma uint_less_32: "uint x < 4294967296" for x :: u32
  using uint_bounded [of x] by simp

lemma unat_less_16: "unat x < 65536" for x :: u16
  using unsigned_less [of x] by simp

lemma unat_less_8: "unat x < 256" for x :: u8
  using unsigned_less [of x] by simp

lemma word_less_2_cases: "x < 2 \<Longrightarrow> x = 0 \<or> x = 1" for x :: u32
  by unat_arith

lemma word_less_4_cases: "x < 4 \<Longrightarrow> x = 0 \<or> x = 1 \<or> x = 2 \<or> x = 3" for x :: u32
  by unat_arith

lemma byte_less_4_cases: "x < 4 \<Longrightarrow> x = 0 \<or> x = 1 \<or> x = 2 \<or> x = 3" for x :: u8
  by unat_arith

lemma unat_and_mask: "unat (x AND mask n) = unat x mod 2 ^ n" for x :: "'a::len word"
proof -
  have "unat (x AND mask n) = take_bit n (unat x)"
    by (simp add: unsigned_take_bit_eq flip: take_bit_eq_mask)
  then show ?thesis by (simp add: take_bit_eq_mod)
qed

lemma unat_drop_bit_div: "unat (drop_bit n a) = unat a div 2 ^ n" for a :: "'a::len word"
  using unat_drop_bit_eq [of n a] by (simp only: drop_bit_eq_div [of n "unat a"])

text \<open>The low-bit masks of the source, as bit truncation.\<close>

lemma and_low_mask:
  "x AND 3 = take_bit 2 x" "x AND 7 = take_bit 3 x" "x AND 15 = take_bit 4 x"
  "x AND 31 = take_bit 5 x" "x AND 63 = take_bit 6 x" "x AND 127 = take_bit 7 x"
  "x AND 255 = take_bit 8 x" "x AND 511 = take_bit 9 x" "x AND 2047 = take_bit 11 x"
  for x :: "'a::len word"
  by (simp_all add: take_bit_eq_mask mask_eq_exp_minus_1)

lemma take_bit_word_less: "n < LENGTH('a) \<Longrightarrow> take_bit n x < 2 ^ n" for x :: "'a::len word"
  using and_mask_less' [of n x] by (simp add: take_bit_eq_mask word_size)

lemma byte_less_64_iff: "x < 64 \<longleftrightarrow> (\<forall>n \<ge> 6. \<not> bit x n)" for x :: u8
proof
  assume "x < 64"
  then have "unat x < 2 ^ 6" by (simp add: word_less_nat_alt)
  then have "take_bit 6 (unat x) = unat x" by (simp add: take_bit_nat_eq_self_iff)
  then have "take_bit 6 x = x" by (metis unsigned_take_bit_eq word_unat_eq_iff)
  then show "\<forall>n \<ge> 6. \<not> bit x n" by (metis bit_take_bit_iff not_le)
next
  assume "\<forall>n \<ge> 6. \<not> bit x n"
  then have "take_bit 6 x = x" by (intro bit_word_eqI) (auto simp: bit_simps not_le)
  then show "x < 64" using take_bit_word_less [of 6 x] by simp
qed

section \<open>Big-endian bytes\<close>

definition be_word :: "u8 \<Rightarrow> u8 \<Rightarrow> u8 \<Rightarrow> u8 \<Rightarrow> u32" where
  "be_word b0 b1 b2 b3 =
     push_bit 24 (ucast b0) OR push_bit 16 (ucast b1) OR push_bit 8 (ucast b2) OR ucast b3"

definition be_half :: "u8 \<Rightarrow> u8 \<Rightarrow> u16" where
  "be_half hi lo = push_bit 8 (ucast hi) OR ucast lo"

text \<open>\<open>(val >> 8 * i) as u8\<close>\<close>

definition byte_of :: "nat \<Rightarrow> 'a::len word \<Rightarrow> u8" where
  "byte_of i w = ucast (drop_bit (8 * i) w)"

lemma bit_byte_of: "bit (byte_of i w) n \<longleftrightarrow> n < 8 \<and> bit w (8 * i + n)"
  by (auto simp: byte_of_def bit_simps)

lemma be_word_bytes [simp]:
  "be_word (byte_of 3 w) (byte_of 2 w) (byte_of (Suc 0) w) (byte_of 0 w) = w" for w :: u32
proof (rule bit_word_eqI)
  fix n assume "n < LENGTH(32)"
  then have n: "n < 32" by simp
  consider "n < 8" | "8 \<le> n \<and> n < 16" | "16 \<le> n \<and> n < 24" | "24 \<le> n" by linarith
  then show "bit (be_word (byte_of 3 w) (byte_of 2 w) (byte_of (Suc 0) w) (byte_of 0 w)) n
             = bit w n"
    using n by cases (auto simp: be_word_def bit_simps bit_byte_of)
qed

lemma be_half_bytes [simp]: "be_half (byte_of (Suc 0) w) (byte_of 0 w) = w" for w :: u16
proof (rule bit_word_eqI)
  fix n assume "n < LENGTH(16)"
  then have n: "n < 16" by simp
  consider "n < 8" | "8 \<le> n" by linarith
  then show "bit (be_half (byte_of (Suc 0) w) (byte_of 0 w)) n = bit w n"
    using n by cases (auto simp: be_half_def bit_simps bit_byte_of)
qed

section \<open>Lists as arrays\<close>

text \<open>\<open>xs[start .. start + len ys].copy_from_slice(ys)\<close> where the range fits.\<close>

definition splice :: "nat \<Rightarrow> 'a list \<Rightarrow> 'a list \<Rightarrow> 'a list" where
  "splice start ys xs = take start xs @ ys @ drop (start + length ys) xs"

lemma length_splice [simp]: "start + length ys \<le> length xs \<Longrightarrow> length (splice start ys xs) = length xs"
  by (simp add: splice_def)

lemma nth_splice:
  assumes "start + length ys \<le> length xs" and "i < length xs"
  shows "splice start ys xs ! i
         = (if start \<le> i \<and> i < start + length ys then ys ! (i - start) else xs ! i)"
  using assms by (auto simp: splice_def nth_append min_def)

end
