(* ===== verification/Exceptions.thy ===== *)
theory Exceptions
  imports Prelude
begin

text \<open>
  \<open>src/cpu/exception.rs\<close>: the exceptions an instruction can raise, their vector numbers and the
  exception cause word. Also the result type of every fallible operation of the development: a
  Rust panic (\<open>unreachable!()\<close>, a failed index, \<open>unwrap\<close> of nothing) is a fault of its own,
  separate from every architectural exception, so that its absence can be proved.
\<close>

datatype exception =
    Reset
  | MemoryError u32 bool
  | InstructionError u32
  | MachineCheck
  | PrivilegeViolation u32
  | Trap u8
  | Extension
  | MisalignedAccess u32
  | Interrupt1 u8
  | Interrupt2 u8
  | Halt
  | Sleep

fun vector_number :: "exception \<Rightarrow> u8" where
  "vector_number Reset = 0x00"
| "vector_number (MemoryError _ _) = 0x01"
| "vector_number (InstructionError _) = 0x02"
| "vector_number (MisalignedAccess _) = 0x02"
| "vector_number MachineCheck = 0x04"
| "vector_number (PrivilegeViolation _) = 0x06"
| "vector_number (Trap _) = 0x07"
| "vector_number Extension = 0x08"
| "vector_number (Interrupt1 irq) = 16 + irq"
| "vector_number (Interrupt2 irq) = 16 + irq"
| "vector_number Halt = 0x00"
| "vector_number Sleep = 0x00"

text \<open>The \<open>(cause, param)\<close> pair of \<open>encode_ecr\<close>.\<close>

fun ecr_cause_param :: "exception \<Rightarrow> u32 \<times> u32" where
  "ecr_cause_param (MemoryError _ is_write) = (if is_write then 0x02 else 0x01, 0x00)"
| "ecr_cause_param (InstructionError _) = (0x02, 0x00)"
| "ecr_cause_param (MisalignedAccess _) = (0x01, 0x00)"
| "ecr_cause_param (PrivilegeViolation _) = (0x01, 0x00)"
| "ecr_cause_param (Trap param) = (0x01, ucast param)"
| "ecr_cause_param _ = (0x00, 0x00)"

definition encode_ecr :: "exception \<Rightarrow> u32" where
  "encode_ecr e =
     (let vector = ucast (vector_number e); (cause, param) = ecr_cause_param e
      in push_bit 16 vector OR push_bit 8 cause OR param)"

section \<open>Results and faults\<close>

datatype fault = Exn exception | Panic

type_synonym 'a result = "fault + 'a"

lemma take_bit_ucast_byte: "take_bit 8 (ucast b :: u32) = ucast b" for b :: u8
  by (rule bit_word_eqI) (auto simp: bit_simps dest: bit_imp_le_length)

lemma ecr_cause_param_bytes:
  "take_bit 8 (fst (ecr_cause_param e)) = fst (ecr_cause_param e)"
  "take_bit 8 (snd (ecr_cause_param e)) = snd (ecr_cause_param e)"
  by (cases e; simp add: take_bit_ucast_byte)+

lemma high_bit_of_byte: "take_bit 8 x = x \<Longrightarrow> 8 \<le> n \<Longrightarrow> \<not> bit x n" for x :: u32
  by (metis bit_take_bit_iff not_le)

text \<open>The three byte fields of the cause word do not overlap: the vector reads back.\<close>

lemma encode_ecr_vector: "byte_of 2 (encode_ecr e) = vector_number e"
proof (rule bit_word_eqI)
  fix n assume n: "n < LENGTH(8)"
  have "\<not> bit (fst (ecr_cause_param e)) (n + 8)" "\<not> bit (snd (ecr_cause_param e)) (n + 16)"
    by (rule high_bit_of_byte; simp add: ecr_cause_param_bytes)+
  then show "bit (byte_of 2 (encode_ecr e)) n = bit (vector_number e) n"
    using n by (simp add: encode_ecr_def Let_def split_beta bit_byte_of bit_simps add.commute)
qed

end
