(* ===== verification/Machine_Monad.thy ===== *)
theory Machine_Monad
  imports Exceptions
begin

text \<open>
  A method of the emulator that takes \<open>&mut self\<close> and returns \<open>Result<T, Exception>\<close> is an
  operation on the state: it returns the result together with the state it leaves behind, also
  when it fails, since the source keeps the mutations made before an early return. \<open>bindM\<close> is the
  question mark operator. Facts about an operation are stated with \<open>wp\<close>: the postcondition
  for a normal return and the one for a fault, read in the state that is left.
\<close>

type_synonym ('s, 'a) op = "'s \<Rightarrow> 'a result \<times> 's"

definition returnM :: "'a \<Rightarrow> ('s, 'a) op" where
  "returnM a s = (Inr a, s)"

definition throwM :: "exception \<Rightarrow> ('s, 'a) op" where
  "throwM e s = (Inl (Exn e), s)"

definition panicM :: "('s, 'a) op" where
  "panicM s = (Inl Panic, s)"

definition bindM :: "('s, 'a) op \<Rightarrow> ('a \<Rightarrow> ('s, 'b) op) \<Rightarrow> ('s, 'b) op" where
  "bindM m f s = (case m s of (Inl e, s') \<Rightarrow> (Inl e, s') | (Inr a, s') \<Rightarrow> f a s')"

definition thenM :: "('s, unit) op \<Rightarrow> ('s, 'b) op \<Rightarrow> ('s, 'b) op" where
  "thenM m k = bindM m (\<lambda>_. k)"

definition getsM :: "('s \<Rightarrow> 'a) \<Rightarrow> ('s, 'a) op" where
  "getsM f s = (Inr (f s), s)"

definition modifyM :: "('s \<Rightarrow> 's) \<Rightarrow> ('s, unit) op" where
  "modifyM f s = (Inr (), f s)"

text \<open>A call of a \<open>&self\<close> method that returns a \<open>Result\<close>.\<close>

definition readM :: "('s \<Rightarrow> 'a result) \<Rightarrow> ('s, 'a) op" where
  "readM f s = (f s, s)"

text \<open>\<open>opt.ok_or(e)?\<close>\<close>

definition ok_orM :: "'a option \<Rightarrow> exception \<Rightarrow> ('s, 'a) op" where
  "ok_orM x e = (case x of None \<Rightarrow> throwM e | Some a \<Rightarrow> returnM a)"

text \<open>An operation on a part of the state, with the part's getter and updater.\<close>

definition zoomM :: "('s \<Rightarrow> 't) \<Rightarrow> ('t \<Rightarrow> 's \<Rightarrow> 's) \<Rightarrow> ('t, 'a) op \<Rightarrow> ('s, 'a) op" where
  "zoomM get put m s = (case m (get s) of (r, t) \<Rightarrow> (r, put t s))"

lemmas op_defs = returnM_def throwM_def panicM_def bindM_def thenM_def getsM_def modifyM_def
  readM_def ok_orM_def zoomM_def

section \<open>Weakest preconditions\<close>

definition wp :: "('s, 'a) op \<Rightarrow> ('a \<Rightarrow> 's \<Rightarrow> bool) \<Rightarrow> (fault \<Rightarrow> 's \<Rightarrow> bool) \<Rightarrow> 's \<Rightarrow> bool" where
  "wp m Q E s = (case m s of (Inl e, s') \<Rightarrow> E e s' | (Inr a, s') \<Rightarrow> Q a s')"

lemma wp_returnM [simp]: "wp (returnM a) Q E s = Q a s"
  by (simp add: wp_def returnM_def)

lemma wp_throwM [simp]: "wp (throwM e) Q E s = E (Exn e) s"
  by (simp add: wp_def throwM_def)

lemma wp_panicM [simp]: "wp panicM Q E s = E Panic s"
  by (simp add: wp_def panicM_def)

lemma wp_bindM [simp]: "wp (bindM m f) Q E s = wp m (\<lambda>a. wp (f a) Q E) E s"
  by (simp add: wp_def bindM_def split: prod.splits sum.splits)

lemma wp_thenM [simp]: "wp (thenM m k) Q E s = wp m (\<lambda>_. wp k Q E) E s"
  by (simp add: thenM_def)

lemma wp_getsM [simp]: "wp (getsM f) Q E s = Q (f s) s"
  by (simp add: wp_def getsM_def)

lemma wp_modifyM [simp]: "wp (modifyM f) Q E s = Q () (f s)"
  by (simp add: wp_def modifyM_def)

lemma wp_readM [simp]: "wp (readM f) Q E s = (case f s of Inl e \<Rightarrow> E e s | Inr a \<Rightarrow> Q a s)"
  by (simp add: wp_def readM_def split: sum.splits)

lemma wp_ok_orM [simp]:
  "wp (ok_orM x e) Q E s = (case x of None \<Rightarrow> E (Exn e) s | Some a \<Rightarrow> Q a s)"
  by (simp add: ok_orM_def split: option.splits)

lemma wp_zoomM [simp]:
  "wp (zoomM get put m) Q E s = wp m (\<lambda>a t. Q a (put t s)) (\<lambda>e t. E e (put t s)) (get s)"
  by (simp add: wp_def zoomM_def split: prod.splits sum.splits)

lemma wp_if [simp]: "wp (if b then m else k) Q E s = (if b then wp m Q E s else wp k Q E s)"
  by simp

lemma wp_case_prod [simp]: "wp (case p of (a, b) \<Rightarrow> f a b) Q E s = wp (f (fst p) (snd p)) Q E s"
  by (simp add: split_beta)

lemma wp_mono:
  "wp m Q E s \<Longrightarrow> (\<And>a t. Q a t \<Longrightarrow> Q' a t) \<Longrightarrow> (\<And>e t. E e t \<Longrightarrow> E' e t) \<Longrightarrow> wp m Q' E' s"
  by (auto simp: wp_def split: prod.splits sum.splits)

lemma wp_conj: "wp m Q E s \<Longrightarrow> wp m Q' E' s \<Longrightarrow> wp m (\<lambda>a t. Q a t \<and> Q' a t) (\<lambda>e t. E e t \<and> E' e t) s"
  by (auto simp: wp_def split: prod.splits sum.splits)

lemma wp_InrD: "wp m Q E s \<Longrightarrow> m s = (Inr a, t) \<Longrightarrow> Q a t"
  by (simp add: wp_def)

lemma wp_InlD: "wp m Q E s \<Longrightarrow> m s = (Inl e, t) \<Longrightarrow> E e t"
  by (simp add: wp_def)

lemma wp_True [simp]: "wp m (\<lambda>_ _. True) (\<lambda>_ _. True) s"
  by (simp add: wp_def split: prod.splits sum.splits)

section \<open>Three shapes of contract\<close>

text \<open>A state predicate kept on every path, faults included; a result predicate; no panic.\<close>

definition keeps :: "('s \<Rightarrow> bool) \<Rightarrow> ('s, 'a) op \<Rightarrow> bool" where
  "keeps I m \<longleftrightarrow> (\<forall>s. I s \<longrightarrow> wp m (\<lambda>_. I) (\<lambda>_. I) s)"

definition yields :: "('s, 'a) op \<Rightarrow> ('a \<Rightarrow> bool) \<Rightarrow> bool" where
  "yields m Q \<longleftrightarrow> (\<forall>s. wp m (\<lambda>a _. Q a) (\<lambda>e _. e \<noteq> Panic) s)"

definition panic_free :: "('s, 'a) op \<Rightarrow> bool" where
  "panic_free m \<longleftrightarrow> yields m (\<lambda>_. True)"

named_theorems keeps_intro
named_theorems yields_intro

lemma keepsI: "(\<And>s. I s \<Longrightarrow> wp m (\<lambda>_. I) (\<lambda>_. I) s) \<Longrightarrow> keeps I m"
  by (simp add: keeps_def)

lemma keepsD: "keeps I m \<Longrightarrow> I s \<Longrightarrow> wp m (\<lambda>_. I) (\<lambda>_. I) s"
  by (simp add: keeps_def)

lemma keeps_result: "keeps I m \<Longrightarrow> I s \<Longrightarrow> m s = (r, t) \<Longrightarrow> I t"
  by (cases r) (auto simp: keeps_def wp_def)

lemma keeps_returnM [keeps_intro]: "keeps I (returnM a)"
  and keeps_throwM [keeps_intro]: "keeps I (throwM e)"
  and keeps_panicM [keeps_intro]: "keeps I panicM"
  and keeps_getsM [keeps_intro]: "keeps I (getsM f)"
  by (simp_all add: keeps_def)

lemma keeps_readM [keeps_intro]: "keeps I (readM g)"
  by (simp add: keeps_def split: sum.splits)

lemma keeps_ok_orM [keeps_intro]: "keeps I (ok_orM x e)"
  by (simp add: keeps_def split: option.splits)

lemma keeps_bindM [keeps_intro]: "keeps I m \<Longrightarrow> (\<And>a. keeps I (f a)) \<Longrightarrow> keeps I (bindM m f)"
  by (simp add: keeps_def) (blast intro: wp_mono)

lemma keeps_thenM [keeps_intro]: "keeps I m \<Longrightarrow> keeps I k \<Longrightarrow> keeps I (thenM m k)"
  by (simp add: thenM_def keeps_bindM)

lemma keeps_modifyM [keeps_intro]: "(\<And>s. I s \<Longrightarrow> I (f s)) \<Longrightarrow> keeps I (modifyM f)"
  by (simp add: keeps_def)

lemma keeps_if [keeps_intro]: "(b \<Longrightarrow> keeps I m) \<Longrightarrow> (\<not> b \<Longrightarrow> keeps I k) \<Longrightarrow> keeps I (if b then m else k)"
  by simp

lemma keeps_case_prod [keeps_intro]: "(\<And>a b. keeps I (f a b)) \<Longrightarrow> keeps I (case p of (a, b) \<Rightarrow> f a b)"
  by (simp add: split_beta)

lemma keeps_case_option [keeps_intro]:
  "keeps I m \<Longrightarrow> (\<And>a. keeps I (f a)) \<Longrightarrow> keeps I (case x of None \<Rightarrow> m | Some a \<Rightarrow> f a)"
  by (simp split: option.splits)

lemma keeps_zoomM [keeps_intro]:
  "(\<And>s. I s \<Longrightarrow> J (get s)) \<Longrightarrow> (\<And>s t. I s \<Longrightarrow> J t \<Longrightarrow> I (put t s)) \<Longrightarrow> keeps J m \<Longrightarrow> keeps I (zoomM get put m)"
  by (simp add: keeps_def) (blast intro: wp_mono)

lemma yieldsI: "(\<And>s. wp m (\<lambda>a _. Q a) (\<lambda>e _. e \<noteq> Panic) s) \<Longrightarrow> yields m Q"
  by (simp add: yields_def)

lemma yieldsD: "yields m Q \<Longrightarrow> m s = (Inr a, t) \<Longrightarrow> Q a"
  by (auto simp: yields_def dest: wp_InrD)

lemma yields_not_Panic: "yields m Q \<Longrightarrow> m s \<noteq> (Inl Panic, t)"
  by (auto simp: yields_def dest: wp_InlD)

lemma yields_returnM [yields_intro]: "Q a \<Longrightarrow> yields (returnM a) Q"
  and yields_throwM [yields_intro]: "yields (throwM e) Q"
  by (simp_all add: yields_def)

lemma yields_ok_orM [yields_intro]: "(\<And>a. x = Some a \<Longrightarrow> Q a) \<Longrightarrow> yields (ok_orM x e) Q"
  by (simp add: yields_def split: option.splits)

lemma yields_bindM:
  "yields m R \<Longrightarrow> (\<And>a. R a \<Longrightarrow> yields (f a) Q) \<Longrightarrow> yields (bindM m f) Q"
  by (simp add: yields_def) (blast intro: wp_mono)

text \<open>Where nothing is needed of the first result.\<close>

lemma yields_bindM_any [yields_intro]:
  "yields m (\<lambda>_. True) \<Longrightarrow> (\<And>a. yields (f a) Q) \<Longrightarrow> yields (bindM m f) Q"
  by (rule yields_bindM)

lemma yields_mono: "yields m R \<Longrightarrow> (\<And>a. R a \<Longrightarrow> Q a) \<Longrightarrow> yields m Q"
  by (simp add: yields_def) (blast intro: wp_mono)

lemma yields_if [yields_intro]:
  "(b \<Longrightarrow> yields m Q) \<Longrightarrow> (\<not> b \<Longrightarrow> yields k Q) \<Longrightarrow> yields (if b then m else k) Q"
  by simp

section \<open>Safe operations\<close>

text \<open>From a state in the invariant, no panic, and the invariant again on every path.\<close>

definition safe :: "('s \<Rightarrow> bool) \<Rightarrow> ('s, 'a) op \<Rightarrow> bool" where
  "safe I m \<longleftrightarrow> (\<forall>s. I s \<longrightarrow> fst (m s) \<noteq> Inl Panic \<and> I (snd (m s)))"

named_theorems safe_intro

lemma safeI: "(\<And>s. I s \<Longrightarrow> fst (m s) \<noteq> Inl Panic \<and> I (snd (m s))) \<Longrightarrow> safe I m"
  by (simp add: safe_def)

lemma safeD: "safe I m \<Longrightarrow> I s \<Longrightarrow> fst (m s) \<noteq> Inl Panic \<and> I (snd (m s))"
  by (simp add: safe_def)

lemma safe_keeps: "safe I m \<Longrightarrow> keeps I m"
  by (auto simp: safe_def keeps_def wp_def split: prod.split sum.split)

lemma safe_returnM [safe_intro]: "safe I (returnM a)"
  and safe_throwM [safe_intro]: "safe I (throwM e)"
  and safe_getsM [safe_intro]: "safe I (getsM f)"
  by (simp_all add: safe_def op_defs)

lemma safe_readM [safe_intro]: "(\<And>s. I s \<Longrightarrow> f s \<noteq> Inl Panic) \<Longrightarrow> safe I (readM f)"
  by (simp add: safe_def readM_def)

lemma safe_modifyM [safe_intro]: "(\<And>s. I s \<Longrightarrow> I (f s)) \<Longrightarrow> safe I (modifyM f)"
  by (simp add: safe_def modifyM_def)

lemma safe_bindM [safe_intro]: "safe I m \<Longrightarrow> (\<And>a. safe I (f a)) \<Longrightarrow> safe I (bindM m f)"
proof (rule safeI)
  fix s assume m: "safe I m" and f: "\<And>a. safe I (f a)" and "I s"
  obtain r t where r: "m s = (r, t)" by (cases "m s")
  then show "fst (bindM m f s) \<noteq> Inl Panic \<and> I (snd (bindM m f s))"
    using safeD [OF m \<open>I s\<close>] safeD [OF f, of t] by (cases r) (simp_all add: bindM_def)
qed

lemma safe_thenM [safe_intro]: "safe I m \<Longrightarrow> safe I k \<Longrightarrow> safe I (thenM m k)"
  by (simp add: thenM_def safe_bindM)

lemma safe_if [safe_intro]: "(b \<Longrightarrow> safe I m) \<Longrightarrow> (\<not> b \<Longrightarrow> safe I k) \<Longrightarrow> safe I (if b then m else k)"
  by simp

lemma safe_case_prod [safe_intro]: "(\<And>a b. safe I (f a b)) \<Longrightarrow> safe I (case p of (a, b) \<Rightarrow> f a b)"
  by (simp add: split_beta)

lemma safe_case_option [safe_intro]:
  "safe I m \<Longrightarrow> (\<And>a. safe I (f a)) \<Longrightarrow> safe I (case x of None \<Rightarrow> m | Some a \<Rightarrow> f a)"
  by (simp split: option.splits)

lemma safe_zoomM:
  "safe J m \<Longrightarrow> (\<And>s. I s \<Longrightarrow> J (get s)) \<Longrightarrow> (\<And>s t. I s \<Longrightarrow> J t \<Longrightarrow> I (put t s)) \<Longrightarrow> safe I (zoomM get put m)"
  by (simp add: safe_def zoomM_def split_beta)

text \<open>Where the second operation needs what the first returned.\<close>

lemma safe_bindM_yields:
  assumes "safe I m" and "yields m Q" and "\<And>a. Q a \<Longrightarrow> safe I (f a)"
  shows "safe I (bindM m f)"
proof (rule safeI)
  fix s assume "I s"
  obtain r t where r: "m s = (r, t)" by (cases "m s")
  then show "fst (bindM m f s) \<noteq> Inl Panic \<and> I (snd (bindM m f s))"
    using safeD [OF assms(1) \<open>I s\<close>] yieldsD [OF assms(2), of s _ t] safeD [OF assms(3), of _ t]
    by (cases r) (simp_all add: bindM_def)
qed

lemma safe_fold_thenM:
  "(\<And>x. x \<in> set xs \<Longrightarrow> safe I (f x)) \<Longrightarrow> safe I acc \<Longrightarrow> safe I (fold (\<lambda>x acc. thenM acc (f x)) xs acc)"
  by (induction xs arbitrary: acc) (simp_all add: safe_thenM)

section \<open>Two stores, one behaviour\<close>

text \<open>Two operations on related states return the same result and keep the states related. The address
  of a memory error may differ: it depends on the transfer the store chose.\<close>

definition same_fault :: "fault \<Rightarrow> fault \<Rightarrow> bool" where
  "same_fault e e' \<longleftrightarrow>
     e = e' \<or> (\<exists>a b w. e = Exn (MemoryError a w) \<and> e' = Exn (MemoryError b w))"

fun same_result :: "'a result \<Rightarrow> 'a result \<Rightarrow> bool" where
  "same_result (Inr a) (Inr b) = (a = b)"
| "same_result (Inl e) (Inl e') = same_fault e e'"
| "same_result _ _ = False"

lemma same_result_refl [simp]: "same_result r r"
  by (cases r) (simp_all add: same_fault_def)

lemma same_result_Inr [simp]:
  "same_result r (Inr a) \<longleftrightarrow> r = Inr a" "same_result (Inr a) r \<longleftrightarrow> r = Inr a"
  by (cases r; auto)+

definition agree :: "('s \<Rightarrow> 't \<Rightarrow> bool) \<Rightarrow> ('s, 'a) op \<Rightarrow> ('t, 'a) op \<Rightarrow> bool" where
  "agree R m k \<longleftrightarrow>
     (\<forall>s t. R s t \<longrightarrow> same_result (fst (m s)) (fst (k t)) \<and> R (snd (m s)) (snd (k t)))"

named_theorems agree_intro

lemma agreeD: "agree R m k \<Longrightarrow> R s t \<Longrightarrow> same_result (fst (m s)) (fst (k t)) \<and> R (snd (m s)) (snd (k t))"
  by (simp add: agree_def)

lemma agree_returnM [agree_intro]: "agree R (returnM a) (returnM a)"
  and agree_throwM [agree_intro]: "agree R (throwM e) (throwM e)"
  and agree_panicM [agree_intro]: "agree R panicM panicM"
  by (simp_all add: agree_def op_defs)

lemma agree_ok_orM [agree_intro]: "agree R (ok_orM x e) (ok_orM x e)"
  by (simp add: ok_orM_def agree_intro split: option.splits)

lemma agree_bindM [agree_intro]:
  assumes "agree R m k" and "\<And>a. agree R (f a) (g a)"
  shows "agree R (bindM m f) (bindM k g)"
  unfolding agree_def
proof (intro allI impI)
  fix s t assume "R s t"
  then have 1: "same_result (fst (m s)) (fst (k t))" "R (snd (m s)) (snd (k t))"
    using assms(1) by (simp_all add: agree_def)
  obtain r s' r' t' where ms: "m s = (r, s')" "k t = (r', t')" by (metis prod.collapse)
  show "same_result (fst (bindM m f s)) (fst (bindM k g t)) \<and> R (snd (bindM m f s)) (snd (bindM k g t))"
    using 1 ms assms(2) by (cases r; cases r') (auto simp: bindM_def agree_def)
qed

lemma agree_if [agree_intro]:
  "agree R m k \<Longrightarrow> agree R m' k' \<Longrightarrow> agree R (if b then m else m') (if b then k else k')"
  by simp

lemma agree_case_prod [agree_intro]:
  "(\<And>a b. agree R (f a b) (g a b)) \<Longrightarrow>
     agree R (case p of (a, b) \<Rightarrow> f a b) (case p of (a, b) \<Rightarrow> g a b)"
  by (simp add: split_beta)

section \<open>Running an operation\<close>

text \<open>Evaluation rules for closed instances.\<close>

named_theorems run_simps

lemma bindM_Inr [run_simps]: "m s = (Inr a, t) \<Longrightarrow> bindM m f s = f a t"
  and bindM_Inl [run_simps]: "m s = (Inl e, t) \<Longrightarrow> bindM m f s = (Inl e, t)"
  by (simp_all add: bindM_def)

lemma bindM_assoc: "bindM (bindM m f) g = bindM m (\<lambda>a. bindM (f a) g)"
  by (rule ext) (simp add: bindM_def split: prod.splits sum.splits)

lemma bindM_returnM [simp]: "bindM (returnM a) f = f a"
  by (rule ext) (simp add: bindM_def returnM_def)

lemma bindM_throwM [simp]: "bindM (throwM e) f = throwM e"
  by (rule ext) (simp add: bindM_def throwM_def)

lemma bindM_panicM [simp]: "bindM panicM f = panicM"
  by (rule ext) (simp add: bindM_def panicM_def)

end
