(* ===== verification/Register_Names.thy ===== *)
theory Register_Names
  imports Prelude
begin

text \<open>
  \<open>src/cpu/registers.rs\<close>, the constants: indices of the special core registers, addresses of
  the auxiliary registers and bit positions of \<open>STATUS32\<close>. They are abbreviations, so that
  address decoding is arithmetic on numerals.
\<close>

abbreviation (input) "REG_GP \<equiv> (26 :: u8)"
abbreviation (input) "REG_FP \<equiv> (27 :: u8)"
abbreviation (input) "REG_SP \<equiv> (28 :: u8)"
abbreviation (input) "REG_ILINK1 \<equiv> (29 :: u8)"
abbreviation (input) "REG_ILINK2 \<equiv> (30 :: u8)"
abbreviation (input) "REG_BLINK \<equiv> (31 :: u8)"
abbreviation (input) "REG_LP_COUNT \<equiv> (60 :: u8)"
abbreviation (input) "REG_LIMM \<equiv> (62 :: u8)"
abbreviation (input) "REG_PCL \<equiv> (63 :: u8)"

abbreviation (input) "AUX_STATUS \<equiv> (0x00 :: u32)"
abbreviation (input) "AUX_SEMAPHORE \<equiv> (0x01 :: u32)"
abbreviation (input) "AUX_LP_START \<equiv> (0x02 :: u32)"
abbreviation (input) "AUX_LP_END \<equiv> (0x03 :: u32)"
abbreviation (input) "AUX_IDENTITY \<equiv> (0x04 :: u32)"
abbreviation (input) "AUX_DEBUG \<equiv> (0x05 :: u32)"
abbreviation (input) "AUX_PC \<equiv> (0x06 :: u32)"
abbreviation (input) "AUX_STATUS32 \<equiv> (0x0A :: u32)"
abbreviation (input) "AUX_STATUS32_L1 \<equiv> (0x0B :: u32)"
abbreviation (input) "AUX_STATUS32_L2 \<equiv> (0x0C :: u32)"
abbreviation (input) "AUX_COUNT0 \<equiv> (0x21 :: u32)"
abbreviation (input) "AUX_CONTROL0 \<equiv> (0x22 :: u32)"
abbreviation (input) "AUX_LIMIT0 \<equiv> (0x23 :: u32)"
abbreviation (input) "AUX_INT_VECTOR_BASE \<equiv> (0x25 :: u32)"
abbreviation (input) "AUX_MACMODE \<equiv> (0x41 :: u32)"
abbreviation (input) "AUX_IRQ_LV12 \<equiv> (0x43 :: u32)"
abbreviation (input) "AUX_COUNT1 \<equiv> (0x100 :: u32)"
abbreviation (input) "AUX_CONTROL1 \<equiv> (0x101 :: u32)"
abbreviation (input) "AUX_LIMIT1 \<equiv> (0x102 :: u32)"
abbreviation (input) "AUX_IRQ_LEV \<equiv> (0x200 :: u32)"
abbreviation (input) "AUX_IRQ_HINT \<equiv> (0x201 :: u32)"
abbreviation (input) "AUX_ERET \<equiv> (0x400 :: u32)"
abbreviation (input) "AUX_ERBTA \<equiv> (0x401 :: u32)"
abbreviation (input) "AUX_ERSTATUS \<equiv> (0x402 :: u32)"
abbreviation (input) "AUX_ECR \<equiv> (0x403 :: u32)"
abbreviation (input) "AUX_EFA \<equiv> (0x404 :: u32)"
abbreviation (input) "AUX_ICAUSE1 \<equiv> (0x40A :: u32)"
abbreviation (input) "AUX_ICAUSE2 \<equiv> (0x40B :: u32)"
abbreviation (input) "AUX_IENABLE \<equiv> (0x40C :: u32)"
abbreviation (input) "AUX_ITRIGGER \<equiv> (0x40D :: u32)"
abbreviation (input) "AUX_XPU \<equiv> (0x410 :: u32)"
abbreviation (input) "AUX_BTA \<equiv> (0x412 :: u32)"
abbreviation (input) "AUX_BTA_L1 \<equiv> (0x413 :: u32)"
abbreviation (input) "AUX_BTA_L2 \<equiv> (0x414 :: u32)"
abbreviation (input) "AUX_IRQ_PULSE_CANCEL \<equiv> (0x415 :: u32)"
abbreviation (input) "AUX_IRQ_PENDING \<equiv> (0x416 :: u32)"

abbreviation (input) "IDENTITY_VALUE \<equiv> (0x00B40124 :: u32)"

abbreviation (input) "AUX_BCR_VER \<equiv> (0x60 :: u32)"
abbreviation (input) "AUX_BTA_LINK_BUILD \<equiv> (0x63 :: u32)"
abbreviation (input) "AUX_EA_BUILD \<equiv> (0x65 :: u32)"
abbreviation (input) "AUX_VECBASE_AC_BUILD \<equiv> (0x68 :: u32)"
abbreviation (input) "AUX_RF_BUILD \<equiv> (0x6E :: u32)"
abbreviation (input) "AUX_D_CACHE_BUILD \<equiv> (0x72 :: u32)"
abbreviation (input) "AUX_DCCM_BUILD \<equiv> (0x74 :: u32)"
abbreviation (input) "AUX_TIMER_BUILD \<equiv> (0x75 :: u32)"
abbreviation (input) "AUX_I_CACHE_BUILD \<equiv> (0x77 :: u32)"
abbreviation (input) "AUX_ICCM_BUILD \<equiv> (0x78 :: u32)"
abbreviation (input) "AUX_MULTIPLY_BUILD \<equiv> (0x7B :: u32)"
abbreviation (input) "AUX_SWAP_BUILD \<equiv> (0x7C :: u32)"
abbreviation (input) "AUX_NORM_BUILD \<equiv> (0x7D :: u32)"
abbreviation (input) "AUX_MINMAX_BUILD \<equiv> (0x7E :: u32)"
abbreviation (input) "AUX_BARREL_BUILD \<equiv> (0x7F :: u32)"

abbreviation (input) "S32_H \<equiv> (0 :: nat)"
abbreviation (input) "S32_E1 \<equiv> (1 :: nat)"
abbreviation (input) "S32_E2 \<equiv> (2 :: nat)"
abbreviation (input) "S32_A1 \<equiv> (3 :: nat)"
abbreviation (input) "S32_A2 \<equiv> (4 :: nat)"
abbreviation (input) "S32_AE \<equiv> (5 :: nat)"
abbreviation (input) "S32_DE \<equiv> (6 :: nat)"
abbreviation (input) "S32_U \<equiv> (7 :: nat)"
abbreviation (input) "S32_V \<equiv> (8 :: nat)"
abbreviation (input) "S32_C \<equiv> (9 :: nat)"
abbreviation (input) "S32_N \<equiv> (10 :: nat)"
abbreviation (input) "S32_Z \<equiv> (11 :: nat)"
abbreviation (input) "S32_L \<equiv> (12 :: nat)"

end
