(* ===== verification/Watchpoints.thy ===== *)
theory Watchpoints
  imports Prelude
begin

text \<open>
  The watchpoint table of \<open>src/memory.rs\<close>: half-open address ranges with an access direction, and
  the last hit, which the step loop takes to pause the processor.
\<close>

datatype watch_mode = WatchRead | WatchWrite | WatchReadWrite

record watchpoint =
  wp_addr :: u32
  wp_size :: u32
  wp_mode :: watch_mode

record watchpoint_table =
  wpt_entries :: "watchpoint list"
  wpt_hit :: "(u32 \<times> watch_mode) option"

definition saturating_add32 :: "u32 \<Rightarrow> u32 \<Rightarrow> u32" where
  "saturating_add32 a b = (if unat a + unat b < 2 ^ 32 then a + b else 0xFFFFFFFF)"

definition watch_matches :: "watchpoint \<Rightarrow> u32 \<Rightarrow> u32 \<Rightarrow> watch_mode \<Rightarrow> bool" where
  "watch_matches w access_addr access_size access \<longleftrightarrow>
     (let a_end = saturating_add32 access_addr access_size;
          w_end = saturating_add32 (wp_addr w) (wp_size w);
          overlaps = access_addr < w_end \<and> wp_addr w < a_end;
          mode_match = (case (wp_mode w, access) of
                          (WatchReadWrite, _) \<Rightarrow> True
                        | (WatchRead, WatchRead) \<Rightarrow> True
                        | (WatchWrite, WatchWrite) \<Rightarrow> True
                        | _ \<Rightarrow> False)
      in overlaps \<and> mode_match)"

definition watch_add :: "watchpoint \<Rightarrow> watchpoint_table \<Rightarrow> nat \<times> watchpoint_table" where
  "watch_add w t = (length (wpt_entries t), t\<lparr>wpt_entries := wpt_entries t @ [w]\<rparr>)"

definition watch_remove :: "nat \<Rightarrow> watchpoint_table \<Rightarrow> watchpoint_table" where
  "watch_remove i t =
     (if i < length (wpt_entries t)
      then t\<lparr>wpt_entries := take i (wpt_entries t) @ drop (i + 1) (wpt_entries t)\<rparr> else t)"

definition watch_clear :: "watchpoint_table \<Rightarrow> watchpoint_table" where
  "watch_clear t = t\<lparr>wpt_entries := [], wpt_hit := None\<rparr>"

definition watch_take_hit :: "watchpoint_table \<Rightarrow> (u32 \<times> watch_mode) option \<times> watchpoint_table" where
  "watch_take_hit t = (wpt_hit t, t\<lparr>wpt_hit := None\<rparr>)"

definition watch_check :: "u32 \<Rightarrow> u32 \<Rightarrow> watch_mode \<Rightarrow> watchpoint_table \<Rightarrow> bool \<times> watchpoint_table" where
  "watch_check addr width access t =
     (if \<exists>w \<in> set (wpt_entries t). watch_matches w addr width access
      then (True, t\<lparr>wpt_hit := Some (addr, access)\<rparr>) else (False, t))"

definition watch_table_new :: watchpoint_table where
  "watch_table_new = \<lparr>wpt_entries = [], wpt_hit = None\<rparr>"

text \<open>Two non-empty ranges that do not reach the top of the address space overlap iff they share an
  address.\<close>

lemma watch_overlap_iff:
  assumes "unat a + unat n < 2 ^ 32" and "unat (wp_addr w) + unat (wp_size w) < 2 ^ 32"
  shows "watch_matches w a n access \<longleftrightarrow>
    unat a < unat (wp_addr w) + unat (wp_size w) \<and> unat (wp_addr w) < unat a + unat n
    \<and> (wp_mode w = WatchReadWrite \<or> wp_mode w = access \<and> access \<noteq> WatchReadWrite)"
proof -
  have "unat (a + n) = unat a + unat n" "unat (wp_addr w + wp_size w) = unat (wp_addr w) + unat (wp_size w)"
    using assms by (simp_all add: unat_word_ariths)
  then show ?thesis
    using assms
    by (cases "wp_mode w"; cases access) (auto simp: watch_matches_def saturating_add32_def word_less_nat_alt Let_def)
qed

end
