(* ===== verification/Registers.thy ===== *)
theory Registers
  imports Machine_Monad Register_Names Watchpoints
begin

text \<open>
  \<open>src/cpu/registers.rs\<close>: the register state of the core and its four access paths (core and
  auxiliary registers, read and write), with the privilege checks of user mode, and the packing
  of the flags into \<open>STATUS32\<close>. The \<open>BusDeadlock\<close> pause reason exists only with the \<open>timing\<close>
  feature, which the default build leaves out, as this model does.
\<close>

datatype delay_state =
    Delay_None
  | DelaySlot u32 bool \<comment> \<open>target, is_link\<close>

datatype pause_reason =
    PauseReason_None | Breakpoint u32 | Watch u32 watch_mode | UserPause | Halted
  | SpinNoWatchdog u32

record cpu_state =
  core_regs :: "u32 list"
  pc :: u32
  flag_z :: bool
  flag_n :: bool
  flag_c :: bool
  flag_v :: bool
  flag_e1 :: bool
  flag_e2 :: bool
  flag_a1 :: bool
  flag_a2 :: bool
  flag_ae :: bool
  flag_de :: bool
  flag_u :: bool
  flag_l :: bool
  flag_h :: bool
  aux_lp_start :: u32
  aux_lp_end :: u32
  aux_semaphore :: u32
  aux_status32_l1 :: u32
  aux_status32_l2 :: u32
  aux_int_vector_base :: u32
  aux_macmode :: u32
  aux_irq_lv12 :: u32
  aux_irq_lev :: u32
  aux_irq_hint :: u32
  aux_count0 :: u32
  aux_control0 :: u32
  aux_limit0 :: u32
  aux_count1 :: u32
  aux_control1 :: u32
  aux_limit1 :: u32
  timer1_irq :: u32
  aux_eret :: u32
  aux_erbta :: u32
  aux_erstatus :: u32
  aux_ecr :: u32
  aux_efa :: u32
  aux_icause1 :: u32
  aux_icause2 :: u32
  aux_itrigger :: u32
  aux_xpu :: u32
  aux_bta :: u32
  aux_bta_l1 :: u32
  aux_bta_l2 :: u32
  aux_irq_pulse_cancel :: u32
  aux_irq_pending :: u32
  delay_state :: delay_state
  halted :: bool
  sleeping :: bool
  paused :: bool
  pause_reason :: pause_reason
  instruction_count :: u64
  pc_written :: bool
  link_executed :: bool
  irq_shadow_r0_r3 :: "u32 list"
  aux_dc_ctrl :: u32
  debug_load_pending :: bool

definition new_cpu_state :: cpu_state where
  "new_cpu_state =
     \<lparr>core_regs = replicate 64 0, pc = 0,
      flag_z = False, flag_n = False, flag_c = False, flag_v = False,
      flag_e1 = False, flag_e2 = False, flag_a1 = False, flag_a2 = False,
      flag_ae = False, flag_de = False, flag_u = False, flag_l = False, flag_h = False,
      aux_lp_start = 0, aux_lp_end = 0, aux_semaphore = 0,
      aux_status32_l1 = 0, aux_status32_l2 = 0, aux_int_vector_base = 0,
      aux_macmode = 0, aux_irq_lv12 = 0, aux_irq_lev = 0, aux_irq_hint = 0,
      aux_count0 = 0, aux_control0 = 0, aux_limit0 = 0,
      aux_count1 = 0, aux_control1 = 0, aux_limit1 = 0, timer1_irq = 4,
      aux_eret = 0, aux_erbta = 0, aux_erstatus = 0, aux_ecr = 0, aux_efa = 0,
      aux_icause1 = 0, aux_icause2 = 0, aux_itrigger = 0, aux_xpu = 0,
      aux_bta = 0, aux_bta_l1 = 0, aux_bta_l2 = 0, aux_irq_pulse_cancel = 0,
      aux_irq_pending = 0, delay_state = Delay_None,
      halted = False, sleeping = False, paused = False, pause_reason = PauseReason_None,
      instruction_count = 0, pc_written = False, link_executed = False,
      irq_shadow_r0_r3 = replicate 4 0, aux_dc_ctrl = 0xC2, debug_load_pending = False\<rparr>"

definition status32 :: "cpu_state \<Rightarrow> u32" where
  "status32 s =
     bool_at S32_H (flag_h s) OR bool_at S32_E1 (flag_e1 s) OR bool_at S32_E2 (flag_e2 s)
     OR bool_at S32_A1 (flag_a1 s) OR bool_at S32_A2 (flag_a2 s) OR bool_at S32_AE (flag_ae s)
     OR bool_at S32_DE (flag_de s) OR bool_at S32_U (flag_u s) OR bool_at S32_V (flag_v s)
     OR bool_at S32_C (flag_c s) OR bool_at S32_N (flag_n s) OR bool_at S32_Z (flag_z s)
     OR bool_at S32_L (flag_l s)"

definition set_status32 :: "u32 \<Rightarrow> cpu_state \<Rightarrow> cpu_state" where
  "set_status32 val s =
     s\<lparr>flag_h := bit_set val S32_H, flag_e1 := bit_set val S32_E1, flag_e2 := bit_set val S32_E2,
       flag_a1 := bit_set val S32_A1, flag_a2 := bit_set val S32_A2, flag_ae := bit_set val S32_AE,
       flag_de := bit_set val S32_DE, flag_u := bit_set val S32_U, flag_v := bit_set val S32_V,
       flag_c := bit_set val S32_C, flag_n := bit_set val S32_N, flag_z := bit_set val S32_Z,
       flag_l := bit_set val S32_L\<rparr>"

section \<open>Core registers\<close>

definition read_core_reg :: "u8 \<Rightarrow> cpu_state \<Rightarrow> u32 result" where
  "read_core_reg index s =
     (if index \<le> 28 then Inr (core_regs s ! unat index)
      else if index = 29 \<or> index = 30 then
        (if flag_u s then Inl (Exn (PrivilegeViolation (pc s)))
         else Inr (core_regs s ! unat index))
      else if index \<le> 60 then Inr (core_regs s ! unat index)
      else if index = 61 then Inl (Exn (InstructionError (pc s)))
      else if index = 62 then Inr 0
      else if index = 63 then Inr (pc s AND 0xFFFFFFFC)
      else Inl (Exn (InstructionError (pc s))))"

definition set_core_reg :: "u8 \<Rightarrow> u32 \<Rightarrow> cpu_state \<Rightarrow> cpu_state" where
  "set_core_reg index value s = s\<lparr>core_regs := (core_regs s)[unat index := value]\<rparr>"

definition write_core_reg :: "u8 \<Rightarrow> u32 \<Rightarrow> (cpu_state, unit) op" where
  "write_core_reg index value =
     (if index \<le> 28 then modifyM (set_core_reg index value)
      else if index = 29 \<or> index = 30 then
        bindM (getsM id) (\<lambda>s.
          if flag_u s then throwM (PrivilegeViolation (pc s))
          else modifyM (set_core_reg index value))
      else if index \<le> 60 then modifyM (set_core_reg index value)
      else if index = 61 then bindM (getsM pc) (\<lambda>a. throwM (InstructionError a))
      else if index = 62 then returnM ()
      else if index = 63 then bindM (getsM pc) (\<lambda>a. throwM (InstructionError a))
      else bindM (getsM pc) (\<lambda>a. throwM (InstructionError a)))"

section \<open>Auxiliary registers\<close>

text \<open>The match arms in the source's order; a later range arm is reached only by the addresses
  no earlier arm names.\<close>

definition read_aux_reg :: "u32 \<Rightarrow> cpu_state \<Rightarrow> u32 result" where
  "read_aux_reg addr s =
     (if addr = AUX_STATUS then
        Inr (bool_at 31 (flag_z s) OR bool_at 30 (flag_n s) OR bool_at 29 (flag_c s)
             OR bool_at 28 (flag_v s) OR bool_at 27 (flag_e2 s) OR bool_at 26 (flag_e1 s)
             OR bool_at 25 (flag_h s) OR (drop_bit 2 (pc s) AND 0x03FFFFFF))
      else if addr = AUX_SEMAPHORE then Inr (aux_semaphore s)
      else if addr = AUX_LP_START then Inr (aux_lp_start s)
      else if addr = AUX_LP_END then Inr (aux_lp_end s)
      else if addr = AUX_IDENTITY then Inr IDENTITY_VALUE
      else if addr = AUX_DEBUG then Inr (0x00400000 OR bool_at 31 (debug_load_pending s))
      else if addr = AUX_PC then Inr (pc s AND 0xFFFFFFFE)
      else if addr = AUX_STATUS32 then Inr (status32 s)
      else if addr = AUX_STATUS32_L1 then Inr (aux_status32_l1 s)
      else if addr = AUX_STATUS32_L2 then Inr (aux_status32_l2 s)
      else if addr = AUX_COUNT0 then Inr (aux_count0 s)
      else if addr = AUX_CONTROL0 then Inr (aux_control0 s)
      else if addr = AUX_LIMIT0 then Inr (aux_limit0 s)
      else if addr = AUX_INT_VECTOR_BASE then Inr (aux_int_vector_base s)
      else if addr = AUX_MACMODE then Inr (aux_macmode s)
      else if addr = AUX_IRQ_LV12 then Inr (aux_irq_lv12 s)
      else if addr = AUX_COUNT1 then Inr (aux_count1 s)
      else if addr = AUX_CONTROL1 then Inr (aux_control1 s)
      else if addr = AUX_LIMIT1 then Inr (aux_limit1 s)
      else if addr = AUX_IRQ_LEV then Inr (aux_irq_lev s)
      else if addr = AUX_IRQ_HINT then Inr (aux_irq_hint s)
      else if addr = AUX_ERET then Inr (aux_eret s)
      else if addr = AUX_ERBTA then Inr (aux_erbta s)
      else if addr = AUX_ERSTATUS then Inr (aux_erstatus s)
      else if addr = AUX_ECR then Inr (aux_ecr s)
      else if addr = AUX_EFA then Inr (aux_efa s)
      else if addr = AUX_ICAUSE1 then Inr (aux_icause1 s)
      else if addr = AUX_ICAUSE2 then Inr (aux_icause2 s)
      else if addr = AUX_ITRIGGER then Inr (aux_itrigger s)
      else if addr = AUX_XPU then Inr (aux_xpu s)
      else if addr = AUX_BTA then Inr (aux_bta s)
      else if addr = AUX_BTA_L1 then Inr (aux_bta_l1 s)
      else if addr = AUX_BTA_L2 then Inr (aux_bta_l2 s)
      else if addr = AUX_IRQ_PENDING then Inr (aux_irq_pending s)
      else if addr = AUX_BCR_VER then Inr 0x02
      else if addr = AUX_BTA_LINK_BUILD then Inr 0x00
      else if addr = AUX_EA_BUILD then Inr 0x00
      else if addr = AUX_VECBASE_AC_BUILD then Inr 0x00
      else if addr = AUX_RF_BUILD then Inr 0x01
      else if addr = AUX_TIMER_BUILD then Inr 0x0303
      else if addr = AUX_DCCM_BUILD then Inr 0x00
      else if addr = AUX_ICCM_BUILD then Inr 0x00
      else if addr = 0x47 then Inr 0x00
      else if addr = 0x48 then Inr (aux_dc_ctrl s)
      else if addr = 0x49 then Inr 0x00
      else if addr = AUX_D_CACHE_BUILD then Inr 0x00013001
      else if addr = AUX_I_CACHE_BUILD then Inr 0x00023001
      else if addr = AUX_MULTIPLY_BUILD then Inr 0x00
      else if addr = AUX_SWAP_BUILD then Inr 0x01
      else if addr = AUX_NORM_BUILD then Inr 0x02
      else if addr = AUX_MINMAX_BUILD then Inr 0x00
      else if addr = AUX_BARREL_BUILD then Inr 0x00
      else if addr = 0x62 then Inr 0x01
      else if addr = 0x67 then Inr 0x05
      else if addr = 0x69 then Inr 0x00FC0001
      else if 0x60 \<le> addr \<and> addr \<le> 0x7F then Inr 0x00
      else if 0xC0 \<le> addr \<and> addr \<le> 0xFF then Inr 0x00
      else Inr IDENTITY_VALUE)"

definition user_protected_aux :: "u32 \<Rightarrow> bool" where
  "user_protected_aux addr \<longleftrightarrow>
     addr = AUX_STATUS32 \<or> addr = AUX_STATUS32_L1 \<or> addr = AUX_STATUS32_L2
     \<or> addr = AUX_INT_VECTOR_BASE \<or> addr = AUX_ITRIGGER \<or> addr = AUX_IRQ_LEV
     \<or> addr = AUX_IRQ_HINT \<or> addr = AUX_ERET \<or> addr = AUX_ERBTA \<or> addr = AUX_ERSTATUS
     \<or> addr = AUX_EFA \<or> addr = AUX_IRQ_PULSE_CANCEL"

text \<open>The stores of the second match; every arm that is \<open>Ok(())\<close> alone leaves the state.\<close>

definition store_aux_reg :: "u32 \<Rightarrow> u32 \<Rightarrow> cpu_state \<Rightarrow> cpu_state" where
  "store_aux_reg addr val s =
     (if addr = AUX_SEMAPHORE then s\<lparr>aux_semaphore := val\<rparr>
      else if addr = AUX_LP_START then s\<lparr>aux_lp_start := val AND 0xFFFFFFFE\<rparr>
      else if addr = AUX_LP_END then s\<lparr>aux_lp_end := val AND 0xFFFFFFFE\<rparr>
      else if addr = AUX_STATUS32_L1 then s\<lparr>aux_status32_l1 := val\<rparr>
      else if addr = AUX_STATUS32_L2 then s\<lparr>aux_status32_l2 := val\<rparr>
      else if addr = AUX_COUNT0 then s\<lparr>aux_count0 := val\<rparr>
      else if addr = AUX_CONTROL0 then
        s\<lparr>aux_control0 := (val AND NOT 0x08) OR (aux_control0 s AND 0x08)\<rparr>
      else if addr = AUX_LIMIT0 then s\<lparr>aux_limit0 := val\<rparr>
      else if addr = AUX_INT_VECTOR_BASE then s\<lparr>aux_int_vector_base := val AND 0xFFFFFC00\<rparr>
      else if addr = AUX_MACMODE then s\<lparr>aux_macmode := val\<rparr>
      else if addr = AUX_IRQ_LV12 then s\<lparr>aux_irq_lv12 := aux_irq_lv12 s AND NOT val\<rparr>
      else if addr = AUX_COUNT1 then s\<lparr>aux_count1 := val\<rparr>
      else if addr = AUX_CONTROL1 then
        s\<lparr>aux_control1 := (val AND NOT 0x08) OR (aux_control1 s AND 0x08)\<rparr>
      else if addr = AUX_LIMIT1 then s\<lparr>aux_limit1 := val\<rparr>
      else if addr = AUX_IRQ_LEV then s\<lparr>aux_irq_lev := val\<rparr>
      else if addr = AUX_IRQ_HINT then s\<lparr>aux_irq_hint := val AND 0x1F\<rparr>
      else if addr = AUX_ERET then s\<lparr>aux_eret := val\<rparr>
      else if addr = AUX_ERBTA then s\<lparr>aux_erbta := val\<rparr>
      else if addr = AUX_ERSTATUS then s\<lparr>aux_erstatus := val\<rparr>
      else if addr = AUX_EFA then s\<lparr>aux_efa := val\<rparr>
      else if addr = AUX_ITRIGGER then s\<lparr>aux_itrigger := val\<rparr>
      else if addr = AUX_XPU then s\<lparr>aux_xpu := val\<rparr>
      else if addr = AUX_BTA_L1 then s\<lparr>aux_bta_l1 := val\<rparr>
      else if addr = AUX_BTA_L2 then s\<lparr>aux_bta_l2 := val\<rparr>
      else if addr = AUX_IRQ_PULSE_CANCEL then s\<lparr>aux_irq_pulse_cancel := val\<rparr>
      else if addr = 0x48 then s\<lparr>aux_dc_ctrl := val AND 0xE7\<rparr>
      else s)"

definition write_aux_reg :: "u32 \<Rightarrow> u32 \<Rightarrow> (cpu_state, unit) op" where
  "write_aux_reg addr val =
     bindM (getsM id) (\<lambda>s.
       if flag_u s \<and> user_protected_aux addr then throwM (PrivilegeViolation (pc s))
       else if addr = AUX_STATUS32 then throwM (InstructionError (pc s))
       else modifyM (store_aux_reg addr val))"

section \<open>Properties\<close>

text \<open>The bits of the packed status word are the flags.\<close>

lemma bit_status32:
  "bit (status32 s) k \<longleftrightarrow>
     (k = 0 \<and> flag_h s) \<or> (k = 1 \<and> flag_e1 s) \<or> (k = 2 \<and> flag_e2 s) \<or> (k = 3 \<and> flag_a1 s)
     \<or> (k = 4 \<and> flag_a2 s) \<or> (k = 5 \<and> flag_ae s) \<or> (k = 6 \<and> flag_de s) \<or> (k = 7 \<and> flag_u s)
     \<or> (k = 8 \<and> flag_v s) \<or> (k = 9 \<and> flag_c s) \<or> (k = 10 \<and> flag_n s) \<or> (k = 11 \<and> flag_z s)
     \<or> (k = 12 \<and> flag_l s)"
  by (simp only: status32_def bit_or_iff bit_bool_at disj_assoc) auto

lemma set_status32_status32: "set_status32 (status32 s) s = s"
  by (simp add: set_status32_def bit_status32)

lemma less_13_cases:
  "k < (13 :: nat) \<Longrightarrow> k = 0 \<or> k = 1 \<or> k = 2 \<or> k = 3 \<or> k = 4 \<or> k = 5 \<or> k = 6
     \<or> k = 7 \<or> k = 8 \<or> k = 9 \<or> k = 10 \<or> k = 11 \<or> k = 12"
  by arith

lemma status32_set_status32: "status32 (set_status32 v s) = v AND 0x1FFF"
proof -
  have "status32 (set_status32 v s) = take_bit 13 v"
  proof (rule bit_word_eqI)
    fix k
    show "bit (status32 (set_status32 v s)) k \<longleftrightarrow> bit (take_bit 13 v) k"
    proof (cases "k < 13")
      case True
      then show ?thesis using less_13_cases [OF True]
        by (elim disjE; simp add: bit_status32 set_status32_def bit_take_bit_iff)
    next
      case False
      then show ?thesis by (simp add: bit_status32 bit_take_bit_iff)
    qed
  qed
  then show ?thesis by (simp add: take_bit_eq_mask mask_eq_exp_minus_1)
qed

text \<open>The size of the register file never changes, so its indexing never panics.\<close>

definition regs_ok :: "cpu_state \<Rightarrow> bool" where
  "regs_ok s \<longleftrightarrow> length (core_regs s) = 64 \<and> length (irq_shadow_r0_r3 s) = 4"

lemma regs_ok_new: "regs_ok new_cpu_state"
  by (simp add: regs_ok_def new_cpu_state_def)

lemma regs_ok_set_status32 [simp]: "regs_ok (set_status32 v s) \<longleftrightarrow> regs_ok s"
  and regs_ok_set_core_reg [simp]: "regs_ok (set_core_reg r v s) \<longleftrightarrow> regs_ok s"
  by (simp_all add: regs_ok_def set_status32_def set_core_reg_def)

lemma core_regs_set_core_reg:
  "length (core_regs s) = 64 \<Longrightarrow> r < 64 \<Longrightarrow>
     core_regs (set_core_reg r v s) ! unat q = (if q = r then v else core_regs s ! unat q)"
  by (simp add: set_core_reg_def nth_list_update word_less_nat_alt unsigned_word_eqI
      word_unat_eq_iff)

text \<open>What user mode must not touch.\<close>

lemma store_aux_reg_unprotected:
  assumes "\<not> user_protected_aux addr"
  shows "aux_status32_l1 (store_aux_reg addr val s) = aux_status32_l1 s"
    and "aux_status32_l2 (store_aux_reg addr val s) = aux_status32_l2 s"
    and "aux_int_vector_base (store_aux_reg addr val s) = aux_int_vector_base s"
    and "aux_itrigger (store_aux_reg addr val s) = aux_itrigger s"
    and "aux_irq_lev (store_aux_reg addr val s) = aux_irq_lev s"
    and "aux_irq_hint (store_aux_reg addr val s) = aux_irq_hint s"
    and "aux_eret (store_aux_reg addr val s) = aux_eret s"
    and "aux_erbta (store_aux_reg addr val s) = aux_erbta s"
    and "aux_erstatus (store_aux_reg addr val s) = aux_erstatus s"
    and "aux_efa (store_aux_reg addr val s) = aux_efa s"
    and "aux_irq_pulse_cancel (store_aux_reg addr val s) = aux_irq_pulse_cancel s"
  using assms by (simp_all add: store_aux_reg_def user_protected_aux_def)

text \<open>Packing and unpacking STATUS32 are inverse: unpacking the packed word changes no flag, and
  packing what was unpacked from a word returns its 13 defined bits.\<close>

theorem status32_roundtrip:
  "set_status32 (status32 s) s = s \<and> status32 (set_status32 v s) = v AND 0x1FFF"
  by (simp add: set_status32_status32 status32_set_status32)

end
