(* ===== verification/Condition.thy ===== *)
theory Condition
  imports Prelude
begin

text \<open>
  \<open>src/cpu/condition.rs\<close>: the sixteen condition codes of the instruction set and their evaluation
  on the flags Z, N, C, V.
\<close>

datatype condition_code =
  AL | EQ | NE | PL | MI | CS | CC | VS | VC | GT | GE | LT | LE | HI | LS | PNZ

definition condition_from_u8 :: "u8 \<Rightarrow> condition_code option" where
  "condition_from_u8 val =
     (if val = 0x00 then Some AL
      else if val = 0x01 then Some EQ
      else if val = 0x02 then Some NE
      else if val = 0x03 then Some PL
      else if val = 0x04 then Some MI
      else if val = 0x05 then Some CS
      else if val = 0x06 then Some CC
      else if val = 0x07 then Some VS
      else if val = 0x08 then Some VC
      else if val = 0x09 then Some GT
      else if val = 0x0A then Some GE
      else if val = 0x0B then Some LT
      else if val = 0x0C then Some LE
      else if val = 0x0D then Some HI
      else if val = 0x0E then Some LS
      else if val = 0x0F then Some PNZ
      else None)"

fun evaluate :: "condition_code \<Rightarrow> bool \<Rightarrow> bool \<Rightarrow> bool \<Rightarrow> bool \<Rightarrow> bool" where
  "evaluate AL z n c v = True"
| "evaluate EQ z n c v = z"
| "evaluate NE z n c v = (\<not> z)"
| "evaluate PL z n c v = (\<not> n)"
| "evaluate MI z n c v = n"
| "evaluate CS z n c v = c"
| "evaluate CC z n c v = (\<not> c)"
| "evaluate VS z n c v = v"
| "evaluate VC z n c v = (\<not> v)"
| "evaluate GT z n c v = ((n \<and> v \<and> \<not> z) \<or> (\<not> n \<and> \<not> v \<and> \<not> z))"
| "evaluate GE z n c v = ((n \<and> v) \<or> (\<not> n \<and> \<not> v))"
| "evaluate LT z n c v = ((n \<and> \<not> v) \<or> (\<not> n \<and> v))"
| "evaluate LE z n c v = (z \<or> (n \<and> \<not> v) \<or> (\<not> n \<and> v))"
| "evaluate HI z n c v = (\<not> c \<and> \<not> z)"
| "evaluate LS z n c v = (c \<or> z)"
| "evaluate PNZ z n c v = (\<not> n \<and> \<not> z)"

text \<open>The code of a condition, as the \<open>repr(u8)\<close> of the enum fixes it.\<close>

fun condition_to_u8 :: "condition_code \<Rightarrow> u8" where
  "condition_to_u8 AL = 0x00" | "condition_to_u8 EQ = 0x01" | "condition_to_u8 NE = 0x02"
| "condition_to_u8 PL = 0x03" | "condition_to_u8 MI = 0x04" | "condition_to_u8 CS = 0x05"
| "condition_to_u8 CC = 0x06" | "condition_to_u8 VS = 0x07" | "condition_to_u8 VC = 0x08"
| "condition_to_u8 GT = 0x09" | "condition_to_u8 GE = 0x0A" | "condition_to_u8 LT = 0x0B"
| "condition_to_u8 LE = 0x0C" | "condition_to_u8 HI = 0x0D" | "condition_to_u8 LS = 0x0E"
| "condition_to_u8 PNZ = 0x0F"

lemma condition_roundtrip: "condition_from_u8 (condition_to_u8 c) = Some c"
  by (cases c) (simp_all add: condition_from_u8_def)

lemma condition_from_u8_Some:
  "condition_from_u8 q = Some c \<longleftrightarrow> q = condition_to_u8 c"
  by (cases c) (auto simp: condition_from_u8_def split: if_splits)

text \<open>The code table pairs each condition with its negation.\<close>

fun negate_condition :: "condition_code \<Rightarrow> condition_code option" where
  "negate_condition EQ = Some NE" | "negate_condition NE = Some EQ"
| "negate_condition PL = Some MI" | "negate_condition MI = Some PL"
| "negate_condition CS = Some CC" | "negate_condition CC = Some CS"
| "negate_condition VS = Some VC" | "negate_condition VC = Some VS"
| "negate_condition GT = Some LE" | "negate_condition LE = Some GT"
| "negate_condition GE = Some LT" | "negate_condition LT = Some GE"
| "negate_condition HI = Some LS" | "negate_condition LS = Some HI"
| "negate_condition _ = None"

lemma evaluate_negate:
  "negate_condition c = Some c' \<Longrightarrow> evaluate c' z n cf v = (\<not> evaluate c z n cf v)"
  by (cases c) auto

end
