(* ===== verification/Instruction.thy ===== *)
theory Instruction
  imports Condition
begin

text \<open>
  \<open>src/decoder/instruction.rs\<close>: operands, operation codes and the decoded instruction, with the
  constructors of the source (\<open>AluOp::Add\<close> is \<open>AluOp_Add\<close>), and the well-formedness predicate
  the decoders establish.
\<close>

datatype operand = Reg u8 | Imm u32 | NoOperand

datatype alu_op =
    AluOp_Add | AluOp_Adc | AluOp_Sub | AluOp_Sbc | AluOp_And | AluOp_Or | AluOp_Bic | AluOp_Xor
  | AluOp_Max | AluOp_Min | AluOp_Mov | AluOp_Tst | AluOp_Cmp | AluOp_Rcmp | AluOp_Rsub
  | AluOp_Bset | AluOp_Bclr | AluOp_Btst | AluOp_Bxor | AluOp_Bmsk
  | AluOp_Add1 | AluOp_Add2 | AluOp_Add3 | AluOp_Sub1 | AluOp_Sub2 | AluOp_Sub3
  | AluOp_Mpy | AluOp_Mpyh | AluOp_Mpyhu | AluOp_Mpyu

definition alu_op_from_u8 :: "u8 \<Rightarrow> alu_op option" where
  "alu_op_from_u8 val =
     (if val = 0x00 then Some AluOp_Add
      else if val = 0x01 then Some AluOp_Adc
      else if val = 0x02 then Some AluOp_Sub
      else if val = 0x03 then Some AluOp_Sbc
      else if val = 0x04 then Some AluOp_And
      else if val = 0x05 then Some AluOp_Or
      else if val = 0x06 then Some AluOp_Bic
      else if val = 0x07 then Some AluOp_Xor
      else if val = 0x08 then Some AluOp_Max
      else if val = 0x09 then Some AluOp_Min
      else if val = 0x0A then Some AluOp_Mov
      else if val = 0x0B then Some AluOp_Tst
      else if val = 0x0C then Some AluOp_Cmp
      else if val = 0x0D then Some AluOp_Rcmp
      else if val = 0x0E then Some AluOp_Rsub
      else if val = 0x0F then Some AluOp_Bset
      else if val = 0x10 then Some AluOp_Bclr
      else if val = 0x11 then Some AluOp_Btst
      else if val = 0x12 then Some AluOp_Bxor
      else if val = 0x13 then Some AluOp_Bmsk
      else if val = 0x14 then Some AluOp_Add1
      else if val = 0x15 then Some AluOp_Add2
      else if val = 0x16 then Some AluOp_Add3
      else if val = 0x17 then Some AluOp_Sub1
      else if val = 0x18 then Some AluOp_Sub2
      else if val = 0x19 then Some AluOp_Sub3
      else if val = 0x1A then Some AluOp_Mpy
      else if val = 0x1B then Some AluOp_Mpyh
      else if val = 0x1C then Some AluOp_Mpyhu
      else if val = 0x1D then Some AluOp_Mpyu
      else None)"

definition is_test_only :: "alu_op \<Rightarrow> bool" where
  "is_test_only op \<longleftrightarrow> op = AluOp_Tst \<or> op = AluOp_Cmp \<or> op = AluOp_Rcmp \<or> op = AluOp_Btst"

definition is_mov :: "alu_op \<Rightarrow> bool" where
  "is_mov op \<longleftrightarrow> op = AluOp_Mov"

datatype single_op =
    SingleOp_Asl | SingleOp_Lsr | SingleOp_Asr | SingleOp_Ror | SingleOp_Rrc
  | SingleOp_Sexb | SingleOp_Sexw | SingleOp_Extb | SingleOp_Extw
  | SingleOp_Abs | SingleOp_Not | SingleOp_Rlc | SingleOp_Ex

datatype zero_op =
    ZeroOp_Nop | ZeroOp_Sleep u8 | ZeroOp_Swi | ZeroOp_Brk | ZeroOp_Trap u8 | ZeroOp_Rtie
  | ZeroOp_Sync

datatype ext_arith_op =
    ExtArithOp_Asl | ExtArithOp_Lsr | ExtArithOp_Asr | ExtArithOp_Ror
  | ExtArithOp_Adds | ExtArithOp_Subs | ExtArithOp_Divaw | ExtArithOp_Asls | ExtArithOp_Asrs
  | ExtArithOp_Addsdw | ExtArithOp_Subsdw
  | ExtArithOp_Swap | ExtArithOp_Norm | ExtArithOp_Sat16 | ExtArithOp_Rnd16
  | ExtArithOp_Abssw | ExtArithOp_Abss | ExtArithOp_Negsw | ExtArithOp_Negs | ExtArithOp_Normw

datatype data_size = DataSize_Word | DataSize_Byte | DataSize_HalfWord

datatype writeback_mode =
  Writeback_None | Writeback_PreWrite | Writeback_PostWrite | Writeback_Scaled

datatype delay_mode = NoDelay | Delay

datatype br_compare_kind = Breq | Brne | Brlt | Brge | Brlo | Brhs | Bbit0 | Bbit1

definition br_compare_from_u8 :: "u8 \<Rightarrow> br_compare_kind option" where
  "br_compare_from_u8 val =
     (if val = 0x00 then Some Breq
      else if val = 0x01 then Some Brne
      else if val = 0x02 then Some Brlt
      else if val = 0x03 then Some Brge
      else if val = 0x04 then Some Brlo
      else if val = 0x05 then Some Brhs
      else if val = 0x0E then Some Bbit0
      else if val = 0x0F then Some Bbit1
      else None)"

text \<open>The fields of each instruction form are in the order the source declares them.\<close>

datatype instruction =
    Alu alu_op operand operand operand bool "condition_code option"
      \<comment> \<open>op, dst, src1, src2, set_flags, cc\<close>
  | SingleOp single_op operand operand bool "condition_code option"
      \<comment> \<open>op, dst, src, set_flags, cc\<close>
  | ZeroOp zero_op
  | Branch i32 "condition_code option" delay_mode bool
      \<comment> \<open>offset, cc, delay, link\<close>
  | BranchCompare br_compare_kind operand operand i32 delay_mode
      \<comment> \<open>kind, src1, src2, offset, delay\<close>
  | Jump operand "condition_code option" delay_mode bool bool
      \<comment> \<open>target, cc, delay, link, flag_restore\<close>
  | Load operand operand operand data_size bool writeback_mode bool
      \<comment> \<open>dst, base, offset, data_size, sign_extend, writeback, cache_bypass\<close>
  | Store operand operand operand data_size writeback_mode bool
      \<comment> \<open>src, base, offset, data_size, writeback, cache_bypass\<close>
  | Loop u32 "condition_code option"
      \<comment> \<open>offset, cc\<close>
  | LoadAux operand operand
      \<comment> \<open>dst, addr\<close>
  | StoreAux operand operand
      \<comment> \<open>src, addr\<close>
  | Flag operand "condition_code option"
      \<comment> \<open>src, cc\<close>
  | ExtArith ext_arith_op operand operand operand bool "condition_code option"
      \<comment> \<open>op, dst, src1, src2, set_flags, cc\<close>
  | Prefetch

record decoded_instruction =
  inst :: instruction
  inst_size :: u8
  inst_has_limm :: bool
  inst_pc :: u32

definition total_size :: "decoded_instruction \<Rightarrow> u32" where
  "total_size d = ucast (inst_size d) + (if inst_has_limm d then 4 else 0)"

section \<open>Well-formed decoded instructions\<close>

text \<open>A register operand names one of the 64 core registers.\<close>

fun wf_operand :: "operand \<Rightarrow> bool" where
  "wf_operand (Reg r) \<longleftrightarrow> r < 64"
| "wf_operand _ \<longleftrightarrow> True"

text \<open>A source operand moreover never names r62, the long-immediate marker: the decoder has
  replaced it by the immediate.\<close>

fun wf_source :: "operand \<Rightarrow> bool" where
  "wf_source (Reg r) \<longleftrightarrow> r < 64 \<and> r \<noteq> 62"
| "wf_source _ \<longleftrightarrow> True"

fun wf_instruction :: "instruction \<Rightarrow> bool" where
  "wf_instruction (Alu op dst src1 src2 f cc) \<longleftrightarrow>
     wf_operand dst \<and> wf_source src1 \<and> wf_source src2 \<and> (is_test_only op \<longrightarrow> dst = NoOperand)"
| "wf_instruction (SingleOp op dst src f cc) \<longleftrightarrow> wf_operand dst \<and> wf_source src"
| "wf_instruction (ZeroOp z) \<longleftrightarrow> True"
| "wf_instruction (Branch offset cc delay link) \<longleftrightarrow> bit offset 0 = False"
| "wf_instruction (BranchCompare kind src1 src2 offset delay) \<longleftrightarrow>
     wf_source src1 \<and> wf_source src2 \<and> bit offset 0 = False"
| "wf_instruction (Jump target cc delay link fr) \<longleftrightarrow>
     wf_source target \<and> (fr \<longrightarrow> target = Reg 29 \<or> target = Reg 30)"
| "wf_instruction (Load dst base offset sz x wb di) \<longleftrightarrow>
     wf_operand dst \<and> wf_source base \<and> wf_source offset
     \<and> (case dst of Reg r \<Rightarrow> r < 32 \<or> r = 61 | _ \<Rightarrow> True)"
| "wf_instruction (Store src base offset sz wb di) \<longleftrightarrow>
     wf_source src \<and> wf_source base \<and> wf_source offset"
| "wf_instruction (Loop offset cc) \<longleftrightarrow> bit offset 0 = False"
| "wf_instruction (LoadAux dst addr) \<longleftrightarrow> wf_operand dst \<and> wf_source addr"
| "wf_instruction (StoreAux src addr) \<longleftrightarrow> wf_source src \<and> wf_source addr"
| "wf_instruction (Flag src cc) \<longleftrightarrow> wf_source src"
| "wf_instruction (ExtArith op dst src1 src2 f cc) \<longleftrightarrow>
     wf_operand dst \<and> wf_source src1 \<and> wf_source src2"
| "wf_instruction Prefetch \<longleftrightarrow> True"

text \<open>What a decoder returns for the instruction at \<open>pc\<close>: its own address and width, and a
  well-formed instruction.\<close>

definition wf_decoded :: "u32 \<Rightarrow> u8 \<Rightarrow> decoded_instruction \<Rightarrow> bool" where
  "wf_decoded pc sz d \<longleftrightarrow> inst_pc d = pc \<and> inst_size d = sz \<and> wf_instruction (inst d)"

lemma wf_source_operand: "wf_source x \<Longrightarrow> wf_operand x"
  by (cases x) simp_all

lemma total_size_of_wf:
  assumes "wf_decoded pc sz d" and "sz = 2 \<or> sz = 4"
  shows "total_size d \<in> {2, 4, 6, 8}"
  using assms by (auto simp: wf_decoded_def total_size_def)

end
