(* ===== verification/Executor_Base.thy ===== *)
theory Executor_Base
  imports Registers Instruction
begin

text \<open>
  \<open>src/executor/mod.rs\<close>, \<open>resolve_value\<close> and \<open>write_dest\<close>, and the pieces every executor repeats:
  the condition guard, the Z and N flags of a result, and the overflowing additions of the
  standard library.
\<close>

definition resolve_value :: "operand \<Rightarrow> cpu_state \<Rightarrow> u32 result" where
  "resolve_value x s =
     (case x of Reg r \<Rightarrow> read_core_reg r s | Imm v \<Rightarrow> Inr v | NoOperand \<Rightarrow> Inr 0)"

definition write_dest :: "operand \<Rightarrow> u32 \<Rightarrow> (cpu_state, unit) op" where
  "write_dest x value = (case x of Reg r \<Rightarrow> write_core_reg r value | _ \<Rightarrow> returnM ())"

text \<open>\<open>if let Some(cc) = cc { if !cc.evaluate(..) { return Ok(()) } }\<close> before \<open>body\<close>\<close>

definition condition_holds :: "condition_code option \<Rightarrow> cpu_state \<Rightarrow> bool" where
  "condition_holds cc s =
     (case cc of None \<Rightarrow> True | Some c \<Rightarrow> evaluate c (flag_z s) (flag_n s) (flag_c s) (flag_v s))"

definition when_condition :: "condition_code option \<Rightarrow> (cpu_state, unit) op \<Rightarrow> (cpu_state, unit) op" where
  "when_condition cc body =
     bindM (getsM (condition_holds cc)) (\<lambda>b. if b then body else returnM ())"

text \<open>\<open>state.flag_z = v == 0; state.flag_n = (v >> 31) != 0;\<close>\<close>

definition set_zn :: "u32 \<Rightarrow> cpu_state \<Rightarrow> cpu_state" where
  "set_zn v s = s\<lparr>flag_z := v = 0, flag_n := drop_bit 31 v \<noteq> 0\<rparr>"

text \<open>\<open>if let Some(c) = carry { state.flag_c = c }\<close>, and the same for V\<close>

definition set_c :: "bool option \<Rightarrow> cpu_state \<Rightarrow> cpu_state" where
  "set_c carry s = (case carry of None \<Rightarrow> s | Some c \<Rightarrow> s\<lparr>flag_c := c\<rparr>)"

definition set_v :: "bool option \<Rightarrow> cpu_state \<Rightarrow> cpu_state" where
  "set_v overflow s = (case overflow of None \<Rightarrow> s | Some v \<Rightarrow> s\<lparr>flag_v := v\<rparr>)"

definition overflowing_add :: "u32 \<Rightarrow> u32 \<Rightarrow> u32 \<times> bool" where
  "overflowing_add a b = (a + b, unat a + unat b \<ge> 2 ^ 32)"

definition overflowing_sub :: "u32 \<Rightarrow> u32 \<Rightarrow> u32 \<times> bool" where
  "overflowing_sub a b = (a - b, a < b)"

section \<open>What reading and writing a register promise\<close>

lemma read_core_reg_not_Panic [simp]: "read_core_reg r s \<noteq> Inl Panic"
  by (simp add: read_core_reg_def)

lemma resolve_value_not_Panic [simp]: "resolve_value x s \<noteq> Inl Panic"
  by (cases x) (simp_all add: resolve_value_def)

lemma read_core_reg_low: "r \<le> 28 \<Longrightarrow> read_core_reg r s = Inr (core_regs s ! unat r)"
  by (simp add: read_core_reg_def)

lemma write_core_reg_low: "r \<le> 28 \<Longrightarrow> write_core_reg r v s = (Inr (), set_core_reg r v s)"
  by (simp add: write_core_reg_def modifyM_def)

lemma wp_write_core_reg [simp]:
  "wp (write_core_reg r v) Q E s =
     (if r \<le> 28 \<or> 31 \<le> r \<and> r \<le> 60 \<or> (r = 29 \<or> r = 30) \<and> \<not> flag_u s then Q () (set_core_reg r v s)
      else if r = 29 \<or> r = 30 then E (Exn (PrivilegeViolation (pc s))) s
      else if r = 62 then Q () s
      else E (Exn (InstructionError (pc s))) s)"
proof -
  have "r \<le> 28 \<or> r = 29 \<or> r = 30 \<or> 31 \<le> r" by unat_arith
  then show ?thesis by (elim disjE) (auto simp: write_core_reg_def)
qed

lemma wp_write_dest [simp]:
  "wp (write_dest x v) Q E s =
     (case x of Reg r \<Rightarrow> wp (write_core_reg r v) Q E s | _ \<Rightarrow> Q () s)"
  by (cases x) (simp_all add: write_dest_def)

lemma wp_when_condition [simp]:
  "wp (when_condition cc body) Q E s = (if condition_holds cc s then wp body Q E s else Q () s)"
  by (simp add: when_condition_def)

section \<open>User mode\<close>

text \<open>What a program in user mode must not be able to change: the mode itself, the interrupt and
  exception state and the two interrupt link registers.\<close>

definition user_confined :: "cpu_state \<Rightarrow> cpu_state \<Rightarrow> bool" where
  "user_confined s t \<longleftrightarrow>
     flag_u t \<and> flag_a1 t = flag_a1 s \<and> flag_a2 t = flag_a2 s \<and> flag_ae t = flag_ae s
     \<and> core_regs t ! 29 = core_regs s ! 29 \<and> core_regs t ! 30 = core_regs s ! 30
     \<and> aux_status32_l1 t = aux_status32_l1 s \<and> aux_status32_l2 t = aux_status32_l2 s
     \<and> aux_int_vector_base t = aux_int_vector_base s \<and> aux_itrigger t = aux_itrigger s
     \<and> aux_irq_lev t = aux_irq_lev s \<and> aux_irq_hint t = aux_irq_hint s
     \<and> aux_eret t = aux_eret s \<and> aux_erbta t = aux_erbta s \<and> aux_erstatus t = aux_erstatus s
     \<and> aux_efa t = aux_efa s \<and> aux_irq_pulse_cancel t = aux_irq_pulse_cancel s"

end
