(* ===== verification/Alu.thy ===== *)
theory Alu
  imports Executor_Base
begin

text \<open>
  \<open>src/executor/alu.rs\<close> and \<open>src/executor/multiply.rs\<close>: the arithmetic and logic operations with
  their flags. The carry flag is a borrow for the subtractions. The lemmas read each result in
  the integers: sums, differences, borrows and signed overflow as the instruction set defines
  them.
\<close>

section \<open>Multiplication\<close>

definition mpy :: "u32 \<Rightarrow> u32 \<Rightarrow> u32" where
  "mpy a b = ucast ((scast a :: u64) * scast b)"

definition mpyh :: "u32 \<Rightarrow> u32 \<Rightarrow> u32" where
  "mpyh a b = ucast (signed_drop_bit 32 ((scast a :: u64) * scast b))"

definition mpyu :: "u32 \<Rightarrow> u32 \<Rightarrow> u32" where
  "mpyu a b = ucast ((ucast a :: u64) * ucast b)"

definition mpyhu :: "u32 \<Rightarrow> u32 \<Rightarrow> u32" where
  "mpyhu a b = ucast (drop_bit 32 ((ucast a :: u64) * ucast b))"

section \<open>Additions and subtractions\<close>

text \<open>\<open>((x ^ r) & (y ^ r)) >> 31 != 0\<close>\<close>

definition signs_differ :: "u32 \<Rightarrow> u32 \<Rightarrow> bool" where
  "signs_differ x y \<longleftrightarrow> drop_bit 31 (x AND y) \<noteq> 0"

definition add_shifted :: "u32 \<Rightarrow> u32 \<Rightarrow> nat \<Rightarrow> u32 \<times> bool option \<times> bool option" where
  "add_shifted a b shift =
     (let shifted = push_bit shift b;
          (result, carry) = overflowing_add a shifted;
          overflow = signs_differ (a XOR result) (shifted XOR result)
      in (result, Some carry, Some overflow))"

definition sub_shifted :: "u32 \<Rightarrow> u32 \<Rightarrow> nat \<Rightarrow> u32 \<times> bool option \<times> bool option" where
  "sub_shifted a b shift =
     (let shifted = push_bit shift b;
          (result, borrow) = overflowing_sub a shifted;
          overflow = signs_differ (a XOR shifted) (a XOR result)
      in (result, Some borrow, Some overflow))"

text \<open>\<open>1u32 << (b & 31)\<close>\<close>

definition bit_mask_of :: "u32 \<Rightarrow> u32" where
  "bit_mask_of b = push_bit (unat (b AND 31)) 1"

type_synonym alu_result = "u32 \<times> bool option \<times> bool option \<times> u32 option"

definition with_no_flag_result :: "u32 \<times> bool option \<times> bool option \<Rightarrow> alu_result" where
  "with_no_flag_result r = (fst r, fst (snd r), snd (snd r), None)"

text \<open>Result, carry, overflow, and for MAX and MIN the comparison that Z and N come from.\<close>

definition compute_alu :: "alu_op \<Rightarrow> u32 \<Rightarrow> u32 \<Rightarrow> bool \<Rightarrow> alu_result" where
  "compute_alu op a b carry_in =
     (case op of
        AluOp_Add \<Rightarrow>
          (let (result, carry) = overflowing_add a b;
               overflow = signs_differ (a XOR result) (b XOR result)
           in (result, Some carry, Some overflow, None))
      | AluOp_Adc \<Rightarrow>
          (let c = of_bool carry_in;
               (r1, c1) = overflowing_add a b;
               (result, c2) = overflowing_add r1 c;
               carry = (c1 \<or> c2);
               overflow = signs_differ (a XOR result) (b XOR result)
           in (result, Some carry, Some overflow, None))
      | AluOp_Sub \<Rightarrow>
          (let (result, borrow) = overflowing_sub a b;
               overflow = signs_differ (a XOR b) (a XOR result)
           in (result, Some borrow, Some overflow, None))
      | AluOp_Cmp \<Rightarrow>
          (let (result, borrow) = overflowing_sub a b;
               overflow = signs_differ (a XOR b) (a XOR result)
           in (result, Some borrow, Some overflow, None))
      | AluOp_Sbc \<Rightarrow>
          (let borrow_in = of_bool carry_in;
               (r1, b1) = overflowing_sub a b;
               (result, b2) = overflowing_sub r1 borrow_in;
               carry = (b1 \<or> b2);
               overflow = signs_differ (a XOR b) (a XOR result)
           in (result, Some carry, Some overflow, None))
      | AluOp_And \<Rightarrow> (a AND b, None, None, None)
      | AluOp_Tst \<Rightarrow> (a AND b, None, None, None)
      | AluOp_Or \<Rightarrow> (a OR b, None, None, None)
      | AluOp_Bic \<Rightarrow> (a AND NOT b, None, None, None)
      | AluOp_Xor \<Rightarrow> (a XOR b, None, None, None)
      | AluOp_Max \<Rightarrow>
          (let (cmp_result, borrow) = overflowing_sub a b;
               overflow = signs_differ (a XOR b) (a XOR cmp_result);
               selected = (if b \<le>s a then a else b)
           in (selected, Some borrow, Some overflow, Some cmp_result))
      | AluOp_Min \<Rightarrow>
          (let (cmp_result, borrow) = overflowing_sub a b;
               overflow = signs_differ (a XOR b) (a XOR cmp_result);
               selected = (if a \<le>s b then a else b)
           in (selected, Some borrow, Some overflow, Some cmp_result))
      | AluOp_Mov \<Rightarrow> (b, None, None, None)
      | AluOp_Rcmp \<Rightarrow>
          (let (result, borrow) = overflowing_sub b a;
               overflow = signs_differ (b XOR a) (b XOR result)
           in (result, Some borrow, Some overflow, None))
      | AluOp_Rsub \<Rightarrow>
          (let (result, borrow) = overflowing_sub b a;
               overflow = signs_differ (b XOR a) (b XOR result)
           in (result, Some borrow, Some overflow, None))
      | AluOp_Bset \<Rightarrow> (a OR bit_mask_of b, None, None, None)
      | AluOp_Bclr \<Rightarrow> (a AND NOT (bit_mask_of b), None, None, None)
      | AluOp_Btst \<Rightarrow> (a AND bit_mask_of b, None, None, None)
      | AluOp_Bxor \<Rightarrow> (a XOR bit_mask_of b, None, None, None)
      | AluOp_Bmsk \<Rightarrow>
          (let width = (b AND 31) + 1;
               m = (if 32 \<le> width then 0xFFFFFFFF else push_bit (unat width) 1 - 1)
           in (a AND m, None, None, None))
      | AluOp_Add1 \<Rightarrow> with_no_flag_result (add_shifted a b 1)
      | AluOp_Add2 \<Rightarrow> with_no_flag_result (add_shifted a b 2)
      | AluOp_Add3 \<Rightarrow> with_no_flag_result (add_shifted a b 3)
      | AluOp_Sub1 \<Rightarrow> with_no_flag_result (sub_shifted a b 1)
      | AluOp_Sub2 \<Rightarrow> with_no_flag_result (sub_shifted a b 2)
      | AluOp_Sub3 \<Rightarrow> with_no_flag_result (sub_shifted a b 3)
      | AluOp_Mpy \<Rightarrow> (mpy a b, None, None, None)
      | AluOp_Mpyh \<Rightarrow> (mpyh a b, None, None, None)
      | AluOp_Mpyu \<Rightarrow> (mpyu a b, None, None, None)
      | AluOp_Mpyhu \<Rightarrow> (mpyhu a b, None, None, None))"

definition set_alu_flags :: "alu_result \<Rightarrow> cpu_state \<Rightarrow> cpu_state" where
  "set_alu_flags r s =
     (case r of (result, carry, overflow, flag_result) \<Rightarrow>
        let zn_val = (case flag_result of None \<Rightarrow> result | Some v \<Rightarrow> v)
        in set_v overflow (set_c carry (set_zn zn_val s)))"

definition execute_alu ::
    "alu_op \<Rightarrow> operand \<Rightarrow> operand \<Rightarrow> operand \<Rightarrow> bool \<Rightarrow> condition_code option \<Rightarrow> (cpu_state, unit) op" where
  "execute_alu op dst src1 src2 set_flags cc =
     when_condition cc
       (bindM (readM (resolve_value src1)) (\<lambda>a.
        bindM (readM (resolve_value src2)) (\<lambda>b.
        bindM (getsM flag_c) (\<lambda>carry_in.
        let r = compute_alu op a b carry_in
        in thenM (write_dest dst (fst r))
             (if set_flags then modifyM (set_alu_flags r) else returnM ())))))"

section \<open>The results in the integers\<close>

lemma unat_add_32: "unat (a + b) = (unat a + unat b) mod 2 ^ 32" for a b :: u32
  by (simp add: unat_word_ariths)

lemma overflowing_add_value:
  "overflowing_add a b = (r, c) \<Longrightarrow> unat r + of_bool c * 2 ^ 32 = unat a + unat b"
proof -
  assume h: "overflowing_add a b = (r, c)"
  have "unat a < 2 ^ 32" "unat b < 2 ^ 32" using unat_less_32 by simp_all
  with h show ?thesis
    by (auto simp: overflowing_add_def unat_add_32 mod_if)
qed

lemma overflowing_sub_value:
  assumes "overflowing_sub a b = (r, c)"
  shows "uint r = uint a - uint b + of_bool c * 2 ^ 32"
proof (cases "a < b")
  case True
  then have "uint (a - b) = uint a - uint b + 2 ^ 32"
    by (simp add: uint_sub_if' word_less_def)
  then show ?thesis using assms True by (auto simp: overflowing_sub_def)
next
  case False
  then have "uint (a - b) = uint a - uint b"
    by (simp add: uint_sub_if' word_less_def)
  then show ?thesis using assms False by (auto simp: overflowing_sub_def)
qed

lemma sint_32: "sint w = uint w - of_bool (bit w 31) * 2 ^ 32" for w :: u32
proof -
  have "sint w = signed_take_bit 31 (uint w)" by (simp add: sint_uint)
  also have "\<dots> = take_bit 32 (uint w) - of_bool (bit (uint w) 31) * 2 ^ 32"
    using signed_take_bit_eq_take_bit_minus [of 31 "uint w"] by simp
  also have "take_bit 32 (uint w) = uint w"
    using uint_less_32 [of w] by (simp add: take_bit_int_eq_self_iff)
  finally show ?thesis by (simp add: bit_uint_iff)
qed

lemma signs_differ_iff [simp]: "signs_differ x y \<longleftrightarrow> bit x 31 \<and> bit y 31"
proof -
  have "drop_bit 31 (x AND y) = of_bool (bit (x AND y) 31)"
  proof (rule bit_word_eqI)
    fix n
    show "bit (drop_bit 31 (x AND y)) n = bit (of_bool (bit (x AND y) 31) :: u32) n"
      by (cases "n = 0") (auto simp: bit_simps dest!: bit_imp_le_length)
  qed
  then show ?thesis by (simp add: signs_differ_def bit_and_iff)
qed

lemma bit_31_iff: "bit w 31 \<longleftrightarrow> 2 ^ 31 \<le> uint w" for w :: u32
proof -
  have "bit w 31 \<longleftrightarrow> odd (uint w div 2 ^ 31)"
    using bit_uint_iff [of w 31] by (simp add: bit_iff_odd)
  moreover have "uint w div 2 ^ 31 = 0 \<or> uint w div 2 ^ 31 = 1"
    using uint_less_32 [of w] by auto
  ultimately show ?thesis using uint_less_32 [of w] by auto
qed

lemma sint_32_if: "sint w = (if 2 ^ 31 \<le> uint w then uint w - 2 ^ 32 else uint w)" for w :: u32
  by (simp add: sint_32 bit_31_iff)

text \<open>The sign test of an addition is signed overflow: the exact sum leaves the 32-bit range.\<close>

definition signed_fits :: "int \<Rightarrow> bool" where
  "signed_fits x \<longleftrightarrow> - (2 ^ 31) \<le> x \<and> x < 2 ^ 31"

lemma add_overflow_arith:
  fixes A B R c k :: int
  assumes "R + k * 2 ^ 32 = A + B + c" and "c = 0 \<or> c = 1" and "k = 0 \<or> k = 1"
    and "0 \<le> A" "A < 2 ^ 32" "0 \<le> B" "B < 2 ^ 32" "0 \<le> R" "R < 2 ^ 32"
  shows "(2 ^ 31 \<le> A) \<noteq> (2 ^ 31 \<le> R) \<and> (2 ^ 31 \<le> B) \<noteq> (2 ^ 31 \<le> R) \<longleftrightarrow>
    \<not> signed_fits ((if 2 ^ 31 \<le> A then A - 2 ^ 32 else A) + (if 2 ^ 31 \<le> B then B - 2 ^ 32 else B) + c)"
  using assms by (auto simp: signed_fits_def)

lemma sub_overflow_arith:
  fixes A B R c k :: int
  assumes "R = A - B - c + k * 2 ^ 32" and "c = 0 \<or> c = 1" and "k = 0 \<or> k = 1"
    and "0 \<le> A" "A < 2 ^ 32" "0 \<le> B" "B < 2 ^ 32" "0 \<le> R" "R < 2 ^ 32"
  shows "(2 ^ 31 \<le> A) \<noteq> (2 ^ 31 \<le> B) \<and> (2 ^ 31 \<le> A) \<noteq> (2 ^ 31 \<le> R) \<longleftrightarrow>
    \<not> signed_fits ((if 2 ^ 31 \<le> A then A - 2 ^ 32 else A) - (if 2 ^ 31 \<le> B then B - 2 ^ 32 else B) - c)"
  using assms by (auto simp: signed_fits_def)

lemma add_overflow_iff:
  assumes "uint r + k * 2 ^ 32 = uint a + uint b + c" and "c = 0 \<or> c = 1" and "k = 0 \<or> k = 1"
  shows "signs_differ (a XOR r) (b XOR r) \<longleftrightarrow> \<not> signed_fits (sint a + sint b + c)"
proof -
  have "signs_differ (a XOR r) (b XOR r) \<longleftrightarrow>
      (2 ^ 31 \<le> uint a) \<noteq> (2 ^ 31 \<le> uint r) \<and> (2 ^ 31 \<le> uint b) \<noteq> (2 ^ 31 \<le> uint r)"
    by (simp only: signs_differ_iff bit_xor_iff flip: bit_31_iff)
  also have "\<dots> \<longleftrightarrow> \<not> signed_fits (sint a + sint b + c)"
    unfolding sint_32_if by (rule add_overflow_arith [OF assms]) (simp_all add: uint_less_32)
  finally show ?thesis .
qed

lemma sub_overflow_iff:
  assumes "uint r = uint a - uint b - c + k * 2 ^ 32" and "c = 0 \<or> c = 1" and "k = 0 \<or> k = 1"
  shows "signs_differ (a XOR b) (a XOR r) \<longleftrightarrow> \<not> signed_fits (sint a - sint b - c)"
proof -
  have "signs_differ (a XOR b) (a XOR r) \<longleftrightarrow>
      (2 ^ 31 \<le> uint a) \<noteq> (2 ^ 31 \<le> uint b) \<and> (2 ^ 31 \<le> uint a) \<noteq> (2 ^ 31 \<le> uint r)"
    by (simp only: signs_differ_iff bit_xor_iff flip: bit_31_iff)
  also have "\<dots> \<longleftrightarrow> \<not> signed_fits (sint a - sint b - c)"
    unfolding sint_32_if by (rule sub_overflow_arith [OF assms]) (simp_all add: uint_less_32)
  finally show ?thesis .
qed

text \<open>Addition with a carry in: the exact sum, its carry out and its signed overflow.\<close>

lemma adc_value:
  assumes "overflowing_add a b = (r1, c1)" and "overflowing_add r1 (of_bool c) = (r, c2)"
  shows "uint r + of_bool (c1 \<or> c2) * 2 ^ 32 = uint a + uint b + of_bool c" and "\<not> (c1 \<and> c2)"
proof -
  have 1: "unat r1 + of_bool c1 * 2 ^ 32 = unat a + unat b"
    using overflowing_add_value [OF assms(1)] .
  have 2: "unat r + of_bool c2 * 2 ^ 32 = unat r1 + of_bool c"
    using overflowing_add_value [OF assms(2)] by (cases c) simp_all
  have b: "unat a < 2 ^ 32" "unat b < 2 ^ 32" "unat r < 2 ^ 32" using unat_less_32 by simp_all
  show n: "\<not> (c1 \<and> c2)" using 1 2 b by (cases c; auto)
  have "unat r + of_bool (c1 \<or> c2) * 2 ^ 32 = unat a + unat b + of_bool c"
    using 1 2 n by (cases c1; cases c2; cases c) auto
  then have "int (unat r + of_bool (c1 \<or> c2) * 2 ^ 32) = int (unat a + unat b + of_bool c)"
    by simp
  then show "uint r + of_bool (c1 \<or> c2) * 2 ^ 32 = uint a + uint b + of_bool c"
    by (simp only: of_nat_add of_nat_mult of_nat_of_bool uint_nat of_nat_power of_nat_numeral)
qed

lemma sbc_value:
  assumes "overflowing_sub a b = (r1, b1)" and "overflowing_sub r1 (of_bool c) = (r, b2)"
  shows "uint r = uint a - uint b - of_bool c + of_bool (b1 \<or> b2) * 2 ^ 32" and "\<not> (b1 \<and> b2)"
proof -
  have 1: "uint r1 = uint a - uint b + of_bool b1 * 2 ^ 32"
    using overflowing_sub_value [OF assms(1)] .
  have 2: "uint r = uint r1 - of_bool c + of_bool b2 * 2 ^ 32"
    using overflowing_sub_value [OF assms(2)] by (cases c) simp_all
  have l: "uint a < 2 ^ 32" "uint b < 2 ^ 32" "uint r < 2 ^ 32" "0 \<le> uint a" "0 \<le> uint b" "0 \<le> uint r"
    using uint_less_32 by simp_all
  show n: "\<not> (b1 \<and> b2)"
  proof
    assume "b1 \<and> b2"
    with 1 2 have "uint r = uint a - uint b - of_bool c + 2 * 2 ^ 32" by simp
    with l show False by (cases c) simp_all
  qed
  show "uint r = uint a - uint b - of_bool c + of_bool (b1 \<or> b2) * 2 ^ 32"
    using n unfolding 2 1 by (cases b1; cases b2) simp_all
qed

section \<open>Results and flags of the operations\<close>

lemma compute_adc:
  "\<exists>r cy ov. compute_alu AluOp_Adc a b c = (r, Some cy, Some ov, None)
     \<and> uint r + of_bool cy * 2 ^ 32 = uint a + uint b + of_bool c
     \<and> (ov \<longleftrightarrow> \<not> signed_fits (sint a + sint b + of_bool c))"
proof -
  obtain r1 c1 where 1: "overflowing_add a b = (r1, c1)" by fastforce
  obtain r c2 where 2: "overflowing_add r1 (of_bool c) = (r, c2)" by fastforce
  have v: "uint r + of_bool (c1 \<or> c2) * 2 ^ 32 = uint a + uint b + of_bool c"
    by (rule adc_value(1) [OF 1 2])
  have "signs_differ (a XOR r) (b XOR r) \<longleftrightarrow> \<not> signed_fits (sint a + sint b + of_bool c)"
    by (rule add_overflow_iff [OF v]) auto
  with 1 2 v show ?thesis
    by (simp add: compute_alu_def Let_def del: signs_differ_iff)
qed

lemma compute_add_eq_adc: "compute_alu AluOp_Add a b c = compute_alu AluOp_Adc a b False"
proof -
  have "overflowing_add r 0 = (r, False)" for r
    using unat_less_32 [of r] by (simp add: overflowing_add_def)
  then show ?thesis by (simp add: compute_alu_def Let_def split: prod.split)
qed

lemma compute_sbc:
  "\<exists>r bw ov. compute_alu AluOp_Sbc a b c = (r, Some bw, Some ov, None)
     \<and> uint r = uint a - uint b - of_bool c + of_bool bw * 2 ^ 32
     \<and> (ov \<longleftrightarrow> \<not> signed_fits (sint a - sint b - of_bool c))"
proof -
  obtain r1 b1 where 1: "overflowing_sub a b = (r1, b1)" by fastforce
  obtain r b2 where 2: "overflowing_sub r1 (of_bool c) = (r, b2)" by fastforce
  have v: "uint r = uint a - uint b - of_bool c + of_bool (b1 \<or> b2) * 2 ^ 32"
    by (rule sbc_value(1) [OF 1 2])
  have "signs_differ (a XOR b) (a XOR r) \<longleftrightarrow> \<not> signed_fits (sint a - sint b - of_bool c)"
    by (rule sub_overflow_iff [OF v]) auto
  with 1 2 v show ?thesis
    by (simp add: compute_alu_def Let_def del: signs_differ_iff)
qed

lemma compute_sub_eq_sbc: "compute_alu AluOp_Sub a b c = compute_alu AluOp_Sbc a b False"
proof -
  have "overflowing_sub r 0 = (r, False)" for r
    by (simp add: overflowing_sub_def)
  then show ?thesis by (simp add: compute_alu_def Let_def split: prod.split)
qed

lemma compute_cmp_eq_sub: "compute_alu AluOp_Cmp a b c = compute_alu AluOp_Sub a b c"
  and compute_rsub_eq_sub: "compute_alu AluOp_Rsub a b c = compute_alu AluOp_Sub b a c"
  and compute_rcmp_eq_sub: "compute_alu AluOp_Rcmp a b c = compute_alu AluOp_Sub b a c"
  by (simp_all add: compute_alu_def)

lemma compute_sub:
  "compute_alu AluOp_Sub a b c = (a - b, Some (a < b), Some (\<not> signed_fits (sint a - sint b)), None)"
proof -
  have v: "uint (a - b) = uint a - uint b - 0 + of_bool (a < b) * 2 ^ 32"
    using overflowing_sub_value [of a b "a - b" "a < b"] by (simp add: overflowing_sub_def)
  have "signs_differ (a XOR b) (a XOR (a - b)) \<longleftrightarrow> \<not> signed_fits (sint a - sint b - 0)"
    by (rule sub_overflow_iff [OF v]) auto
  then show ?thesis
    by (simp add: compute_alu_def overflowing_sub_def Let_def del: signs_differ_iff)
qed

section \<open>Comparison and conditional execution\<close>

lemma less_arith:
  fixes A B R k :: int
  assumes "R = A - B + k * 2 ^ 32" and "k = 0 \<or> k = 1"
    and "0 \<le> A" "A < 2 ^ 32" "0 \<le> B" "B < 2 ^ 32" "0 \<le> R" "R < 2 ^ 32"
  shows "(2 ^ 31 \<le> R) \<noteq> (\<not> signed_fits ((if 2 ^ 31 \<le> A then A - 2 ^ 32 else A)
            - (if 2 ^ 31 \<le> B then B - 2 ^ 32 else B)))
    \<longleftrightarrow> (if 2 ^ 31 \<le> A then A - 2 ^ 32 else A) < (if 2 ^ 31 \<le> B then B - 2 ^ 32 else B)"
  using assms by (auto simp: signed_fits_def)

text \<open>N differs from V after \<open>a - b\<close> exactly when \<open>a\<close> is below \<open>b\<close> as signed numbers.\<close>

lemma sub_negative_iff: "(bit (a - b) 31 \<noteq> (\<not> signed_fits (sint a - sint b))) \<longleftrightarrow> sint a < sint b"
  for a b :: u32
proof -
  have v: "uint (a - b) = uint a - uint b + of_bool (a < b) * 2 ^ 32"
    using overflowing_sub_value [of a b "a - b" "a < b"] by (simp add: overflowing_sub_def)
  show ?thesis
    unfolding bit_31_iff sint_32_if
    by (rule less_arith [OF v]) (auto simp: uint_less_32)
qed

lemma drop_bit_31_eq_0 [simp]: "drop_bit 31 v = 0 \<longleftrightarrow> \<not> bit v 31" for v :: u32
  using signs_differ_iff [of v v, unfolded signs_differ_def and.idem] by blast

text \<open>The flags a CMP of \<open>a\<close> with \<open>b\<close> leaves, whatever the state was.\<close>

definition flags_after_cmp :: "u32 \<Rightarrow> u32 \<Rightarrow> cpu_state \<Rightarrow> cpu_state" where
  "flags_after_cmp a b s = set_alu_flags (compute_alu AluOp_Cmp a b (flag_c s)) s"

lemma flags_after_cmp:
  "flag_z (flags_after_cmp a b s) \<longleftrightarrow> a = b"
  "flag_n (flags_after_cmp a b s) \<longleftrightarrow> bit (a - b) 31"
  "flag_c (flags_after_cmp a b s) \<longleftrightarrow> a < b"
  "flag_v (flags_after_cmp a b s) \<longleftrightarrow> \<not> signed_fits (sint a - sint b)"
  by (simp_all add: flags_after_cmp_def compute_cmp_eq_sub compute_sub set_alu_flags_def set_zn_def
      set_c_def set_v_def)

lemma cmp_conditions:
  "condition_holds (Some EQ) (flags_after_cmp a b s) \<longleftrightarrow> a = b"
  "condition_holds (Some CS) (flags_after_cmp a b s) \<longleftrightarrow> a < b"
  "condition_holds (Some LS) (flags_after_cmp a b s) \<longleftrightarrow> a \<le> b"
  "condition_holds (Some LT) (flags_after_cmp a b s) \<longleftrightarrow> sint a < sint b"
  "condition_holds (Some LE) (flags_after_cmp a b s) \<longleftrightarrow> sint a \<le> sint b"
proof -
  show "condition_holds (Some EQ) (flags_after_cmp a b s) \<longleftrightarrow> a = b"
    and "condition_holds (Some CS) (flags_after_cmp a b s) \<longleftrightarrow> a < b"
    and "condition_holds (Some LS) (flags_after_cmp a b s) \<longleftrightarrow> a \<le> b"
    by (auto simp: condition_holds_def flags_after_cmp)
  have lt: "condition_holds (Some LT) (flags_after_cmp a b s) \<longleftrightarrow> sint a < sint b"
    using sub_negative_iff [of a b] by (auto simp: condition_holds_def flags_after_cmp)
  then show "condition_holds (Some LT) (flags_after_cmp a b s) \<longleftrightarrow> sint a < sint b" .
  have "condition_holds (Some LE) (flags_after_cmp a b s) \<longleftrightarrow> a = b \<or> sint a < sint b"
    using lt by (auto simp: condition_holds_def flags_after_cmp)
  then show "condition_holds (Some LE) (flags_after_cmp a b s) \<longleftrightarrow> sint a \<le> sint b"
    by (metis order_le_less signed_word_eqI)
qed

lemma negated_condition:
  "negate_condition c = Some c' \<Longrightarrow> condition_holds (Some c') s \<longleftrightarrow> \<not> condition_holds (Some c) s"
  by (simp add: condition_holds_def evaluate_negate)

lemma execute_cmp:
  assumes "resolve_value src1 s = Inr a" and "resolve_value src2 s = Inr b"
  shows "execute_alu AluOp_Cmp NoOperand src1 src2 True None s = (Inr (), flags_after_cmp a b s)"
  using assms by (simp add: execute_alu_def when_condition_def condition_holds_def op_defs
      write_dest_def flags_after_cmp_def Let_def)

section \<open>Products\<close>

lemma uint_drop_bit_eq: "uint (drop_bit n w) = drop_bit n (uint w)" for w :: "'a::len word"
  by (rule bit_eqI) (auto simp: bit_simps dest: bit_imp_le_length)

lemma uint_ucast_64: "uint (ucast a :: u64) = uint a" for a :: u32
  using uint_less_32 [of a] by (simp add: unsigned_ucast_eq take_bit_int_eq_self_iff)

lemma mpyu_product: "uint (mpyhu a b) * 2 ^ 32 + uint (mpyu a b) = uint a * uint b"
proof -
  let ?p = "(ucast a :: u64) * ucast b"
  have ab: "uint a * uint b < 2 ^ 64"
    using mult_strict_mono' [of "uint a" "2 ^ 32" "uint b" "2 ^ 32"] uint_less_32 [of a] uint_less_32 [of b]
    by simp
  then have p: "uint ?p = uint a * uint b"
    using uint_mult_lem [of "ucast a :: u64" "ucast b"] by (simp add: uint_ucast_64)
  have lo: "uint (mpyu a b) = uint ?p mod 2 ^ 32"
    unfolding mpyu_def by (simp only: unsigned_ucast_eq take_bit_eq_mod) simp
  have "uint ?p div 2 ^ 32 < 2 ^ 32" "0 \<le> uint ?p div 2 ^ 32"
    using p ab by (simp_all add: pos_imp_zdiv_nonneg_iff)
  then have hi: "uint (mpyhu a b) = uint ?p div 2 ^ 32"
    unfolding mpyhu_def
    by (simp only: unsigned_ucast_eq uint_drop_bit_eq) (simp add: drop_bit_eq_div take_bit_int_eq_self)
  show ?thesis unfolding lo hi p by simp
qed

lemma sint_scast_64: "sint (scast a :: u64) = sint a" for a :: u32
  by (simp add: sint_up_scast is_up)

lemma sint_bound_32: "- (2 ^ 31) \<le> sint a" "sint a < 2 ^ 31" for a :: u32
  using sint_greater_eq [of a] sint_less [of a] by simp_all

lemma abs_product_less: "\<bar>x\<bar> \<le> 2 ^ 31 \<Longrightarrow> \<bar>y\<bar> \<le> 2 ^ 31 \<Longrightarrow> \<bar>x * y\<bar> \<le> 2 ^ 62" for x y :: int
  using mult_mono [of "\<bar>x\<bar>" "2 ^ 31" "\<bar>y\<bar>" "2 ^ 31"] by (simp add: abs_mult)

lemma sint_ucast_low: "sint (ucast w :: u32) = signed_take_bit 31 (sint w)" for w :: u64
  by (rule bit_eqI) (simp add: bit_simps min_def)

lemma mpy_product: "sint (mpyh a b) * 2 ^ 32 + uint (mpy a b) = sint a * sint b"
proof -
  let ?p = "(scast a :: u64) * scast b"
  have ab: "\<bar>sint a * sint b\<bar> \<le> 2 ^ 62"
    by (rule abs_product_less) (use sint_bound_32 [of a] sint_bound_32 [of b] in linarith)+
  then have "signed_take_bit 63 (sint a * sint b) = sint a * sint b"
    by (intro signed_take_bit_int_eq_self) auto
  then have p: "sint ?p = sint a * sint b"
    by (simp add: sint_word_ariths sint_scast_64)
  have lo: "uint (mpy a b) = sint ?p mod 2 ^ 32"
    unfolding mpy_def
    by (simp only: unsigned_ucast_eq sint_uint flip: take_bit_eq_mod) (simp add: take_bit_signed_take_bit)
  have ab': "- 4611686018427387904 \<le> sint ?p" "sint ?p \<le> 4611686018427387904"
    using ab unfolding p by (simp_all add: abs_le_iff)
  have "- (2 ^ 31) \<le> sint ?p div 2 ^ 32"
    using zdiv_mono1 [OF ab'(1), of "2 ^ 32"] by simp
  moreover have "sint ?p div 2 ^ 32 < 2 ^ 31"
    using zdiv_mono1 [OF ab'(2), of "2 ^ 32"] by simp
  ultimately
  have hi: "sint (mpyh a b) = sint ?p div 2 ^ 32"
    unfolding mpyh_def
    by (simp only: sint_ucast_low sint_signed_drop_bit_eq)
      (simp add: drop_bit_eq_div signed_take_bit_int_eq_self)
  show ?thesis unfolding lo hi p by simp
qed

lemma two_words_less:
  "uint hi * 2 ^ 32 + uint lo < 2 ^ 64" "0 \<le> uint hi * 2 ^ 32 + uint lo" for hi lo :: u32
  using uint_less_32 [of hi] uint_less_32 [of lo] by simp_all

section \<open>Properties\<close>

text \<open>Addition and subtraction with carry are exact: ADC and SBC return the 32-bit word and a
  carry (borrow) that together give the integer sum (difference), and V is set exactly when the
  signed sum (difference) does not fit 32 bits; ADD and SUB are ADC and SBC with a clear carry, CMP
  computes as SUB, and RSUB and RCMP as SUB with the operands exchanged.\<close>

theorem add_sub_exact:
  "(\<exists>r cy ov. compute_alu AluOp_Adc a b c = (r, Some cy, Some ov, None)
      \<and> uint r + of_bool cy * 2 ^ 32 = uint a + uint b + of_bool c
      \<and> ov = (\<not> signed_fits (sint a + sint b + of_bool c)))
   \<and> (\<exists>r bw ov. compute_alu AluOp_Sbc a b c = (r, Some bw, Some ov, None)
      \<and> uint r = uint a - uint b - of_bool c + of_bool bw * 2 ^ 32
      \<and> ov = (\<not> signed_fits (sint a - sint b - of_bool c)))
   \<and> compute_alu AluOp_Add a b c = compute_alu AluOp_Adc a b False
   \<and> compute_alu AluOp_Sub a b c = compute_alu AluOp_Sbc a b False
   \<and> compute_alu AluOp_Cmp a b c = compute_alu AluOp_Sub a b c
   \<and> compute_alu AluOp_Rsub a b c = compute_alu AluOp_Sub b a c
   \<and> compute_alu AluOp_Rcmp a b c = compute_alu AluOp_Sub b a c"
  by (intro conjI compute_adc compute_sbc compute_add_eq_adc compute_sub_eq_sbc compute_cmp_eq_sub
      compute_rsub_eq_sub compute_rcmp_eq_sub)

text \<open>After an executed \<open>CMP src1, src2\<close> the condition codes are the comparisons of the two
  operand values: EQ and NE equality, CS, LS, CC and HI the unsigned order, LT, LE, GE and GT the
  signed order; nothing but the flags changes.\<close>

theorem cmp_then_condition:
  assumes "resolve_value src1 s = Inr a" and "resolve_value src2 s = Inr b"
  shows "\<exists>t. execute_alu AluOp_Cmp NoOperand src1 src2 True None s = (Inr (), t)
    \<and> t = s\<lparr>flag_z := flag_z t, flag_n := flag_n t, flag_c := flag_c t, flag_v := flag_v t\<rparr>
    \<and> (condition_holds (Some EQ) t \<longleftrightarrow> a = b) \<and> (condition_holds (Some NE) t \<longleftrightarrow> a \<noteq> b)
    \<and> (condition_holds (Some CS) t \<longleftrightarrow> a < b) \<and> (condition_holds (Some CC) t \<longleftrightarrow> b \<le> a)
    \<and> (condition_holds (Some LS) t \<longleftrightarrow> a \<le> b) \<and> (condition_holds (Some HI) t \<longleftrightarrow> b < a)
    \<and> (condition_holds (Some LT) t \<longleftrightarrow> sint a < sint b) \<and> (condition_holds (Some GE) t \<longleftrightarrow> sint b \<le> sint a)
    \<and> (condition_holds (Some LE) t \<longleftrightarrow> sint a \<le> sint b) \<and> (condition_holds (Some GT) t \<longleftrightarrow> sint b < sint a)"
proof -
  let ?t = "flags_after_cmp a b s"
  have frame: "?t = s\<lparr>flag_z := flag_z ?t, flag_n := flag_n ?t, flag_c := flag_c ?t, flag_v := flag_v ?t\<rparr>"
    by (simp add: flags_after_cmp_def compute_cmp_eq_sub compute_sub set_alu_flags_def set_zn_def
        set_c_def set_v_def)
  have neg: "condition_holds (Some NE) ?t \<longleftrightarrow> a \<noteq> b" "condition_holds (Some CC) ?t \<longleftrightarrow> b \<le> a"
    "condition_holds (Some HI) ?t \<longleftrightarrow> b < a" "condition_holds (Some GE) ?t \<longleftrightarrow> sint b \<le> sint a"
    "condition_holds (Some GT) ?t \<longleftrightarrow> sint b < sint a"
    by (simp_all add: negated_condition [of EQ] negated_condition [of CS] negated_condition [of LS]
        negated_condition [of LT] negated_condition [of LE] cmp_conditions not_less not_le)
  show ?thesis
    by (intro exI [of _ ?t] conjI execute_cmp [OF assms] frame cmp_conditions neg)
qed

theorem cmp_then_condition_witness:
  "\<exists>t. execute_alu AluOp_Cmp NoOperand (Imm 0xFFFFFFFE) (Imm 3) True None new_cpu_state = (Inr (), t)
    \<and> condition_holds (Some LT) t \<and> condition_holds (Some HI) t \<and> \<not> condition_holds (Some EQ) t"
proof -
  have "resolve_value (Imm 0xFFFFFFFE) new_cpu_state = Inr 0xFFFFFFFE"
    "resolve_value (Imm 3) new_cpu_state = Inr 3" by (simp_all add: resolve_value_def)
  from cmp_then_condition [OF this] show ?thesis by (elim ex_forward) simp
qed

text \<open>A 64-bit sum or difference computed in two words (ADD then ADC with its carry, SUB then SBC
  with its borrow) is the sum or difference of the 64-bit numbers, modulo \<open>2 ^ 64\<close>.\<close>

theorem two_word_arithmetic:
  "(case compute_alu AluOp_Add a0 b0 x of (lo, c, _) \<Rightarrow>
     case compute_alu AluOp_Adc a1 b1 (c = Some True) of (hi, _) \<Rightarrow>
       uint hi * 2 ^ 32 + uint lo
         = (uint a1 * 2 ^ 32 + uint a0 + (uint b1 * 2 ^ 32 + uint b0)) mod 2 ^ 64)
   \<and> (case compute_alu AluOp_Sub a0 b0 x of (lo, c, _) \<Rightarrow>
     case compute_alu AluOp_Sbc a1 b1 (c = Some True) of (hi, _) \<Rightarrow>
       uint hi * 2 ^ 32 + uint lo
         = (uint a1 * 2 ^ 32 + uint a0 - (uint b1 * 2 ^ 32 + uint b0)) mod 2 ^ 64)"
proof (rule conjI)
  obtain lo c ov where 1: "compute_alu AluOp_Add a0 b0 x = (lo, Some c, Some ov, None)"
    and lo: "uint lo + of_bool c * 2 ^ 32 = uint a0 + uint b0"
    using compute_adc [of a0 b0 False] by (auto simp: compute_add_eq_adc)
  obtain hi c' ov' where 2: "compute_alu AluOp_Adc a1 b1 c = (hi, Some c', Some ov', None)"
    and hi: "uint hi + of_bool c' * 2 ^ 32 = uint a1 + uint b1 + of_bool c"
    using compute_adc [of a1 b1 c] by auto
  have "uint a1 * 2 ^ 32 + uint a0 + (uint b1 * 2 ^ 32 + uint b0)
      = (uint hi * 2 ^ 32 + uint lo) + of_bool c' * 2 ^ 64"
    using lo hi by (cases c; cases c') simp_all
  with 1 2 show "case compute_alu AluOp_Add a0 b0 x of (lo, c, _) \<Rightarrow>
     case compute_alu AluOp_Adc a1 b1 (c = Some True) of (hi, _) \<Rightarrow>
       uint hi * 2 ^ 32 + uint lo
         = (uint a1 * 2 ^ 32 + uint a0 + (uint b1 * 2 ^ 32 + uint b0)) mod 2 ^ 64"
    using two_words_less [of hi lo] by simp
next
  obtain lo c ov where 1: "compute_alu AluOp_Sub a0 b0 x = (lo, Some c, Some ov, None)"
    and lo: "uint lo = uint a0 - uint b0 + of_bool c * 2 ^ 32"
    using compute_sbc [of a0 b0 False] by (auto simp: compute_sub_eq_sbc)
  obtain hi c' ov' where 2: "compute_alu AluOp_Sbc a1 b1 c = (hi, Some c', Some ov', None)"
    and hi: "uint hi = uint a1 - uint b1 - of_bool c + of_bool c' * 2 ^ 32"
    using compute_sbc [of a1 b1 c] by auto
  have "uint a1 * 2 ^ 32 + uint a0 - (uint b1 * 2 ^ 32 + uint b0)
      = (uint hi * 2 ^ 32 + uint lo) + (- of_bool c') * 2 ^ 64"
    using lo hi by (cases c; cases c') simp_all
  with 1 2 show "case compute_alu AluOp_Sub a0 b0 x of (lo, c, _) \<Rightarrow>
     case compute_alu AluOp_Sbc a1 b1 (c = Some True) of (hi, _) \<Rightarrow>
       uint hi * 2 ^ 32 + uint lo
         = (uint a1 * 2 ^ 32 + uint a0 - (uint b1 * 2 ^ 32 + uint b0)) mod 2 ^ 64"
    using two_words_less [of hi lo] by simp
qed

text \<open>The multiplications are exact: MPYH:MPY is the 64-bit signed product of the operands and
  MPYHU:MPYU the unsigned one.\<close>

theorem mpy_exact:
  "sint (fst (compute_alu AluOp_Mpyh a b c)) * 2 ^ 32 + uint (fst (compute_alu AluOp_Mpy a b c))
     = sint a * sint b
   \<and> uint (fst (compute_alu AluOp_Mpyhu a b c)) * 2 ^ 32 + uint (fst (compute_alu AluOp_Mpyu a b c))
     = uint a * uint b"
  using mpy_product mpyu_product by (simp_all add: compute_alu_def)

end
