(* ===== verification/Extended.thy ===== *)
theory Extended
  imports Alu
begin

text \<open>
  \<open>src/executor/extended.rs\<close>: shifts by a register, saturating and packed arithmetic, the division
  step, normalisation and the word swap. Signed values are words read with \<^const>\<open>sint\<close>; an
  \<open>i64\<close> intermediate is a 64-bit word. The amount of a Rust shift is taken modulo the width, as the
  release build does: it matters where \<open>-shift\<close> wraps.
\<close>

text \<open>\<open>saturating_add\<close> and \<open>saturating_sub\<close> of \<open>i32\<close> and \<open>i16\<close>, and \<open>leading_zeros\<close>, of the standard
  library.\<close>

definition clamp :: "int \<Rightarrow> int \<Rightarrow> int \<Rightarrow> int" where
  "clamp lo hi x = (if x < lo then lo else if hi < x then hi else x)"

definition saturate :: "int \<Rightarrow> 'a::len word" where
  "saturate x = word_of_int (clamp (- (2 ^ (LENGTH('a) - 1))) (2 ^ (LENGTH('a) - 1) - 1) x)"

definition saturating_add :: "'a::len word \<Rightarrow> 'a word \<Rightarrow> 'a word" where
  "saturating_add a b = saturate (sint a + sint b)"

definition saturating_sub :: "'a::len word \<Rightarrow> 'a word \<Rightarrow> 'a word" where
  "saturating_sub a b = saturate (sint a - sint b)"

fun bit_length :: "nat \<Rightarrow> nat" where
  "bit_length n = (if n = 0 then 0 else Suc (bit_length (n div 2)))"

declare bit_length.simps [simp del]

definition leading_zeros :: "'a::len word \<Rightarrow> nat" where
  "leading_zeros w = LENGTH('a) - bit_length (unat w)"

text \<open>\<open>x.min(31)\<close> on \<open>i32\<close>\<close>

definition min_31 :: "i32 \<Rightarrow> i32" where
  "min_31 x = (if x \<le>s 31 then x else 31)"

text \<open>The saturating left shift that ASLS and ASRS share: \<open>val as i64 << s\<close>, clamped to \<open>i32\<close>.\<close>

definition shl_saturating :: "i32 \<Rightarrow> u32 \<Rightarrow> u32" where
  "shl_saturating val s =
     (let result = push_bit (unat (s AND 63)) (scast val :: u64)
      in if 0x7FFFFFFF <s result then 0x7FFFFFFF
         else if result <s 0xFFFFFFFF80000000 then 0x80000000
         else ucast result)"

definition shr_signed :: "i32 \<Rightarrow> i32 \<Rightarrow> u32" where
  "shr_signed val s = signed_drop_bit (unat (s AND 31)) val"

text \<open>The result of an operation and the carry it sets; \<open>no_src2\<close> is \<open>src2 == Operand::None\<close>.\<close>

definition compute_ext :: "ext_arith_op \<Rightarrow> u32 \<Rightarrow> u32 \<Rightarrow> bool \<Rightarrow> u32 \<times> bool option" where
  "compute_ext op a b no_src2 =
     (case op of
        ExtArithOp_Asl \<Rightarrow>
          (let shift = unat (b AND 0x1F)
           in if 32 \<le> b then (0, if b = 32 then Some (a AND 1 \<noteq> 0) else Some False)
              else if shift = 0 then (a, None)
              else (push_bit shift a, Some (bit_set a (32 - shift))))
      | ExtArithOp_Lsr \<Rightarrow>
          (let shift = unat (b AND 0x1F)
           in if 32 \<le> b then (0, if b = 32 then Some (drop_bit 31 a \<noteq> 0) else Some False)
              else if shift = 0 then (a, None)
              else (drop_bit shift a, Some (bit_set a (shift - 1))))
      | ExtArithOp_Asr \<Rightarrow>
          (let shift = unat (b AND 0x1F)
           in if 32 \<le> b then (signed_drop_bit 31 a, Some (drop_bit 31 a \<noteq> 0))
              else if shift = 0 then (a, None)
              else (signed_drop_bit shift a, Some (bit_set a (shift - 1))))
      | ExtArithOp_Ror \<Rightarrow>
          (let shift = unat (b AND 0x1F)
           in (word_rotr (unat (b AND 31)) a,
               if shift \<noteq> 0 then Some (bit_set a (shift - 1)) else None))
      | ExtArithOp_Adds \<Rightarrow> (saturating_add a b, None)
      | ExtArithOp_Subs \<Rightarrow> (saturating_sub a b, None)
      | ExtArithOp_Addsdw \<Rightarrow>
          (let ah = (ucast (drop_bit 16 a) :: u16); al = (ucast a :: u16);
               bh = (ucast (drop_bit 16 b) :: u16); bl = (ucast b :: u16);
               rh = saturating_add ah bh; rl = saturating_add al bl
           in (push_bit 16 (ucast rh) OR ucast rl, None))
      | ExtArithOp_Subsdw \<Rightarrow>
          (let ah = (ucast (drop_bit 16 a) :: u16); al = (ucast a :: u16);
               bh = (ucast (drop_bit 16 b) :: u16); bl = (ucast b :: u16);
               rh = saturating_sub ah bh; rl = saturating_sub al bl
           in (push_bit 16 (ucast rh) OR ucast rl, None))
      | ExtArithOp_Divaw \<Rightarrow>
          (let b_temp = push_bit 1 a
           in (if b \<le> b_temp then b_temp - b + 1 else a, None))
      | ExtArithOp_Asls \<Rightarrow>
          (let shift = (if no_src2 then 1 else b)
           in (if shift <s 0 then shr_signed a (min_31 (- shift))
               else shl_saturating a (min_31 shift), None))
      | ExtArithOp_Asrs \<Rightarrow>
          (let shift = (if no_src2 then 1 else b)
           in (if shift <s 0 then shl_saturating a (min_31 (- shift))
               else shr_signed a (min_31 shift), None))
      | ExtArithOp_Sat16 \<Rightarrow>
          (if 0x7FFF <s a then 0x7FFF else if a <s - 0x8000 then 0xFFFF8000 else a, None)
      | ExtArithOp_Rnd16 \<Rightarrow>
          (let sum = (scast a :: u64) + 0x8000;
               sat = (if 0x7FFFFFFF <s sum then 0x7FFFFFFF
                      else if sum <s 0xFFFFFFFF80000000 then 0x80000000 else ucast sum)
           in (sat AND 0xFFFF0000, None))
      | ExtArithOp_Abss \<Rightarrow>
          (if a = 0x80000000 then 0x7FFFFFFF else if a <s 0 then - a else a, None)
      | ExtArithOp_Abssw \<Rightarrow>
          (let v = (scast (ucast a :: u16) :: u32)
           in (if v = 0xFFFF8000 then 0x7FFF else if v <s 0 then - v else v, None))
      | ExtArithOp_Negs \<Rightarrow> (if a = 0x80000000 then 0x7FFFFFFF else - a, None)
      | ExtArithOp_Negsw \<Rightarrow>
          (let v = (scast (ucast a :: u16) :: u32); neg = - v
           in (if 0x7FFF <s neg then 0x7FFF else scast (ucast neg :: u16), None))
      | ExtArithOp_Norm \<Rightarrow>
          (if a = 0 \<or> a = 0xFFFFFFFF then 31
           else if drop_bit 31 a = 0 then of_nat (leading_zeros a) - 1
           else of_nat (leading_zeros (NOT a)) - 1, None)
      | ExtArithOp_Normw \<Rightarrow>
          (let v16 = (ucast (a AND 0xFFFF) :: u16)
           in (if v16 = 0 \<or> v16 = 0xFFFF then 15
               else if drop_bit 15 v16 = 0 then of_nat (leading_zeros v16) - 1
               else of_nat (leading_zeros (NOT v16)) - 1, None))
      | ExtArithOp_Swap \<Rightarrow>
          (push_bit 16 (a AND 0xFFFF) OR (drop_bit 16 a AND 0xFFFF), None))"

definition execute_ext_arith ::
    "ext_arith_op \<Rightarrow> operand \<Rightarrow> operand \<Rightarrow> operand \<Rightarrow> bool \<Rightarrow> condition_code option
     \<Rightarrow> (cpu_state, unit) op" where
  "execute_ext_arith op dst src1 src2 set_flags cc =
     when_condition cc
       (bindM (readM (resolve_value src1)) (\<lambda>a.
        bindM (readM (resolve_value src2)) (\<lambda>b.
        let (result, carry) = compute_ext op a b (src2 = NoOperand)
        in thenM (write_dest dst result)
             (if set_flags then modifyM (\<lambda>s. set_c carry (set_zn result s)) else returnM ()))))"

section \<open>The shifts in the integers\<close>

lemma shift_amount: "b < 32 \<Longrightarrow> unat (b AND 0x1F) = unat b" for b :: u32
proof -
  assume "b < 32"
  then have "unat b < 32" by (simp add: word_less_nat_alt)
  moreover have "unat (b AND 0x1F) = unat b mod 2 ^ 5"
    using unat_and_mask [of b 5] by (simp add: mask_eq_exp_minus_1)
  ultimately show ?thesis by simp
qed

lemma uint_push_bit_32: "uint (push_bit n a) = uint a * 2 ^ n mod 2 ^ 32" for a :: u32
  by (simp only: unsigned_push_bit_eq take_bit_eq_mod) (simp add: push_bit_eq_mult)

lemma power_32_dvd: "32 \<le> n \<Longrightarrow> (x * 2 ^ n) mod 2 ^ 32 = 0" for x :: int
  by (metis dvd_eq_mod_eq_0 dvd_triv_right le_imp_power_dvd dvd_mult)

lemma ext_asl_value: "uint (fst (compute_ext ExtArithOp_Asl a b x)) = uint a * 2 ^ unat b mod 2 ^ 32"
proof (cases "b < 32")
  case True
  then show ?thesis
    by (auto simp: compute_ext_def Let_def shift_amount uint_push_bit_32 not_le)
       (metis uint_less_32 mod_pos_pos_trivial uint_nonnegative unat_eq_zero power_0 mult.right_neutral)
next
  case False
  then have "32 \<le> unat b" by (simp add: word_less_nat_alt not_less)
  with False show ?thesis by (simp add: compute_ext_def Let_def not_less power_32_dvd [simplified])
qed

lemma bit_length_le: "n < 2 ^ k \<Longrightarrow> bit_length n \<le> k"
proof (induction n arbitrary: k rule: bit_length.induct)
  case (1 n)
  show ?case
  proof (cases "n = 0")
    case False
    then obtain k' where k: "k = Suc k'" using 1(2) by (cases k) auto
    with 1(2) have "n div 2 < 2 ^ k'" by simp
    then show ?thesis using 1(1) [OF False] False k by (simp add: bit_length.simps)
  qed (simp add: bit_length.simps)
qed

lemma bit_length_bounds: "0 < n \<Longrightarrow> 2 ^ (bit_length n - 1) \<le> n \<and> n < 2 ^ bit_length n \<and> 0 < bit_length n"
proof (induction n rule: bit_length.induct)
  case (1 n)
  show ?case
  proof (cases "n div 2 = 0")
    case True
    then have "n = 1" using 1(2) by auto
    then show ?thesis by (simp add: bit_length.simps)
  next
    case False
    with 1 have ih: "2 ^ (bit_length (n div 2) - 1) \<le> n div 2" "n div 2 < 2 ^ bit_length (n div 2)"
      "0 < bit_length (n div 2)" by auto
    have l: "bit_length n = Suc (bit_length (n div 2))" using 1(2) by (simp add: bit_length.simps [of n])
    from ih(1,3) have "2 ^ bit_length (n div 2) \<le> 2 * (n div 2)"
      by (cases "bit_length (n div 2)") auto
    moreover have "2 * (n div 2) \<le> n" "n < 2 * (n div 2) + 2" by simp_all
    ultimately have "2 ^ bit_length (n div 2) \<le> n" "n < 2 * 2 ^ bit_length (n div 2)"
      using ih(2) by linarith+
    with l show ?thesis by simp
  qed
qed

lemma uint_drop_bit_div: "uint (drop_bit n a) = uint a div 2 ^ n" for a :: u32
  using uint_drop_bit_eq [of n a] by (simp only: drop_bit_eq_div [of n "uint a"])

lemma ext_lsr_value: "uint (fst (compute_ext ExtArithOp_Lsr a b x)) = uint a div 2 ^ unat b"
proof (cases "b < 32")
  case True
  then show ?thesis
    by (auto simp: compute_ext_def Let_def shift_amount uint_drop_bit_div not_le unat_eq_zero)
next
  case False
  then have "32 \<le> unat b" by (simp add: word_less_nat_alt not_less)
  then have "(2 :: int) ^ 32 \<le> 2 ^ unat b" by (intro power_increasing) auto
  then have "uint a < 2 ^ unat b" using uint_less_32 [of a] by simp
  then have "uint a div 2 ^ unat b = 0" by (simp add: div_pos_pos_trivial)
  with False show ?thesis by (simp add: compute_ext_def Let_def not_less)
qed

lemma div_sign: "- d \<le> x \<Longrightarrow> x < d \<Longrightarrow> x div d = (if x < 0 then - 1 else 0)" for x d :: int
  by (auto intro: int_div_pos_eq [of x d "- 1" "x + d"] simp: div_pos_pos_trivial)

lemma ext_asr_value: "sint (fst (compute_ext ExtArithOp_Asr a b x)) = sint a div 2 ^ unat b"
proof (cases "b < 32")
  case True
  then show ?thesis
    by (auto simp: compute_ext_def Let_def shift_amount sint_signed_drop_bit_eq drop_bit_eq_div not_le
        unat_eq_zero)
next
  case False
  then have "31 \<le> unat b" by (simp add: word_less_nat_alt not_less)
  then have "(2 :: int) ^ 31 \<le> 2 ^ unat b" by (intro power_increasing) auto
  then have l: "sint a < 2 ^ unat b" "- (2 ^ unat b) \<le> sint a"
    using sint_bound_32 [of a] by linarith+
  have "sint a div 2 ^ unat b = (if sint a < 0 then - 1 else 0)"
    "sint a div 2 ^ 31 = (if sint a < 0 then - 1 else 0)"
    using l sint_bound_32 [of a] div_sign by simp_all
  with False show ?thesis
    by (simp add: compute_ext_def Let_def not_less sint_signed_drop_bit_eq drop_bit_eq_div)
qed

lemma sint_saturate_32: "sint (saturate x :: u32) = clamp (- (2 ^ 31)) (2 ^ 31 - 1) x"
proof -
  have "signed_take_bit 31 (clamp (- (2 ^ 31)) (2 ^ 31 - 1) x) = clamp (- (2 ^ 31)) (2 ^ 31 - 1) x"
    by (rule signed_take_bit_int_eq_self) (auto simp: clamp_def)
  then show ?thesis by (simp add: saturate_def signed_of_int)
qed

lemma ext_saturating_value:
  "sint (fst (compute_ext ExtArithOp_Adds a b x)) = clamp (- (2 ^ 31)) (2 ^ 31 - 1) (sint a + sint b)"
  "sint (fst (compute_ext ExtArithOp_Subs a b x)) = clamp (- (2 ^ 31)) (2 ^ 31 - 1) (sint a - sint b)"
  by (simp_all add: compute_ext_def saturating_add_def saturating_sub_def sint_saturate_32)

lemma ext_negs_value: "sint (fst (compute_ext ExtArithOp_Negs a b x)) = clamp (- (2 ^ 31)) (2 ^ 31 - 1) (- sint a)"
proof (cases "a = 0x80000000")
  case False
  then have ne: "sint a \<noteq> - (2 ^ 31)"
    using signed_word_eqI [of a "0x80000000"] by auto
  have "sint (- a) = signed_take_bit 31 (- sint a)" by (simp add: sint_word_ariths)
  also have "\<dots> = - sint a"
    using ne sint_bound_32 [of a] by (intro signed_take_bit_int_eq_self) auto
  finally show ?thesis
    using False ne sint_bound_32 [of a] by (simp add: compute_ext_def clamp_def)
qed (simp add: compute_ext_def clamp_def)

lemma ext_abss_value: "sint (fst (compute_ext ExtArithOp_Abss a b x)) = clamp (- (2 ^ 31)) (2 ^ 31 - 1) \<bar>sint a\<bar>"
proof (cases "a <s 0")
  case True
  then have "fst (compute_ext ExtArithOp_Abss a b x) = fst (compute_ext ExtArithOp_Negs a b x)"
    by (simp add: compute_ext_def)
  moreover have "sint a < 0" using True by (simp add: word_sless_alt)
  ultimately show ?thesis using ext_negs_value [of a b x] by simp
next
  case False
  then have p: "0 \<le> sint a" by (simp add: word_sless_alt)
  then have "a \<noteq> 0x80000000" by auto
  with False have "fst (compute_ext ExtArithOp_Abss a b x) = a" by (simp add: compute_ext_def)
  with p show ?thesis using sint_bound_32 [of a] by (simp add: clamp_def)
qed

text \<open>NORM counts the redundant sign bits: the largest left shift of \<open>a\<close> that keeps its value.\<close>

lemma leading_zeros_value:
  fixes w :: u32
  assumes "w \<noteq> 0"
  shows "2 ^ (31 - leading_zeros w) \<le> unat w" and "unat w < 2 ^ (32 - leading_zeros w)"
    and "leading_zeros w \<le> 31"
proof -
  have "0 < unat w" using assms by (simp add: unat_gt_0)
  moreover have "bit_length (unat w) \<le> 32" using unat_less_32 [of w] by (intro bit_length_le) simp
  ultimately show "2 ^ (31 - leading_zeros w) \<le> unat w" "unat w < 2 ^ (32 - leading_zeros w)"
    "leading_zeros w \<le> 31"
    using bit_length_bounds [of "unat w"] by (auto simp: leading_zeros_def)
qed

lemma norm_arith:
  fixes m :: nat
  assumes "2 ^ (31 - z) \<le> m" and "m < 2 ^ (32 - z)" and "0 < z" and "z \<le> 31"
  shows "int m * 2 ^ (z - 1) < 2 ^ 31" and "2 ^ 31 \<le> int m * 2 ^ z"
    and "(int m + 1) * 2 ^ (z - 1) \<le> 2 ^ 31" and "2 ^ 31 < (int m + 1) * 2 ^ z"
proof -
  have e: "(2 :: int) ^ (32 - z) * 2 ^ (z - 1) = 2 ^ 31" "(2 :: int) ^ (31 - z) * 2 ^ z = 2 ^ 31"
    using assms(3,4) by (simp_all flip: power_add)
  have l: "int m < 2 ^ (32 - z)" "2 ^ (31 - z) \<le> int m"
    using assms(1,2) by (metis of_nat_less_iff of_nat_le_iff of_nat_power of_nat_numeral)+
  show "int m * 2 ^ (z - 1) < 2 ^ 31"
    using mult_strict_right_mono [OF l(1), of "2 ^ (z - 1)"] unfolding e by simp
  show ge: "2 ^ 31 \<le> int m * 2 ^ z"
    using mult_right_mono [OF l(2), of "2 ^ z"] unfolding e by simp
  show "(int m + 1) * 2 ^ (z - 1) \<le> 2 ^ 31"
    using mult_right_mono [of "int m + 1" "2 ^ (32 - z)" "2 ^ (z - 1)"] l(1) unfolding e by simp
  have "(int m + 1) * 2 ^ z = int m * 2 ^ z + 2 ^ z" by (simp add: algebra_simps)
  moreover have "(0 :: int) < 2 ^ z" by simp
  ultimately show "2 ^ 31 < (int m + 1) * 2 ^ z" using ge by linarith
qed

lemma uint_not_32: "uint (NOT a) = - 1 - sint a" if "bit a 31" for a :: u32
proof -
  have "sint (NOT a) = NOT (sint a)"
    by (rule bit_eqI) (auto simp: bit_simps min_def)
  then have "sint (NOT a) = - sint a - 1"
    by (simp add: not_int_def)
  moreover have "\<not> bit (NOT a) 31" using that by (simp add: bit_not_iff)
  ultimately show ?thesis using sint_32 [of "NOT a"] by simp
qed

text \<open>The magnitude NORM measures: \<open>a\<close> itself, or its complement when it is negative.\<close>

lemma norm_is_leading_zeros:
  assumes "a \<noteq> 0" and "a \<noteq> 0xFFFFFFFF"
  defines "w \<equiv> if bit a 31 then NOT a else a"
  shows "unat (fst (compute_ext ExtArithOp_Norm a b x)) = leading_zeros w - 1"
    and "w \<noteq> 0" and "\<not> bit w 31" and "0 < leading_zeros w"
proof -
  show w: "w \<noteq> 0"
  proof
    assume "w = 0"
    then have "a = 0 \<or> NOT a = 0" by (auto simp: w_def split: if_splits)
    moreover have "NOT a = 0 \<Longrightarrow> a = NOT 0" by (metis bit.double_compl)
    ultimately show False using assms(1,2) by auto
  qed
  show n: "\<not> bit w 31" by (simp add: w_def bit_not_iff)
  show pos: "0 < leading_zeros w"
  proof (rule ccontr)
    assume "\<not> 0 < leading_zeros w"
    then have "2 ^ 31 \<le> unat w" using leading_zeros_value(1) [OF w] by simp
    then have "2 ^ 31 \<le> uint w" by (metis of_nat_le_iff of_nat_numeral of_nat_power uint_nat)
    with n show False by (simp add: bit_31_iff)
  qed
  have "(of_nat (leading_zeros w) - 1 :: u32) = of_nat (leading_zeros w - 1)"
    using pos by (simp add: of_nat_diff)
  moreover have "unat (of_nat (leading_zeros w - 1) :: u32) = leading_zeros w - 1"
    using leading_zeros_value(3) [OF w] by (simp add: unat_of_nat)
  ultimately have "unat (of_nat (leading_zeros w) - 1 :: u32) = leading_zeros w - 1"
    by simp
  then show "unat (fst (compute_ext ExtArithOp_Norm a b x)) = leading_zeros w - 1"
    using assms(1,2) by (cases "bit a 31") (simp_all add: compute_ext_def w_def)
qed

lemma norm_value:
  fixes a b :: u32 and x :: bool
  defines "k \<equiv> unat (fst (compute_ext ExtArithOp_Norm a b x))"
  shows "k \<le> 31 \<and> signed_fits (sint a * 2 ^ k) \<and> (k < 31 \<longrightarrow> \<not> signed_fits (sint a * 2 ^ (k + 1)))"
proof (cases "a = 0 \<or> a = 0xFFFFFFFF")
  case True
  then have "k = 31" and "sint a = 0 \<or> sint a = - 1" by (auto simp: k_def compute_ext_def)
  then show ?thesis by (auto simp: signed_fits_def)
next
  case False
  define w where "w = (if bit a 31 then NOT a else a)"
  have k: "k = leading_zeros w - 1" and "w \<noteq> 0" and "\<not> bit w 31" and pos: "0 < leading_zeros w"
    using norm_is_leading_zeros [of a] False by (simp_all add: k_def w_def)
  note lz = leading_zeros_value [OF \<open>w \<noteq> 0\<close>]
  note ar = norm_arith [OF lz(1,2) pos lz(3)]
  have k1: "k + 1 = leading_zeros w" and k31: "k \<le> 31" using pos k lz(3) by simp_all
  show ?thesis
  proof (cases "bit a 31")
    case neg: True
    then have "int (unat w) = - 1 - sint a" using uint_not_32 by (simp add: w_def)
    then have s: "sint a = - (int (unat w) + 1)" by simp
    have neg: "- y * p < 2 ^ 31 \<and> (- (2 ^ 31) \<le> - y * p \<longleftrightarrow> y * p \<le> 2 ^ 31)"
      if "0 \<le> y" "0 \<le> p" for y p :: int
    proof -
      have "0 \<le> y * p" using that by simp
      then show ?thesis unfolding minus_mult_left [symmetric] by auto
    qed
    show ?thesis
      using ar(3,4) k31 neg [of "int (unat w) + 1" "2 ^ k"] neg [of "int (unat w) + 1" "2 ^ (k + 1)"]
      unfolding s signed_fits_def k1 k [symmetric] by fastforce
  next
    case False
    then have s: "sint a = int (unat w)" using sint_32 [of a] by (simp add: w_def)
    have "0 \<le> int (unat w) * 2 ^ k" by simp
    then show ?thesis using ar(1,2) k31 unfolding s signed_fits_def k1 k [symmetric] by linarith
  qed
qed

text \<open>The saturating shifts, for every count but the one whose negation wraps.\<close>

lemma sat_64:
  assumes "sint (v :: u64) = y"
  shows "sint (if 0x7FFFFFFF <s v then 0x7FFFFFFF else if v <s 0xFFFFFFFF80000000 then 0x80000000
               else ucast v :: u32) = clamp (- (2 ^ 31)) (2 ^ 31 - 1) y"
proof -
  have c: "0x7FFFFFFF <s v \<longleftrightarrow> 2 ^ 31 - 1 < y" "v <s 0xFFFFFFFF80000000 \<longleftrightarrow> y < - (2 ^ 31)"
    using assms by (simp_all add: word_sless_alt)
  have "sint (ucast v :: u32) = y" if "- (2 ^ 31) \<le> y" "y \<le> 2 ^ 31 - 1"
    using that by (simp add: sint_ucast_low assms signed_take_bit_int_eq_self)
  then show ?thesis by (auto simp: c clamp_def)
qed

lemma shl_saturating_value:
  assumes "unat s \<le> 31"
  shows "sint (shl_saturating a s) = clamp (- (2 ^ 31)) (2 ^ 31 - 1) (sint a * 2 ^ unat s)"
proof -
  have s: "unat (s AND 63) = unat s"
    using unat_and_mask [of s 6] assms by (simp add: mask_eq_exp_minus_1)
  have p: "(2 :: int) ^ unat s \<le> 2 ^ 31" using assms by (intro power_increasing) auto
  then have "\<bar>sint a * 2 ^ unat s\<bar> \<le> 2 ^ 62"
    using sint_bound_32 [of a] by (intro abs_product_less) auto
  then have "signed_take_bit 63 (sint a * 2 ^ unat s) = sint a * 2 ^ unat s"
    by (intro signed_take_bit_int_eq_self) auto
  then have "sint (push_bit (unat s) (scast a :: u64)) = sint a * 2 ^ unat s"
    by (simp only: signed_push_bit_eq sint_scast_64) (simp add: push_bit_eq_mult)
  from sat_64 [OF this] show ?thesis by (simp add: shl_saturating_def Let_def s)
qed

lemma shr_signed_value:
  "unat s \<le> 31 \<Longrightarrow> sint (shr_signed a s) = sint a div 2 ^ unat s"
proof -
  assume "unat s \<le> 31"
  then have "unat (s AND 31) = unat s"
    using unat_and_mask [of s 5] by (simp add: mask_eq_exp_minus_1)
  then show ?thesis by (simp add: shr_signed_def sint_signed_drop_bit_eq drop_bit_eq_div)
qed

lemma min_31_value: "0 \<le> sint x \<Longrightarrow> unat (min_31 x) = min (nat (sint x)) 31"
proof -
  assume "0 \<le> sint x"
  then have s: "sint x = uint x" using sint_32 [of x] uint_less_32 [of x]
    by (cases "bit x 31") auto
  have "uint x \<le> 31 \<longleftrightarrow> unat x \<le> 31"
    using word_le_nat_alt [of x 31] word_le_def [of x 31] by simp
  then show ?thesis using s by (auto simp: min_31_def word_sle_eq min_def)
qed

lemma sint_minus: "x \<noteq> 0x80000000 \<Longrightarrow> sint (- x) = - sint x" for x :: u32
proof -
  assume "x \<noteq> 0x80000000"
  then have "sint x \<noteq> - (2 ^ 31)" using signed_word_eqI [of x "0x80000000"] by auto
  then have "signed_take_bit 31 (- sint x) = - sint x"
    using sint_bound_32 [of x] by (intro signed_take_bit_int_eq_self) auto
  then show ?thesis by (simp add: sint_word_ariths)
qed

section \<open>Properties\<close>

text \<open>The multi-bit shifts are shifts of the integer value at every count, counts of 32 and more
  included: ASL multiplies by \<open>2 ^ b\<close> modulo \<open>2 ^ 32\<close>, LSR divides the unsigned value by \<open>2 ^ b\<close> and
  ASR the signed value, rounding down.\<close>

theorem shift_by_register_exact:
  "uint (fst (compute_ext ExtArithOp_Asl a b x)) = uint a * 2 ^ unat b mod 2 ^ 32
   \<and> uint (fst (compute_ext ExtArithOp_Lsr a b x)) = uint a div 2 ^ unat b
   \<and> sint (fst (compute_ext ExtArithOp_Asr a b x)) = sint a div 2 ^ unat b"
  by (intro conjI ext_asl_value ext_lsr_value ext_asr_value)

text \<open>The saturating operations return the exact integer result clamped to the signed 32-bit range:
  ADDS, SUBS, NEGS, ABSS, and ASLS, whose count is signed and counts of 31 and more saturate or
  shift as 31; the one exception is the count \<open>-2 ^ 31\<close>, which returns the operand unshifted.\<close>

theorem saturating_exact:
  "sint (fst (compute_ext ExtArithOp_Adds a b x)) = clamp (- (2 ^ 31)) (2 ^ 31 - 1) (sint a + sint b)
   \<and> sint (fst (compute_ext ExtArithOp_Subs a b x)) = clamp (- (2 ^ 31)) (2 ^ 31 - 1) (sint a - sint b)
   \<and> sint (fst (compute_ext ExtArithOp_Negs a b x)) = clamp (- (2 ^ 31)) (2 ^ 31 - 1) (- sint a)
   \<and> sint (fst (compute_ext ExtArithOp_Abss a b x)) = clamp (- (2 ^ 31)) (2 ^ 31 - 1) \<bar>sint a\<bar>
   \<and> sint (fst (compute_ext ExtArithOp_Asls a b False)) =
       (if b = 0x80000000 then sint a
        else if sint b < 0 then sint a div 2 ^ min (nat (- sint b)) 31
        else clamp (- (2 ^ 31)) (2 ^ 31 - 1) (sint a * 2 ^ min (nat (sint b)) 31))"
proof (intro conjI ext_saturating_value ext_negs_value ext_abss_value)
  show "sint (fst (compute_ext ExtArithOp_Asls a b False)) =
       (if b = 0x80000000 then sint a
        else if sint b < 0 then sint a div 2 ^ min (nat (- sint b)) 31
        else clamp (- (2 ^ 31)) (2 ^ 31 - 1) (sint a * 2 ^ min (nat (sint b)) 31))"
  proof (cases "b = 0x80000000")
    case True
    have "shr_signed a (min_31 (- 0x80000000)) = a"
      by (simp add: shr_signed_def min_31_def word_sle_eq)
    with True show ?thesis by (simp add: compute_ext_def Let_def word_sless_alt)
  next
    case False
    then show ?thesis
      using min_31_value [of "- b"] min_31_value [of b] shr_signed_value [of "min_31 (- b)" a]
        shl_saturating_value [of "min_31 b" a]
      by (simp add: compute_ext_def Let_def word_sless_alt sint_minus)
  qed
qed

text \<open>NORM returns the largest count by which its operand can be shifted left and still fit the
  signed 32-bit range, and 31 for 0, which fits at every count.\<close>

theorem norm_is_headroom:
  "unat (fst (compute_ext ExtArithOp_Norm a b x)) \<le> 31
   \<and> signed_fits (sint a * 2 ^ unat (fst (compute_ext ExtArithOp_Norm a b x)))
   \<and> (signed_fits (sint a * 2 ^ (unat (fst (compute_ext ExtArithOp_Norm a b x)) + 1)) \<longleftrightarrow> a = 0)
   \<and> fst (compute_ext ExtArithOp_Norm 0 b x) = 31"
proof -
  define n where "n = unat (fst (compute_ext ExtArithOp_Norm a b x))"
  have n: "n \<le> 31" "signed_fits (sint a * 2 ^ n)" "n = 31 \<or> \<not> signed_fits (sint a * 2 ^ (n + 1))"
    using norm_value [of a b x] by (auto simp: n_def)
  have "signed_fits (sint a * 2 ^ (n + 1)) \<longleftrightarrow> a = 0"
  proof (cases "n = 31")
    case True
    have "sint a = 0 \<longleftrightarrow> a = 0" by (metis signed_eq_0_iff)
    then show ?thesis using n(2) by (auto simp: True signed_fits_def)
  next
    case False
    then show ?thesis using n(3) by (auto simp: signed_fits_def)
  qed
  moreover have "fst (compute_ext ExtArithOp_Norm 0 b x) = 31"
  proof -
    have "unat (fst (compute_ext ExtArithOp_Norm 0 b x)) = 31"
      using norm_value [of 0 b x] by (simp add: signed_fits_def)
    then show ?thesis by (simp add: word_unat_eq_iff)
  qed
  ultimately show ?thesis using n by (simp add: n_def)
qed

end
