(* ===== verification/Branches.thy ===== *)
theory Branches
  imports Executor_Base
begin

text \<open>
  \<open>src/executor/branch.rs\<close> and \<open>src/executor/special.rs\<close>: branches, compare-and-branch, jumps with
  the interrupt return, the operations without operands, loop setup and FLAG. A taken branch either
  writes the program counter at once or, with a delay slot, leaves its target in \<open>delay_state\<close> for
  the step loop.
\<close>

text \<open>\<open>(pcl as i64 + offset as i64) as u32\<close>\<close>

definition branch_target :: "u32 \<Rightarrow> i32 \<Rightarrow> u32" where
  "branch_target base_pc offset =
     (let pcl = base_pc AND NOT 3 in ucast ((ucast pcl :: u64) + scast offset))"

definition next_pc_of :: "decoded_instruction \<Rightarrow> u32" where
  "next_pc_of d = inst_pc d + total_size d"

text \<open>The tail of \<open>execute_branch\<close> and \<open>execute_jump\<close>: \<open>match delay { .. }\<close>\<close>

definition take_branch :: "decoded_instruction \<Rightarrow> u32 \<Rightarrow> delay_mode \<Rightarrow> bool \<Rightarrow> (cpu_state, unit) op" where
  "take_branch d target delay link =
     (case delay of
        Delay \<Rightarrow> modifyM (\<lambda>s. s\<lparr>delay_state := DelaySlot target link\<rparr>)
      | NoDelay \<Rightarrow>
          thenM (if link then
                   thenM (write_core_reg REG_BLINK (next_pc_of d))
                     (modifyM (\<lambda>s. s\<lparr>link_executed := True\<rparr>))
                 else returnM ())
            (modifyM (\<lambda>s. s\<lparr>pc := target, pc_written := True\<rparr>)))"

definition execute_branch ::
    "decoded_instruction \<Rightarrow> i32 \<Rightarrow> condition_code option \<Rightarrow> delay_mode \<Rightarrow> bool \<Rightarrow> (cpu_state, unit) op" where
  "execute_branch d offset cc delay link =
     when_condition cc
       (let target = branch_target (inst_pc d) offset
        in thenM (modifyM (\<lambda>s. s\<lparr>aux_bta := target\<rparr>)) (take_branch d target delay link))"

definition branch_taken :: "br_compare_kind \<Rightarrow> u32 \<Rightarrow> u32 \<Rightarrow> bool" where
  "branch_taken kind a b =
     (case kind of
        Breq \<Rightarrow> a = b
      | Brne \<Rightarrow> a \<noteq> b
      | Brlt \<Rightarrow> a <s b
      | Brge \<Rightarrow> b \<le>s a
      | Brlo \<Rightarrow> a < b
      | Brhs \<Rightarrow> b \<le> a
      | Bbit0 \<Rightarrow> drop_bit (unat (b AND 31)) a AND 1 = 0
      | Bbit1 \<Rightarrow> drop_bit (unat (b AND 31)) a AND 1 = 1)"

definition execute_branch_compare ::
    "br_compare_kind \<Rightarrow> operand \<Rightarrow> operand \<Rightarrow> i32 \<Rightarrow> delay_mode \<Rightarrow> decoded_instruction
     \<Rightarrow> (cpu_state, unit) op" where
  "execute_branch_compare kind src1 src2 offset delay d =
     bindM (readM (resolve_value src1)) (\<lambda>a.
     bindM (readM (resolve_value src2)) (\<lambda>b.
     if \<not> branch_taken kind a b then returnM ()
     else
       let target = branch_target (inst_pc d) offset
       in thenM (modifyM (\<lambda>s. s\<lparr>aux_bta := target\<rparr>))
            (case delay of
               Delay \<Rightarrow> modifyM (\<lambda>s. s\<lparr>delay_state := DelaySlot target False\<rparr>)
             | NoDelay \<Rightarrow> modifyM (\<lambda>s. s\<lparr>pc := target, pc_written := True\<rparr>))))"

text \<open>\<open>J.F [ILINK1/2]\<close>: STATUS32 and BTA of the level\<close>

definition restore_level :: "operand \<Rightarrow> cpu_state \<Rightarrow> cpu_state" where
  "restore_level target_op s =
     (case target_op of
        Reg r \<Rightarrow>
          (if r = 29 then (set_status32 (aux_status32_l1 s) s)\<lparr>aux_bta := aux_bta_l1 s\<rparr>
           else (set_status32 (aux_status32_l2 s) s)\<lparr>aux_bta := aux_bta_l2 s\<rparr>)
      | _ \<Rightarrow> s)"

definition execute_jump ::
    "decoded_instruction \<Rightarrow> operand \<Rightarrow> condition_code option \<Rightarrow> delay_mode \<Rightarrow> bool \<Rightarrow> bool
     \<Rightarrow> (cpu_state, unit) op" where
  "execute_jump d target_op cc delay link flag_restore =
     when_condition cc
       (bindM (readM (resolve_value target_op)) (\<lambda>target.
        thenM (modifyM (\<lambda>s. s\<lparr>aux_bta := target\<rparr>))
       (thenM (if flag_restore then modifyM (restore_level target_op) else returnM ())
          (take_branch d target delay link))))"

section \<open>Special operations\<close>

definition execute_zero_op :: "zero_op \<Rightarrow> (cpu_state, unit) op" where
  "execute_zero_op zop =
     (case zop of
        ZeroOp_Nop \<Rightarrow> returnM ()
      | ZeroOp_Sleep u6 \<Rightarrow>
          thenM (if u6 \<noteq> 0 then
                   (let mask = (ucast u6 :: u32)
                    in modifyM (\<lambda>s. s\<lparr>flag_e1 := bit_set mask 3, flag_e2 := bit_set mask 4\<rparr>))
                 else returnM ())
            (modifyM (\<lambda>s. s\<lparr>sleeping := True\<rparr>))
      | ZeroOp_Swi \<Rightarrow> throwM (Trap 0)
      | ZeroOp_Brk \<Rightarrow> modifyM (\<lambda>s. s\<lparr>halted := True\<rparr>)
      | ZeroOp_Trap param \<Rightarrow> throwM (Trap param)
      | ZeroOp_Rtie \<Rightarrow> bindM (getsM pc) (\<lambda>a. throwM (InstructionError a))
      | ZeroOp_Sync \<Rightarrow> returnM ())"

definition execute_loop ::
    "u32 \<Rightarrow> condition_code option \<Rightarrow> decoded_instruction \<Rightarrow> (cpu_state, unit) op" where
  "execute_loop offset cc d =
     (let pcl = inst_pc d AND 0xFFFFFFFC
      in bindM (getsM (condition_holds cc)) (\<lambda>b.
         if \<not> b then modifyM (\<lambda>s. s\<lparr>pc := pcl + offset, pc_written := True\<rparr>)
         else modifyM (\<lambda>s. s\<lparr>flag_l := False, aux_lp_start := next_pc_of d,
                              aux_lp_end := pcl + offset\<rparr>)))"

definition execute_flag :: "operand \<Rightarrow> condition_code option \<Rightarrow> (cpu_state, unit) op" where
  "execute_flag src cc =
     when_condition cc
       (bindM (readM (resolve_value src)) (\<lambda>val.
        bindM (getsM id) (\<lambda>s.
        if val AND 1 \<noteq> 0 then
          (if flag_u s then throwM (PrivilegeViolation (pc s))
           else modifyM (\<lambda>s. set_status32 val (s\<lparr>halted := True\<rparr>)))
        else if flag_u s then
          modifyM (\<lambda>s. s\<lparr>flag_z := bit_set val 11, flag_n := bit_set val 10,
                         flag_c := bit_set val 9, flag_v := bit_set val 8\<rparr>)
        else modifyM (set_status32 val))))"

text \<open>The auxiliary register accesses of \<open>src/executor/load_store.rs\<close>\<close>

definition execute_load_aux :: "operand \<Rightarrow> operand \<Rightarrow> (cpu_state, unit) op" where
  "execute_load_aux dst addr =
     bindM (readM (resolve_value addr)) (\<lambda>addr_val.
     bindM (readM (read_aux_reg addr_val)) (\<lambda>val.
     write_dest dst val))"

definition execute_store_aux :: "operand \<Rightarrow> operand \<Rightarrow> (cpu_state, unit) op" where
  "execute_store_aux src addr =
     bindM (readM (resolve_value addr)) (\<lambda>addr_val.
     bindM (readM (resolve_value src)) (\<lambda>val.
     write_aux_reg addr_val val))"

section \<open>Targets\<close>

text \<open>The 64-bit sum of the branch target is the 32-bit sum, with wrap-around.\<close>

lemma ucast_sum_64: "(ucast ((ucast x :: u64) + scast off) :: u32) = x + off" for x off :: u32
proof -
  have "(ucast (u + v :: u64) :: u32) = ucast u + ucast v" for u v :: u64
  proof (rule word_uint_eqI)
    have "take_bit 32 (take_bit 64 (uint u + uint v)) = take_bit 32 (take_bit 32 (uint u) + take_bit 32 (uint v))"
      by (simp add: take_bit_add)
    then show "uint (ucast (u + v) :: u32) = uint (ucast u + ucast v :: u32)"
      by (simp only: unsigned_ucast_eq uint_word_ariths flip: take_bit_eq_mod) simp
  qed
  moreover have "(ucast (ucast x :: u64) :: u32) = x"
    by (rule bit_word_eqI) (auto simp: bit_simps)
  moreover have "(ucast (scast off :: u64) :: u32) = off"
  proof (rule bit_word_eqI)
    fix n assume "n < LENGTH(32)"
    then show "bit (ucast (scast off :: u64) :: u32) n = bit off n"
      by (cases "n = 31") (auto simp: bit_simps min_def)
  qed
  ultimately show ?thesis by simp
qed

lemma branch_target_eq: "branch_target p off = (p AND NOT 3) + off"
  by (simp add: branch_target_def Let_def ucast_sum_64)

end
