(* ===== verification/Executor_Invariants.thy ===== *)
theory Executor_Invariants
  imports Extended Branches
begin

text \<open>
  What an invariant of the register state has to promise so that every executor keeps it: it
  does not depend on the flags, the control flow and the loop registers, it survives the guarded
  register writes, and a full write of STATUS32 only where the processor is not in user mode.
  Interpreted on two invariants: the size of the register file, and the confinement of user mode.
\<close>

locale cpu_invariant =
  fixes I :: "cpu_state \<Rightarrow> bool"
  assumes flags: "I s \<Longrightarrow> I (s\<lparr>flag_z := z, flag_n := n, flag_c := c, flag_v := v\<rparr>)"
    and sleep: "I s \<Longrightarrow> I (s\<lparr>flag_e1 := e1, flag_e2 := e2, sleeping := sl\<rparr>)"
    and flow: "I s \<Longrightarrow> I (s\<lparr>pc := p, pc_written := w, link_executed := lk, delay_state := d,
                            aux_bta := bta, halted := h\<rparr>)"
    and loop: "I s \<Longrightarrow> I (s\<lparr>flag_l := l, aux_lp_start := ls, aux_lp_end := le\<rparr>)"
    and status: "I s \<Longrightarrow> \<not> flag_u s \<Longrightarrow> I (set_status32 x s)"
    and core: "keeps I (write_core_reg r x)"
    and aux: "keeps I (write_aux_reg a x)"
begin

lemma update_pc: "I s \<Longrightarrow> I (s\<lparr>pc := p, pc_written := w\<rparr>)"
  and update_delay: "I s \<Longrightarrow> I (s\<lparr>delay_state := d\<rparr>)"
  and update_bta: "I s \<Longrightarrow> I (s\<lparr>aux_bta := bta\<rparr>)"
  and update_link: "I s \<Longrightarrow> I (s\<lparr>link_executed := lk\<rparr>)"
  and update_halted: "I s \<Longrightarrow> I (s\<lparr>halted := h\<rparr>)"
  using flow [where s = s and p = "p" and w = "w" and lk = "link_executed s" and d = "delay_state s" and bta = "aux_bta s" and h = "halted s"]
    flow [where s = s and p = "pc s" and w = "pc_written s" and lk = "link_executed s" and d = "d" and bta = "aux_bta s" and h = "halted s"]
    flow [where s = s and p = "pc s" and w = "pc_written s" and lk = "link_executed s" and d = "delay_state s" and bta = "bta" and h = "halted s"]
    flow [where s = s and p = "pc s" and w = "pc_written s" and lk = "lk" and d = "delay_state s" and bta = "aux_bta s" and h = "halted s"]
    flow [where s = s and p = "pc s" and w = "pc_written s" and lk = "link_executed s" and d = "delay_state s" and bta = "aux_bta s" and h = "h"]
  by simp_all

lemma update_sleeping: "I s \<Longrightarrow> I (s\<lparr>sleeping := sl\<rparr>)"
  and update_enables: "I s \<Longrightarrow> I (s\<lparr>flag_e1 := e1, flag_e2 := e2\<rparr>)"
  using sleep [where s = s and ?e1.0 = "flag_e1 s" and ?e2.0 = "flag_e2 s" and sl = sl]
    sleep [where s = s and ?e1.0 = e1 and ?e2.0 = e2 and sl = "sleeping s"] by simp_all

lemma update_zn: "I s \<Longrightarrow> I (set_zn x s)"
  and update_c: "I s \<Longrightarrow> I (set_c b s)"
  and update_v: "I s \<Longrightarrow> I (set_v b s)"
  using flags [where s = s and z = "x = 0" and n = "drop_bit 31 x \<noteq> 0" and c = "flag_c s" and v = "flag_v s"]
    flags [where s = s and z = "flag_z s" and n = "flag_n s" and c = "the b" and v = "flag_v s"]
    flags [where s = s and z = "flag_z s" and n = "flag_n s" and c = "flag_c s" and v = "the b"]
  by (cases b; simp add: set_zn_def set_c_def set_v_def)+

lemma keeps_when_condition [keeps_intro]: "keeps I m \<Longrightarrow> keeps I (when_condition cc m)"
  by (simp add: keeps_def)

lemma keeps_write_dest [keeps_intro]: "keeps I (write_dest x v)"
  by (cases x) (simp_all add: write_dest_def core keeps_intro)

lemma keeps_execute_alu: "keeps I (execute_alu op dst src1 src2 f cc)"
  unfolding execute_alu_def Let_def
  by (auto simp: set_alu_flags_def Let_def split: prod.splits
      intro!: keeps_intro update_zn update_c update_v)

lemma keeps_execute_ext_arith: "keeps I (execute_ext_arith op dst src1 src2 f cc)"
  unfolding execute_ext_arith_def
  by (auto simp: split_beta Let_def intro!: keeps_intro update_zn update_c)

lemma keeps_take_branch: "keeps I (take_branch d target delay link)"
  unfolding take_branch_def
  by (cases delay) (auto intro!: keeps_intro core update_pc update_delay update_link)

lemma keeps_execute_branch: "keeps I (execute_branch d off cc delay link)"
  unfolding execute_branch_def Let_def
  by (intro keeps_intro update_bta keeps_take_branch)

lemma keeps_execute_branch_compare: "keeps I (execute_branch_compare kind src1 src2 off delay d)"
  unfolding execute_branch_compare_def Let_def
  by (cases delay) (auto intro!: keeps_intro update_bta update_pc update_delay)

text \<open>Reading a link register of an interrupt level fails in user mode, so the restore of STATUS32
  that follows it only happens outside it.\<close>

lemma keeps_execute_jump:
  assumes "fr \<longrightarrow> target = Reg 29 \<or> target = Reg 30"
  shows "keeps I (execute_jump d target cc delay link fr)"
proof (rule keepsI)
  fix s assume I: "I s"
  have tail: "wp (take_branch d v delay link) (\<lambda>_. I) (\<lambda>_. I) t" if "I t" for v t
    using keeps_take_branch that by (simp add: keeps_def)
  have restore: "I (restore_level target (s\<lparr>aux_bta := v\<rparr>))"
    if fr and v: "resolve_value target s = Inr v" for v
  proof -
    have "\<not> flag_u s"
      using assms that by (auto simp: resolve_value_def read_core_reg_def split: if_splits)
    moreover have "I (s\<lparr>aux_bta := v\<rparr>)" using I by (rule update_bta)
    ultimately show ?thesis
      by (auto simp: restore_level_def split: operand.split intro!: update_bta status)
  qed
  show "wp (execute_jump d target cc delay link fr) (\<lambda>_. I) (\<lambda>_. I) s"
    using I tail restore update_bta [OF I]
    by (auto simp: execute_jump_def split: sum.split)
qed

lemma keeps_execute_zero_op: "keeps I (execute_zero_op z)"
  by (cases z) (auto simp: execute_zero_op_def Let_def
      intro!: keeps_intro update_halted update_sleeping update_enables)

lemma keeps_execute_loop: "keeps I (execute_loop off cc d)"
  unfolding execute_loop_def Let_def by (intro keeps_intro update_pc loop)

lemma keeps_execute_flag: "keeps I (execute_flag src cc)"
  by (rule keepsI) (auto simp: execute_flag_def split: sum.split
      intro!: flags status update_halted)

lemma keeps_execute_load_aux: "keeps I (execute_load_aux dst addr)"
  unfolding execute_load_aux_def by (intro keeps_intro)

lemma keeps_execute_store_aux: "keeps I (execute_store_aux src addr)"
  unfolding execute_store_aux_def by (intro keeps_intro aux)

end

section \<open>The two invariants\<close>

lemma regs_ok_store_aux_reg [simp]: "regs_ok (store_aux_reg a v s) \<longleftrightarrow> regs_ok s"
  by (simp add: regs_ok_def store_aux_reg_def)

interpretation regs: cpu_invariant regs_ok
proof
  show "keeps regs_ok (write_core_reg r x)" for r x
    by (auto simp: keeps_def)
  show "keeps regs_ok (write_aux_reg a x)" for a x
    unfolding write_aux_reg_def by (intro keeps_intro) simp
qed (simp_all add: regs_ok_def set_status32_def)

lemma flag_u_store_aux_reg [simp]:
  "flag_u (store_aux_reg a v s) = flag_u s" "flag_a1 (store_aux_reg a v s) = flag_a1 s"
  "flag_a2 (store_aux_reg a v s) = flag_a2 s" "flag_ae (store_aux_reg a v s) = flag_ae s"
  "core_regs (store_aux_reg a v s) = core_regs s"
  by (simp_all add: store_aux_reg_def)

lemma user_confined_set_core_reg:
  assumes "user_confined s0 s" and "r \<noteq> 29" and "r \<noteq> 30"
  shows "user_confined s0 (set_core_reg r v s)"
proof -
  have "unat r \<noteq> 29" "unat r \<noteq> 30"
    using assms(2,3) by (auto simp: word_unat_eq_iff)
  then show ?thesis using assms(1) by (simp add: user_confined_def set_core_reg_def)
qed

interpretation user: cpu_invariant "user_confined s0" for s0
proof
  show "keeps (user_confined s0) (write_core_reg r x)" for r x
  proof (rule keepsI)
    fix s assume u: "user_confined s0 s"
    then have "flag_u s" by (simp add: user_confined_def)
    then show "wp (write_core_reg r x) (\<lambda>_. user_confined s0) (\<lambda>_. user_confined s0) s"
      using u by (auto intro!: user_confined_set_core_reg)
  qed
  show "keeps (user_confined s0) (write_aux_reg a x)" for a x
  proof (rule keepsI)
    fix s assume u: "user_confined s0 s"
    then have "flag_u s" by (simp add: user_confined_def)
    then show "wp (write_aux_reg a x) (\<lambda>_. user_confined s0) (\<lambda>_. user_confined s0) s"
      using u store_aux_reg_unprotected [of a x s] by (auto simp: write_aux_reg_def user_confined_def)
  qed
  show "user_confined s0 s \<Longrightarrow> \<not> flag_u s \<Longrightarrow> user_confined s0 (set_status32 x s)" for s x
    by (simp add: user_confined_def)
qed (simp_all add: user_confined_def)

end
