(* ===== verification/Bit_Fields.thy ===== *)
theory Bit_Fields
  imports Prelude
begin

text \<open>
  \<open>src/decoder/fields.rs\<close>: extraction of the instruction fields and sign extension. The bit
  positions of a field are constants at every call, so they are naturals here.
\<close>

definition extract_bits :: "u32 \<Rightarrow> nat \<Rightarrow> nat \<Rightarrow> u32" where
  "extract_bits val hi lo = (let width = hi - lo + 1 in drop_bit lo val AND (push_bit width 1 - 1))"

definition major_opcode :: "u16 \<Rightarrow> u8" where
  "major_opcode first_half = ucast (drop_bit 11 first_half) AND 0x1F"

definition is_32bit_instruction :: "u8 \<Rightarrow> bool" where
  "is_32bit_instruction major \<longleftrightarrow> major < 0x0C"

definition sign_extend :: "u32 \<Rightarrow> nat \<Rightarrow> i32" where
  "sign_extend val bits = (let shift = 32 - bits in signed_drop_bit shift (push_bit shift val))"

definition sign_extend_u32 :: "u32 \<Rightarrow> nat \<Rightarrow> u32" where
  "sign_extend_u32 val bits = sign_extend val bits"

definition extract_b_reg :: "u32 \<Rightarrow> u8" where
  "extract_b_reg word =
     (let low = ucast (extract_bits word 26 24); high = ucast (extract_bits word 14 12)
      in push_bit 3 high OR low)"

definition extract_c_reg :: "u32 \<Rightarrow> u8" where
  "extract_c_reg word = ucast (extract_bits word 11 6)"

definition extract_a_reg :: "u32 \<Rightarrow> u8" where
  "extract_a_reg word = ucast (extract_bits word 5 0)"

definition extract_f_bit :: "u32 \<Rightarrow> bool" where
  "extract_f_bit word \<longleftrightarrow> bit_set word 15"

definition extract_p_field :: "u32 \<Rightarrow> u8" where
  "extract_p_field word = ucast (extract_bits word 23 22)"

definition extract_subopcode_04 :: "u32 \<Rightarrow> u8" where
  "extract_subopcode_04 word = ucast (extract_bits word 21 16)"

definition extract_u6 :: "u32 \<Rightarrow> u32" where
  "extract_u6 word = extract_bits word 11 6"

definition extract_s12 :: "u32 \<Rightarrow> i32" where
  "extract_s12 word =
     (let s_low = extract_bits word 11 6;
          s_high = extract_bits word 5 0;
          raw = push_bit 6 s_high OR s_low
      in sign_extend raw 12)"

definition extract_condition_q :: "u32 \<Rightarrow> u8" where
  "extract_condition_q word = ucast (extract_bits word 4 0)"

definition extract_n_bit :: "u32 \<Rightarrow> bool" where
  "extract_n_bit word \<longleftrightarrow> bit_set word 5"

text \<open>The source's match has eight arms and \<open>unreachable!()\<close>; the mask leaves three bits, so the
  last arm here is the one for 7.\<close>

definition map_16bit_reg :: "u8 \<Rightarrow> u8" where
  "map_16bit_reg encoded =
     (let e = encoded AND 0x07
      in if e = 0 then 0 else if e = 1 then 1 else if e = 2 then 2 else if e = 3 then 3
         else if e = 4 then 12 else if e = 5 then 13 else if e = 6 then 14 else 15)"

definition extract_h_reg_16 :: "u16 \<Rightarrow> u8" where
  "extract_h_reg_16 half =
     (let low = ucast (drop_bit 5 half AND 0x07); high = ucast (half AND 0x07)
      in push_bit 3 high OR low)"

section \<open>What the fields are\<close>

lemma push_bit_1_minus_1: "push_bit n 1 - 1 = (mask n :: 'a::len word)"
  by (simp add: mask_eq_decr_exp push_bit_eq_mult)

lemma extract_bits_mask: "extract_bits val hi lo = drop_bit lo val AND mask (hi - lo + 1)"
  by (simp only: extract_bits_def Let_def push_bit_1_minus_1)

lemma bit_extract_bits:
  "bit (extract_bits val hi lo) n \<longleftrightarrow> n < Suc (hi - lo) \<and> bit val (lo + n)"
  by (auto simp: extract_bits_mask bit_simps dest: bit_imp_le_length simp del: mask_Suc_rec)

text \<open>The field is the number the bits \<open>lo .. hi\<close> of the word spell.\<close>

lemma extract_bits_value:
  "unat (extract_bits val hi lo) = unat val div 2 ^ lo mod 2 ^ (hi - lo + 1)"
  by (simp only: extract_bits_mask unat_and_mask unat_drop_bit_eq) (simp add: drop_bit_eq_div)

lemma extract_bits_bound: "unat (extract_bits val hi lo) < 2 ^ Suc (hi - lo)"
  by (simp add: extract_bits_value)

lemma bit_sign_extend:
  assumes "0 < bits" and "bits \<le> 32"
  shows "bit (sign_extend val bits) n \<longleftrightarrow> n < 32 \<and> bit val (min n (bits - 1))"
proof (cases "n < bits")
  case True
  with assms show ?thesis by (auto simp: sign_extend_def Let_def bit_simps min_def)
next
  case False
  with assms show ?thesis by (auto simp: sign_extend_def Let_def bit_simps min_def)
qed

lemma sign_extend_value:
  assumes "0 < bits" and "bits \<le> 32"
  shows "sint (sign_extend val bits) = signed_take_bit (bits - 1) (uint val)"
proof (rule bit_eqI)
  fix n
  have "min (min n 31) (bits - 1) = min n (bits - 1)" using assms by simp
  then show "bit (sint (sign_extend val bits)) n = bit (signed_take_bit (bits - 1) (uint val)) n"
    using assms by (simp add: bit_simps bit_sign_extend min.commute less_Suc_eq_le
        min.strict_coboundedI2)
qed

lemma sign_extend_bounds:
  assumes "0 < bits" and "bits \<le> 32"
  shows "- (2 ^ (bits - 1)) \<le> sint (sign_extend val bits)"
    and "sint (sign_extend val bits) < 2 ^ (bits - 1)"
  using assms by (simp_all add: sign_extend_value signed_take_bit_int_greater_eq_minus_exp
      signed_take_bit_int_less_exp)

section \<open>Ranges of the register fields\<close>

lemma ucast_extract_bits_less:
  assumes "2 ^ Suc (hi - lo) \<le> (m :: nat)" and "m \<le> 256"
  shows "unat (ucast (extract_bits word hi lo) :: u8) < m"
proof -
  have b: "unat (extract_bits word hi lo) < m"
    using extract_bits_bound [of word hi lo] assms(1) by simp
  with assms(2) have "unat (extract_bits word hi lo) < 256" by simp
  then have "unat (ucast (extract_bits word hi lo) :: u8) = unat (extract_bits word hi lo)"
    by (simp add: unsigned_ucast_eq take_bit_eq_mod)
  with b show ?thesis by simp
qed

lemma extract_c_reg_less [simp]: "extract_c_reg word < 64"
  and extract_a_reg_less [simp]: "extract_a_reg word < 64"
  and extract_p_field_less: "extract_p_field word < 4"
  and extract_subopcode_04_less [simp]: "extract_subopcode_04 word < 64"
  by (simp_all add: word_less_nat_alt extract_c_reg_def extract_a_reg_def extract_p_field_def
      extract_subopcode_04_def ucast_extract_bits_less)

lemma extract_b_reg_less [simp]: "extract_b_reg word < 64"
  by (auto simp: byte_less_64_iff extract_b_reg_def Let_def bit_simps bit_extract_bits)

lemma extract_h_reg_16_less [simp]: "extract_h_reg_16 half < 64"
  by (auto simp: byte_less_64_iff extract_h_reg_16_def Let_def bit_simps and_low_mask)

lemma map_16bit_reg_range: "map_16bit_reg e \<in> {0, 1, 2, 3, 12, 13, 14, 15}"
  by (simp add: map_16bit_reg_def Let_def)

lemma map_16bit_reg_less [simp]: "map_16bit_reg e < 64" "map_16bit_reg e \<noteq> 62"
  "map_16bit_reg e < 32"
  using map_16bit_reg_range [of e] by auto

lemma extract_p_field_cases:
  obtains "extract_p_field word = 0" | "extract_p_field word = 1"
    | "extract_p_field word = 2" | "extract_p_field word = 3"
  using byte_less_4_cases [OF extract_p_field_less] by blast

text \<open>The masks and shifts inside the sixteen-bit decoder leave the ranges its matches cover.\<close>

lemma half_field_less:
  "drop_bit k h AND 3 < 4" "drop_bit k h AND 7 < 8" for h :: u16
  using take_bit_word_less [of 2 "drop_bit k h"] take_bit_word_less [of 3 "drop_bit k h"]
  by (simp_all add: and_low_mask)

end
