(* ===== verification/Decode32.thy ===== *)
theory Decode32
  imports Machine_Monad Instruction Bit_Fields
begin

text \<open>
  \<open>src/decoder/decode32.rs\<close>: the decoder of the 32-bit instructions (major opcodes 0 to 5), and
  the fetch interface it reads long immediates through (the trait \<open>InstructionFetch\<close> of
  \<open>src/decoder/mod.rs\<close>, here a record of two operations on the backing store). Each match on a
  field keeps the arms of the source; the \<open>unreachable!()\<close> arms are panics, and the decoder is
  proved never to reach one.
\<close>

record 'm fetch =
  fetch_half :: "u32 \<Rightarrow> ('m, u16) op"
  fetch_word :: "u32 \<Rightarrow> ('m, u32) op"

text \<open>\<open>DecodedInstruction { inst, size: 4, has_limm, pc }\<close>\<close>

definition decoded4 :: "instruction \<Rightarrow> bool \<Rightarrow> u32 \<Rightarrow> decoded_instruction" where
  "decoded4 i has_limm pc = \<lparr>inst = i, inst_size = 4, inst_has_limm = has_limm, inst_pc = pc\<rparr>"

text \<open>\<open>if needs { Some(mem.fetch_word(pc + 4)?) } else { None }\<close>\<close>

definition limm_if :: "'m fetch \<Rightarrow> bool \<Rightarrow> u32 \<Rightarrow> ('m, u32 option) op" where
  "limm_if mem needs pc =
     (if needs then bindM (fetch_word mem (pc + 4)) (\<lambda>limm. returnM (Some limm))
      else returnM None)"

definition resolve_limm :: "u8 \<Rightarrow> u8 \<Rightarrow> u32 \<Rightarrow> u8 \<Rightarrow> 'm fetch \<Rightarrow> ('m, u32 option \<times> bool) op" where
  "resolve_limm b_reg c_reg pc insn_size mem =
     (if b_reg = 62 \<or> c_reg = 62
      then bindM (fetch_word mem (pc + ucast insn_size)) (\<lambda>limm. returnM (Some limm, True))
      else returnM (None, False))"

definition resolve_operand :: "u8 \<Rightarrow> u32 option \<Rightarrow> operand" where
  "resolve_operand reg limm =
     (if reg = 62 then Imm (case limm of None \<Rightarrow> 0 | Some l \<Rightarrow> l) else Reg reg)"

definition condition_or_error :: "u32 \<Rightarrow> u32 \<Rightarrow> ('m, condition_code) op" where
  "condition_or_error word pc =
     ok_orM (condition_from_u8 (extract_condition_q word)) (InstructionError pc)"

definition delay_of :: "bool \<Rightarrow> delay_mode" where
  "delay_of n = (if n then Delay else NoDelay)"

section \<open>Branches\<close>

definition decode_branch :: "u32 \<Rightarrow> u32 \<Rightarrow> ('m, decoded_instruction) op" where
  "decode_branch word pc =
     (if drop_bit 16 word AND 1 = 0 then
        (let s_low = extract_bits word 26 17;
             s_high = extract_bits word 15 6;
             raw_offset = push_bit 10 s_high OR s_low;
             offset = sign_extend (push_bit 1 raw_offset) 21;
             n = extract_n_bit word
         in bindM (condition_or_error word pc) (\<lambda>cc.
              returnM (decoded4 (Branch offset (Some cc) (delay_of n) False) False pc)))
      else
        (let s_low = extract_bits word 26 17;
             s_high = extract_bits word 15 6;
             t = extract_bits word 3 0;
             raw_offset = push_bit 20 t OR push_bit 10 s_high OR s_low;
             offset = sign_extend (push_bit 1 raw_offset) 25;
             n = extract_n_bit word
         in if bit_set word 4 then throwM (InstructionError pc)
            else returnM (decoded4 (Branch offset None (delay_of n) False) False pc)))"

definition decode_branch_compare :: "u32 \<Rightarrow> u32 \<Rightarrow> 'm fetch \<Rightarrow> ('m, decoded_instruction) op" where
  "decode_branch_compare word pc mem =
     (let b_reg = extract_b_reg word;
          n = extract_n_bit word;
          sub_i = ucast (extract_bits word 3 0);
          is_imm = bit_set word 4;
          s_low = extract_bits word 23 17;
          s8 = extract_bits word 15 15;
          raw = push_bit 8 s8 OR push_bit 1 s_low;
          offset = sign_extend raw 9
      in bindM (ok_orM (br_compare_from_u8 sub_i) (InstructionError pc)) (\<lambda>kind.
         bindM (if is_imm then returnM (Imm (extract_bits word 11 6), False)
                else if extract_c_reg word = 62 then
                  bindM (fetch_word mem (pc + 4)) (\<lambda>limm. returnM (Imm limm, True))
                else returnM (Reg (extract_c_reg word), False)) (\<lambda>(src2, has_limm).
         bindM (if b_reg = 62 then
                  bindM (fetch_word mem (pc + 4)) (\<lambda>limm. returnM (Imm limm, True))
                else returnM (Reg b_reg, has_limm)) (\<lambda>(src1, has_limm).
         returnM (decoded4 (BranchCompare kind src1 src2 offset (delay_of n)) has_limm pc)))))"

definition decode_branch_link_or_compare ::
    "u32 \<Rightarrow> u32 \<Rightarrow> 'm fetch \<Rightarrow> ('m, decoded_instruction) op" where
  "decode_branch_link_or_compare word pc mem =
     (let bit17 = drop_bit 17 word AND 1; bit16 = drop_bit 16 word AND 1
      in if bit16 = 1 then decode_branch_compare word pc mem
         else if bit17 = 0 then
           (let s_low = extract_bits word 26 18;
                s_high = extract_bits word 15 6;
                raw = push_bit 9 s_high OR s_low;
                offset = sign_extend (push_bit 2 raw) 21;
                n = extract_n_bit word
            in bindM (condition_or_error word pc) (\<lambda>cc.
                 returnM (decoded4 (Branch offset (Some cc) (delay_of n) True) False pc)))
         else
           (let s_low = extract_bits word 26 18;
                s_mid = extract_bits word 15 6;
                t = extract_bits word 3 0;
                raw = push_bit 19 t OR push_bit 9 s_mid OR s_low;
                offset = sign_extend (push_bit 2 raw) 25;
                n = extract_n_bit word
            in returnM (decoded4 (Branch offset None (delay_of n) True) False pc)))"

section \<open>Loads and stores\<close>

text \<open>The two matches every load and store form repeats.\<close>

definition data_size_of :: "u8 \<Rightarrow> ('m, data_size) op" where
  "data_size_of zz =
     (if zz = 0 then returnM DataSize_Word
      else if zz = 1 then returnM DataSize_Byte
      else if zz = 2 then returnM DataSize_HalfWord
      else panicM)"

definition writeback_of :: "u8 \<Rightarrow> ('m, writeback_mode) op" where
  "writeback_of aa =
     (if aa = 0 then returnM Writeback_None
      else if aa = 1 then returnM Writeback_PreWrite
      else if aa = 2 then returnM Writeback_PostWrite
      else if aa = 3 then returnM Writeback_Scaled
      else panicM)"

definition bad_load_destination :: "u8 \<Rightarrow> bool" where
  "bad_load_destination a_reg \<longleftrightarrow>
     a_reg = 60 \<or> (32 \<le> a_reg \<and> a_reg \<le> 59) \<or> a_reg = 63"

definition decode_load :: "u32 \<Rightarrow> u32 \<Rightarrow> 'm fetch \<Rightarrow> ('m, decoded_instruction) op" where
  "decode_load word pc mem =
     (let b_reg = extract_b_reg word;
          a_reg = extract_a_reg word;
          di = bit_set word 11;
          aa = ucast (extract_bits word 10 9);
          zz = ucast (extract_bits word 8 7);
          x = bit_set word 6;
          s_low = extract_bits word 23 16;
          s8 = extract_bits word 15 15;
          raw = push_bit 8 s8 OR s_low;
          offset_val = sign_extend raw 9
      in if zz = 3 then throwM (InstructionError pc)
         else bindM (data_size_of zz) (\<lambda>data_size.
              bindM (writeback_of aa) (\<lambda>writeback.
              if b_reg = 62 \<and> (aa = 1 \<or> aa = 2) then throwM (InstructionError pc)
              else if bad_load_destination a_reg then throwM (InstructionError pc)
              else bindM (if b_reg = 62 then
                            bindM (fetch_word mem (pc + 4)) (\<lambda>limm. returnM (Imm limm, True))
                          else returnM (Reg b_reg, False)) (\<lambda>(base, has_limm).
                   let dst = (if a_reg = 62 then NoOperand else Reg a_reg)
                   in returnM (decoded4 (Load dst base (Imm offset_val) data_size x writeback di)
                                 has_limm pc)))))"

definition decode_store :: "u32 \<Rightarrow> u32 \<Rightarrow> 'm fetch \<Rightarrow> ('m, decoded_instruction) op" where
  "decode_store word pc mem =
     (let b_reg = extract_b_reg word;
          c_reg = extract_c_reg word;
          di = bit_set word 5;
          aa = ucast (extract_bits word 4 3);
          zz = ucast (extract_bits word 2 1);
          s_low = extract_bits word 23 16;
          s8 = extract_bits word 15 15;
          raw = push_bit 8 s8 OR s_low;
          offset_val = sign_extend raw 9
      in if zz = 3 then throwM (InstructionError pc)
         else bindM (data_size_of zz) (\<lambda>data_size.
              bindM (writeback_of aa) (\<lambda>writeback.
              if b_reg = 62 \<and> (aa = 1 \<or> aa = 2) then throwM (InstructionError pc)
              else bindM (resolve_limm b_reg c_reg pc 4 mem) (\<lambda>(limm_val, has_limm).
                   let base = resolve_operand b_reg limm_val;
                       src = resolve_operand c_reg limm_val
                   in returnM (decoded4 (Store src base (Imm offset_val) data_size writeback di)
                                 has_limm pc)))))"

definition decode_load_reg_reg :: "u32 \<Rightarrow> u32 \<Rightarrow> 'm fetch \<Rightarrow> ('m, decoded_instruction) op" where
  "decode_load_reg_reg word pc mem =
     (let b_reg = extract_b_reg word;
          c_reg = extract_c_reg word;
          a_reg = extract_a_reg word;
          aa = ucast (extract_bits word 23 22);
          zz = ucast (extract_bits word 18 17);
          x = bit_set word 16;
          di = extract_f_bit word
      in if zz = 3 then throwM (InstructionError pc)
         else bindM (data_size_of zz) (\<lambda>data_size.
              bindM (writeback_of aa) (\<lambda>writeback.
              if bad_load_destination a_reg then throwM (InstructionError pc)
              else bindM (resolve_limm b_reg c_reg pc 4 mem) (\<lambda>(limm_val, has_limm).
                   let base = resolve_operand b_reg limm_val;
                       offset = resolve_operand c_reg limm_val;
                       dst = (if a_reg = 62 then NoOperand else Reg a_reg)
                   in returnM (decoded4 (Load dst base offset data_size x writeback di)
                                 has_limm pc)))))"

section \<open>General operations\<close>

text \<open>The long immediate of the register-register forms: for MOV and the test-only operations
  only C is looked at.\<close>

definition alu_limm :: "alu_op \<Rightarrow> u8 \<Rightarrow> u8 \<Rightarrow> u32 \<Rightarrow> 'm fetch \<Rightarrow> ('m, u32 option \<times> bool) op" where
  "alu_limm op b_reg c_reg pc mem =
     (if is_mov op \<or> is_test_only op then
        (if c_reg = 62
         then bindM (fetch_word mem (pc + 4)) (\<lambda>limm. returnM (Some limm, True))
         else returnM (None, False))
      else resolve_limm b_reg c_reg pc 4 mem)"

text \<open>\<open>dst\<close>, \<open>src1\<close>, \<open>src2\<close> of the forms whose destination is \<open>dst0\<close> unless the operation is MOV
  or test-only.\<close>

definition alu_operands ::
    "alu_op \<Rightarrow> operand \<Rightarrow> u8 \<Rightarrow> u32 option \<Rightarrow> operand \<Rightarrow> operand \<times> operand \<times> operand" where
  "alu_operands op dst0 b_reg limm_val src2 =
     (if is_mov op then (Reg b_reg, NoOperand, src2)
      else if is_test_only op then (NoOperand, resolve_operand b_reg limm_val, src2)
      else (dst0, resolve_operand b_reg limm_val, src2))"

definition decode_alu_op ::
    "u32 \<Rightarrow> u32 \<Rightarrow> u8 \<Rightarrow> alu_op \<Rightarrow> 'm fetch \<Rightarrow> ('m, decoded_instruction) op" where
  "decode_alu_op word pc p op mem =
     (let b_reg = extract_b_reg word; f = extract_f_bit word
      in if p = 0 then
           (let c_reg = extract_c_reg word; a_reg = extract_a_reg word
            in bindM (alu_limm op b_reg c_reg pc mem) (\<lambda>(limm_val, has_limm).
                 let (dst, src1, src2) =
                       alu_operands op (resolve_operand a_reg limm_val) b_reg limm_val
                         (resolve_operand c_reg limm_val)
                 in returnM (decoded4 (Alu op dst src1 src2 f None) has_limm pc)))
         else if p = 1 then
           (let u6 = extract_u6 word; a_reg = extract_a_reg word;
                has_limm = (if is_mov op then False else b_reg = 62)
            in bindM (limm_if mem has_limm pc) (\<lambda>limm_val.
                 let (dst, src1, src2) =
                       alu_operands op (resolve_operand a_reg limm_val) b_reg limm_val (Imm u6)
                 in returnM (decoded4 (Alu op dst src1 src2 f None) has_limm pc)))
         else if p = 2 then
           (let s12 = extract_s12 word;
                has_limm = (if is_mov op then False else b_reg = 62)
            in bindM (limm_if mem has_limm pc) (\<lambda>limm_val.
                 let (dst, src1, src2) = alu_operands op (Reg b_reg) b_reg limm_val (Imm s12)
                 in returnM (decoded4 (Alu op dst src1 src2 f None) has_limm pc)))
         else if p = 3 then
           bindM (condition_or_error word pc) (\<lambda>cc.
             if \<not> bit_set word 5 then
               (let c_reg = extract_c_reg word
                in bindM (alu_limm op b_reg c_reg pc mem) (\<lambda>(limm_val, has_limm).
                     let (dst, src1, src2) =
                           alu_operands op (Reg b_reg) b_reg limm_val
                             (resolve_operand c_reg limm_val)
                     in returnM (decoded4 (Alu op dst src1 src2 f (Some cc)) has_limm pc)))
             else
               (let u6 = extract_u6 word;
                    has_limm = (if is_mov op then False else b_reg = 62)
                in bindM (limm_if mem has_limm pc) (\<lambda>limm_val.
                     let (dst, src1, src2) = alu_operands op (Reg b_reg) b_reg limm_val (Imm u6)
                     in returnM (decoded4 (Alu op dst src1 src2 f (Some cc)) has_limm pc))))
         else panicM)"

definition single_op_of :: "u8 \<Rightarrow> single_op option" where
  "single_op_of a_reg =
     (if a_reg = 0x00 then Some SingleOp_Asl
      else if a_reg = 0x01 then Some SingleOp_Asr
      else if a_reg = 0x02 then Some SingleOp_Lsr
      else if a_reg = 0x03 then Some SingleOp_Ror
      else if a_reg = 0x04 then Some SingleOp_Rrc
      else if a_reg = 0x05 then Some SingleOp_Sexb
      else if a_reg = 0x06 then Some SingleOp_Sexw
      else if a_reg = 0x07 then Some SingleOp_Extb
      else if a_reg = 0x08 then Some SingleOp_Extw
      else if a_reg = 0x09 then Some SingleOp_Abs
      else if a_reg = 0x0A then Some SingleOp_Not
      else if a_reg = 0x0B then Some SingleOp_Rlc
      else if a_reg = 0x0C then Some SingleOp_Ex
      else None)"

definition decode_zero_op :: "u32 \<Rightarrow> u32 \<Rightarrow> u8 \<Rightarrow> ('m, decoded_instruction) op" where
  "decode_zero_op word pc b_field =
     (if b_field = 0x01 then
        returnM (decoded4 (ZeroOp (ZeroOp_Sleep (ucast (extract_u6 word)))) False pc)
      else if b_field = 0x02 then returnM (decoded4 (ZeroOp ZeroOp_Swi) False pc)
      else if b_field = 0x03 then returnM (decoded4 (ZeroOp ZeroOp_Sync) False pc)
      else if b_field = 0x04 then returnM (decoded4 (ZeroOp ZeroOp_Rtie) False pc)
      else if b_field = 0x05 then returnM (decoded4 (ZeroOp ZeroOp_Brk) False pc)
      else throwM (InstructionError pc))"

definition decode_single_op ::
    "u32 \<Rightarrow> u32 \<Rightarrow> u8 \<Rightarrow> 'm fetch \<Rightarrow> ('m, decoded_instruction) op" where
  "decode_single_op word pc p mem =
     (if p = 2 then throwM (InstructionError pc)
      else
        let b_reg = extract_b_reg word; f = extract_f_bit word; a_reg = extract_a_reg word
        in if a_reg = 0x3F then decode_zero_op word pc b_reg
           else bindM (ok_orM (single_op_of a_reg) (InstructionError pc)) (\<lambda>sop.
             if p = 0 then
               (let c_reg = extract_c_reg word; has_limm = (c_reg = 62)
                in bindM (limm_if mem has_limm pc) (\<lambda>limm_val.
                     returnM (decoded4 (SingleOp sop (Reg b_reg) (resolve_operand c_reg limm_val)
                                          f None) has_limm pc)))
             else if p = 1 then
               (let u6 = extract_u6 word
                in returnM (decoded4 (SingleOp sop (Reg b_reg) (Imm u6) f None) False pc))
             else if p = 3 then
               bindM (condition_or_error word pc) (\<lambda>cc.
                 if \<not> bit_set word 5 then
                   (let c_reg = extract_c_reg word; has_limm = (c_reg = 62)
                    in bindM (limm_if mem has_limm pc) (\<lambda>limm_val.
                         returnM (decoded4 (SingleOp sop (Reg b_reg)
                                              (resolve_operand c_reg limm_val) f (Some cc))
                                    has_limm pc)))
                 else
                   (let u6 = extract_u6 word
                    in returnM (decoded4 (SingleOp sop (Reg b_reg) (Imm u6) f (Some cc))
                                  False pc)))
             else throwM (InstructionError pc)))"

section \<open>Jumps, loops, flags and auxiliary access\<close>

definition decode_jump ::
    "u32 \<Rightarrow> u32 \<Rightarrow> u8 \<Rightarrow> 'm fetch \<Rightarrow> ('m, decoded_instruction) op" where
  "decode_jump word pc sub mem =
     (let p = extract_p_field word; f = extract_f_bit word;
          link = (sub = 0x22 \<or> sub = 0x23);
          delay = (if sub = 0x21 \<or> sub = 0x23 then Delay else NoDelay)
      in if p = 0 then
           (let c_reg = extract_c_reg word; has_limm = (c_reg = 62)
            in bindM (limm_if mem has_limm pc) (\<lambda>limm_val.
               bindM (if f then
                        (if c_reg = 29 \<or> c_reg = 30 then returnM True
                         else throwM (InstructionError pc))
                      else if c_reg = 29 \<or> c_reg = 30 then returnM True
                      else returnM False) (\<lambda>flag_restore.
               returnM (decoded4 (Jump (resolve_operand c_reg limm_val) None delay link
                                    flag_restore) has_limm pc))))
         else if p = 1 then
           returnM (decoded4 (Jump (Imm (extract_u6 word)) None delay link False) False pc)
         else if p = 2 then
           returnM (decoded4 (Jump (Imm (extract_s12 word)) None delay link False) False pc)
         else if p = 3 then
           (let m_clear = (\<not> bit_set word 5)
            in bindM (condition_or_error word pc) (\<lambda>cc.
               bindM (if m_clear then
                        (let c_reg = extract_c_reg word; has_limm = (c_reg = 62)
                         in bindM (limm_if mem has_limm pc) (\<lambda>limm_val.
                              returnM (resolve_operand c_reg limm_val, has_limm)))
                      else returnM (Imm (extract_u6 word), False)) (\<lambda>(target, has_limm).
               bindM (if f then
                        (if m_clear then
                           (case target of
                              Reg r \<Rightarrow> if r = 29 \<or> r = 30 then returnM True
                                        else throwM (InstructionError pc)
                            | _ \<Rightarrow> throwM (InstructionError pc))
                         else throwM (InstructionError pc))
                      else if m_clear then
                        returnM (case target of Reg r \<Rightarrow> r = 29 \<or> r = 30 | _ \<Rightarrow> False)
                      else returnM False) (\<lambda>flag_restore.
               returnM (decoded4 (Jump target (Some cc) delay link flag_restore) has_limm pc)))))
         else panicM)"

definition decode_loop :: "u32 \<Rightarrow> u32 \<Rightarrow> ('m, decoded_instruction) op" where
  "decode_loop word pc =
     (let p = extract_p_field word
      in bindM (if p = 1 then returnM (push_bit 1 (extract_u6 word), None)
                else if p = 2 then returnM (push_bit 1 (extract_s12 word), None)
                else if p = 3 then
                  bindM (condition_or_error word pc) (\<lambda>cc.
                    returnM (push_bit 1 (extract_u6 word), Some cc))
                else throwM (InstructionError pc)) (\<lambda>(offset, cc).
         returnM (decoded4 (Loop offset cc) False pc)))"

definition decode_flag :: "u32 \<Rightarrow> u32 \<Rightarrow> 'm fetch \<Rightarrow> ('m, decoded_instruction) op" where
  "decode_flag word pc mem =
     (let p = extract_p_field word
      in if p = 0 then
           (let c_reg = extract_c_reg word; has_limm = (c_reg = 62)
            in bindM (limm_if mem has_limm pc) (\<lambda>limm_val.
                 returnM (decoded4 (Flag (resolve_operand c_reg limm_val) None) has_limm pc)))
         else if p = 1 then
           returnM (decoded4 (Flag (Imm (extract_u6 word)) None) False pc)
         else if p = 3 then
           bindM (condition_or_error word pc) (\<lambda>cc.
           bindM (if \<not> bit_set word 5 then
                    (let c_reg = extract_c_reg word; has_limm = (c_reg = 62)
                     in bindM (limm_if mem has_limm pc) (\<lambda>limm_val.
                          returnM (resolve_operand c_reg limm_val, has_limm)))
                  else returnM (Imm (extract_u6 word), False)) (\<lambda>(src, has_limm).
           returnM (decoded4 (Flag src (Some cc)) has_limm pc)))
         else throwM (InstructionError pc))"

definition decode_lr :: "u32 \<Rightarrow> u32 \<Rightarrow> 'm fetch \<Rightarrow> ('m, decoded_instruction) op" where
  "decode_lr word pc mem =
     (let b_reg = extract_b_reg word; p = extract_p_field word
      in if p = 0 then
           (let c_reg = extract_c_reg word; has_limm = (c_reg = 62)
            in bindM (limm_if mem has_limm pc) (\<lambda>limm_val.
                 returnM (decoded4 (LoadAux (Reg b_reg) (resolve_operand c_reg limm_val))
                            has_limm pc)))
         else if p = 1 then
           returnM (decoded4 (LoadAux (Reg b_reg) (Imm (extract_u6 word))) False pc)
         else if p = 2 then
           returnM (decoded4 (LoadAux (Reg b_reg) (Imm (extract_s12 word))) False pc)
         else throwM (InstructionError pc))"

definition decode_sr :: "u32 \<Rightarrow> u32 \<Rightarrow> 'm fetch \<Rightarrow> ('m, decoded_instruction) op" where
  "decode_sr word pc mem =
     (let b_reg = extract_b_reg word; p = extract_p_field word; has_limm_b = (b_reg = 62)
      in if p = 0 then
           (let c_reg = extract_c_reg word
            in bindM (resolve_limm b_reg c_reg pc 4 mem) (\<lambda>(limm_val, has_limm).
                 returnM (decoded4 (StoreAux (resolve_operand b_reg limm_val)
                                      (resolve_operand c_reg limm_val)) has_limm pc)))
         else if p = 1 then
           bindM (limm_if mem has_limm_b pc) (\<lambda>limm_val.
             returnM (decoded4 (StoreAux (resolve_operand b_reg limm_val)
                                  (Imm (extract_u6 word))) has_limm_b pc))
         else if p = 2 then
           bindM (limm_if mem has_limm_b pc) (\<lambda>limm_val.
             returnM (decoded4 (StoreAux (resolve_operand b_reg limm_val)
                                  (Imm (extract_s12 word))) has_limm_b pc))
         else throwM (InstructionError pc))"

definition decode_special_ops ::
    "u32 \<Rightarrow> u32 \<Rightarrow> u8 \<Rightarrow> 'm fetch \<Rightarrow> ('m, decoded_instruction) op" where
  "decode_special_ops word pc sub mem =
     (if sub = 0x20 \<or> sub = 0x21 \<or> sub = 0x22 \<or> sub = 0x23 then decode_jump word pc sub mem
      else if sub = 0x28 then decode_loop word pc
      else if sub = 0x29 then decode_flag word pc mem
      else if sub = 0x2A then decode_lr word pc mem
      else if sub = 0x2B then decode_sr word pc mem
      else throwM (InstructionError pc))"

definition decode_general_ops :: "u32 \<Rightarrow> u32 \<Rightarrow> 'm fetch \<Rightarrow> ('m, decoded_instruction) op" where
  "decode_general_ops word pc mem =
     (let p = extract_p_field word; sub = extract_subopcode_04 word
      in if drop_bit 4 sub = 3 \<and> sub AND 0x08 = 0 then decode_load_reg_reg word pc mem
         else if sub = 0x2F then decode_single_op word pc p mem
         else if 0x20 \<le> sub then decode_special_ops word pc sub mem
         else bindM (ok_orM (alu_op_from_u8 sub) (InstructionError pc)) (\<lambda>alu_op.
                decode_alu_op word pc p alu_op mem))"

section \<open>Extension operations\<close>

definition ext_single_of :: "u8 \<Rightarrow> ext_arith_op option" where
  "ext_single_of a_field =
     (if a_field = 0x00 then Some ExtArithOp_Swap
      else if a_field = 0x01 then Some ExtArithOp_Norm
      else if a_field = 0x02 then Some ExtArithOp_Sat16
      else if a_field = 0x03 then Some ExtArithOp_Rnd16
      else if a_field = 0x04 then Some ExtArithOp_Abssw
      else if a_field = 0x05 then Some ExtArithOp_Abss
      else if a_field = 0x06 then Some ExtArithOp_Negsw
      else if a_field = 0x07 then Some ExtArithOp_Negs
      else if a_field = 0x08 then Some ExtArithOp_Normw
      else None)"

definition ext_dual_of :: "u8 \<Rightarrow> ext_arith_op option" where
  "ext_dual_of sub =
     (if sub = 0x00 then Some ExtArithOp_Asl
      else if sub = 0x01 then Some ExtArithOp_Lsr
      else if sub = 0x02 then Some ExtArithOp_Asr
      else if sub = 0x03 then Some ExtArithOp_Ror
      else if sub = 0x04 \<or> sub = 0x05 then None
      else if sub = 0x06 then Some ExtArithOp_Adds
      else if sub = 0x07 then Some ExtArithOp_Subs
      else if sub = 0x08 then Some ExtArithOp_Divaw
      else if sub = 0x0A then Some ExtArithOp_Asls
      else if sub = 0x0B then Some ExtArithOp_Asrs
      else if sub = 0x28 then Some ExtArithOp_Addsdw
      else if sub = 0x29 then Some ExtArithOp_Subsdw
      else None)"

definition decode_extension_ops :: "u32 \<Rightarrow> u32 \<Rightarrow> 'm fetch \<Rightarrow> ('m, decoded_instruction) op" where
  "decode_extension_ops word pc mem =
     (let sub = extract_subopcode_04 word; p = extract_p_field word;
          b_reg = extract_b_reg word; f = extract_f_bit word
      in if sub = 0x2F then
           bindM (ok_orM (ext_single_of (extract_a_reg word)) (InstructionError pc)) (\<lambda>ext_sop.
           bindM (if p = 0 then
                    (let c_reg = extract_c_reg word; has_limm = (c_reg = 62)
                     in bindM (limm_if mem has_limm pc) (\<lambda>limm_val.
                          returnM (resolve_operand c_reg limm_val, has_limm)))
                  else if p = 1 then returnM (Imm (extract_u6 word), False)
                  else throwM (InstructionError pc)) (\<lambda>(src, has_limm).
           returnM (decoded4 (ExtArith ext_sop (Reg b_reg) src NoOperand f None) has_limm pc)))
         else
           bindM (ok_orM (ext_dual_of sub) (InstructionError pc)) (\<lambda>ext_op.
           bindM (if p = 0 then
                    (let c_reg = extract_c_reg word; a_reg = extract_a_reg word
                     in bindM (resolve_limm b_reg c_reg pc 4 mem) (\<lambda>(limm_val, has_limm).
                          returnM (resolve_operand a_reg limm_val, resolve_operand b_reg limm_val,
                                   resolve_operand c_reg limm_val, has_limm, None)))
                  else if p = 1 then
                    (let u6 = extract_u6 word; a_reg = extract_a_reg word;
                         has_limm = (b_reg = 62)
                     in bindM (limm_if mem has_limm pc) (\<lambda>limm_val.
                          returnM (resolve_operand a_reg limm_val, resolve_operand b_reg limm_val,
                                   Imm u6, has_limm, None)))
                  else if p = 2 then
                    (let s12 = extract_s12 word; has_limm = (b_reg = 62)
                     in bindM (limm_if mem has_limm pc) (\<lambda>limm_val.
                          returnM (Reg b_reg, resolve_operand b_reg limm_val,
                                   Imm s12, has_limm, None)))
                  else if p = 3 then
                    bindM (condition_or_error word pc) (\<lambda>cc.
                      if \<not> bit_set word 5 then
                        (let c_reg = extract_c_reg word
                         in bindM (resolve_limm b_reg c_reg pc 4 mem) (\<lambda>(limm_val, has_limm).
                              returnM (Reg b_reg, resolve_operand b_reg limm_val,
                                       resolve_operand c_reg limm_val, has_limm, Some cc)))
                      else
                        (let u6 = extract_u6 word; has_limm = (b_reg = 62)
                         in bindM (limm_if mem has_limm pc) (\<lambda>limm_val.
                              returnM (Reg b_reg, resolve_operand b_reg limm_val,
                                       Imm u6, has_limm, Some cc))))
                  else panicM) (\<lambda>(dst, src1, src2, has_limm, cc).
           returnM (decoded4 (ExtArith ext_op dst src1 src2 f cc) has_limm pc))))"

section \<open>The 32-bit decoder\<close>

definition decode_32bit :: "u32 \<Rightarrow> u32 \<Rightarrow> 'm fetch \<Rightarrow> ('m, decoded_instruction) op" where
  "decode_32bit word pc mem =
     (let major = (ucast (extract_bits word 31 27) :: u8)
      in if major = 0x00 then decode_branch word pc
         else if major = 0x01 then decode_branch_link_or_compare word pc mem
         else if major = 0x02 then decode_load word pc mem
         else if major = 0x03 then decode_store word pc mem
         else if major = 0x04 then decode_general_ops word pc mem
         else if major = 0x05 then decode_extension_ops word pc mem
         else throwM (InstructionError pc))"

lemmas decode32_defs = decode_32bit_def decode_branch_def decode_branch_compare_def
  decode_branch_link_or_compare_def decode_load_def decode_store_def decode_load_reg_reg_def
  decode_alu_op_def decode_zero_op_def decode_single_op_def decode_jump_def decode_loop_def
  decode_flag_def decode_lr_def decode_sr_def decode_special_ops_def decode_general_ops_def
  decode_extension_ops_def alu_limm_def limm_if_def resolve_limm_def condition_or_error_def
  data_size_of_def writeback_of_def decoded4_def

section \<open>What the decoder returns\<close>

lemma yields_condition_or_error [yields_intro]:
  "(\<And>cc. Q cc) \<Longrightarrow> yields (condition_or_error word pc) Q"
  by (auto simp: condition_or_error_def intro!: yields_intro)

lemma yields_case_prod [yields_intro]:
  "(\<And>a b. p = (a, b) \<Longrightarrow> yields (f a b) Q) \<Longrightarrow> yields (case p of (a, b) \<Rightarrow> f a b) Q"
  by (simp add: split_beta)

lemma wf_resolve_operand [simp]: "r < 64 \<Longrightarrow> wf_source (resolve_operand r l)"
  by (simp add: resolve_operand_def)

lemma wf_resolve_operand' [simp]: "r < 64 \<Longrightarrow> wf_operand (resolve_operand r l)"
  by (simp add: wf_source_operand)

lemma wf_decoded4 [simp]: "wf_decoded pc 4 (decoded4 i h pc) \<longleftrightarrow> wf_instruction i"
  by (simp add: wf_decoded_def decoded4_def)

lemma bit_push_bit_0 [simp]: "0 < n \<Longrightarrow> \<not> bit (push_bit n x) 0" for x :: "'a::len word"
  by (simp add: bit_simps)

lemma bit_0_sign_extend [simp]:
  "0 < bits \<Longrightarrow> bits \<le> 32 \<Longrightarrow> bit (sign_extend v bits) 0 \<longleftrightarrow> bit v 0"
  by (simp add: bit_sign_extend)

lemma not_bit_0_double [simp]: "\<not> bit (x * 2) 0" for x :: "'a::len word"
  using bit_push_bit_0 [of 1 x] by (simp add: push_bit_eq_mult mult.commute)

lemma two_bit_field_less: "(ucast (extract_bits word (Suc lo) lo) :: u8) < 4"
  by (simp add: word_less_nat_alt ucast_extract_bits_less)

lemma yields_data_size_of [yields_intro]:
  "zz < 4 \<Longrightarrow> zz \<noteq> 3 \<Longrightarrow> (\<And>d. Q d) \<Longrightarrow> yields (data_size_of zz) Q"
  using byte_less_4_cases [of zz] by (auto simp: data_size_of_def intro!: yields_intro)

lemma yields_writeback_of [yields_intro]:
  "aa < 4 \<Longrightarrow> (\<And>w. Q w) \<Longrightarrow> yields (writeback_of aa) Q"
  using byte_less_4_cases [of aa] by (auto simp: writeback_of_def intro!: yields_intro)

lemma load_destination_ok:
  assumes "\<not> bad_load_destination a" and "a < 64" and "a \<noteq> 62"
  shows "a < 32 \<or> a = 61"
  using assms unfolding bad_load_destination_def by unat_arith

lemma two_bit_fields [simp]:
  "(ucast (extract_bits word 10 9) :: u8) < 4" "(ucast (extract_bits word 8 7) :: u8) < 4"
  "(ucast (extract_bits word 4 3) :: u8) < 4" "(ucast (extract_bits word 2 (Suc 0)) :: u8) < 4"
  "(ucast (extract_bits word 23 22) :: u8) < 4" "(ucast (extract_bits word 18 17) :: u8) < 4"
  using two_bit_field_less [of word 9] two_bit_field_less [of word 7] two_bit_field_less [of word 3]
    two_bit_field_less [of word 1] two_bit_field_less [of word 22] two_bit_field_less [of word 17]
  by (simp_all add: eval_nat_numeral)

text \<open>The contract of a fetch interface: it never panics; it may fail with an exception. What
  the decoders promise rests on it alone.\<close>

locale instruction_fetch =
  fixes mem :: "'m fetch"
  assumes fetch_half_total: "panic_free (fetch_half mem a)"
    and fetch_word_total: "panic_free (fetch_word mem a)"
begin

lemma yields_fetch_half [yields_intro]: "(\<And>w. Q w) \<Longrightarrow> yields (fetch_half mem a) Q"
  using fetch_half_total by (auto simp: panic_free_def intro: yields_mono)

lemma yields_fetch_word [yields_intro]: "(\<And>w. Q w) \<Longrightarrow> yields (fetch_word mem a) Q"
  using fetch_word_total by (auto simp: panic_free_def intro: yields_mono)

lemma yields_limm_if [yields_intro]: "(\<And>l. Q l) \<Longrightarrow> yields (limm_if mem needs pc) Q"
  by (auto simp: limm_if_def intro!: yields_intro)

lemma yields_resolve_limm [yields_intro]:
  "(\<And>l b. Q (l, b)) \<Longrightarrow> yields (resolve_limm b c pc sz mem) Q"
  by (auto simp: resolve_limm_def intro!: yields_intro)

lemma yields_alu_limm [yields_intro]:
  "(\<And>l b. Q (l, b)) \<Longrightarrow> yields (alu_limm op b c pc mem) Q"
  by (auto simp: alu_limm_def intro!: yields_intro)

lemma yields_decode_branch: "yields (decode_branch word pc) (wf_decoded pc 4)"
  by (auto simp: decode_branch_def Let_def bit_or_iff intro!: yields_intro)

lemma yields_base_or_limm:
  "r < 64 \<Longrightarrow>
   yields (if r = 62 then bindM (fetch_word mem a) (\<lambda>limm. returnM (Imm limm, True))
           else returnM (Reg r, h)) (\<lambda>x. wf_source (fst x))"
  by (auto intro!: yields_intro)

lemma yields_decode_branch_compare:
  "yields (decode_branch_compare word pc mem) (wf_decoded pc 4)"
  unfolding decode_branch_compare_def Let_def split_beta
  apply (rule yields_bindM_any, rule yields_ok_orM, rule TrueI)
  apply (rule yields_bindM [where R = "\<lambda>x. wf_source (fst x)"])
   apply (auto intro!: yields_intro)[1]
  apply (rule yields_bindM, rule yields_base_or_limm, simp)
  apply (auto simp: bit_or_iff intro!: yields_intro)
  done

lemma yields_decode_branch_link_or_compare:
  "yields (decode_branch_link_or_compare word pc mem) (wf_decoded pc 4)"
  unfolding decode_branch_link_or_compare_def Let_def
  by (intro yields_if yields_decode_branch_compare)
    (auto simp: bit_or_iff bit_push_bit_iff intro!: yields_intro)

lemma yields_decode_load: "yields (decode_load word pc mem) (wf_decoded pc 4)"
proof -
  have dst: "wf_operand dst \<and> (case dst of Reg r \<Rightarrow> r < 32 \<or> r = 61 | _ \<Rightarrow> True)"
    if "\<not> bad_load_destination a" and "a < 64" and "dst = (if a = 62 then NoOperand else Reg a)"
    for a dst
    using that load_destination_ok by auto
  show ?thesis
    unfolding decode_load_def Let_def split_beta
    apply (rule yields_if, rule yields_throwM)
    apply (rule yields_bindM_any, rule yields_data_size_of, simp, assumption, rule TrueI)
    apply (rule yields_bindM_any, rule yields_writeback_of, simp, rule TrueI)
    apply (rule yields_if, rule yields_throwM)+
    apply (rule yields_bindM, rule yields_base_or_limm, simp)
    apply (rule yields_returnM)
    using dst apply simp
    done
qed

lemma yields_decode_store: "yields (decode_store word pc mem) (wf_decoded pc 4)"
  unfolding decode_store_def Let_def split_beta
  by (intro yields_intro; simp)

lemma yields_decode_load_reg_reg: "yields (decode_load_reg_reg word pc mem) (wf_decoded pc 4)"
  unfolding decode_load_reg_reg_def Let_def split_beta
  by (intro yields_intro; auto dest: load_destination_ok)

lemma wf_alu_operands:
  assumes "wf_operand dst0" and "b < 64" and "wf_source src2"
  shows "wf_instruction (Alu op (fst (alu_operands op dst0 b l src2))
           (fst (snd (alu_operands op dst0 b l src2))) (snd (snd (alu_operands op dst0 b l src2))) f cc)"
  using assms by (auto simp: alu_operands_def is_test_only_def is_mov_def split: if_splits)

lemma yields_decode_alu_op:
  "p < 4 \<Longrightarrow> yields (decode_alu_op word pc p op mem) (wf_decoded pc 4)"
  using byte_less_4_cases [of p] unfolding decode_alu_op_def Let_def split_beta
  by (auto simp del: wf_instruction.simps intro!: yields_intro wf_alu_operands)

lemma yields_decode_zero_op: "yields (decode_zero_op word pc b) (wf_decoded pc 4)"
  by (auto simp: decode_zero_op_def intro!: yields_intro)

lemma yields_decode_single_op: "yields (decode_single_op word pc p mem) (wf_decoded pc 4)"
  unfolding decode_single_op_def Let_def
  by (auto intro!: yields_intro yields_decode_zero_op)

lemma yields_decode_jump: "yields (decode_jump word pc sub mem) (wf_decoded pc 4)"
proof -
  let ?restore = "\<lambda>f m_clear target.
      if f then if m_clear then case target of
             Reg r \<Rightarrow> if r = 29 \<or> r = 30 then returnM True else throwM (InstructionError pc)
           | _ \<Rightarrow> throwM (InstructionError pc)
         else throwM (InstructionError pc)
      else if m_clear then returnM (case target of Reg r \<Rightarrow> r = 29 \<or> r = 30 | _ \<Rightarrow> False)
      else returnM False"
  have restore: "yields (?restore f m_clear target) (\<lambda>b. b \<longrightarrow> target = Reg 29 \<or> target = Reg 30)"
    for f m_clear target
    by (auto intro!: yields_intro split: operand.splits)
  have p0: "yields (if f then if r = 29 \<or> r = 30 then returnM True else throwM (InstructionError pc)
                    else if r = 29 \<or> r = 30 then returnM True else returnM False)
              (\<lambda>b. b \<longrightarrow> r = 29 \<or> r = 30)" for f and r :: u8
    by (auto intro!: yields_intro)
  show ?thesis
    unfolding decode_jump_def Let_def split_beta
    apply (rule yields_if)
     apply (rule yields_bindM_any, rule yields_limm_if, rule TrueI)
     apply (rule yields_bindM, rule p0, rule yields_returnM)
     apply (auto simp: resolve_operand_def)[1]
    apply (rule yields_if, rule yields_returnM, simp)+
    apply (rule yields_if)
     apply (rule yields_bindM_any, rule yields_condition_or_error, rule TrueI)
     apply (rule yields_bindM [where R = "\<lambda>x. wf_source (fst x)"])
      apply (auto intro!: yields_intro)[1]
     apply (rule yields_bindM, rule restore, rule yields_returnM)
     apply auto[1]
    apply (rule extract_p_field_cases [of word]; simp)
    done
qed

lemma yields_decode_loop: "yields (decode_loop word pc) (wf_decoded pc 4)"
  unfolding decode_loop_def Let_def split_beta
  apply (rule yields_bindM [where R = "\<lambda>x. \<not> bit (fst x) 0"])
   apply (auto simp: bit_push_bit_iff intro!: yields_intro)
  done

lemma yields_decode_flag: "yields (decode_flag word pc mem) (wf_decoded pc 4)"
  unfolding decode_flag_def Let_def split_beta
  apply (rule yields_if)
   apply (auto intro!: yields_intro)[1]
  apply (rule yields_if)
   apply (auto intro!: yields_intro)[1]
  apply (rule yields_if, rule yields_bindM_any, rule yields_condition_or_error, rule TrueI)
   apply (rule yields_bindM [where R = "\<lambda>x. wf_source (fst x)"])
    apply (auto intro!: yields_intro)
  done

lemma yields_decode_lr: "yields (decode_lr word pc mem) (wf_decoded pc 4)"
  unfolding decode_lr_def Let_def by (auto intro!: yields_intro)

lemma yields_decode_sr: "yields (decode_sr word pc mem) (wf_decoded pc 4)"
  unfolding decode_sr_def Let_def by (auto intro!: yields_intro)

lemma yields_decode_special_ops: "yields (decode_special_ops word pc sub mem) (wf_decoded pc 4)"
  unfolding decode_special_ops_def
  by (intro yields_if yields_decode_jump yields_decode_loop yields_decode_flag yields_decode_lr
      yields_decode_sr yields_throwM)

lemma yields_decode_general_ops: "yields (decode_general_ops word pc mem) (wf_decoded pc 4)"
  unfolding decode_general_ops_def Let_def
  by (intro yields_if yields_decode_load_reg_reg yields_decode_single_op yields_decode_special_ops
      yields_bindM_any yields_ok_orM yields_decode_alu_op extract_p_field_less TrueI)

lemma yields_decode_extension_ops: "yields (decode_extension_ops word pc mem) (wf_decoded pc 4)"
  unfolding decode_extension_ops_def Let_def split_beta
  apply (rule yields_if; rule yields_bindM_any, rule yields_ok_orM, rule TrueI)
   apply (rule yields_bindM [where R = "\<lambda>x. wf_source (fst x)"])
    apply (auto intro!: yields_intro)[2]
  apply (rule yields_bindM
      [where R = "\<lambda>x. wf_operand (fst x) \<and> wf_source (fst (snd x)) \<and> wf_source (fst (snd (snd x)))"])
   apply (rule extract_p_field_cases [of word]; auto intro!: yields_intro)
  apply (auto intro!: yields_intro)
  done

lemma yields_decode_32bit: "yields (decode_32bit word pc mem) (wf_decoded pc 4)"
  unfolding decode_32bit_def Let_def
  by (intro yields_if yields_decode_branch yields_decode_branch_link_or_compare yields_decode_load
      yields_decode_store yields_decode_general_ops yields_decode_extension_ops yields_throwM)

end

end
