(* ===== verification/Decode16.thy ===== *)
theory Decode16
  imports Decode32 Register_Names
begin

text \<open>
  \<open>src/decoder/decode16.rs\<close>: the decoder of the 16-bit instructions (major opcodes 0x0C to 0x1F),
  one definition per function of the source. The high-register group alone may fetch a long
  immediate.
\<close>

definition decoded2 :: "instruction \<Rightarrow> bool \<Rightarrow> u32 \<Rightarrow> decoded_instruction" where
  "decoded2 i has_limm pc = \<lparr>inst = i, inst_size = 2, inst_has_limm = has_limm, inst_pc = pc\<rparr>"

definition ret2 :: "instruction \<Rightarrow> u32 \<Rightarrow> ('m, decoded_instruction) op" where
  "ret2 i pc = returnM (decoded2 i False pc)"

text \<open>\<open>map_16bit_reg(((half >> 8) & 7) as u8)\<close>, and the same of bits 7..5\<close>

definition b_of :: "u16 \<Rightarrow> u8" where
  "b_of half = map_16bit_reg (ucast (drop_bit 8 half AND 7))"

definition c_of :: "u16 \<Rightarrow> u8" where
  "c_of half = map_16bit_reg (ucast (drop_bit 5 half AND 7))"

definition plain_load :: "u8 \<Rightarrow> u8 \<Rightarrow> operand \<Rightarrow> data_size \<Rightarrow> instruction" where
  "plain_load dst base offset sz = Load (Reg dst) (Reg base) offset sz False Writeback_None False"

definition decode_0c_ld_add_reg :: "u16 \<Rightarrow> u32 \<Rightarrow> ('m, decoded_instruction) op" where
  "decode_0c_ld_add_reg half pc =
     (let b = b_of half; c = c_of half; i = drop_bit 3 half AND 3;
          a = map_16bit_reg (ucast (half AND 7))
      in if i = 0x00 then ret2 (plain_load a b (Reg c) DataSize_Word) pc
         else if i = 0x01 then ret2 (plain_load a b (Reg c) DataSize_Byte) pc
         else if i = 0x02 then ret2 (plain_load a b (Reg c) DataSize_HalfWord) pc
         else if i = 0x03 then ret2 (Alu AluOp_Add (Reg a) (Reg b) (Reg c) False None) pc
         else panicM)"

definition decode_0d_add_sub_shift_imm :: "u16 \<Rightarrow> u32 \<Rightarrow> ('m, decoded_instruction) op" where
  "decode_0d_add_sub_shift_imm half pc =
     (let b = b_of half; c = c_of half; i = drop_bit 3 half AND 3; u3 = ucast (half AND 7)
      in if i = 0x00 then ret2 (Alu AluOp_Add (Reg c) (Reg b) (Imm u3) False None) pc
         else if i = 0x01 then ret2 (Alu AluOp_Sub (Reg c) (Reg b) (Imm u3) False None) pc
         else if i = 0x02 then ret2 (ExtArith ExtArithOp_Asl (Reg c) (Reg b) (Imm u3) False None) pc
         else if i = 0x03 then ret2 (ExtArith ExtArithOp_Asr (Reg c) (Reg b) (Imm u3) False None) pc
         else panicM)"

definition decode_0e_mov_cmp_add_high ::
    "u16 \<Rightarrow> u32 \<Rightarrow> 'm fetch \<Rightarrow> ('m, decoded_instruction) op" where
  "decode_0e_mov_cmp_add_high half pc mem =
     (let b = b_of half; h = extract_h_reg_16 half; i = drop_bit 3 half AND 3
      in bindM (if h = 62 then
                  bindM (fetch_word mem (pc + 2)) (\<lambda>limm. returnM (Imm limm, True))
                else returnM (Reg h, False)) (\<lambda>(h_operand, has_limm).
         bindM (if i = 0x00 then returnM (Alu AluOp_Add (Reg b) (Reg b) h_operand False None)
                else if i = 0x01 then
                  returnM (Alu AluOp_Mov (Reg b) NoOperand h_operand False None)
                else if i = 0x02 then
                  returnM (Alu AluOp_Cmp NoOperand (Reg b) h_operand True None)
                else if i = 0x03 then
                  (if h = 63 then throwM (InstructionError pc)
                   else returnM (Alu AluOp_Mov (Reg h) NoOperand (Reg b) False None))
                else panicM) (\<lambda>inst.
         returnM (decoded2 inst has_limm pc))))"

definition decode_0f_zero_op :: "u8 \<Rightarrow> u32 \<Rightarrow> ('m, decoded_instruction) op" where
  "decode_0f_zero_op b_enc pc =
     (if b_enc = 0x00 then ret2 (ZeroOp ZeroOp_Nop) pc
      else if b_enc = 0x01 then throwM (InstructionError pc)
      else if b_enc = 0x04 then ret2 (Jump (Reg REG_BLINK) (Some EQ) NoDelay False False) pc
      else if b_enc = 0x05 then ret2 (Jump (Reg REG_BLINK) (Some NE) NoDelay False False) pc
      else if b_enc = 0x06 then ret2 (Jump (Reg REG_BLINK) None NoDelay False False) pc
      else if b_enc = 0x07 then ret2 (Jump (Reg REG_BLINK) None Delay False False) pc
      else throwM (InstructionError pc))"

definition decode_0f_single_op :: "u8 \<Rightarrow> u8 \<Rightarrow> u32 \<Rightarrow> ('m, decoded_instruction) op" where
  "decode_0f_single_op b_enc c_enc pc =
     (let b = map_16bit_reg b_enc
      in if c_enc = 0x00 then ret2 (Jump (Reg b) None NoDelay False False) pc
         else if c_enc = 0x01 then ret2 (Jump (Reg b) None Delay False False) pc
         else if c_enc = 0x02 then ret2 (Jump (Reg b) None NoDelay True False) pc
         else if c_enc = 0x03 then ret2 (Jump (Reg b) None Delay True False) pc
         else if c_enc = 0x06 then ret2 (Alu AluOp_Sub (Reg b) (Reg b) (Reg b) False (Some NE)) pc
         else throwM (InstructionError pc))"

definition decode_0f_general :: "u16 \<Rightarrow> u32 \<Rightarrow> ('m, decoded_instruction) op" where
  "decode_0f_general half pc =
     (let b_enc = ucast (drop_bit 8 half AND 7);
          c_enc = ucast (drop_bit 5 half AND 7);
          i = (ucast (half AND 0x1F) :: u8)
      in if i = 0x00 \<and> c_enc = 0x07 then decode_0f_zero_op b_enc pc
         else if i = 0x00 then decode_0f_single_op b_enc c_enc pc
         else
           let b = map_16bit_reg b_enc; c = map_16bit_reg c_enc
           in if i = 0x02 then ret2 (Alu AluOp_Sub (Reg b) (Reg b) (Reg c) False None) pc
              else if i = 0x04 then ret2 (Alu AluOp_And (Reg b) (Reg b) (Reg c) False None) pc
              else if i = 0x05 then ret2 (Alu AluOp_Or (Reg b) (Reg b) (Reg c) False None) pc
              else if i = 0x06 then ret2 (Alu AluOp_Bic (Reg b) (Reg b) (Reg c) False None) pc
              else if i = 0x07 then ret2 (Alu AluOp_Xor (Reg b) (Reg b) (Reg c) False None) pc
              else if i = 0x0B then ret2 (Alu AluOp_Tst NoOperand (Reg b) (Reg c) True None) pc
              else if i = 0x0C then throwM (InstructionError pc)
              else if i = 0x0D then ret2 (SingleOp SingleOp_Sexb (Reg b) (Reg c) False None) pc
              else if i = 0x0E then ret2 (SingleOp SingleOp_Sexw (Reg b) (Reg c) False None) pc
              else if i = 0x0F then ret2 (SingleOp SingleOp_Extb (Reg b) (Reg c) False None) pc
              else if i = 0x10 then ret2 (SingleOp SingleOp_Extw (Reg b) (Reg c) False None) pc
              else if i = 0x11 then ret2 (SingleOp SingleOp_Abs (Reg b) (Reg c) False None) pc
              else if i = 0x12 then ret2 (SingleOp SingleOp_Not (Reg b) (Reg c) False None) pc
              else if i = 0x13 then ret2 (Alu AluOp_Sub (Reg b) (Imm 0) (Reg c) False None) pc
              else if i = 0x14 then ret2 (Alu AluOp_Add1 (Reg b) (Reg b) (Reg c) False None) pc
              else if i = 0x15 then ret2 (Alu AluOp_Add2 (Reg b) (Reg b) (Reg c) False None) pc
              else if i = 0x16 then ret2 (Alu AluOp_Add3 (Reg b) (Reg b) (Reg c) False None) pc
              else if i = 0x18 then ret2 (ExtArith ExtArithOp_Asl (Reg b) (Reg b) (Reg c) False None) pc
              else if i = 0x19 then ret2 (ExtArith ExtArithOp_Lsr (Reg b) (Reg b) (Reg c) False None) pc
              else if i = 0x1A then ret2 (ExtArith ExtArithOp_Asr (Reg b) (Reg b) (Reg c) False None) pc
              else if i = 0x1B then ret2 (SingleOp SingleOp_Asl (Reg b) (Reg c) False None) pc
              else if i = 0x1C then ret2 (SingleOp SingleOp_Asr (Reg b) (Reg c) False None) pc
              else if i = 0x1D then ret2 (SingleOp SingleOp_Lsr (Reg b) (Reg c) False None) pc
              else if i = 0x1E then ret2 (ZeroOp (ZeroOp_Trap (ucast (drop_bit 5 half AND 0x3F)))) pc
              else if i = 0x1F then ret2 (ZeroOp ZeroOp_Brk) pc
              else throwM (InstructionError pc))"

definition scaled_offset :: "data_size \<Rightarrow> u32 \<Rightarrow> u32" where
  "scaled_offset sz u5 =
     (case sz of DataSize_Word \<Rightarrow> push_bit 2 u5 | DataSize_HalfWord \<Rightarrow> push_bit 1 u5
      | DataSize_Byte \<Rightarrow> u5)"

definition decode_ld_offset ::
    "u16 \<Rightarrow> u32 \<Rightarrow> data_size \<Rightarrow> bool \<Rightarrow> ('m, decoded_instruction) op" where
  "decode_ld_offset half pc data_size sign_ext =
     (let b = b_of half; c = c_of half; u5 = ucast (half AND 0x1F);
          offset = scaled_offset data_size u5
      in ret2 (Load (Reg c) (Reg b) (Imm offset) data_size sign_ext Writeback_None False) pc)"

definition decode_st_offset :: "u16 \<Rightarrow> u32 \<Rightarrow> data_size \<Rightarrow> ('m, decoded_instruction) op" where
  "decode_st_offset half pc data_size =
     (let b = b_of half; c = c_of half; u5 = ucast (half AND 0x1F);
          offset = scaled_offset data_size u5
      in ret2 (Store (Reg c) (Reg b) (Imm offset) data_size Writeback_None False) pc)"

definition decode_17_shift_sub_bit :: "u16 \<Rightarrow> u32 \<Rightarrow> ('m, decoded_instruction) op" where
  "decode_17_shift_sub_bit half pc =
     (let b = b_of half; i = (ucast (drop_bit 5 half AND 7) :: u8); u5 = ucast (half AND 0x1F)
      in if i = 0x00 then ret2 (ExtArith ExtArithOp_Asl (Reg b) (Reg b) (Imm u5) False None) pc
         else if i = 0x01 then ret2 (ExtArith ExtArithOp_Lsr (Reg b) (Reg b) (Imm u5) False None) pc
         else if i = 0x02 then ret2 (ExtArith ExtArithOp_Asr (Reg b) (Reg b) (Imm u5) False None) pc
         else if i = 0x03 then ret2 (Alu AluOp_Sub (Reg b) (Reg b) (Imm u5) False None) pc
         else if i = 0x04 then ret2 (Alu AluOp_Bset (Reg b) (Reg b) (Imm u5) False None) pc
         else if i = 0x05 then ret2 (Alu AluOp_Bclr (Reg b) (Reg b) (Imm u5) False None) pc
         else if i = 0x06 then ret2 (Alu AluOp_Bmsk (Reg b) (Reg b) (Imm u5) False None) pc
         else if i = 0x07 then ret2 (Alu AluOp_Btst NoOperand (Reg b) (Imm u5) True None) pc
         else throwM (InstructionError pc))"

definition decode_18_sp_based :: "u16 \<Rightarrow> u32 \<Rightarrow> ('m, decoded_instruction) op" where
  "decode_18_sp_based half pc =
     (let b = b_of half; i = (ucast (drop_bit 5 half AND 7) :: u8);
          u5 = ucast (half AND 0x1F); u7 = push_bit 2 u5; u_val = (ucast u5 :: u8)
      in if i = 0x00 then ret2 (plain_load b REG_SP (Imm u7) DataSize_Word) pc
         else if i = 0x01 then ret2 (plain_load b REG_SP (Imm u7) DataSize_Byte) pc
         else if i = 0x02 then
           ret2 (Store (Reg b) (Reg REG_SP) (Imm u7) DataSize_Word Writeback_None False) pc
         else if i = 0x03 then
           ret2 (Store (Reg b) (Reg REG_SP) (Imm u7) DataSize_Byte Writeback_None False) pc
         else if i = 0x04 then ret2 (Alu AluOp_Add (Reg b) (Reg REG_SP) (Imm u7) False None) pc
         else if i = 0x05 then
           (let b_enc = (ucast (drop_bit 8 half AND 7) :: u8)
            in if b_enc = 0x00 then
                 ret2 (Alu AluOp_Add (Reg REG_SP) (Reg REG_SP) (Imm u7) False None) pc
               else if b_enc = 0x01 then
                 ret2 (Alu AluOp_Sub (Reg REG_SP) (Reg REG_SP) (Imm u7) False None) pc
               else throwM (InstructionError pc))
         else if i = 0x06 then
           (if u_val = 0x01 then
              ret2 (Load (Reg b) (Reg REG_SP) (Imm 4) DataSize_Word False Writeback_PostWrite False) pc
            else if u_val = 0x11 then
              ret2 (Load (Reg REG_BLINK) (Reg REG_SP) (Imm 4) DataSize_Word False
                      Writeback_PostWrite False) pc
            else throwM (InstructionError pc))
         else if i = 0x07 then
           (if u_val = 0x01 then
              ret2 (Store (Reg b) (Reg REG_SP) (Imm (- 4)) DataSize_Word Writeback_PreWrite False) pc
            else if u_val = 0x11 then
              ret2 (Store (Reg REG_BLINK) (Reg REG_SP) (Imm (- 4)) DataSize_Word
                      Writeback_PreWrite False) pc
            else throwM (InstructionError pc))
         else throwM (InstructionError pc))"

definition decode_19_gp_relative :: "u16 \<Rightarrow> u32 \<Rightarrow> ('m, decoded_instruction) op" where
  "decode_19_gp_relative half pc =
     (let i = (ucast (drop_bit 9 half AND 3) :: u8); s9 = ucast (half AND 0x1FF)
      in if i = 0x00 then
           ret2 (plain_load 0 REG_GP (Imm (sign_extend_u32 (push_bit 2 s9) 11)) DataSize_Word) pc
         else if i = 0x01 then
           ret2 (plain_load 0 REG_GP (Imm (sign_extend_u32 s9 9)) DataSize_Byte) pc
         else if i = 0x02 then
           ret2 (plain_load 0 REG_GP (Imm (sign_extend_u32 (push_bit 1 s9) 10)) DataSize_HalfWord) pc
         else if i = 0x03 then
           ret2 (Alu AluOp_Add (Reg 0) (Reg REG_GP) (Imm (sign_extend_u32 (push_bit 2 s9) 11))
                   False None) pc
         else panicM)"

definition decode_1a_pcl_relative :: "u16 \<Rightarrow> u32 \<Rightarrow> ('m, decoded_instruction) op" where
  "decode_1a_pcl_relative half pc =
     (let b = b_of half; u8_val = ucast (half AND 0xFF); offset = push_bit 2 u8_val
      in ret2 (plain_load b 63 (Imm offset) DataSize_Word) pc)"

definition decode_1b_mov_imm :: "u16 \<Rightarrow> u32 \<Rightarrow> ('m, decoded_instruction) op" where
  "decode_1b_mov_imm half pc =
     ret2 (Alu AluOp_Mov (Reg (b_of half)) NoOperand (Imm (ucast (half AND 0xFF))) False None) pc"

definition decode_1c_add_cmp_imm :: "u16 \<Rightarrow> u32 \<Rightarrow> ('m, decoded_instruction) op" where
  "decode_1c_add_cmp_imm half pc =
     (let b = b_of half; i = drop_bit 7 half AND 1; u7 = ucast (half AND 0x7F)
      in if i = 0 then ret2 (Alu AluOp_Add (Reg b) (Reg b) (Imm u7) False None) pc
         else ret2 (Alu AluOp_Cmp NoOperand (Reg b) (Imm u7) True None) pc)"

definition decode_1d_brcc :: "u16 \<Rightarrow> u32 \<Rightarrow> ('m, decoded_instruction) op" where
  "decode_1d_brcc half pc =
     (let b = b_of half; i = drop_bit 7 half AND 1; s7 = ucast (half AND 0x7F);
          offset = sign_extend (push_bit 1 s7) 8;
          kind = (if i = 0 then Breq else Brne)
      in ret2 (BranchCompare kind (Reg b) (Imm 0) offset NoDelay) pc)"

definition decode_1e_bcc :: "u16 \<Rightarrow> u32 \<Rightarrow> ('m, decoded_instruction) op" where
  "decode_1e_bcc half pc =
     (let sub = (ucast (drop_bit 9 half AND 3) :: u8);
          s9 = ucast (half AND 0x1FF);
          offset = sign_extend (push_bit 1 s9) 10
      in if sub = 0x00 then ret2 (Branch offset None NoDelay False) pc
         else if sub = 0x01 then ret2 (Branch offset (Some EQ) NoDelay False) pc
         else if sub = 0x02 then ret2 (Branch offset (Some NE) NoDelay False) pc
         else if sub = 0x03 then
           (let cc_enc = (ucast (drop_bit 6 half AND 7) :: u8);
                s6 = ucast (half AND 0x3F);
                offset = sign_extend (push_bit 1 s6) 7
            in bindM (ok_orM (if cc_enc = 0x00 then Some GT
                              else if cc_enc = 0x01 then Some GE
                              else if cc_enc = 0x02 then Some LT
                              else if cc_enc = 0x03 then Some LE
                              else if cc_enc = 0x04 then Some HI
                              else if cc_enc = 0x05 then Some CC
                              else if cc_enc = 0x06 then Some CS
                              else if cc_enc = 0x07 then Some LS
                              else None) (InstructionError pc)) (\<lambda>cc.
                 ret2 (Branch offset (Some cc) NoDelay False) pc))
         else panicM)"

definition decode_1f_bl :: "u16 \<Rightarrow> u32 \<Rightarrow> ('m, decoded_instruction) op" where
  "decode_1f_bl half pc =
     (let s11 = ucast (half AND 0x7FF); offset = sign_extend (push_bit 2 s11) 13
      in ret2 (Branch offset None NoDelay True) pc)"

definition decode_16bit :: "u16 \<Rightarrow> u32 \<Rightarrow> 'm fetch \<Rightarrow> ('m, decoded_instruction) op" where
  "decode_16bit half pc mem =
     (let major = major_opcode half
      in if major = 0x0C then decode_0c_ld_add_reg half pc
         else if major = 0x0D then decode_0d_add_sub_shift_imm half pc
         else if major = 0x0E then decode_0e_mov_cmp_add_high half pc mem
         else if major = 0x0F then decode_0f_general half pc
         else if major = 0x10 then decode_ld_offset half pc DataSize_Word False
         else if major = 0x11 then decode_ld_offset half pc DataSize_Byte False
         else if major = 0x12 then decode_ld_offset half pc DataSize_HalfWord False
         else if major = 0x13 then decode_ld_offset half pc DataSize_HalfWord True
         else if major = 0x14 then decode_st_offset half pc DataSize_Word
         else if major = 0x15 then decode_st_offset half pc DataSize_Byte
         else if major = 0x16 then decode_st_offset half pc DataSize_HalfWord
         else if major = 0x17 then decode_17_shift_sub_bit half pc
         else if major = 0x18 then decode_18_sp_based half pc
         else if major = 0x19 then decode_19_gp_relative half pc
         else if major = 0x1A then decode_1a_pcl_relative half pc
         else if major = 0x1B then decode_1b_mov_imm half pc
         else if major = 0x1C then decode_1c_add_cmp_imm half pc
         else if major = 0x1D then decode_1d_brcc half pc
         else if major = 0x1E then decode_1e_bcc half pc
         else if major = 0x1F then decode_1f_bl half pc
         else throwM (InstructionError pc))"

section \<open>What the decoder returns\<close>

lemma wf_decoded2 [simp]: "wf_decoded pc 2 (decoded2 i h pc) \<longleftrightarrow> wf_instruction i"
  by (simp add: wf_decoded_def decoded2_def)

lemma yields_ret2: "wf_instruction i \<Longrightarrow> yields (ret2 i pc) (wf_decoded pc 2)"
  by (simp add: ret2_def yields_returnM)

lemma b_c_of_less [simp]: "b_of h < 64" "b_of h \<noteq> 62" "b_of h < 32"
  "c_of h < 64" "c_of h \<noteq> 62" "c_of h < 32"
  by (simp_all add: b_of_def c_of_def)

lemma half_2bits_cases:
  "drop_bit k h AND 3 = 0 \<or> drop_bit k h AND 3 = 1 \<or> drop_bit k h AND 3 = 2
     \<or> drop_bit k h AND 3 = 3" for h :: u16
  using half_field_less(1) [of k h] by unat_arith

lemma plain_load_wf [simp]:
  "wf_instruction (plain_load d b off sz) \<longleftrightarrow> d < 32 \<and> wf_source (Reg b) \<and> wf_source off"
  if "b \<noteq> 62" "d < 64" "d \<noteq> 61"
  using that by (auto simp: plain_load_def)

lemma yields_0c: "yields (decode_0c_ld_add_reg half pc) (wf_decoded pc 2)"
  unfolding decode_0c_ld_add_reg_def Let_def
  using half_2bits_cases [of 3 half]
  by (elim disjE) (auto simp: plain_load_def is_test_only_def intro!: yields_ret2)

lemma yields_0d: "yields (decode_0d_add_sub_shift_imm half pc) (wf_decoded pc 2)"
  unfolding decode_0d_add_sub_shift_imm_def Let_def
  using half_2bits_cases [of 3 half]
  by (elim disjE) (auto simp: is_test_only_def intro!: yields_ret2)

lemma yields_0f: "yields (decode_0f_general half pc) (wf_decoded pc 2)"
  unfolding decode_0f_general_def Let_def decode_0f_zero_op_def decode_0f_single_op_def
  by (intro yields_if yields_throwM yields_ret2; simp add: is_test_only_def)

lemma yields_17: "yields (decode_17_shift_sub_bit half pc) (wf_decoded pc 2)"
  unfolding decode_17_shift_sub_bit_def Let_def
  by (intro yields_if yields_throwM yields_ret2; simp add: is_test_only_def)

lemma yields_18: "yields (decode_18_sp_based half pc) (wf_decoded pc 2)"
  unfolding decode_18_sp_based_def Let_def
  by (intro yields_if yields_throwM yields_ret2; simp add: is_test_only_def plain_load_def)

text \<open>A two-bit field narrowed to a byte.\<close>

lemma byte_2bits_cases:
  "(ucast (drop_bit k h AND 3) :: u8) = 0 \<or> (ucast (drop_bit k h AND 3) :: u8) = 1
     \<or> (ucast (drop_bit k h AND 3) :: u8) = 2 \<or> (ucast (drop_bit k h AND 3) :: u8) = 3" for h :: u16
  using half_2bits_cases [of k h] by auto

lemma yields_19: "yields (decode_19_gp_relative half pc) (wf_decoded pc 2)"
  unfolding decode_19_gp_relative_def Let_def
  using byte_2bits_cases [of 9 half]
  by (elim disjE) (auto simp: plain_load_def is_test_only_def intro!: yields_ret2)

lemma yields_1e: "yields (decode_1e_bcc half pc) (wf_decoded pc 2)"
  unfolding decode_1e_bcc_def Let_def
  using byte_2bits_cases [of 9 half]
  by (elim disjE) (auto intro!: yields_ret2 yields_bindM_any yields_ok_orM)

lemma yields_one_arm:
  "yields (decode_ld_offset half pc sz x) (wf_decoded pc 2)"
  "yields (decode_st_offset half pc sz) (wf_decoded pc 2)"
  "yields (decode_1a_pcl_relative half pc) (wf_decoded pc 2)"
  "yields (decode_1b_mov_imm half pc) (wf_decoded pc 2)"
  "yields (decode_1c_add_cmp_imm half pc) (wf_decoded pc 2)"
  "yields (decode_1d_brcc half pc) (wf_decoded pc 2)"
  "yields (decode_1f_bl half pc) (wf_decoded pc 2)"
  by (auto simp: decode_ld_offset_def decode_st_offset_def decode_1a_pcl_relative_def
      decode_1b_mov_imm_def decode_1c_add_cmp_imm_def decode_1d_brcc_def decode_1f_bl_def Let_def
      plain_load_def is_test_only_def bit_push_bit_iff intro!: yields_ret2)

context instruction_fetch
begin

lemma yields_0e: "yields (decode_0e_mov_cmp_add_high half pc mem) (wf_decoded pc 2)"
  unfolding decode_0e_mov_cmp_add_high_def Let_def split_beta
  apply (rule yields_bindM, rule yields_base_or_limm, simp)
  apply (rule yields_bindM [where R = wf_instruction])
   apply (insert half_2bits_cases [of 3 half], elim disjE)
      apply (auto simp: is_test_only_def intro!: yields_intro)
  done

lemma yields_decode_16bit: "yields (decode_16bit half pc mem) (wf_decoded pc 2)"
  unfolding decode_16bit_def Let_def
  by (intro yields_if yields_0c yields_0d yields_0e yields_0f yields_17 yields_18 yields_19
      yields_1e yields_one_arm yields_throwM)

end

end
