(* ===== verification/Decoder.thy ===== *)
theory Decoder
  imports Decode16
begin

text \<open>
  \<open>src/decoder/mod.rs\<close>: the entry points of the decoder, and the fetch interface over a byte
  slice. The interpretation of \<open>instruction_fetch\<close> on the slice gives the decoder's contract for
  it; the one on the emulated memory is in \<open>Memory\<close>. Two fetch interfaces that answer
  alike decode alike.
\<close>

text \<open>\<open>addr.checked_sub(base)\<close>\<close>

definition checked_sub :: "u32 \<Rightarrow> u32 \<Rightarrow> u32 option" where
  "checked_sub a b = (if b \<le> a then Some (a - b) else None)"

definition slice_fetch_half :: "u8 list \<Rightarrow> u32 \<Rightarrow> u32 \<Rightarrow> u16 result" where
  "slice_fetch_half bytes base addr =
     (if addr AND 1 \<noteq> 0 then Inl (Exn (MisalignedAccess addr))
      else case checked_sub addr base of
        None \<Rightarrow> Inl (Exn (MemoryError addr False))
      | Some off32 \<Rightarrow>
          (let off = unat off32
           in if off + 1 \<ge> length bytes then Inl (Exn (MemoryError addr False))
              else Inr (be_half (bytes ! off) (bytes ! (off + 1)))))"

definition slice_fetch_word :: "u8 list \<Rightarrow> u32 \<Rightarrow> u32 \<Rightarrow> u32 result" where
  "slice_fetch_word bytes base addr =
     (if addr AND 1 \<noteq> 0 then Inl (Exn (MisalignedAccess addr))
      else case checked_sub addr base of
        None \<Rightarrow> Inl (Exn (MemoryError addr False))
      | Some off32 \<Rightarrow>
          (let off = unat off32
           in if off + 3 \<ge> length bytes then Inl (Exn (MemoryError addr False))
              else Inr (be_word (bytes ! off) (bytes ! (off + 1))
                          (bytes ! (off + 2)) (bytes ! (off + 3)))))"

definition byte_slice_fetch :: "u8 list \<Rightarrow> u32 \<Rightarrow> 'm fetch" where
  "byte_slice_fetch bytes base =
     \<lparr>fetch_half = (\<lambda>addr. readM (\<lambda>_. slice_fetch_half bytes base addr)),
      fetch_word = (\<lambda>addr. readM (\<lambda>_. slice_fetch_word bytes base addr))\<rparr>"

definition decode_with :: "u32 \<Rightarrow> 'm fetch \<Rightarrow> ('m, decoded_instruction) op" where
  "decode_with pc fetch =
     bindM (fetch_half fetch pc) (\<lambda>first_half.
       let major = major_opcode first_half
       in if is_32bit_instruction major then
            bindM (fetch_half fetch (pc + 2)) (\<lambda>second_half.
              let word = push_bit 16 (ucast first_half) OR ucast second_half
              in decode_32bit word pc fetch)
          else decode_16bit first_half pc fetch)"

definition decode_bytes :: "u32 \<Rightarrow> u8 list \<Rightarrow> u32 \<Rightarrow> decoded_instruction result" where
  "decode_bytes pc bytes base = fst (decode_with pc (byte_slice_fetch bytes base) ())"

section \<open>The contract of the decoder\<close>

text \<open>An instruction of size 2 or 4 whose fields are well formed.\<close>

definition wf_at :: "u32 \<Rightarrow> decoded_instruction \<Rightarrow> bool" where
  "wf_at pc d \<longleftrightarrow> wf_decoded pc 2 d \<or> wf_decoded pc 4 d"

lemma wf_at_inst: "wf_at pc d \<Longrightarrow> wf_instruction (inst d)"
  and wf_at_pc: "wf_at pc d \<Longrightarrow> inst_pc d = pc"
  by (auto simp: wf_at_def wf_decoded_def)

lemma wf_at_total_size: "wf_at pc d \<Longrightarrow> total_size d \<in> {2, 4, 6, 8}"
  unfolding wf_at_def using total_size_of_wf by blast

context instruction_fetch
begin

lemma yields_decode_with: "yields (decode_with pc mem) (wf_at pc)"
proof -
  have 16: "yields (decode_16bit h pc mem) (wf_at pc)" for h
    by (rule yields_mono [OF yields_decode_16bit]) (simp add: wf_at_def)
  have 32: "yields (decode_32bit w pc mem) (wf_at pc)" for w
    by (rule yields_mono [OF yields_decode_32bit]) (simp add: wf_at_def)
  show ?thesis
    unfolding decode_with_def Let_def
    by (intro yields_bindM_any yields_fetch_half yields_if TrueI 16 32)
qed

end

lemma slice_fetch_no_panic:
  "slice_fetch_half bytes base a \<noteq> Inl Panic" "slice_fetch_word bytes base a \<noteq> Inl Panic"
  by (auto simp: slice_fetch_half_def slice_fetch_word_def Let_def split: option.splits)

lemma panic_free_readM: "(\<And>s. f s \<noteq> Inl Panic) \<Longrightarrow> panic_free (readM f)"
  by (auto simp: panic_free_def yields_def split: sum.splits)

interpretation byte_slice: instruction_fetch "byte_slice_fetch bytes base" for bytes base
  by unfold_locales
    (simp_all add: byte_slice_fetch_def panic_free_readM slice_fetch_no_panic)

section \<open>Interfaces that answer alike\<close>

lemma agree_case_operand [agree_intro]:
  assumes "\<And>r. agree R (a r) (a' r)" and "\<And>v. agree R (b v) (b' v)" and "agree R c c'"
  shows "agree R (case x of Reg r \<Rightarrow> a r | Imm v \<Rightarrow> b v | NoOperand \<Rightarrow> c)
                 (case x of Reg r \<Rightarrow> a' r | Imm v \<Rightarrow> b' v | NoOperand \<Rightarrow> c')"
  using assms by (simp split: operand.split)

lemma agree_pure_decoders [agree_intro]:
  "agree R (condition_or_error word pc) (condition_or_error word pc)"
  "agree R (data_size_of z) (data_size_of z)"
  "agree R (writeback_of z) (writeback_of z)"
  "agree R (decode_branch word pc) (decode_branch word pc)"
  "agree R (decode_zero_op word pc b) (decode_zero_op word pc b)"
  "agree R (decode_loop word pc) (decode_loop word pc)"
  unfolding condition_or_error_def data_size_of_def writeback_of_def decode_branch_def
    decode_zero_op_def decode_loop_def Let_def
  by (intro agree_intro)+

lemma agree_pure_decoders16 [agree_intro]:
  "agree R (decode_0c_ld_add_reg half pc) (decode_0c_ld_add_reg half pc)"
  "agree R (decode_0d_add_sub_shift_imm half pc) (decode_0d_add_sub_shift_imm half pc)"
  "agree R (decode_0f_general half pc) (decode_0f_general half pc)"
  "agree R (decode_ld_offset half pc sz x) (decode_ld_offset half pc sz x)"
  "agree R (decode_st_offset half pc sz) (decode_st_offset half pc sz)"
  "agree R (decode_17_shift_sub_bit half pc) (decode_17_shift_sub_bit half pc)"
  "agree R (decode_18_sp_based half pc) (decode_18_sp_based half pc)"
  "agree R (decode_19_gp_relative half pc) (decode_19_gp_relative half pc)"
  "agree R (decode_1a_pcl_relative half pc) (decode_1a_pcl_relative half pc)"
  "agree R (decode_1b_mov_imm half pc) (decode_1b_mov_imm half pc)"
  "agree R (decode_1c_add_cmp_imm half pc) (decode_1c_add_cmp_imm half pc)"
  "agree R (decode_1d_brcc half pc) (decode_1d_brcc half pc)"
  "agree R (decode_1e_bcc half pc) (decode_1e_bcc half pc)"
  "agree R (decode_1f_bl half pc) (decode_1f_bl half pc)"
  unfolding decode_0c_ld_add_reg_def decode_0d_add_sub_shift_imm_def decode_0f_general_def
    decode_0f_zero_op_def decode_0f_single_op_def decode_ld_offset_def decode_st_offset_def
    decode_17_shift_sub_bit_def decode_18_sp_based_def decode_19_gp_relative_def
    decode_1a_pcl_relative_def decode_1b_mov_imm_def decode_1c_add_cmp_imm_def decode_1d_brcc_def
    decode_1e_bcc_def decode_1f_bl_def ret2_def Let_def
  by (intro agree_intro)+

locale fetch_agreement =
  fixes R :: "'m \<Rightarrow> 'n \<Rightarrow> bool" and f :: "'m fetch" and g :: "'n fetch"
  assumes half [agree_intro]: "agree R (fetch_half f a) (fetch_half g a)"
    and word [agree_intro]: "agree R (fetch_word f a) (fetch_word g a)"
begin

lemma agree_limm [agree_intro]:
  "agree R (limm_if f b pc) (limm_if g b pc)"
  "agree R (resolve_limm x y pc z f) (resolve_limm x y pc z g)"
  "agree R (alu_limm op x y pc f) (alu_limm op x y pc g)"
  unfolding limm_if_def alu_limm_def resolve_limm_def by (intro agree_intro)+

lemma agree_decode_branch_compare [agree_intro]:
  "agree R (decode_branch_compare word pc f) (decode_branch_compare word pc g)"
  unfolding decode_branch_compare_def Let_def by (intro agree_intro)

lemma agree_decode_branch_link_or_compare [agree_intro]:
  "agree R (decode_branch_link_or_compare word pc f) (decode_branch_link_or_compare word pc g)"
  unfolding decode_branch_link_or_compare_def Let_def by (intro agree_intro)

lemma agree_decode_load [agree_intro]:
  "agree R (decode_load word pc f) (decode_load word pc g)"
  unfolding decode_load_def Let_def by (intro agree_intro)

lemma agree_decode_store [agree_intro]:
  "agree R (decode_store word pc f) (decode_store word pc g)"
  unfolding decode_store_def Let_def by (intro agree_intro)

lemma agree_decode_load_reg_reg [agree_intro]:
  "agree R (decode_load_reg_reg word pc f) (decode_load_reg_reg word pc g)"
  unfolding decode_load_reg_reg_def Let_def by (intro agree_intro)

lemma agree_decode_alu_op [agree_intro]:
  "agree R (decode_alu_op word pc p op f) (decode_alu_op word pc p op g)"
  unfolding decode_alu_op_def Let_def by (intro agree_intro)

lemma agree_decode_single_op [agree_intro]:
  "agree R (decode_single_op word pc p f) (decode_single_op word pc p g)"
  unfolding decode_single_op_def Let_def by (intro agree_intro)

lemma agree_decode_jump [agree_intro]:
  "agree R (decode_jump word pc sub f) (decode_jump word pc sub g)"
  unfolding decode_jump_def Let_def by (intro agree_intro)

lemma agree_decode_flag [agree_intro]:
  "agree R (decode_flag word pc f) (decode_flag word pc g)"
  unfolding decode_flag_def Let_def by (intro agree_intro)

lemma agree_decode_lr [agree_intro]:
  "agree R (decode_lr word pc f) (decode_lr word pc g)"
  unfolding decode_lr_def Let_def by (intro agree_intro)

lemma agree_decode_sr [agree_intro]:
  "agree R (decode_sr word pc f) (decode_sr word pc g)"
  unfolding decode_sr_def Let_def by (intro agree_intro)

lemma agree_decode_special_ops [agree_intro]:
  "agree R (decode_special_ops word pc sub f) (decode_special_ops word pc sub g)"
  unfolding decode_special_ops_def Let_def by (intro agree_intro)

lemma agree_decode_general_ops [agree_intro]:
  "agree R (decode_general_ops word pc f) (decode_general_ops word pc g)"
  unfolding decode_general_ops_def Let_def by (intro agree_intro)

lemma agree_decode_extension_ops [agree_intro]:
  "agree R (decode_extension_ops word pc f) (decode_extension_ops word pc g)"
  unfolding decode_extension_ops_def Let_def by (intro agree_intro)

lemma agree_decode_32bit [agree_intro]:
  "agree R (decode_32bit word pc f) (decode_32bit word pc g)"
  unfolding decode_32bit_def Let_def by (intro agree_intro)

lemma agree_decode_0e [agree_intro]:
  "agree R (decode_0e_mov_cmp_add_high half pc f) (decode_0e_mov_cmp_add_high half pc g)"
  unfolding decode_0e_mov_cmp_add_high_def Let_def by (intro agree_intro)

lemma agree_decode_16bit [agree_intro]:
  "agree R (decode_16bit half pc f) (decode_16bit half pc g)"
  unfolding decode_16bit_def Let_def by (intro agree_intro)

lemma agree_decode_with: "agree R (decode_with pc f) (decode_with pc g)"
  unfolding decode_with_def Let_def by (intro agree_intro)

end

section \<open>Properties\<close>


end
