(* ===== verification/DCache.thy ===== *)
theory DCache
  imports Prelude
begin

text \<open>
  \<open>src/cache.rs\<close>, the data cache: 64 sets of two 32-byte lines, write-back, round-robin
  replacement. An operation that evicts a dirty line returns it; the caller writes it back. The
  lemmas locate a line by its base address and give each operation's effect on the bytes the
  cache holds (\<open>peek_byte\<close>).
\<close>

abbreviation (input) "LINE_SIZE \<equiv> (32 :: nat)"
abbreviation (input) "NUM_WAYS \<equiv> (2 :: nat)"
abbreviation (input) "NUM_SETS \<equiv> (64 :: nat)"
abbreviation (input) "OFFSET_BITS \<equiv> (5 :: nat)"
abbreviation (input) "INDEX_BITS \<equiv> (6 :: nat)"
abbreviation (input) "DC_CTRL_RW_MASK \<equiv> (0xE7 :: u32)"
abbreviation (input) "DC_CTRL_RESET \<equiv> (0xC2 :: u32)"

record cache_line =
  line_valid :: bool
  line_dirty :: bool
  line_tag :: u32
  line_data :: "u8 list"

definition empty_line :: cache_line where
  "empty_line = \<lparr>line_valid = False, line_dirty = False, line_tag = 0, line_data = replicate 32 0\<rparr>"

record evicted_line =
  ev_addr :: u32
  ev_data :: "u8 list"

record dcache =
  dc_lines :: "cache_line list list"
  dc_next_way :: "u8 list"
  dc_enabled :: bool
  dc_im :: bool
  dc_lm :: bool
  dc_ctrl_raw :: u32
  dc_ram_addr :: u32

definition dc_new :: dcache where
  "dc_new = \<lparr>dc_lines = replicate 64 (replicate 2 empty_line), dc_next_way = replicate 64 0,
             dc_enabled = True, dc_im = True, dc_lm = True, dc_ctrl_raw = DC_CTRL_RESET,
             dc_ram_addr = 0\<rparr>"

text \<open>\<open>(tag, set, offset)\<close>\<close>

definition decompose :: "u32 \<Rightarrow> u32 \<times> nat \<times> nat" where
  "decompose addr =
     (drop_bit (OFFSET_BITS + INDEX_BITS) addr,
      unat (drop_bit OFFSET_BITS addr AND (push_bit INDEX_BITS 1 - 1)),
      unat (addr AND (push_bit OFFSET_BITS 1 - 1)))"

definition base_addr :: "u32 \<Rightarrow> nat \<Rightarrow> u32" where
  "base_addr tag set_index =
     push_bit (OFFSET_BITS + INDEX_BITS) tag OR push_bit OFFSET_BITS (of_nat set_index)"

definition dc_line :: "dcache \<Rightarrow> nat \<Rightarrow> nat \<Rightarrow> cache_line" where
  "dc_line dc s way = dc_lines dc ! s ! way"

definition put_line :: "nat \<Rightarrow> nat \<Rightarrow> cache_line \<Rightarrow> dcache \<Rightarrow> dcache" where
  "put_line s way l dc = dc\<lparr>dc_lines := (dc_lines dc)[s := (dc_lines dc ! s)[way := l]]\<rparr>"

definition line_matches :: "cache_line \<Rightarrow> u32 \<Rightarrow> bool" where
  "line_matches l tag \<longleftrightarrow> line_valid l \<and> line_tag l = tag"

definition find_way :: "dcache \<Rightarrow> nat \<Rightarrow> u32 \<Rightarrow> nat option" where
  "find_way dc s tag =
     (if line_matches (dc_line dc s 0) tag then Some 0
      else if line_matches (dc_line dc s 1) tag then Some 1
      else None)"

definition rr_victim :: "nat \<Rightarrow> dcache \<Rightarrow> nat \<times> dcache" where
  "rr_victim s dc =
     (if \<not> line_valid (dc_line dc s 0) then (0, dc)
      else if \<not> line_valid (dc_line dc s 1) then (1, dc)
      else let victim = unat (dc_next_way dc ! s)
           in (victim, dc\<lparr>dc_next_way := (dc_next_way dc)[s := of_nat ((victim + 1) mod NUM_WAYS)]\<rparr>))"

definition dc_contains :: "dcache \<Rightarrow> u32 \<Rightarrow> bool" where
  "dc_contains dc addr = (case decompose addr of (tag, s, _) \<Rightarrow> find_way dc s tag \<noteq> None)"

definition peek_byte :: "dcache \<Rightarrow> u32 \<Rightarrow> u8 option" where
  "peek_byte dc addr =
     (case decompose addr of (tag, s, offset) \<Rightarrow>
        (case find_way dc s tag of
           Some way \<Rightarrow> Some (line_data (dc_line dc s way) ! offset)
         | None \<Rightarrow> None))"

text \<open>\<open>read_byte\<close>: the same lookup (replacement does not look at reads)\<close>

definition dc_read_byte :: "dcache \<Rightarrow> u32 \<Rightarrow> u8 option" where
  "dc_read_byte dc addr =
     (case decompose addr of (tag, s, offset) \<Rightarrow>
        map_option (\<lambda>way. line_data (dc_line dc s way) ! offset) (find_way dc s tag))"

text \<open>\<open>write_byte\<close>: whether it hit, and the cache after\<close>

definition dc_write_byte :: "u32 \<Rightarrow> u8 \<Rightarrow> dcache \<Rightarrow> bool \<times> dcache" where
  "dc_write_byte addr val dc =
     (case decompose addr of (tag, s, offset) \<Rightarrow>
        (case find_way dc s tag of
           Some way \<Rightarrow>
             (True, put_line s way
                      ((dc_line dc s way)\<lparr>line_data := (line_data (dc_line dc s way))[offset := val],
                                          line_dirty := True\<rparr>) dc)
         | None \<Rightarrow> (False, dc)))"

definition fill_line :: "u32 \<Rightarrow> u8 list \<Rightarrow> dcache \<Rightarrow> evicted_line option \<times> dcache" where
  "fill_line addr data dc =
     (case decompose addr of (tag, s, _) \<Rightarrow>
        if find_way dc s tag \<noteq> None then (None, dc)
        else
          (case rr_victim s dc of (victim_way, dc') \<Rightarrow>
             let victim = dc_line dc' s victim_way;
                 evicted = (if line_valid victim \<and> line_dirty victim
                            then Some \<lparr>ev_addr = base_addr (line_tag victim) s,
                                       ev_data = line_data victim\<rparr>
                            else None)
             in (evicted,
                 put_line s victim_way
                   \<lparr>line_valid = True, line_dirty = False, line_tag = tag, line_data = data\<rparr> dc')))"

text \<open>The dirty lines of the cache, in the order of the two loops of \<open>invalidate_all\<close>\<close>

definition evict_if_dirty :: "bool \<Rightarrow> nat \<Rightarrow> cache_line \<Rightarrow> evicted_line list" where
  "evict_if_dirty flush_dirty s l =
     (if line_valid l \<and> line_dirty l \<and> flush_dirty
      then [\<lparr>ev_addr = base_addr (line_tag l) s, ev_data = line_data l\<rparr>] else [])"

definition invalidate_all :: "dcache \<Rightarrow> evicted_line list \<times> dcache" where
  "invalidate_all dc =
     (let flush_dirty = dc_im dc
      in (concat (map (\<lambda>s. concat (map (\<lambda>way. evict_if_dirty flush_dirty s (dc_line dc s way))
                                   [0..<NUM_WAYS])) [0..<NUM_SETS]),
          dc\<lparr>dc_lines := replicate NUM_SETS (replicate NUM_WAYS empty_line),
             dc_next_way := replicate NUM_SETS 0\<rparr>))"

definition invalidate_line :: "u32 \<Rightarrow> dcache \<Rightarrow> evicted_line option \<times> dcache" where
  "invalidate_line addr dc =
     (let flush_dirty = dc_im dc
      in case decompose addr of (tag, s, _) \<Rightarrow>
        (case find_way dc s tag of
           Some way \<Rightarrow>
             (let line = dc_line dc s way
              in (if line_dirty line \<and> flush_dirty
                  then Some \<lparr>ev_addr = base_addr (line_tag line) s, ev_data = line_data line\<rparr>
                  else None,
                  put_line s way empty_line dc))
         | None \<Rightarrow> (None, dc)))"

definition dma_sram_overwrite :: "u32 \<Rightarrow> dcache \<Rightarrow> bool \<times> dcache" where
  "dma_sram_overwrite addr dc =
     (case decompose addr of (tag, s, _) \<Rightarrow>
        (case find_way dc s tag of
           Some way \<Rightarrow>
             (if line_dirty (dc_line dc s way) then (True, dc)
              else (False, put_line s way empty_line dc))
         | None \<Rightarrow> (False, dc)))"

definition write_dc_ctrl :: "u32 \<Rightarrow> dcache \<Rightarrow> dcache" where
  "write_dc_ctrl val dc =
     (let raw = val AND DC_CTRL_RW_MASK
      in dc\<lparr>dc_ctrl_raw := raw, dc_enabled := (raw AND push_bit 0 1 = 0),
            dc_im := (raw AND push_bit 6 1 \<noteq> 0), dc_lm := (raw AND push_bit 7 1 \<noteq> 0)\<rparr>)"

definition set_ram_addr :: "u32 \<Rightarrow> dcache \<Rightarrow> dcache" where
  "set_ram_addr addr dc = dc\<lparr>dc_ram_addr := addr\<rparr>"

definition read_tag :: "dcache \<Rightarrow> u32" where
  "read_tag dc =
     (case decompose (dc_ram_addr dc) of (tag, s, _) \<Rightarrow>
        if find_way dc s tag \<noteq> None then base_addr tag s OR 1
        else dc_ram_addr dc AND NOT (32 - 1))"

definition read_data :: "dcache \<Rightarrow> u32" where
  "read_data dc =
     (case decompose (dc_ram_addr dc) of (tag, s, offset) \<Rightarrow>
        (case find_way dc s tag of
           Some way \<Rightarrow>
             (let d = line_data (dc_line dc s way); word_off = 4 * (offset div 4)
              in be_word (d ! word_off) (d ! (word_off + 1)) (d ! (word_off + 2)) (d ! (word_off + 3)))
         | None \<Rightarrow> 0))"

section \<open>Lines and addresses\<close>

text \<open>The base address of the line of an address.\<close>

definition line_of :: "u32 \<Rightarrow> u32" where
  "line_of a = a AND NOT 0x1F"

definition tag_of :: "u32 \<Rightarrow> u32" where "tag_of a = fst (decompose a)"
definition set_of :: "u32 \<Rightarrow> nat" where "set_of a = fst (snd (decompose a))"
definition off_of :: "u32 \<Rightarrow> nat" where "off_of a = snd (snd (decompose a))"

lemma decompose_fields: "decompose a = (tag_of a, set_of a, off_of a)"
  by (simp add: tag_of_def set_of_def off_of_def)

lemma set_of_div: "set_of a = unat a div 32 mod 64"
proof -
  have "set_of a = unat (drop_bit 5 a) mod 2 ^ 6"
    using unat_and_mask [of "drop_bit 5 a" 6]
    by (simp add: set_of_def decompose_def mask_eq_exp_minus_1)
  then show ?thesis by (simp only: unat_drop_bit_div) simp
qed

lemma off_of_mod: "off_of a = unat a mod 32"
  using unat_and_mask [of a 5] by (simp add: off_of_def decompose_def mask_eq_exp_minus_1)

lemma tag_of_div: "unat (tag_of a) = unat a div 2048"
  using unat_drop_bit_div [of 11 a] by (simp add: tag_of_def decompose_def)

lemma set_of_less [simp]: "set_of a < 64" and off_of_less [simp]: "off_of a < 32"
  by (simp_all add: set_of_div off_of_mod)

lemma unat_split: "unat a = 2048 * unat (tag_of a) + 32 * set_of a + off_of a"
proof -
  have "unat a div 32 div 64 = unat a div 2048" by (simp flip: div_mult2_eq)
  moreover have "unat a = 32 * (unat a div 32) + unat a mod 32" by simp
  moreover have "unat a div 32 = 64 * (unat a div 32 div 64) + unat a div 32 mod 64" by simp
  ultimately show ?thesis unfolding tag_of_div set_of_div off_of_mod by linarith
qed

lemma line_number: "unat a div 32 = 64 * unat (tag_of a) + set_of a"
proof -
  have "unat a = 32 * (64 * unat (tag_of a) + set_of a) + off_of a"
    using unat_split [of a] by simp
  then show ?thesis by (metis add.commute add_cancel_right_left div_less div_mult_self2 off_of_less zero_neq_numeral)
qed

lemma two_digits_eq:
  fixes x y s t :: nat
  assumes "s < 64" and "t < 64"
  shows "64 * x + s = 64 * y + t \<longleftrightarrow> x = y \<and> s = t"
proof
  assume e: "64 * x + s = 64 * y + t"
  have "(64 * x + s) div 64 = x" "(64 * y + t) div 64 = y" using assms by simp_all
  with e show "x = y \<and> s = t" by simp
qed simp

lemma same_line_iff:
  "tag_of a = tag_of b \<and> set_of a = set_of b \<longleftrightarrow> unat a div 32 = unat b div 32"
proof -
  have "tag_of a = tag_of b \<longleftrightarrow> unat (tag_of a) = unat (tag_of b)" by (simp add: word_unat_eq_iff)
  moreover have "64 * unat (tag_of a) + set_of a = 64 * unat (tag_of b) + set_of b
      \<longleftrightarrow> unat (tag_of a) = unat (tag_of b) \<and> set_of a = set_of b"
    by (rule two_digits_eq) simp_all
  ultimately show ?thesis unfolding line_number by simp
qed

lemma not_0x1F: "x AND NOT 0x1F = push_bit 5 (drop_bit 5 x)" for x :: u32
proof -
  have "(0x1F :: u32) = mask 5" by (simp add: mask_eq_exp_minus_1)
  then have "x AND NOT 0x1F = x AND NOT (mask 5)" by simp
  also have "\<dots> = push_bit 5 (drop_bit 5 x)"
    by (rule bit_word_eqI) (auto simp: bit_simps not_less)
  finally show ?thesis .
qed

lemma unat_line_of: "unat (line_of a) = 32 * (unat a div 32)"
proof -
  have "unat (line_of a) = take_bit 32 (push_bit 5 (unat (drop_bit 5 a)))"
    unfolding line_of_def not_0x1F by (simp only: unsigned_push_bit_eq) simp
  also have "\<dots> = (unat a div 32 * 32) mod 2 ^ 32"
    by (simp only: unat_drop_bit_div take_bit_eq_mod push_bit_eq_mult) simp
  also have "\<dots> = 32 * (unat a div 32)"
  proof -
    have "unat a div 32 * 32 \<le> unat a" by simp
    then have "unat a div 32 * 32 < 2 ^ 32" using unat_less_32 [of a] by simp
    then show ?thesis by simp
  qed
  finally show ?thesis .
qed

lemma line_of_eq_iff: "line_of a = line_of b \<longleftrightarrow> tag_of a = tag_of b \<and> set_of a = set_of b"
  unfolding same_line_iff by (simp add: word_unat_eq_iff unat_line_of)

lemma base_addr_line: "base_addr (tag_of a) (set_of a) = line_of a"
proof -
  have "base_addr (tag_of a) (set_of a)
      = push_bit 11 (drop_bit 11 a) OR push_bit 5 (drop_bit 5 a AND mask 6)"
    by (simp add: base_addr_def tag_of_def set_of_def decompose_def mask_eq_exp_minus_1)
  also have "\<dots> = push_bit 5 (drop_bit 5 a)"
  proof (rule bit_word_eqI)
    fix n
    show "bit (push_bit 11 (drop_bit 11 a) OR push_bit 5 (drop_bit 5 a AND mask 6)) n
        = bit (push_bit 5 (drop_bit 5 a)) n"
      by (cases "11 \<le> n") (auto simp: bit_simps)
  qed
  finally show ?thesis by (simp only: line_of_def not_0x1F)
qed

section \<open>Well-formed caches\<close>

text \<open>The shape of the arrays, and no line cached twice.\<close>

definition line_ok :: "cache_line \<Rightarrow> bool" where
  "line_ok l \<longleftrightarrow> length (line_data l) = 32"

definition set_ok :: "nat \<Rightarrow> cache_line list \<Rightarrow> bool" where
  "set_ok s ls \<longleftrightarrow> length ls = 2 \<and> line_ok (ls ! 0) \<and> line_ok (ls ! 1)
     \<and> (line_valid (ls ! 0) \<longrightarrow> line_valid (ls ! 1) \<longrightarrow> line_tag (ls ! 0) \<noteq> line_tag (ls ! 1))
     \<and> (\<forall>l \<in> set ls. line_valid l \<longrightarrow> line_tag l < 0x200000)"

definition dcache_ok :: "dcache \<Rightarrow> bool" where
  "dcache_ok dc \<longleftrightarrow> length (dc_lines dc) = 64 \<and> length (dc_next_way dc) = 64
     \<and> (\<forall>s < 64. set_ok s (dc_lines dc ! s)) \<and> (\<forall>s < 64. dc_next_way dc ! s < 2)"

lemma less_2_cases: "w < (2 :: nat) \<longleftrightarrow> w = 0 \<or> w = 1"
  by auto

lemma dcache_ok_new: "dcache_ok dc_new"
  by (simp add: dcache_ok_def dc_new_def set_ok_def line_ok_def empty_line_def)

lemma dc_line_put_line:
  assumes "dcache_ok dc" and "s < 64" and "w < 2"
  shows "dc_line (put_line s w l dc) s' w' = (if s' = s \<and> w' = w then l else dc_line dc s' w')"
  using assms by (auto simp: dc_line_def put_line_def nth_list_update dcache_ok_def set_ok_def)

lemma find_way_Some:
  "find_way dc s tag = Some w \<Longrightarrow> w < 2 \<and> line_valid (dc_line dc s w) \<and> line_tag (dc_line dc s w) = tag"
  by (auto simp: find_way_def line_matches_def split: if_splits)

lemma find_way_unique:
  assumes "dcache_ok dc" and "s < 64" and "w < 2"
    and "line_valid (dc_line dc s w)" and "line_tag (dc_line dc s w) = tag"
  shows "find_way dc s tag = Some w"
  using assms by (auto simp: find_way_def line_matches_def less_2_cases dcache_ok_def set_ok_def dc_line_def)

lemma other_way_tag:
  assumes "dcache_ok dc" and "s < 64" and "w < 2" and "w' < 2" and "w' \<noteq> w"
    and "line_valid (dc_line dc s w)" and "line_valid (dc_line dc s w')"
  shows "line_tag (dc_line dc s w') \<noteq> line_tag (dc_line dc s w)"
  using assms by (auto simp: dcache_ok_def set_ok_def dc_line_def less_2_cases)

text \<open>Replacing one line keeps the cache well formed if the new line is, and its tag is not in the
  other way.\<close>

lemma dcache_ok_put_line:
  assumes ok: "dcache_ok dc" and s: "s < 64" and w: "w < 2" and l: "line_ok l"
    and tag: "line_valid l \<Longrightarrow> line_tag l < 0x200000"
    and other: "\<And>w'. w' < 2 \<Longrightarrow> w' \<noteq> w \<Longrightarrow> line_valid l \<Longrightarrow> line_valid (dc_line dc s w')
        \<Longrightarrow> line_tag (dc_line dc s w') \<noteq> line_tag l"
  shows "dcache_ok (put_line s w l dc)"
proof -
  have "set_ok s (dc_lines dc ! s)" using ok s by (simp add: dcache_ok_def)
  then obtain l0 l1 where ls: "dc_lines dc ! s = [l0, l1]"
    by (auto simp: set_ok_def length_Suc_conv numeral_2_eq_2)
  have "set_ok s ((dc_lines dc ! s)[w := l])"
    using \<open>set_ok s (dc_lines dc ! s)\<close> w l tag other [of 0] other [of 1]
    by (auto simp: ls set_ok_def less_2_cases dc_line_def)
  then show ?thesis
    using ok s by (auto simp: dcache_ok_def put_line_def nth_list_update)
qed

section \<open>The bytes a cache holds\<close>

lemma tag_of_less: "tag_of a < 0x200000"
proof -
  have "unat a div 2048 < 2097152" using unat_less_32 [of a] by simp
  then show ?thesis by (simp add: word_less_nat_alt tag_of_div)
qed

definition way_of :: "dcache \<Rightarrow> u32 \<Rightarrow> nat option" where
  "way_of dc a = find_way dc (set_of a) (tag_of a)"

lemma way_of_less: "way_of dc a = Some w \<Longrightarrow> w < 2"
  by (simp add: way_of_def find_way_Some)

lemma peek_byte_way:
  "peek_byte dc a = map_option (\<lambda>w. line_data (dc_line dc (set_of a) w) ! off_of a) (way_of dc a)"
  by (simp add: peek_byte_def decompose_fields way_of_def split: option.split)

lemma dc_read_byte_eq_peek: "dc_read_byte dc a = peek_byte dc a"
  by (simp add: dc_read_byte_def decompose_fields peek_byte_way way_of_def)

lemma dc_contains_way: "dc_contains dc a \<longleftrightarrow> way_of dc a \<noteq> None"
  by (simp add: dc_contains_def decompose_fields way_of_def)

lemma way_of_same_line: "line_of a = line_of b \<Longrightarrow> way_of dc a = way_of dc b"
  by (simp add: line_of_eq_iff way_of_def)

text \<open>Two addresses in one way of one set are in one line.\<close>

lemma way_of_inj:
  assumes "way_of dc a = Some w" and "way_of dc b = Some w" and "set_of a = set_of b"
  shows "line_of a = line_of b"
  using assms find_way_Some [of dc "set_of a" "tag_of a" w] find_way_Some [of dc "set_of b" "tag_of b" w]
  by (simp add: line_of_eq_iff way_of_def)

lemma way_of_put_line:
  assumes "dcache_ok dc" and "w < 2" and "dcache_ok (put_line (set_of a) w l dc)"
  shows "way_of (put_line (set_of a) w l dc) b =
    (if set_of b = set_of a \<and> line_matches l (tag_of b) then Some w
     else if set_of b = set_of a \<and> way_of dc b = Some w then None
     else way_of dc b)"
proof (cases "set_of b = set_of a")
  case False
  then show ?thesis
    using assms by (auto simp: way_of_def find_way_def dc_line_put_line)
next
  case True
  have new: "find_way (put_line (set_of a) w l dc) (set_of a) (tag_of b) = Some w"
    if "line_matches l (tag_of b)"
    using that assms by (intro find_way_unique) (auto simp: dc_line_put_line line_matches_def)
  have uniq: "find_way dc (set_of a) (tag_of b) = Some x"
    if "x < 2" "line_matches (dc_line dc (set_of a) x) (tag_of b)" for x
    using that assms by (intro find_way_unique) (auto simp: line_matches_def)
  show ?thesis
    using True new uniq [of 0] uniq [of 1] assms
    by (auto simp: way_of_def find_way_def dc_line_put_line less_2_cases)
qed

definition backing_view :: "dcache \<Rightarrow> (u32 \<Rightarrow> u8) \<Rightarrow> u32 \<Rightarrow> u8" where
  "backing_view dc f a = (case peek_byte dc a of Some b \<Rightarrow> b | None \<Rightarrow> f a)"

text \<open>A clean line holds what the backing store holds.\<close>

definition clean_lines :: "dcache \<Rightarrow> (u32 \<Rightarrow> u8) \<Rightarrow> bool" where
  "clean_lines dc f \<longleftrightarrow>
     (\<forall>a w. way_of dc a = Some w \<longrightarrow> \<not> line_dirty (dc_line dc (set_of a) w)
        \<longrightarrow> line_data (dc_line dc (set_of a) w) ! off_of a = f a)"

text \<open>Writing an evicted line back.\<close>

definition write_back :: "evicted_line \<Rightarrow> (u32 \<Rightarrow> u8) \<Rightarrow> u32 \<Rightarrow> u8" where
  "write_back ev f a = (if line_of a = ev_addr ev then ev_data ev ! off_of a else f a)"

definition write_back_option :: "evicted_line option \<Rightarrow> (u32 \<Rightarrow> u8) \<Rightarrow> u32 \<Rightarrow> u8" where
  "write_back_option ev f = (case ev of None \<Rightarrow> f | Some e \<Rightarrow> write_back e f)"

lemma off_of_inj: "line_of a = line_of b \<Longrightarrow> off_of a = off_of b \<Longrightarrow> a = b"
  unfolding line_of_eq_iff using unat_split [of a] unat_split [of b] by (simp add: word_unat_eq_iff)

lemma line_ok_dc_line: "dcache_ok dc \<Longrightarrow> s < 64 \<Longrightarrow> w < 2 \<Longrightarrow> line_ok (dc_line dc s w)"
  by (auto simp: dcache_ok_def set_ok_def dc_line_def less_2_cases)

lemma line_tag_less: "dcache_ok dc \<Longrightarrow> s < 64 \<Longrightarrow> w < 2 \<Longrightarrow> line_valid (dc_line dc s w)
    \<Longrightarrow> line_tag (dc_line dc s w) < 0x200000"
  by (auto simp: dcache_ok_def set_ok_def dc_line_def)

section \<open>Writing a byte\<close>

lemma dc_write_byte_miss: "way_of dc a = None \<Longrightarrow> dc_write_byte a v dc = (False, dc)"
  by (simp add: dc_write_byte_def decompose_fields way_of_def)

definition written_line :: "dcache \<Rightarrow> u32 \<Rightarrow> nat \<Rightarrow> u8 \<Rightarrow> cache_line" where
  "written_line dc a w v =
     (dc_line dc (set_of a) w)\<lparr>line_data := (line_data (dc_line dc (set_of a) w))[off_of a := v],
                               line_dirty := True\<rparr>"

lemma dc_write_byte_hit:
  "way_of dc a = Some w \<Longrightarrow>
     dc_write_byte a v dc = (True, put_line (set_of a) w (written_line dc a w v) dc)"
  by (simp add: dc_write_byte_def decompose_fields way_of_def written_line_def)

lemma dcache_ok_dc_write_byte: "dcache_ok dc \<Longrightarrow> dcache_ok (snd (dc_write_byte a v dc))"
proof (cases "way_of dc a")
  case (Some w)
  assume ok: "dcache_ok dc"
  have w: "w < 2" using Some by (rule way_of_less)
  then show ?thesis
    using ok w line_ok_dc_line [OF ok _ w, of "set_of a"] line_tag_less [OF ok _ w, of "set_of a"]
    unfolding dc_write_byte_hit [OF Some] snd_conv
    by (intro dcache_ok_put_line)
      (auto simp: written_line_def line_ok_def dest: other_way_tag [OF ok set_of_less w])
qed (simp add: dc_write_byte_miss)

lemma way_of_dc_write_byte:
  assumes ok: "dcache_ok dc"
  shows "way_of (snd (dc_write_byte a v dc)) b = way_of dc b"
proof (cases "way_of dc a")
  case (Some w)
  have ok': "dcache_ok (put_line (set_of a) w (written_line dc a w v) dc)"
    using dcache_ok_dc_write_byte [OF ok, of a v] by (simp add: dc_write_byte_hit [OF Some])
  have m: "line_matches (written_line dc a w v) (tag_of b) \<longleftrightarrow> tag_of b = tag_of a"
    using Some find_way_Some by (fastforce simp: written_line_def line_matches_def way_of_def)
  note put = way_of_put_line [OF ok way_of_less [OF Some] ok', of b, unfolded m]
  consider "set_of b = set_of a" "tag_of b = tag_of a" | "set_of b = set_of a" "tag_of b \<noteq> tag_of a"
    | "set_of b \<noteq> set_of a" by blast
  then show ?thesis
  proof cases
    case 1
    then have "way_of dc b = Some w" using Some by (simp add: way_of_def)
    with 1 show ?thesis by (simp add: dc_write_byte_hit [OF Some] put)
  next
    case 2
    then have "way_of dc b \<noteq> Some w" using way_of_inj [OF Some, of b] by (auto simp: line_of_eq_iff)
    with 2 show ?thesis by (simp add: dc_write_byte_hit [OF Some] put)
  next
    case 3
    then show ?thesis by (simp add: dc_write_byte_hit [OF Some] put)
  qed
qed (simp add: dc_write_byte_miss)

lemma dc_line_dc_write_byte:
  assumes "dcache_ok dc" and "way_of dc a = Some w" and "w' < 2"
  shows "dc_line (snd (dc_write_byte a v dc)) s w'
    = (if s = set_of a \<and> w' = w then written_line dc a w v else dc_line dc s w')"
  using assms way_of_less [OF assms(2)] by (simp add: dc_write_byte_hit dc_line_put_line)

lemma peek_dc_write_byte:
  assumes ok: "dcache_ok dc"
  shows "peek_byte (snd (dc_write_byte a v dc)) b
    = (if b = a \<and> way_of dc a \<noteq> None then Some v else peek_byte dc b)"
proof (cases "way_of dc a")
  case (Some w)
  have len: "length (line_data (dc_line dc (set_of a) w)) = 32"
    using line_ok_dc_line [OF ok _ way_of_less [OF Some]] by (simp add: line_ok_def)
  show ?thesis
  proof (cases "way_of dc b")
    case None
    then show ?thesis using Some by (auto simp: peek_byte_way way_of_dc_write_byte [OF ok])
  next
    case w': (Some w')
    have "peek_byte (snd (dc_write_byte a v dc)) b
        = Some (line_data (dc_line (snd (dc_write_byte a v dc)) (set_of b) w') ! off_of b)"
      using w' by (simp add: peek_byte_way way_of_dc_write_byte [OF ok])
    note peek = this [unfolded dc_line_dc_write_byte [OF ok Some way_of_less [OF w']]]
    show ?thesis
    proof (cases "set_of b = set_of a \<and> w' = w")
      case same: True
      then have l: "line_of b = line_of a" using way_of_inj [of dc b w a] w' Some by simp
      show ?thesis
      proof (cases "off_of b = off_of a")
        case True
        then have "b = a" using l by (simp add: off_of_inj)
        with same show ?thesis using Some len unfolding peek by (simp add: written_line_def)
      next
        case False
        then have "b \<noteq> a" by auto
        with same False show ?thesis using w' by (simp add: peek written_line_def peek_byte_way [of dc b])
      qed
    next
      case False
      then have "b \<noteq> a" using Some w' by auto
      with False show ?thesis using w' by (auto simp: peek peek_byte_way [of dc b])
    qed
  qed
qed (simp add: dc_write_byte_miss)

lemma view_dc_write_byte:
  assumes ok: "dcache_ok dc" and hit: "way_of dc a \<noteq> None"
  shows "backing_view (snd (dc_write_byte a v dc)) f = (backing_view dc f)(a := v)"
  using hit by (auto simp: backing_view_def peek_dc_write_byte [OF ok])

lemma clean_dc_write_byte:
  assumes ok: "dcache_ok dc" and cl: "clean_lines dc f"
  shows "clean_lines (snd (dc_write_byte a v dc)) f"
proof (cases "way_of dc a")
  case (Some w)
  show ?thesis
    unfolding clean_lines_def way_of_dc_write_byte [OF ok]
  proof (intro allI impI)
    fix b w' assume b: "way_of dc b = Some w'"
      and nd: "\<not> line_dirty (dc_line (snd (dc_write_byte a v dc)) (set_of b) w')"
    then have "dc_line (snd (dc_write_byte a v dc)) (set_of b) w' = dc_line dc (set_of b) w'"
      using dc_line_dc_write_byte [OF ok Some way_of_less [OF b], of v "set_of b"]
      by (auto simp: written_line_def split: if_splits)
    with b nd cl show "line_data (dc_line (snd (dc_write_byte a v dc)) (set_of b) w') ! off_of b = f b"
      by (simp add: clean_lines_def)
  qed
qed (simp add: dc_write_byte_miss cl)

section \<open>Filling a line\<close>

text \<open>The victim way, the line it holds, and the counters after.\<close>

lemma rr_victim_props:
  assumes ok: "dcache_ok dc" and s: "s < 64"
  obtains w dc' where "rr_victim s dc = (w, dc')" and "w < 2" and "dc_lines dc' = dc_lines dc"
    and "dcache_ok dc'" and "dc_enabled dc' = dc_enabled dc" and "dc_im dc' = dc_im dc"
proof -
  have nw: "dc_next_way dc ! s < 2" using ok s by (simp add: dcache_ok_def)
  then have v: "unat (dc_next_way dc ! s) < 2" by (simp add: word_less_nat_alt)
  have b: "(of_nat ((unat (dc_next_way dc ! s) + 1) mod 2) :: u8) < 2"
    using v unfolding less_2_cases by auto
  show thesis
  proof (cases "line_valid (dc_line dc s 0)")
    case v0: True
    show thesis
    proof (cases "line_valid (dc_line dc s 1)")
      case True
      with v0 show thesis
        using that [of "unat (dc_next_way dc ! s)"] v b ok s
        by (auto simp: rr_victim_def Let_def dcache_ok_def nth_list_update)
    next
      case False
      with v0 show thesis using that [of 1 dc] ok by (simp add: rr_victim_def)
    qed
  next
    case False
    then show thesis using that [of 0 dc] ok by (simp add: rr_victim_def)
  qed
qed

definition evict_victim :: "dcache \<Rightarrow> nat \<Rightarrow> nat \<Rightarrow> evicted_line option" where
  "evict_victim dc s w =
     (if line_valid (dc_line dc s w) \<and> line_dirty (dc_line dc s w)
      then Some \<lparr>ev_addr = base_addr (line_tag (dc_line dc s w)) s, ev_data = line_data (dc_line dc s w)\<rparr>
      else None)"

text \<open>The base address a valid line was cached for.\<close>

lemma line_has_address:
  assumes ok: "dcache_ok dc" and s: "s < 64" and w: "w < 2" and v: "line_valid (dc_line dc s w)"
  obtains x where "set_of x = s" and "tag_of x = line_tag (dc_line dc s w)" and "way_of dc x = Some w"
proof -
  let ?t = "line_tag (dc_line dc s w)"
  define x where "x = base_addr ?t s"
  have tb: "n < 21" if "bit ?t n" for n
  proof -
    have "unat ?t < 2 ^ 21" using line_tag_less [OF ok s w v] by (simp add: word_less_nat_alt)
    then have "take_bit 21 (unat ?t) = unat ?t" by (simp add: take_bit_nat_eq_self)
    then have "take_bit 21 ?t = ?t" by (metis unsigned_take_bit_eq word_unat_eq_iff)
    then show ?thesis using that by (metis bit_take_bit_iff)
  qed
  have us: "unat (of_nat s :: u32) = s" using s by (simp add: unat_of_nat)
  have sb: "n < 6" if "bit s n" for n
  proof -
    have "take_bit 6 s = s" using s by (simp add: take_bit_nat_eq_self)
    then show ?thesis using that by (metis bit_take_bit_iff)
  qed
  have tag: "tag_of x = ?t"
    unfolding tag_of_def decompose_def x_def base_addr_def fst_conv
    by (rule bit_word_eqI) (auto simp: bit_simps dest!: sb dest: tb)
  have "drop_bit 5 x AND mask 6 = of_nat s"
    unfolding x_def base_addr_def
    by (rule bit_word_eqI) (auto simp: bit_simps dest: sb tb)
  then have set: "set_of x = s"
    using us by (simp add: set_of_def decompose_def mask_eq_exp_minus_1)
  have "way_of dc x = Some w"
    unfolding way_of_def set tag by (rule find_way_unique [OF ok s w v refl])
  with set tag show thesis by (rule that)
qed

text \<open>The effect of dropping or replacing the line in one way: what is evicted, and where.\<close>

lemma evict_victim_address:
  assumes ok: "dcache_ok dc" and b: "way_of dc b = Some w"
    and ev: "evict_victim dc (set_of b) w = Some ev"
  shows "ev_addr ev = line_of b" and "ev_data ev = line_data (dc_line dc (set_of b) w)"
    and "line_dirty (dc_line dc (set_of b) w)"
proof -
  have "line_tag (dc_line dc (set_of b) w) = tag_of b"
    using b find_way_Some by (auto simp: way_of_def)
  then show "ev_addr ev = line_of b" "ev_data ev = line_data (dc_line dc (set_of b) w)"
    "line_dirty (dc_line dc (set_of b) w)"
    using ev by (auto simp: evict_victim_def base_addr_line split: if_splits)
qed

lemma evict_victim_other_line:
  assumes ok: "dcache_ok dc" and s: "s < 64" and w: "w < 2" and ev: "evict_victim dc s w = Some ev"
    and b: "\<not> (set_of b = s \<and> way_of dc b = Some w)"
  shows "line_of b \<noteq> ev_addr ev"
proof -
  have v: "line_valid (dc_line dc s w)" using ev by (auto simp: evict_victim_def split: if_splits)
  obtain x where x: "set_of x = s" "way_of dc x = Some w" by (rule line_has_address [OF ok s w v])
  have "ev_addr ev = line_of x" using evict_victim_address(1) [OF ok x(2)] x(1) ev by simp
  moreover have "line_of b \<noteq> line_of x"
    using b x way_of_same_line [of b x dc] by (auto simp: line_of_eq_iff)
  ultimately show ?thesis by simp
qed

lemma evict_victim_view:
  assumes ok: "dcache_ok dc" and cl: "clean_lines dc f" and b: "way_of dc b = Some w"
  shows "write_back_option (evict_victim dc (set_of b) w) f b = line_data (dc_line dc (set_of b) w) ! off_of b"
proof (cases "evict_victim dc (set_of b) w")
  case None
  then have "\<not> line_dirty (dc_line dc (set_of b) w)"
    using b find_way_Some by (fastforce simp: evict_victim_def way_of_def split: if_splits)
  then show ?thesis using None cl b by (simp add: write_back_option_def clean_lines_def)
next
  case (Some ev)
  then show ?thesis
    using evict_victim_address [OF ok b Some] by (simp add: write_back_option_def write_back_def)
qed

lemma write_back_other:
  assumes "dcache_ok dc" and "s < 64" and "w < 2" and "\<not> (set_of b = s \<and> way_of dc b = Some w)"
  shows "write_back_option (evict_victim dc s w) f b = f b"
  using evict_victim_other_line [OF assms(1-3) _ assms(4)]
  by (auto simp: write_back_option_def write_back_def split: option.split)

lemma fill_line_miss:
  assumes ok: "dcache_ok dc" and miss: "way_of dc a = None"
    and len: "length data = 32"
  obtains w dc' where "w < 2" and "fill_line a data dc = (evict_victim dc (set_of a) w, dc')"
    and "dcache_ok dc'" and "dc_enabled dc' = dc_enabled dc" and "dc_im dc' = dc_im dc"
    and "\<And>b. way_of dc' b = (if line_of b = line_of a then Some w
           else if set_of b = set_of a \<and> way_of dc b = Some w then None else way_of dc b)"
    and "\<And>s x. x < 2 \<Longrightarrow> dc_line dc' s x = (if s = set_of a \<and> x = w
           then \<lparr>line_valid = True, line_dirty = False, line_tag = tag_of a, line_data = data\<rparr>
           else dc_line dc s x)"
proof -
  obtain w dc1 where rr: "rr_victim (set_of a) dc = (w, dc1)" and w: "w < 2"
    and lines: "dc_lines dc1 = dc_lines dc" and ok1: "dcache_ok dc1"
    and en: "dc_enabled dc1 = dc_enabled dc" "dc_im dc1 = dc_im dc"
    by (rule rr_victim_props [OF ok set_of_less])
  let ?l = "\<lparr>line_valid = True, line_dirty = False, line_tag = tag_of a, line_data = data\<rparr>"
  let ?dc = "put_line (set_of a) w ?l dc1"
  have dl: "dc_line dc1 s x = dc_line dc s x" for s x by (simp add: dc_line_def lines)
  have wo: "way_of dc1 b = way_of dc b" for b by (simp add: way_of_def find_way_def dl)
  have ok2: "dcache_ok ?dc"
  proof (rule dcache_ok_put_line [OF ok1 set_of_less w])
    fix w' assume "w' < 2" and "line_valid (dc_line dc1 (set_of a) w')"
    then show "line_tag (dc_line dc1 (set_of a) w') \<noteq> line_tag ?l"
      using find_way_unique [OF ok set_of_less [of a] \<open>w' < 2\<close>, of "tag_of a"] miss
      by (auto simp: dl way_of_def)
  qed (simp_all add: line_ok_def len tag_of_less)
  have fill: "fill_line a data dc = (evict_victim dc (set_of a) w, ?dc)"
    using miss by (simp add: fill_line_def decompose_fields way_of_def rr evict_victim_def dl Let_def)
  have way: "way_of ?dc b = (if line_of b = line_of a then Some w
      else if set_of b = set_of a \<and> way_of dc b = Some w then None else way_of dc b)" for b
    unfolding way_of_put_line [OF ok1 w ok2] wo line_of_eq_iff by (simp add: line_matches_def)
  have line: "dc_line ?dc s x = (if s = set_of a \<and> x = w then ?l else dc_line dc s x)" if "x < 2" for s x
    using that w by (simp add: dc_line_put_line [OF ok1] dl)
  show thesis
    by (rule that [OF w fill ok2 _ _ way line]) (simp_all add: put_line_def en)
qed

text \<open>Filling a line from the backing store, with the evicted line written back, changes no byte
  that a read returns.\<close>

lemma fill_line_view:
  assumes ok: "dcache_ok dc" and cl: "clean_lines dc f" and miss: "way_of dc a = None"
    and len: "length data = 32"
    and data: "\<And>b. line_of b = line_of a \<Longrightarrow> data ! off_of b = f b"
    and fill: "fill_line a data dc = (ev, dc')"
  shows "backing_view dc' (write_back_option ev f) = backing_view dc f"
    and "clean_lines dc' (write_back_option ev f)"
    and "dcache_ok dc'" and "way_of dc' a \<noteq> None"
    and "way_of dc' b \<noteq> None \<Longrightarrow> line_of b = line_of a \<or> way_of dc b \<noteq> None"
    and "dc_enabled dc' = dc_enabled dc" and "dc_im dc' = dc_im dc"
proof -
  obtain w where w: "w < 2" and ev: "ev = evict_victim dc (set_of a) w"
    and ok': "dcache_ok dc'" and en: "dc_enabled dc' = dc_enabled dc" "dc_im dc' = dc_im dc"
    and way: "\<And>b. way_of dc' b = (if line_of b = line_of a then Some w
           else if set_of b = set_of a \<and> way_of dc b = Some w then None else way_of dc b)"
    and line: "\<And>s x. x < 2 \<Longrightarrow> dc_line dc' s x = (if s = set_of a \<and> x = w
           then \<lparr>line_valid = True, line_dirty = False, line_tag = tag_of a, line_data = data\<rparr>
           else dc_line dc s x)"
  proof -
    show thesis
      by (rule fill_line_miss [OF ok miss len]) (rule that, use fill in auto)
  qed
  let ?f = "write_back_option ev f"
  have old: "way_of dc b = None" if "line_of b = line_of a" for b
    using way_of_same_line [OF that] miss by simp
  have other: "?f b = f b" if "\<not> (set_of b = set_of a \<and> way_of dc b = Some w)" for b
    unfolding ev using write_back_other [OF ok set_of_less w that] .
  show "backing_view dc' ?f = backing_view dc f"
  proof
    fix b
    consider (new) "line_of b = line_of a"
      | (victim) "line_of b \<noteq> line_of a" "set_of b = set_of a" "way_of dc b = Some w"
      | (rest) "line_of b \<noteq> line_of a" "\<not> (set_of b = set_of a \<and> way_of dc b = Some w)"
      by blast
    then show "backing_view dc' ?f b = backing_view dc f b"
    proof cases
      case new
      then show ?thesis
        using old [OF new] data [OF new]
        by (simp add: backing_view_def peek_byte_way way line [OF w] line_of_eq_iff)
    next
      case victim
      then show ?thesis
        using evict_victim_view [OF ok cl victim(3)] by (simp add: backing_view_def peek_byte_way way ev)
    next
      case rest
      then have "way_of dc' b = way_of dc b" by (simp add: way)
      moreover have "dc_line dc' (set_of b) x = dc_line dc (set_of b) x" if "way_of dc b = Some x" for x
        using rest that way_of_less [OF that] by (auto simp: line)
      ultimately show ?thesis
        using other [OF rest(2)]
        by (auto simp: backing_view_def peek_byte_way split: option.split)
    qed
  qed
  show "clean_lines dc' ?f"
    unfolding clean_lines_def
  proof (intro allI impI)
    fix b x assume b: "way_of dc' b = Some x" and nd: "\<not> line_dirty (dc_line dc' (set_of b) x)"
    show "line_data (dc_line dc' (set_of b) x) ! off_of b = ?f b"
    proof (cases "line_of b = line_of a")
      case True
      then have "x = w" "set_of b = set_of a" using b by (auto simp: way line_of_eq_iff)
      then show ?thesis
        using data [OF True] old [OF True] other [of b] by (simp add: line [OF w])
    next
      case False
      then have wb: "way_of dc b = Some x" and ne: "\<not> (set_of b = set_of a \<and> x = w)"
        using b by (auto simp: way split: if_splits)
      then have "dc_line dc' (set_of b) x = dc_line dc (set_of b) x"
        using way_of_less [OF wb] by (auto simp: line)
      then show ?thesis using nd cl wb other [of b] ne by (auto simp: clean_lines_def)
    qed
  qed
  show "dcache_ok dc'" "dc_enabled dc' = dc_enabled dc" "dc_im dc' = dc_im dc" by fact+
  show "way_of dc' a \<noteq> None" by (simp add: way)
  show "way_of dc' b \<noteq> None \<Longrightarrow> line_of b = line_of a \<or> way_of dc b \<noteq> None"
    by (auto simp: way split: if_splits)
qed

section \<open>Dropping lines\<close>

lemma empty_line_matches [simp]: "\<not> line_matches empty_line t"
  by (simp add: line_matches_def empty_line_def)

lemma backing_view_way:
  "backing_view dc f b = (case way_of dc b of None \<Rightarrow> f b
     | Some w \<Rightarrow> line_data (dc_line dc (set_of b) w) ! off_of b)"
  by (simp add: backing_view_def peek_byte_way split: option.split)

lemma drop_line:
  assumes ok: "dcache_ok dc" and a: "way_of dc a = Some w"
  shows "dcache_ok (put_line (set_of a) w empty_line dc)"
    and "way_of (put_line (set_of a) w empty_line dc) b = (if line_of b = line_of a then None else way_of dc b)"
    and "x < 2 \<Longrightarrow> way_of (put_line (set_of a) w empty_line dc) b = Some x
           \<Longrightarrow> dc_line (put_line (set_of a) w empty_line dc) (set_of b) x = dc_line dc (set_of b) x"
proof -
  have w: "w < 2" using a by (rule way_of_less)
  show ok': "dcache_ok (put_line (set_of a) w empty_line dc)"
    by (rule dcache_ok_put_line [OF ok set_of_less w]) (simp_all add: empty_line_def line_ok_def)
  have "way_of (put_line (set_of a) w empty_line dc) b
      = (if set_of b = set_of a \<and> way_of dc b = Some w then None else way_of dc b)"
    by (simp add: way_of_put_line [OF ok w ok'])
  moreover have "set_of b = set_of a \<and> way_of dc b = Some w \<longleftrightarrow> line_of b = line_of a"
    using way_of_inj [of dc b w a] a way_of_same_line [of b a dc] by (auto simp: line_of_eq_iff)
  ultimately show way: "way_of (put_line (set_of a) w empty_line dc) b
      = (if line_of b = line_of a then None else way_of dc b)" by simp
  show "x < 2 \<Longrightarrow> way_of (put_line (set_of a) w empty_line dc) b = Some x
      \<Longrightarrow> dc_line (put_line (set_of a) w empty_line dc) (set_of b) x = dc_line dc (set_of b) x"
    using way way_of_inj [of dc b w a] a by (auto simp: dc_line_put_line [OF ok set_of_less w] split: if_splits)
qed

lemma drop_line_peek:
  assumes ok: "dcache_ok dc" and a: "way_of dc a = Some w"
  shows "peek_byte (put_line (set_of a) w empty_line dc) b
    = (if line_of b = line_of a then None else peek_byte dc b)"
  using drop_line(2,3) [OF ok a]
    way_of_less [of dc b]
  by (cases "way_of dc b") (auto simp: peek_byte_way)

lemma drop_line_clean:
  assumes ok: "dcache_ok dc" and a: "way_of dc a = Some w" and cl: "clean_lines dc f"
    and g: "\<And>b. line_of b \<noteq> line_of a \<Longrightarrow> g b = f b"
  shows "clean_lines (put_line (set_of a) w empty_line dc) g"
  unfolding clean_lines_def
proof (intro allI impI)
  let ?dc = "put_line (set_of a) w empty_line dc"
  fix b x assume b: "way_of ?dc b = Some x" and nd: "\<not> line_dirty (dc_line ?dc (set_of b) x)"
  then have "line_of b \<noteq> line_of a" and wb: "way_of dc b = Some x"
    by (auto simp: drop_line(2) [OF ok a] split: if_splits)
  moreover have "dc_line ?dc (set_of b) x = dc_line dc (set_of b) x"
    using drop_line(3) [OF ok a way_of_less [OF wb] b] .
  ultimately show "line_data (dc_line ?dc (set_of b) x) ! off_of b = g b"
    using cl nd g by (simp add: clean_lines_def)
qed

lemma invalidate_line_cases:
  "way_of dc a = None \<Longrightarrow> invalidate_line a dc = (None, dc)"
  "way_of dc a = Some w \<Longrightarrow> invalidate_line a dc =
     (if dc_im dc then evict_victim dc (set_of a) w else None, put_line (set_of a) w empty_line dc)"
  using find_way_Some [of dc "set_of a" "tag_of a" w]
  by (auto simp: invalidate_line_def decompose_fields way_of_def evict_victim_def Let_def)

text \<open>With IM set, invalidating a line changes no byte that a read returns.\<close>

lemma invalidate_line_view:
  assumes ok: "dcache_ok dc" and cl: "clean_lines dc f" and im: "dc_im dc"
    and inv: "invalidate_line a dc = (ev, dc')"
  shows "backing_view dc' (write_back_option ev f) = backing_view dc f"
    and "clean_lines dc' (write_back_option ev f)" and "dcache_ok dc'" and "way_of dc' a = None"
proof -
  have "backing_view dc' (write_back_option ev f) = backing_view dc f
    \<and> clean_lines dc' (write_back_option ev f) \<and> dcache_ok dc' \<and> way_of dc' a = None"
  proof (cases "way_of dc a")
    case None
    then show ?thesis using inv ok cl by (auto simp: invalidate_line_cases write_back_option_def)
  next
    case (Some w)
    have ev: "ev = evict_victim dc (set_of a) w" and dc': "dc' = put_line (set_of a) w empty_line dc"
      using inv im by (simp_all add: invalidate_line_cases(2) [OF Some])
    have other: "write_back_option ev f b = f b" if "line_of b \<noteq> line_of a" for b
      unfolding ev using that way_of_inj [of dc b w a] Some
      by (intro write_back_other [OF ok set_of_less way_of_less [OF Some]]) auto
    have same: "write_back_option ev f b = line_data (dc_line dc (set_of b) w) ! off_of b"
      and way: "way_of dc b = Some w" if "line_of b = line_of a" for b
      using that evict_victim_view [OF ok cl, of b w] way_of_same_line [OF that, of dc] Some
      by (simp_all add: ev line_of_eq_iff)
    have "backing_view dc' (write_back_option ev f) b = backing_view dc f b" for b
    proof (cases "line_of b = line_of a")
      case True
      then show ?thesis
        using same [OF True] way [OF True]
        by (simp add: backing_view_def dc' drop_line_peek [OF ok Some] peek_byte_way [of dc b])
    next
      case False
      then show ?thesis
        using other [OF False]
        by (cases "peek_byte dc b") (simp_all add: backing_view_def dc' drop_line_peek [OF ok Some])
    qed
    moreover have "clean_lines dc' (write_back_option ev f)"
      unfolding dc' by (rule drop_line_clean [OF ok Some cl other])
    ultimately show ?thesis
      using drop_line(1,2) [OF ok Some] dc' by auto
  qed
  then show "backing_view dc' (write_back_option ev f) = backing_view dc f"
    "clean_lines dc' (write_back_option ev f)" "dcache_ok dc'" "way_of dc' a = None" by simp_all
qed

text \<open>A DMA write under a line: a dirty line keeps shadowing the store, a clean one is dropped.\<close>

definition dirty_at :: "dcache \<Rightarrow> u32 \<Rightarrow> bool" where
  "dirty_at dc a \<longleftrightarrow> (case way_of dc a of None \<Rightarrow> False | Some w \<Rightarrow> line_dirty (dc_line dc (set_of a) w))"

lemma dma_sram_overwrite_view:
  assumes ok: "dcache_ok dc" and cl: "clean_lines dc f"
    and g: "\<And>b. line_of b \<noteq> line_of a \<Longrightarrow> g b = f b"
    and dma: "dma_sram_overwrite a dc = (kept, dc')"
  shows "backing_view dc' g b = (if line_of b = line_of a \<and> \<not> dirty_at dc a then g b else backing_view dc f b)"
    and "clean_lines dc' g" and "dcache_ok dc'" and "kept \<longleftrightarrow> dirty_at dc a"
proof -
  have "backing_view dc' g b = (if line_of b = line_of a \<and> \<not> dirty_at dc a then g b else backing_view dc f b)
    \<and> clean_lines dc' g \<and> dcache_ok dc' \<and> (kept \<longleftrightarrow> dirty_at dc a)"
  proof (cases "way_of dc a")
    case None
    then have m: "dc' = dc" "\<not> kept" "\<not> dirty_at dc a"
      using dma by (auto simp: dma_sram_overwrite_def decompose_fields way_of_def dirty_at_def)
    have "line_of x \<noteq> line_of a" if "way_of dc x = Some y" for x y
      using that None way_of_same_line [of x a dc] by auto
    then have "clean_lines dc g" using cl g by (simp add: clean_lines_def)
    moreover have "peek_byte dc b = None" if "line_of b = line_of a"
      using None way_of_same_line [OF that, of dc] by (simp add: peek_byte_way)
    ultimately show ?thesis using ok m g [of b] by (auto simp: backing_view_def split: option.split)
  next
    case (Some w)
    show ?thesis
    proof (cases "line_dirty (dc_line dc (set_of a) w)")
      case True
      then have m: "dc' = dc" "kept" "dirty_at dc a"
        using dma Some by (auto simp: dma_sram_overwrite_def decompose_fields way_of_def dirty_at_def)
      have d: "line_dirty (dc_line dc (set_of x) y)" if "line_of x = line_of a" "way_of dc x = Some y" for x y
        using that Some True way_of_same_line [OF that(1), of dc] by (simp add: line_of_eq_iff)
      have "clean_lines dc g" using cl g d unfolding clean_lines_def by metis
      moreover have "backing_view dc g b = backing_view dc f b"
        using g [of b] Some way_of_same_line [of b a dc]
        by (cases "line_of b = line_of a"; cases "way_of dc b") (simp_all add: backing_view_way)
      ultimately show ?thesis using ok m by simp
    next
      case False
      then have m: "dc' = put_line (set_of a) w empty_line dc" "\<not> kept" "\<not> dirty_at dc a"
        using dma Some by (auto simp: dma_sram_overwrite_def decompose_fields way_of_def dirty_at_def)
      then show ?thesis
        using drop_line_clean [OF ok Some cl g] drop_line(1) [OF ok Some] g [of b]
        by (auto simp: backing_view_def drop_line_peek [OF ok Some] split: option.split)
    qed
  qed
  then show "backing_view dc' g b = (if line_of b = line_of a \<and> \<not> dirty_at dc a then g b else backing_view dc f b)"
    "clean_lines dc' g" "dcache_ok dc'" "kept \<longleftrightarrow> dirty_at dc a" by blast+
qed

section \<open>Invalidating the cache\<close>

definition write_back_all :: "evicted_line list \<Rightarrow> (u32 \<Rightarrow> u8) \<Rightarrow> u32 \<Rightarrow> u8" where
  "write_back_all evs f = fold write_back evs f"

lemma evict_if_dirty_victim:
  "evict_if_dirty True s (dc_line dc s w) = (case evict_victim dc s w of None \<Rightarrow> [] | Some ev \<Rightarrow> [ev])"
  by (simp add: evict_if_dirty_def evict_victim_def)

lemma fold_evict_victim:
  "fold write_back (case evict_victim dc s w of None \<Rightarrow> [] | Some ev \<Rightarrow> [ev]) f
     = write_back_option (evict_victim dc s w) f"
  by (simp add: write_back_option_def split: option.split)

lemma write_back_slots:
  assumes ok: "dcache_ok dc"
  shows "(\<And>s w. (s, w) \<in> set ps \<Longrightarrow> s < 64 \<and> w < 2) \<Longrightarrow>
    fold write_back (concat (map (\<lambda>(s, w). evict_if_dirty True s (dc_line dc s w)) ps)) f b
    = (case way_of dc b of None \<Rightarrow> f b
       | Some w \<Rightarrow> if (set_of b, w) \<in> set ps \<and> line_dirty (dc_line dc (set_of b) w)
                   then line_data (dc_line dc (set_of b) w) ! off_of b else f b)"
proof (induction ps arbitrary: f)
  case Nil
  then show ?case by (simp split: option.split)
next
  case (Cons p ps)
  obtain s w where p: "p = (s, w)" by (cases p)
  have sw: "s < 64" "w < 2" using Cons.prems [of s w] p by auto
  have head: "write_back_option (evict_victim dc s w) f b
      = (if set_of b = s \<and> way_of dc b = Some w \<and> line_dirty (dc_line dc s w)
         then line_data (dc_line dc s w) ! off_of b else f b)"
  proof (cases "set_of b = s \<and> way_of dc b = Some w")
    case True
    then have v: "line_valid (dc_line dc s w)" using find_way_Some by (auto simp: way_of_def)
    show ?thesis
    proof (cases "evict_victim dc s w")
      case None
      then show ?thesis using v by (auto simp: evict_victim_def write_back_option_def)
    next
      case (Some ev)
      with True show ?thesis
        using evict_victim_address [OF ok, of b w ev]
        by (simp add: write_back_option_def write_back_def)
    qed
  next
    case False
    then show ?thesis using write_back_other [OF ok sw False] by auto
  qed
  have ih: "fold write_back (concat (map (\<lambda>(s, w). evict_if_dirty True s (dc_line dc s w)) ps)) f' b
    = (case way_of dc b of None \<Rightarrow> f' b
       | Some w \<Rightarrow> if (set_of b, w) \<in> set ps \<and> line_dirty (dc_line dc (set_of b) w)
                   then line_data (dc_line dc (set_of b) w) ! off_of b else f' b)" for f'
    by (rule Cons.IH) (use Cons.prems in auto)
  have "fold write_back (concat (map (\<lambda>(s, w). evict_if_dirty True s (dc_line dc s w)) (p # ps))) f
      = fold write_back (concat (map (\<lambda>(s, w). evict_if_dirty True s (dc_line dc s w)) ps))
          (write_back_option (evict_victim dc s w) f)"
    by (simp add: p evict_if_dirty_victim fold_evict_victim)
  then show ?case by (auto simp: ih head p split: option.split)
qed

lemma concat_concat: "concat (concat xss) = concat (map concat xss)"
  by (induction xss) simp_all

text \<open>With IM set, invalidating the whole cache and writing the dirty lines back leaves the backing
  store holding what reads returned before, and the cache empty.\<close>

lemma invalidate_all_view:
  assumes ok: "dcache_ok dc" and cl: "clean_lines dc f" and im: "dc_im dc"
    and inv: "invalidate_all dc = (evs, dc')"
  shows "write_back_all evs f = backing_view dc f"
    and "way_of dc' b = None" and "dcache_ok dc'" and "clean_lines dc' g"
proof -
  let ?ps = "concat (map (\<lambda>s. map (\<lambda>w. (s, w)) [0..<2]) [0..<64])"
  have evs: "evs = concat (map (\<lambda>(s, w). evict_if_dirty True s (dc_line dc s w)) ?ps)"
    using inv im by (auto simp: invalidate_all_def Let_def map_concat concat_concat comp_def)
  have ps: "(s, w) \<in> set ?ps \<longleftrightarrow> s < 64 \<and> w < 2" for s w
    by (auto intro!: bexI [of _ s])
  show "write_back_all evs f = backing_view dc f"
  proof
    fix b
    have "write_back_all evs f b = (case way_of dc b of None \<Rightarrow> f b
       | Some w \<Rightarrow> if line_dirty (dc_line dc (set_of b) w)
                   then line_data (dc_line dc (set_of b) w) ! off_of b else f b)"
      unfolding write_back_all_def evs
      by (subst write_back_slots [OF ok]) (use ps in \<open>auto split: option.split dest: way_of_less\<close>)
    then show "write_back_all evs f b = backing_view dc f b"
      using cl by (auto simp: backing_view_way clean_lines_def split: option.split)
  qed
  have dc': "dc_lines dc' = replicate 64 (replicate 2 empty_line)" "dc_next_way dc' = replicate 64 0"
    using inv by (auto simp: invalidate_all_def Let_def)
  show none: "way_of dc' b = None" for b
    by (simp add: way_of_def find_way_def dc_line_def dc' set_of_less)
  show "dcache_ok dc'"
    by (simp add: dcache_ok_def dc' set_ok_def line_ok_def empty_line_def)
  show "clean_lines dc' g" using none by (simp add: clean_lines_def)
qed

section \<open>Where evicted lines go\<close>

text \<open>An evicted line is a full line at the base address of a cached one.\<close>

definition evicted_from :: "dcache \<Rightarrow> evicted_line \<Rightarrow> bool" where
  "evicted_from dc ev \<longleftrightarrow> length (ev_data ev) = 32 \<and> (\<exists>b. way_of dc b \<noteq> None \<and> ev_addr ev = line_of b)"

lemma evicted_from_victim:
  assumes ok: "dcache_ok dc" and s: "s < 64" and w: "w < 2" and ev: "evict_victim dc s w = Some ev"
  shows "evicted_from dc ev"
proof -
  have v: "line_valid (dc_line dc s w)" using ev by (auto simp: evict_victim_def split: if_splits)
  obtain x where x: "set_of x = s" "way_of dc x = Some w" by (rule line_has_address [OF ok s w v])
  have "evict_victim dc (set_of x) w = Some ev" using ev x by simp
  then show ?thesis
    using evict_victim_address [OF ok x(2)] x line_ok_dc_line [OF ok s w]
    by (auto simp: evicted_from_def line_ok_def)
qed

lemma fill_line_evicted:
  assumes ok: "dcache_ok dc" and miss: "way_of dc a = None" and len: "length data = 32"
    and fill: "fill_line a data dc = (Some ev, dc')"
  shows "evicted_from dc ev"
proof -
  obtain w dc1 where w: "w < 2" and "fill_line a data dc = (evict_victim dc (set_of a) w, dc1)"
    by (rule fill_line_miss [OF ok miss len])
  then show ?thesis using fill evicted_from_victim [OF ok set_of_less w] by auto
qed

lemma invalidate_line_evicted:
  assumes ok: "dcache_ok dc" and inv: "invalidate_line a dc = (Some ev, dc')"
  shows "evicted_from dc ev"
proof (cases "way_of dc a")
  case None
  then show ?thesis using inv by (simp add: invalidate_line_cases)
next
  case (Some w)
  then show ?thesis
    using inv evicted_from_victim [OF ok set_of_less way_of_less [OF Some]]
    by (auto simp: invalidate_line_cases(2) [OF Some] split: if_splits)
qed

lemma invalidate_all_evicted:
  assumes ok: "dcache_ok dc" and inv: "invalidate_all dc = (evs, dc')" and ev: "ev \<in> set evs"
  shows "evicted_from dc ev"
proof -
  obtain s w where s: "s < 64" and w: "w < 2" and "ev \<in> set (evict_if_dirty (dc_im dc) s (dc_line dc s w))"
    using inv ev by (auto simp: invalidate_all_def Let_def)
  then have "evict_victim dc s w = Some ev"
    by (auto simp: evict_if_dirty_def evict_victim_def split: if_splits)
  then show ?thesis by (rule evicted_from_victim [OF ok s w])
qed

lemma invalidate_line_drops:
  assumes "dcache_ok dc" and "way_of (snd (invalidate_line a dc)) b \<noteq> None"
  shows "way_of dc b \<noteq> None"
  using assms drop_line(2) [of dc a _ b]
  by (cases "way_of dc a") (auto simp: invalidate_line_cases split: if_splits)

section \<open>Properties\<close>

text \<open>An address splits into tag, set index and byte offset, and tag and set index rebuild the base
  address of its 32-byte line: the decomposition loses nothing.\<close>

theorem decompose_roundtrip:
  "case decompose a of (tag, s, offset) \<Rightarrow>
     s < 64 \<and> offset < 32 \<and> base_addr tag s + of_nat offset = a \<and> base_addr tag s = a AND NOT 0x1F"
proof -
  have "unat (line_of a) + off_of a = unat a"
    unfolding unat_line_of off_of_mod by simp
  then have "of_nat (unat (line_of a) + off_of a) = a" by simp
  then have "line_of a + of_nat (off_of a) = a" by simp
  then show ?thesis
    by (simp add: decompose_fields base_addr_line) (simp add: line_of_def)
qed

end
