(* ===== verification/ICache.thy ===== *)
theory ICache
  imports DCache
begin

text \<open>
  \<open>src/cache.rs\<close>, the instruction cache: 128 direct-mapped lines of 32 bytes. A fetch that misses
  fills the line; only IC_IVIC invalidates. Callers ask for a halfword or word that lies in one
  line, so the byte indices are in range.
\<close>

record icache_line =
  ic_valid :: bool
  ic_tag :: u32
  ic_data :: "u8 list"

definition ic_empty_line :: icache_line where
  "ic_empty_line = \<lparr>ic_valid = False, ic_tag = 0, ic_data = replicate 32 0\<rparr>"

record icache =
  ic_lines :: "icache_line list"
  ic_enabled :: bool

definition ic_new :: icache where
  "ic_new = \<lparr>ic_lines = replicate 128 ic_empty_line, ic_enabled = True\<rparr>"

definition ic_decompose :: "u32 \<Rightarrow> u32 \<times> nat \<times> nat" where
  "ic_decompose addr =
     (drop_bit (5 + 7) addr,
      unat (drop_bit 5 addr AND (push_bit 7 1 - 1)),
      unat (addr AND (push_bit 5 1 - 1)))"

definition ic_contains :: "icache \<Rightarrow> u32 \<Rightarrow> bool" where
  "ic_contains ic addr =
     (case ic_decompose addr of (tag, s, _) \<Rightarrow>
        ic_valid (ic_lines ic ! s) \<and> ic_tag (ic_lines ic ! s) = tag)"

definition peek_half :: "icache \<Rightarrow> u32 \<Rightarrow> u16 option" where
  "peek_half ic addr =
     (case ic_decompose addr of (tag, s, offset) \<Rightarrow>
        let line = ic_lines ic ! s
        in if ic_valid line \<and> ic_tag line = tag
           then Some (be_half (ic_data line ! offset) (ic_data line ! (offset + 1)))
           else None)"

definition peek_word :: "icache \<Rightarrow> u32 \<Rightarrow> u32 option" where
  "peek_word ic addr =
     (case ic_decompose addr of (tag, s, offset) \<Rightarrow>
        let line = ic_lines ic ! s
        in if ic_valid line \<and> ic_tag line = tag
           then Some (be_word (ic_data line ! offset) (ic_data line ! (offset + 1))
                        (ic_data line ! (offset + 2)) (ic_data line ! (offset + 3)))
           else None)"

definition ic_fill_line :: "u32 \<Rightarrow> u8 list \<Rightarrow> icache \<Rightarrow> icache" where
  "ic_fill_line addr data ic =
     (case ic_decompose addr of (tag, s, _) \<Rightarrow>
        ic\<lparr>ic_lines := (ic_lines ic)[s := \<lparr>ic_valid = True, ic_tag = tag, ic_data = data\<rparr>]\<rparr>)"

definition ic_invalidate_all :: "icache \<Rightarrow> icache" where
  "ic_invalidate_all ic = ic\<lparr>ic_lines := replicate 128 ic_empty_line\<rparr>"

text \<open>IC_IVIL has no effect on this part.\<close>

definition ic_invalidate_line :: "u32 \<Rightarrow> icache \<Rightarrow> icache" where
  "ic_invalidate_line addr ic = ic"

section \<open>Lines and addresses\<close>

definition ic_tag_of :: "u32 \<Rightarrow> u32" where "ic_tag_of a = fst (ic_decompose a)"
definition ic_set_of :: "u32 \<Rightarrow> nat" where "ic_set_of a = fst (snd (ic_decompose a))"

lemma ic_decompose_fields: "ic_decompose a = (ic_tag_of a, ic_set_of a, off_of a)"
  by (simp add: ic_tag_of_def ic_set_of_def off_of_def ic_decompose_def decompose_def)

lemma ic_set_of_div: "ic_set_of a = unat a div 32 mod 128"
proof -
  have "ic_set_of a = unat (drop_bit 5 a) mod 2 ^ 7"
    using unat_and_mask [of "drop_bit 5 a" 7]
    by (simp add: ic_set_of_def ic_decompose_def mask_eq_exp_minus_1)
  then show ?thesis by (simp only: unat_drop_bit_div) simp
qed

lemma ic_set_of_less [simp]: "ic_set_of a < 128"
  by (simp add: ic_set_of_div)

lemma ic_tag_of_div: "unat (ic_tag_of a) = unat a div 32 div 128"
  using unat_drop_bit_div [of 12 a] by (simp add: ic_tag_of_def ic_decompose_def flip: div_mult2_eq)

lemma ic_line_of_eq_iff:
  "ic_tag_of a = ic_tag_of b \<and> ic_set_of a = ic_set_of b \<longleftrightarrow> line_of a = line_of b"
proof -
  have "ic_tag_of a = ic_tag_of b \<longleftrightarrow> unat a div 32 div 128 = unat b div 32 div 128"
    by (simp add: word_unat_eq_iff ic_tag_of_div)
  moreover have "x div 128 = y div 128 \<and> x mod 128 = y mod 128 \<longleftrightarrow> x = y" for x y :: nat
    by (metis div_mult_mod_eq)
  ultimately show ?thesis
    by (simp add: ic_set_of_div word_unat_eq_iff unat_line_of)
qed

definition icache_ok :: "icache \<Rightarrow> bool" where
  "icache_ok ic \<longleftrightarrow> length (ic_lines ic) = 128 \<and> (\<forall>l \<in> set (ic_lines ic). length (ic_data l) = 32)"

text \<open>Every valid line holds what the store \<open>f\<close> holds at its address.\<close>

definition ic_coherent :: "icache \<Rightarrow> (u32 \<Rightarrow> u8) \<Rightarrow> bool" where
  "ic_coherent ic f \<longleftrightarrow>
     (\<forall>a. ic_contains ic a \<longrightarrow> ic_data (ic_lines ic ! ic_set_of a) ! off_of a = f a)"

lemma ic_contains_fields:
  "ic_contains ic a \<longleftrightarrow> ic_valid (ic_lines ic ! ic_set_of a) \<and> ic_tag (ic_lines ic ! ic_set_of a) = ic_tag_of a"
  by (simp add: ic_contains_def ic_decompose_fields)

lemma ic_contains_same_line: "line_of a = line_of b \<Longrightarrow> ic_contains ic a = ic_contains ic b"
  using ic_line_of_eq_iff [of a b] by (simp add: ic_contains_fields)

lemma icache_ok_new: "icache_ok ic_new"
  by (simp add: icache_ok_def ic_new_def ic_empty_line_def)

lemma icache_ok_fill: "icache_ok ic \<Longrightarrow> length data = 32 \<Longrightarrow> icache_ok (ic_fill_line a data ic)"
  by (auto simp: icache_ok_def ic_fill_line_def ic_decompose_fields dest!: set_update_subset_insert [THEN subsetD])

lemma ic_contains_fill:
  assumes "icache_ok ic"
  shows "ic_contains (ic_fill_line a data ic) b \<longleftrightarrow>
    (if ic_set_of b = ic_set_of a then line_of b = line_of a else ic_contains ic b)"
  using assms ic_line_of_eq_iff [of b a]
  by (auto simp: ic_contains_fields ic_fill_line_def ic_decompose_fields icache_ok_def nth_list_update)

lemma ic_data_fill:
  assumes "icache_ok ic" and "ic_set_of b = ic_set_of a"
  shows "ic_data (ic_lines (ic_fill_line a data ic) ! ic_set_of b) = data"
  using assms by (simp add: ic_fill_line_def ic_decompose_fields icache_ok_def)

lemma ic_data_fill_other:
  assumes "ic_set_of b \<noteq> ic_set_of a"
  shows "ic_lines (ic_fill_line a data ic) ! ic_set_of b = ic_lines ic ! ic_set_of b"
  using assms by (simp add: ic_fill_line_def ic_decompose_fields)

lemma ic_coherent_fill:
  assumes ok: "icache_ok ic" and co: "ic_coherent ic f"
    and data: "\<And>b. line_of b = line_of a \<Longrightarrow> data ! off_of b = f b"
  shows "ic_coherent (ic_fill_line a data ic) f"
  unfolding ic_coherent_def
proof (intro allI impI)
  fix b assume hit: "ic_contains (ic_fill_line a data ic) b"
  show "ic_data (ic_lines (ic_fill_line a data ic) ! ic_set_of b) ! off_of b = f b"
  proof (cases "ic_set_of b = ic_set_of a")
    case True
    with hit data show ?thesis using ic_data_fill [OF ok True] by (simp add: ic_contains_fill [OF ok])
  next
    case False
    with hit co show ?thesis
      by (simp add: ic_contains_fill [OF ok] ic_data_fill_other ic_coherent_def)
  qed
qed

lemma ic_coherent_invalidate: "ic_coherent (ic_invalidate_all ic) f"
  by (simp add: ic_coherent_def ic_invalidate_all_def ic_contains_fields ic_empty_line_def)

lemma icache_ok_invalidate: "icache_ok (ic_invalidate_all ic)"
  by (simp add: icache_ok_def ic_invalidate_all_def ic_empty_line_def)

lemma ic_coherent_new: "ic_coherent ic_new f"
  by (simp add: ic_coherent_def ic_new_def ic_contains_fields ic_empty_line_def)

end
