(* ===== verification/Nco.thy ===== *)
theory Nco
  imports Machine_Monad
begin

text \<open>
  \<open>src/soc/nco.rs\<close>: the sixteen-channel oscillator table, which the chip aliases over the ARC
  interrupt vectors. Uncached stores below 0x80 land here, and the interrupt unit takes the target
  of \<open>j @limm\<close> from a channel that holds one. The trace output is left out.
\<close>

abbreviation (input) "NCO_CHANNELS \<equiv> (16 :: nat)"
abbreviation (input) "NCO_SLOT_BYTES \<equiv> (8 :: u32)"
abbreviation (input) "NCO_IVT_LIMIT \<equiv> (0x80 :: u32)"
abbreviation (input) "NCO_J_LIMM_OPCODE \<equiv> (0x20200F80 :: u32)"
abbreviation (input) "REG_NCO_TX_MODE \<equiv> (0x01000F80 :: u32)"

record nco_slot =
  slot_raw :: "u8 list"
  slot_written :: bool

definition nco_slot_empty :: nco_slot where
  "nco_slot_empty = \<lparr>slot_raw = replicate 8 0, slot_written = False\<rparr>"

definition slot_config :: "nco_slot \<Rightarrow> u16" where
  "slot_config s = be_half (slot_raw s ! 0) (slot_raw s ! 1)"

definition slot_target :: "nco_slot \<Rightarrow> u32" where
  "slot_target s = be_word (slot_raw s ! 4) (slot_raw s ! 5) (slot_raw s ! 6) (slot_raw s ! 7)"

definition is_installed_vector :: "nco_slot \<Rightarrow> bool" where
  "is_installed_vector s \<longleftrightarrow>
     slot_written s
     \<and> push_bit 16 (ucast (slot_config s)) OR
         (push_bit 8 (ucast (slot_raw s ! 2)) OR ucast (slot_raw s ! 3)) = NCO_J_LIMM_OPCODE"

record nco =
  nco_tx_mode :: u32
  nco_slots :: "nco_slot list"

definition nco_new :: nco where
  "nco_new = \<lparr>nco_tx_mode = 0, nco_slots = replicate 16 nco_slot_empty\<rparr>"

definition nco_claims :: "u32 \<Rightarrow> bool" where
  "nco_claims addr \<longleftrightarrow> REG_NCO_TX_MODE \<le> addr \<and> addr < REG_NCO_TX_MODE + 4"

definition in_ivt_aperture :: "u32 \<Rightarrow> bool" where
  "in_ivt_aperture addr \<longleftrightarrow> addr < NCO_IVT_LIMIT"

text \<open>Bytes stored one after the other from an offset; what falls past the slot is dropped.\<close>

fun store_bytes :: "nat \<Rightarrow> u8 list \<Rightarrow> u8 list \<Rightarrow> u8 list" where
  "store_bytes off [] raw = raw"
| "store_bytes off (b # bs) raw =
     store_bytes (off + 1) bs (if off < 8 then raw[off := b] else raw)"

definition ivt_di_store :: "u32 \<Rightarrow> u32 \<Rightarrow> u8 \<Rightarrow> nco \<Rightarrow> nco" where
  "ivt_di_store addr val width n =
     (let chan = unat (addr div NCO_SLOT_BYTES)
      in if chan \<ge> NCO_CHANNELS then n
         else
           let off = unat (addr mod NCO_SLOT_BYTES);
               slot = nco_slots n ! chan;
               bytes = (if width = 1 then [byte_of 0 val]
                        else if width = 2 then [byte_of 1 val, byte_of 0 val]
                        else [byte_of 3 val, byte_of 2 val, byte_of 1 val, byte_of 0 val])
           in n\<lparr>nco_slots := (nco_slots n)[chan :=
                  \<lparr>slot_raw = store_bytes off bytes (slot_raw slot), slot_written = True\<rparr>]\<rparr>)"

fun ivt_bytes :: "nco \<Rightarrow> u32 \<Rightarrow> nat \<Rightarrow> u8 list option" where
  "ivt_bytes n a 0 = Some []"
| "ivt_bytes n a (Suc count) =
     (let c = unat (a div NCO_SLOT_BYTES); o' = unat (a mod NCO_SLOT_BYTES)
      in if c \<ge> NCO_CHANNELS \<or> \<not> slot_written (nco_slots n ! c) then None
         else map_option (\<lambda>bs. slot_raw (nco_slots n ! c) ! o' # bs) (ivt_bytes n (a + 1) count))"

definition ivt_read :: "u32 \<Rightarrow> nat \<Rightarrow> nco \<Rightarrow> u8 list option" where
  "ivt_read addr count n =
     (let chan = unat (addr div NCO_SLOT_BYTES)
      in if chan \<ge> NCO_CHANNELS \<or> \<not> slot_written (nco_slots n ! chan) then None
         else ivt_bytes n addr count)"

definition interrupt_vector :: "u8 \<Rightarrow> nco \<Rightarrow> u32 option" where
  "interrupt_vector i n =
     (if unat i < length (nco_slots n) then
        let s = nco_slots n ! unat i
        in if is_installed_vector s then Some (slot_target s) else None
      else None)"

definition nco_read_word :: "u32 \<Rightarrow> nco \<Rightarrow> u32" where
  "nco_read_word addr n = nco_tx_mode n"

definition nco_write_word :: "u32 \<Rightarrow> u32 \<Rightarrow> nco \<Rightarrow> nco" where
  "nco_write_word addr val n = n\<lparr>nco_tx_mode := val\<rparr>"

definition nco_reset_cold :: "nco \<Rightarrow> nco" where
  "nco_reset_cold n = n\<lparr>nco_tx_mode := 0, nco_slots := replicate 16 nco_slot_empty\<rparr>"

section \<open>The shape of the table\<close>

definition nco_ok :: "nco \<Rightarrow> bool" where
  "nco_ok n \<longleftrightarrow> length (nco_slots n) = 16 \<and> (\<forall>s \<in> set (nco_slots n). length (slot_raw s) = 8)"

lemma length_store_bytes [simp]: "length (store_bytes off bs raw) = length raw"
  by (induction bs arbitrary: off raw) simp_all

lemma nco_ok_new: "nco_ok nco_new"
  and nco_ok_reset: "nco_ok (nco_reset_cold n)"
  by (simp_all add: nco_ok_def nco_new_def nco_reset_cold_def nco_slot_empty_def)

lemma nco_ok_ivt_di_store: "nco_ok n \<Longrightarrow> nco_ok (ivt_di_store a v w n)"
  by (auto simp: nco_ok_def ivt_di_store_def Let_def dest!: set_update_subset_insert [THEN subsetD])

lemma nco_slot_raw: "nco_ok n \<Longrightarrow> c < 16 \<Longrightarrow> length (slot_raw (nco_slots n ! c)) = 8"
  by (simp add: nco_ok_def)

section \<open>Installing a vector\<close>

lemma slot_address:
  assumes "c < 16" and "k < 8"
  shows "unat ((of_nat (8 * c + k) :: u32) div 8) = c" and "unat ((of_nat (8 * c + k) :: u32) mod 8) = k"
proof -
  define a where "a = (of_nat (8 * c + k) :: u32)"
  have "8 * c + k < 2 ^ LENGTH(32)" using assms by simp
  then have a: "unat a = 8 * c + k" by (intro of_nat_inverse) (simp_all only: a_def)
  have "unat (a div 8) = unat a div 8" "unat (a mod 8) = unat a mod 8"
    by (simp_all add: unat_div_distrib unat_mod_distrib)
  then show "unat ((of_nat (8 * c + k) :: u32) div 8) = c" "unat ((of_nat (8 * c + k) :: u32) mod 8) = k"
    using assms(2) unfolding a_def [symmetric] a by simp_all
qed

lemma ivt_word_store:
  assumes "c < 16" and "k < 8"
  shows "ivt_di_store (of_nat (8 * c + k)) v 4 n =
    n\<lparr>nco_slots := (nco_slots n)[c :=
       \<lparr>slot_raw = store_bytes k [byte_of 3 v, byte_of 2 v, byte_of 1 v, byte_of 0 v] (slot_raw (nco_slots n ! c)),
        slot_written = True\<rparr>]\<rparr>"
  using assms slot_address [OF assms] by (simp add: ivt_di_store_def Let_def)

lemma be_word_halves:
  "push_bit 16 (ucast (be_half a b)) OR (push_bit 8 (ucast c) OR ucast d) = be_word a b c d"
  by (rule bit_word_eqI) (auto simp: be_half_def be_word_def bit_simps)

text \<open>Installing an interrupt vector: the two uncached word stores of \<open>j @target\<close> into a channel
  make exactly that channel an interrupt vector with that target; every other channel, installed or not,
  answers as before, and the table keeps its shape.\<close>

theorem install_vector:
  assumes ok: "nco_ok n" and c: "c < 16"
  shows "let n1 = ivt_di_store (of_nat (8 * c + 4)) target 4 n;
             n2 = ivt_di_store (of_nat (8 * c)) 0x20200F80 4 n1
         in interrupt_vector (of_nat c) n2 = Some target
            \<and> (\<forall>i. interrupt_vector i n2 = (if unat i = c then Some target else interrupt_vector i n))
            \<and> nco_ok n2"
proof -
  define n1 where "n1 = ivt_di_store (of_nat (8 * c + 4)) target 4 n"
  define n2 where "n2 = ivt_di_store (of_nat (8 * c)) 0x20200F80 4 n1"
  let ?raw = "slot_raw (nco_slots n ! c)"
  have len: "length ?raw = 8" using ok c by (rule nco_slot_raw)
  have "c < 2 ^ LENGTH(8)" using c by simp
  then have uc: "unat (of_nat c :: u8) = c" by (rule of_nat_inverse [OF refl])
  have n1: "n1 = n\<lparr>nco_slots := (nco_slots n)[c := \<lparr>slot_raw = store_bytes 4 [byte_of 3 target,
      byte_of 2 target, byte_of 1 target, byte_of 0 target] ?raw, slot_written = True\<rparr>]\<rparr>"
    unfolding n1_def using c by (intro ivt_word_store) simp_all
  have slots: "length (nco_slots n) = 16" using ok by (simp add: nco_ok_def)
  define s where "s = \<lparr>slot_raw = store_bytes 0 [0x20, 0x20, 0x0F, 0x80] (slot_raw (nco_slots n1 ! c)),
      slot_written = True\<rparr>"
  have bytes: "byte_of 3 (0x20200F80 :: u32) = 0x20" "byte_of 2 (0x20200F80 :: u32) = 0x20"
    "byte_of 1 (0x20200F80 :: u32) = 0x0F" "byte_of 0 (0x20200F80 :: u32) = 0x80"
    by (simp_all add: byte_of_def)
  have n2: "n2 = n1\<lparr>nco_slots := (nco_slots n1)[c := s]\<rparr>"
    using ivt_word_store [of c 0 "0x20200F80" n1] c
    unfolding n2_def s_def bytes by simp
  have raw: "slot_raw s ! 0 = 0x20" "slot_raw s ! 1 = 0x20" "slot_raw s ! 2 = 0x0F" "slot_raw s ! 3 = 0x80"
    "slot_raw s ! 4 = byte_of 3 target" "slot_raw s ! 5 = byte_of 2 target"
    "slot_raw s ! 6 = byte_of 1 target" "slot_raw s ! 7 = byte_of 0 target"
    using len c slots by (simp_all add: s_def n1 nth_list_update)
  have "is_installed_vector s"
    unfolding is_installed_vector_def slot_config_def be_word_halves raw by (simp add: s_def be_word_def)
  moreover have "slot_target s = target" unfolding slot_target_def raw by simp
  ultimately have all: "interrupt_vector i n2 = (if unat i = c then Some target else interrupt_vector i n)" for i
    using c slots by (auto simp: interrupt_vector_def n2 n1 Let_def)
  moreover have "interrupt_vector (of_nat c) n2 = Some target" unfolding all uc by simp
  moreover have "nco_ok n2"
    unfolding n2_def n1_def by (intro nco_ok_ivt_di_store ok)
  ultimately show ?thesis unfolding Let_def n1_def [symmetric] n2_def [symmetric] by blast
qed

theorem install_vector_witness:
  "interrupt_vector 3 (ivt_di_store 24 0x20200F80 4 (ivt_di_store 28 0x150 4 nco_new)) = Some 0x150"
  using install_vector [OF nco_ok_new, of 3 "0x150"] by (simp add: Let_def)

end
