(* ===== verification/Bank.thy ===== *)
theory Bank
  imports Nco
begin

text \<open>
  \<open>src/soc/bank.rs\<close> and \<open>src/soc/peripheral.rs\<close> as the processor and the memory see them: the
  oscillator table, the interrupt mask, the context of the current instruction and the ring of AUX
  writes are fields of the bank; the devices behind its address dispatch are the component
  \<open>bank_rest\<close> of an arbitrary type, reached only through the record \<open>device_ops\<close>.
  Every definition that reaches a device takes that record as an argument, so what is proved holds
  for every bank of devices.
\<close>

datatype peripheral_id = Pbc

datatype datapath_op =
    SramWrite u32 "u8 list"
  | CacheInvalidate u32
  | FlashWrite peripheral_id u32 u32 nat

record aux_write_entry =
  awe_insn :: u64
  awe_pc :: u32
  awe_num :: u32
  awe_value :: u32

record 'p bank =
  bank_nco :: nco
  bank_irq_pending :: u32
  bank_current_pc :: u32
  bank_current_blink :: u32
  bank_current_insn :: u64
  bank_current_di :: bool
  bank_aux_history :: "aux_write_entry list"
  bank_aux_history_max :: nat
  bank_rest :: 'p

text \<open>The methods of the bank that lead to a device. \<open>dev_uart_irq\<close> is \<open>uart.irq_pending() != 0\<close>;
  \<open>dev_flash\<close> is the flash image of the boot controller.\<close>

record 'p device_ops =
  dev_read_byte :: "u32 \<Rightarrow> ('p bank, u8) op"
  dev_read_half :: "u32 \<Rightarrow> ('p bank, u16) op"
  dev_read_word :: "u32 \<Rightarrow> ('p bank, u32) op"
  dev_write_byte :: "u32 \<Rightarrow> u8 \<Rightarrow> ('p bank, unit) op"
  dev_write_half :: "u32 \<Rightarrow> u16 \<Rightarrow> ('p bank, unit) op"
  dev_write_word :: "u32 \<Rightarrow> u32 \<Rightarrow> ('p bank, unit) op"
  dev_take_datapath :: "'p bank \<Rightarrow> datapath_op list \<times> 'p bank"
  dev_complete_flash :: "peripheral_id \<Rightarrow> u32 \<Rightarrow> u8 list \<Rightarrow> 'p bank \<Rightarrow> 'p bank"
  dev_sysreg_context :: "u32 \<Rightarrow> u64 \<Rightarrow> 'p \<Rightarrow> 'p"
  dev_tick :: "u64 \<Rightarrow> 'p bank \<Rightarrow> 'p bank"
  dev_uart_irq :: "'p bank \<Rightarrow> bool"
  dev_flash :: "'p bank \<Rightarrow> u8 list"
  dev_reset_cold :: "'p bank \<Rightarrow> 'p bank"
  dev_reset_warm :: "'p bank \<Rightarrow> 'p bank"
  dev_pause_requested :: "'p bank \<Rightarrow> bool \<times> 'p bank"

definition update_cpu_context :: "'p device_ops \<Rightarrow> u32 \<Rightarrow> u32 \<Rightarrow> u64 \<Rightarrow> 'p bank \<Rightarrow> 'p bank" where
  "update_cpu_context D pc blink insn b =
     b\<lparr>bank_current_pc := pc, bank_current_blink := blink, bank_current_insn := insn,
       bank_current_di := False, bank_rest := dev_sysreg_context D pc insn (bank_rest b)\<rparr>"

text \<open>The ring drops its oldest entry when it is full; size 0 switches it off.\<close>

definition record_aux_write :: "u32 \<Rightarrow> u32 \<Rightarrow> 'p bank \<Rightarrow> 'p bank" where
  "record_aux_write aux_num value b =
     (if bank_aux_history_max b = 0 then b
      else
        let h = (if length (bank_aux_history b) \<ge> bank_aux_history_max b
                 then drop 1 (bank_aux_history b) else bank_aux_history b)
        in b\<lparr>bank_aux_history := h @ [\<lparr>awe_insn = bank_current_insn b, awe_pc = bank_current_pc b,
                                        awe_num = aux_num, awe_value = value\<rparr>]\<rparr>)"

text \<open>The ring of AUX writes never grows past its size, and the write just made is its last entry.\<close>

lemma aux_ring_bounded:
  assumes "length (bank_aux_history b) \<le> bank_aux_history_max b" and "bank_aux_history_max b \<noteq> 0"
  shows "length (bank_aux_history (record_aux_write num val b)) \<le> bank_aux_history_max b
    \<and> last (bank_aux_history (record_aux_write num val b))
        = \<lparr>awe_insn = bank_current_insn b, awe_pc = bank_current_pc b, awe_num = num, awe_value = val\<rparr>
    \<and> (\<forall>e \<in> set (bank_aux_history (record_aux_write num val b)).
         e \<in> set (bank_aux_history b) \<or> awe_num e = num \<and> awe_value e = val)"
  using assms by (auto simp: record_aux_write_def Let_def dest: in_set_dropD)

section \<open>A bank without devices\<close>

text \<open>A bank whose devices read as zero.\<close>

definition zero_devices :: "unit device_ops" where
  "zero_devices =
     \<lparr>dev_read_byte = \<lambda>_. returnM 0, dev_read_half = \<lambda>_. returnM 0, dev_read_word = \<lambda>_. returnM 0,
      dev_write_byte = \<lambda>_ _. returnM (), dev_write_half = \<lambda>_ _. returnM (),
      dev_write_word = \<lambda>_ _. returnM (), dev_take_datapath = \<lambda>b. ([], b),
      dev_complete_flash = \<lambda>_ _ _ b. b, dev_sysreg_context = \<lambda>_ _ u. u, dev_tick = \<lambda>_ b. b,
      dev_uart_irq = \<lambda>_. False, dev_flash = \<lambda>_. [], dev_reset_cold = \<lambda>b. b, dev_reset_warm = \<lambda>b. b,
      dev_pause_requested = \<lambda>b. (False, b)\<rparr>"

definition zero_bank :: "unit bank" where
  "zero_bank = \<lparr>bank_nco = nco_new, bank_irq_pending = 0, bank_current_pc = 0, bank_current_blink = 0,
                bank_current_insn = 0, bank_current_di = False, bank_aux_history = [],
                bank_aux_history_max = 0, bank_rest = ()\<rparr>"

end
