(* ===== verification/Memory.thy ===== *)
theory Memory
  imports Decoder ICache Bank Watchpoints
begin

text \<open>
  \<open>src/memory.rs\<close>: the unified SRAM, its routing to the peripheral bank, the data port with the
  write-back data cache, the fetch port with the instruction cache, DMA, and the watchpoints. A
  \<open>&self\<close> method that touches an interior cell (the bank, the instruction cache, the last
  watchpoint hit) is an operation on the whole memory. Offsets into SRAM are naturals (\<open>usize\<close>).
  The debug watchpoint that only prints is left out.
\<close>

section \<open>Logs\<close>

record misaligned_hit =
  mh_pc :: u32
  mh_addr :: u32
  mh_ea :: u32
  mh_width :: u8
  mh_is_write :: bool

record misaligned_log =
  ml_count :: u64
  ml_hits :: "misaligned_hit list"

abbreviation (input) "MISALIGNED_LOG_CAP \<equiv> (64 :: nat)"

record read_trace =
  rt_lo :: u32
  rt_hi :: u32
  rt_hits :: "(u32 \<times> u8 \<times> u32) list"

section \<open>The memory\<close>

record 'p memory =
  m_data :: "u8 list"
  m_bank :: "'p bank option"
  m_dccm_base :: u32
  m_dcache :: "dcache option"
  m_icache :: "icache option"
  m_unmapped_exception :: bool
  m_watchpoints :: watchpoint_table
  m_read_trace :: "read_trace option"
  m_misaligned :: misaligned_log

definition memory_new :: "nat \<Rightarrow> 'p memory" where
  "memory_new n = \<lparr>m_data = replicate n 0, m_bank = None, m_dccm_base = 0, m_dcache = None,
                   m_icache = None, m_unmapped_exception = False, m_watchpoints = watch_table_new,
                   m_read_trace = None, m_misaligned = \<lparr>ml_count = 0, ml_hits = []\<rparr>\<rparr>"

text \<open>\<open>new_soc\<close>, with the initial SRAM image (chosen by an environment variable) and the new bank
  as arguments\<close>

definition memory_new_soc :: "u8 list \<Rightarrow> 'p bank \<Rightarrow> 'p memory" where
  "memory_new_soc img b = \<lparr>m_data = img, m_bank = Some b, m_dccm_base = 0, m_dcache = Some dc_new,
                   m_icache = Some ic_new, m_unmapped_exception = False,
                   m_watchpoints = watch_table_new, m_read_trace = None,
                   m_misaligned = \<lparr>ml_count = 0, ml_hits = []\<rparr>\<rparr>"

text \<open>\<open>assert!\<close> fails when the blob does not fit\<close>

definition load_binary :: "u32 \<Rightarrow> u8 list \<Rightarrow> ('p memory, unit) op" where
  "load_binary addr binary m =
     (let start = unat addr
      in if start + length binary \<le> length (m_data m)
         then (Inr (), m\<lparr>m_data := splice start binary (m_data m)\<rparr>)
         else (Inl Panic, m))"

definition restore_sram :: "u8 list \<Rightarrow> 'p memory \<Rightarrow> 'p memory" where
  "restore_sram d m =
     (let len = min (length d) (length (m_data m))
      in m\<lparr>m_data := splice 0 (take len d) (m_data m)\<rparr>)"

definition sram_slice :: "u32 \<Rightarrow> u32 \<Rightarrow> 'p memory \<Rightarrow> u8 list option" where
  "sram_slice start len m =
     (let s = unat start; e = s + unat len
      in if e > length (m_data m) then None else Some (take (e - s) (drop s (m_data m))))"

definition check_bounds :: "u32 \<Rightarrow> u32 \<Rightarrow> 'p memory \<Rightarrow> unit result" where
  "check_bounds addr width m =
     (if unat addr + unat width > length (m_data m) then Inl (Exn (MemoryError addr False)) else Inr ())"

definition sram_offset :: "'p memory \<Rightarrow> u32 \<Rightarrow> nat option" where
  "sram_offset m addr =
     (if m_dccm_base m \<le> addr
      then let off = unat (addr - m_dccm_base m)
           in if off < length (m_data m) then Some off else None
      else None)"

text \<open>\<open>if let Some(ref bank) = self.bank { return f(bank) } d\<close>\<close>

definition with_bank :: "('p memory, 'a) op \<Rightarrow> ('p bank, 'a) op \<Rightarrow> ('p memory, 'a) op" where
  "with_bank d f m =
     (case m_bank m of
        None \<Rightarrow> d m
      | Some b \<Rightarrow> (case f b of (r, b') \<Rightarrow> (r, m\<lparr>m_bank := Some b'\<rparr>)))"

definition bank_modify :: "('p bank \<Rightarrow> 'p bank) \<Rightarrow> 'p memory \<Rightarrow> 'p memory" where
  "bank_modify f m = m\<lparr>m_bank := map_option f (m_bank m)\<rparr>"

text \<open>\<open>if !self.watchpoints.is_empty() { self.watchpoints.check(..) }\<close>\<close>

definition check_watch :: "u32 \<Rightarrow> u32 \<Rightarrow> watch_mode \<Rightarrow> 'p memory \<Rightarrow> 'p memory" where
  "check_watch addr width access m =
     (if wpt_entries (m_watchpoints m) \<noteq> []
      then m\<lparr>m_watchpoints := snd (watch_check addr width access (m_watchpoints m))\<rparr> else m)"

text \<open>The big-endian reads and writes of the SRAM array\<close>

definition half_at :: "u8 list \<Rightarrow> nat \<Rightarrow> u16" where
  "half_at d off = be_half (d ! off) (d ! (off + 1))"

definition word_at :: "u8 list \<Rightarrow> nat \<Rightarrow> u32" where
  "word_at d off = be_word (d ! off) (d ! (off + 1)) (d ! (off + 2)) (d ! (off + 3))"

definition put_half :: "nat \<Rightarrow> u16 \<Rightarrow> u8 list \<Rightarrow> u8 list" where
  "put_half off v d = d[off := byte_of 1 v, off + 1 := byte_of 0 v]"

definition put_word :: "nat \<Rightarrow> u32 \<Rightarrow> u8 list \<Rightarrow> u8 list" where
  "put_word off v d =
     d[off := byte_of 3 v, off + 1 := byte_of 2 v, off + 2 := byte_of 1 v, off + 3 := byte_of 0 v]"

section \<open>The backing store\<close>

definition read_byte_backing :: "'p device_ops \<Rightarrow> u32 \<Rightarrow> ('p memory, u8) op" where
  "read_byte_backing D addr m =
     (if m_bank m \<noteq> None then
        (case sram_offset m addr of
           Some off \<Rightarrow> (Inr (m_data m ! off), m)
         | None \<Rightarrow> with_bank (returnM 0) (dev_read_byte D addr) m)
      else
        (case check_bounds addr 1 m of
           Inl e \<Rightarrow> (Inl e, m)
         | Inr _ \<Rightarrow> (Inr (m_data m ! unat addr), m)))"

definition read_line_from_backing :: "'p device_ops \<Rightarrow> u32 \<Rightarrow> ('p memory, u8 list) op" where
  "read_line_from_backing D line_addr m =
     (case sram_offset m line_addr of
        Some off \<Rightarrow>
          (let e = min (off + 32) (length (m_data m)); count = e - off
           in (Inr (take count (drop off (m_data m)) @ replicate (32 - count) 0), m))
      | None \<Rightarrow>
          with_bank (returnM (replicate 32 0))
            (fold (\<lambda>i acc. bindM acc (\<lambda>bs. bindM (dev_read_byte D (line_addr + of_nat i))
                             (\<lambda>b. returnM (bs @ [b])))) [0..<32] (returnM [])) m)"

definition writeback_line :: "'p device_ops \<Rightarrow> u32 \<Rightarrow> u8 list \<Rightarrow> ('p memory, unit) op" where
  "writeback_line D line_addr d m =
     (case sram_offset m line_addr of
        Some off \<Rightarrow>
          (let e = min (off + 32) (length (m_data m)); count = e - off
           in (Inr (), m\<lparr>m_data := splice off (take count d) (m_data m)\<rparr>))
      | None \<Rightarrow>
          with_bank (returnM ())
            (fold (\<lambda>i acc. thenM acc (dev_write_byte D (line_addr + of_nat i) (d ! i)))
               [0..<32] (returnM ())) m)"

section \<open>The observers\<close>

text \<open>They look through the data cache without filling it and do not align the address.\<close>

definition read_byte :: "'p device_ops \<Rightarrow> u32 \<Rightarrow> ('p memory, u8) op" where
  "read_byte D addr m0 =
     (let m = check_watch addr 1 WatchRead m0
      in if m_bank m \<noteq> None then
           (case Option.bind (m_dcache m) (\<lambda>dc. peek_byte dc addr) of
              Some val \<Rightarrow> (Inr val, m)
            | None \<Rightarrow>
                (case sram_offset m addr of
                   Some off \<Rightarrow> (Inr (m_data m ! off), m)
                 | None \<Rightarrow> with_bank (returnM 0) (dev_read_byte D addr) m))
         else
           (case check_bounds addr 1 m of
              Inl e \<Rightarrow> (Inl e, m)
            | Inr _ \<Rightarrow> (Inr (m_data m ! unat addr), m)))"

definition peek_cached_half :: "'p memory \<Rightarrow> u32 \<Rightarrow> u16 option" where
  "peek_cached_half m addr =
     (case m_dcache m of
        None \<Rightarrow> None
      | Some dc \<Rightarrow>
          (case (peek_byte dc addr, peek_byte dc (addr + 1)) of
             (Some hi, Some lo) \<Rightarrow> Some (be_half hi lo)
           | _ \<Rightarrow> None))"

definition peek_cached_word :: "'p memory \<Rightarrow> u32 \<Rightarrow> u32 option" where
  "peek_cached_word m addr =
     (case m_dcache m of
        None \<Rightarrow> None
      | Some dc \<Rightarrow>
          (case (peek_byte dc addr, peek_byte dc (addr + 1), peek_byte dc (addr + 2), peek_byte dc (addr + 3)) of
             (Some b0, Some b1, Some b2, Some b3) \<Rightarrow> Some (be_word b0 b1 b2 b3)
           | _ \<Rightarrow> None))"

definition read_half :: "'p device_ops \<Rightarrow> u32 \<Rightarrow> ('p memory, u16) op" where
  "read_half D addr m0 =
     (let m = check_watch addr 2 WatchRead m0
      in case peek_cached_half m addr of
           Some v \<Rightarrow> (Inr v, m)
         | None \<Rightarrow>
             if m_bank m \<noteq> None then
               (case sram_offset m addr of
                  Some off \<Rightarrow>
                    if off + 1 < length (m_data m) then (Inr (half_at (m_data m) off), m)
                    else if addr AND 1 \<noteq> 0 then (Inr 0, m)
                    else with_bank (returnM 0) (dev_read_half D addr) m
                | None \<Rightarrow>
                    if addr AND 1 \<noteq> 0 then (Inr 0, m)
                    else with_bank (returnM 0) (dev_read_half D addr) m)
             else if addr AND 1 \<noteq> 0 then (Inl (Exn (MisalignedAccess addr)), m)
             else
               (case check_bounds addr 2 m of
                  Inl e \<Rightarrow> (Inl e, m)
                | Inr _ \<Rightarrow> (Inr (half_at (m_data m) (unat addr)), m)))"

definition read_word :: "'p device_ops \<Rightarrow> u32 \<Rightarrow> ('p memory, u32) op" where
  "read_word D addr m0 =
     (let m = check_watch addr 4 WatchRead m0
      in case peek_cached_word m addr of
           Some v \<Rightarrow> (Inr v, m)
         | None \<Rightarrow>
             if m_bank m \<noteq> None then
               (case Option.bind (sram_offset m addr)
                       (\<lambda>off. if off + 3 < length (m_data m) then Some off else None) of
                  Some off \<Rightarrow> (Inr (word_at (m_data m) off), m)
                | None \<Rightarrow>
                    if addr AND 3 \<noteq> 0 then (Inr 0, m)
                    else with_bank (returnM 0) (dev_read_word D addr) m)
             else if addr AND 3 \<noteq> 0 then (Inl (Exn (MisalignedAccess addr)), m)
             else
               (case check_bounds addr 4 m of
                  Inl e \<Rightarrow> (Inl e, m)
                | Inr _ \<Rightarrow> (Inr (word_at (m_data m) (unat addr)), m)))"

section \<open>DMA\<close>

text \<open>The lines the loop \<open>while addr <= last { ..; addr += 32 }\<close> visits. The range ends inside
  SRAM, so the loop ends before the counter wraps as long as SRAM stays below 4 GiB minus a line.\<close>

definition dma_lines :: "u32 \<Rightarrow> nat \<Rightarrow> u32 list" where
  "dma_lines sram_addr len =
     (let first = sram_addr AND NOT 0x1F;
          past = sram_addr + of_nat len;
          last_byte = (if past = 0 then 0 else past - 1);
          last_line = last_byte AND NOT 0x1F
      in if last_line < first then []
         else map (\<lambda>i. first + 32 * of_nat i) [0..<unat (last_line - first) div 32 + 1])"

definition dcache_modify :: "(dcache \<Rightarrow> dcache) \<Rightarrow> 'p memory \<Rightarrow> 'p memory" where
  "dcache_modify f m = m\<lparr>m_dcache := map_option f (m_dcache m)\<rparr>"

definition icache_modify :: "(icache \<Rightarrow> icache) \<Rightarrow> 'p memory \<Rightarrow> 'p memory" where
  "icache_modify f m = m\<lparr>m_icache := map_option f (m_icache m)\<rparr>"

fun apply_datapath_op :: "'p device_ops \<Rightarrow> datapath_op \<Rightarrow> 'p memory \<Rightarrow> 'p memory" where
  "apply_datapath_op D (SramWrite sram_addr d) m =
     (let start = unat sram_addr
      in if start + length d \<le> length (m_data m) then
           (let m1 = m\<lparr>m_data := splice start d (m_data m)\<rparr>;
                m2 = dcache_modify (fold (\<lambda>a dc. snd (dma_sram_overwrite a dc))
                                         (dma_lines sram_addr (length d))) m1
            in icache_modify (fold ic_invalidate_line (dma_lines sram_addr (length d))) m2)
         else m)"
| "apply_datapath_op D (CacheInvalidate inv_addr) m =
     dcache_modify (\<lambda>dc. snd (invalidate_line (inv_addr AND NOT 0x1F) dc)) m"
| "apply_datapath_op D (FlashWrite p flash_addr sram_addr len) m =
     (let start = unat sram_addr
      in if start + len \<le> length (m_data m)
         then bank_modify (dev_complete_flash D p flash_addr (take len (drop start (m_data m)))) m
         else m)"

definition drain_datapath :: "'p device_ops \<Rightarrow> 'p memory \<Rightarrow> 'p memory" where
  "drain_datapath D m =
     (case m_bank m of
        None \<Rightarrow> m
      | Some b \<Rightarrow>
          (case dev_take_datapath D b of
             (ops, b') \<Rightarrow> fold (apply_datapath_op D) ops (m\<lparr>m_bank := Some b'\<rparr>)))"

text \<open>The SRAM store and the cache line, where the line is present: the write-through of the
  observers\<close>

definition dc_store :: "(u32 \<times> u8) list \<Rightarrow> dcache \<Rightarrow> dcache" where
  "dc_store ws dc = fold (\<lambda>(a, v) dc. snd (dc_write_byte a v dc)) ws dc"

definition half_stores :: "u32 \<Rightarrow> u16 \<Rightarrow> (u32 \<times> u8) list" where
  "half_stores addr v = [(addr, byte_of 1 v), (addr + 1, byte_of 0 v)]"

definition word_stores :: "u32 \<Rightarrow> u32 \<Rightarrow> (u32 \<times> u8) list" where
  "word_stores addr v =
     [(addr, byte_of 3 v), (addr + 1, byte_of 2 v), (addr + 2, byte_of 1 v), (addr + 3, byte_of 0 v)]"

definition bank_write :: "'p device_ops \<Rightarrow> ('p bank, unit) op \<Rightarrow> ('p memory, unit) op" where
  "bank_write D f =
     thenM (with_bank (returnM ()) f) (modifyM (drain_datapath D))"

definition write_byte :: "'p device_ops \<Rightarrow> u32 \<Rightarrow> u8 \<Rightarrow> ('p memory, unit) op" where
  "write_byte D addr val m0 =
     (let m = check_watch addr 1 WatchWrite m0
      in if m_bank m \<noteq> None then
           (case sram_offset m addr of
              Some off \<Rightarrow>
                (Inr (), dcache_modify (dc_store [(addr, val)]) (m\<lparr>m_data := (m_data m)[off := val]\<rparr>))
            | None \<Rightarrow> bank_write D (dev_write_byte D addr val) m)
         else
           (case check_bounds addr 1 m of
              Inl e \<Rightarrow> (Inl e, m)
            | Inr _ \<Rightarrow> (Inr (), m\<lparr>m_data := (m_data m)[unat addr := val]\<rparr>)))"

definition write_half :: "'p device_ops \<Rightarrow> u32 \<Rightarrow> u16 \<Rightarrow> ('p memory, unit) op" where
  "write_half D addr val m0 =
     (let m = check_watch addr 2 WatchWrite m0
      in if m_bank m \<noteq> None then
           (case Option.bind (sram_offset m addr)
                   (\<lambda>off. if off + 1 < length (m_data m) then Some off else None) of
              Some off \<Rightarrow>
                (Inr (), dcache_modify (dc_store (half_stores addr val))
                           (m\<lparr>m_data := put_half off val (m_data m)\<rparr>))
            | None \<Rightarrow>
                if addr AND 1 \<noteq> 0 then (Inr (), m)
                else bank_write D (dev_write_half D addr val) m)
         else if addr AND 1 \<noteq> 0 then (Inl (Exn (MisalignedAccess addr)), m)
         else
           (case check_bounds addr 2 m of
              Inl e \<Rightarrow> (Inl e, m)
            | Inr _ \<Rightarrow> (Inr (), m\<lparr>m_data := put_half (unat addr) val (m_data m)\<rparr>)))"

definition write_word :: "'p device_ops \<Rightarrow> u32 \<Rightarrow> u32 \<Rightarrow> ('p memory, unit) op" where
  "write_word D addr val m0 =
     (let m = check_watch addr 4 WatchWrite m0
      in if m_bank m \<noteq> None then
           (case Option.bind (sram_offset m addr)
                   (\<lambda>off. if off + 3 < length (m_data m) then Some off else None) of
              Some off \<Rightarrow>
                (Inr (), dcache_modify (dc_store (word_stores addr val))
                           (m\<lparr>m_data := put_word off val (m_data m)\<rparr>))
            | None \<Rightarrow>
                if addr AND 3 \<noteq> 0 then (Inr (), m)
                else bank_write D (dev_write_word D addr val) m)
         else if addr AND 3 \<noteq> 0 then (Inl (Exn (MisalignedAccess addr)), m)
         else
           (case check_bounds addr 4 m of
              Inl e \<Rightarrow> (Inl e, m)
            | Inr _ \<Rightarrow> (Inr (), m\<lparr>m_data := put_word (unat addr) val (m_data m)\<rparr>)))"

section \<open>The data port\<close>

definition dcache_enabled :: "'p memory \<Rightarrow> bool" where
  "dcache_enabled m = (case m_dcache m of None \<Rightarrow> False | Some dc \<Rightarrow> dc_enabled dc)"

definition is_mmio :: "'p memory \<Rightarrow> u32 \<Rightarrow> bool" where
  "is_mmio m addr \<longleftrightarrow> sram_offset m addr = None"

definition uncached :: "'p memory \<Rightarrow> u32 \<Rightarrow> bool \<Rightarrow> bool" where
  "uncached m addr cache_bypass \<longleftrightarrow> cache_bypass \<or> is_mmio m addr \<or> \<not> dcache_enabled m"

definition ensure_cache_line :: "'p device_ops \<Rightarrow> u32 \<Rightarrow> ('p memory, unit) op" where
  "ensure_cache_line D addr m =
     (case m_dcache m of
        None \<Rightarrow> (Inl Panic, m)
      | Some dc0 \<Rightarrow>
          if dc_contains dc0 addr then (Inr (), m)
          else
            (let line_addr = addr AND NOT 0x1F
             in bindM (read_line_from_backing D line_addr) (\<lambda>line_data m1.
                  case m_dcache m1 of
                    None \<Rightarrow> (Inl Panic, m1)
                  | Some dc \<Rightarrow>
                      (case fill_line addr line_data dc of
                         (None, dc') \<Rightarrow> (Inr (), m1\<lparr>m_dcache := Some dc'\<rparr>)
                       | (Some ev, dc') \<Rightarrow>
                           writeback_line D (ev_addr ev) (ev_data ev) (m1\<lparr>m_dcache := Some dc'\<rparr>))) m))"

definition nco_ivt_mirror :: "u32 \<Rightarrow> u32 \<Rightarrow> u8 \<Rightarrow> 'p memory \<Rightarrow> 'p memory" where
  "nco_ivt_mirror addr val width m =
     bank_modify (\<lambda>b. b\<lparr>bank_nco := ivt_di_store addr val width (bank_nco b)\<rparr>) m"

definition trace_data_read :: "u32 \<Rightarrow> u8 \<Rightarrow> u32 \<Rightarrow> 'p memory \<Rightarrow> 'p memory" where
  "trace_data_read addr width val m =
     (case m_read_trace m of
        None \<Rightarrow> m
      | Some rt \<Rightarrow>
          if rt_lo rt \<le> addr \<and> addr < rt_hi rt
          then m\<lparr>m_read_trace := Some (rt\<lparr>rt_hits := rt_hits rt @ [(addr, width, val)]\<rparr>)\<rparr> else m)"

definition record_misaligned :: "u32 \<Rightarrow> u32 \<Rightarrow> u8 \<Rightarrow> bool \<Rightarrow> 'p memory \<Rightarrow> 'p memory" where
  "record_misaligned addr ea width is_write m =
     (let log = (m_misaligned m)\<lparr>ml_count := ml_count (m_misaligned m) + 1\<rparr>
      in if length (ml_hits log) \<ge> MISALIGNED_LOG_CAP then m\<lparr>m_misaligned := log\<rparr>
         else
           let pc' = (case m_bank m of None \<Rightarrow> 0 | Some b \<Rightarrow> bank_current_pc b)
           in m\<lparr>m_misaligned := log\<lparr>ml_hits := ml_hits log @
                 [\<lparr>mh_pc = pc', mh_addr = addr, mh_ea = ea, mh_width = width, mh_is_write = is_write\<rparr>]\<rparr>\<rparr>)"

definition data_effective_addr :: "u32 \<Rightarrow> u32 \<Rightarrow> bool \<Rightarrow> 'p memory \<Rightarrow> u32 \<times> 'p memory" where
  "data_effective_addr addr width is_write m =
     (let ea = addr AND NOT (width - 1)
      in (ea, if ea \<noteq> addr then record_misaligned addr ea (ucast width) is_write m else m))"

text \<open>\<open>self.dcache.as_mut().unwrap().read_byte(a).unwrap()\<close>\<close>

definition cached_byte :: "u32 \<Rightarrow> ('p memory, u8) op" where
  "cached_byte a m =
     (case Option.bind (m_dcache m) (\<lambda>dc. dc_read_byte dc a) of
        None \<Rightarrow> (Inl Panic, m)
      | Some b \<Rightarrow> (Inr b, m))"

definition cached_store :: "(u32 \<times> u8) list \<Rightarrow> ('p memory, unit) op" where
  "cached_store ws m =
     (case m_dcache m of
        None \<Rightarrow> (Inl Panic, m)
      | Some dc \<Rightarrow> (Inr (), m\<lparr>m_dcache := Some (dc_store ws dc)\<rparr>))"

definition read_byte_data_inner :: "'p device_ops \<Rightarrow> u32 \<Rightarrow> bool \<Rightarrow> ('p memory, u8) op" where
  "read_byte_data_inner D addr cache_bypass m =
     (if uncached m addr cache_bypass then read_byte_backing D addr m
      else thenM (ensure_cache_line D addr) (cached_byte addr) m)"

definition read_half_data_inner :: "'p device_ops \<Rightarrow> u32 \<Rightarrow> bool \<Rightarrow> ('p memory, u16) op" where
  "read_half_data_inner D addr cache_bypass m =
     (if uncached m addr cache_bypass then
        (if sram_offset m addr = None then with_bank (returnM 0) (dev_read_half D addr) m
         else
           bindM (read_byte_backing D addr) (\<lambda>b0.
             bindM (read_byte_backing D (addr + 1)) (\<lambda>b1. returnM (be_half b0 b1))) m)
      else
        thenM (ensure_cache_line D addr)
          (bindM (cached_byte addr) (\<lambda>hi.
             bindM (cached_byte (addr + 1)) (\<lambda>lo. returnM (be_half hi lo)))) m)"

definition read_word_data_inner :: "'p device_ops \<Rightarrow> u32 \<Rightarrow> bool \<Rightarrow> ('p memory, u32) op" where
  "read_word_data_inner D addr cache_bypass m =
     (if uncached m addr cache_bypass then
        (if sram_offset m addr = None then with_bank (returnM 0) (dev_read_word D addr) m
         else
           bindM (read_byte_backing D addr) (\<lambda>b0.
             bindM (read_byte_backing D (addr + 1)) (\<lambda>b1.
               bindM (read_byte_backing D (addr + 2)) (\<lambda>b2.
                 bindM (read_byte_backing D (addr + 3)) (\<lambda>b3. returnM (be_word b0 b1 b2 b3))))) m)
      else
        thenM (ensure_cache_line D addr)
          (bindM (cached_byte addr) (\<lambda>b0.
             bindM (cached_byte (addr + 1)) (\<lambda>b1.
               bindM (cached_byte (addr + 2)) (\<lambda>b2.
                 bindM (cached_byte (addr + 3)) (\<lambda>b3. returnM (be_word b0 b1 b2 b3)))))) m)"

definition traced :: "u32 \<Rightarrow> u8 \<Rightarrow> ('a \<Rightarrow> u32) \<Rightarrow> ('p memory, 'a) op \<Rightarrow> ('p memory, 'a) op" where
  "traced addr width val f =
     bindM f (\<lambda>v. bindM (modifyM (trace_data_read addr width (val v))) (\<lambda>_. returnM v))"

definition read_byte_data :: "'p device_ops \<Rightarrow> u32 \<Rightarrow> bool \<Rightarrow> ('p memory, u8) op" where
  "read_byte_data D addr cache_bypass =
     traced addr 1 ucast (read_byte_data_inner D addr cache_bypass)"

definition read_half_data :: "'p device_ops \<Rightarrow> u32 \<Rightarrow> bool \<Rightarrow> ('p memory, u16) op" where
  "read_half_data D addr0 cache_bypass m0 =
     (case data_effective_addr addr0 2 False m0 of
        (addr, m) \<Rightarrow> traced addr 2 ucast (read_half_data_inner D addr cache_bypass) m)"

definition read_word_data :: "'p device_ops \<Rightarrow> u32 \<Rightarrow> bool \<Rightarrow> ('p memory, u32) op" where
  "read_word_data D addr0 cache_bypass m0 =
     (case data_effective_addr addr0 4 False m0 of
        (addr, m) \<Rightarrow> traced addr 4 id (read_word_data_inner D addr cache_bypass) m)"

text \<open>What the three stores do before they choose a path: the watchpoint, and the oscillator table
  for an uncached store in its aperture\<close>

definition store_prologue :: "u32 \<Rightarrow> u32 \<Rightarrow> u8 \<Rightarrow> bool \<Rightarrow> 'p memory \<Rightarrow> 'p memory" where
  "store_prologue addr val width cache_bypass m =
     (let m1 = check_watch addr (ucast width) WatchWrite m
      in if cache_bypass \<and> in_ivt_aperture addr then nco_ivt_mirror addr val width m1 else m1)"

definition write_byte_data :: "'p device_ops \<Rightarrow> u32 \<Rightarrow> u8 \<Rightarrow> bool \<Rightarrow> ('p memory, unit) op" where
  "write_byte_data D addr val cache_bypass m0 =
     (let m = store_prologue addr (ucast val) 1 cache_bypass m0
      in if uncached m addr cache_bypass then write_byte D addr val m
         else thenM (ensure_cache_line D addr) (cached_store [(addr, val)]) m)"

definition write_half_data :: "'p device_ops \<Rightarrow> u32 \<Rightarrow> u16 \<Rightarrow> bool \<Rightarrow> ('p memory, unit) op" where
  "write_half_data D addr0 val cache_bypass m0 =
     (case data_effective_addr addr0 2 True m0 of
        (addr, m1) \<Rightarrow>
          let m = store_prologue addr (ucast val) 2 cache_bypass m1
          in if uncached m addr cache_bypass then write_half D addr val m
             else thenM (ensure_cache_line D addr) (cached_store (half_stores addr val)) m)"

definition write_word_data :: "'p device_ops \<Rightarrow> u32 \<Rightarrow> u32 \<Rightarrow> bool \<Rightarrow> ('p memory, unit) op" where
  "write_word_data D addr0 val cache_bypass m0 =
     (case data_effective_addr addr0 4 True m0 of
        (addr, m1) \<Rightarrow>
          let m = store_prologue addr val 4 cache_bypass m1
          in if uncached m addr cache_bypass then write_word D addr val m
             else thenM (ensure_cache_line D addr) (cached_store (word_stores addr val)) m)"

section \<open>Cache control\<close>

definition dcache_read_ctrl :: "'p memory \<Rightarrow> u32" where
  "dcache_read_ctrl m = (case m_dcache m of None \<Rightarrow> 0xC2 | Some dc \<Rightarrow> dc_ctrl_raw dc)"

definition dcache_sync_ctrl :: "u32 \<Rightarrow> 'p memory \<Rightarrow> 'p memory" where
  "dcache_sync_ctrl val m = dcache_modify (write_dc_ctrl val) m"

definition dcache_invalidate_all :: "'p device_ops \<Rightarrow> ('p memory, unit) op" where
  "dcache_invalidate_all D m =
     (case m_dcache m of
        None \<Rightarrow> (Inr (), m)
      | Some dc \<Rightarrow>
          (case invalidate_all dc of
             (evs, dc') \<Rightarrow>
               fold (\<lambda>ev acc. thenM acc (writeback_line D (ev_addr ev) (ev_data ev))) evs
                 (returnM ()) (m\<lparr>m_dcache := Some dc'\<rparr>)))"

definition dcache_invalidate_line :: "'p device_ops \<Rightarrow> u32 \<Rightarrow> ('p memory, unit) op" where
  "dcache_invalidate_line D addr m =
     (case m_dcache m of
        None \<Rightarrow> (Inr (), m)
      | Some dc \<Rightarrow>
          (case invalidate_line addr dc of
             (None, dc') \<Rightarrow> (Inr (), m\<lparr>m_dcache := Some dc'\<rparr>)
           | (Some ev, dc') \<Rightarrow>
               writeback_line D (ev_addr ev) (ev_data ev) (m\<lparr>m_dcache := Some dc'\<rparr>)))"

definition dcache_set_ram_addr :: "u32 \<Rightarrow> 'p memory \<Rightarrow> 'p memory" where
  "dcache_set_ram_addr addr m = dcache_modify (set_ram_addr addr) m"

definition dcache_read_tag :: "'p memory \<Rightarrow> u32" where
  "dcache_read_tag m = (case m_dcache m of None \<Rightarrow> 0 | Some dc \<Rightarrow> read_tag dc)"

definition dcache_read_data :: "'p memory \<Rightarrow> u32" where
  "dcache_read_data m = (case m_dcache m of None \<Rightarrow> 0 | Some dc \<Rightarrow> read_data dc)"

definition icache_invalidate_all :: "'p memory \<Rightarrow> 'p memory" where
  "icache_invalidate_all m = icache_modify ic_invalidate_all m"

section \<open>The fetch port\<close>

definition icache_fill :: "u32 \<Rightarrow> 'p memory \<Rightarrow> 'p memory" where
  "icache_fill addr m =
     (case m_icache m of
        None \<Rightarrow> m
      | Some ic \<Rightarrow>
          if ic_contains ic addr then m
          else
            (case sram_offset m (addr AND NOT (32 - 1)) of
               None \<Rightarrow> m
             | Some off \<Rightarrow>
                 let e = min (off + 32) (length (m_data m)); count = e - off;
                     d = take count (drop off (m_data m)) @ replicate (32 - count) 0
                 in m\<lparr>m_icache := Some (ic_fill_line addr d ic)\<rparr>))"

text \<open>A lookup, a fill on a miss, and the lookup again\<close>

definition icache_lookup :: "(icache \<Rightarrow> u32 \<Rightarrow> 'a option) \<Rightarrow> u32 \<Rightarrow> 'p memory \<Rightarrow> 'a option \<times> 'p memory" where
  "icache_lookup peek addr m =
     (case Option.bind (m_icache m) (\<lambda>ic. peek ic addr) of
        Some v \<Rightarrow> (Some v, m)
      | None \<Rightarrow>
          (let m' = icache_fill addr m
           in (Option.bind (m_icache m') (\<lambda>ic. peek ic addr), m')))"

definition icache_on :: "'p memory \<Rightarrow> bool" where
  "icache_on m = (case m_icache m of None \<Rightarrow> False | Some ic \<Rightarrow> ic_enabled ic)"

definition sram_fetch :: "nat \<Rightarrow> (u8 list \<Rightarrow> nat \<Rightarrow> 'a) \<Rightarrow> u32 \<Rightarrow> ('p memory, 'a) op" where
  "sram_fetch extra at addr m =
     (case sram_offset m addr of
        Some a \<Rightarrow> if a + extra < length (m_data m) then (Inr (at (m_data m) a), m)
                  else (Inl (Exn (MemoryError addr False)), m)
      | None \<Rightarrow> (Inl (Exn (MemoryError addr False)), m))"

definition mem_fetch_half :: "u32 \<Rightarrow> ('p memory, u16) op" where
  "mem_fetch_half addr m =
     (if addr AND 1 \<noteq> 0 then (Inl (Exn (MisalignedAccess addr)), m)
      else if m_bank m \<noteq> None then
        (if icache_on m then
           (case icache_lookup peek_half addr m of
              (Some val, m') \<Rightarrow> (Inr val, m')
            | (None, m') \<Rightarrow> sram_fetch 1 half_at addr m')
         else sram_fetch 1 half_at addr m)
      else
        (case check_bounds addr 2 m of
           Inl e \<Rightarrow> (Inl e, m)
         | Inr _ \<Rightarrow> (Inr (half_at (m_data m) (unat addr)), m)))"

definition mem_fetch_word :: "u32 \<Rightarrow> ('p memory, u32) op" where
  "mem_fetch_word addr m =
     (if addr AND 1 \<noteq> 0 then (Inl (Exn (MisalignedAccess addr)), m)
      else if m_bank m \<noteq> None then
        (if icache_on m then
           (let line_mask = 32 - 1;
                line_end = (addr AND NOT line_mask) + 32
            in if addr + 4 \<le> line_end then
                 (case icache_lookup peek_word addr m of
                    (Some val, m') \<Rightarrow> (Inr val, m')
                  | (None, m') \<Rightarrow> sram_fetch 3 word_at addr m')
               else
                 bindM (mem_fetch_half addr) (\<lambda>hi.
                   bindM (mem_fetch_half (addr + 2)) (\<lambda>lo.
                     returnM (push_bit 16 (ucast hi) OR ucast lo))) m)
         else sram_fetch 3 word_at addr m)
      else
        (case check_bounds addr 4 m of
           Inl e \<Rightarrow> (Inl e, m)
         | Inr _ \<Rightarrow> (Inr (word_at (m_data m) (unat addr)), m)))"

definition memory_fetch :: "'p memory fetch" where
  "memory_fetch = \<lparr>fetch_half = mem_fetch_half, fetch_word = mem_fetch_word\<rparr>"

end
