(* ===== verification/Executor.thy ===== *)
theory Executor
  imports Executor_Invariants Memory
begin

text \<open>
  \<open>src/executor/mod.rs\<close> with \<open>single_op.rs\<close> and \<open>load_store.rs\<close>: the operations that touch memory,
  and the dispatch \<open>execute\<close> over decoded instructions with the cache registers that the auxiliary
  accesses intercept. The machine is the register state and the memory.
\<close>

record 'p machine =
  m_cpu :: cpu_state
  m_mem :: "'p memory"

definition on_cpu :: "(cpu_state, 'a) op \<Rightarrow> ('p machine, 'a) op" where
  "on_cpu m = zoomM m_cpu (\<lambda>s x. x\<lparr>m_cpu := s\<rparr>) m"

definition on_mem :: "('p memory, 'a) op \<Rightarrow> ('p machine, 'a) op" where
  "on_mem m = zoomM m_mem (\<lambda>s x. x\<lparr>m_mem := s\<rparr>) m"

abbreviation value_of :: "operand \<Rightarrow> ('p machine, u32) op" where
  "value_of x \<equiv> on_cpu (readM (resolve_value x))"

section \<open>One-operand operations\<close>

text \<open>The result, the carry and the overflow of a one-operand operation; EX is handled before.\<close>

definition compute_single :: "single_op \<Rightarrow> u32 \<Rightarrow> bool \<Rightarrow> u32 \<times> bool option \<times> bool option" where
  "compute_single op val carry_in =
     (case op of
        SingleOp_Asl \<Rightarrow> (push_bit 1 val, Some (drop_bit 31 val \<noteq> 0), None)
      | SingleOp_Asr \<Rightarrow> (signed_drop_bit 1 val, Some (val AND 1 \<noteq> 0), None)
      | SingleOp_Lsr \<Rightarrow> (drop_bit 1 val, Some (val AND 1 \<noteq> 0), None)
      | SingleOp_Ror \<Rightarrow> (word_rotr 1 val, Some (val AND 1 \<noteq> 0), None)
      | SingleOp_Rrc \<Rightarrow> (drop_bit 1 val OR bool_at 31 carry_in, Some (val AND 1 \<noteq> 0), None)
      | SingleOp_Sexb \<Rightarrow> (sign_extend (val AND 0xFF) 8, None, None)
      | SingleOp_Sexw \<Rightarrow> (sign_extend (val AND 0xFFFF) 16, None, None)
      | SingleOp_Extb \<Rightarrow> (val AND 0xFF, None, None)
      | SingleOp_Extw \<Rightarrow> (val AND 0xFFFF, None, None)
      | SingleOp_Abs \<Rightarrow>
          (if val = 0x80000000 then (0x80000000, Some True, Some True)
           else if val <s 0 then (- val, Some True, Some False)
           else (val, Some False, Some False))
      | SingleOp_Not \<Rightarrow> (NOT val, None, None)
      | SingleOp_Rlc \<Rightarrow> (push_bit 1 val OR of_bool carry_in, Some (drop_bit 31 val \<noteq> 0), None)
      | SingleOp_Ex \<Rightarrow> (val, None, None))"

definition execute_single_op ::
    "'p device_ops \<Rightarrow> single_op \<Rightarrow> operand \<Rightarrow> operand \<Rightarrow> bool \<Rightarrow> condition_code option
     \<Rightarrow> ('p machine, unit) op" where
  "execute_single_op D op dst src set_flags cc =
     bindM (getsM (\<lambda>x. condition_holds cc (m_cpu x))) (\<lambda>b.
     if \<not> b then returnM ()
     else if op = SingleOp_Ex then
       bindM (value_of src) (\<lambda>addr.
       bindM (value_of dst) (\<lambda>reg_val.
       bindM (on_mem (read_word D addr)) (\<lambda>mem_val.
       thenM (on_mem (write_word D addr reg_val))
         (on_cpu (write_dest dst mem_val)))))
     else
       bindM (value_of src) (\<lambda>val.
       bindM (getsM (\<lambda>x. flag_c (m_cpu x))) (\<lambda>carry_in.
       case compute_single op val carry_in of
         (result, carry, overflow) \<Rightarrow>
           thenM (on_cpu (write_dest dst result))
             (if set_flags then on_cpu (modifyM (set_v overflow \<circ> set_c carry \<circ> set_zn result))
              else returnM ()))))"

section \<open>Loads and stores\<close>

definition compute_ea :: "u32 \<Rightarrow> u32 \<Rightarrow> data_size \<Rightarrow> writeback_mode \<Rightarrow> u32" where
  "compute_ea base offset sz wb =
     (case wb of
        Writeback_None \<Rightarrow> base + offset
      | Writeback_PreWrite \<Rightarrow> base + offset
      | Writeback_PostWrite \<Rightarrow> base
      | Writeback_Scaled \<Rightarrow>
          base + offset * (case sz of DataSize_Word \<Rightarrow> 4 | DataSize_HalfWord \<Rightarrow> 2 | DataSize_Byte \<Rightarrow> 1))"

definition load_value :: "'p device_ops \<Rightarrow> data_size \<Rightarrow> bool \<Rightarrow> u32 \<Rightarrow> bool \<Rightarrow> ('p memory, u32) op" where
  "load_value D sz do_sign_ext ea cache_bypass =
     (case sz of
        DataSize_Word \<Rightarrow> read_word_data D ea cache_bypass
      | DataSize_Byte \<Rightarrow>
          bindM (read_byte_data D ea cache_bypass) (\<lambda>b.
            returnM (if do_sign_ext then sign_extend (ucast b) 8 else ucast b))
      | DataSize_HalfWord \<Rightarrow>
          bindM (read_half_data D ea cache_bypass) (\<lambda>h.
            returnM (if do_sign_ext then sign_extend (ucast h) 16 else ucast h)))"

definition store_value :: "'p device_ops \<Rightarrow> data_size \<Rightarrow> u32 \<Rightarrow> u32 \<Rightarrow> bool \<Rightarrow> ('p memory, unit) op" where
  "store_value D sz ea val cache_bypass =
     (case sz of
        DataSize_Word \<Rightarrow> write_word_data D ea val cache_bypass
      | DataSize_Byte \<Rightarrow> write_byte_data D ea (ucast val) cache_bypass
      | DataSize_HalfWord \<Rightarrow> write_half_data D ea (ucast val) cache_bypass)"

text \<open>The \<open>.a\<close>, \<open>.aw\<close> and \<open>.ab\<close> forms update the base register\<close>

definition write_back_base :: "operand \<Rightarrow> writeback_mode \<Rightarrow> u32 \<Rightarrow> (cpu_state, unit) op" where
  "write_back_base base wb v =
     (if wb = Writeback_PreWrite \<or> wb = Writeback_PostWrite then
        (case base of Reg r \<Rightarrow> write_core_reg r v | _ \<Rightarrow> returnM ())
      else returnM ())"

definition execute_load ::
    "'p device_ops \<Rightarrow> operand \<Rightarrow> operand \<Rightarrow> operand \<Rightarrow> data_size \<Rightarrow> bool \<Rightarrow> writeback_mode \<Rightarrow> bool
     \<Rightarrow> ('p machine, unit) op" where
  "execute_load D dst base offset sz do_sign_ext wb cache_bypass =
     (if (case dst of Reg r \<Rightarrow> 32 \<le> r \<and> r \<le> 60 | _ \<Rightarrow> False)
      then bindM (getsM (\<lambda>x. pc (m_cpu x))) (\<lambda>a. throwM (InstructionError a))
      else
        bindM (value_of base) (\<lambda>base_val.
        bindM (value_of offset) (\<lambda>offset_val.
        bindM (on_mem (load_value D sz do_sign_ext (compute_ea base_val offset_val sz wb) cache_bypass)) (\<lambda>v.
        thenM (on_cpu (write_dest dst v))
          (on_cpu (write_back_base base wb (base_val + offset_val)))))))"

definition execute_store ::
    "'p device_ops \<Rightarrow> operand \<Rightarrow> operand \<Rightarrow> operand \<Rightarrow> data_size \<Rightarrow> writeback_mode \<Rightarrow> bool
     \<Rightarrow> ('p machine, unit) op" where
  "execute_store D src base offset sz wb cache_bypass =
     bindM (value_of base) (\<lambda>base_val.
     bindM (value_of offset) (\<lambda>offset_val.
     bindM (value_of src) (\<lambda>src_val.
     thenM (on_mem (store_value D sz (compute_ea base_val offset_val sz wb) src_val cache_bypass))
       (on_cpu (write_back_base base wb (base_val + offset_val))))))"

section \<open>Dispatch\<close>

text \<open>LR of the cache probe registers reads the cache model\<close>

definition dispatch_load_aux :: "operand \<Rightarrow> operand \<Rightarrow> ('p machine, unit) op" where
  "dispatch_load_aux dst addr =
     bindM (value_of addr) (\<lambda>addr_val.
       if addr_val = 0x59 then
         bindM (getsM (\<lambda>x. dcache_read_tag (m_mem x))) (\<lambda>v. on_cpu (write_dest dst v))
       else if addr_val = 0x5B then
         bindM (getsM (\<lambda>x. dcache_read_data (m_mem x))) (\<lambda>v. on_cpu (write_dest dst v))
       else on_cpu (execute_load_aux dst addr))"

text \<open>SR stores the register first and then acts on the caches\<close>

definition cache_control :: "'p device_ops \<Rightarrow> u32 \<Rightarrow> operand \<Rightarrow> ('p machine, unit) op" where
  "cache_control D addr_val src =
     (if addr_val = 0x47 then
        bindM (value_of src) (\<lambda>val.
          if val AND 1 \<noteq> 0 then on_mem (dcache_invalidate_all D) else returnM ())
      else if addr_val = 0x48 then
        bindM (on_cpu (readM (read_aux_reg 0x48))) (\<lambda>val. on_mem (modifyM (dcache_sync_ctrl val)))
      else if addr_val = 0x4A then
        bindM (value_of src) (\<lambda>val. on_mem (dcache_invalidate_line D val))
      else if addr_val = 0x58 then
        bindM (value_of src) (\<lambda>val. on_mem (modifyM (dcache_set_ram_addr val)))
      else if addr_val = 0x10 then
        bindM (value_of src) (\<lambda>_. on_mem (modifyM icache_invalidate_all))
      else if addr_val = 0x19 then bindM (value_of src) (\<lambda>_. returnM ())
      else returnM ())"

definition dispatch_store_aux :: "'p device_ops \<Rightarrow> operand \<Rightarrow> operand \<Rightarrow> ('p machine, unit) op" where
  "dispatch_store_aux D src addr =
     bindM (value_of addr) (\<lambda>addr_val.
       thenM (on_cpu (execute_store_aux src addr)) (cache_control D addr_val src))"

definition execute :: "'p device_ops \<Rightarrow> decoded_instruction \<Rightarrow> ('p machine, unit) op" where
  "execute D d =
     (case inst d of
        Alu op dst src1 src2 set_flags cc \<Rightarrow> on_cpu (execute_alu op dst src1 src2 set_flags cc)
      | SingleOp op dst src set_flags cc \<Rightarrow> execute_single_op D op dst src set_flags cc
      | ZeroOp zop \<Rightarrow> on_cpu (execute_zero_op zop)
      | Branch offset cc delay link \<Rightarrow> on_cpu (execute_branch d offset cc delay link)
      | BranchCompare kind src1 src2 offset delay \<Rightarrow>
          on_cpu (execute_branch_compare kind src1 src2 offset delay d)
      | Jump target cc delay link flag_restore \<Rightarrow> on_cpu (execute_jump d target cc delay link flag_restore)
      | Load dst base offset sz do_sign_ext wb cache_bypass \<Rightarrow>
          execute_load D dst base offset sz do_sign_ext wb cache_bypass
      | Store src base offset sz wb cache_bypass \<Rightarrow> execute_store D src base offset sz wb cache_bypass
      | Loop offset cc \<Rightarrow> on_cpu (execute_loop offset cc d)
      | LoadAux dst addr \<Rightarrow> dispatch_load_aux dst addr
      | StoreAux src addr \<Rightarrow> dispatch_store_aux D src addr
      | Flag src cc \<Rightarrow> on_cpu (execute_flag src cc)
      | ExtArith op dst src1 src2 set_flags cc \<Rightarrow>
          on_cpu (execute_ext_arith op dst src1 src2 set_flags cc)
      | Prefetch \<Rightarrow> returnM ())"

section \<open>Invariants of the registers\<close>

lemma keeps_on_mem [keeps_intro]: "keeps (\<lambda>x. I (m_cpu x)) (on_mem m)"
  by (auto simp: keeps_def on_mem_def wp_def zoomM_def split: prod.split sum.split)

lemma keeps_on_cpu [keeps_intro]: "keeps I m \<Longrightarrow> keeps (\<lambda>x. I (m_cpu x)) (on_cpu m)"
  unfolding on_cpu_def by (rule keeps_zoomM) auto

context cpu_invariant
begin

lemma keeps_write_back_base: "keeps I (write_back_base base wb v)"
  unfolding write_back_base_def by (cases base) (auto intro!: keeps_intro core)

lemma keeps_execute_single_op: "keeps (\<lambda>x. I (m_cpu x)) (execute_single_op D op dst src f cc)"
  unfolding execute_single_op_def
  by (auto simp: comp_def intro!: keeps_intro update_zn update_c update_v)

lemma keeps_execute_load: "keeps (\<lambda>x. I (m_cpu x)) (execute_load D dst base off sz x wb di)"
  unfolding execute_load_def by (intro keeps_intro keeps_write_back_base)

lemma keeps_execute_store: "keeps (\<lambda>x. I (m_cpu x)) (execute_store D src base off sz wb di)"
  unfolding execute_store_def by (intro keeps_intro keeps_write_back_base)

lemma keeps_dispatch_load_aux: "keeps (\<lambda>x. I (m_cpu x)) (dispatch_load_aux dst addr)"
  unfolding dispatch_load_aux_def by (intro keeps_intro keeps_execute_load_aux)

lemma keeps_dispatch_store_aux: "keeps (\<lambda>x. I (m_cpu x)) (dispatch_store_aux D src addr)"
  unfolding dispatch_store_aux_def cache_control_def by (intro keeps_intro keeps_execute_store_aux)

lemma keeps_execute:
  assumes "wf_instruction (inst d)"
  shows "keeps (\<lambda>x. I (m_cpu x)) (execute D d)"
  using assms
  by (cases "inst d")
    (auto simp: execute_def intro: keeps_intro keeps_execute_alu keeps_execute_single_op
      keeps_execute_zero_op keeps_execute_branch keeps_execute_branch_compare keeps_execute_jump
      keeps_execute_load keeps_execute_store keeps_execute_loop keeps_dispatch_load_aux
      keeps_dispatch_store_aux keeps_execute_flag keeps_execute_ext_arith)

end

end
