(* ===== verification/Memory_Port.thy ===== *)
theory Memory_Port
  imports Memory
begin

text \<open>
  The contract of \<open>src/memory.rs\<close>. The abstract state of a memory is a function from addresses to
  bytes (\<open>mem_view\<close>): what the data cache holds, else SRAM. The lemmas show the data port
  a word memory over that function (the locale \<open>word_port\<close>, interpreted on the cached
  port, on the uncached one and on flat memory), and the fetch port a byte slice over SRAM.
\<close>

section \<open>Well-formed SoC memories\<close>

definition store_of :: "'p memory \<Rightarrow> u32 \<Rightarrow> u8" where
  "store_of m a = (if unat a < length (m_data m) then m_data m ! unat a else 0)"

definition soc_shape :: "'p memory \<Rightarrow> bool" where
  "soc_shape m \<longleftrightarrow> m_bank m \<noteq> None \<and> m_dccm_base m = 0 \<and> 32 dvd length (m_data m)
     \<and> length (m_data m) < 2 ^ 32"

text \<open>The cache is well formed, its clean lines agree with SRAM, and it holds SRAM lines only.\<close>

definition dcache_fits :: "'p memory \<Rightarrow> dcache \<Rightarrow> bool" where
  "dcache_fits m dc \<longleftrightarrow> dcache_ok dc \<and> clean_lines dc (store_of m)
     \<and> (\<forall>a. way_of dc a \<noteq> None \<longrightarrow> unat a < length (m_data m))"

definition soc_ok :: "'p memory \<Rightarrow> bool" where
  "soc_ok m \<longleftrightarrow> soc_shape m \<and> (\<exists>dc. m_dcache m = Some dc \<and> dcache_fits m dc)"

definition mem_view :: "'p memory \<Rightarrow> u32 \<Rightarrow> u8" where
  "mem_view m = (case m_dcache m of None \<Rightarrow> store_of m | Some dc \<Rightarrow> backing_view dc (store_of m))"

definition in_sram :: "'p memory \<Rightarrow> u32 \<Rightarrow> bool" where
  "in_sram m a \<longleftrightarrow> unat a < length (m_data m)"

lemma sram_offset_eq:
  "soc_shape m \<Longrightarrow> sram_offset m a = (if in_sram m a then Some (unat a) else None)"
  by (simp add: sram_offset_def soc_shape_def in_sram_def Let_def)

lemma soc_ok_shape: "soc_ok m \<Longrightarrow> soc_shape m"
  by (simp add: soc_ok_def)

lemma soc_okE:
  assumes "soc_ok m"
  obtains dc where "m_dcache m = Some dc" and "dcache_fits m dc" and "soc_shape m"
  using assms by (auto simp: soc_ok_def)

text \<open>A line is in SRAM as a whole or not at all.\<close>

lemma in_sram_same_line:
  assumes "soc_shape m" and "line_of a = line_of b"
  shows "in_sram m a \<longleftrightarrow> in_sram m b"
proof -
  obtain k where k: "length (m_data m) = 32 * k" using assms(1) by (auto simp: soc_shape_def)
  have "unat a div 32 = unat b div 32" using assms(2) unat_line_of [of a] unat_line_of [of b] by simp
  then show ?thesis unfolding in_sram_def k by (metis less_mult_imp_div_less div_less_iff_less_mult mult.commute zero_less_numeral)
qed

lemma line_of_idem [simp]: "line_of (line_of a) = line_of a"
  by (simp add: line_of_def and.assoc)

lemma line_fits:
  assumes "soc_shape m" and "in_sram m a"
  shows "unat (line_of a) + 32 \<le> length (m_data m)"
proof -
  obtain k where k: "length (m_data m) = 32 * k" using assms(1) by (auto simp: soc_shape_def)
  have "unat a div 32 < k" using assms(2) k by (simp add: in_sram_def div_less_iff_less_mult mult.commute)
  then show ?thesis unfolding unat_line_of k by linarith
qed

lemma offset_in_line: "unat b = unat (line_of b) + off_of b"
  unfolding unat_line_of off_of_mod by simp

section \<open>Lines of SRAM\<close>

lemma read_line_sram:
  assumes "soc_shape m" and "in_sram m a"
  shows "read_line_from_backing D (line_of a) m = (Inr (take 32 (drop (unat (line_of a)) (m_data m))), m)"
  using assms in_sram_same_line [OF assms(1), of "line_of a" a] line_fits [OF assms]
  by (simp add: read_line_from_backing_def sram_offset_eq Let_def min_def)

lemma read_line_bytes:
  assumes "soc_shape m" and "in_sram m a" and "line_of b = line_of a"
  shows "take 32 (drop (unat (line_of a)) (m_data m)) ! off_of b = store_of m b"
  using assms offset_in_line [of b] in_sram_same_line [OF assms(1,3)] line_fits [OF assms(1,2)]
  by (simp add: store_of_def in_sram_def)

lemma writeback_line_sram:
  assumes shape: "soc_shape m" and a: "in_sram m a" and len: "length d = 32"
  shows "writeback_line D (line_of a) d m = (Inr (), m\<lparr>m_data := splice (unat (line_of a)) d (m_data m)\<rparr>)"
  using assms in_sram_same_line [OF shape, of "line_of a" a] line_fits [OF shape a]
  by (simp add: writeback_line_def sram_offset_eq Let_def min_def)

lemma store_of_splice_line:
  assumes shape: "soc_shape m" and a: "in_sram m a" and len: "length d = 32"
  shows "store_of (m\<lparr>m_data := splice (unat (line_of a)) d (m_data m)\<rparr>)
    = write_back \<lparr>ev_addr = line_of a, ev_data = d\<rparr> (store_of m)"
proof
  fix b
  note fits = line_fits [OF shape a]
  have in_range: "unat (line_of a) \<le> unat b \<and> unat b < unat (line_of a) + 32 \<longleftrightarrow> line_of b = line_of a"
  proof
    assume "line_of b = line_of a"
    then show "unat (line_of a) \<le> unat b \<and> unat b < unat (line_of a) + 32"
      using offset_in_line [of b] off_of_less [of b] by simp
  next
    assume r: "unat (line_of a) \<le> unat b \<and> unat b < unat (line_of a) + 32"
    then have "unat b div 32 = unat a div 32"
      unfolding unat_line_of by (intro div_nat_eqI) simp_all
    then show "line_of b = line_of a" by (simp add: word_unat_eq_iff unat_line_of)
  qed
  show "store_of (m\<lparr>m_data := splice (unat (line_of a)) d (m_data m)\<rparr>) b
      = write_back \<lparr>ev_addr = line_of a, ev_data = d\<rparr> (store_of m) b"
  proof (cases "line_of b = line_of a")
    case True
    then have "in_sram m b" using a in_sram_same_line [OF shape] by blast
    then show ?thesis
      using True in_range fits len offset_in_line [of b]
      by (simp add: store_of_def write_back_def in_sram_def nth_splice)
  next
    case False
    then show ?thesis
      using in_range fits len
      by (auto simp: store_of_def write_back_def nth_splice)
  qed
qed

text \<open>Writing an evicted line back to SRAM.\<close>

lemma writeback_evicted:
  assumes shape: "soc_shape m" and fits: "\<And>b. way_of dc b \<noteq> None \<Longrightarrow> in_sram m b"
    and ev: "evicted_from dc ev"
  obtains d where "writeback_line D (ev_addr ev) (ev_data ev) m = (Inr (), m\<lparr>m_data := d\<rparr>)"
    and "length d = length (m_data m)" and "store_of (m\<lparr>m_data := d\<rparr>) = write_back ev (store_of m)"
proof -
  obtain b where b: "way_of dc b \<noteq> None" "ev_addr ev = line_of b" and len: "length (ev_data ev) = 32"
    using ev by (auto simp: evicted_from_def)
  have sram: "in_sram m b" using fits b by blast
  have "ev = \<lparr>ev_addr = line_of b, ev_data = ev_data ev\<rparr>" using b by simp
  then show thesis
    using that writeback_line_sram [OF shape sram len] store_of_splice_line [OF shape sram len]
      line_fits [OF shape sram] len b
    by (metis length_splice)
qed

section \<open>Bringing a line in\<close>

text \<open>A memory that differs in SRAM contents and data cache only.\<close>

definition refilled :: "'p memory \<Rightarrow> 'p memory \<Rightarrow> bool" where
  "refilled m m' \<longleftrightarrow> (\<exists>d dc. m' = m\<lparr>m_data := d, m_dcache := Some dc\<rparr> \<and> length d = length (m_data m))"

lemma soc_shape_refilled: "refilled m m' \<Longrightarrow> soc_shape m' = soc_shape m"
  and in_sram_refilled: "refilled m m' \<Longrightarrow> in_sram m' a = in_sram m a"
  by (auto simp: refilled_def soc_shape_def in_sram_def)

lemma store_of_dcache [simp]: "store_of (m\<lparr>m_dcache := x\<rparr>) = store_of m"
  by (simp add: store_of_def fun_eq_iff)

lemma soc_shape_dcache [simp]: "soc_shape (m\<lparr>m_dcache := x\<rparr>) = soc_shape m"
  by (simp add: soc_shape_def)

lemma in_sram_dcache [simp]: "in_sram (m\<lparr>m_dcache := x\<rparr>) a = in_sram m a"
  by (simp add: in_sram_def)

lemma ensure_cache_line_hit:
  "m_dcache m = Some dc \<Longrightarrow> way_of dc a \<noteq> None \<Longrightarrow> ensure_cache_line D a m = (Inr (), m)"
  by (simp add: ensure_cache_line_def dc_contains_way)

lemma ensure_cache_line_miss:
  assumes "m_dcache m = Some dc" and "way_of dc a = None"
    and "read_line_from_backing D (line_of a) m = (Inr d, m)" and "fill_line a d dc = (ev, dc')"
  shows "ensure_cache_line D a m = (case ev of None \<Rightarrow> (Inr (), m\<lparr>m_dcache := Some dc'\<rparr>)
    | Some e \<Rightarrow> writeback_line D (ev_addr e) (ev_data e) (m\<lparr>m_dcache := Some dc'\<rparr>))"
  unfolding ensure_cache_line_def line_of_def [symmetric] Let_def
  using assms by (simp add: dc_contains_way bindM_def split: option.split)

lemma ensure_cache_line_ok:
  assumes ok: "soc_ok m" and a: "in_sram m a"
  obtains m' dc' where "ensure_cache_line D a m = (Inr (), m')" and "refilled m m'" and "soc_ok m'"
    and "mem_view m' = mem_view m" and "m_dcache m' = Some dc'" and "way_of dc' a \<noteq> None"
    and "dcache_enabled m' = dcache_enabled m"
proof -
  obtain dc where dc: "m_dcache m = Some dc" and fits: "dcache_fits m dc" and shape: "soc_shape m"
    using ok by (rule soc_okE)
  show thesis
  proof (cases "way_of dc a")
    case (Some w)
    have "refilled m m" unfolding refilled_def using dc by (metis memory.surjective memory.update_convs(1,4))
    then show thesis
      using that ensure_cache_line_hit [OF dc] Some ok dc by blast
  next
    case miss: None
    let ?data = "take 32 (drop (unat (line_of a)) (m_data m))"
    have len: "length ?data = 32" using line_fits [OF shape a] by simp
    have dok: "dcache_ok dc" and cl: "clean_lines dc (store_of m)"
      and inside: "\<And>b. way_of dc b \<noteq> None \<Longrightarrow> in_sram m b"
      using fits by (auto simp: dcache_fits_def in_sram_def)
    obtain ev dc' where fill: "fill_line a ?data dc = (ev, dc')" by (cases "fill_line a ?data dc")
    have bytes: "?data ! off_of b = store_of m b" if "line_of b = line_of a" for b
      by (rule read_line_bytes [OF shape a that])
    have view: "backing_view dc' (write_back_option ev (store_of m)) = backing_view dc (store_of m)"
      "clean_lines dc' (write_back_option ev (store_of m))" "dcache_ok dc'" "way_of dc' a \<noteq> None"
      "dc_enabled dc' = dc_enabled dc"
      by (rule fill_line_view [OF dok cl miss len _ fill], erule bytes)+
    have old: "line_of b = line_of a \<or> way_of dc b \<noteq> None" if "way_of dc' b \<noteq> None" for b
      by (rule fill_line_view(5) [OF dok cl miss len _ fill that], erule bytes)
    let ?m1 = "m\<lparr>m_dcache := Some dc'\<rparr>"
    note ens = ensure_cache_line_miss [OF dc miss read_line_sram [OF shape a] fill]
    have inside': "in_sram m b" if "way_of dc' b \<noteq> None" for b
      using old [OF that] inside a in_sram_same_line [OF shape] by blast
    have mview: "mem_view m = backing_view dc (store_of m)" by (simp add: mem_view_def dc)
    show thesis
    proof (cases ev)
      case None
      have "soc_ok ?m1"
        using shape view(2,3) inside' None
        by (auto simp: soc_ok_def dcache_fits_def write_back_option_def in_sram_def)
      moreover have "mem_view ?m1 = mem_view m"
        using view(1) None by (simp add: mview) (simp add: mem_view_def write_back_option_def)
      moreover have "refilled m ?m1" unfolding refilled_def by (metis memory.surjective memory.update_convs(1,4))
      moreover have "dcache_enabled ?m1 = dcache_enabled m" using view(5) by (simp add: dcache_enabled_def dc)
      ultimately show thesis using that [of ?m1 dc'] ens None view(4) by simp
    next
      case (Some e)
      have ef: "evicted_from dc e"
        using fill_line_evicted [OF dok miss len] fill Some by simp
      have shape1: "soc_shape ?m1" using shape by simp
      obtain d where wb: "writeback_line D (ev_addr e) (ev_data e) ?m1 = (Inr (), ?m1\<lparr>m_data := d\<rparr>)"
        and dlen: "length d = length (m_data ?m1)"
        and store: "store_of (?m1\<lparr>m_data := d\<rparr>) = write_back e (store_of ?m1)"
        by (rule writeback_evicted [OF shape1 _ ef]) (use inside in simp_all)
      let ?m2 = "?m1\<lparr>m_data := d\<rparr>"
      have s2: "store_of ?m2 = write_back_option ev (store_of m)"
        using store Some by (simp add: write_back_option_def)
      have shape2: "soc_shape ?m2" using shape dlen by (simp add: soc_shape_def)
      have "soc_ok ?m2"
        using shape2 view(2,3) inside' s2 dlen
        by (auto simp: soc_ok_def dcache_fits_def in_sram_def)
      moreover have "mem_view ?m2 = mem_view m"
        using view(1) by (simp add: mem_view_def dc s2)
      moreover have "refilled m ?m2"
        unfolding refilled_def using dlen by (intro exI [of _ d] exI [of _ dc']) simp
      moreover have "dcache_enabled ?m2 = dcache_enabled m" using view(5) by (simp add: dcache_enabled_def dc)
      ultimately show thesis using that [of ?m2 dc'] ens Some wb view(4) by simp
    qed
  qed
qed

section \<open>Stores into cached lines\<close>

text \<open>The abstract effect of a list of byte stores.\<close>

definition stored :: "(u32 \<times> u8) list \<Rightarrow> (u32 \<Rightarrow> u8) \<Rightarrow> u32 \<Rightarrow> u8" where
  "stored ws f = fold (\<lambda>(a, v) f. f(a := v)) ws f"

lemma stored_simps [simp]: "stored [] f = f" "stored ((a, v) # ws) f = stored ws (f(a := v))"
  by (simp_all add: stored_def)

lemma dc_store_simps [simp]:
  "dc_store [] dc = dc" "dc_store ((a, v) # ws) dc = dc_store ws (snd (dc_write_byte a v dc))"
  by (simp_all add: dc_store_def)

lemma dc_write_byte_flags [simp]:
  "dc_enabled (snd (dc_write_byte a v dc)) = dc_enabled dc" "dc_im (snd (dc_write_byte a v dc)) = dc_im dc"
  by (auto simp: dc_write_byte_def put_line_def split: prod.split option.split)

lemma dc_store_flags [simp]:
  "dc_enabled (dc_store ws dc) = dc_enabled dc" "dc_im (dc_store ws dc) = dc_im dc"
  by (induction ws arbitrary: dc) auto

lemma dcache_ok_dc_store: "dcache_ok dc \<Longrightarrow> dcache_ok (dc_store ws dc)"
  by (induction ws arbitrary: dc) (auto simp: dcache_ok_dc_write_byte)

lemma way_of_dc_store: "dcache_ok dc \<Longrightarrow> way_of (dc_store ws dc) b = way_of dc b"
  by (induction ws arbitrary: dc) (auto simp: way_of_dc_write_byte dcache_ok_dc_write_byte)

lemma clean_dc_store: "dcache_ok dc \<Longrightarrow> clean_lines dc f \<Longrightarrow> clean_lines (dc_store ws dc) f"
  by (induction ws arbitrary: dc) (auto simp: clean_dc_write_byte dcache_ok_dc_write_byte)

lemma view_dc_store:
  "dcache_ok dc \<Longrightarrow> (\<And>a v. (a, v) \<in> set ws \<Longrightarrow> way_of dc a \<noteq> None) \<Longrightarrow>
     backing_view (dc_store ws dc) f = stored ws (backing_view dc f)"
proof (induction ws arbitrary: dc)
  case (Cons w ws)
  obtain a v where w: "w = (a, v)" by (cases w)
  have "backing_view (dc_store ws (snd (dc_write_byte a v dc))) f
      = stored ws (backing_view (snd (dc_write_byte a v dc)) f)"
    using Cons.prems by (intro Cons.IH) (auto simp: dcache_ok_dc_write_byte way_of_dc_write_byte)
  then show ?case
    using Cons.prems(2) [of a v] by (simp add: w view_dc_write_byte [OF Cons.prems(1)])
qed simp

text \<open>A store into SRAM and, on a hit, into the line: the line stays clean or is marked dirty, and a
  read sees the store.\<close>

lemma clean_write_through:
  assumes ok: "dcache_ok dc" and cl: "clean_lines dc f"
  shows "clean_lines (snd (dc_write_byte a v dc)) (f(a := v))"
  unfolding clean_lines_def
proof (intro allI impI)
  fix b w assume b: "way_of (snd (dc_write_byte a v dc)) b = Some w"
    and nd: "\<not> line_dirty (dc_line (snd (dc_write_byte a v dc)) (set_of b) w)"
  have "b \<noteq> a"
  proof
    assume "b = a"
    with b have "way_of dc a = Some w" by (simp add: way_of_dc_write_byte [OF ok])
    then show False
      using nd \<open>b = a\<close> dc_line_dc_write_byte [OF ok _ way_of_less, of a w]
      by (simp add: written_line_def)
  qed
  then show "line_data (dc_line (snd (dc_write_byte a v dc)) (set_of b) w) ! off_of b = (f(a := v)) b"
    using clean_dc_write_byte [OF ok cl] b nd by (simp add: clean_lines_def)
qed

lemma view_write_through:
  assumes ok: "dcache_ok dc"
  shows "backing_view (snd (dc_write_byte a v dc)) (f(a := v)) = (backing_view dc f)(a := v)"
  using way_of_dc_write_byte [OF ok] peek_dc_write_byte [OF ok]
  by (fastforce simp: backing_view_def peek_byte_way split: option.split)

lemma dc_store_through:
  assumes "dcache_ok dc" and "clean_lines dc f"
  shows "clean_lines (dc_store ws dc) (stored ws f)"
    and "backing_view (dc_store ws dc) (stored ws f) = stored ws (backing_view dc f)"
  using assms
  by (induction ws arbitrary: dc f)
    (auto simp: clean_write_through dcache_ok_dc_write_byte view_write_through)

section \<open>Aligned addresses\<close>

definition align_down :: "u32 \<Rightarrow> u32 \<Rightarrow> u32" where
  "align_down width a = a AND NOT (width - 1)"

lemma unat_and_not_mask:
  fixes x :: "'a::len word"
  shows "unat (x AND NOT (mask n)) = 2 ^ n * (unat x div 2 ^ n)"
proof -
  have "x AND NOT (mask n) = push_bit n (drop_bit n x)"
    by (rule bit_word_eqI) (auto simp: bit_simps not_less)
  then have "unat (x AND NOT (mask n)) = take_bit LENGTH('a) (push_bit n (unat (drop_bit n x)))"
    by (simp only: unsigned_push_bit_eq)
  also have "\<dots> = (unat x div 2 ^ n * 2 ^ n) mod 2 ^ LENGTH('a)"
    by (simp only: unat_drop_bit_div take_bit_eq_mod push_bit_eq_mult)
  also have "\<dots> = unat x div 2 ^ n * 2 ^ n"
    by (intro mod_less le_less_trans [OF div_times_less_eq_dividend unsigned_less])
  finally show ?thesis by (simp only: mult.commute)
qed

lemma unat_align:
  "unat (align_down 4 a) = 4 * (unat a div 4)" "unat (align_down 2 a) = 2 * (unat a div 2)"
proof -
  have "align_down 4 a = a AND NOT (mask 2)" "align_down 2 a = a AND NOT (mask 1)"
    by (simp_all add: align_down_def mask_eq_exp_minus_1)
  then show "unat (align_down 4 a) = 4 * (unat a div 4)" "unat (align_down 2 a) = 2 * (unat a div 2)"
    using unat_and_not_mask [of a 2] unat_and_not_mask [of a 1] by simp_all
qed

lemma align_down_1 [simp]: "align_down 1 a = a"
  by (simp add: align_down_def)

lemma line_number_parts:
  "k < 4 \<Longrightarrow> (4 * (x div 4) + k) div 32 = x div 32" "k < 2 \<Longrightarrow> (2 * (x div 2) + k) div 32 = x div 32"
  for x k :: nat
proof -
  have "(4 * q + k) div 4 div 8 = q div 8" if "k < 4" for q using that by simp
  then show "k < 4 \<Longrightarrow> (4 * (x div 4) + k) div 32 = x div 32"
    by (simp only: flip: div_mult2_eq) simp
  have "(2 * q + k) div 2 div 16 = q div 16" if "k < 2" for q using that by simp
  then show "k < 2 \<Longrightarrow> (2 * (x div 2) + k) div 32 = x div 32"
    by (simp only: flip: div_mult2_eq) simp
qed

lemma line_of_align [simp]:
  "line_of (align_down 4 a) = line_of a" "line_of (align_down 2 a) = line_of a"
  using line_number_parts [of 0 "unat a"]
  by (simp_all add: word_unat_eq_iff unat_line_of unat_align)

lemma unat_in_word:
  "unat (align_down 4 a + 1) = unat (align_down 4 a) + 1"
  "unat (align_down 4 a + 2) = unat (align_down 4 a) + 2"
  "unat (align_down 4 a + 3) = unat (align_down 4 a) + 3"
  "unat (align_down 2 a + 1) = unat (align_down 2 a) + 1"
proof -
  have "x div 4 < 1073741824" "x div 2 < 2147483648" if "x < 4294967296" for x :: nat
    using that by simp_all
  then have "unat (align_down 4 a) + 3 < 2 ^ 32" "unat (align_down 2 a) + 1 < 2 ^ 32"
    using unat_less_32 [of a] by (force simp: unat_align)+
  then show "unat (align_down 4 a + 1) = unat (align_down 4 a) + 1"
    "unat (align_down 4 a + 2) = unat (align_down 4 a) + 2"
    "unat (align_down 4 a + 3) = unat (align_down 4 a) + 3"
    "unat (align_down 2 a + 1) = unat (align_down 2 a) + 1"
    using unat_plus_small [of "align_down 4 a" 1] unat_plus_small [of "align_down 4 a" 2]
      unat_plus_small [of "align_down 4 a" 3] unat_plus_small [of "align_down 2 a" 1] by simp_all
qed

lemma line_of_in_word [simp]:
  "line_of (align_down 4 a + 1) = line_of a" "line_of (align_down 4 a + 2) = line_of a"
  "line_of (align_down 4 a + 3) = line_of a" "line_of (align_down 2 a + 1) = line_of a"
  by (simp_all only: word_unat_eq_iff unat_line_of unat_in_word unat_align line_number_parts)

section \<open>Bookkeeping that moves no byte\<close>

definition same_store :: "'p memory \<Rightarrow> 'p memory \<Rightarrow> bool" where
  "same_store m m' \<longleftrightarrow> m_data m' = m_data m \<and> m_dcache m' = m_dcache m \<and> m_icache m' = m_icache m
     \<and> m_dccm_base m' = m_dccm_base m \<and> (m_bank m' = None \<longleftrightarrow> m_bank m = None)"

lemma same_store_refl [simp]: "same_store m m"
  and same_store_trans: "same_store m m' \<Longrightarrow> same_store m' m'' \<Longrightarrow> same_store m m''"
  by (auto simp: same_store_def)

lemma same_store_eqs:
  assumes "same_store m m'"
  shows "store_of m' = store_of m" "soc_shape m' = soc_shape m" "soc_ok m' = soc_ok m"
    "mem_view m' = mem_view m" "in_sram m' = in_sram m" "dcache_enabled m' = dcache_enabled m"
    "sram_offset m' = sram_offset m" "m_data m' = m_data m" "m_dcache m' = m_dcache m"
proof -
  have store: "store_of m' = store_of m" using assms by (simp add: same_store_def store_of_def fun_eq_iff)
  moreover have "dcache_fits m' = dcache_fits m"
    using assms by (intro ext) (simp add: same_store_def dcache_fits_def store)
  ultimately show "store_of m' = store_of m" "soc_shape m' = soc_shape m" "soc_ok m' = soc_ok m"
    "mem_view m' = mem_view m" "in_sram m' = in_sram m" "dcache_enabled m' = dcache_enabled m"
    "sram_offset m' = sram_offset m" "m_data m' = m_data m" "m_dcache m' = m_dcache m"
    using assms by (simp_all add: same_store_def soc_shape_def soc_ok_def mem_view_def in_sram_def
        dcache_enabled_def sram_offset_def fun_eq_iff [of "in_sram _"] fun_eq_iff [of "sram_offset _"]
        split: option.split)
qed

named_theorems same_store_intro

lemma same_store_steps [same_store_intro]:
  "same_store m (check_watch a w md m)"
  "same_store m (trace_data_read a sz x m)"
  "same_store m (record_misaligned a ea sz is_w m)"
  "same_store m (nco_ivt_mirror a y sz m)"
  by (simp_all add: same_store_def check_watch_def trace_data_read_def record_misaligned_def
      nco_ivt_mirror_def bank_modify_def Let_def split: option.split)

lemma data_effective_addr_eq:
  obtains m' where "data_effective_addr a w is_w m = (align_down w a, m')" and "same_store m m'"
proof
  let ?m = "snd (data_effective_addr a w is_w m)"
  show "data_effective_addr a w is_w m = (align_down w a, ?m)" "same_store m ?m"
    by (auto simp: data_effective_addr_def align_down_def Let_def same_store_steps)
qed

lemma same_store_prologue [same_store_intro]: "same_store m (store_prologue a v w bp m)"
  by (auto simp: store_prologue_def Let_def intro: same_store_intro same_store_trans)

lemma traced_Inr:
  assumes "f m = (Inr v, m')"
  obtains m'' where "traced a w val f m = (Inr v, m'')" and "same_store m' m''"
  using assms same_store_steps(2) by (auto simp: traced_def bindM_def modifyM_def returnM_def)

lemma uncached_iff:
  "soc_shape m \<Longrightarrow> uncached m a bp \<longleftrightarrow> bp \<or> \<not> in_sram m a \<or> \<not> dcache_enabled m"
  by (simp add: uncached_def is_mmio_def sram_offset_eq)

section \<open>The contract of a data port\<close>

definition view_half :: "(u32 \<Rightarrow> u8) \<Rightarrow> u32 \<Rightarrow> u16" where
  "view_half f a = be_half (f a) (f (a + 1))"

definition view_word :: "(u32 \<Rightarrow> u8) \<Rightarrow> u32 \<Rightarrow> u32" where
  "view_word f a = be_word (f a) (f (a + 1)) (f (a + 2)) (f (a + 3))"

locale data_port =
  fixes ok :: "'m \<Rightarrow> bool"
    and inside :: "'m \<Rightarrow> u32 \<Rightarrow> bool"
    and view :: "'m \<Rightarrow> u32 \<Rightarrow> u8"
    and rd :: "u32 \<Rightarrow> ('m, 'v) op"
    and wr :: "u32 \<Rightarrow> 'v \<Rightarrow> ('m, unit) op"
    and load :: "(u32 \<Rightarrow> u8) \<Rightarrow> u32 \<Rightarrow> 'v"
    and stores :: "u32 \<Rightarrow> 'v \<Rightarrow> (u32 \<times> u8) list"
  assumes rd_ok: "ok m \<Longrightarrow> inside m a \<Longrightarrow>
      \<exists>m'. rd a m = (Inr (load (view m) a), m') \<and> ok m' \<and> view m' = view m \<and> inside m' = inside m"
    and wr_ok: "ok m \<Longrightarrow> inside m a \<Longrightarrow>
      \<exists>m'. wr a v m = (Inr (), m') \<and> ok m' \<and> view m' = stored (stores a v) (view m) \<and> inside m' = inside m"
    and load_stored: "load (stored (stores a v) f) a = v"
    and stored_twice: "stored (stores a v) (stored (stores a u) f) = stored (stores a v) f"
begin

lemma store_load:
  assumes "ok m" and "inside m a"
  shows "\<exists>m'. bindM (wr a v) (\<lambda>_. rd a) m = (Inr v, m') \<and> ok m' \<and> view m' = stored (stores a v) (view m)"
proof -
  obtain m1 where 1: "wr a v m = (Inr (), m1)" "ok m1" "view m1 = stored (stores a v) (view m)" "inside m1 = inside m"
    using wr_ok [OF assms] by blast
  obtain m2 where "rd a m1 = (Inr (load (view m1) a), m2)" "ok m2" "view m2 = view m1"
    using rd_ok [of m1 a] 1 assms by auto
  then show ?thesis using 1 by (simp add: bindM_def load_stored)
qed

text \<open>Reading twice, or overwriting: the second access decides.\<close>

lemma load_load:
  assumes "ok m" and "inside m a"
  shows "\<exists>v m'. rd a m = (Inr v, m') \<and> (\<exists>m''. rd a m' = (Inr v, m''))"
  using rd_ok [OF assms] rd_ok assms by metis

lemma store_store:
  assumes "ok m" and "inside m a"
  shows "\<exists>m'. bindM (wr a u) (\<lambda>_. wr a v) m = (Inr (), m') \<and> ok m' \<and> view m' = stored (stores a v) (view m)"
proof -
  obtain m1 where 1: "wr a u m = (Inr (), m1)" "ok m1" "view m1 = stored (stores a u) (view m)" "inside m1 = inside m"
    using wr_ok [OF assms] by blast
  obtain m2 where "wr a v m1 = (Inr (), m2)" "ok m2" "view m2 = stored (stores a v) (view m1)"
    using wr_ok [of m1 a v] 1 assms by auto
  then show ?thesis using 1 by (simp add: bindM_def stored_twice)
qed

end

lemma word_neq_plus:
  "a + 1 \<noteq> a" "a + 2 \<noteq> a" "a + 3 \<noteq> a" "a + 2 \<noteq> a + 1" "a + 3 \<noteq> a + 1" "a + 3 \<noteq> a + 2"
  "a \<noteq> a + 1" "a \<noteq> a + 2" "a \<noteq> a + 3" "a + 1 \<noteq> a + 2" "a + 1 \<noteq> a + 3" "a + 2 \<noteq> a + 3" for a :: u32
  by simp_all

lemma view_word_stored: "view_word (stored (word_stores a v) f) a = v"
  by (simp add: view_word_def word_stores_def word_neq_plus)

lemma view_half_stored: "view_half (stored (half_stores a v) f) a = v"
  by (simp add: view_half_def half_stores_def word_neq_plus)

lemma stored_word_twice: "stored (word_stores a v) (stored (word_stores a u) f) = stored (word_stores a v) f"
  and stored_half_twice: "stored (half_stores a w) (stored (half_stores a w') f) = stored (half_stores a w) f"
  by (auto simp: word_stores_def half_stores_def fun_eq_iff)

section \<open>The cached port\<close>

definition cached_ok :: "'p memory \<Rightarrow> bool" where
  "cached_ok m \<longleftrightarrow> soc_ok m \<and> dcache_enabled m"

lemma cached_byte_ok:
  assumes "soc_ok m" and "m_dcache m = Some dc" and "way_of dc a \<noteq> None"
  shows "cached_byte a m = (Inr (mem_view m a), m)"
  using assms by (auto simp: cached_byte_def dc_read_byte_eq_peek mem_view_def backing_view_def peek_byte_way)

lemma cached_store_ok:
  assumes ok: "soc_ok m" and dc: "m_dcache m = Some dc"
    and hit: "\<And>a v. (a, v) \<in> set ws \<Longrightarrow> way_of dc a \<noteq> None"
  obtains m' where "cached_store ws m = (Inr (), m')" and "soc_ok m'"
    and "mem_view m' = stored ws (mem_view m)" and "in_sram m' = in_sram m"
    and "dcache_enabled m' = dcache_enabled m"
proof
  let ?m = "m\<lparr>m_dcache := Some (dc_store ws dc)\<rparr>"
  have fits: "dcache_fits m dc" and shape: "soc_shape m" using ok dc by (auto simp: soc_ok_def)
  then have dok: "dcache_ok dc" by (simp add: dcache_fits_def)
  show "cached_store ws m = (Inr (), ?m)" by (simp add: cached_store_def dc)
  show "soc_ok ?m"
    using fits shape by (simp add: soc_ok_def dcache_fits_def dcache_ok_dc_store clean_dc_store way_of_dc_store)
  have "mem_view ?m = backing_view (dc_store ws dc) (store_of m)" by (simp add: mem_view_def)
  also have "\<dots> = stored ws (backing_view dc (store_of m))" by (rule view_dc_store [OF dok hit])
  finally show "mem_view ?m = stored ws (mem_view m)" by (simp add: mem_view_def dc)
  show "in_sram ?m = in_sram m" by (intro ext) simp
  show "dcache_enabled ?m = dcache_enabled m" by (simp add: dcache_enabled_def dc)
qed

text \<open>A read through the cache: the line is brought in, and \<open>k\<close> reads bytes of that line.\<close>

lemma cached_read:
  assumes ok: "cached_ok m" and a: "in_sram m a"
    and k: "\<And>m1 dc. soc_ok m1 \<Longrightarrow> m_dcache m1 = Some dc \<Longrightarrow>
        (\<And>b. line_of b = line_of a \<Longrightarrow> way_of dc b \<noteq> None) \<Longrightarrow> k m1 = (Inr (g (mem_view m1)), m1)"
  obtains m' where "thenM (ensure_cache_line D a) k m = (Inr (g (mem_view m)), m')"
    and "cached_ok m'" and "mem_view m' = mem_view m" and "in_sram m' = in_sram m"
proof -
  obtain m1 dc where 1: "ensure_cache_line D a m = (Inr (), m1)" "refilled m m1" "soc_ok m1"
    "mem_view m1 = mem_view m" "m_dcache m1 = Some dc" "way_of dc a \<noteq> None"
    "dcache_enabled m1 = dcache_enabled m"
    by (rule ensure_cache_line_ok) (use ok a in \<open>auto simp: cached_ok_def\<close>)
  have "way_of dc b \<noteq> None" if "line_of b = line_of a" for b
    using way_of_same_line [OF that] 1(6) by simp
  from k [OF 1(3,5) this] have "k m1 = (Inr (g (mem_view m)), m1)" by (simp add: 1(4))
  moreover have "in_sram m1 = in_sram m" using in_sram_refilled [OF 1(2)] by (intro ext)
  ultimately show thesis using that 1 ok by (simp add: thenM_def bindM_def cached_ok_def)
qed

lemma cached_write:
  assumes ok: "cached_ok m" and a: "in_sram m a"
    and ws: "\<And>b v. (b, v) \<in> set ws \<Longrightarrow> line_of b = line_of a"
  obtains m' where "thenM (ensure_cache_line D a) (cached_store ws) m = (Inr (), m')"
    and "cached_ok m'" and "mem_view m' = stored ws (mem_view m)" and "in_sram m' = in_sram m"
proof -
  obtain m1 dc where 1: "ensure_cache_line D a m = (Inr (), m1)" "refilled m m1" "soc_ok m1"
    "mem_view m1 = mem_view m" "m_dcache m1 = Some dc" "way_of dc a \<noteq> None"
    "dcache_enabled m1 = dcache_enabled m"
    by (rule ensure_cache_line_ok) (use ok a in \<open>auto simp: cached_ok_def\<close>)
  have "way_of dc b \<noteq> None" if "(b, v) \<in> set ws" for b v
    using way_of_same_line [OF ws [OF that]] 1(6) by simp
  then obtain m2 where 2: "cached_store ws m1 = (Inr (), m2)" "soc_ok m2"
    "mem_view m2 = stored ws (mem_view m1)" "in_sram m2 = in_sram m1" "dcache_enabled m2 = dcache_enabled m1"
    by (rule cached_store_ok [OF 1(3,5)])
  have "in_sram m1 = in_sram m" using in_sram_refilled [OF 1(2)] by (intro ext)
  then show thesis using that 1 2 ok by (simp add: thenM_def bindM_def cached_ok_def)
qed

lemma cached_ok_same_store: "same_store m m' \<Longrightarrow> cached_ok m' = cached_ok m"
  by (simp add: cached_ok_def same_store_eqs)

lemma in_sram_align:
  assumes "soc_shape m"
  shows "in_sram m (align_down 4 a) = in_sram m a" "in_sram m (align_down 2 a) = in_sram m a"
  by (rule in_sram_same_line [OF assms]; simp)+

lemma cached_read_at:
  assumes ok: "cached_ok m" and a: "in_sram m a" and same: "same_store m m1"
    and inner: "\<not> uncached m1 a False \<Longrightarrow> inner m1 = thenM (ensure_cache_line D a) k m1"
    and k: "\<And>m1 dc. soc_ok m1 \<Longrightarrow> m_dcache m1 = Some dc \<Longrightarrow>
        (\<And>b. line_of b = line_of a \<Longrightarrow> way_of dc b \<noteq> None) \<Longrightarrow> k m1 = (Inr (g (mem_view m1)), m1)"
  shows "\<exists>m'. traced a w val inner m1 = (Inr (g (mem_view m)), m')
    \<and> cached_ok m' \<and> mem_view m' = mem_view m \<and> in_sram m' = in_sram m"
proof -
  have ok1: "cached_ok m1" "in_sram m1 a"
    using ok a same by (simp_all add: cached_ok_same_store same_store_eqs)
  then have "inner m1 = thenM (ensure_cache_line D a) k m1"
    by (intro inner) (simp add: uncached_iff cached_ok_def soc_ok_shape)
  moreover obtain m2 where "thenM (ensure_cache_line D a) k m1 = (Inr (g (mem_view m1)), m2)"
    "cached_ok m2" "mem_view m2 = mem_view m1" "in_sram m2 = in_sram m1"
    by (rule cached_read [OF ok1 k])
  moreover from calculation obtain m3 where "traced a w val inner m1 = (Inr (g (mem_view m1)), m3)"
    "same_store m2 m3" by (metis traced_Inr)
  ultimately show ?thesis using same by (simp add: cached_ok_same_store same_store_eqs)
qed

lemma cached_write_at:
  assumes ok: "cached_ok m" and a: "in_sram m a" and same: "same_store m m1"
    and ws: "\<And>b v. (b, v) \<in> set ws \<Longrightarrow> line_of b = line_of a"
    and inner: "\<not> uncached m1 a False \<Longrightarrow> inner = thenM (ensure_cache_line D a) (cached_store ws) m1"
  shows "\<exists>m'. inner = (Inr (), m')
    \<and> cached_ok m' \<and> mem_view m' = stored ws (mem_view m) \<and> in_sram m' = in_sram m"
proof -
  have ok1: "cached_ok m1" "in_sram m1 a"
    using ok a same by (simp_all add: cached_ok_same_store same_store_eqs)
  then have "inner = thenM (ensure_cache_line D a) (cached_store ws) m1"
    by (intro inner) (simp add: uncached_iff cached_ok_def soc_ok_shape)
  moreover obtain m2 where "thenM (ensure_cache_line D a) (cached_store ws) m1 = (Inr (), m2)"
    "cached_ok m2" "mem_view m2 = stored ws (mem_view m1)" "in_sram m2 = in_sram m1"
    by (rule cached_write [OF ok1 ws])
  ultimately show ?thesis using same by (simp add: same_store_eqs)
qed

lemmas cached_k = bindM_def returnM_def cached_byte_ok view_word_def view_half_def
lemmas in_sram_aligned = in_sram_align [OF soc_ok_shape]

lemma cached_ok_soc: "cached_ok m \<Longrightarrow> soc_ok m"
  by (simp add: cached_ok_def)

lemma cached_read_word:
  assumes ok: "cached_ok m" and a: "in_sram m a"
  shows "\<exists>m'. read_word_data D a False m = (Inr (view_word (mem_view m) (align_down 4 a)), m')
    \<and> cached_ok m' \<and> mem_view m' = mem_view m \<and> in_sram m' = in_sram m"
proof -
  obtain m1 where 1: "data_effective_addr a 4 False m = (align_down 4 a, m1)" and s1: "same_store m m1"
    by (rule data_effective_addr_eq)
  have "in_sram m (align_down 4 a)" using a ok by (simp add: in_sram_aligned cached_ok_soc)
  from cached_read_at [OF ok this s1, where inner = "read_word_data_inner D (align_down 4 a) False"
      and D = D and w = 4 and val = id and g = "\<lambda>f. view_word f (align_down 4 a)"]
  show ?thesis by (simp add: read_word_data_def 1 read_word_data_inner_def cached_k)
qed

lemma cached_read_half:
  assumes ok: "cached_ok m" and a: "in_sram m a"
  shows "\<exists>m'. read_half_data D a False m = (Inr (view_half (mem_view m) (align_down 2 a)), m')
    \<and> cached_ok m' \<and> mem_view m' = mem_view m \<and> in_sram m' = in_sram m"
proof -
  obtain m1 where 1: "data_effective_addr a 2 False m = (align_down 2 a, m1)" and s1: "same_store m m1"
    by (rule data_effective_addr_eq)
  have "in_sram m (align_down 2 a)" using a ok by (simp add: in_sram_aligned cached_ok_soc)
  from cached_read_at [OF ok this s1, where inner = "read_half_data_inner D (align_down 2 a) False"
      and D = D and w = 2 and val = ucast and g = "\<lambda>f. view_half f (align_down 2 a)"]
  show ?thesis by (simp add: read_half_data_def 1 read_half_data_inner_def cached_k)
qed

lemma cached_read_byte:
  assumes ok: "cached_ok m" and a: "in_sram m a"
  shows "\<exists>m'. read_byte_data D a False m = (Inr (mem_view m a), m')
    \<and> cached_ok m' \<and> mem_view m' = mem_view m \<and> in_sram m' = in_sram m"
  using cached_read_at [OF ok a same_store_refl, where inner = "read_byte_data_inner D a False"
      and D = D and w = 1 and val = ucast and g = "\<lambda>f. f a"]
  by (simp add: read_byte_data_def read_byte_data_inner_def cached_k)

lemma cached_write_word:
  assumes ok: "cached_ok m" and a: "in_sram m a"
  shows "\<exists>m'. write_word_data D a v False m = (Inr (), m')
    \<and> cached_ok m' \<and> mem_view m' = stored (word_stores (align_down 4 a) v) (mem_view m) \<and> in_sram m' = in_sram m"
proof -
  obtain m1 where 1: "data_effective_addr a 4 True m = (align_down 4 a, m1)" and s1: "same_store m m1"
    by (rule data_effective_addr_eq)
  show ?thesis
    by (rule cached_write_at [OF ok _ same_store_trans [OF s1 same_store_prologue], where a = "align_down 4 a"])
      (use ok a in \<open>auto simp: write_word_data_def 1 Let_def in_sram_aligned cached_ok_soc word_stores_def\<close>)
qed

lemma cached_write_half:
  assumes ok: "cached_ok m" and a: "in_sram m a"
  shows "\<exists>m'. write_half_data D a v False m = (Inr (), m')
    \<and> cached_ok m' \<and> mem_view m' = stored (half_stores (align_down 2 a) v) (mem_view m) \<and> in_sram m' = in_sram m"
proof -
  obtain m1 where 1: "data_effective_addr a 2 True m = (align_down 2 a, m1)" and s1: "same_store m m1"
    by (rule data_effective_addr_eq)
  show ?thesis
    by (rule cached_write_at [OF ok _ same_store_trans [OF s1 same_store_prologue], where a = "align_down 2 a"])
      (use ok a in \<open>auto simp: write_half_data_def 1 Let_def in_sram_aligned cached_ok_soc half_stores_def\<close>)
qed

lemma cached_write_byte:
  assumes ok: "cached_ok m" and a: "in_sram m a"
  shows "\<exists>m'. write_byte_data D a v False m = (Inr (), m')
    \<and> cached_ok m' \<and> mem_view m' = stored [(a, v)] (mem_view m) \<and> in_sram m' = in_sram m"
  by (rule cached_write_at [OF ok a same_store_prologue])
    (auto simp: write_byte_data_def Let_def)

interpretation cached_word: data_port cached_ok in_sram mem_view
    "\<lambda>a. read_word_data D a False" "\<lambda>a v. write_word_data D a v False"
    "\<lambda>f a. view_word f (align_down 4 a)" "\<lambda>a. word_stores (align_down 4 a)" for D
  by unfold_locales
    (simp_all add: cached_read_word cached_write_word view_word_stored stored_word_twice)

interpretation cached_half: data_port cached_ok in_sram mem_view
    "\<lambda>a. read_half_data D a False" "\<lambda>a v. write_half_data D a v False"
    "\<lambda>f a. view_half f (align_down 2 a)" "\<lambda>a. half_stores (align_down 2 a)" for D
  by unfold_locales
    (simp_all add: cached_read_half cached_write_half view_half_stored stored_half_twice)

interpretation cached_byte: data_port cached_ok in_sram mem_view
    "\<lambda>a. read_byte_data D a False" "\<lambda>a v. write_byte_data D a v False"
    "\<lambda>f a. f a" "\<lambda>a v. [(a, v)]" for D
  by unfold_locales (simp_all add: cached_read_byte cached_write_byte [simplified])

lemma cached_ok_new_soc:
  assumes "32 dvd length img" and "length img < 2 ^ 32"
  shows "cached_ok (memory_new_soc img b)"
proof -
  have "way_of dc_new a = None" for a
    by (simp add: way_of_def find_way_def dc_line_def dc_new_def line_matches_def empty_line_def)
  then show ?thesis
    using assms dcache_ok_new
    by (simp add: cached_ok_def soc_ok_def soc_shape_def dcache_fits_def clean_lines_def
        memory_new_soc_def dcache_enabled_def) (simp add: dc_new_def)
qed

section \<open>The uncached port\<close>

text \<open>A \<open>.di\<close> access goes to SRAM; a store also updates a line that happens to be cached, so both the
  SRAM bytes and what the cached port reads change alike.\<close>

lemma bank_present: "soc_shape m \<Longrightarrow> m_bank m \<noteq> None"
  by (simp add: soc_shape_def)

lemma read_byte_backing_sram:
  "soc_shape m \<Longrightarrow> in_sram m a \<Longrightarrow> read_byte_backing D a m = (Inr (store_of m a), m)"
  using bank_present [of m] by (simp add: read_byte_backing_def sram_offset_eq store_of_def in_sram_def)

lemma in_sram_word:
  assumes "soc_shape m" and "in_sram m a"
  shows "in_sram m (align_down 4 a)" "in_sram m (align_down 4 a + 1)" "in_sram m (align_down 4 a + 2)"
    "in_sram m (align_down 4 a + 3)" "in_sram m (align_down 2 a)" "in_sram m (align_down 2 a + 1)"
proof -
  have "in_sram m b" if "line_of b = line_of a" for b
    using in_sram_same_line [OF assms(1) that] assms(2) by simp
  then show "in_sram m (align_down 4 a)" "in_sram m (align_down 4 a + 1)" "in_sram m (align_down 4 a + 2)"
    "in_sram m (align_down 4 a + 3)" "in_sram m (align_down 2 a)" "in_sram m (align_down 2 a + 1)"
    by simp_all
qed

lemma uncached_read_word:
  assumes ok: "soc_ok m" and a: "in_sram m a"
  shows "\<exists>m'. read_word_data D a True m = (Inr (view_word (store_of m) (align_down 4 a)), m')
    \<and> soc_ok m' \<and> store_of m' = store_of m \<and> in_sram m' = in_sram m"
proof -
  obtain m1 where 1: "data_effective_addr a 4 False m = (align_down 4 a, m1)" and s1: "same_store m m1"
    by (rule data_effective_addr_eq)
  have shape: "soc_shape m1" and a1: "in_sram m1 a"
    using ok a s1 by (simp_all add: same_store_eqs soc_ok_shape)
  have "read_word_data_inner D (align_down 4 a) True m1 = (Inr (view_word (store_of m1) (align_down 4 a)), m1)"
    using in_sram_word [OF shape a1]
    by (simp add: read_word_data_inner_def uncached_def sram_offset_eq [OF shape] bindM_def returnM_def
        read_byte_backing_sram [OF shape] view_word_def)
  then have "read_word_data_inner D (align_down 4 a) True m1 = (Inr (view_word (store_of m) (align_down 4 a)), m1)"
    using s1 by (simp add: same_store_eqs)
  then obtain m2 where "traced (align_down 4 a) 4 id (read_word_data_inner D (align_down 4 a) True) m1
      = (Inr (view_word (store_of m) (align_down 4 a)), m2)" "same_store m1 m2"
    by (metis traced_Inr)
  then show ?thesis
    using ok s1 by (auto simp: read_word_data_def 1 same_store_eqs)
qed

text \<open>A write-through store of bytes that SRAM holds.\<close>

lemma write_through:
  assumes ok: "soc_ok m" and len: "length d = length (m_data m)"
    and d: "store_of (m\<lparr>m_data := d\<rparr>) = stored ws (store_of m)"
  defines "m' \<equiv> dcache_modify (dc_store ws) (m\<lparr>m_data := d\<rparr>)"
  shows "soc_ok m'" "mem_view m' = stored ws (mem_view m)" "store_of m' = stored ws (store_of m)"
    "in_sram m' = in_sram m"
proof -
  obtain dc where dc: "m_dcache m = Some dc" and fits: "dcache_fits m dc" and shape: "soc_shape m"
    using ok by (rule soc_okE)
  have m': "m' = m\<lparr>m_data := d, m_dcache := Some (dc_store ws dc)\<rparr>"
    by (simp add: m'_def dcache_modify_def dc)
  have dok: "dcache_ok dc" and cl: "clean_lines dc (store_of m)" using fits by (auto simp: dcache_fits_def)
  show st: "store_of m' = stored ws (store_of m)" by (simp add: m' d)
  have "soc_shape m'" using shape len by (simp add: m' soc_shape_def)
  moreover have "dcache_fits m' (dc_store ws dc)"
    unfolding dcache_fits_def st
    using fits dok dc_store_through(1) [OF dok cl] len
    by (simp add: dcache_fits_def dcache_ok_dc_store way_of_dc_store m')
  ultimately show "soc_ok m'" by (simp add: soc_ok_def m')
  have "mem_view m' = backing_view (dc_store ws dc) (store_of m')" by (simp add: mem_view_def m')
  then show "mem_view m' = stored ws (mem_view m)"
    unfolding st using dc_store_through(2) [OF dok cl] by (simp add: mem_view_def dc)
  show "in_sram m' = in_sram m" by (intro ext) (simp add: in_sram_def m' len)
qed

lemma store_of_list_update:
  "in_sram m a \<Longrightarrow> store_of (m\<lparr>m_data := (m_data m)[unat a := v]\<rparr>) = (store_of m)(a := v)"
  by (auto simp: store_of_def in_sram_def fun_eq_iff nth_list_update word_unat_eq_iff)

lemma store_of_updates:
  assumes "length d = length (m_data m)" and "in_sram m a"
  shows "store_of (m\<lparr>m_data := d[unat a := v]\<rparr>) = (store_of (m\<lparr>m_data := d\<rparr>))(a := v)"
  using store_of_list_update [of "m\<lparr>m_data := d\<rparr>" a v] assms by (simp add: in_sram_def)

lemma store_of_same_data [simp]: "store_of (m\<lparr>m_data := m_data m\<rparr>) = store_of m"
  by (simp add: store_of_def fun_eq_iff)

lemma store_of_put_word:
  assumes "soc_shape m" and "in_sram m a"
  shows "store_of (m\<lparr>m_data := put_word (unat (align_down 4 a)) v (m_data m)\<rparr>)
    = stored (word_stores (align_down 4 a) v) (store_of m)"
  unfolding put_word_def word_stores_def stored_simps unat_in_word [symmetric]
  by (simp only: store_of_updates store_of_list_update length_list_update in_sram_word [OF assms]
      store_of_same_data)

lemma uncached_write_word:
  assumes ok: "soc_ok m" and a: "in_sram m a"
  shows "\<exists>m'. write_word_data D a v True m = (Inr (), m') \<and> soc_ok m'
    \<and> store_of m' = stored (word_stores (align_down 4 a) v) (store_of m)
    \<and> mem_view m' = stored (word_stores (align_down 4 a) v) (mem_view m) \<and> in_sram m' = in_sram m"
proof -
  obtain m1 where 1: "data_effective_addr a 4 True m = (align_down 4 a, m1)" and s1: "same_store m m1"
    by (rule data_effective_addr_eq)
  define m2 where "m2 = check_watch (align_down 4 a) 4 WatchWrite (store_prologue (align_down 4 a) v 4 True m1)"
  have s2: "same_store m m2"
    unfolding m2_def
    by (rule same_store_trans [OF s1 same_store_trans [OF same_store_prologue same_store_steps(1)]])
  have shape: "soc_shape m2" and ok2: "soc_ok m2" and a2: "in_sram m2 a"
    using ok a s2 by (simp_all add: same_store_eqs soc_ok_shape)
  let ?a = "align_down 4 a"
  have off: "sram_offset m2 ?a = Some (unat ?a)" and lt: "unat ?a + 3 < length (m_data m2)"
    using in_sram_word [OF shape a2] by (simp_all add: sram_offset_eq [OF shape] in_sram_def unat_in_word)
  have "write_word_data D a v True m = write_word D ?a v (store_prologue ?a v 4 True m1)"
    by (simp add: write_word_data_def 1 Let_def uncached_def)
  also have "\<dots> = (Inr (), dcache_modify (dc_store (word_stores ?a v))
      (m2\<lparr>m_data := put_word (unat ?a) v (m_data m2)\<rparr>))"
    unfolding write_word_def m2_def [symmetric] Let_def using off lt bank_present [OF shape] by simp
  finally have "write_word_data D a v True m = (Inr (), dcache_modify (dc_store (word_stores ?a v))
      (m2\<lparr>m_data := put_word (unat ?a) v (m_data m2)\<rparr>))" .
  moreover have "length (put_word (unat ?a) v (m_data m2)) = length (m_data m2)" by (simp add: put_word_def)
  note through = write_through [OF ok2 this store_of_put_word [OF shape a2]]
  ultimately show ?thesis
    using through unfolding same_store_eqs [OF s2] by blast
qed

interpretation uncached_word: data_port soc_ok in_sram store_of
    "\<lambda>a. read_word_data D a True" "\<lambda>a v. write_word_data D a v True"
    "\<lambda>f a. view_word f (align_down 4 a)" "\<lambda>a. word_stores (align_down 4 a)" for D
proof unfold_locales
  fix m :: "'a memory" and a v
  assume "soc_ok m" and "in_sram m a"
  from uncached_write_word [OF this, of D v]
  show "\<exists>m'. write_word_data D a v True m = (Inr (), m') \<and> soc_ok m'
    \<and> store_of m' = stored (word_stores (align_down 4 a) v) (store_of m) \<and> in_sram m' = in_sram m" by blast
qed (simp_all add: uncached_read_word view_word_stored stored_word_twice)

section \<open>Flat memory\<close>

definition flat_ok :: "'p memory \<Rightarrow> bool" where
  "flat_ok m \<longleftrightarrow> m_bank m = None \<and> m_dcache m = None \<and> m_dccm_base m = 0"

definition word_inside :: "'p memory \<Rightarrow> u32 \<Rightarrow> bool" where
  "word_inside m a \<longleftrightarrow> unat (align_down 4 a) + 3 < length (m_data m)"

lemma flat_ok_same_store: "same_store m m' \<Longrightarrow> flat_ok m' = flat_ok m"
  by (simp add: flat_ok_def same_store_def)

lemma word_inside_same_store: "same_store m m' \<Longrightarrow> word_inside m' = word_inside m"
  by (simp add: word_inside_def same_store_def fun_eq_iff)

lemma flat_store_of_put_word:
  assumes "word_inside m a"
  shows "store_of (m\<lparr>m_data := put_word (unat (align_down 4 a)) v (m_data m)\<rparr>)
    = stored (word_stores (align_down 4 a) v) (store_of m)"
proof -
  have "in_sram m (align_down 4 a)" "in_sram m (align_down 4 a + 1)"
    "in_sram m (align_down 4 a + 2)" "in_sram m (align_down 4 a + 3)"
    using assms by (simp_all add: in_sram_def word_inside_def unat_in_word)
  then show ?thesis
    unfolding put_word_def word_stores_def stored_simps unat_in_word [symmetric]
    by (simp only: store_of_updates store_of_list_update length_list_update store_of_same_data)
qed

lemma aligned_and_3: "align_down 4 a AND 3 = 0"
proof -
  have "align_down 4 a AND 3 = (a AND NOT 3) AND 3" by (simp add: align_down_def)
  then show ?thesis by (simp add: and.assoc)
qed

lemma flat_byte:
  assumes "flat_ok m" and "unat a < length (m_data m)"
  shows "read_byte_backing D a m = (Inr (store_of m a), m)"
  using assms by (simp add: read_byte_backing_def flat_ok_def check_bounds_def store_of_def)

lemma flat_read_word:
  assumes ok: "flat_ok m" and a: "word_inside m a"
  shows "\<exists>m'. read_word_data D a bp m = (Inr (view_word (store_of m) (align_down 4 a)), m')
    \<and> flat_ok m' \<and> store_of m' = store_of m \<and> word_inside m' = word_inside m"
proof -
  obtain m1 where 1: "data_effective_addr a 4 False m = (align_down 4 a, m1)" and s1: "same_store m m1"
    by (rule data_effective_addr_eq)
  let ?a = "align_down 4 a"
  have ok1: "flat_ok m1" and "word_inside m1 a"
    using ok a s1 by (simp_all add: flat_ok_same_store word_inside_same_store)
  then have lt: "unat ?a < length (m_data m1)" "unat (?a + 1) < length (m_data m1)"
    "unat (?a + 2) < length (m_data m1)" "unat (?a + 3) < length (m_data m1)"
    by (simp_all add: word_inside_def unat_in_word)
  have "sram_offset m1 ?a \<noteq> None" and unc: "uncached m1 ?a bp"
    using ok1 lt by (simp_all add: flat_ok_def sram_offset_def uncached_def dcache_enabled_def)
  then have "read_word_data_inner D ?a bp m1 = (Inr (view_word (store_of m1) ?a), m1)"
    by (auto simp: read_word_data_inner_def unc bindM_def returnM_def flat_byte [OF ok1] lt view_word_def)
  then obtain m2 where "traced ?a 4 id (read_word_data_inner D ?a bp) m1
      = (Inr (view_word (store_of m1) ?a), m2)" "same_store m1 m2"
    by (metis traced_Inr)
  then show ?thesis
    using ok s1
    by (auto simp: read_word_data_def 1 same_store_eqs flat_ok_same_store word_inside_same_store)
qed

lemma flat_write_word:
  assumes ok: "flat_ok m" and a: "word_inside m a"
  shows "\<exists>m'. write_word_data D a v bp m = (Inr (), m')
    \<and> flat_ok m' \<and> store_of m' = stored (word_stores (align_down 4 a) v) (store_of m)
    \<and> word_inside m' = word_inside m"
proof -
  obtain m1 where 1: "data_effective_addr a 4 True m = (align_down 4 a, m1)" and s1: "same_store m m1"
    by (rule data_effective_addr_eq)
  let ?a = "align_down 4 a"
  define m2 where "m2 = check_watch ?a 4 WatchWrite (store_prologue ?a v 4 bp m1)"
  have s2: "same_store m m2"
    unfolding m2_def
    by (rule same_store_trans [OF s1 same_store_trans [OF same_store_prologue same_store_steps(1)]])
  have s3: "same_store m (store_prologue ?a v 4 bp m1)"
    by (rule same_store_trans [OF s1 same_store_prologue])
  have ok2: "flat_ok m2" "flat_ok (store_prologue ?a v 4 bp m1)" and a2: "word_inside m2 a"
    using ok a s2 s3 by (simp_all add: flat_ok_same_store word_inside_same_store)
  have "write_word_data D a v bp m = write_word D ?a v (store_prologue ?a v 4 bp m1)"
    using ok2 by (simp add: write_word_data_def 1 Let_def uncached_def dcache_enabled_def flat_ok_def)
  also have "\<dots> = (Inr (), m2\<lparr>m_data := put_word (unat ?a) v (m_data m2)\<rparr>)"
    unfolding write_word_def m2_def [symmetric] Let_def
    using ok2 a2 by (simp add: flat_ok_def check_bounds_def word_inside_def aligned_and_3)
  finally show ?thesis
    using ok2 a2 s2 flat_store_of_put_word [OF a2, of v]
    by (simp add: flat_ok_def word_inside_def fun_eq_iff put_word_def same_store_eqs)
qed

interpretation flat_word: data_port flat_ok word_inside store_of
    "\<lambda>a. read_word_data D a bp" "\<lambda>a v. write_word_data D a v bp"
    "\<lambda>f a. view_word f (align_down 4 a)" "\<lambda>a. word_stores (align_down 4 a)" for D bp
  by unfold_locales (simp_all add: flat_read_word flat_write_word view_word_stored stored_word_twice)

end
