(* ===== verification/Memory_Fetch.thy ===== *)
theory Memory_Fetch
  imports Memory_Port
begin

text \<open>
  The fetch port of \<open>src/memory.rs\<close> against the decoder's interfaces: it never panics (the
  interpretation of \<open>instruction_fetch\<close>), and with a coherent instruction cache it answers
  as the byte slice of SRAM does (the interpretation of \<open>fetch_agreement\<close>), so that decoding
  from memory is decoding the bytes of SRAM.
\<close>

section \<open>No panic\<close>

lemma mem_fetch_half_no_panic: "fst (mem_fetch_half a m) \<noteq> Inl Panic"
  by (auto simp: mem_fetch_half_def sram_fetch_def check_bounds_def
      split: option.split prod.split if_split)

lemma mem_fetch_word_no_panic: "fst (mem_fetch_word a m) \<noteq> Inl Panic"
proof -
  have half: "mem_fetch_half a m \<noteq> (Inl Panic, m')" for a and m m' :: "'p memory"
    using mem_fetch_half_no_panic [of a m] by auto
  have "fst (bindM (mem_fetch_half a) (\<lambda>hi. bindM (mem_fetch_half (a + 2)) (\<lambda>lo. returnM (h hi lo))) m) \<noteq> Inl Panic"
    for h :: "u16 \<Rightarrow> u16 \<Rightarrow> u32"
    by (auto simp: bindM_def returnM_def half split: prod.split sum.split)
  then show ?thesis
    by (auto simp: mem_fetch_word_def sram_fetch_def check_bounds_def Let_def
        split: option.split prod.split if_split)
qed

lemma panic_freeI: "(\<And>s. fst (m s) \<noteq> Inl Panic) \<Longrightarrow> panic_free m"
  by (auto simp: panic_free_def yields_def wp_def split: prod.split sum.split) (metis fst_conv)

interpretation mem_port: instruction_fetch memory_fetch
  by unfold_locales
    (auto simp: memory_fetch_def intro!: panic_freeI mem_fetch_half_no_panic mem_fetch_word_no_panic)

section \<open>A coherent instruction cache\<close>

definition fetch_ok :: "u8 list \<Rightarrow> 'p memory \<Rightarrow> bool" where
  "fetch_ok bytes m \<longleftrightarrow> soc_shape m \<and> m_data m = bytes
     \<and> (case m_icache m of
          None \<Rightarrow> True
        | Some ic \<Rightarrow> icache_ok ic \<and> ic_coherent ic (store_of m)
                     \<and> (\<forall>a. ic_contains ic a \<longrightarrow> in_sram m a))"

lemma align_down_2_even: "a AND 1 = 0 \<Longrightarrow> align_down 2 a = a"
proof -
  assume "a AND 1 = 0"
  then have "\<not> bit a 0" by simp
  then have "a AND NOT 1 = a"
    by (intro bit_word_eqI) (auto simp: bit_simps bit_1_iff intro: gr0I)
  then show "align_down 2 a = a" by (simp add: align_down_def)
qed

lemma off_of_next: "line_of b = line_of a \<Longrightarrow> unat b = unat a + k \<Longrightarrow> off_of b = off_of a + k"
  using offset_in_line [of a] offset_in_line [of b] by simp

lemma within_line:
  assumes "off_of a + k < 32"
  shows "unat (a + of_nat k) = unat a + k" "line_of (a + of_nat k) = line_of a"
    "off_of (a + of_nat k) = off_of a + k"
proof -
  have "unat a div 32 \<le> 134217727" using unat_less_32 [of a] by simp
  then have "unat a + k < 4294967296"
    using assms offset_in_line [of a] unfolding unat_line_of by linarith
  then have "unat a + k < 2 ^ 32" by simp
  then show u: "unat (a + of_nat k) = unat a + k" by (rule unat_plus_small)
  have "(unat a + k) div 32 = unat a div 32"
    using assms offset_in_line [of a] unfolding unat_line_of by (intro div_nat_eqI) auto
  then show l: "line_of (a + of_nat k) = line_of a" by (simp add: word_unat_eq_iff unat_line_of u)
  show "off_of (a + of_nat k) = off_of a + k" by (rule off_of_next [OF l u])
qed

text \<open>The bytes a coherent line gives.\<close>

lemma ic_coherent_byte:
  assumes co: "ic_coherent ic f" and hit: "ic_contains ic a" and k: "off_of a + k < 32"
  shows "ic_data (ic_lines ic ! ic_set_of a) ! (off_of a + k) = f (a + of_nat k)"
proof -
  note w = within_line [OF k]
  have "ic_contains ic (a + of_nat k)" using hit ic_contains_same_line [OF w(2)] by simp
  moreover have "ic_set_of (a + of_nat k) = ic_set_of a" using ic_line_of_eq_iff w(2) by blast
  ultimately show ?thesis using co w(3) by (metis ic_coherent_def)
qed

lemma even_off: "a AND 1 = 0 \<Longrightarrow> off_of a + 1 < 32"
proof -
  assume "a AND 1 = 0"
  then have "unat a = 2 * (unat a div 2)" using unat_align(2) [of a] by (simp add: align_down_2_even)
  then show ?thesis unfolding off_of_mod by presburger
qed

lemma peek_half_coherent:
  assumes "ic_coherent ic f" and a: "a AND 1 = 0"
  shows "peek_half ic a = (if ic_contains ic a then Some (view_half f a) else None)"
  using ic_coherent_byte [OF assms(1), of a 0] ic_coherent_byte [OF assms(1), of a 1] even_off [OF a]
  by (auto simp: peek_half_def ic_decompose_fields Let_def ic_contains_fields view_half_def)

lemma peek_word_coherent:
  assumes "ic_coherent ic f" and a: "off_of a + 3 < 32"
  shows "peek_word ic a = (if ic_contains ic a then Some (view_word f a) else None)"
  using ic_coherent_byte [OF assms(1), of a 0] ic_coherent_byte [OF assms(1), of a 1]
    ic_coherent_byte [OF assms(1), of a 2] ic_coherent_byte [OF assms(1), of a 3] a
  by (auto simp: peek_word_def ic_decompose_fields Let_def ic_contains_fields view_word_def)

section \<open>Filling keeps it coherent\<close>

lemma fetch_ok_store:
  "fetch_ok bytes m \<Longrightarrow> soc_shape m \<and> m_data m = bytes"
  by (simp add: fetch_ok_def)

lemma icache_update_simps [simp]:
  "store_of (m\<lparr>m_icache := x\<rparr>) = store_of m" "in_sram (m\<lparr>m_icache := x\<rparr>) = in_sram m"
  "soc_shape (m\<lparr>m_icache := x\<rparr>) = soc_shape m"
  by (simp_all add: store_of_def in_sram_def soc_shape_def fun_eq_iff)

lemma icache_fill_ok:
  assumes ok: "fetch_ok bytes m" and ic: "m_icache m = Some ic"
  obtains ic' where "icache_fill a m = m\<lparr>m_icache := Some ic'\<rparr>"
    and "fetch_ok bytes (m\<lparr>m_icache := Some ic'\<rparr>)"
    and "ic_contains ic' a \<longleftrightarrow> ic_contains ic a \<or> in_sram m a"
proof -
  have shape: "soc_shape m" and iok: "icache_ok ic" and co: "ic_coherent ic (store_of m)"
    and inside: "\<And>b. ic_contains ic b \<Longrightarrow> in_sram m b" and data: "m_data m = bytes"
    using ok ic by (auto simp: fetch_ok_def)
  have line: "a AND NOT (32 - 1) = line_of a" by (simp add: line_of_def)
  show thesis
  proof (cases "ic_contains ic a \<or> \<not> in_sram m a")
    case True
    then have "icache_fill a m = m"
      unfolding icache_fill_def line
      using in_sram_same_line [OF shape, of "line_of a" a]
      by (auto simp: ic sram_offset_eq [OF shape])
    moreover have "m\<lparr>m_icache := Some ic\<rparr> = m" using ic by simp
    ultimately show thesis using that [of ic] True ok inside by auto
  next
    case False
    let ?d = "take 32 (drop (unat (line_of a)) (m_data m))"
    let ?ic = "ic_fill_line a ?d ic"
    have fits: "unat (line_of a) + 32 \<le> length (m_data m)" using line_fits [OF shape] False by blast
    then have len: "length ?d = 32" by simp
    have bytes: "?d ! off_of b = store_of m b" if "line_of b = line_of a" for b
      by (rule read_line_bytes [OF shape _ that]) (use False in simp)
    have fill: "icache_fill a m = m\<lparr>m_icache := Some ?ic\<rparr>"
      unfolding icache_fill_def line
      using False in_sram_same_line [OF shape, of "line_of a" a] fits
      by (simp add: ic sram_offset_eq [OF shape] min_def)
    have "in_sram m b" if "ic_contains ?ic b" for b
      using that False inside in_sram_same_line [OF shape, of b a]
      by (auto simp: ic_contains_fill [OF iok] split: if_splits)
    moreover have "ic_coherent ?ic (store_of m)"
      by (rule ic_coherent_fill [OF iok co]) (rule bytes)
    ultimately have "fetch_ok bytes (m\<lparr>m_icache := Some ?ic\<rparr>)"
      using shape data icache_ok_fill [OF iok len, of a] by (simp add: fetch_ok_def)
    moreover have "ic_contains ?ic a" by (simp add: ic_contains_fill [OF iok])
    ultimately show thesis using that fill False by blast
  qed
qed

section \<open>The fetch port answers as the bytes of SRAM\<close>

lemma icache_lookup_ok:
  assumes ok: "fetch_ok bytes m" and on: "icache_on m"
    and peek: "\<And>ic. ic_coherent ic (store_of m) \<Longrightarrow> peek ic a = (if ic_contains ic a then Some v else None)"
  obtains m' where "icache_lookup peek a m = (if in_sram m a then Some v else None, m')" and "fetch_ok bytes m'"
    and "in_sram m' = in_sram m"
proof -
  obtain ic where ic: "m_icache m = Some ic" using on by (auto simp: icache_on_def split: option.splits)
  have co: "ic_coherent ic (store_of m)" and inside: "\<And>b. ic_contains ic b \<Longrightarrow> in_sram m b"
    using ok ic by (auto simp: fetch_ok_def)
  show thesis
  proof (cases "ic_contains ic a")
    case True
    then show thesis
      using that [of m] ok inside ic peek [OF co] by (simp add: icache_lookup_def)
  next
    case False
    obtain ic' where 1: "icache_fill a m = m\<lparr>m_icache := Some ic'\<rparr>"
      "fetch_ok bytes (m\<lparr>m_icache := Some ic'\<rparr>)" "ic_contains ic' a \<longleftrightarrow> ic_contains ic a \<or> in_sram m a"
      by (rule icache_fill_ok [OF ok ic])
    then have "ic_coherent ic' (store_of m)" by (simp add: fetch_ok_def)
    then show thesis
      using that [of "m\<lparr>m_icache := Some ic'\<rparr>"] 1 False ic peek [OF co] peek [of ic']
      by (simp add: icache_lookup_def)
  qed
qed

lemma slice_fetch_half_sram:
  assumes "soc_shape m" and "a AND 1 = 0"
  shows "slice_fetch_half (m_data m) 0 a =
    (if in_sram m a then Inr (view_half (store_of m) a) else Inl (Exn (MemoryError a False)))"
proof -
  note w = within_line [OF even_off [OF assms(2)]]
  have "in_sram m (a + 1) = in_sram m a" using in_sram_same_line [OF assms(1) w(2)] by simp
  then show ?thesis
    using w(1) assms(2)
    by (auto simp: slice_fetch_half_def checked_sub_def Let_def view_half_def store_of_def in_sram_def)
qed

lemma mem_fetch_half_sram:
  assumes ok: "fetch_ok bytes m" and a: "a AND 1 = 0"
  obtains m' where "mem_fetch_half a m = (slice_fetch_half bytes 0 a, m')" and "fetch_ok bytes m'"
proof -
  have shape: "soc_shape m" and data: "m_data m = bytes" using ok by (simp_all add: fetch_ok_def)
  note slice = slice_fetch_half_sram [OF shape a, unfolded data]
  have sram: "sram_fetch 1 half_at a n = (slice_fetch_half bytes 0 a, n)"
    if "fetch_ok bytes n" for n :: "'a memory"
  proof -
    have n: "soc_shape n" "m_data n = bytes" using that by (simp_all add: fetch_ok_def)
    show ?thesis
      using slice_fetch_half_sram [OF n(1) a] n(2) a
      by (auto simp: sram_fetch_def sram_offset_eq [OF n(1)] slice_fetch_half_def checked_sub_def Let_def
          half_at_def in_sram_def)
  qed
  show thesis
  proof (cases "icache_on m")
    case True
    obtain m' where m': "icache_lookup peek_half a m
        = (if in_sram m a then Some (view_half (store_of m) a) else None, m')" "fetch_ok bytes m'"
      by (rule icache_lookup_ok [OF ok True, where peek = peek_half and v = "view_half (store_of m) a" and a = a])
        (simp_all add: peek_half_coherent a)
    then have "mem_fetch_half a m = (slice_fetch_half bytes 0 a, m')"
      using a bank_present [OF shape] True slice sram [OF m'(2)]
      by (simp add: mem_fetch_half_def)
    then show thesis using that m'(2) by blast
  next
    case False
    then show thesis
      using that [of m] a bank_present [OF shape] sram [OF ok] ok by (simp add: mem_fetch_half_def)
  qed
qed

lemma unat_plus_mod: "unat (a + b) = (unat a + unat b) mod 4294967296" for a b :: u32
  by (simp add: unat_word_ariths)

lemma unat_line_32: "unat (line_of a) = 32 * (unat a div 32) \<and> unat a div 32 < 134217728"
  using unat_less_32 [of a] by (simp add: unat_line_of)

lemma line_end_fits: "a + 4 \<le> line_of a + 32 \<Longrightarrow> off_of a + 3 < 32"
proof -
  assume le: "a + 4 \<le> line_of a + 32"
  define q where "q = unat a div 32"
  have a: "unat a = 32 * q + off_of a" and q: "q < 134217728" and off: "off_of a < 32"
    using offset_in_line [of a] unat_line_32 [of a] by (simp_all add: q_def)
  have "unat (a + 4) \<le> unat (line_of a + 32)" using le by (simp add: word_le_nat_alt)
  then have mod_le: "(32 * q + off_of a + 4) mod 4294967296 \<le> (32 * q + 32) mod 4294967296"
    using unat_line_32 [of a] unfolding unat_plus_mod a by (simp add: q_def)
  show ?thesis
  proof (rule ccontr)
    assume "\<not> off_of a + 3 < 32"
    then have "29 \<le> off_of a" by simp
    then obtain r where "off_of a = 29 + r" using le_Suc_ex by blast
    with off have r: "off_of a = 29 + r" "r < 3" by simp_all
    show False
    proof (cases "q = 134217727")
      case True
      have "(32 * q + off_of a + 4) mod 4294967296 = (4294967296 + (r + 1)) mod 4294967296"
        by (simp add: True r)
      also have "\<dots> = r + 1" using r(2) by (simp only: mod_add_self1) simp
      finally show False using mod_le True by simp
    next
      case False
      then have "32 * q + 64 \<le> 4294967296" using q by linarith
      then have "32 * q + off_of a + 4 < 4294967296" "32 * q + 32 < 4294967296" using r by linarith+
      then show False using mod_le r by simp
    qed
  qed
qed

lemma line_end_iff:
  assumes "soc_shape m" and "in_sram m a"
  shows "a + 4 \<le> line_of a + 32 \<longleftrightarrow> off_of a + 3 < 32"
proof
  assume o: "off_of a + 3 < 32"
  have "unat (line_of a) + 32 < 4294967296"
    using line_fits [OF assms] assms(1) by (simp add: soc_shape_def)
  moreover have "unat a = unat (line_of a) + off_of a" by (rule offset_in_line)
  ultimately show "a + 4 \<le> line_of a + 32"
    using o by (simp add: word_le_nat_alt unat_plus_mod)
qed (rule line_end_fits)

lemma slice_fetch_word_in_line:
  assumes "soc_shape m" and "a AND 1 = 0" and "off_of a + 3 < 32"
  shows "slice_fetch_word (m_data m) 0 a =
    (if in_sram m a then Inr (view_word (store_of m) a) else Inl (Exn (MemoryError a False)))"
proof -
  have k: "off_of a + 1 < 32" "off_of a + 2 < 32" using assms(3) by simp_all
  note w = within_line [OF k(1)] within_line [OF k(2)] within_line [OF assms(3)]
  have "in_sram m (a + 3) = in_sram m a" using in_sram_same_line [OF assms(1) w(8)] by simp
  then show ?thesis
    using w(1,4,7) assms(2)
    by (auto simp: slice_fetch_word_def checked_sub_def Let_def view_word_def store_of_def in_sram_def)
qed

lemma be_word_two_halves:
  "push_bit 16 (ucast (be_half a b)) OR ucast (be_half c d) = be_word a b c d"
proof (rule bit_word_eqI)
  fix n assume "n < LENGTH(32)"
  then have n: "n < 32" by simp
  have byte: "\<not> bit x k" if "8 \<le> k" for x :: u8 and k
    using that bit_imp_le_length [of x k] by auto
  consider "n < 8" | "8 \<le> n \<and> n < 16" | "16 \<le> n \<and> n < 24" | "24 \<le> n" by linarith
  then show "bit (push_bit 16 (ucast (be_half a b)) OR ucast (be_half c d) :: u32) n = bit (be_word a b c d) n"
    using n by cases (auto simp: be_half_def be_word_def bit_simps byte)
qed

lemma same_fault_MemoryError [simp]:
  "same_fault (Exn (MemoryError a w)) (Exn (MemoryError b w))" "same_fault e e"
  by (auto simp: same_fault_def)

text \<open>Two halfword fetches give the word, or fail when it does.\<close>

lemma slice_fetch_word_halves:
  assumes "soc_shape m" and "a AND 1 = 0" and "in_sram m a"
  shows "same_result
    (case slice_fetch_half (m_data m) 0 (a + 2) of
       Inl e \<Rightarrow> Inl e
     | Inr lo \<Rightarrow> Inr (push_bit 16 (ucast (view_half (store_of m) a)) OR ucast lo))
    (slice_fetch_word (m_data m) 0 a)"
proof -
  obtain k where len: "length (m_data m) = 2 * k"
    using assms(1) by (auto simp: soc_shape_def)
  obtain j where ja: "unat a = 2 * j"
    using unat_align(2) [of a] assms(2) by (simp add: align_down_2_even)
  have lt: "unat a < length (m_data m)" "length (m_data m) < 4294967296"
    using assms by (simp_all add: in_sram_def soc_shape_def)
  obtain c where "length (m_data m) = 32 * c" using assms(1) by (auto simp: soc_shape_def)
  moreover from this have "c \<le> 134217727" using lt by simp
  ultimately have "unat a + 3 < 4294967296" using lt by linarith
  then have 1: "unat (a + 1) = unat a + 1" and 2: "unat (a + 2) = unat a + 2" and 3: "unat (a + 3) = unat a + 3"
    using unat_plus_small [of a 1] unat_plus_small [of a 2] unat_plus_small [of a 3] by simp_all
  have even2: "(a + 2) AND 1 = 0"
  proof -
    have "even a" using assms(2) by (simp add: and_one_eq mod_2_eq_odd)
    then have "even (a + 2)" by simp
    then show ?thesis by (simp add: and_one_eq mod_2_eq_odd)
  qed
  have range: "unat a + 2 < length (m_data m) \<longleftrightarrow> unat a + 3 < length (m_data m)"
    unfolding len ja by presburger
  show ?thesis
  proof (cases "unat a + 2 < length (m_data m)")
    case True
    have "a + 2 + 1 = a + 3" by simp
    then show ?thesis
      using True range lt 1 2 3 assms(2) even2
      by (simp add: slice_fetch_half_def slice_fetch_word_def checked_sub_def Let_def view_half_def
          store_of_def be_word_two_halves numeral_3_eq_3)
  next
    case False
    then show ?thesis
      using range lt 2 assms(2) even2
      by (simp add: slice_fetch_half_def slice_fetch_word_def checked_sub_def Let_def)
  qed
qed

lemma mem_fetch_half_outside:
  assumes "fetch_ok bytes m" and "a AND 1 = 0" and "\<not> in_sram m a"
  obtains m' where "mem_fetch_half a m = (Inl (Exn (MemoryError a False)), m')" and "fetch_ok bytes m'"
proof -
  have "soc_shape m" and "m_data m = bytes" using assms(1) by (simp_all add: fetch_ok_def)
  then have "slice_fetch_half bytes 0 a = Inl (Exn (MemoryError a False))"
    using slice_fetch_half_sram [of m a] assms(2,3) by simp
  then show thesis using that mem_fetch_half_sram [OF assms(1,2)] by metis
qed

lemma slice_fetch_word_outside:
  assumes "soc_shape m" and "a AND 1 = 0" and "\<not> in_sram m a"
  shows "slice_fetch_word (m_data m) 0 a = Inl (Exn (MemoryError a False))"
  using assms by (simp add: slice_fetch_word_def checked_sub_def Let_def in_sram_def)

lemma sram_fetch_word:
  assumes "fetch_ok bytes m" and "a AND 1 = 0"
  shows "sram_fetch 3 word_at a m = (slice_fetch_word bytes 0 a, m)"
  using assms
  by (auto simp: fetch_ok_def sram_fetch_def sram_offset_eq slice_fetch_word_def checked_sub_def Let_def
      word_at_def in_sram_def)

text \<open>Two halfword fetches across a line end.\<close>

lemma mem_fetch_two_halves:
  assumes ok: "fetch_ok bytes m" and a: "a AND 1 = 0" and i: "in_sram m a"
  defines "k \<equiv> bindM (mem_fetch_half a) (\<lambda>hi. bindM (mem_fetch_half (a + 2)) (\<lambda>lo.
      returnM (push_bit 16 (ucast hi) OR ucast lo)))"
  shows "same_result (fst (k m)) (slice_fetch_word bytes 0 a) \<and> fetch_ok bytes (snd (k m))"
proof -
  have shape: "soc_shape m" and data: "m_data m = bytes" using ok by (simp_all add: fetch_ok_def)
  have a2: "(a + 2) AND 1 = 0"
    using a by (simp add: and_one_eq mod_2_eq_odd)
  obtain m1 where 1: "mem_fetch_half a m = (slice_fetch_half bytes 0 a, m1)" "fetch_ok bytes m1"
    by (rule mem_fetch_half_sram [OF ok a])
  obtain m2 where 2: "mem_fetch_half (a + 2) m1 = (slice_fetch_half bytes 0 (a + 2), m2)" "fetch_ok bytes m2"
    by (rule mem_fetch_half_sram [OF 1(2) a2])
  have hi: "slice_fetch_half bytes 0 a = Inr (view_half (store_of m) a)"
    using slice_fetch_half_sram [OF shape a] i data by simp
  show ?thesis
    using slice_fetch_word_halves [OF shape a i] 1 2
    by (auto simp: k_def bindM_def returnM_def hi data split: sum.splits)
qed

lemma mem_fetch_word_sram:
  assumes ok: "fetch_ok bytes m" and a: "a AND 1 = 0"
  shows "same_result (fst (mem_fetch_word a m)) (slice_fetch_word bytes 0 a)
    \<and> fetch_ok bytes (snd (mem_fetch_word a m))"
proof -
  have shape: "soc_shape m" and data: "m_data m = bytes" using ok by (simp_all add: fetch_ok_def)
  let ?halves = "bindM (mem_fetch_half a) (\<lambda>hi. bindM (mem_fetch_half (a + 2)) (\<lambda>lo.
      returnM (push_bit 16 (ucast hi) OR ucast lo)))"
  have line: "a AND NOT (32 - 1) = line_of a" by (simp add: line_of_def)
  have eq: "mem_fetch_word a m =
      (if icache_on m then
         (if a + 4 \<le> line_of a + 32 then
            (case icache_lookup peek_word a m of
               (Some val, m') \<Rightarrow> (Inr val, m')
             | (None, m') \<Rightarrow> sram_fetch 3 word_at a m')
          else ?halves m)
       else sram_fetch 3 word_at a m)"
    unfolding mem_fetch_word_def Let_def line using a bank_present [OF shape] by simp
  consider (off) "\<not> icache_on m" | (line) "icache_on m" "a + 4 \<le> line_of a + 32"
    | (cross) "icache_on m" "\<not> a + 4 \<le> line_of a + 32" by blast
  then show ?thesis
  proof cases
    case off
    then show ?thesis using ok sram_fetch_word [OF ok a] by (simp add: eq)
  next
    case line
    note fits = line_end_fits [OF line(2)]
    obtain m' where m': "icache_lookup peek_word a m
        = (if in_sram m a then Some (view_word (store_of m) a) else None, m')" "fetch_ok bytes m'"
      by (rule icache_lookup_ok [OF ok line(1), where peek = peek_word and v = "view_word (store_of m) a" and a = a])
        (simp_all add: peek_word_coherent fits)
    then show ?thesis
      using line sram_fetch_word [OF m'(2) a] slice_fetch_word_in_line [OF shape a fits] data
      by (simp add: eq)
  next
    case cross
    show ?thesis
    proof (cases "in_sram m a")
      case True
      then show ?thesis using mem_fetch_two_halves [OF ok a True] cross by (simp add: eq)
    next
      case False
      obtain m' where "mem_fetch_half a m = (Inl (Exn (MemoryError a False)), m')" "fetch_ok bytes m'"
        by (rule mem_fetch_half_outside [OF ok a False])
      then show ?thesis
        using cross slice_fetch_word_outside [OF shape a False] data
        by (simp add: eq bindM_def)
    qed
  qed
qed

definition fetch_rel :: "u8 list \<Rightarrow> 'p memory \<Rightarrow> unit \<Rightarrow> bool" where
  "fetch_rel bytes m u = fetch_ok bytes m"

lemma misaligned_fetch:
  assumes "a AND 1 \<noteq> 0"
  shows "mem_fetch_half a m = (slice_fetch_half bytes 0 a, m)" "mem_fetch_word a m = (slice_fetch_word bytes 0 a, m)"
  using assms by (simp_all add: mem_fetch_half_def mem_fetch_word_def slice_fetch_half_def slice_fetch_word_def)

lemma agree_fetch_half:
  "agree (fetch_rel bytes) (mem_fetch_half a) (readM (\<lambda>_. slice_fetch_half bytes 0 a))"
  unfolding agree_def
proof (intro allI impI)
  fix m :: "'p memory" and t assume "fetch_rel bytes m t"
  then have ok: "fetch_ok bytes m" by (simp add: fetch_rel_def)
  have "\<exists>m'. mem_fetch_half a m = (slice_fetch_half bytes 0 a, m') \<and> fetch_ok bytes m'"
  proof (cases "a AND 1 = 0")
    case True
    then show ?thesis using mem_fetch_half_sram [OF ok True] by blast
  next
    case False
    then show ?thesis using misaligned_fetch(1) [OF False, of m bytes] ok by blast
  qed
  then show "same_result (fst (mem_fetch_half a m)) (fst (readM (\<lambda>_. slice_fetch_half bytes 0 a) t))
      \<and> fetch_rel bytes (snd (mem_fetch_half a m)) (snd (readM (\<lambda>_. slice_fetch_half bytes 0 a) t))"
    by (auto simp: readM_def fetch_rel_def)
qed

lemma agree_fetch_word:
  "agree (fetch_rel bytes) (mem_fetch_word a) (readM (\<lambda>_. slice_fetch_word bytes 0 a))"
  unfolding agree_def
proof (intro allI impI)
  fix m :: "'p memory" and t assume "fetch_rel bytes m t"
  then have ok: "fetch_ok bytes m" by (simp add: fetch_rel_def)
  have "same_result (fst (mem_fetch_word a m)) (slice_fetch_word bytes 0 a)
    \<and> fetch_ok bytes (snd (mem_fetch_word a m))"
  proof (cases "a AND 1 = 0")
    case True
    then show ?thesis using mem_fetch_word_sram [OF ok True] by blast
  next
    case False
    then show ?thesis using misaligned_fetch(2) [OF False, of m bytes] ok by simp
  qed
  then show "same_result (fst (mem_fetch_word a m)) (fst (readM (\<lambda>_. slice_fetch_word bytes 0 a) t))
      \<and> fetch_rel bytes (snd (mem_fetch_word a m)) (snd (readM (\<lambda>_. slice_fetch_word bytes 0 a) t))"
    by (simp add: readM_def fetch_rel_def)
qed

interpretation sram_bytes: fetch_agreement "fetch_rel bytes" memory_fetch "byte_slice_fetch bytes 0" for bytes
  by unfold_locales (simp_all add: memory_fetch_def byte_slice_fetch_def agree_fetch_half agree_fetch_word)

text \<open>C4. Decoding from a memory whose instruction cache is coherent with SRAM is decoding the bytes of
  SRAM: same instruction or same kind of fault, through hits, misses, line fills and fetches that
  cross a line; and the cache is coherent afterwards.\<close>

theorem decode_from_memory:
  assumes "fetch_ok bytes m"
  shows "same_result (fst (decode_with pc memory_fetch m)) (decode_bytes pc bytes 0)
    \<and> fetch_ok bytes (snd (decode_with pc memory_fetch m))"
  using agreeD [OF sram_bytes.agree_decode_with, of bytes m "()" pc] assms
  by (simp add: fetch_rel_def decode_bytes_def)

lemma fetch_ok_new_soc:
  assumes "32 dvd length img" and "length img < 2 ^ 32"
  shows "fetch_ok img (memory_new_soc img b)"
proof -
  have "soc_shape (memory_new_soc img b)"
    using cached_ok_new_soc [OF assms, of b] by (simp add: cached_ok_def soc_ok_def)
  moreover have "\<not> ic_contains ic_new a" for a
    by (simp add: ic_contains_fields ic_new_def ic_empty_line_def)
  ultimately show ?thesis
    using icache_ok_new by (simp add: fetch_ok_def memory_new_soc_def ic_coherent_def)
qed

lemma decode_from_memory_witness:
  "\<forall>(b :: unit bank) w. fetch_ok (replicate 64 w) (memory_new_soc (replicate 64 w) b)
    \<and> same_result (fst (decode_with 60 memory_fetch (memory_new_soc (replicate 64 w) b)))
        (decode_bytes 60 (replicate 64 w) 0)"
proof (intro allI)
  fix b :: "unit bank" and w :: u8
  have ok: "fetch_ok (replicate 64 w) (memory_new_soc (replicate 64 w) b)"
    by (rule fetch_ok_new_soc) simp_all
  show "fetch_ok (replicate 64 w) (memory_new_soc (replicate 64 w) b)
    \<and> same_result (fst (decode_with 60 memory_fetch (memory_new_soc (replicate 64 w) b)))
        (decode_bytes 60 (replicate 64 w) 0)"
    using ok decode_from_memory [OF ok, of 60] by simp
qed

end
