(* ===== verification/Executor_Props.thy ===== *)
theory Executor_Props
  imports Executor Memory_Fetch
begin

text \<open>
  Properties of whole instructions: decoding composed with execution, loads and stores through
  the cached data port, and the one-operand operations.
\<close>

section \<open>One instruction\<close>

text \<open>Fetch, decode and execute the instruction at an address, as the step loop does.\<close>

definition decode_execute :: "'p device_ops \<Rightarrow> u32 \<Rightarrow> ('p machine, unit) op" where
  "decode_execute D a = bindM (on_mem (decode_with a memory_fetch)) (execute D)"

lemma keeps_bindM_yields:
  assumes "keeps I m" and "yields m Q" and "\<And>a. Q a \<Longrightarrow> keeps I (f a)"
  shows "keeps I (bindM m f)"
proof (rule keepsI)
  fix s assume "I s"
  then have "wp m (\<lambda>_. I) (\<lambda>_. I) s" "wp m (\<lambda>a _. Q a) (\<lambda>e _. e \<noteq> Panic) s"
    using assms(1,2) by (simp_all add: keeps_def yields_def)
  then show "wp (bindM m f) (\<lambda>_. I) (\<lambda>_. I) s"
    using assms(3) by (fastforce simp: wp_def keeps_def bindM_def split: prod.splits sum.splits)
qed

lemma yields_on_mem [yields_intro]: "yields m Q \<Longrightarrow> yields (on_mem m) Q"
  by (simp add: yields_def on_mem_def)

lemma keeps_decode_execute:
  assumes "cpu_invariant I"
  shows "keeps (\<lambda>x. I (m_cpu x)) (decode_execute D a)"
  unfolding decode_execute_def
proof (rule keeps_bindM_yields [OF keeps_on_mem])
  show "yields (on_mem (decode_with a memory_fetch)) (wf_at a)"
    by (intro yields_on_mem mem_port.yields_decode_with)
  show "keeps (\<lambda>x. I (m_cpu x)) (execute D d)" if "wf_at a d" for d
    by (rule cpu_invariant.keeps_execute [OF assms wf_at_inst [OF that]])
qed



section \<open>Rotates and absolute values\<close>

text \<open>RLC and RRC rotate through the carry and undo each other: running one on the result and the
  carry of the other returns the operand and the carry it started from.\<close>

theorem rotate_through_carry_roundtrip:
  "(case compute_single SingleOp_Rlc x c of (y, c1, _) \<Rightarrow>
      (case compute_single SingleOp_Rrc y (c1 = Some True) of (z, c2, _) \<Rightarrow> z = x \<and> c2 = Some c))
   \<and> (case compute_single SingleOp_Rrc x c of (y, c1, _) \<Rightarrow>
      (case compute_single SingleOp_Rlc y (c1 = Some True) of (z, c2, _) \<Rightarrow> z = x \<and> c2 = Some c))"
proof -
  have top: "drop_bit 31 y \<noteq> 0 \<longleftrightarrow> bit y 31" for y :: u32
  proof
    assume "bit y 31"
    then have "bit (drop_bit 31 y) 0" by (simp only: bit_drop_bit_0)
    then show "drop_bit 31 y \<noteq> 0" by (metis bit_0_eq bot_apply bot_bool_def)
  next
    assume ne: "drop_bit 31 y \<noteq> 0"
    show "bit y 31"
    proof (rule ccontr)
      assume "\<not> bit y 31"
      then have "\<not> bit y (31 + n)" for n using bit_imp_le_length [of y "31 + n"] by (cases n) auto
      then have "drop_bit 31 y = 0" by (intro bit_word_eqI) (simp only: bit_drop_bit_eq comp_def bit_0_eq, simp)
      with ne show False by simp
    qed
  qed
  have up: "bit (push_bit 1 y OR of_bool b) n \<longleftrightarrow> (if n = 0 then b else n < 32 \<and> bit y (n - 1))"
    for y :: u32 and b n
    by (cases n) (simp_all add: bit_or_iff bit_push_bit_iff bit_of_bool_iff del: push_bit_Suc)
  have down: "bit (drop_bit 1 y OR bool_at 31 b) n \<longleftrightarrow> (if n = 31 then b else bit y (Suc n))"
    for y :: u32 and b n
    by (auto simp: bit_or_iff bit_drop_bit_eq bit_bool_at dest: bit_imp_le_length)
  have 1: "drop_bit 1 (push_bit 1 x OR of_bool c) OR bool_at 31 (bit x 31) = x"
  proof (rule bit_word_eqI)
    fix n assume "n < LENGTH(32)"
    then show "bit (drop_bit 1 (push_bit 1 x OR of_bool c) OR bool_at 31 (bit x 31)) n = bit x n"
      unfolding down up by auto
  qed
  have 2: "push_bit 1 (drop_bit 1 x OR bool_at 31 c) OR of_bool (bit x 0) = x"
  proof (rule bit_word_eqI)
    fix n assume "n < LENGTH(32)"
    then show "bit (push_bit 1 (drop_bit 1 x OR bool_at 31 c) OR of_bool (bit x 0)) n = bit x n"
      unfolding up down by auto
  qed
  have 3: "bit (push_bit 1 x OR of_bool c) 0 = c" "bit (drop_bit 1 x OR bool_at 31 c) 31 = c"
    unfolding up down by simp_all
  show ?thesis
    unfolding compute_single_def single_op.case prod.case top option.inject bit_set_0_iff_bit not_not 3
    by (simp only: 1 2 simp_thms)
qed

section \<open>The stack\<close>

lemma on_mem_Inr: "m (m_mem x) = (Inr a, t) \<Longrightarrow> on_mem m x = (Inr a, x\<lparr>m_mem := t\<rparr>)"
  by (simp add: on_mem_def zoomM_def)

lemma on_cpu_Inr: "m (m_cpu x) = (Inr a, t) \<Longrightarrow> on_cpu m x = (Inr a, x\<lparr>m_cpu := t\<rparr>)"
  by (simp add: on_cpu_def zoomM_def)

lemma value_of_Reg: "r \<le> 28 \<Longrightarrow> value_of (Reg r) x = (Inr (core_regs (m_cpu x) ! unat r), x)"
  by (simp add: on_cpu_def zoomM_def readM_def resolve_value_def read_core_reg_low)

lemma value_of_Imm: "value_of (Imm v) x = (Inr v, x)"
  by (simp add: on_cpu_def zoomM_def readM_def resolve_value_def)

lemma write_low_reg: "r \<le> 28 \<Longrightarrow> on_cpu (write_dest (Reg r) v) x = (Inr (), x\<lparr>m_cpu := set_core_reg r v (m_cpu x)\<rparr>)"
  by (simp add: on_cpu_def zoomM_def write_dest_def write_core_reg_low)

lemma write_base_reg:
  "r \<le> 28 \<Longrightarrow> wb = Writeback_PreWrite \<or> wb = Writeback_PostWrite \<Longrightarrow>
   on_cpu (write_back_base (Reg r) wb v) x = (Inr (), x\<lparr>m_cpu := set_core_reg r v (m_cpu x)\<rparr>)"
  by (auto simp: on_cpu_def zoomM_def write_back_base_def write_core_reg_low)

lemmas run_instruction = bindM_Inr thenM_def value_of_Reg value_of_Imm write_low_reg write_base_reg

lemma list_update_restore: "i \<noteq> j \<Longrightarrow> xs[j := a, i := v, j := xs ! j] = xs[i := v]"
  by (metis list_update_id list_update_overwrite list_update_swap)

text \<open>The address and the access of a word store and load with base update.\<close>

lemma execute_push:
  assumes "r \<le> 28" and "write_word_data D (core_regs (m_cpu x) ! 28 + off) (core_regs (m_cpu x) ! unat r) di (m_mem x) = (Inr (), t)"
  shows "execute_store D (Reg r) (Reg 28) (Imm off) DataSize_Word Writeback_PreWrite di x =
    (Inr (), x\<lparr>m_mem := t, m_cpu := set_core_reg 28 (core_regs (m_cpu x) ! 28 + off) (m_cpu x)\<rparr>)"
proof -
  have "on_mem (store_value D DataSize_Word (core_regs (m_cpu x) ! 28 + off) (core_regs (m_cpu x) ! unat r) di) x
      = (Inr (), x\<lparr>m_mem := t\<rparr>)"
    using assms(2) by (intro on_mem_Inr) (simp add: store_value_def)
  then show ?thesis
    using assms(1) by (simp add: execute_store_def run_instruction compute_ea_def)
qed

lemma execute_pop:
  assumes "r < 28" and "read_word_data D (core_regs (m_cpu x) ! 28) di (m_mem x) = (Inr v, t)"
  shows "execute_load D (Reg r) (Reg 28) (Imm off) DataSize_Word False Writeback_PostWrite di x =
    (Inr (), x\<lparr>m_mem := t, m_cpu := set_core_reg 28 (core_regs (m_cpu x) ! 28 + off) (set_core_reg r v (m_cpu x))\<rparr>)"
proof -
  have "on_mem (load_value D DataSize_Word False (core_regs (m_cpu x) ! 28) di) x = (Inr v, x\<lparr>m_mem := t\<rparr>)"
    using assms(2) by (intro on_mem_Inr) (simp add: load_value_def)
  moreover have "\<not> 32 \<le> r" "r \<le> 28" using assms(1) by unat_arith+
  ultimately show ?thesis
    by (simp add: execute_load_def run_instruction compute_ea_def)
qed

text \<open>C8. Pushing a register and popping it (\<open>st.a r,[sp,-4]\<close>, \<open>ld.ab r2,[sp,4]\<close>) through the data cache
  copies the register and restores the stack pointer, whatever the alignment of the stack pointer
  and whatever lines the accesses evict; in memory only the pushed word changes.\<close>

theorem push_pop:
  assumes ok: "cached_ok (m_mem x)" and regs: "regs_ok (m_cpu x)"
    and sp: "in_sram (m_mem x) (core_regs (m_cpu x) ! 28 + (- 4))" and r: "r \<le> 28" and r2: "r2 < 28"
  shows "\<exists>t. bindM (execute_store D (Reg r) (Reg 28) (Imm (- 4)) DataSize_Word Writeback_PreWrite False)
           (\<lambda>_. execute_load D (Reg r2) (Reg 28) (Imm 4) DataSize_Word False Writeback_PostWrite False) x
       = (Inr (), x\<lparr>m_mem := t, m_cpu := set_core_reg r2 (core_regs (m_cpu x) ! unat r) (m_cpu x)\<rparr>)
     \<and> cached_ok t
     \<and> mem_view t = stored (word_stores (align_down 4 (core_regs (m_cpu x) ! 28 + (- 4)))
                              (core_regs (m_cpu x) ! unat r)) (mem_view (m_mem x))"
proof -
  let ?a = "core_regs (m_cpu x) ! 28 + (- 4)"
  let ?v = "core_regs (m_cpu x) ! unat r"
  obtain t1 where 1: "write_word_data D ?a ?v False (m_mem x) = (Inr (), t1)" "cached_ok t1"
    "mem_view t1 = stored (word_stores (align_down 4 ?a) ?v) (mem_view (m_mem x))" "in_sram t1 = in_sram (m_mem x)"
    using cached_word.wr_ok [OF ok sp] by blast
  obtain t2 where 2: "read_word_data D ?a False t1 = (Inr ?v, t2)" "cached_ok t2" "mem_view t2 = mem_view t1"
    using cached_word.rd_ok [OF 1(2), of ?a] 1(3,4) sp cached_word.load_stored by fastforce
  let ?x1 = "x\<lparr>m_mem := t1, m_cpu := set_core_reg 28 ?a (m_cpu x)\<rparr>"
  have len: "length (core_regs (m_cpu x)) = 64" using regs by (simp add: regs_ok_def)
  have "read_word_data D (core_regs (m_cpu ?x1) ! 28) False (m_mem ?x1) = (Inr ?v, t2)"
    using 2(1) len by (simp add: set_core_reg_def)
  note pop = execute_pop [OF r2 this, of 4]
  have "unat r2 \<noteq> 28" using r2 by unat_arith
  then have "set_core_reg 28 (core_regs (m_cpu ?x1) ! 28 + 4) (set_core_reg r2 ?v (m_cpu ?x1))
      = set_core_reg r2 ?v (m_cpu x)"
    using len by (simp add: set_core_reg_def list_update_restore)
  moreover note push = execute_push [OF r 1(1)]
  ultimately show ?thesis
    using pop 1 2 unfolding bindM_def push by (intro exI [of _ t2]) simp
qed

theorem push_pop_witness:
  "\<forall>(D :: unit device_ops) (b :: unit bank). \<exists>t.
     bindM (execute_store D (Reg 1) (Reg 28) (Imm (- 4)) DataSize_Word Writeback_PreWrite False)
       (\<lambda>_. execute_load D (Reg 2) (Reg 28) (Imm 4) DataSize_Word False Writeback_PostWrite False)
       \<lparr>m_cpu = set_core_reg 28 16 (set_core_reg 1 0xCAFE new_cpu_state), m_mem = memory_new_soc (replicate 64 0) b\<rparr>
     = (Inr (), \<lparr>m_cpu = set_core_reg 2 0xCAFE (set_core_reg 28 16 (set_core_reg 1 0xCAFE new_cpu_state)), m_mem = t\<rparr>)"
proof (intro allI)
  fix D :: "unit device_ops" and b :: "unit bank"
  let ?x = "\<lparr>m_cpu = set_core_reg 28 16 (set_core_reg 1 0xCAFE new_cpu_state), m_mem = memory_new_soc (replicate 64 0) b\<rparr>"
  have regs: "core_regs (m_cpu ?x) ! 28 = 16" "core_regs (m_cpu ?x) ! unat (1 :: u8) = 0xCAFE"
    by (simp_all add: set_core_reg_def new_cpu_state_def nth_list_update)
  have ok: "cached_ok (m_mem ?x)" by (simp add: cached_ok_new_soc)
  have sram: "in_sram (m_mem ?x) (core_regs (m_cpu ?x) ! 28 + (- 4))"
    unfolding regs by (simp add: in_sram_def memory_new_soc_def)
  show "\<exists>t. bindM (execute_store D (Reg 1) (Reg 28) (Imm (- 4)) DataSize_Word Writeback_PreWrite False)
       (\<lambda>_. execute_load D (Reg 2) (Reg 28) (Imm 4) DataSize_Word False Writeback_PostWrite False) ?x
     = (Inr (), \<lparr>m_cpu = set_core_reg 2 0xCAFE (set_core_reg 28 16 (set_core_reg 1 0xCAFE new_cpu_state)), m_mem = t\<rparr>)"
    using push_pop [of ?x 1 2 D, OF ok _ sram] regs regs_ok_new by auto
qed

end
