(* ===== verification/Olt_Types.thy ===== *)
theory Olt_Types
  imports Prelude
begin

text \<open>
  \<open>crates/epon-olt/src/types.rs\<close>, \<open>clock.rs\<close> and \<open>state.rs\<close>: Ethernet addresses and types, the
  frame writer, wire time and the registration state. A frame is its list of bytes; the methods of
  \<open>FrameWriter\<close> that append fields are list appends.
\<close>

type_synonym frame = "u8 list"

section \<open>Addresses and types\<close>

datatype mac_addr = MacAddr u8 u8 u8 u8 u8 u8

primrec octets :: "mac_addr \<Rightarrow> u8 list" where
  "octets (MacAddr a b c d e f) = [a, b, c, d, e, f]"

definition MAC_ZERO :: mac_addr where
  "MAC_ZERO = MacAddr 0 0 0 0 0 0"

definition MPCP_MULTICAST :: mac_addr where
  "MPCP_MULTICAST = MacAddr 0x01 0x80 0xC2 0x00 0x00 0x01"

definition SLOW_PROTOCOL_MULTICAST :: mac_addr where
  "SLOW_PROTOCOL_MULTICAST = MacAddr 0x01 0x80 0xC2 0x00 0x00 0x02"

definition mac_is_zero :: "mac_addr \<Rightarrow> bool" where
  "mac_is_zero m \<longleftrightarrow> octets m = [0, 0, 0, 0, 0, 0]"

fun mac_from_slice :: "u8 list \<Rightarrow> mac_addr option" where
  "mac_from_slice (a # b # c # d # e # f # _) = Some (MacAddr a b c d e f)"
| "mac_from_slice _ = None"

datatype ether_type = ET_Mpcp | ET_SlowProtocol | ET_Eapol | ET_Other u16

primrec ether_type_u16 :: "ether_type \<Rightarrow> u16" where
  "ether_type_u16 ET_Mpcp = 0x8808"
| "ether_type_u16 ET_SlowProtocol = 0x8809"
| "ether_type_u16 ET_Eapol = 0x888E"
| "ether_type_u16 (ET_Other v) = v"

definition ether_type_from :: "u16 \<Rightarrow> ether_type" where
  "ether_type_from v =
     (if v = 0x8808 then ET_Mpcp else if v = 0x8809 then ET_SlowProtocol
      else if v = 0x888E then ET_Eapol else ET_Other v)"

text \<open>\<open>frame.get(i)\<close>\<close>

definition get_at :: "'a list \<Rightarrow> nat \<Rightarrow> 'a option" where
  "get_at xs i = (if i < length xs then Some (xs ! i) else None)"

definition get_half :: "u8 list \<Rightarrow> nat \<Rightarrow> u16 option" where
  "get_half xs i =
     Option.bind (get_at xs i) (\<lambda>hi. Option.bind (get_at xs (i + 1)) (\<lambda>lo. Some (be_half hi lo)))"

definition get_word :: "u8 list \<Rightarrow> nat \<Rightarrow> u32 option" where
  "get_word xs i =
     Option.bind (get_at xs i) (\<lambda>b0. Option.bind (get_at xs (i + 1)) (\<lambda>b1.
     Option.bind (get_at xs (i + 2)) (\<lambda>b2. Option.bind (get_at xs (i + 3)) (\<lambda>b3. Some (be_word b0 b1 b2 b3)))))"

definition ether_type_of_frame :: "frame \<Rightarrow> ether_type option" where
  "ether_type_of_frame f = map_option ether_type_from (get_half f 12)"

datatype llid = Llid u16

primrec llid_u16 :: "llid \<Rightarrow> u16" where
  "llid_u16 (Llid v) = v"

text \<open>\<open>#[derive(PartialOrd, Ord)]\<close>\<close>

instantiation llid :: linorder
begin

definition less_eq_llid :: "llid \<Rightarrow> llid \<Rightarrow> bool" where
  "a \<le> b \<longleftrightarrow> llid_u16 a \<le> llid_u16 b"

definition less_llid :: "llid \<Rightarrow> llid \<Rightarrow> bool" where
  "a < b \<longleftrightarrow> llid_u16 a < llid_u16 b"

instance
proof
  fix a b c :: llid
  show "a < b \<longleftrightarrow> a \<le> b \<and> \<not> b \<le> a" by (auto simp: less_eq_llid_def less_llid_def)
  show "a \<le> a" by (simp add: less_eq_llid_def)
  show "a \<le> b \<Longrightarrow> b \<le> c \<Longrightarrow> a \<le> c" by (simp add: less_eq_llid_def)
  show "a \<le> b \<Longrightarrow> b \<le> a \<Longrightarrow> a = b" by (cases a; cases b) (simp add: less_eq_llid_def)
  show "a \<le> b \<or> b \<le> a" by (auto simp: less_eq_llid_def)
qed

end

section \<open>Writing frames\<close>

abbreviation MIN_FRAME_LEN :: nat where
  "MIN_FRAME_LEN \<equiv> 60"

definition w_u16 :: "u16 \<Rightarrow> u8 list" where
  "w_u16 v = [byte_of 1 v, byte_of 0 v]"

definition w_u32 :: "u32 \<Rightarrow> u8 list" where
  "w_u32 v = [byte_of 3 v, byte_of 2 v, byte_of 1 v, byte_of 0 v]"

definition ethernet :: "mac_addr \<Rightarrow> mac_addr \<Rightarrow> ether_type \<Rightarrow> u8 list" where
  "ethernet dst src et = octets dst @ octets src @ w_u16 (ether_type_u16 et)"

definition pad_to :: "nat \<Rightarrow> u8 list \<Rightarrow> frame" where
  "pad_to len bytes = bytes @ replicate (len - length bytes) 0"

section \<open>Wire time, in picoseconds\<close>

type_synonym wire_instant = u64
type_synonym wire_duration = u64

abbreviation TQ_PS :: u64 where
  "TQ_PS \<equiv> 16007"

abbreviation from_us :: "u64 \<Rightarrow> wire_duration" where
  "from_us us \<equiv> us * 1000000"

abbreviation from_ms :: "u64 \<Rightarrow> wire_duration" where
  "from_ms ms \<equiv> ms * 1000000000"

definition mpcp_timestamp :: "wire_instant \<Rightarrow> u32" where
  "mpcp_timestamp t = ucast (t div TQ_PS)"

definition instant_sub :: "wire_instant \<Rightarrow> wire_instant \<Rightarrow> wire_duration" where
  "instant_sub a b = (if b \<le> a then a - b else 0)"

section \<open>Registration state\<close>

datatype mpcp_state = Mpcp_Idle | Mpcp_Discovery | Mpcp_WaitAck | Mpcp_Registered

definition mpcp_is_active :: "mpcp_state \<Rightarrow> bool" where
  "mpcp_is_active s \<longleftrightarrow> s \<noteq> Mpcp_Idle"

section \<open>Reading back what was written\<close>

lemma w_u16_half [simp]: "be_half (byte_of (Suc 0) v) (byte_of 0 v) = v"
  using be_half_bytes [of v] by simp

lemma w_u32_word [simp]:
  "be_word (byte_of (Suc (Suc (Suc 0))) v) (byte_of (Suc (Suc 0)) v) (byte_of (Suc 0) v) (byte_of 0 v) = v"
  using be_word_bytes [of v] by (simp add: numeral_eq_Suc)

lemma get_at_Cons [simp]: "get_at (x # xs) 0 = Some x" "get_at (x # xs) (Suc i) = get_at xs i"
  "get_at [] i = None"
  by (simp_all add: get_at_def)

lemma mac_from_octets [simp]: "mac_from_slice (octets m @ rest) = Some m"
  by (cases m) simp

lemma length_octets [simp]: "length (octets m) = 6"
  by (cases m) simp

lemma ether_type_roundtrip: "ether_type_from (ether_type_u16 ET_Mpcp) = ET_Mpcp"
  "ether_type_from (ether_type_u16 ET_SlowProtocol) = ET_SlowProtocol"
  "ether_type_from (ether_type_u16 ET_Eapol) = ET_Eapol"
  by (simp_all add: ether_type_from_def)

text \<open>A frame that starts with an Ethernet header: its type, its addresses and what follows.\<close>

lemma get_at_append: "get_at (xs @ ys) i = (if i < length xs then Some (xs ! i) else get_at ys (i - length xs))"
  by (auto simp: get_at_def nth_append)

lemma length_ethernet [simp]: "length (ethernet dst src et) = 14"
  by (simp add: ethernet_def w_u16_def)

lemma nth_ethernet_type:
  "ethernet dst src et ! 12 = byte_of 1 (ether_type_u16 et)" "ethernet dst src et ! 13 = byte_of 0 (ether_type_u16 et)"
  by (simp_all add: ethernet_def nth_append w_u16_def)

lemma ether_type_of_ethernet [simp]:
  "ether_type_of_frame (ethernet dst src et @ rest) = Some (ether_type_from (ether_type_u16 et))"
  by (simp add: ether_type_of_frame_def get_half_def get_at_append nth_ethernet_type)

lemma mac_of_ethernet [simp]:
  "mac_from_slice (ethernet dst src et @ rest) = Some dst"
  "mac_from_slice (drop 6 (ethernet dst src et) @ rest) = Some src"
  by (simp_all add: ethernet_def)

lemma get_after_ethernet [simp]: "14 \<le> i \<Longrightarrow> get_at (ethernet dst src et @ rest) i = get_at rest (i - 14)"
  by (simp add: get_at_append)

lemma pad_to_append: "pad_to len (xs @ ys) = xs @ pad_to (len - length xs) ys"
  by (simp add: pad_to_def)

lemma pad_to_Cons: "pad_to (Suc n) (x # xs) = x # pad_to n xs"
  by (simp add: pad_to_def)

lemma nth_pad_to: "i < length xs \<Longrightarrow> pad_to len xs ! i = xs ! i"
  by (simp add: pad_to_def nth_append)

lemma length_pad_to [simp]: "length (pad_to len xs) = max len (length xs)"
  by (simp add: pad_to_def)

text \<open>When a read of a field fails: exactly when it reaches past the end.\<close>

lemma get_at_None [simp]: "get_at xs i = None \<longleftrightarrow> length xs \<le> i"
  by (simp add: get_at_def)

lemma get_half_None: "get_half xs i = None \<longleftrightarrow> length xs \<le> i + 1"
  by (auto simp: get_half_def bind_eq_None_conv get_at_def)

lemma get_word_None: "get_word xs i = None \<longleftrightarrow> length xs \<le> i + 3"
  by (auto simp: get_word_def bind_eq_None_conv get_at_def)

lemma mac_from_slice_None: "mac_from_slice xs = None \<longleftrightarrow> length xs < 6"
  by (cases xs rule: mac_from_slice.cases) auto

end
