(* ===== verification/Olt_Fibre.thy ===== *)
theory Olt_Fibre
  imports Olt_Types
begin

text \<open>
  \<open>crates/epon-olt/src/fibre.rs\<close>: one direction of the link, a queue of finite depth with a travel time, a
  jitter drawn by xorshift64* and a line rate. A rate of 0 divides by zero: \<open>None\<close>.
\<close>

unbundle bit_operations_syntax

section \<open>Configuration\<close>

abbreviation RATE_10G :: u64 where "RATE_10G \<equiv> 10312500000"
abbreviation RATE_1G :: u64 where "RATE_1G \<equiv> 1250000000"
abbreviation FRAMING_OVERHEAD :: u64 where "FRAMING_OVERHEAD \<equiv> 8 + 12"
abbreviation DEFAULT_DISTANCE_KM :: u64 where "DEFAULT_DISTANCE_KM \<equiv> 20"
abbreviation DEFAULT_DEPTH :: nat where "DEFAULT_DEPTH \<equiv> 32"

record fibre_config =
  fc_propagation :: wire_duration
  fc_jitter :: wire_duration
  fc_rate_bps :: u64
  fc_depth :: nat
  fc_seed :: u64

definition propagation_for_km :: "u64 \<Rightarrow> wire_duration" where
  "propagation_for_km km = km * 5 * 1000000"

definition config_downstream :: fibre_config where
  "config_downstream =
     \<lparr>fc_propagation = propagation_for_km DEFAULT_DISTANCE_KM, fc_jitter = 0, fc_rate_bps = RATE_10G,
      fc_depth = DEFAULT_DEPTH, fc_seed = 0x2545F4914F6CDD1D\<rparr>"

definition config_upstream :: fibre_config where
  "config_upstream = config_downstream\<lparr>fc_rate_bps := RATE_1G\<rparr>"

section \<open>The generator of the jitter\<close>

definition rng_new :: "u64 \<Rightarrow> u64" where
  "rng_new seed = (if seed = 0 then 0x9E3779B97F4A7C15 else seed)"

definition rng_next :: "u64 \<Rightarrow> u64 \<times> u64" where
  "rng_next x0 =
     (let x1 = x0 XOR drop_bit 12 x0; x2 = x1 XOR push_bit 25 x1; x3 = x2 XOR drop_bit 27 x2
      in (x3 * 0x2545F4914F6CDD1D, x3))"

definition rng_below :: "u64 \<Rightarrow> u64 \<Rightarrow> u64 \<times> u64" where
  "rng_below bound r = (if bound = 0 then (0, r) else case rng_next r of (v, r') \<Rightarrow> (v mod bound, r'))"

section \<open>The line\<close>

record in_flight =
  arrives_at :: wire_instant
  if_frame :: frame

record fibre =
  fi_config :: fibre_config
  fi_queue :: "in_flight list"
  fi_rng :: u64
  fi_last_arrival :: wire_instant
  fi_sent :: u64
  fi_delivered :: u64
  fi_dropped_full :: u64

definition fibre_new :: "fibre_config \<Rightarrow> fibre" where
  "fibre_new config =
     \<lparr>fi_config = config, fi_queue = [], fi_rng = rng_new (fc_seed config), fi_last_arrival = 0,
      fi_sent = 0, fi_delivered = 0, fi_dropped_full = 0\<rparr>"

definition serialization :: "nat \<Rightarrow> fibre \<Rightarrow> wire_duration option" where
  "serialization len f =
     (let bits = (of_nat len + FRAMING_OVERHEAD) * 8
      in if fc_rate_bps (fi_config f) = 0 then None
         else Some (bits * 1000000000000 div fc_rate_bps (fi_config f)))"

definition draw_jitter :: "fibre \<Rightarrow> wire_duration \<times> fibre" where
  "draw_jitter f =
     (if fc_jitter (fi_config f) = 0 then (0, f)
      else case rng_below (fc_jitter (fi_config f) + 1) (fi_rng f) of (v, r) \<Rightarrow> (v, f\<lparr>fi_rng := r\<rparr>))"

definition fibre_send :: "frame \<Rightarrow> wire_instant \<Rightarrow> fibre \<Rightarrow> (bool \<times> fibre) option" where
  "fibre_send frame t f0 =
     (let f = f0\<lparr>fi_sent := fi_sent f0 + 1\<rparr>
      in if length (fi_queue f) \<ge> fc_depth (fi_config f)
         then Some (False, f\<lparr>fi_dropped_full := fi_dropped_full f + 1\<rparr>)
         else
           case draw_jitter f of
             (jitter, f1) \<Rightarrow>
               map_option (\<lambda>ser.
                 let earliest = t + fc_propagation (fi_config f1) + jitter + ser;
                     arrival = max earliest (fi_last_arrival f1)
                 in (True, f1\<lparr>fi_last_arrival := arrival,
                             fi_queue := fi_queue f1 @ [\<lparr>arrives_at = arrival, if_frame = frame\<rparr>]\<rparr>))
                 (serialization (length frame) f1))"

definition pop_arrived :: "wire_instant \<Rightarrow> fibre \<Rightarrow> in_flight option \<times> fibre" where
  "pop_arrived now f =
     (case fi_queue f of
        [] \<Rightarrow> (None, f)
      | x # xs \<Rightarrow>
          if arrives_at x \<le> now then (Some x, f\<lparr>fi_delivered := fi_delivered f + 1, fi_queue := xs\<rparr>)
          else (None, f))"

definition fibre_in_flight :: "fibre \<Rightarrow> nat" where
  "fibre_in_flight f = length (fi_queue f)"

definition next_arrival :: "fibre \<Rightarrow> wire_instant option" where
  "next_arrival f = (case fi_queue f of [] \<Rightarrow> None | x # _ \<Rightarrow> Some (arrives_at x))"

definition fibre_clear :: "fibre \<Rightarrow> fibre" where
  "fibre_clear f = f\<lparr>fi_queue := [], fi_last_arrival := 0\<rparr>"

definition one_way_for :: "nat \<Rightarrow> fibre \<Rightarrow> wire_duration option" where
  "one_way_for len f = map_option (\<lambda>ser. fc_propagation (fi_config f) + ser) (serialization len f)"

section \<open>First in, first out\<close>

text \<open>What the two ends do: the near end sends, the far end polls.\<close>

datatype line_op = Send frame wire_instant | Poll wire_instant

text \<open>The frames accepted and the frames that landed, in order\<close>

fun run_line :: "line_op list \<Rightarrow> fibre \<Rightarrow> (frame list \<times> in_flight list \<times> fibre) option" where
  "run_line [] f = Some ([], [], f)"
| "run_line (Send frame t # ops) f =
     Option.bind (fibre_send frame t f) (\<lambda>(accepted, f').
       map_option (\<lambda>(ins, outs, f''). ((if accepted then [frame] else []) @ ins, outs, f'')) (run_line ops f'))"
| "run_line (Poll now # ops) f =
     (case pop_arrived now f of
        (r, f') \<Rightarrow> map_option (\<lambda>(ins, outs, f''). (ins, (case r of None \<Rightarrow> [] | Some x \<Rightarrow> [x]) @ outs, f''))
                    (run_line ops f'))"

definition is_send :: "line_op \<Rightarrow> bool" where
  "is_send op \<longleftrightarrow> (case op of Send _ _ \<Rightarrow> True | Poll _ \<Rightarrow> False)"

text \<open>The queue is in order of arrival, ends no later than the last arrival, and fits.\<close>

definition line_ok :: "fibre \<Rightarrow> bool" where
  "line_ok f \<longleftrightarrow> sorted (map arrives_at (fi_queue f)) \<and> (\<forall>x \<in> set (fi_queue f). arrives_at x \<le> fi_last_arrival f)
     \<and> length (fi_queue f) \<le> fc_depth (fi_config f)"

lemma draw_jitter_fields [simp]:
  "draw_jitter f = (j, f') \<Longrightarrow> fi_queue f' = fi_queue f \<and> fi_config f' = fi_config f
     \<and> fi_last_arrival f' = fi_last_arrival f \<and> fi_sent f' = fi_sent f \<and> fi_delivered f' = fi_delivered f
     \<and> fi_dropped_full f' = fi_dropped_full f"
  by (auto simp: draw_jitter_def split: if_splits prod.splits)

lemma send_cases:
  assumes "fibre_send frame t f = Some (acc, f')"
  obtains (full) "\<not> acc" "fc_depth (fi_config f) \<le> length (fi_queue f)" "fi_queue f' = fi_queue f"
      "fi_last_arrival f' = fi_last_arrival f" "fi_config f' = fi_config f" "fi_sent f' = fi_sent f + 1"
      "fi_delivered f' = fi_delivered f" "fi_dropped_full f' = fi_dropped_full f + 1"
  | (accepted) arrival where "acc" "length (fi_queue f) < fc_depth (fi_config f)"
      "fi_queue f' = fi_queue f @ [\<lparr>arrives_at = arrival, if_frame = frame\<rparr>]" "fi_last_arrival f' = arrival"
      "fi_last_arrival f \<le> arrival" "fi_config f' = fi_config f" "fi_sent f' = fi_sent f + 1"
      "fi_delivered f' = fi_delivered f" "fi_dropped_full f' = fi_dropped_full f"
proof (cases "fc_depth (fi_config f) \<le> length (fi_queue f)")
  case True
  then show thesis using assms full by (auto simp: fibre_send_def Let_def)
next
  case False
  obtain j g where j: "draw_jitter (f\<lparr>fi_sent := fi_sent f + 1\<rparr>) = (j, g)" by (cases "draw_jitter (f\<lparr>fi_sent := fi_sent f + 1\<rparr>)")
  show thesis
    using False assms draw_jitter_fields [OF j]
    by (auto simp: fibre_send_def Let_def j intro!: accepted)
qed

lemma send_ok: "line_ok f \<Longrightarrow> fibre_send frame t f = Some (acc, f') \<Longrightarrow> line_ok f'"
  by (erule send_cases) (auto simp: line_ok_def sorted_append intro: order_trans)

lemma poll_ok: "line_ok f \<Longrightarrow> line_ok (snd (pop_arrived now f))"
  by (auto simp: line_ok_def pop_arrived_def split: list.splits)

lemma clear_ok: "line_ok (fibre_clear f)"
  by (simp add: line_ok_def fibre_clear_def)

lemma new_ok: "line_ok (fibre_new c)"
  by (simp add: line_ok_def fibre_new_def)

lemma send_returns:
  "fc_rate_bps (fi_config f) \<noteq> 0 \<Longrightarrow> \<exists>acc f'. fibre_send frame t f = Some (acc, f')"
  by (cases "draw_jitter (f\<lparr>fi_sent := fi_sent f + 1\<rparr>)") (auto simp: fibre_send_def serialization_def Let_def)

lemma pop_arrived_fields [simp]:
  "fi_config (snd (pop_arrived now f)) = fi_config f" "fi_last_arrival (snd (pop_arrived now f)) = fi_last_arrival f"
  "fi_sent (snd (pop_arrived now f)) = fi_sent f" "fi_dropped_full (snd (pop_arrived now f)) = fi_dropped_full f"
  "fi_delivered (snd (pop_arrived now f)) = fi_delivered f + (if fst (pop_arrived now f) = None then 0 else 1)"
  by (simp_all add: pop_arrived_def split: list.split)

lemma pop_arrived_queue:
  "fi_queue f = (case fst (pop_arrived now f) of None \<Rightarrow> [] | Some x \<Rightarrow> [x]) @ fi_queue (snd (pop_arrived now f))"
  by (simp add: pop_arrived_def split: list.split)

lemma run_line_returns:
  "fc_rate_bps (fi_config f) \<noteq> 0 \<Longrightarrow> \<exists>ins outs g. run_line ops f = Some (ins, outs, g)"
proof (induction ops f rule: run_line.induct)
  case (2 frame t ops f)
  obtain acc f' where send: "fibre_send frame t f = Some (acc, f')" using send_returns [OF 2(2)] by blast
  have "fi_config f' = fi_config f" by (rule send_cases [OF send]) simp_all
  then show ?case using 2 send by fastforce
next
  case (3 now ops f)
  then show ?case using pop_arrived_fields(1) [of now f] by (cases "pop_arrived now f") fastforce
qed simp

text \<open>What lands and what is still on the line is what was on it, then what was accepted, in order of arrival.\<close>

lemma run_line_order:
  "run_line ops f = Some (ins, outs, g) \<Longrightarrow> line_ok f \<Longrightarrow>
   \<exists>new. outs @ fi_queue g = fi_queue f @ new \<and> map if_frame new = ins \<and> line_ok g \<and> fi_config g = fi_config f
     \<and> sorted (map arrives_at (fi_queue f @ new)) \<and> (\<forall>x \<in> set new. fi_last_arrival f \<le> arrives_at x)"
proof (induction ops f arbitrary: ins outs g rule: run_line.induct)
  case (1 f)
  then show ?case by (simp add: line_ok_def)
next
  case (2 frame t ops f)
  obtain acc f' ins' where send: "fibre_send frame t f = Some (acc, f')" and rest: "run_line ops f' = Some (ins', outs, g)"
    and ins: "ins = (if acc then [frame] else []) @ ins'"
    using 2(2) by (auto simp: bind_eq_Some_conv)
  obtain new where IH: "outs @ fi_queue g = fi_queue f' @ new" "map if_frame new = ins'" "line_ok g"
      "fi_config g = fi_config f'" "sorted (map arrives_at (fi_queue f' @ new))"
      "\<forall>x \<in> set new. fi_last_arrival f' \<le> arrives_at x"
    using 2(1) [OF send refl rest send_ok [OF 2(3) send]] by blast
  show ?case
  proof (rule send_cases [OF send])
    assume "\<not> acc" "fi_queue f' = fi_queue f" "fi_last_arrival f' = fi_last_arrival f" "fi_config f' = fi_config f"
    then show ?thesis using IH ins by (intro exI [of _ new]) simp
  next
    fix a
    assume "acc" "fi_queue f' = fi_queue f @ [\<lparr>arrives_at = a, if_frame = frame\<rparr>]" "fi_last_arrival f' = a"
      "fi_last_arrival f \<le> a" "fi_config f' = fi_config f"
    then show ?thesis
      using IH ins by (intro exI [of _ "\<lparr>arrives_at = a, if_frame = frame\<rparr> # new"]) (auto intro: order_trans)
  qed
next
  case (3 now ops f)
  obtain r f' where pop: "pop_arrived now f = (r, f')" by (cases "pop_arrived now f")
  obtain outs' where rest: "run_line ops f' = Some (ins, outs', g)"
    and outs: "outs = (case r of None \<Rightarrow> [] | Some x \<Rightarrow> [x]) @ outs'"
    using 3(2) pop by auto
  have f': "f' = snd (pop_arrived now f)" "r = fst (pop_arrived now f)" using pop by simp_all
  obtain new where IH: "outs' @ fi_queue g = fi_queue f' @ new" "map if_frame new = ins" "line_ok g"
      "fi_config g = fi_config f'" "sorted (map arrives_at (fi_queue f' @ new))"
      "\<forall>x \<in> set new. fi_last_arrival f' \<le> arrives_at x"
    using 3(1) [OF pop [symmetric] rest] poll_ok [OF 3(3), of now] f' by auto
  have q: "fi_queue f = (case r of None \<Rightarrow> [] | Some x \<Rightarrow> [x]) @ fi_queue f'"
    unfolding f' by (rule pop_arrived_queue)
  have "sorted (map arrives_at (fi_queue f))" "\<forall>x \<in> set (fi_queue f). arrives_at x \<le> fi_last_arrival f"
    using 3(3) by (simp_all add: line_ok_def)
  moreover have "fi_last_arrival f' = fi_last_arrival f" "fi_config f' = fi_config f" by (simp_all add: f')
  ultimately show ?case
    using IH outs q by (intro exI [of _ new]) (cases r; fastforce simp: sorted_append)
qed

lemma run_line_counts:
  "run_line ops f = Some (ins, outs, g) \<Longrightarrow>
     fi_sent g = fi_sent f + of_nat (length (filter is_send ops))
     \<and> fi_delivered g = fi_delivered f + of_nat (length outs)
     \<and> fi_dropped_full g + of_nat (length ins) = fi_dropped_full f + of_nat (length (filter is_send ops))"
proof (induction ops f arbitrary: ins outs g rule: run_line.induct)
  case (2 frame t ops f)
  obtain acc f' ins' where send: "fibre_send frame t f = Some (acc, f')" and rest: "run_line ops f' = Some (ins', outs, g)"
    and ins: "ins = (if acc then [frame] else []) @ ins'"
    using 2(2) by (auto simp: bind_eq_Some_conv)
  note IH = 2(1) [OF send refl rest]
  show ?case by (rule send_cases [OF send]) (use IH ins in \<open>simp_all add: is_send_def algebra_simps\<close>)
next
  case (3 now ops f)
  obtain r f' where pop: "pop_arrived now f = (r, f')" by (cases "pop_arrived now f")
  obtain outs' where rest: "run_line ops f' = Some (ins, outs', g)"
    and outs: "outs = (case r of None \<Rightarrow> [] | Some x \<Rightarrow> [x]) @ outs'"
    using 3(2) pop by auto
  have f': "f' = snd (pop_arrived now f)" "r = fst (pop_arrived now f)" using pop by simp_all
  show ?case using 3(1) [OF pop [symmetric] rest] outs by (cases r) (simp_all add: f' is_send_def)
qed simp

text \<open>C21. A direction of the link is a queue: whatever is sent and polled, with any jitter, the frames that land
  followed by those still on the line are those that were on it followed by those accepted since, in
  the order they were sent and with arrivals that never decrease; no more than the depth is ever on the
  line; and every frame sent is counted as landed or dropped, or is still on the line.\<close>

theorem fibre_is_fifo:
  assumes "line_ok f" "fc_rate_bps (fi_config f) \<noteq> 0"
  shows "\<exists>ins outs g. run_line ops f = Some (ins, outs, g)
    \<and> map if_frame (outs @ fi_queue g) = map if_frame (fi_queue f) @ ins
    \<and> sorted (map arrives_at (outs @ fi_queue g))
    \<and> length (fi_queue g) \<le> fc_depth (fi_config f)
    \<and> fi_sent g - fi_delivered g - fi_dropped_full g - of_nat (length (fi_queue g))
      = fi_sent f - fi_delivered f - fi_dropped_full f - of_nat (length (fi_queue f))"
proof -
  obtain ins outs g where run: "run_line ops f = Some (ins, outs, g)" using run_line_returns [OF assms(2)] by blast
  obtain new where o: "outs @ fi_queue g = fi_queue f @ new" "map if_frame new = ins" "line_ok g"
      "fi_config g = fi_config f" "sorted (map arrives_at (fi_queue f @ new))"
    using run_line_order [OF run assms(1)] by blast
  have "length (outs @ fi_queue g) = length (fi_queue f @ new)" using o(1) by simp
  then have "length outs + length (fi_queue g) = length (fi_queue f) + length ins" using o(2) by auto
  then have "(of_nat (length outs) + of_nat (length (fi_queue g)) :: u64) = of_nat (length (fi_queue f)) + of_nat (length ins)"
    by (metis of_nat_add)
  then have "fi_sent g - fi_delivered g - fi_dropped_full g - of_nat (length (fi_queue g))
      = fi_sent f - fi_delivered f - fi_dropped_full f - of_nat (length (fi_queue f))"
    using run_line_counts [OF run] by (simp add: algebra_simps)
  moreover have "sorted (map arrives_at (outs @ fi_queue g))" using o by simp
  moreover have "map if_frame (outs @ fi_queue g) = map if_frame (fi_queue f) @ ins" unfolding o(1) using o(2) by simp
  moreover have "length (fi_queue g) \<le> fc_depth (fi_config f)" using o(3,4) by (simp add: line_ok_def)
  ultimately show ?thesis using run by blast
qed

theorem fibre_is_fifo_witness:
  "\<exists>ins outs g. run_line [Send [1] 0, Send [2] 0, Poll 500000000] (fibre_new config_downstream) = Some (ins, outs, g)
    \<and> map if_frame (outs @ fi_queue g) = ins"
  using fibre_is_fifo [OF new_ok, of config_downstream "[Send [1] 0, Send [2] 0, Poll 500000000]"]
  by (auto simp: fibre_new_def config_downstream_def)

end
