(* ===== verification/Olt_Mpcp.thy ===== *)
theory Olt_Mpcp
  imports Olt_Types
begin

text \<open>
  \<open>crates/epon-olt/src/mpcp.rs\<close>: encoding and decoding of multi-point control frames, and that a
  frame that was built parses back to what it was built from.
\<close>

section \<open>Field values\<close>

datatype mpcp_opcode = Op_Gate | Op_Report | Op_RegisterReq | Op_Register | Op_RegisterAck | Op_Other u16

primrec mpcp_opcode_u16 :: "mpcp_opcode \<Rightarrow> u16" where
  "mpcp_opcode_u16 Op_Gate = 2"
| "mpcp_opcode_u16 Op_Report = 3"
| "mpcp_opcode_u16 Op_RegisterReq = 4"
| "mpcp_opcode_u16 Op_Register = 5"
| "mpcp_opcode_u16 Op_RegisterAck = 6"
| "mpcp_opcode_u16 (Op_Other v) = v"

definition is_downstream_only :: "mpcp_opcode \<Rightarrow> bool" where
  "is_downstream_only op \<longleftrightarrow> op = Op_Gate \<or> op = Op_Register"

definition mpcp_opcode_from :: "u16 \<Rightarrow> mpcp_opcode" where
  "mpcp_opcode_from v =
     (if v = 2 then Op_Gate else if v = 3 then Op_Report else if v = 4 then Op_RegisterReq
      else if v = 5 then Op_Register else if v = 6 then Op_RegisterAck else Op_Other v)"

datatype register_flag = RF_Reregister | RF_Deregister | RF_Ack | RF_Nack

primrec register_flag_u8 :: "register_flag \<Rightarrow> u8" where
  "register_flag_u8 RF_Reregister = 1"
| "register_flag_u8 RF_Deregister = 2"
| "register_flag_u8 RF_Ack = 3"
| "register_flag_u8 RF_Nack = 4"

definition register_flag_from :: "u8 \<Rightarrow> register_flag option" where
  "register_flag_from v =
     (if v = 1 then Some RF_Reregister else if v = 2 then Some RF_Deregister
      else if v = 3 then Some RF_Ack else if v = 4 then Some RF_Nack else None)"

definition register_flag_registers :: "register_flag \<Rightarrow> bool" where
  "register_flag_registers f \<longleftrightarrow> f = RF_Ack"

datatype register_req_flag = RR_Register | RR_Deregister | RR_Other u8

primrec register_req_flag_u8 :: "register_req_flag \<Rightarrow> u8" where
  "register_req_flag_u8 RR_Register = 1"
| "register_req_flag_u8 RR_Deregister = 3"
| "register_req_flag_u8 (RR_Other v) = v"

definition register_req_flag_from :: "u8 \<Rightarrow> register_req_flag" where
  "register_req_flag_from v = (if v = 1 then RR_Register else if v = 3 then RR_Deregister else RR_Other v)"

datatype register_ack_flag = RA_Nack | RA_Ack | RA_Other u8

primrec register_ack_flag_u8 :: "register_ack_flag \<Rightarrow> u8" where
  "register_ack_flag_u8 RA_Nack = 0"
| "register_ack_flag_u8 RA_Ack = 1"
| "register_ack_flag_u8 (RA_Other v) = v"

definition register_ack_flag_from :: "u8 \<Rightarrow> register_ack_flag" where
  "register_ack_flag_from v = (if v = 0 then RA_Nack else if v = 1 then RA_Ack else RA_Other v)"

definition acknowledges :: "register_ack_flag \<Rightarrow> bool" where
  "acknowledges f \<longleftrightarrow> f = RA_Ack"

record gate_flags =
  grant_count :: u8
  discovery :: bool
  force_report :: u8

definition gate_flags_u8 :: "gate_flags \<Rightarrow> u8" where
  "gate_flags_u8 g =
     (grant_count g AND 0x07) OR (if discovery g then 0x08 else 0) OR push_bit 4 (force_report g)"

definition gate_flags_from :: "u8 \<Rightarrow> gate_flags" where
  "gate_flags_from v =
     \<lparr>grant_count = v AND 0x07, discovery = (v AND 0x08 \<noteq> 0), force_report = drop_bit 4 v\<rparr>"

record grant =
  start_time :: u32
  grant_length :: u16

record mpcp_header =
  mh_dst :: mac_addr
  mh_src :: mac_addr
  mh_opcode :: mpcp_opcode
  mh_timestamp :: u32

record register_req_body =
  rr_flag :: register_req_flag
  rr_pending_grants :: u8
  rr_discovery_information :: u16
  rr_laser_on :: u8
  rr_laser_off :: u8

datatype mpcp_body =
    Body_Gate gate_flags "grant option"
  | Body_Register llid u8 u16
  | Body_RegisterReq register_req_body
  | Body_RegisterAck register_ack_flag llid u16
  | Body_Empty

record mpcp_pdu =
  pdu_header :: mpcp_header
  pdu_body :: mpcp_body

section \<open>Parsing\<close>

text \<open>\<open>body.get(i).copied().unwrap_or(0)\<close> and its halfword\<close>

definition at_or_0 :: "u8 list \<Rightarrow> nat \<Rightarrow> u8" where
  "at_or_0 b i = (case get_at b i of None \<Rightarrow> 0 | Some v \<Rightarrow> v)"

definition u16_at :: "u8 list \<Rightarrow> nat \<Rightarrow> u16" where
  "u16_at b i = be_half (at_or_0 b i) (at_or_0 b (i + 1))"

definition parse_gate_body :: "u8 list \<Rightarrow> mpcp_body" where
  "parse_gate_body body =
     (let flags = gate_flags_from (at_or_0 body 0)
      in Body_Gate flags
           (if grant_count flags > 0 \<and> length body \<ge> 7
            then Some \<lparr>start_time = be_word (at_or_0 body 1) (at_or_0 body 2) (at_or_0 body 3) (at_or_0 body 4),
                       grant_length = u16_at body 5\<rparr>
            else None))"

definition parse_body :: "mpcp_opcode \<Rightarrow> u8 list \<Rightarrow> mpcp_body" where
  "parse_body op body =
     (case op of
        Op_Gate \<Rightarrow> parse_gate_body body
      | Op_Register \<Rightarrow> Body_Register (Llid (u16_at body 0)) (at_or_0 body 2) (u16_at body 3)
      | Op_RegisterAck \<Rightarrow>
          Body_RegisterAck (register_ack_flag_from (at_or_0 body 0)) (Llid (u16_at body 1)) (u16_at body 3)
      | Op_RegisterReq \<Rightarrow>
          Body_RegisterReq \<lparr>rr_flag = register_req_flag_from (at_or_0 body 0),
            rr_pending_grants = at_or_0 body 1, rr_discovery_information = u16_at body 2,
            rr_laser_on = at_or_0 body 4, rr_laser_off = at_or_0 body 5\<rparr>
      | _ \<Rightarrow> Body_Empty)"

definition mpcp_parse :: "frame \<Rightarrow> mpcp_pdu option" where
  "mpcp_parse frame =
     Option.bind (ether_type_of_frame frame) (\<lambda>et.
       if et \<noteq> ET_Mpcp then None
       else
         Option.bind (get_half frame 14) (\<lambda>op.
         Option.bind (get_word frame 16) (\<lambda>timestamp.
         Option.bind (mac_from_slice frame) (\<lambda>dst.
         Option.bind (mac_from_slice (drop 6 frame)) (\<lambda>src.
           let opcode = mpcp_opcode_from op
           in Some \<lparr>pdu_header = \<lparr>mh_dst = dst, mh_src = src, mh_opcode = opcode, mh_timestamp = timestamp\<rparr>,
                    pdu_body = parse_body opcode (drop 20 frame)\<rparr>)))))"

section \<open>Building\<close>

definition mpcp_writer :: "mpcp_header \<Rightarrow> u8 list" where
  "mpcp_writer h =
     ethernet (mh_dst h) (mh_src h) ET_Mpcp @ w_u16 (mpcp_opcode_u16 (mh_opcode h)) @ w_u32 (mh_timestamp h)"

record register_body =
  rb_sync_time :: u16
  rb_echoed_pending_grants :: u8
  rb_echoed_laser_on :: u8
  rb_echoed_laser_off :: u8

definition mpcp_register :: "mpcp_header \<Rightarrow> llid \<Rightarrow> register_flag \<Rightarrow> register_body \<Rightarrow> frame" where
  "mpcp_register h l flag b =
     pad_to MIN_FRAME_LEN (mpcp_writer h @ w_u16 (llid_u16 l) @ [register_flag_u8 flag] @ w_u16 (rb_sync_time b)
       @ [rb_echoed_pending_grants b, rb_echoed_laser_on b, rb_echoed_laser_off b])"

definition mpcp_register_ack :: "mpcp_header \<Rightarrow> register_ack_flag \<Rightarrow> llid \<Rightarrow> u16 \<Rightarrow> frame" where
  "mpcp_register_ack h flag echoed_port echoed_sync_time =
     pad_to MIN_FRAME_LEN (mpcp_writer h @ [register_ack_flag_u8 flag] @ w_u16 (llid_u16 echoed_port)
       @ w_u16 echoed_sync_time)"

record discovery_window =
  dw_sync_time :: u16
  dw_information :: u16

definition mpcp_gate :: "mpcp_header \<Rightarrow> gate_flags \<Rightarrow> grant option \<Rightarrow> discovery_window option \<Rightarrow> frame" where
  "mpcp_gate h flags g d =
     pad_to MIN_FRAME_LEN (mpcp_writer h @ [gate_flags_u8 flags]
       @ (case g of None \<Rightarrow> [] | Some g \<Rightarrow> w_u32 (start_time g) @ w_u16 (grant_length g))
       @ (case d of None \<Rightarrow> [] | Some d \<Rightarrow> w_u16 (dw_sync_time d) @ w_u16 (dw_information d)))"

definition mpcp_bare :: "mpcp_header \<Rightarrow> frame" where
  "mpcp_bare h = pad_to MIN_FRAME_LEN (mpcp_writer h)"

definition report_with_length :: "mpcp_header \<Rightarrow> u16 \<Rightarrow> frame" where
  "report_with_length h queue_length =
     pad_to MIN_FRAME_LEN (mpcp_writer h @ [1, 1] @ w_u16 queue_length)"

definition mpcp_register_req :: "mpcp_header \<Rightarrow> register_req_body \<Rightarrow> frame" where
  "mpcp_register_req h b =
     pad_to MIN_FRAME_LEN (mpcp_writer h @ [register_req_flag_u8 (rr_flag b), rr_pending_grants b]
       @ w_u16 (rr_discovery_information b) @ [rr_laser_on b, rr_laser_off b])"

section \<open>Round trips\<close>

text \<open>Values whose number the code point table of the standard does not give to another constructor\<close>

definition opcode_ok :: "mpcp_opcode \<Rightarrow> bool" where
  "opcode_ok op \<longleftrightarrow> mpcp_opcode_from (mpcp_opcode_u16 op) = op"

lemma opcode_ok_named [simp]:
  "opcode_ok Op_Gate" "opcode_ok Op_Report" "opcode_ok Op_RegisterReq" "opcode_ok Op_Register" "opcode_ok Op_RegisterAck"
  by (simp_all add: opcode_ok_def mpcp_opcode_from_def)

lemma register_flag_roundtrip: "register_flag_from (register_flag_u8 f) = Some f"
  by (cases f) (simp_all add: register_flag_from_def)

lemma gate_flags_roundtrip:
  assumes "grant_count g < 8" "force_report g < 16"
  shows "gate_flags_from (gate_flags_u8 g) = g"
proof -
  have cnt: "take_bit 3 (grant_count g) = grant_count g" and rep: "take_bit 4 (force_report g) = force_report g"
    using assms less_mask_eq [of "grant_count g" 3] less_mask_eq [of "force_report g" 4]
    by (simp_all add: take_bit_eq_mask)
  have bits: "bit (grant_count g) n \<Longrightarrow> n < 3" "bit (force_report g) n \<Longrightarrow> n < 4" for n
    using bit_take_bit_iff [of 3 "grant_count g" n] bit_take_bit_iff [of 4 "force_report g" n]
    by (simp_all add: cnt rep)
  have masks: "(7 :: u8) = mask 3" "(8 :: u8) = push_bit 3 1" by (simp_all add: mask_eq_exp_minus_1)
  have g: "gate_flags_u8 g = grant_count g OR push_bit 3 (of_bool (discovery g)) OR push_bit 4 (force_report g)"
    using cnt by (cases "discovery g") (simp_all add: gate_flags_u8_def and_low_mask)
  have eight: "bit (8 :: u8) n \<longleftrightarrow> n = 3" for n
    unfolding masks(2) by (simp only: bit_push_bit_iff bit_1_iff) auto
  have at: "bit (gate_flags_u8 g) n \<longleftrightarrow> bit (grant_count g) n \<or> n = 3 \<and> discovery g \<or> 4 \<le> n \<and> n < 8 \<and> bit (force_report g) (n - 4)" for n
    unfolding g using eight [of n] by (cases "discovery g") (auto simp: bit_or_iff bit_push_bit_iff)
  have "gate_flags_u8 g AND 7 = grant_count g"
    unfolding masks(1) by (rule bit_word_eqI) (use bits(1) in \<open>auto simp: bit_and_iff bit_mask_iff at\<close>)
  moreover have "drop_bit 4 (gate_flags_u8 g) = force_report g"
    by (rule bit_word_eqI) (use bits in \<open>fastforce simp: bit_drop_bit_eq at\<close>)
  moreover have "(gate_flags_u8 g AND 8 \<noteq> 0) = discovery g"
    unfolding masks(2) using and_exp_eq_0_iff [of 3 "gate_flags_u8 g"] bits(1) [of 3] by (auto simp: at)
  ultimately show ?thesis by (simp add: gate_flags_from_def)
qed

lemma length_mpcp_writer [simp]: "length (mpcp_writer h) = 20"
  by (simp add: mpcp_writer_def w_u16_def w_u32_def)

lemma at_or_0_simps [simp]: "at_or_0 (x # xs) 0 = x" "at_or_0 (x # xs) (Suc i) = at_or_0 xs i"
  by (simp_all add: at_or_0_def)

text \<open>A frame that starts with the common part parses to its header, and the body is what follows it.\<close>

lemma parse_written:
  assumes "opcode_ok (mh_opcode h)"
  shows "mpcp_parse (pad_to MIN_FRAME_LEN (mpcp_writer h @ body))
    = Some \<lparr>pdu_header = h, pdu_body = parse_body (mh_opcode h) (pad_to 40 body)\<rparr>"
proof -
  let ?rest = "w_u16 (mpcp_opcode_u16 (mh_opcode h)) @ w_u32 (mh_timestamp h) @ pad_to 40 body"
  have f: "pad_to MIN_FRAME_LEN (mpcp_writer h @ body) = ethernet (mh_dst h) (mh_src h) ET_Mpcp @ ?rest"
    by (simp add: pad_to_append pad_to_Cons numeral_eq_Suc mpcp_writer_def w_u16_def w_u32_def)
  have op: "get_half (ethernet (mh_dst h) (mh_src h) ET_Mpcp @ ?rest) 14 = Some (mpcp_opcode_u16 (mh_opcode h))"
    by (simp add: get_half_def w_u16_def)
  have ts: "get_word (ethernet (mh_dst h) (mh_src h) ET_Mpcp @ ?rest) 16 = Some (mh_timestamp h)"
    by (simp add: get_word_def w_u16_def w_u32_def numeral_eq_Suc)
  have body: "drop 20 (ethernet (mh_dst h) (mh_src h) ET_Mpcp @ ?rest) = pad_to 40 body"
    by (simp add: w_u16_def w_u32_def)
  show ?thesis
    unfolding f mpcp_parse_def op ts body
    using assms by (simp add: ether_type_from_def opcode_ok_def Let_def)
qed

lemma parse_None: "mpcp_parse f = None \<longleftrightarrow> ether_type_of_frame f \<noteq> Some ET_Mpcp \<or> length f < 20"
proof (cases "ether_type_of_frame f = Some ET_Mpcp")
  case True
  then show ?thesis
    using get_half_None [of f 14] get_word_None [of f 16] mac_from_slice_None [of f] mac_from_slice_None [of "drop 6 f"]
    by (auto simp: mpcp_parse_def Let_def bind_eq_None_conv)
next
  case False
  then show ?thesis by (auto simp: mpcp_parse_def bind_eq_None_conv)
qed

lemmas body_simps = parse_body_def u16_at_def w_u16_def w_u32_def pad_to_Cons numeral_eq_Suc

lemma gate_body:
  assumes "grant_count flags < 8" "force_report flags < 16" "g \<noteq> None \<longleftrightarrow> grant_count flags > 0"
  shows "parse_gate_body (pad_to 40 ([gate_flags_u8 flags]
       @ (case g of None \<Rightarrow> [] | Some g \<Rightarrow> w_u32 (start_time g) @ w_u16 (grant_length g)) @ rest)) = Body_Gate flags g"
  using assms gate_flags_roundtrip [OF assms(1,2)]
  by (cases g) (simp_all add: parse_gate_body_def Let_def body_simps)

text \<open>Each kind of frame that is built, parsed\<close>

lemma parse_register:
  "mh_opcode h = Op_Register \<Longrightarrow> mpcp_parse (mpcp_register h l rf b)
   = Some \<lparr>pdu_header = h, pdu_body = Body_Register l (register_flag_u8 rf) (rb_sync_time b)\<rparr>"
  unfolding mpcp_register_def by (cases l, subst parse_written) (simp_all add: body_simps)

lemma parse_register_ack:
  assumes "mh_opcode h = Op_RegisterAck" "ra \<in> range register_ack_flag_from"
  shows "mpcp_parse (mpcp_register_ack h ra l sync) = Some \<lparr>pdu_header = h, pdu_body = Body_RegisterAck ra l sync\<rparr>"
proof -
  have "register_ack_flag_from (register_ack_flag_u8 ra) = ra"
    using assms(2) by (auto simp: register_ack_flag_from_def)
  then show ?thesis
    unfolding mpcp_register_ack_def using assms(1)
    by (cases l, subst parse_written) (simp_all add: body_simps)
qed

lemma parse_register_req:
  assumes "mh_opcode h = Op_RegisterReq" "rr_flag q \<in> range register_req_flag_from"
  shows "mpcp_parse (mpcp_register_req h q) = Some \<lparr>pdu_header = h, pdu_body = Body_RegisterReq q\<rparr>"
proof -
  have "register_req_flag_from (register_req_flag_u8 (rr_flag q)) = rr_flag q"
    using assms(2) by (auto simp: register_req_flag_from_def)
  then show ?thesis
    unfolding mpcp_register_req_def using assms(1)
    by (cases q, subst parse_written) (simp_all add: body_simps)
qed

lemma parse_gate:
  assumes "mh_opcode h = Op_Gate" "grant_count flags < 8" "force_report flags < 16"
    "g \<noteq> None \<longleftrightarrow> grant_count flags > 0"
  shows "mpcp_parse (mpcp_gate h flags g d) = Some \<lparr>pdu_header = h, pdu_body = Body_Gate flags g\<rparr>"
  unfolding mpcp_gate_def using assms(1)
  by (subst parse_written) (simp_all add: parse_body_def gate_body [OF assms(2-4), simplified])

text \<open>The trailer of a discovery GATE, where a receiver looks for it\<close>

lemma gate_information:
  "get_half (mpcp_gate h flags (Some g) (Some d)) 29 = Some (dw_information d)"
proof -
  have "mpcp_gate h flags (Some g) (Some d)
      = mpcp_writer h @ pad_to 40 ([gate_flags_u8 flags] @ (w_u32 (start_time g) @ w_u16 (grant_length g))
          @ w_u16 (dw_sync_time d) @ w_u16 (dw_information d))"
    by (simp add: mpcp_gate_def pad_to_append)
  then show ?thesis by (simp add: get_half_def get_at_append body_simps)
qed

text \<open>C24. A control frame parses back to what it was built from: REGISTER, REGISTER_ACK, REGISTER_REQ and GATE
  with their header and fields, each frame of the minimal length, and the discovery information of a
  GATE with a grant sits where receivers read it. A frame is refused exactly when it is not a control
  frame or is too short for the common header.\<close>

theorem mpcp_roundtrip:
  assumes ack: "ra \<in> range register_ack_flag_from" and req: "rr_flag q \<in> range register_req_flag_from"
    and gate: "grant_count flags < 8" "force_report flags < 16" "g \<noteq> None \<longleftrightarrow> grant_count flags > 0"
  shows "mpcp_parse (mpcp_register (h\<lparr>mh_opcode := Op_Register\<rparr>) l rf b)
      = Some \<lparr>pdu_header = h\<lparr>mh_opcode := Op_Register\<rparr>,
              pdu_body = Body_Register l (register_flag_u8 rf) (rb_sync_time b)\<rparr>
    \<and> register_flag_from (register_flag_u8 rf) = Some rf
    \<and> mpcp_parse (mpcp_register_ack (h\<lparr>mh_opcode := Op_RegisterAck\<rparr>) ra l sync)
      = Some \<lparr>pdu_header = h\<lparr>mh_opcode := Op_RegisterAck\<rparr>, pdu_body = Body_RegisterAck ra l sync\<rparr>
    \<and> mpcp_parse (mpcp_register_req (h\<lparr>mh_opcode := Op_RegisterReq\<rparr>) q)
      = Some \<lparr>pdu_header = h\<lparr>mh_opcode := Op_RegisterReq\<rparr>, pdu_body = Body_RegisterReq q\<rparr>
    \<and> mpcp_parse (mpcp_gate (h\<lparr>mh_opcode := Op_Gate\<rparr>) flags g d)
      = Some \<lparr>pdu_header = h\<lparr>mh_opcode := Op_Gate\<rparr>, pdu_body = Body_Gate flags g\<rparr>
    \<and> (g \<noteq> None \<longrightarrow> get_half (mpcp_gate h flags g (Some w)) 29 = Some (dw_information w))
    \<and> (mpcp_parse f = None \<longleftrightarrow> ether_type_of_frame f \<noteq> Some ET_Mpcp \<or> length f < 20)"
  using parse_register [of "h\<lparr>mh_opcode := Op_Register\<rparr>"] parse_register_ack [OF _ ack, of "h\<lparr>mh_opcode := Op_RegisterAck\<rparr>"]
    parse_register_req [OF _ req, of "h\<lparr>mh_opcode := Op_RegisterReq\<rparr>"] parse_gate [OF _ gate, of "h\<lparr>mh_opcode := Op_Gate\<rparr>"]
    gate_information [of h flags] parse_None [of f]
  by (auto simp: register_flag_roundtrip)

theorem mpcp_roundtrip_witness:
  "\<forall>h. mpcp_parse (mpcp_gate (h\<lparr>mh_opcode := Op_Gate\<rparr>)
        \<lparr>grant_count = 1, discovery = True, force_report = 0\<rparr> (Some \<lparr>start_time = 22806, grant_length = 8244\<rparr>)
        (Some \<lparr>dw_sync_time = 32, dw_information = 0x11\<rparr>))
      = Some \<lparr>pdu_header = h\<lparr>mh_opcode := Op_Gate\<rparr>,
              pdu_body = Body_Gate \<lparr>grant_count = 1, discovery = True, force_report = 0\<rparr>
                           (Some \<lparr>start_time = 22806, grant_length = 8244\<rparr>)\<rparr>"
proof
  fix h
  let ?q = "\<lparr>rr_flag = register_req_flag_from 1, rr_pending_grants = 0, rr_discovery_information = 0x11,
             rr_laser_on = 32, rr_laser_off = 32\<rparr>"
  show "mpcp_parse (mpcp_gate (h\<lparr>mh_opcode := Op_Gate\<rparr>)
        \<lparr>grant_count = 1, discovery = True, force_report = 0\<rparr> (Some \<lparr>start_time = 22806, grant_length = 8244\<rparr>)
        (Some \<lparr>dw_sync_time = 32, dw_information = 0x11\<rparr>))
      = Some \<lparr>pdu_header = h\<lparr>mh_opcode := Op_Gate\<rparr>,
              pdu_body = Body_Gate \<lparr>grant_count = 1, discovery = True, force_report = 0\<rparr>
                           (Some \<lparr>start_time = 22806, grant_length = 8244\<rparr>)\<rparr>"
    using mpcp_roundtrip [of "register_ack_flag_from 1" ?q "\<lparr>grant_count = 1, discovery = True, force_report = 0\<rparr>"
        "Some \<lparr>start_time = 22806, grant_length = 8244\<rparr>"] by simp
qed

end
