(* ===== verification/Olt_Oam.thy ===== *)
theory Olt_Oam
  imports Olt_Types
begin

text \<open>
  \<open>crates/epon-olt/src/oam.rs\<close>: OAM frames (clause 57), the discovery state of one end, and that two
  ends that exchange Information frames settle, from any state and with any losses.
\<close>

abbreviation SUBTYPE_OAM :: u8 where
  "SUBTYPE_OAM \<equiv> 0x03"

section \<open>Codes and flags\<close>

datatype oam_code =
    Information | EventNotification | VariableRequest | VariableResponse | LoopbackControl
  | OrganizationSpecific | Code_Other u8

primrec oam_code_u8 :: "oam_code \<Rightarrow> u8" where
  "oam_code_u8 Information = 0x00"
| "oam_code_u8 EventNotification = 0x01"
| "oam_code_u8 VariableRequest = 0x02"
| "oam_code_u8 VariableResponse = 0x03"
| "oam_code_u8 LoopbackControl = 0x04"
| "oam_code_u8 OrganizationSpecific = 0xFE"
| "oam_code_u8 (Code_Other v) = v"

definition oam_code_from :: "u8 \<Rightarrow> oam_code" where
  "oam_code_from v =
     (if v = 0x00 then Information else if v = 0x01 then EventNotification
      else if v = 0x02 then VariableRequest else if v = 0x03 then VariableResponse
      else if v = 0x04 then LoopbackControl else if v = 0xFE then OrganizationSpecific
      else Code_Other v)"

record oam_flags =
  link_fault :: bool
  dying_gasp :: bool
  critical_event :: bool
  local_evaluating :: bool
  local_stable :: bool
  remote_evaluating :: bool
  remote_stable :: bool

definition flags_default :: oam_flags where
  "flags_default =
     \<lparr>link_fault = False, dying_gasp = False, critical_event = False, local_evaluating = False,
      local_stable = False, remote_evaluating = False, remote_stable = False\<rparr>"

definition flags_local_stable :: oam_flags where
  "flags_local_stable = flags_default\<lparr>local_stable := True\<rparr>"

definition flags_converged :: oam_flags where
  "flags_converged = flags_default\<lparr>local_stable := True, remote_stable := True\<rparr>"

definition flags_u16 :: "oam_flags \<Rightarrow> u16" where
  "flags_u16 f =
     (if link_fault f then 0x0001 else 0) OR (if dying_gasp f then 0x0002 else 0)
     OR (if critical_event f then 0x0004 else 0) OR (if local_evaluating f then 0x0008 else 0)
     OR (if local_stable f then 0x0010 else 0) OR (if remote_evaluating f then 0x0020 else 0)
     OR (if remote_stable f then 0x0040 else 0)"

definition flags_from :: "u16 \<Rightarrow> oam_flags" where
  "flags_from v =
     \<lparr>link_fault = (v AND 0x0001 \<noteq> 0), dying_gasp = (v AND 0x0002 \<noteq> 0),
      critical_event = (v AND 0x0004 \<noteq> 0), local_evaluating = (v AND 0x0008 \<noteq> 0),
      local_stable = (v AND 0x0010 \<noteq> 0), remote_evaluating = (v AND 0x0020 \<noteq> 0),
      remote_stable = (v AND 0x0040 \<noteq> 0)\<rparr>"

section \<open>Discovery\<close>

datatype discovery_state = LocalEvaluating | LocalStable | Converged

record discovery =
  d_state :: discovery_state
  d_sent :: u32
  d_peer :: "oam_flags option"
  d_peer_described :: bool \<comment> \<open>\<open>peer_described_itself\<close>\<close>

definition discovery_default :: discovery where
  "discovery_default = \<lparr>d_state = LocalEvaluating, d_sent = 0, d_peer = None, d_peer_described = False\<rparr>"

abbreviation EVALUATING_PDUS :: u32 where
  "EVALUATING_PDUS \<equiv> 6"

definition d_converged :: "discovery \<Rightarrow> bool" where
  "d_converged d \<longleftrightarrow> d_state d = Converged"

definition d_flags :: "discovery \<Rightarrow> oam_flags" where
  "d_flags d =
     (let flags = (case d_state d of
                     LocalEvaluating \<Rightarrow> flags_default\<lparr>local_evaluating := True\<rparr>
                   | LocalStable \<Rightarrow> flags_local_stable
                   | Converged \<Rightarrow> flags_local_stable)
      in case d_peer d of
           None \<Rightarrow> flags
         | Some peer \<Rightarrow> flags\<lparr>remote_evaluating := local_evaluating peer, remote_stable := local_stable peer\<rparr>)"

definition d_enter :: "discovery_state \<Rightarrow> discovery \<Rightarrow> discovery" where
  "d_enter st d = (if d_state d \<noteq> st then d\<lparr>d_state := st, d_sent := 0\<rparr> else d)"

definition settle_if_evaluated :: "discovery \<Rightarrow> discovery" where
  "settle_if_evaluated d =
     (if d_state d = LocalEvaluating \<and> d_peer_described d \<and> d_sent d \<ge> EVALUATING_PDUS
      then d_enter LocalStable d else d)"

definition on_sent :: "discovery \<Rightarrow> discovery" where
  "on_sent d = settle_if_evaluated (d\<lparr>d_sent := (if d_sent d = 0xFFFFFFFF then 0xFFFFFFFF else d_sent d + 1)\<rparr>)"

definition on_peer_flags :: "oam_flags \<Rightarrow> discovery \<Rightarrow> discovery" where
  "on_peer_flags flags d0 =
     (let d = d0\<lparr>d_peer := Some flags\<rparr>
      in if link_fault flags then discovery_default
         else
           let d1 = settle_if_evaluated d
           in case d_state d1 of
                Converged \<Rightarrow> if local_evaluating flags then d_enter LocalStable d1 else d1
              | LocalStable \<Rightarrow> if local_stable flags then d_enter Converged d1 else d1
              | LocalEvaluating \<Rightarrow> d1)"

definition on_peer_information :: "oam_flags \<Rightarrow> discovery \<Rightarrow> discovery" where
  "on_peer_information flags d = on_peer_flags flags (d\<lparr>d_peer_described := True\<rparr>)"

section \<open>Frames\<close>

datatype oui = Oui u8 u8 u8

primrec oui_bytes :: "oui \<Rightarrow> u8 list" where
  "oui_bytes (Oui a b c) = [a, b, c]"

definition OUI_DPOE :: oui where
  "OUI_DPOE = Oui 0x00 0x10 0x00"

record info_tlv =
  it_is_local :: bool
  it_oam_version :: u8
  it_revision :: u16
  it_state :: u8
  it_configuration :: u8
  it_max_pdu_size :: u16
  it_oui :: oui
  it_vendor_specific :: "u8 \<times> u8 \<times> u8 \<times> u8"

definition info_tlv_write :: "info_tlv \<Rightarrow> u8 list" where
  "info_tlv_write i =
     [if it_is_local i then 0x01 else 0x02, 0x10, it_oam_version i] @ w_u16 (it_revision i)
     @ [it_state i, it_configuration i] @ w_u16 (it_max_pdu_size i) @ oui_bytes (it_oui i)
     @ (case it_vendor_specific i of (a, b, c, d) \<Rightarrow> [a, b, c, d])"

record oam_pdu =
  op_dst :: mac_addr
  op_src :: mac_addr
  op_subtype :: u8
  op_flags :: oam_flags
  op_code :: oam_code

definition oam_parse :: "frame \<Rightarrow> oam_pdu option" where
  "oam_parse frame =
     Option.bind (ether_type_of_frame frame) (\<lambda>et.
       if et \<noteq> ET_SlowProtocol then None
       else
         Option.bind (mac_from_slice frame) (\<lambda>dst.
         Option.bind (mac_from_slice (drop 6 frame)) (\<lambda>src.
         Option.bind (get_at frame 14) (\<lambda>subtype.
         Option.bind (get_half frame 15) (\<lambda>flags.
         Option.bind (get_at frame 17) (\<lambda>code.
           Some \<lparr>op_dst = dst, op_src = src, op_subtype = subtype, op_flags = flags_from flags,
                 op_code = oam_code_from code\<rparr>))))))"

definition tlv_bytes :: "frame \<Rightarrow> u8 list" where
  "tlv_bytes frame = drop 18 frame"

definition oam_information :: "mac_addr \<Rightarrow> mac_addr \<Rightarrow> oam_flags \<Rightarrow> info_tlv \<Rightarrow> frame" where
  "oam_information dst src flags info =
     pad_to MIN_FRAME_LEN (ethernet dst src ET_SlowProtocol @ [SUBTYPE_OAM] @ w_u16 (flags_u16 flags)
       @ [oam_code_u8 Information] @ info_tlv_write info @ [0x00, 0x00])"

section \<open>Round trips\<close>

lemma flags_roundtrip [simp]: "flags_from (flags_u16 f) = f"
proof -
  have "f = \<lparr>link_fault = a, dying_gasp = b, critical_event = c, local_evaluating = d, local_stable = e,
             remote_evaluating = g, remote_stable = h\<rparr>
    \<Longrightarrow> flags_from (flags_u16 f) = f" for a b c d e g h
    by (cases a; cases b; cases c; cases d; cases e; cases g; cases h)
      (simp_all add: flags_from_def flags_u16_def)
  then show ?thesis by (cases f) blast
qed

text \<open>The common start of every OAM frame\<close>

definition oam_writer :: "mac_addr \<Rightarrow> mac_addr \<Rightarrow> oam_flags \<Rightarrow> oam_code \<Rightarrow> u8 list" where
  "oam_writer dst src flags code =
     ethernet dst src ET_SlowProtocol @ [SUBTYPE_OAM] @ w_u16 (flags_u16 flags) @ [oam_code_u8 code]"

lemma length_oam_writer [simp]: "length (oam_writer dst src flags code) = 18"
  by (simp add: oam_writer_def w_u16_def)

lemma oam_parse_written:
  assumes "oam_code_from (oam_code_u8 code) = code"
  shows "oam_parse (oam_writer dst src flags code @ rest)
    = Some \<lparr>op_dst = dst, op_src = src, op_subtype = SUBTYPE_OAM, op_flags = flags, op_code = code\<rparr>"
proof -
  let ?f = "ethernet dst src ET_SlowProtocol @ ([SUBTYPE_OAM] @ w_u16 (flags_u16 flags) @ [oam_code_u8 code] @ rest)"
  have f: "oam_writer dst src flags code @ rest = ?f" by (simp add: oam_writer_def)
  have "get_at ?f 14 = Some SUBTYPE_OAM" "get_half ?f 15 = Some (flags_u16 flags)"
    "get_at ?f 17 = Some (oam_code_u8 code)"
    by (simp_all add: get_half_def w_u16_def numeral_eq_Suc)
  then show ?thesis
    unfolding f oam_parse_def using assms by (simp add: ether_type_from_def)
qed

lemma parse_information:
  "oam_parse (oam_information dst src flags info)
    = Some \<lparr>op_dst = dst, op_src = src, op_subtype = SUBTYPE_OAM, op_flags = flags, op_code = Information\<rparr>"
proof -
  have "oam_information dst src flags info
      = oam_writer dst src flags Information @ pad_to 42 (info_tlv_write info @ [0x00, 0x00])"
    by (simp add: oam_information_def oam_writer_def pad_to_append pad_to_Cons numeral_eq_Suc w_u16_def)
  then show ?thesis by (simp add: oam_parse_written oam_code_from_def)
qed

lemma oam_parse_None:
  "oam_parse f = None \<longleftrightarrow> ether_type_of_frame f \<noteq> Some ET_SlowProtocol \<or> length f < 18"
proof (cases "ether_type_of_frame f = Some ET_SlowProtocol")
  case True
  then show ?thesis
    using mac_from_slice_None [of f] mac_from_slice_None [of "drop 6 f"] get_half_None [of f 15]
    by (auto simp: oam_parse_def bind_eq_None_conv)
next
  case False
  then show ?thesis by (auto simp: oam_parse_def bind_eq_None_conv)
qed

section \<open>Two ends settle\<close>

text \<open>One frame of the exchange: the first or the second end sends an Information frame with its flags
  and counts it, and the other end hears it unless it is lost.\<close>

definition send_information :: "bool \<Rightarrow> discovery \<Rightarrow> discovery \<Rightarrow> discovery \<times> discovery" where
  "send_information delivered a b =
     (on_sent a, if delivered then on_peer_information (d_flags a) b else b)"

fun exchange :: "(bool \<times> bool) list \<Rightarrow> discovery \<times> discovery \<Rightarrow> discovery \<times> discovery" where
  "exchange [] ab = ab"
| "exchange ((first, delivered) # es) (a, b) =
     (if first then exchange es (send_information delivered a b)
      else case send_information delivered b a of (b', a') \<Rightarrow> exchange es (a', b'))"

lemma exchange_append: "exchange (es @ es') ab = exchange es' (exchange es ab)"
  by (induction es ab rule: exchange.induct) (auto split: prod.split)

lemma no_fault [simp]: "\<not> link_fault (d_flags d)"
  by (auto simp: d_flags_def flags_default_def flags_local_stable_def Let_def split: discovery_state.splits option.splits)

lemma d_flags_stable [simp]:
  "local_stable (d_flags d) \<longleftrightarrow> d_state d \<noteq> LocalEvaluating" "local_evaluating (d_flags d) \<longleftrightarrow> d_state d = LocalEvaluating"
  by (auto simp: d_flags_def flags_default_def flags_local_stable_def Let_def split: discovery_state.splits option.splits)

text \<open>How far an end has come: it has settled, or it has sent at least \<open>k\<close> frames (six are enough), and has
  heard the other end if \<open>heard\<close>; whatever it does next, it leaves evaluation once both are there.\<close>

definition progress :: "nat \<Rightarrow> bool \<Rightarrow> discovery \<Rightarrow> bool" where
  "progress k heard d \<longleftrightarrow>
     d_state d \<noteq> LocalEvaluating \<or> min k 6 \<le> unat (d_sent d) \<and> (heard \<longrightarrow> d_peer_described d)
       \<and> (0 < k \<or> heard \<longrightarrow> \<not> (d_peer_described d \<and> d_sent d \<ge> 6))"

lemmas discovery_steps = on_sent_def settle_if_evaluated_def on_peer_flags_def on_peer_information_def d_enter_def Let_def

lemma progress_start: "progress 0 False d"
  by (simp add: progress_def)

lemma progress_on_sent: "progress k heard d \<Longrightarrow> progress (Suc k) heard (on_sent d)"
proof -
  assume p: "progress k heard d"
  show ?thesis
  proof (cases "d_sent d = 0xFFFFFFFF")
    case True
    then show ?thesis using p by (auto simp: progress_def discovery_steps)
  next
    case False
    then have "unat (d_sent d) \<noteq> unat (0xFFFFFFFF :: u32)" unfolding word_unat_eq_iff .
    moreover have "unat (0xFFFFFFFF :: u32) = 4294967295" by simp
    ultimately have "unat (d_sent d) + 1 < 4294967296" using unat_less_32 [of "d_sent d"] by linarith
    then have "unat (d_sent d + 1) = Suc (unat (d_sent d))" using unat_plus_small [of "d_sent d" 1] by simp
    then show ?thesis using p False by (auto simp: progress_def discovery_steps)
  qed
qed

lemma progress_heard: "progress k heard d \<Longrightarrow> progress k True (on_peer_information (d_flags e) d)"
  by (auto simp: progress_def discovery_steps split: discovery_state.splits)

lemma settled_after: "progress k True d \<Longrightarrow> 6 \<le> k \<Longrightarrow> d_state d \<noteq> LocalEvaluating"
  by (auto simp: progress_def word_le_nat_alt)

lemma stable_keeps:
  "d_state d \<noteq> LocalEvaluating \<Longrightarrow> d_state (on_sent d) = d_state d"
  "d_state d \<noteq> LocalEvaluating \<Longrightarrow> d_state e \<noteq> LocalEvaluating \<Longrightarrow> d_state (on_peer_information (d_flags e) d) = Converged"
  by (auto simp: discovery_steps split: discovery_state.splits)

text \<open>What a schedule contains: how often an end sends, and whether it is heard.\<close>

definition sends :: "bool \<Rightarrow> (bool \<times> bool) list \<Rightarrow> nat" where
  "sends first es = length (filter (\<lambda>e. fst e = first) es)"

definition is_heard :: "bool \<Rightarrow> (bool \<times> bool) list \<Rightarrow> bool" where
  "is_heard first es \<longleftrightarrow> (first, True) \<in> set es"

lemma exchange_progress:
  assumes "progress j h a" "progress k h' b"
  shows "progress (j + sends True es) (h \<or> is_heard False es) (fst (exchange es (a, b)))
    \<and> progress (k + sends False es) (h' \<or> is_heard True es) (snd (exchange es (a, b)))"
  using assms
proof (induction es arbitrary: a b j k h h')
  case Nil
  then show ?case by (simp add: sends_def is_heard_def)
next
  case (Cons e es)
  show ?case
  proof (cases e)
    case (Pair first delivered)
    have b': "progress k (h' \<or> delivered) (if delivered then on_peer_information (d_flags a) b else b)"
      using Cons.prems(2) progress_heard [of k h' b a] by auto
    have a': "progress j (h \<or> delivered) (if delivered then on_peer_information (d_flags b) a else a)"
      using Cons.prems(1) progress_heard [of j h a b] by auto
    show ?thesis
      using Cons.IH [OF progress_on_sent [OF Cons.prems(1)] b'] Cons.IH [OF a' progress_on_sent [OF Cons.prems(2)]]
      by (cases first) (auto simp: Pair send_information_def sends_def is_heard_def)
  qed
qed

lemma exchange_stable:
  assumes "d_state a \<noteq> LocalEvaluating" "d_state b \<noteq> LocalEvaluating"
  shows "d_state (fst (exchange es (a, b))) \<noteq> LocalEvaluating \<and> d_state (snd (exchange es (a, b))) \<noteq> LocalEvaluating
    \<and> (is_heard False es \<or> d_converged a \<longrightarrow> d_converged (fst (exchange es (a, b))))
    \<and> (is_heard True es \<or> d_converged b \<longrightarrow> d_converged (snd (exchange es (a, b))))"
  using assms
proof (induction es arbitrary: a b)
  case Nil
  then show ?case by (simp add: is_heard_def)
next
  case (Cons e es)
  show ?case
  proof (cases e)
    case (Pair first delivered)
    show ?thesis
      using Cons stable_keeps
      by (cases first; cases delivered) (auto simp: Pair send_information_def is_heard_def d_converged_def)
  qed
qed

text \<open>C22. Two ends of OAM discovery settle, from any pair of states and whatever frames are lost: once each has
  sent six Information frames and been heard once, and after that each has been heard once more, both have
  converged, and they stay converged however the exchange goes on.\<close>

theorem discovery_converges:
  assumes "6 \<le> sends True ys" "6 \<le> sends False ys"
    and "is_heard True ys" "is_heard False ys" "is_heard True zs" "is_heard False zs"
  shows "d_converged (fst (exchange (ys @ zs @ es) (a, b))) \<and> d_converged (snd (exchange (ys @ zs @ es) (a, b)))"
proof -
  obtain a' b' where ys: "exchange ys (a, b) = (a', b')" by (cases "exchange ys (a, b)")
  have "progress (sends True ys) True a'" "progress (sends False ys) True b'"
    using exchange_progress [OF progress_start progress_start, of ys a b] assms(3,4) ys by simp_all
  then have "d_state a' \<noteq> LocalEvaluating" "d_state b' \<noteq> LocalEvaluating"
    using settled_after assms(1,2) by blast+
  then have "d_converged (fst (exchange (zs @ es) (a', b'))) \<and> d_converged (snd (exchange (zs @ es) (a', b')))"
    using exchange_stable [of a' b' "zs @ es"] assms(5,6) by (auto simp: is_heard_def)
  then show ?thesis by (simp add: exchange_append ys)
qed

text \<open>Seven frames each, alternating, where the second end misses the first five.\<close>

theorem discovery_converges_witness:
  "d_converged (fst (exchange (concat (replicate 5 [(True, False), (False, True)])
        @ concat (replicate 2 [(True, True), (False, True)])) (discovery_default, discovery_default)))"
  using discovery_converges [of "concat (replicate 5 [(True, False), (False, True)]) @ [(True, True), (False, True)]"
      "[(True, True), (False, True)]" "[]" discovery_default discovery_default]
  by (simp add: sends_def is_heard_def numeral_eq_Suc)

end
