(* ===== verification/Olt_Extended.thy ===== *)
theory Olt_Extended
  imports Olt_Oam
begin

text \<open>
  \<open>crates/epon-olt/src/extended.rs\<close>: organization-specific OAM frames and their variable lists, and
  that requests and responses that are built are read back entry by entry.
\<close>

section \<open>Opcodes, branches and lengths\<close>

datatype ext_opcode =
    GetRequest | GetResponse | SetRequest | SetResponse | LinkEvents | Multipart | Ext_Other u8

datatype list_shape = Addresses | Containers

definition list_shape_of :: "ext_opcode \<Rightarrow> list_shape" where
  "list_shape_of op = (case op of GetRequest \<Rightarrow> Addresses | _ \<Rightarrow> Containers)"

primrec ext_opcode_u8 :: "ext_opcode \<Rightarrow> u8" where
  "ext_opcode_u8 GetRequest = 0x01"
| "ext_opcode_u8 GetResponse = 0x02"
| "ext_opcode_u8 SetRequest = 0x03"
| "ext_opcode_u8 SetResponse = 0x04"
| "ext_opcode_u8 LinkEvents = 0x08"
| "ext_opcode_u8 Multipart = 0x09"
| "ext_opcode_u8 (Ext_Other v) = v"

definition ext_opcode_from :: "u8 \<Rightarrow> ext_opcode" where
  "ext_opcode_from v =
     (if v = 0x01 then GetRequest else if v = 0x02 then GetResponse else if v = 0x03 then SetRequest
      else if v = 0x04 then SetResponse else if v = 0x08 then LinkEvents else if v = 0x09 then Multipart
      else Ext_Other v)"

datatype branch = Br_Terminator | Br_ObjectContext | Br_Attribute | Br_Counter | Br_Action | Br_Other u8

primrec branch_u8 :: "branch \<Rightarrow> u8" where
  "branch_u8 Br_Terminator = 0x00"
| "branch_u8 Br_ObjectContext = 0xD6"
| "branch_u8 Br_Attribute = 0xD7"
| "branch_u8 Br_Counter = 0xD8"
| "branch_u8 Br_Action = 0xD9"
| "branch_u8 (Br_Other v) = v"

definition branch_from :: "u8 \<Rightarrow> branch" where
  "branch_from v =
     (if v = 0x00 then Br_Terminator else if v = 0xD6 then Br_ObjectContext else if v = 0xD7 then Br_Attribute
      else if v = 0xD8 then Br_Counter else if v = 0xD9 then Br_Action else Br_Other v)"

datatype var_length = Len_Full | Len_Bytes u8 | Len_Status u8

abbreviation FULL_WIDTH :: nat where
  "FULL_WIDTH \<equiv> 128"

primrec var_length_u8 :: "var_length \<Rightarrow> u8" where
  "var_length_u8 Len_Full = 0"
| "var_length_u8 (Len_Bytes n) = n"
| "var_length_u8 (Len_Status s) = s"

definition var_length_from :: "u8 \<Rightarrow> var_length" where
  "var_length_from v = (if v = 0 then Len_Full else if v \<le> 0x7F then Len_Bytes v else Len_Status v)"

primrec data_len :: "var_length \<Rightarrow> nat" where
  "data_len Len_Full = FULL_WIDTH"
| "data_len (Len_Bytes n) = unat n"
| "data_len (Len_Status s) = 0"

definition length_of_value :: "nat \<Rightarrow> var_length option" where
  "length_of_value n =
     (if n = 0 then None else if n = FULL_WIDTH then Some Len_Full
      else if n \<le> 0x7F then Some (Len_Bytes (of_nat n)) else None)"

section \<open>Variables\<close>

record descriptor =
  de_branch :: branch
  de_leaf :: u16

definition attribute :: "u16 \<Rightarrow> descriptor" where
  "attribute leaf = \<lparr>de_branch = Br_Attribute, de_leaf = leaf\<rparr>"

definition descriptor_write :: "descriptor \<Rightarrow> u8 list" where
  "descriptor_write d = branch_u8 (de_branch d) # w_u16 (de_leaf d)"

record container =
  co_descriptor :: descriptor
  co_length :: var_length
  co_value :: "u8 list"

definition is_status :: "container \<Rightarrow> bool" where
  "is_status c = (case co_length c of Len_Status _ \<Rightarrow> True | _ \<Rightarrow> False)"

datatype variable =
    Address descriptor "u8 list"
  | Container container

primrec as_container :: "variable \<Rightarrow> container option" where
  "as_container (Address d ps) = None"
| "as_container (Container c) = Some c"

definition request_parameter_len :: "descriptor \<Rightarrow> nat option" where
  "request_parameter_len d =
     (case de_branch d of
        Br_ObjectContext \<Rightarrow> None
      | Br_Attribute \<Rightarrow> if de_leaf d = 0x0301 \<or> de_leaf d = 0x0302 then Some 3 else Some 0
      | _ \<Rightarrow> Some 0)"

text \<open>The loop \<open>while bytes.len() >= 3\<close> over the rest of the list\<close>

function parse_variables :: "u8 list \<Rightarrow> list_shape \<Rightarrow> variable list" where
  "parse_variables bytes shape =
     (if length bytes < 3 then []
      else
        let branch = branch_from (bytes ! 0); leaf = be_half (bytes ! 1) (bytes ! 2)
        in if branch = Br_Terminator \<and> leaf = 0 then []
           else
             let descriptor = \<lparr>de_branch = branch, de_leaf = leaf\<rparr>
             in case (if shape = Addresses then request_parameter_len descriptor else None) of
                  Some n \<Rightarrow>
                    (let n_taken = min n (length bytes - 3)
                     in Address descriptor (take n_taken (drop 3 bytes))
                        # parse_variables (drop (3 + n_taken) bytes) shape)
                | None \<Rightarrow>
                    (case get_at bytes 3 of
                       None \<Rightarrow> []
                     | Some raw_len \<Rightarrow>
                         let len = var_length_from raw_len; n_taken = min (data_len len) (length bytes - 4)
                         in Container \<lparr>co_descriptor = descriptor, co_length = len,
                                       co_value = take n_taken (drop 4 bytes)\<rparr>
                            # parse_variables (drop (4 + n_taken) bytes) shape))"
  by pat_completeness auto

termination
  by (relation "measure (length \<circ> fst)") auto

declare parse_variables.simps [simp del]

section \<open>Frames\<close>

record ext_pdu =
  ep_oui :: oui
  ep_opcode :: ext_opcode
  ep_variables :: "variable list"

definition ext_parse :: "frame \<Rightarrow> ext_pdu option" where
  "ext_parse frame =
     Option.bind (oam_parse frame) (\<lambda>header.
       if op_subtype header \<noteq> SUBTYPE_OAM \<or> op_code header \<noteq> OrganizationSpecific then None
       else
         Option.bind (get_at frame 18) (\<lambda>o0. Option.bind (get_at frame 19) (\<lambda>o1.
         Option.bind (get_at frame 20) (\<lambda>o2. Option.bind (get_at frame 21) (\<lambda>op.
           let opcode = ext_opcode_from op
           in Some \<lparr>ep_oui = Oui o0 o1 o2, ep_opcode = opcode,
                    ep_variables = parse_variables (drop 22 frame) (list_shape_of opcode)\<rparr>)))))"

definition pdu_containers :: "ext_pdu \<Rightarrow> container list" where
  "pdu_containers p = List.map_filter as_container (ep_variables p)"

record ext_header =
  eh_dst :: mac_addr
  eh_src :: mac_addr
  eh_flags :: oam_flags
  eh_oui :: oui
  eh_opcode :: ext_opcode

definition ext_writer :: "ext_header \<Rightarrow> u8 list" where
  "ext_writer h =
     ethernet (eh_dst h) (eh_src h) ET_SlowProtocol @ [SUBTYPE_OAM] @ w_u16 (flags_u16 (eh_flags h))
     @ [oam_code_u8 OrganizationSpecific] @ oui_bytes (eh_oui h) @ [ext_opcode_u8 (eh_opcode h)]"

definition get_request :: "ext_header \<Rightarrow> descriptor list \<Rightarrow> frame" where
  "get_request h ds =
     pad_to MIN_FRAME_LEN (ext_writer h @ concat (map descriptor_write ds)
       @ [branch_u8 Br_Terminator] @ w_u16 0 @ [0])"

definition container_write :: "container \<Rightarrow> u8 list" where
  "container_write c = descriptor_write (co_descriptor c) @ [var_length_u8 (co_length c)] @ co_value c"

definition get_response :: "ext_header \<Rightarrow> container list \<Rightarrow> frame" where
  "get_response h cs =
     pad_to MIN_FRAME_LEN (ext_writer h @ concat (map container_write cs)
       @ [branch_u8 Br_Terminator] @ w_u16 0 @ [0])"

section \<open>Round trips\<close>

text \<open>A descriptor that is not the end of a list, and whose branch has the constructor of its number; an
  address that takes no parameters in a request; a container whose value has the length it declares.\<close>

definition descriptor_ok :: "descriptor \<Rightarrow> bool" where
  "descriptor_ok d \<longleftrightarrow> branch_from (branch_u8 (de_branch d)) = de_branch d
     \<and> \<not> (de_branch d = Br_Terminator \<and> de_leaf d = 0)"

definition plain_address :: "descriptor \<Rightarrow> bool" where
  "plain_address d \<longleftrightarrow> descriptor_ok d \<and> request_parameter_len d = Some 0"

definition container_ok :: "container \<Rightarrow> bool" where
  "container_ok c \<longleftrightarrow> descriptor_ok (co_descriptor c) \<and> var_length_from (var_length_u8 (co_length c)) = co_length c
     \<and> length (co_value c) = data_len (co_length c)"

lemma parse_terminator [simp]: "parse_variables (0 # 0 # 0 # rest) shape = []"
proof -
  have "be_half 0 0 = 0" by (simp add: be_half_def)
  then show ?thesis by (subst parse_variables.simps) (simp add: branch_from_def Let_def)
qed

lemma parse_address:
  assumes "plain_address d"
  shows "parse_variables (descriptor_write d @ rest) Addresses = Address d [] # parse_variables rest Addresses"
  using assms
  by (cases d, subst parse_variables.simps)
    (auto simp: descriptor_write_def w_u16_def plain_address_def descriptor_ok_def Let_def)

lemma parse_addresses:
  "\<forall>d \<in> set ds. plain_address d \<Longrightarrow>
   parse_variables (concat (map descriptor_write ds) @ 0 # 0 # 0 # rest) Addresses = map (\<lambda>d. Address d []) ds"
  by (induction ds) (simp_all add: parse_address)

lemma parse_container:
  assumes "container_ok c"
  shows "parse_variables (container_write c @ rest) Containers = Container c # parse_variables rest Containers"
  using assms
proof (cases c)
  case (fields d len v)
  have "get_at (container_write c @ rest) 3 = Some (var_length_u8 len)"
    by (simp add: fields container_write_def descriptor_write_def w_u16_def numeral_eq_Suc)
  moreover have d4: "drop 4 (container_write c @ rest) = v @ rest"
    by (simp add: fields container_write_def descriptor_write_def w_u16_def)
  moreover have "drop (4 + length v) (container_write c @ rest) = rest"
    using d4 drop_drop [of "length v" 4 "container_write c @ rest"] by (simp add: add.commute)
  moreover have "length (container_write c @ rest) = 4 + length v + length rest"
    "(container_write c @ rest) ! 0 = branch_u8 (de_branch d)"
    "be_half ((container_write c @ rest) ! 1) ((container_write c @ rest) ! 2) = de_leaf d"
    by (simp_all add: fields container_write_def descriptor_write_def w_u16_def)
  ultimately show ?thesis
    using assms by (cases d, subst parse_variables.simps)
      (auto simp: fields container_ok_def descriptor_ok_def Let_def)
qed

lemma parse_containers:
  "\<forall>c \<in> set cs. container_ok c \<Longrightarrow>
   parse_variables (concat (map container_write cs) @ 0 # 0 # 0 # rest) Containers = map Container cs"
  by (induction cs) (simp_all add: parse_container)

lemma length_ext_writer [simp]: "length (ext_writer h) = 22"
  by (cases "eh_oui h") (simp add: ext_writer_def w_u16_def)

lemma ext_parse_written:
  assumes "ext_opcode_from (ext_opcode_u8 (eh_opcode h)) = eh_opcode h"
  shows "ext_parse (ext_writer h @ rest)
    = Some \<lparr>ep_oui = eh_oui h, ep_opcode = eh_opcode h, ep_variables = parse_variables rest (list_shape_of (eh_opcode h))\<rparr>"
proof (cases "eh_oui h")
  case (Oui o0 o1 o2)
  let ?w = "oam_writer (eh_dst h) (eh_src h) (eh_flags h) OrganizationSpecific"
  let ?r = "[o0, o1, o2, ext_opcode_u8 (eh_opcode h)] @ rest"
  have f: "ext_writer h @ rest = ?w @ ?r" by (simp add: ext_writer_def oam_writer_def Oui)
  have "get_at (?w @ ?r) 18 = Some o0" "get_at (?w @ ?r) 19 = Some o1" "get_at (?w @ ?r) 20 = Some o2"
    "get_at (?w @ ?r) 21 = Some (ext_opcode_u8 (eh_opcode h))" "drop 22 (?w @ ?r) = rest"
    by (simp_all add: get_at_append numeral_eq_Suc)
  moreover have "oam_parse (?w @ ?r) = Some \<lparr>op_dst = eh_dst h, op_src = eh_src h, op_subtype = SUBTYPE_OAM,
      op_flags = eh_flags h, op_code = OrganizationSpecific\<rparr>"
    by (rule oam_parse_written) (simp add: oam_code_from_def)
  ultimately show ?thesis
    unfolding f ext_parse_def using assms Oui by (simp add: Let_def)
qed

lemma padded_list: "\<exists>rest. pad_to n (xs @ [branch_u8 Br_Terminator] @ w_u16 0 @ [0]) = xs @ 0 # 0 # 0 # rest"
  by (simp add: pad_to_append pad_to_def w_u16_def byte_of_def)

lemma length_of_value_ok:
  "length_of_value n = Some len \<Longrightarrow> var_length_from (var_length_u8 len) = len \<and> data_len len = n"
proof (cases "n = FULL_WIDTH")
  case False
  assume "length_of_value n = Some len"
  then have n: "n \<noteq> 0" "n \<le> 127" "len = Len_Bytes (of_nat n)"
    using False by (auto simp: length_of_value_def split: if_splits)
  then have "unat (of_nat n :: u8) = n" using of_nat_inverse [of n "of_nat n :: u8"] by simp
  then show ?thesis using n by (auto simp: var_length_from_def word_le_nat_alt word_unat_eq_iff)
qed (auto simp: length_of_value_def var_length_from_def)

text \<open>C25. Extended OAM frames read back what was put in: a request its addresses, a response its containers, for
  addresses that take no parameters and containers whose value has the length they declare, which is
  so for every length \<open>of_value\<close> gives.\<close>

theorem extended_roundtrip:
  assumes "\<forall>d \<in> set ds. plain_address d" and "\<forall>c \<in> set cs. container_ok c"
  shows "ext_parse (get_request (h\<lparr>eh_opcode := GetRequest\<rparr>) ds)
      = Some \<lparr>ep_oui = eh_oui h, ep_opcode = GetRequest, ep_variables = map (\<lambda>d. Address d []) ds\<rparr>
    \<and> (eh_opcode h \<noteq> GetRequest \<and> ext_opcode_from (ext_opcode_u8 (eh_opcode h)) = eh_opcode h \<longrightarrow>
       ext_parse (get_response h cs)
         = Some \<lparr>ep_oui = eh_oui h, ep_opcode = eh_opcode h, ep_variables = map Container cs\<rparr>)
    \<and> (length_of_value n = Some len \<longrightarrow>
       (descriptor_ok d \<and> length v = n \<longrightarrow> container_ok \<lparr>co_descriptor = d, co_length = len, co_value = v\<rparr>))"
proof (intro conjI impI)
  obtain rest where r: "pad_to 38 (concat (map descriptor_write ds) @ [branch_u8 Br_Terminator] @ w_u16 0 @ [0])
      = concat (map descriptor_write ds) @ 0 # 0 # 0 # rest"
    using padded_list by blast
  show "ext_parse (get_request (h\<lparr>eh_opcode := GetRequest\<rparr>) ds)
      = Some \<lparr>ep_oui = eh_oui h, ep_opcode = GetRequest, ep_variables = map (\<lambda>d. Address d []) ds\<rparr>"
    unfolding get_request_def pad_to_append [of _ "ext_writer _"]
    by (subst ext_parse_written)
      (simp_all add: r [simplified] ext_opcode_from_def list_shape_of_def parse_addresses [OF assms(1)])
  assume h: "eh_opcode h \<noteq> GetRequest \<and> ext_opcode_from (ext_opcode_u8 (eh_opcode h)) = eh_opcode h"
  then have shape: "list_shape_of (eh_opcode h) = Containers"
    by (cases "eh_opcode h") (simp_all add: list_shape_of_def)
  obtain rest' where r': "pad_to 38 (concat (map container_write cs) @ [branch_u8 Br_Terminator] @ w_u16 0 @ [0])
      = concat (map container_write cs) @ 0 # 0 # 0 # rest'"
    using padded_list by blast
  show "ext_parse (get_response h cs)
      = Some \<lparr>ep_oui = eh_oui h, ep_opcode = eh_opcode h, ep_variables = map Container cs\<rparr>"
    unfolding get_response_def pad_to_append [of _ "ext_writer _"]
    using h by (subst ext_parse_written) (simp_all add: r' [simplified] shape parse_containers [OF assms(2)])
next
  assume "length_of_value n = Some len" "descriptor_ok d \<and> length v = n"
  then show "container_ok \<lparr>co_descriptor = d, co_length = len, co_value = v\<rparr>"
    using length_of_value_ok by (simp add: container_ok_def)
qed

theorem extended_roundtrip_witness:
  "\<forall>h. ext_parse (get_request (h\<lparr>eh_opcode := GetRequest\<rparr>) [attribute 3, attribute 6])
     = Some \<lparr>ep_oui = eh_oui h, ep_opcode = GetRequest, ep_variables = [Address (attribute 3) [], Address (attribute 6) []]\<rparr>"
  using extended_roundtrip [of "[attribute 3, attribute 6]" "[]"]
  by (simp add: plain_address_def descriptor_ok_def attribute_def branch_from_def request_parameter_len_def)

text \<open>A request for a statistics leaf does not write the three parameter bytes its reader steps over: the
  address after it is read as the parameters.\<close>

lemma statistics_request_swallows_next:
  "parse_variables (descriptor_write (attribute 0x0301) @ descriptor_write (attribute 3) @ [0, 0, 0, 0]) Addresses
   = [Address (attribute 0x0301) (descriptor_write (attribute 3))]"
proof -
  have half: "be_half (byte_of (Suc 0) (0x0301 :: u16)) (byte_of 0 (0x0301 :: u16)) = 0x0301" by (rule w_u16_half)
  show ?thesis
    by (subst parse_variables.simps)
      (simp add: descriptor_write_def attribute_def w_u16_def branch_from_def request_parameter_len_def half Let_def)
qed

end
