(* ===== verification/Olt_Sched.thy ===== *)
theory Olt_Sched
  imports Olt_Types
begin

text \<open>
  \<open>crates/epon-olt/src/sched.rs\<close>: the queue of due times the peer runs on. \<open>BinaryHeap\<close> with
  \<open>Reverse\<close> is a list in the order of \<open>Entry::cmp\<close>, instant then sequence number: \<open>push\<close>
  inserts, \<open>peek\<close> reads the head, \<open>pop\<close> removes it. The table of generations, a \<open>Vec\<close> of pairs with
  distinct events, is a map.

  The locale \<open>timer_queue\<close> is the contract the peer relies on: armed timers are a map from events
  to the instant and the rank of their arming, and \<open>pop_due\<close> removes the least one that is due.
\<close>

section \<open>The scheduler\<close>

record 'e entry =
  en_at :: wire_instant
  en_seq :: u64
  en_generation :: u64
  en_event :: 'e

record 'e scheduler =
  s_heap :: "'e entry list"
  s_generations :: "'e \<rightharpoonup> u64"
  s_next_seq :: u64

definition sched_new :: "'e scheduler" where
  "sched_new = \<lparr>s_heap = [], s_generations = Map.empty, s_next_seq = 0\<rparr>"

text \<open>\<open>Entry::cmp\<close>\<close>

definition entry_less :: "'e entry \<Rightarrow> 'e entry \<Rightarrow> bool" where
  "entry_less x y \<longleftrightarrow> en_at x < en_at y \<or> en_at x = en_at y \<and> en_seq x < en_seq y"

fun heap_push :: "'e entry \<Rightarrow> 'e entry list \<Rightarrow> 'e entry list" where
  "heap_push x [] = [x]"
| "heap_push x (y # ys) = (if entry_less x y then x # y # ys else y # heap_push x ys)"

text \<open>\<open>generation\<close>: the generation of an event, entered as 0 when it has none\<close>

definition generation_of :: "('e \<rightharpoonup> u64) \<Rightarrow> 'e \<Rightarrow> u64" where
  "generation_of gens event = (case gens event of None \<Rightarrow> 0 | Some g \<Rightarrow> g)"

definition generation_entry :: "'e \<Rightarrow> ('e \<rightharpoonup> u64) \<Rightarrow> ('e \<rightharpoonup> u64)" where
  "generation_entry event gens = gens(event \<mapsto> generation_of gens event)"

definition arm_at :: "'e \<Rightarrow> wire_instant \<Rightarrow> 'e scheduler \<Rightarrow> 'e scheduler" where
  "arm_at event t s =
     (let g = generation_of (s_generations s) event + 1; seq = s_next_seq s
      in s\<lparr>s_generations := (s_generations s)(event \<mapsto> g), s_next_seq := seq + 1,
           s_heap := heap_push \<lparr>en_at = t, en_seq = seq, en_generation = g, en_event = event\<rparr> (s_heap s)\<rparr>)"

definition arm_in :: "'e \<Rightarrow> wire_instant \<Rightarrow> wire_duration \<Rightarrow> 'e scheduler \<Rightarrow> 'e scheduler" where
  "arm_in event now delay s = arm_at event (now + delay) s"

definition cancel :: "'e \<Rightarrow> 'e scheduler \<Rightarrow> 'e scheduler" where
  "cancel event s =
     s\<lparr>s_generations := (s_generations s)(event \<mapsto> generation_of (s_generations s) event + 1)\<rparr>"

definition live_entries :: "'e scheduler \<Rightarrow> 'e \<Rightarrow> 'e entry list" where
  "live_entries s event =
     filter (\<lambda>e. en_event e = event \<and> en_generation e = generation_of (s_generations s) event) (s_heap s)"

definition is_armed :: "'e \<Rightarrow> 'e scheduler \<Rightarrow> bool \<times> 'e scheduler" where
  "is_armed event s =
     (live_entries s event \<noteq> [], s\<lparr>s_generations := generation_entry event (s_generations s)\<rparr>)"

definition min_at :: "'e entry list \<Rightarrow> wire_instant option" where
  "min_at es = (if es = [] then None else Some (Min (set (map en_at es))))"

definition due_at :: "'e \<Rightarrow> 'e scheduler \<Rightarrow> wire_instant option \<times> 'e scheduler" where
  "due_at event s =
     (min_at (live_entries s event), s\<lparr>s_generations := generation_entry event (s_generations s)\<rparr>)"

text \<open>The loop of \<open>pop_due\<close>: entries of an old generation are dropped\<close>

fun pop_heap :: "wire_instant \<Rightarrow> 'e entry list \<Rightarrow> ('e \<rightharpoonup> u64)
    \<Rightarrow> (wire_instant \<times> 'e) option \<times> 'e entry list \<times> ('e \<rightharpoonup> u64)" where
  "pop_heap now [] gens = (None, [], gens)"
| "pop_heap now (e # es) gens =
     (if en_at e > now then (None, e # es, gens)
      else
        let gens' = generation_entry (en_event e) gens
        in if generation_of gens' (en_event e) = en_generation e then (Some (en_at e, en_event e), es, gens')
           else pop_heap now es gens')"

definition pop_due :: "wire_instant \<Rightarrow> 'e scheduler \<Rightarrow> (wire_instant \<times> 'e) option \<times> 'e scheduler" where
  "pop_due now s =
     (case pop_heap now (s_heap s) (s_generations s) of
        (r, es, gens) \<Rightarrow> (r, s\<lparr>s_heap := es, s_generations := gens\<rparr>))"

definition next_due :: "'e scheduler \<Rightarrow> wire_instant option \<times> 'e scheduler" where
  "next_due s =
     (min_at (filter (\<lambda>e. en_generation e = generation_of (s_generations s) (en_event e)) (s_heap s)),
      s\<lparr>s_generations := fold (\<lambda>e. generation_entry (en_event e)) (s_heap s) (s_generations s)\<rparr>)"

definition sched_clear :: "'e scheduler \<Rightarrow> 'e scheduler" where
  "sched_clear s = s\<lparr>s_heap := [], s_generations := Map.empty, s_next_seq := 0\<rparr>"

section \<open>Popping in steps\<close>

lemma generation_entry_simps [simp]:
  "generation_of (generation_entry e g) = generation_of g"
  by (auto simp: generation_of_def generation_entry_def fun_eq_iff)

text \<open>A later deadline pops the same first, and after an earlier one found nothing it goes on from there.\<close>

lemma pop_heap_Cons:
  "pop_heap now (e # es) g =
     (if now < en_at e then (None, e # es, g)
      else if generation_of g (en_event e) = en_generation e
      then (Some (en_at e, en_event e), es, generation_entry (en_event e) g)
      else pop_heap now es (generation_entry (en_event e) g))"
  by (simp add: Let_def)

declare pop_heap.simps(2) [simp del]

lemma pop_heap_Some:
  "pop_heap a es g = (Some r, es', g') \<Longrightarrow> a \<le> b \<Longrightarrow> pop_heap b es g = (Some r, es', g')"
proof (induction es arbitrary: g)
  case (Cons e es)
  then have "\<not> a < en_at e" "\<not> b < en_at e" by (auto simp: pop_heap_Cons split: if_splits)
  then show ?case using Cons by (simp add: pop_heap_Cons split: if_splits)
qed simp

lemma pop_heap_None:
  "pop_heap a es g = (None, es', g') \<Longrightarrow> a \<le> b \<Longrightarrow> pop_heap b es' g' = pop_heap b es g"
proof (induction es arbitrary: g)
  case (Cons e es)
  show ?case
  proof (cases "a < en_at e")
    case False
    then have "\<not> b < en_at e" using Cons.prems(2) by simp
    then show ?thesis using Cons False by (simp add: pop_heap_Cons split: if_splits)
  qed (use Cons.prems in \<open>simp add: pop_heap_Cons\<close>)
qed simp

lemma pop_heap_due:
  "pop_heap now es g = (Some (t, ev), es', g') \<Longrightarrow> t \<le> now"
  by (induction es arbitrary: g) (auto simp: pop_heap_Cons split: if_splits)

lemma pop_due_Some:
  assumes "pop_due a s = (Some r, s')" "a \<le> b"
  shows "pop_due b s = (Some r, s')"
proof -
  obtain es g where h: "pop_heap a (s_heap s) (s_generations s) = (Some r, es, g)"
    using assms(1) by (auto simp: pop_due_def split: prod.splits)
  show ?thesis using pop_heap_Some [OF h assms(2)] h assms(1) by (simp add: pop_due_def)
qed

lemma pop_due_None:
  assumes "pop_due a s = (None, s')" "a \<le> b"
  shows "pop_due b s' = pop_due b s"
proof -
  obtain es g where h: "pop_heap a (s_heap s) (s_generations s) = (None, es, g)"
    using assms(1) by (auto simp: pop_due_def split: prod.splits)
  then have "s' = s\<lparr>s_heap := es, s_generations := g\<rparr>" using assms(1) by (simp add: pop_due_def)
  then show ?thesis using pop_heap_None [OF h assms(2)] by (simp add: pop_due_def)
qed

section \<open>The contract\<close>

text \<open>A queue of timers for a client that only arms, cancels and pops.\<close>

locale timer_queue =
  fixes arm :: "'e \<Rightarrow> wire_instant \<Rightarrow> 'q \<Rightarrow> 'q"
    and disarm :: "'e \<Rightarrow> 'q \<Rightarrow> 'q"
    and pop :: "wire_instant \<Rightarrow> 'q \<Rightarrow> (wire_instant \<times> 'e) option \<times> 'q"
    and invar :: "nat \<Rightarrow> 'q \<Rightarrow> bool"
    and armed :: "'q \<Rightarrow> 'e \<Rightarrow> (wire_instant \<times> nat) option"
    and rank :: "'q \<Rightarrow> nat"
  assumes arm_invar: "invar (Suc n) q \<Longrightarrow> invar n (arm e t q)"
    and arm_armed: "invar (Suc n) q \<Longrightarrow> armed (arm e t q) = (armed q)(e \<mapsto> (t, rank q))"
    and arm_rank: "invar (Suc n) q \<Longrightarrow> rank (arm e t q) = Suc (rank q)"
    and disarm_invar: "invar (Suc n) q \<Longrightarrow> invar n (disarm e q)"
    and disarm_armed: "invar (Suc n) q \<Longrightarrow> armed (disarm e q) = (armed q)(e := None)"
    and pop_invar: "invar n q \<Longrightarrow> invar n (snd (pop now q))"
    and pop_None: "invar n q \<Longrightarrow> fst (pop now q) = None \<Longrightarrow>
        armed (snd (pop now q)) = armed q \<and> (\<forall>e t r. armed q e = Some (t, r) \<longrightarrow> now < t)"
    and pop_Some: "invar n q \<Longrightarrow> fst (pop now q) = Some (t, e) \<Longrightarrow>
        t \<le> now \<and> armed (snd (pop now q)) = (armed q)(e := None)
        \<and> (\<exists>r. armed q e = Some (t, r)
             \<and> (\<forall>e' t' r'. e' \<noteq> e \<longrightarrow> armed q e' = Some (t', r') \<longrightarrow> t < t' \<or> t = t' \<and> r < r'))"
begin

text \<open>Nothing fires that is not armed, and firings come in the order of their instants.\<close>

lemma pops_in_order:
  assumes "invar n q" "pop now q = (Some (t, e), q')" "pop now' q' = (Some (t', e'), q'')"
  shows "t \<le> t' \<and> e \<noteq> e'"
proof -
  have q': "invar n q'" "armed q' = (armed q)(e := None)"
    using pop_invar [OF assms(1), of now] pop_Some [OF assms(1), of now t e] assms(2) by simp_all
  then obtain r' where "armed q' e' = Some (t', r')"
    using pop_Some [OF q'(1), of now' t' e'] assms(3) by auto
  then show ?thesis
    using pop_Some [OF assms(1), of now t e] assms(2) q'(2) by (fastforce split: if_splits)
qed

lemma rearmed_fires_once:
  assumes "invar (Suc (Suc n)) q" "fst (pop now (arm e b (arm e a q))) = Some (t, e)"
  shows "t = b"
proof -
  have i: "invar (Suc n) (arm e a q)" "invar n (arm e b (arm e a q))" using arm_invar assms(1) by blast+
  then show ?thesis
    using pop_Some [OF i(2) assms(2)] arm_armed [OF i(1), of e b] by auto
qed

end

section \<open>The scheduler keeps the contract\<close>

text \<open>The heap is ordered, an event has at most one entry of its current generation, no entry is from a later
  one, and there is room for \<open>n\<close> more armings before a counter wraps.\<close>

definition sched_ok :: "nat \<Rightarrow> 'e scheduler \<Rightarrow> bool" where
  "sched_ok n s \<longleftrightarrow> sorted_wrt entry_less (s_heap s)
     \<and> (\<forall>x \<in> set (s_heap s). en_seq x < s_next_seq s \<and> en_generation x \<le> generation_of (s_generations s) (en_event x))
     \<and> (\<forall>x \<in> set (s_heap s). \<forall>y \<in> set (s_heap s).
          en_event x = en_event y \<and> en_generation x = en_generation y \<longrightarrow> x = y)
     \<and> unat (s_next_seq s) + n < 2 ^ 64 \<and> (\<forall>e. unat (generation_of (s_generations s) e) + n < 2 ^ 64)"

definition armed_timers :: "'e scheduler \<Rightarrow> 'e \<Rightarrow> (wire_instant \<times> nat) option" where
  "armed_timers s event =
     (case live_entries s event of [] \<Rightarrow> None | x # _ \<Rightarrow> Some (en_at x, unat (en_seq x)))"

definition arming_rank :: "'e scheduler \<Rightarrow> nat" where
  "arming_rank s = unat (s_next_seq s)"

lemma sched_ok_new: "n < 2 ^ 64 \<Longrightarrow> sched_ok n sched_new"
  by (simp add: sched_ok_def sched_new_def generation_of_def)

lemma set_heap_push [simp]: "set (heap_push x ys) = insert x (set ys)"
  by (induction ys) auto

lemma filter_heap_push: "\<not> P x \<Longrightarrow> filter P (heap_push x ys) = filter P ys"
  by (induction ys) auto

lemma filter_heap_push_only: "P x \<Longrightarrow> \<forall>y \<in> set ys. \<not> P y \<Longrightarrow> filter P (heap_push x ys) = [x]"
  by (induction ys) auto

lemma sorted_heap_push:
  "sorted_wrt entry_less ys \<Longrightarrow> \<forall>y \<in> set ys. en_seq y < en_seq x \<Longrightarrow> sorted_wrt entry_less (heap_push x ys)"
  by (induction ys) (auto simp: entry_less_def)

lemma unat_Suc_64: "unat a + Suc n < 2 ^ 64 \<Longrightarrow> unat (a + 1) = Suc (unat a)" for a :: u64
  using of_nat_inverse [of "Suc (unat a)" "a + 1"] by simp

lemma generation_of_upd [simp]: "generation_of (g(e \<mapsto> v)) e' = (if e' = e then v else generation_of g e')"
  by (simp add: generation_of_def)

text \<open>The entries of an event, live after an arming or a disarming\<close>

lemma stale_after_bump:
  assumes "sched_ok (Suc n) s" "x \<in> set (s_heap s)" "en_event x = e"
  shows "en_generation x \<noteq> generation_of (s_generations s) e + 1"
proof -
  have "unat (en_generation x) \<le> unat (generation_of (s_generations s) e)"
    using assms by (auto simp: sched_ok_def word_le_nat_alt)
  moreover have "unat (generation_of (s_generations s) e + 1) = Suc (unat (generation_of (s_generations s) e))"
    using assms(1) by (intro unat_Suc_64) (auto simp: sched_ok_def)
  ultimately show ?thesis by auto
qed

lemma live_after_bump:
  assumes "sched_ok (Suc n) s"
  shows "live_entries (cancel e s) e' = (if e' = e then [] else live_entries s e')"
  using stale_after_bump [OF assms, of _ e] by (auto simp: live_entries_def cancel_def filter_empty_conv cong: filter_cong)

lemma live_after_arm:
  assumes "sched_ok (Suc n) s"
  shows "live_entries (arm_at e t s) e' =
    (if e' = e then [\<lparr>en_at = t, en_seq = s_next_seq s, en_generation = generation_of (s_generations s) e + 1, en_event = e\<rparr>]
     else live_entries s e')"
  using stale_after_bump [OF assms, of _ e]
  by (auto simp: live_entries_def arm_at_def Let_def intro!: filter_heap_push filter_heap_push_only)

lemma sched_ok_room:
  assumes "sched_ok (Suc n) s"
  shows "unat (generation_of (s_generations s) e) + n < 2 ^ 64" "unat (s_next_seq s) + n < 2 ^ 64"
proof -
  have "unat (generation_of (s_generations s) e) + Suc n < 2 ^ 64" "unat (s_next_seq s) + Suc n < 2 ^ 64"
    using assms by (auto simp: sched_ok_def)
  then show "unat (generation_of (s_generations s) e) + n < 2 ^ 64" "unat (s_next_seq s) + n < 2 ^ 64" by simp_all
qed

lemma sched_ok_bump:
  assumes ok: "sched_ok (Suc n) s"
  shows "sched_ok n (cancel e s)"
proof -
  have "unat (generation_of (s_generations s) e + 1) = Suc (unat (generation_of (s_generations s) e))"
    using ok by (intro unat_Suc_64) (auto simp: sched_ok_def)
  then show ?thesis
    using ok sched_ok_room [OF ok] by (auto simp: sched_ok_def cancel_def word_le_nat_alt le_SucI)
qed

lemma sched_ok_arm:
  assumes ok: "sched_ok (Suc n) s"
  shows "sched_ok n (arm_at e t s)"
proof -
  let ?x = "\<lparr>en_at = t, en_seq = s_next_seq s, en_generation = generation_of (s_generations s) e + 1, en_event = e\<rparr>"
  have g: "unat (generation_of (s_generations s) e + 1) = Suc (unat (generation_of (s_generations s) e))"
    and q: "unat (s_next_seq s + 1) = Suc (unat (s_next_seq s))"
    using ok by (auto simp: sched_ok_def intro!: unat_Suc_64)
  have old: "en_seq x < s_next_seq s" "unat (en_generation x) \<le> unat (generation_of (s_generations s) (en_event x))"
    if "x \<in> set (s_heap s)" for x
    using ok that by (auto simp: sched_ok_def word_le_nat_alt)
  have "sorted_wrt entry_less (heap_push ?x (s_heap s))"
    using ok old by (intro sorted_heap_push) (auto simp: sched_ok_def)
  moreover have "\<forall>x \<in> set (heap_push ?x (s_heap s)). en_seq x < s_next_seq s + 1
      \<and> en_generation x \<le> generation_of ((s_generations s)(e \<mapsto> generation_of (s_generations s) e + 1)) (en_event x)"
    using old q g by (fastforce simp: word_less_nat_alt word_le_nat_alt)
  moreover have "\<forall>x \<in> set (heap_push ?x (s_heap s)). \<forall>y \<in> set (heap_push ?x (s_heap s)).
      en_event x = en_event y \<and> en_generation x = en_generation y \<longrightarrow> x = y"
    using ok stale_after_bump [OF ok, of _ e] by (fastforce simp: sched_ok_def)
  ultimately show ?thesis
    using ok q g sched_ok_room [OF ok] by (auto simp: sched_ok_def arm_at_def Let_def)
qed

lemma pop_heap_spec:
  assumes "sorted_wrt entry_less es" "pop_heap now es g = (r, es', g')"
  shows "generation_of g' = generation_of g \<and> (\<exists>stale. (\<forall>x \<in> set stale. en_generation x \<noteq> generation_of g (en_event x))
    \<and> (case r of None \<Rightarrow> es = stale @ es' \<and> (\<forall>x \<in> set es'. now < en_at x)
       | Some (t, e) \<Rightarrow> \<exists>x. es = stale @ x # es' \<and> en_at x = t \<and> en_event x = e
                           \<and> en_generation x = generation_of g e \<and> t \<le> now))"
  using assms
proof (induction es arbitrary: g)
  case Nil
  then show ?case by auto
next
  case (Cons e es)
  consider (later) "now < en_at e"
    | (live) "\<not> now < en_at e" "generation_of g (en_event e) = en_generation e"
    | (stale) "\<not> now < en_at e" "generation_of g (en_event e) \<noteq> en_generation e" by blast
  then show ?case
  proof cases
    case later
    then have "r = None \<and> es' = e # es \<and> g' = g" using Cons.prems(2) by (simp add: pop_heap_Cons)
    moreover have "\<forall>x \<in> set (e # es). now < en_at x" using Cons.prems(1) later by (auto simp: entry_less_def)
    ultimately show ?thesis by (intro conjI exI [of _ "[]"]) simp_all
  next
    case live
    then show ?thesis
      using Cons.prems(2) by (intro conjI exI [of _ "[]"]) (auto simp: pop_heap_Cons)
  next
    case stale
    then have "pop_heap now es (generation_entry (en_event e) g) = (r, es', g')"
      using Cons.prems(2) by (simp add: pop_heap_Cons)
    from Cons.IH [OF _ this, unfolded generation_entry_simps] Cons.prems(1)
    obtain st where st: "generation_of g' = generation_of g"
      "\<forall>x \<in> set st. en_generation x \<noteq> generation_of g (en_event x)"
      "case r of None \<Rightarrow> es = st @ es' \<and> (\<forall>x \<in> set es'. now < en_at x)
       | Some (t, e) \<Rightarrow> \<exists>x. es = st @ x # es' \<and> en_at x = t \<and> en_event x = e
                           \<and> en_generation x = generation_of g e \<and> t \<le> now"
      by (simp, blast)
    then show ?thesis
      using stale by (intro conjI exI [of _ "e # st"]) (auto split: option.splits)
  qed
qed

text \<open>What is left after a pop: the rest of the heap, with the same generations.\<close>

lemma pop_due_cases:
  assumes ok: "sched_ok n s" and pop: "pop_due now s = (r, s')"
  obtains (none) "r = None" "live_entries s' = live_entries s" "\<forall>e. \<forall>x \<in> set (live_entries s e). now < en_at x"
      "sched_ok n s'"
  | (some) x where "r = Some (en_at x, en_event x)" "en_at x \<le> now" "live_entries s (en_event x) = [x]"
      "live_entries s' = (live_entries s)(en_event x := [])"
      "\<forall>e y. e \<noteq> en_event x \<longrightarrow> y \<in> set (live_entries s e) \<longrightarrow> entry_less x y" "sched_ok n s'"
proof -
  obtain es g where h: "pop_heap now (s_heap s) (s_generations s) = (r, es, g)"
    and s': "s' = s\<lparr>s_heap := es, s_generations := g\<rparr>"
    using pop by (auto simp: pop_due_def split: prod.splits)
  have sorted: "sorted_wrt entry_less (s_heap s)" using ok by (simp add: sched_ok_def)
  let ?live = "\<lambda>e x. en_event x = e \<and> en_generation x = generation_of (s_generations s) e"
  from pop_heap_spec [OF sorted h] obtain stale where gen: "generation_of g = generation_of (s_generations s)"
    and stale: "\<forall>x \<in> set stale. en_generation x \<noteq> generation_of (s_generations s) (en_event x)"
    and r: "case r of None \<Rightarrow> s_heap s = stale @ es \<and> (\<forall>x \<in> set es. now < en_at x)
       | Some (t, e) \<Rightarrow> \<exists>x. s_heap s = stale @ x # es \<and> en_at x = t \<and> en_event x = e
                           \<and> en_generation x = generation_of (s_generations s) e \<and> t \<le> now"
    by blast
  have dead: "filter (?live e) stale = []" for e using stale by (auto simp: filter_empty_conv)
  have live': "live_entries s' e = filter (?live e) es" for e by (simp add: live_entries_def s' gen)
  have suffix: "\<exists>xs. s_heap s = xs @ es" using r by (auto split: option.splits)
  then have ok': "sched_ok n s'"
    using ok unfolding sched_ok_def s' by (auto simp: gen sorted_wrt_append)
  show thesis
  proof (cases r)
    case None
    then have "live_entries s' e = live_entries s e" "\<forall>x \<in> set (live_entries s e). now < en_at x" for e
      using r dead unfolding live' by (auto simp: live_entries_def)
    then show thesis using none None ok' by blast
  next
    case (Some te)
    then obtain x where x: "s_heap s = stale @ x # es" "r = Some (en_at x, en_event x)" "en_at x \<le> now"
      "en_generation x = generation_of (s_generations s) (en_event x)"
      using r by (cases te) auto
    have less: "\<forall>y \<in> set es. entry_less x y" using sorted x(1) by (simp add: sorted_wrt_append)
    have uniq: "\<forall>y \<in> set (s_heap s). en_event x = en_event y \<and> en_generation x = en_generation y \<longrightarrow> x = y"
      using ok x(1) by (simp add: sched_ok_def)
    have only: "filter (?live (en_event x)) es = []"
      unfolding filter_empty_conv
    proof (intro ballI notI)
      fix y assume y: "y \<in> set es" "?live (en_event x) y"
      then have "x = y" using uniq x(1,4) by auto
      then have "entry_less y y" using less y(1) by blast
      then show False by (simp add: entry_less_def)
    qed
    have live: "live_entries s e = (if e = en_event x then [x] else filter (?live e) es)" for e
      using x(1,4) dead only by (auto simp: live_entries_def)
    have "live_entries s' = (live_entries s)(en_event x := [])"
      using only by (auto simp: live live' fun_eq_iff)
    moreover have "\<forall>e y. e \<noteq> en_event x \<longrightarrow> y \<in> set (live_entries s e) \<longrightarrow> entry_less x y"
      using less by (simp add: live)
    ultimately show thesis using some x(2,3) ok' by (simp add: live)
  qed
qed

lemma armed_timers_in: "armed_timers s e = Some (t, r) \<Longrightarrow> \<exists>x \<in> set (live_entries s e). en_at x = t \<and> unat (en_seq x) = r"
  by (auto simp: armed_timers_def split: list.splits)

interpretation sq: timer_queue arm_at cancel pop_due sched_ok armed_timers arming_rank
proof
  fix n and s :: "'e scheduler" and e t
  assume ok: "sched_ok (Suc n) s"
  show "sched_ok n (arm_at e t s)" by (rule sched_ok_arm [OF ok])
  show "sched_ok n (cancel e s)" by (rule sched_ok_bump [OF ok])
  show "armed_timers (arm_at e t s) = (armed_timers s)(e \<mapsto> (t, arming_rank s))"
    using live_after_arm [OF ok] by (auto simp: armed_timers_def arming_rank_def)
  show "armed_timers (cancel e s) = (armed_timers s)(e := None)"
    using live_after_bump [OF ok] by (auto simp: armed_timers_def)
  have "unat (s_next_seq s + 1) = Suc (unat (s_next_seq s))"
    using ok by (intro unat_Suc_64) (auto simp: sched_ok_def)
  then show "arming_rank (arm_at e t s) = Suc (arming_rank s)" by (simp add: arming_rank_def arm_at_def Let_def)
next
  fix n and s :: "'e scheduler" and now
  assume ok: "sched_ok n s"
  show "sched_ok n (snd (pop_due now s))"
    by (cases "pop_due now s") (rule pop_due_cases [OF ok], assumption, simp_all)
  show "armed_timers (snd (pop_due now s)) = armed_timers s \<and> (\<forall>e t r. armed_timers s e = Some (t, r) \<longrightarrow> now < t)"
    if "fst (pop_due now s) = None"
  proof (cases "pop_due now s")
    case (Pair r s')
    show ?thesis
    proof (cases rule: pop_due_cases [OF ok Pair, case_names none some])
      case none
      then have "armed_timers s' = armed_timers s" by (simp add: armed_timers_def fun_eq_iff)
      then show ?thesis using none(3) Pair armed_timers_in [of s] by fastforce
    qed (use that Pair in simp)
  qed
  show "t \<le> now \<and> armed_timers (snd (pop_due now s)) = (armed_timers s)(e := None)
        \<and> (\<exists>r. armed_timers s e = Some (t, r)
             \<and> (\<forall>e' t' r'. e' \<noteq> e \<longrightarrow> armed_timers s e' = Some (t', r') \<longrightarrow> t < t' \<or> t = t' \<and> r < r'))"
    if some: "fst (pop_due now s) = Some (t, e)" for t e
  proof (cases "pop_due now s")
    case (Pair r s')
    show ?thesis
    proof (cases rule: pop_due_cases [OF ok Pair, case_names none some])
      case none
      then show ?thesis using some Pair by simp
    next
      case (some x)
      then have x: "t = en_at x" "e = en_event x" using \<open>fst (pop_due now s) = Some (t, e)\<close> Pair by simp_all
      have "armed_timers s' = (armed_timers s)(e := None)" using some(4) by (auto simp: armed_timers_def x)
      moreover have "armed_timers s e = Some (t, unat (en_seq x))" using some(3) by (simp add: armed_timers_def x)
      moreover have "t < t' \<or> t = t' \<and> unat (en_seq x) < r'" if "e' \<noteq> e" "armed_timers s e' = Some (t', r')" for e' t' r'
        using armed_timers_in [OF that(2)] some(5) that(1) by (auto simp: entry_less_def x word_less_nat_alt)
      ultimately show ?thesis using some(2) Pair x by auto
    qed
  qed
qed

text \<open>C19. The scheduler is a map of timers: arming replaces, cancelling removes, and \<open>pop_due\<close> gives the armed
  timer with the least instant that is due (of several, the one armed first) and removes it, or nothing
  when none is due; \<open>is_armed\<close> and \<open>due_at\<close> read the map. Old entries left in the heap never surface.\<close>

theorem scheduler_is_timer_map:
  assumes ok: "sched_ok (Suc n) s"
  shows "armed_timers (arm_at e t s) = (armed_timers s)(e \<mapsto> (t, arming_rank s)) \<and> sched_ok n (arm_at e t s)
    \<and> armed_timers (cancel e s) = (armed_timers s)(e := None) \<and> sched_ok n (cancel e s)
    \<and> (fst (is_armed e s) \<longleftrightarrow> armed_timers s e \<noteq> None)
    \<and> fst (due_at e s) = map_option fst (armed_timers s e)
    \<and> sched_ok (Suc n) (snd (pop_due now s))
    \<and> (case fst (pop_due now s) of
         None \<Rightarrow> armed_timers (snd (pop_due now s)) = armed_timers s \<and> (\<forall>e t r. armed_timers s e = Some (t, r) \<longrightarrow> now < t)
       | Some (t, e) \<Rightarrow> t \<le> now \<and> armed_timers (snd (pop_due now s)) = (armed_timers s)(e := None)
           \<and> (\<exists>r. armed_timers s e = Some (t, r)
                \<and> (\<forall>e' t' r'. e' \<noteq> e \<longrightarrow> armed_timers s e' = Some (t', r') \<longrightarrow> t < t' \<or> t = t' \<and> r < r')))"
proof (intro conjI)
  have one: "\<forall>x \<in> set (live_entries s e). \<forall>y \<in> set (live_entries s e). x = y"
    using ok by (auto simp: sched_ok_def live_entries_def)
  show "fst (is_armed e s) \<longleftrightarrow> armed_timers s e \<noteq> None"
    by (auto simp: is_armed_def armed_timers_def split: list.split)
  show "fst (due_at e s) = map_option fst (armed_timers s e)"
  proof (cases "live_entries s e")
    case (Cons x xs)
    then have "set (map en_at (live_entries s e)) = {en_at x}" using one by auto
    then have "Min (set (map en_at (live_entries s e))) = en_at x" by (simp only: Min_singleton)
    then show ?thesis using Cons by (simp add: due_at_def min_at_def armed_timers_def)
  qed (simp add: due_at_def min_at_def armed_timers_def)
  show "case fst (pop_due now s) of
         None \<Rightarrow> armed_timers (snd (pop_due now s)) = armed_timers s \<and> (\<forall>e t r. armed_timers s e = Some (t, r) \<longrightarrow> now < t)
       | Some (t, e) \<Rightarrow> t \<le> now \<and> armed_timers (snd (pop_due now s)) = (armed_timers s)(e := None)
           \<and> (\<exists>r. armed_timers s e = Some (t, r)
                \<and> (\<forall>e' t' r'. e' \<noteq> e \<longrightarrow> armed_timers s e' = Some (t', r') \<longrightarrow> t < t' \<or> t = t' \<and> r < r'))"
  proof (cases "fst (pop_due now s)")
    case None
    then show ?thesis using sq.pop_None [OF ok None] by simp
  next
    case (Some te)
    then show ?thesis using sq.pop_Some [OF ok, of now "fst te" "snd te"] by (simp add: case_prod_unfold)
  qed
qed (rule sq.arm_armed [OF ok] sq.arm_invar [OF ok] sq.disarm_armed [OF ok] sq.disarm_invar [OF ok] sq.pop_invar [OF ok])+

theorem scheduler_is_timer_map_witness:
  "armed_timers (arm_at (3 :: nat) 500 sched_new) = [3 \<mapsto> (500, 0)]"
proof -
  have "sched_ok (Suc 0) (sched_new :: nat scheduler)" by (rule sched_ok_new) simp
  moreover have "armed_timers (sched_new :: nat scheduler) = Map.empty" "arming_rank (sched_new :: nat scheduler) = 0"
    by (simp_all add: armed_timers_def live_entries_def sched_new_def arming_rank_def fun_eq_iff)
  ultimately show ?thesis using conjunct1 [OF scheduler_is_timer_map [of 0 sched_new 3 500]] by metis
qed

end
