(* ===== verification/Olt_Peer.thy ===== *)
theory Olt_Peer
  imports Olt_Mpcp Olt_Extended Olt_Sched
begin

text \<open>
  \<open>crates/epon-olt/src/peer.rs\<close>: the OLT itself, a state machine over its scheduler that emits and
  consumes frames. Descriptions and log lines, text for a host to show, are left out; the frames
  that are logged with them are not.
\<close>

section \<open>Configuration and state\<close>

abbreviation DISCOVERY_GRANT_LENGTH_TQ :: u16 where "DISCOVERY_GRANT_LENGTH_TQ \<equiv> 8244"
abbreviation DISCOVERY_GRANT_OFFSET_TQ :: u32 where "DISCOVERY_GRANT_OFFSET_TQ \<equiv> 22806"
abbreviation NORMAL_GRANT_OFFSET_TQ :: u32 where "NORMAL_GRANT_OFFSET_TQ \<equiv> 4096"
abbreviation NORMAL_GRANT_LENGTH_TQ :: u16 where "NORMAL_GRANT_LENGTH_TQ \<equiv> 8244"
abbreviation SYNC_TIME_TQ :: u16 where "SYNC_TIME_TQ \<equiv> 32"
abbreviation ECHOED_LASER_ON_TQ :: u8 where "ECHOED_LASER_ON_TQ \<equiv> 32"
abbreviation ECHOED_LASER_OFF_TQ :: u8 where "ECHOED_LASER_OFF_TQ \<equiv> 32"
abbreviation GATE_GRANT_COUNT :: u8 where "GATE_GRANT_COUNT \<equiv> 1"
abbreviation MAX_OAM_PDU_SIZE :: u16 where "MAX_OAM_PDU_SIZE \<equiv> 0x0600"
abbreviation MAX_FRAME_LOG :: nat where "MAX_FRAME_LOG \<equiv> 256"
abbreviation MAX_FRAME_SIZE :: nat where "MAX_FRAME_SIZE \<equiv> 1600"

datatype timer =
  T_Gate | T_Keepalive | T_AttributePoll | T_RegisterResponse | T_Lifetime | T_Rediscovery | T_NormalGate

record peer_config =
  pc_mac :: mac_addr
  pc_llid_start :: llid
  pc_oam_interval :: wire_duration
  pc_gate_interval :: wire_duration
  pc_attribute_interval :: wire_duration
  pc_registration_lifetime :: wire_duration
  pc_rediscovery_delay :: wire_duration
  pc_processing_delay :: wire_duration
  pc_ignored_register_requests :: u32
  pc_normal_gate_interval :: wire_duration
  pc_polled_attributes :: "u16 list"
  pc_discovery_information :: u16
  pc_unicast_oam :: bool
  pc_normal_grant_length_tq :: u16

definition config_default :: peer_config where
  "config_default =
     \<lparr>pc_mac = MacAddr 0x02 0x00 0x00 0x00 0x00 0x01, pc_llid_start = Llid 1, pc_oam_interval = from_ms 804,
      pc_gate_interval = from_ms 1000, pc_attribute_interval = from_ms 7600,
      pc_registration_lifetime = from_ms 60000, pc_rediscovery_delay = from_ms 693,
      pc_processing_delay = from_ms 1, pc_ignored_register_requests = 1,
      pc_normal_gate_interval = from_ms 1000, pc_polled_attributes = [0x0003, 0x0006, 0x000E],
      pc_discovery_information = 0x0011, pc_unicast_oam = True, pc_normal_grant_length_tq = 8244\<rparr>"

record counters =
  frames_received :: u64
  frames_sent :: u64
  frames_unrecognized :: u64
  register_req_seen :: u64
  register_req_accepted :: u64
  register_req_link_settling :: u64
  register_req_in_flight :: u64
  register_req_window_passed :: u64
  register_req_malformed :: u64
  register_req_deregister :: u64
  register_ack_seen :: u64
  register_ack_unexpected :: u64
  register_ack_rejected :: u64
  mpcp_upstream_seen :: u64
  reports_seen :: u64
  mpcp_upstream_unhandled :: u64
  mpcp_upstream_wrong_direction :: u64
  mpcp_malformed :: u64
  gates_sent :: u64
  gates_normal_sent :: u64
  oam_keepalives_sent :: u64
  attribute_requests_sent :: u64
  attribute_replies_seen :: u64
  registrations :: u64
  deregistrations :: u64

definition counters_zero :: counters where
  "counters_zero =
     \<lparr>frames_received = 0, frames_sent = 0, frames_unrecognized = 0, register_req_seen = 0,
      register_req_accepted = 0, register_req_link_settling = 0, register_req_in_flight = 0,
      register_req_window_passed = 0, register_req_malformed = 0, register_req_deregister = 0,
      register_ack_seen = 0, register_ack_unexpected = 0, register_ack_rejected = 0,
      mpcp_upstream_seen = 0, reports_seen = 0, mpcp_upstream_unhandled = 0,
      mpcp_upstream_wrong_direction = 0, mpcp_malformed = 0, gates_sent = 0, gates_normal_sent = 0,
      oam_keepalives_sent = 0, attribute_requests_sent = 0, attribute_replies_seen = 0,
      registrations = 0, deregistrations = 0\<rparr>"

definition upstream_mpcpdus_accounted_for :: "counters \<Rightarrow> bool" where
  "upstream_mpcpdus_accounted_for c \<longleftrightarrow>
     mpcp_upstream_seen c = register_req_seen c + register_ack_seen c + reports_seen c
       + mpcp_upstream_unhandled c + mpcp_upstream_wrong_direction c + mpcp_malformed c"

definition register_requests_accounted_for :: "counters \<Rightarrow> bool" where
  "register_requests_accounted_for c \<longleftrightarrow>
     register_req_seen c = register_req_accepted c + register_req_link_settling c + register_req_in_flight c
       + register_req_window_passed c + register_req_malformed c + register_req_deregister c"

record logged_frame =
  lf_data :: "u8 list"
  lf_at :: wire_instant

record emitted =
  em_at :: wire_instant
  em_frame :: frame

record peer =
  p_config :: peer_config
  p_now :: wire_instant
  p_sched :: "timer scheduler"
  p_mpcp_state :: mpcp_state
  p_onu_mac :: mac_addr
  p_assigned_llid :: llid
  p_link_up :: bool
  p_discovery :: discovery
  p_register_requests_seen :: u32
  p_registered_at :: "wire_instant option"
  p_settling :: bool
  p_last_request :: "register_req_body option"
  p_next_attribute :: u64
  p_attribute_replies :: "container list"
  p_downstream :: "emitted list"
  p_tx_log :: "logged_frame list"
  p_rx_log :: "logged_frame list"
  p_counters :: counters
  p_llid_assignment :: "u16 option"
  p_registration_complete :: bool

definition peer_new :: "peer_config \<Rightarrow> peer" where
  "peer_new config =
     \<lparr>p_config = config, p_now = 0, p_sched = sched_new, p_mpcp_state = Mpcp_Idle, p_onu_mac = MAC_ZERO,
      p_assigned_llid = pc_llid_start config, p_link_up = False, p_discovery = discovery_default,
      p_register_requests_seen = 0, p_registered_at = None, p_settling = False, p_last_request = None,
      p_next_attribute = 0, p_attribute_replies = [], p_downstream = [], p_tx_log = [], p_rx_log = [],
      p_counters = counters_zero, p_llid_assignment = None, p_registration_complete = False\<rparr>"

abbreviation bump :: "(counters \<Rightarrow> counters) \<Rightarrow> peer \<Rightarrow> peer" where
  "bump f p \<equiv> p_counters_update f p"

abbreviation on_sched :: "(timer scheduler \<Rightarrow> timer scheduler) \<Rightarrow> peer \<Rightarrow> peer" where
  "on_sched f p \<equiv> p_sched_update f p"

section \<open>Building and emitting\<close>

definition mpcp_header_of :: "mpcp_opcode \<Rightarrow> mac_addr \<Rightarrow> peer \<Rightarrow> mpcp_header" where
  "mpcp_header_of op dst p =
     \<lparr>mh_dst = dst, mh_src = pc_mac (p_config p), mh_opcode = op, mh_timestamp = mpcp_timestamp (p_now p)\<rparr>"

definition oam_destination :: "peer \<Rightarrow> mac_addr" where
  "oam_destination p =
     (if pc_unicast_oam (p_config p) \<and> \<not> mac_is_zero (p_onu_mac p) then p_onu_mac p
      else SLOW_PROTOCOL_MULTICAST)"

definition build_register :: "register_flag \<Rightarrow> peer \<Rightarrow> frame" where
  "build_register flag p =
     (let request = (case p_last_request p of
                       Some r \<Rightarrow> r
                     | None \<Rightarrow> \<lparr>rr_flag = RR_Register, rr_pending_grants = 0, rr_discovery_information = 0,
                                rr_laser_on = ECHOED_LASER_ON_TQ, rr_laser_off = ECHOED_LASER_OFF_TQ\<rparr>)
      in mpcp_register (mpcp_header_of Op_Register (p_onu_mac p) p) (p_assigned_llid p) flag
           \<lparr>rb_sync_time = SYNC_TIME_TQ, rb_echoed_pending_grants = rr_pending_grants request,
            rb_echoed_laser_on = rr_laser_on request, rb_echoed_laser_off = rr_laser_off request\<rparr>)"

definition build_gate :: "peer \<Rightarrow> frame" where
  "build_gate p =
     mpcp_gate (mpcp_header_of Op_Gate MPCP_MULTICAST p)
       \<lparr>grant_count = GATE_GRANT_COUNT, discovery = True, force_report = 0\<rparr>
       (Some \<lparr>start_time = mpcp_timestamp (p_now p) + DISCOVERY_GRANT_OFFSET_TQ,
              grant_length = DISCOVERY_GRANT_LENGTH_TQ\<rparr>)
       (Some \<lparr>dw_sync_time = SYNC_TIME_TQ, dw_information = pc_discovery_information (p_config p)\<rparr>)"

definition build_normal_gate :: "peer \<Rightarrow> frame" where
  "build_normal_gate p =
     mpcp_gate (mpcp_header_of Op_Gate (p_onu_mac p) p)
       \<lparr>grant_count = 1, discovery = False, force_report = 1\<rparr>
       (Some \<lparr>start_time = mpcp_timestamp (p_now p) + NORMAL_GRANT_OFFSET_TQ, grant_length = NORMAL_GRANT_LENGTH_TQ\<rparr>)
       None"

definition build_oam_info :: "peer \<Rightarrow> frame" where
  "build_oam_info p =
     oam_information (oam_destination p) (pc_mac (p_config p)) (d_flags (p_discovery p))
       \<lparr>it_is_local = True, it_oam_version = 0x01, it_revision = 0x0001, it_state = 0x00,
        it_configuration = 0x05, it_max_pdu_size = MAX_OAM_PDU_SIZE, it_oui = OUI_DPOE,
        it_vendor_specific = (0, 0, 0, 0)\<rparr>"

definition build_attribute_request :: "u16 \<Rightarrow> peer \<Rightarrow> frame" where
  "build_attribute_request leaf p =
     get_request \<lparr>eh_dst = oam_destination p, eh_src = pc_mac (p_config p), eh_flags = d_flags (p_discovery p),
                  eh_oui = OUI_DPOE, eh_opcode = GetRequest\<rparr> [attribute leaf]"

definition push_capped :: "'a list \<Rightarrow> 'a \<Rightarrow> 'a list" where
  "push_capped log entry = (if length log \<ge> MAX_FRAME_LOG then tl log else log) @ [entry]"

definition frame_entry :: "frame \<Rightarrow> peer \<Rightarrow> logged_frame" where
  "frame_entry frame p = \<lparr>lf_data = take (min (length frame) MAX_FRAME_SIZE) frame, lf_at = p_now p\<rparr>"

definition emit :: "frame \<Rightarrow> peer \<Rightarrow> peer" where
  "emit frame p0 =
     (let p = p0\<lparr>p_rx_log := push_capped (p_rx_log p0) (frame_entry frame p0)\<rparr>;
          p1 = bump (frames_sent_update (\<lambda>n. n + 1)) p
      in p1\<lparr>p_downstream := p_downstream p1 @ [\<lparr>em_at = p_now p1, em_frame = frame\<rparr>]\<rparr>)"

section \<open>Registration and discovery\<close>

definition on_discovery_entered :: "discovery_state \<Rightarrow> peer \<Rightarrow> peer" where
  "on_discovery_entered st p =
     (if st = Converged then on_sched (arm_at T_AttributePoll (p_now p)) p
      else on_sched (cancel T_AttributePoll) p)"

definition note_discovery_change :: "discovery_state \<Rightarrow> peer \<Rightarrow> peer" where
  "note_discovery_change was p =
     (let st = d_state (p_discovery p) in if st = was then p else on_discovery_entered st p)"

definition answer_registration :: "peer \<Rightarrow> peer" where
  "answer_registration p =
     (if p_mpcp_state p \<noteq> Mpcp_Discovery \<or> p_settling p then p
      else
        let p1 = emit (build_register RF_Ack p) p
        in p1\<lparr>p_llid_assignment := Some (llid_u16 (p_assigned_llid p1)), p_mpcp_state := Mpcp_WaitAck\<rparr>)"

definition tear_down_registration :: "peer \<Rightarrow> peer" where
  "tear_down_registration p =
     (if p_registered_at p = None then p
      else
        let p1 = bump (deregistrations_update (\<lambda>n. n + 1)) (emit (build_register RF_Deregister p) p);
            p2 = on_sched (cancel T_NormalGate)
                   (p1\<lparr>p_registered_at := None, p_registration_complete := False, p_mpcp_state := Mpcp_Idle\<rparr>);
            was = d_state (p_discovery p2);
            p3 = note_discovery_change was (p2\<lparr>p_discovery := discovery_default\<rparr>);
            p4 = (on_sched (cancel T_AttributePoll) p3)\<lparr>p_settling := True\<rparr>
        in on_sched (arm_in T_Rediscovery (p_now p4) (pc_rediscovery_delay (p_config p4))) p4)"

definition poll_next_attribute :: "peer \<Rightarrow> peer" where
  "poll_next_attribute p =
     (if mac_is_zero (p_onu_mac p) then p
      else
        let leaves = pc_polled_attributes (p_config p)
        in if leaves = [] then p
           else
             let leaf = leaves ! (unat (p_next_attribute p) mod length leaves);
                 p1 = p\<lparr>p_next_attribute := p_next_attribute p + 1\<rparr>
             in bump (attribute_requests_sent_update (\<lambda>n. n + 1)) (emit (build_attribute_request leaf p1) p1))"

section \<open>The loop\<close>

definition is_normal_gate :: "frame \<Rightarrow> bool" where
  "is_normal_gate frame =
     (case mpcp_parse frame of
        None \<Rightarrow> False
      | Some pdu \<Rightarrow> (case pdu_body pdu of Body_Gate flags _ \<Rightarrow> \<not> discovery flags | _ \<Rightarrow> False))"

definition fire_gate :: "peer \<Rightarrow> peer" where
  "fire_gate p =
     (let frame = build_gate p;
          p1 = (if is_normal_gate frame then bump (gates_normal_sent_update (\<lambda>n. n + 1)) p else p);
          p2 = bump (gates_sent_update (\<lambda>n. n + 1)) (emit frame p1)
      in on_sched (arm_in T_Gate (p_now p2) (pc_gate_interval (p_config p2))) p2)"

definition fire_normal_gate :: "peer \<Rightarrow> peer" where
  "fire_normal_gate p =
     (if p_mpcp_state p = Mpcp_Registered then
        let p1 = bump (gates_normal_sent_update (\<lambda>n. n + 1))
                   (bump (gates_sent_update (\<lambda>n. n + 1)) (emit (build_normal_gate p) p))
        in on_sched (arm_in T_NormalGate (p_now p1) (pc_normal_gate_interval (p_config p1))) p1
      else p)"

definition fire_keepalive :: "peer \<Rightarrow> peer" where
  "fire_keepalive p =
     (let p1 = bump (oam_keepalives_sent_update (\<lambda>n. n + 1)) (emit (build_oam_info p) p);
          was = d_state (p_discovery p1);
          p2 = note_discovery_change was (p1\<lparr>p_discovery := on_sent (p_discovery p1)\<rparr>)
      in on_sched (arm_in T_Keepalive (p_now p2) (pc_oam_interval (p_config p2))) p2)"

definition fire_attribute_poll :: "peer \<Rightarrow> peer" where
  "fire_attribute_poll p =
     (let p1 = poll_next_attribute p
      in on_sched (arm_in T_AttributePoll (p_now p1) (pc_attribute_interval (p_config p1))) p1)"

primrec fire :: "timer \<Rightarrow> peer \<Rightarrow> peer" where
  "fire T_Gate p = fire_gate p"
| "fire T_NormalGate p = fire_normal_gate p"
| "fire T_Keepalive p = fire_keepalive p"
| "fire T_AttributePoll p = fire_attribute_poll p"
| "fire T_RegisterResponse p = answer_registration p"
| "fire T_Lifetime p = tear_down_registration p"
| "fire T_Rediscovery p = p\<lparr>p_settling := False, p_register_requests_seen := 0\<rparr>"

text \<open>The loop of \<open>advance_to\<close>; \<open>None\<close> when it does not end\<close>

partial_function (option) advance_loop :: "wire_instant \<Rightarrow> peer \<Rightarrow> peer option" where
  "advance_loop now p =
     (case pop_due now (p_sched p) of
        (None, s) \<Rightarrow> Some (p\<lparr>p_sched := s\<rparr>)
      | (Some (t, timer), s) \<Rightarrow> advance_loop now (fire timer (p\<lparr>p_sched := s, p_now := t\<rparr>)))"

definition advance_to :: "wire_instant \<Rightarrow> peer \<Rightarrow> peer option" where
  "advance_to now p = map_option (\<lambda>p'. p'\<lparr>p_now := max (p_now p') now\<rparr>) (advance_loop now p)"

definition peer_next_due :: "peer \<Rightarrow> wire_instant option \<times> peer" where
  "peer_next_due p = (case next_due (p_sched p) of (r, s) \<Rightarrow> (r, p\<lparr>p_sched := s\<rparr>))"

definition take_downstream :: "peer \<Rightarrow> emitted list \<times> peer" where
  "take_downstream p = (p_downstream p, p\<lparr>p_downstream := []\<rparr>)"

definition set_link :: "bool \<Rightarrow> wire_instant \<Rightarrow> peer \<Rightarrow> peer" where
  "set_link up t p =
     (if p_link_up p = up then p
      else
        let p1 = p\<lparr>p_now := max (p_now p) t, p_link_up := up\<rparr>
        in if up then
             let p2 = on_sched (arm_at T_Gate (p_now p1)) (p1\<lparr>p_mpcp_state := Mpcp_Idle\<rparr>)
             in on_sched (arm_at T_Keepalive (p_now p2)) p2
           else
             (on_sched sched_clear p1)\<lparr>p_mpcp_state := Mpcp_Idle, p_registered_at := None, p_settling := False,
               p_register_requests_seen := 0, p_discovery := discovery_default\<rparr>)"

section \<open>Upstream frames\<close>

definition on_register_ack :: "peer \<Rightarrow> peer" where
  "on_register_ack p =
     (if p_mpcp_state p \<noteq> Mpcp_WaitAck then bump (register_ack_unexpected_update (\<lambda>n. n + 1)) p
      else
        let p1 = bump (registrations_update (\<lambda>n. n + 1))
                   (p\<lparr>p_mpcp_state := Mpcp_Registered, p_registration_complete := True, p_registered_at := Some (p_now p)\<rparr>);
            p2 = on_sched (arm_in T_Lifetime (p_now p1) (pc_registration_lifetime (p_config p1))) p1
        in on_sched (arm_in T_NormalGate (p_now p2) (pc_normal_gate_interval (p_config p2))) p2)"

definition on_register_req :: "mpcp_pdu \<Rightarrow> peer \<Rightarrow> peer" where
  "on_register_req pdu p0 =
     (let p = bump (register_req_seen_update (\<lambda>n. n + 1)) (p0\<lparr>p_onu_mac := mh_src (pdu_header pdu)\<rparr>)
      in case pdu_body pdu of
           Body_RegisterReq body \<Rightarrow>
             if rr_flag body = RR_Deregister then
               tear_down_registration (bump (register_req_deregister_update (\<lambda>n. n + 1)) p)
             else
               let p1 = p\<lparr>p_last_request := Some body\<rparr>
               in if p_settling p1 then bump (register_req_link_settling_update (\<lambda>n. n + 1)) p1
                  else if p_mpcp_state p1 \<noteq> Mpcp_Idle then bump (register_req_in_flight_update (\<lambda>n. n + 1)) p1
                  else
                    let p2 = p1\<lparr>p_register_requests_seen := p_register_requests_seen p1 + 1\<rparr>
                    in if p_register_requests_seen p2 \<le> pc_ignored_register_requests (p_config p2)
                       then bump (register_req_window_passed_update (\<lambda>n. n + 1)) p2
                       else
                         let p3 = (bump (register_req_accepted_update (\<lambda>n. n + 1)) p2)\<lparr>p_mpcp_state := Mpcp_Discovery\<rparr>
                         in on_sched (arm_in T_RegisterResponse (p_now p3) (pc_processing_delay (p_config p3))) p3
         | _ \<Rightarrow> bump (register_req_malformed_update (\<lambda>n. n + 1)) p)"

definition on_ack :: "mpcp_pdu \<Rightarrow> peer \<Rightarrow> peer" where
  "on_ack pdu p0 =
     (let p = bump (register_ack_seen_update (\<lambda>n. n + 1)) p0
      in case pdu_body pdu of
           Body_RegisterAck flag echoed_port echoed_sync_time \<Rightarrow>
             if acknowledges flag \<and> echoed_port = p_assigned_llid p \<and> echoed_sync_time = SYNC_TIME_TQ
             then on_register_ack p
             else bump (register_ack_rejected_update (\<lambda>n. n + 1)) p
         | _ \<Rightarrow> bump (register_ack_rejected_update (\<lambda>n. n + 1)) p)"

definition on_mpcp :: "frame \<Rightarrow> peer \<Rightarrow> peer" where
  "on_mpcp frame p0 =
     (let p = bump (mpcp_upstream_seen_update (\<lambda>n. n + 1)) p0
      in case mpcp_parse frame of
           None \<Rightarrow> bump (mpcp_malformed_update (\<lambda>n. n + 1)) p
         | Some pdu \<Rightarrow>
             (let op = mh_opcode (pdu_header pdu)
              in if op = Op_RegisterReq then on_register_req pdu p
                 else if op = Op_RegisterAck then on_ack pdu p
                 else if op = Op_Report then bump (reports_seen_update (\<lambda>n. n + 1)) p
                 else if is_downstream_only op then bump (mpcp_upstream_wrong_direction_update (\<lambda>n. n + 1)) p
                 else bump (mpcp_upstream_unhandled_update (\<lambda>n. n + 1)) p))"

definition on_container :: "container \<Rightarrow> peer \<Rightarrow> peer" where
  "on_container c p0 =
     (let p = bump (attribute_replies_seen_update (\<lambda>n. n + 1)) p0
      in p\<lparr>p_attribute_replies := push_capped (p_attribute_replies p) c\<rparr>)"

definition on_extended :: "ext_pdu \<Rightarrow> peer \<Rightarrow> peer" where
  "on_extended pdu p = fold on_container (pdu_containers pdu) p"

definition on_oam :: "frame \<Rightarrow> peer \<Rightarrow> peer" where
  "on_oam frame p =
     (case ext_parse frame of
        Some pdu \<Rightarrow> on_extended pdu p
      | None \<Rightarrow>
          (case oam_parse frame of
             None \<Rightarrow> p
           | Some pdu \<Rightarrow>
               (let was = d_state (p_discovery p);
                    p1 = p\<lparr>p_discovery := (if op_code pdu = Information
                                           then on_peer_information (op_flags pdu) (p_discovery p)
                                           else on_peer_flags (op_flags pdu) (p_discovery p))\<rparr>
                in note_discovery_change was p1)))"

definition deliver :: "frame \<Rightarrow> wire_instant \<Rightarrow> peer \<Rightarrow> peer" where
  "deliver frame t p0 =
     (let p = bump (frames_received_update (\<lambda>n. n + 1)) (p0\<lparr>p_now := max (p_now p0) t\<rparr>)
      in case ether_type_of_frame frame of
           None \<Rightarrow> bump (frames_unrecognized_update (\<lambda>n. n + 1)) p
         | Some et \<Rightarrow>
             (let p1 = (case et of ET_Mpcp \<Rightarrow> on_mpcp frame p | ET_SlowProtocol \<Rightarrow> on_oam frame p | _ \<Rightarrow> p)
              in p1\<lparr>p_tx_log := push_capped (p_tx_log p1) (frame_entry frame p1)\<rparr>))"

section \<open>Calls of the host\<close>

definition set_assigned_llid :: "llid \<Rightarrow> peer \<Rightarrow> peer" where
  "set_assigned_llid l p = p\<lparr>p_assigned_llid := l, p_config := (p_config p)\<lparr>pc_llid_start := l\<rparr>\<rparr>"

definition take_llid_assignment :: "peer \<Rightarrow> u16 option \<times> peer" where
  "take_llid_assignment p = (p_llid_assignment p, p\<lparr>p_llid_assignment := None\<rparr>)"

definition take_registration_complete :: "peer \<Rightarrow> bool \<times> peer" where
  "take_registration_complete p = (p_registration_complete p, p\<lparr>p_registration_complete := False\<rparr>)"

definition send_extended :: "oui \<Rightarrow> ext_opcode \<Rightarrow> u8 list \<Rightarrow> peer \<Rightarrow> frame \<times> peer" where
  "send_extended o' op payload p =
     (let frame = pad_to MIN_FRAME_LEN
            (ethernet (oam_destination p) (pc_mac (p_config p)) ET_SlowProtocol @ [SUBTYPE_OAM]
             @ w_u16 (flags_u16 (d_flags (p_discovery p))) @ [oam_code_u8 OrganizationSpecific]
             @ oui_bytes o' @ [ext_opcode_u8 op] @ payload)
      in (frame, emit frame p))"

definition request_attribute :: "u16 \<Rightarrow> peer \<Rightarrow> frame \<times> peer" where
  "request_attribute leaf p =
     (let frame = build_attribute_request leaf p
      in (frame, bump (attribute_requests_sent_update (\<lambda>n. n + 1)) (emit frame p)))"

definition inject :: "frame \<Rightarrow> peer \<Rightarrow> peer" where
  "inject frame p = emit frame p"

definition rewind_handshake :: "peer \<Rightarrow> peer" where
  "rewind_handshake p =
     on_sched (cancel T_Lifetime) (on_sched (cancel T_RegisterResponse)
       (p\<lparr>p_mpcp_state := Mpcp_Idle, p_registration_complete := False, p_registered_at := None,
          p_register_requests_seen := 0\<rparr>))"

end
