(* ===== verification/Olt_Loop.thy ===== *)
theory Olt_Loop
  imports Olt_Peer
begin

text \<open>
  The loop of the OLT (\<open>advance_to\<close> of \<open>crates/epon-olt/src/peer.rs\<close>): that the size of the steps a
  host advances it by does not matter, and that it ends.
\<close>

section \<open>Advancing in steps\<close>

lemma advance_loop_None:
  "pop_due now (p_sched p) = (None, s) \<Longrightarrow> advance_loop now p = Some (p\<lparr>p_sched := s\<rparr>)"
  by (subst advance_loop.simps) simp

lemma advance_loop_Some:
  "pop_due now (p_sched p) = (Some (t, e), s) \<Longrightarrow>
   advance_loop now p = advance_loop now (fire e (p\<lparr>p_sched := s, p_now := t\<rparr>))"
  by (subst advance_loop.simps) simp

text \<open>Induction on the firings of a run that ends\<close>

lemma advance_loop_induct [consumes 1, case_names stops fires]:
  assumes "advance_loop a p = Some p'"
    and stops: "\<And>p s. pop_due a (p_sched p) = (None, s) \<Longrightarrow> P p (p\<lparr>p_sched := s\<rparr>)"
    and fires: "\<And>p s t e p'. pop_due a (p_sched p) = (Some (t, e), s) \<Longrightarrow>
        advance_loop a (fire e (p\<lparr>p_sched := s, p_now := t\<rparr>)) = Some p' \<Longrightarrow>
        P (fire e (p\<lparr>p_sched := s, p_now := t\<rparr>)) p' \<Longrightarrow> P p p'"
  shows "P p p'"
proof -
  have "c = a \<longrightarrow> advance_loop c p = Some p' \<and> P p p'" if "advance_loop c p = Some p'" for c
  proof (rule advance_loop.raw_induct [OF _ that])
    fix run c p p'
    assume IH: "\<And>c p p'. run c p = Some p' \<Longrightarrow> c = a \<longrightarrow> advance_loop c p = Some p' \<and> P p p'"
      and step: "(case pop_due c (p_sched p) of (None, s) \<Rightarrow> Some (p\<lparr>p_sched := s\<rparr>)
        | (Some (t, e), s) \<Rightarrow> run c (fire e (p\<lparr>p_sched := s, p_now := t\<rparr>))) = Some p'"
    show "c = a \<longrightarrow> advance_loop c p = Some p' \<and> P p p'"
    proof (intro impI)
      assume c: "c = a"
      obtain r s where pop: "pop_due a (p_sched p) = (r, s)" by (cases "pop_due a (p_sched p)")
      show "advance_loop c p = Some p' \<and> P p p'"
      proof (cases r)
        case None
        then show ?thesis using step pop c stops [of p s] advance_loop_None [of a p s] by simp
      next
        case (Some te)
        obtain t e where te: "te = (t, e)" by (cases te)
        then have pop': "pop_due a (p_sched p) = (Some (t, e), s)" using pop Some by simp
        have "run a (fire e (p\<lparr>p_sched := s, p_now := t\<rparr>)) = Some p'"
          using step by (simp only: c pop' prod.case option.case)
        then have "advance_loop a (fire e (p\<lparr>p_sched := s, p_now := t\<rparr>)) = Some p'"
            "P (fire e (p\<lparr>p_sched := s, p_now := t\<rparr>)) p'" using IH by simp_all
        then show ?thesis using fires [OF pop'] advance_loop_Some [OF pop'] c by simp
      qed
    qed
  qed
  then show ?thesis using assms(1) by simp
qed

text \<open>The run up to an earlier instant is the start of the run up to a later one.\<close>

lemma advance_loop_idle:
  assumes "pop_due a (p_sched p) = (None, s)" "a \<le> b"
  shows "advance_loop b (p\<lparr>p_sched := s\<rparr>) = advance_loop b p" "pop_due b s = pop_due b (p_sched p)"
proof -
  show same: "pop_due b s = pop_due b (p_sched p)" by (rule pop_due_None [OF assms])
  obtain r s' where pop: "pop_due b (p_sched p) = (r, s')" by (cases "pop_due b (p_sched p)")
  show "advance_loop b (p\<lparr>p_sched := s\<rparr>) = advance_loop b p"
  proof (cases r)
    case None
    then show ?thesis
      using advance_loop_None [of b p s'] advance_loop_None [of b "p\<lparr>p_sched := s\<rparr>" s'] pop same by simp
  next
    case (Some te)
    obtain t e where te: "te = (t, e)" by (cases te)
    then show ?thesis
      using advance_loop_Some [of b p t e s'] advance_loop_Some [of b "p\<lparr>p_sched := s\<rparr>" t e s'] pop same Some by simp
  qed
qed

lemma advance_loop_resume:
  assumes "advance_loop a p = Some p'" "a \<le> b"
  shows "advance_loop b p = advance_loop b p'"
  using assms(1)
proof (induction rule: advance_loop_induct)
  case (stops p s)
  then show ?case by (simp add: advance_loop_idle(1) [OF _ assms(2)])
next
  case (fires p s t e p')
  then show ?case using advance_loop_Some [OF pop_due_Some [OF fires(1) assms(2)]] by simp
qed

lemma advance_loop_earlier:
  assumes "advance_loop b p = Some p'" "a \<le> b"
  shows "\<exists>q. advance_loop a p = Some q"
  using assms(1)
proof (induction rule: advance_loop_induct)
  case (stops p s)
  have "fst (pop_due a (p_sched p)) = None"
  proof (rule ccontr)
    assume "fst (pop_due a (p_sched p)) \<noteq> None"
    then obtain r s' where "pop_due a (p_sched p) = (Some r, s')" by (cases "pop_due a (p_sched p)") auto
    from pop_due_Some [OF this assms(2)] show False using stops by simp
  qed
  then show ?case using advance_loop_None [of a p] by (cases "pop_due a (p_sched p)") simp
next
  case (fires p s t e p')
  obtain r s' where pop: "pop_due a (p_sched p) = (r, s')" by (cases "pop_due a (p_sched p)")
  show ?case
  proof (cases r)
    case None
    then show ?thesis using advance_loop_None [of a p s'] pop by simp
  next
    case (Some te)
    then have "pop_due a (p_sched p) = (Some te, s')" using pop by simp
    from pop_due_Some [OF this assms(2)] have "pop_due b (p_sched p) = (Some te, s')" .
    then have "pop_due a (p_sched p) = (Some (t, e), s)" using fires(1) pop Some by simp
    then show ?thesis using advance_loop_Some fires(3) by simp
  qed
qed

text \<open>What a run does depends on the clock before it only when nothing fires.\<close>

lemma advance_loop_now:
  "advance_loop b (p\<lparr>p_now := x\<rparr>) =
     (case fst (pop_due b (p_sched p)) of
        None \<Rightarrow> map_option (\<lambda>p'. p'\<lparr>p_now := x\<rparr>) (advance_loop b p)
      | Some _ \<Rightarrow> advance_loop b p)"
  by (subst (1 2 3) advance_loop.simps) (simp split: prod.split option.split)

text \<open>C17. The size of the steps does not matter: advancing the OLT to one instant and then to a later one is the
  same as advancing it to the later one at once, frames, stamps and state alike, so a host that polls
  rarely sees the same OLT as one that polls often (also when a run does not end).\<close>

theorem advance_in_steps:
  assumes "a \<le> b"
  shows "Option.bind (advance_to a p) (advance_to b) = advance_to b p"
proof (cases "advance_loop a p")
  case None
  then have "advance_loop b p = None" using advance_loop_earlier [of b p _ a] assms by (cases "advance_loop b p") auto
  then show ?thesis using None by (simp add: advance_to_def)
next
  case (Some p')
  note resume = advance_loop_resume [OF Some assms]
  show ?thesis
  proof (cases "fst (pop_due b (p_sched p'))")
    case None
    then obtain s where "pop_due b (p_sched p') = (None, s)" by (cases "pop_due b (p_sched p')") auto
    then have "advance_loop b p' = Some (p'\<lparr>p_sched := s\<rparr>)" by (rule advance_loop_None)
    then show ?thesis
      using resume assms None Some by (simp add: advance_to_def advance_loop_now max.assoc max_absorb2)
  next
    case (Some r)
    then show ?thesis
      using resume assms \<open>advance_loop a p = Some p'\<close> by (simp add: advance_to_def advance_loop_now)
  qed
qed

theorem advance_in_steps_witness:
  "\<forall>p. Option.bind (advance_to 5 p) (advance_to 1000000) = advance_to 1000000 p"
  using advance_in_steps [of 5 1000000] by simp

section \<open>The loop ends\<close>

text \<open>What a due timer can still cause before \<open>now\<close>: a keepalive may start attribute polling each time.\<close>

definition weight :: "wire_instant \<Rightarrow> wire_instant \<Rightarrow> timer \<Rightarrow> nat" where
  "weight now t e =
     (if now < t then 0
      else let d = unat now - unat t
           in case e of T_Keepalive \<Rightarrow> (d + 1) * (d + 2) | T_RegisterResponse \<Rightarrow> 1 | T_Rediscovery \<Rightarrow> 1
              | T_Lifetime \<Rightarrow> 2 | _ \<Rightarrow> d + 1)"

definition work :: "wire_instant \<Rightarrow> timer scheduler \<Rightarrow> nat" where
  "work now s = sum_list (map (\<lambda>e. weight now (en_at e) (en_event e)) (s_heap s))"

lemma sum_heap_push: "sum_list (map f (heap_push x ys)) = f x + sum_list (map f ys)" for f :: "'a entry \<Rightarrow> nat"
  by (induction ys) auto

lemma work_arm_at [simp]: "work now (arm_at e t s) = work now s + weight now t e"
  by (simp add: work_def arm_at_def Let_def sum_heap_push)

lemma work_new [simp]: "work now sched_new = 0"
  by (simp add: work_def sched_new_def)

lemma work_cancel [simp]: "work now (cancel e s) = work now s"
  by (simp add: work_def cancel_def)

lemma pop_heap_work:
  "pop_heap now es g = (Some (t, ev), es', g') \<Longrightarrow>
   sum_list (map (\<lambda>e. weight now (en_at e) (en_event e)) es') + weight now t ev
     \<le> sum_list (map (\<lambda>e. weight now (en_at e) (en_event e)) es)"
proof (induction es arbitrary: g)
  case (Cons e es)
  then show ?case by (auto simp: pop_heap_Cons split: if_splits intro: trans_le_add2)
qed simp

lemma pop_due_work:
  assumes "pop_due now s = (Some (t, e), s')"
  shows "work now s' + weight now t e \<le> work now s \<and> t \<le> now"
proof -
  obtain es g where h: "pop_heap now (s_heap s) (s_generations s) = (Some (t, e), es, g)"
    using assms by (auto simp: pop_due_def split: prod.splits)
  show ?thesis using pop_heap_work [OF h] pop_heap_due [OF h] h assms by (auto simp: pop_due_def work_def)
qed

lemma emit_fields [simp]:
  "p_sched (emit f p) = p_sched p" "p_config (emit f p) = p_config p" "p_now (emit f p) = p_now p"
  by (simp_all add: emit_def Let_def)

lemma entered_fields [simp]:
  "p_config (note_discovery_change was p) = p_config p" "p_now (note_discovery_change was p) = p_now p"
  by (simp_all add: note_discovery_change_def on_discovery_entered_def Let_def)

lemma entered_work:
  "work now (p_sched (note_discovery_change was p)) \<le> work now (p_sched p) + weight now (p_now p) T_AttributePoll"
  by (simp add: note_discovery_change_def on_discovery_entered_def Let_def)

lemma reset_work:
  "work now (p_sched (note_discovery_change was (p\<lparr>p_discovery := discovery_default\<rparr>))) = work now (p_sched p)"
  by (simp add: note_discovery_change_def on_discovery_entered_def discovery_default_def Let_def)

text \<open>A timer armed again a positive interval later weighs less.\<close>

definition runs_until :: "wire_instant \<Rightarrow> peer_config \<Rightarrow> bool" where
  "runs_until now c \<longleftrightarrow>
     list_all (\<lambda>i. 0 < i \<and> unat now + unat i < 2 ^ 64)
       [pc_gate_interval c, pc_normal_gate_interval c, pc_oam_interval c, pc_attribute_interval c]"

lemma later_instant:
  fixes t :: wire_instant
  assumes "t \<le> now" "0 < i" "unat now + unat i < 2 ^ 64"
  shows "unat (t + i) = unat t + unat i" "0 < unat i" "unat t \<le> unat now"
proof -
  show le: "unat t \<le> unat now" using assms(1) by (simp add: word_le_nat_alt)
  then have "unat t + unat i < 2 ^ 64" using assms(3) by simp
  then show "unat (t + i) = unat t + unat i" by (simp add: unat_word_ariths)
  show "0 < unat i" using assms(2) by (simp add: word_less_nat_alt)
qed

lemma rearmed_weight:
  assumes "t \<le> now" "0 < i" "unat now + unat i < 2 ^ 64" "e \<in> {T_Gate, T_NormalGate, T_AttributePoll}"
  shows "weight now (t + i) e < weight now t e"
  using later_instant [OF assms(1-3)] assms(1,4) by (auto simp: weight_def word_less_nat_alt Let_def not_less)

lemma rearmed_keepalive_weight:
  assumes "t \<le> now" "0 < i" "unat now + unat i < 2 ^ 64"
  shows "weight now (t + i) T_Keepalive + weight now t T_AttributePoll < weight now t T_Keepalive"
proof -
  note u = later_instant [OF assms]
  have "\<not> now < t" using assms(1) by simp
  show ?thesis
  proof (cases "now < t + i")
    case True
    then show ?thesis using \<open>\<not> now < t\<close> by (simp add: weight_def Let_def)
  next
    case False
    define d where "d = unat now - unat t - unat i"
    have "unat t + unat i \<le> unat now" using False u(1) by (simp add: word_less_nat_alt)
    then have e: "unat now - unat t = d + unat i" "unat now - unat (t + i) = d" using u by (simp_all add: d_def)
    obtain k where "unat i = Suc k" using u(2) by (cases "unat i") auto
    then show ?thesis using False \<open>\<not> now < t\<close> e by (simp add: weight_def Let_def algebra_simps)
  qed
qed

lemma fire_config [simp]: "p_config (fire e p) = p_config p"
  by (cases e) (simp_all add: fire_gate_def fire_normal_gate_def fire_keepalive_def fire_attribute_poll_def
      poll_next_attribute_def answer_registration_def tear_down_registration_def Let_def)

text \<open>Every firing uses some of the work up.\<close>

lemma fire_work:
  assumes "runs_until now (p_config p)" "p_now p \<le> now"
  shows "work now (p_sched (fire e p)) < work now (p_sched p) + weight now (p_now p) e"
proof -
  have ok: "\<not> now < p_now p" using assms(2) by simp
  have later: "weight now (p_now p + i) e < weight now (p_now p) e"
    if "0 < i" "unat now + unat i < 2 ^ 64" "e \<in> {T_Gate, T_NormalGate, T_AttributePoll}" for i e
    using rearmed_weight [OF assms(2) that] .
  note runs = assms(1) [unfolded runs_until_def list.pred_inject simp_thms]
  show ?thesis
  proof (cases e)
    case T_Gate
    then show ?thesis using later runs by (simp add: fire_gate_def arm_in_def Let_def)
  next
    case T_NormalGate
    then show ?thesis using later [of "pc_normal_gate_interval (p_config p)" T_NormalGate] runs ok
      by (simp add: fire_normal_gate_def arm_in_def Let_def weight_def)
  next
    case T_AttributePoll
    then show ?thesis using later runs
      by (simp add: fire_attribute_poll_def poll_next_attribute_def arm_in_def Let_def)
  next
    case T_Keepalive
    define p1 where "p1 = bump (oam_keepalives_sent_update (\<lambda>n. n + 1)) (emit (build_oam_info p) p)"
    define p2 where "p2 = note_discovery_change (d_state (p_discovery p1)) (p1\<lparr>p_discovery := on_sent (p_discovery p1)\<rparr>)"
    have fields: "p_now p2 = p_now p" "p_config p2 = p_config p" by (simp_all add: p2_def p1_def)
    have "work now (p_sched p2) \<le> work now (p_sched p) + weight now (p_now p) T_AttributePoll"
      unfolding p2_def using entered_work [of now "d_state (p_discovery p1)" "p1\<lparr>p_discovery := on_sent (p_discovery p1)\<rparr>"]
      by (simp add: p1_def)
    moreover have "p_sched (fire T_Keepalive p) = arm_in T_Keepalive (p_now p2) (pc_oam_interval (p_config p2)) (p_sched p2)"
      by (simp add: fire_keepalive_def p2_def p1_def Let_def)
    ultimately show ?thesis
      using rearmed_keepalive_weight [OF assms(2), of "pc_oam_interval (p_config p)"] runs T_Keepalive
      by (simp add: arm_in_def fields)
  next
    case T_Lifetime
    have "weight now t T_Rediscovery \<le> 1" for t by (simp add: weight_def)
    then show ?thesis using T_Lifetime ok le_imp_less_Suc
      by (simp add: tear_down_registration_def reset_work arm_in_def Let_def weight_def)
  qed (use ok in \<open>simp_all add: answer_registration_def weight_def Let_def\<close>)
qed

lemma advance_loop_ends:
  "runs_until now (p_config p) \<Longrightarrow> \<exists>p'. advance_loop now p = Some p'"
proof (induction "work now (p_sched p)" arbitrary: p rule: less_induct)
  case less
  obtain r s where pop: "pop_due now (p_sched p) = (r, s)" by (cases "pop_due now (p_sched p)")
  show ?case
  proof (cases r)
    case None
    then show ?thesis using advance_loop_None pop by simp
  next
    case (Some te)
    obtain t e where te: "te = (t, e)" by (cases te)
    then have pop': "pop_due now (p_sched p) = (Some (t, e), s)" using pop Some by simp
    let ?p = "p\<lparr>p_sched := s, p_now := t\<rparr>"
    have "work now (p_sched (fire e ?p)) < work now (p_sched p)"
      using fire_work [of now ?p e] pop_due_work [OF pop'] less.prems by simp
    from less.hyps [OF this] have "\<exists>p'. advance_loop now (fire e ?p) = Some p'" using less.prems by simp
    then show ?thesis unfolding advance_loop_Some [OF pop'] .
  qed
qed

text \<open>C16. The OLT's loop ends: whatever is armed (stale entries, several timers due at once, registrations being
  torn down and discovery converging on the way), advancing to an instant returns as long as the four
  periods are positive and adding one to the instant does not overflow.\<close>

theorem advance_terminates:
  assumes "runs_until now (p_config p)"
  shows "\<exists>p'. advance_to now p = Some p' \<and> now \<le> p_now p'"
  using advance_loop_ends [OF assms] by (auto simp: advance_to_def)

theorem advance_terminates_witness:
  "\<exists>p'. advance_to (from_ms 62000) (set_link True 0 (peer_new config_default)) = Some p' \<and> from_ms 62000 \<le> p_now p'"
  by (rule advance_terminates)
    (simp add: runs_until_def config_default_def set_link_def peer_new_def Let_def)

end
