(* ===== verification/Olt_Registration.thy ===== *)
theory Olt_Registration
  imports Olt_Loop
begin

text \<open>
  What the OLT of \<open>crates/epon-olt/src/peer.rs\<close> keeps over every call a host can make: the two
  ledgers of its counters balance, and the registration state moves only along the handshake.
\<close>

section \<open>The peers a host can reach\<close>

text \<open>Every public operation that changes the peer; \<open>config\<close> is a public field.\<close>

inductive peer_reachable :: "peer \<Rightarrow> bool" where
  new: "peer_reachable (peer_new c)"
| advanced: "peer_reachable p \<Longrightarrow> advance_to t p = Some p' \<Longrightarrow> peer_reachable p'"
| delivered: "peer_reachable p \<Longrightarrow> peer_reachable (deliver frame t p)"
| next_asked: "peer_reachable p \<Longrightarrow> peer_reachable (snd (peer_next_due p))"
| link: "peer_reachable p \<Longrightarrow> peer_reachable (set_link up t p)"
| frames_taken: "peer_reachable p \<Longrightarrow> peer_reachable (snd (take_downstream p))"
| assignment_taken: "peer_reachable p \<Longrightarrow> peer_reachable (snd (take_llid_assignment p))"
| completion_taken: "peer_reachable p \<Longrightarrow> peer_reachable (snd (take_registration_complete p))"
| llid_set: "peer_reachable p \<Longrightarrow> peer_reachable (set_assigned_llid l p)"
| extended_sent: "peer_reachable p \<Longrightarrow> peer_reachable (snd (send_extended oui op payload p))"
| attribute_requested: "peer_reachable p \<Longrightarrow> peer_reachable (snd (request_attribute leaf p))"
| injected: "peer_reachable p \<Longrightarrow> peer_reachable (inject frame p)"
| rewound: "peer_reachable p \<Longrightarrow> peer_reachable (rewind_handshake p)"
| configured: "peer_reachable p \<Longrightarrow> peer_reachable (p\<lparr>p_config := c\<rparr>)"

section \<open>The ledgers\<close>

text \<open>The ledgers, with \<open>u\<close> upstream frames and \<open>r\<close> requests counted but not yet classified\<close>

definition owing :: "u64 \<Rightarrow> u64 \<Rightarrow> counters \<Rightarrow> bool" where
  "owing u r c \<longleftrightarrow>
     mpcp_upstream_seen c = register_req_seen c + register_ack_seen c + reports_seen c
       + mpcp_upstream_unhandled c + mpcp_upstream_wrong_direction c + mpcp_malformed c + u
     \<and> register_req_seen c = register_req_accepted c + register_req_link_settling c + register_req_in_flight c
       + register_req_window_passed c + register_req_malformed c + register_req_deregister c + r"

lemma owing_other [simp]:
  "owing u r (frames_received_update f c) = owing u r c" "owing u r (frames_sent_update f c) = owing u r c"
  "owing u r (frames_unrecognized_update f c) = owing u r c" "owing u r (gates_sent_update f c) = owing u r c"
  "owing u r (gates_normal_sent_update f c) = owing u r c" "owing u r (oam_keepalives_sent_update f c) = owing u r c"
  "owing u r (attribute_requests_sent_update f c) = owing u r c"
  "owing u r (attribute_replies_seen_update f c) = owing u r c" "owing u r (registrations_update f c) = owing u r c"
  "owing u r (deregistrations_update f c) = owing u r c"
  "owing u r (register_ack_unexpected_update f c) = owing u r c"
  "owing u r (register_ack_rejected_update f c) = owing u r c"
  by (simp_all add: owing_def)

lemma owing_steps:
  "owing 0 0 c \<Longrightarrow> owing 1 0 (mpcp_upstream_seen_update (\<lambda>n. n + 1) c)"
  "owing 1 0 c \<Longrightarrow> owing 0 1 (register_req_seen_update (\<lambda>n. n + 1) c)"
  "owing 1 0 c \<Longrightarrow> owing 0 0 (register_ack_seen_update (\<lambda>n. n + 1) c)"
  "owing 1 0 c \<Longrightarrow> owing 0 0 (reports_seen_update (\<lambda>n. n + 1) c)"
  "owing 1 0 c \<Longrightarrow> owing 0 0 (mpcp_upstream_unhandled_update (\<lambda>n. n + 1) c)"
  "owing 1 0 c \<Longrightarrow> owing 0 0 (mpcp_upstream_wrong_direction_update (\<lambda>n. n + 1) c)"
  "owing 1 0 c \<Longrightarrow> owing 0 0 (mpcp_malformed_update (\<lambda>n. n + 1) c)"
  "owing 0 1 c \<Longrightarrow> owing 0 0 (register_req_accepted_update (\<lambda>n. n + 1) c)"
  "owing 0 1 c \<Longrightarrow> owing 0 0 (register_req_link_settling_update (\<lambda>n. n + 1) c)"
  "owing 0 1 c \<Longrightarrow> owing 0 0 (register_req_in_flight_update (\<lambda>n. n + 1) c)"
  "owing 0 1 c \<Longrightarrow> owing 0 0 (register_req_window_passed_update (\<lambda>n. n + 1) c)"
  "owing 0 1 c \<Longrightarrow> owing 0 0 (register_req_malformed_update (\<lambda>n. n + 1) c)"
  "owing 0 1 c \<Longrightarrow> owing 0 0 (register_req_deregister_update (\<lambda>n. n + 1) c)"
  by (simp_all add: owing_def)

lemma owing_emit [simp]: "owing u r (p_counters (emit f p)) = owing u r (p_counters p)"
  by (simp add: emit_def Let_def)

lemma owing_entered [simp]: "p_counters (note_discovery_change was p) = p_counters p"
  by (simp add: note_discovery_change_def on_discovery_entered_def Let_def)

lemma owing_tear_down [simp]: "owing u r (p_counters (tear_down_registration p)) = owing u r (p_counters p)"
  by (simp add: tear_down_registration_def Let_def)

lemma owing_fire [simp]: "owing u r (p_counters (fire e p)) = owing u r (p_counters p)"
  by (cases e) (simp_all add: fire_gate_def fire_normal_gate_def fire_keepalive_def fire_attribute_poll_def
      poll_next_attribute_def answer_registration_def Let_def)

lemma owing_advance:
  assumes "advance_loop t p = Some p'"
  shows "owing u r (p_counters p') = owing u r (p_counters p)"
  using assms by (induction rule: advance_loop_induct) simp_all

lemma owing_register_req:
  assumes "owing 1 0 (p_counters p)"
  shows "owing 0 0 (p_counters (on_register_req pdu p))"
proof -
  note seen = owing_steps(2) [OF assms]
  show ?thesis
    using seen [THEN owing_steps(8)] seen [THEN owing_steps(9)] seen [THEN owing_steps(10)] seen [THEN owing_steps(11)]
      seen [THEN owing_steps(12)] seen [THEN owing_steps(13)]
    by (simp add: on_register_req_def Let_def split: mpcp_body.split)
qed

lemma owing_ack:
  assumes "owing 1 0 (p_counters p)"
  shows "owing 0 0 (p_counters (on_ack pdu p))"
  using owing_steps(3) [OF assms] by (simp add: on_ack_def on_register_ack_def Let_def split: mpcp_body.split)

lemma owing_mpcp:
  assumes "owing 0 0 (p_counters p)"
  shows "owing 0 0 (p_counters (on_mpcp frame p))"
proof -
  note seen = owing_steps(1) [OF assms]
  show ?thesis
    using seen [THEN owing_steps(4)] seen [THEN owing_steps(5)] seen [THEN owing_steps(6)] seen [THEN owing_steps(7)]
      owing_register_req owing_ack seen
    by (simp add: on_mpcp_def Let_def split: option.split)
qed

lemma owing_containers: "owing u r (p_counters (fold on_container cs p)) = owing u r (p_counters p)"
  by (induction cs arbitrary: p) (simp_all add: on_container_def Let_def)

lemma owing_oam: "owing u r (p_counters (on_oam frame p)) = owing u r (p_counters p)"
  by (simp add: on_oam_def on_extended_def owing_containers Let_def split: option.split)

lemma owing_deliver:
  assumes "owing 0 0 (p_counters p)"
  shows "owing 0 0 (p_counters (deliver frame t p))"
  using assms owing_mpcp by (simp add: deliver_def Let_def owing_oam split: option.split ether_type.split)

text \<open>C18. Both ledgers of the counters balance on every peer a host can reach, whatever is delivered to it and in
  whatever order: every upstream MPCPDU is counted in exactly one class, and every REGISTER_REQ has
  exactly one outcome (also after a counter wraps).\<close>

theorem ledgers_balance:
  assumes "peer_reachable p"
  shows "upstream_mpcpdus_accounted_for (p_counters p) \<and> register_requests_accounted_for (p_counters p)"
proof -
  have "owing 0 0 (p_counters p)"
    using assms
  proof (induction rule: peer_reachable.induct)
    case (new c)
    then show ?case by (simp add: owing_def peer_new_def counters_zero_def)
  next
    case (advanced p t p')
    then obtain q where "advance_loop t p = Some q" "p' = q\<lparr>p_now := max (p_now q) t\<rparr>"
      by (auto simp: advance_to_def)
    then show ?case using advanced owing_advance by simp
  next
    case (delivered p frame t)
    then show ?case by (simp add: owing_deliver)
  qed (simp_all add: set_link_def take_downstream_def take_llid_assignment_def take_registration_complete_def
      set_assigned_llid_def send_extended_def request_attribute_def inject_def rewind_handshake_def
      peer_next_due_def Let_def split: prod.split)
  then show ?thesis
    by (simp add: owing_def upstream_mpcpdus_accounted_for_def register_requests_accounted_for_def)
qed

text \<open>A REGISTER_REQ taken in on a dark link is on the books too.\<close>

theorem ledgers_balance_witness:
  "register_requests_accounted_for (p_counters (deliver (mpcp_register_req
       \<lparr>mh_dst = MPCP_MULTICAST, mh_src = MAC_ZERO, mh_opcode = Op_RegisterReq, mh_timestamp = 0\<rparr>
       \<lparr>rr_flag = RR_Register, rr_pending_grants = 0, rr_discovery_information = 0, rr_laser_on = 32, rr_laser_off = 32\<rparr>)
     5 (peer_new config_default)))"
  using ledgers_balance [OF delivered [OF new]] by blast

section \<open>The registration state\<close>

text \<open>A frame that asks to register, one that asks to leave, one that acknowledges the grant of \<open>l\<close>\<close>

definition asks :: "(register_req_flag \<Rightarrow> bool) \<Rightarrow> frame \<Rightarrow> bool" where
  "asks P frame \<longleftrightarrow> ether_type_of_frame frame = Some ET_Mpcp \<and>
     (case mpcp_parse frame of
        None \<Rightarrow> False
      | Some pdu \<Rightarrow> mh_opcode (pdu_header pdu) = Op_RegisterReq \<and>
          (case pdu_body pdu of Body_RegisterReq b \<Rightarrow> P (rr_flag b) | _ \<Rightarrow> False))"

definition confirms :: "llid \<Rightarrow> frame \<Rightarrow> bool" where
  "confirms l frame \<longleftrightarrow> ether_type_of_frame frame = Some ET_Mpcp \<and>
     (case mpcp_parse frame of
        None \<Rightarrow> False
      | Some pdu \<Rightarrow> mh_opcode (pdu_header pdu) = Op_RegisterAck \<and>
          (case pdu_body pdu of
             Body_RegisterAck flag port sync \<Rightarrow> acknowledges flag \<and> port = l \<and> sync = SYNC_TIME_TQ
           | _ \<Rightarrow> False))"

text \<open>The fields the registration state moves with\<close>

definition same_registration :: "peer \<Rightarrow> peer \<Rightarrow> bool" where
  "same_registration p q \<longleftrightarrow> p_mpcp_state q = p_mpcp_state p \<and> p_registered_at q = p_registered_at p
     \<and> p_assigned_llid q = p_assigned_llid p \<and> p_onu_mac q = p_onu_mac p \<and> p_last_request q = p_last_request p
     \<and> p_config q = p_config p"

definition granted_to :: "peer \<Rightarrow> peer \<Rightarrow> bool" where
  "granted_to p q \<longleftrightarrow> p_llid_assignment q = Some (llid_u16 (p_assigned_llid p))
     \<and> (\<exists>u. \<lparr>em_at = u, em_frame = build_register RF_Ack (p\<lparr>p_now := u\<rparr>)\<rparr> \<in> set (p_downstream q))"

lemma emit_registration [simp]:
  "p_mpcp_state (emit f p) = p_mpcp_state p" "p_registered_at (emit f p) = p_registered_at p"
  "p_assigned_llid (emit f p) = p_assigned_llid p" "p_onu_mac (emit f p) = p_onu_mac p"
  "p_last_request (emit f p) = p_last_request p" "p_settling (emit f p) = p_settling p"
  "p_llid_assignment (emit f p) = p_llid_assignment p" "p_discovery (emit f p) = p_discovery p"
  "p_downstream (emit f p) = p_downstream p @ [\<lparr>em_at = p_now p, em_frame = f\<rparr>]"
  by (simp_all add: emit_def Let_def)

lemma entered_registration [simp]:
  "p_mpcp_state (note_discovery_change was p) = p_mpcp_state p"
  "p_registered_at (note_discovery_change was p) = p_registered_at p"
  "p_assigned_llid (note_discovery_change was p) = p_assigned_llid p"
  "p_onu_mac (note_discovery_change was p) = p_onu_mac p"
  "p_last_request (note_discovery_change was p) = p_last_request p"
  "p_llid_assignment (note_discovery_change was p) = p_llid_assignment p"
  "p_downstream (note_discovery_change was p) = p_downstream p"
  "p_settling (note_discovery_change was p) = p_settling p"
  by (simp_all add: note_discovery_change_def on_discovery_entered_def Let_def)

lemma tear_down_state [simp]:
  "p_mpcp_state (tear_down_registration p) = (if p_registered_at p = None then p_mpcp_state p else Mpcp_Idle)"
  "p_registered_at (tear_down_registration p) = None"
  "p_assigned_llid (tear_down_registration p) = p_assigned_llid p" "p_onu_mac (tear_down_registration p) = p_onu_mac p"
  "p_last_request (tear_down_registration p) = p_last_request p" "p_config (tear_down_registration p) = p_config p"
  "p_llid_assignment (tear_down_registration p) = p_llid_assignment p"
  "set (p_downstream p) \<subseteq> set (p_downstream (tear_down_registration p))"
  by (auto simp: tear_down_registration_def Let_def)

lemma build_register_same:
  "same_registration p q \<Longrightarrow> build_register f (q\<lparr>p_now := u\<rparr>) = build_register f (p\<lparr>p_now := u\<rparr>)"
  by (simp add: same_registration_def build_register_def mpcp_header_of_def Let_def)

lemma build_register_now: "build_register f p = build_register f (p\<lparr>p_now := p_now p\<rparr>)"
  by simp

text \<open>What a timer does to the registration\<close>

lemma fire_registration:
  "e \<noteq> T_RegisterResponse \<Longrightarrow> e \<noteq> T_Lifetime \<Longrightarrow> same_registration p (fire e p)"
  "p_mpcp_state (fire T_RegisterResponse p) =
     (if p_mpcp_state p = Mpcp_Discovery \<and> \<not> p_settling p then Mpcp_WaitAck else p_mpcp_state p)"
  "p_registered_at (fire T_RegisterResponse p) = p_registered_at p"
  by (cases e; simp add: same_registration_def fire_gate_def fire_normal_gate_def fire_keepalive_def
      fire_attribute_poll_def poll_next_attribute_def Let_def)
    (simp_all add: answer_registration_def Let_def)

lemma fire_constants [simp]:
  "p_assigned_llid (fire e p) = p_assigned_llid p" "p_onu_mac (fire e p) = p_onu_mac p"
  "p_last_request (fire e p) = p_last_request p"
  by (cases e; simp add: fire_gate_def fire_normal_gate_def fire_keepalive_def
      fire_attribute_poll_def poll_next_attribute_def answer_registration_def Let_def)+

lemma fire_keeps_frames: "set (p_downstream p) \<subseteq> set (p_downstream (fire e p))"
proof (cases e)
  case T_Lifetime
  then show ?thesis using tear_down_state(8) [of p] by simp
qed (auto simp: fire_gate_def fire_normal_gate_def fire_keepalive_def
      fire_attribute_poll_def poll_next_attribute_def answer_registration_def Let_def)

lemma fire_assignment: "p_mpcp_state p \<noteq> Mpcp_Discovery \<Longrightarrow> p_llid_assignment (fire e p) = p_llid_assignment p"
  by (cases e; simp add: fire_gate_def fire_normal_gate_def fire_keepalive_def
      fire_attribute_poll_def poll_next_attribute_def answer_registration_def Let_def)

text \<open>A run of the timers: the state stays, the grant goes out, or the registration is torn down.\<close>

definition constants_kept :: "peer \<Rightarrow> peer \<Rightarrow> bool" where
  "constants_kept p q \<longleftrightarrow> p_assigned_llid q = p_assigned_llid p \<and> p_onu_mac q = p_onu_mac p
     \<and> p_last_request q = p_last_request p \<and> p_config q = p_config p
     \<and> set (p_downstream p) \<subseteq> set (p_downstream q)
     \<and> (p_registered_at q = p_registered_at p \<or> p_registered_at q = None)"

definition timer_moves :: "peer \<Rightarrow> peer \<Rightarrow> bool" where
  "timer_moves p q \<longleftrightarrow>
     p_mpcp_state q = p_mpcp_state p \<and> (p_mpcp_state p \<noteq> Mpcp_Discovery \<longrightarrow> p_llid_assignment q = p_llid_assignment p)
     \<or> p_registered_at p \<noteq> None \<and> p_mpcp_state q = Mpcp_Idle
     \<or> p_mpcp_state p = Mpcp_Discovery \<and> p_mpcp_state q = Mpcp_WaitAck \<and> granted_to p q"

lemma constants_kept_refl: "constants_kept p p"
  by (simp add: constants_kept_def)

lemma constants_kept_trans: "constants_kept p q \<Longrightarrow> constants_kept q r \<Longrightarrow> constants_kept p r"
  by (auto simp: constants_kept_def)

lemma granted_to_cong:
  "constants_kept p q \<Longrightarrow> granted_to q r = granted_to p r"
  by (simp add: constants_kept_def granted_to_def build_register_def mpcp_header_of_def Let_def)

lemma granted_to_later:
  assumes "granted_to p q" "constants_kept q r" "p_llid_assignment r = p_llid_assignment q"
  shows "granted_to p r"
proof -
  have "set (p_downstream q) \<subseteq> set (p_downstream r)" using assms(2) by (simp add: constants_kept_def)
  then show ?thesis using assms(1,3) by (auto simp: granted_to_def)
qed

lemma timer_moves_trans:
  assumes "timer_moves p q" "timer_moves q r" "constants_kept p q" "constants_kept q r"
  shows "timer_moves p r"
proof -
  have reg: "p_registered_at q \<noteq> None \<Longrightarrow> p_registered_at p \<noteq> None"
    using assms(3) by (auto simp: constants_kept_def)
  consider (stays) "p_mpcp_state q = p_mpcp_state p"
      "p_mpcp_state p \<noteq> Mpcp_Discovery \<longrightarrow> p_llid_assignment q = p_llid_assignment p"
    | (down) "p_registered_at p \<noteq> None" "p_mpcp_state q = Mpcp_Idle"
    | (granted) "p_mpcp_state p = Mpcp_Discovery" "p_mpcp_state q = Mpcp_WaitAck" "granted_to p q"
    using assms(1) unfolding timer_moves_def by argo
  then show ?thesis
  proof cases
    case stays
    then show ?thesis
      using assms(2) reg granted_to_cong [OF assms(3), of r] unfolding timer_moves_def by auto
  next
    case down
    then show ?thesis using assms(2) unfolding timer_moves_def by auto
  next
    case granted
    then show ?thesis
      using assms(2) reg granted_to_later [OF granted(3) assms(4)] unfolding timer_moves_def by auto
  qed
qed

lemma fire_kept: "constants_kept p (fire e p)"
proof -
  have "p_registered_at (fire e p) = p_registered_at p \<or> p_registered_at (fire e p) = None"
    using fire_registration(1) [of e p] fire_registration(3) [of p]
    by (cases e) (auto simp: same_registration_def)
  then show ?thesis using fire_keeps_frames [of p e] by (simp add: constants_kept_def)
qed

lemma fire_moves: "timer_moves p (fire e p)"
proof (cases e)
  case T_RegisterResponse
  have "granted_to p (fire T_RegisterResponse p)" if "p_mpcp_state p = Mpcp_Discovery" "\<not> p_settling p"
    using that build_register_now [of RF_Ack p]
    by (auto simp: granted_to_def answer_registration_def Let_def intro!: exI [of _ "p_now p"])
  then show ?thesis
    using T_RegisterResponse fire_registration(2) [of p] fire_assignment [of p e]
    by (auto simp: timer_moves_def)
next
  case T_Lifetime
  then show ?thesis by (simp add: timer_moves_def)
qed (use fire_registration(1) [of e p] fire_assignment [of p e] in \<open>auto simp: timer_moves_def same_registration_def\<close>)

lemma clock_moves:
  "timer_moves (p\<lparr>p_sched := s, p_now := t\<rparr>) q = timer_moves p q"
  "constants_kept (p\<lparr>p_sched := s, p_now := t\<rparr>) q = constants_kept p q"
  by (simp_all add: timer_moves_def constants_kept_def granted_to_def build_register_def mpcp_header_of_def Let_def)

lemma advance_moves:
  assumes "advance_loop t p = Some q"
  shows "timer_moves p q \<and> constants_kept p q"
  using assms
proof (induction rule: advance_loop_induct)
  case (stops p s)
  then show ?case by (simp add: timer_moves_def constants_kept_def)
next
  case (fires p s u e q)
  let ?p = "p\<lparr>p_sched := s, p_now := u\<rparr>"
  have "timer_moves ?p (fire e ?p)" "constants_kept ?p (fire e ?p)" by (rule fire_moves fire_kept)+
  then have "timer_moves ?p q" "constants_kept ?p q"
    using fires(3) timer_moves_trans constants_kept_trans by blast+
  then show ?case by (simp add: clock_moves)
qed

text \<open>What a frame does to the registration\<close>

lemma containers_registration: "same_registration p (fold on_container cs p)"
proof (induction cs arbitrary: p)
  case (Cons c cs)
  have "same_registration p (on_container c p)" by (simp add: on_container_def same_registration_def Let_def)
  then show ?case using Cons [of "on_container c p"] by (simp add: same_registration_def)
qed (simp add: same_registration_def)

lemma oam_registration: "same_registration p (on_oam frame p)"
  using containers_registration
  by (simp add: on_oam_def on_extended_def Let_def split: option.split) (simp add: same_registration_def)

lemma ack_registration:
  "mh_opcode (pdu_header pdu) = Op_RegisterAck \<Longrightarrow>
   p_mpcp_state (on_ack pdu p) =
     (if p_mpcp_state p = Mpcp_WaitAck
         \<and> (case pdu_body pdu of
              Body_RegisterAck flag port sync \<Rightarrow> acknowledges flag \<and> port = p_assigned_llid p \<and> sync = SYNC_TIME_TQ
            | _ \<Rightarrow> False)
      then Mpcp_Registered else p_mpcp_state p)"
  by (simp add: on_ack_def on_register_ack_def Let_def split: mpcp_body.split)

lemma request_registration:
  "p_mpcp_state (on_register_req pdu p) =
     (case pdu_body pdu of
        Body_RegisterReq b \<Rightarrow>
          if rr_flag b = RR_Deregister then (if p_registered_at p = None then p_mpcp_state p else Mpcp_Idle)
          else if \<not> p_settling p \<and> p_mpcp_state p = Mpcp_Idle
              \<and> pc_ignored_register_requests (p_config p) < p_register_requests_seen p + 1 then Mpcp_Discovery
          else p_mpcp_state p
      | _ \<Rightarrow> p_mpcp_state p)"
  by (auto simp: on_register_req_def Let_def linorder_not_le split: mpcp_body.split)

lemma deliver_registration:
  "p_mpcp_state (deliver frame t p) =
     (if p_mpcp_state p = Mpcp_WaitAck \<and> confirms (p_assigned_llid p) frame then Mpcp_Registered
      else if p_registered_at p \<noteq> None \<and> asks (\<lambda>f. f = RR_Deregister) frame then Mpcp_Idle
      else if p_mpcp_state p = Mpcp_Idle \<and> asks (\<lambda>f. f \<noteq> RR_Deregister) frame \<and> \<not> p_settling p
          \<and> pc_ignored_register_requests (p_config p) < p_register_requests_seen p + 1 then Mpcp_Discovery
      else p_mpcp_state p)"
proof (cases "ether_type_of_frame frame")
  case (Some et)
  show ?thesis
  proof (cases "et = ET_Mpcp")
    case True
    show ?thesis
    proof (cases "mpcp_parse frame")
      case (Some pdu)
      show ?thesis
        using \<open>ether_type_of_frame frame = Some et\<close> True Some
        by (auto simp: deliver_def on_mpcp_def asks_def confirms_def ack_registration request_registration Let_def
            split: mpcp_body.split)
    qed (use Some True in \<open>simp add: deliver_def on_mpcp_def asks_def confirms_def Let_def\<close>)
  next
    case False
    then show ?thesis
      using Some oam_registration
      by (simp add: deliver_def asks_def confirms_def same_registration_def Let_def split: ether_type.split)
  qed
qed (simp add: deliver_def asks_def confirms_def Let_def)

text \<open>C15. The registration moves only along the handshake. Running the timers, the state stays; or a REGISTER that
  grants the assigned LLID to the ONU that asked goes out and the OLT waits for its acknowledgement; or
  an existing registration is torn down. Delivering a frame, the state moves to registered exactly when
  the OLT waits and the frame acknowledges the LLID and the sync time it granted, to discovery
  exactly on a request in the idle state past the windows it ignores, outside of settling, and back to
  idle exactly on a request to deregister.\<close>

theorem registration_moves:
  assumes "advance_to t p = Some q"
  shows "(p_mpcp_state q = p_mpcp_state p
        \<or> p_mpcp_state p = Mpcp_Discovery \<and> p_mpcp_state q = Mpcp_WaitAck \<and> granted_to p q
        \<or> p_registered_at p \<noteq> None \<and> p_mpcp_state q = Mpcp_Idle)
    \<and> p_mpcp_state (deliver frame u p) =
        (if p_mpcp_state p = Mpcp_WaitAck \<and> confirms (p_assigned_llid p) frame then Mpcp_Registered
         else if p_registered_at p \<noteq> None \<and> asks (\<lambda>f. f = RR_Deregister) frame then Mpcp_Idle
         else if p_mpcp_state p = Mpcp_Idle \<and> asks (\<lambda>f. f \<noteq> RR_Deregister) frame \<and> \<not> p_settling p
             \<and> pc_ignored_register_requests (p_config p) < p_register_requests_seen p + 1 then Mpcp_Discovery
         else p_mpcp_state p)"
proof -
  obtain p' where run: "advance_loop t p = Some p'" and q: "q = p'\<lparr>p_now := max (p_now p') t\<rparr>"
    using assms by (auto simp: advance_to_def)
  have "granted_to p q = granted_to p p'" by (simp add: q granted_to_def)
  then show ?thesis using advance_moves [OF run] deliver_registration by (auto simp: q timer_moves_def)
qed

theorem registration_moves_witness:
  "p_mpcp_state (deliver [] 9 (peer_new config_default)) = Mpcp_Idle"
proof -
  have "advance_to 7 (peer_new config_default) = Some ((peer_new config_default)\<lparr>p_now := 7\<rparr>)"
    by (simp add: advance_to_def advance_loop_None peer_new_def sched_new_def pop_due_def advance_loop.simps)
  from registration_moves [OF this, of "[]" 9] show ?thesis
    by (simp add: peer_new_def asks_def confirms_def ether_type_of_frame_def get_half_def)
qed

section \<open>A lost acknowledgement\<close>

text \<open>The arrivals of \<open>Link::advance_to\<close>: the OLT is run up to each frame and takes it.\<close>

fun serve :: "(wire_instant \<times> frame) list \<Rightarrow> peer \<Rightarrow> peer option" where
  "serve [] p = Some p"
| "serve ((t, frame) # xs) p = Option.bind (advance_to t p) (\<lambda>q. serve xs (deliver frame t q))"

lemma ack_kept:
  "p_assigned_llid (on_ack pdu p) = p_assigned_llid p" "p_config (on_ack pdu p) = p_config p"
  "p_mpcp_state p \<noteq> Mpcp_WaitAck \<Longrightarrow> p_registered_at (on_ack pdu p) = p_registered_at p"
  by (simp_all add: on_ack_def on_register_ack_def Let_def split: mpcp_body.split)

lemma request_kept:
  "p_assigned_llid (on_register_req pdu p) = p_assigned_llid p" "p_config (on_register_req pdu p) = p_config p"
  "p_registered_at (on_register_req pdu p) \<in> {p_registered_at p, None}"
  by (auto simp: on_register_req_def Let_def split: mpcp_body.split)

lemma deliver_llid:
  "p_assigned_llid (deliver frame t p) = p_assigned_llid p" "p_config (deliver frame t p) = p_config p"
  using oam_registration [unfolded same_registration_def]
  by (simp_all add: deliver_def on_mpcp_def ack_kept request_kept Let_def split: option.split ether_type.split)

text \<open>The instant of registration is set by an accepted acknowledgement only.\<close>

lemma deliver_registered_at:
  assumes "p_mpcp_state (deliver frame t p) \<noteq> Mpcp_Registered" "p_registered_at p = None"
  shows "p_registered_at (deliver frame t p) = None"
proof (cases "ether_type_of_frame frame")
  case (Some et)
  show ?thesis
  proof (cases et)
    case ET_Mpcp
    show ?thesis
    proof (cases "mpcp_parse frame")
      case (Some pdu)
      have "p_registered_at (on_ack pdu q) = None"
        if "p_mpcp_state (on_ack pdu q) \<noteq> Mpcp_Registered" "p_registered_at q = None" for q
        using that by (auto simp: on_ack_def on_register_ack_def Let_def split: mpcp_body.splits if_splits)
      moreover have "p_registered_at (on_register_req pdu q) = None" if "p_registered_at q = None" for q
        using request_kept(3) [of pdu q] that by auto
      ultimately show ?thesis
        using assms \<open>ether_type_of_frame frame = Some et\<close> ET_Mpcp Some
        by (auto simp: deliver_def on_mpcp_def Let_def split: if_splits)
    qed (use Some ET_Mpcp assms in \<open>simp add: deliver_def on_mpcp_def Let_def\<close>)
  qed (use Some assms oam_registration in \<open>simp_all add: deliver_def same_registration_def Let_def\<close>)
qed (use assms in \<open>simp add: deliver_def Let_def\<close>)

lemma advance_waiting:
  assumes "advance_to t p = Some q" "p_mpcp_state p = Mpcp_WaitAck" "p_registered_at p = None"
  shows "p_mpcp_state q = Mpcp_WaitAck \<and> p_registered_at q = None \<and> p_assigned_llid q = p_assigned_llid p
    \<and> p_llid_assignment q = p_llid_assignment p \<and> p_config q = p_config p"
proof -
  obtain p' where run: "advance_loop t p = Some p'" and q: "q = p'\<lparr>p_now := max (p_now p') t\<rparr>"
    using assms(1) by (auto simp: advance_to_def)
  show ?thesis using advance_moves [OF run] assms(2,3) by (auto simp: q timer_moves_def constants_kept_def)
qed

lemma serve_returns:
  "\<forall>(t, frame) \<in> set xs. runs_until t (p_config p) \<Longrightarrow> \<exists>q. serve xs p = Some q"
proof (induction xs p rule: serve.induct)
  case (2 t frame xs p)
  obtain p' where run: "advance_loop t p = Some p'" using advance_loop_ends 2(2) by fastforce
  have "p_config p' = p_config p" using advance_moves [OF run] by (simp add: constants_kept_def)
  then show ?case
    using 2(1) [of "p'\<lparr>p_now := max (p_now p') t\<rparr>"] 2(2) run by (simp add: advance_to_def deliver_llid)
qed simp

text \<open>C23. A grant whose REGISTER_ACK is lost or refused wedges the OLT: no timer runs out on it, so however long
  the host goes on and whatever the ONU sends, requests to register or to deregister included, the OLT
  stays waiting and grants nothing, until the acknowledgement of that very grant arrives.\<close>

theorem lost_ack_wedges:
  assumes "p_mpcp_state p = Mpcp_WaitAck" "p_registered_at p = None"
    and "\<forall>(t, frame) \<in> set xs. runs_until t (p_config p) \<and> \<not> confirms (p_assigned_llid p) frame"
  shows "\<exists>q. serve xs p = Some q \<and> p_mpcp_state q = Mpcp_WaitAck \<and> p_registered_at q = None"
proof -
  obtain q where "serve xs p = Some q" using serve_returns [of xs p] assms(3) by fastforce
  moreover have "p_mpcp_state q = Mpcp_WaitAck \<and> p_registered_at q = None"
    using calculation assms
  proof (induction xs p rule: serve.induct)
    case (2 t frame xs p)
    obtain p1 where p1: "advance_to t p = Some p1" "serve xs (deliver frame t p1) = Some q"
      using 2(2) by (auto simp: bind_eq_Some_conv)
    note waiting = advance_waiting [OF p1(1) 2(3,4)]
    have "\<not> confirms (p_assigned_llid p1) frame" using 2(5) waiting by simp
    then have state: "p_mpcp_state (deliver frame t p1) = Mpcp_WaitAck"
      using waiting by (simp add: deliver_registration)
    show ?case
    proof (rule 2(1) [OF p1 state])
      show "p_registered_at (deliver frame t p1) = None"
        by (rule deliver_registered_at) (use state waiting in simp_all)
      show "\<forall>(t', frame') \<in> set xs. runs_until t' (p_config (deliver frame t p1))
          \<and> \<not> confirms (p_assigned_llid (deliver frame t p1)) frame'"
        using 2(5) waiting deliver_llid [of frame t p1] by simp
    qed
  qed simp
  ultimately show ?thesis by blast
qed

text \<open>A request to register, ten minutes into the wait\<close>

theorem lost_ack_wedges_witness:
  "\<exists>q. serve [(from_ms 600000, mpcp_register_req
       \<lparr>mh_dst = MPCP_MULTICAST, mh_src = MAC_ZERO, mh_opcode = Op_RegisterReq, mh_timestamp = 0\<rparr>
       \<lparr>rr_flag = RR_Register, rr_pending_grants = 0, rr_discovery_information = 0, rr_laser_on = 32, rr_laser_off = 32\<rparr>)]
     ((peer_new config_default)\<lparr>p_mpcp_state := Mpcp_WaitAck\<rparr>) = Some q
     \<and> p_mpcp_state q = Mpcp_WaitAck \<and> p_registered_at q = None"
proof (rule lost_ack_wedges)
  have "RR_Register \<in> range register_req_flag_from"
    by (rule range_eqI [where x = 1]) (simp add: register_req_flag_from_def)
  then show "\<forall>(t, frame) \<in> set [(from_ms 600000, mpcp_register_req
       \<lparr>mh_dst = MPCP_MULTICAST, mh_src = MAC_ZERO, mh_opcode = Op_RegisterReq, mh_timestamp = 0\<rparr>
       \<lparr>rr_flag = RR_Register, rr_pending_grants = 0, rr_discovery_information = 0, rr_laser_on = 32, rr_laser_off = 32\<rparr>)].
      runs_until t (p_config ((peer_new config_default)\<lparr>p_mpcp_state := Mpcp_WaitAck\<rparr>))
      \<and> \<not> confirms (p_assigned_llid ((peer_new config_default)\<lparr>p_mpcp_state := Mpcp_WaitAck\<rparr>)) frame"
    by (simp add: confirms_def parse_register_req) (simp add: peer_new_def config_default_def runs_until_def)
qed (simp_all add: peer_new_def)

end
