(* ===== verification/Olt_Link.thy ===== *)
theory Olt_Link
  imports Olt_Fibre Olt_Registration
begin

text \<open>
  \<open>crates/epon-olt/src/link.rs\<close>: the OLT with a fibre either side of it. \<open>None\<close> is a loop that does not end
  or a division by a line rate of 0.
\<close>

record link =
  lk_peer :: peer
  lk_downstream :: fibre
  lk_upstream :: fibre

definition link_new :: "peer_config \<Rightarrow> fibre_config \<Rightarrow> fibre_config \<Rightarrow> link" where
  "link_new c down up =
     \<lparr>lk_peer = peer_new c, lk_downstream = fibre_new down, lk_upstream = fibre_new up\<rparr>"

definition link_default :: link where
  "link_default = link_new config_default config_downstream config_upstream"

lemma pop_arrived_shorter:
  "pop_arrived now f = (Some x, f') \<Longrightarrow> length (fi_queue f') < length (fi_queue f)"
  by (auto simp: pop_arrived_def split: list.splits if_splits)

text \<open>The arrivals of \<open>advance_to\<close>\<close>

function link_arrivals :: "wire_instant \<Rightarrow> link \<Rightarrow> link option" where
  "link_arrivals now l =
     (case pop_arrived now (lk_upstream l) of
        (None, u) \<Rightarrow> Some (l\<lparr>lk_upstream := u\<rparr>)
      | (Some landed, u) \<Rightarrow>
          Option.bind (advance_to (arrives_at landed) (lk_peer l)) (\<lambda>p.
            link_arrivals now (l\<lparr>lk_upstream := u, lk_peer := deliver (if_frame landed) (arrives_at landed) p\<rparr>)))"
  by pat_completeness auto

termination
  by (relation "measure (\<lambda>(now, l). length (fi_queue (lk_upstream l)))")
    (auto dest: pop_arrived_shorter [OF sym])

declare link_arrivals.simps [simp del]

fun send_all :: "emitted list \<Rightarrow> fibre \<Rightarrow> fibre option" where
  "send_all [] f = Some f"
| "send_all (e # es) f = Option.bind (fibre_send (em_frame e) (em_at e) f) (\<lambda>(_, f'). send_all es f')"

definition link_advance_to :: "wire_instant \<Rightarrow> link \<Rightarrow> link option" where
  "link_advance_to now l0 =
     Option.bind (link_arrivals now l0) (\<lambda>l.
     Option.bind (advance_to now (lk_peer l)) (\<lambda>p.
       case take_downstream p of
         (outs, p') \<Rightarrow> map_option (\<lambda>d. l\<lparr>lk_peer := p', lk_downstream := d\<rparr>) (send_all outs (lk_downstream l))))"

definition send_upstream :: "frame \<Rightarrow> wire_instant \<Rightarrow> link \<Rightarrow> (bool \<times> link) option" where
  "send_upstream frame t l =
     map_option (\<lambda>(accepted, u). (accepted, l\<lparr>lk_upstream := u\<rparr>)) (fibre_send frame t (lk_upstream l))"

definition poll_downstream :: "wire_instant \<Rightarrow> link \<Rightarrow> in_flight option \<times> link" where
  "poll_downstream now l =
     (case pop_arrived now (lk_downstream l) of (r, d) \<Rightarrow> (r, l\<lparr>lk_downstream := d\<rparr>))"

definition link_set_link :: "bool \<Rightarrow> wire_instant \<Rightarrow> link \<Rightarrow> link" where
  "link_set_link up t l =
     (let l1 = l\<lparr>lk_peer := set_link up t (lk_peer l)\<rparr>
      in if up then l1
         else l1\<lparr>lk_downstream := fibre_clear (lk_downstream l1), lk_upstream := fibre_clear (lk_upstream l1)\<rparr>)"

definition link_dropped :: "link \<Rightarrow> u64" where
  "link_dropped l = fi_dropped_full (lk_downstream l) + fi_dropped_full (lk_upstream l)"

section \<open>A link that advances\<close>

text \<open>The frames that have landed upstream by an instant\<close>

definition landed_by :: "wire_instant \<Rightarrow> fibre \<Rightarrow> (wire_instant \<times> frame) list" where
  "landed_by now f = map (\<lambda>x. (arrives_at x, if_frame x)) (takeWhile (\<lambda>x. arrives_at x \<le> now) (fi_queue f))"

lemma link_arrivals_serve:
  "map_option lk_peer (link_arrivals now l) = serve (landed_by now (lk_upstream l)) (lk_peer l)"
proof (induction now l rule: link_arrivals.induct)
  case (1 now l)
  show ?case
  proof (cases "fi_queue (lk_upstream l)")
    case Nil
    then show ?thesis by (subst link_arrivals.simps) (simp add: pop_arrived_def landed_by_def)
  next
    case (Cons x xs)
    show ?thesis
    proof (cases "arrives_at x \<le> now")
      case True
      let ?u = "(lk_upstream l)\<lparr>fi_delivered := fi_delivered (lk_upstream l) + 1, fi_queue := xs\<rparr>"
      have pop: "pop_arrived now (lk_upstream l) = (Some x, ?u)" using Cons True by (simp add: pop_arrived_def)
      show ?thesis
      proof (cases "advance_to (arrives_at x) (lk_peer l)")
        case None
        then show ?thesis using Cons True by (subst link_arrivals.simps) (simp add: pop landed_by_def)
      next
        case (Some p)
        from 1 [OF pop [symmetric] refl Some] show ?thesis
          using Cons True Some by (subst link_arrivals.simps) (simp add: pop landed_by_def)
      qed
    qed (use Cons in \<open>subst link_arrivals.simps, simp add: pop_arrived_def landed_by_def\<close>)
  qed
qed

lemma link_arrivals_downstream:
  "link_arrivals now l = Some l' \<Longrightarrow> lk_downstream l' = lk_downstream l
     \<and> fi_queue (lk_upstream l') = dropWhile (\<lambda>x. arrives_at x \<le> now) (fi_queue (lk_upstream l))"
proof (induction now l rule: link_arrivals.induct)
  case (1 now l)
  obtain r u where pop: "pop_arrived now (lk_upstream l) = (r, u)" by (cases "pop_arrived now (lk_upstream l)")
  show ?case
  proof (cases r)
    case None
    then show ?thesis
      using 1(2) pop by (subst (asm) link_arrivals.simps) (auto simp: pop_arrived_def split: list.splits if_splits)
  next
    case (Some x)
    then obtain p where p: "advance_to (arrives_at x) (lk_peer l) = Some p"
      "link_arrivals now (l\<lparr>lk_upstream := u, lk_peer := deliver (if_frame x) (arrives_at x) p\<rparr>) = Some l'"
      using 1(2) pop by (subst (asm) link_arrivals.simps) (auto simp: bind_eq_Some_conv)
    from 1(1) [OF pop [symmetric] Some p(1) p(2)] show ?thesis
      using pop Some by (auto simp: pop_arrived_def split: list.splits if_splits)
  qed
qed

lemma serve_config:
  "serve xs p = Some q \<Longrightarrow> p_config q = p_config p"
proof (induction xs p rule: serve.induct)
  case (2 t frame xs p)
  then obtain p1 where p1: "advance_to t p = Some p1" "serve xs (deliver frame t p1) = Some q"
    by (auto simp: bind_eq_Some_conv)
  then obtain p' where "advance_loop t p = Some p'" "p1 = p'\<lparr>p_now := max (p_now p') t\<rparr>" by (auto simp: advance_to_def)
  then have "p_config p1 = p_config p" using advance_moves by (fastforce simp: constants_kept_def)
  then show ?case using 2(1) [OF p1] deliver_llid(2) by simp
qed simp

lemma runs_until_earlier: "runs_until b c \<Longrightarrow> a \<le> b \<Longrightarrow> runs_until a c"
  by (auto simp: runs_until_def word_le_nat_alt)

lemma send_all_returns:
  "fc_rate_bps (fi_config f) \<noteq> 0 \<Longrightarrow> line_ok f \<Longrightarrow>
   \<exists>g. send_all es f = Some g \<and> line_ok g \<and> fi_config g = fi_config f"
proof (induction es f rule: send_all.induct)
  case (2 e es f)
  obtain acc f' where send: "fibre_send (em_frame e) (em_at e) f = Some (acc, f')" using send_returns [OF 2(2)] by blast
  have "fi_config f' = fi_config f" by (rule send_cases [OF send]) simp_all
  then show ?case using 2 send send_ok [OF 2(3) send] by fastforce
qed simp



end
