(* ===== verification/Olt_Onu.thy ===== *)
theory Olt_Onu
  imports Olt_Mpcp Olt_Extended
begin

text \<open>
  \<open>crates/epon-olt/src/onu.rs\<close>: the minimal ONU that exercises the OLT.
\<close>

unbundle bit_operations_syntax

abbreviation KEEPALIVE_INTERVAL :: wire_duration where "KEEPALIVE_INTERVAL \<equiv> from_ms 1000"
abbreviation WINDOWS_SUPPORTED :: u16 where "WINDOWS_SUPPORTED \<equiv> 0x0011"
abbreviation LASER_TQ :: u8 where "LASER_TQ \<equiv> 32"
abbreviation REQUEST_DELAY :: wire_duration where "REQUEST_DELAY \<equiv> from_us 200"

record onu_counters =
  o_gates_seen :: u64
  o_gates_normal_seen :: u64
  o_registers_seen :: u64
  o_deregisters_seen :: u64
  o_oam_seen :: u64
  o_extended_seen :: u64
  o_requests_sent :: u64
  o_acks_sent :: u64

record onu =
  onu_mac :: mac_addr
  onu_llid :: "llid option"
  onu_discovery :: discovery
  onu_next_keepalive :: "wire_instant option"
  onu_discovery_information :: u16
  onu_out :: "(wire_instant \<times> frame) list"
  onu_counters :: onu_counters
  onu_registered_at :: "wire_instant option"
  onu_deregistered_at :: "wire_instant option"
  onu_registration_lives :: "wire_duration list"

definition onu_new :: "mac_addr \<Rightarrow> onu" where
  "onu_new mac =
     \<lparr>onu_mac = mac, onu_llid = None, onu_discovery = discovery_default, onu_next_keepalive = None,
      onu_discovery_information = 0, onu_out = [],
      onu_counters = \<lparr>o_gates_seen = 0, o_gates_normal_seen = 0, o_registers_seen = 0, o_deregisters_seen = 0,
                      o_oam_seen = 0, o_extended_seen = 0, o_requests_sent = 0, o_acks_sent = 0\<rparr>,
      onu_registered_at = None, onu_deregistered_at = None, onu_registration_lives = []\<rparr>"

abbreviation tally :: "(onu_counters \<Rightarrow> onu_counters) \<Rightarrow> onu \<Rightarrow> onu" where
  "tally f s \<equiv> onu_counters_update f s"

definition onu_take_output :: "onu \<Rightarrow> (wire_instant \<times> frame) list \<times> onu" where
  "onu_take_output s = (onu_out s, s\<lparr>onu_out := []\<rparr>)"

definition onu_build_info :: "onu \<Rightarrow> frame" where
  "onu_build_info s =
     oam_information SLOW_PROTOCOL_MULTICAST (onu_mac s) (d_flags (onu_discovery s))
       \<lparr>it_is_local = True, it_oam_version = 0x01, it_revision = 0x0000, it_state = 0x00,
        it_configuration = 0x14, it_max_pdu_size = 0x0600, it_oui = OUI_DPOE, it_vendor_specific = (0, 0, 0, 0)\<rparr>"

text \<open>\<open>None\<close> when the loop does not end\<close>

partial_function (option) onu_advance_to :: "wire_instant \<Rightarrow> onu \<Rightarrow> onu option" where
  "onu_advance_to now s =
     (case onu_next_keepalive s of
        None \<Rightarrow> Some s
      | Some due \<Rightarrow>
          if due \<le> now
          then onu_advance_to now
                 (s\<lparr>onu_out := onu_out s @ [(due, onu_build_info s)], onu_discovery := on_sent (onu_discovery s),
                    onu_next_keepalive := Some (due + KEEPALIVE_INTERVAL)\<rparr>)
          else Some s)"

definition discovery_window :: "frame \<Rightarrow> u16 option" where
  "discovery_window frame = get_half frame 29"

definition onu_request :: "mpcp_pdu \<Rightarrow> onu \<Rightarrow> frame" where
  "onu_request pdu s =
     mpcp_register_req
       \<lparr>mh_dst = MPCP_MULTICAST, mh_src = onu_mac s, mh_opcode = Op_RegisterReq, mh_timestamp = mh_timestamp (pdu_header pdu)\<rparr>
       \<lparr>rr_flag = RR_Register, rr_pending_grants = 0,
        rr_discovery_information = onu_discovery_information s AND WINDOWS_SUPPORTED,
        rr_laser_on = LASER_TQ, rr_laser_off = LASER_TQ\<rparr>"

definition onu_ack :: "mpcp_pdu \<Rightarrow> llid \<Rightarrow> u16 \<Rightarrow> onu \<Rightarrow> frame" where
  "onu_ack pdu l sync_time s =
     mpcp_register_ack
       \<lparr>mh_dst = MPCP_MULTICAST, mh_src = onu_mac s, mh_opcode = Op_RegisterAck, mh_timestamp = mh_timestamp (pdu_header pdu)\<rparr>
       RA_Ack l sync_time"

text \<open>The arms of \<open>on_mpcp\<close>\<close>

definition onu_on_gate :: "frame \<Rightarrow> mpcp_pdu \<Rightarrow> wire_instant \<Rightarrow> onu \<Rightarrow> onu" where
  "onu_on_gate frame pdu t s0 =
     (let s = tally (o_gates_seen_update (\<lambda>n. n + 1)) s0;
          s1 = (case discovery_window frame of None \<Rightarrow> s | Some w \<Rightarrow> s\<lparr>onu_discovery_information := w\<rparr>)
      in if onu_llid s1 \<noteq> None then s1
         else tally (o_requests_sent_update (\<lambda>n. n + 1))
                (s1\<lparr>onu_out := onu_out s1 @ [(t + REQUEST_DELAY, onu_request pdu s1)]\<rparr>))"

definition onu_tear_down :: "wire_instant \<Rightarrow> onu \<Rightarrow> onu" where
  "onu_tear_down t s0 =
     (let s = (tally (o_deregisters_seen_update (\<lambda>n. n + 1)) s0)\<lparr>onu_deregistered_at := Some t\<rparr>;
          s1 = (case onu_registered_at s of
                  None \<Rightarrow> s
                | Some up \<Rightarrow> s\<lparr>onu_registration_lives := onu_registration_lives s @ [instant_sub t up]\<rparr>)
      in s1\<lparr>onu_llid := None, onu_discovery := discovery_default\<rparr>)"

definition onu_on_register :: "mpcp_pdu \<Rightarrow> llid \<Rightarrow> u8 \<Rightarrow> u16 \<Rightarrow> wire_instant \<Rightarrow> onu \<Rightarrow> onu" where
  "onu_on_register pdu l flag sync_time t s0 =
     (let s = tally (o_registers_seen_update (\<lambda>n. n + 1)) s0
      in case register_flag_from flag of
           Some RF_Ack \<Rightarrow>
             (let s1 = s\<lparr>onu_llid := Some l, onu_registered_at := Some t\<rparr>;
                  s2 = tally (o_acks_sent_update (\<lambda>n. n + 1))
                         (s1\<lparr>onu_out := onu_out s1 @ [(t, onu_ack pdu l sync_time s1)]\<rparr>)
              in if onu_next_keepalive s2 = None then s2\<lparr>onu_next_keepalive := Some t\<rparr> else s2)
         | Some RF_Reregister \<Rightarrow> onu_tear_down t s
         | Some RF_Deregister \<Rightarrow> onu_tear_down t s
         | _ \<Rightarrow> s)"

definition onu_on_mpcp :: "frame \<Rightarrow> wire_instant \<Rightarrow> onu \<Rightarrow> onu" where
  "onu_on_mpcp frame t s =
     (case mpcp_parse frame of
        None \<Rightarrow> s
      | Some pdu \<Rightarrow>
          (case pdu_body pdu of
             Body_Gate flags _ \<Rightarrow>
               if \<not> discovery flags then tally (o_gates_normal_seen_update (\<lambda>n. n + 1)) s
               else onu_on_gate frame pdu t s
           | Body_Register l flag sync_time \<Rightarrow> onu_on_register pdu l flag sync_time t s
           | _ \<Rightarrow> s))"

definition onu_on_oam :: "frame \<Rightarrow> wire_instant \<Rightarrow> onu \<Rightarrow> onu" where
  "onu_on_oam frame t s =
     (case ext_parse frame of
        Some _ \<Rightarrow> tally (o_extended_seen_update (\<lambda>n. n + 1)) s
      | None \<Rightarrow>
          (case oam_parse frame of
             None \<Rightarrow> s
           | Some pdu \<Rightarrow>
               (let s1 = tally (o_oam_seen_update (\<lambda>n. n + 1)) s;
                    s2 = s1\<lparr>onu_discovery := (if op_code pdu = Information
                                             then on_peer_information (op_flags pdu) (onu_discovery s1)
                                             else on_peer_flags (op_flags pdu) (onu_discovery s1))\<rparr>
                in if onu_next_keepalive s2 = None then s2\<lparr>onu_next_keepalive := Some t\<rparr> else s2)))"

definition onu_deliver :: "frame \<Rightarrow> wire_instant \<Rightarrow> onu \<Rightarrow> onu" where
  "onu_deliver frame t s =
     (case ether_type_of_frame frame of
        Some ET_Mpcp \<Rightarrow> onu_on_mpcp frame t s
      | Some ET_SlowProtocol \<Rightarrow> onu_on_oam frame t s
      | _ \<Rightarrow> s)"

end
