(* ===== verification/Olt_Handshake.thy ===== *)
theory Olt_Handshake
  imports Olt_Link Olt_Onu
begin

text \<open>
  The OLT of \<open>peer.rs\<close> and the ONU of \<open>onu.rs\<close> together: the handshake that registers an ONU completes.
  What the OLT needs of its scheduler comes from the contract \<open>timer_queue\<close>.
\<close>

section \<open>A request is answered\<close>

lemma sched_ok_less: "sched_ok m s \<Longrightarrow> n \<le> m \<Longrightarrow> sched_ok n s"
  unfolding sched_ok_def using le_less_trans [OF add_left_mono] by blast

text \<open>An accepted request waits for its instant \<open>u\<close>.\<close>

definition awaiting :: "wire_instant \<Rightarrow> peer \<Rightarrow> bool" where
  "awaiting u p \<longleftrightarrow> p_mpcp_state p = Mpcp_Discovery \<and> \<not> p_settling p \<and> p_registered_at p = None
     \<and> (\<exists>r. armed_timers (p_sched p) T_RegisterResponse = Some (u, r))"

lemma entered_sched:
  assumes "sched_ok (Suc n) (p_sched p)"
  shows "sched_ok n (p_sched (note_discovery_change was p))"
    and "armed_timers (p_sched (note_discovery_change was p)) T_RegisterResponse = armed_timers (p_sched p) T_RegisterResponse"
  using sq.arm_invar [OF assms] sq.disarm_invar [OF assms] sq.arm_armed [OF assms] sq.disarm_armed [OF assms]
    sched_ok_less [OF assms, of n]
  by (simp_all add: note_discovery_change_def on_discovery_entered_def Let_def)

text \<open>Another timer uses at most two armings and leaves the request waiting.\<close>

lemma fire_awaiting:
  assumes "sched_ok (Suc (Suc n)) (p_sched p)" "awaiting u p" "e \<noteq> T_RegisterResponse"
  shows "sched_ok n (p_sched (fire e p)) \<and> awaiting u (fire e p)"
proof -
  have n: "sched_ok (Suc n) (p_sched p)" "sched_ok n (p_sched p)" using sched_ok_less [OF assms(1)] by simp_all
  note arm = sched_ok_less [OF sq.arm_invar [OF assms(1)]] sq.arm_armed [OF assms(1)]
  show ?thesis
  proof (cases e)
    case T_Gate
    then show ?thesis
      using assms(2) arm by (simp add: awaiting_def fire_gate_def arm_in_def Let_def)
  next
    case T_NormalGate
    then show ?thesis
      using assms(2) n by (simp add: awaiting_def fire_normal_gate_def)
  next
    case T_AttributePoll
    then show ?thesis
      using assms(2) arm by (simp add: awaiting_def fire_attribute_poll_def poll_next_attribute_def arm_in_def Let_def)
  next
    case T_Keepalive
    define q where "q = note_discovery_change (d_state (p_discovery p))
      ((bump (oam_keepalives_sent_update (\<lambda>n. n + 1)) (emit (build_oam_info p) p))\<lparr>p_discovery := on_sent (p_discovery p)\<rparr>)"
    have q: "sched_ok (Suc n) (p_sched q)" "armed_timers (p_sched q) T_RegisterResponse = armed_timers (p_sched p) T_RegisterResponse"
      unfolding q_def by (rule entered_sched(1), simp add: assms(1)) (subst entered_sched(2) [of "Suc n"], simp_all add: assms(1))
    have fields: "p_mpcp_state q = p_mpcp_state p" "p_settling q = p_settling p" "p_registered_at q = p_registered_at p"
      by (simp_all add: q_def)
    have "fire T_Keepalive p = on_sched (arm_in T_Keepalive (p_now q) (pc_oam_interval (p_config q))) q"
      by (simp add: fire_keepalive_def q_def Let_def)
    then show ?thesis
      using T_Keepalive assms(2) q sq.arm_invar [OF q(1)] sq.arm_armed [OF q(1)] fields
      by (simp add: awaiting_def arm_in_def)
  next
    case T_Lifetime
    then show ?thesis using assms(2) n by (simp add: awaiting_def tear_down_registration_def)
  qed (use assms n in \<open>simp_all add: awaiting_def\<close>)
qed

lemma loop_answers:
  assumes "advance_loop now p = Some q"
  shows "runs_until now (p_config p) \<and> sched_ok (2 * work now (p_sched p)) (p_sched p) \<and> awaiting u p \<and> u \<le> now
    \<longrightarrow> p_mpcp_state q = Mpcp_WaitAck"
  using assms
proof (induction rule: advance_loop_induct)
  case (stops p s)
  show ?case
  proof
    assume a: "runs_until now (p_config p) \<and> sched_ok (2 * work now (p_sched p)) (p_sched p) \<and> awaiting u p \<and> u \<le> now"
    then have "now < u" using sq.pop_None [of _ "p_sched p" now] stops by (auto simp: awaiting_def)
    then show "p_mpcp_state (p\<lparr>p_sched := s\<rparr>) = Mpcp_WaitAck" using a by auto
  qed
next
  case (fires p s t e q)
  let ?p = "p\<lparr>p_sched := s, p_now := t\<rparr>"
  show ?case
  proof
    assume a: "runs_until now (p_config p) \<and> sched_ok (2 * work now (p_sched p)) (p_sched p) \<and> awaiting u p \<and> u \<le> now"
    then have ok: "sched_ok (2 * work now (p_sched p)) (p_sched p)" and aw: "awaiting u p" by simp_all
    have s: "sched_ok (2 * work now (p_sched p)) s" "armed_timers s = (armed_timers (p_sched p))(e := None)"
      using sq.pop_invar [OF ok, of now] sq.pop_Some [OF ok, of now t e] fires(1) by simp_all
    show "p_mpcp_state q = Mpcp_WaitAck"
    proof (cases "e = T_RegisterResponse")
      case True
      have "p_mpcp_state (fire e ?p) = Mpcp_WaitAck" "p_registered_at (fire e ?p) = None"
        using True aw fire_registration(2,3) [of ?p] by (simp_all add: awaiting_def)
      then show ?thesis using advance_moves [OF fires(2)] by (auto simp: timer_moves_def)
    next
      case False
      have aw': "awaiting u ?p" using aw s False by (simp add: awaiting_def)
      have less: "work now (p_sched (fire e ?p)) < work now (p_sched p)"
        using fire_work [of now ?p e] pop_due_work [OF fires(1)] a by simp
      then have "sched_ok (Suc (Suc (2 * work now (p_sched (fire e ?p))))) (p_sched ?p)"
        using sched_ok_less [OF s(1)] by simp
      from fire_awaiting [OF this aw' False] show ?thesis using fires(3) a by simp
    qed
  qed
qed

lemma request_answered:
  assumes "runs_until now (p_config p)" "sched_ok (2 * work now (p_sched p)) (p_sched p)" "awaiting u p" "u \<le> now"
  shows "\<exists>q. advance_to now p = Some q \<and> p_mpcp_state q = Mpcp_WaitAck \<and> granted_to p q"
proof -
  obtain p' where run: "advance_loop now p = Some p'" using advance_loop_ends [OF assms(1)] by blast
  have "p_mpcp_state p' = Mpcp_WaitAck" using loop_answers [OF run, of u] assms by simp
  moreover have "granted_to p p'"
    using advance_moves [OF run] calculation assms(3) by (auto simp: timer_moves_def awaiting_def)
  ultimately show ?thesis using run by (simp add: advance_to_def granted_to_def)
qed

section \<open>The handshake\<close>

text \<open>The frames of the exchange, as the other end reads them\<close>

lemma register_flag_named: "RR_Register \<in> range register_req_flag_from" "RA_Ack \<in> range register_ack_flag_from"
  using range_eqI [of RR_Register register_req_flag_from 1] range_eqI [of RA_Ack register_ack_flag_from 1]
  by (simp_all add: register_req_flag_from_def register_ack_flag_from_def)

lemma mpcp_ether_type: "mpcp_parse f = Some pdu \<Longrightarrow> ether_type_of_frame f = Some ET_Mpcp"
  using parse_None [of f] by auto

lemma parse_build_gate:
  "\<exists>g. mpcp_parse (build_gate p) = Some \<lparr>pdu_header = mpcp_header_of Op_Gate MPCP_MULTICAST p,
      pdu_body = Body_Gate \<lparr>grant_count = GATE_GRANT_COUNT, discovery = True, force_report = 0\<rparr> g\<rparr>"
  unfolding build_gate_def by (subst parse_gate) (simp_all add: mpcp_header_of_def)

lemma parse_build_register:
  "mpcp_parse (build_register fl p) = Some \<lparr>pdu_header = mpcp_header_of Op_Register (p_onu_mac p) p,
      pdu_body = Body_Register (p_assigned_llid p) (register_flag_u8 fl) SYNC_TIME_TQ\<rparr>"
  unfolding build_register_def Let_def by (subst parse_register) (simp_all add: mpcp_header_of_def)

lemma onu_asks:
  assumes "onu_llid s = None"
  shows "\<exists>h. onu_out (onu_deliver (build_gate p) t s) = onu_out s @ [(t + REQUEST_DELAY,
      mpcp_register_req (h\<lparr>mh_src := onu_mac s, mh_opcode := Op_RegisterReq\<rparr>)
        \<lparr>rr_flag = RR_Register, rr_pending_grants = 0,
         rr_discovery_information = pc_discovery_information (p_config p) AND WINDOWS_SUPPORTED,
         rr_laser_on = LASER_TQ, rr_laser_off = LASER_TQ\<rparr>)]
    \<and> onu_mac (onu_deliver (build_gate p) t s) = onu_mac s"
proof -
  obtain g where pdu: "mpcp_parse (build_gate p) = Some \<lparr>pdu_header = mpcp_header_of Op_Gate MPCP_MULTICAST p,
      pdu_body = Body_Gate \<lparr>grant_count = GATE_GRANT_COUNT, discovery = True, force_report = 0\<rparr> g\<rparr>"
    using parse_build_gate by blast
  have w: "discovery_window (build_gate p) = Some (pc_discovery_information (p_config p))"
    unfolding build_gate_def discovery_window_def gate_information by simp
  show ?thesis
    using mpcp_ether_type [OF pdu] pdu w assms
    by (simp add: onu_deliver_def onu_on_mpcp_def onu_on_gate_def onu_request_def Let_def)
      (intro exI [of _ "\<lparr>mh_dst = MPCP_MULTICAST, mh_src = MAC_ZERO, mh_opcode = Op_Gate,
         mh_timestamp = mh_timestamp (mpcp_header_of Op_Gate MPCP_MULTICAST p)\<rparr>"], simp)
qed

lemma onu_acknowledges:
  "\<exists>h. onu_out (onu_deliver (build_register RF_Ack p) t s) = onu_out s @ [(t,
      mpcp_register_ack (h\<lparr>mh_opcode := Op_RegisterAck\<rparr>) RA_Ack (p_assigned_llid p) SYNC_TIME_TQ)]
    \<and> onu_llid (onu_deliver (build_register RF_Ack p) t s) = Some (p_assigned_llid p)"
  using mpcp_ether_type [OF parse_build_register [of RF_Ack p]] parse_build_register [of RF_Ack p]
  by (simp add: onu_deliver_def onu_on_mpcp_def onu_on_register_def onu_ack_def register_flag_from_def Let_def)
    (intro conjI impI exI [of _ "\<lparr>mh_dst = MPCP_MULTICAST, mh_src = onu_mac s, mh_opcode = Op_Gate,
       mh_timestamp = mh_timestamp (mpcp_header_of Op_Register (p_onu_mac p) p)\<rparr>"]; simp)

lemma request_accepted:
  assumes "mpcp_parse r = Some \<lparr>pdu_header = h, pdu_body = Body_RegisterReq b\<rparr>" "mh_opcode h = Op_RegisterReq"
    and "rr_flag b = RR_Register" "p_mpcp_state p = Mpcp_Idle" "\<not> p_settling p"
    and "pc_ignored_register_requests (p_config p) < p_register_requests_seen p + 1"
  shows "p_mpcp_state (deliver r t p) = Mpcp_Discovery \<and> \<not> p_settling (deliver r t p)
    \<and> p_registered_at (deliver r t p) = p_registered_at p \<and> p_onu_mac (deliver r t p) = mh_src h
    \<and> p_last_request (deliver r t p) = Some b
    \<and> p_sched (deliver r t p)
      = arm_at T_RegisterResponse (max (p_now p) t + pc_processing_delay (p_config p)) (p_sched p)"
  using mpcp_ether_type [OF assms(1)] assms
  by (simp add: deliver_def on_mpcp_def on_register_req_def arm_in_def Let_def linorder_not_le [symmetric])

lemma ack_accepted:
  assumes "mpcp_parse a = Some \<lparr>pdu_header = h, pdu_body = Body_RegisterAck RA_Ack (p_assigned_llid p) SYNC_TIME_TQ\<rparr>"
    and "mh_opcode h = Op_RegisterAck" "p_mpcp_state p = Mpcp_WaitAck"
  shows "p_mpcp_state (deliver a t p) = Mpcp_Registered \<and> p_registered_at (deliver a t p) = Some (max (p_now p) t)"
  using mpcp_ether_type [OF assms(1)] assms
  by (simp add: deliver_def on_mpcp_def on_ack_def on_register_ack_def acknowledges_def Let_def)

text \<open>C14. The handshake completes. An OLT that is idle and not settling, past the windows it ignores, and an ONU
  without an LLID register from any state of the rest, at any instants: the ONU answers the OLT's GATE
  with a request for the windows both can use; the OLT takes it, and run past its processing delay, with
  whatever else is due, it sends that ONU a REGISTER; the ONU takes the LLID and acknowledges it; and the
  acknowledgement registers it at the OLT, at the instant it arrives.\<close>

theorem handshake_completes:
  assumes idle: "p_mpcp_state p = Mpcp_Idle" "\<not> p_settling p" "p_registered_at p = None"
    and window: "pc_ignored_register_requests (p_config p) < p_register_requests_seen p + 1"
    and onu: "onu_llid s = None"
    and due: "max (p_now p) t2 + pc_processing_delay (p_config p) \<le> now"
    and clock: "runs_until now (p_config p)"
    and room: "sched_ok (2 * work now (p_sched p) + 3) (p_sched p)"
  shows "\<exists>request p2 u ack.
      onu_out (onu_deliver (build_gate p) t1 s) = onu_out s @ [(t1 + REQUEST_DELAY, request)]
    \<and> advance_to now (deliver request t2 p) = Some p2
    \<and> (let register = build_register RF_Ack ((deliver request t2 p)\<lparr>p_now := u\<rparr>);
           s2 = onu_deliver register t3 (onu_deliver (build_gate p) t1 s)
       in \<lparr>em_at = u, em_frame = register\<rparr> \<in> set (p_downstream p2)
        \<and> map_option (mh_dst \<circ> pdu_header) (mpcp_parse register) = Some (onu_mac s)
        \<and> onu_llid s2 = Some (p_assigned_llid p)
        \<and> last (onu_out s2) = (t3, ack)
        \<and> p_mpcp_state (deliver ack t4 p2) = Mpcp_Registered
        \<and> p_onu_mac p2 = onu_mac s
        \<and> p_registered_at (deliver ack t4 p2) = Some (max (p_now p2) t4))"
proof -
  obtain h where asked: "onu_out (onu_deliver (build_gate p) t1 s) = onu_out s @ [(t1 + REQUEST_DELAY,
      mpcp_register_req (h\<lparr>mh_src := onu_mac s, mh_opcode := Op_RegisterReq\<rparr>)
        \<lparr>rr_flag = RR_Register, rr_pending_grants = 0,
         rr_discovery_information = pc_discovery_information (p_config p) AND WINDOWS_SUPPORTED,
         rr_laser_on = LASER_TQ, rr_laser_off = LASER_TQ\<rparr>)]"
    using onu_asks [OF onu, of p t1] by blast
  define request where "request = mpcp_register_req (h\<lparr>mh_src := onu_mac s, mh_opcode := Op_RegisterReq\<rparr>)
        \<lparr>rr_flag = RR_Register, rr_pending_grants = 0,
         rr_discovery_information = pc_discovery_information (p_config p) AND WINDOWS_SUPPORTED,
         rr_laser_on = LASER_TQ, rr_laser_off = LASER_TQ\<rparr>"
  define p1 where "p1 = deliver request t2 p"
  have "mpcp_parse request = Some \<lparr>pdu_header = h\<lparr>mh_src := onu_mac s, mh_opcode := Op_RegisterReq\<rparr>,
      pdu_body = Body_RegisterReq \<lparr>rr_flag = RR_Register, rr_pending_grants = 0,
         rr_discovery_information = pc_discovery_information (p_config p) AND WINDOWS_SUPPORTED,
         rr_laser_on = LASER_TQ, rr_laser_off = LASER_TQ\<rparr>\<rparr>"
    unfolding request_def by (rule parse_register_req) (simp_all add: register_flag_named)
  note accepted = request_accepted [OF this _ _ idle(1,2) window, of t2, folded p1_def, simplified]
  have config: "p_config p1 = p_config p" "p_assigned_llid p1 = p_assigned_llid p"
    unfolding p1_def by (rule deliver_llid)+
  let ?u = "max (p_now p) t2 + pc_processing_delay (p_config p)"
  have ok: "sched_ok (Suc (2 * work now (p_sched p) + 2)) (p_sched p)"
    using room by (simp add: Suc3_eq_add_3 add.commute)
  have armed: "awaiting ?u p1" using accepted idle sq.arm_armed [OF ok] by (simp add: awaiting_def)
  have "work now (p_sched p1) \<le> work now (p_sched p) + 1" using accepted by (simp add: weight_def)
  then have "sched_ok (2 * work now (p_sched p1)) (p_sched p1)"
    using sched_ok_less [OF sq.arm_invar [OF ok]] accepted by simp
  then obtain p2 where p2: "advance_to now p1 = Some p2" "p_mpcp_state p2 = Mpcp_WaitAck" "granted_to p1 p2"
    using request_answered [OF _ _ armed due] clock config by auto
  then obtain p' where loop: "advance_loop now p1 = Some p'" "p2 = p'\<lparr>p_now := max (p_now p') now\<rparr>"
    by (auto simp: advance_to_def)
  have kept: "p_assigned_llid p2 = p_assigned_llid p" "p_onu_mac p2 = onu_mac s"
    using advance_moves [OF loop(1)] loop(2) accepted config by (simp_all add: constants_kept_def)
  obtain u where u: "\<lparr>em_at = u, em_frame = build_register RF_Ack (p1\<lparr>p_now := u\<rparr>)\<rparr> \<in> set (p_downstream p2)"
    using p2(3) by (auto simp: granted_to_def)
  let ?s1 = "onu_deliver (build_gate p) t1 s"
  obtain g where s2: "onu_out (onu_deliver (build_register RF_Ack (p1\<lparr>p_now := u\<rparr>)) t3 ?s1) = onu_out ?s1 @ [(t3,
      mpcp_register_ack (g\<lparr>mh_opcode := Op_RegisterAck\<rparr>) RA_Ack (p_assigned_llid p) SYNC_TIME_TQ)]"
    "onu_llid (onu_deliver (build_register RF_Ack (p1\<lparr>p_now := u\<rparr>)) t3 ?s1) = Some (p_assigned_llid p)"
    using onu_acknowledges [of "p1\<lparr>p_now := u\<rparr>" t3 ?s1] config by auto
  define ack where "ack = mpcp_register_ack (g\<lparr>mh_opcode := Op_RegisterAck\<rparr>) RA_Ack (p_assigned_llid p) SYNC_TIME_TQ"
  have "mpcp_parse ack = Some \<lparr>pdu_header = g\<lparr>mh_opcode := Op_RegisterAck\<rparr>,
      pdu_body = Body_RegisterAck RA_Ack (p_assigned_llid p2) SYNC_TIME_TQ\<rparr>"
    unfolding ack_def kept by (rule parse_register_ack) (simp_all add: register_flag_named)
  note registered = ack_accepted [OF this _ p2(2), of t4, simplified]
  have dst: "map_option (mh_dst \<circ> pdu_header) (mpcp_parse (build_register RF_Ack (p1\<lparr>p_now := u\<rparr>))) = Some (onu_mac s)"
    using accepted by (simp add: parse_build_register mpcp_header_of_def)
  show ?thesis
    using asked [folded request_def] p2(1) u dst s2 [folded ack_def] registered kept(2)
    unfolding p1_def Let_def by (intro exI [of _ request] exI [of _ p2] exI [of _ u] exI [of _ ack]) simp
qed

text \<open>The link just up, one window passed over: within a millisecond the ONU is registered.\<close>

theorem handshake_completes_witness:
  "\<exists>p2 request. advance_to (from_ms 1) (deliver request 0
       ((set_link True 0 (peer_new config_default))\<lparr>p_register_requests_seen := 1\<rparr>)) = Some p2
     \<and> (\<exists>ack. p_mpcp_state (deliver ack 5000 p2) = Mpcp_Registered)"
proof -
  let ?p = "(set_link True 0 (peer_new config_default))\<lparr>p_register_requests_seen := 1\<rparr>"
  have sched: "p_sched ?p = arm_at T_Keepalive 0 (arm_at T_Gate 0 sched_new)"
    by (simp add: set_link_def peer_new_def Let_def)
  have w: "2 * work (from_ms 1) (p_sched ?p) + 3 = 2000000008000000009"
    unfolding sched by (simp add: weight_def)
  have "sched_ok (Suc (Suc 2000000008000000009)) (sched_new :: timer scheduler)" by (rule sched_ok_new) simp
  then have room: "sched_ok (2 * work (from_ms 1) (p_sched ?p) + 3) (p_sched ?p)"
    unfolding w unfolding sched by (intro sq.arm_invar)
  have "p_now ?p = 0" "p_mpcp_state ?p = Mpcp_Idle" "\<not> p_settling ?p" "p_registered_at ?p = None"
      "p_config ?p = config_default" "p_register_requests_seen ?p = 1"
    by (simp_all add: set_link_def peer_new_def Let_def)
  then show ?thesis
    using handshake_completes [OF _ _ _ _ _ _ _ room, where ?t1.0 = 0 and ?t2.0 = 0 and ?t3.0 = 0 and ?t4.0 = 5000
        and s = "onu_new (MacAddr 2 0 0 1 2 3)"]
    by (simp add: config_default_def onu_new_def runs_until_def Let_def) blast
qed

end
