(* ===== verification/Lue_Rule.thy ===== *)
theory Lue_Rule
  imports Prelude
begin

text \<open>
  \<open>src/soc/lue/rule.rs\<close>: the entries of a table of the packet classifier and the rules they make up. \<open>[u32; 4]\<close> is
  the constructor \<open>Quad\<close>, word 0 first (\<open>Quad\<close> itself is of \<open>port.rs\<close>).
\<close>

unbundle bit_operations_syntax

section \<open>Clauses\<close>

abbreviation CLAUSE_TAG :: u32 where "CLAUSE_TAG \<equiv> 0xF"
abbreviation LINK_AND_NEXT :: u32 where "LINK_AND_NEXT \<equiv> 0x10000000"
abbreviation MAX_RULE_ENTRIES :: u16 where "MAX_RULE_ENTRIES \<equiv> 64"

datatype quad = Quad u32 u32 u32 u32

datatype lue_op = Op_Never | Op_Eq | Op_Ne | Op_Le | Op_Ge | Op_Exists | Op_NotExists | Op_Always | Op_Unknown u8

definition op_from_code :: "u8 \<Rightarrow> lue_op" where
  "op_from_code code =
     (let c = code AND 0xF
      in if c = 0 then Op_Never else if c = 1 then Op_Eq else if c = 2 then Op_Ne else if c = 3 then Op_Le
         else if c = 4 then Op_Ge else if c = 5 then Op_Exists else if c = 6 then Op_NotExists
         else if c = 7 then Op_Always else Op_Unknown c)"

primrec op_code_u8 :: "lue_op \<Rightarrow> u8" where
  "op_code_u8 Op_Never = 0"
| "op_code_u8 Op_Eq = 1"
| "op_code_u8 Op_Ne = 2"
| "op_code_u8 Op_Le = 3"
| "op_code_u8 Op_Ge = 4"
| "op_code_u8 Op_Exists = 5"
| "op_code_u8 Op_NotExists = 6"
| "op_code_u8 Op_Always = 7"
| "op_code_u8 (Op_Unknown n) = n AND 0xF"

datatype field = F_EtherType | F_Observed u8 | F_Unknown u8

definition OBSERVED_CODES :: "u8 list" where
  "OBSERVED_CODES = [0x00, 0x01, 0x03, 0x04, 0x0F, 0x10, 0x18, 0x19, 0x1B]"

definition field_from_code :: "u8 \<Rightarrow> field" where
  "field_from_code code =
     (let c = code AND 0x3F
      in if c = 0x02 then F_EtherType else if c \<in> set OBSERVED_CODES then F_Observed c else F_Unknown c)"

primrec field_code :: "field \<Rightarrow> u8" where
  "field_code F_EtherType = 0x02"
| "field_code (F_Observed n) = n AND 0x3F"
| "field_code (F_Unknown n) = n AND 0x3F"

record clause =
  cl_field :: field
  cl_op :: lue_op
  cl_shift :: u8
  cl_anchor :: u8
  cl_operand :: u64

text \<open>\<open>saturating_sub\<close> of \<open>u32\<close>\<close>

definition sat_sub32 :: "u32 \<Rightarrow> u32 \<Rightarrow> u32" where
  "sat_sub32 a b = (if b \<le> a then a - b else 0)"

definition compared_bits :: "clause \<Rightarrow> u32" where
  "compared_bits c = sat_sub32 (sat_sub32 64 (ucast (cl_shift c))) (ucast (cl_anchor c))"

definition clause_header :: "clause \<Rightarrow> u32" where
  "clause_header c =
     push_bit 28 CLAUSE_TAG OR push_bit 16 (ucast (cl_shift c) AND 0x3F) OR push_bit 10 (ucast (cl_anchor c) AND 0x3F)
     OR push_bit 4 (ucast (field_code (cl_field c))) OR ucast (op_code_u8 (cl_op c))"

definition from_header :: "u32 \<Rightarrow> u64 \<Rightarrow> clause option" where
  "from_header header operand =
     (if drop_bit 28 header \<noteq> CLAUSE_TAG then None
      else Some \<lparr>cl_field = field_from_code (ucast (drop_bit 4 header AND 0x3F)),
                 cl_op = op_from_code (ucast (header AND 0xF)),
                 cl_shift = ucast (drop_bit 16 header AND 0x3F), cl_anchor = ucast (drop_bit 10 header AND 0x3F),
                 cl_operand = operand\<rparr>)"

section \<open>Actions\<close>

datatype action_payload =
    AP_Broadcast
  | AP_Simple u8
  | AP_Selected u8 u8 u16 bool \<comment> \<open>\<open>sel\<close>, \<open>sub\<close>, \<open>field\<close>, \<open>wide\<close>\<close>
  | AP_Raw u32

record action =
  ac_priority :: u8
  ac_payload :: action_payload

abbreviation SELECTED_QUEUE_SEL :: u8 where "SELECTED_QUEUE_SEL \<equiv> 2"
abbreviation SELECTED_QUEUE_SUB :: u8 where "SELECTED_QUEUE_SUB \<equiv> 0"

definition destination_queue :: "action \<Rightarrow> u8 option" where
  "destination_queue a =
     (case ac_payload a of
        AP_Selected sel sub fld _ \<Rightarrow>
          if sel = SELECTED_QUEUE_SEL \<and> sub = SELECTED_QUEUE_SUB then Some (ucast (fld AND 0x1F)) else None
      | _ \<Rightarrow> None)"

definition action_encode :: "action \<Rightarrow> u32" where
  "action_encode a =
     (let prio = push_bit 24 (ucast (ac_priority a) AND 0xF)
      in case ac_payload a of
           AP_Broadcast \<Rightarrow> 0xE0000000 OR prio
         | AP_Simple type_code \<Rightarrow> push_bit 20 (ucast (type_code XOR 1) AND 0x7) OR prio
         | AP_Selected sel sub fld wide \<Rightarrow>
             push_bit 28 (ucast sel AND 0xF) OR ucast fld
             OR push_bit (if wide then 12 else 16) (ucast sub AND 0xF) OR prio
         | AP_Raw w \<Rightarrow> w)"

definition action_decode :: "u32 \<Rightarrow> action" where
  "action_decode word =
     (let priority = ucast (drop_bit 24 word AND 0xF);
          sel = ucast (drop_bit 28 word) :: u8;
          simple = ucast (drop_bit 20 word AND 0x7) :: u8;
          raw = \<lparr>ac_priority = priority, ac_payload = AP_Raw word\<rparr>;
          checked = (\<lambda>payload. let candidate = \<lparr>ac_priority = priority, ac_payload = payload\<rparr>
                               in if action_encode candidate = word then candidate else raw)
      in if sel = 0xE \<and> word AND 0x00FFFFFF = 0 \<and> drop_bit 20 word AND 0xF = 0 then checked AP_Broadcast
         else if sel = 0 \<and> word AND 0x000FFFFF = 0 \<and> simple \<noteq> 0 then checked (AP_Simple (simple XOR 1))
         else if 2 \<le> sel \<and> sel \<le> 0xD then
           let wide = sel < 8; shift = (if wide then 12 else 16)
           in checked (AP_Selected sel (ucast (drop_bit shift word AND 0xF))
                        (ucast (word AND (push_bit shift 1 - 1))) wide)
         else raw)"

section \<open>Entries and rules\<close>

datatype link = AndNext | Terminal action

datatype entry = Entry_Clause clause link | Entry_Raw quad

primrec entry_decode :: "quad \<Rightarrow> entry" where
  "entry_decode (Quad w0 w1 w2 w3) =
     (case from_header w0 (push_bit 32 (ucast w1) OR ucast w2) of
        Some c \<Rightarrow> Entry_Clause c (if w3 = LINK_AND_NEXT then AndNext else Terminal (action_decode w3))
      | None \<Rightarrow> Entry_Raw (Quad w0 w1 w2 w3))"

definition link_word :: "link \<Rightarrow> u32" where
  "link_word l = (case l of AndNext \<Rightarrow> LINK_AND_NEXT | Terminal a \<Rightarrow> action_encode a)"

primrec entry_encode :: "entry \<Rightarrow> quad" where
  "entry_encode (Entry_Clause c l) =
     Quad (clause_header c) (ucast (drop_bit 32 (cl_operand c))) (ucast (cl_operand c)) (link_word l)"
| "entry_encode (Entry_Raw q) = q"

record rule =
  ru_clauses :: "clause list"
  ru_actions :: "action list"

datatype rule_error = NotAClause | RanPastTheEnd | TooLong

record rule_read =
  rr_result :: "rule_error + rule"
  rr_span :: u16

text \<open>\<open>chunks_exact(4)\<close>\<close>

fun chunks_exact_4 :: "u32 list \<Rightarrow> quad list" where
  "chunks_exact_4 (a # b # c # d # ws) = Quad a b c d # chunks_exact_4 ws"
| "chunks_exact_4 [] = []"
| "chunks_exact_4 [_] = []"
| "chunks_exact_4 [_, _] = []"
| "chunks_exact_4 [_, _, _] = []"

definition clause_words :: "clause \<Rightarrow> u32 list" where
  "clause_words c =
     [clause_header c, ucast (drop_bit 32 (cl_operand c)), ucast (cl_operand c), LINK_AND_NEXT]"

text \<open>The words are padded to a multiple of four.\<close>

definition pad_words :: "u32 list \<Rightarrow> u32 list" where
  "pad_words ws = ws @ replicate ((4 - length ws mod 4) mod 4) 0"

definition rule_encode :: "rule \<Rightarrow> quad list" where
  "rule_encode r =
     (if ru_clauses r = [] then []
      else
        let words = concat (map clause_words (ru_clauses r))
        in chunks_exact_4 (if ru_actions r = [] then words
                           else pad_words (butlast words @ map action_encode (ru_actions r))))"

lemma span_next: "span < MAX_RULE_ENTRIES \<Longrightarrow> unat (span + 1) = Suc (unat span)" for span :: u16
  using of_nat_inverse [of "Suc (unat span)" "span + 1"] by (simp add: word_less_nat_alt)

text \<open>The first loop of \<open>Rule::decode\<close>: the clauses, the first action and the span, or why it fails\<close>

function read_clauses :: "(u16 \<Rightarrow> quad option) \<Rightarrow> u16 \<Rightarrow> u16 \<Rightarrow> clause list
    \<Rightarrow> (rule_error + clause list \<times> action) \<times> u16" where
  "read_clauses fetch start span clauses =
     (if span \<ge> MAX_RULE_ENTRIES then (Inl TooLong, span)
      else case fetch (start + span) of
             None \<Rightarrow> (Inl RanPastTheEnd, span)
           | Some quad \<Rightarrow>
               (case entry_decode quad of
                  Entry_Raw _ \<Rightarrow> (Inl NotAClause, span + 1)
                | Entry_Clause c l \<Rightarrow>
                    (case l of
                       AndNext \<Rightarrow> read_clauses fetch start (span + 1) (clauses @ [c])
                     | Terminal first \<Rightarrow> (Inr (clauses @ [c], first), span + 1))))"
  by pat_completeness auto

termination
  by (relation "measure (\<lambda>(_, _, span, _). 64 - unat span)") (auto simp: not_le span_next word_less_nat_alt)

declare read_clauses.simps [simp del]

text \<open>The words of one spilled entry: the actions before the padding, and whether there was none\<close>

fun spill_words :: "u32 list \<Rightarrow> action list \<times> bool" where
  "spill_words [] = ([], True)"
| "spill_words (w # ws) =
     (if w = 0 then ([], False) else case spill_words ws of (as, full) \<Rightarrow> (action_decode w # as, full))"

primrec quad_words :: "quad \<Rightarrow> u32 list" where
  "quad_words (Quad a b c d) = [a, b, c, d]"

function read_spill :: "(u16 \<Rightarrow> quad option) \<Rightarrow> u16 \<Rightarrow> u16 \<Rightarrow> action list \<Rightarrow> action list \<times> u16" where
  "read_spill fetch start span actions =
     (if span \<ge> MAX_RULE_ENTRIES then (actions, span)
      else case fetch (start + span) of
             None \<Rightarrow> (actions, span)
           | Some quad \<Rightarrow>
               if drop_bit 28 (hd (quad_words quad)) = CLAUSE_TAG then (actions, span)
               else (case spill_words (quad_words quad) of
                       (as, True) \<Rightarrow> read_spill fetch start (span + 1) (actions @ as)
                     | (as, False) \<Rightarrow> (actions @ as, span + 1)))"
  by pat_completeness auto

termination
  by (relation "measure (\<lambda>(_, _, span, _). 64 - unat span)") (auto simp: not_le span_next word_less_nat_alt)

declare read_spill.simps [simp del]

definition rule_decode :: "(u16 \<Rightarrow> quad option) \<Rightarrow> u16 \<Rightarrow> rule_read" where
  "rule_decode fetch start =
     (case read_clauses fetch start 0 [] of
        (Inl e, span) \<Rightarrow> \<lparr>rr_result = Inl e, rr_span = span\<rparr>
      | (Inr (clauses, first), span) \<Rightarrow>
          (case read_spill fetch start span [first] of
             (actions, span') \<Rightarrow> \<lparr>rr_result = Inr \<lparr>ru_clauses = clauses, ru_actions = actions\<rparr>, rr_span = span'\<rparr>))"

text \<open>\<open>find_map(Action::destination_queue)\<close>\<close>

fun rule_destination_queue :: "action list \<Rightarrow> u8 option" where
  "rule_destination_queue [] = None"
| "rule_destination_queue (a # as) =
     (case destination_queue a of None \<Rightarrow> rule_destination_queue as | Some q \<Rightarrow> Some q)"

section \<open>What decoding keeps\<close>

lemma action_encode_decode [simp]: "action_encode (action_decode w) = w"
  by (simp add: action_decode_def Let_def action_encode_def)

lemma op_code_roundtrip: "op_code_u8 (op_from_code c) = c AND 0xF" "op_from_code (op_code_u8 (op_from_code c)) = op_from_code c"
  by (simp_all add: op_from_code_def Let_def)

lemma field_code_roundtrip: "field_code (field_from_code c) = c AND 0x3F"
    "field_from_code (field_code (field_from_code c)) = field_from_code c"
  by (simp_all add: field_from_code_def Let_def)

text \<open>A header with its six reserved bits cleared\<close>

abbreviation RESERVED :: u32 where "RESERVED \<equiv> 0x0FC00000"

lemma header_masks: "(0x3F :: 'a::len word) = mask 6" "(0xF :: 'a::len word) = mask 4" "RESERVED = push_bit 22 (mask 6)"
  by (simp_all add: mask_eq_exp_minus_1)

lemma header_roundtrip:
  assumes "from_header h operand = Some c"
  shows "clause_header c = h AND NOT RESERVED"
proof -
  have tag: "drop_bit 28 h = mask 4"
    using assms by (simp add: from_header_def header_masks split: if_splits)
  have c: "field_code (cl_field c) = ucast (drop_bit 4 h AND 0x3F) AND 0x3F"
    "op_code_u8 (cl_op c) = ucast (h AND 0xF) AND 0xF"
    "cl_shift c = ucast (drop_bit 16 h AND 0x3F)" "cl_anchor c = ucast (drop_bit 10 h AND 0x3F)"
    using assms by (auto simp: from_header_def field_code_roundtrip op_code_roundtrip split: if_splits)
  have top: "bit h n" if "28 \<le> n" "n < 32" for n
    using arg_cong [OF tag, of "\<lambda>w. bit w (n - 28)"] that by (simp add: bit_drop_bit_eq bit_mask_iff) linarith
  show ?thesis
  proof (rule bit_word_eqI)
    fix n
    assume "n < LENGTH(32)"
    then consider "n < 4" | "4 \<le> n" "n < 10" | "10 \<le> n" "n < 16" | "16 \<le> n" "n < 22" | "22 \<le> n" "n < 28"
      | "28 \<le> n" "n < 32" by fastforce
    then show "bit (clause_header c) n \<longleftrightarrow> bit (h AND NOT RESERVED) n"
      unfolding clause_header_def c header_masks
      by (cases; simp add: bit_or_iff bit_and_iff bit_not_iff bit_push_bit_iff bit_mask_iff bit_ucast_iff
          bit_drop_bit_eq top less_diff_conv2)
  qed
qed

lemma code_masked: "op_from_code (c AND 0xF) = op_from_code c" "field_from_code (c AND 0x3F) = field_from_code c"
  by (simp_all add: op_from_code_def field_from_code_def Let_def)

lemma and_not_id: "w AND NOT r = w \<longleftrightarrow> w AND r = 0" for w r :: u32
  by (auto simp: bit_eq_iff bit_and_iff bit_not_iff)

lemma operand_parts:
  "ucast (drop_bit 32 (push_bit 32 (ucast w1) OR ucast w2 :: u64)) = w1" "ucast (push_bit 32 (ucast w1) OR ucast w2 :: u64) = w2"
  for w1 w2 :: u32
  by (rule bit_word_eqI, auto simp: bit_or_iff bit_push_bit_iff bit_ucast_iff bit_drop_bit_eq dest: bit_imp_le_length)+

text \<open>The values the decoder gives\<close>

definition clause_ok :: "clause \<Rightarrow> bool" where
  "clause_ok c \<longleftrightarrow> cl_shift c < 64 \<and> cl_anchor c < 64 \<and> field_from_code (field_code (cl_field c)) = cl_field c
     \<and> op_from_code (op_code_u8 (cl_op c)) = cl_op c"

definition action_ok :: "action \<Rightarrow> bool" where
  "action_ok a \<longleftrightarrow> action_decode (action_encode a) = a"

lemma action_ok_decode [simp]: "action_ok (action_decode w)"
  by (simp add: action_ok_def)

lemma six_bits_less: "ucast (x AND 0x3F :: u32) < (64 :: u8)"
proof -
  have "unat (ucast (x AND 0x3F :: u32) :: u8) = unat (x AND mask 6)"
    unfolding header_masks using unat_and_mask [of x 6] by (simp add: unsigned_ucast_eq take_bit_eq_mod)
  then show ?thesis using unat_and_mask [of x 6] by (simp add: word_less_nat_alt)
qed

lemma clause_ok_header: "from_header h operand = Some c \<Longrightarrow> clause_ok c \<and> cl_operand c = operand"
  using six_bits_less by (auto simp: from_header_def clause_ok_def op_code_roundtrip field_code_roundtrip code_masked split: if_splits)

text \<open>C29. What an entry decodes to is well formed: the operator and the field are those of their codes, the window is
  within the operand's 64 bits, an action is the decoding of its word. Encoding it gives back the entry,
  operand and action word unchanged, except for the six reserved bits of a clause header, which are lost: an
  entry survives exactly when it is no clause or has them clear.\<close>

theorem entry_decoding:
  "(case entry_decode (Quad w0 w1 w2 w3) of
      Entry_Raw q \<Rightarrow> q = Quad w0 w1 w2 w3 \<and> drop_bit 28 w0 \<noteq> CLAUSE_TAG
    | Entry_Clause c l \<Rightarrow> clause_ok c \<and> drop_bit 28 w0 = CLAUSE_TAG
        \<and> (case l of AndNext \<Rightarrow> w3 = LINK_AND_NEXT | Terminal a \<Rightarrow> action_ok a \<and> action_encode a = w3))
   \<and> entry_encode (entry_decode (Quad w0 w1 w2 w3))
     = Quad (if drop_bit 28 w0 = CLAUSE_TAG then w0 AND NOT RESERVED else w0) w1 w2 w3
   \<and> (entry_encode (entry_decode (Quad w0 w1 w2 w3)) = Quad w0 w1 w2 w3
      \<longleftrightarrow> drop_bit 28 w0 \<noteq> CLAUSE_TAG \<or> w0 AND RESERVED = 0)"
proof (cases "from_header w0 (push_bit 32 (ucast w1) OR ucast w2)")
  case None
  then have "drop_bit 28 w0 \<noteq> CLAUSE_TAG" by (simp add: from_header_def split: if_splits)
  then show ?thesis using None by simp
next
  case (Some c)
  then have tag: "drop_bit 28 w0 = CLAUSE_TAG" by (simp add: from_header_def split: if_splits)
  show ?thesis
    using Some tag clause_ok_header [OF Some] header_roundtrip [OF Some] operand_parts and_not_id [of w0 RESERVED]
    by (simp add: link_word_def)
qed

text \<open>A header with a reserved bit set does not survive.\<close>

theorem entry_decoding_witness:
  "entry_encode (entry_decode (Quad 0xF0700021 0 0x8809 LINK_AND_NEXT)) = Quad 0xF0300021 0 0x8809 LINK_AND_NEXT"
  using entry_decoding [where ?w0.0 = "0xF0700021" and ?w1.0 = 0 and ?w2.0 = "0x8809" and ?w3.0 = LINK_AND_NEXT] by simp

section \<open>Rules read back\<close>

text \<open>Entries at consecutive indices from \<open>start + s\<close>\<close>

fun laid_out :: "(u16 \<Rightarrow> quad option) \<Rightarrow> u16 \<Rightarrow> nat \<Rightarrow> quad list \<Rightarrow> bool" where
  "laid_out fetch start s [] = True"
| "laid_out fetch start s (q # qs) \<longleftrightarrow> fetch (start + of_nat s) = Some q \<and> laid_out fetch start (Suc s) qs"

lemma laid_out_append:
  "laid_out fetch start s (qs @ rs) \<longleftrightarrow> laid_out fetch start s qs \<and> laid_out fetch start (s + length qs) rs"
  by (induction qs arbitrary: s) auto

lemma pad_words_4 [simp]: "pad_words (a # b # c # d # ws) = a # b # c # d # pad_words ws"
  by (simp add: pad_words_def)

lemma pad_words_small [simp]:
  "pad_words [] = []" "pad_words [a] = [a, 0, 0, 0]" "pad_words [a, b] = [a, b, 0, 0]" "pad_words [a, b, c] = [a, b, c, 0]"
proof -
  have "replicate 3 (0 :: u32) = [0, 0, 0]" "replicate 2 (0 :: u32) = [0, 0]" by (simp_all add: numeral_eq_Suc)
  then show "pad_words [] = []" "pad_words [a] = [a, 0, 0, 0]" "pad_words [a, b] = [a, b, 0, 0]" "pad_words [a, b, c] = [a, b, c, 0]"
    by (simp_all add: pad_words_def)
qed

lemma span_of_nat: "s \<le> 64 \<Longrightarrow> of_nat s < MAX_RULE_ENTRIES \<longleftrightarrow> s < 64" "of_nat s + 1 = (of_nat (Suc s) :: u16)"
  using of_nat_inverse [of s "of_nat s :: u16"] by (simp_all add: word_less_nat_alt)

definition clause_entry :: "clause \<Rightarrow> u32 \<Rightarrow> quad" where
  "clause_entry c w =
     Quad (clause_header c) (ucast (drop_bit 32 (cl_operand c))) (ucast (cl_operand c)) w"

lemma encoded_rule:
  "cs \<noteq> [] \<Longrightarrow>
   chunks_exact_4 (pad_words (butlast (concat (map clause_words cs)) @ w # ws))
     = map (\<lambda>c. clause_entry c LINK_AND_NEXT) (butlast cs) @ clause_entry (last cs) w # chunks_exact_4 (pad_words ws)"
proof (induction cs)
  case (Cons c cs)
  show ?case
  proof (cases cs)
    case (Cons c' cs')
    then have "concat (map clause_words cs) \<noteq> []" by (simp add: clause_words_def)
    then show ?thesis using Cons.IH Cons by (simp add: clause_words_def clause_entry_def butlast_append)
  qed (simp add: clause_words_def clause_entry_def)
qed simp

lemma six_bits: "x < 64 \<longleftrightarrow> (\<forall>n. bit x n \<longrightarrow> n < 6)" for x :: u8
  using byte_less_64_iff [of x] by (auto simp: not_le)

lemma field_code_less: "field_code f < 64"
proof (cases f)
  case F_EtherType
  then show ?thesis by simp
qed (auto simp: six_bits header_masks bit_and_iff bit_mask_iff)

lemma op_code_bits: "bit (op_code_u8 op) n \<Longrightarrow> n < 4"
proof -
  have "op_code_u8 op AND mask 4 = op_code_u8 op"
    unfolding header_masks(2) [symmetric] by (cases op) simp_all
  then show "bit (op_code_u8 op) n \<Longrightarrow> n < 4" by (metis bit_and_iff bit_mask_iff)
qed

text \<open>The fields of a header, bit by bit\<close>

lemma clause_header_bit:
  assumes "clause_ok c" "n < 32"
  shows "bit (clause_header c) n \<longleftrightarrow>
    (if n < 4 then bit (op_code_u8 (cl_op c)) n else if n < 10 then bit (field_code (cl_field c)) (n - 4)
     else if n < 16 then bit (cl_anchor c) (n - 10) else if n < 22 then bit (cl_shift c) (n - 16) else 28 \<le> n)"
proof -
  have six: "bit (field_code (cl_field c)) k \<Longrightarrow> k < 6" "bit (cl_anchor c) k \<Longrightarrow> k < 6" "bit (cl_shift c) k \<Longrightarrow> k < 6" for k
    using assms(1) field_code_less [of "cl_field c"] by (auto simp: clause_ok_def six_bits)
  have big: "6 \<le> k \<Longrightarrow> \<not> bit (field_code (cl_field c)) k" "6 \<le> k \<Longrightarrow> \<not> bit (cl_anchor c) k"
    "6 \<le> k \<Longrightarrow> \<not> bit (cl_shift c) k" "4 \<le> k \<Longrightarrow> \<not> bit (op_code_u8 (cl_op c)) k" for k
    using six op_code_bits [of "cl_op c"] by (meson not_le)+
  have "n < 60" using assms(2) by simp
  consider "n < 4" | "4 \<le> n" "n < 10" | "10 \<le> n" "n < 16" | "16 \<le> n" "n < 22" | "22 \<le> n" "n < 28" | "28 \<le> n"
    by fastforce
  then show ?thesis
    unfolding clause_header_def header_masks
    by (cases; simp add: bit_or_iff bit_and_iff bit_push_bit_iff bit_mask_iff bit_ucast_iff big assms(2) \<open>n < 60\<close> less_diff_conv2)
qed

lemma clause_header_bits:
  assumes "clause_ok c"
  shows "from_header (clause_header c) operand = Some (c\<lparr>cl_operand := operand\<rparr>)"
proof -
  note bits = clause_header_bit [OF assms]
  have six: "bit (field_code (cl_field c)) k \<Longrightarrow> k < 6" "bit (cl_anchor c) k \<Longrightarrow> k < 6" "bit (cl_shift c) k \<Longrightarrow> k < 6" for k
    using assms(1) field_code_less [of "cl_field c"] by (auto simp: clause_ok_def six_bits)
  have tag: "drop_bit 28 (clause_header c) = CLAUSE_TAG"
    unfolding header_masks by (rule bit_word_eqI) (auto simp: bit_drop_bit_eq bit_mask_iff bits dest: bit_imp_le_length)
  have op: "ucast (clause_header c AND 0xF) = op_code_u8 (cl_op c)"
    unfolding header_masks
    by (rule bit_word_eqI) (auto simp: bit_ucast_iff bit_and_iff bit_mask_iff bits dest: op_code_bits)
  have "ucast (drop_bit 4 (clause_header c) AND 0x3F) = field_code (cl_field c)"
    "ucast (drop_bit 10 (clause_header c) AND 0x3F) = cl_anchor c"
    "ucast (drop_bit 16 (clause_header c) AND 0x3F) = cl_shift c"
    unfolding header_masks
    by (rule bit_word_eqI, auto simp: bit_ucast_iff bit_and_iff bit_mask_iff bit_drop_bit_eq bits dest: six)+
  then show ?thesis using assms by (simp add: from_header_def tag op clause_ok_def)
qed

lemma decode_clause_entry:
  assumes "clause_ok c"
  shows "entry_decode (clause_entry c w)
    = Entry_Clause c (if w = LINK_AND_NEXT then AndNext else Terminal (action_decode w))"
proof -
  have "push_bit 32 (ucast (ucast (drop_bit 32 (cl_operand c)) :: u32)) OR ucast (ucast (cl_operand c) :: u32) = cl_operand c"
    by (rule bit_word_eqI) (auto simp: bit_or_iff bit_push_bit_iff bit_ucast_iff bit_drop_bit_eq)
  then show ?thesis by (simp add: clause_entry_def clause_header_bits [OF assms])
qed

lemma read_clauses_laid:
  "laid_out fetch start s (map (\<lambda>c. clause_entry c LINK_AND_NEXT) cs @ [clause_entry c w]) \<Longrightarrow>
   list_all clause_ok (cs @ [c]) \<Longrightarrow> w \<noteq> LINK_AND_NEXT \<Longrightarrow> s + length cs < 64 \<Longrightarrow>
   read_clauses fetch start (of_nat s) acc
     = (Inr (acc @ cs @ [c], action_decode w), of_nat (Suc (s + length cs)))"
proof (induction cs arbitrary: s acc)
  case Nil
  then show ?case
    using span_of_nat(2) [of s] by (subst read_clauses.simps) (simp add: decode_clause_entry not_le span_of_nat(1))
next
  case (Cons d ds)
  have "read_clauses fetch start (of_nat (Suc s)) (acc @ [d])
      = (Inr (acc @ [d] @ ds @ [c], action_decode w), of_nat (Suc (Suc s + length ds)))"
    using Cons.IH [of "Suc s" "acc @ [d]"] Cons.prems by simp
  then show ?case
    using Cons.prems span_of_nat(2) [of s]
    by (subst read_clauses.simps) (simp add: decode_clause_entry not_le span_of_nat(1) del: of_nat_Suc)
qed

text \<open>Words that read back as actions past the first: none is padding, none looks like a clause.\<close>

definition spill_ok :: "u32 list \<Rightarrow> bool" where
  "spill_ok ws \<longleftrightarrow> list_all (\<lambda>w. w \<noteq> 0 \<and> drop_bit 28 w \<noteq> CLAUSE_TAG) ws"

text \<open>What follows the entries of a rule: padding in its last entry, no entry, or another clause\<close>

definition rule_ends :: "(u16 \<Rightarrow> quad option) \<Rightarrow> u16 \<Rightarrow> nat \<Rightarrow> nat \<Rightarrow> bool" where
  "rule_ends fetch start s n \<longleftrightarrow> n mod 4 \<noteq> 0 \<or> s = 64
     \<or> (case fetch (start + of_nat s) of None \<Rightarrow> True | Some q \<Rightarrow> drop_bit 28 (hd (quad_words q)) = CLAUSE_TAG)"

lemma read_spill_stops:
  "s \<le> 64 \<Longrightarrow> rule_ends fetch start s 0 \<Longrightarrow> read_spill fetch start (of_nat s) acc = (acc, of_nat s)"
  using span_of_nat(1) [of s] by (subst read_spill.simps) (auto simp: rule_ends_def not_le split: option.split)

lemma read_spill_laid:
  "laid_out fetch start s (chunks_exact_4 (pad_words ws)) \<Longrightarrow> spill_ok ws \<Longrightarrow>
   s + length (chunks_exact_4 (pad_words ws)) \<le> 64 \<Longrightarrow>
   rule_ends fetch start (s + length (chunks_exact_4 (pad_words ws))) (length ws) \<Longrightarrow>
   read_spill fetch start (of_nat s) acc
     = (acc @ map action_decode ws, of_nat (s + length (chunks_exact_4 (pad_words ws))))"
proof (induction ws arbitrary: s acc rule: chunks_exact_4.induct)
  case (1 a b c d ws)
  have "rule_ends fetch start (Suc s + length (chunks_exact_4 (pad_words ws))) (length ws)"
    using 1(5) by (simp add: rule_ends_def)
  then have "read_spill fetch start (of_nat (Suc s)) (acc @ map action_decode [a, b, c, d])
      = (acc @ map action_decode (a # b # c # d # ws), of_nat (Suc s + length (chunks_exact_4 (pad_words ws))))"
    using 1(1) [of "Suc s"] 1(2-4) by (simp add: spill_ok_def)
  then show ?case
    using 1(2-4) span_of_nat(2) [of s]
    by (subst read_spill.simps) (simp add: spill_ok_def not_le span_of_nat(1) del: of_nat_Suc)
next
  case (2 s acc)
  then show ?case using read_spill_stops [of s fetch start acc] by simp
next
  case (3 a)
  then show ?case
    using span_of_nat(2) [of s]
    by (subst read_spill.simps) (simp add: spill_ok_def not_le span_of_nat(1))
next
  case (4 a b)
  then show ?case
    using span_of_nat(2) [of s]
    by (subst read_spill.simps) (simp add: spill_ok_def not_le span_of_nat(1))
next
  case (5 a b c)
  then show ?case
    using span_of_nat(2) [of s]
    by (subst read_spill.simps) (simp add: spill_ok_def not_le span_of_nat(1))
qed

lemma length_padded: "length (chunks_exact_4 (pad_words ws)) = (length ws + 3) div 4"
  by (induction ws rule: chunks_exact_4.induct) simp_all

lemma encoded_actions:
  assumes "ru_clauses r \<noteq> []" "ru_actions r = a # as"
  shows "rule_encode r = map (\<lambda>c. clause_entry c LINK_AND_NEXT) (butlast (ru_clauses r))
    @ clause_entry (last (ru_clauses r)) (action_encode a) # chunks_exact_4 (pad_words (map action_encode as))"
  using assms encoded_rule [OF assms(1), of "action_encode a" "map action_encode as"] by (simp add: rule_encode_def)

text \<open>C28. A rule reads back from its entries: from where it is laid out, exactly its clauses and its list of
  actions, over as many entries as it has clauses plus those its actions spill into, for clauses and actions
  in the form the decoder gives, a first action that is not the link word, later ones that neither are 0 nor
  look like a clause, and padding or no action word behind it.\<close>

theorem rule_roundtrip:
  assumes clauses: "ru_clauses r \<noteq> []" "list_all clause_ok (ru_clauses r)"
    and actions: "ru_actions r \<noteq> []" "list_all action_ok (ru_actions r)"
      "action_encode (hd (ru_actions r)) \<noteq> LINK_AND_NEXT" "spill_ok (map action_encode (tl (ru_actions r)))"
    and table: "laid_out fetch start 0 (rule_encode r)" "length (rule_encode r) \<le> 64"
      "rule_ends fetch start (length (rule_encode r)) (length (ru_actions r) - 1)"
  shows "rule_decode fetch start = \<lparr>rr_result = Inr r, rr_span = of_nat (length (rule_encode r))\<rparr>
    \<and> length (rule_encode r) = length (ru_clauses r) + (length (ru_actions r) + 2) div 4"
proof -
  obtain a as where as: "ru_actions r = a # as" using actions(1) by (cases "ru_actions r") auto
  let ?cs = "ru_clauses r" and ?ws = "map action_encode as"
  note e = encoded_actions [OF clauses(1) as]
  have cs: "?cs = butlast ?cs @ [last ?cs]" using clauses(1) by simp
  have butlast: "Suc (length ?cs - Suc 0) = length ?cs" using clauses(1) by (cases ?cs) simp_all
  have len: "length (rule_encode r) = length ?cs + length (chunks_exact_4 (pad_words ?ws))"
    using clauses(1) by (simp add: e)
  have laid: "laid_out fetch start 0 (map (\<lambda>c. clause_entry c LINK_AND_NEXT) (butlast ?cs) @ [clause_entry (last ?cs) (action_encode a)])"
    "laid_out fetch start (length ?cs) (chunks_exact_4 (pad_words ?ws))"
    using table(1) clauses(1) by (simp_all add: e laid_out_append)
  have one: "read_clauses fetch start (of_nat 0) [] = (Inr ([] @ butlast ?cs @ [last ?cs], action_decode (action_encode a)), of_nat (length ?cs))"
    using read_clauses_laid [OF laid(1), of "[]"] clauses(2) cs actions(3) as len table(2) butlast by (simp del: of_nat_Suc)
  have "spill_ok ?ws" "rule_ends fetch start (length ?cs + length (chunks_exact_4 (pad_words ?ws))) (length ?ws)"
    "length ?cs + length (chunks_exact_4 (pad_words ?ws)) \<le> 64"
    using actions(4) table(2,3) as len by simp_all
  note two = read_spill_laid [OF laid(2) this(1,3,2), of "[action_decode (action_encode a)]"]
  have "action_decode (action_encode x) = x" if "x \<in> set (ru_actions r)" for x
    using actions(2) that by (simp add: list_all_iff action_ok_def)
  then have "map action_decode ?ws = as" "action_decode (action_encode a) = a" using as by (simp_all add: map_idI)
  then have "rule_decode fetch start = \<lparr>rr_result = Inr \<lparr>ru_clauses = ?cs, ru_actions = a # as\<rparr>, rr_span = of_nat (length (rule_encode r))\<rparr>"
    using one two cs len by (simp add: rule_decode_def)
  then show ?thesis using as len by (simp add: length_padded add.commute)
qed

text \<open>Three actions behind one clause, in an otherwise empty table\<close>

theorem rule_roundtrip_witness:
  "let r = \<lparr>ru_clauses = [\<lparr>cl_field = F_EtherType, cl_op = Op_Eq, cl_shift = 0x30, cl_anchor = 0, cl_operand = 0x8809\<rparr>],
            ru_actions = map action_decode [0x04000000, 0x200000, 0x24000010]\<rparr>
   in rule_decode [0x34 \<mapsto> rule_encode r ! 0, 0x35 \<mapsto> rule_encode r ! 1] 0x34
      = \<lparr>rr_result = Inr r, rr_span = 2\<rparr>"
proof -
  define c where "c = \<lparr>cl_field = F_EtherType, cl_op = Op_Eq, cl_shift = 0x30, cl_anchor = 0, cl_operand = 0x8809\<rparr>"
  define r where "r = \<lparr>ru_clauses = [c], ru_actions = map action_decode [0x04000000, 0x200000, 0x24000010]\<rparr>"
  have fields: "ru_clauses r = [c]" "ru_actions r = map action_decode [0x04000000, 0x200000, 0x24000010]"
    by (simp_all add: r_def)
  have c: "clause_ok c" by (simp add: c_def clause_ok_def field_from_code_def op_from_code_def)
  have e: "rule_encode r = [clause_entry c 0x04000000, Quad 0x200000 0x24000010 0 0]"
    using encoded_actions [where r = r and a = "action_decode 0x04000000"
        and as = "map action_decode [0x200000, 0x24000010]"] by (simp add: fields)
  have "rule_decode [0x34 \<mapsto> rule_encode r ! 0, 0x35 \<mapsto> rule_encode r ! 1] 0x34 = \<lparr>rr_result = Inr r, rr_span = 2\<rparr>"
    using rule_roundtrip [where r = r and fetch = "[0x34 \<mapsto> rule_encode r ! 0, 0x35 \<mapsto> rule_encode r ! 1]" and start = "0x34"]
    by (simp add: e fields c spill_ok_def rule_ends_def)
  then show ?thesis unfolding r_def c_def Let_def .
qed

end
