(* ===== verification/Lue_Port.thy ===== *)
theory Lue_Port
  imports Lue_Rule
begin

text \<open>
  \<open>src/soc/lue/port.rs\<close> and the register window of \<open>src/soc/lue/mod.rs\<close>: the latched port through which software
  fills the tables of the classifier. The tables, an array of hash maps, are a list of maps; the
  keys of a table are taken in ascending order, as the code sorts them.
\<close>

unbundle bit_operations_syntax

section \<open>Commands\<close>

abbreviation CMD_GO :: u32 where "CMD_GO \<equiv> 0x80000000"
abbreviation CMD_WRITE :: u32 where "CMD_WRITE \<equiv> 0x40000000"
abbreviation CMD_ERROR :: u32 where "CMD_ERROR \<equiv> 0x20000000"
abbreviation TABLE_COUNT :: nat where "TABLE_COUNT \<equiv> 16"
abbreviation INDEX_MASK :: u16 where "INDEX_MASK \<equiv> 0x0FFF"

record lue_cmd =
  cmd_write :: bool
  cmd_op_field :: u8
  cmd_arg2 :: u8
  cmd_table :: u8
  cmd_index :: u16

definition cmd_decode :: "u32 \<Rightarrow> lue_cmd" where
  "cmd_decode word =
     \<lparr>cmd_write = (word AND CMD_WRITE \<noteq> 0), cmd_op_field = ucast (drop_bit 20 word AND 0xF),
      cmd_arg2 = ucast (drop_bit 16 word AND 7), cmd_table = ucast (drop_bit 12 word AND 0xF),
      cmd_index = ucast word AND INDEX_MASK\<rparr>"

definition cmd_encode :: "lue_cmd \<Rightarrow> u32" where
  "cmd_encode c =
     (if cmd_write c then CMD_WRITE else 0) OR push_bit 20 (ucast (cmd_op_field c) AND 0xF)
     OR push_bit 16 (ucast (cmd_arg2 c) AND 7) OR push_bit 12 (ucast (cmd_table c) AND 0xF)
     OR ucast (cmd_index c AND INDEX_MASK)"

primrec to_regs :: "quad \<Rightarrow> u32 list" where
  "to_regs (Quad a b c d) = [d, c, b, a]"

definition from_regs :: "u32 list \<Rightarrow> quad" where
  "from_regs regs = Quad (regs ! 3) (regs ! 2) (regs ! 1) (regs ! 0)"

definition quad_is_zero :: "quad \<Rightarrow> bool" where
  "quad_is_zero q \<longleftrightarrow> q = Quad 0 0 0 0"

section \<open>The port\<close>

record port_counters =
  pk_commands :: u64
  pk_writes :: u64
  pk_reads :: u64
  pk_unknown_op :: u64
  pk_no_go :: u64
  pk_reads_of_empty :: u64
  pk_writes_of_zero :: u64

definition port_counters_zero :: port_counters where
  "port_counters_zero =
     \<lparr>pk_commands = 0, pk_writes = 0, pk_reads = 0, pk_unknown_op = 0, pk_no_go = 0, pk_reads_of_empty = 0,
      pk_writes_of_zero = 0\<rparr>"

definition commands_accounted_for :: "port_counters \<Rightarrow> bool" where
  "commands_accounted_for c \<longleftrightarrow> pk_commands c = pk_writes c + pk_reads c + pk_unknown_op c"

record lue_port =
  po_tables :: "(u16 \<rightharpoonup> quad) list"
  po_regs :: "u32 list"
  po_last_cmd :: u32
  po_counters :: port_counters

definition port_new :: lue_port where
  "port_new =
     \<lparr>po_tables = replicate TABLE_COUNT Map.empty, po_regs = [0, 0, 0, 0], po_last_cmd = 0,
      po_counters = port_counters_zero\<rparr>"

definition port_reset :: "lue_port \<Rightarrow> lue_port" where
  "port_reset p =
     p\<lparr>po_tables := map (\<lambda>_. Map.empty) (po_tables p), po_regs := [0, 0, 0, 0], po_last_cmd := 0,
       po_counters := port_counters_zero\<rparr>"

definition read_cmd :: "lue_port \<Rightarrow> u32" where
  "read_cmd p = po_last_cmd p"

definition read_data :: "nat \<Rightarrow> lue_port \<Rightarrow> u32" where
  "read_data slot p = po_regs p ! slot"

definition write_data :: "nat \<Rightarrow> u32 \<Rightarrow> lue_port \<Rightarrow> lue_port" where
  "write_data slot val p = p\<lparr>po_regs := (po_regs p)[slot := val]\<rparr>"

definition table_at :: "u8 \<Rightarrow> lue_port \<Rightarrow> (u16 \<rightharpoonup> quad)" where
  "table_at table p = po_tables p ! (unat table mod TABLE_COUNT)"

definition port_entry :: "u8 \<Rightarrow> u16 \<Rightarrow> lue_port \<Rightarrow> quad option" where
  "port_entry table index p = table_at table p (index AND INDEX_MASK)"

definition saturating_add16 :: "u16 \<Rightarrow> u16 \<Rightarrow> u16" where
  "saturating_add16 a b = (if unat a + unat b < 2 ^ 16 then a + b else 0xFFFF)"

text \<open>The loop of \<open>rule_starts\<close> over the sorted keys\<close>

fun find_starts :: "(u16 \<rightharpoonup> quad) \<Rightarrow> u16 option \<Rightarrow> u16 list \<Rightarrow> u16 list" where
  "find_starts t covered [] = []"
| "find_starts t covered (index # keys) =
     (if (case covered of None \<Rightarrow> False | Some e \<Rightarrow> index \<le> e) then find_starts t covered keys
      else
        let span = max 1 (rr_span (rule_decode t index))
        in index # find_starts t (Some (saturating_add16 index (span - 1))) keys)"

definition rule_starts :: "u8 \<Rightarrow> lue_port \<Rightarrow> u16 list" where
  "rule_starts table p = find_starts (table_at table p) None (sorted_list_of_set (dom (table_at table p)))"

definition port_rule :: "u8 \<Rightarrow> u16 \<Rightarrow> lue_port \<Rightarrow> rule_read" where
  "port_rule table index p = rule_decode (table_at table p) index"

definition entry_count :: "u8 \<Rightarrow> lue_port \<Rightarrow> nat" where
  "entry_count table p = card (dom (table_at table p))"

abbreviation note_port :: "(port_counters \<Rightarrow> port_counters) \<Rightarrow> lue_port \<Rightarrow> lue_port" where
  "note_port f p \<equiv> po_counters_update f p"

definition set_entry :: "u8 \<Rightarrow> u16 \<Rightarrow> quad option \<Rightarrow> lue_port \<Rightarrow> lue_port" where
  "set_entry table index q p =
     p\<lparr>po_tables := (po_tables p)[unat table := (po_tables p ! unat table)(index := q)]\<rparr>"

definition write_cmd :: "u32 \<Rightarrow> lue_port \<Rightarrow> lue_port" where
  "write_cmd word p0 =
     (let cmd = cmd_decode word; p = p0\<lparr>po_last_cmd := cmd_encode cmd\<rparr>
      in if word AND CMD_GO = 0 then note_port (pk_no_go_update (\<lambda>n. n + 1)) p
         else
           let p1 = note_port (pk_commands_update (\<lambda>n. n + 1)) p
           in if cmd_op_field cmd \<noteq> 0 then note_port (pk_unknown_op_update (\<lambda>n. n + 1)) p1
              else if cmd_write cmd then
                let p2 = note_port (pk_writes_update (\<lambda>n. n + 1)) p1; quad = from_regs (po_regs p2)
                in if quad_is_zero quad
                   then set_entry (cmd_table cmd) (cmd_index cmd) None (note_port (pk_writes_of_zero_update (\<lambda>n. n + 1)) p2)
                   else set_entry (cmd_table cmd) (cmd_index cmd) (Some quad) p2
              else
                let p2 = note_port (pk_reads_update (\<lambda>n. n + 1)) p1
                in (case (po_tables p2 ! unat (cmd_table cmd)) (cmd_index cmd) of
                      Some q \<Rightarrow> p2\<lparr>po_regs := to_regs q\<rparr>
                    | None \<Rightarrow> (note_port (pk_reads_of_empty_update (\<lambda>n. n + 1)) p2)\<lparr>po_regs := [0, 0, 0, 0]\<rparr>))"

section \<open>The two ports in memory\<close>

type_synonym lue = "lue_port list"

definition lue_new :: lue where
  "lue_new = [port_new, port_new]"

definition LUE_CMD_ADDR :: "u32 list" where
  "LUE_CMD_ADDR = [0x0100240C, 0x0100280C]"

abbreviation WORDS_PER_INSTANCE :: u32 where
  "WORDS_PER_INSTANCE \<equiv> 5"

fun locate_in :: "u32 \<Rightarrow> nat \<Rightarrow> u32 list \<Rightarrow> (nat \<times> nat) option" where
  "locate_in word inst [] = None"
| "locate_in word inst (base # bases) =
     (if word \<ge> base \<and> word < base + WORDS_PER_INSTANCE * 4 then Some (inst, unat ((word - base) div 4))
      else locate_in word (inst + 1) bases)"

definition lue_locate :: "u32 \<Rightarrow> (nat \<times> nat) option" where
  "lue_locate addr = locate_in (addr AND NOT 3) 0 LUE_CMD_ADDR"

definition lue_claims :: "u32 \<Rightarrow> bool" where
  "lue_claims addr \<longleftrightarrow> lue_locate addr \<noteq> None"

definition lue_peek_word :: "u32 \<Rightarrow> lue \<Rightarrow> u32 option" where
  "lue_peek_word addr l =
     map_option (\<lambda>(inst, slot). if slot = 0 then read_cmd (l ! inst) else read_data (slot - 1) (l ! inst)) (lue_locate addr)"

definition lue_read_word :: "u32 \<Rightarrow> lue \<Rightarrow> u32" where
  "lue_read_word addr l = (case lue_peek_word addr l of None \<Rightarrow> 0 | Some w \<Rightarrow> w)"

definition lue_write_word :: "u32 \<Rightarrow> u32 \<Rightarrow> lue \<Rightarrow> lue" where
  "lue_write_word addr val l =
     (case lue_locate addr of
        None \<Rightarrow> l
      | Some (inst, slot) \<Rightarrow>
          if slot = 0 then l[inst := write_cmd val (l ! inst)] else l[inst := write_data (slot - 1) val (l ! inst)])"

definition lue_read_half :: "u32 \<Rightarrow> lue \<Rightarrow> u16" where
  "lue_read_half addr l =
     (let word = lue_read_word (addr AND NOT 3) l in if addr AND 2 = 0 then ucast (drop_bit 16 word) else ucast word)"

definition lue_read_byte :: "u32 \<Rightarrow> lue \<Rightarrow> u8" where
  "lue_read_byte addr l =
     (let word = lue_read_word (addr AND NOT 3) l in ucast (drop_bit (unat (24 - (addr AND 3) * 8)) word))"

definition lue_write_half :: "u32 \<Rightarrow> u16 \<Rightarrow> lue \<Rightarrow> lue" where
  "lue_write_half addr val l =
     (let word = lue_read_word (addr AND NOT 3) l;
          merged = (if addr AND 2 = 0 then (word AND 0x0000FFFF) OR push_bit 16 (ucast val)
                    else (word AND 0xFFFF0000) OR ucast val)
      in lue_write_word (addr AND NOT 3) merged l)"

definition lue_write_byte :: "u32 \<Rightarrow> u8 \<Rightarrow> lue \<Rightarrow> lue" where
  "lue_write_byte addr val l =
     (let word = lue_read_word (addr AND NOT 3) l; shift = unat (24 - (addr AND 3) * 8);
          merged = (word AND NOT (push_bit shift 0xFF)) OR push_bit shift (ucast val)
      in lue_write_word (addr AND NOT 3) merged l)"

definition lue_reset_cold :: "lue \<Rightarrow> lue" where
  "lue_reset_cold l = map port_reset l"

section \<open>A port is a table of entries\<close>

text \<open>What software sees of an entry: one never written, or cleared, is zero.\<close>

definition entry_view :: "u8 \<Rightarrow> u16 \<Rightarrow> lue_port \<Rightarrow> quad" where
  "entry_view table index p = (case port_entry table index p of None \<Rightarrow> Quad 0 0 0 0 | Some q \<Rightarrow> q)"

text \<open>The tables and registers have their number, no table holds a zero entry or one beyond the index field,
  the command word shows neither go nor error, and every command is accounted for.\<close>

definition port_ok :: "lue_port \<Rightarrow> bool" where
  "port_ok p \<longleftrightarrow> length (po_tables p) = TABLE_COUNT \<and> length (po_regs p) = 4
     \<and> (\<forall>t \<in> set (po_tables p). \<forall>i q. t i = Some q \<longrightarrow> i AND INDEX_MASK = i \<and> \<not> quad_is_zero q)
     \<and> po_last_cmd p AND CMD_GO = 0 \<and> po_last_cmd p AND CMD_ERROR = 0 \<and> commands_accounted_for (po_counters p)"

lemma from_to_regs [simp]: "from_regs (to_regs q) = q"
  by (cases q) (simp add: from_regs_def)

lemma port_ok_new: "port_ok port_new"
  by (simp add: port_ok_def port_new_def commands_accounted_for_def port_counters_zero_def)

lemma port_ok_reset: "port_ok p \<Longrightarrow> port_ok (port_reset p)"
  by (auto simp: port_ok_def port_reset_def commands_accounted_for_def port_counters_zero_def)

lemma port_ok_write_data: "port_ok p \<Longrightarrow> port_ok (write_data slot val p)"
  by (simp add: port_ok_def write_data_def)

lemma cmd_table_less: "unat (cmd_table (cmd_decode word)) < TABLE_COUNT"
proof -
  have "unat (drop_bit 12 word AND mask 4) < 16" using unat_and_mask [of "drop_bit 12 word" 4] by simp
  moreover have "(0xF :: u32) = mask 4" by (simp add: mask_eq_exp_minus_1)
  ultimately show ?thesis by (simp add: cmd_decode_def unsigned_ucast_eq take_bit_eq_mod)
qed

lemma cmd_index_masked: "cmd_index (cmd_decode word) AND INDEX_MASK = cmd_index (cmd_decode word)"
  by (simp add: cmd_decode_def)

lemma cmd_encode_clear: "cmd_encode c AND CMD_GO = 0" "cmd_encode c AND CMD_ERROR = 0"
proof -
  have m: "CMD_GO = push_bit 31 1" "CMD_ERROR = push_bit 29 1" "CMD_WRITE = push_bit 30 1" "(0xF :: u32) = mask 4"
    "(7 :: u32) = mask 3" "INDEX_MASK = mask 12"
    by (simp_all add: mask_eq_exp_minus_1)
  have "\<not> bit (cmd_encode c) 31" "\<not> bit (cmd_encode c) 29"
    unfolding cmd_encode_def m
    by (auto simp: bit_or_iff bit_and_iff bit_push_bit_iff bit_mask_iff bit_ucast_iff)
  then show "cmd_encode c AND CMD_GO = 0" "cmd_encode c AND CMD_ERROR = 0"
    unfolding m by (subst and_exp_eq_0_iff, simp, simp)+
qed

lemma port_ok_write_cmd:
  assumes "port_ok p"
  shows "port_ok (write_cmd word p)"
proof -
  let ?c = "cmd_decode word"
  have entry: "\<forall>t \<in> set ((po_tables p)[unat (cmd_table ?c) := (po_tables p ! unat (cmd_table ?c))(cmd_index ?c := r)]).
      \<forall>i q. t i = Some q \<longrightarrow> i AND INDEX_MASK = i \<and> \<not> quad_is_zero q"
    if "\<forall>q. r = Some q \<longrightarrow> \<not> quad_is_zero q" for r
  proof
    fix t
    assume "t \<in> set ((po_tables p)[unat (cmd_table ?c) := (po_tables p ! unat (cmd_table ?c))(cmd_index ?c := r)])"
    then have "t \<in> insert ((po_tables p ! unat (cmd_table ?c))(cmd_index ?c := r)) (set (po_tables p))"
      using set_update_subset_insert by (rule subsetD [rotated])
    moreover have "po_tables p ! unat (cmd_table ?c) \<in> set (po_tables p)"
      using assms cmd_table_less [of word] by (intro nth_mem) (simp add: port_ok_def)
    ultimately show "\<forall>i q. t i = Some q \<longrightarrow> i AND INDEX_MASK = i \<and> \<not> quad_is_zero q"
      using assms that cmd_index_masked [of word] by (auto simp: port_ok_def split: if_splits)
  qed
  have regs: "length (to_regs q) = 4" for q by (cases q) simp
  have set: "port_ok (set_entry (cmd_table ?c) (cmd_index ?c) r q)"
    if "port_ok q" "po_tables q = po_tables p" "\<forall>x. r = Some x \<longrightarrow> \<not> quad_is_zero x" for r q
    using that entry [OF that(3)] by (simp add: port_ok_def set_entry_def)
  let ?p = "p\<lparr>po_last_cmd := cmd_encode ?c\<rparr>"
  have k: "commands_accounted_for (po_counters p)" using assms by (simp add: port_ok_def)
  have reply: "port_ok (q\<lparr>po_regs := r\<rparr>)" if "port_ok q" "length r = 4" for q r
    using that by (simp add: port_ok_def)
  have no_go: "port_ok (note_port (pk_no_go_update (\<lambda>n. n + 1)) ?p)"
    and unknown: "port_ok (note_port (pk_unknown_op_update (\<lambda>n. n + 1)) (note_port (pk_commands_update (\<lambda>n. n + 1)) ?p))"
    and written: "port_ok (note_port (pk_writes_update (\<lambda>n. n + 1)) (note_port (pk_commands_update (\<lambda>n. n + 1)) ?p))"
    and cleared: "port_ok (note_port (pk_writes_of_zero_update (\<lambda>n. n + 1))
        (note_port (pk_writes_update (\<lambda>n. n + 1)) (note_port (pk_commands_update (\<lambda>n. n + 1)) ?p)))"
    and read: "port_ok (note_port (pk_reads_update (\<lambda>n. n + 1)) (note_port (pk_commands_update (\<lambda>n. n + 1)) ?p))"
    and empty: "port_ok (note_port (pk_reads_of_empty_update (\<lambda>n. n + 1))
        (note_port (pk_reads_update (\<lambda>n. n + 1)) (note_port (pk_commands_update (\<lambda>n. n + 1)) ?p)))"
    using k assms cmd_encode_clear [of ?c] by (simp_all add: port_ok_def commands_accounted_for_def)
  consider "word AND CMD_GO = 0" | "word AND CMD_GO \<noteq> 0" "cmd_op_field ?c \<noteq> 0"
    | "word AND CMD_GO \<noteq> 0" "cmd_op_field ?c = 0" "cmd_write ?c" "quad_is_zero (from_regs (po_regs p))"
    | "word AND CMD_GO \<noteq> 0" "cmd_op_field ?c = 0" "cmd_write ?c" "\<not> quad_is_zero (from_regs (po_regs p))"
    | "word AND CMD_GO \<noteq> 0" "cmd_op_field ?c = 0" "\<not> cmd_write ?c" "(po_tables p ! unat (cmd_table ?c)) (cmd_index ?c) = None"
    | q where "word AND CMD_GO \<noteq> 0" "cmd_op_field ?c = 0" "\<not> cmd_write ?c" "(po_tables p ! unat (cmd_table ?c)) (cmd_index ?c) = Some q"
    by fastforce
  then show ?thesis
  proof cases
    case 1
    then show ?thesis using no_go by (simp add: write_cmd_def Let_def)
  next
    case 2
    then show ?thesis using unknown by (simp add: write_cmd_def Let_def)
  next
    case 3
    then show ?thesis using set [OF cleared, of None] by (simp add: write_cmd_def Let_def)
  next
    case 4
    then show ?thesis using set [OF written, of "Some (from_regs (po_regs p))"] by (simp add: write_cmd_def Let_def)
  next
    case 5
    then show ?thesis using reply [OF empty, of "[0, 0, 0, 0]"] by (simp add: write_cmd_def Let_def)
  next
    case 6
    then show ?thesis using reply [OF read, of "to_regs q"] regs by (simp add: write_cmd_def Let_def)
  qed
qed

definition acts :: "u32 \<Rightarrow> bool" where
  "acts word \<longleftrightarrow> word AND CMD_GO \<noteq> 0 \<and> cmd_op_field (cmd_decode word) = 0"

definition names :: "u32 \<Rightarrow> u8 \<Rightarrow> u16 \<Rightarrow> bool" where
  "names word table index \<longleftrightarrow> unat table mod TABLE_COUNT = unat (cmd_table (cmd_decode word))
     \<and> index AND INDEX_MASK = cmd_index (cmd_decode word)"

lemma entry_view_set_entry:
  assumes "length (po_tables p) = TABLE_COUNT"
  shows "entry_view table index (set_entry (cmd_table (cmd_decode word)) (cmd_index (cmd_decode word)) r p)
    = (if names word table index then (case r of None \<Rightarrow> Quad 0 0 0 0 | Some q \<Rightarrow> q) else entry_view table index p)"
  using assms cmd_table_less [of word]
  by (auto simp: entry_view_def port_entry_def table_at_def set_entry_def names_def nth_list_update)

text \<open>C27. A port is the table of its entries, absent ones zero: a write command stores the four data registers in
  the entry it names and in no other, a read command fetches the entry into the registers, and nothing
  else moves data. After any command the word shows neither the go bit nor an error, and the invariant of
  the port holds: it stores no zero entry and none beyond the index field, and accounts for every command.\<close>

theorem port_is_table:
  assumes ok: "port_ok p"
  shows "port_ok (write_cmd word p) \<and> port_ok (write_data slot val p) \<and> port_ok (port_reset p)
    \<and> read_cmd (write_cmd word p) AND (CMD_GO OR CMD_ERROR) = 0
    \<and> entry_view table index (write_cmd word p)
      = (if acts word \<and> cmd_write (cmd_decode word) \<and> names word table index then from_regs (po_regs p)
         else entry_view table index p)
    \<and> po_regs (write_cmd word p)
      = (if acts word \<and> \<not> cmd_write (cmd_decode word)
         then to_regs (entry_view (cmd_table (cmd_decode word)) (cmd_index (cmd_decode word)) p) else po_regs p)
    \<and> entry_view table index (write_data slot val p) = entry_view table index p"
proof (intro conjI)
  have len: "length (po_tables p) = TABLE_COUNT" using ok by (simp add: port_ok_def)
  show "port_ok (write_cmd word p)" "port_ok (write_data slot val p)" "port_ok (port_reset p)"
    using ok by (simp_all add: port_ok_write_cmd port_ok_write_data port_ok_reset)
  then show "read_cmd (write_cmd word p) AND (CMD_GO OR CMD_ERROR) = 0"
    by (simp only: bit.conj_disj_distrib read_cmd_def port_ok_def simp_thms or.right_neutral)
  show "entry_view table index (write_data slot val p) = entry_view table index p"
    by (simp add: entry_view_def port_entry_def table_at_def write_data_def)
  have view: "entry_view table index (p\<lparr>po_last_cmd := w, po_counters := k, po_regs := r\<rparr>) = entry_view table index p"
    "entry_view table index (p\<lparr>po_last_cmd := w, po_counters := k\<rparr>) = entry_view table index p" for w k r
    by (simp_all add: entry_view_def port_entry_def table_at_def)
  have entry: "(po_tables p ! unat (cmd_table (cmd_decode word))) (cmd_index (cmd_decode word))
      = port_entry (cmd_table (cmd_decode word)) (cmd_index (cmd_decode word)) p"
    using cmd_table_less [of word] cmd_index_masked [of word] by (simp add: port_entry_def table_at_def)
  show "po_regs (write_cmd word p)
      = (if acts word \<and> \<not> cmd_write (cmd_decode word)
         then to_regs (entry_view (cmd_table (cmd_decode word)) (cmd_index (cmd_decode word)) p) else po_regs p)"
    by (simp add: write_cmd_def acts_def set_entry_def entry entry_view_def Let_def split: option.split)
  have zero: "quad_is_zero q \<Longrightarrow> q = Quad 0 0 0 0" for q by (simp add: quad_is_zero_def)
  show "entry_view table index (write_cmd word p)
      = (if acts word \<and> cmd_write (cmd_decode word) \<and> names word table index then from_regs (po_regs p)
         else entry_view table index p)"
    by (simp add: write_cmd_def acts_def entry_view_set_entry len Let_def split: option.split)
      (auto simp: entry_view_def port_entry_def table_at_def dest: zero)
qed

text \<open>An entry stored in a fresh port reads back, and the next one stays zero.\<close>

theorem port_is_table_witness:
  "let p = write_cmd 0xC0003040 (port_new\<lparr>po_regs := [4, 3, 2, 1]\<rparr>)
   in entry_view 3 0x40 p = Quad 1 2 3 4 \<and> entry_view 3 0x41 p = Quad 0 0 0 0 \<and> read_cmd p = 0x40003040"
proof -
  define p where "p = port_new\<lparr>po_regs := [4, 3, 2, 1]\<rparr>"
  have ok: "port_ok p"
    by (simp add: p_def port_ok_def port_new_def commands_accounted_for_def port_counters_zero_def)
  have d: "cmd_decode 0xC0003040 = \<lparr>cmd_write = True, cmd_op_field = 0, cmd_arg2 = 0, cmd_table = 3, cmd_index = 0x40\<rparr>"
    by (simp add: cmd_decode_def)
  have regs: "po_regs p = [4, 3, 2, 1]" and fresh: "entry_view 3 0x41 p = Quad 0 0 0 0"
    by (simp_all add: p_def port_new_def entry_view_def port_entry_def table_at_def)
  have "entry_view 3 0x40 (write_cmd 0xC0003040 p) = Quad 1 2 3 4"
    using port_is_table [OF ok, where word = "0xC0003040" and table = 3 and index = "0x40"]
    by (simp add: d acts_def names_def regs from_regs_def)
  moreover have "entry_view 3 0x41 (write_cmd 0xC0003040 p) = Quad 0 0 0 0"
    using port_is_table [OF ok, where word = "0xC0003040" and table = 3 and index = "0x41"]
    by (simp add: d acts_def names_def fresh)
  moreover have "read_cmd (write_cmd 0xC0003040 p) = 0x40003040"
    by (simp add: read_cmd_def write_cmd_def d cmd_encode_def set_entry_def Let_def)
  ultimately show ?thesis unfolding p_def by simp
qed

end
