(* ===== verification/Lue_Engine.thy ===== *)
theory Lue_Engine
  imports Lue_Port
begin

text \<open>
  \<open>src/soc/lue/engine.rs\<close>: a frame against the rules of a table, and \<open>Lue::classify\<close> of \<open>src/soc/lue/mod.rs\<close>. The
  reasons of a refusal, string constants in the code, are the constructors of \<open>reason\<close>.
\<close>

unbundle bit_operations_syntax

abbreviation ETHERNET_HEADER_LEN :: nat where "ETHERNET_HEADER_LEN \<equiv> 14"
abbreviation DEFAULT_EXTRACTOR :: u8 where "DEFAULT_EXTRACTOR \<equiv> 0x10"
abbreviation FRAME_LENGTH :: u8 where "FRAME_LENGTH \<equiv> 0x24"

definition TAG_ETHERTYPES :: "u16 list" where
  "TAG_ETHERTYPES = [0x8100, 0x88A8]"

definition TAG_FIELD_CODES :: "u8 list" where
  "TAG_FIELD_CODES = [0x03, 0x04]"

section \<open>Fields of a frame\<close>

datatype presence = Present | Absent | Presence_Unknown

definition field_presence :: "field \<Rightarrow> u8 list \<Rightarrow> presence" where
  "field_presence f frame =
     (if length frame < ETHERNET_HEADER_LEN then Presence_Unknown
      else
        let code = field_code f
        in if code \<notin> set TAG_FIELD_CODES
           then (if code = 0x00 \<or> code = 0x01 \<or> code = 0x02 then Present else Presence_Unknown)
           else
             let ethertype = push_bit 8 (ucast (frame ! 12)) OR ucast (frame ! 13) :: u16
             in if ethertype \<in> set TAG_ETHERTYPES then Presence_Unknown else Absent)"

definition be :: "u8 list \<Rightarrow> u64" where
  "be b = foldl (\<lambda>acc x. push_bit 8 acc OR ucast x) 0 b"

text \<open>\<open>frame.get(a..b)\<close>\<close>

definition get_range :: "nat \<Rightarrow> nat \<Rightarrow> 'a list \<Rightarrow> 'a list option" where
  "get_range a b xs = (if b \<le> length xs then Some (take (b - a) (drop a xs)) else None)"

text \<open>The arms for \<open>Observed\<close> and \<open>Unknown\<close> are the same.\<close>

definition extract_code :: "u8 \<Rightarrow> u8 list \<Rightarrow> u64 option" where
  "extract_code n frame =
     (if n = 0x00 then Some (be (take 6 frame))
      else if n = 0x01 then Some (be (take 6 (drop 6 frame)))
      else if n = FRAME_LENGTH then Some (of_nat (length frame))
      else if n = DEFAULT_EXTRACTOR then
        (if field_presence (field_from_code (hd TAG_FIELD_CODES)) frame \<noteq> Absent then None
         else map_option be (get_range ETHERNET_HEADER_LEN (ETHERNET_HEADER_LEN + 2) frame))
      else None)"

definition extract_field :: "field \<Rightarrow> u8 list \<Rightarrow> u64 option" where
  "extract_field f frame =
     (if length frame < ETHERNET_HEADER_LEN then None
      else case f of
             F_EtherType \<Rightarrow> Some (be (take 2 (drop 12 frame)))
           | F_Observed n \<Rightarrow> extract_code n frame
           | F_Unknown n \<Rightarrow> extract_code n frame)"

section \<open>A clause\<close>

text \<open>The window of a value: \<open>bits\<close> bits from \<open>anchor\<close>\<close>

definition window :: "u32 \<Rightarrow> u32 \<Rightarrow> u64 \<Rightarrow> u64" where
  "window anchor bits x =
     drop_bit (unat (min anchor 63)) x AND (if bits \<ge> 64 then -1 else push_bit (unat bits) 1 - 1)"

definition compare :: "lue_op \<Rightarrow> u64 \<Rightarrow> u64 \<Rightarrow> u32 \<Rightarrow> u32 \<Rightarrow> bool option" where
  "compare op value operand anchor bits =
     (let v = window anchor bits value; o' = window anchor bits operand
      in case op of
           Op_Never \<Rightarrow> Some False
         | Op_Always \<Rightarrow> Some True
         | Op_Eq \<Rightarrow> Some (v = o')
         | Op_Ne \<Rightarrow> Some (v \<noteq> o')
         | Op_Le \<Rightarrow> Some (v \<le> o')
         | Op_Ge \<Rightarrow> Some (v \<ge> o')
         | Op_Exists \<Rightarrow> None
         | Op_NotExists \<Rightarrow> None
         | Op_Unknown _ \<Rightarrow> None)"

datatype reason =
    Field_Not_Established \<comment> \<open>\<open>"field has no established frame field"\<close>\<close>
  | Presence_Not_Established \<comment> \<open>\<open>"field presence is not established"\<close>\<close>
  | Window_Empty \<comment> \<open>\<open>"clause window is empty"\<close>\<close>
  | Operator_Unknown \<comment> \<open>\<open>"operator is not one the model acts on"\<close>\<close>
  | Entry_Not_Clause \<comment> \<open>\<open>"entry is not a clause"\<close>\<close>
  | Rule_Past_End \<comment> \<open>\<open>"rule ran past the last entry"\<close>\<close>
  | Rule_Too_Long \<comment> \<open>\<open>"rule longer than any observed one"\<close>\<close>
  | No_Rules \<comment> \<open>\<open>"no rules programmed"\<close>\<close>

definition test_clause :: "clause \<Rightarrow> u8 list \<Rightarrow> reason + bool" where
  "test_clause c frame =
     (if cl_op c = Op_Exists \<or> cl_op c = Op_NotExists then
        (case field_presence (cl_field c) frame of
           Present \<Rightarrow> Inr (cl_op c = Op_Exists)
         | Absent \<Rightarrow> Inr (cl_op c = Op_NotExists)
         | Presence_Unknown \<Rightarrow> Inl Presence_Not_Established)
      else if compared_bits c = 0 then Inl Window_Empty
      else
        case extract_field (cl_field c) frame of
          None \<Rightarrow> Inl Field_Not_Established
        | Some value \<Rightarrow>
            (case compare (cl_op c) value (cl_operand c) (ucast (cl_anchor c)) (compared_bits c) of
               None \<Rightarrow> Inl Operator_Unknown
             | Some b \<Rightarrow> Inr b))"

section \<open>Rules\<close>

datatype verdict = NoMatch | Undecidable reason | Match u8 "action list"

record engine_counters =
  ek_frames_classified :: u64
  ek_matched :: u64
  ek_no_match :: u64
  ek_undecidable_field :: u64
  ek_undecidable_presence :: u64
  ek_undecidable_window :: u64
  ek_undecidable_operator :: u64
  ek_undecidable_entry :: u64
  ek_unterminated_rules :: u64
  ek_no_rules :: u64

definition engine_counters_zero :: engine_counters where
  "engine_counters_zero =
     \<lparr>ek_frames_classified = 0, ek_matched = 0, ek_no_match = 0, ek_undecidable_field = 0,
      ek_undecidable_presence = 0, ek_undecidable_window = 0, ek_undecidable_operator = 0,
      ek_undecidable_entry = 0, ek_unterminated_rules = 0, ek_no_rules = 0\<rparr>"

definition verdicts_accounted_for :: "engine_counters \<Rightarrow> bool" where
  "verdicts_accounted_for c \<longleftrightarrow>
     ek_frames_classified c = ek_matched c + ek_no_match c + ek_undecidable_field c + ek_undecidable_presence c
       + ek_undecidable_window c + ek_undecidable_operator c + ek_undecidable_entry c + ek_unterminated_rules c
       + ek_no_rules c"

definition counters_add :: "engine_counters \<Rightarrow> engine_counters \<Rightarrow> engine_counters" where
  "counters_add other c =
     \<lparr>ek_frames_classified = ek_frames_classified c + ek_frames_classified other,
      ek_matched = ek_matched c + ek_matched other, ek_no_match = ek_no_match c + ek_no_match other,
      ek_undecidable_field = ek_undecidable_field c + ek_undecidable_field other,
      ek_undecidable_presence = ek_undecidable_presence c + ek_undecidable_presence other,
      ek_undecidable_window = ek_undecidable_window c + ek_undecidable_window other,
      ek_undecidable_operator = ek_undecidable_operator c + ek_undecidable_operator other,
      ek_undecidable_entry = ek_undecidable_entry c + ek_undecidable_entry other,
      ek_unterminated_rules = ek_unterminated_rules c + ek_unterminated_rules other,
      ek_no_rules = ek_no_rules c + ek_no_rules other\<rparr>"

record rule_start =
  rs_table :: u8
  rs_index :: u16

text \<open>The counter of a clause that cannot be decided\<close>

definition count_reason :: "reason \<Rightarrow> engine_counters \<Rightarrow> engine_counters" where
  "count_reason r =
     (case r of
        Field_Not_Established \<Rightarrow> ek_undecidable_field_update (\<lambda>n. n + 1)
      | Presence_Not_Established \<Rightarrow> ek_undecidable_presence_update (\<lambda>n. n + 1)
      | Window_Empty \<Rightarrow> ek_undecidable_window_update (\<lambda>n. n + 1)
      | _ \<Rightarrow> ek_undecidable_operator_update (\<lambda>n. n + 1))"

text \<open>The loop over the clauses: whether all match, or why one cannot be decided\<close>

fun test_clauses :: "clause list \<Rightarrow> u8 list \<Rightarrow> bool \<Rightarrow> reason + bool" where
  "test_clauses [] frame all_matched = Inr all_matched"
| "test_clauses (c # cs) frame all_matched =
     (case test_clause c frame of
        Inl r \<Rightarrow> Inl r
      | Inr m \<Rightarrow> test_clauses cs frame (all_matched \<and> m))"

definition evaluate_rule :: "lue_port \<Rightarrow> rule_start \<Rightarrow> u8 list \<Rightarrow> engine_counters \<Rightarrow> verdict \<times> engine_counters" where
  "evaluate_rule port start frame k =
     (case rr_result (port_rule (rs_table start) (rs_index start) port) of
        Inl NotAClause \<Rightarrow> (Undecidable Entry_Not_Clause, ek_undecidable_entry_update (\<lambda>n. n + 1) k)
      | Inl RanPastTheEnd \<Rightarrow> (Undecidable Rule_Past_End, ek_unterminated_rules_update (\<lambda>n. n + 1) k)
      | Inl TooLong \<Rightarrow> (Undecidable Rule_Too_Long, ek_unterminated_rules_update (\<lambda>n. n + 1) k)
      | Inr rule \<Rightarrow>
          (case test_clauses (ru_clauses rule) frame True of
             Inl r \<Rightarrow> (Undecidable r, count_reason r k)
           | Inr True \<Rightarrow>
               (Match (case ru_actions rule of [] \<Rightarrow> 0 | a # _ \<Rightarrow> ac_priority a) (ru_actions rule),
                ek_matched_update (\<lambda>n. n + 1) k)
           | Inr False \<Rightarrow> (NoMatch, ek_no_match_update (\<lambda>n. n + 1) k)))"

text \<open>What \<open>classify\<close> takes over of the tally of the rules\<close>

definition carry_over :: "engine_counters \<Rightarrow> engine_counters \<Rightarrow> engine_counters" where
  "carry_over per_rule k =
     k\<lparr>ek_undecidable_field := ek_undecidable_field k + ek_undecidable_field per_rule,
       ek_undecidable_presence := ek_undecidable_presence k + ek_undecidable_presence per_rule,
       ek_undecidable_window := ek_undecidable_window k + ek_undecidable_window per_rule,
       ek_undecidable_operator := ek_undecidable_operator k + ek_undecidable_operator per_rule,
       ek_undecidable_entry := ek_undecidable_entry k + ek_undecidable_entry per_rule,
       ek_unterminated_rules := ek_unterminated_rules k + ek_unterminated_rules per_rule\<rparr>"

text \<open>The loop of \<open>Engine::classify\<close>\<close>

fun classify_rules :: "lue_port \<Rightarrow> u8 list \<Rightarrow> rule_start list \<Rightarrow> engine_counters \<Rightarrow> (u8 \<times> action list) option
    \<Rightarrow> engine_counters \<Rightarrow> verdict \<times> engine_counters" where
  "classify_rules port frame [] per_rule best k =
     (case best of
        Some (priority, actions) \<Rightarrow> (Match priority actions, ek_matched_update (\<lambda>n. n + 1) k)
      | None \<Rightarrow> (NoMatch, ek_no_match_update (\<lambda>n. n + 1) k))"
| "classify_rules port frame (start # rules) per_rule best k =
     (case evaluate_rule port start frame per_rule of
        (Match priority actions, per_rule') \<Rightarrow>
          classify_rules port frame rules per_rule'
            (if (case best of None \<Rightarrow> True | Some (p, _) \<Rightarrow> priority > p) then Some (priority, actions) else best) k
      | (NoMatch, per_rule') \<Rightarrow> classify_rules port frame rules per_rule' best k
      | (Undecidable r, per_rule') \<Rightarrow> (Undecidable r, carry_over per_rule' k))"

definition engine_classify :: "lue_port \<Rightarrow> rule_start list \<Rightarrow> u8 list \<Rightarrow> engine_counters \<Rightarrow> verdict \<times> engine_counters" where
  "engine_classify port rules frame k =
     classify_rules port frame rules engine_counters_zero None (ek_frames_classified_update (\<lambda>n. n + 1) k)"

record classifier_binding =
  cb_instance :: nat
  cb_table :: u8

definition binding_default :: classifier_binding where
  "binding_default = \<lparr>cb_instance = 1, cb_table = 8\<rparr>"

text \<open>The starts of the rules of the bound table, as the classifier collects them\<close>

definition bound_port :: "classifier_binding \<Rightarrow> lue \<Rightarrow> lue_port" where
  "bound_port binding l = l ! (cb_instance binding mod 2)"

definition bound_starts :: "classifier_binding \<Rightarrow> lue \<Rightarrow> rule_start list" where
  "bound_starts binding l =
     map (\<lambda>index. \<lparr>rs_table = cb_table binding, rs_index = index\<rparr>)
       (rule_starts (cb_table binding) (bound_port binding l))"

definition lue_classify :: "classifier_binding \<Rightarrow> u8 list \<Rightarrow> lue \<Rightarrow> verdict \<times> engine_counters" where
  "lue_classify binding frame l =
     (if bound_starts binding l = []
      then (Undecidable No_Rules, ek_no_rules_update (\<lambda>n. n + 1) (ek_frames_classified_update (\<lambda>n. n + 1) engine_counters_zero))
      else engine_classify (bound_port binding l) (bound_starts binding l) frame engine_counters_zero)"

section \<open>The verdict\<close>

text \<open>What a rule says of a frame, counters aside\<close>

definition rule_verdict :: "lue_port \<Rightarrow> u8 list \<Rightarrow> rule_start \<Rightarrow> verdict" where
  "rule_verdict port frame start = fst (evaluate_rule port start frame engine_counters_zero)"

text \<open>The reference: the first refusal decides; else the matches, and of those with the greatest priority the
  first\<close>

fun first_refusal :: "verdict list \<Rightarrow> reason option" where
  "first_refusal [] = None"
| "first_refusal (v # vs) = (case v of Undecidable r \<Rightarrow> Some r | _ \<Rightarrow> first_refusal vs)"

fun matches_of :: "verdict list \<Rightarrow> (u8 \<times> action list) list" where
  "matches_of [] = []"
| "matches_of (v # vs) = (case v of Match p as \<Rightarrow> (p, as) # matches_of vs | _ \<Rightarrow> matches_of vs)"

definition best_match :: "(u8 \<times> action list) list \<Rightarrow> u8 \<times> action list" where
  "best_match ms = hd (filter (\<lambda>m. fst m = Max (fst ` set ms)) ms)"

definition reference_verdict :: "verdict list \<Rightarrow> verdict" where
  "reference_verdict vs =
     (case first_refusal vs of
        Some r \<Rightarrow> Undecidable r
      | None \<Rightarrow> if matches_of vs = [] then NoMatch else case best_match (matches_of vs) of (p, as) \<Rightarrow> Match p as)"

lemma evaluate_rule_verdict: "fst (evaluate_rule port start frame k) = rule_verdict port frame start"
  by (simp add: evaluate_rule_def rule_verdict_def split: sum.split rule_error.split bool.split)

definition better :: "(u8 \<times> action list) option \<Rightarrow> u8 \<times> action list \<Rightarrow> (u8 \<times> action list) option" where
  "better best m = (if (case best of None \<Rightarrow> True | Some (p, _) \<Rightarrow> fst m > p) then Some m else best)"

lemma better_Some: "better (Some b) m = (if fst m > fst b then Some m else Some b)"
  by (simp add: better_def case_prod_unfold)

lemma fold_better:
  "foldl better None ms = (if ms = [] then None else Some (best_match ms))"
proof (induction ms rule: rev_induct)
  case (snoc m ms)
  show ?case
  proof (cases "ms = []")
    case False
    have fin: "finite (fst ` set ms)" "fst ` set ms \<noteq> {}" using False by simp_all
    then have "\<exists>x \<in> set ms. fst x = Max (fst ` set ms)" using Max_in [OF fin] by (metis imageE)
    then have ne: "filter (\<lambda>x. fst x = Max (fst ` set ms)) ms \<noteq> []" by (simp add: filter_empty_conv)
    then have top: "fst (best_match ms) = Max (fst ` set ms)"
      unfolding best_match_def using hd_in_set [OF ne] by (simp only: set_filter mem_Collect_eq)
    have max: "Max (fst ` set (ms @ [m])) = max (fst m) (Max (fst ` set ms))" using fin by simp
    have step: "foldl better None (ms @ [m])
        = (if fst m > Max (fst ` set ms) then Some m else Some (best_match ms))"
      using snoc False top by (simp add: better_Some del: Max_less_iff)
    show ?thesis
    proof (cases "fst m > Max (fst ` set ms)")
      case True
      have "fst x \<le> Max (fst ` set ms)" if "x \<in> set ms" for x using fin that by simp
      then have "\<forall>x \<in> set ms. fst x \<noteq> fst m" using True by force
      then have "filter (\<lambda>x. fst x = fst m) ms = []" by (simp add: filter_empty_conv)
      then have "best_match (ms @ [m]) = m" unfolding best_match_def max using True by (simp add: max.absorb1)
      with True show ?thesis unfolding step by (simp del: Max_less_iff)
    next
      case lower: False
      then have "best_match (ms @ [m]) = best_match ms" unfolding best_match_def max using ne by (simp add: max_def)
      with lower show ?thesis unfolding step by (simp del: Max_less_iff)
    qed
  qed (simp add: better_def best_match_def)
qed simp

lemma classify_rules_verdict:
  "fst (classify_rules port frame rules per_rule best k)
   = (case first_refusal (map (rule_verdict port frame) rules) of
        Some r \<Rightarrow> Undecidable r
      | None \<Rightarrow> (case foldl better best (matches_of (map (rule_verdict port frame) rules)) of
                   None \<Rightarrow> NoMatch | Some (p, as) \<Rightarrow> Match p as))"
proof (induction rules arbitrary: per_rule best)
  case (Cons start rules)
  obtain v k' where v: "evaluate_rule port start frame per_rule = (v, k')" by (cases "evaluate_rule port start frame per_rule")
  then have "rule_verdict port frame start = v" using evaluate_rule_verdict [of port start frame per_rule] by simp
  then have "map (rule_verdict port frame) (start # rules) = v # map (rule_verdict port frame) rules" by simp
  then show ?case
    using Cons.IH
    by (cases v; cases "first_refusal (map (rule_verdict port frame) rules)"; cases best)
      (simp_all add: v better_def split: prod.split)
qed (simp split: option.split)

section \<open>The counters\<close>

definition refusals :: "engine_counters \<Rightarrow> u64" where
  "refusals k = ek_undecidable_field k + ek_undecidable_presence k + ek_undecidable_window k
     + ek_undecidable_operator k + ek_undecidable_entry k + ek_unterminated_rules k"

lemma evaluate_rule_refusals:
  "evaluate_rule port start frame k = (v, k') \<Longrightarrow>
   refusals k' = refusals k + (case v of Undecidable _ \<Rightarrow> 1 | _ \<Rightarrow> 0)"
  by (auto simp: evaluate_rule_def refusals_def count_reason_def
      split: sum.splits rule_error.splits bool.splits reason.splits)

definition owes :: "u64 \<Rightarrow> engine_counters \<Rightarrow> bool" where
  "owes n k \<longleftrightarrow> ek_frames_classified k = ek_matched k + ek_no_match k + refusals k + ek_no_rules k + n"

lemma owes_0: "owes 0 k \<longleftrightarrow> verdicts_accounted_for k"
  by (simp add: owes_def refusals_def verdicts_accounted_for_def algebra_simps)

lemma classify_rules_counts:
  "refusals per_rule = 0 \<Longrightarrow> owes 1 k \<Longrightarrow> owes 0 (snd (classify_rules port frame rules per_rule best k))"
proof (induction rules arbitrary: per_rule best)
  case Nil
  then show ?case by (simp add: owes_def refusals_def split: option.split)
next
  case (Cons start rules)
  obtain v k' where v: "evaluate_rule port start frame per_rule = (v, k')" by (cases "evaluate_rule port start frame per_rule")
  show ?case
  proof (cases v)
    case (Undecidable r)
    have "refusals (carry_over k' k) = refusals k + refusals k'"
      by (simp add: refusals_def carry_over_def)
    then show ?thesis
      using Cons.prems evaluate_rule_refusals [OF v] Undecidable by (simp add: v owes_def carry_over_def)
  qed (use Cons evaluate_rule_refusals [OF v] in \<open>simp_all add: v\<close>)
qed

lemma classify_rules_frames:
  "ek_frames_classified (snd (classify_rules port frame rules per_rule best k)) = ek_frames_classified k"
  by (induction rules arbitrary: per_rule best) (auto simp: carry_over_def split: option.split prod.split verdict.split)

text \<open>C26. The classifier computes the reference verdict: over the rules of the bound table in the order of their
  starts, the first rule that cannot be decided makes the frame undecidable, for its reason; else the
  frame matches the first of the rules of greatest priority that match, with its whole list of actions; else
  none. A table without rules is undecidable. Every frame leaves exactly one verdict in the counters.\<close>

theorem classify_is_reference:
  "fst (lue_classify binding frame l)
      = (if bound_starts binding l = [] then Undecidable No_Rules
         else reference_verdict (map (rule_verdict (bound_port binding l) frame) (bound_starts binding l)))
    \<and> verdicts_accounted_for (snd (lue_classify binding frame l))
    \<and> ek_frames_classified (snd (lue_classify binding frame l)) = 1"
proof (cases "bound_starts binding l = []")
  case True
  then show ?thesis by (simp add: lue_classify_def verdicts_accounted_for_def engine_counters_zero_def)
next
  case False
  have zero: "refusals engine_counters_zero = 0" "owes 1 (ek_frames_classified_update (\<lambda>n. n + 1) engine_counters_zero)"
    "ek_frames_classified engine_counters_zero = 0"
    by (simp_all add: refusals_def owes_def engine_counters_zero_def)
  have "verdicts_accounted_for (snd (lue_classify binding frame l))"
    using False classify_rules_counts [OF zero(1,2)] by (simp add: lue_classify_def engine_classify_def owes_0)
  moreover have "ek_frames_classified (snd (lue_classify binding frame l)) = 1"
    using False by (simp add: lue_classify_def engine_classify_def classify_rules_frames zero)
  ultimately show ?thesis
    using False
    by (simp add: lue_classify_def engine_classify_def classify_rules_verdict reference_verdict_def fold_better
        split: option.split)
qed

end
