(* ===== verification/Olt_Mailbox.thy ===== *)
theory Olt_Mailbox
  imports Olt_Mpcp
begin

text \<open>
  \<open>src/soc/olt/mailbox.rs\<close> and \<open>report.rs\<close>: the queue numbers and commands of the mailbox, its addresses, the
  words of a downstream frame, the assembly of an upstream frame, and the template of REPORT frames.
\<close>

unbundle bit_operations_syntax

section \<open>Queues and commands\<close>

abbreviation BITMAP_BASE :: u32 where "BITMAP_BASE \<equiv> 0x01001438"
abbreviation CMD_STATUS_BASE :: u32 where "CMD_STATUS_BASE \<equiv> 0x010015C0"
abbreviation DATA_BASE :: u32 where "DATA_BASE \<equiv> 0x010015C4"
abbreviation STRIDE :: u32 where "STRIDE \<equiv> 0x200"
abbreviation BLOCK_COUNT :: u32 where "BLOCK_COUNT \<equiv> 8"
abbreviation STATUS_DATA_READY :: u32 where "STATUS_DATA_READY \<equiv> 0x200"

datatype slot = Slot u8

primrec slot_u8 :: "slot \<Rightarrow> u8" where "slot_u8 (Slot n) = n"

definition SLOT_CONTROL :: slot where "SLOT_CONTROL = Slot 0x10"
definition SLOT_DATA :: slot where "SLOT_DATA = Slot 0x0F"

definition slot_for_frame :: "frame \<Rightarrow> slot" where
  "slot_for_frame f =
     (case ether_type_of_frame f of
        Some et \<Rightarrow> if et \<in> {ET_Mpcp, ET_SlowProtocol, ET_Eapol} then SLOT_CONTROL else SLOT_DATA
      | None \<Rightarrow> SLOT_DATA)"

definition bitmap_position :: "slot \<Rightarrow> nat \<times> nat" where
  "bitmap_position s = (unat (drop_bit 5 (slot_u8 s)), unat (slot_u8 s AND 0x1F))"

datatype command = Cmd_Read slot | Cmd_Write u8 nat bool

abbreviation READ_BIT :: u32 where "READ_BIT \<equiv> 0x00400000"
abbreviation WRITE_BIT :: u32 where "WRITE_BIT \<equiv> 0x00200000"
abbreviation MPCP_QUEUE :: u32 where "MPCP_QUEUE \<equiv> 0x20"

primrec command_encode :: "command \<Rightarrow> u32" where
  "command_encode (Cmd_Read s) = READ_BIT OR (ucast (slot_u8 s) AND 0xFF)"
| "command_encode (Cmd_Write channel len mpcp) =
     WRITE_BIT OR (if mpcp then MPCP_QUEUE else 0) OR (ucast channel AND 0x1F)
       OR push_bit 10 (of_nat len AND 0x7FF)"

definition command_decode :: "u32 \<Rightarrow> command option" where
  "command_decode val =
     (if val AND READ_BIT \<noteq> 0 then Some (Cmd_Read (Slot (ucast (val AND 0xFF))))
      else if val AND WRITE_BIT \<noteq> 0 then
        Some (Cmd_Write (ucast (val AND 0x1F)) (unat (drop_bit 10 val AND 0x7FF)) (val AND MPCP_QUEUE \<noteq> 0))
      else None)"

definition block_index :: "u32 \<Rightarrow> u32 \<Rightarrow> u32 option" where
  "block_index addr base =
     (if addr < base then None
      else let delta = addr - base; idx = delta div STRIDE
           in if delta mod STRIDE = 0 \<and> idx < BLOCK_COUNT then Some idx else None)"

definition mailbox_claims :: "u32 \<Rightarrow> bool" where
  "mailbox_claims addr \<longleftrightarrow>
     (\<exists>base \<in> set [BITMAP_BASE, CMD_STATUS_BASE, DATA_BASE]. block_index addr base \<noteq> None)"

section \<open>Upstream: assembling a frame\<close>

definition word_count :: "nat \<Rightarrow> nat" where
  "word_count len =
     (let total = len + 6; n = total div 4 - 2
      in 1 + (if total mod 4 \<noteq> 0 then n + 1 else n))"

record pending =
  pd_data_addr :: u32
  pd_len :: nat
  pd_words_expected :: nat
  pd_words :: "u32 list"

record tx_assembler =
  ta_pending :: "pending option"
  ta_dropped :: u64

definition assembler_default :: tx_assembler where
  "assembler_default = \<lparr>ta_pending = None, ta_dropped = 0\<rparr>"

abbreviation ETHERNET_HEADER_LEN :: nat where "ETHERNET_HEADER_LEN \<equiv> 14"
abbreviation ALIGN_PAD :: nat where "ALIGN_PAD \<equiv> 2"
abbreviation MAX_WORDS :: nat where "MAX_WORDS \<equiv> 512"

definition tx_begin :: "u32 \<Rightarrow> nat \<Rightarrow> tx_assembler \<Rightarrow> tx_assembler" where
  "tx_begin addr len a =
     (if len < ETHERNET_HEADER_LEN then a
      else case block_index addr CMD_STATUS_BASE of
             None \<Rightarrow> a
           | Some block \<Rightarrow>
               a\<lparr>ta_dropped := (if ta_pending a \<noteq> None then ta_dropped a + 1 else ta_dropped a),
                 ta_pending := Some \<lparr>pd_data_addr = DATA_BASE + block * STRIDE, pd_len = len,
                                     pd_words_expected = word_count len, pd_words = []\<rparr>\<rparr>)"

definition push_word :: "u32 \<Rightarrow> u32 \<Rightarrow> tx_assembler \<Rightarrow> frame option \<times> tx_assembler" where
  "push_word addr val a =
     (case ta_pending a of
        None \<Rightarrow> (None, a)
      | Some p0 \<Rightarrow>
          if pd_data_addr p0 \<noteq> addr then (None, a)
          else
            let p = p0\<lparr>pd_words := pd_words p0 @ [val]\<rparr>
            in if length (pd_words p) > MAX_WORDS then
                 (None, a\<lparr>ta_pending := None, ta_dropped := ta_dropped a + 1\<rparr>)
               else if length (pd_words p) < pd_words_expected p then (None, a\<lparr>ta_pending := Some p\<rparr>)
               else
                 let raw = concat (map w_u32 (pd_words p))
                 in if ALIGN_PAD + pd_len p \<le> length raw
                    then (Some (take (pd_len p) (drop ALIGN_PAD raw)), a\<lparr>ta_pending := None\<rparr>)
                    else (None, a\<lparr>ta_pending := None, ta_dropped := ta_dropped a + 1\<rparr>))"

definition is_assembling :: "tx_assembler \<Rightarrow> bool" where
  "is_assembling a \<longleftrightarrow> ta_pending a \<noteq> None"

definition assembler_reset :: "tx_assembler \<Rightarrow> tx_assembler" where
  "assembler_reset a = a\<lparr>ta_pending := None\<rparr>"

section \<open>Downstream: the words of a frame\<close>

text \<open>\<open>chunks(4)\<close>, each packed from the top byte down\<close>

fun chunk_words :: "u8 list \<Rightarrow> u32 list" where
  "chunk_words (a # b # c # d # rest) = be_word a b c d # chunk_words rest"
| "chunk_words [a, b, c] = [be_word a b c 0]"
| "chunk_words [a, b] = [be_word a b 0 0]"
| "chunk_words [a] = [be_word a 0 0 0]"
| "chunk_words [] = []"

text \<open>The first two bytes, in the low half of the word that carries the length\<close>

fun head_bytes :: "frame \<Rightarrow> u32" where
  "head_bytes [] = 0"
| "head_bytes [a] = push_bit 8 (ucast a)"
| "head_bytes (a # b # _) = push_bit 8 (ucast a) OR ucast b"

definition encode_frame :: "frame \<Rightarrow> u32 list" where
  "encode_frame f =
     0 # (push_bit 16 (of_nat (length f + 6) AND 0x7FF) OR head_bytes f) # chunk_words (drop 2 f)"

section \<open>The template of REPORT frames\<close>

abbreviation TEMPLATE_BASE :: u32 where "TEMPLATE_BASE \<equiv> 0x010004D8"
abbreviation OFF_LENGTH_AND_OFFSET :: u32 where "OFF_LENGTH_AND_OFFSET \<equiv> 0x00"
abbreviation OFF_TOTAL :: u32 where "OFF_TOTAL \<equiv> 0x54"
abbreviation OFFSET_MARKER :: u8 where "OFFSET_MARKER \<equiv> 0x80"
abbreviation MIN_MPCPDU_LEN :: u16 where "MIN_MPCPDU_LEN \<equiv> 20"

record template =
  tp_length :: u16
  tp_time_offset :: u8
  tp_total :: u16
  tp_programmed :: bool

definition template_default :: template where
  "template_default = \<lparr>tp_length = 0, tp_time_offset = 0, tp_total = 0, tp_programmed = False\<rparr>"

definition template_is_armed :: "template \<Rightarrow> bool" where
  "template_is_armed t \<longleftrightarrow> tp_programmed t \<and> tp_length t \<ge> MIN_MPCPDU_LEN"

definition template_observe_write :: "u32 \<Rightarrow> u32 \<Rightarrow> template \<Rightarrow> bool \<times> template" where
  "template_observe_write addr val t =
     (if addr < TEMPLATE_BASE then (False, t)
      else if addr - TEMPLATE_BASE = OFF_LENGTH_AND_OFFSET then
        (True, t\<lparr>tp_length := ucast (drop_bit 16 val), tp_time_offset := ucast val AND NOT OFFSET_MARKER,
                 tp_programmed := True\<rparr>)
      else if addr - TEMPLATE_BASE = OFF_TOTAL then (True, t\<lparr>tp_total := ucast val\<rparr>)
      else (False, t))"

definition template_build :: "mac_addr \<Rightarrow> mac_addr \<Rightarrow> u32 \<Rightarrow> template \<Rightarrow> frame option" where
  "template_build src dst timestamp t =
     (if \<not> template_is_armed t then None
      else
        let frame = report_with_length
              \<lparr>mh_dst = dst, mh_src = src, mh_opcode = Op_Report, mh_timestamp = timestamp\<rparr> (tp_length t)
        in Some (pad_to (max (length frame) (unat (tp_length t))) frame))"

section \<open>Commands and addresses\<close>

lemma and_single_bit:
  "val AND READ_BIT = 0 \<longleftrightarrow> \<not> bit val 22" "val AND WRITE_BIT = 0 \<longleftrightarrow> \<not> bit val 21" "val AND MPCP_QUEUE = 0 \<longleftrightarrow> \<not> bit val 5"
proof -
  have "(READ_BIT :: u32) = push_bit 22 1" "(WRITE_BIT :: u32) = push_bit 21 1" "(MPCP_QUEUE :: u32) = push_bit 5 1"
    by (simp_all add: push_bit_eq_mult)
  then show "val AND READ_BIT = 0 \<longleftrightarrow> \<not> bit val 22" "val AND WRITE_BIT = 0 \<longleftrightarrow> \<not> bit val 21"
    "val AND MPCP_QUEUE = 0 \<longleftrightarrow> \<not> bit val 5"
    using and_exp_eq_0_iff [of 22 val] and_exp_eq_0_iff [of 21 val] and_exp_eq_0_iff [of 5 val] by simp_all
qed

lemma command_bits:
  "bit (4194304 :: int) n \<longleftrightarrow> n = 22" "bit (2097152 :: int) n \<longleftrightarrow> n = 21" "bit (32 :: int) n \<longleftrightarrow> n = 5"
proof -
  have "(4194304 :: int) = push_bit 22 1" "(2097152 :: int) = push_bit 21 1" "(32 :: int) = push_bit 5 1"
    by (simp_all add: push_bit_eq_mult)
  then show "bit (4194304 :: int) n \<longleftrightarrow> n = 22" "bit (2097152 :: int) n \<longleftrightarrow> n = 21" "bit (32 :: int) n \<longleftrightarrow> n = 5"
    by (simp_all only: bit_push_bit_iff) (auto simp: bit_1_iff)
qed

lemmas command_word_bits = bit_or_iff bit_and_iff bit_push_bit_iff bit_take_bit_iff bit_unsigned_iff

lemma decode_write:
  "command_decode (command_encode (Cmd_Write channel len mpcp)) = Some (Cmd_Write (channel AND 0x1F) (len mod 2048) mpcp)"
proof -
  let ?v = "command_encode (Cmd_Write channel len mpcp)"
  have bits: "bit ?v n \<longleftrightarrow> n = 21 \<or> mpcp \<and> n = 5 \<or> n < 5 \<and> bit channel n \<or> 10 \<le> n \<and> n < 21 \<and> bit (of_nat len :: u32) (n - 10)" for n
    by (cases "n < 32") (auto simp: and_low_mask command_word_bits command_bits dest: bit_imp_le_length)
  have chan: "ucast (?v AND 0x1F) = channel AND 0x1F"
    by (rule bit_word_eqI) (auto simp: and_low_mask bit_simps bits simp del: command_encode.simps)
  have "drop_bit 10 ?v AND 0x7FF = take_bit 11 (of_nat len)"
    by (rule bit_word_eqI) (auto simp: and_low_mask bit_simps bits simp del: command_encode.simps)
  moreover have "unat (take_bit 11 (of_nat len :: u32)) = len mod 2048"
    by (simp only: unsigned_take_bit_eq unat_of_nat) (simp add: take_bit_eq_mod mod_mod_cancel)
  ultimately have "unat (drop_bit 10 ?v AND 0x7FF) = len mod 2048" by (simp only:)
  then show ?thesis using chan by (simp add: command_decode_def and_single_bit bits del: command_encode.simps)
qed

lemma decode_read: "command_decode (command_encode (Cmd_Read s)) = Some (Cmd_Read s)"
proof (cases s)
  case (Slot x)
  let ?v = "command_encode (Cmd_Read (Slot x))"
  have bits: "bit ?v n \<longleftrightarrow> n = 22 \<or> n < 8 \<and> bit x n" for n
    by (cases "n < 32") (auto simp: and_low_mask command_word_bits command_bits dest: bit_imp_le_length)
  have "ucast (?v AND 0xFF) = x"
    by (rule bit_word_eqI) (auto simp: and_low_mask bit_simps bits simp del: command_encode.simps)
  then show ?thesis using Slot by (simp add: command_decode_def and_single_bit bits del: command_encode.simps)
qed

text \<open>The addresses of block \<open>b\<close>\<close>

lemma block_less_8: "b < 8 \<Longrightarrow> b = 0 \<or> b = 1 \<or> b = 2 \<or> b = 3 \<or> b = 4 \<or> b = 5 \<or> b = 6 \<or> b = 7" for b :: u32
  by unat_arith

lemma mod_stride: "x mod STRIDE = x AND 0x1FF" for x :: u32
  using take_bit_eq_mod [of 9 x] by (simp add: and_low_mask)

lemma block_of_address:
  assumes "b < BLOCK_COUNT"
  shows "block_index (BITMAP_BASE + b * STRIDE) BITMAP_BASE = Some b"
    and "block_index (CMD_STATUS_BASE + b * STRIDE) CMD_STATUS_BASE = Some b"
    and "block_index (DATA_BASE + b * STRIDE) DATA_BASE = Some b"
    and "block_index (DATA_BASE + b * STRIDE) CMD_STATUS_BASE = None"
  using block_less_8 [OF assms] by (auto simp only: block_index_def Let_def mod_stride) simp_all

section \<open>The words of a frame\<close>

text \<open>How the program takes a frame out of the words it reads: the length field counts six bytes more.\<close>

definition frame_of_words :: "u32 list \<Rightarrow> frame" where
  "frame_of_words ws = take (unat (drop_bit 16 (ws ! 1)) - 6) (drop 2 (concat (map w_u32 (tl ws))))"

lemma w_u32_be_word [simp]: "w_u32 (be_word a b c d) = [a, b, c, d]"
proof -
  have "byte_of 3 (be_word a b c d) = a" "byte_of 2 (be_word a b c d) = b"
    "byte_of 1 (be_word a b c d) = c" "byte_of 0 (be_word a b c d) = d"
    by (rule bit_word_eqI; auto simp: be_word_def bit_byte_of bit_simps dest: bit_imp_le_length)+
  then show ?thesis by (simp add: w_u32_def)
qed

lemma length_w_u32 [simp]: "length (w_u32 w) = 4"
  by (simp add: w_u32_def)

lemma take_chunk_words: "n \<le> length xs \<Longrightarrow> take n (concat (map w_u32 (chunk_words xs))) = take n xs"
proof (induction xs arbitrary: n rule: chunk_words.induct)
  case (1 a b c d rest)
  then show ?case by (cases "n < 4") (auto simp: take_Cons split: nat.splits)
qed (auto simp: take_Cons split: nat.splits)

lemma length_chunk_words: "length (concat (map w_u32 (chunk_words xs))) \<ge> length xs"
  by (induction xs rule: chunk_words.induct) auto

text \<open>The word with the length\<close>

lemma length_word:
  assumes "length f + 6 < 2048"
  defines "w \<equiv> (push_bit 16 (of_nat (length f + 6) AND 0x7FF) OR head_bytes f :: u32)"
  shows "unat (drop_bit 16 w) = length f + 6"
    and "drop 2 (w_u32 w) = (case f of [] \<Rightarrow> [0, 0] | [a] \<Rightarrow> [a, 0] | a # b # _ \<Rightarrow> [a, b])"
proof -
  have head: "bit (head_bytes f) n \<Longrightarrow> n < 16" for n
    by (cases f rule: head_bytes.cases) (auto simp: bit_simps dest: bit_imp_le_length)
  have "drop_bit 16 w = take_bit 11 (of_nat (length f + 6))"
    by (rule bit_word_eqI) (auto simp: w_def and_low_mask bit_simps dest: head)
  moreover have "unat (take_bit 11 (of_nat (length f + 6) :: u32)) = length f + 6"
    using assms(1) by (simp only: unsigned_take_bit_eq unat_of_nat) (simp add: take_bit_eq_mod)
  ultimately show "unat (drop_bit 16 w) = length f + 6" by (simp only:)
  have low: "n < 2 \<Longrightarrow> byte_of n w = byte_of n (head_bytes f)" for n
    by (rule bit_word_eqI) (auto simp: w_def bit_byte_of bit_simps)
  have "byte_of 1 (head_bytes f) = (case f of [] \<Rightarrow> 0 | a # _ \<Rightarrow> a)"
    "byte_of 0 (head_bytes f) = (case f of [] \<Rightarrow> 0 | [a] \<Rightarrow> 0 | a # b # _ \<Rightarrow> b)"
    by (cases f rule: head_bytes.cases; auto intro!: bit_word_eqI simp: bit_byte_of bit_simps dest: bit_imp_le_length)+
  then show "drop 2 (w_u32 w) = (case f of [] \<Rightarrow> [0, 0] | [a] \<Rightarrow> [a, 0] | a # b # _ \<Rightarrow> [a, b])"
    using low [of 0] low [of 1] by (auto simp: w_u32_def split: list.splits)
qed

lemma frame_of_encode: "length f + 6 < 2048 \<Longrightarrow> frame_of_words (encode_frame f) = f"
  using length_word [of f] take_chunk_words [of "length f - 2" "drop 2 f"]
  by (cases f rule: head_bytes.cases) (auto simp: frame_of_words_def encode_frame_def)

end
