(* ===== verification/Olt_Host.thy ===== *)
theory Olt_Host
  imports Lue_Engine Olt_Mailbox Olt_Link
begin

text \<open>
  \<open>src/soc/olt/mod.rs\<close>: the OLT as the chip sees it, the link on its own clock behind the mailbox of frames,
  with the queue of a frame chosen by the packet classifier. A \<open>HashMap\<close> is a map; \<open>None\<close> is as in
  \<open>Olt_Link\<close>. The prints and the flag \<open>trace\<close> are left out.
\<close>

unbundle bit_operations_syntax

section \<open>State\<close>

abbreviation TICK_PS :: u64 where "TICK_PS \<equiv> 720900"
abbreviation DEFAULT_TIME_SCALE :: u64 where "DEFAULT_TIME_SCALE \<equiv> 32"
abbreviation LINK_UP_DELAY_TICKS :: u64 where "LINK_UP_DELAY_TICKS \<equiv> 900000"
abbreviation MAILBOX_DEPTH :: nat where "MAILBOX_DEPTH \<equiv> 8"

record olt_config =
  oc_mac :: mac_addr
  oc_llid_start :: llid
  oc_oam_interval_ms :: u64
  oc_gate_interval_ms :: u64
  oc_onu_mac_override :: "mac_addr option"
  oc_time_scale :: u64
  oc_polled_attributes :: "u16 list"

definition olt_config_default :: olt_config where
  "olt_config_default =
     \<lparr>oc_mac = pc_mac config_default, oc_llid_start = pc_llid_start config_default,
      oc_oam_interval_ms = pc_oam_interval config_default div 1000000000,
      oc_gate_interval_ms = pc_gate_interval config_default div 1000000000,
      oc_onu_mac_override = None, oc_time_scale = DEFAULT_TIME_SCALE,
      oc_polled_attributes = pc_polled_attributes config_default\<rparr>"

text \<open>\<open>peer_config\<close>: the configuration of the host, in the terms of the peer\<close>

definition peer_config_of :: "olt_config \<Rightarrow> peer_config" where
  "peer_config_of c =
     config_default\<lparr>pc_mac := oc_mac c, pc_llid_start := oc_llid_start c,
       pc_oam_interval := from_ms (max (oc_oam_interval_ms c) 1),
       pc_gate_interval := from_ms (max (oc_gate_interval_ms c) 1),
       pc_polled_attributes := oc_polled_attributes c\<rparr>"

record classifier_routing =
  cr_no_classifier :: u64
  cr_classified :: u64
  cr_matched :: u64
  cr_match_without_a_queue :: u64
  cr_no_match :: u64
  cr_undecidable :: u64
  cr_refusals :: engine_counters
  cr_agrees :: u64
  cr_differs :: u64
  cr_no_match_control :: u64
  cr_no_match_data :: u64

definition routing_zero :: classifier_routing where
  "routing_zero =
     \<lparr>cr_no_classifier = 0, cr_classified = 0, cr_matched = 0, cr_match_without_a_queue = 0, cr_no_match = 0,
      cr_undecidable = 0, cr_refusals = engine_counters_zero, cr_agrees = 0, cr_differs = 0,
      cr_no_match_control = 0, cr_no_match_data = 0\<rparr>"

definition decisions_accounted_for :: "classifier_routing \<Rightarrow> bool" where
  "decisions_accounted_for c \<longleftrightarrow>
     cr_classified c = cr_matched c + cr_match_without_a_queue c + cr_no_match c + cr_undecidable c"

record olt =
  ol_routing :: classifier_routing
  ol_arrivals :: "u8 \<rightharpoonup> u64"
  ol_config :: olt_config
  ol_link :: link
  ol_wire_now :: wire_instant
  ol_ticks_elapsed :: u64
  ol_mpcp_timestamp :: u32
  ol_link_up :: bool
  ol_link_change_pending :: bool
  ol_link_up_delay :: u64
  ol_bitmap :: "u32 list"
  ol_fifo :: "u32 list"
  ol_pending :: "u8 \<rightharpoonup> u32 list list"
  ol_template :: template
  ol_grants_answered :: u64
  ol_assembler :: tx_assembler
  ol_real_tx_seen :: bool
  ol_pending_llid_update :: "u16 option"
  ol_frame_consumed :: bool
  ol_registration_complete :: bool
  ol_llid_state_init_countdown :: u32

definition olt_new :: olt where
  "olt_new =
     \<lparr>ol_routing = routing_zero, ol_arrivals = Map.empty, ol_config = olt_config_default,
      ol_link = link_new (peer_config_of olt_config_default) config_downstream config_upstream,
      ol_wire_now = 0, ol_ticks_elapsed = 0, ol_mpcp_timestamp = 0, ol_link_up = False,
      ol_link_change_pending = False, ol_link_up_delay = LINK_UP_DELAY_TICKS, ol_bitmap = replicate 8 0,
      ol_fifo = [], ol_pending = Map.empty, ol_template = template_default, ol_grants_answered = 0,
      ol_assembler = assembler_default, ol_real_tx_seen = False, ol_pending_llid_update = None,
      ol_frame_consumed = False, ol_registration_complete = False, ol_llid_state_init_countdown = 0\<rparr>"

abbreviation on_link :: "(link \<Rightarrow> link) \<Rightarrow> olt \<Rightarrow> olt" where
  "on_link f h \<equiv> h\<lparr>ol_link := f (ol_link h)\<rparr>"

abbreviation on_peer :: "(peer \<Rightarrow> peer) \<Rightarrow> olt \<Rightarrow> olt" where
  "on_peer f h \<equiv> on_link (lk_peer_update f) h"

section \<open>The line\<close>

text \<open>The sends of what the peer decided, and the calls of the host that make it decide\<close>

definition carry_downstream :: "olt \<Rightarrow> olt option" where
  "carry_downstream h =
     (case take_downstream (lk_peer (ol_link h)) of
        (outs, p) \<Rightarrow>
          map_option (\<lambda>d. on_link (\<lambda>l. l\<lparr>lk_peer := p, lk_downstream := d\<rparr>) h)
            (send_all outs (lk_downstream (ol_link h))))"

definition olt_set_assigned_llid :: "llid \<Rightarrow> olt \<Rightarrow> olt" where
  "olt_set_assigned_llid l h =
     (on_peer (set_assigned_llid l) h)\<lparr>ol_config := (ol_config h)\<lparr>oc_llid_start := l\<rparr>\<rparr>"

definition olt_send_extended :: "oui \<Rightarrow> ext_opcode \<Rightarrow> u8 list \<Rightarrow> olt \<Rightarrow> (frame \<times> olt) option" where
  "olt_send_extended o' op payload h =
     (case send_extended o' op payload (lk_peer (ol_link h)) of
        (frame, p) \<Rightarrow> map_option (Pair frame) (carry_downstream (on_peer (\<lambda>_. p) h)))"

definition olt_request_attribute :: "u16 \<Rightarrow> olt \<Rightarrow> (frame \<times> olt) option" where
  "olt_request_attribute leaf h =
     (case request_attribute leaf (lk_peer (ol_link h)) of
        (frame, p) \<Rightarrow> map_option (Pair frame) (carry_downstream (on_peer (\<lambda>_. p) h)))"

definition inject_raw_frame :: "frame \<Rightarrow> olt \<Rightarrow> olt option" where
  "inject_raw_frame frame h = carry_downstream (on_peer (inject frame) h)"

definition on_tx_frame :: "frame \<Rightarrow> olt \<Rightarrow> olt option" where
  "on_tx_frame frame h =
     map_option (\<lambda>(_, l). h\<lparr>ol_link := l\<rparr>) (send_upstream frame (ol_wire_now h) (ol_link h))"

section \<open>The mailbox\<close>

definition all_slots :: "u8 list" where
  "all_slots = map of_nat [0..<256]"

definition queue_of :: "u8 \<Rightarrow> olt \<Rightarrow> u32 list list" where
  "queue_of s h = (case ol_pending h s of None \<Rightarrow> [] | Some q \<Rightarrow> q)"

definition mark_slot :: "slot \<Rightarrow> u32 list \<Rightarrow> u32 list" where
  "mark_slot s bm =
     (case bitmap_position s of (i, b) \<Rightarrow> if i < length bm then bm[i := bm ! i OR push_bit b 1] else bm)"

definition refresh_bitmap :: "olt \<Rightarrow> olt" where
  "refresh_bitmap h =
     h\<lparr>ol_bitmap :=
         fold (\<lambda>s bm. if queue_of s h = [] then bm else mark_slot (Slot s) bm) all_slots (replicate 8 0)\<rparr>"

definition has_any_pending :: "olt \<Rightarrow> bool" where
  "has_any_pending h \<longleftrightarrow> list_ex (\<lambda>s. queue_of s h \<noteq> []) all_slots"

definition total_pending_count :: "olt \<Rightarrow> nat" where
  "total_pending_count h = sum_list (map (\<lambda>s. length (queue_of s h)) all_slots)"

abbreviation tally :: "(classifier_routing \<Rightarrow> classifier_routing) \<Rightarrow> olt \<Rightarrow> olt" where
  "tally f h \<equiv> ol_routing_update f h"

definition choose_slot :: "(lue \<times> classifier_binding) option \<Rightarrow> frame \<Rightarrow> olt \<Rightarrow> slot \<times> olt" where
  "choose_slot classifier frame h0 =
     (case classifier of
        None \<Rightarrow> (slot_for_frame frame, tally (cr_no_classifier_update (\<lambda>n. n + 1)) h0)
      | Some (lue, binding) \<Rightarrow>
          (case lue_classify binding frame lue of
             (verdict, k) \<Rightarrow>
               let h = tally (cr_refusals_update (counters_add k) \<circ> cr_classified_update (\<lambda>n. n + 1)) h0
               in case verdict of
                    Match _ actions \<Rightarrow>
                      (case rule_destination_queue actions of
                         Some queue \<Rightarrow>
                           let h1 = tally (cr_matched_update (\<lambda>n. n + 1)) h
                           in (Slot queue,
                               if Slot queue = slot_for_frame frame then tally (cr_agrees_update (\<lambda>n. n + 1)) h1
                               else tally (cr_differs_update (\<lambda>n. n + 1)) h1)
                       | None \<Rightarrow> (slot_for_frame frame, tally (cr_match_without_a_queue_update (\<lambda>n. n + 1)) h))
                  | NoMatch \<Rightarrow>
                      let h1 = tally (cr_no_match_update (\<lambda>n. n + 1)) h; slot = slot_for_frame frame
                      in (slot, if slot = SLOT_CONTROL then tally (cr_no_match_control_update (\<lambda>n. n + 1)) h1
                                else tally (cr_no_match_data_update (\<lambda>n. n + 1)) h1)
                  | Undecidable _ \<Rightarrow> (slot_for_frame frame, tally (cr_undecidable_update (\<lambda>n. n + 1)) h)))"

text \<open>A frame that has landed goes to the end of its queue and is counted as an arrival.\<close>

definition enqueue :: "u8 \<Rightarrow> u32 list \<Rightarrow> olt \<Rightarrow> olt" where
  "enqueue s words h =
     h\<lparr>ol_pending := (ol_pending h)(s \<mapsto> queue_of s h @ [words]),
       ol_arrivals := (ol_arrivals h)(s \<mapsto> (case ol_arrivals h s of None \<Rightarrow> 0 | Some n \<Rightarrow> n) + 1)\<rparr>"

lemma choose_slot_line:
  "choose_slot c f h = (s, h') \<Longrightarrow> ol_link h' = ol_link h \<and> ol_wire_now h' = ol_wire_now h \<and> ol_pending h' = ol_pending h
     \<and> ol_arrivals h' = ol_arrivals h"
  by (auto simp: choose_slot_def Let_def split: option.splits prod.splits verdict.splits if_splits)

function load_loop :: "(lue \<times> classifier_binding) option \<Rightarrow> olt \<Rightarrow> olt" where
  "load_loop c h =
     (if total_pending_count h < MAILBOX_DEPTH then
        (case poll_downstream (ol_wire_now h) (ol_link h) of
           (None, l) \<Rightarrow> h\<lparr>ol_link := l\<rparr>
         | (Some landed, l) \<Rightarrow>
             (case choose_slot c (if_frame landed) (h\<lparr>ol_link := l\<rparr>) of
                (slot, h1) \<Rightarrow> load_loop c (enqueue (slot_u8 slot) (encode_frame (if_frame landed)) h1)))
      else h)"
  by pat_completeness auto

termination
  by (relation "measure (\<lambda>(c, h). length (fi_queue (lk_downstream (ol_link h))))")
    (auto simp: poll_downstream_def enqueue_def dest!: choose_slot_line [OF sym] pop_arrived_shorter split: prod.splits)

declare load_loop.simps [simp del]

definition load_frames_into_mailbox :: "(lue \<times> classifier_binding) option \<Rightarrow> olt \<Rightarrow> olt" where
  "load_frames_into_mailbox c h = refresh_bitmap (load_loop c h)"

definition drain_arrivals :: "olt \<Rightarrow> (u8 \<rightharpoonup> u64) \<times> olt" where
  "drain_arrivals h = (ol_arrivals h, h\<lparr>ol_arrivals := Map.empty\<rparr>)"

definition read_bitmap :: "u32 \<Rightarrow> olt \<Rightarrow> u32 option" where
  "read_bitmap addr h =
     Option.bind (block_index addr BITMAP_BASE) (\<lambda>i. get_at (ol_bitmap h) (unat i))"

definition read_cmd_status :: "u32 \<Rightarrow> olt \<Rightarrow> u32 option" where
  "read_cmd_status addr h =
     (case block_index addr CMD_STATUS_BASE of
        None \<Rightarrow> None
      | Some _ \<Rightarrow> Some (if ol_fifo h = [] then 0 else STATUS_DATA_READY))"

definition olt_read_data :: "u32 \<Rightarrow> olt \<Rightarrow> u32 option \<times> olt" where
  "olt_read_data addr h =
     (case block_index addr DATA_BASE of
        None \<Rightarrow> (None, h)
      | Some _ \<Rightarrow>
          (case ol_fifo h of
             [] \<Rightarrow> (Some 0, h)
           | w # ws \<Rightarrow> (Some w, h\<lparr>ol_fifo := ws, ol_frame_consumed := ws = [] \<or> ol_frame_consumed h\<rparr>)))"

definition olt_write_cmd :: "u32 \<Rightarrow> u32 \<Rightarrow> olt \<Rightarrow> bool \<times> olt" where
  "olt_write_cmd addr val h0 =
     (case (block_index addr CMD_STATUS_BASE, command_decode val) of
        (Some _, Some (Cmd_Read slot)) \<Rightarrow>
          let h = h0\<lparr>ol_fifo := []\<rparr>; s = slot_u8 slot
          in (True, refresh_bitmap
                (case ol_pending h s of
                   None \<Rightarrow> h
                 | Some [] \<Rightarrow> h\<lparr>ol_pending := (ol_pending h)(s := None)\<rparr>
                 | Some (ws # q) \<Rightarrow>
                     h\<lparr>ol_fifo := ws, ol_pending := (ol_pending h)(s := if q = [] then None else Some q)\<rparr>))
      | _ \<Rightarrow> (False, h0))"

definition olt_set_link_up :: "bool \<Rightarrow> olt \<Rightarrow> olt" where
  "olt_set_link_up up h =
     (if ol_link_up h = up then h
      else
        let h1 = on_link (link_set_link up (ol_wire_now h)) (h\<lparr>ol_link_up := up, ol_link_change_pending := True\<rparr>)
        in if up then h1 else refresh_bitmap (h1\<lparr>ol_pending := Map.empty, ol_fifo := []\<rparr>))"

section \<open>Upstream frames and reports\<close>

definition report_armed :: "olt \<Rightarrow> bool" where
  "report_armed h \<longleftrightarrow> template_is_armed (ol_template h)"

definition observe_report_template :: "u32 \<Rightarrow> u32 \<Rightarrow> olt \<Rightarrow> bool \<times> olt" where
  "observe_report_template addr val h =
     (case template_observe_write addr val (ol_template h) of (r, t) \<Rightarrow> (r, h\<lparr>ol_template := t\<rparr>))"

definition emit_report :: "olt \<Rightarrow> (frame option \<times> olt) option" where
  "emit_report h =
     (let peer = lk_peer (ol_link h)
      in if mac_is_zero (p_onu_mac peer) then Some (None, h)
         else case template_build (p_onu_mac peer) (pc_mac (p_config peer)) (mpcp_timestamp (ol_wire_now h)) (ol_template h) of
                None \<Rightarrow> Some (None, h)
              | Some frame \<Rightarrow> map_option (Pair (Some frame)) (on_tx_frame frame h))"

definition answer_grants :: "olt \<Rightarrow> olt option" where
  "answer_grants h =
     (let granted = gates_normal_sent (p_counters (lk_peer (ol_link h)));
          h1 = h\<lparr>ol_grants_answered := granted\<rparr>
      in if granted \<le> ol_grants_answered h \<or> \<not> template_is_armed (ol_template h) then Some h1
         else map_option snd (emit_report h1))"

definition on_captured_tx :: "frame \<Rightarrow> olt \<Rightarrow> olt option" where
  "on_captured_tx frame h =
     on_tx_frame frame
       (if ol_real_tx_seen h then h
        else (on_peer rewind_handshake h)\<lparr>ol_real_tx_seen := True, ol_registration_complete := False\<rparr>)"

definition observe_write :: "u32 \<Rightarrow> u32 \<Rightarrow> olt \<Rightarrow> olt option" where
  "observe_write addr val h =
     (if block_index addr CMD_STATUS_BASE \<noteq> None then
        (case command_decode val of
           Some (Cmd_Write _ len _) \<Rightarrow> Some (h\<lparr>ol_assembler := tx_begin addr len (ol_assembler h)\<rparr>)
         | _ \<Rightarrow> Some h)
      else
        (case push_word addr val (ol_assembler h) of
           (r, a) \<Rightarrow>
             (case r of None \<Rightarrow> Some (h\<lparr>ol_assembler := a\<rparr>)
              | Some frame \<Rightarrow> on_captured_tx frame (h\<lparr>ol_assembler := a\<rparr>))))"

section \<open>Time\<close>

definition tick_duration :: "olt \<Rightarrow> wire_duration" where
  "tick_duration h = TICK_PS * max (oc_time_scale (ol_config h)) 1"

definition olt_advance :: "olt \<Rightarrow> olt option" where
  "olt_advance h0 =
     (let h = h0\<lparr>ol_ticks_elapsed := ol_ticks_elapsed h0 + 1, ol_wire_now := ol_wire_now h0 + tick_duration h0\<rparr>
      in map_option (\<lambda>l.
           case take_llid_assignment (lk_peer l) of
             (llid, p1) \<Rightarrow>
               (case take_registration_complete p1 of
                  (done', p2) \<Rightarrow>
                    h\<lparr>ol_link := l\<lparr>lk_peer := p2\<rparr>, ol_mpcp_timestamp := mpcp_timestamp (ol_wire_now h),
                      ol_pending_llid_update := (case llid of None \<Rightarrow> ol_pending_llid_update h | Some v \<Rightarrow> Some v),
                      ol_registration_complete := done' \<or> ol_registration_complete h\<rparr>))
           (link_advance_to (ol_wire_now h) (ol_link h)))"

definition apply_config :: "olt \<Rightarrow> olt" where
  "apply_config h =
     (let c = peer_config_of (ol_config h)
      in on_peer (\<lambda>p. (set_assigned_llid (pc_llid_start c) p)\<lparr>p_config := c\<rparr>) h)"

definition olt_tick :: "olt \<Rightarrow> olt option" where
  "olt_tick h0 =
     (let h = apply_config h0;
          h1 = (if ol_link_up_delay h = 0 then h
                else let h' = h\<lparr>ol_link_up_delay := ol_link_up_delay h - 1\<rparr>
                     in if ol_link_up_delay h' = 0 then olt_set_link_up True h' else h')
      in Option.bind (olt_advance h1) answer_grants)"

definition olt_reset_cold :: "olt \<Rightarrow> olt" where
  "olt_reset_cold h =
     (let live = ol_link_up h \<or> ol_link_up_delay h > 0
      in (apply_config (olt_new\<lparr>ol_config := ol_config h\<rparr>))
           \<lparr>ol_link_up_delay := if live then LINK_UP_DELAY_TICKS else 0\<rparr>)"

datatype olt_event = SetMac mac_addr | InjectFrame frame | SetLinkUp bool

primrec olt_inject_event :: "olt_event \<Rightarrow> olt \<Rightarrow> olt option" where
  "olt_inject_event (SetMac m) h = Some (h\<lparr>ol_config := (ol_config h)\<lparr>oc_mac := m\<rparr>\<rparr>)"
| "olt_inject_event (InjectFrame f) h = inject_raw_frame f h"
| "olt_inject_event (SetLinkUp up) h = Some (olt_set_link_up up h)"

end
