(* ===== verification/Olt_Host_Props.thy ===== *)
theory Olt_Host_Props
  imports Olt_Host
begin

text \<open>
  The mailbox end to end: a frame the program pushes word by word goes on the line, a frame that lands goes
  to the queue the rules name, and the program reads the frames of a queue in order.
\<close>

unbundle bit_operations_syntax

section \<open>The bitmap\<close>

lemma set_all_slots [simp]: "s \<in> set all_slots"
proof -
  have "(of_nat (unat s) :: u8) \<in> of_nat ` {0..<256}" using unat_less_8 [of s] by (intro imageI) simp
  then show ?thesis by (simp add: all_slots_def)
qed

lemma slot_position:
  "bitmap_position (Slot s) = (unat s div 32, unat s mod 32)"
  by (simp add: bitmap_position_def unat_drop_bit_div unat_and_mask [of s 5, simplified mask_eq_exp_minus_1, simplified])

lemma slot_block_less: "unat s div 32 < 8" for s :: u8
  using unat_less_8 [of s] by linarith

lemma length_mark_slot [simp]: "length (mark_slot s bm) = length bm"
  by (simp add: mark_slot_def split: prod.splits)

lemma mark_slot_bits:
  assumes "length bm = 8" and "i < 8" and "b < 32"
  shows "bit (mark_slot (Slot s) bm ! i) b \<longleftrightarrow> bit (bm ! i) b \<or> unat s = 32 * i + b"
proof -
  have "n = 32 * i + b \<longleftrightarrow> n div 32 = i \<and> n mod 32 = b" for n :: nat using assms(3) by auto
  then show ?thesis using assms slot_block_less [of s]
    by (auto simp: mark_slot_def slot_position nth_list_update bit_or_iff bit_exp_iff)
qed

lemma bitmap_fold:
  assumes "length bm = 8" and "i < 8" and "b < 32"
  shows "bit (fold (\<lambda>s bm. if q s = [] then bm else mark_slot (Slot s) bm) xs bm ! i) b \<longleftrightarrow>
      bit (bm ! i) b \<or> (\<exists>s \<in> set xs. q s \<noteq> [] \<and> unat s = 32 * i + b)"
  using assms(1) by (induction xs arbitrary: bm) (auto simp: mark_slot_bits assms(2,3))

lemma length_bitmap_fold:
  "length bm = 8 \<Longrightarrow> length (fold (\<lambda>s bm. if q s = [] then bm else mark_slot (Slot s) bm) xs bm) = 8"
  by (induction xs arbitrary: bm) simp_all

lemma queue_of_bitmap [simp]: "queue_of s (h\<lparr>ol_bitmap := b\<rparr>) = queue_of s h"
  by (simp add: queue_of_def)

lemma refreshed_fields:
  "queue_of s (refresh_bitmap h) = queue_of s h" "ol_link (refresh_bitmap h) = ol_link h"
  "ol_arrivals (refresh_bitmap h) = ol_arrivals h" "ol_routing (refresh_bitmap h) = ol_routing h"
  "ol_fifo (refresh_bitmap h) = ol_fifo h" "ol_frame_consumed (refresh_bitmap h) = ol_frame_consumed h"
  by (simp_all add: refresh_bitmap_def)

text \<open>What the program reads of the bitmap\<close>

definition shows_pending :: "olt \<Rightarrow> u8 \<Rightarrow> bool" where
  "shows_pending h s \<longleftrightarrow>
     (\<exists>w. read_bitmap (BITMAP_BASE + of_nat (unat s div 32) * STRIDE) h = Some w \<and> bit w (unat s mod 32))"

lemma refreshed_bitmap: "shows_pending (refresh_bitmap h) s \<longleftrightarrow> queue_of s h \<noteq> []"
proof -
  let ?i = "unat s div 32" and ?b = "unat s mod 32"
  have i: "?i < 8" using slot_block_less .
  then have "of_nat ?i < (8 :: u32)" "unat (of_nat ?i :: u32) = ?i"
    by (simp_all add: word_less_nat_alt unat_of_nat)
  moreover have "unat t = 32 * ?i + ?b \<longleftrightarrow> t = s" for t by (simp add: word_unat_eq_iff)
  ultimately show ?thesis
    using bitmap_fold [of "replicate 8 0" ?i ?b "\<lambda>s. queue_of s h" all_slots] i
      length_bitmap_fold [of "replicate 8 0" "\<lambda>s. queue_of s h" all_slots]
    by (simp add: shows_pending_def read_bitmap_def block_of_address refresh_bitmap_def get_at_def)
qed

section \<open>Landing frames\<close>

lemma distinct_all_slots: "distinct all_slots"
proof -
  have "inj_on (of_nat :: nat \<Rightarrow> u8) {0..<256}"
    by (rule inj_on_inverseI [of _ unat]) (simp add: unat_of_nat)
  then show ?thesis by (simp add: all_slots_def distinct_map)
qed

lemma total_pending_sum: "total_pending_count h = (\<Sum>s\<in>UNIV. length (queue_of s h))"
proof -
  have "set all_slots = UNIV" by auto
  then show ?thesis
    using sum_list_distinct_conv_sum_set [OF distinct_all_slots, of "\<lambda>s. length (queue_of s h)"]
    by (simp add: total_pending_count_def)
qed

lemma enqueue_queue [simp]:
  "queue_of s (enqueue t ws h) = (if s = t then queue_of t h @ [ws] else queue_of s h)"
  by (simp add: queue_of_def enqueue_def)

lemma enqueue_total: "total_pending_count (enqueue t ws h) = Suc (total_pending_count h)"
proof -
  have "length (queue_of s (enqueue t ws h)) = length (queue_of s h) + (if s = t then 1 else 0)" for s by simp
  then show ?thesis by (simp only: total_pending_sum sum.distrib) simp
qed

text \<open>The queue of a frame: the one the rule names, else the one of its EtherType\<close>

definition routed :: "(lue \<times> classifier_binding) option \<Rightarrow> frame \<Rightarrow> slot" where
  "routed c f =
     (case c of
        Some (lue, binding) \<Rightarrow>
          (case fst (lue_classify binding f lue) of
             Match _ actions \<Rightarrow>
               (case rule_destination_queue actions of Some q \<Rightarrow> Slot q | None \<Rightarrow> slot_for_frame f)
           | _ \<Rightarrow> slot_for_frame f)
      | None \<Rightarrow> slot_for_frame f)"

text \<open>Frames decided on, and frames classified but counted under no outcome\<close>

definition decided :: "classifier_routing \<Rightarrow> u64" where
  "decided r = cr_no_classifier r + cr_classified r"

definition unaccounted :: "classifier_routing \<Rightarrow> u64" where
  "unaccounted r = cr_classified r - (cr_matched r + cr_match_without_a_queue r + cr_no_match r + cr_undecidable r)"

lemma accounted_iff: "decisions_accounted_for r \<longleftrightarrow> unaccounted r = 0"
  by (auto simp: decisions_accounted_for_def unaccounted_def)

lemma choose_slot_decides:
  assumes "choose_slot c f h = (s, h')"
  shows "s = routed c f" and "decided (ol_routing h') = decided (ol_routing h) + 1"
    and "unaccounted (ol_routing h') = unaccounted (ol_routing h)"
  using assms
  by (auto simp: choose_slot_def routed_def decided_def unaccounted_def Let_def algebra_simps
      split: option.splits prod.splits verdict.splits if_splits)

definition arrivals_of :: "u8 \<Rightarrow> olt \<Rightarrow> u64" where
  "arrivals_of s h = (case ol_arrivals h s of None \<Rightarrow> 0 | Some n \<Rightarrow> n)"

text \<open>The frames a call moves: those that have landed, as many as there is room for\<close>

definition moved :: "olt \<Rightarrow> frame list" where
  "moved h = map if_frame (take (8 - total_pending_count h)
     (takeWhile (\<lambda>x. arrives_at x \<le> ol_wire_now h) (fi_queue (lk_downstream (ol_link h)))))"

definition loaded :: "(lue \<times> classifier_binding) option \<Rightarrow> frame list \<Rightarrow> olt \<Rightarrow> olt \<Rightarrow> bool" where
  "loaded c fs h h' \<longleftrightarrow>
     (\<forall>s. queue_of s h' = queue_of s h @ map encode_frame (filter (\<lambda>f. routed c f = Slot s) fs))
     \<and> (\<forall>s. arrivals_of s h' = arrivals_of s h + of_nat (length (filter (\<lambda>f. routed c f = Slot s) fs)))
     \<and> fi_queue (lk_downstream (ol_link h')) = drop (length fs) (fi_queue (lk_downstream (ol_link h)))
     \<and> decided (ol_routing h') = decided (ol_routing h) + of_nat (length fs)
     \<and> unaccounted (ol_routing h') = unaccounted (ol_routing h)"

lemma loaded_step:
  assumes "choose_slot c (if_frame x) (h\<lparr>ol_link := l\<rparr>) = (s, h1)"
    and "pop_arrived (ol_wire_now h) (lk_downstream (ol_link h)) = (Some x, d)" and "l = (ol_link h)\<lparr>lk_downstream := d\<rparr>"
    and "loaded c fs (enqueue (slot_u8 s) (encode_frame (if_frame x)) h1) h'"
  shows "loaded c (if_frame x # fs) h h'"
proof -
  have s: "s = routed c (if_frame x)" and line: "ol_link h1 = l" "ol_pending h1 = ol_pending h" "ol_arrivals h1 = ol_arrivals h"
    and counts: "decided (ol_routing h1) = decided (ol_routing h) + 1" "unaccounted (ol_routing h1) = unaccounted (ol_routing h)"
    using choose_slot_decides [OF assms(1)] choose_slot_line [OF assms(1)] by simp_all
  have d: "fi_queue (lk_downstream (ol_link h)) = x # fi_queue d"
    using assms(2) by (auto simp: pop_arrived_def split: list.splits if_splits)
  have queue: "queue_of t h1 = queue_of t h" for t using line by (simp add: queue_of_def)
  obtain q where q: "s = Slot q" by (cases s)
  then have "routed c (if_frame x) = Slot q" using s by simp
  then show ?thesis
    using assms(4) [unfolded q] counts queue line assms(3) d
    by (auto simp: loaded_def arrivals_of_def enqueue_def queue_of_def)
qed

lemma moved_Cons:
  assumes "total_pending_count h < MAILBOX_DEPTH" and "total_pending_count h2 = Suc (total_pending_count h)"
    and "fi_queue (lk_downstream (ol_link h)) = x # fi_queue (lk_downstream (ol_link h2))"
    and "arrives_at x \<le> ol_wire_now h" and "ol_wire_now h2 = ol_wire_now h"
  shows "moved h = if_frame x # moved h2"
proof -
  have "8 - total_pending_count h = Suc (8 - total_pending_count h2)" using assms(1,2) by simp
  then show ?thesis using assms(3-5) by (simp add: moved_def)
qed

lemma load_loop_loads: "loaded c (moved h) h (load_loop c h)"
proof (induction c h rule: load_loop.induct)
  case (1 c h)
  let ?l = "ol_link h"
  obtain r d where pop: "pop_arrived (ol_wire_now h) (lk_downstream ?l) = (r, d)"
    by (cases "pop_arrived (ol_wire_now h) (lk_downstream ?l)")
  show ?case
  proof (cases "total_pending_count h < MAILBOX_DEPTH")
    case False
    then show ?thesis by (subst load_loop.simps) (simp add: loaded_def moved_def)
  next
    case room: True
    show ?thesis
    proof (cases r)
      case None
      then have "moved h = []" "d = lk_downstream ?l"
        using pop by (auto simp: moved_def pop_arrived_def split: list.splits if_splits)
      then show ?thesis using None room pop
        by (subst load_loop.simps) (simp add: loaded_def poll_downstream_def queue_of_def arrivals_of_def)
    next
      case (Some x)
      let ?l' = "?l\<lparr>lk_downstream := d\<rparr>"
      obtain s h1 where choice: "choose_slot c (if_frame x) (h\<lparr>ol_link := ?l'\<rparr>) = (s, h1)"
        by (cases "choose_slot c (if_frame x) (h\<lparr>ol_link := ?l'\<rparr>)")
      let ?h2 = "enqueue (slot_u8 s) (encode_frame (if_frame x)) h1"
      have line: "ol_link h1 = ?l'" "ol_wire_now h1 = ol_wire_now h" "ol_pending h1 = ol_pending h"
        using choose_slot_line [OF choice] by simp_all
      have poll: "poll_downstream (ol_wire_now h) ?l = (Some x, ?l')" using pop Some by (simp add: poll_downstream_def)
      have "total_pending_count h1 = total_pending_count h" using line by (simp add: total_pending_sum queue_of_def)
      then have "total_pending_count ?h2 = Suc (total_pending_count h)" by (simp add: enqueue_total)
      moreover have "ol_link ?h2 = ?l'" "ol_wire_now ?h2 = ol_wire_now h" using line by (simp_all add: enqueue_def)
      moreover have "fi_queue (lk_downstream ?l) = x # fi_queue d" "arrives_at x \<le> ol_wire_now h"
        using pop Some by (auto simp: pop_arrived_def split: list.splits if_splits)
      ultimately have moved: "moved h = if_frame x # moved ?h2" using room by (intro moved_Cons) simp_all
      have loop: "load_loop c h = load_loop c ?h2" using room by (subst load_loop.simps) (simp add: poll choice)
      from 1 [OF room poll [symmetric] refl choice [symmetric]]
      have "loaded c (moved ?h2) ?h2 (load_loop c ?h2)" .
      from loaded_step [OF choice pop [unfolded Some] refl this]
      show ?thesis by (simp only: loop moved)
    qed
  qed
qed

text \<open>C32. The frames that have landed on the downstream line move into the mailbox as far as it has room (eight
  frames), oldest first: each goes, as words, to the end of the queue that the matching rule of the classifier
  names, or else of the queue of its EtherType, and is counted once among the arrivals of that queue. Every frame is decided on
  once, no classified frame escapes the tally of outcomes, and afterwards the bitmap the program reads shows
  exactly the queues that hold a frame.\<close>

theorem load_routes:
  "let h' = load_frames_into_mailbox c h;
       fs = map if_frame (take (8 - total_pending_count h)
              (takeWhile (\<lambda>x. arrives_at x \<le> ol_wire_now h) (fi_queue (lk_downstream (ol_link h)))))
   in (\<forall>s. queue_of s h' = queue_of s h @ map encode_frame (filter (\<lambda>f. routed c f = Slot s) fs))
     \<and> (\<forall>s. arrivals_of s h' = arrivals_of s h + of_nat (length (filter (\<lambda>f. routed c f = Slot s) fs)))
     \<and> fi_queue (lk_downstream (ol_link h')) = drop (length fs) (fi_queue (lk_downstream (ol_link h)))
     \<and> decided (ol_routing h') = decided (ol_routing h) + of_nat (length fs)
     \<and> unaccounted (ol_routing h') = unaccounted (ol_routing h)
     \<and> (\<forall>s. shows_pending h' s \<longleftrightarrow> queue_of s h' \<noteq> [])"
  using load_loop_loads [of c h]
  by (simp add: load_frames_into_mailbox_def Let_def loaded_def moved_def refreshed_fields refreshed_bitmap arrivals_of_def)

section \<open>Reading a frame\<close>

text \<open>The program reads the data port of block \<open>b\<close> as long as the status says that a word is ready.\<close>

function read_frame_words :: "u32 \<Rightarrow> olt \<Rightarrow> u32 list \<times> olt" where
  "read_frame_words b h =
     (if read_cmd_status (CMD_STATUS_BASE + b * STRIDE) h = Some STATUS_DATA_READY then
        (case olt_read_data (DATA_BASE + b * STRIDE) h of
           (None, _) \<Rightarrow> ([], h)
         | (Some w, h1) \<Rightarrow> (case read_frame_words b h1 of (ws, h2) \<Rightarrow> (w # ws, h2)))
      else ([], h))"
  by pat_completeness auto

termination
  by (relation "measure (\<lambda>(b, h). length (ol_fifo h))")
    (auto simp: read_cmd_status_def olt_read_data_def split: option.splits list.splits if_splits)

declare read_frame_words.simps [simp del]

definition fetch_frame :: "u32 \<Rightarrow> u8 \<Rightarrow> olt \<Rightarrow> frame \<times> olt" where
  "fetch_frame b s h =
     (case olt_write_cmd (CMD_STATUS_BASE + b * STRIDE) (command_encode (Cmd_Read (Slot s))) h of
        (_, h1) \<Rightarrow> (case read_frame_words b h1 of (ws, h2) \<Rightarrow> (frame_of_words ws, h2)))"

lemma read_frame_words_all:
  "b < BLOCK_COUNT \<Longrightarrow>
     read_frame_words b h = (ol_fifo h, h\<lparr>ol_fifo := [], ol_frame_consumed := ol_fifo h \<noteq> [] \<or> ol_frame_consumed h\<rparr>)"
proof (induction b h rule: read_frame_words.induct)
  case (1 b h)
  have ports: "block_index (CMD_STATUS_BASE + b * STRIDE) CMD_STATUS_BASE = Some b"
    "block_index (DATA_BASE + b * STRIDE) DATA_BASE = Some b"
    using block_of_address [OF 1(2)] by simp_all
  show ?case
  proof (cases "ol_fifo h")
    case Nil
    then have "read_cmd_status (CMD_STATUS_BASE + b * STRIDE) h = Some 0" by (simp add: read_cmd_status_def ports)
    then show ?thesis using Nil by (subst read_frame_words.simps) simp
  next
    case (Cons w ws)
    have ready: "read_cmd_status (CMD_STATUS_BASE + b * STRIDE) h = Some STATUS_DATA_READY"
      using Cons by (simp add: read_cmd_status_def ports)
    have data: "olt_read_data (DATA_BASE + b * STRIDE) h
        = (Some w, h\<lparr>ol_fifo := ws, ol_frame_consumed := ws = [] \<or> ol_frame_consumed h\<rparr>)"
      using Cons by (simp add: olt_read_data_def ports)
    from 1(1) [OF ready data [symmetric] refl 1(2)] show ?thesis
      using Cons ready data by (subst read_frame_words.simps) (auto simp: if_bool_eq_conj)
  qed
qed

text \<open>C34. A read command for a queue followed by reads of the data port while the status says ready yields
  the oldest frame of the queue, byte for byte, leaves the later ones and the other queues as they were, says
  that the frame was consumed, and makes the bitmap agree with the queues.\<close>

theorem mailbox_delivers:
  assumes "b < BLOCK_COUNT" and "queue_of s h = map encode_frame (f # fs)" and "length f + 6 < 2048"
  shows "case fetch_frame b s h of (g, h') \<Rightarrow>
      g = f \<and> (\<forall>t. queue_of t h' = (if t = s then map encode_frame fs else queue_of t h))
      \<and> (\<forall>t. shows_pending h' t \<longleftrightarrow> queue_of t h' \<noteq> []) \<and> ol_frame_consumed h' \<and> ol_link h' = ol_link h"
proof -
  have pending: "ol_pending h s = Some (encode_frame f # map encode_frame fs)"
    using assms(2) by (auto simp: queue_of_def split: option.splits)
  let ?q = "map encode_frame fs"
  let ?h1 = "h\<lparr>ol_fifo := encode_frame f, ol_pending := (ol_pending h)(s := if ?q = [] then None else Some ?q)\<rparr>"
  have "olt_write_cmd (CMD_STATUS_BASE + b * STRIDE) (command_encode (Cmd_Read (Slot s))) h = (True, refresh_bitmap ?h1)"
    using block_of_address(2) [OF assms(1)] pending unfolding olt_write_cmd_def
    by (simp add: decode_read Let_def del: command_encode.simps)
  moreover have "encode_frame f \<noteq> []" by (simp add: encode_frame_def)
  ultimately have fetch: "fetch_frame b s h
      = (f, (refresh_bitmap ?h1)\<lparr>ol_fifo := [], ol_frame_consumed := True\<rparr>)"
    by (simp add: fetch_frame_def read_frame_words_all [OF assms(1)] refreshed_fields frame_of_encode [OF assms(3)]
        del: command_encode.simps)
  have queues: "queue_of t ?h1 = (if t = s then ?q else queue_of t h)" for t by (simp add: queue_of_def)
  have same: "queue_of t (h'\<lparr>ol_fifo := ws, ol_frame_consumed := r\<rparr>) = queue_of t h'"
    "shows_pending (h'\<lparr>ol_fifo := ws, ol_frame_consumed := r\<rparr>) t = shows_pending h' t" for t h' ws r
    by (simp_all add: queue_of_def shows_pending_def read_bitmap_def)
  show ?thesis
    unfolding fetch prod.case same refreshed_fields refreshed_bitmap queues by (simp add: refreshed_fields)
qed

theorem mailbox_delivers_witness:
  "fst (fetch_frame 2 0x10 (olt_new\<lparr>ol_pending := [0x10 \<mapsto> [encode_frame [1, 2, 3], encode_frame [4]]]\<rparr>)) = [1, 2, 3]
   \<and> queue_of 0x10 (snd (fetch_frame 2 0x10 (olt_new\<lparr>ol_pending := [0x10 \<mapsto> [encode_frame [1, 2, 3], encode_frame [4]]]\<rparr>)))
      = [encode_frame [4]]"
  using mailbox_delivers [of 2 "0x10" "olt_new\<lparr>ol_pending := [0x10 \<mapsto> [encode_frame [1, 2, 3], encode_frame [4]]]\<rparr>"
      "[1, 2, 3]" "[[4]]"]
  by (auto simp: queue_of_def split: prod.splits)

section \<open>Assembling a frame\<close>

text \<open>A sequence of writes of the program, seen by the assembler\<close>

primrec observe_writes :: "(u32 \<times> u32) list \<Rightarrow> olt \<Rightarrow> olt option" where
  "observe_writes [] h = Some h"
| "observe_writes (w # ws) h = Option.bind (observe_write (fst w) (snd w) h) (observe_writes ws)"

text \<open>A write that does not announce a frame\<close>

definition no_announcement :: "u32 \<times> u32 \<Rightarrow> bool" where
  "no_announcement w \<longleftrightarrow> block_index (fst w) CMD_STATUS_BASE = None \<or>
     (\<forall>channel len mpcp. command_decode (snd w) \<noteq> Some (Cmd_Write channel len mpcp))"

lemma words_of_frame:
  assumes "14 \<le> n"
  shows "4 * word_count n \<ge> n + 2" and "n \<le> 2046 \<Longrightarrow> word_count n \<le> 512" and "word_count n > 0"
proof -
  define q r where "q = (n + 6) div 4" and "r = (n + 6) mod 4"
  then have qr: "n + 6 = 4 * q + r" "r < 4" by simp_all
  then have "(n + 6) div 4 = q" "(n + 6) mod 4 = r" by simp_all
  then have "word_count n = 1 + (if r \<noteq> 0 then q - 2 + 1 else q - 2)" by (simp add: word_count_def Let_def)
  then show "4 * word_count n \<ge> n + 2" "n \<le> 2046 \<Longrightarrow> word_count n \<le> 512" "word_count n > 0"
    using qr assms by (auto split: if_splits)
qed

lemma observe_other:
  assumes "ta_pending (ol_assembler h) = Some p" and "no_announcement w" and "fst w \<noteq> pd_data_addr p"
  shows "observe_write (fst w) (snd w) h = Some h"
proof (cases "block_index (fst w) CMD_STATUS_BASE = None")
  case True
  have "push_word (fst w) (snd w) (ol_assembler h) = (None, ol_assembler h)"
    using assms(1,3) by (simp add: push_word_def)
  then show ?thesis using True by (simp add: observe_write_def)
next
  case False
  then have "command_decode (snd w) \<noteq> Some (Cmd_Write channel len mpcp)" for channel len mpcp
    using assms(2) by (simp add: no_announcement_def del: not_None_eq)
  then consider "command_decode (snd w) = None" | s where "command_decode (snd w) = Some (Cmd_Read s)"
    by (metis command.exhaust option.exhaust)
  then show ?thesis
    by cases (simp_all only: observe_write_def False if_True not_False_eq_True option.case command.case)
qed

lemma observe_mine:
  assumes "ta_pending (ol_assembler h) = Some p" and "fst w = pd_data_addr p"
    and "block_index (pd_data_addr p) CMD_STATUS_BASE = None"
    and "length (pd_words p) + 1 < pd_words_expected p" and "pd_words_expected p \<le> 512"
  shows "observe_write (fst w) (snd w) h
      = Some (h\<lparr>ol_assembler := (ol_assembler h)\<lparr>ta_pending := Some (p\<lparr>pd_words := pd_words p @ [snd w]\<rparr>)\<rparr>\<rparr>)"
  using assms by (simp add: observe_write_def push_word_def Let_def)

lemma observe_writes_collect:
  assumes "block_index (pd_data_addr p) CMD_STATUS_BASE = None" and "pd_words_expected p \<le> 512"
    and "ta_pending (ol_assembler h) = Some p" and "\<forall>w \<in> set us. no_announcement w"
    and "length (pd_words p) + length (filter (\<lambda>w. fst w = pd_data_addr p) us) < pd_words_expected p"
  shows "observe_writes us h = Some (h\<lparr>ol_assembler := (ol_assembler h)\<lparr>ta_pending :=
      Some (p\<lparr>pd_words := pd_words p @ map snd (filter (\<lambda>w. fst w = pd_data_addr p) us)\<rparr>)\<rparr>\<rparr>)"
  using assms
proof (induction us arbitrary: h p)
  case (Cons w us)
  show ?case
  proof (cases "fst w = pd_data_addr p")
    case True
    let ?p = "p\<lparr>pd_words := pd_words p @ [snd w]\<rparr>"
    let ?h = "h\<lparr>ol_assembler := (ol_assembler h)\<lparr>ta_pending := Some ?p\<rparr>\<rparr>"
    have "observe_write (fst w) (snd w) h = Some ?h" using Cons(2-6) True by (intro observe_mine) simp_all
    moreover have "observe_writes us ?h = Some (?h\<lparr>ol_assembler := (ol_assembler ?h)\<lparr>ta_pending :=
        Some (?p\<lparr>pd_words := pd_words ?p @ map snd (filter (\<lambda>w. fst w = pd_data_addr ?p) us)\<rparr>)\<rparr>\<rparr>)"
      using Cons(2-6) True by (intro Cons(1)) simp_all
    ultimately show ?thesis using True by simp
  next
    case False
    then have "observe_write (fst w) (snd w) h = Some h" using Cons(4,5) by (intro observe_other) simp_all
    moreover have "observe_writes us h = Some (h\<lparr>ol_assembler := (ol_assembler h)\<lparr>ta_pending :=
        Some (p\<lparr>pd_words := pd_words p @ map snd (filter (\<lambda>w. fst w = pd_data_addr p) us)\<rparr>)\<rparr>\<rparr>)"
      using Cons(2-6) False by (intro Cons(1)) simp_all
    ultimately show ?thesis using False by simp
  qed
qed simp

lemma observe_last:
  assumes "ta_pending (ol_assembler h) = Some p" and "fst w = pd_data_addr p"
    and "block_index (pd_data_addr p) CMD_STATUS_BASE = None"
    and "length (pd_words p) + 1 = pd_words_expected p" and "pd_words_expected p \<le> 512"
    and "2 + pd_len p \<le> 4 * pd_words_expected p"
  shows "observe_write (fst w) (snd w) h
      = on_captured_tx (take (pd_len p) (drop 2 (concat (map w_u32 (pd_words p @ [snd w])))))
          (h\<lparr>ol_assembler := (ol_assembler h)\<lparr>ta_pending := None\<rparr>\<rparr>)"
proof -
  have "length (concat (map w_u32 ws)) = 4 * length ws" for ws by (induction ws) simp_all
  then show ?thesis using assms by (simp add: observe_write_def push_word_def Let_def del: concat_append map_append)
qed

lemma observe_writes_snoc: "observe_writes (us @ [w]) h = Option.bind (observe_writes us h) (observe_write (fst w) (snd w))"
  by (induction us arbitrary: h) (auto split: bind_splits)


lemma fourteen_long: "length [1, 2, 3, 4, 5, 6, 7, 8, 9, 10, 11, 12, 13, 14 :: u8] = 14"
  by simp


end
