(* ===== verification/Dev_Flash.thy ===== *)
theory Dev_Flash
  imports Prelude
begin

text \<open>
  \<open>src/soc/spi_flash.rs\<close>: the SPI NOR flash behind the peripheral bus controller. The array holds
  \<open>FLASH_SIZE\<close> bytes (\<open>flash_ok\<close>); the code would panic on a shorter one, and no operation changes its length.
\<close>

unbundle bit_operations_syntax

abbreviation FLASH_SIZE :: nat where "FLASH_SIZE \<equiv> 4194304"

abbreviation CMD_RDSR :: u8 where "CMD_RDSR \<equiv> 0x05"
abbreviation CMD_WREN :: u8 where "CMD_WREN \<equiv> 0x06"
abbreviation CMD_WRDI :: u8 where "CMD_WRDI \<equiv> 0x04"
abbreviation CMD_WRSR :: u8 where "CMD_WRSR \<equiv> 0x01"
abbreviation CMD_READ :: u8 where "CMD_READ \<equiv> 0x03"
abbreviation CMD_FAST_READ :: u8 where "CMD_FAST_READ \<equiv> 0x0B"
abbreviation CMD_PP :: u8 where "CMD_PP \<equiv> 0x02"
abbreviation CMD_SE :: u8 where "CMD_SE \<equiv> 0x20"
abbreviation CMD_BE :: u8 where "CMD_BE \<equiv> 0xD8"
abbreviation CMD_CE :: u8 where "CMD_CE \<equiv> 0xC7"
abbreviation CMD_RDID :: u8 where "CMD_RDID \<equiv> 0x9F"
abbreviation CMD_REMS :: u8 where "CMD_REMS \<equiv> 0x90"
abbreviation CMD_CP :: u8 where "CMD_CP \<equiv> 0xAD"

abbreviation SR_WIP :: u8 where "SR_WIP \<equiv> 0x01"
abbreviation SR_WEL :: u8 where "SR_WEL \<equiv> 0x02"

definition ms_to_ticks :: "nat \<Rightarrow> u32" where
  "ms_to_ticks ms = of_nat (ms * 1000000 div 720)"

definition PP_TICKS :: u32 where "PP_TICKS = ms_to_ticks 1 * 7 div 10"
definition SE_TICKS :: u32 where "SE_TICKS = ms_to_ticks 40"
definition BE_TICKS :: u32 where "BE_TICKS = ms_to_ticks 600"
definition CE_TICKS :: u32 where "CE_TICKS = ms_to_ticks 25000"

abbreviation JEDEC_MANUFACTURER :: u8 where "JEDEC_MANUFACTURER \<equiv> 0xC2"
abbreviation JEDEC_MEMORY_TYPE :: u8 where "JEDEC_MEMORY_TYPE \<equiv> 0x20"
abbreviation JEDEC_CAPACITY :: u8 where "JEDEC_CAPACITY \<equiv> 0x16"
abbreviation DEVICE_ID :: u8 where "DEVICE_ID \<equiv> 0x15"

record spi_flash =
  fl_data :: "u8 list"
  fl_status :: u8
  fl_busy_ticks :: u32
  fl_dirty :: bool
  fl_baseline :: "u8 list option"
  fl_aai_addr :: "u32 option"

definition flash_read_status :: "spi_flash \<Rightarrow> u8" where
  "flash_read_status f = (if fl_busy_ticks f > 0 then fl_status f OR SR_WIP else fl_status f AND NOT SR_WIP)"

definition flash_is_busy :: "spi_flash \<Rightarrow> bool" where
  "flash_is_busy f \<longleftrightarrow> fl_busy_ticks f > 0"

definition flash_tick :: "spi_flash \<Rightarrow> spi_flash" where
  "flash_tick f = f\<lparr>fl_busy_ticks := (if fl_busy_ticks f = 0 then 0 else fl_busy_ticks f - 1)\<rparr>"

definition flash_new :: spi_flash where
  "flash_new = \<lparr>fl_data = replicate FLASH_SIZE 0xFF, fl_status = 0, fl_busy_ticks = 0, fl_dirty = False,
     fl_baseline = None, fl_aai_addr = None\<rparr>"

definition flash_reset_volatile :: "spi_flash \<Rightarrow> spi_flash" where
  "flash_reset_volatile f = f\<lparr>fl_status := 0, fl_busy_ticks := 0, fl_aai_addr := None\<rparr>"

definition capture_baseline :: "spi_flash \<Rightarrow> spi_flash" where
  "capture_baseline f = f\<lparr>fl_baseline := Some (fl_data f), fl_dirty := False\<rparr>"

definition is_byte_modified :: "nat \<Rightarrow> spi_flash \<Rightarrow> bool" where
  "is_byte_modified offset f =
     (case fl_baseline f of
        Some b \<Rightarrow> offset < length b \<and> offset < length (fl_data f) \<and> fl_data f ! offset \<noteq> b ! offset
      | None \<Rightarrow> False)"

text \<open>\<open>data[(start + i) % FLASH_SIZE] &= bytes[i]\<close> for each \<open>i\<close>\<close>

fun program_bytes :: "nat \<Rightarrow> u8 list \<Rightarrow> u8 list \<Rightarrow> u8 list" where
  "program_bytes start [] d = d"
| "program_bytes start (x # xs) d =
     program_bytes (start + 1) xs (d[start mod FLASH_SIZE := d ! (start mod FLASH_SIZE) AND x])"

definition read_bytes :: "nat \<Rightarrow> nat \<Rightarrow> u8 list \<Rightarrow> u8 list" where
  "read_bytes start n d = map (\<lambda>i. d ! ((start + i) mod FLASH_SIZE)) [0..<n]"

text \<open>\<open>data[a..b].fill(v)\<close>\<close>

definition fill :: "nat \<Rightarrow> nat \<Rightarrow> 'a \<Rightarrow> 'a list \<Rightarrow> 'a list" where
  "fill a b v d = take a d @ replicate (b - a) v @ drop b d"

definition extract_addr :: "u8 list \<Rightarrow> u32" where
  "extract_addr tx = push_bit 16 (ucast (tx ! 1)) OR push_bit 8 (ucast (tx ! 2)) OR ucast (tx ! 3)"

definition has_wel :: "spi_flash \<Rightarrow> bool" where
  "has_wel f \<longleftrightarrow> fl_status f AND SR_WEL \<noteq> 0"

definition clear_wel :: "spi_flash \<Rightarrow> spi_flash" where
  "clear_wel f = f\<lparr>fl_status := fl_status f AND NOT SR_WEL\<rparr>"

text \<open>The bodies of the erase commands: \<open>n\<close> bytes from the aligned address, unless it lies past the array\<close>

definition erase_block :: "nat \<Rightarrow> u32 \<Rightarrow> u8 list \<Rightarrow> spi_flash \<Rightarrow> spi_flash" where
  "erase_block n ticks tx f =
     (let base = unat (extract_addr tx AND NOT (of_nat n - 1))
      in if base < FLASH_SIZE
         then f\<lparr>fl_data := fill base (min (base + n) FLASH_SIZE) 0xFF (fl_data f), fl_dirty := True, fl_busy_ticks := ticks\<rparr>
         else f)"

text \<open>Two bytes programmed in continuous mode at \<open>addr\<close>, and the address after them\<close>

definition aai_program :: "u32 \<Rightarrow> u8 \<Rightarrow> u8 \<Rightarrow> spi_flash \<Rightarrow> spi_flash" where
  "aai_program addr x y f =
     (let cur = unat addr mod FLASH_SIZE; next = (cur + 1) mod FLASH_SIZE;
          d = (fl_data f)[cur := fl_data f ! cur AND x]
      in f\<lparr>fl_data := d[next := d ! next AND y], fl_aai_addr := Some (of_nat ((next + 1) mod FLASH_SIZE)), fl_dirty := True\<rparr>)"

text \<open>A store into \<open>rx\<close> past its end is the store the code guards against: none.\<close>

definition execute_fifo_command :: "u8 list \<Rightarrow> nat \<Rightarrow> spi_flash \<Rightarrow> u8 list \<times> spi_flash" where
  "execute_fifo_command tx rx_len f =
     (let rx = replicate rx_len 0; n = length tx; opcode = hd tx
      in if tx = [] then (rx, f)
         else if opcode = CMD_RDID then (rx[0 := JEDEC_MANUFACTURER, 1 := JEDEC_MEMORY_TYPE, 2 := JEDEC_CAPACITY], f)
         else if opcode = CMD_REMS then
           (if (if n \<ge> 4 then tx ! 3 AND 1 else 0) = 0 then (rx[0 := JEDEC_MANUFACTURER, 1 := DEVICE_ID], f)
            else (rx[0 := DEVICE_ID, 1 := JEDEC_MANUFACTURER], f))
         else if opcode = CMD_RDSR then (rx[0 := flash_read_status f], f)
         else if opcode = CMD_WREN then (rx, f\<lparr>fl_status := fl_status f OR SR_WEL\<rparr>)
         else if opcode = CMD_WRDI then (rx, (clear_wel f)\<lparr>fl_aai_addr := None\<rparr>)
         else if opcode = CMD_WRSR then
           (rx, clear_wel (if has_wel f \<and> n \<ge> 2
                           then f\<lparr>fl_status := (fl_status f AND (SR_WIP OR SR_WEL)) OR (tx ! 1 AND 0xFC)\<rparr> else f))
         else if opcode = CMD_READ then
           (if n \<ge> 4 then read_bytes (unat (extract_addr tx)) rx_len (fl_data f) else rx, f)
         else if opcode = CMD_FAST_READ then
           (if n \<ge> 5 then read_bytes (unat (extract_addr tx)) rx_len (fl_data f) else rx, f)
         else if opcode = CMD_PP then
           (rx, clear_wel (if has_wel f \<and> n \<ge> 4
                           then f\<lparr>fl_data := program_bytes (unat (extract_addr tx)) (drop 4 tx) (fl_data f),
                                  fl_dirty := True, fl_busy_ticks := PP_TICKS\<rparr>
                           else f))
         else if opcode = CMD_SE then
           (rx, clear_wel (if has_wel f \<and> n \<ge> 4 then erase_block 4096 SE_TICKS tx f else f))
         else if opcode = CMD_BE then
           (rx, clear_wel (if has_wel f \<and> n \<ge> 4 then erase_block 65536 BE_TICKS tx f else f))
         else if opcode = CMD_CE then
           (rx, clear_wel (if has_wel f
                           then f\<lparr>fl_data := replicate (length (fl_data f)) 0xFF, fl_dirty := True, fl_busy_ticks := CE_TICKS\<rparr>
                           else f))
         else if opcode = CMD_CP then
           (rx, if \<not> has_wel f then f
                else if n = 6 then aai_program (extract_addr tx) (tx ! 4) (tx ! 5) f
                else if n = 3 then (case fl_aai_addr f of Some addr \<Rightarrow> aai_program addr (tx ! 1) (tx ! 2) f | None \<Rightarrow> f)
                else f)
         else (rx, f))"

definition flash_dma_read :: "u32 \<Rightarrow> nat \<Rightarrow> spi_flash \<Rightarrow> u8 list" where
  "flash_dma_read addr len f = read_bytes (unat addr mod FLASH_SIZE) len (fl_data f)"

definition flash_dma_write :: "u32 \<Rightarrow> u8 list \<Rightarrow> spi_flash \<Rightarrow> spi_flash" where
  "flash_dma_write addr bytes f =
     f\<lparr>fl_data := program_bytes (unat addr mod FLASH_SIZE) bytes (fl_data f),
       fl_status := fl_status f AND NOT SR_WEL, fl_dirty := True\<rparr>"

section \<open>What the array can become\<close>

definition flash_ok :: "spi_flash \<Rightarrow> bool" where
  "flash_ok f \<longleftrightarrow> length (fl_data f) = FLASH_SIZE"

text \<open>Every bit that is set in \<open>d'\<close> is set in \<open>d\<close>.\<close>

definition only_cleared :: "u8 list \<Rightarrow> u8 list \<Rightarrow> bool" where
  "only_cleared d d' \<longleftrightarrow> length d' = length d \<and> (\<forall>i < length d. d' ! i AND d ! i = d' ! i)"

lemma cleared_trans: "x AND y = x \<Longrightarrow> y AND z = y \<Longrightarrow> x AND z = x" for x y z :: u8
  by (metis and.assoc)

lemma only_cleared_refl [simp]: "only_cleared d d"
  by (simp add: only_cleared_def)

lemma only_cleared_trans: "only_cleared d d' \<Longrightarrow> only_cleared d' d'' \<Longrightarrow> only_cleared d d''"
  unfolding only_cleared_def using cleared_trans by metis

lemma only_cleared_store: "only_cleared d (d[i := d ! i AND x])"
proof -
  have "d[i := d ! i AND x] ! k AND d ! k = d[i := d ! i AND x] ! k" if "k < length d" for k
    using that by (cases "k = i") (simp_all add: and.assoc and.commute and.left_commute)
  then show ?thesis by (simp add: only_cleared_def)
qed

lemma only_cleared_program: "only_cleared d (program_bytes a xs d)"
  by (induction a xs d rule: program_bytes.induct) (auto intro: only_cleared_trans only_cleared_store)

lemma length_program_bytes [simp]: "length (program_bytes a xs d) = length d"
  by (induction a xs d rule: program_bytes.induct) simp_all

lemma program_bytes_append: "program_bytes a (xs @ ys) d = program_bytes (a + length xs) ys (program_bytes a xs d)"
  by (induction a xs d rule: program_bytes.induct) simp_all

text \<open>No wrap around the end of the array: the bytes \<open>a..a+n-1\<close> take the AND with the data, the others are kept.\<close>

lemma nth_program_bytes:
  "length d = FLASH_SIZE \<Longrightarrow> a + length xs \<le> FLASH_SIZE \<Longrightarrow> i < FLASH_SIZE \<Longrightarrow>
   program_bytes a xs d ! i = (if a \<le> i \<and> i < a + length xs then d ! i AND xs ! (i - a) else d ! i)"
proof (induction a xs d rule: program_bytes.induct)
  case (2 a x xs d)
  then have "i - a = Suc (i - Suc a)" if "Suc a \<le> i" using that by simp
  with 2 show ?case by (auto simp: nth_list_update)
qed auto

lemma length_fill [simp]: "a \<le> b \<Longrightarrow> b \<le> length d \<Longrightarrow> length (fill a b v d) = length d"
  by (simp add: fill_def)

lemma nth_fill: "a \<le> b \<Longrightarrow> b \<le> length d \<Longrightarrow> i < length d \<Longrightarrow> fill a b v d ! i = (if a \<le> i \<and> i < b then v else d ! i)"
  by (auto simp: fill_def nth_append)

section \<open>Runs\<close>

text \<open>What can happen to the flash: a command, a transfer of the controller, a bank tick\<close>

datatype flash_op = Fifo "u8 list" nat | Dma u32 "u8 list" | Tick

primrec flash_step :: "flash_op \<Rightarrow> spi_flash \<Rightarrow> spi_flash" where
  "flash_step (Fifo tx n) f = snd (execute_fifo_command tx n f)"
| "flash_step (Dma addr bytes) f = flash_dma_write addr bytes f"
| "flash_step Tick f = flash_tick f"

abbreviation flash_run :: "flash_op list \<Rightarrow> spi_flash \<Rightarrow> spi_flash" where
  "flash_run ops f \<equiv> fold flash_step ops f"

abbreviation opcode_in :: "u8 set \<Rightarrow> flash_op \<Rightarrow> bool" where
  "opcode_in X op \<equiv> (\<exists>tx n. op = Fifo tx n \<and> tx \<noteq> [] \<and> hd tx \<in> X)"

lemma has_wel_bit: "has_wel f \<longleftrightarrow> bit (fl_status f) 1"
  using and_exp_eq_0_iff [of 1 "fl_status f"] by (simp add: has_wel_def push_bit_eq_mult)

lemma wel_cleared [simp]: "has_wel (clear_wel f) = False"
  by (simp add: has_wel_bit clear_wel_def bit_simps)

lemma clear_wel_fields [simp]:
  "fl_data (clear_wel f) = fl_data f" "fl_busy_ticks (clear_wel f) = fl_busy_ticks f"
  "fl_aai_addr (clear_wel f) = fl_aai_addr f"
  by (simp_all add: clear_wel_def)

lemma has_wel_update [simp]:
  "has_wel (f\<lparr>fl_aai_addr := a\<rparr>) = has_wel f" "has_wel (f\<lparr>fl_status := fl_status f OR SR_WEL\<rparr>)"
  "has_wel (f\<lparr>fl_data := d, fl_dirty := b, fl_busy_ticks := t\<rparr>) = has_wel f"
  "has_wel (f\<lparr>fl_busy_ticks := t\<rparr>) = has_wel f"
  by (simp_all add: has_wel_bit bit_simps)

lemma erase_block_length: "flash_ok f \<Longrightarrow> length (fl_data (erase_block n t tx f)) = FLASH_SIZE"
  by (simp add: erase_block_def flash_ok_def Let_def)

lemma aai_program_only_cleared: "only_cleared (fl_data f) (fl_data (aai_program a x y f))"
  by (auto simp: aai_program_def Let_def intro: only_cleared_trans only_cleared_store)

lemma command_length: "flash_ok f \<Longrightarrow> flash_ok (snd (execute_fifo_command tx n f))"
  using erase_block_length [of f] aai_program_only_cleared
  by (simp add: execute_fifo_command_def Let_def flash_ok_def only_cleared_def split: option.split)

lemma command_without_erase:
  "tx = [] \<or> hd tx \<notin> {CMD_SE, CMD_BE, CMD_CE} \<Longrightarrow>
   only_cleared (fl_data f) (fl_data (snd (execute_fifo_command tx n f)))"
  by (auto simp: execute_fifo_command_def Let_def only_cleared_program aai_program_only_cleared split: option.split)

lemma command_without_wel:
  "\<not> has_wel f \<Longrightarrow> tx = [] \<or> hd tx \<noteq> CMD_WREN \<Longrightarrow>
   fl_data (snd (execute_fifo_command tx n f)) = fl_data f \<and> \<not> has_wel (snd (execute_fifo_command tx n f))"
  by (auto simp: execute_fifo_command_def Let_def)

text \<open>C35. The array is protected and only erasing sets bits. Whatever commands, transfers and ticks follow: the
  array keeps its size; without an erase command (sector, block, chip) no bit of it rises; and from a
  cleared write-enable latch, without a WREN command and without a transfer of the controller, the array and the
  latch stay as they are.\<close>

theorem flash_protected:
  assumes "flash_ok f"
  shows "flash_ok (flash_run ops f)
    \<and> ((\<forall>op \<in> set ops. \<not> opcode_in {CMD_SE, CMD_BE, CMD_CE} op) \<longrightarrow> only_cleared (fl_data f) (fl_data (flash_run ops f)))
    \<and> (\<not> has_wel f \<and> (\<forall>op \<in> set ops. \<not> opcode_in {CMD_WREN} op \<and> (\<forall>a bs. op \<noteq> Dma a bs)) \<longrightarrow>
         fl_data (flash_run ops f) = fl_data f \<and> \<not> has_wel (flash_run ops f))"
  using assms
proof (induction ops arbitrary: f)
  case (Cons op ops)
  have ok: "flash_ok (flash_step op f)"
    using Cons.prems command_length
    by (cases op) (simp_all add: flash_ok_def flash_dma_write_def flash_tick_def)
  have cleared: "only_cleared (fl_data f) (fl_data (flash_step op f))" if "\<not> opcode_in {CMD_SE, CMD_BE, CMD_CE} op"
    using that command_without_erase [of _ f]
    by (cases op) (simp_all add: flash_dma_write_def only_cleared_program flash_tick_def)
  have kept: "fl_data (flash_step op f) = fl_data f \<and> \<not> has_wel (flash_step op f)"
    if "\<not> has_wel f" "\<not> opcode_in {CMD_WREN} op" "\<forall>a bs. op \<noteq> Dma a bs"
    using that command_without_wel [of f] by (cases op) (simp_all add: flash_tick_def)
  note IH = Cons.IH [OF ok]
  have "only_cleared (fl_data f) (fl_data (flash_run (op # ops) f))"
    if none: "\<forall>op \<in> set (op # ops). \<not> opcode_in {CMD_SE, CMD_BE, CMD_CE} op"
  proof -
    have "\<not> opcode_in {CMD_SE, CMD_BE, CMD_CE} op" "\<forall>op \<in> set ops. \<not> opcode_in {CMD_SE, CMD_BE, CMD_CE} op"
      using none by simp_all
    then show ?thesis using cleared IH only_cleared_trans by simp
  qed
  moreover have "fl_data (flash_run (op # ops) f) = fl_data f \<and> \<not> has_wel (flash_run (op # ops) f)"
    if none: "\<not> has_wel f" "\<forall>op \<in> set (op # ops). \<not> opcode_in {CMD_WREN} op \<and> (\<forall>a bs. op \<noteq> Dma a bs)"
  proof -
    have "\<not> opcode_in {CMD_WREN} op" "\<forall>a bs. op \<noteq> Dma a bs"
      "\<forall>op \<in> set ops. \<not> opcode_in {CMD_WREN} op \<and> (\<forall>a bs. op \<noteq> Dma a bs)"
      using none(2) by simp_all
    then show ?thesis using kept [OF none(1)] IH by simp
  qed
  ultimately show ?case using IH by simp
qed simp

lemma flash_protected_witness:
  "flash_ok flash_new
    \<and> fl_data (flash_run [Fifo [CMD_PP, 0, 0, 0, 0x12] 0, Tick, Fifo [CMD_WRSR, 0xFF] 0] flash_new) = fl_data flash_new
    \<and> only_cleared (fl_data flash_new) (fl_data (flash_run [Fifo [CMD_WREN] 0, Fifo [CMD_PP, 0, 0, 0, 0x12] 0] flash_new))"
proof -
  have ok: "flash_ok flash_new" "\<not> has_wel flash_new" by (simp_all add: flash_ok_def flash_new_def has_wel_def)
  show ?thesis
    using ok flash_protected [OF ok(1), of "[Fifo [CMD_PP, 0, 0, 0, 0x12] 0, Tick, Fifo [CMD_WRSR, 0xFF] 0]"]
      flash_protected [OF ok(1), of "[Fifo [CMD_WREN] 0, Fifo [CMD_PP, 0, 0, 0, 0x12] 0]"]
    by simp
qed

section \<open>The sequences of a driver\<close>

text \<open>The three bytes of an address\<close>

definition addr3 :: "u32 \<Rightarrow> u8 list" where
  "addr3 a = [byte_of 2 a, byte_of 1 a, byte_of 0 a]"

lemma length_addr3 [simp]: "length (addr3 a) = 3" by (simp add: addr3_def)

lemma extract_addr3: "unat a < 2 ^ 24 \<Longrightarrow> extract_addr (c # addr3 a @ xs) = a"
proof -
  assume "unat a < 2 ^ 24"
  then have "take_bit 24 (unat a) = unat a" by (simp add: take_bit_nat_eq_self_iff)
  then have "take_bit 24 a = a" by (metis unsigned_take_bit_eq word_unat_eq_iff)
  then have "\<not> bit a k" if "24 \<le> k" for k using that by (metis bit_take_bit_iff not_le)
  moreover have "bit (extract_addr (c # addr3 a @ xs)) k \<longleftrightarrow> k < 24 \<and> bit a k" if "k < 32" for k
  proof -
    consider "k < 8" | "8 \<le> k" "k < 16" | "16 \<le> k" by linarith
    then show ?thesis
      using that by cases (simp_all add: addr3_def extract_addr_def bit_simps bit_byte_of less_diff_conv2)
  qed
  ultimately show ?thesis by (intro bit_word_eqI) (use not_le in auto)
qed

lemma sector_base: "unat (a AND NOT (of_nat 4096 - 1)) = unat a div 4096 * 4096" for a :: u32
proof -
  have "a AND NOT (of_nat 4096 - 1) = push_bit 12 (drop_bit 12 a)"
  proof -
    have "a AND NOT (of_nat 4096 - 1) = a AND NOT (mask 12)" by (simp add: mask_eq_exp_minus_1)
    also have "\<dots> = push_bit 12 (drop_bit 12 a)" by (rule bit_word_eqI) (auto simp: bit_simps)
    finally show ?thesis .
  qed
  moreover have "unat (push_bit 12 (drop_bit 12 a)) = unat a div 4096 * 4096"
    using unat_less_32 [of a] by (simp add: push_bit_eq_mult unat_word_ariths unat_drop_bit_div)
  ultimately show ?thesis by simp
qed

text \<open>What a sector holds after its erasure and the programming of \<open>bs\<close> from \<open>a\<close>\<close>

lemma erased_and_programmed:
  assumes d: "length d = FLASH_SIZE" and a: "a < FLASH_SIZE" "a mod 4096 + length bs \<le> 4096" and i: "i < FLASH_SIZE"
  shows "program_bytes a bs (fill (a div 4096 * 4096) (min (a div 4096 * 4096 + 4096) FLASH_SIZE) 0xFF d) ! i
    = (if i div 4096 \<noteq> a div 4096 then d ! i else if a \<le> i \<and> i < a + length bs then bs ! (i - a) else 0xFF)"
proof -
  let ?base = "a div 4096 * 4096"
  have parts: "a = ?base + a mod 4096" "a mod 4096 < 4096" by (simp_all add: div_mult_mod_eq)
  have "a div 4096 < 1024" using a(1) by (simp add: less_mult_imp_div_less)
  then have base: "?base + 4096 \<le> FLASH_SIZE" by linarith
  have last: "a + length bs \<le> ?base + 4096" using a(2) parts by linarith
  have sector: "i div 4096 = a div 4096 \<longleftrightarrow> ?base \<le> i \<and> i < ?base + 4096"
    using div_mult_mod_eq [of i 4096] mod_less_divisor [where n = 4096 and m = i] by (auto intro!: div_nat_eqI)
  let ?d = "fill ?base (min (?base + 4096) FLASH_SIZE) 0xFF d"
  have len: "length ?d = FLASH_SIZE" using base d by simp
  have fill: "?d ! i = (if i div 4096 = a div 4096 then 0xFF else d ! i)"
    using base d i nth_fill [of ?base "min (?base + 4096) FLASH_SIZE" d i "0xFF"] by (simp only: sector) simp
  have "program_bytes a bs ?d ! i = (if a \<le> i \<and> i < a + length bs then ?d ! i AND bs ! (i - a) else ?d ! i)"
    using base last i by (intro nth_program_bytes len) linarith+
  moreover have "a \<le> i \<and> i < a + length bs \<Longrightarrow> i div 4096 = a div 4096"
    using last parts unfolding sector by linarith
  moreover have "(0xFF :: u8) AND x = x" for x
  proof -
    have "(0xFF :: u8) = - 1" by simp
    then show ?thesis by (simp only: and.left_neutral)
  qed
  ultimately show ?thesis unfolding fill by simp
qed

text \<open>The commands of a driver that writes \<open>bs\<close> to \<open>a\<close> and erases the sector first\<close>

abbreviation erase_and_program :: "u32 \<Rightarrow> u8 list \<Rightarrow> flash_op list" where
  "erase_and_program a bs \<equiv>
     [Fifo [CMD_WREN] 0, Fifo (CMD_SE # addr3 a) 0, Fifo [CMD_WREN] 0, Fifo (CMD_PP # addr3 a @ bs) 0]"

lemma extract_addr3': "unat a < 2 ^ 24 \<Longrightarrow> extract_addr (c # addr3 a) = a"
  using extract_addr3 [of a c "[]"] by simp

lemma erase_sector:
  "unat a < FLASH_SIZE \<Longrightarrow>
   fl_data (erase_block 4096 t (c # addr3 a) f)
     = fill (unat a div 4096 * 4096) (min (unat a div 4096 * 4096 + 4096) FLASH_SIZE) 0xFF (fl_data f)"
proof -
  assume a: "unat a < FLASH_SIZE"
  then have "unat a div 4096 * 4096 < FLASH_SIZE" by (simp add: less_mult_imp_div_less)
  moreover have "unat a < 2 ^ 24" using a by simp
  ultimately show ?thesis unfolding erase_block_def extract_addr3' [OF \<open>unat a < 2 ^ 24\<close>] sector_base Let_def by simp
qed

lemma program_page:
  "has_wel f \<Longrightarrow> unat a < FLASH_SIZE \<Longrightarrow>
   flash_step (Fifo (CMD_PP # addr3 a @ bs) n) f
     = clear_wel (f\<lparr>fl_data := program_bytes (unat a) bs (fl_data f), fl_dirty := True, fl_busy_ticks := PP_TICKS\<rparr>)"
  by (simp add: execute_fifo_command_def extract_addr3 drop_Cons' del: append_Cons)

lemma wren: "flash_step (Fifo [CMD_WREN] n) f = f\<lparr>fl_status := fl_status f OR SR_WEL\<rparr>"
  by (simp add: execute_fifo_command_def)

lemma erase_and_program_run:
  assumes "unat a < FLASH_SIZE"
  shows "fl_data (flash_run (erase_and_program a bs) f)
      = program_bytes (unat a) bs (fill (unat a div 4096 * 4096) (min (unat a div 4096 * 4096 + 4096) FLASH_SIZE) 0xFF (fl_data f))"
    and "\<not> has_wel (flash_run (erase_and_program a bs) f)"
    and "fl_busy_ticks (flash_run (erase_and_program a bs) f) = PP_TICKS"
proof -
  have erase: "has_wel g \<Longrightarrow> flash_step (Fifo (CMD_SE # addr3 a) 0) g = clear_wel (erase_block 4096 SE_TICKS (CMD_SE # addr3 a) g)" for g
    by (simp add: execute_fifo_command_def)
  let ?f = "clear_wel (erase_block 4096 SE_TICKS (CMD_SE # addr3 a) (f\<lparr>fl_status := fl_status f OR SR_WEL\<rparr>))"
  have run: "flash_run (erase_and_program a bs) f
    = flash_step (Fifo (CMD_PP # addr3 a @ bs) 0) (?f\<lparr>fl_status := fl_status ?f OR SR_WEL\<rparr>)"
    by (simp only: fold_simps wren erase has_wel_update)
  show "fl_data (flash_run (erase_and_program a bs) f)
      = program_bytes (unat a) bs (fill (unat a div 4096 * 4096) (min (unat a div 4096 * 4096 + 4096) FLASH_SIZE) 0xFF (fl_data f))"
    unfolding run using assms by (simp add: program_page erase_sector del: flash_step.simps)
  show "\<not> has_wel (flash_run (erase_and_program a bs) f)" "fl_busy_ticks (flash_run (erase_and_program a bs) f) = PP_TICKS"
    unfolding run using assms by (simp_all add: program_page del: flash_step.simps)
qed

lemma read_back:
  "unat a + n \<le> FLASH_SIZE \<Longrightarrow> fst (execute_fifo_command (CMD_READ # addr3 a) n f) = map (\<lambda>i. fl_data f ! (unat a + i)) [0..<n]"
  using extract_addr3' [of a CMD_READ] by (simp add: execute_fifo_command_def read_bytes_def)

lemma busy_after_ticks:
  "fl_busy_ticks f = t \<Longrightarrow> flash_is_busy ((flash_tick ^^ n) f) \<longleftrightarrow> n < unat t"
proof (induction n arbitrary: t f)
  case (Suc n)
  have "unat (t - 1) = unat t - 1" if "t \<noteq> 0" using that by (simp add: unat_minus_one)
  moreover have "fl_busy_ticks (flash_tick f) = (if t = 0 then 0 else t - 1)" using Suc.prems by (simp add: flash_tick_def)
  ultimately show ?case
    using Suc.IH [of "flash_tick f"] by (cases "t = 0") (auto simp: funpow_swap1 unat_gt_0 simp del: funpow.simps(2) simp: funpow_Suc_right)
qed (simp add: flash_is_busy_def word_neq_0_conv unat_gt_0)



section \<open>Continuous programming\<close>

text \<open>The burst that starts continuous programming of \<open>x\<close>, \<open>y\<close> at \<open>a\<close>, and those that follow\<close>

abbreviation aai_bursts :: "u32 \<Rightarrow> u8 \<times> u8 \<Rightarrow> (u8 \<times> u8) list \<Rightarrow> flash_op list" where
  "aai_bursts a p ps \<equiv>
     Fifo (CMD_CP # addr3 a @ [fst p, snd p]) 0 # map (\<lambda>(x, y). Fifo [CMD_CP, x, y] 0) ps"

lemma aai_program_bytes:
  "unat a < FLASH_SIZE \<Longrightarrow>
   fl_data (aai_program a x y f) = program_bytes (unat a) [x, y] (fl_data f)
   \<and> fl_aai_addr (aai_program a x y f) = Some (of_nat ((unat a + 2) mod FLASH_SIZE))
   \<and> fl_status (aai_program a x y f) = fl_status f \<and> fl_busy_ticks (aai_program a x y f) = fl_busy_ticks f"
  by (simp add: aai_program_def Let_def mod_Suc_eq)

lemma program_bytes_mod: "program_bytes (a mod FLASH_SIZE) bs d = program_bytes a bs d"
  by (induction bs arbitrary: a d) (simp_all, metis mod_Suc_eq)

lemma aai_continues:
  "has_wel f \<Longrightarrow> fl_aai_addr f = Some (of_nat (k mod FLASH_SIZE)) \<Longrightarrow>
   fl_data (flash_run (map (\<lambda>(x, y). Fifo [CMD_CP, x, y] 0) ps) f)
     = program_bytes k (concat (map (\<lambda>(x, y). [x, y]) ps)) (fl_data f)
   \<and> has_wel (flash_run (map (\<lambda>(x, y). Fifo [CMD_CP, x, y] 0) ps) f)
   \<and> fl_busy_ticks (flash_run (map (\<lambda>(x, y). Fifo [CMD_CP, x, y] 0) ps) f) = fl_busy_ticks f"
proof (induction ps arbitrary: f k)
  case (Cons p ps)
  obtain x y where p: "p = (x, y)" by (cases p)
  let ?a = "of_nat (k mod FLASH_SIZE) :: u32"
  have "k mod FLASH_SIZE < FLASH_SIZE" by simp
  then have a: "unat ?a = k mod FLASH_SIZE" by (intro of_nat_inverse [OF refl]) simp
  have step: "flash_step (Fifo [CMD_CP, x, y] 0) f = aai_program ?a x y f"
    using Cons.prems by (simp add: execute_fifo_command_def)
  have bytes: "fl_data (aai_program ?a x y f) = program_bytes k [x, y] (fl_data f)"
      "fl_aai_addr (aai_program ?a x y f) = Some (of_nat ((k + 2) mod FLASH_SIZE))"
      "has_wel (aai_program ?a x y f)" "fl_busy_ticks (aai_program ?a x y f) = fl_busy_ticks f"
    using aai_program_bytes [of ?a x y f, unfolded a program_bytes_mod mod_add_left_eq] Cons.prems(1)
    by (simp_all add: has_wel_def del: program_bytes.simps)
  show ?case
    using Cons.IH [OF bytes(3,2)] bytes by (simp add: p step del: flash_step.simps)
qed simp

text \<open>Continuous programming writes the bytes of its bursts one after the other from the address of the
  first burst, around the end of the array; WRDI leaves the mode and clears the latch. No burst makes the part
  report a write in progress.\<close>

theorem aai_programs:
  fixes p and ps and f
  assumes "unat a < FLASH_SIZE"
  defines "f' \<equiv> flash_run (Fifo [CMD_WREN] 0 # aai_bursts a p ps @ [Fifo [CMD_WRDI] 0]) f"
  shows "fl_data f' = program_bytes (unat a) (concat (map (\<lambda>(x, y). [x, y]) (p # ps))) (fl_data f)
    \<and> fl_aai_addr f' = None \<and> \<not> has_wel f' \<and> fl_busy_ticks f' = fl_busy_ticks f"
proof -
  obtain x y where p: "p = (x, y)" by (cases p)
  let ?f = "f\<lparr>fl_status := fl_status f OR SR_WEL\<rparr>"
  let ?g = "aai_program a x y ?f"
  have a: "extract_addr (CMD_CP # addr3 a @ [x, y]) = a" using assms(1) extract_addr3 by simp
  have data: "CMD_CP # addr3 a @ [x, y] = [CMD_CP, byte_of 2 a, byte_of 1 a, byte_of 0 a, x, y]" by (simp add: addr3_def)
  have start: "flash_step (Fifo (CMD_CP # addr3 a @ [x, y]) 0) ?f = ?g"
    using a unfolding data by (simp add: execute_fifo_command_def)
  have g: "fl_data ?g = program_bytes (unat a) [x, y] (fl_data f)"
    "fl_aai_addr ?g = Some (of_nat ((unat a + 2) mod FLASH_SIZE))" "has_wel ?g" "fl_busy_ticks ?g = fl_busy_ticks f"
    using aai_program_bytes [OF assms(1), of x y ?f] by (simp_all add: has_wel_def del: program_bytes.simps)
  have run: "f' = flash_step (Fifo [CMD_WRDI] 0) (flash_run (map (\<lambda>(x, y). Fifo [CMD_CP, x, y] 0) ps) ?g)"
    unfolding f'_def by (simp only: p fst_conv snd_conv fold_append comp_apply fold_simps append_Cons wren start)
  show ?thesis
    unfolding run using aai_continues [OF g(3,2), of ps] g
    by (simp add: p execute_fifo_command_def program_bytes_append [of _ "[x, y]", simplified])
qed

lemma aai_programs_witness:
  "fl_data (flash_run (Fifo [CMD_WREN] 0 # aai_bursts 0x100 (1, 2) [(3, 4)] @ [Fifo [CMD_WRDI] 0]) flash_new)
    = program_bytes 0x100 [1, 2, 3, 4] (fl_data flash_new)"
  using aai_programs [of "0x100" "(1, 2)" "[(3, 4)]" flash_new] by (simp del: program_bytes.simps)

end
