(* ===== verification/Dev_Words.thy ===== *)
theory Dev_Words
  imports Prelude
begin

text \<open>
  The default methods of the trait \<open>Peripheral\<close> (\<open>src/soc/peripheral.rs\<close>): accesses narrower than a word,
  built from the word accesses \<open>rd\<close> and \<open>wr\<close> of a device. A device of the model always answers, so a read is a
  value and the state after it. The locale \<open>register_words\<close> is the contract under which they make the
  device a big-endian array of bytes.
\<close>

unbundle bit_operations_syntax

definition default_read_byte :: "(u32 \<Rightarrow> 's \<Rightarrow> u32 \<times> 's) \<Rightarrow> u32 \<Rightarrow> 's \<Rightarrow> u8 \<times> 's" where
  "default_read_byte rd addr s =
     (case rd (addr AND NOT 3) s of
        (word, s') \<Rightarrow> (ucast (drop_bit (unat (24 - (addr AND 3) * 8)) word), s'))"

definition default_read_half :: "(u32 \<Rightarrow> 's \<Rightarrow> u32 \<times> 's) \<Rightarrow> u32 \<Rightarrow> 's \<Rightarrow> u16 \<times> 's" where
  "default_read_half rd addr s =
     (case rd (addr AND NOT 3) s of
        (word, s') \<Rightarrow> (ucast (drop_bit (unat (16 - (drop_bit 1 addr AND 1) * 16)) word), s'))"

definition default_write_byte ::
  "(u32 \<Rightarrow> 's \<Rightarrow> u32 \<times> 's) \<Rightarrow> (u32 \<Rightarrow> u32 \<Rightarrow> 's \<Rightarrow> 's) \<Rightarrow> u32 \<Rightarrow> u8 \<Rightarrow> 's \<Rightarrow> 's" where
  "default_write_byte rd wr addr val s =
     (case rd (addr AND NOT 3) s of
        (old, s') \<Rightarrow>
          let shift = unat (24 - (addr AND 3) * 8); msk = NOT (push_bit shift 0xFF)
          in wr (addr AND NOT 3) ((old AND msk) OR push_bit shift (ucast val)) s')"

definition default_write_half ::
  "(u32 \<Rightarrow> 's \<Rightarrow> u32 \<times> 's) \<Rightarrow> (u32 \<Rightarrow> u32 \<Rightarrow> 's \<Rightarrow> 's) \<Rightarrow> u32 \<Rightarrow> u16 \<Rightarrow> 's \<Rightarrow> 's" where
  "default_write_half rd wr addr val s =
     (case rd (addr AND NOT 3) s of
        (old, s') \<Rightarrow>
          let shift = unat (16 - (drop_bit 1 addr AND 1) * 16); msk = NOT (push_bit shift 0xFFFF)
          in wr (addr AND NOT 3) ((old AND msk) OR push_bit shift (ucast val)) s')"

section \<open>Bytes of words\<close>

text \<open>The place of a byte in its word, counted from the low end\<close>

definition lane :: "u32 \<Rightarrow> nat" where
  "lane addr = 3 - unat addr mod 4"

lemma lane_less: "lane a < 4"
  by (simp add: lane_def)

lemma unat_and_3: "unat (a AND 3) = unat a mod 4" for a :: u32
  using unat_and_mask [of a 2] by (simp add: mask_eq_exp_minus_1)

lemma split_word: "x = (x AND NOT 3) + (x AND 3)" for x :: u32
proof -
  have "(x AND NOT 3) + (x AND 3) = (x AND NOT 3) OR (x AND 3)"
    by (intro disjunctive_add) (auto simp: bit_simps)
  also have "\<dots> = x" by (rule bit_word_eqI) (auto simp: bit_simps)
  finally show ?thesis by simp
qed

lemma unat_and_not_3: "unat (a AND NOT 3) = unat a - unat a mod 4" for a :: u32
proof -
  have "take_bit 2 a \<le> a" by (simp add: word_le_nat_alt unsigned_take_bit_eq take_bit_nat_less_eq_self)
  then have "unat (a - take_bit 2 a) = unat a - unat (take_bit 2 a)" by (simp add: unat_sub)
  moreover have "a AND NOT 3 = a - take_bit 2 a"
    using split_word [of a] by (simp add: and_low_mask(1) algebra_simps)
  ultimately show ?thesis using unat_and_3 [of a] by (simp add: and_low_mask(1))
qed

lemma shift_byte: "unat (24 - (a AND 3) * 8) = 8 * lane a" for a :: u32
proof -
  have "unat (a AND 3) < 4" by (simp add: unat_and_3)
  then have "unat ((a AND 3) * 8) = unat (a AND 3) * 8" "(a AND 3) * 8 \<le> 24"
    by (simp_all add: unat_word_ariths word_le_nat_alt)
  then show ?thesis by (simp add: unat_sub lane_def unat_and_3)
qed

definition half_lane :: "u32 \<Rightarrow> nat" where
  "half_lane addr = (if bit addr 1 then 0 else 2)"

lemma shift_half: "unat (16 - (drop_bit 1 a AND 1) * 16) = 8 * half_lane a" for a :: u32
proof -
  have "drop_bit 1 a AND 1 = of_bool (bit a 1)" by (simp add: and_one_eq mod_2_eq_odd bit_iff_odd_drop_bit)
  then show ?thesis by (simp add: half_lane_def)
qed

lemma byte_of_merged:
  fixes old :: u32 and val :: u8
  assumes "i < 4" "j < 4"
  shows "byte_of i ((old AND NOT (push_bit (8 * j) 0xFF)) OR push_bit (8 * j) (ucast val)) = (if i = j then val else byte_of i old)"
proof (rule bit_word_eqI)
  fix n assume n: "n < LENGTH(8)"
  have ff: "bit (push_bit p 0xFF :: u32) k \<longleftrightarrow> p \<le> k \<and> k - p < 8 \<and> k < 32" for p k
  proof -
    have "(0xFF :: u32) = mask 8" by (simp add: mask_eq_exp_minus_1)
    then show ?thesis by (simp only: bit_push_bit_iff bit_mask_iff) auto
  qed
  have short: "bit val k \<Longrightarrow> k < 8" for k using bit_imp_le_length by fastforce
  have "8 * j \<le> 8 * i + n \<and> 8 * i + n - 8 * j < 8 \<longleftrightarrow> i = j" using n assms by auto
  then show "bit (byte_of i ((old AND NOT (push_bit (8 * j) 0xFF)) OR push_bit (8 * j) (ucast val))) n
      = bit (if i = j then val else byte_of i old) n"
    using n assms by (auto simp: bit_byte_of bit_and_iff bit_or_iff bit_not_iff bit_push_bit_iff [of _ "ucast val"] bit_unsigned_iff ff dest: short)
qed

lemma half_of_merged:
  fixes old :: u32 and val :: u16
  assumes "i < 4" "j = 0 \<or> j = 2"
  shows "byte_of i ((old AND NOT (push_bit (8 * j) 0xFFFF)) OR push_bit (8 * j) (ucast val))
    = (if i = j then byte_of 0 val else if i = j + 1 then byte_of 1 val else byte_of i old)"
proof (rule bit_word_eqI)
  fix n assume n: "n < LENGTH(8)"
  have ff: "bit (push_bit p 0xFFFF :: u32) k \<longleftrightarrow> p \<le> k \<and> k - p < 16 \<and> k < 32" for p k
  proof -
    have "(0xFFFF :: u32) = mask 16" by (simp add: mask_eq_exp_minus_1)
    then show ?thesis by (simp only: bit_push_bit_iff bit_mask_iff) auto
  qed
  have short: "bit val k \<Longrightarrow> k < 16" for k using bit_imp_le_length by fastforce
  have "8 * j \<le> 8 * i + n \<and> 8 * i + n - 8 * j < 16 \<longleftrightarrow> i = j \<or> i = j + 1" using n assms by auto
  then show "bit (byte_of i ((old AND NOT (push_bit (8 * j) 0xFFFF)) OR push_bit (8 * j) (ucast val))) n
      = bit (if i = j then byte_of 0 val else if i = j + 1 then byte_of 1 val else byte_of i old) n"
    using n assms by (auto simp: bit_byte_of bit_and_iff bit_or_iff bit_not_iff bit_push_bit_iff [of _ "ucast val"] bit_unsigned_iff ff dest: short)
qed

lemma byte_of_half:
  "byte_of 0 (ucast (drop_bit 16 w) :: u16) = byte_of 2 w" "byte_of 1 (ucast (drop_bit 16 w) :: u16) = byte_of 3 w"
  "byte_of 0 (ucast w :: u16) = byte_of 0 w" "byte_of 1 (ucast w :: u16) = byte_of 1 w" for w :: u32
  by (rule bit_word_eqI, simp add: bit_byte_of bit_simps)+

lemma lane_bits: "lane a = (if bit a 1 then 0 else 2) + (if bit a 0 then 0 else 1)"
proof -
  have "unat a mod 4 = 2 * of_bool (bit a 1) + of_bool (bit a 0)"
  proof -
    have "unat a mod 4 = 2 * (unat a div 2 mod 2) + unat a mod 2"
      using mod_mult2_eq [of "unat a" 2 2] by simp
    moreover have "odd (unat a) \<longleftrightarrow> bit a 0" "odd (unat a div 2) \<longleftrightarrow> bit a 1"
      using bit_unsigned_iff [where 'a = nat and w = a and n = 0] bit_unsigned_iff [where 'a = nat and w = a and n = 1]
      by (simp_all add: bit_0 bit_Suc)
    ultimately show ?thesis by (simp only: mod_2_eq_odd)
  qed
  then show ?thesis by (simp add: lane_def)
qed

section \<open>Devices of registers\<close>

text \<open>\<open>plain\<close> are the word addresses of the registers that hold what was last written: reading them changes
  nothing, and writing one leaves the others alone.\<close>

locale register_words =
  fixes rd :: "u32 \<Rightarrow> 's \<Rightarrow> u32 \<times> 's"
    and wr :: "u32 \<Rightarrow> u32 \<Rightarrow> 's \<Rightarrow> 's"
    and plain :: "u32 \<Rightarrow> bool"
    and ok :: "'s \<Rightarrow> bool"
  assumes read_keeps: "plain a \<Longrightarrow> ok s \<Longrightarrow> snd (rd a s) = s"
    and write_ok: "plain a \<Longrightarrow> ok s \<Longrightarrow> ok (wr a v s)"
    and read_written: "plain a \<Longrightarrow> ok s \<Longrightarrow> fst (rd a (wr a v s)) = v"
    and read_other: "plain a \<Longrightarrow> plain b \<Longrightarrow> a \<noteq> b \<Longrightarrow> ok s \<Longrightarrow> fst (rd b (wr a v s)) = fst (rd b s)"
begin

definition byte_at :: "u32 \<Rightarrow> 's \<Rightarrow> u8" where
  "byte_at a s = byte_of (lane a) (fst (rd (a AND NOT 3) s))"

definition plain_byte :: "u32 \<Rightarrow> bool" where
  "plain_byte a \<longleftrightarrow> plain (a AND NOT 3)"

lemma read_byte: "plain_byte a \<Longrightarrow> ok s \<Longrightarrow> default_read_byte rd a s = (byte_at a s, s)"
  using read_keeps [of "a AND NOT 3" s]
  by (simp add: default_read_byte_def byte_at_def byte_of_def plain_byte_def shift_byte case_prod_unfold)

lemma write_byte_ok: "plain_byte a \<Longrightarrow> ok s \<Longrightarrow> ok (default_write_byte rd wr a v s)"
  using read_keeps [of "a AND NOT 3" s]
  by (simp add: default_write_byte_def plain_byte_def write_ok case_prod_unfold Let_def)

lemma same_byte: "a = b \<longleftrightarrow> a AND NOT 3 = b AND NOT 3 \<and> lane a = lane b" for a b :: u32
proof -
  have "lane a = lane b \<Longrightarrow> a AND 3 = b AND 3"
  proof -
    assume "lane a = lane b"
    moreover have "unat a mod 4 \<le> 3" "unat b mod 4 \<le> 3" by (simp_all add: less_Suc_eq_le [symmetric])
    ultimately have "unat a mod 4 = unat b mod 4" by (simp add: lane_def)
    then show ?thesis by (simp add: unat_and_3 word_unat_eq_iff)
  qed
  then show ?thesis using split_word [of a] split_word [of b] by metis
qed

lemma write_byte:
  assumes "plain_byte a" "plain_byte b" "ok s"
  shows "byte_at b (default_write_byte rd wr a v s) = (if b = a then v else byte_at b s)"
proof -
  let ?w = "a AND NOT 3" and ?old = "fst (rd (a AND NOT 3) s)"
  have run: "default_write_byte rd wr a v s
      = wr ?w ((?old AND NOT (push_bit (8 * lane a) 0xFF)) OR push_bit (8 * lane a) (ucast v)) s"
    using read_keeps [of ?w s] assms
    by (simp add: default_write_byte_def plain_byte_def shift_byte case_prod_unfold Let_def)
  show ?thesis
  proof (cases "b AND NOT 3 = ?w")
    case True
    then show ?thesis
      using assms lane_less same_byte [of b a]
      by (simp add: run byte_at_def plain_byte_def read_written byte_of_merged)
  next
    case False
    then show ?thesis
      using assms same_byte [of b a] by (simp add: run byte_at_def plain_byte_def read_other)
  qed
qed

lemma write_half:
  assumes "plain_byte a" "plain_byte b" "ok s"
  shows "byte_at b (default_write_half rd wr a v s)
    = (if b AND NOT 3 = a AND NOT 3 \<and> bit b 1 = bit a 1 then byte_of (if bit b 0 then 0 else 1) v else byte_at b s)"
proof -
  let ?w = "a AND NOT 3" and ?old = "fst (rd (a AND NOT 3) s)" and ?j = "half_lane a"
  have run: "default_write_half rd wr a v s
      = wr ?w ((?old AND NOT (push_bit (8 * ?j) 0xFFFF)) OR push_bit (8 * ?j) (ucast v)) s"
    using read_keeps [of ?w s] assms unfolding default_write_half_def shift_half Let_def
    by (simp add: plain_byte_def case_prod_unfold)
  show ?thesis
  proof (cases "b AND NOT 3 = ?w")
    case True
    then have "byte_at b (default_write_half rd wr a v s)
      = (if lane b = ?j then byte_of 0 v else if lane b = ?j + 1 then byte_of 1 v else byte_of (lane b) ?old)"
      unfolding run byte_at_def
      using assms lane_less [of b] True by (simp add: plain_byte_def read_written half_of_merged half_lane_def)
    then show ?thesis using True by (auto simp: lane_bits [of b] half_lane_def byte_at_def)
  next
    case False
    then show ?thesis using assms by (simp add: run byte_at_def plain_byte_def read_other)
  qed
qed

end

end
