(* ===== verification/Dev_Pbc.thy ===== *)
theory Dev_Pbc
  imports Dev_Flash Dev_Words Bank
begin

text \<open>
  \<open>src/soc/pbc.rs\<close>: the peripheral bus controller with its SPI FIFO and its DMA engine, and the flash behind it.
  Trace output is left out, and so are the files the events name: an event carries the bytes read.
\<close>

unbundle bit_operations_syntax

abbreviation DMA_DCCM_BASE :: u32 where "DMA_DCCM_BASE \<equiv> 0xFFF80000"
abbreviation DMA_DCCM_SIZE :: u32 where "DMA_DCCM_SIZE \<equiv> 0x80000"
abbreviation PBC_BASE :: u32 where "PBC_BASE \<equiv> 0x010001F0"
abbreviation PBC_END :: u32 where "PBC_END \<equiv> 0x01000240"

abbreviation REG_SPI_CONTROL :: u32 where "REG_SPI_CONTROL \<equiv> 0x10"
abbreviation REG_SPI_STATUS :: u32 where "REG_SPI_STATUS \<equiv> 0x1C"
abbreviation REG_SPI_FIFO_DATA :: u32 where "REG_SPI_FIFO_DATA \<equiv> 0x20"
abbreviation REG_SPI_FIFO_DATA1 :: u32 where "REG_SPI_FIFO_DATA1 \<equiv> 0x24"
abbreviation REG_SPI_READ_DATA :: u32 where "REG_SPI_READ_DATA \<equiv> 0x2C"
abbreviation REG_SPI_READ_DATA1 :: u32 where "REG_SPI_READ_DATA1 \<equiv> 0x30"
abbreviation REG_SPI_CONFIG :: u32 where "REG_SPI_CONFIG \<equiv> 0x34"
abbreviation REG_DMA_CTRL :: u32 where "REG_DMA_CTRL \<equiv> 0x38"
abbreviation REG_DMA_ADDR :: u32 where "REG_DMA_ADDR \<equiv> 0x3C"
abbreviation REG_DMA_DATA_ADDR :: u32 where "REG_DMA_DATA_ADDR \<equiv> 0x40"
abbreviation REG_FLASH_SIZE_MASK :: u32 where "REG_FLASH_SIZE_MASK \<equiv> 0x48"
abbreviation SPI_BUSY_TICKS :: u8 where "SPI_BUSY_TICKS \<equiv> 2"

record pbc =
  pb_flash :: spi_flash
  pb_spi_control :: u32
  pb_spi_config :: u32
  pb_spi_fifo :: "u32 list"
  pb_spi_rx :: "u32 list"
  pb_spi_busy_counter :: u8
  pb_spi_command :: u32
  pb_dma_ctrl :: u32
  pb_dma_flash_addr :: u32
  pb_dma_data_addr :: u32
  pb_dma_busy_counter :: u8
  pb_pending_ops :: "datapath_op list"
  pb_pending_spi_serdes :: "(u8 list \<times> nat) option"
  pb_last_dma_tag :: string
  pb_dma_write_log :: "(u32 \<times> u8 list) list option"

definition pbc_new :: pbc where
  "pbc_new =
     \<lparr>pb_flash = flash_new, pb_spi_control = 0, pb_spi_config = 0, pb_spi_fifo = [0, 0], pb_spi_rx = [0, 0],
      pb_spi_busy_counter = 0, pb_spi_command = 0, pb_dma_ctrl = 0, pb_dma_flash_addr = 0, pb_dma_data_addr = 0,
      pb_dma_busy_counter = 0, pb_pending_ops = [], pb_pending_spi_serdes = None, pb_last_dma_tag = ''pbc'',
      pb_dma_write_log = None\<rparr>"

definition take_pending_spi_serdes :: "pbc \<Rightarrow> (u8 list \<times> nat) option \<times> pbc" where
  "take_pending_spi_serdes p = (pb_pending_spi_serdes p, p\<lparr>pb_pending_spi_serdes := None\<rparr>)"

text \<open>The loop that packs bytes into the two words of \<open>spi_rx\<close>, from byte \<open>i\<close> on\<close>

fun pack_rx :: "nat \<Rightarrow> u8 list \<Rightarrow> u32 list \<Rightarrow> u32 list" where
  "pack_rx i [] rx = rx"
| "pack_rx i (b # bs) rx =
     pack_rx (i + 1) bs
       (if i div 4 < 2 then rx[i div 4 := rx ! (i div 4) OR push_bit (i mod 4 * 8) (ucast b)] else rx)"

definition complete_spi_serdes :: "u8 list \<Rightarrow> pbc \<Rightarrow> pbc" where
  "complete_spi_serdes rx p = p\<lparr>pb_spi_rx := pack_rx 0 rx [0, 0]\<rparr>"

definition pbc_claims :: "u32 \<Rightarrow> bool" where
  "pbc_claims addr \<longleftrightarrow> PBC_BASE \<le> addr \<and> addr < PBC_END"

definition complete_flash_write :: "u32 \<Rightarrow> u8 list \<Rightarrow> pbc \<Rightarrow> pbc" where
  "complete_flash_write flash_addr bytes p =
     p\<lparr>pb_dma_write_log := map_option (\<lambda>l. l @ [(flash_addr, bytes)]) (pb_dma_write_log p),
       pb_flash := flash_dma_write flash_addr bytes (pb_flash p)\<rparr>"

definition read_reg_word :: "u32 \<Rightarrow> pbc \<Rightarrow> u32 \<times> pbc" where
  "read_reg_word offset p =
     (if offset = REG_SPI_CONTROL then (pb_spi_control p, p)
      else if offset = REG_SPI_STATUS then
        (let busy = pb_spi_busy_counter p > 0
         in ((pb_spi_command p AND NOT 1) OR of_bool busy,
             if busy then p\<lparr>pb_spi_busy_counter := pb_spi_busy_counter p - 1\<rparr> else p))
      else if offset = REG_SPI_FIFO_DATA then (pb_spi_fifo p ! 0, p)
      else if offset = REG_SPI_FIFO_DATA1 then (pb_spi_fifo p ! 1, p)
      else if offset = REG_SPI_READ_DATA then (pb_spi_rx p ! 0, p)
      else if offset = REG_SPI_READ_DATA1 then (pb_spi_rx p ! 1, p)
      else if offset = REG_SPI_CONFIG then (pb_spi_config p, p)
      else if offset = REG_DMA_CTRL then
        (let busy = pb_dma_busy_counter p > 0
         in ((pb_dma_ctrl p AND NOT 1) OR of_bool busy,
             if busy then p\<lparr>pb_dma_busy_counter := pb_dma_busy_counter p - 1\<rparr> else p))
      else if offset = REG_DMA_ADDR then (pb_dma_flash_addr p, p)
      else if offset = REG_DMA_DATA_ADDR then (pb_dma_data_addr p, p)
      else if offset = REG_FLASH_SIZE_MASK then (0x000FFFFF, p)
      else (0, p))"

text \<open>The bytes sent: the FIFO words low byte first, 0 past the end of the FIFO\<close>

definition fifo_byte :: "u32 list \<Rightarrow> nat \<Rightarrow> u8" where
  "fifo_byte fifo i = ucast (drop_bit (i mod 4 * 8) (if i div 4 < length fifo then fifo ! (i div 4) else 0))"

definition pbc_execute_fifo :: "u32 \<Rightarrow> pbc \<Rightarrow> pbc" where
  "pbc_execute_fifo cmd_word p =
     (let tx_len = unat (drop_bit 4 cmd_word AND 0xF);
          rx_len = unat (drop_bit 8 cmd_word AND 0xFF);
          tx = map (fifo_byte (pb_spi_fifo p)) [0..<tx_len]
      in if pb_spi_control p AND 0x40 \<noteq> 0 then p\<lparr>pb_pending_spi_serdes := Some (tx, rx_len)\<rparr>
         else (case execute_fifo_command tx rx_len (pb_flash p) of
                 (rx, f) \<Rightarrow> p\<lparr>pb_flash := f, pb_spi_rx := pack_rx 0 rx [0, 0]\<rparr>))"

definition execute_dma :: "u32 \<Rightarrow> pbc \<Rightarrow> pbc" where
  "execute_dma ctrl p =
     (let n = unat (drop_bit 4 ctrl AND 0x3FFFF);
          flash_addr = pb_dma_flash_addr p;
          mem_addr = pb_dma_data_addr p;
          sram_addr = (if mem_addr \<ge> DMA_DCCM_BASE \<and> mem_addr - DMA_DCCM_BASE < DMA_DCCM_SIZE
                       then Some (mem_addr - DMA_DCCM_BASE)
                       else if mem_addr < 0x80000 then Some mem_addr
                       else None)
      in if ctrl AND 2 \<noteq> 0
         then (case sram_addr of
                 Some sram_addr \<Rightarrow> p\<lparr>pb_pending_ops := pb_pending_ops p @ [FlashWrite Pbc flash_addr sram_addr n]\<rparr>
               | None \<Rightarrow> p)
         else (case sram_addr of
                 Some sram_addr \<Rightarrow>
                   p\<lparr>pb_pending_ops := pb_pending_ops p @ [SramWrite sram_addr (flash_dma_read flash_addr n (pb_flash p))]\<rparr>
               | None \<Rightarrow> p))"

definition write_reg_word :: "u32 \<Rightarrow> u32 \<Rightarrow> pbc \<Rightarrow> pbc" where
  "write_reg_word offset val p =
     (if offset = REG_SPI_CONTROL then p\<lparr>pb_spi_control := val\<rparr>
      else if offset = REG_SPI_STATUS then
        (let p1 = p\<lparr>pb_spi_command := val\<rparr>
         in if val AND 1 \<noteq> 0
            then (pbc_execute_fifo val
                   (p1\<lparr>pb_last_dma_tag := if pb_spi_control p AND 0x40 \<noteq> 0 then ''pbc_spi_serdes'' else ''pbc_spi_flash''\<rparr>))
                 \<lparr>pb_spi_busy_counter := SPI_BUSY_TICKS\<rparr>
            else p1)
      else if offset = REG_SPI_FIFO_DATA then p\<lparr>pb_spi_fifo := (pb_spi_fifo p)[0 := val]\<rparr>
      else if offset = REG_SPI_FIFO_DATA1 then p\<lparr>pb_spi_fifo := (pb_spi_fifo p)[1 := val]\<rparr>
      else if offset = REG_SPI_CONFIG then p\<lparr>pb_spi_config := val\<rparr>
      else if offset = REG_DMA_CTRL then
        (let p1 = p\<lparr>pb_dma_ctrl := val\<rparr>
         in if val AND 1 \<noteq> 0
            then (execute_dma val
                   (p1\<lparr>pb_last_dma_tag :=
                        (if pb_dma_flash_addr p \<ge> 0x400000
                         then if val AND 2 \<noteq> 0 then ''pbc_mdio_write'' else ''pbc_mdio_read''
                         else if val AND 2 \<noteq> 0 then ''pbc_spi_write'' else ''pbc_spi_read'')\<rparr>))
                 \<lparr>pb_dma_busy_counter := SPI_BUSY_TICKS\<rparr>
            else p1)
      else if offset = REG_DMA_ADDR then p\<lparr>pb_dma_flash_addr := val\<rparr>
      else if offset = REG_DMA_DATA_ADDR then p\<lparr>pb_dma_data_addr := val\<rparr>
      else p)"

definition pbc_read_word :: "u32 \<Rightarrow> pbc \<Rightarrow> u32 \<times> pbc" where
  "pbc_read_word addr p = read_reg_word (addr - PBC_BASE) p"

definition pbc_write_word :: "u32 \<Rightarrow> u32 \<Rightarrow> pbc \<Rightarrow> pbc" where
  "pbc_write_word addr val p = write_reg_word (addr - PBC_BASE) val p"

definition pbc_read_byte :: "u32 \<Rightarrow> pbc \<Rightarrow> u8 \<times> pbc" where
  "pbc_read_byte addr p =
     (let off = addr - PBC_BASE
      in case read_reg_word (off AND NOT 3) p of
           (word, p') \<Rightarrow> (ucast (drop_bit (unat (24 - (off AND 3) * 8)) word), p'))"

definition pbc_tick :: "pbc \<Rightarrow> pbc" where
  "pbc_tick p =
     p\<lparr>pb_flash := flash_tick (pb_flash p),
       pb_spi_busy_counter := (if pb_spi_busy_counter p > 0 then pb_spi_busy_counter p - 1 else pb_spi_busy_counter p),
       pb_dma_busy_counter := (if pb_dma_busy_counter p > 0 then pb_dma_busy_counter p - 1 else pb_dma_busy_counter p)\<rparr>"

text \<open>\<open>spi_command\<close> is not among the registers \<open>reset_cold\<close> clears.\<close>

definition pbc_reset_cold :: "pbc \<Rightarrow> pbc" where
  "pbc_reset_cold p =
     p\<lparr>pb_spi_control := 0, pb_spi_config := 0, pb_spi_fifo := [0, 0], pb_spi_rx := [0, 0], pb_spi_busy_counter := 0,
       pb_dma_ctrl := 0, pb_dma_flash_addr := 0, pb_dma_data_addr := 0, pb_dma_busy_counter := 0, pb_pending_ops := [],
       pb_pending_spi_serdes := None, pb_last_dma_tag := ''pbc'', pb_flash := flash_reset_volatile (pb_flash p)\<rparr>"

definition pbc_has_pending_datapath :: "pbc \<Rightarrow> bool" where
  "pbc_has_pending_datapath p \<longleftrightarrow> pb_pending_ops p \<noteq> []"

definition pbc_take_pending_datapath :: "pbc \<Rightarrow> datapath_op list \<times> pbc" where
  "pbc_take_pending_datapath p = (pb_pending_ops p, p\<lparr>pb_pending_ops := []\<rparr>)"

text \<open>The events that change the flash; \<open>None\<close> is the panic of a slice whose start lies past its end.\<close>

datatype pbc_event = LoadFlash "u8 list" | EraseSector u32

primrec pbc_inject_event :: "pbc_event \<Rightarrow> pbc \<Rightarrow> pbc option" where
  "pbc_inject_event (LoadFlash bytes) p =
     (let f = pb_flash p; n = min (length bytes) (length (fl_data f))
      in Some (p\<lparr>pb_flash := f\<lparr>fl_data := take n bytes @ drop n (fl_data f), fl_dirty := False\<rparr>\<rparr>))"
| "pbc_inject_event (EraseSector addr) p =
     (let f = pb_flash p; base = unat (addr AND NOT 0xFFF); e = min (base + 4096) (length (fl_data f))
      in if base > e then None
         else Some (p\<lparr>pb_flash := f\<lparr>fl_data := fill base e 0xFF (fl_data f), fl_dirty := True\<rparr>\<rparr>))"

section \<open>Registers as bytes\<close>

definition pbc_ok :: "pbc \<Rightarrow> bool" where
  "pbc_ok p \<longleftrightarrow> length (pb_spi_fifo p) = 2 \<and> flash_ok (pb_flash p)"

text \<open>The registers without a side effect\<close>

definition pbc_plain :: "u32 \<Rightarrow> bool" where
  "pbc_plain addr \<longleftrightarrow>
     addr - PBC_BASE \<in> {REG_SPI_CONTROL, REG_SPI_FIFO_DATA, REG_SPI_FIFO_DATA1, REG_SPI_CONFIG, REG_DMA_ADDR, REG_DMA_DATA_ADDR}"

lemma low_bits_offset: "(a - PBC_BASE) AND 3 = a AND 3" "(a - PBC_BASE) AND NOT 3 = (a AND NOT 3) - PBC_BASE"
proof -
  have "unat a = (unat (a - PBC_BASE) + 0x010001F0) mod 2 ^ 32"
    using unat_word_ariths(1) [of "a - PBC_BASE" PBC_BASE] by simp
  then have "unat a mod 4 = (unat (a - PBC_BASE) + 0x010001F0) mod 4" by (simp add: mod_mod_cancel)
  also have "\<dots> = unat (a - PBC_BASE) mod 4"
    using mod_add_right_eq [of "unat (a - PBC_BASE)" "0x010001F0" 4] by simp
  finally show low: "(a - PBC_BASE) AND 3 = a AND 3" by (simp add: word_unat_eq_iff unat_and_3)
  have "((a - PBC_BASE) AND NOT 3) + (a AND 3) = a - PBC_BASE" using split_word [of "a - PBC_BASE"] low by simp
  moreover have "a = (a AND NOT 3) + (a AND 3)" by (rule split_word)
  ultimately have "((a - PBC_BASE) AND NOT 3) + (a AND 3) = ((a AND NOT 3) - PBC_BASE) + (a AND 3)"
    by (metis add_diff_eq add.commute)
  then show "(a - PBC_BASE) AND NOT 3 = (a AND NOT 3) - PBC_BASE" by (simp only: add_right_cancel)
qed

lemma register_reads:
  "read_reg_word REG_SPI_CONTROL p = (pb_spi_control p, p)"
  "read_reg_word REG_SPI_FIFO_DATA p = (pb_spi_fifo p ! 0, p)"
  "read_reg_word REG_SPI_FIFO_DATA1 p = (pb_spi_fifo p ! 1, p)"
  "read_reg_word REG_SPI_CONFIG p = (pb_spi_config p, p)"
  "read_reg_word REG_DMA_ADDR p = (pb_dma_flash_addr p, p)"
  "read_reg_word REG_DMA_DATA_ADDR p = (pb_dma_data_addr p, p)"
  by (simp_all add: read_reg_word_def)

lemma register_writes:
  "write_reg_word REG_SPI_CONTROL v p = p\<lparr>pb_spi_control := v\<rparr>"
  "write_reg_word REG_SPI_FIFO_DATA v p = p\<lparr>pb_spi_fifo := (pb_spi_fifo p)[0 := v]\<rparr>"
  "write_reg_word REG_SPI_FIFO_DATA1 v p = p\<lparr>pb_spi_fifo := (pb_spi_fifo p)[1 := v]\<rparr>"
  "write_reg_word REG_SPI_CONFIG v p = p\<lparr>pb_spi_config := v\<rparr>"
  "write_reg_word REG_DMA_ADDR v p = p\<lparr>pb_dma_flash_addr := v\<rparr>"
  "write_reg_word REG_DMA_DATA_ADDR v p = p\<lparr>pb_dma_data_addr := v\<rparr>"
  by (simp_all add: write_reg_word_def)

lemma plain_registers:
  assumes "r \<in> {REG_SPI_CONTROL, REG_SPI_FIFO_DATA, REG_SPI_FIFO_DATA1, REG_SPI_CONFIG, REG_DMA_ADDR, REG_DMA_DATA_ADDR}"
    and "length (pb_spi_fifo p) = 2"
  shows "snd (read_reg_word r p) = p" "fst (read_reg_word r (write_reg_word r v p)) = v"
    "length (pb_spi_fifo (write_reg_word r v p)) = 2" "pb_flash (write_reg_word r v p) = pb_flash p"
  using assms(1) by (elim insertE emptyE; simp add: register_reads register_writes assms(2))+

lemma other_register:
  assumes "q \<in> {REG_SPI_CONTROL, REG_SPI_FIFO_DATA, REG_SPI_FIFO_DATA1, REG_SPI_CONFIG, REG_DMA_ADDR, REG_DMA_DATA_ADDR}"
    and "r \<in> {REG_SPI_CONTROL, REG_SPI_FIFO_DATA, REG_SPI_FIFO_DATA1, REG_SPI_CONFIG, REG_DMA_ADDR, REG_DMA_DATA_ADDR}"
    and "q \<noteq> r"
  shows "fst (read_reg_word r (write_reg_word q v p)) = fst (read_reg_word r p)"
  using assms by (elim insertE emptyE; simp only: not_True_eq_False False_implies_equals; simp add: register_reads register_writes)

interpretation pbw: register_words pbc_read_word pbc_write_word pbc_plain pbc_ok
proof
  fix a b v and p :: pbc
  assume a: "pbc_plain a" and ok: "pbc_ok p"
  note regs = plain_registers [OF a [unfolded pbc_plain_def]] ok [unfolded pbc_ok_def]
  show "snd (pbc_read_word a p) = p" "fst (pbc_read_word a (pbc_write_word a v p)) = v" "pbc_ok (pbc_write_word a v p)"
    using regs by (simp_all add: pbc_ok_def pbc_read_word_def pbc_write_word_def)
  assume b: "pbc_plain b" "a \<noteq> b"
  then have "a - PBC_BASE \<noteq> b - PBC_BASE" by simp
  then show "fst (pbc_read_word b (pbc_write_word a v p)) = fst (pbc_read_word b p)"
    using other_register [OF a [unfolded pbc_plain_def] b(1) [unfolded pbc_plain_def]]
    by (simp add: pbc_read_word_def pbc_write_word_def)
qed

text \<open>The configuration registers of the controller are big-endian memory: a byte written through the default
  byte access is read back, and no other byte of these registers changes.\<close>

theorem pbc_registers_bytes:
  assumes "pbc_ok p" "pbc_plain (a AND NOT 3)" "pbc_plain (b AND NOT 3)"
  shows "fst (pbc_read_byte b (default_write_byte pbc_read_word pbc_write_word a v p))
    = (if b = a then v else fst (pbc_read_byte b p))"
proof -
  have read: "pbc_read_byte c q = default_read_byte pbc_read_word c q" for c q
    unfolding pbc_read_byte_def default_read_byte_def pbc_read_word_def Let_def low_bits_offset by simp
  have plain: "pbw.plain_byte a" "pbw.plain_byte b" using assms by (simp_all add: pbw.plain_byte_def)
  show ?thesis
    using pbw.write_byte [OF plain assms(1), of v] pbw.write_byte_ok [OF plain(1) assms(1), of v]
    by (simp add: read pbw.read_byte [OF plain(2)] assms(1))
qed

lemma pbc_ok_new: "pbc_ok pbc_new"
  by (simp add: pbc_ok_def pbc_new_def flash_ok_def flash_new_def)

lemma pbc_registers_bytes_witness:
  "fst (pbc_read_byte 0x01000202 (default_write_byte pbc_read_word pbc_write_word 0x01000202 0xAB pbc_new)) = 0xAB
    \<and> fst (pbc_read_byte 0x01000230 (default_write_byte pbc_read_word pbc_write_word 0x01000202 0xAB pbc_new)) = 0"
proof -
  have plain: "pbc_plain (0x01000202 AND NOT 3)" "pbc_plain (0x01000230 AND NOT 3)" by (simp_all add: pbc_plain_def)
  have "fst (pbc_read_byte 0x01000230 pbc_new) = 0"
    by (simp add: pbc_read_byte_def read_reg_word_def pbc_new_def)
  then show ?thesis
    using pbc_registers_bytes [OF pbc_ok_new plain(1,1), of "0xAB"] pbc_registers_bytes [OF pbc_ok_new plain, of "0xAB"]
    by simp
qed

section \<open>A command through the FIFO\<close>

definition rx_byte :: "u32 list \<Rightarrow> nat \<Rightarrow> u8" where
  "rx_byte rx j = byte_of (j mod 4) (rx ! (j div 4))"

lemma byte_of_or: "byte_of k (w OR push_bit (m * 8) (ucast b)) = byte_of k w OR (if k = m then b else 0)"
  if "k < 4" "m < 4" for w :: u32 and b :: u8
proof (rule bit_word_eqI)
  fix n assume n: "n < LENGTH(8)"
  have short: "bit b i \<Longrightarrow> i < 8" for i using bit_imp_le_length by fastforce
  have "m * 8 \<le> 8 * k + n \<and> 8 * k + n - m * 8 < 8 \<longleftrightarrow> k = m" using n that by auto
  then show "bit (byte_of k (w OR push_bit (m * 8) (ucast b))) n = bit (byte_of k w OR (if k = m then b else 0)) n"
    using n that by (auto simp: bit_byte_of bit_simps dest: short)
qed

lemma pack_rx_bytes:
  "length rx = 2 \<Longrightarrow> \<forall>j. i \<le> j \<and> j < 8 \<longrightarrow> rx_byte rx j = 0 \<Longrightarrow>
   length (pack_rx i bs rx) = 2
   \<and> (\<forall>j < 8. rx_byte (pack_rx i bs rx) j = (if i \<le> j \<and> j < i + length bs then bs ! (j - i) else rx_byte rx j))"
proof (induction i bs rx rule: pack_rx.induct)
  case (2 i b bs rx)
  let ?rx = "if i div 4 < 2 then rx[i div 4 := rx ! (i div 4) OR push_bit (i mod 4 * 8) (ucast b)] else rx"
  have byte: "rx_byte ?rx j = (if j = i then b else rx_byte rx j)" if "j < 8" for j
  proof (cases "i div 4 = j div 4")
    case True
    then have "j = i \<longleftrightarrow> j mod 4 = i mod 4" by (metis div_mult_mod_eq)
    then show ?thesis
      using 2(2,3) that True by (simp add: rx_byte_def byte_of_or) (auto simp: rx_byte_def)
  next
    case False
    then show ?thesis using 2(2) by (auto simp: rx_byte_def)
  qed
  have clear: "\<forall>j. Suc i \<le> j \<and> j < 8 \<longrightarrow> rx_byte ?rx j = 0" using 2(3) byte by simp
  have "length ?rx = 2" using 2(2) by simp
  note IH = 2(1) [OF this, simplified, OF clear [simplified]]
  have index: "bs ! (j - Suc i) = (b # bs) ! (j - i)" if "Suc i \<le> j" for j using that by (simp add: nth_Cons')
  show ?case
    using IH byte index by (simp del: nth_Cons_Suc) (auto simp: le_Suc_eq)
qed auto

text \<open>What a driver writes to read \<open>n\<close> bytes of the flash at \<open>a\<close>\<close>

definition start_read :: "u32 \<Rightarrow> u32 \<Rightarrow> pbc \<Rightarrow> pbc" where
  "start_read a n p =
     pbc_write_word (PBC_BASE + REG_SPI_STATUS) (1 OR push_bit 4 4 OR push_bit 8 n)
       (pbc_write_word (PBC_BASE + REG_SPI_FIFO_DATA) (be_word (byte_of 0 a) (byte_of 1 a) (byte_of 2 a) CMD_READ) p)"

text \<open>What the \<open>k\<close>-th poll of the status register returns, and the state after \<open>k\<close> polls\<close>

definition polled :: "nat \<Rightarrow> pbc \<Rightarrow> pbc" where
  "polled k p = ((\<lambda>p. snd (pbc_read_word (PBC_BASE + REG_SPI_STATUS) p)) ^^ k) p"

definition poll :: "nat \<Rightarrow> pbc \<Rightarrow> u32" where
  "poll k p = fst (pbc_read_word (PBC_BASE + REG_SPI_STATUS) (polled k p))"

lemma read_status_word:
  "pbc_read_word (PBC_BASE + REG_SPI_STATUS) p
    = ((pb_spi_command p AND NOT 1) OR of_bool (pb_spi_busy_counter p > 0),
       p\<lparr>pb_spi_busy_counter := pb_spi_busy_counter p - of_bool (pb_spi_busy_counter p > 0)\<rparr>)"
  by (simp add: pbc_read_word_def read_reg_word_def)

lemma polled_fields:
  "pb_spi_command (polled k p) = pb_spi_command p \<and> pb_spi_rx (polled k p) = pb_spi_rx p \<and> pb_flash (polled k p) = pb_flash p
   \<and> unat (pb_spi_busy_counter (polled k p)) = unat (pb_spi_busy_counter p) - k"
proof (induction k)
  case (Suc k)
  have "polled (Suc k) p = snd (pbc_read_word (PBC_BASE + REG_SPI_STATUS) (polled k p))" by (simp add: polled_def)
  then show ?case
    using Suc unfolding read_status_word
    by (cases "pb_spi_busy_counter (polled k p) = 0") (simp_all add: unat_minus_one word_neq_0_conv)
qed (simp add: polled_def)

lemma poll_value:
  "poll k p = (pb_spi_command p AND NOT 1) OR of_bool (k < unat (pb_spi_busy_counter p))"
proof -
  have "pb_spi_busy_counter (polled k p) > 0 \<longleftrightarrow> k < unat (pb_spi_busy_counter p)"
    using polled_fields [of k p] by (simp add: word_less_nat_alt)
  then show ?thesis using polled_fields [of k p] unfolding poll_def read_status_word by simp
qed

lemma word_le_8_cases: "n \<le> 8 \<Longrightarrow> n \<in> {0, 1, 2, 3, 4, 5, 6, 7, 8}" for n :: u32
proof -
  assume "n \<le> 8"
  then have "unat n \<le> 8" by (simp add: word_le_nat_alt)
  then have "unat n \<in> {0, 1, 2, 3, 4, 5, 6, 7, 8}" by (simp, linarith)
  then have "of_nat (unat n) \<in> {0, 1, 2, 3, 4, 5, 6, 7, 8 :: u32}" by (elim insertE emptyE; simp only:; simp)
  then show ?thesis by simp
qed

lemma read_command_lengths:
  assumes "n \<le> 8"
  shows "unat (drop_bit 4 (1 OR push_bit 4 4 OR push_bit 8 n :: u32) AND 0xF) = 4"
    and "unat (drop_bit 8 (1 OR push_bit 4 4 OR push_bit 8 n :: u32) AND 0xFF) = unat n"
  using word_le_8_cases [OF assms] by (elim insertE emptyE; simp)+

lemma byte_of_be_word:
  "byte_of 3 (be_word x y z t) = x" "byte_of 2 (be_word x y z t) = y"
  "byte_of 1 (be_word x y z t) = z" "byte_of 0 (be_word x y z t) = t"
proof -
  have short: "bit (b :: u8) i \<Longrightarrow> i < 8" for b i using bit_imp_le_length by fastforce
  show "byte_of 3 (be_word x y z t) = x" "byte_of 2 (be_word x y z t) = y"
    "byte_of 1 (be_word x y z t) = z" "byte_of 0 (be_word x y z t) = t"
    by (rule bit_word_eqI, auto simp: be_word_def bit_byte_of bit_simps dest: short)+
qed

lemma fifo_read_bytes:
  "map (fifo_byte [be_word (byte_of 0 a) (byte_of 1 a) (byte_of 2 a) CMD_READ, w]) [0..<4] = CMD_READ # addr3 a"
proof -
  have upt: "[0..<4] = [0, 1, 2, 3 :: nat]" by (simp add: upt_rec)
  let ?w = "be_word (byte_of 0 a) (byte_of 1 a) (byte_of 2 a) CMD_READ"
  have "ucast ?w = byte_of 0 ?w" "ucast (drop_bit 8 ?w) = byte_of 1 ?w" "ucast (drop_bit 16 ?w) = byte_of 2 ?w"
    "ucast (drop_bit 24 ?w) = byte_of 3 ?w" by (simp_all add: byte_of_def)
  then have "fifo_byte [?w, w] i = byte_of i ?w" if "i < 4" for i
    using that by (auto simp: fifo_byte_def byte_of_def mult.commute)
  then show ?thesis unfolding upt by (simp only: list.map addr3_def byte_of_be_word)
qed

lemma start_read_run:
  fixes a
  assumes ok: "pbc_ok p" and control: "pb_spi_control p AND 0x40 = 0" and n: "n \<le> 8"
  defines "p' \<equiv> start_read a n p"
  shows "pb_spi_rx p' = pack_rx 0 (fst (execute_fifo_command (CMD_READ # addr3 a) (unat n) (pb_flash p))) [0, 0]"
    and "pb_flash p' = snd (execute_fifo_command (CMD_READ # addr3 a) (unat n) (pb_flash p))"
    and "pb_spi_command p' = (1 OR push_bit 4 4 OR push_bit 8 n)" and "pb_spi_busy_counter p' = SPI_BUSY_TICKS"
proof -
  let ?cmd = "1 OR push_bit 4 4 OR push_bit 8 n :: u32"
  let ?w = "be_word (byte_of 0 a) (byte_of 1 a) (byte_of 2 a) CMD_READ"
  obtain v where fifo: "(pb_spi_fifo p)[0 := ?w] = [?w, v]"
    using ok by (auto simp: pbc_ok_def length_Suc_conv eval_nat_numeral)
  have go: "?cmd AND 1 \<noteq> 0" by (simp add: bit_simps)
  let ?p = "p\<lparr>pb_spi_fifo := [?w, v], pb_spi_command := ?cmd, pb_last_dma_tag := ''pbc_spi_flash''\<rparr>"
  have first: "pbc_write_word (PBC_BASE + REG_SPI_FIFO_DATA) ?w p = p\<lparr>pb_spi_fifo := [?w, v]\<rparr>"
    unfolding pbc_write_word_def add_diff_cancel_left' register_writes fifo by simp
  have arm: "write_reg_word REG_SPI_STATUS ?cmd q
      = (pbc_execute_fifo ?cmd (q\<lparr>pb_spi_command := ?cmd, pb_last_dma_tag := ''pbc_spi_flash''\<rparr>))\<lparr>pb_spi_busy_counter := SPI_BUSY_TICKS\<rparr>"
    if "pb_spi_control q AND 0x40 = 0" for q
    using that go by (simp add: write_reg_word_def del: push_bit_numeral)
  have "start_read a n p = (pbc_execute_fifo ?cmd ?p)\<lparr>pb_spi_busy_counter := SPI_BUSY_TICKS\<rparr>"
    unfolding start_read_def first unfolding pbc_write_word_def add_diff_cancel_left' using control by (subst arm) simp_all
  moreover have fields: "pb_spi_fifo ?p = [?w, v]" "pb_spi_control ?p = pb_spi_control p" "pb_flash ?p = pb_flash p" by simp_all
  moreover have "pbc_execute_fifo ?cmd ?p
      = (case execute_fifo_command (CMD_READ # addr3 a) (unat n) (pb_flash p) of
           (rx, f) \<Rightarrow> ?p\<lparr>pb_flash := f, pb_spi_rx := pack_rx 0 rx [0, 0]\<rparr>)"
    unfolding pbc_execute_fifo_def Let_def read_command_lengths [OF n] fields fifo_read_bytes using control by simp
  ultimately show "pb_spi_rx p' = pack_rx 0 (fst (execute_fifo_command (CMD_READ # addr3 a) (unat n) (pb_flash p))) [0, 0]"
    "pb_flash p' = snd (execute_fifo_command (CMD_READ # addr3 a) (unat n) (pb_flash p))"
    "pb_spi_command p' = ?cmd" "pb_spi_busy_counter p' = SPI_BUSY_TICKS"
    by (simp_all add: p'_def case_prod_unfold)
qed

text \<open>C37. A driver that reads \<open>n \<le> 8\<close> bytes of the flash through the FIFO (opcode and address written low byte
  first, the command word armed, then polling) sees the busy bit on exactly the first \<open>SPI_BUSY_TICKS\<close> polls and
  the command word without its go bit afterwards; the read registers then hold the bytes of the flash, low
  byte first, and the flash is as it was.\<close>

theorem fifo_reads_flash:
  assumes ok: "pbc_ok p" and control: "pb_spi_control p AND 0x40 = 0" and n: "n \<le> 8" and a: "unat a + unat n \<le> FLASH_SIZE"
  shows "(\<forall>k. poll k (start_read a n p) AND 1 \<noteq> 0 \<longleftrightarrow> k < unat SPI_BUSY_TICKS)
    \<and> (\<forall>k \<ge> unat SPI_BUSY_TICKS. poll k (start_read a n p) = (push_bit 4 4 OR push_bit 8 n))
    \<and> (\<forall>i < unat n. byte_of (i mod 4)
          (fst (pbc_read_word (PBC_BASE + (if i < 4 then REG_SPI_READ_DATA else REG_SPI_READ_DATA1)) (polled k (start_read a n p))))
        = fl_data (pb_flash p) ! (unat a + i))
    \<and> pb_flash (polled k (start_read a n p)) = pb_flash p"
proof -
  note run = start_read_run [OF ok control n, of a]
  let ?rx = "map (\<lambda>i. fl_data (pb_flash p) ! (unat a + i)) [0..<unat n]"
  have flash: "snd (execute_fifo_command (CMD_READ # addr3 a) m f) = f" for m f by (simp add: execute_fifo_command_def)
  have rx: "pb_spi_rx (start_read a n p) = pack_rx 0 ?rx [0, 0]" unfolding run(1) read_back [OF a] ..
  have "unat n \<le> 8" using n by (simp add: word_le_nat_alt)
  have zero: "rx_byte [0, 0] j = 0" if "j < 8" for j
    using that by (cases "j div 4 = 0") (auto simp: rx_byte_def byte_of_def nth_Cons')
  have bytes: "rx_byte (pb_spi_rx (start_read a n p)) i = fl_data (pb_flash p) ! (unat a + i)" if "i < unat n" for i
    using pack_rx_bytes [of "[0, 0]" 0 ?rx] that \<open>unat n \<le> 8\<close> zero by (simp add: rx)
  have word: "fst (pbc_read_word (PBC_BASE + (if i < 4 then REG_SPI_READ_DATA else REG_SPI_READ_DATA1)) q) = pb_spi_rx q ! (i div 4)"
    if "i < 8" for i q
  proof -
    have "i div 4 = (if i < 4 then 0 else 1)" using that by (cases "i < 4") (auto intro: div_nat_eqI)
    then show ?thesis by (simp add: pbc_read_word_def read_reg_word_def)
  qed
  have "byte_of (i mod 4)
      (fst (pbc_read_word (PBC_BASE + (if i < 4 then REG_SPI_READ_DATA else REG_SPI_READ_DATA1)) (polled k (start_read a n p))))
    = fl_data (pb_flash p) ! (unat a + i)" if "i < unat n" for i
    using that bytes [OF that] \<open>unat n \<le> 8\<close> polled_fields [of k "start_read a n p"] by (simp only: word rx_byte_def)
  moreover have "poll k (start_read a n p) = (push_bit 4 4 OR push_bit 8 n) OR of_bool (k < unat SPI_BUSY_TICKS)" for k
  proof -
    have "(1 OR z) AND NOT 1 = z" if "\<not> bit z 0" for z :: u32
      using that by (intro bit_word_eqI) (auto simp: bit_simps intro: gr0I)
    moreover have "\<not> bit (push_bit 4 4 OR push_bit 8 n) 0" by (simp add: bit_simps)
    ultimately have "(1 OR push_bit 4 4 OR push_bit 8 n :: u32) AND NOT 1 = push_bit 4 4 OR push_bit 8 n" by blast
    then show ?thesis unfolding poll_value run by simp
  qed
  ultimately show ?thesis
    using polled_fields [of k "start_read a n p"] run(2) flash by (simp add: bit_simps)
qed

lemma fifo_reads_flash_witness:
  "poll 1 (start_read 0x1000 3 pbc_new) AND 1 \<noteq> 0 \<and> poll 2 (start_read 0x1000 3 pbc_new) = 0x340
    \<and> byte_of 2 (fst (pbc_read_word (PBC_BASE + REG_SPI_READ_DATA) (polled 2 (start_read 0x1000 3 pbc_new)))) = 0xFF"
proof -
  have "pb_spi_control pbc_new AND 0x40 = 0" "(3 :: u32) \<le> 8" "unat (0x1000 :: u32) + unat (3 :: u32) \<le> FLASH_SIZE"
    by (simp_all add: pbc_new_def)
  note read = fifo_reads_flash [OF pbc_ok_new this, of 2]
  have "fl_data (pb_flash pbc_new) ! (unat (0x1000 :: u32) + 2) = 0xFF" by (simp add: pbc_new_def flash_new_def)
  then show ?thesis
    using read [THEN conjunct1, THEN spec, of 1] read [THEN conjunct2, THEN conjunct1, THEN spec, of 2]
      read [THEN conjunct2, THEN conjunct2, THEN conjunct1, THEN spec, of 2]
    by simp
qed

text \<open>\<open>reset_cold\<close> forgets every register but the last command, which the status register still reads back.\<close>

lemma reset_keeps_command:
  "fst (pbc_read_word (PBC_BASE + REG_SPI_STATUS) (pbc_reset_cold p)) = pb_spi_command p AND NOT 1"
  unfolding read_status_word by (simp add: pbc_reset_cold_def)

text \<open>Erasing a sector past the end of the flash through the event panics.\<close>

lemma erase_event_panics: "pbc_ok p \<Longrightarrow> pbc_inject_event (EraseSector 0x00500000) p = None"
  by (simp add: pbc_ok_def flash_ok_def Let_def)

end
