(* ===== verification/Dev_Uart.thy ===== *)
theory Dev_Uart
  imports Dev_Words
begin

text \<open>
  \<open>src/soc/uart.rs\<close>, the console port, and \<open>src/soc/timer.rs\<close>, the free-running counter. The bytes sent also go to
  the standard output of the process; of them the model keeps the log.
\<close>

unbundle bit_operations_syntax

section \<open>UART\<close>

abbreviation UART_RANGE_START :: u32 where "UART_RANGE_START \<equiv> 0x00FC1000"
abbreviation UART_RANGE_END :: u32 where "UART_RANGE_END \<equiv> 0x00FC1100"
abbreviation UART_CHANNEL_SIZE :: u32 where "UART_CHANNEL_SIZE \<equiv> 0x20"
abbreviation UART_REG_OFFSET :: u32 where "UART_REG_OFFSET \<equiv> 0x10"
abbreviation TX_LOG_CAPACITY :: nat where "TX_LOG_CAPACITY \<equiv> 16384"

record uart =
  ua_ier :: u8
  ua_baud_div_lo :: u8
  ua_baud_div_hi :: u8
  ua_rx_queue :: "u8 list"
  ua_tx_log :: "u8 list"

definition uart_new :: uart where
  "uart_new = \<lparr>ua_ier = 0, ua_baud_div_lo = 0, ua_baud_div_hi = 0, ua_rx_queue = [], ua_tx_log = []\<rparr>"

definition uart_claims :: "u32 \<Rightarrow> bool" where
  "uart_claims addr \<longleftrightarrow> UART_RANGE_START \<le> addr \<and> addr < UART_RANGE_END"

definition uart_reg_offset :: "u32 \<Rightarrow> u32 option" where
  "uart_reg_offset addr =
     (let channel_off = (addr - UART_RANGE_START) mod UART_CHANNEL_SIZE
      in if channel_off \<ge> UART_REG_OFFSET then Some (channel_off - UART_REG_OFFSET) else None)"

definition push_rx_byte :: "u8 \<Rightarrow> uart \<Rightarrow> uart" where
  "push_rx_byte b u = u\<lparr>ua_rx_queue := ua_rx_queue u @ [b]\<rparr>"

definition uart_irq_pending :: "uart \<Rightarrow> u32" where
  "uart_irq_pending u =
     (let tx = ua_ier u AND 0x40 \<noteq> 0; rx = ua_ier u AND 0x04 \<noteq> 0 \<and> ua_rx_queue u \<noteq> []
      in if tx \<or> rx then push_bit 5 1 else 0)"

definition read_ier :: "uart \<Rightarrow> u8" where
  "read_ier u = ((if ua_rx_queue u = [] then ua_ier u OR 0x20 else ua_ier u AND NOT 0x20) OR 0x80)"

definition uart_read_reg :: "u32 \<Rightarrow> uart \<Rightarrow> u8 \<times> uart" where
  "uart_read_reg reg u =
     (if reg = 0x00 then
        (case ua_rx_queue u of [] \<Rightarrow> (0, u) | b # q \<Rightarrow> (b, u\<lparr>ua_rx_queue := q\<rparr>))
      else if reg = 0x04 then (read_ier u, u)
      else if reg = 0x08 then (ua_baud_div_lo u, u)
      else if reg = 0x0C then (ua_baud_div_hi u, u)
      else (0, u))"

definition log_tx_byte :: "u8 \<Rightarrow> uart \<Rightarrow> uart" where
  "log_tx_byte b u =
     u\<lparr>ua_tx_log := (if length (ua_tx_log u) = TX_LOG_CAPACITY then tl (ua_tx_log u) else ua_tx_log u) @ [b]\<rparr>"

definition uart_write_reg :: "u32 \<Rightarrow> u8 \<Rightarrow> uart \<Rightarrow> uart" where
  "uart_write_reg reg val u =
     (if reg = 0x00 then log_tx_byte val u
      else if reg = 0x04 then u\<lparr>ua_ier := val\<rparr>
      else if reg = 0x08 then u\<lparr>ua_baud_div_lo := val\<rparr>
      else if reg = 0x0C then u\<lparr>ua_baud_div_hi := val\<rparr>
      else u)"

definition clear_tx_log :: "uart \<Rightarrow> uart" where
  "clear_tx_log u = u\<lparr>ua_tx_log := []\<rparr>"

definition uart_read_byte :: "u32 \<Rightarrow> uart \<Rightarrow> u8 \<times> uart" where
  "uart_read_byte addr u = (case uart_reg_offset addr of Some reg \<Rightarrow> uart_read_reg reg u | None \<Rightarrow> (0, u))"

definition uart_write_byte :: "u32 \<Rightarrow> u8 \<Rightarrow> uart \<Rightarrow> uart" where
  "uart_write_byte addr val u = (case uart_reg_offset addr of Some reg \<Rightarrow> uart_write_reg reg val u | None \<Rightarrow> u)"

definition uart_read_word :: "u32 \<Rightarrow> uart \<Rightarrow> u32 \<times> uart" where
  "uart_read_word addr u =
     (case uart_reg_offset addr of
        Some reg \<Rightarrow> (case uart_read_reg reg u of (b, u') \<Rightarrow> (push_bit 24 (ucast b), u'))
      | None \<Rightarrow> (0, u))"

definition uart_peek_word :: "u32 \<Rightarrow> uart \<Rightarrow> u32" where
  "uart_peek_word addr u =
     (case uart_reg_offset addr of
        None \<Rightarrow> 0
      | Some reg \<Rightarrow>
          push_bit 24 (ucast
            (if reg = 0x00 then (case ua_rx_queue u of [] \<Rightarrow> 0 | b # _ \<Rightarrow> b)
             else if reg = 0x04 then read_ier u
             else if reg = 0x08 then ua_baud_div_lo u
             else if reg = 0x0C then ua_baud_div_hi u
             else 0)))"

definition uart_write_word :: "u32 \<Rightarrow> u32 \<Rightarrow> uart \<Rightarrow> uart" where
  "uart_write_word addr val u =
     (case uart_reg_offset addr of Some reg \<Rightarrow> uart_write_reg reg (ucast (drop_bit 24 val)) u | None \<Rightarrow> u)"

definition uart_read_half :: "u32 \<Rightarrow> uart \<Rightarrow> u16 \<times> uart" where
  "uart_read_half addr u =
     (case uart_read_byte addr u of
        (hi, u1) \<Rightarrow> (case uart_read_byte (addr + 1) u1 of (lo, u2) \<Rightarrow> (push_bit 8 (ucast hi) OR ucast lo, u2)))"

definition uart_write_half :: "u32 \<Rightarrow> u16 \<Rightarrow> uart \<Rightarrow> uart" where
  "uart_write_half addr val u =
     uart_write_byte (addr + 1) (ucast val) (uart_write_byte addr (ucast (drop_bit 8 val)) u)"

definition uart_reset_cold :: "uart \<Rightarrow> uart" where
  "uart_reset_cold u = u\<lparr>ua_ier := 0, ua_baud_div_lo := 0, ua_baud_div_hi := 0, ua_rx_queue := []\<rparr>"

text \<open>Bytes injected by the user interface\<close>

definition uart_inject_bytes :: "u8 list \<Rightarrow> uart \<Rightarrow> uart" where
  "uart_inject_bytes bs u = fold push_rx_byte bs u"

section \<open>Free-running counter\<close>

abbreviation REG_EPON_FREE_COUNTER :: u32 where "REG_EPON_FREE_COUNTER \<equiv> 0x01000050"

record epon_timer =
  et_counter :: u32
  et_prescaler :: u32

definition timer_new :: epon_timer where
  "timer_new = \<lparr>et_counter = 0, et_prescaler = 1\<rparr>"

definition timer_claims :: "u32 \<Rightarrow> bool" where
  "timer_claims addr \<longleftrightarrow> REG_EPON_FREE_COUNTER \<le> addr \<and> addr < REG_EPON_FREE_COUNTER + 4"

definition timer_read_word :: "u32 \<Rightarrow> epon_timer \<Rightarrow> u32 \<times> epon_timer" where
  "timer_read_word addr t = (et_counter t, t\<lparr>et_counter := et_counter t + et_prescaler t\<rparr>)"

definition timer_read_byte :: "u32 \<Rightarrow> epon_timer \<Rightarrow> u8" where
  "timer_read_byte addr t = ucast (drop_bit (unat (24 - (addr AND 3) * 8)) (et_counter t))"

definition timer_read_half :: "u32 \<Rightarrow> epon_timer \<Rightarrow> u16" where
  "timer_read_half addr t = ucast (drop_bit (unat (16 - (drop_bit 1 addr AND 1) * 16)) (et_counter t))"

definition timer_write_word :: "u32 \<Rightarrow> u32 \<Rightarrow> epon_timer \<Rightarrow> epon_timer" where
  "timer_write_word addr val t = t\<lparr>et_counter := val\<rparr>"

definition timer_reset_cold :: "epon_timer \<Rightarrow> epon_timer" where
  "timer_reset_cold t = t\<lparr>et_counter := 0, et_prescaler := 1\<rparr>"

text \<open>\<open>None\<close> is the error for prescaler 0.\<close>

definition timer_set_prescaler :: "u32 \<Rightarrow> epon_timer \<Rightarrow> epon_timer option" where
  "timer_set_prescaler p t = (if p = 0 then None else Some (t\<lparr>et_prescaler := p\<rparr>))"

section \<open>The streams of the UART\<close>

text \<open>Bytes arrive, and the processor reads and writes byte registers.\<close>

datatype uart_op = Arrive u8 | Read u32 | Write u32 u8

abbreviation is_data :: "u32 \<Rightarrow> bool" where
  "is_data addr \<equiv> uart_reg_offset addr = Some 0"

primrec uart_step :: "uart_op \<Rightarrow> uart \<Rightarrow> u8 list \<times> uart" where
  "uart_step (Arrive b) u = ([], push_rx_byte b u)"
| "uart_step (Read addr) u =
     (case uart_read_byte addr u of (b, u') \<Rightarrow> (if is_data addr \<and> ua_rx_queue u \<noteq> [] then [b] else [], u'))"
| "uart_step (Write addr v) u = ([], uart_write_byte addr v u)"

text \<open>The bytes the reads of the data register took from the queue, and the state at the end\<close>

primrec uart_run :: "uart_op list \<Rightarrow> uart \<Rightarrow> u8 list \<times> uart" where
  "uart_run [] u = ([], u)"
| "uart_run (op # ops) u =
     (case uart_step op u of (bs, u1) \<Rightarrow> (case uart_run ops u1 of (cs, u2) \<Rightarrow> (bs @ cs, u2)))"

abbreviation arrivals :: "uart_op list \<Rightarrow> u8 list" where
  "arrivals ops \<equiv> concat (map (\<lambda>op. case op of Arrive b \<Rightarrow> [b] | _ \<Rightarrow> []) ops)"

abbreviation sent :: "uart_op list \<Rightarrow> u8 list" where
  "sent ops \<equiv> concat (map (\<lambda>op. case op of Write addr v \<Rightarrow> if is_data addr then [v] else [] | _ \<Rightarrow> []) ops)"

definition last_n :: "nat \<Rightarrow> 'a list \<Rightarrow> 'a list" where
  "last_n n xs = drop (length xs - n) xs"

lemma uart_step_rx:
  "uart_step op u = (bs, u') \<Longrightarrow> ua_rx_queue u @ arrivals [op] = bs @ ua_rx_queue u'"
  by (cases op) (auto simp: push_rx_byte_def uart_read_byte_def uart_read_reg_def uart_write_byte_def uart_write_reg_def
      log_tx_byte_def split: option.splits list.splits prod.splits if_splits)

lemma uart_step_tx:
  "uart_step op u = (bs, u') \<Longrightarrow> length (ua_tx_log u) \<le> TX_LOG_CAPACITY \<Longrightarrow>
   ua_tx_log u' = last_n TX_LOG_CAPACITY (ua_tx_log u @ sent [op])"
  by (cases op) (auto simp: push_rx_byte_def uart_read_byte_def uart_read_reg_def uart_write_byte_def uart_write_reg_def
      log_tx_byte_def last_n_def drop_Suc split: option.splits list.splits prod.splits if_splits)

lemma last_n_append: "last_n n (last_n n xs @ ys) = last_n n (xs @ ys)"
proof (cases "length xs \<le> n")
  case False
  then have "length ys + (length xs - n) = length xs + length ys - n" by simp
  with False show ?thesis by (simp add: last_n_def add.commute)
qed (simp add: last_n_def)

text \<open>C40. The UART loses and reorders nothing on its way in: over any sequence of arrivals and of accesses to any
  register of any of its mirrored channels, the bytes the data register gave followed by those still queued are
  those queued at first followed by those that arrived. On its way out the log holds the last
  \<open>TX_LOG_CAPACITY\<close> bytes sent.\<close>

theorem uart_streams:
  assumes "uart_run ops u = (bs, u')" and "length (ua_tx_log u) \<le> TX_LOG_CAPACITY"
  shows "bs @ ua_rx_queue u' = ua_rx_queue u @ arrivals ops
    \<and> ua_tx_log u' = last_n TX_LOG_CAPACITY (ua_tx_log u @ sent ops)"
  using assms
proof (induction ops arbitrary: u bs)
  case (Cons op ops)
  obtain b1 u1 where step: "uart_step op u = (b1, u1)" by fastforce
  obtain b2 where rest: "uart_run ops u1 = (b2, u')" "bs = b1 @ b2"
    using Cons.prems(1) step by (auto split: prod.splits)
  have tx: "ua_tx_log u1 = last_n TX_LOG_CAPACITY (ua_tx_log u @ sent [op])"
    by (rule uart_step_tx [OF step Cons.prems(2)])
  have split: "arrivals (op # ops) = arrivals [op] @ arrivals ops" "sent (op # ops) = sent [op] @ sent ops" by simp_all
  have "length (ua_tx_log u1) \<le> TX_LOG_CAPACITY" unfolding tx by (simp add: last_n_def)
  note IH = Cons.IH [OF rest(1) this]
  have "bs @ ua_rx_queue u' = b1 @ (ua_rx_queue u1 @ arrivals ops)" using IH by (simp add: rest(2))
  also have "\<dots> = ua_rx_queue u @ arrivals (op # ops)"
    unfolding split using uart_step_rx [OF step] by (metis append.assoc)
  finally have "bs @ ua_rx_queue u' = ua_rx_queue u @ arrivals (op # ops)" .
  moreover have "ua_tx_log u' = last_n TX_LOG_CAPACITY (ua_tx_log u @ sent (op # ops))"
    unfolding split using IH tx by (simp only: last_n_append append.assoc [symmetric])
  ultimately show ?case by simp
qed (simp add: last_n_def)

lemma uart_streams_witness:
  "fst (uart_run [Arrive 0x41, Read 0x00FC1010, Arrive 0x42, Write 0x00FC1030 0x2A, Read 0x00FC1050] uart_new) = [0x41, 0x42]
    \<and> ua_tx_log (snd (uart_run [Arrive 0x41, Read 0x00FC1010, Arrive 0x42, Write 0x00FC1030 0x2A, Read 0x00FC1050] uart_new)) = [0x2A]"
proof -
  let ?ops = "[Arrive 0x41, Read 0x00FC1010, Arrive 0x42, Write 0x00FC1030 0x2A, Read 0x00FC1050]"
  obtain bs u' where run: "uart_run ?ops uart_new = (bs, u')" by fastforce
  have "length (ua_tx_log uart_new) \<le> TX_LOG_CAPACITY" by (simp add: uart_new_def)
  note streams = uart_streams [OF run this]
  have "ua_rx_queue u' = []"
    using run by (auto simp: uart_new_def push_rx_byte_def uart_read_byte_def uart_write_byte_def uart_reg_offset_def
        uart_read_reg_def uart_write_reg_def log_tx_byte_def)
  then show ?thesis using streams run by (simp add: uart_new_def uart_reg_offset_def last_n_def)
qed

text \<open>A peek shows what a word read returns.\<close>

lemma uart_peek: "uart_peek_word addr u = fst (uart_read_word addr u)"
  by (simp add: uart_peek_word_def uart_read_word_def uart_read_reg_def split: option.split list.split)

text \<open>The counter runs through consecutive values, so a loop that waits for a value meets it.\<close>

lemma timer_reaches:
  assumes "et_prescaler t = 1"
  shows "et_counter (((\<lambda>t. snd (timer_read_word a t)) ^^ n) t) = et_counter t + of_nat n
    \<and> (\<exists>n < 2 ^ 32. fst (timer_read_word a (((\<lambda>t. snd (timer_read_word a t)) ^^ n) t)) = v)"
proof -
  have run: "et_counter (((\<lambda>t. snd (timer_read_word a t)) ^^ n) t) = et_counter t + of_nat n
    \<and> et_prescaler (((\<lambda>t. snd (timer_read_word a t)) ^^ n) t) = 1" for n
    by (induction n) (simp_all add: assms timer_read_word_def algebra_simps)
  have "et_counter t + of_nat (unat (v - et_counter t)) = v" by simp
  moreover have "unat (v - et_counter t) < 2 ^ 32" using unat_less_32 by simp
  ultimately show ?thesis using run by (metis fst_conv timer_read_word_def)
qed

end
