(* ===== verification/Dev_Init.thy ===== *)
theory Dev_Init
  imports Prelude
begin

text \<open>
  \<open>src/soc/mmio_init.rs\<close>: the tables of register values at power on, as pairs of offset and value, and the search of a table the devices share.
\<close>

definition SYSREG_INIT_VALUES :: "(u32 \<times> u32) list" where
  "SYSREG_INIT_VALUES =
    [(0x0000, 0x47010203), (0x0004, 0xB2110816), (0x0010, 0x08000000), (0x0014, 0xFFFFFFFF),
     (0x001C, 0xFFFFFFFF), (0x0024, 0x00077FF7), (0x0030, 0x0000FFFF), (0x0040, 0x3E3E0E41),
     (0x0048, 0x80000000), (0x0080, 0x77777777), (0x0084, 0x77777777), (0x0088, 0x77777777),
     (0x008C, 0x00000077), (0x00A8, 0x00000003), (0x00AC, 0xFFFFFFFF), (0x00B0, 0xFFFFFFFF),
     (0x00B4, 0xFFFFFFFF), (0x00B8, 0xFFFFFFFF), (0x0140, 0x00015000), (0x0150, 0x00800004),
     (0x0160, 0x00015000), (0x0170, 0x00800004), (0x0204, 0x00000003), (0x0208, 0x00000007),
     (0x020C, 0x00000440), (0x0210, 0x04000103), (0x021C, 0x801E001A), (0x0224, 0x05000003),
     (0x0228, 0x0001E800), (0x022C, 0x00010008), (0x0230, 0x00010000), (0x0234, 0x000000F7),
     (0x0238, 0x000FFFFF), (0x02C0, 0x00000001), (0x02C4, 0x00000001), (0x02C8, 0x00000001),
     (0x02D0, 0x00000001), (0x02D4, 0x00000001), (0x02D8, 0x00000001), (0x02DC, 0x00000001),
     (0x02E0, 0x00000001), (0x02E4, 0x00000001), (0x02E8, 0x00000001), (0x02EC, 0x00000001),
     (0x0340, 0x00000020), (0x034C, 0x0080FFFF), (0x0360, 0x00000020), (0x036C, 0x0080FFFF),
     (0x0400, 0x0010082F), (0x0404, 0x00000206), (0x0408, 0x00000007), (0x040C, 0x0060040F),
     (0x0418, 0x0007FFFE), (0x0424, 0x000003FF), (0x043C, 0x00017FFE), (0x04B8, 0x00017FFE),
     (0x04BC, 0x00200204), (0x04D0, 0x00000407), (0x04D8, 0x00020000), (0x04E4, 0x00000055),
     (0x04E8, 0x0FA64B68), (0x04EC, 0x0003E992), (0x04F0, 0x30567497), (0x04F4, 0x000C159D),
     (0x04F8, 0x11ABA3A8), (0x04FC, 0x2E8EA0FA), (0x0500, 0x159BA3A8), (0x0504, 0x11715F05),
     (0x0508, 0x245BA3A8), (0x050C, 0x3A8EA0FA), (0x0510, 0x000002E8), (0x0514, 0x296BA3A8),
     (0x0518, 0x05715F05), (0x051C, 0x00000117), (0x0530, 0x55555555), (0x0534, 0x55555555),
     (0x0538, 0x55555555), (0x053C, 0x55555555), (0x0C00, 0x80004003), (0x0C08, 0x0000007F),
     (0x0C10, 0x00000FFF), (0x0C34, 0x000088E5), (0x0C38, 0x00000028), (0x0C40, 0x00100000),
     (0x0C44, 0x12351234), (0x0C4C, 0x00640040), (0x0C50, 0x00007FFE), (0x0C54, 0x0000FFFE),
     (0x0C58, 0x000005F3), (0x0C5C, 0x00000002), (0x0C60, 0x000A0040), (0x0C64, 0x0000005E),
     (0x0C68, 0x00000011), (0x0C6C, 0x000003AC), (0x0C70, 0x00010000), (0x0D00, 0x00017FFE),
     (0x0D7C, 0x00017FFE), (0x0D80, 0x00000200), (0x0D84, 0x00000014), (0x0D8C, 0x00C93C2E),
     (0x0D90, 0x00000003), (0x0D94, 0x00000001), (0x0D98, 0x00100014), (0x0D9C, 0x00000001),
     (0x0DA4, 0xC0000000), (0x0E00, 0x00000007), (0x0E04, 0x00000040), (0x0E08, 0x7FFFFFFF),
     (0x0E40, 0x00000005), (0x0E44, 0x00000013), (0x0E48, 0x000040D5), (0x0E50, 0xF0F01100),
     (0x0E54, 0xF0F01100), (0x0E5C, 0x011BFFFF), (0x0E60, 0x00000122), (0x0E64, 0x00000118),
     (0x0E68, 0x00000002), (0x0E6C, 0x12D8F86B), (0x0E70, 0xABE458D8), (0x0E74, 0x00000001),
     (0x0E78, 0x55555555), (0x0E7C, 0x55555555), (0x0E80, 0x00000040), (0x0E84, 0x00040004),
     (0x0E88, 0x00000001), (0x0E8C, 0xE51840BF), (0x0E90, 0x59BB49C5), (0x0E94, 0x0000000B),
     (0x0E98, 0x00000CBC), (0x0EA0, 0x0000000F), (0x0EB8, 0x0002756A), (0x0EDC, 0x00004EAD),
     (0x0F04, 0x000000FF), (0x110C, 0x00000054), (0x1114, 0x002A3A0A), (0x1120, 0x00000400),
     (0x1180, 0x80000000), (0x1240, 0x00000100), (0x1284, 0x00000191), (0x12BC, 0x00000003),
     (0x12C0, 0x00060000), (0x1320, 0x00FFFFFF), (0x1328, 0x00FFFFFE), (0x1400, 0x00000003),
     (0x1408, 0x00018000), (0x140C, 0x0001FFFF), (0x1418, 0xFFFFFEFF), (0x141C, 0x0001FFFF),
     (0x1420, 0x0001FFFF), (0x1424, 0x0001FFFF), (0x1428, 0x0001C000), (0x143C, 0x001C01B0),
     (0x14B8, 0x07027000), (0x14BC, 0x07037028), (0x14C0, 0x07047038), (0x15C0, 0x80000000),
     (0x15C4, 0x0B4DD474), (0x15C8, 0x0B4DD474), (0x15CC, 0x0B4DD474), (0x15D0, 0x0B4DD474),
     (0x15D4, 0x00000B0C), (0x15E8, 0x80000000), (0x1600, 0x00000003), (0x160C, 0xFFFFFFFF),
     (0x1618, 0xFFFFFEFF), (0x161C, 0xFFFFFFFF), (0x1620, 0xFFFFFFFF), (0x1624, 0xFFFFFFFF),
     (0x1628, 0x00000001), (0x162C, 0x00000001), (0x163C, 0x000001A0), (0x1680, 0x00001000),
     (0x17C0, 0x80000000), (0x17C4, 0x0B4DD474), (0x17C8, 0x0B4DD474), (0x17CC, 0x0B4DD474),
     (0x17D0, 0x0B4DD474), (0x17D4, 0x00000BFC), (0x17E8, 0x80000000), (0x1C00, 0x00000003),
     (0x1C0C, 0x0001FFFF), (0x1C18, 0xFFFFFEFF), (0x1C1C, 0x0001FFFF), (0x1C20, 0x0001FFFF),
     (0x1C24, 0x0001FFFF), (0x1C3C, 0x000001B0), (0x2400, 0x00000013), (0x2404, 0x00000001),
     (0x240C, 0x40013040), (0x2420, 0x810088A8), (0x2440, 0x0041E015), (0x2480, 0x00020001),
     (0x2484, 0x00000021), (0x24C0, 0x02000000), (0x24C4, 0x0001DDE8), (0x2540, 0x0000001F),
     (0x2584, 0x0FFF0FFF), (0x2590, 0x000FE000), (0x25C0, 0x00010000), (0x25C4, 0x00EDB04D),
     (0x2640, 0x00000004), (0x2644, 0x00000008), (0x2800, 0x00000013), (0x2804, 0x00000001),
     (0x280C, 0x00021005), (0x2820, 0x810088A8), (0x2840, 0x0041E015), (0x2880, 0x00020001),
     (0x2884, 0x00000021), (0x28C0, 0x0A000000), (0x28C4, 0x0001E310), (0x2940, 0x0000001F),
     (0x2984, 0x0FFF0FFF), (0x2990, 0x000FE000), (0x29C0, 0x00010000), (0x29C4, 0x00EDB04D),
     (0x2D04, 0x00000600), (0x2D08, 0x00005555), (0x2D0C, 0x00000003), (0x2D10, 0x0000FFFF),
     (0x2D14, 0x00000001), (0x2D18, 0x08130E04), (0x2D1C, 0x8000001E), (0x2D24, 0x0000FFFF),
     (0x2D28, 0x00008000), (0x2D2C, 0x00000100), (0x2D30, 0x00000020), (0x3500, 0x00010000),
     (0x3508, 0xFFFFFFFF), (0x3520, 0x0000001A), (0x353C, 0x001E1554), (0x3600, 0x0004321F),
     (0x3604, 0x00000001), (0x3608, 0x000FFFF1), (0x3610, 0x00000010)]"

definition UART_INIT_VALUES :: "(u32 \<times> u32) list" where
  "UART_INIT_VALUES =
    [(0x00FC1000, 0x01000000), (0x00FC1004, 0xFE000000), (0x00FC1008, 0x02000000), (0x00FC1014, 0x64000000),
     (0x00FC1018, 0x3C000000), (0x00FC101C, 0x04000000), (0x00FC1020, 0x01000000), (0x00FC1024, 0xFE000000),
     (0x00FC1028, 0x02000000), (0x00FC1034, 0x64000000), (0x00FC1038, 0x3C000000), (0x00FC103C, 0x04000000)]"

end
