(* ===== verification/Dev_Lane.thy ===== *)
theory Dev_Lane
  imports Dev_Init
begin

text \<open>
  \<open>src/soc/lane_bus.rs\<close>: an indirect register bus of a SerDes lane, three memory-mapped words that carry
  transactions on a file of byte registers (four pages of 256), two of which drive a calibration.
\<close>

unbundle bit_operations_syntax

section \<open>State\<close>

datatype bus_state = Bus_Idle | Bus_Busy | Bus_Done

abbreviation INDIRECT_REG_COUNT :: nat where "INDIRECT_REG_COUNT \<equiv> 512"
abbreviation LANE_REG_COUNT :: nat where "LANE_REG_COUNT \<equiv> 256"
abbreviation LANE_PAGE_COUNT :: nat where "LANE_PAGE_COUNT \<equiv> 4"
abbreviation CAL_CTRL_EVEN :: u8 where "CAL_CTRL_EVEN \<equiv> 0xBA"
abbreviation CAL_CTRL_ODD :: u8 where "CAL_CTRL_ODD \<equiv> 0xDA"
abbreviation CAL_STAT_EVEN :: u8 where "CAL_STAT_EVEN \<equiv> 0xBB"
abbreviation CAL_STAT_ODD :: u8 where "CAL_STAT_ODD \<equiv> 0xDB"
abbreviation CAL_ENABLE_BIT :: u8 where "CAL_ENABLE_BIT \<equiv> 0x01"
abbreviation CAL_COLD_BIT :: u8 where "CAL_COLD_BIT \<equiv> 0x04"
abbreviation CAL_DONE_BIT :: u8 where "CAL_DONE_BIT \<equiv> 0x80"
abbreviation DEFAULT_CAL_READS_TO_DONE :: u32 where "DEFAULT_CAL_READS_TO_DONE \<equiv> 14693"

datatype cal_state = Cal_Idle | Cal_Running u32 | Cal_Done

text \<open>The engines \<open>cal[page][parity]\<close> are listed page by page.\<close>

record lane_bus =
  lb_cmd_addr :: u32
  lb_data_addr :: u32
  lb_stat_addr :: u32
  lb_cmd :: u32
  lb_data :: u32
  lb_stat :: u32
  lb_state :: bus_state
  lb_busy_counter :: u8
  lb_busy_ticks :: u8
  lb_cmd_pending_clear :: u32
  lb_regs :: "u32 list"
  lb_lane_regs :: "u8 list"
  lb_page :: nat
  lb_cal :: "cal_state list"
  lb_cal_reads_to_done :: u32
  lb_cal_immediate :: bool

definition bus_new :: "u32 \<Rightarrow> u8 \<Rightarrow> lane_bus" where
  "bus_new base busy_ticks =
     \<lparr>lb_cmd_addr = base + 0x48, lb_data_addr = base + 0x54, lb_stat_addr = base + 0x58, lb_cmd = 0, lb_data = 0,
      lb_stat = 0, lb_state = Bus_Idle, lb_busy_counter = 0, lb_busy_ticks = busy_ticks, lb_cmd_pending_clear = 0,
      lb_regs = replicate INDIRECT_REG_COUNT 0, lb_lane_regs = replicate (LANE_REG_COUNT * LANE_PAGE_COUNT) 0,
      lb_page = 0, lb_cal = replicate (2 * LANE_PAGE_COUNT) Cal_Idle,
      lb_cal_reads_to_done = DEFAULT_CAL_READS_TO_DONE, lb_cal_immediate = False\<rparr>"

definition set_cal_reads_to_done :: "u32 \<Rightarrow> lane_bus \<Rightarrow> lane_bus" where
  "set_cal_reads_to_done n b = b\<lparr>lb_cal_reads_to_done := n\<rparr>"

definition set_cal_immediate :: "bool \<Rightarrow> lane_bus \<Rightarrow> lane_bus" where
  "set_cal_immediate on b = b\<lparr>lb_cal_immediate := on\<rparr>"

definition set_page :: "nat \<Rightarrow> lane_bus \<Rightarrow> lane_bus" where
  "set_page page b = (if page < LANE_PAGE_COUNT then b\<lparr>lb_page := page\<rparr> else b)"

definition lane_slot :: "nat \<Rightarrow> u8 \<Rightarrow> nat" where
  "lane_slot page reg = page * LANE_REG_COUNT + unat reg"

definition lane_reg :: "u8 \<Rightarrow> lane_bus \<Rightarrow> u8" where
  "lane_reg reg b = lb_lane_regs b ! lane_slot (lb_page b) reg"

definition lane_reg_on_page :: "nat \<Rightarrow> u8 \<Rightarrow> lane_bus \<Rightarrow> u8" where
  "lane_reg_on_page page reg b = lb_lane_regs b ! lane_slot (min page (LANE_PAGE_COUNT - 1)) reg"

definition bus_claims :: "u32 \<Rightarrow> lane_bus \<Rightarrow> bool" where
  "bus_claims addr b \<longleftrightarrow> addr = lb_cmd_addr b \<or> addr = lb_data_addr b \<or> addr = lb_stat_addr b"

section \<open>The three words\<close>

definition execute_indirect :: "u32 \<Rightarrow> lane_bus \<Rightarrow> lane_bus" where
  "execute_indirect val b =
     (let cmd_hi = drop_bit 27 val AND 0x1F; reg_idx = unat (drop_bit 18 val AND 0x1FF)
      in if reg_idx \<ge> INDIRECT_REG_COUNT then b
         else
           let b1 = (if cmd_hi AND 2 \<noteq> 0 then b\<lparr>lb_regs := (lb_regs b)[reg_idx := lb_data b]\<rparr> else b)
           in if cmd_hi AND 1 \<noteq> 0 then b1\<lparr>lb_data := lb_regs b1 ! reg_idx\<rparr> else b1)"

definition bus_write_cmd :: "u32 \<Rightarrow> lane_bus \<Rightarrow> lane_bus" where
  "bus_write_cmd val b =
     (let cmd_bits = val AND 0xF8000000;
          b1 = b\<lparr>lb_cmd := val, lb_cmd_pending_clear := (if cmd_bits \<noteq> 0 then cmd_bits else lb_cmd_pending_clear b)\<rparr>
      in execute_indirect val b1)"

definition clear_cmd_bits_now :: "lane_bus \<Rightarrow> lane_bus" where
  "clear_cmd_bits_now b = b\<lparr>lb_cmd := lb_cmd b AND 0x07FFFFFF, lb_cmd_pending_clear := 0\<rparr>"

definition bus_read_cmd :: "lane_bus \<Rightarrow> u32 \<times> lane_bus" where
  "bus_read_cmd b =
     (lb_cmd b,
      if lb_cmd_pending_clear b \<noteq> 0
      then b\<lparr>lb_cmd := lb_cmd b AND NOT (lb_cmd_pending_clear b), lb_cmd_pending_clear := 0\<rparr> else b)"

definition bus_cmd_hi :: "lane_bus \<Rightarrow> u8" where
  "bus_cmd_hi b = ucast (drop_bit 27 (lb_cmd b) AND 0x1F)"

definition bus_write_data :: "u32 \<Rightarrow> lane_bus \<Rightarrow> lane_bus" where
  "bus_write_data val b = b\<lparr>lb_data := val\<rparr>"

definition bus_read_data :: "lane_bus \<Rightarrow> u32" where
  "bus_read_data b = lb_data b"

definition bus_write_stat :: "u32 \<Rightarrow> lane_bus \<Rightarrow> lane_bus" where
  "bus_write_stat val b = b\<lparr>lb_stat := val AND NOT 1\<rparr>"

definition bus_read_stat :: "lane_bus \<Rightarrow> u32" where
  "bus_read_stat b =
     (if lb_state b = Bus_Busy then lb_stat b OR 0x80000000 else lb_stat b AND NOT 0x80000000)"

definition set_raw_stat :: "u32 \<Rightarrow> lane_bus \<Rightarrow> lane_bus" where
  "set_raw_stat val b = b\<lparr>lb_stat := val\<rparr>"

definition bus_reg :: "nat \<Rightarrow> lane_bus \<Rightarrow> u32" where
  "bus_reg idx b = (if idx < length (lb_regs b) then lb_regs b ! idx else 0)"

definition set_reg :: "nat \<Rightarrow> u32 \<Rightarrow> lane_bus \<Rightarrow> lane_bus" where
  "set_reg idx val b = b\<lparr>lb_regs := (lb_regs b)[idx := val]\<rparr>"

section \<open>Lane registers\<close>

text \<open>\<open>cal[page][p]\<close>\<close>

definition cal_at :: "nat \<Rightarrow> nat \<Rightarrow> lane_bus \<Rightarrow> cal_state" where
  "cal_at page p b = lb_cal b ! (2 * page + p)"

definition set_cal :: "nat \<Rightarrow> nat \<Rightarrow> cal_state \<Rightarrow> lane_bus \<Rightarrow> lane_bus" where
  "set_cal page p s b = b\<lparr>lb_cal := (lb_cal b)[2 * page + p := s]\<rparr>"

definition set_lane_reg :: "nat \<Rightarrow> u8 \<Rightarrow> u8 \<Rightarrow> lane_bus \<Rightarrow> lane_bus" where
  "set_lane_reg page reg val b = b\<lparr>lb_lane_regs := (lb_lane_regs b)[lane_slot page reg := val]\<rparr>"

definition lane_write :: "u8 \<Rightarrow> u8 \<Rightarrow> lane_bus \<Rightarrow> lane_bus" where
  "lane_write reg val b0 =
     (let page = lb_page b0; b = set_lane_reg page reg val b0;
          parity = (if reg = CAL_CTRL_EVEN then Some 0 else if reg = CAL_CTRL_ODD then Some 1 else None)
      in case parity of
           None \<Rightarrow> b
         | Some p \<Rightarrow>
             let stat_reg = (if p = 0 then CAL_STAT_EVEN else CAL_STAT_ODD)
             in if val AND CAL_ENABLE_BIT = 0 then
                  let b1 = set_cal page p Cal_Idle b
                  in set_lane_reg page stat_reg (lb_lane_regs b1 ! lane_slot page stat_reg AND NOT CAL_DONE_BIT) b1
                else if val AND CAL_COLD_BIT \<noteq> 0 \<and> cal_at page p b \<noteq> Cal_Done then
                  set_cal page p (Cal_Running (if lb_cal_immediate b then 1 else lb_cal_reads_to_done b)) b
                else b)"

definition lane_read :: "u8 \<Rightarrow> lane_bus \<Rightarrow> u8 \<times> lane_bus" where
  "lane_read reg b0 =
     (let page = lb_page b0;
          parity = (if reg = CAL_STAT_EVEN then Some 0 else if reg = CAL_STAT_ODD then Some 1 else None);
          b = (case parity of
                 None \<Rightarrow> b0
               | Some p \<Rightarrow>
                   (case cal_at page p b0 of
                      Cal_Running reads_left \<Rightarrow>
                        let left = (if reads_left = 0 then 0 else reads_left - 1)
                        in if left = 0 then
                             let b1 = set_cal page p Cal_Done b0
                             in set_lane_reg page reg (lb_lane_regs b1 ! lane_slot page reg OR CAL_DONE_BIT) b1
                           else set_cal page p (Cal_Running left) b0
                    | _ \<Rightarrow> b0))
      in (lb_lane_regs b ! lane_slot page reg, b))"

definition arm_transaction :: "u32 \<Rightarrow> lane_bus \<Rightarrow> lane_bus" where
  "arm_transaction arm b =
     (let staged = lb_regs b ! 0; reg = ucast (staged AND 0xFF)
      in if arm AND push_bit 22 1 \<noteq> 0 then
           (case lane_read reg b of (val, b1) \<Rightarrow> b1\<lparr>lb_regs := (lb_regs b1)[0x100 := ucast val]\<rparr>)
         else if drop_bit 3 arm AND 0x7FF = 2 then
           lane_write reg (ucast (drop_bit 8 staged AND 0xFF)) b
         else b)"

section \<open>The state of the bus\<close>

definition go_busy :: "lane_bus \<Rightarrow> lane_bus" where
  "go_busy b = b\<lparr>lb_state := Bus_Busy, lb_busy_counter := lb_busy_ticks b\<rparr>"

definition bus_is_busy :: "lane_bus \<Rightarrow> bool" where
  "bus_is_busy b \<longleftrightarrow> lb_state b = Bus_Busy"

definition bus_is_done :: "lane_bus \<Rightarrow> bool" where
  "bus_is_done b \<longleftrightarrow> lb_state b = Bus_Done"

definition set_idle :: "lane_bus \<Rightarrow> lane_bus" where
  "set_idle b = b\<lparr>lb_state := Bus_Idle\<rparr>"

definition bus_tick :: "lane_bus \<Rightarrow> lane_bus" where
  "bus_tick b =
     (if lb_state b = Bus_Busy \<and> lb_busy_counter b > 0 then
        let n = lb_busy_counter b - 1
        in b\<lparr>lb_busy_counter := n, lb_state := (if n = 0 then Bus_Done else Bus_Busy)\<rparr>
      else b)"

definition bus_reset :: "lane_bus \<Rightarrow> lane_bus" where
  "bus_reset b =
     b\<lparr>lb_cmd := 0, lb_data := 0, lb_stat := 0, lb_state := Bus_Idle, lb_busy_counter := 0,
       lb_regs := replicate (length (lb_regs b)) 0, lb_cmd_pending_clear := 0,
       lb_lane_regs := replicate (length (lb_lane_regs b)) 0, lb_page := 0,
       lb_cal := replicate (2 * LANE_PAGE_COUNT) Cal_Idle\<rparr>"

definition apply_init :: "(u32 \<times> u32) list \<Rightarrow> lane_bus \<Rightarrow> lane_bus" where
  "apply_init init_values b0 =
     (let base = lb_cmd_addr b0 AND 0xFFFFFF00
      in fold (\<lambda>(off, val) b.
           let abs = base + off
           in if abs = lb_cmd_addr b then b\<lparr>lb_cmd := val\<rparr>
              else if abs = lb_data_addr b then b\<lparr>lb_data := val\<rparr>
              else if abs = lb_stat_addr b then b\<lparr>lb_stat := val\<rparr> else b) init_values b0)"

section \<open>Transactions\<close>

definition bus_ok :: "lane_bus \<Rightarrow> bool" where
  "bus_ok b \<longleftrightarrow> length (lb_regs b) = 512 \<and> length (lb_lane_regs b) = 1024 \<and> length (lb_cal b) = 8 \<and> lb_page b < 4"

text \<open>The words with which the program carries a transaction: the operand is staged in register 0 of the transport,
  then an arming word says what to do with it; the result of a read comes back through register 0x100.\<close>

definition stage :: "u32 \<Rightarrow> lane_bus \<Rightarrow> lane_bus" where
  "stage operand b = bus_write_cmd 0x1002002A (bus_write_data operand b)"

definition write_txn :: "u8 \<Rightarrow> u8 \<Rightarrow> lane_bus \<Rightarrow> lane_bus" where
  "write_txn reg val b = arm_transaction 0x00000013 (stage (push_bit 8 (ucast val) OR ucast reg) b)"

definition read_txn :: "u8 \<Rightarrow> lane_bus \<Rightarrow> u8 \<times> lane_bus" where
  "read_txn reg b =
     (let b1 = arm_transaction 0x00400009 (arm_transaction 0x0000000B (stage (ucast reg) b));
          b2 = bus_write_cmd 0x0C02002A b1
      in (ucast (bus_read_data b2), b2))"

text \<open>What a transaction depends on, the transport aside\<close>

definition lanes :: "lane_bus \<Rightarrow> u8 list \<times> nat \<times> cal_state list \<times> u32 \<times> bool" where
  "lanes b = (lb_lane_regs b, lb_page b, lb_cal b, lb_cal_reads_to_done b, lb_cal_immediate b)"

lemma lane_write_lanes: "lanes b = lanes c \<Longrightarrow> lanes (lane_write r v b) = lanes (lane_write r v c)"
  by (simp add: lanes_def lane_write_def Let_def set_lane_reg_def set_cal_def cal_at_def split: option.split)

lemma lane_read_lanes:
  "lanes b = lanes c \<Longrightarrow> fst (lane_read r b) = fst (lane_read r c) \<and> lanes (snd (lane_read r b)) = lanes (snd (lane_read r c))"
  by (simp add: lanes_def lane_read_def Let_def set_lane_reg_def set_cal_def cal_at_def split: option.split cal_state.split)

lemma lane_access_regs [simp]:
  "lb_regs (lane_write r v b) = lb_regs b" "lb_regs (snd (lane_read r b)) = lb_regs b"
  by (simp_all add: lane_write_def lane_read_def Let_def set_lane_reg_def set_cal_def split: option.split cal_state.split)

lemma stage_fields:
  assumes "bus_ok b"
  shows "lb_regs (stage w b) = (lb_regs b)[0 := w]" and "lanes (stage w b) = lanes b"
  using assms by (simp_all add: stage_def bus_write_cmd_def bus_write_data_def execute_indirect_def lanes_def Let_def)

lemma operand_bytes:
  fixes val reg :: u8
  defines "w \<equiv> (push_bit 8 (ucast val) OR ucast reg :: u32)"
  shows "ucast (w AND 0xFF) = reg" and "ucast (drop_bit 8 w AND 0xFF) = val" and "ucast ((ucast reg :: u32) AND 0xFF) = reg"
  by (rule bit_word_eqI; auto simp: w_def and_low_mask bit_simps dest: bit_imp_le_length)+

lemma byte_in_word: "ucast (ucast v :: u32) = v" for v :: u8
  by (rule bit_word_eqI) (auto simp: bit_simps)

lemma bus_ok_lanes: "length (lb_regs b) = 512 \<Longrightarrow> lanes b = lanes c \<Longrightarrow> bus_ok c \<Longrightarrow> bus_ok b"
  by (auto simp: bus_ok_def lanes_def)

lemma bus_ok_access: "bus_ok b \<Longrightarrow> bus_ok (lane_write r v b)" "bus_ok b \<Longrightarrow> bus_ok (snd (lane_read r b))"
  by (simp_all add: bus_ok_def lane_write_def lane_read_def Let_def set_lane_reg_def set_cal_def split: option.split cal_state.split)

lemma write_txn_lanes:
  assumes "bus_ok b"
  shows "lanes (write_txn reg val b) = lanes (lane_write reg val b)" and "bus_ok (write_txn reg val b)"
proof -
  let ?s = "stage (push_bit 8 (ucast val) OR ucast reg) b"
  have "lb_regs ?s ! 0 = push_bit 8 (ucast val) OR ucast reg" using assms by (simp add: stage_fields bus_ok_def)
  then have "write_txn reg val b = lane_write reg val ?s"
    by (simp only: write_txn_def arm_transaction_def Let_def operand_bytes) simp
  moreover have "bus_ok ?s" using assms stage_fields [OF assms] by (intro bus_ok_lanes [OF _ _ assms]) (simp_all add: bus_ok_def)
  ultimately show "lanes (write_txn reg val b) = lanes (lane_write reg val b)" "bus_ok (write_txn reg val b)"
    using lane_write_lanes [OF stage_fields(2) [OF assms]] bus_ok_access by simp_all
qed

lemma read_txn_lanes:
  assumes "bus_ok b"
  shows "fst (read_txn reg b) = fst (lane_read reg b)" and "lanes (snd (read_txn reg b)) = lanes (snd (lane_read reg b))"
    and "bus_ok (snd (read_txn reg b))"
proof -
  let ?s = "stage (ucast reg) b"
  have regs: "lb_regs ?s ! 0 = ucast reg" "length (lb_regs ?s) = 512" using assms by (simp_all add: stage_fields bus_ok_def)
  have ok: "bus_ok ?s" using assms stage_fields [OF assms] by (intro bus_ok_lanes [OF _ _ assms]) (simp_all add: bus_ok_def)
  let ?r = "lane_read reg ?s"
  have pointer: "arm_transaction 0x0000000B ?s = ?s" by (simp add: arm_transaction_def Let_def)
  have armed: "arm_transaction 0x00400009 ?s = (snd ?r)\<lparr>lb_regs := (lb_regs ?s)[0x100 := ucast (fst ?r)]\<rparr>"
    using regs operand_bytes(3) [of reg] by (simp add: arm_transaction_def Let_def push_bit_eq_mult split_beta)
  let ?b = "bus_write_cmd 0x0C02002A ((snd ?r)\<lparr>lb_regs := (lb_regs ?s)[0x100 := ucast (fst ?r)]\<rparr>)"
  have run: "read_txn reg b = (ucast (bus_read_data ?b), ?b)" by (simp add: read_txn_def Let_def pointer armed)
  have data: "bus_read_data ?b = ucast (fst ?r)" and lanes: "lanes ?b = lanes (snd ?r)" and len: "length (lb_regs ?b) = 512"
    using regs(2) by (simp_all add: bus_write_cmd_def execute_indirect_def bus_read_data_def lanes_def Let_def)
  show "fst (read_txn reg b) = fst (lane_read reg b)" "lanes (snd (read_txn reg b)) = lanes (snd (lane_read reg b))"
    using lane_read_lanes [OF stage_fields(2) [OF assms], where r = reg and w1 = "ucast reg"] data lanes by (simp_all add: run byte_in_word)
  show "bus_ok (snd (read_txn reg b))"
    using bus_ok_lanes [OF len lanes] bus_ok_access(2) [OF ok] by (simp add: run)
qed

section \<open>Calibration\<close>

text \<open>The control and status registers of engine \<open>q\<close>, and what the two engines of a page have in common with no other register\<close>

definition ctrl_reg :: "nat \<Rightarrow> u8" where "ctrl_reg q = (if q = 0 then CAL_CTRL_EVEN else CAL_CTRL_ODD)"
definition stat_reg :: "nat \<Rightarrow> u8" where "stat_reg q = (if q = 0 then CAL_STAT_EVEN else CAL_STAT_ODD)"

lemma lane_slot_eq: "lane_slot p r = lane_slot p' r' \<longleftrightarrow> p = p' \<and> r = r'"
proof
  assume "lane_slot p r = lane_slot p' r'"
  then have "lane_slot p r div 256 = lane_slot p' r' div 256" "lane_slot p r mod 256 = lane_slot p' r' mod 256" by simp_all
  then show "p = p' \<and> r = r'" using unat_less_8 [of r] unat_less_8 [of r'] by (simp add: lane_slot_def word_unat_eq_iff)
qed simp

lemma lane_slot_less: "p < 4 \<Longrightarrow> lane_slot p r < 1024"
  using unat_less_8 [of r] by (simp add: lane_slot_def)

text \<open>A read of a status register: the count of a running calibration goes down, at the end the bit is set and stays.\<close>

lemma read_status:
  assumes "bus_ok b" and "q < 2"
  defines "page \<equiv> lb_page b" and "v \<equiv> lane_reg (stat_reg q) b" and "r \<equiv> lane_read (stat_reg q) b"
  shows "cal_at page q b = Cal_Running n \<Longrightarrow> unat n \<le> 1 \<Longrightarrow>
      fst r = v OR CAL_DONE_BIT \<and> snd r = set_lane_reg page (stat_reg q) (v OR CAL_DONE_BIT) (set_cal page q Cal_Done b)"
    and "cal_at page q b = Cal_Running n \<Longrightarrow> 1 < unat n \<Longrightarrow> fst r = v \<and> snd r = set_cal page q (Cal_Running (n - 1)) b"
    and "cal_at page q b = Cal_Done \<Longrightarrow> r = (v, b)"
proof -
  have parity: "(if stat_reg q = CAL_STAT_EVEN then Some (0 :: nat) else if stat_reg q = CAL_STAT_ODD then Some 1 else None) = Some q"
    using assms(2) by (auto simp: stat_reg_def)
  have slot: "lane_slot page (stat_reg q) < length (lb_lane_regs b)"
    using assms(1) lane_slot_less by (simp add: bus_ok_def page_def)
  show "r = (v, b)" if "cal_at page q b = Cal_Done"
    using that unfolding r_def lane_read_def Let_def parity by (simp add: v_def lane_reg_def page_def)
  show "fst r = v \<and> snd r = set_cal page q (Cal_Running (n - 1)) b" if "cal_at page q b = Cal_Running n" "1 < unat n"
  proof -
    have "n \<noteq> 0" "n - 1 \<noteq> 0" using that(2) by auto
    then show ?thesis using that(1)
      unfolding r_def lane_read_def Let_def parity by (simp add: v_def lane_reg_def page_def set_cal_def)
  qed
  show "fst r = v OR CAL_DONE_BIT \<and> snd r = set_lane_reg page (stat_reg q) (v OR CAL_DONE_BIT) (set_cal page q Cal_Done b)"
    if "cal_at page q b = Cal_Running n" "unat n \<le> 1"
  proof -
    have "n = 0 \<or> n = 1" using that(2) word_less_2_cases [of n] by (simp add: word_less_nat_alt)
    then have "(if n = 0 then 0 else n - 1) = 0" by auto
    then show ?thesis using that(1) slot
      unfolding r_def lane_read_def Let_def parity by (simp add: v_def lane_reg_def page_def set_cal_def set_lane_reg_def)
  qed
qed

text \<open>\<open>m\<close> reads of a register\<close>

fun read_txns :: "u8 \<Rightarrow> nat \<Rightarrow> lane_bus \<Rightarrow> u8 list \<times> lane_bus" where
  "read_txns r 0 b = ([], b)"
| "read_txns r (Suc m) b =
     (case read_txn r b of (v, b1) \<Rightarrow> (case read_txns r m b1 of (vs, b2) \<Rightarrow> (v # vs, b2)))"

text \<open>The rest of the lanes: every register but the status register of the engine, and every other engine\<close>

definition rest_kept :: "nat \<Rightarrow> nat \<Rightarrow> lane_bus \<Rightarrow> lane_bus \<Rightarrow> bool" where
  "rest_kept page q b b' \<longleftrightarrow>
     lb_page b' = page \<and> lb_page b = page
     \<and> (\<forall>p r. (p, r) \<noteq> (page, stat_reg q) \<longrightarrow> lb_lane_regs b' ! lane_slot p r = lb_lane_regs b ! lane_slot p r)
     \<and> (\<forall>p e. (p, e) \<noteq> (page, q) \<and> e < 2 \<longrightarrow> cal_at p e b' = cal_at p e b)"

lemma bit_7_CAL_DONE: "bit (v OR CAL_DONE_BIT) 7" "bit (v AND CAL_DONE_BIT) 7 \<longleftrightarrow> bit v 7" for v :: u8
proof -
  have "(CAL_DONE_BIT :: u8) = push_bit 7 1" by (simp add: push_bit_eq_mult)
  then have "bit (CAL_DONE_BIT :: u8) 7" by (simp only: bit_push_bit_iff) simp
  then show "bit (v OR CAL_DONE_BIT) 7" "bit (v AND CAL_DONE_BIT) 7 \<longleftrightarrow> bit v 7" by (simp_all only: bit_or_iff bit_and_iff) simp_all
qed

lemma lanes_reads:
  "lanes b = lanes c \<Longrightarrow> lane_reg r b = lane_reg r c \<and> cal_at p q b = cal_at p q c \<and> lb_page b = lb_page c \<and> lb_lane_regs b = lb_lane_regs c"
  by (simp add: lanes_def lane_reg_def cal_at_def)

lemma done_reads:
  assumes "bus_ok b" and "q < 2" and "cal_at (lb_page b) q b = Cal_Done" and "bit (lane_reg (stat_reg q) b) 7"
  shows "map (\<lambda>v. bit v 7) (fst (read_txns (stat_reg q) m b)) = replicate m True
    \<and> lanes (snd (read_txns (stat_reg q) m b)) = lanes b"
  using assms
proof (induction m arbitrary: b)
  case (Suc m)
  let ?r = "read_txn (stat_reg q) b"
  note step = read_txn_lanes [OF Suc(2), of "stat_reg q"] read_status(3) [OF Suc(2,3,4)]
  have same: "lanes (snd ?r) = lanes b" using step by simp
  then have "map (\<lambda>v. bit v 7) (fst (read_txns (stat_reg q) m (snd ?r))) = replicate m True
    \<and> lanes (snd (read_txns (stat_reg q) m (snd ?r))) = lanes (snd ?r)"
    using Suc(3-5) step(3) lanes_reads [OF same, of "stat_reg q" "lb_page b" q] by (intro Suc(1)) simp_all
  then show ?case using step Suc(5) same by (simp add: split_beta)
qed simp

lemma set_cal_fields [simp]:
  "lb_page (set_cal p q s b) = lb_page b" "lb_lane_regs (set_cal p q s b) = lb_lane_regs b"
  "lb_cal_immediate (set_cal p q s b) = lb_cal_immediate b" "lb_cal_reads_to_done (set_cal p q s b) = lb_cal_reads_to_done b"
  "length (lb_cal (set_cal p q s b)) = length (lb_cal b)"
  by (simp_all add: set_cal_def)

lemma set_lane_reg_fields [simp]:
  "lb_page (set_lane_reg p r v b) = lb_page b" "cal_at p' e (set_lane_reg p r v b) = cal_at p' e b"
  "lb_cal_immediate (set_lane_reg p r v b) = lb_cal_immediate b" "lb_cal_reads_to_done (set_lane_reg p r v b) = lb_cal_reads_to_done b"
  "length (lb_lane_regs (set_lane_reg p r v b)) = length (lb_lane_regs b)" "lb_cal (set_lane_reg p r v b) = lb_cal b"
  by (simp_all add: set_lane_reg_def cal_at_def)

lemma cal_at_set_cal:
  "length (lb_cal b) = 8 \<Longrightarrow> p < 4 \<Longrightarrow> q < 2 \<Longrightarrow> e < 2 \<Longrightarrow>
     cal_at p' e (set_cal p q s b) = (if p' = p \<and> e = q then s else cal_at p' e b)"
  unfolding cal_at_def set_cal_def by (auto simp: nth_list_update) presburger+

lemma lane_regs_set:
  "length (lb_lane_regs b) = 1024 \<Longrightarrow> p < 4 \<Longrightarrow>
     lb_lane_regs (set_lane_reg p r v b) ! lane_slot p' r' = (if p' = p \<and> r' = r then v else lb_lane_regs b ! lane_slot p' r')"
  using lane_slot_less [of p r] by (simp add: set_lane_reg_def nth_list_update lane_slot_eq)

lemma running_reads:
  assumes "bus_ok b" and "q < 2" and "cal_at (lb_page b) q b = Cal_Running n" and "\<not> bit (lane_reg (stat_reg q) b) 7"
  shows "map (\<lambda>v. bit v 7) (fst (read_txns (stat_reg q) m b)) = map (\<lambda>i. max 1 (unat n) \<le> i + 1) [0..<m]
    \<and> rest_kept (lb_page b) q b (snd (read_txns (stat_reg q) m b))"
  using assms
proof (induction m arbitrary: b n)
  case 0
  then show ?case by (simp add: rest_kept_def)
next
  case (Suc m)
  let ?s = "stat_reg q" and ?page = "lb_page b"
  let ?b = "snd (read_txn ?s b)"
  note step = read_txn_lanes [OF Suc(2), of ?s] and read = read_status [OF Suc(2,3)]
  have ok: "length (lb_cal b) = 8" "length (lb_lane_regs b) = 1024" "?page < 4" using Suc(2) by (simp_all add: bus_ok_def)
  have run: "read_txns ?s (Suc m) b = (fst (read_txn ?s b) # fst (read_txns ?s m ?b), snd (read_txns ?s m ?b))"
    by (simp add: split_beta)
  have shift: "map (\<lambda>i. k \<le> i + 1) [0..<Suc m] = (k \<le> 1) # map (\<lambda>i. k - 1 \<le> i + 1) [0..<m]" if "k \<ge> 1" for k :: nat
    using that by (simp only: upt_conv_Cons map_Suc_upt [symmetric]) auto
  show ?case
  proof (cases "unat n \<le> 1")
    case True
    let ?c = "set_lane_reg ?page ?s (lane_reg ?s b OR CAL_DONE_BIT) (set_cal ?page q Cal_Done b)"
    have b: "lanes ?b = lanes ?c" "fst (read_txn ?s b) = lane_reg ?s b OR CAL_DONE_BIT"
      using read(1) [OF Suc(4) True] step by simp_all
    have c: "lb_page ?c = ?page" "cal_at p e ?c = cal_at p e (set_cal ?page q Cal_Done b)"
      "lb_lane_regs ?c ! lane_slot p r = (if p = ?page \<and> r = ?s then lane_reg ?s b OR CAL_DONE_BIT else lb_lane_regs b ! lane_slot p r)" for p e r
      using ok lane_regs_set [of "set_cal ?page q Cal_Done b" ?page] by (simp_all add: cal_at_def set_cal_def set_lane_reg_def)
    have done': "cal_at (lb_page ?b) q ?b = Cal_Done" "bit (lane_reg ?s ?b) 7" "lb_page ?b = ?page"
      using lanes_reads [OF b(1), of ?s ?page q] c ok Suc(3) bit_7_CAL_DONE
      by (simp_all add: cal_at_set_cal lane_reg_def)
    note rest = done_reads [OF step(3) Suc(3) done'(1,2), of m]
    have "rest_kept ?page q b ?b"
      using lanes_reads [OF b(1)] c ok Suc(3) done'(3) by (auto simp: rest_kept_def cal_at_set_cal)
    then have "rest_kept ?page q b (snd (read_txns ?s m ?b))"
      using lanes_reads [OF conjunct2 [OF rest]] by (auto simp: rest_kept_def)
    moreover have "map (\<lambda>i. max 1 (unat n) \<le> i + 1) [0..<Suc m] = replicate (Suc m) True"
      using True by (intro nth_equalityI) (auto simp del: upt_Suc replicate_Suc)
    ultimately show ?thesis using rest b(2) bit_7_CAL_DONE unfolding run by simp
  next
    case False
    let ?c = "set_cal ?page q (Cal_Running (n - 1)) b"
    have b: "lanes ?b = lanes ?c" "fst (read_txn ?s b) = lane_reg ?s b" using read(2) [OF Suc(4)] False step by simp_all
    have pred: "unat (n - 1) = unat n - 1" using False by (simp add: unat_minus_one unat_gt_0 [symmetric])
    have running: "cal_at (lb_page ?b) q ?b = Cal_Running (n - 1)" "\<not> bit (lane_reg ?s ?b) 7" "lb_page ?b = ?page"
      using lanes_reads [OF b(1), of ?s ?page q] ok Suc(3,5) by (simp_all add: cal_at_set_cal lane_reg_def)
    note rest = Suc(1) [OF step(3) Suc(3) running(1,2)]
    have "rest_kept ?page q b ?b"
      using lanes_reads [OF b(1)] ok Suc(3) running(3) by (auto simp: rest_kept_def cal_at_set_cal)
    then have "rest_kept ?page q b (snd (read_txns ?s m ?b))" using rest running(3) by (auto simp: rest_kept_def)
    moreover have "max 1 (unat n) - 1 = max 1 (unat (n - 1))" using False pred by simp
    ultimately show ?thesis
      using rest b(2) Suc(5) False shift [of "max 1 (unat n)"] unfolding run by simp
  qed
qed

text \<open>The arming sequence of the program: disable the engine, then enable it with the cold bit\<close>

definition arm_cold :: "nat \<Rightarrow> lane_bus \<Rightarrow> lane_bus" where
  "arm_cold q b = write_txn (ctrl_reg q) 0x07 (write_txn (ctrl_reg q) 0x00 b)"

definition reads_to_done :: "lane_bus \<Rightarrow> nat" where
  "reads_to_done b = (if lb_cal_immediate b then 1 else max 1 (unat (lb_cal_reads_to_done b)))"

lemma write_control:
  assumes "bus_ok b" and "q < 2"
  defines "page \<equiv> lb_page b"
  shows "lane_write (ctrl_reg q) 0x00 b
      = (let b1 = set_cal page q Cal_Idle (set_lane_reg page (ctrl_reg q) 0x00 b)
         in set_lane_reg page (stat_reg q) (lb_lane_regs b1 ! lane_slot page (stat_reg q) AND NOT CAL_DONE_BIT) b1)"
    and "cal_at page q b \<noteq> Cal_Done \<Longrightarrow> lane_write (ctrl_reg q) 0x07 b
      = set_cal page q (Cal_Running (if lb_cal_immediate b then 1 else lb_cal_reads_to_done b))
          (set_lane_reg page (ctrl_reg q) 0x07 b)"
proof -
  have parity: "(if ctrl_reg q = CAL_CTRL_EVEN then Some (0 :: nat) else if ctrl_reg q = CAL_CTRL_ODD then Some 1 else None) = Some q"
    "(if q = 0 then CAL_STAT_EVEN else CAL_STAT_ODD) = stat_reg q"
    using assms(2) by (auto simp: ctrl_reg_def stat_reg_def)
  show "lane_write (ctrl_reg q) 0x00 b
      = (let b1 = set_cal page q Cal_Idle (set_lane_reg page (ctrl_reg q) 0x00 b)
         in set_lane_reg page (stat_reg q) (lb_lane_regs b1 ! lane_slot page (stat_reg q) AND NOT CAL_DONE_BIT) b1)"
    unfolding lane_write_def Let_def parity by (simp add: parity page_def)
  show "lane_write (ctrl_reg q) 0x07 b
      = set_cal page q (Cal_Running (if lb_cal_immediate b then 1 else lb_cal_reads_to_done b))
          (set_lane_reg page (ctrl_reg q) 0x07 b)" if "cal_at page q b \<noteq> Cal_Done"
    using that unfolding lane_write_def Let_def parity by (simp add: page_def cal_at_def set_lane_reg_def)
qed

lemma control_status_differ: "ctrl_reg q \<noteq> stat_reg q"
  by (simp add: ctrl_reg_def stat_reg_def)

lemma disabled_engine:
  assumes "bus_ok b" and "q < 2"
  defines "b0 \<equiv> lane_write (ctrl_reg q) 0x00 b"
  shows "lb_page b0 = lb_page b" and "lb_cal_immediate b0 = lb_cal_immediate b" and "lb_cal_reads_to_done b0 = lb_cal_reads_to_done b"
    and "e < 2 \<Longrightarrow> cal_at p e b0 = (if p = lb_page b \<and> e = q then Cal_Idle else cal_at p e b)"
    and "lb_lane_regs b0 ! lane_slot p r = (if p = lb_page b \<and> r = stat_reg q then lane_reg (stat_reg q) b AND NOT CAL_DONE_BIT
       else if p = lb_page b \<and> r = ctrl_reg q then 0 else lb_lane_regs b ! lane_slot p r)"
proof -
  have ok: "length (lb_cal b) = 8" "length (lb_lane_regs b) = 1024" "lb_page b < 4" using assms(1) by (simp_all add: bus_ok_def)
  note b0 = write_control(1) [OF assms(1,2), folded b0_def, unfolded Let_def]
  show "lb_page b0 = lb_page b" "lb_cal_immediate b0 = lb_cal_immediate b" "lb_cal_reads_to_done b0 = lb_cal_reads_to_done b"
    by (simp_all add: b0)
  show "e < 2 \<Longrightarrow> cal_at p e b0 = (if p = lb_page b \<and> e = q then Cal_Idle else cal_at p e b)"
    using ok assms(2) by (simp add: b0 cal_at_set_cal)
  show "lb_lane_regs b0 ! lane_slot p r = (if p = lb_page b \<and> r = stat_reg q then lane_reg (stat_reg q) b AND NOT CAL_DONE_BIT
       else if p = lb_page b \<and> r = ctrl_reg q then 0 else lb_lane_regs b ! lane_slot p r)"
    using ok control_status_differ [of q] control_status_differ [of q, symmetric]
    by (simp add: b0 lane_regs_set lane_reg_def)
qed

lemma started_engine:
  assumes "bus_ok b" and "q < 2" and "cal_at (lb_page b) q b \<noteq> Cal_Done"
  defines "b0 \<equiv> lane_write (ctrl_reg q) 0x07 b"
  shows "lb_page b0 = lb_page b"
    and "e < 2 \<Longrightarrow> cal_at p e b0 = (if p = lb_page b \<and> e = q
        then Cal_Running (if lb_cal_immediate b then 1 else lb_cal_reads_to_done b) else cal_at p e b)"
    and "lb_lane_regs b0 ! lane_slot p r = (if p = lb_page b \<and> r = ctrl_reg q then 0x07 else lb_lane_regs b ! lane_slot p r)"
proof -
  have ok: "length (lb_cal b) = 8" "length (lb_lane_regs b) = 1024" "lb_page b < 4" using assms(1) by (simp_all add: bus_ok_def)
  note b0 = write_control(2) [OF assms(1,2,3), folded b0_def]
  show "lb_page b0 = lb_page b" by (simp add: b0)
  show "e < 2 \<Longrightarrow> cal_at p e b0 = (if p = lb_page b \<and> e = q
        then Cal_Running (if lb_cal_immediate b then 1 else lb_cal_reads_to_done b) else cal_at p e b)"
    using ok assms(2) by (simp add: b0 cal_at_set_cal)
  show "lb_lane_regs b0 ! lane_slot p r = (if p = lb_page b \<and> r = ctrl_reg q then 0x07 else lb_lane_regs b ! lane_slot p r)"
    using ok by (simp add: b0 lane_regs_set)
qed

lemma armed_engine:
  assumes "bus_ok b" and "q < 2"
  shows "bus_ok (arm_cold q b)" and "lb_page (arm_cold q b) = lb_page b"
    and "cal_at (lb_page b) q (arm_cold q b) = Cal_Running (if lb_cal_immediate b then 1 else lb_cal_reads_to_done b)"
    and "\<not> bit (lane_reg (stat_reg q) (arm_cold q b)) 7"
    and "(p, r) \<noteq> (lb_page b, ctrl_reg q) \<Longrightarrow> (p, r) \<noteq> (lb_page b, stat_reg q) \<Longrightarrow>
      lb_lane_regs (arm_cold q b) ! lane_slot p r = lb_lane_regs b ! lane_slot p r"
    and "(p, e) \<noteq> (lb_page b, q) \<Longrightarrow> e < 2 \<Longrightarrow> cal_at p e (arm_cold q b) = cal_at p e b"
proof -
  let ?b0 = "lane_write (ctrl_reg q) 0x00 b"
  let ?b1 = "lane_write (ctrl_reg q) 0x07 ?b0"
  note b0 = disabled_engine [OF assms]
  have "cal_at (lb_page ?b0) q ?b0 \<noteq> Cal_Done" using b0(1,4) assms(2) by simp
  note b1 = started_engine [OF bus_ok_access(1) [OF assms(1)] assms(2) this, unfolded b0(1-3)]
  note zero = write_txn_lanes [OF assms(1), of "ctrl_reg q" "0x00"]
  note seven = write_txn_lanes [OF zero(2), of "ctrl_reg q" "0x07"]
  have lanes: "lanes (arm_cold q b) = lanes ?b1"
    using seven(1) lane_write_lanes [OF zero(1)] by (simp only: arm_cold_def)
  note same = lanes_reads [OF lanes]
  show "bus_ok (arm_cold q b)" using seven(2) by (simp only: arm_cold_def)
  show page: "lb_page (arm_cold q b) = lb_page b" using same b1(1) by simp
  show "cal_at (lb_page b) q (arm_cold q b) = Cal_Running (if lb_cal_immediate b then 1 else lb_cal_reads_to_done b)"
    using same b1(2) [OF assms(2)] by simp
  have "\<not> bit (v AND NOT CAL_DONE_BIT) 7" for v :: u8
    using bit_7_CAL_DONE(1) [of 0] by (simp add: bit_and_iff bit_not_iff)
  then show "\<not> bit (lane_reg (stat_reg q) (arm_cold q b)) 7"
    using same b1(1,3) b0(5) control_status_differ [of q, symmetric] by (simp add: lane_reg_def)
  show "(p, r) \<noteq> (lb_page b, ctrl_reg q) \<Longrightarrow> (p, r) \<noteq> (lb_page b, stat_reg q) \<Longrightarrow>
      lb_lane_regs (arm_cold q b) ! lane_slot p r = lb_lane_regs b ! lane_slot p r"
    using same b1(3) b0(5) by auto
  show "(p, e) \<noteq> (lb_page b, q) \<Longrightarrow> e < 2 \<Longrightarrow> cal_at p e (arm_cold q b) = cal_at p e b"
    using same b1(2) b0(4) by auto
qed

text \<open>C39. After the arming sequence of a cold calibration, carried out by transactions on the bus, exactly the
  configured number of reads of the status register (at least one, or one in the immediate mode) show the done bit
  clear but the last, from which on every read shows it set, whatever the engine was doing before. No other
  register of the page but the control and the status register, no register of another page and no other
  engine is affected.\<close>

theorem calibration_converges:
  assumes "bus_ok b" and "q < 2"
  shows "let (values, b') = read_txns (stat_reg q) m (arm_cold q b); page = lb_page b
    in map (\<lambda>v. bit v 7) values = map (\<lambda>i. reads_to_done b \<le> i + 1) [0..<m]
      \<and> (\<forall>p r. (p, r) \<notin> {(page, ctrl_reg q), (page, stat_reg q)} \<longrightarrow>
            lb_lane_regs b' ! lane_slot p r = lb_lane_regs b ! lane_slot p r)
      \<and> (\<forall>p e. (p, e) \<noteq> (page, q) \<and> e < 2 \<longrightarrow> cal_at p e b' = cal_at p e b)"
proof -
  note armed = armed_engine [OF assms]
  have "map (\<lambda>v. bit v 7) (fst (read_txns (stat_reg q) m (arm_cold q b))) = map (\<lambda>i. reads_to_done b \<le> i + 1) [0..<m]"
    "rest_kept (lb_page b) q (arm_cold q b) (snd (read_txns (stat_reg q) m (arm_cold q b)))"
    using running_reads [OF armed(1) assms(2), of "if lb_cal_immediate b then 1 else lb_cal_reads_to_done b" m] armed(2-4)
    by (simp_all add: reads_to_done_def)
  then show ?thesis using armed(5,6) by (simp add: rest_kept_def Let_def split_beta)
qed

theorem calibration_converges_witness:
  "map (\<lambda>v. bit v 7) (fst (read_txns (stat_reg 1) 4 (arm_cold 1 (set_page 2 (set_cal_reads_to_done 3 (bus_new 0x01000118 2))))))
    = [False, False, True, True]"
proof -
  have "bus_ok (set_page 2 (set_cal_reads_to_done 3 (bus_new 0x01000118 2)))"
    by (simp add: bus_ok_def set_page_def set_cal_reads_to_done_def bus_new_def)
  then show ?thesis
    using calibration_converges [of "set_page 2 (set_cal_reads_to_done 3 (bus_new 0x01000118 2))" 1 4]
    by (simp add: split_beta Let_def reads_to_done_def set_page_def set_cal_reads_to_done_def bus_new_def upt_conv_Cons)
qed

text \<open>The words of a table that start a bus at power on are looked up from the start of a 256-byte block, not from the
  start of the table: what comes to lie on the addresses of lane 0.\<close>

lemma power_on_words:
  "filter (\<lambda>(off, val). (0x010000F8 + 0x48 AND 0xFFFFFF00) + off \<in> {0x010000F8 + 0x48, 0x010000F8 + 0x54, 0x010000F8 + 0x58})
     SYSREG_INIT_VALUES = [(0x0040, 0x3E3E0E41)]"
  by (simp add: SYSREG_INIT_VALUES_def)

end
