(* ===== verification/Dev_Sfp.thy ===== *)
theory Dev_Sfp
  imports Prelude
begin

text \<open>
  \<open>src/soc/sfp_eeprom.rs\<close>: the two 256-byte pages of an optical module (SFF-8472), with the live diagnostics laid
  over bytes 96 to 109 of the second. An array is a list of its declared length. The strings of the display are left out.
\<close>

unbundle bit_operations_syntax

type_synonym i16 = "16 word"

text \<open>A 16-bit field, high byte first\<close>

definition be16 :: "u16 \<Rightarrow> u8 list" where
  "be16 v = [ucast (drop_bit 8 v), ucast v]"

section \<open>The identification page\<close>

record sfp_a0 =
  a0_identifier :: u8
  a0_ext_identifier :: u8
  a0_connector :: u8
  a0_transceiver :: "u8 list"
  a0_encoding :: u8
  a0_br_nominal :: u8
  a0_rate_identifier :: u8
  a0_length_smf_km :: u8
  a0_length_smf_100m :: u8
  a0_length_om2 :: u8
  a0_length_om1 :: u8
  a0_length_om4_copper :: u8
  a0_length_om3 :: u8
  a0_vendor_name :: "u8 list"
  a0_ext_compliance :: u8
  a0_vendor_oui :: "u8 list"
  a0_vendor_pn :: "u8 list"
  a0_vendor_rev :: "u8 list"
  a0_wavelength :: u16
  a0_unallocated_62 :: u8
  a0_cc_base :: u8
  a0_options :: u16
  a0_br_max :: u8
  a0_br_min :: u8
  a0_vendor_sn :: "u8 list"
  a0_date_year :: "u8 list"
  a0_date_month :: "u8 list"
  a0_date_day :: "u8 list"
  a0_date_lot :: "u8 list"
  a0_diag_monitoring_type :: u8
  a0_enhanced_options :: u8
  a0_sff8472_compliance :: u8
  a0_cc_ext :: u8
  a0_vendor_specific :: "u8 list"
  a0_reserved_8079 :: "u8 list"

definition a0_to_bytes :: "sfp_a0 \<Rightarrow> u8 list" where
  "a0_to_bytes p =
     [a0_identifier p, a0_ext_identifier p, a0_connector p] @ a0_transceiver p
     @ [a0_encoding p, a0_br_nominal p, a0_rate_identifier p, a0_length_smf_km p, a0_length_smf_100m p, a0_length_om2 p, a0_length_om1 p, a0_length_om4_copper p, a0_length_om3 p]
     @ a0_vendor_name p @ [a0_ext_compliance p] @ a0_vendor_oui p @ a0_vendor_pn p @ a0_vendor_rev p
     @ be16 (a0_wavelength p) @ [a0_unallocated_62 p, a0_cc_base p] @ be16 (a0_options p)
     @ [a0_br_max p, a0_br_min p] @ a0_vendor_sn p @ a0_date_year p @ a0_date_month p @ a0_date_day p
     @ a0_date_lot p
     @ [a0_diag_monitoring_type p, a0_enhanced_options p, a0_sff8472_compliance p, a0_cc_ext p]
     @ a0_vendor_specific p @ a0_reserved_8079 p"

section \<open>The diagnostics page\<close>

record sfp_a2 =
  a2_temp_high_alarm :: i16
  a2_temp_low_alarm :: i16
  a2_temp_high_warning :: i16
  a2_temp_low_warning :: i16
  a2_vcc_high_alarm :: u16
  a2_vcc_low_alarm :: u16
  a2_vcc_high_warning :: u16
  a2_vcc_low_warning :: u16
  a2_tx_bias_high_alarm :: u16
  a2_tx_bias_low_alarm :: u16
  a2_tx_bias_high_warning :: u16
  a2_tx_bias_low_warning :: u16
  a2_tx_power_high_alarm :: u16
  a2_tx_power_low_alarm :: u16
  a2_tx_power_high_warning :: u16
  a2_tx_power_low_warning :: u16
  a2_rx_power_high_alarm :: u16
  a2_rx_power_low_alarm :: u16
  a2_rx_power_high_warning :: u16
  a2_rx_power_low_warning :: u16
  a2_opt_laser_temp_high_alarm :: i16
  a2_opt_laser_temp_low_alarm :: i16
  a2_opt_laser_temp_high_warning :: i16
  a2_opt_laser_temp_low_warning :: i16
  a2_opt_tec_current_high_alarm :: i16
  a2_opt_tec_current_low_alarm :: i16
  a2_opt_tec_current_high_warning :: i16
  a2_opt_tec_current_low_warning :: i16
  a2_rx_pwr_4 :: "u8 list"
  a2_rx_pwr_3 :: "u8 list"
  a2_rx_pwr_2 :: "u8 list"
  a2_rx_pwr_1 :: "u8 list"
  a2_rx_pwr_0 :: "u8 list"
  a2_tx_i_slope :: u16
  a2_tx_i_offset :: i16
  a2_tx_pwr_slope :: u16
  a2_tx_pwr_offset :: i16
  a2_t_slope :: u16
  a2_t_offset :: i16
  a2_v_slope :: u16
  a2_v_offset :: i16
  a2_unallocated_92_94 :: "u8 list"
  a2_cc_dmi :: u8
  a2_temperature :: i16
  a2_vcc :: u16
  a2_tx_bias :: u16
  a2_tx_power :: u16
  a2_rx_power :: u16
  a2_opt_laser_temp_wavelength :: u16
  a2_opt_tec_current :: i16
  a2_status_control :: u8
  a2_reserved_111 :: u8
  a2_alarm_flags :: u16
  a2_tx_input_eq :: u8
  a2_rx_output_emphasis :: u8
  a2_warning_flags :: u16
  a2_ext_status_control :: u16
  a2_vendor_specific :: "u8 list"
  a2_page_select :: u8
  a2_user_eeprom :: "u8 list"
  a2_vendor_control :: "u8 list"

definition a2_to_bytes :: "sfp_a2 \<Rightarrow> u8 list" where
  "a2_to_bytes p =
     be16 (a2_temp_high_alarm p) @ be16 (a2_temp_low_alarm p) @ be16 (a2_temp_high_warning p)
     @ be16 (a2_temp_low_warning p) @ be16 (a2_vcc_high_alarm p) @ be16 (a2_vcc_low_alarm p)
     @ be16 (a2_vcc_high_warning p) @ be16 (a2_vcc_low_warning p) @ be16 (a2_tx_bias_high_alarm p)
     @ be16 (a2_tx_bias_low_alarm p) @ be16 (a2_tx_bias_high_warning p) @ be16 (a2_tx_bias_low_warning p)
     @ be16 (a2_tx_power_high_alarm p) @ be16 (a2_tx_power_low_alarm p)
     @ be16 (a2_tx_power_high_warning p) @ be16 (a2_tx_power_low_warning p)
     @ be16 (a2_rx_power_high_alarm p) @ be16 (a2_rx_power_low_alarm p)
     @ be16 (a2_rx_power_high_warning p) @ be16 (a2_rx_power_low_warning p)
     @ be16 (a2_opt_laser_temp_high_alarm p) @ be16 (a2_opt_laser_temp_low_alarm p)
     @ be16 (a2_opt_laser_temp_high_warning p) @ be16 (a2_opt_laser_temp_low_warning p)
     @ be16 (a2_opt_tec_current_high_alarm p) @ be16 (a2_opt_tec_current_low_alarm p)
     @ be16 (a2_opt_tec_current_high_warning p) @ be16 (a2_opt_tec_current_low_warning p) @ a2_rx_pwr_4 p
     @ a2_rx_pwr_3 p @ a2_rx_pwr_2 p @ a2_rx_pwr_1 p @ a2_rx_pwr_0 p @ be16 (a2_tx_i_slope p)
     @ be16 (a2_tx_i_offset p) @ be16 (a2_tx_pwr_slope p) @ be16 (a2_tx_pwr_offset p)
     @ be16 (a2_t_slope p) @ be16 (a2_t_offset p) @ be16 (a2_v_slope p) @ be16 (a2_v_offset p)
     @ a2_unallocated_92_94 p @ [a2_cc_dmi p] @ be16 (a2_temperature p) @ be16 (a2_vcc p)
     @ be16 (a2_tx_bias p) @ be16 (a2_tx_power p) @ be16 (a2_rx_power p)
     @ be16 (a2_opt_laser_temp_wavelength p) @ be16 (a2_opt_tec_current p)
     @ [a2_status_control p, a2_reserved_111 p] @ be16 (a2_alarm_flags p)
     @ [a2_tx_input_eq p, a2_rx_output_emphasis p] @ be16 (a2_warning_flags p)
     @ be16 (a2_ext_status_control p) @ a2_vendor_specific p @ [a2_page_select p] @ a2_user_eeprom p
     @ a2_vendor_control p"

section \<open>The default module\<close>

definition GENERIC_SFP_A0 :: sfp_a0 where
  "GENERIC_SFP_A0 =
     \<lparr>a0_identifier = 0x03, a0_ext_identifier = 0x04, a0_connector = 0x01,
      a0_transceiver = [0x00, 0x00, 0x00, 0x80, 0x00, 0x00, 0x00, 0x00], a0_encoding = 0x03,
      a0_br_nominal = 0x0D, a0_rate_identifier = 0x00, a0_length_smf_km = 0x14,
      a0_length_smf_100m = 0xC8, a0_length_om2 = 0x00, a0_length_om1 = 0x00, a0_length_om4_copper = 0x00,
      a0_length_om3 = 0x00,
      a0_vendor_name = [0x41, 0x43, 0x4d, 0x45, 0x20, 0x4f, 0x50, 0x54, 0x49, 0x43, 0x53, 0x20, 0x20, 0x20, 0x20, 0x20],
      a0_ext_compliance = 0x00, a0_vendor_oui = [0x00, 0x00, 0x00],
      a0_vendor_pn = [0x47, 0x45, 0x4e, 0x45, 0x52, 0x49, 0x43, 0x2d, 0x53, 0x46, 0x50, 0x2d, 0x30, 0x31, 0x20, 0x20],
      a0_vendor_rev = [0x56, 0x31, 0x2e, 0x30], a0_wavelength = 0x051E, a0_unallocated_62 = 0x00,
      a0_cc_base = 0x05, a0_options = 0x001A, a0_br_max = 0x14, a0_br_min = 0x14,
      a0_vendor_sn = [0x53, 0x4e, 0x30, 0x30, 0x30, 0x30, 0x30, 0x30, 0x30, 0x30, 0x30, 0x30, 0x30, 0x30, 0x30, 0x31],
      a0_date_year = [0x30, 0x30], a0_date_month = [0x30, 0x31], a0_date_day = [0x30, 0x31],
      a0_date_lot = [0x20, 0x20], a0_diag_monitoring_type = 0x68, a0_enhanced_options = 0xF0,
      a0_sff8472_compliance = 0x02, a0_cc_ext = 0x40, a0_vendor_specific = replicate 32 0x20,
      a0_reserved_8079 = replicate 128 0\<rparr>"

definition GENERIC_SFP_A2 :: sfp_a2 where
  "GENERIC_SFP_A2 =
     \<lparr>a2_temp_high_alarm = 0x4B00, a2_temp_low_alarm = - 0x0A00, a2_temp_high_warning = 0x4600,
      a2_temp_low_warning = - 0x0500, a2_vcc_high_alarm = 0x8CA0, a2_vcc_low_alarm = 0x7530,
      a2_vcc_high_warning = 0x88B8, a2_vcc_low_warning = 0x7918, a2_tx_bias_high_alarm = 0xC350,
      a2_tx_bias_low_alarm = 0x0000, a2_tx_bias_high_warning = 0x9C40, a2_tx_bias_low_warning = 0x0000,
      a2_tx_power_high_alarm = 0xB360, a2_tx_power_low_alarm = 0x22FA, a2_tx_power_high_warning = 0x8E7B,
      a2_tx_power_low_warning = 0x2D0F, a2_rx_power_high_alarm = 0x04EB, a2_rx_power_low_alarm = 0x000B,
      a2_rx_power_high_warning = 0x03E8, a2_rx_power_low_warning = 0x000E,
      a2_opt_laser_temp_high_alarm = 0, a2_opt_laser_temp_low_alarm = 0,
      a2_opt_laser_temp_high_warning = 0, a2_opt_laser_temp_low_warning = 0,
      a2_opt_tec_current_high_alarm = 0, a2_opt_tec_current_low_alarm = 0,
      a2_opt_tec_current_high_warning = 0, a2_opt_tec_current_low_warning = 0,
      a2_rx_pwr_4 = [0x00, 0x00, 0x00, 0x00], a2_rx_pwr_3 = [0x00, 0x00, 0x00, 0x00],
      a2_rx_pwr_2 = [0x00, 0x00, 0x00, 0x00], a2_rx_pwr_1 = [0x3F, 0x80, 0x00, 0x00],
      a2_rx_pwr_0 = [0x00, 0x00, 0x00, 0x00], a2_tx_i_slope = 0x0100, a2_tx_i_offset = 0x0000,
      a2_tx_pwr_slope = 0x0100, a2_tx_pwr_offset = 0x0000, a2_t_slope = 0x0100, a2_t_offset = 0x0000,
      a2_v_slope = 0x0100, a2_v_offset = 0x0000, a2_unallocated_92_94 = [0x00, 0x00, 0x00],
      a2_cc_dmi = 0x3D, a2_temperature = 0x2A71, a2_vcc = 0x7FAB, a2_tx_bias = 0x0001,
      a2_tx_power = 0x0001, a2_rx_power = 0x0001, a2_opt_laser_temp_wavelength = 0xFFFF,
      a2_opt_tec_current = - 1, a2_status_control = 0x02, a2_reserved_111 = 0x00,
      a2_alarm_flags = 0x0140, a2_tx_input_eq = 0x00, a2_rx_output_emphasis = 0x04,
      a2_warning_flags = 0x0140, a2_ext_status_control = 0x0000,
      a2_vendor_specific = [0x00, 0x00, 0x00, 0xFF, 0xFF, 0xFF, 0xFF], a2_page_select = 0x00,
      a2_user_eeprom = replicate 120 0, a2_vendor_control = replicate 8 0xFF\<rparr>"

definition SFP_A0 :: "u8 list" where "SFP_A0 = a0_to_bytes GENERIC_SFP_A0"
definition SFP_A2 :: "u8 list" where "SFP_A2 = a2_to_bytes GENERIC_SFP_A2"

definition snapshot_read_word :: "u8 \<Rightarrow> u16 \<Rightarrow> u32" where
  "snapshot_read_word device byte_offset =
     (let page = (if device = 1 then SFP_A2 else SFP_A0); off = unat byte_offset mod 256;
          b = (\<lambda>i. ucast (page ! ((off + i) mod 256)) :: u32)
      in push_bit 24 (b 3) OR push_bit 16 (b 2) OR push_bit 8 (b 1) OR b 0)"

section \<open>The module behind the bus\<close>

record ddm_live =
  dd_temperature_c256 :: i16
  dd_vcc_100uv :: u16
  dd_tx_bias_2ua :: u16
  dd_tx_power_01uw :: u16
  dd_rx_power_01uw :: u16
  dd_laser_temp_wavelength :: u16
  dd_tec_current :: i16

definition ddm_snapshot_default :: ddm_live where
  "ddm_snapshot_default =
     \<lparr>dd_temperature_c256 = 0x2A71, dd_vcc_100uv = 0x7FAB, dd_tx_bias_2ua = 0x0001, dd_tx_power_01uw = 0x0001,
      dd_rx_power_01uw = 0x0001, dd_laser_temp_wavelength = 0xFFFF, dd_tec_current = - 1\<rparr>"

record sfp_eeprom =
  sf_a0_bytes :: "u8 list"
  sf_a2_bytes :: "u8 list"
  sf_ddm :: ddm_live

definition sfp_new_default :: sfp_eeprom where
  "sfp_new_default = \<lparr>sf_a0_bytes = SFP_A0, sf_a2_bytes = SFP_A2, sf_ddm = ddm_snapshot_default\<rparr>"

definition sfp_reset_to_snapshot :: "sfp_eeprom \<Rightarrow> sfp_eeprom" where
  "sfp_reset_to_snapshot s =
     s\<lparr>sf_a0_bytes := SFP_A0, sf_a2_bytes := SFP_A2, sf_ddm := ddm_snapshot_default\<rparr>"

definition read_a2_byte :: "nat \<Rightarrow> sfp_eeprom \<Rightarrow> u8" where
  "read_a2_byte off s =
     (let d = sf_ddm s
      in if off = 96 then ucast (drop_bit 8 (dd_temperature_c256 d))
         else if off = 97 then ucast (dd_temperature_c256 d AND 0xFF)
         else if off = 98 then ucast (drop_bit 8 (dd_vcc_100uv d))
         else if off = 99 then ucast (dd_vcc_100uv d AND 0xFF)
         else if off = 100 then ucast (drop_bit 8 (dd_tx_bias_2ua d))
         else if off = 101 then ucast (dd_tx_bias_2ua d AND 0xFF)
         else if off = 102 then ucast (drop_bit 8 (dd_tx_power_01uw d))
         else if off = 103 then ucast (dd_tx_power_01uw d AND 0xFF)
         else if off = 104 then ucast (drop_bit 8 (dd_rx_power_01uw d))
         else if off = 105 then ucast (dd_rx_power_01uw d AND 0xFF)
         else if off = 106 then ucast (drop_bit 8 (dd_laser_temp_wavelength d))
         else if off = 107 then ucast (dd_laser_temp_wavelength d AND 0xFF)
         else if off = 108 then ucast (drop_bit 8 (dd_tec_current d))
         else if off = 109 then ucast (dd_tec_current d AND 0xFF)
         else sf_a2_bytes s ! off)"

definition sfp_read_byte :: "u8 \<Rightarrow> u16 \<Rightarrow> sfp_eeprom \<Rightarrow> u8" where
  "sfp_read_byte device offset s =
     (let off = unat offset mod 256 in if device = 1 then read_a2_byte off s else sf_a0_bytes s ! off)"

definition sfp_read_word :: "u8 \<Rightarrow> u16 \<Rightarrow> sfp_eeprom \<Rightarrow> u32" where
  "sfp_read_word device offset s =
     (let b = (\<lambda>i. ucast (sfp_read_byte device (offset + i) s) :: u32)
      in push_bit 24 (b 3) OR push_bit 16 (b 2) OR push_bit 8 (b 1) OR b 0)"

definition set_vendor_name :: "u8 list \<Rightarrow> sfp_eeprom \<Rightarrow> sfp_eeprom" where
  "set_vendor_name name s = s\<lparr>sf_a0_bytes := splice 20 name (sf_a0_bytes s)\<rparr>"

definition set_serial_number :: "u8 list \<Rightarrow> sfp_eeprom \<Rightarrow> sfp_eeprom" where
  "set_serial_number sn s = s\<lparr>sf_a0_bytes := splice 68 sn (sf_a0_bytes s)\<rparr>"

definition set_part_number :: "u8 list \<Rightarrow> sfp_eeprom \<Rightarrow> sfp_eeprom" where
  "set_part_number pn s = s\<lparr>sf_a0_bytes := splice 40 pn (sf_a0_bytes s)\<rparr>"

text \<open>\<open>None\<close>: a dump of another length is refused\<close>

definition load_pages :: "u8 list \<Rightarrow> sfp_eeprom \<Rightarrow> sfp_eeprom option" where
  "load_pages bytes s =
     (if length bytes = 256 then Some (s\<lparr>sf_a0_bytes := bytes\<rparr>)
      else if length bytes = 512 then Some (s\<lparr>sf_a0_bytes := take 256 bytes, sf_a2_bytes := drop 256 bytes\<rparr>)
      else None)"

section \<open>The pages\<close>

text \<open>The sum of the bytes from \<open>a\<close> up to \<open>b\<close>, as the checksums of the module count them\<close>

definition byte_sum :: "nat \<Rightarrow> nat \<Rightarrow> u8 list \<Rightarrow> u8" where
  "byte_sum a b xs = sum_list (map (\<lambda>i. xs ! i) [a..<b])"

lemma default_pages: "length SFP_A0 = 256" "length SFP_A2 = 256"
  by (simp_all add: SFP_A0_def SFP_A2_def a0_to_bytes_def a2_to_bytes_def GENERIC_SFP_A0_def GENERIC_SFP_A2_def be16_def)

lemma default_checksums:
  "byte_sum 0 63 SFP_A0 = SFP_A0 ! 63" "byte_sum 64 95 SFP_A0 = SFP_A0 ! 95" "byte_sum 0 95 SFP_A2 = SFP_A2 ! 95"
  by code_simp+

end
