(* ===== verification/Dev_Bsc.thy ===== *)
theory Dev_Bsc
  imports Dev_Lane Dev_Sfp
begin

text \<open>
  \<open>src/soc/bsc_i2c.rs\<close>: the serial controller that reads the optical module over lane 0, and lanes 1 and 2, whose
  words share its addresses.
\<close>

unbundle bit_operations_syntax

abbreviation LANE0_BASE :: u32 where "LANE0_BASE \<equiv> 0x010000F8"
abbreviation LANE1_BASE :: u32 where "LANE1_BASE \<equiv> 0x010000FC"
abbreviation LANE2_BASE :: u32 where "LANE2_BASE \<equiv> 0x01000100"
abbreviation BSC_BASE :: u32 where "BSC_BASE \<equiv> 0x01000140"
abbreviation BSC_END :: u32 where "BSC_END \<equiv> 0x01000158"
abbreviation LANE1_CMD :: u32 where "LANE1_CMD \<equiv> 0x01000144"
abbreviation LANE2_CMD :: u32 where "LANE2_CMD \<equiv> 0x01000148"
abbreviation LANE1_DATA :: u32 where "LANE1_DATA \<equiv> 0x01000150"
abbreviation LANE2_DATA :: u32 where "LANE2_DATA \<equiv> 0x01000154"
abbreviation BSC_BUSY_TICKS :: u8 where "BSC_BUSY_TICKS \<equiv> 2"

datatype protocol_state = Pr_Idle | Pr_SubAddrLatched | Pr_Armed

record bsc_i2c =
  bs_sfp :: sfp_eeprom
  bs_bus :: lane_bus
  bs_lane1 :: lane_bus
  bs_lane2 :: lane_bus
  bs_last_cmd_lane :: u8
  bs_protocol :: protocol_state
  bs_pending_sub_addr :: u16
  bs_sub_addr :: u16
  bs_eeprom_ptr :: u16
  bs_byte_count :: u16
  bs_bytes_read :: u16
  bs_last_device :: u8
  bs_pending_read_word :: u32
  bs_force_nack :: bool

definition bsc_new :: bsc_i2c where
  "bsc_new =
     \<lparr>bs_sfp = sfp_new_default, bs_bus = bus_new LANE0_BASE BSC_BUSY_TICKS, bs_lane1 = bus_new LANE1_BASE 0,
      bs_lane2 = bus_new LANE2_BASE 0, bs_last_cmd_lane = 0, bs_protocol = Pr_Idle, bs_pending_sub_addr = 0,
      bs_sub_addr = 0, bs_eeprom_ptr = 0, bs_byte_count = 0, bs_bytes_read = 0, bs_last_device = 0,
      bs_pending_read_word = 0, bs_force_nack = False\<rparr>"

definition bsc_claims :: "u32 \<Rightarrow> bool" where
  "bsc_claims addr \<longleftrightarrow> BSC_BASE \<le> addr \<and> addr < BSC_END"

abbreviation on_bus :: "(lane_bus \<Rightarrow> lane_bus) \<Rightarrow> bsc_i2c \<Rightarrow> bsc_i2c" where
  "on_bus f s \<equiv> s\<lparr>bs_bus := f (bs_bus s)\<rparr>"

text \<open>The next word of the burst\<close>

definition read_next_word :: "bsc_i2c \<Rightarrow> bsc_i2c" where
  "read_next_word s =
     (let word = (if bs_force_nack s then 0xFFFFFFFF else sfp_read_word (bs_last_device s) (bs_eeprom_ptr s) (bs_sfp s));
          n = bs_bytes_read s + 4
      in s\<lparr>bs_pending_read_word := word, bs_force_nack := False, bs_eeprom_ptr := bs_eeprom_ptr s + 4,
           bs_bytes_read := n, bs_protocol := (if n \<ge> bs_byte_count s then Pr_Idle else bs_protocol s)\<rparr>)"

definition issue_command :: "u32 \<Rightarrow> bsc_i2c \<Rightarrow> bsc_i2c" where
  "issue_command val s0 =
     (let s = s0\<lparr>bs_last_device := ucast (val AND 0x1)\<rparr>; cmd_hi = drop_bit 27 val AND 0x1F;
          s1 = (if cmd_hi AND 2 \<noteq> 0 then
                  on_bus go_busy (s\<lparr>bs_sub_addr := bs_pending_sub_addr s, bs_protocol := Pr_SubAddrLatched\<rparr>)
                else if cmd_hi AND 1 \<noteq> 0 then
                  on_bus go_busy
                    (if bs_protocol s = Pr_Armed \<and> bs_bytes_read s < bs_byte_count s then read_next_word s else s)
                else s)
      in on_bus clear_cmd_bits_now s1)"

definition bsc_peek_word :: "u32 \<Rightarrow> bsc_i2c \<Rightarrow> u32" where
  "bsc_peek_word addr s =
     (if addr = lb_cmd_addr (bs_bus s) then lb_cmd (bs_bus s)
      else if addr = lb_data_addr (bs_bus s) then bs_pending_read_word s
      else if addr = LANE1_CMD then lb_cmd (bs_lane1 s)
      else if addr = LANE2_CMD then lb_cmd (bs_lane2 s)
      else if addr = LANE1_DATA then
        (if bs_last_cmd_lane s = 1 then bus_read_data (bs_lane1 s) else bus_read_stat (bs_bus s))
      else if addr = LANE2_DATA then (if bs_last_cmd_lane s = 2 then bus_read_data (bs_lane2 s) else 0)
      else 0)"

definition bsc_read_word :: "u32 \<Rightarrow> bsc_i2c \<Rightarrow> u32 \<times> bsc_i2c" where
  "bsc_read_word addr s =
     (if addr = lb_cmd_addr (bs_bus s) then
        (case bus_read_cmd (bs_bus s) of (v, b) \<Rightarrow> (v, s\<lparr>bs_last_cmd_lane := 0, bs_bus := b\<rparr>))
      else if addr = lb_data_addr (bs_bus s) then
        (bs_pending_read_word s, if bus_is_done (bs_bus s) then on_bus set_idle s else s)
      else if addr = LANE1_CMD then (case bus_read_cmd (bs_lane1 s) of (v, b) \<Rightarrow> (v, s\<lparr>bs_lane1 := b\<rparr>))
      else if addr = LANE2_CMD then (case bus_read_cmd (bs_lane2 s) of (v, b) \<Rightarrow> (v, s\<lparr>bs_lane2 := b\<rparr>))
      else if addr = LANE1_DATA then
        (if bs_last_cmd_lane s = 1 then bus_read_data (bs_lane1 s) else bus_read_stat (bs_bus s), s)
      else if addr = LANE2_DATA then (if bs_last_cmd_lane s = 2 then bus_read_data (bs_lane2 s) else 0, s)
      else (0, s))"

text \<open>A write to the status word of lane 0: a length arms the burst\<close>

definition arm_burst :: "u32 \<Rightarrow> bsc_i2c \<Rightarrow> bsc_i2c" where
  "arm_burst val s0 =
     (let s = on_bus (bus_write_stat val) s0
      in if val AND 0x00400000 \<noteq> 0 \<and> bs_protocol s = Pr_SubAddrLatched then
           let bc = ucast (drop_bit 3 val AND 0x7FF)
           in if bc > 0 then
                on_bus go_busy (s\<lparr>bs_byte_count := bc, bs_eeprom_ptr := bs_sub_addr s, bs_bytes_read := 0, bs_protocol := Pr_Armed\<rparr>)
              else s
         else s)"

definition bsc_write_word :: "u32 \<Rightarrow> u32 \<Rightarrow> bsc_i2c \<Rightarrow> bsc_i2c" where
  "bsc_write_word addr val s =
     (if addr = LANE1_CMD then
        s\<lparr>bs_last_cmd_lane := 1, bs_lane1 := clear_cmd_bits_now (bus_write_cmd val (bs_lane1 s))\<rparr>
      else if addr = LANE2_CMD then
        s\<lparr>bs_last_cmd_lane := 2, bs_lane2 := clear_cmd_bits_now (bus_write_cmd val (bs_lane2 s))\<rparr>
      else if addr = LANE1_DATA then
        (if bs_last_cmd_lane s = 1 then s\<lparr>bs_lane1 := bus_write_data val (bs_lane1 s)\<rparr> else arm_burst val s)
      else if addr = LANE2_DATA then
        (if bs_last_cmd_lane s = 2 then s\<lparr>bs_lane2 := bus_write_data val (bs_lane2 s)\<rparr> else s)
      else if addr = lb_cmd_addr (bs_bus s) then
        issue_command val (on_bus (bus_write_cmd val) (s\<lparr>bs_last_cmd_lane := 0\<rparr>))
      else if addr = lb_data_addr (bs_bus s) then
        (on_bus (bus_write_data val) s)\<lparr>bs_pending_sub_addr := ucast (val AND 0xFFFF)\<rparr>
      else s)"

definition bsc_tick :: "bsc_i2c \<Rightarrow> bsc_i2c" where
  "bsc_tick s =
     s\<lparr>bs_bus := bus_tick (bs_bus s), bs_lane1 := bus_tick (bs_lane1 s), bs_lane2 := bus_tick (bs_lane2 s)\<rparr>"

definition bsc_reset_cold :: "bsc_i2c \<Rightarrow> bsc_i2c" where
  "bsc_reset_cold s =
     s\<lparr>bs_bus := apply_init SYSREG_INIT_VALUES (bus_reset (bs_bus s)), bs_lane1 := bus_reset (bs_lane1 s),
       bs_lane2 := bus_reset (bs_lane2 s), bs_last_cmd_lane := 0, bs_protocol := Pr_Idle, bs_pending_sub_addr := 0,
       bs_sub_addr := 0, bs_eeprom_ptr := 0, bs_byte_count := 0, bs_bytes_read := 0, bs_last_device := 0,
       bs_pending_read_word := 0, bs_force_nack := False, bs_sfp := sfp_reset_to_snapshot (bs_sfp s)\<rparr>"

section \<open>Events\<close>

datatype bsc_event = ForceNack | Reset

primrec bsc_inject_event :: "bsc_event \<Rightarrow> bsc_i2c \<Rightarrow> bsc_i2c" where
  "bsc_inject_event ForceNack s = s\<lparr>bs_force_nack := True\<rparr>"
| "bsc_inject_event Reset s = on_bus set_idle s"

datatype sfp_event =
  SetTemperatureC256 i16 | SetVccUv u32 | SetTxBiasUa u32 | SetTxPowerUw u32 | SetRxPowerUw u32
| SetVendorName "u8 list" | SetSerialNumber "u8 list" | SetPartNumber "u8 list"

abbreviation at_most_ffff :: "u32 \<Rightarrow> u16" where
  "at_most_ffff v \<equiv> ucast (min v 0xFFFF)"

primrec sfp_inject_event :: "sfp_event \<Rightarrow> sfp_eeprom \<Rightarrow> sfp_eeprom" where
  "sfp_inject_event (SetTemperatureC256 v) s = s\<lparr>sf_ddm := (sf_ddm s)\<lparr>dd_temperature_c256 := v\<rparr>\<rparr>"
| "sfp_inject_event (SetVccUv uv) s = s\<lparr>sf_ddm := (sf_ddm s)\<lparr>dd_vcc_100uv := at_most_ffff (uv div 100)\<rparr>\<rparr>"
| "sfp_inject_event (SetTxBiasUa ua) s = s\<lparr>sf_ddm := (sf_ddm s)\<lparr>dd_tx_bias_2ua := at_most_ffff (ua div 2)\<rparr>\<rparr>"
| "sfp_inject_event (SetTxPowerUw uw) s = s\<lparr>sf_ddm := (sf_ddm s)\<lparr>dd_tx_power_01uw := at_most_ffff (uw * 10)\<rparr>\<rparr>"
| "sfp_inject_event (SetRxPowerUw uw) s = s\<lparr>sf_ddm := (sf_ddm s)\<lparr>dd_rx_power_01uw := at_most_ffff (uw * 10)\<rparr>\<rparr>"
| "sfp_inject_event (SetVendorName n) s = set_vendor_name n s"
| "sfp_inject_event (SetSerialNumber n) s = set_serial_number n s"
| "sfp_inject_event (SetPartNumber n) s = set_part_number n s"

section \<open>A burst of reads\<close>

definition bsc_ok :: "bsc_i2c \<Rightarrow> bool" where
  "bsc_ok s \<longleftrightarrow> lb_cmd_addr (bs_bus s) = 0x01000140 \<and> lb_data_addr (bs_bus s) = 0x0100014C"

text \<open>What the program does: latch the address in the module, arm a length, then for each word a read command, a wait and a read of
  the data word\<close>

definition start_burst :: "u16 \<Rightarrow> nat \<Rightarrow> u32 \<Rightarrow> nat \<Rightarrow> bsc_i2c \<Rightarrow> bsc_i2c" where
  "start_burst sub n slave wait s =
     bsc_write_word 0x01000150 (0x00400001 OR push_bit 3 (of_nat n))
       (bsc_write_word 0x01000140 (0x04000000 OR (slave AND 0x7F))
         (bsc_write_word 0x01000150 0x0B
           ((bsc_tick ^^ wait)
             (bsc_write_word 0x01000140 (0x10000000 OR (slave AND 0x7F)) (bsc_write_word 0x0100014C (ucast sub) s)))))"

definition fetch_word :: "u32 \<Rightarrow> nat \<Rightarrow> bsc_i2c \<Rightarrow> u32 \<times> bsc_i2c" where
  "fetch_word cmd wait s = bsc_read_word 0x0100014C ((bsc_tick ^^ wait) (bsc_write_word 0x01000140 cmd s))"

fun fetch_words :: "(u32 \<times> nat) list \<Rightarrow> bsc_i2c \<Rightarrow> u32 list \<times> bsc_i2c" where
  "fetch_words [] s = ([], s)"
| "fetch_words (c # cs) s =
     (case fetch_word (fst c) (snd c) s of (v, s1) \<Rightarrow> (case fetch_words cs s1 of (vs, s2) \<Rightarrow> (v # vs, s2)))"

text \<open>A read command: bit 27 set, the four above it clear\<close>

definition is_read_command :: "u32 \<Rightarrow> bool" where
  "is_read_command cmd \<longleftrightarrow> drop_bit 27 cmd AND 0x1F = 1"

text \<open>The transfer in progress, the words of the bus aside\<close>

record transfer =
  tr_protocol :: protocol_state
  tr_ptr :: u16
  tr_count :: u16
  tr_read :: u16
  tr_word :: u32
  tr_nack :: bool
  tr_sfp :: sfp_eeprom

definition transfer_of :: "bsc_i2c \<Rightarrow> transfer" where
  "transfer_of s =
     \<lparr>tr_protocol = bs_protocol s, tr_ptr = bs_eeprom_ptr s, tr_count = bs_byte_count s, tr_read = bs_bytes_read s,
      tr_word = bs_pending_read_word s, tr_nack = bs_force_nack s, tr_sfp = bs_sfp s\<rparr>"

lemma bus_addresses [simp]:
  "lb_cmd_addr (go_busy b) = lb_cmd_addr b" "lb_data_addr (go_busy b) = lb_data_addr b"
  "lb_cmd_addr (clear_cmd_bits_now b) = lb_cmd_addr b" "lb_data_addr (clear_cmd_bits_now b) = lb_data_addr b"
  "lb_cmd_addr (bus_write_cmd v b) = lb_cmd_addr b" "lb_data_addr (bus_write_cmd v b) = lb_data_addr b"
  "lb_cmd_addr (bus_write_data v b) = lb_cmd_addr b" "lb_data_addr (bus_write_data v b) = lb_data_addr b"
  "lb_cmd_addr (bus_write_stat v b) = lb_cmd_addr b" "lb_data_addr (bus_write_stat v b) = lb_data_addr b"
  "lb_cmd_addr (bus_tick b) = lb_cmd_addr b" "lb_data_addr (bus_tick b) = lb_data_addr b"
  "lb_cmd_addr (set_idle b) = lb_cmd_addr b" "lb_data_addr (set_idle b) = lb_data_addr b"
  by (simp_all add: go_busy_def clear_cmd_bits_now_def bus_write_cmd_def execute_indirect_def bus_write_data_def
      bus_write_stat_def bus_tick_def set_idle_def Let_def)

lemma ticks_kept:
  "transfer_of ((bsc_tick ^^ n) s) = transfer_of s" "bsc_ok ((bsc_tick ^^ n) s) = bsc_ok s"
  "bs_last_cmd_lane ((bsc_tick ^^ n) s) = bs_last_cmd_lane s" "bs_sub_addr ((bsc_tick ^^ n) s) = bs_sub_addr s"
  by (induction n) (simp_all add: bsc_tick_def transfer_of_def bsc_ok_def)

lemma write_command: "bsc_ok s \<Longrightarrow> bsc_write_word 0x01000140 val s
    = issue_command val (on_bus (bus_write_cmd val) (s\<lparr>bs_last_cmd_lane := 0\<rparr>))"
  by (simp add: bsc_write_word_def bsc_ok_def)

lemma read_data_word:
  "bsc_ok s \<Longrightarrow> fst (bsc_read_word 0x0100014C s) = tr_word (transfer_of s)
     \<and> transfer_of (snd (bsc_read_word 0x0100014C s)) = transfer_of s \<and> bsc_ok (snd (bsc_read_word 0x0100014C s))"
  by (simp add: bsc_read_word_def bsc_ok_def transfer_of_def)

lemma fetch_word_step:
  fixes wait :: nat
  assumes "bsc_ok s" and "is_read_command cmd" and "\<not> tr_nack (transfer_of s)"
  defines "t \<equiv> transfer_of s" and "r \<equiv> fetch_word cmd wait s"
  defines "w \<equiv> sfp_read_word (ucast (cmd AND 1)) (tr_ptr t) (tr_sfp t)"
  shows "bsc_ok (snd r)" and "fst r = tr_word (transfer_of (snd r))"
    and "transfer_of (snd r) = (if tr_protocol t = Pr_Armed \<and> tr_read t < tr_count t
      then t\<lparr>tr_word := w, tr_ptr := tr_ptr t + 4, tr_read := tr_read t + 4,
             tr_protocol := (if tr_read t + 4 \<ge> tr_count t then Pr_Idle else Pr_Armed)\<rparr> else t)"
proof -
  let ?s = "bsc_write_word 0x01000140 cmd s"
  have ok: "bsc_ok ?s"
    using assms(1) by (simp add: write_command issue_command_def read_next_word_def bsc_ok_def Let_def)
  have "transfer_of ?s = (if tr_protocol t = Pr_Armed \<and> tr_read t < tr_count t
      then t\<lparr>tr_word := w, tr_ptr := tr_ptr t + 4, tr_read := tr_read t + 4,
             tr_protocol := (if tr_read t + 4 \<ge> tr_count t then Pr_Idle else Pr_Armed)\<rparr> else t)"
    using assms(2,3) unfolding is_read_command_def write_command [OF assms(1)] issue_command_def Let_def
    by (simp add: read_next_word_def transfer_of_def t_def w_def Let_def)
  then show "bsc_ok (snd r)" "fst r = tr_word (transfer_of (snd r))"
    "transfer_of (snd r) = (if tr_protocol t = Pr_Armed \<and> tr_read t < tr_count t
      then t\<lparr>tr_word := w, tr_ptr := tr_ptr t + 4, tr_read := tr_read t + 4,
             tr_protocol := (if tr_read t + 4 \<ge> tr_count t then Pr_Idle else Pr_Armed)\<rparr> else t)"
    using read_data_word [of "(bsc_tick ^^ wait) ?s"] ok by (simp_all add: r_def fetch_word_def ticks_kept)
qed

text \<open>After the last word of the burst the data word stays as it is.\<close>

lemma fetch_words_stale:
  assumes "bsc_ok s" and "\<not> tr_nack (transfer_of s)" and "tr_protocol (transfer_of s) = Pr_Idle"
    and "\<forall>c \<in> set cs. is_read_command (fst c)"
  shows "fst (fetch_words cs s) = replicate (length cs) (tr_word (transfer_of s))"
  using assms
proof (induction cs arbitrary: s)
  case (Cons c cs)
  have c: "is_read_command (fst c)" using Cons(5) by simp
  note step = fetch_word_step [OF Cons(2) c Cons(3), where wait = "snd c"]
  have same: "transfer_of (snd (fetch_word (fst c) (snd c) s)) = transfer_of s" using step(3) Cons(4) by simp
  have "fst (fetch_words cs (snd (fetch_word (fst c) (snd c) s))) = replicate (length cs) (tr_word (transfer_of s))"
    using Cons(1) [OF step(1)] Cons(3-5) same by simp
  then show ?case using step(2) same by (simp add: split_beta)
qed simp

lemma short_order:
  fixes a b :: nat
  assumes "a < 65536" and "b < 65536"
  shows "(of_nat a :: u16) < of_nat b \<longleftrightarrow> a < b" and "(of_nat a :: u16) \<le> of_nat b \<longleftrightarrow> a \<le> b"
  using assms by (simp_all add: word_less_nat_alt word_le_nat_alt unat_of_nat)

lemma burst_in_progress:
  fixes n k :: nat and sub :: u16
  assumes "bsc_ok s" and "\<not> tr_nack (transfer_of s)" and "\<forall>c \<in> set cs. is_read_command (fst c)"
    and "tr_protocol (transfer_of s) = Pr_Armed" and "tr_count (transfer_of s) = of_nat n" and "n < 2048"
    and "tr_read (transfer_of s) = of_nat (4 * k)" and "4 * k < n"
    and "tr_ptr (transfer_of s) = sub + of_nat (4 * k)" and "tr_sfp (transfer_of s) = sfp" and "j < length cs"
  shows "fst (fetch_words cs s) ! j
    = (let i = min j ((n - 1) div 4 - k) in sfp_read_word (ucast (fst (cs ! i) AND 1)) (sub + of_nat (4 * (k + i))) sfp)"
  using assms
proof (induction cs arbitrary: s k j)
  case (Cons c cs)
  have c: "is_read_command (fst c)" using Cons(4) by simp
  let ?s = "snd (fetch_word (fst c) (snd c) s)" and ?t = "transfer_of s"
  let ?w = "sfp_read_word (ucast (fst c AND 1)) (sub + of_nat (4 * k)) sfp"
  note step = fetch_word_step [OF Cons(2) c Cons(3), where wait = "snd c"]
  have less: "tr_read ?t < tr_count ?t"
    unfolding Cons(6) Cons(8) by (subst short_order(1)) (use Cons(7,9) in simp_all)
  have four: "tr_read ?t + 4 = of_nat (4 * (k + 1))" "tr_ptr ?t + 4 = sub + of_nat (4 * (k + 1))" using Cons(8,10) by simp_all
  have last: "tr_count ?t \<le> tr_read ?t + 4 \<longleftrightarrow> n \<le> 4 * (k + 1)"
    unfolding four(1) Cons(6) by (subst short_order(2)) (use Cons(7,9) in simp_all)
  have next': "transfer_of ?s = ?t\<lparr>tr_word := ?w, tr_ptr := sub + of_nat (4 * (k + 1)), tr_read := of_nat (4 * (k + 1)),
      tr_protocol := (if n \<le> 4 * (k + 1) then Pr_Idle else Pr_Armed)\<rparr>"
    using step(3) by (simp only: Cons(5) less simp_thms if_True four last [unfolded four(1)]) (simp only: Cons(10,11))
  have run: "fst (fetch_words (c # cs) s) = ?w # fst (fetch_words cs ?s)"
    using step(2) next' by (simp add: split_beta)
  show ?case
  proof (cases j)
    case 0
    then show ?thesis unfolding run by simp
  next
    case (Suc j')
    show ?thesis
    proof (cases "n \<le> 4 * (k + 1)")
      case True
      then have "(n - 1) div 4 - k = 0" by simp
      moreover have "fst (fetch_words cs ?s) = replicate (length cs) ?w"
        using fetch_words_stale [OF step(1)] next' True Cons(3,4) by simp
      ultimately show ?thesis using Suc Cons(12) unfolding run by simp
    next
      case False
      then have "(n - 1) div 4 - k = Suc ((n - 1) div 4 - (k + 1))" by simp
      moreover have "fst (fetch_words cs ?s) ! j' = (let i = min j' ((n - 1) div 4 - (k + 1))
          in sfp_read_word (ucast (fst (cs ! i) AND 1)) (sub + of_nat (4 * (k + 1 + i))) sfp)"
        using next' False Suc Cons(3-12) by (intro Cons(1) step(1)) simp_all
      ultimately show ?thesis unfolding run Suc by (simp add: Let_def add.left_commute)
    qed
  qed
qed simp

text \<open>The length word\<close>

lemma burst_length_word:
  fixes n :: nat
  assumes "n < 2048"
  shows "(0x00400001 OR push_bit 3 (of_nat n) :: u32) AND 0x00400000 \<noteq> 0"
    and "ucast (drop_bit 3 (0x00400001 OR push_bit 3 (of_nat n) :: u32) AND 0x7FF) = (of_nat n :: u16)"
proof -
  let ?n = "of_nat n :: u32"
  show "(0x00400001 OR push_bit 3 ?n) AND 0x00400000 \<noteq> 0" by (simp add: bit.conj_disj_distrib2)
  have "drop_bit 3 (push_bit 3 ?n) = ?n"
    using assms unfolding word_unat_eq_iff by (simp add: unat_drop_bit_eq unat_word_ariths unat_of_nat drop_bit_eq_div push_bit_eq_mult)
  moreover have "?n AND 0x7FF = ?n"
  proof -
    have "take_bit 11 n = n" using assms by (simp add: take_bit_nat_eq_self_iff)
    then have "take_bit 11 ?n = ?n" by (simp only: take_bit_of_nat)
    then show ?thesis by (simp add: take_bit_eq_mask mask_eq_exp_minus_1)
  qed
  ultimately have "drop_bit 3 (0x00400001 OR push_bit 3 ?n) AND 0x7FF = ?n" by (simp add: bit.conj_disj_distrib2)
  then show "ucast (drop_bit 3 (0x00400001 OR push_bit 3 ?n) AND 0x7FF) = (of_nat n :: u16)"
    using assms by (simp add: unsigned_of_nat take_bit_nat_eq_self)
qed

lemma short_through_word: "ucast (ucast (sub :: u16) AND 0xFFFF :: u32) = sub"
proof -
  have mask16: "(0xFFFF :: u32) = mask 16" by (simp add: mask_eq_exp_minus_1)
  show ?thesis unfolding mask16 by (rule bit_word_eqI) (simp add: bit_simps)
qed

lemma burst_started:
  fixes n wait :: nat and sub :: u16 and slave :: u32
  assumes "bsc_ok s" and "0 < n" and "n < 2048"
  defines "t \<equiv> transfer_of (start_burst sub n slave wait s)"
  shows "bsc_ok (start_burst sub n slave wait s)" and "tr_protocol t = Pr_Armed" and "tr_count t = of_nat n"
    and "tr_read t = 0" and "tr_ptr t = sub" and "tr_sfp t = bs_sfp s" and "tr_nack t = bs_force_nack s"
proof -
  let ?l = "bsc_write_word 0x01000140 (0x10000000 OR (slave AND 0x7F)) (bsc_write_word 0x0100014C (ucast sub) s)"
  let ?a = "(bsc_tick ^^ wait) ?l" and ?v = "0x04000000 OR (slave AND 0x7F)"
  let ?b = "bsc_write_word 0x01000150 0x0B ?a"
  let ?c = "bsc_write_word 0x01000140 ?v ?b"
  have "bsc_ok ?l" "bs_sub_addr ?l = sub" "transfer_of ?l = (transfer_of s)\<lparr>tr_protocol := Pr_SubAddrLatched\<rparr>"
    "bs_last_cmd_lane ?l = 0"
    using assms(1)
    by (simp_all add: bsc_write_word_def issue_command_def bsc_ok_def transfer_of_def Let_def short_through_word)
  then have a: "bsc_ok ?a" "bs_sub_addr ?a = sub" "transfer_of ?a = (transfer_of s)\<lparr>tr_protocol := Pr_SubAddrLatched\<rparr>"
    "bs_last_cmd_lane ?a = 0"
    by (simp_all only: ticks_kept)
  have b: "bsc_ok ?b" "bs_sub_addr ?b = sub" "transfer_of ?b = transfer_of ?a" "bs_last_cmd_lane ?b = 0"
    using a(1,2,4) by (simp_all add: bsc_write_word_def arm_burst_def bsc_ok_def transfer_of_def Let_def)
  have c: "bsc_ok ?c" "bs_sub_addr ?c = sub" "transfer_of ?c = transfer_of ?b" "bs_last_cmd_lane ?c = 0"
    using b(1,2) by (simp_all add: write_command issue_command_def bsc_ok_def transfer_of_def Let_def)
  have pos: "(0 :: u16) < of_nat n" using assms(2,3) short_order(1) [of 0 n] by simp
  have latched: "bs_protocol ?c = Pr_SubAddrLatched" using c(3) b(3) a(3) by (simp add: transfer_of_def)
  have end': "start_burst sub n slave wait s = on_bus go_busy ((on_bus (bus_write_stat (0x00400001 OR push_bit 3 (of_nat n))) ?c)
      \<lparr>bs_byte_count := of_nat n, bs_eeprom_ptr := sub, bs_bytes_read := 0, bs_protocol := Pr_Armed\<rparr>)"
    using c(2,4) latched pos burst_length_word [OF assms(3)] unfolding start_burst_def
    by (simp add: bsc_write_word_def arm_burst_def Let_def)
  have "transfer_of ?c = (transfer_of s)\<lparr>tr_protocol := Pr_SubAddrLatched\<rparr>" using c(3) b(3) a(3) by simp
  then have "bs_force_nack ?c = bs_force_nack s" "bs_sfp ?c = bs_sfp s" by (simp_all add: transfer_of_def)
  then show "bsc_ok (start_burst sub n slave wait s)" "tr_protocol t = Pr_Armed" "tr_count t = of_nat n"
    "tr_read t = 0" "tr_ptr t = sub" "tr_sfp t = bs_sfp s" "tr_nack t = bs_force_nack s"
    using c(1) unfolding t_def end' by (simp_all add: transfer_of_def bsc_ok_def)
qed


definition vendor_reads :: "(u32 \<times> nat) list" where
  "vendor_reads = replicate 5 (0x08000000, 2)"


end
