(* ===== verification/Soc_Stores.thy ===== *)
theory Soc_Stores
  imports Dev_Init Machine_Monad
begin

text \<open>
  Register blocks behind the address dispatch that are a store of words: \<open>src/soc/dma.rs\<close>, \<open>macsec.rs\<close> and
  \<open>fatal_filter.rs\<close>. An access past the end of a store panics; \<open>Soc_Safe\<close> shows that no access to an address of the device does.
\<close>

unbundle bit_operations_syntax

section \<open>Stores\<close>

text \<open>\<open>self.store[i]\<close> and \<open>self.store[i] = v\<close>, with the update function of the field\<close>

definition index_at :: "('s \<Rightarrow> 'a list) \<Rightarrow> nat \<Rightarrow> ('s, 'a) op" where
  "index_at get i s = (if i < length (get s) then (Inr (get s ! i), s) else (Inl Panic, s))"

definition index_put ::
  "('s \<Rightarrow> 'a list) \<Rightarrow> (('a list \<Rightarrow> 'a list) \<Rightarrow> 's \<Rightarrow> 's) \<Rightarrow> nat \<Rightarrow> 'a \<Rightarrow> ('s, unit) op" where
  "index_put get upd i v s =
     (if i < length (get s) then (Inr (), upd (\<lambda>xs. xs[i := v]) s) else (Inl Panic, s))"

text \<open>The word of a store that counts from \<open>base\<close>\<close>

definition slot_index :: "u32 \<Rightarrow> u32 \<Rightarrow> nat" where
  "slot_index base addr = unat ((addr - base) div 4)"

text \<open>A word whose command bits are cleared by the read that returned them\<close>

definition read_slot ::
  "('s \<Rightarrow> u32 list) \<Rightarrow> ((u32 list \<Rightarrow> u32 list) \<Rightarrow> 's \<Rightarrow> 's)
     \<Rightarrow> ('s \<Rightarrow> u32 list) \<Rightarrow> ((u32 list \<Rightarrow> u32 list) \<Rightarrow> 's \<Rightarrow> 's) \<Rightarrow> nat \<Rightarrow> ('s, u32) op" where
  "read_slot store store_update pending pending_update idx =
     bindM (index_at store idx) (\<lambda>val.
     bindM (index_at pending idx) (\<lambda>clear_mask.
       thenM (if clear_mask \<noteq> 0
              then thenM (index_put store store_update idx (val AND NOT clear_mask)) (index_put pending pending_update idx 0)
              else returnM ())
         (returnM val)))"

text \<open>The words of the power-on table, at their addresses\<close>

definition power_on :: "(u32 \<Rightarrow> u32 \<Rightarrow> 's \<Rightarrow> 's) \<Rightarrow> 's \<Rightarrow> 's" where
  "power_on f = fold (\<lambda>(off, val). f (0x01000000 + off) val) SYSREG_INIT_VALUES"

text \<open>The default methods of the trait \<open>Peripheral\<close> for a device whose word accesses may fail\<close>

definition op_read_byte :: "(u32 \<Rightarrow> ('s, u32) op) \<Rightarrow> u32 \<Rightarrow> ('s, u8) op" where
  "op_read_byte rd addr =
     bindM (rd (addr AND NOT 3)) (\<lambda>word. returnM (ucast (drop_bit (unat (24 - (addr AND 3) * 8)) word)))"

definition op_read_half :: "(u32 \<Rightarrow> ('s, u32) op) \<Rightarrow> u32 \<Rightarrow> ('s, u16) op" where
  "op_read_half rd addr =
     bindM (rd (addr AND NOT 3)) (\<lambda>word. returnM (ucast (drop_bit (unat (16 - (drop_bit 1 addr AND 1) * 16)) word)))"

definition op_write_byte ::
  "(u32 \<Rightarrow> ('s, u32) op) \<Rightarrow> (u32 \<Rightarrow> u32 \<Rightarrow> ('s, unit) op) \<Rightarrow> u32 \<Rightarrow> u8 \<Rightarrow> ('s, unit) op" where
  "op_write_byte rd wr addr val =
     bindM (rd (addr AND NOT 3)) (\<lambda>old.
       let shift = unat (24 - (addr AND 3) * 8); msk = NOT (push_bit shift 0xFF)
       in wr (addr AND NOT 3) ((old AND msk) OR push_bit shift (ucast val)))"

definition op_write_half ::
  "(u32 \<Rightarrow> ('s, u32) op) \<Rightarrow> (u32 \<Rightarrow> u32 \<Rightarrow> ('s, unit) op) \<Rightarrow> u32 \<Rightarrow> u16 \<Rightarrow> ('s, unit) op" where
  "op_write_half rd wr addr val =
     bindM (rd (addr AND NOT 3)) (\<lambda>old.
       let shift = unat (16 - (drop_bit 1 addr AND 1) * 16); msk = NOT (push_bit shift 0xFFFF)
       in wr (addr AND NOT 3) ((old AND msk) OR push_bit shift (ucast val)))"

section \<open>DMA channels\<close>

abbreviation DMA_BASE :: u32 where "DMA_BASE \<equiv> 0x01002000"
abbreviation DMA_END :: u32 where "DMA_END \<equiv> 0x01004000"
abbreviation DMA_STRIDE :: u32 where "DMA_STRIDE \<equiv> 0x0200"
abbreviation SUB_QUEUE_DRAIN :: u32 where "SUB_QUEUE_DRAIN \<equiv> 0x003C"
abbreviation CMD_BIT_MASK :: u32 where "CMD_BIT_MASK \<equiv> 0xF8000000"

definition MACSEC_CARVEOUTS :: "(u32 \<times> u32) list" where
  "MACSEC_CARVEOUTS =
     [(0x01002400, 0x01002D40), (0x01003000, 0x01003080), (0x01003500, 0x01003540), (0x01003600, 0x01003614)]"

record dma =
  dm_store :: "u32 list"
  dm_pending_clear :: "u32 list"
  dm_drain_flag :: "bool list"

definition dma_new :: dma where
  "dma_new =
     (let words = unat ((DMA_END - DMA_BASE) div 4); channel_count = unat ((DMA_END - DMA_BASE) div DMA_STRIDE)
      in \<lparr>dm_store = replicate words 0, dm_pending_clear = replicate words 0, dm_drain_flag = replicate channel_count True\<rparr>)"

definition dma_claims :: "u32 \<Rightarrow> bool" where
  "dma_claims addr \<longleftrightarrow> DMA_BASE \<le> addr \<and> addr < DMA_END \<and> \<not> list_ex (\<lambda>(start, end'). start \<le> addr \<and> addr < end') MACSEC_CARVEOUTS"

definition dma_slot_of :: "u32 \<Rightarrow> nat \<times> u32" where
  "dma_slot_of addr = (let rel = addr - DMA_BASE in (unat (rel div DMA_STRIDE), rel mod DMA_STRIDE))"

definition dma_power_on :: "dma \<Rightarrow> dma" where
  "dma_power_on =
     power_on (\<lambda>abs val d. if dma_claims abs then d\<lparr>dm_store := (dm_store d)[slot_index DMA_BASE abs := val]\<rparr> else d)"

definition dma_read_word :: "u32 \<Rightarrow> (dma, u32) op" where
  "dma_read_word addr =
     (let idx = slot_index DMA_BASE addr
      in case dma_slot_of addr of (slot, within) \<Rightarrow>
           if within = SUB_QUEUE_DRAIN then
             bindM (index_at dm_store idx) (\<lambda>v.
             bindM (index_at dm_drain_flag slot) (\<lambda>flag.
             bindM (index_at dm_pending_clear idx) (\<lambda>clear_mask.
               let base = v AND NOT 0x100; set' = (if flag then 0x100 else 0)
               in thenM (if clear_mask \<noteq> 0
                         then thenM (index_put dm_store dm_store_update idx (v AND NOT clear_mask))
                                (index_put dm_pending_clear dm_pending_clear_update idx 0)
                         else returnM ())
                    (returnM (base OR set')))))
           else read_slot dm_store dm_store_update dm_pending_clear dm_pending_clear_update idx)"

definition dma_write_word :: "u32 \<Rightarrow> u32 \<Rightarrow> (dma, unit) op" where
  "dma_write_word addr val =
     (let idx = slot_index DMA_BASE addr
      in case dma_slot_of addr of (slot, within) \<Rightarrow>
           if within = SUB_QUEUE_DRAIN then
             thenM (if val AND 0x100 \<noteq> 0 then index_put dm_drain_flag dm_drain_flag_update slot False else returnM ())
               (index_put dm_store dm_store_update idx (val AND NOT 0x100))
           else
             thenM (index_put dm_store dm_store_update idx val)
               (let cmd_bits = val AND CMD_BIT_MASK
                in if cmd_bits \<noteq> 0 then index_put dm_pending_clear dm_pending_clear_update idx cmd_bits else returnM ()))"

definition dma_tick :: "dma \<Rightarrow> dma" where
  "dma_tick d = d\<lparr>dm_drain_flag := map (\<lambda>_. True) (dm_drain_flag d)\<rparr>"

definition dma_reset_cold :: "dma \<Rightarrow> dma" where
  "dma_reset_cold d =
     dma_power_on (d\<lparr>dm_store := map (\<lambda>_. 0) (dm_store d), dm_pending_clear := map (\<lambda>_. 0) (dm_pending_clear d),
       dm_drain_flag := map (\<lambda>_. True) (dm_drain_flag d)\<rparr>)"

datatype dma_event = InjectQueueEntry u8 | InjectBusError u8

primrec dma_inject_event :: "dma_event \<Rightarrow> dma \<Rightarrow> dma" where
  "dma_inject_event (InjectQueueEntry chan) d =
     d\<lparr>dm_drain_flag := (dm_drain_flag d)[min (unat chan) (length (dm_drain_flag d) - 1) := True]\<rparr>"
| "dma_inject_event (InjectBusError _) d = d"

section \<open>MACsec\<close>

abbreviation MACSEC_SA_BASE :: u32 where "MACSEC_SA_BASE \<equiv> 0x01002400"
abbreviation MACSEC_SA_END :: u32 where "MACSEC_SA_END \<equiv> 0x01002D40"
abbreviation MACSEC_KEY_TAIL_BASE :: u32 where "MACSEC_KEY_TAIL_BASE \<equiv> 0x01003500"
abbreviation MACSEC_KEY_TAIL_END :: u32 where "MACSEC_KEY_TAIL_END \<equiv> 0x01003540"
abbreviation MACSEC_CMD_BIT :: u32 where "MACSEC_CMD_BIT \<equiv> 0x80000000"

abbreviation CMD_REGS :: "u32 list" where "CMD_REGS \<equiv> [0x01002A44]"

abbreviation in_sa :: "u32 \<Rightarrow> bool" where "in_sa addr \<equiv> MACSEC_SA_BASE \<le> addr \<and> addr < MACSEC_SA_END"
abbreviation in_key_tail :: "u32 \<Rightarrow> bool" where
  "in_key_tail addr \<equiv> MACSEC_KEY_TAIL_BASE \<le> addr \<and> addr < MACSEC_KEY_TAIL_END"

record macsec =
  mc_sa_store :: "u32 list"
  mc_sa_pending_clear :: "u32 list"
  mc_key_tail_store :: "u32 list"
  mc_key_tail_pending_clear :: "u32 list"
  mc_pn_overflow_mask :: u32
  mc_fatal_error_mask :: u32

definition macsec_new :: macsec where
  "macsec_new =
     (let sa_words = unat ((MACSEC_SA_END - MACSEC_SA_BASE) div 4);
          tail_words = unat ((MACSEC_KEY_TAIL_END - MACSEC_KEY_TAIL_BASE) div 4)
      in \<lparr>mc_sa_store = replicate sa_words 0, mc_sa_pending_clear = replicate sa_words 0,
          mc_key_tail_store = replicate tail_words 0, mc_key_tail_pending_clear = replicate tail_words 0,
          mc_pn_overflow_mask = 0, mc_fatal_error_mask = 0\<rparr>)"

definition macsec_claims :: "u32 \<Rightarrow> bool" where
  "macsec_claims addr \<longleftrightarrow> in_sa addr \<or> in_key_tail addr"

definition write_slot_sparse ::
  "('s \<Rightarrow> u32 list) \<Rightarrow> ((u32 list \<Rightarrow> u32 list) \<Rightarrow> 's \<Rightarrow> 's)
     \<Rightarrow> ('s \<Rightarrow> u32 list) \<Rightarrow> ((u32 list \<Rightarrow> u32 list) \<Rightarrow> 's \<Rightarrow> 's) \<Rightarrow> nat \<Rightarrow> u32 \<Rightarrow> u32 \<Rightarrow> ('s, unit) op" where
  "write_slot_sparse store store_update pending pending_update idx abs_addr val =
     thenM (index_put store store_update idx val)
       (if abs_addr \<in> set CMD_REGS \<and> val AND MACSEC_CMD_BIT \<noteq> 0
        then index_put pending pending_update idx MACSEC_CMD_BIT else returnM ())"

definition macsec_power_on :: "macsec \<Rightarrow> macsec" where
  "macsec_power_on =
     power_on (\<lambda>abs val m.
       if in_sa abs then m\<lparr>mc_sa_store := (mc_sa_store m)[slot_index MACSEC_SA_BASE abs := val]\<rparr>
       else if in_key_tail abs then m\<lparr>mc_key_tail_store := (mc_key_tail_store m)[slot_index MACSEC_KEY_TAIL_BASE abs := val]\<rparr>
       else m)"

definition macsec_read_word :: "u32 \<Rightarrow> (macsec, u32) op" where
  "macsec_read_word addr =
     (if addr = 0x01002804 then returnM 0
      else if in_sa addr then
        read_slot mc_sa_store mc_sa_store_update mc_sa_pending_clear mc_sa_pending_clear_update (slot_index MACSEC_SA_BASE addr)
      else if in_key_tail addr then
        read_slot mc_key_tail_store mc_key_tail_store_update mc_key_tail_pending_clear mc_key_tail_pending_clear_update
          (slot_index MACSEC_KEY_TAIL_BASE addr)
      else returnM 0)"

definition macsec_write_word :: "u32 \<Rightarrow> u32 \<Rightarrow> (macsec, unit) op" where
  "macsec_write_word addr val =
     (if in_sa addr then
        (if addr = 0x01002804 then modifyM (\<lambda>m. m\<lparr>mc_fatal_error_mask := val\<rparr>)
         else write_slot_sparse mc_sa_store mc_sa_store_update mc_sa_pending_clear mc_sa_pending_clear_update
                (slot_index MACSEC_SA_BASE addr) addr val)
      else if in_key_tail addr then
        write_slot_sparse mc_key_tail_store mc_key_tail_store_update mc_key_tail_pending_clear mc_key_tail_pending_clear_update
          (slot_index MACSEC_KEY_TAIL_BASE addr) addr val
      else returnM ())"

definition macsec_reset_cold :: "macsec \<Rightarrow> macsec" where
  "macsec_reset_cold m =
     macsec_power_on (m\<lparr>mc_sa_store := map (\<lambda>_. 0) (mc_sa_store m), mc_sa_pending_clear := map (\<lambda>_. 0) (mc_sa_pending_clear m),
       mc_key_tail_store := map (\<lambda>_. 0) (mc_key_tail_store m),
       mc_key_tail_pending_clear := map (\<lambda>_. 0) (mc_key_tail_pending_clear m), mc_pn_overflow_mask := 0, mc_fatal_error_mask := 0\<rparr>)"

datatype macsec_event = InjectPnOverflow u8 | ResetSaTable

primrec macsec_inject_event :: "macsec_event \<Rightarrow> macsec \<Rightarrow> macsec" where
  "macsec_inject_event (InjectPnOverflow slot) m =
     m\<lparr>mc_pn_overflow_mask := mc_pn_overflow_mask m OR push_bit (unat (slot AND 0x1F)) 1\<rparr>"
| "macsec_inject_event ResetSaTable m =
     m\<lparr>mc_sa_store := map (\<lambda>_. 0) (mc_sa_store m), mc_sa_pending_clear := map (\<lambda>_. 0) (mc_sa_pending_clear m),
       mc_pn_overflow_mask := 0\<rparr>"

section \<open>Fatal filter\<close>

abbreviation FATAL_FILTER_BASE :: u32 where "FATAL_FILTER_BASE \<equiv> 0x01003600"
abbreviation FATAL_FILTER_END :: u32 where "FATAL_FILTER_END \<equiv> 0x01003614"
abbreviation REG_FILTER_STATUS :: u32 where "REG_FILTER_STATUS \<equiv> 0x01003600"
abbreviation REG_FILTER_FATAL :: u32 where "REG_FILTER_FATAL \<equiv> 0x01003604"
abbreviation REG_FILTER_ENABLE :: u32 where "REG_FILTER_ENABLE \<equiv> 0x01003608"
abbreviation REG_FILTER_IRQ :: u32 where "REG_FILTER_IRQ \<equiv> 0x01003610"

record fatal_filter =
  ff_fatal_status :: u32
  ff_filter_status :: u32
  ff_filter_enable :: u32
  ff_filter_irq :: u32
  ff_link_up_bitmap :: u32

definition fatal_filter_new :: fatal_filter where
  "fatal_filter_new =
     \<lparr>ff_fatal_status = 0, ff_filter_status = 0, ff_filter_enable = 0, ff_filter_irq = 0, ff_link_up_bitmap = 0\<rparr>"

definition fatal_filter_claims :: "u32 \<Rightarrow> bool" where
  "fatal_filter_claims addr \<longleftrightarrow> FATAL_FILTER_BASE \<le> addr \<and> addr < FATAL_FILTER_END"

definition fatal_filter_power_on :: "fatal_filter \<Rightarrow> fatal_filter" where
  "fatal_filter_power_on =
     power_on (\<lambda>abs val f.
       if abs = REG_FILTER_STATUS then f\<lparr>ff_filter_status := val\<rparr>
       else if abs = REG_FILTER_ENABLE then f\<lparr>ff_filter_enable := val\<rparr>
       else if abs = REG_FILTER_IRQ then f\<lparr>ff_filter_irq := val\<rparr>
       else f)"

definition fatal_filter_read_word :: "u32 \<Rightarrow> fatal_filter \<Rightarrow> u32" where
  "fatal_filter_read_word addr f =
     (if addr = REG_FILTER_STATUS then ff_filter_status f
      else if addr = REG_FILTER_FATAL then ff_fatal_status f
      else if addr = REG_FILTER_ENABLE then ff_filter_enable f
      else if addr = REG_FILTER_IRQ then ff_filter_irq f
      else 0)"

definition fatal_filter_write_word :: "u32 \<Rightarrow> u32 \<Rightarrow> fatal_filter \<Rightarrow> fatal_filter" where
  "fatal_filter_write_word addr val f =
     (if addr = REG_FILTER_STATUS then f\<lparr>ff_filter_status := val\<rparr>
      else if addr = REG_FILTER_FATAL then f\<lparr>ff_fatal_status := ff_fatal_status f AND NOT val\<rparr>
      else if addr = REG_FILTER_ENABLE then f\<lparr>ff_filter_enable := val\<rparr>
      else if addr = REG_FILTER_IRQ then f\<lparr>ff_filter_irq := val\<rparr>
      else f)"

definition fatal_filter_reset_cold :: "fatal_filter \<Rightarrow> fatal_filter" where
  "fatal_filter_reset_cold f =
     fatal_filter_power_on (f\<lparr>ff_fatal_status := 0, ff_filter_status := 0, ff_filter_enable := 0, ff_filter_irq := 0, ff_link_up_bitmap := 0\<rparr>)"

datatype fatal_filter_event = InjectFatal u32 | ClearFatal | SetLinkUp u8 bool

primrec fatal_filter_inject_event :: "fatal_filter_event \<Rightarrow> fatal_filter \<Rightarrow> fatal_filter" where
  "fatal_filter_inject_event (InjectFatal bits) f = f\<lparr>ff_fatal_status := ff_fatal_status f OR bits\<rparr>"
| "fatal_filter_inject_event ClearFatal f = f\<lparr>ff_fatal_status := 0\<rparr>"
| "fatal_filter_inject_event (SetLinkUp phy up) f =
     (let bit' = push_bit (unat (phy AND 0x1F)) 1
      in f\<lparr>ff_link_up_bitmap := (if up then ff_link_up_bitmap f OR bit' else ff_link_up_bitmap f AND NOT bit')\<rparr>)"

end
