(* ===== verification/Soc_Regs.thy ===== *)
theory Soc_Regs
  imports Soc_Stores Dev_Words
begin

text \<open>
  More of the register blocks: \<open>src/soc/mac_filter.rs\<close> with its indirect table, \<open>mpcp.rs\<close> with its banked window and
  \<open>mpcp_tssync.rs\<close>.
\<close>

unbundle bit_operations_syntax

section \<open>MAC filter\<close>

abbreviation MF_BASE :: u32 where "MF_BASE \<equiv> 0x01003000"
abbreviation MF_END :: u32 where "MF_END \<equiv> 0x01003080"
abbreviation OFF_VLAN_CTRL :: u32 where "OFF_VLAN_CTRL \<equiv> 0x00"
abbreviation OFF_CUSTOM_ETHERTYPE :: u32 where "OFF_CUSTOM_ETHERTYPE \<equiv> 0x0C"
abbreviation OFF_CMD :: u32 where "OFF_CMD \<equiv> 0x10"
abbreviation OFF_DATA2 :: u32 where "OFF_DATA2 \<equiv> 0x14"
abbreviation OFF_DATA1 :: u32 where "OFF_DATA1 \<equiv> 0x18"
abbreviation OFF_DATA0 :: u32 where "OFF_DATA0 \<equiv> 0x1C"
abbreviation OFF_FILTER_RULES :: u32 where "OFF_FILTER_RULES \<equiv> 0x20"
abbreviation FILTER_RULE_COUNT :: nat where "FILTER_RULE_COUNT \<equiv> 7"
abbreviation TABLE_SIZE :: nat where "TABLE_SIZE \<equiv> 256"

abbreviation in_filter_rules :: "u32 \<Rightarrow> bool" where
  "in_filter_rules off \<equiv> OFF_FILTER_RULES \<le> off \<and> off < OFF_FILTER_RULES + of_nat FILTER_RULE_COUNT * 4"

record table_entry =
  te_data2 :: u32
  te_data1 :: u32
  te_data0 :: u32

record mac_filter =
  mf_vlan_ctrl :: u32
  mf_custom_ethertype :: u32
  mf_cmd :: u32
  mf_data2 :: u32
  mf_data1 :: u32
  mf_data0 :: u32
  mf_table :: "table_entry list"
  mf_regs_04 :: u32
  mf_regs_08 :: u32
  mf_filter_rules :: "u32 list"
  mf_extended :: "u32 list"

definition mac_filter_new :: mac_filter where
  "mac_filter_new =
     \<lparr>mf_vlan_ctrl = 0, mf_custom_ethertype = 0, mf_cmd = 0, mf_data2 = 0, mf_data1 = 0, mf_data0 = 0,
      mf_table = replicate TABLE_SIZE \<lparr>te_data2 = 0, te_data1 = 0, te_data0 = 0\<rparr>, mf_regs_04 = 0, mf_regs_08 = 0,
      mf_filter_rules = replicate FILTER_RULE_COUNT 0, mf_extended = replicate (unat ((MF_END - MF_BASE) div 4)) 0\<rparr>"

definition mac_filter_claims :: "u32 \<Rightarrow> bool" where
  "mac_filter_claims addr \<longleftrightarrow> MF_BASE \<le> addr \<and> addr < MF_END"

definition mac_filter_reset_cold :: "mac_filter \<Rightarrow> mac_filter" where
  "mac_filter_reset_cold m =
     m\<lparr>mf_vlan_ctrl := 0, mf_custom_ethertype := 0, mf_cmd := 0, mf_data2 := 0, mf_data1 := 0, mf_data0 := 0,
       mf_table := map (\<lambda>_. \<lparr>te_data2 = 0, te_data1 = 0, te_data0 = 0\<rparr>) (mf_table m), mf_regs_04 := 0, mf_regs_08 := 0,
       mf_filter_rules := replicate FILTER_RULE_COUNT 0, mf_extended := map (\<lambda>_. 0) (mf_extended m)\<rparr>"

definition mac_filter_apply_init :: "u32 \<Rightarrow> u32 \<Rightarrow> mac_filter \<Rightarrow> mac_filter" where
  "mac_filter_apply_init off val m =
     (if off = OFF_VLAN_CTRL then m\<lparr>mf_vlan_ctrl := val\<rparr>
      else if off = OFF_CUSTOM_ETHERTYPE then m\<lparr>mf_custom_ethertype := val\<rparr>
      else if off = OFF_CMD then m\<lparr>mf_cmd := val\<rparr>
      else if off = OFF_DATA2 then m\<lparr>mf_data2 := val\<rparr>
      else if off = OFF_DATA1 then m\<lparr>mf_data1 := val\<rparr>
      else if off = OFF_DATA0 then m\<lparr>mf_data0 := val\<rparr>
      else if off = 0x04 then m\<lparr>mf_regs_04 := val\<rparr>
      else if off = 0x08 then m\<lparr>mf_regs_08 := val\<rparr>
      else m)"

definition mac_filter_reset_warm :: "mac_filter \<Rightarrow> mac_filter" where
  "mac_filter_reset_warm m =
     power_on (\<lambda>abs val m. if mac_filter_claims abs then mac_filter_apply_init (abs - MF_BASE) val m else m)
       (mac_filter_reset_cold m)"

definition mac_filter_peek_word :: "u32 \<Rightarrow> mac_filter \<Rightarrow> u32" where
  "mac_filter_peek_word addr m =
     (let off = addr - MF_BASE
      in if off = OFF_VLAN_CTRL then mf_vlan_ctrl m
         else if off = OFF_CUSTOM_ETHERTYPE then mf_custom_ethertype m
         else if off = OFF_CMD then mf_cmd m AND NOT 0xC0000000
         else if off = OFF_DATA2 then mf_data2 m
         else if off = OFF_DATA1 then mf_data1 m
         else if off = OFF_DATA0 then mf_data0 m
         else if off = 0x04 then mf_regs_04 m
         else if off = 0x08 then mf_regs_08 m
         else if in_filter_rules off then mf_filter_rules m ! unat ((off - OFF_FILTER_RULES) div 4)
         else let idx = unat (off div 4) in if idx < length (mf_extended m) then mf_extended m ! idx else 0)"

definition mac_filter_read_word :: "u32 \<Rightarrow> mac_filter \<Rightarrow> u32 \<times> mac_filter" where
  "mac_filter_read_word addr m = (mac_filter_peek_word addr m, m)"

text \<open>The command word moves an entry between the data words and the table\<close>

definition mac_filter_command :: "u32 \<Rightarrow> mac_filter \<Rightarrow> mac_filter" where
  "mac_filter_command val m =
     (let index = unat (val AND 0xFF); is_read = val AND 0x80000000 \<noteq> 0; is_write = val AND 0x40000000 \<noteq> 0;
          m1 = (if is_write \<and> index < TABLE_SIZE then
                  m\<lparr>mf_table := (mf_table m)[index := \<lparr>te_data2 = mf_data2 m, te_data1 = mf_data1 m, te_data0 = mf_data0 m\<rparr>]\<rparr>
                else if is_read \<and> index < TABLE_SIZE then
                  let entry = mf_table m ! index
                  in m\<lparr>mf_data2 := te_data2 entry, mf_data1 := te_data1 entry, mf_data0 := te_data0 entry\<rparr>
                else m)
      in m1\<lparr>mf_cmd := val AND NOT 0xC0000000\<rparr>)"

definition mac_filter_write_word :: "u32 \<Rightarrow> u32 \<Rightarrow> mac_filter \<Rightarrow> mac_filter" where
  "mac_filter_write_word addr val m =
     (let off = addr - MF_BASE
      in if off = OFF_VLAN_CTRL then m\<lparr>mf_vlan_ctrl := val\<rparr>
         else if off = OFF_CUSTOM_ETHERTYPE then m\<lparr>mf_custom_ethertype := val\<rparr>
         else if off = OFF_CMD then mac_filter_command val m
         else if off = OFF_DATA2 then m\<lparr>mf_data2 := val\<rparr>
         else if off = OFF_DATA1 then m\<lparr>mf_data1 := val\<rparr>
         else if off = OFF_DATA0 then m\<lparr>mf_data0 := val\<rparr>
         else if off = 0x04 then m\<lparr>mf_regs_04 := val\<rparr>
         else if off = 0x08 then m\<lparr>mf_regs_08 := val\<rparr>
         else if in_filter_rules off then
           m\<lparr>mf_filter_rules := (mf_filter_rules m)[unat ((off - OFF_FILTER_RULES) div 4) := val]\<rparr>
         else m\<lparr>mf_extended := (mf_extended m)[unat (off div 4) := val]\<rparr>)"

definition mac_filter_read_half :: "u32 \<Rightarrow> mac_filter \<Rightarrow> u16 \<times> mac_filter" where
  "mac_filter_read_half = default_read_half mac_filter_read_word"

definition mac_filter_write_half :: "u32 \<Rightarrow> u16 \<Rightarrow> mac_filter \<Rightarrow> mac_filter" where
  "mac_filter_write_half = default_write_half mac_filter_read_word mac_filter_write_word"

definition mac_filter_read_byte :: "u32 \<Rightarrow> mac_filter \<Rightarrow> u8 \<times> mac_filter" where
  "mac_filter_read_byte = default_read_byte mac_filter_read_word"

definition mac_filter_write_byte :: "u32 \<Rightarrow> u8 \<Rightarrow> mac_filter \<Rightarrow> mac_filter" where
  "mac_filter_write_byte = default_write_byte mac_filter_read_word mac_filter_write_word"

section \<open>MPCP registers\<close>

abbreviation WINDOW_START :: u32 where "WINDOW_START \<equiv> 0x010012C0"
abbreviation TABLE_SELECT :: u32 where "TABLE_SELECT \<equiv> 0x010012BC"
abbreviation BANK_COUNT :: nat where "BANK_COUNT \<equiv> 4"
abbreviation WINDOW_END :: u32 where "WINDOW_END \<equiv> 0x01001390"

definition REGIONS :: "(u32 \<times> u32) list" where
  "REGIONS = [(0x01000120, 0x01000140), (0x01000320, 0x01000328), (0x01001180, 0x010011C0), (0x01001268, 0x01001390)]"

record mpcp =
  mp_stores :: "u32 list list"
  mp_banks :: "u32 list list"
  mp_bank :: nat

definition mpcp_new :: mpcp where
  "mpcp_new =
     \<lparr>mp_stores = map (\<lambda>(start, end'). replicate (unat ((end' - start) div 4)) 0) REGIONS,
      mp_banks = replicate BANK_COUNT (replicate (unat ((WINDOW_END - WINDOW_START) div 4)) 0), mp_bank = 0\<rparr>"

definition mpcp_claims :: "u32 \<Rightarrow> bool" where
  "mpcp_claims addr \<longleftrightarrow> (let word = addr AND NOT 3 in list_ex (\<lambda>(start, end'). start \<le> word \<and> word < end') REGIONS)"

definition mp_window_index :: "u32 \<Rightarrow> nat option" where
  "mp_window_index addr =
     (let word = addr AND NOT 3
      in if WINDOW_START \<le> word \<and> word < WINDOW_END then Some (slot_index WINDOW_START word) else None)"

fun locate_region :: "u32 \<Rightarrow> nat \<Rightarrow> (u32 \<times> u32) list \<Rightarrow> (nat \<times> nat) option" where
  "locate_region word i [] = None"
| "locate_region word i ((start, end') # rs) =
     (if start \<le> word \<and> word < end' then Some (i, slot_index start word) else locate_region word (i + 1) rs)"

definition mpcp_locate :: "u32 \<Rightarrow> (nat \<times> nat) option" where
  "mpcp_locate addr = locate_region (addr AND NOT 3) 0 REGIONS"

text \<open>\<open>xs[i][j]\<close> and \<open>xs[i][j] = v\<close>\<close>

definition index2 :: "'a list list \<Rightarrow> nat \<Rightarrow> nat \<Rightarrow> 'a option" where
  "index2 xss i j = (if i < length xss \<and> j < length (xss ! i) then Some (xss ! i ! j) else None)"

definition put2 :: "nat \<Rightarrow> nat \<Rightarrow> 'a \<Rightarrow> 'a list list \<Rightarrow> 'a list list" where
  "put2 i j v xss = xss[i := (xss ! i)[j := v]]"

definition poke_tx_rate :: "u32 \<Rightarrow> u32 \<Rightarrow> mpcp \<Rightarrow> mpcp option" where
  "poke_tx_rate addr val m =
     (case mp_window_index addr of
        Some idx \<Rightarrow> map_option (\<lambda>_. m\<lparr>mp_banks := put2 (mp_bank m) idx val (mp_banks m)\<rparr>) (index2 (mp_banks m) (mp_bank m) idx)
      | None \<Rightarrow>
          (case mpcp_locate addr of
             Some (region, idx) \<Rightarrow> map_option (\<lambda>_. m\<lparr>mp_stores := put2 region idx val (mp_stores m)\<rparr>) (index2 (mp_stores m) region idx)
           | None \<Rightarrow> Some m))"

definition peek_tx_rate :: "u32 \<Rightarrow> mpcp \<Rightarrow> u32 option" where
  "peek_tx_rate addr m =
     (case mp_window_index addr of
        Some idx \<Rightarrow> index2 (mp_banks m) (mp_bank m) idx
      | None \<Rightarrow>
          (case mpcp_locate addr of
             Some (region, idx) \<Rightarrow> index2 (mp_stores m) region idx
           | None \<Rightarrow> Some 0))"

definition mpcp_read_word :: "u32 \<Rightarrow> (mpcp, u32) op" where
  "mpcp_read_word addr m = (case peek_tx_rate addr m of None \<Rightarrow> (Inl Panic, m) | Some v \<Rightarrow> (Inr v, m))"

text \<open>A write outside the window selects a bank first.\<close>

definition mpcp_write :: "u32 \<Rightarrow> u32 \<Rightarrow> mpcp \<Rightarrow> mpcp option" where
  "mpcp_write addr val m =
     (if mp_window_index addr = None \<and> addr AND NOT 3 = TABLE_SELECT
      then poke_tx_rate addr val (m\<lparr>mp_bank := unat (val AND (of_nat BANK_COUNT - 1))\<rparr>)
      else poke_tx_rate addr val m)"

definition mpcp_write_word :: "u32 \<Rightarrow> u32 \<Rightarrow> (mpcp, unit) op" where
  "mpcp_write_word addr val m = (case mpcp_write addr val m of None \<Rightarrow> (Inl Panic, m) | Some m' \<Rightarrow> (Inr (), m'))"

definition mpcp_power_on :: "mpcp \<Rightarrow> mpcp" where
  "mpcp_power_on m =
     power_on (\<lambda>abs val m. if abs = TABLE_SELECT then m else case poke_tx_rate abs val m of None \<Rightarrow> m | Some m' \<Rightarrow> m')
       (power_on (\<lambda>abs val m. if abs = TABLE_SELECT then snd (mpcp_write_word TABLE_SELECT val m) else m) m)"

definition mpcp_reset_cold :: "mpcp \<Rightarrow> mpcp" where
  "mpcp_reset_cold m =
     mpcp_power_on (m\<lparr>mp_stores := map (map (\<lambda>_. 0)) (mp_stores m), mp_banks := map (map (\<lambda>_. 0)) (mp_banks m), mp_bank := 0\<rparr>)"

section \<open>Timestamp synchronisation\<close>

abbreviation REG_TS_ARM :: u32 where "REG_TS_ARM \<equiv> 0x01000300"
abbreviation REG_TS_LOCK :: u32 where "REG_TS_LOCK \<equiv> 0x01000304"
abbreviation REG_TS_FREQ_ERR :: u32 where "REG_TS_FREQ_ERR \<equiv> 0x01000314"
abbreviation REG_TS_WINDOW :: u32 where "REG_TS_WINDOW \<equiv> 0x01000318"
abbreviation REG_TS_MODE :: u32 where "REG_TS_MODE \<equiv> 0x0100031C"
abbreviation REG_CAPTURED_TS :: u32 where "REG_CAPTURED_TS \<equiv> 0x010000B4"
abbreviation REG_NCO_TX_OFFSET :: u32 where "REG_NCO_TX_OFFSET \<equiv> 0x01000D88"
abbreviation REG_NCO_TX_TS :: u32 where "REG_NCO_TX_TS \<equiv> 0x01000D8C"

definition CLAIMED :: "u32 list" where
  "CLAIMED = [REG_CAPTURED_TS, REG_TS_ARM, REG_TS_LOCK, REG_TS_FREQ_ERR, REG_TS_WINDOW, REG_TS_MODE, REG_NCO_TX_OFFSET, REG_NCO_TX_TS]"

record ts_sync =
  ts_arm :: u32
  ts_lock_fw :: u32
  ts_freq_err :: u32
  ts_window :: u32
  ts_mode :: u32
  ts_captured_ts :: u32
  ts_nco_tx_offset :: u32
  ts_nco_tx_ts :: u32
  ts_hw_lock :: bool

definition tssync_claims :: "u32 \<Rightarrow> bool" where
  "tssync_claims addr \<longleftrightarrow> addr AND NOT 3 \<in> set CLAIMED"

definition tssync_write_word :: "u32 \<Rightarrow> u32 \<Rightarrow> ts_sync \<Rightarrow> ts_sync" where
  "tssync_write_word addr val t =
     (let word = addr AND NOT 3
      in if word = REG_TS_ARM then t\<lparr>ts_arm := val\<rparr>
         else if word = REG_TS_LOCK then t\<lparr>ts_lock_fw := val\<rparr>
         else if word = REG_TS_FREQ_ERR then t\<lparr>ts_freq_err := val\<rparr>
         else if word = REG_TS_WINDOW then t\<lparr>ts_window := val\<rparr>
         else if word = REG_TS_MODE then t\<lparr>ts_mode := val\<rparr>
         else if word = REG_CAPTURED_TS then t\<lparr>ts_captured_ts := val\<rparr>
         else if word = REG_NCO_TX_OFFSET then t\<lparr>ts_nco_tx_offset := val\<rparr>
         else if word = REG_NCO_TX_TS then t\<lparr>ts_nco_tx_ts := val\<rparr>
         else t)"

definition tssync_store_seed :: "u32 \<Rightarrow> u32 \<Rightarrow> ts_sync \<Rightarrow> ts_sync" where
  "tssync_store_seed = tssync_write_word"

definition tssync_power_on :: "ts_sync \<Rightarrow> ts_sync" where
  "tssync_power_on t =
     (power_on (\<lambda>abs val t. if tssync_claims abs then tssync_store_seed abs val t else t) t)\<lparr>ts_hw_lock := False\<rparr>"

definition tssync_zero :: ts_sync where
  "tssync_zero =
     \<lparr>ts_arm = 0, ts_lock_fw = 0, ts_freq_err = 0, ts_window = 0, ts_mode = 0, ts_captured_ts = 0, ts_nco_tx_offset = 0,
      ts_nco_tx_ts = 0, ts_hw_lock = False\<rparr>"

definition tssync_new :: ts_sync where
  "tssync_new = tssync_power_on tssync_zero"

definition tssync_peek_word :: "u32 \<Rightarrow> ts_sync \<Rightarrow> u32" where
  "tssync_peek_word addr t =
     (let word = addr AND NOT 3
      in if word = REG_TS_ARM then ts_arm t
         else if word = REG_TS_LOCK then ts_lock_fw t OR (if ts_hw_lock t then 1 else 0)
         else if word = REG_TS_FREQ_ERR then ts_freq_err t
         else if word = REG_TS_WINDOW then ts_window t
         else if word = REG_TS_MODE then ts_mode t
         else if word = REG_CAPTURED_TS then ts_captured_ts t
         else if word = REG_NCO_TX_OFFSET then ts_nco_tx_offset t
         else if word = REG_NCO_TX_TS then ts_nco_tx_ts t
         else 0)"

definition tssync_read_word :: "u32 \<Rightarrow> ts_sync \<Rightarrow> u32 \<times> ts_sync" where
  "tssync_read_word addr t = (tssync_peek_word addr t, t)"

definition drive_captured_ts :: "u32 \<Rightarrow> ts_sync \<Rightarrow> ts_sync" where
  "drive_captured_ts ts t = t\<lparr>ts_captured_ts := ts\<rparr>"

definition drive_nco_tx_ts :: "u32 \<Rightarrow> ts_sync \<Rightarrow> ts_sync" where
  "drive_nco_tx_ts ts t = t\<lparr>ts_nco_tx_ts := ts\<rparr>"

definition set_hw_lock :: "bool \<Rightarrow> ts_sync \<Rightarrow> ts_sync" where
  "set_hw_lock locked t = t\<lparr>ts_hw_lock := locked\<rparr>"

definition tssync_reset_cold :: "ts_sync \<Rightarrow> ts_sync" where
  "tssync_reset_cold t =
     tssync_power_on (t\<lparr>ts_arm := 0, ts_lock_fw := 0, ts_freq_err := 0, ts_window := 0, ts_mode := 0, ts_captured_ts := 0,
       ts_nco_tx_offset := 0, ts_nco_tx_ts := 0, ts_hw_lock := False\<rparr>)"

end
