(* ===== verification/Soc_Shim.thy ===== *)
theory Soc_Shim
  imports Soc_Stores Dev_Words
begin

text \<open>
  \<open>src/soc/efuse_udr.rs\<close>, the bit-banged bus of the fuses; \<open>alarm_events.rs\<close>, the alarms forced by hand; and
  \<open>sysreg_shim.rs\<close>, the store of every register that no other device claims. The trace of the shim is left out.
\<close>

unbundle bit_operations_syntax

section \<open>Fuse bus\<close>

abbreviation REG_I2C_UDR_CLK_RESET :: u32 where "REG_I2C_UDR_CLK_RESET \<equiv> 0x01000040"
abbreviation REG_I2C_UDR_SDA :: u32 where "REG_I2C_UDR_SDA \<equiv> 0x01000048"
abbreviation REG_I2C_UDR_SCL :: u32 where "REG_I2C_UDR_SCL \<equiv> 0x0100004C"

record efuse =
  ef_reg_clk_reset :: u32
  ef_reg_sda :: u32
  ef_reg_scl :: u32
  ef_clk_reset_clear :: u32
  ef_sda_clear :: u32
  ef_scl_clear :: u32
  ef_clock_toggles :: u32
  ef_snapshot :: "u8 list"

definition efuse_new :: efuse where
  "efuse_new =
     \<lparr>ef_reg_clk_reset = 0, ef_reg_sda = 0, ef_reg_scl = 0, ef_clk_reset_clear = 0, ef_sda_clear = 0, ef_scl_clear = 0,
      ef_clock_toggles = 0, ef_snapshot = replicate 80 0xFF\<rparr>"

definition efuse_claims :: "u32 \<Rightarrow> bool" where
  "efuse_claims addr \<longleftrightarrow> addr AND NOT 3 \<in> set [REG_I2C_UDR_CLK_RESET, REG_I2C_UDR_SDA, REG_I2C_UDR_SCL]"

definition efuse_power_on :: "efuse \<Rightarrow> efuse" where
  "efuse_power_on =
     power_on (\<lambda>abs val e.
       if abs = REG_I2C_UDR_CLK_RESET then e\<lparr>ef_reg_clk_reset := val\<rparr>
       else if abs = REG_I2C_UDR_SDA then e\<lparr>ef_reg_sda := val\<rparr>
       else if abs = REG_I2C_UDR_SCL then e\<lparr>ef_reg_scl := val\<rparr>
       else e)"

definition efuse_read_word :: "u32 \<Rightarrow> efuse \<Rightarrow> u32 \<times> efuse" where
  "efuse_read_word addr e =
     (if addr = REG_I2C_UDR_CLK_RESET then
        (ef_reg_clk_reset e,
         if ef_clk_reset_clear e \<noteq> 0
         then e\<lparr>ef_reg_clk_reset := ef_reg_clk_reset e AND NOT (ef_clk_reset_clear e), ef_clk_reset_clear := 0\<rparr> else e)
      else if addr = REG_I2C_UDR_SDA then
        (let base = ef_reg_sda e
         in (if base AND 0x10 \<noteq> 0 then base AND NOT 0x80000000 else base OR 0x80000000,
             if ef_sda_clear e \<noteq> 0 then e\<lparr>ef_reg_sda := base AND NOT (ef_sda_clear e), ef_sda_clear := 0\<rparr> else e))
      else if addr = REG_I2C_UDR_SCL then
        (let base = ef_reg_scl e
         in (base OR 0x80000000,
             if ef_scl_clear e \<noteq> 0 then e\<lparr>ef_reg_scl := base AND NOT (ef_scl_clear e), ef_scl_clear := 0\<rparr> else e))
      else (0, e))"

definition efuse_write_word :: "u32 \<Rightarrow> u32 \<Rightarrow> efuse \<Rightarrow> efuse" where
  "efuse_write_word addr val e =
     (let cmd_bits = val AND CMD_BIT_MASK
      in if addr = REG_I2C_UDR_CLK_RESET then
           e\<lparr>ef_clock_toggles := (if val AND 0x8000 \<noteq> 0 \<and> ef_reg_clk_reset e AND 0x8000 = 0 then 0 else ef_clock_toggles e),
             ef_reg_clk_reset := val, ef_clk_reset_clear := (if cmd_bits \<noteq> 0 then cmd_bits else ef_clk_reset_clear e)\<rparr>
         else if addr = REG_I2C_UDR_SDA then
           e\<lparr>ef_reg_sda := val, ef_sda_clear := (if cmd_bits \<noteq> 0 then cmd_bits else ef_sda_clear e)\<rparr>
         else if addr = REG_I2C_UDR_SCL then
           e\<lparr>ef_clock_toggles := (if val AND 1 \<noteq> 0 \<and> ef_reg_scl e AND 1 = 0 then ef_clock_toggles e + 1 else ef_clock_toggles e),
             ef_reg_scl := val, ef_scl_clear := (if cmd_bits \<noteq> 0 then cmd_bits else ef_scl_clear e)\<rparr>
         else e)"

definition efuse_reset_cold :: "efuse \<Rightarrow> efuse" where
  "efuse_reset_cold e =
     efuse_power_on (e\<lparr>ef_reg_clk_reset := 0, ef_reg_sda := 0, ef_reg_scl := 0, ef_clk_reset_clear := 0, ef_sda_clear := 0,
       ef_scl_clear := 0, ef_clock_toggles := 0\<rparr>)"

definition efuse_set_snapshot :: "u8 list \<Rightarrow> efuse \<Rightarrow> efuse" where
  "efuse_set_snapshot bytes e =
     (let taken = take 80 bytes in e\<lparr>ef_snapshot := taken @ replicate (80 - length taken) 0xFF\<rparr>)"

section \<open>Forced alarms\<close>

abbreviation FORCED_OPCODE_CAPACITY :: nat where "FORCED_OPCODE_CAPACITY \<equiv> 64"

type_synonym alarm_events = "u16 list"

definition force_pending :: "u16 \<Rightarrow> alarm_events \<Rightarrow> alarm_events" where
  "force_pending opcode forced =
     (if opcode \<notin> set forced \<and> length forced < FORCED_OPCODE_CAPACITY then forced @ [opcode] else forced)"

definition clear_pending :: "u16 \<Rightarrow> alarm_events \<Rightarrow> alarm_events" where
  "clear_pending opcode forced = filter (\<lambda>op. op \<noteq> opcode) forced"

definition clear_all :: "alarm_events \<Rightarrow> alarm_events" where
  "clear_all forced = []"

datatype alarm_event = ForcePending u16 | ClearPending u16 | ClearAll

primrec alarm_inject_event :: "alarm_event \<Rightarrow> alarm_events \<Rightarrow> alarm_events" where
  "alarm_inject_event (ForcePending op) a = force_pending op a"
| "alarm_inject_event (ClearPending op) a = clear_pending op a"
| "alarm_inject_event ClearAll a = clear_all a"

section \<open>Residual registers\<close>

abbreviation SYSREG_BASE :: u32 where "SYSREG_BASE \<equiv> 0x01000000"
abbreviation SYSREG_SIZE :: u32 where "SYSREG_SIZE \<equiv> 0x3800"
abbreviation SYSREG_END :: u32 where "SYSREG_END \<equiv> SYSREG_BASE + SYSREG_SIZE"

record sysreg =
  sh_store :: "u32 list"
  sh_current_pc :: u32
  sh_current_insn :: u64

definition sysreg_new :: sysreg where
  "sysreg_new = \<lparr>sh_store = replicate (unat (SYSREG_SIZE div 4)) 0, sh_current_pc = 0, sh_current_insn = 0\<rparr>"

definition sysreg_claims :: "u32 \<Rightarrow> bool" where
  "sysreg_claims addr \<longleftrightarrow> SYSREG_BASE \<le> addr \<and> addr < SYSREG_END"

definition sysreg_context :: "u32 \<Rightarrow> u64 \<Rightarrow> sysreg \<Rightarrow> sysreg" where
  "sysreg_context pc insn s = s\<lparr>sh_current_pc := pc, sh_current_insn := insn\<rparr>"

definition sysreg_reset_cold :: "sysreg \<Rightarrow> sysreg" where
  "sysreg_reset_cold s =
     s\<lparr>sh_store := fold (\<lambda>(off, val) xs. xs[unat (off div 4) := val]) SYSREG_INIT_VALUES (map (\<lambda>_. 0) (sh_store s))\<rparr>"

definition store_read :: "u32 \<Rightarrow> sysreg \<Rightarrow> u32" where
  "store_read offset s =
     (let idx = unat (offset div 4) in if idx < length (sh_store s) then sh_store s ! idx else 0)"

definition sysreg_read_word :: "u32 \<Rightarrow> sysreg \<Rightarrow> u32" where
  "sysreg_read_word addr s = store_read (addr - SYSREG_BASE) s"

definition sysreg_write_word :: "u32 \<Rightarrow> u32 \<Rightarrow> sysreg \<Rightarrow> sysreg" where
  "sysreg_write_word addr val s =
     (let idx = unat ((addr - SYSREG_BASE) div 4)
      in if idx < length (sh_store s) then s\<lparr>sh_store := (sh_store s)[idx := val]\<rparr> else s)"

definition sysreg_read_half :: "u32 \<Rightarrow> sysreg \<Rightarrow> u16" where
  "sysreg_read_half addr s =
     (let off = addr - SYSREG_BASE; half_idx = drop_bit 1 off AND 1; word = store_read (off AND NOT 3) s
      in ucast (drop_bit (unat (16 - half_idx * 16)) word))"

definition sysreg_write_half :: "u32 \<Rightarrow> u16 \<Rightarrow> sysreg \<Rightarrow> sysreg" where
  "sysreg_write_half addr val s =
     (let off = addr - SYSREG_BASE; half_idx = drop_bit 1 off AND 1; idx = unat ((off AND NOT 3) div 4)
      in if idx < length (sh_store s) then
           let shift = unat (16 - half_idx * 16); msk = NOT (push_bit shift 0xFFFF)
           in s\<lparr>sh_store := (sh_store s)[idx := (sh_store s ! idx AND msk) OR push_bit shift (ucast val)]\<rparr>
         else s)"

definition sysreg_read_byte :: "u32 \<Rightarrow> sysreg \<Rightarrow> u8" where
  "sysreg_read_byte addr s =
     (let off = addr - SYSREG_BASE; byte_idx = off AND 3; word = store_read (off AND NOT 3) s
      in ucast (drop_bit (unat (24 - byte_idx * 8)) word))"

definition sysreg_write_byte :: "u32 \<Rightarrow> u8 \<Rightarrow> sysreg \<Rightarrow> sysreg" where
  "sysreg_write_byte addr val s =
     (let off = addr - SYSREG_BASE; byte_idx = off AND 3; idx = unat ((off AND NOT 3) div 4)
      in if idx < length (sh_store s) then
           let shift = unat (24 - byte_idx * 8); msk = NOT (push_bit shift 0xFF)
           in s\<lparr>sh_store := (sh_store s)[idx := (sh_store s ! idx AND msk) OR push_bit shift (ucast val)]\<rparr>
         else s)"

end
