(* ===== verification/Soc_Serdes.thy ===== *)
theory Soc_Serdes
  imports Soc_Stores
begin

text \<open>
  \<open>src/soc/serdes.rs\<close>: lane configuration and lock, the management buses of the lanes with their command bits, the
  mode words and a window of bytes. The tags for the history of accesses and the snapshots are left out.
\<close>

unbundle bit_operations_syntax

abbreviation SERDES_MAIN_BASE :: u32 where "SERDES_MAIN_BASE \<equiv> 0x01000174"
abbreviation SERDES_MAIN_END :: u32 where "SERDES_MAIN_END \<equiv> 0x010001F8"
abbreviation SERDES_LANE_BASE :: u32 where "SERDES_LANE_BASE \<equiv> 0x01002400"
abbreviation SERDES_LANE_END :: u32 where "SERDES_LANE_END \<equiv> 0x01002A00"
abbreviation REG_FATAL_ERROR_STATUS_MASK :: u32 where "REG_FATAL_ERROR_STATUS_MASK \<equiv> 0x01002804"
abbreviation SERDES_MODE_BASE :: u32 where "SERDES_MODE_BASE \<equiv> 0x01002D00"
abbreviation SERDES_MODE_END :: u32 where "SERDES_MODE_END \<equiv> 0x01002D40"
abbreviation SERDES_WINDOW_BASE :: u32 where "SERDES_WINDOW_BASE \<equiv> 0x224A0000"
abbreviation SERDES_WINDOW_END :: u32 where "SERDES_WINDOW_END \<equiv> 0x224A0800"
abbreviation LANE_COUNT :: nat where "LANE_COUNT \<equiv> 4"
abbreviation REG_PON_LANE_INDEX :: u32 where "REG_PON_LANE_INDEX \<equiv> 0x01000180"
abbreviation REG_LANE01_PRESENT_MASK :: u32 where "REG_LANE01_PRESENT_MASK \<equiv> 0x01000194"
abbreviation REG_UNI_LANE_INDEX :: u32 where "REG_UNI_LANE_INDEX \<equiv> 0x010001C0"
abbreviation REG_LANE23_PRESENT_MASK :: u32 where "REG_LANE23_PRESENT_MASK \<equiv> 0x010001D4"
abbreviation REG_LANE01_LINK_ARM :: u32 where "REG_LANE01_LINK_ARM \<equiv> 0x01000198"
abbreviation REG_LANE23_LINK_ARM :: u32 where "REG_LANE23_LINK_ARM \<equiv> 0x010001D8"
abbreviation LANE_ARM_MASK :: u32 where "LANE_ARM_MASK \<equiv> 0x0F000000"
abbreviation LANE_LOCK_MASK_01 :: u32 where "LANE_LOCK_MASK_01 \<equiv> 0xA"
abbreviation LANE_LOCK_DELAY_TICKS :: u64 where "LANE_LOCK_DELAY_TICKS \<equiv> 16"

datatype lane_speed = OneGigabit | TenGigabit | Pon1G | Pon10G

record lane_state =
  ls_enabled :: bool
  ls_locked :: bool
  ls_rx_los :: bool
  ls_speed :: lane_speed
  ls_mdio_address :: u8

definition lane_state_cold :: lane_state where
  "lane_state_cold = \<lparr>ls_enabled = False, ls_locked = False, ls_rx_los = False, ls_speed = Pon10G, ls_mdio_address = 0\<rparr>"

record serdes =
  sd_raw_store :: "u32 list"
  sd_lane_store :: "u32 list"
  sd_mode_store :: "u32 list"
  sd_cmd_pending_clear :: "u32 set"
  sd_lane_lock_countdown :: "u64 list"
  sd_lanes :: "lane_state list"
  sd_window :: "u8 list"
  sd_error_status :: u32

abbreviation in_main :: "u32 \<Rightarrow> bool" where "in_main addr \<equiv> SERDES_MAIN_BASE \<le> addr \<and> addr < SERDES_MAIN_END"
abbreviation in_lane :: "u32 \<Rightarrow> bool" where "in_lane addr \<equiv> SERDES_LANE_BASE \<le> addr \<and> addr < SERDES_LANE_END"
abbreviation in_mode :: "u32 \<Rightarrow> bool" where "in_mode addr \<equiv> SERDES_MODE_BASE \<le> addr \<and> addr < SERDES_MODE_END"
abbreviation in_window :: "u32 \<Rightarrow> bool" where "in_window addr \<equiv> SERDES_WINDOW_BASE \<le> addr \<and> addr < SERDES_WINDOW_END"

definition serdes_new :: serdes where
  "serdes_new =
     \<lparr>sd_raw_store = replicate (unat ((SERDES_MAIN_END - SERDES_MAIN_BASE) div 4)) 0,
      sd_lane_store = replicate (unat ((SERDES_LANE_END - SERDES_LANE_BASE) div 4)) 0,
      sd_mode_store = replicate (unat ((SERDES_MODE_END - SERDES_MODE_BASE) div 4)) 0, sd_cmd_pending_clear = {},
      sd_lane_lock_countdown = replicate LANE_COUNT 0, sd_lanes = replicate LANE_COUNT lane_state_cold,
      sd_window = replicate (unat (SERDES_WINDOW_END - SERDES_WINDOW_BASE)) 0, sd_error_status = 0\<rparr>"

definition serdes_claims :: "u32 \<Rightarrow> bool" where
  "serdes_claims addr \<longleftrightarrow> in_main addr \<or> in_lane addr \<or> in_mode addr \<or> in_window addr"

definition is_cmd_bit_register :: "u32 \<Rightarrow> bool" where
  "is_cmd_bit_register addr \<longleftrightarrow> addr \<in> set [0x0100240C, 0x01002644, 0x0100280C]"

text \<open>Bits 1 and 3 of the word of a pair of lanes show their locks.\<close>

definition compute_lane_lock :: "nat \<Rightarrow> (serdes, u32) op" where
  "compute_lane_lock lane_pair =
     (let addr = (if lane_pair = 0 then REG_LANE01_PRESENT_MASK else REG_LANE23_PRESENT_MASK)
      in bindM (index_at sd_raw_store (slot_index SERDES_MAIN_BASE addr)) (\<lambda>raw.
         bindM (index_at sd_lanes (lane_pair * 2)) (\<lambda>l0.
         bindM (index_at sd_lanes (lane_pair * 2 + 1)) (\<lambda>l1.
           returnM ((raw AND NOT LANE_LOCK_MASK_01) OR (if ls_locked l0 then push_bit 1 1 else 0)
             OR (if ls_locked l1 then push_bit 3 1 else 0))))))"

definition window_read :: "u32 \<Rightarrow> (serdes, u8) op" where
  "window_read offset = index_at sd_window (unat (offset - SERDES_WINDOW_BASE))"

definition window_write :: "u32 \<Rightarrow> u8 \<Rightarrow> (serdes, unit) op" where
  "window_write offset val = index_put sd_window sd_window_update (unat (offset - SERDES_WINDOW_BASE)) val"

definition spi_command :: "u8 list \<Rightarrow> nat \<Rightarrow> serdes \<Rightarrow> u8 list \<times> serdes" where
  "spi_command tx rx_len s = (replicate rx_len 0xFF, s)"

definition serdes_power_on :: "serdes \<Rightarrow> serdes" where
  "serdes_power_on =
     power_on (\<lambda>abs val s.
       if in_main abs then s\<lparr>sd_raw_store := (sd_raw_store s)[slot_index SERDES_MAIN_BASE abs := val]\<rparr>
       else if in_lane abs then s\<lparr>sd_lane_store := (sd_lane_store s)[slot_index SERDES_LANE_BASE abs := val]\<rparr>
       else if in_mode abs then s\<lparr>sd_mode_store := (sd_mode_store s)[slot_index SERDES_MODE_BASE abs := val]\<rparr>
       else s)"

definition serdes_read_word :: "u32 \<Rightarrow> (serdes, u32) op" where
  "serdes_read_word addr =
     (if in_window addr then
        bindM (window_read addr) (\<lambda>b0. bindM (window_read (addr + 1)) (\<lambda>b1.
        bindM (window_read (addr + 2)) (\<lambda>b2. bindM (window_read (addr + 3)) (\<lambda>b3.
          returnM (push_bit 24 (ucast b0) OR push_bit 16 (ucast b1) OR push_bit 8 (ucast b2) OR ucast b3)))))
      else if in_lane addr then
        (if addr = REG_FATAL_ERROR_STATUS_MASK then returnM 0
         else let idx = slot_index SERDES_LANE_BASE addr
              in bindM (index_at sd_lane_store idx) (\<lambda>val.
                 bindM (getsM sd_cmd_pending_clear) (\<lambda>pending.
                   if addr \<in> pending then
                     let v = val AND NOT 0x80000000
                     in thenM (modifyM (\<lambda>s. s\<lparr>sd_cmd_pending_clear := sd_cmd_pending_clear s - {addr}\<rparr>))
                          (thenM (index_put sd_lane_store sd_lane_store_update idx v) (returnM v))
                   else returnM val)))
      else if in_mode addr then index_at sd_mode_store (slot_index SERDES_MODE_BASE addr)
      else if addr = REG_LANE01_PRESENT_MASK then compute_lane_lock 0
      else if addr = REG_LANE23_PRESENT_MASK then compute_lane_lock 1
      else index_at sd_raw_store (slot_index SERDES_MAIN_BASE addr))"

definition serdes_peek_word :: "u32 \<Rightarrow> serdes \<Rightarrow> u32" where
  "serdes_peek_word addr s = 0"

text \<open>Selecting a lane enables and locks it\<close>

definition select_lane :: "nat \<Rightarrow> serdes \<Rightarrow> serdes" where
  "select_lane lane_idx s =
     (if lane_idx < LANE_COUNT
      then s\<lparr>sd_lanes := (sd_lanes s)[lane_idx := (sd_lanes s ! lane_idx)\<lparr>ls_enabled := True, ls_locked := True\<rparr>]\<rparr> else s)"

definition serdes_write_word :: "u32 \<Rightarrow> u32 \<Rightarrow> (serdes, unit) op" where
  "serdes_write_word addr val =
     (if in_window addr then
        thenM (window_write addr (ucast (drop_bit 24 val))) (thenM (window_write (addr + 1) (ucast (drop_bit 16 val)))
          (thenM (window_write (addr + 2) (ucast (drop_bit 8 val))) (window_write (addr + 3) (ucast val))))
      else if in_lane addr then
        (if addr = REG_FATAL_ERROR_STATUS_MASK then returnM ()
         else thenM (index_put sd_lane_store sd_lane_store_update (slot_index SERDES_LANE_BASE addr) val)
                (if is_cmd_bit_register addr \<and> val AND 0x80000000 \<noteq> 0
                 then modifyM (\<lambda>s. s\<lparr>sd_cmd_pending_clear := insert addr (sd_cmd_pending_clear s)\<rparr>) else returnM ()))
      else if in_mode addr then index_put sd_mode_store sd_mode_store_update (slot_index SERDES_MODE_BASE addr) val
      else
        let idx = slot_index SERDES_MAIN_BASE addr
        in if addr = REG_LANE01_LINK_ARM \<or> addr = REG_LANE23_LINK_ARM
           then index_put sd_raw_store sd_raw_store_update idx (val AND NOT LANE_ARM_MASK)
           else thenM (if addr = REG_PON_LANE_INDEX then modifyM (select_lane (unat (val AND 3)))
                       else if addr = REG_UNI_LANE_INDEX then modifyM (select_lane (2 + unat (drop_bit 20 val AND 3)))
                       else returnM ())
                  (index_put sd_raw_store sd_raw_store_update idx val))"

definition serdes_read_byte :: "u32 \<Rightarrow> (serdes, u8) op" where
  "serdes_read_byte addr = (if in_window addr then window_read addr else op_read_byte serdes_read_word addr)"

definition serdes_write_byte :: "u32 \<Rightarrow> u8 \<Rightarrow> (serdes, unit) op" where
  "serdes_write_byte addr val =
     (if in_window addr then window_write addr val else op_write_byte serdes_read_word serdes_write_word addr val)"

text \<open>One lane and its countdown\<close>

definition tick_lane :: "lane_state \<times> u64 \<Rightarrow> lane_state \<times> u64" where
  "tick_lane lc =
     (case lc of (l, c) \<Rightarrow>
        if ls_enabled l \<and> \<not> ls_locked l \<and> \<not> ls_rx_los l then
          (if c + 1 \<ge> LANE_LOCK_DELAY_TICKS then (l\<lparr>ls_locked := True\<rparr>, 0) else (l, c + 1))
        else if \<not> ls_enabled l \<or> ls_rx_los l then (l, 0)
        else (l, c))"

definition serdes_tick :: "serdes \<Rightarrow> serdes" where
  "serdes_tick s =
     (let lcs = map tick_lane (zip (sd_lanes s) (sd_lane_lock_countdown s))
      in s\<lparr>sd_lanes := map fst lcs, sd_lane_lock_countdown := map snd lcs\<rparr>)"

definition serdes_reset_cold :: "serdes \<Rightarrow> serdes" where
  "serdes_reset_cold s =
     serdes_power_on (s\<lparr>sd_raw_store := replicate (unat ((SERDES_MAIN_END - SERDES_MAIN_BASE) div 4)) 0,
       sd_lane_store := map (\<lambda>_. 0) (sd_lane_store s), sd_mode_store := map (\<lambda>_. 0) (sd_mode_store s),
       sd_cmd_pending_clear := {}, sd_lane_lock_countdown := replicate LANE_COUNT 0,
       sd_lanes := replicate LANE_COUNT lane_state_cold, sd_window := map (\<lambda>_. 0) (sd_window s), sd_error_status := 0\<rparr>)"

datatype serdes_event =
  SetLaneEnabled u8 bool | SetLinkLocked u8 bool | InjectRxLos u8 bool | SetLaneSpeed u8 lane_speed | ClearErrorStatus

text \<open>\<open>None\<close>: the index of the lane is refused\<close>

definition with_lane :: "u8 \<Rightarrow> (lane_state \<Rightarrow> lane_state) \<Rightarrow> serdes \<Rightarrow> serdes option" where
  "with_lane lane f s =
     (let l = unat lane
      in if l \<ge> LANE_COUNT then None else Some (s\<lparr>sd_lanes := (sd_lanes s)[l := f (sd_lanes s ! l)]\<rparr>))"

primrec serdes_inject_event :: "serdes_event \<Rightarrow> serdes \<Rightarrow> serdes option" where
  "serdes_inject_event (SetLaneEnabled lane enabled) s =
     with_lane lane (\<lambda>l. l\<lparr>ls_enabled := enabled, ls_locked := enabled \<and> ls_locked l\<rparr>) s"
| "serdes_inject_event (SetLinkLocked lane locked) s = with_lane lane (\<lambda>l. l\<lparr>ls_locked := locked\<rparr>) s"
| "serdes_inject_event (InjectRxLos lane los) s =
     with_lane lane (\<lambda>l. l\<lparr>ls_rx_los := los, ls_locked := \<not> los \<and> ls_locked l\<rparr>) s"
| "serdes_inject_event (SetLaneSpeed lane speed) s = with_lane lane (\<lambda>l. l\<lparr>ls_speed := speed\<rparr>) s"
| "serdes_inject_event ClearErrorStatus s = Some (s\<lparr>sd_error_status := 0\<rparr>)"

end
