(* ===== verification/Soc_Epon.thy ===== *)
theory Soc_Epon
  imports Soc_Stores
begin

text \<open>
  \<open>src/soc/epon_mac.rs\<close>: the sparse core registers of the MAC, the tables of the link identifiers and the blocks per
  identifier with their interrupt words, queue pointers and latched counters. A \<open>HashMap\<close> is a map.
\<close>

unbundle bit_operations_syntax

abbreviation CHIP_ID_VALUE :: u32 where "CHIP_ID_VALUE \<equiv> 0x47010203"
abbreviation CHIP_REV_VALUE :: u32 where "CHIP_REV_VALUE \<equiv> 0xB2110816"
abbreviation LLID_CAPTURE_MASK_RESET :: u32 where "LLID_CAPTURE_MASK_RESET \<equiv> 0"
abbreviation LLID_ACTIVE_RESET :: u32 where "LLID_ACTIVE_RESET \<equiv> 0"
abbreviation RX_GRANT_MASK_RESET :: u32 where "RX_GRANT_MASK_RESET \<equiv> 0x0000FFFF"
abbreviation LLID_COUNTER_MASK_RESET :: u32 where "LLID_COUNTER_MASK_RESET \<equiv> 0x00077FF7"
abbreviation LLID_SLOT_COUNT :: nat where "LLID_SLOT_COUNT \<equiv> 6"
abbreviation EPON_LLID_BASE :: u32 where "EPON_LLID_BASE \<equiv> 0x01001400"
abbreviation EPON_LLID_STRIDE :: u32 where "EPON_LLID_STRIDE \<equiv> 0x00000200"
abbreviation EPON_LLID_TOP :: u32 where "EPON_LLID_TOP \<equiv> 0x01002000"
abbreviation REG_REPORT_FRAME_PARAMS :: u32 where "REG_REPORT_FRAME_PARAMS \<equiv> 0x010004D8"
abbreviation REG_REPORT_FRAME_LEN :: u32 where "REG_REPORT_FRAME_LEN \<equiv> 0x0100052C"
abbreviation EPON_TABLE_BASE :: u32 where "EPON_TABLE_BASE \<equiv> 0x01000400"
abbreviation EPON_TABLE_END :: u32 where "EPON_TABLE_END \<equiv> 0x01000E80"
abbreviation REG_CHIP_ID :: u32 where "REG_CHIP_ID \<equiv> 0x01000000"
abbreviation REG_CHIP_REV :: u32 where "REG_CHIP_REV \<equiv> 0x01000004"
abbreviation REG_LLID_CAPTURE_MASK :: u32 where "REG_LLID_CAPTURE_MASK \<equiv> 0x0100000C"
abbreviation REG_LLID_ACTIVE_BITMAP :: u32 where "REG_LLID_ACTIVE_BITMAP \<equiv> 0x01000018"
abbreviation REG_LLID_MASK_CONTROL :: u32 where "REG_LLID_MASK_CONTROL \<equiv> 0x01000020"
abbreviation REG_LLID_COUNTER_MASK :: u32 where "REG_LLID_COUNTER_MASK \<equiv> 0x01000024"
abbreviation REG_TX_GRANT_MASK :: u32 where "REG_TX_GRANT_MASK \<equiv> 0x01000028"
abbreviation REG_RX_GRANT_MASK :: u32 where "REG_RX_GRANT_MASK \<equiv> 0x01000030"
abbreviation REG_IRQ_MASK :: u32 where "REG_IRQ_MASK \<equiv> 0x01000034"
abbreviation REG_EPON_STATUS :: u32 where "REG_EPON_STATUS \<equiv> 0x01000044"
abbreviation REG_ACTIVE_FLAGS :: u32 where "REG_ACTIVE_FLAGS \<equiv> 0x01000054"
abbreviation REG_MDIO_COMMAND :: u32 where "REG_MDIO_COMMAND \<equiv> 0x01000060"
abbreviation REG_1G_LINK_STATUS :: u32 where "REG_1G_LINK_STATUS \<equiv> 0x01000410"
abbreviation REG_HW_STATE_STATUS :: u32 where "REG_HW_STATE_STATUS \<equiv> 0x01000E04"
abbreviation REG_SPECIAL_0064 :: u32 where "REG_SPECIAL_0064 \<equiv> 0x01000064"
abbreviation REG_DISCOVERY_STATUS :: u32 where "REG_DISCOVERY_STATUS \<equiv> 0x01001040"

definition LLID_ANCHOR_ADDRS :: "u32 list" where
  "LLID_ANCHOR_ADDRS = [0x0100043C, 0x010004B8, 0x01000D00, 0x01000D7C]"

record epon_mac =
  em_table_store :: "u32 list"
  em_llid_store :: "u32 list"
  em_llid_irq_pending :: "u32 list"
  em_llid_drain_flag :: "bool list"
  em_queue_arrivals :: "nat \<times> u32 \<rightharpoonup> u64"
  em_latch_cmd :: "u32 list"
  em_unattributed_counter_reads :: u64
  em_llid_capture_mask :: u32
  em_llid_active_bitmap :: u32
  em_llid_mask_control :: u32
  em_llid_counter_mask :: u32
  em_tx_grant_mask :: u32
  em_rx_grant_mask :: u32
  em_irq_mask :: u32
  em_epon_status :: u32
  em_active_flags :: u32
  em_link_status_1g :: u32
  em_hw_state_status :: u32
  em_discovery_status :: u32
  em_special_0064 :: u32

abbreviation in_llid :: "u32 \<Rightarrow> bool" where "in_llid addr \<equiv> EPON_LLID_BASE \<le> addr \<and> addr < EPON_LLID_TOP"
abbreviation in_table :: "u32 \<Rightarrow> bool" where "in_table addr \<equiv> EPON_TABLE_BASE \<le> addr \<and> addr < EPON_TABLE_END"

definition set_1g_link_change_bit :: "epon_mac \<Rightarrow> epon_mac" where
  "set_1g_link_change_bit e = e\<lparr>em_link_status_1g := em_link_status_1g e OR 2\<rparr>"

definition set_phy_link_status_bit :: "epon_mac \<Rightarrow> epon_mac" where
  "set_phy_link_status_bit e = e\<lparr>em_hw_state_status := em_hw_state_status e OR 0x40\<rparr>"

definition clear_phy_link_status_bit :: "epon_mac \<Rightarrow> epon_mac" where
  "clear_phy_link_status_bit e = e\<lparr>em_hw_state_status := em_hw_state_status e AND NOT 0x40\<rparr>"

definition set_discovery_status_bit :: "epon_mac \<Rightarrow> epon_mac" where
  "set_discovery_status_bit e = e\<lparr>em_discovery_status := em_discovery_status e OR 4\<rparr>"

definition poke_llid_store :: "u32 \<Rightarrow> u32 \<Rightarrow> epon_mac \<Rightarrow> epon_mac" where
  "poke_llid_store addr val e =
     (if in_llid addr then e\<lparr>em_llid_store := (em_llid_store e)[slot_index EPON_LLID_BASE addr := val]\<rparr> else e)"

definition poke_table_store :: "u32 \<Rightarrow> u32 \<Rightarrow> epon_mac \<Rightarrow> epon_mac" where
  "poke_table_store addr val e =
     (if in_table addr then e\<lparr>em_table_store := (em_table_store e)[slot_index EPON_TABLE_BASE addr := val]\<rparr> else e)"

definition peek_llid_store :: "u32 \<Rightarrow> epon_mac \<Rightarrow> u32" where
  "peek_llid_store addr e = (if in_llid addr then em_llid_store e ! slot_index EPON_LLID_BASE addr else 0)"

definition CORE_REGS :: "u32 list" where
  "CORE_REGS =
     [REG_CHIP_ID, REG_CHIP_REV, REG_LLID_CAPTURE_MASK, REG_LLID_ACTIVE_BITMAP, REG_LLID_MASK_CONTROL, REG_LLID_COUNTER_MASK,
      REG_TX_GRANT_MASK, REG_RX_GRANT_MASK, REG_IRQ_MASK, REG_EPON_STATUS, REG_ACTIVE_FLAGS, REG_MDIO_COMMAND,
      REG_SPECIAL_0064, REG_1G_LINK_STATUS, REG_HW_STATE_STATUS, REG_DISCOVERY_STATUS]"

definition epon_claims :: "u32 \<Rightarrow> bool" where
  "epon_claims addr \<longleftrightarrow> addr AND NOT 3 \<in> set CORE_REGS \<or> in_table addr \<or> in_llid addr"

definition record_queue_arrivals :: "u8 \<Rightarrow> u64 \<Rightarrow> epon_mac \<Rightarrow> epon_mac" where
  "record_queue_arrivals slot frames e =
     (if frames = 0 then e
      else
        let chan = unat (drop_bit 5 slot); queue = ucast (slot AND 0x1F);
            before = (case em_queue_arrivals e (chan, queue) of None \<Rightarrow> 0 | Some n \<Rightarrow> n)
        in e\<lparr>em_queue_arrivals := (em_queue_arrivals e)((chan, queue) \<mapsto> before + frames)\<rparr>)"

definition queue_arrivals :: "nat \<Rightarrow> u32 \<Rightarrow> epon_mac \<Rightarrow> u64" where
  "queue_arrivals chan queue e = (case em_queue_arrivals e (chan, queue) of None \<Rightarrow> 0 | Some n \<Rightarrow> n)"

definition write_latch_cmd :: "nat \<Rightarrow> u32 \<Rightarrow> epon_mac \<Rightarrow> epon_mac" where
  "write_latch_cmd slot val e = e\<lparr>em_latch_cmd := (em_latch_cmd e)[slot := val AND NOT 0x80000000]\<rparr>"

definition peek_latched_counter :: "nat \<Rightarrow> epon_mac \<Rightarrow> u32" where
  "peek_latched_counter slot e =
     (let queue = drop_bit 4 (em_latch_cmd e ! slot) AND 0x1F in ucast (queue_arrivals slot queue e))"

definition latched_counter :: "nat \<Rightarrow> epon_mac \<Rightarrow> u32 \<times> epon_mac" where
  "latched_counter slot e =
     (peek_latched_counter slot e, e\<lparr>em_unattributed_counter_reads := em_unattributed_counter_reads e + 1\<rparr>)"

definition queue_pointer_word :: "nat \<Rightarrow> u32 \<Rightarrow> epon_mac \<Rightarrow> u32" where
  "queue_pointer_word slot addr e =
     (let selector = em_llid_store e ! slot_index EPON_LLID_BASE addr AND 0x3F;
          queue = selector AND 0x1F;
          cfg_addr = EPON_LLID_BASE + of_nat slot * EPON_LLID_STRIDE + 0x80 + queue * 4;
          start = em_llid_store e ! slot_index EPON_LLID_BASE cfg_addr AND 0x7FF;
          pointer_field = push_bit 6 start AND 0x3FFFF;
          drain = (if em_llid_drain_flag e ! slot then 0x100 else 0)
      in push_bit 9 pointer_field OR drain OR selector)"

definition llid_slot :: "u32 \<Rightarrow> nat \<times> u32" where
  "llid_slot addr = (let rel = addr - EPON_LLID_BASE in (unat (rel div EPON_LLID_STRIDE), rel mod EPON_LLID_STRIDE))"

text \<open>The core registers that hold what was written\<close>

definition core_reg_put :: "u32 \<Rightarrow> u32 \<Rightarrow> epon_mac \<Rightarrow> epon_mac option" where
  "core_reg_put addr val e =
     (if addr = REG_LLID_CAPTURE_MASK then Some (e\<lparr>em_llid_capture_mask := val\<rparr>)
      else if addr = REG_LLID_ACTIVE_BITMAP then Some (e\<lparr>em_llid_active_bitmap := val\<rparr>)
      else if addr = REG_LLID_MASK_CONTROL then Some (e\<lparr>em_llid_mask_control := val\<rparr>)
      else if addr = REG_LLID_COUNTER_MASK then Some (e\<lparr>em_llid_counter_mask := val\<rparr>)
      else if addr = REG_TX_GRANT_MASK then Some (e\<lparr>em_tx_grant_mask := val\<rparr>)
      else if addr = REG_RX_GRANT_MASK then Some (e\<lparr>em_rx_grant_mask := val\<rparr>)
      else if addr = REG_IRQ_MASK then Some (e\<lparr>em_irq_mask := val\<rparr>)
      else if addr = REG_ACTIVE_FLAGS then Some (e\<lparr>em_active_flags := val\<rparr>)
      else if addr = REG_SPECIAL_0064 then Some (e\<lparr>em_special_0064 := val\<rparr>)
      else None)"

definition write_store_no_side_effects :: "u32 \<Rightarrow> u32 \<Rightarrow> epon_mac \<Rightarrow> epon_mac" where
  "write_store_no_side_effects addr val e =
     (if addr \<in> set [REG_CHIP_ID, REG_CHIP_REV, REG_MDIO_COMMAND, REG_HW_STATE_STATUS] then e
      else if addr = REG_EPON_STATUS then e\<lparr>em_epon_status := val\<rparr>
      else case core_reg_put addr val e of
             Some e' \<Rightarrow> e'
           | None \<Rightarrow> (if in_table addr then poke_table_store addr val e
                      else if in_llid addr then poke_llid_store addr val e else e))"

definition epon_power_on :: "epon_mac \<Rightarrow> epon_mac" where
  "epon_power_on = power_on (\<lambda>abs val e. if epon_claims abs then write_store_no_side_effects abs val e else e)"

definition epon_new :: epon_mac where
  "epon_new =
     epon_power_on
       \<lparr>em_table_store = replicate (unat ((EPON_TABLE_END - EPON_TABLE_BASE) div 4)) 0,
        em_llid_store = replicate (unat ((EPON_LLID_TOP - EPON_LLID_BASE) div 4)) 0,
        em_llid_irq_pending = replicate LLID_SLOT_COUNT 0, em_llid_drain_flag = replicate LLID_SLOT_COUNT True,
        em_queue_arrivals = Map.empty, em_latch_cmd = replicate LLID_SLOT_COUNT 0, em_unattributed_counter_reads = 0,
        em_llid_capture_mask = LLID_CAPTURE_MASK_RESET, em_llid_active_bitmap = LLID_ACTIVE_RESET, em_llid_mask_control = 0,
        em_llid_counter_mask = LLID_COUNTER_MASK_RESET, em_tx_grant_mask = 0, em_rx_grant_mask = RX_GRANT_MASK_RESET,
        em_irq_mask = 0, em_epon_status = 0, em_active_flags = 0, em_link_status_1g = 0, em_hw_state_status = 0,
        em_discovery_status = 0, em_special_0064 = 0\<rparr>"

definition core_reg_get :: "u32 \<Rightarrow> epon_mac \<Rightarrow> u32 option" where
  "core_reg_get addr e =
     (if addr = REG_CHIP_ID then Some CHIP_ID_VALUE
      else if addr = REG_CHIP_REV then Some CHIP_REV_VALUE
      else if addr = REG_LLID_CAPTURE_MASK then Some (em_llid_capture_mask e)
      else if addr = REG_LLID_ACTIVE_BITMAP then Some (em_llid_active_bitmap e)
      else if addr = REG_LLID_MASK_CONTROL then Some (em_llid_mask_control e)
      else if addr = REG_LLID_COUNTER_MASK then Some (em_llid_counter_mask e)
      else if addr = REG_TX_GRANT_MASK then Some (em_tx_grant_mask e)
      else if addr = REG_RX_GRANT_MASK then Some (em_rx_grant_mask e)
      else if addr = REG_IRQ_MASK then Some (em_irq_mask e)
      else if addr = REG_EPON_STATUS then Some (em_epon_status e)
      else if addr = REG_ACTIVE_FLAGS then Some (em_active_flags e)
      else if addr = REG_MDIO_COMMAND then Some 0
      else if addr = REG_SPECIAL_0064 then Some (em_special_0064 e)
      else if addr = REG_1G_LINK_STATUS then Some (em_link_status_1g e)
      else if addr = REG_HW_STATE_STATUS then Some (em_hw_state_status e)
      else if addr = REG_DISCOVERY_STATUS then Some (em_discovery_status e)
      else None)"

definition epon_peek_word :: "u32 \<Rightarrow> epon_mac \<Rightarrow> u32" where
  "epon_peek_word addr e =
     (case core_reg_get addr e of
        Some v \<Rightarrow> v
      | None \<Rightarrow>
          if in_llid addr then
            (case llid_slot addr of (slot, within) \<Rightarrow>
               if slot < LLID_SLOT_COUNT \<and> within = 0x04 then em_llid_irq_pending e ! slot
               else if slot < LLID_SLOT_COUNT \<and> within = 0x3C then queue_pointer_word slot addr e
               else if slot < LLID_SLOT_COUNT \<and> within = 0x1D8 then peek_latched_counter slot e
               else em_llid_store e ! slot_index EPON_LLID_BASE addr)
          else if in_table addr then em_table_store e ! slot_index EPON_TABLE_BASE addr
          else 0)"

definition epon_report_template :: "epon_mac \<Rightarrow> u16 \<times> u16" where
  "epon_report_template e =
     (ucast (drop_bit 16 (epon_peek_word REG_REPORT_FRAME_PARAMS e)), ucast (epon_peek_word REG_REPORT_FRAME_LEN e))"

definition epon_read_word :: "u32 \<Rightarrow> epon_mac \<Rightarrow> u32 \<times> epon_mac" where
  "epon_read_word addr e =
     (case core_reg_get addr e of
        Some v \<Rightarrow> (v, e)
      | None \<Rightarrow>
          if in_llid addr then
            (case llid_slot addr of (slot, within) \<Rightarrow>
               if slot < LLID_SLOT_COUNT \<and> within = 0x04 then (em_llid_irq_pending e ! slot, e)
               else if slot < LLID_SLOT_COUNT \<and> within = 0x3C then (queue_pointer_word slot addr e, e)
               else if slot < LLID_SLOT_COUNT \<and> within = 0x1D8 then latched_counter slot e
               else (em_llid_store e ! slot_index EPON_LLID_BASE addr, e))
          else if in_table addr then (em_table_store e ! slot_index EPON_TABLE_BASE addr, e)
          else (0, e))"

text \<open>A write to the block of an identifier\<close>

definition llid_write :: "u32 \<Rightarrow> u32 \<Rightarrow> epon_mac \<Rightarrow> epon_mac" where
  "llid_write addr val e =
     (case llid_slot addr of (slot, within) \<Rightarrow>
        if slot < LLID_SLOT_COUNT \<and> within = 0x04 then
          e\<lparr>em_llid_irq_pending := (em_llid_irq_pending e)[slot := em_llid_irq_pending e ! slot AND NOT val]\<rparr>
        else if slot < LLID_SLOT_COUNT \<and> within = 0x1D4 then write_latch_cmd slot val e
        else if slot < LLID_SLOT_COUNT \<and> within = 0x3C then
          poke_llid_store addr (val AND NOT 0x100)
            (if val AND 0x100 \<noteq> 0 then e\<lparr>em_llid_drain_flag := (em_llid_drain_flag e)[slot := False]\<rparr> else e)
        else poke_llid_store addr val e)"

definition epon_write_word :: "u32 \<Rightarrow> u32 \<Rightarrow> epon_mac \<Rightarrow> epon_mac" where
  "epon_write_word addr val e =
     (if addr = REG_CHIP_ID \<or> addr = REG_CHIP_REV then e
      else if addr = REG_EPON_STATUS then e\<lparr>em_epon_status := val AND NOT 1\<rparr>
      else if addr = REG_MDIO_COMMAND then e
      else if addr = REG_1G_LINK_STATUS then e\<lparr>em_link_status_1g := em_link_status_1g e AND NOT val\<rparr>
      else if addr = REG_HW_STATE_STATUS then e\<lparr>em_hw_state_status := em_hw_state_status e AND NOT val\<rparr>
      else if addr = REG_DISCOVERY_STATUS then
        e\<lparr>em_discovery_status := (em_discovery_status e AND NOT (val AND 6)) OR (val AND NOT 6)\<rparr>
      else case core_reg_put addr val e of
             Some e' \<Rightarrow> e'
           | None \<Rightarrow>
               if in_llid addr then llid_write addr val e
               else if in_table addr then poke_table_store addr (if addr \<in> set LLID_ANCHOR_ADDRS then val AND NOT 1 else val) e
               else e)"

definition epon_tick :: "epon_mac \<Rightarrow> epon_mac" where
  "epon_tick e = e\<lparr>em_llid_drain_flag := map (\<lambda>_. True) (em_llid_drain_flag e)\<rparr>"

definition epon_reset_cold :: "epon_mac \<Rightarrow> epon_mac" where
  "epon_reset_cold e =
     epon_power_on
       (e\<lparr>em_table_store := map (\<lambda>_. 0) (em_table_store e), em_llid_store := map (\<lambda>_. 0) (em_llid_store e),
          em_llid_irq_pending := replicate LLID_SLOT_COUNT 0, em_llid_drain_flag := replicate LLID_SLOT_COUNT True,
          em_queue_arrivals := Map.empty, em_latch_cmd := replicate LLID_SLOT_COUNT 0, em_unattributed_counter_reads := 0,
          em_llid_capture_mask := LLID_CAPTURE_MASK_RESET, em_llid_active_bitmap := LLID_ACTIVE_RESET, em_llid_mask_control := 0,
          em_llid_counter_mask := LLID_COUNTER_MASK_RESET, em_tx_grant_mask := 0, em_rx_grant_mask := RX_GRANT_MASK_RESET,
          em_irq_mask := 0, em_epon_status := 0, em_active_flags := 0, em_link_status_1g := 0, em_hw_state_status := 0,
          em_discovery_status := 0, em_special_0064 := 0\<rparr>)"

datatype epon_event = SetLlidActive u8 bool | InjectLlidInterrupt u8 | ResetCounters

text \<open>The shift distance is taken modulo the width, as in a release build.\<close>

primrec epon_inject_event :: "epon_event \<Rightarrow> epon_mac \<Rightarrow> epon_mac" where
  "epon_inject_event (SetLlidActive llid active) e =
     (let bit' = push_bit (unat llid mod 32) 1
      in e\<lparr>em_llid_active_bitmap := (if active then em_llid_active_bitmap e OR bit' else em_llid_active_bitmap e AND NOT bit')\<rparr>)"
| "epon_inject_event (InjectLlidInterrupt llid) e =
     (let slot = unat llid mod LLID_SLOT_COUNT
      in e\<lparr>em_llid_irq_pending := (em_llid_irq_pending e)[slot := em_llid_irq_pending e ! slot OR push_bit (unat (llid AND 0x1F)) 1]\<rparr>)"
| "epon_inject_event ResetCounters e = e"

end
