(* ===== verification/Soc_Scenario.thy ===== *)
theory Soc_Scenario
  imports Prelude
begin

text \<open>
  \<open>src/soc/scenario.rs\<close>: overrides of registers, scheduled events and watchpoints on accesses. A \<open>HashMap\<close> is a map, the
  \<open>BTreeMap\<close> of instants a list sorted by key. The parsers of JSON files are left out.
\<close>

unbundle bit_operations_syntax

section \<open>Overrides\<close>

datatype override_spec = StaticRead u32 | OneShotRead u32 u32 | MaskedWriteIgnore u32

record mmio_override =
  mo_spec :: override_spec
  mo_label :: "string option"

type_synonym override_registry = "u32 \<rightharpoonup> mmio_override"

definition override_set :: "u32 \<Rightarrow> override_spec \<Rightarrow> string option \<Rightarrow> override_registry \<Rightarrow> override_registry" where
  "override_set addr spec label r = r(addr AND NOT 3 \<mapsto> \<lparr>mo_spec = spec, mo_label = label\<rparr>)"

definition override_remove :: "u32 \<Rightarrow> override_registry \<Rightarrow> bool \<times> override_registry" where
  "override_remove addr r = (r (addr AND NOT 3) \<noteq> None, r(addr AND NOT 3 := None))"

definition override_clear :: "override_registry \<Rightarrow> override_registry" where
  "override_clear r = Map.empty"

definition peek_read :: "u32 \<Rightarrow> override_registry \<Rightarrow> u32 option" where
  "peek_read addr r =
     (case r (addr AND NOT 3) of
        None \<Rightarrow> None
      | Some ov \<Rightarrow>
          (case mo_spec ov of
             StaticRead value \<Rightarrow> Some value
           | OneShotRead value remaining \<Rightarrow> if remaining > 0 then Some value else None
           | MaskedWriteIgnore msk \<Rightarrow> None))"

definition try_read :: "u32 \<Rightarrow> override_registry \<Rightarrow> u32 option \<times> override_registry" where
  "try_read addr r =
     (let aligned = addr AND NOT 3
      in case r aligned of
           None \<Rightarrow> (None, r)
         | Some ov \<Rightarrow>
             (case mo_spec ov of
                StaticRead value \<Rightarrow> (Some value, r)
              | OneShotRead value remaining \<Rightarrow>
                  if remaining = 0 then (None, r)
                  else (Some value,
                        if remaining - 1 = 0 then r(aligned := None)
                        else r(aligned \<mapsto> ov\<lparr>mo_spec := OneShotRead value (remaining - 1)\<rparr>))
              | MaskedWriteIgnore msk \<Rightarrow> (None, r)))"

definition filter_write :: "u32 \<Rightarrow> u32 \<Rightarrow> override_registry \<Rightarrow> u32 option" where
  "filter_write addr val r =
     (case r (addr AND NOT 3) of
        None \<Rightarrow> None
      | Some ov \<Rightarrow> (case mo_spec ov of MaskedWriteIgnore msk \<Rightarrow> Some (val AND NOT msk) | _ \<Rightarrow> None))"

section \<open>Events\<close>

datatype scenario_trigger = AtInstruction u64 | OnMmioRead u32 u32 | OnMmioWrite u32 u32

datatype scenario_effect =
  SetOverride u32 override_spec "string option" | RemoveOverride u32 | WriteMmio u32 u32 | PauseRun

record scheduled_event =
  ev_id :: u32
  ev_trigger :: scenario_trigger
  ev_effect :: scenario_effect
  ev_label :: "string option"
  ev_fired :: bool
  ev_repeat :: bool

datatype value_condition = MaskEqual u32 u32

primrec condition_matches :: "u32 \<Rightarrow> value_condition \<Rightarrow> bool" where
  "condition_matches value (MaskEqual msk expect) \<longleftrightarrow> value AND msk = expect"

datatype mmio_watch_mode = WatchRead | WatchWrite | WatchReadWrite

datatype mmio_watch_action = WatchPause | WatchFire scenario_effect

record mmio_watchpoint =
  wp_id :: u32
  wp_address :: u32
  wp_size :: u32
  wp_mode :: mmio_watch_mode
  wp_action :: mmio_watch_action
  wp_label :: "string option"
  wp_condition :: "value_condition option"

record scenario =
  sn_overrides :: override_registry
  sn_events :: "scheduled_event list"
  sn_next_event_id :: u32
  sn_insn_queue :: "(u64 \<times> nat list) list"
  sn_read_triggers :: "u32 \<rightharpoonup> nat list"
  sn_write_triggers :: "u32 \<rightharpoonup> nat list"
  sn_read_counts :: "u32 \<rightharpoonup> u32"
  sn_write_counts :: "u32 \<rightharpoonup> u32"
  sn_watchpoints :: "mmio_watchpoint list"
  sn_next_wp_id :: u32
  sn_pause_requested :: bool
  sn_deferred_writes :: "(u32 \<times> u32) list"
  sn_serdes_cal_converged :: bool

definition scenario_new :: scenario where
  "scenario_new =
     \<lparr>sn_overrides = Map.empty, sn_events = [], sn_next_event_id = 0, sn_insn_queue = [], sn_read_triggers = Map.empty,
      sn_write_triggers = Map.empty, sn_read_counts = Map.empty, sn_write_counts = Map.empty, sn_watchpoints = [],
      sn_next_wp_id = 0, sn_pause_requested = False, sn_deferred_writes = [], sn_serdes_cal_converged = False\<rparr>"

text \<open>\<open>entry(key).or_default().push(idx)\<close>, for the sorted map and for the hash maps\<close>

fun queue_push :: "u64 \<Rightarrow> nat \<Rightarrow> (u64 \<times> nat list) list \<Rightarrow> (u64 \<times> nat list) list" where
  "queue_push n idx [] = [(n, [idx])]"
| "queue_push n idx ((k, is) # q) =
     (if n < k then (n, [idx]) # (k, is) # q else if n = k then (k, is @ [idx]) # q else (k, is) # queue_push n idx q)"

definition trigger_push :: "u32 \<Rightarrow> nat \<Rightarrow> (u32 \<rightharpoonup> nat list) \<Rightarrow> u32 \<rightharpoonup> nat list" where
  "trigger_push addr idx m = m(addr \<mapsto> (case m addr of None \<Rightarrow> [] | Some is \<Rightarrow> is) @ [idx])"

definition schedule_ex ::
  "scenario_trigger \<Rightarrow> scenario_effect \<Rightarrow> string option \<Rightarrow> bool \<Rightarrow> scenario \<Rightarrow> u32 \<times> scenario" where
  "schedule_ex trigger effect label repeat' s0 =
     (let event_id = sn_next_event_id s0; idx = length (sn_events s0);
          s = s0\<lparr>sn_next_event_id := event_id + 1,
                 sn_events := sn_events s0 @ [\<lparr>ev_id = event_id, ev_trigger = trigger, ev_effect = effect, ev_label = label,
                                              ev_fired = False, ev_repeat = repeat'\<rparr>]\<rparr>
      in (event_id,
          case trigger of
            AtInstruction n \<Rightarrow> s\<lparr>sn_insn_queue := queue_push n idx (sn_insn_queue s)\<rparr>
          | OnMmioRead address _ \<Rightarrow> s\<lparr>sn_read_triggers := trigger_push (address AND NOT 3) idx (sn_read_triggers s)\<rparr>
          | OnMmioWrite address _ \<Rightarrow> s\<lparr>sn_write_triggers := trigger_push (address AND NOT 3) idx (sn_write_triggers s)\<rparr>))"

definition schedule :: "scenario_trigger \<Rightarrow> scenario_effect \<Rightarrow> string option \<Rightarrow> scenario \<Rightarrow> u32 \<times> scenario" where
  "schedule trigger effect label s = schedule_ex trigger effect label False s"

fun cancel_event :: "u32 \<Rightarrow> scheduled_event list \<Rightarrow> bool \<times> scheduled_event list" where
  "cancel_event i [] = (False, [])"
| "cancel_event i (e # es) =
     (if ev_id e = i \<and> \<not> ev_fired e then (True, e\<lparr>ev_fired := True\<rparr> # es)
      else case cancel_event i es of (b, es') \<Rightarrow> (b, e # es'))"

definition scenario_cancel :: "u32 \<Rightarrow> scenario \<Rightarrow> bool \<times> scenario" where
  "scenario_cancel i s = (case cancel_event i (sn_events s) of (b, es) \<Rightarrow> (b, s\<lparr>sn_events := es\<rparr>))"

primrec apply_effect :: "scenario_effect \<Rightarrow> scenario \<Rightarrow> scenario" where
  "apply_effect (SetOverride address spec label) s = s\<lparr>sn_overrides := override_set address spec label (sn_overrides s)\<rparr>"
| "apply_effect (RemoveOverride address) s = s\<lparr>sn_overrides := snd (override_remove address (sn_overrides s))\<rparr>"
| "apply_effect (WriteMmio address value) s = s\<lparr>sn_deferred_writes := sn_deferred_writes s @ [(address, value)]\<rparr>"
| "apply_effect PauseRun s = s\<lparr>sn_pause_requested := True\<rparr>"

definition fire_event :: "nat \<Rightarrow> scenario \<Rightarrow> scenario" where
  "fire_event idx s0 =
     (let s = apply_effect (ev_effect (sn_events s0 ! idx)) s0; e = sn_events s ! idx
      in s\<lparr>sn_events := (sn_events s)[idx := e\<lparr>ev_fired := \<not> ev_repeat e\<rparr>]\<rparr>)"

definition scenario_tick :: "u64 \<Rightarrow> scenario \<Rightarrow> scenario" where
  "scenario_tick cpu_instructions s0 =
     (let to_fire = filter (\<lambda>idx. \<not> ev_fired (sn_events s0 ! idx))
            (concat (map snd (takeWhile (\<lambda>(k, _). k \<le> cpu_instructions) (sn_insn_queue s0))));
          s = fold fire_event to_fire s0
      in s\<lparr>sn_insn_queue := dropWhile (\<lambda>(k, _). k \<le> cpu_instructions) (sn_insn_queue s)\<rparr>)"

text \<open>The events of one address, after its count has reached \<open>current\<close>. \<open>occurrence_of\<close> selects the kind of trigger.\<close>

definition run_trigger :: "(scenario_trigger \<Rightarrow> u32 option) \<Rightarrow> u32 \<Rightarrow> nat \<Rightarrow> scenario \<Rightarrow> scenario" where
  "run_trigger occurrence_of current idx s =
     (let e = sn_events s ! idx
      in if ev_fired e then s
         else case occurrence_of (ev_trigger e) of
                None \<Rightarrow> s
              | Some occurrence \<Rightarrow>
                  if (if ev_repeat e then occurrence > 0 \<and> current mod occurrence = 0 else current = occurrence)
                  then fire_event idx s else s)"

primrec read_occurrence :: "scenario_trigger \<Rightarrow> u32 option" where
  "read_occurrence (AtInstruction n) = None"
| "read_occurrence (OnMmioRead a k) = Some k"
| "read_occurrence (OnMmioWrite a k) = None"

primrec write_occurrence :: "scenario_trigger \<Rightarrow> u32 option" where
  "write_occurrence (AtInstruction n) = None"
| "write_occurrence (OnMmioRead a k) = None"
| "write_occurrence (OnMmioWrite a k) = Some k"

definition watch_matches :: "u32 \<Rightarrow> mmio_watch_mode \<Rightarrow> u32 \<Rightarrow> mmio_watchpoint \<Rightarrow> bool" where
  "watch_matches addr access value w \<longleftrightarrow>
     (wp_mode w = WatchReadWrite \<or> wp_mode w = access) \<and> wp_address w \<le> addr \<and> addr < wp_address w + wp_size w
     \<and> (case wp_condition w of None \<Rightarrow> True | Some c \<Rightarrow> condition_matches value c)"

primrec watch_act :: "mmio_watch_action \<Rightarrow> scenario \<Rightarrow> scenario" where
  "watch_act WatchPause s = s\<lparr>sn_pause_requested := True\<rparr>"
| "watch_act (WatchFire effect) s = apply_effect effect s"

definition check_watchpoints :: "u32 \<Rightarrow> mmio_watch_mode \<Rightarrow> u32 \<Rightarrow> scenario \<Rightarrow> scenario" where
  "check_watchpoints addr access value s =
     fold watch_act (map wp_action (filter (watch_matches addr access value) (sn_watchpoints s))) s"

definition count_up :: "u32 \<Rightarrow> (u32 \<rightharpoonup> u32) \<Rightarrow> u32" where
  "count_up addr m = (case m addr of None \<Rightarrow> 0 | Some n \<Rightarrow> n) + 1"

definition on_mmio_read :: "u32 \<Rightarrow> u32 \<Rightarrow> scenario \<Rightarrow> scenario" where
  "on_mmio_read addr value s0 =
     (let aligned = addr AND NOT 3; current = count_up aligned (sn_read_counts s0);
          s = s0\<lparr>sn_read_counts := (sn_read_counts s0)(aligned \<mapsto> current)\<rparr>;
          idxs = (case sn_read_triggers s aligned of None \<Rightarrow> [] | Some is \<Rightarrow> is)
      in check_watchpoints aligned WatchRead value (fold (run_trigger read_occurrence current) idxs s))"

definition on_mmio_write :: "u32 \<Rightarrow> u32 \<Rightarrow> scenario \<Rightarrow> scenario" where
  "on_mmio_write addr value s0 =
     (let aligned = addr AND NOT 3; current = count_up aligned (sn_write_counts s0);
          s = s0\<lparr>sn_write_counts := (sn_write_counts s0)(aligned \<mapsto> current)\<rparr>;
          idxs = (case sn_write_triggers s aligned of None \<Rightarrow> [] | Some is \<Rightarrow> is)
      in check_watchpoints aligned WatchWrite value (fold (run_trigger write_occurrence current) idxs s))"

definition add_watchpoint ::
  "u32 \<Rightarrow> u32 \<Rightarrow> mmio_watch_mode \<Rightarrow> mmio_watch_action \<Rightarrow> string option \<Rightarrow> value_condition option \<Rightarrow> scenario
     \<Rightarrow> u32 \<times> scenario" where
  "add_watchpoint address len mode action label condition s =
     (let i = sn_next_wp_id s
      in (i, s\<lparr>sn_next_wp_id := i + 1,
               sn_watchpoints := sn_watchpoints s @ [\<lparr>wp_id = i, wp_address = address AND NOT 3, wp_size = max len 4,
                 wp_mode = mode, wp_action = action, wp_label = label, wp_condition = condition\<rparr>]\<rparr>))"

definition remove_watchpoint :: "u32 \<Rightarrow> scenario \<Rightarrow> bool \<times> scenario" where
  "remove_watchpoint i s =
     (let ws = filter (\<lambda>w. wp_id w \<noteq> i) (sn_watchpoints s)
      in (length ws < length (sn_watchpoints s), s\<lparr>sn_watchpoints := ws\<rparr>))"

definition take_pause :: "scenario \<Rightarrow> bool \<times> scenario" where
  "take_pause s = (sn_pause_requested s, s\<lparr>sn_pause_requested := False\<rparr>)"

definition take_deferred_writes :: "scenario \<Rightarrow> (u32 \<times> u32) list \<times> scenario" where
  "take_deferred_writes s = (sn_deferred_writes s, s\<lparr>sn_deferred_writes := []\<rparr>)"

definition scenario_clear_all :: "scenario \<Rightarrow> scenario" where
  "scenario_clear_all s =
     s\<lparr>sn_overrides := Map.empty, sn_events := [], sn_insn_queue := [], sn_read_triggers := Map.empty,
       sn_write_triggers := Map.empty, sn_read_counts := Map.empty, sn_write_counts := Map.empty, sn_watchpoints := [],
       sn_pause_requested := False, sn_deferred_writes := [], sn_serdes_cal_converged := False\<rparr>"

section \<open>What firing changes\<close>

text \<open>The events without their marks, and the tables that lead to them\<close>

definition skeleton :: "scenario \<Rightarrow> scheduled_event list" where
  "skeleton s = map (ev_fired_update (\<lambda>_. False)) (sn_events s)"

definition tables :: "scenario \<Rightarrow> (u64 \<times> nat list) list \<times> (u32 \<rightharpoonup> nat list) \<times> (u32 \<rightharpoonup> nat list) \<times> (u32 \<rightharpoonup> u32) \<times> (u32 \<rightharpoonup> u32)" where
  "tables s = (sn_insn_queue s, sn_read_triggers s, sn_write_triggers s, sn_read_counts s, sn_write_counts s)"

definition is_fired :: "nat \<Rightarrow> scenario \<Rightarrow> bool" where
  "is_fired idx s \<longleftrightarrow> ev_fired (sn_events s ! idx)"

text \<open>The event \<open>idx\<close> is the one given, but for its mark\<close>

definition is_event :: "nat \<Rightarrow> scenario_trigger \<Rightarrow> scenario \<Rightarrow> bool" where
  "is_event idx t s \<longleftrightarrow> idx < length (sn_events s) \<and> ev_trigger (sn_events s ! idx) = t \<and> \<not> ev_repeat (sn_events s ! idx)"

lemma is_event_skeleton: "skeleton s = skeleton s' \<Longrightarrow> is_event idx t s = is_event idx t s'"
proof -
  assume eq: "skeleton s = skeleton s'"
  have len: "length (sn_events s) = length (sn_events s')"
    using arg_cong [OF eq, of length] by (simp add: skeleton_def)
  have "ev_trigger (sn_events s ! idx) = ev_trigger (sn_events s' ! idx) \<and> ev_repeat (sn_events s ! idx) = ev_repeat (sn_events s' ! idx)"
    if "idx < length (sn_events s)"
    using arg_cong [OF eq, of "\<lambda>xs. (ev_trigger (xs ! idx), ev_repeat (xs ! idx))"] that len by (simp add: skeleton_def)
  then show ?thesis using len by (auto simp: is_event_def)
qed

lemma effect_frame [simp]:
  "sn_events (apply_effect e s) = sn_events s" "tables (apply_effect e s) = tables s"
  by (cases e; simp add: tables_def)+

lemma fire_frame [simp]:
  "skeleton (fire_event i s) = skeleton s" "tables (fire_event i s) = tables s"
proof -
  show "tables (fire_event i s) = tables s"
    using effect_frame(2) [of "ev_effect (sn_events s ! i)" s] by (simp add: fire_event_def Let_def tables_def)
  show "skeleton (fire_event i s) = skeleton s"
    by (cases "i < length (sn_events s)")
      (simp_all add: fire_event_def Let_def skeleton_def map_update list_update_same_conv list_update_beyond)
qed

lemma fired_fire:
  assumes "is_event idx t s"
  shows "is_fired idx (fire_event i s) \<longleftrightarrow> is_fired idx s \<or> i = idx"
  using assms by (cases "i = idx") (simp_all add: is_event_def is_fired_def fire_event_def Let_def)

lemma fold_fire:
  assumes "is_event idx t s"
  shows "skeleton (fold fire_event is s) = skeleton s \<and> tables (fold fire_event is s) = tables s
    \<and> (is_fired idx (fold fire_event is s) \<longleftrightarrow> is_fired idx s \<or> idx \<in> set is)"
  using assms
proof (induction "is" arbitrary: s)
  case (Cons i "is")
  have "is_event idx t (fire_event i s)" using Cons(2) is_event_skeleton [OF fire_frame(1)] by simp
  then show ?case using Cons(1) fired_fire [OF Cons(2)] by auto
qed simp

lemma fold_trigger:
  assumes "is_event idx t s"
  shows "skeleton (fold (run_trigger occ current) is s) = skeleton s
    \<and> tables (fold (run_trigger occ current) is s) = tables s
    \<and> (is_fired idx (fold (run_trigger occ current) is s) \<longleftrightarrow> is_fired idx s \<or> idx \<in> set is \<and> occ t = Some current)"
  using assms
proof (induction "is" arbitrary: s)
  case (Cons i "is")
  let ?s = "run_trigger occ current i s"
  have frame: "skeleton ?s = skeleton s" "tables ?s = tables s"
    by (simp_all add: run_trigger_def Let_def split: option.split)
  have "is_fired idx ?s \<longleftrightarrow> is_fired idx s \<or> i = idx \<and> occ t = Some current"
    using Cons(2) fired_fire [OF Cons(2)]
    by (cases "i = idx") (auto simp: run_trigger_def Let_def is_event_def is_fired_def split: option.split)
  moreover have "is_event idx t ?s" using Cons(2) is_event_skeleton [OF frame(1)] by simp
  ultimately show ?case using Cons(1) frame by auto
qed simp

lemma watch_frame:
  "sn_events (check_watchpoints a m v s) = sn_events s \<and> tables (check_watchpoints a m v s) = tables s"
proof -
  have act: "sn_events (watch_act x s) = sn_events s \<and> tables (watch_act x s) = tables s" for x s
    by (cases x) (simp_all add: tables_def [of "s\<lparr>sn_pause_requested := True\<rparr>"], simp_all add: tables_def)
  have "sn_events (fold watch_act xs s) = sn_events s \<and> tables (fold watch_act xs s) = tables s" for xs s
    by (induction xs arbitrary: s) (simp_all add: act)
  then show ?thesis by (simp add: check_watchpoints_def)
qed

section \<open>When an event fires\<close>

text \<open>What the bank tells the engine: accesses with their values, and its ticks. The bank passes the length of its
  prescaler, \<open>BANK_TICK_PRESCALER = 64\<close>, to every tick.\<close>

datatype observed = ReadAt u32 u32 | WriteAt u32 u32 | BankTick

primrec observe :: "observed \<Rightarrow> scenario \<Rightarrow> scenario" where
  "observe (ReadAt a v) s = on_mmio_read a v s"
| "observe (WriteAt a v) s = on_mmio_write a v s"
| "observe BankTick s = scenario_tick 64 s"

text \<open>Every index in a table belongs to an event with the trigger of its key.\<close>

definition holds_trigger :: "scenario \<Rightarrow> nat \<Rightarrow> (scenario_trigger \<Rightarrow> bool) \<Rightarrow> bool" where
  "holds_trigger s i P \<longleftrightarrow> i < length (sn_events s) \<and> P (ev_trigger (sn_events s ! i))"

definition index_ok :: "scenario \<Rightarrow> bool" where
  "index_ok s \<longleftrightarrow>
     sorted (map fst (sn_insn_queue s))
     \<and> (\<forall>n is i. (n, is) \<in> set (sn_insn_queue s) \<longrightarrow> i \<in> set is \<longrightarrow> holds_trigger s i (\<lambda>t. t = AtInstruction n))
     \<and> (\<forall>a is i. sn_read_triggers s a = Some is \<longrightarrow> i \<in> set is \<longrightarrow> holds_trigger s i (\<lambda>t. \<exists>b k. t = OnMmioRead b k \<and> b AND NOT 3 = a))
     \<and> (\<forall>a is i. sn_write_triggers s a = Some is \<longrightarrow> i \<in> set is \<longrightarrow> holds_trigger s i (\<lambda>t. \<exists>b k. t = OnMmioWrite b k \<and> b AND NOT 3 = a))"

primrec linked :: "nat \<Rightarrow> scenario_trigger \<Rightarrow> scenario \<Rightarrow> bool" where
  "linked idx (AtInstruction n) s \<longleftrightarrow> is_fired idx s \<or> (\<exists>is. (n, is) \<in> set (sn_insn_queue s) \<and> idx \<in> set is)"
| "linked idx (OnMmioRead a k) s \<longleftrightarrow> (\<exists>is. sn_read_triggers s (a AND NOT 3) = Some is \<and> idx \<in> set is)"
| "linked idx (OnMmioWrite a k) s \<longleftrightarrow> (\<exists>is. sn_write_triggers s (a AND NOT 3) = Some is \<and> idx \<in> set is)"

fun hit :: "scenario_trigger \<Rightarrow> observed \<Rightarrow> scenario \<Rightarrow> bool" where
  "hit (AtInstruction n) BankTick s \<longleftrightarrow> n \<le> 64"
| "hit (OnMmioRead a k) (ReadAt b v) s \<longleftrightarrow> b AND NOT 3 = a AND NOT 3 \<and> count_up (a AND NOT 3) (sn_read_counts s) = k"
| "hit (OnMmioWrite a k) (WriteAt b v) s \<longleftrightarrow> b AND NOT 3 = a AND NOT 3 \<and> count_up (a AND NOT 3) (sn_write_counts s) = k"
| "hit _ _ s \<longleftrightarrow> False"

lemma holds_trigger_skeleton: "skeleton s = skeleton s' \<Longrightarrow> holds_trigger s i P = holds_trigger s' i P"
proof -
  assume eq: "skeleton s = skeleton s'"
  have len: "length (sn_events s) = length (sn_events s')"
    using arg_cong [OF eq, of length] by (simp add: skeleton_def)
  have "ev_trigger (sn_events s ! i) = ev_trigger (sn_events s' ! i)" if "i < length (sn_events s)"
    using arg_cong [OF eq, of "\<lambda>xs. ev_trigger (xs ! i)"] that len by (simp add: skeleton_def)
  then show ?thesis using len by (auto simp: holds_trigger_def)
qed

lemma index_ok_mono:
  assumes "index_ok s" and "skeleton s' = skeleton s" and "sn_read_triggers s' = sn_read_triggers s"
    and "sn_write_triggers s' = sn_write_triggers s" and "sn_insn_queue s' = dropWhile P (sn_insn_queue s)"
  shows "index_ok s'"
proof -
  have "sorted (map fst (dropWhile P (sn_insn_queue s)))"
    using assms(1) sorted_wrt_append [of "(\<le>)" "map fst (takeWhile P (sn_insn_queue s))" "map fst (dropWhile P (sn_insn_queue s))"]
    by (simp add: index_ok_def flip: map_append)
  then show ?thesis
    using assms(1) holds_trigger_skeleton [OF assms(2)] set_dropWhileD [of _ P "sn_insn_queue s"]
    unfolding index_ok_def assms(3-5) by blast
qed

text \<open>A trigger of an access leaves all tables as they are and fires exactly the events it hits.\<close>

lemma trigger_step:
  fixes a v current :: u32 and m :: mmio_watch_mode and "is" :: "nat list" and occ :: "scenario_trigger \<Rightarrow> u32 option"
  assumes "is_event idx t s" and "skeleton s0 = skeleton s" and "sn_events s0 = sn_events s"
  defines "s' \<equiv> check_watchpoints a m v (fold (run_trigger occ current) is s0)"
  shows "skeleton s' = skeleton s" and "tables s' = tables s0"
    and "is_fired idx s' \<longleftrightarrow> is_fired idx s \<or> idx \<in> set is \<and> occ t = Some current"
proof -
  have "is_event idx t s0" using assms(1) is_event_skeleton [OF assms(2)] by simp
  from fold_trigger [OF this, of occ current "is"] watch_frame [of a m v "fold (run_trigger occ current) is s0"] assms(2,3)
  show "skeleton s' = skeleton s" "tables s' = tables s0"
    "is_fired idx s' \<longleftrightarrow> is_fired idx s \<or> idx \<in> set is \<and> occ t = Some current"
    by (simp_all add: s'_def skeleton_def is_fired_def)
qed

lemma tick_step:
  assumes "is_event idx t s"
  shows "skeleton (scenario_tick n s) = skeleton s"
    and "sn_insn_queue (scenario_tick n s) = dropWhile (\<lambda>(k, _). k \<le> n) (sn_insn_queue s)"
    and "sn_read_triggers (scenario_tick n s) = sn_read_triggers s" and "sn_write_triggers (scenario_tick n s) = sn_write_triggers s"
    and "sn_read_counts (scenario_tick n s) = sn_read_counts s" and "sn_write_counts (scenario_tick n s) = sn_write_counts s"
    and "is_fired idx (scenario_tick n s)
      \<longleftrightarrow> is_fired idx s \<or> (\<exists>k is. (k, is) \<in> set (takeWhile (\<lambda>(k, _). k \<le> n) (sn_insn_queue s)) \<and> idx \<in> set is)"
proof -
  let ?l = "takeWhile (\<lambda>(k, _). k \<le> n) (sn_insn_queue s)"
  let ?fs = "filter (\<lambda>i. \<not> ev_fired (sn_events s ! i)) (concat (map snd ?l))"
  note fold = fold_fire [OF assms, of ?fs]
  have mem: "idx \<in> set (concat (map snd ?l)) \<longleftrightarrow> (\<exists>k is. (k, is) \<in> set ?l \<and> idx \<in> set is)" by force
  have tick: "scenario_tick n s = (fold fire_event ?fs s)\<lparr>sn_insn_queue := dropWhile (\<lambda>(k, _). k \<le> n) (sn_insn_queue (fold fire_event ?fs s))\<rparr>"
    by (simp add: scenario_tick_def Let_def)
  show "skeleton (scenario_tick n s) = skeleton s"
    "sn_insn_queue (scenario_tick n s) = dropWhile (\<lambda>(k, _). k \<le> n) (sn_insn_queue s)"
    "sn_read_triggers (scenario_tick n s) = sn_read_triggers s" "sn_write_triggers (scenario_tick n s) = sn_write_triggers s"
    "sn_read_counts (scenario_tick n s) = sn_read_counts s" "sn_write_counts (scenario_tick n s) = sn_write_counts s"
    using fold unfolding tick by (simp_all add: tables_def skeleton_def)
  have "is_fired idx (scenario_tick n s) \<longleftrightarrow> is_fired idx s \<or> idx \<in> set ?fs"
    using fold unfolding tick by (simp add: is_fired_def)
  also have "\<dots> \<longleftrightarrow> is_fired idx s \<or> idx \<in> set (concat (map snd ?l))"
    unfolding set_filter by (auto simp: is_fired_def)
  finally show "is_fired idx (scenario_tick n s) \<longleftrightarrow> is_fired idx s \<or> (\<exists>k is. (k, is) \<in> set ?l \<and> idx \<in> set is)"
    unfolding mem .
qed

text \<open>One observation\<close>

lemma observe_step:
  assumes "index_ok s" and "is_event idx t s" and "linked idx t s"
  shows "index_ok (observe x s) \<and> is_event idx t (observe x s) \<and> linked idx t (observe x s)
    \<and> (is_fired idx (observe x s) \<longleftrightarrow> is_fired idx s \<or> hit t x s)"
proof (cases x)
  case (ReadAt b v)
  let ?s0 = "s\<lparr>sn_read_counts := (sn_read_counts s)(b AND NOT 3 \<mapsto> count_up (b AND NOT 3) (sn_read_counts s))\<rparr>"
  let ?is = "case sn_read_triggers s (b AND NOT 3) of None \<Rightarrow> [] | Some is \<Rightarrow> is"
  have same: "skeleton ?s0 = skeleton s" "sn_events ?s0 = sn_events s" by (simp_all add: skeleton_def)
  note step = trigger_step [OF assms(2) same]
  have x: "observe x s = check_watchpoints (b AND NOT 3) WatchRead v
      (fold (run_trigger read_occurrence (count_up (b AND NOT 3) (sn_read_counts s))) ?is ?s0)"
    by (simp add: ReadAt on_mmio_read_def Let_def)
  have tabs: "sn_read_triggers (observe x s) = sn_read_triggers s" "sn_write_triggers (observe x s) = sn_write_triggers s"
    "sn_insn_queue (observe x s) = sn_insn_queue s"
    using step(2) unfolding x by (simp_all add: tables_def)
  have fired: "is_fired idx (observe x s) \<longleftrightarrow> is_fired idx s
      \<or> idx \<in> set ?is \<and> read_occurrence t = Some (count_up (b AND NOT 3) (sn_read_counts s))"
    using step(3) unfolding x by simp
  have ok: "index_ok (observe x s)"
    by (rule index_ok_mono [OF assms(1), where P = "\<lambda>_. False"]) (use step(1) tabs in \<open>simp_all add: x dropWhile_eq_self_iff\<close>)
  have "is_event idx t (observe x s)" using is_event_skeleton [OF step(1)] assms(2) unfolding x by simp
  moreover have "linked idx t (observe x s)" using assms(3) fired tabs by (cases t) auto
  moreover have "idx \<in> set ?is \<and> read_occurrence t = Some (count_up (b AND NOT 3) (sn_read_counts s)) \<longleftrightarrow> hit t x s"
  proof (cases t)
    case (OnMmioRead a k)
    have "a AND NOT 3 = b AND NOT 3" if "idx \<in> set ?is"
    proof -
      from that obtain "is" where "sn_read_triggers s (b AND NOT 3) = Some is" "idx \<in> set is"
        by (cases "sn_read_triggers s (b AND NOT 3)") simp_all
      then have "holds_trigger s idx (\<lambda>t. \<exists>c k. t = OnMmioRead c k \<and> c AND NOT 3 = b AND NOT 3)"
        using assms(1) unfolding index_ok_def by blast
      then show ?thesis using assms(2) OnMmioRead by (simp add: holds_trigger_def is_event_def)
    qed
    moreover have "idx \<in> set ?is" if "b AND NOT 3 = a AND NOT 3" using that assms(3) OnMmioRead by auto
    ultimately have "idx \<in> set ?is \<longleftrightarrow> b AND NOT 3 = a AND NOT 3" by metis
    then show ?thesis by (auto simp: ReadAt OnMmioRead)
  qed (simp_all add: ReadAt)
  ultimately show ?thesis using ok fired by blast
next
  case (WriteAt b v)
  let ?s0 = "s\<lparr>sn_write_counts := (sn_write_counts s)(b AND NOT 3 \<mapsto> count_up (b AND NOT 3) (sn_write_counts s))\<rparr>"
  let ?is = "case sn_write_triggers s (b AND NOT 3) of None \<Rightarrow> [] | Some is \<Rightarrow> is"
  have same: "skeleton ?s0 = skeleton s" "sn_events ?s0 = sn_events s" by (simp_all add: skeleton_def)
  note step = trigger_step [OF assms(2) same]
  have x: "observe x s = check_watchpoints (b AND NOT 3) WatchWrite v
      (fold (run_trigger write_occurrence (count_up (b AND NOT 3) (sn_write_counts s))) ?is ?s0)"
    by (simp add: WriteAt on_mmio_write_def Let_def)
  have tabs: "sn_read_triggers (observe x s) = sn_read_triggers s" "sn_write_triggers (observe x s) = sn_write_triggers s"
    "sn_insn_queue (observe x s) = sn_insn_queue s"
    using step(2) unfolding x by (simp_all add: tables_def)
  have fired: "is_fired idx (observe x s) \<longleftrightarrow> is_fired idx s
      \<or> idx \<in> set ?is \<and> write_occurrence t = Some (count_up (b AND NOT 3) (sn_write_counts s))"
    using step(3) unfolding x by simp
  have ok: "index_ok (observe x s)"
    by (rule index_ok_mono [OF assms(1), where P = "\<lambda>_. False"]) (use step(1) tabs in \<open>simp_all add: x dropWhile_eq_self_iff\<close>)
  have "is_event idx t (observe x s)" using is_event_skeleton [OF step(1)] assms(2) unfolding x by simp
  moreover have "linked idx t (observe x s)" using assms(3) fired tabs by (cases t) auto
  moreover have "idx \<in> set ?is \<and> write_occurrence t = Some (count_up (b AND NOT 3) (sn_write_counts s)) \<longleftrightarrow> hit t x s"
  proof (cases t)
    case (OnMmioWrite a k)
    have "a AND NOT 3 = b AND NOT 3" if "idx \<in> set ?is"
    proof -
      from that obtain "is" where "sn_write_triggers s (b AND NOT 3) = Some is" "idx \<in> set is"
        by (cases "sn_write_triggers s (b AND NOT 3)") simp_all
      then have "holds_trigger s idx (\<lambda>t. \<exists>c k. t = OnMmioWrite c k \<and> c AND NOT 3 = b AND NOT 3)"
        using assms(1) unfolding index_ok_def by blast
      then show ?thesis using assms(2) OnMmioWrite by (simp add: holds_trigger_def is_event_def)
    qed
    moreover have "idx \<in> set ?is" if "b AND NOT 3 = a AND NOT 3" using that assms(3) OnMmioWrite by auto
    ultimately have "idx \<in> set ?is \<longleftrightarrow> b AND NOT 3 = a AND NOT 3" by metis
    then show ?thesis by (auto simp: WriteAt OnMmioWrite)
  qed (simp_all add: WriteAt)
  ultimately show ?thesis using ok fired by blast
next
  case BankTick
  let ?q = "sn_insn_queue s" and ?p = "\<lambda>(k, _). k \<le> (64 :: u64)"
  note step = tick_step [OF assms(2), of 64]
  have ok: "index_ok (observe x s)"
    using index_ok_mono [OF assms(1) step(1,3,4,2)] by (simp add: BankTick)
  have ev: "is_event idx t (observe x s)"
    using is_event_skeleton [OF step(1)] assms(2) by (simp add: BankTick)
  have low: "k \<le> 64" if "(k, is) \<in> set (takeWhile ?p ?q)" for k "is" using set_takeWhileD [OF that] by simp
  have high: "64 < k" if m: "(k, is) \<in> set (dropWhile ?p ?q)" for k "is"
  proof -
    have "sorted (map fst (dropWhile ?p ?q))" using ok step(2) by (simp add: index_ok_def BankTick)
    moreover obtain k0 "is0" r where "dropWhile ?p ?q = (k0, is0) # r" using m by (cases "dropWhile ?p ?q") auto
    moreover from this have "64 < k0" using hd_dropWhile [of ?p ?q] by (simp add: not_le)
    ultimately show ?thesis using m by force
  qed
  have split: "set ?q = set (takeWhile ?p ?q) \<union> set (dropWhile ?p ?q)"
    by (metis set_append takeWhile_dropWhile_id)
  have owner: "t = AtInstruction k" if "(k, is) \<in> set ?q" "idx \<in> set is" for k "is"
    using assms(1,2) that unfolding index_ok_def holds_trigger_def is_event_def by metis
  have hits: "(\<exists>k is. (k, is) \<in> set (takeWhile ?p ?q) \<and> idx \<in> set is) \<longrightarrow> hit t x s"
  proof (intro impI, elim exE conjE)
    fix k "is" assume m: "(k, is) \<in> set (takeWhile ?p ?q)" "idx \<in> set is"
    then have "t = AtInstruction k" using owner split by blast
    then show "hit t x s" using low [OF m(1)] by (simp add: BankTick)
  qed
  show ?thesis
  proof (cases t)
    case (AtInstruction n)
    have "\<exists>k is. (k, is) \<in> set (takeWhile ?p ?q) \<and> idx \<in> set is" if h: "hit t x s" "\<not> is_fired idx s"
    proof -
      obtain "is" where m: "(n, is) \<in> set ?q" "idx \<in> set is" using assms(3) h(2) by (auto simp: AtInstruction)
      moreover have "(n, is) \<notin> set (dropWhile ?p ?q)" using high [of n "is"] h(1) by (auto simp: AtInstruction BankTick)
      ultimately show ?thesis using split by blast
    qed
    then have "is_fired idx (observe x s) \<longleftrightarrow> is_fired idx s \<or> hit t x s"
      using step(7) hits unfolding BankTick observe.simps by blast
    moreover have "linked idx t (observe x s)"
      using step(2,7) assms(3) split by (auto simp: BankTick AtInstruction)
    ultimately show ?thesis using ok ev by blast
  qed (use ok ev step(3,4,7) hits assms(3) in \<open>auto simp: BankTick\<close>)
qed

lemma index_ok_new: "index_ok scenario_new"
  by (simp add: index_ok_def scenario_new_def)

lemma queue_push_set:
  "(k, is) \<in> set (queue_push n idx q) \<Longrightarrow> i \<in> set is \<Longrightarrow> (\<exists>js. (k, js) \<in> set q \<and> i \<in> set js) \<or> k = n \<and> i = idx"
proof (induction q)
  case (Cons x q)
  then show ?case by (cases x; simp split: if_splits; elim disjE conjE; simp?; blast)
qed simp

lemma queue_push_keys: "fst ` set (queue_push n idx q) = insert n (fst ` set q)"
  by (induction n idx q rule: queue_push.induct) (simp_all add: insert_commute)

lemma queue_push_mem: "\<exists>is. (n, is) \<in> set (queue_push n idx q) \<and> idx \<in> set is"
  by (induction q) fastforce+

lemma queue_push_sorted: "sorted (map fst q) \<Longrightarrow> sorted (map fst (queue_push n idx q))"
proof (induction q)
  case (Cons x q)
  obtain k "is" where x: "x = (k, is)" by (cases x)
  have "\<forall>y \<in> fst ` set (queue_push n idx q). y = n \<or> y \<in> fst ` set q" by (simp add: queue_push_keys)
  moreover have "\<forall>y \<in> fst ` set q. k \<le> y" using Cons(2) by (simp add: x)
  ultimately have "\<not> n < k \<Longrightarrow> \<forall>y \<in> fst ` set (queue_push n idx q). k \<le> y" by (metis leI)
  then show ?case using Cons by (auto simp: x)
qed simp

lemma trigger_push_mem:
  "trigger_push a idx m b = Some is \<Longrightarrow> i \<in> set is \<Longrightarrow> (\<exists>js. m b = Some js \<and> i \<in> set js) \<or> b = a \<and> i = idx"
  by (auto simp: trigger_push_def split: if_splits option.splits)

text \<open>Scheduling keeps the tables and links the new event.\<close>

lemma schedule_links:
  fixes label :: "string option" and t :: scenario_trigger and effect :: scenario_effect
  assumes "index_ok s"
  defines "s' \<equiv> snd (schedule t effect label s)" and "idx \<equiv> length (sn_events s)"
  shows "index_ok s'" and "is_event idx t s'" and "linked idx t s'" and "\<not> is_fired idx s'"
    and "sn_read_counts s' = sn_read_counts s" and "sn_write_counts s' = sn_write_counts s"
proof -
  let ?e = "\<lparr>ev_id = sn_next_event_id s, ev_trigger = t, ev_effect = effect, ev_label = label, ev_fired = False, ev_repeat = False\<rparr>"
  have events: "sn_events s' = sn_events s @ [?e]"
    by (cases t) (simp_all add: s'_def schedule_def schedule_ex_def Let_def)
  show "is_event idx t s'" "\<not> is_fired idx s'"
    by (simp_all add: is_event_def is_fired_def events idx_def)
  show "sn_read_counts s' = sn_read_counts s" "sn_write_counts s' = sn_write_counts s"
    by (cases t; simp add: s'_def schedule_def schedule_ex_def Let_def)+
  have old: "holds_trigger s' i P" if "holds_trigger s i P" for i P
    using that by (simp add: holds_trigger_def events nth_append)
  have new: "holds_trigger s' idx P \<longleftrightarrow> P t" for P by (simp add: holds_trigger_def events idx_def)
  show "linked idx t s'"
    by (cases t)
      (simp_all add: s'_def schedule_def schedule_ex_def Let_def idx_def trigger_push_def queue_push_mem)
  have queue: "sn_insn_queue s' = (case t of AtInstruction n \<Rightarrow> queue_push n idx (sn_insn_queue s) | _ \<Rightarrow> sn_insn_queue s)"
    and reads: "sn_read_triggers s' = (case t of OnMmioRead a k \<Rightarrow> trigger_push (a AND NOT 3) idx (sn_read_triggers s) | _ \<Rightarrow> sn_read_triggers s)"
    and writes: "sn_write_triggers s' = (case t of OnMmioWrite a k \<Rightarrow> trigger_push (a AND NOT 3) idx (sn_write_triggers s) | _ \<Rightarrow> sn_write_triggers s)"
    by (cases t; simp add: s'_def schedule_def schedule_ex_def Let_def idx_def)+
  have "sorted (map fst (sn_insn_queue s'))"
    using assms(1) queue_push_sorted by (simp add: index_ok_def queue split: scenario_trigger.split)
  moreover have "holds_trigger s' i (\<lambda>t. t = AtInstruction n)" if "(n, is) \<in> set (sn_insn_queue s')" "i \<in> set is" for n "is" i
  proof -
    from that have "(\<exists>js. (n, js) \<in> set (sn_insn_queue s) \<and> i \<in> set js) \<or> t = AtInstruction n \<and> i = idx"
      using queue_push_set unfolding queue by (cases t) fastforce+
    then show ?thesis using assms(1) old new unfolding index_ok_def by blast
  qed
  moreover have "holds_trigger s' i (\<lambda>t. \<exists>b k. t = OnMmioRead b k \<and> b AND NOT 3 = a)"
    if "sn_read_triggers s' a = Some is" "i \<in> set is" for a "is" i
  proof -
    from that have "(\<exists>js. sn_read_triggers s a = Some js \<and> i \<in> set js) \<or> (\<exists>b k. t = OnMmioRead b k \<and> b AND NOT 3 = a) \<and> i = idx"
      unfolding reads by (cases t) (use trigger_push_mem in \<open>fastforce+\<close>)
    then show ?thesis using assms(1) old new unfolding index_ok_def by blast
  qed
  moreover have "holds_trigger s' i (\<lambda>t. \<exists>b k. t = OnMmioWrite b k \<and> b AND NOT 3 = a)"
    if "sn_write_triggers s' a = Some is" "i \<in> set is" for a "is" i
  proof -
    from that have "(\<exists>js. sn_write_triggers s a = Some js \<and> i \<in> set js) \<or> (\<exists>b k. t = OnMmioWrite b k \<and> b AND NOT 3 = a) \<and> i = idx"
      unfolding writes by (cases t) (use trigger_push_mem in \<open>fastforce+\<close>)
    then show ?thesis using assms(1) old new unfolding index_ok_def by blast
  qed
  ultimately show "index_ok s'" unfolding index_ok_def by blast
qed

text \<open>How the counts move\<close>

definition times_seen :: "(u32 \<rightharpoonup> u32) \<Rightarrow> u32 \<Rightarrow> u32" where
  "times_seen m addr = (case m (addr AND NOT 3) of None \<Rightarrow> 0 | Some n \<Rightarrow> n)"

fun reads_at :: "u32 \<Rightarrow> observed \<Rightarrow> bool" where
  "reads_at a (ReadAt b v) \<longleftrightarrow> b AND NOT 3 = a AND NOT 3"
| "reads_at a _ \<longleftrightarrow> False"

fun writes_at :: "u32 \<Rightarrow> observed \<Rightarrow> bool" where
  "writes_at a (WriteAt b v) \<longleftrightarrow> b AND NOT 3 = a AND NOT 3"
| "writes_at a _ \<longleftrightarrow> False"

lemma counts_step:
  assumes "is_event idx t s"
  shows "times_seen (sn_read_counts (observe x s)) a = times_seen (sn_read_counts s) a + (if reads_at a x then 1 else 0)"
    and "times_seen (sn_write_counts (observe x s)) a = times_seen (sn_write_counts s) a + (if writes_at a x then 1 else 0)"
proof -
  let ?r = "\<lambda>b. (sn_read_counts s)(b AND NOT 3 \<mapsto> count_up (b AND NOT 3) (sn_read_counts s))"
  let ?w = "\<lambda>b. (sn_write_counts s)(b AND NOT 3 \<mapsto> count_up (b AND NOT 3) (sn_write_counts s))"
  have counts: "sn_read_counts (observe x s) = (case x of ReadAt b v \<Rightarrow> ?r b | _ \<Rightarrow> sn_read_counts s)
    \<and> sn_write_counts (observe x s) = (case x of WriteAt b v \<Rightarrow> ?w b | _ \<Rightarrow> sn_write_counts s)"
  proof (cases x)
    case (ReadAt b v)
    have same: "skeleton (s\<lparr>sn_read_counts := ?r b\<rparr>) = skeleton s" "sn_events (s\<lparr>sn_read_counts := ?r b\<rparr>) = sn_events s"
      by (simp_all add: skeleton_def)
    show ?thesis
      using trigger_step(2) [OF assms same] by (simp add: ReadAt on_mmio_read_def Let_def tables_def)
  next
    case (WriteAt b v)
    have same: "skeleton (s\<lparr>sn_write_counts := ?w b\<rparr>) = skeleton s" "sn_events (s\<lparr>sn_write_counts := ?w b\<rparr>) = sn_events s"
      by (simp_all add: skeleton_def)
    show ?thesis
      using trigger_step(2) [OF assms same] by (simp add: WriteAt on_mmio_write_def Let_def tables_def)
  next
    case BankTick
    then show ?thesis using tick_step(5,6) [OF assms] by simp
  qed
  show "times_seen (sn_read_counts (observe x s)) a = times_seen (sn_read_counts s) a + (if reads_at a x then 1 else 0)"
    using counts by (cases x) (auto simp: times_seen_def count_up_def split: option.splits)
  show "times_seen (sn_write_counts (observe x s)) a = times_seen (sn_write_counts s) a + (if writes_at a x then 1 else 0)"
    using counts by (cases x) (auto simp: times_seen_def count_up_def split: option.splits)
qed

text \<open>The observations among which an event fires\<close>

primrec fires_during :: "scenario_trigger \<Rightarrow> observed list \<Rightarrow> scenario \<Rightarrow> bool" where
  "fires_during (AtInstruction n) xs s \<longleftrightarrow> n \<le> 64 \<and> BankTick \<in> set xs"
| "fires_during (OnMmioRead a k) xs s \<longleftrightarrow>
     (let c = unat (times_seen (sn_read_counts s) a) in c < unat k \<and> unat k \<le> c + length (filter (reads_at a) xs))"
| "fires_during (OnMmioWrite a k) xs s \<longleftrightarrow>
     (let c = unat (times_seen (sn_write_counts s) a) in c < unat k \<and> unat k \<le> c + length (filter (writes_at a) xs))"

text \<open>No count wraps within \<open>n\<close> observations.\<close>

definition counts_below :: "nat \<Rightarrow> scenario \<Rightarrow> bool" where
  "counts_below n s \<longleftrightarrow> (\<forall>a. unat (times_seen (sn_read_counts s) a) + n < 2 ^ 32 \<and> unat (times_seen (sn_write_counts s) a) + n < 2 ^ 32)"

lemma unat_suc: "unat (c :: u32) + 1 < 2 ^ 32 \<Longrightarrow> unat (c + 1) = unat c + 1"
  by (simp add: unat_word_ariths)

lemma counts_below_step:
  assumes "is_event idx t s" and "counts_below (Suc n) s"
  shows "counts_below n (observe x s)"
proof -
  have "unat (c + (if b then 1 else 0)) + n < 2 ^ 32" if "unat c + Suc n < 2 ^ 32" for c :: u32 and b
    using that unat_suc [of c] by (cases b) simp_all
  then show ?thesis using assms(2) unfolding counts_below_def counts_step [OF assms(1)] by blast
qed

lemma fires_during_Cons:
  assumes "is_event idx t s" and "counts_below (Suc (length xs)) s"
  shows "fires_during t (x # xs) s \<longleftrightarrow> hit t x s \<or> fires_during t xs (observe x s)"
proof (cases t)
  case (AtInstruction n)
  then show ?thesis by (cases x) auto
next
  case (OnMmioRead a k)
  let ?c = "times_seen (sn_read_counts s) a"
  have "unat ?c + 1 < 2 ^ 32" using assms(2) by (auto simp: counts_below_def dest: spec [of _ a])
  then have "unat (?c + 1) = unat ?c + 1" and "?c + 1 = k \<longleftrightarrow> unat ?c + 1 = unat k"
    using unat_suc [of ?c] by (auto simp: word_unat_eq_iff)
  moreover have "hit t x s \<longleftrightarrow> reads_at a x \<and> ?c + 1 = k"
    by (cases x) (auto simp: OnMmioRead count_up_def times_seen_def)
  ultimately show ?thesis
    unfolding OnMmioRead fires_during.simps counts_step [OF assms(1)] Let_def by auto
next
  case (OnMmioWrite a k)
  let ?c = "times_seen (sn_write_counts s) a"
  have "unat ?c + 1 < 2 ^ 32" using assms(2) by (auto simp: counts_below_def dest: spec [of _ a])
  then have "unat (?c + 1) = unat ?c + 1" and "?c + 1 = k \<longleftrightarrow> unat ?c + 1 = unat k"
    using unat_suc [of ?c] by (auto simp: word_unat_eq_iff)
  moreover have "hit t x s \<longleftrightarrow> writes_at a x \<and> ?c + 1 = k"
    by (cases x) (auto simp: OnMmioWrite count_up_def times_seen_def)
  ultimately show ?thesis
    unfolding OnMmioWrite fires_during.simps counts_step [OF assms(1)] Let_def by auto
qed

lemma observed_run:
  assumes "index_ok s" and "is_event idx t s" and "linked idx t s" and "counts_below (length xs) s"
  shows "is_fired idx (fold observe xs s) \<longleftrightarrow> is_fired idx s \<or> fires_during t xs s"
  using assms
proof (induction xs arbitrary: s)
  case (Cons x xs)
  have step: "index_ok (observe x s)" "is_event idx t (observe x s)" "linked idx t (observe x s)"
    "is_fired idx (observe x s) \<longleftrightarrow> is_fired idx s \<or> hit t x s"
    using observe_step [OF Cons(2-4), of x] by simp_all
  have "counts_below (length xs) (observe x s)" using counts_below_step [OF Cons(3)] Cons(5) by simp
  then show ?case using Cons(1) [OF step(1-3)] step(4) fires_during_Cons [OF Cons(3)] Cons(5) by auto
qed (cases t; auto simp: Let_def)

lemma fires_during_counts:
  assumes "sn_read_counts s = sn_read_counts s'" and "sn_write_counts s = sn_write_counts s'"
  shows "fires_during t xs s = fires_during t xs s'"
  by (cases t) (simp_all add: assms)



end
