(* ===== verification/Soc_Bank.thy ===== *)
theory Soc_Bank
  imports Olt_Host Dev_Pbc Dev_Uart Dev_Bsc Soc_Regs Soc_Shim Soc_Serdes Soc_Epon Soc_Scenario
begin

text \<open>
  \<open>src/soc/bank.rs\<close>: the peripherals of the chip and the dispatch of accesses to them. \<open>soc\<close> is the state behind the
  fields of the bank that \<open>Bank\<close> already has. The histories and traces of accesses, which nothing reads back,
  are left out. A device that panics makes the access panic.
\<close>

unbundle bit_operations_syntax

section \<open>State\<close>

record soc =
  so_uart :: uart
  so_pbc :: pbc
  so_bsc :: bsc_i2c
  so_mpcp_bus :: lane_bus
  so_lue :: lue
  so_use_classifier :: bool
  so_classifier_binding :: classifier_binding
  so_serdes :: serdes
  so_epon :: epon_mac
  so_macsec :: macsec
  so_dma :: dma
  so_alarms :: alarm_events
  so_timer :: epon_timer
  so_efuse :: efuse
  so_fatal :: fatal_filter
  so_mpcp :: mpcp
  so_tssync :: ts_sync
  so_mac_filter :: mac_filter
  so_olt :: olt
  so_nco_tx_ts_counter :: u32
  so_pending_cache_inv :: "datapath_op list"
  so_scenario :: scenario
  so_sysreg :: sysreg
  so_uart_channel :: "u8 list"
  so_dma_master_0 :: u32
  so_dma_master_1 :: u32
  so_dma_mask_0 :: u32
  so_dma_mask_1 :: u32
  so_unmapped_exception :: bool
  so_guard_clear_countdown :: u32

type_synonym soc_bank = "soc bank"

abbreviation MPCP_BUS_BASE :: u32 where "MPCP_BUS_BASE \<equiv> 0x01000118"

text \<open>The bank before the reset that ends its construction\<close>

definition soc_blank :: soc where
  "soc_blank =
     \<lparr>so_uart = uart_new, so_pbc = pbc_new, so_bsc = bsc_new,
      so_mpcp_bus = apply_init SYSREG_INIT_VALUES (bus_new MPCP_BUS_BASE 2), so_lue = lue_new, so_use_classifier = False,
      so_classifier_binding = binding_default, so_serdes = serdes_new, so_epon = epon_new, so_macsec = macsec_new,
      so_dma = dma_new, so_alarms = [], so_timer = timer_new, so_efuse = efuse_new, so_fatal = fatal_filter_new,
      so_mpcp = mpcp_new, so_tssync = tssync_new, so_mac_filter = mac_filter_new, so_olt = olt_new, so_nco_tx_ts_counter = 0,
      so_pending_cache_inv = [], so_scenario = scenario_new, so_sysreg = sysreg_new, so_uart_channel = [],
      so_dma_master_0 = 0, so_dma_master_1 = 0, so_dma_mask_0 = 0, so_dma_mask_1 = 0, so_unmapped_exception = False,
      so_guard_clear_countdown = 0\<rparr>"

abbreviation on_soc :: "(soc \<Rightarrow> soc) \<Rightarrow> soc_bank \<Rightarrow> soc_bank" where
  "on_soc f b \<equiv> b\<lparr>bank_rest := f (bank_rest b)\<rparr>"

text \<open>A call of a method of a device: a value and the state after it, an update, an update that may panic\<close>

definition valueM :: "('s \<Rightarrow> 'a \<times> 's) \<Rightarrow> ('s, 'a) op" where
  "valueM f s = (case f s of (a, s') \<Rightarrow> (Inr a, s'))"

definition updateM :: "('s \<Rightarrow> 's option) \<Rightarrow> ('s, unit) op" where
  "updateM f s = (case f s of None \<Rightarrow> (Inl Panic, s) | Some s' \<Rightarrow> (Inr (), s'))"

definition deviceM :: "(soc \<Rightarrow> 'd) \<Rightarrow> (('d \<Rightarrow> 'd) \<Rightarrow> soc \<Rightarrow> soc) \<Rightarrow> ('d, 'a) op \<Rightarrow> (soc_bank, 'a) op" where
  "deviceM get upd = zoomM (\<lambda>b. get (bank_rest b)) (\<lambda>d. on_soc (upd (\<lambda>_. d)))"

definition ncoM :: "(nco, 'a) op \<Rightarrow> (soc_bank, 'a) op" where
  "ncoM = zoomM bank_nco (\<lambda>n b. b\<lparr>bank_nco := n\<rparr>)"

definition socM :: "(soc, 'a) op \<Rightarrow> (soc_bank, 'a) op" where
  "socM = zoomM bank_rest (\<lambda>s b. b\<lparr>bank_rest := s\<rparr>)"

section \<open>Dispatch\<close>

datatype device =
  D_uart | D_pbc | D_bsc_i2c | D_lue | D_serdes | D_mpcp_tssync | D_epon_mac | D_macsec | D_dma | D_timer
| D_efuse_udr | D_fatal_filter | D_mpcp | D_nco | D_mac_filter | D_sysreg

text \<open>The chain from the classifier on, and the whole chain\<close>

definition inner_for :: "u32 \<Rightarrow> device option" where
  "inner_for addr =
     (if lue_claims addr then Some D_lue
      else if serdes_claims addr then Some D_serdes
      else if tssync_claims addr then Some D_mpcp_tssync
      else if epon_claims addr then Some D_epon_mac
      else if macsec_claims addr then Some D_macsec
      else if dma_claims addr then Some D_dma
      else if timer_claims addr then Some D_timer
      else if efuse_claims addr then Some D_efuse_udr
      else if fatal_filter_claims addr then Some D_fatal_filter
      else if mpcp_claims addr then Some D_mpcp
      else if nco_claims addr then Some D_nco
      else if mac_filter_claims addr then Some D_mac_filter
      else if sysreg_claims addr then Some D_sysreg
      else None)"

definition peripheral_for :: "u32 \<Rightarrow> device option" where
  "peripheral_for addr =
     (if uart_claims addr then Some D_uart
      else if pbc_claims addr then Some D_pbc
      else if bsc_claims addr then Some D_bsc_i2c
      else inner_for addr)"

definition unmapped :: "u32 \<Rightarrow> bool \<Rightarrow> 'a \<Rightarrow> (soc_bank, 'a) op" where
  "unmapped addr is_write v =
     bindM (getsM (\<lambda>b. so_unmapped_exception (bank_rest b))) (\<lambda>strict.
       if strict then throwM (MemoryError addr is_write) else returnM v)"

section \<open>Reads\<close>

definition device_read_word :: "u32 \<Rightarrow> device \<Rightarrow> (soc_bank, u32) op" where
  "device_read_word addr d =
     (case d of
        D_uart \<Rightarrow> deviceM so_uart so_uart_update (valueM (uart_read_word addr))
      | D_pbc \<Rightarrow> deviceM so_pbc so_pbc_update (valueM (pbc_read_word addr))
      | D_bsc_i2c \<Rightarrow> deviceM so_bsc so_bsc_update (valueM (bsc_read_word addr))
      | D_lue \<Rightarrow> deviceM so_lue so_lue_update (getsM (lue_read_word addr))
      | D_serdes \<Rightarrow> deviceM so_serdes so_serdes_update (serdes_read_word addr)
      | D_mpcp_tssync \<Rightarrow> deviceM so_tssync so_tssync_update (valueM (tssync_read_word addr))
      | D_epon_mac \<Rightarrow> deviceM so_epon so_epon_update (valueM (epon_read_word addr))
      | D_macsec \<Rightarrow> deviceM so_macsec so_macsec_update (macsec_read_word addr)
      | D_dma \<Rightarrow> deviceM so_dma so_dma_update (dma_read_word addr)
      | D_timer \<Rightarrow> deviceM so_timer so_timer_update (valueM (timer_read_word addr))
      | D_efuse_udr \<Rightarrow> deviceM so_efuse so_efuse_update (valueM (efuse_read_word addr))
      | D_fatal_filter \<Rightarrow> deviceM so_fatal so_fatal_update (getsM (fatal_filter_read_word addr))
      | D_mpcp \<Rightarrow> deviceM so_mpcp so_mpcp_update (mpcp_read_word addr)
      | D_nco \<Rightarrow> ncoM (getsM (nco_read_word addr))
      | D_mac_filter \<Rightarrow> deviceM so_mac_filter so_mac_filter_update (valueM (mac_filter_read_word addr))
      | D_sysreg \<Rightarrow> deviceM so_sysreg so_sysreg_update (getsM (sysreg_read_word addr)))"

definition read_mpcp_bus :: "u32 \<Rightarrow> lane_bus \<Rightarrow> u32 \<times> lane_bus" where
  "read_mpcp_bus addr bus =
     (if addr = lb_cmd_addr bus then bus_read_cmd bus
      else if addr = lb_data_addr bus then (bus_read_data bus, bus)
      else (bus_read_stat bus, bus))"

text \<open>The status words of the transfers to the mailbox, which no device claims\<close>

definition read_dma_mailbox :: "u32 \<Rightarrow> soc \<Rightarrow> u32 option" where
  "read_dma_mailbox addr s =
     (if addr = 0x01000010 then Some (so_dma_master_0 s)
      else if addr = 0x01000014 then Some (so_dma_mask_0 s)
      else if addr = 0x01000018 then Some (so_dma_master_1 s)
      else if addr = 0x0100001C then Some (so_dma_mask_1 s)
      else None)"

text \<open>The chain behind the overrides and the mailbox of the OLT\<close>

definition read_dispatch :: "u32 \<Rightarrow> (soc_bank, u32) op" where
  "read_dispatch addr =
     bindM (getsM bank_rest) (\<lambda>s.
       if uart_claims addr then device_read_word addr D_uart
       else if pbc_claims addr then device_read_word addr D_pbc
       else if bsc_claims addr then device_read_word addr D_bsc_i2c
       else if bus_claims addr (so_mpcp_bus s) then deviceM so_mpcp_bus so_mpcp_bus_update (valueM (read_mpcp_bus addr))
       else case inner_for addr of
              Some D_sysreg \<Rightarrow>
                (case read_dma_mailbox addr s of Some v \<Rightarrow> returnM v | None \<Rightarrow> device_read_word addr D_sysreg)
            | Some d \<Rightarrow> device_read_word addr d
            | None \<Rightarrow> unmapped addr False 0)"

text \<open>The mailbox of the OLT lies inside the window of the MAC and comes first.\<close>

definition read_mailbox :: "u32 \<Rightarrow> olt \<Rightarrow> u32 option \<times> olt" where
  "read_mailbox addr h =
     (if mailbox_claims addr then (case read_cmd_status addr h of Some v \<Rightarrow> (Some v, h) | None \<Rightarrow> olt_read_data addr h)
      else (None, h))"

definition try_override :: "u32 \<Rightarrow> (soc_bank, u32 option) op" where
  "try_override addr =
     deviceM so_scenario so_scenario_update
       (valueM (\<lambda>s. case try_read addr (sn_overrides s) of (r, ov) \<Rightarrow> (r, s\<lparr>sn_overrides := ov\<rparr>)))"

definition read_word_inner :: "u32 \<Rightarrow> (soc_bank, u32) op" where
  "read_word_inner addr =
     bindM (try_override addr) (\<lambda>r.
       case r of
         Some v \<Rightarrow> returnM v
       | None \<Rightarrow>
           bindM (deviceM so_olt so_olt_update (valueM (read_mailbox addr))) (\<lambda>m.
             case m of Some v \<Rightarrow> returnM v | None \<Rightarrow> read_dispatch addr))"

section \<open>Writes\<close>

abbreviation SYNTHETIC_ONU_MAC :: mac_addr where "SYNTHETIC_ONU_MAC \<equiv> MacAddr 0x02 0x00 0x00 0x01 0x02 0x03"
abbreviation SYNTHETIC_DISCOVERY_INFORMATION :: u16 where "SYNTHETIC_DISCOVERY_INFORMATION \<equiv> 0x0011"
abbreviation SYNTHETIC_LASER_TQ :: u8 where "SYNTHETIC_LASER_TQ \<equiv> 32"

definition handle_mpcp_burst_trigger :: "olt \<Rightarrow> olt option" where
  "handle_mpcp_burst_trigger h =
     (if \<not> ol_link_up h then Some h
      else if ol_real_tx_seen h then Some h
      else
        let onu_mac = (case oc_onu_mac_override (ol_config h) of None \<Rightarrow> SYNTHETIC_ONU_MAC | Some m \<Rightarrow> m);
            frame = mpcp_register_req
              \<lparr>mh_dst = MPCP_MULTICAST, mh_src = onu_mac, mh_opcode = Op_RegisterReq, mh_timestamp = ol_mpcp_timestamp h\<rparr>
              \<lparr>rr_flag = RR_Register, rr_pending_grants = 0, rr_discovery_information = SYNTHETIC_DISCOVERY_INFORMATION,
               rr_laser_on = SYNTHETIC_LASER_TQ, rr_laser_off = SYNTHETIC_LASER_TQ\<rparr>
        in on_tx_frame frame h)"

definition write_pbc :: "u32 \<Rightarrow> u32 \<Rightarrow> soc \<Rightarrow> soc" where
  "write_pbc addr val s =
     (case take_pending_spi_serdes (pbc_write_word addr val (so_pbc s)) of
        (None, p) \<Rightarrow> s\<lparr>so_pbc := p\<rparr>
      | (Some (tx, rx_len), p) \<Rightarrow>
          (case spi_command tx rx_len (so_serdes s) of
             (rx, sd) \<Rightarrow> s\<lparr>so_pbc := complete_spi_serdes rx p, so_serdes := sd\<rparr>))"

definition write_serdes :: "u32 \<Rightarrow> u32 \<Rightarrow> (soc_bank, unit) op" where
  "write_serdes addr val =
     (let store = deviceM so_serdes so_serdes_update (serdes_write_word addr val)
      in if addr = 0x010001B0 then
           bindM (getsM (\<lambda>b. serdes_peek_word addr (so_serdes (bank_rest b)))) (\<lambda>old.
             thenM store
               (if val AND 0x800 \<noteq> 0 \<and> old AND 0x800 = 0
                then deviceM so_olt so_olt_update (updateM handle_mpcp_burst_trigger) else returnM ()))
         else store)"

text \<open>While a registration is under way the table of the MAC keeps the identifier the OLT assigned.\<close>

definition write_epon :: "u32 \<Rightarrow> u32 \<Rightarrow> soc \<Rightarrow> soc" where
  "write_epon addr val s =
     (let p = lk_peer (ol_link (so_olt s))
      in if p_mpcp_state p \<noteq> Mpcp_Idle \<and> (addr = 0x0100043C \<or> addr = 0x01000D00) \<and> val \<noteq> 0
         then s\<lparr>so_epon := poke_table_store addr ((val AND 0xFFFF0000) OR ucast (llid_u16 (p_assigned_llid p))) (so_epon s)\<rparr>
         else s\<lparr>so_epon := epon_write_word addr val (so_epon s)\<rparr>)"

definition write_efuse :: "u32 \<Rightarrow> u32 \<Rightarrow> soc \<Rightarrow> soc" where
  "write_efuse addr val s =
     (let s1 = (if addr = REG_I2C_UDR_CLK_RESET
                then s\<lparr>so_mpcp_bus := set_page (unat (drop_bit 12 val AND 3)) (so_mpcp_bus s)\<rparr> else s)
      in s1\<lparr>so_efuse := efuse_write_word addr val (so_efuse s1)\<rparr>)"

definition write_mpcp_bus :: "u32 \<Rightarrow> u32 \<Rightarrow> soc \<Rightarrow> soc" where
  "write_mpcp_bus addr val s =
     (let bus = so_mpcp_bus s
      in if addr = lb_cmd_addr bus then
           s\<lparr>so_mpcp_bus := clear_cmd_bits_now (bus_write_cmd val bus),
             so_pending_cache_inv := so_pending_cache_inv s @ [CacheInvalidate addr]\<rparr>
         else if addr = lb_data_addr bus then s\<lparr>so_mpcp_bus := bus_write_data val bus\<rparr>
         else s\<lparr>so_mpcp_bus := arm_transaction val (bus_write_stat val bus)\<rparr>)"

definition device_write_word :: "u32 \<Rightarrow> u32 \<Rightarrow> device \<Rightarrow> (soc_bank, unit) op" where
  "device_write_word addr val d =
     (case d of
        D_uart \<Rightarrow> deviceM so_uart so_uart_update (modifyM (uart_write_word addr val))
      | D_pbc \<Rightarrow> socM (modifyM (write_pbc addr val))
      | D_bsc_i2c \<Rightarrow> deviceM so_bsc so_bsc_update (modifyM (bsc_write_word addr val))
      | D_lue \<Rightarrow> deviceM so_lue so_lue_update (modifyM (lue_write_word addr val))
      | D_serdes \<Rightarrow> write_serdes addr val
      | D_mpcp_tssync \<Rightarrow> deviceM so_tssync so_tssync_update (modifyM (tssync_write_word addr val))
      | D_epon_mac \<Rightarrow> socM (modifyM (write_epon addr val))
      | D_macsec \<Rightarrow> deviceM so_macsec so_macsec_update (macsec_write_word addr val)
      | D_dma \<Rightarrow> deviceM so_dma so_dma_update (dma_write_word addr val)
      | D_timer \<Rightarrow> deviceM so_timer so_timer_update (modifyM (timer_write_word addr val))
      | D_efuse_udr \<Rightarrow> socM (modifyM (write_efuse addr val))
      | D_fatal_filter \<Rightarrow> deviceM so_fatal so_fatal_update (modifyM (fatal_filter_write_word addr val))
      | D_mpcp \<Rightarrow> deviceM so_mpcp so_mpcp_update (mpcp_write_word addr val)
      | D_nco \<Rightarrow> ncoM (modifyM (nco_write_word addr val))
      | D_mac_filter \<Rightarrow> deviceM so_mac_filter so_mac_filter_update (modifyM (mac_filter_write_word addr val))
      | D_sysreg \<Rightarrow> deviceM so_sysreg so_sysreg_update (modifyM (sysreg_write_word addr val)))"

definition write_dma_mailbox :: "u32 \<Rightarrow> u32 \<Rightarrow> soc \<Rightarrow> soc option" where
  "write_dma_mailbox addr val s =
     (if addr = 0x01000010 then Some (s\<lparr>so_dma_master_0 := so_dma_master_0 s AND NOT val\<rparr>)
      else if addr = 0x01000014 then Some (s\<lparr>so_dma_mask_0 := val\<rparr>)
      else if addr = 0x01000018 then Some (s\<lparr>so_dma_master_1 := so_dma_master_1 s AND NOT val\<rparr>)
      else if addr = 0x0100001C then Some (s\<lparr>so_dma_mask_1 := val\<rparr>)
      else None)"

definition write_dispatch :: "u32 \<Rightarrow> u32 \<Rightarrow> (soc_bank, unit) op" where
  "write_dispatch addr val =
     bindM (getsM bank_rest) (\<lambda>s.
       if uart_claims addr then device_write_word addr val D_uart
       else if pbc_claims addr then device_write_word addr val D_pbc
       else if bsc_claims addr then device_write_word addr val D_bsc_i2c
       else if bus_claims addr (so_mpcp_bus s) then socM (modifyM (write_mpcp_bus addr val))
       else case inner_for addr of
              Some D_sysreg \<Rightarrow>
                (case write_dma_mailbox addr val s of
                   Some s' \<Rightarrow> socM (modifyM (\<lambda>_. s')) | None \<Rightarrow> device_write_word addr val D_sysreg)
            | Some d \<Rightarrow> device_write_word addr val d
            | None \<Rightarrow> unmapped addr True ())"

text \<open>The words of the mailbox bitmap, as the MAC shows them\<close>

definition sync_bitmap :: "olt \<Rightarrow> epon_mac \<Rightarrow> epon_mac" where
  "sync_bitmap h e = fold (\<lambda>wi. poke_llid_store (0x01001438 + of_nat wi * 0x200) (ol_bitmap h ! wi)) [0..<6] e"

definition write_word_inner :: "u32 \<Rightarrow> u32 \<Rightarrow> (soc_bank, unit) op" where
  "write_word_inner addr val0 =
     bindM (getsM (\<lambda>b. filter_write addr val0 (sn_overrides (so_scenario (bank_rest b))))) (\<lambda>masked.
       let val = (case masked of None \<Rightarrow> val0 | Some m \<Rightarrow> m)
       in thenM (deviceM so_olt so_olt_update (modifyM (\<lambda>h. snd (observe_report_template addr val h))))
            (if mailbox_claims addr then
               thenM (deviceM so_olt so_olt_update (updateM (observe_write addr val)))
                 (bindM (deviceM so_olt so_olt_update (valueM (olt_write_cmd addr val))) (\<lambda>taken.
                    if taken then socM (modifyM (\<lambda>s. s\<lparr>so_epon := sync_bitmap (so_olt s) (so_epon s)\<rparr>))
                    else write_dispatch addr val))
             else write_dispatch addr val))"

section \<open>Words with the scenario\<close>

text \<open>The deferred writes of a scenario go straight to the dispatch; a failure of one is dropped, a panic is not.\<close>

fun deferred_writes :: "(u32 \<times> u32) list \<Rightarrow> (soc_bank, unit) op" where
  "deferred_writes [] b = (Inr (), b)"
| "deferred_writes ((a, v) # ws) b =
     (case write_word_inner a v b of (Inl Panic, b') \<Rightarrow> (Inl Panic, b') | (_, b') \<Rightarrow> deferred_writes ws b')"

definition drain_scenario_deferred :: "(soc_bank, unit) op" where
  "drain_scenario_deferred =
     bindM (deviceM so_scenario so_scenario_update (valueM take_deferred_writes)) deferred_writes"

text \<open>The engine sees the access also when it failed, with the value 0 for a read.\<close>

definition with_scenario :: "('a result \<Rightarrow> scenario \<Rightarrow> scenario) \<Rightarrow> (soc_bank, 'a) op \<Rightarrow> (soc_bank, 'a) op" where
  "with_scenario see m b =
     (case m b of
        (Inl Panic, b1) \<Rightarrow> (Inl Panic, b1)
      | (r, b1) \<Rightarrow>
          (case drain_scenario_deferred (on_soc (so_scenario_update (see r)) b1) of
             (Inl e, b2) \<Rightarrow> (Inl e, b2)
           | (Inr (), b2) \<Rightarrow> (r, b2)))"

definition soc_read_word :: "u32 \<Rightarrow> (soc_bank, u32) op" where
  "soc_read_word addr =
     with_scenario (\<lambda>r. on_mmio_read addr (case r of Inr v \<Rightarrow> v | Inl _ \<Rightarrow> 0)) (read_word_inner addr)"

definition soc_write_word :: "u32 \<Rightarrow> u32 \<Rightarrow> (soc_bank, unit) op" where
  "soc_write_word addr val = with_scenario (\<lambda>r. on_mmio_write addr val) (write_word_inner addr val)"

end
