(* ===== verification/Soc_System.thy ===== *)
theory Soc_System
  imports Soc_Bank
begin

text \<open>
  The rest of \<open>src/soc/bank.rs\<close>: accesses narrower than a word, the side-effect-free probe, the tick that carries what the OLT
  produced into the registers of the MAC, resets and the queue of transfers to memory.
\<close>

unbundle bit_operations_syntax

section \<open>Halves and bytes\<close>

text \<open>A device whose word accesses always answer, with the default methods of the trait\<close>

abbreviation pure_word :: "(u32 \<Rightarrow> 'd \<Rightarrow> u32) \<Rightarrow> u32 \<Rightarrow> 'd \<Rightarrow> u32 \<times> 'd" where
  "pure_word f addr d \<equiv> (f addr d, d)"

definition device_read_half :: "u32 \<Rightarrow> device \<Rightarrow> (soc_bank, u16) op" where
  "device_read_half addr d =
     (case d of
        D_uart \<Rightarrow> deviceM so_uart so_uart_update (valueM (uart_read_half addr))
      | D_pbc \<Rightarrow> deviceM so_pbc so_pbc_update (valueM (default_read_half pbc_read_word addr))
      | D_bsc_i2c \<Rightarrow> deviceM so_bsc so_bsc_update (valueM (default_read_half bsc_read_word addr))
      | D_lue \<Rightarrow> deviceM so_lue so_lue_update (getsM (lue_read_half addr))
      | D_serdes \<Rightarrow> deviceM so_serdes so_serdes_update (op_read_half serdes_read_word addr)
      | D_mpcp_tssync \<Rightarrow> deviceM so_tssync so_tssync_update (valueM (default_read_half tssync_read_word addr))
      | D_epon_mac \<Rightarrow> deviceM so_epon so_epon_update (valueM (default_read_half epon_read_word addr))
      | D_macsec \<Rightarrow> deviceM so_macsec so_macsec_update (op_read_half macsec_read_word addr)
      | D_dma \<Rightarrow> deviceM so_dma so_dma_update (op_read_half dma_read_word addr)
      | D_timer \<Rightarrow> deviceM so_timer so_timer_update (getsM (timer_read_half addr))
      | D_efuse_udr \<Rightarrow> deviceM so_efuse so_efuse_update (valueM (default_read_half efuse_read_word addr))
      | D_fatal_filter \<Rightarrow> deviceM so_fatal so_fatal_update (valueM (default_read_half (pure_word fatal_filter_read_word) addr))
      | D_mpcp \<Rightarrow> deviceM so_mpcp so_mpcp_update (op_read_half mpcp_read_word addr)
      | D_nco \<Rightarrow> ncoM (valueM (default_read_half (pure_word nco_read_word) addr))
      | D_mac_filter \<Rightarrow> deviceM so_mac_filter so_mac_filter_update (valueM (mac_filter_read_half addr))
      | D_sysreg \<Rightarrow> deviceM so_sysreg so_sysreg_update (getsM (sysreg_read_half addr)))"

definition device_read_byte :: "u32 \<Rightarrow> device \<Rightarrow> (soc_bank, u8) op" where
  "device_read_byte addr d =
     (case d of
        D_uart \<Rightarrow> deviceM so_uart so_uart_update (valueM (uart_read_byte addr))
      | D_pbc \<Rightarrow> deviceM so_pbc so_pbc_update (valueM (pbc_read_byte addr))
      | D_bsc_i2c \<Rightarrow> deviceM so_bsc so_bsc_update (valueM (default_read_byte bsc_read_word addr))
      | D_lue \<Rightarrow> deviceM so_lue so_lue_update (getsM (lue_read_byte addr))
      | D_serdes \<Rightarrow> deviceM so_serdes so_serdes_update (serdes_read_byte addr)
      | D_mpcp_tssync \<Rightarrow> deviceM so_tssync so_tssync_update (valueM (default_read_byte tssync_read_word addr))
      | D_epon_mac \<Rightarrow> deviceM so_epon so_epon_update (valueM (default_read_byte epon_read_word addr))
      | D_macsec \<Rightarrow> deviceM so_macsec so_macsec_update (op_read_byte macsec_read_word addr)
      | D_dma \<Rightarrow> deviceM so_dma so_dma_update (op_read_byte dma_read_word addr)
      | D_timer \<Rightarrow> deviceM so_timer so_timer_update (getsM (timer_read_byte addr))
      | D_efuse_udr \<Rightarrow> deviceM so_efuse so_efuse_update (valueM (default_read_byte efuse_read_word addr))
      | D_fatal_filter \<Rightarrow> deviceM so_fatal so_fatal_update (valueM (default_read_byte (pure_word fatal_filter_read_word) addr))
      | D_mpcp \<Rightarrow> deviceM so_mpcp so_mpcp_update (op_read_byte mpcp_read_word addr)
      | D_nco \<Rightarrow> ncoM (valueM (default_read_byte (pure_word nco_read_word) addr))
      | D_mac_filter \<Rightarrow> deviceM so_mac_filter so_mac_filter_update (valueM (mac_filter_read_byte addr))
      | D_sysreg \<Rightarrow> deviceM so_sysreg so_sysreg_update (getsM (sysreg_read_byte addr)))"

definition device_write_half :: "u32 \<Rightarrow> u16 \<Rightarrow> device \<Rightarrow> (soc_bank, unit) op" where
  "device_write_half addr val d =
     (case d of
        D_uart \<Rightarrow> deviceM so_uart so_uart_update (modifyM (uart_write_half addr val))
      | D_pbc \<Rightarrow> deviceM so_pbc so_pbc_update (modifyM (default_write_half pbc_read_word pbc_write_word addr val))
      | D_bsc_i2c \<Rightarrow> deviceM so_bsc so_bsc_update (modifyM (default_write_half bsc_read_word bsc_write_word addr val))
      | D_lue \<Rightarrow> deviceM so_lue so_lue_update (modifyM (lue_write_half addr val))
      | D_serdes \<Rightarrow> deviceM so_serdes so_serdes_update (op_write_half serdes_read_word serdes_write_word addr val)
      | D_mpcp_tssync \<Rightarrow> deviceM so_tssync so_tssync_update (modifyM (default_write_half tssync_read_word tssync_write_word addr val))
      | D_epon_mac \<Rightarrow> deviceM so_epon so_epon_update (modifyM (default_write_half epon_read_word epon_write_word addr val))
      | D_macsec \<Rightarrow> deviceM so_macsec so_macsec_update (op_write_half macsec_read_word macsec_write_word addr val)
      | D_dma \<Rightarrow> deviceM so_dma so_dma_update (op_write_half dma_read_word dma_write_word addr val)
      | D_timer \<Rightarrow> deviceM so_timer so_timer_update (modifyM (default_write_half timer_read_word timer_write_word addr val))
      | D_efuse_udr \<Rightarrow> deviceM so_efuse so_efuse_update (modifyM (default_write_half efuse_read_word efuse_write_word addr val))
      | D_fatal_filter \<Rightarrow>
          deviceM so_fatal so_fatal_update
            (modifyM (default_write_half (pure_word fatal_filter_read_word) fatal_filter_write_word addr val))
      | D_mpcp \<Rightarrow> deviceM so_mpcp so_mpcp_update (op_write_half mpcp_read_word mpcp_write_word addr val)
      | D_nco \<Rightarrow> ncoM (modifyM (default_write_half (pure_word nco_read_word) nco_write_word addr val))
      | D_mac_filter \<Rightarrow> deviceM so_mac_filter so_mac_filter_update (modifyM (mac_filter_write_half addr val))
      | D_sysreg \<Rightarrow> deviceM so_sysreg so_sysreg_update (modifyM (sysreg_write_half addr val)))"

definition device_write_byte :: "u32 \<Rightarrow> u8 \<Rightarrow> device \<Rightarrow> (soc_bank, unit) op" where
  "device_write_byte addr val d =
     (case d of
        D_uart \<Rightarrow> deviceM so_uart so_uart_update (modifyM (uart_write_byte addr val))
      | D_pbc \<Rightarrow> deviceM so_pbc so_pbc_update (modifyM (default_write_byte pbc_read_word pbc_write_word addr val))
      | D_bsc_i2c \<Rightarrow> deviceM so_bsc so_bsc_update (modifyM (default_write_byte bsc_read_word bsc_write_word addr val))
      | D_lue \<Rightarrow> deviceM so_lue so_lue_update (modifyM (lue_write_byte addr val))
      | D_serdes \<Rightarrow> deviceM so_serdes so_serdes_update (serdes_write_byte addr val)
      | D_mpcp_tssync \<Rightarrow> deviceM so_tssync so_tssync_update (modifyM (default_write_byte tssync_read_word tssync_write_word addr val))
      | D_epon_mac \<Rightarrow> deviceM so_epon so_epon_update (modifyM (default_write_byte epon_read_word epon_write_word addr val))
      | D_macsec \<Rightarrow> deviceM so_macsec so_macsec_update (op_write_byte macsec_read_word macsec_write_word addr val)
      | D_dma \<Rightarrow> deviceM so_dma so_dma_update (op_write_byte dma_read_word dma_write_word addr val)
      | D_timer \<Rightarrow> deviceM so_timer so_timer_update (modifyM (default_write_byte timer_read_word timer_write_word addr val))
      | D_efuse_udr \<Rightarrow> deviceM so_efuse so_efuse_update (modifyM (default_write_byte efuse_read_word efuse_write_word addr val))
      | D_fatal_filter \<Rightarrow>
          deviceM so_fatal so_fatal_update
            (modifyM (default_write_byte (pure_word fatal_filter_read_word) fatal_filter_write_word addr val))
      | D_mpcp \<Rightarrow> deviceM so_mpcp so_mpcp_update (op_write_byte mpcp_read_word mpcp_write_word addr val)
      | D_nco \<Rightarrow> ncoM (modifyM (default_write_byte (pure_word nco_read_word) nco_write_word addr val))
      | D_mac_filter \<Rightarrow> deviceM so_mac_filter so_mac_filter_update (modifyM (mac_filter_write_byte addr val))
      | D_sysreg \<Rightarrow> deviceM so_sysreg so_sysreg_update (modifyM (sysreg_write_byte addr val)))"

definition dispatch_narrow :: "u32 \<Rightarrow> bool \<Rightarrow> 'a \<Rightarrow> (device \<Rightarrow> (soc_bank, 'a) op) \<Rightarrow> (soc_bank, 'a) op" where
  "dispatch_narrow addr is_write v f = (case peripheral_for addr of Some d \<Rightarrow> f d | None \<Rightarrow> unmapped addr is_write v)"

definition soc_read_half :: "u32 \<Rightarrow> (soc_bank, u16) op" where
  "soc_read_half addr =
     bindM (try_override (addr AND NOT 3)) (\<lambda>r.
       case r of
         Some word \<Rightarrow> returnM (ucast (drop_bit (unat ((2 - (addr AND 2)) * 8)) word AND 0xFFFF))
       | None \<Rightarrow> dispatch_narrow addr False 0 (device_read_half addr))"

definition soc_read_byte :: "u32 \<Rightarrow> (soc_bank, u8) op" where
  "soc_read_byte addr =
     bindM (try_override (addr AND NOT 3)) (\<lambda>r.
       case r of
         Some word \<Rightarrow> returnM (ucast (drop_bit (unat ((3 - (addr AND 3)) * 8)) word AND 0xFF))
       | None \<Rightarrow> dispatch_narrow addr False 0 (device_read_byte addr))"

definition soc_write_half :: "u32 \<Rightarrow> u16 \<Rightarrow> (soc_bank, unit) op" where
  "soc_write_half addr val = dispatch_narrow addr True () (device_write_half addr val)"

definition soc_write_byte :: "u32 \<Rightarrow> u8 \<Rightarrow> (soc_bank, unit) op" where
  "soc_write_byte addr val = dispatch_narrow addr True () (device_write_byte addr val)"

section \<open>Probe\<close>

text \<open>A device without a method of its own is probed as 0.\<close>

definition device_peek_word :: "u32 \<Rightarrow> soc_bank \<Rightarrow> device \<Rightarrow> u32" where
  "device_peek_word addr b d =
     (let s = bank_rest b
      in case d of
           D_uart \<Rightarrow> uart_peek_word addr (so_uart s)
         | D_bsc_i2c \<Rightarrow> bsc_peek_word addr (so_bsc s)
         | D_lue \<Rightarrow> (case lue_peek_word addr (so_lue s) of None \<Rightarrow> 0 | Some v \<Rightarrow> v)
         | D_mpcp_tssync \<Rightarrow> tssync_peek_word addr (so_tssync s)
         | D_epon_mac \<Rightarrow> epon_peek_word addr (so_epon s)
         | D_mac_filter \<Rightarrow> mac_filter_peek_word addr (so_mac_filter s)
         | _ \<Rightarrow> 0)"

definition soc_peek_word :: "u32 \<Rightarrow> soc_bank \<Rightarrow> u32" where
  "soc_peek_word addr b =
     (let s = bank_rest b; bus = so_mpcp_bus s
      in case peek_read addr (sn_overrides (so_scenario s)) of
           Some v \<Rightarrow> v
         | None \<Rightarrow>
             if uart_claims addr then device_peek_word addr b D_uart
             else if pbc_claims addr then device_peek_word addr b D_pbc
             else if bsc_claims addr then device_peek_word addr b D_bsc_i2c
             else if bus_claims addr bus then
               (if addr = lb_cmd_addr bus then lb_cmd bus else if addr = lb_data_addr bus then bus_read_data bus else bus_read_stat bus)
             else case inner_for addr of None \<Rightarrow> 0 | Some d \<Rightarrow> device_peek_word addr b d)"

section \<open>Tick\<close>

definition drain_uart_channel :: "soc \<Rightarrow> soc" where
  "drain_uart_channel s = s\<lparr>so_uart := fold push_rx_byte (so_uart_channel s) (so_uart s), so_uart_channel := []\<rparr>"

text \<open>The devices whose ticks do something\<close>

definition tick_devices :: "soc \<Rightarrow> soc" where
  "tick_devices s =
     s\<lparr>so_pbc := pbc_tick (so_pbc s), so_bsc := bsc_tick (so_bsc s), so_mpcp_bus := bus_tick (so_mpcp_bus s),
       so_serdes := serdes_tick (so_serdes s), so_epon := epon_tick (so_epon s), so_dma := dma_tick (so_dma s)\<rparr>"

definition push_ops :: "datapath_op list \<Rightarrow> soc \<Rightarrow> soc" where
  "push_ops ops s = s\<lparr>so_pending_cache_inv := so_pending_cache_inv s @ ops\<rparr>"

definition on_epon :: "(epon_mac \<Rightarrow> epon_mac) \<Rightarrow> soc \<Rightarrow> soc" where
  "on_epon f s = s\<lparr>so_epon := f (so_epon s)\<rparr>"

definition on_olt :: "(olt \<Rightarrow> olt) \<Rightarrow> soc \<Rightarrow> soc" where
  "on_olt f s = s\<lparr>so_olt := f (so_olt s)\<rparr>"

text \<open>What landed goes into the mailbox, and the counters of arrivals to the MAC.\<close>

definition load_mailbox :: "soc \<Rightarrow> soc" where
  "load_mailbox s0 =
     (let mbox_before = total_pending_count (so_olt s0);
          classifier = (if so_use_classifier s0 then Some (so_lue s0, so_classifier_binding s0) else None);
          h1 = load_frames_into_mailbox classifier (so_olt s0)
      in case drain_arrivals h1 of
           (landed, h) \<Rightarrow>
             let e = fold (\<lambda>slot. record_queue_arrivals slot (case landed slot of None \<Rightarrow> 0 | Some n \<Rightarrow> n)) all_slots (so_epon s0);
                 s = s0\<lparr>so_olt := h, so_epon := e\<rparr>
             in if total_pending_count h > mbox_before
                then push_ops [CacheInvalidate 0x01000010]
                       (s\<lparr>so_dma_master_0 := so_dma_master_0 s OR push_bit 27 1, so_dma_mask_0 := so_dma_mask_0 s OR 1\<rparr>)
                else s)"

definition update_llid_tables :: "soc \<Rightarrow> soc" where
  "update_llid_tables s =
     (case ol_pending_llid_update (so_olt s) of
        None \<Rightarrow> s
      | Some llid \<Rightarrow>
          fold (\<lambda>base s.
              case epon_read_word base (so_epon s) of
                (old_val, e) \<Rightarrow>
                  push_ops [CacheInvalidate base]
                    (s\<lparr>so_epon := poke_table_store base ((old_val AND 0xFFFF0000) OR ucast llid) e\<rparr>))
            [0x0100043C, 0x01000D00] (on_olt (\<lambda>h. h\<lparr>ol_pending_llid_update := None\<rparr>) s))"

definition has_broadcast_gate :: "olt \<Rightarrow> bool" where
  "has_broadcast_gate h \<longleftrightarrow> gates_sent (p_counters (lk_peer (ol_link h))) > 0"

definition carry_link_change :: "soc \<Rightarrow> soc" where
  "carry_link_change s =
     (if ol_link_change_pending (so_olt s) then
        push_ops (map CacheInvalidate [0x01000410, 0x01000E04, 0x01001040])
          (on_epon (set_discovery_status_bit \<circ> set_1g_link_change_bit) (on_olt (\<lambda>h. h\<lparr>ol_link_change_pending := False\<rparr>) s))
      else s)"

definition carry_link_level :: "soc \<Rightarrow> soc" where
  "carry_link_level s0 =
     (let s = (if ol_link_up (so_olt s0) then on_epon set_discovery_status_bit s0 else s0)
      in if ol_link_up (so_olt s) \<and> has_broadcast_gate (so_olt s) then
           push_ops [CacheInvalidate 0x01000E04] (on_epon set_phy_link_status_bit s)
         else if \<not> ol_link_up (so_olt s) then
           push_ops [CacheInvalidate 0x01000E04] (on_epon clear_phy_link_status_bit s)
         else s)"

text \<open>The timestamp registers follow the OLT while the link is up.\<close>

definition drive_timestamps :: "soc \<Rightarrow> soc option" where
  "drive_timestamps s =
     (if ol_link_up (so_olt s) then
        let olt_ts = ol_mpcp_timestamp (so_olt s); n = so_nco_tx_ts_counter s + 1;
            t = drive_nco_tx_ts n (drive_captured_ts olt_ts (so_tssync s))
        in map_option (\<lambda>m.
             push_ops (map CacheInvalidate [0x010000B4, 0x01000304, 0x01000320, 0x01000D8C])
               (s\<lparr>so_nco_tx_ts_counter := n, so_mpcp := m, so_tssync := set_hw_lock (has_broadcast_gate (so_olt s)) t\<rparr>))
             (poke_tx_rate 0x01000320 olt_ts (so_mpcp s))
      else Some s)"

definition llid_state_countdown :: "soc \<Rightarrow> soc" where
  "llid_state_countdown s0 =
     (let s = (if ol_registration_complete (so_olt s0)
               then on_olt (\<lambda>h. h\<lparr>ol_registration_complete := False, ol_llid_state_init_countdown := 2000\<rparr>) s0 else s0);
          n = ol_llid_state_init_countdown (so_olt s)
      in if n > 0 then
           let s1 = on_olt (\<lambda>h. h\<lparr>ol_llid_state_init_countdown := n - 1\<rparr>) s
           in if n - 1 = 0 then push_ops [SramWrite 0x0000461C [1]] s1 else s1
         else s)"

definition carry_bitmap :: "soc \<Rightarrow> soc" where
  "carry_bitmap s =
     push_ops (map (\<lambda>wi. CacheInvalidate (0x01001438 + of_nat wi * 0x200)) [0..<6])
       (on_epon (sync_bitmap (so_olt s)) s)"

text \<open>The guard of the frame descriptor is cleared three ticks after a frame was consumed or the mailbox fell idle.\<close>

definition clear_guard :: "soc \<Rightarrow> soc" where
  "clear_guard s0 =
     (let h = so_olt s0; mailbox_idle = (\<not> has_any_pending h \<and> ol_fifo h = []);
          s = (if ol_frame_consumed h \<or> mailbox_idle then
                 (on_olt (\<lambda>h. h\<lparr>ol_frame_consumed := False\<rparr>) s0)
                   \<lparr>so_guard_clear_countdown := (if so_guard_clear_countdown s0 = 0 then 3 else so_guard_clear_countdown s0)\<rparr>
               else s0);
          n = so_guard_clear_countdown s
      in if n > 0 then
           let s1 = s\<lparr>so_guard_clear_countdown := n - 1\<rparr>
           in if n - 1 = 0 then push_ops [SramWrite 0x0007E3CA [0, 0]] s1 else s1
         else s)"

definition tick_scenario :: "u64 \<Rightarrow> soc \<Rightarrow> soc" where
  "tick_scenario n s0 =
     (let s = s0\<lparr>so_scenario := scenario_tick n (so_scenario s0)\<rparr>
      in if sn_serdes_cal_converged (so_scenario s) then s\<lparr>so_mpcp_bus := set_cal_immediate True (so_mpcp_bus s)\<rparr> else s)"

definition soc_tick :: "u64 \<Rightarrow> (soc_bank, unit) op" where
  "soc_tick cpu_instructions =
     thenM (socM (modifyM (tick_devices \<circ> drain_uart_channel)))
    (thenM (deviceM so_olt so_olt_update (updateM olt_tick))
    (thenM (socM (modifyM (carry_link_level \<circ> carry_link_change \<circ> update_llid_tables \<circ> load_mailbox)))
    (thenM (socM (updateM drive_timestamps))
    (thenM (socM (modifyM (tick_scenario cpu_instructions \<circ> clear_guard \<circ> carry_bitmap \<circ> llid_state_countdown)))
       (modifyM (\<lambda>b. b\<lparr>bank_irq_pending := uart_irq_pending (so_uart (bank_rest b))\<rparr>))))))"

section \<open>Resets\<close>

text \<open>The devices with a cold reset, which their warm reset repeats; the MAC filter applies the power-on words in the warm
  reset only.\<close>

definition reset_devices :: "(mac_filter \<Rightarrow> mac_filter) \<Rightarrow> soc \<Rightarrow> soc" where
  "reset_devices filter_reset s =
     s\<lparr>so_uart := uart_reset_cold (so_uart s), so_pbc := pbc_reset_cold (so_pbc s), so_bsc := bsc_reset_cold (so_bsc s),
       so_mpcp_bus := apply_init SYSREG_INIT_VALUES (bus_reset (so_mpcp_bus s)), so_serdes := serdes_reset_cold (so_serdes s),
       so_epon := epon_reset_cold (so_epon s), so_macsec := macsec_reset_cold (so_macsec s), so_dma := dma_reset_cold (so_dma s),
       so_alarms := clear_all (so_alarms s), so_timer := timer_reset_cold (so_timer s), so_lue := lue_reset_cold (so_lue s),
       so_efuse := efuse_reset_cold (so_efuse s), so_fatal := fatal_filter_reset_cold (so_fatal s),
       so_mpcp := mpcp_reset_cold (so_mpcp s), so_tssync := tssync_reset_cold (so_tssync s),
       so_mac_filter := filter_reset (so_mac_filter s), so_olt := olt_reset_cold (so_olt s),
       so_sysreg := sysreg_reset_cold (so_sysreg s), so_nco_tx_ts_counter := 0\<rparr>"

definition soc_reset_cold :: "soc_bank \<Rightarrow> soc_bank" where
  "soc_reset_cold b =
     b\<lparr>bank_nco := nco_reset_cold (bank_nco b), bank_irq_pending := 0, bank_current_pc := 0, bank_current_blink := 0,
       bank_current_insn := 0, bank_current_di := False,
       bank_rest := (reset_devices mac_filter_reset_cold (bank_rest b))
         \<lparr>so_dma_master_0 := 0, so_dma_master_1 := 0, so_dma_mask_0 := 0, so_dma_mask_1 := 0\<rparr>\<rparr>"

definition soc_reset_warm :: "soc_bank \<Rightarrow> soc_bank" where
  "soc_reset_warm b =
     b\<lparr>bank_nco := nco_reset_cold (bank_nco b), bank_irq_pending := 0, bank_current_pc := 0, bank_current_blink := 0,
       bank_current_insn := 0, bank_rest := reset_devices mac_filter_reset_warm (bank_rest b)\<rparr>"

definition soc_new :: "bool \<Rightarrow> soc_bank" where
  "soc_new warm =
     (if warm then soc_reset_warm else soc_reset_cold)
       \<lparr>bank_nco = nco_new, bank_irq_pending = 0, bank_current_pc = 0, bank_current_blink = 0, bank_current_insn = 0,
        bank_current_di = False, bank_aux_history = [], bank_aux_history_max = 8192, bank_rest = soc_blank\<rparr>"

section \<open>Transfers\<close>

definition soc_take_pending_datapath :: "soc_bank \<Rightarrow> datapath_op list \<times> soc_bank" where
  "soc_take_pending_datapath b =
     (let s = bank_rest b
      in case pbc_take_pending_datapath (so_pbc s) of
           (ops, p) \<Rightarrow> (ops @ so_pending_cache_inv s, on_soc (\<lambda>s. s\<lparr>so_pbc := p, so_pending_cache_inv := []\<rparr>) b))"

definition soc_complete_flash_write :: "peripheral_id \<Rightarrow> u32 \<Rightarrow> u8 list \<Rightarrow> soc_bank \<Rightarrow> soc_bank" where
  "soc_complete_flash_write i flash_addr bytes b =
     (case i of Pbc \<Rightarrow> on_soc (\<lambda>s. s\<lparr>so_pbc := complete_flash_write flash_addr bytes (so_pbc s)\<rparr>) b)"

definition scenario_pause_requested :: "soc_bank \<Rightarrow> bool \<times> soc_bank" where
  "scenario_pause_requested b =
     (case take_pause (so_scenario (bank_rest b)) of (p, sn) \<Rightarrow> (p, on_soc (\<lambda>s. s\<lparr>so_scenario := sn\<rparr>) b))"

end
