(* ===== verification/Soc_Chip.thy ===== *)
theory Soc_Chip
  imports Soc_System
begin

text \<open>
  The bank as the rest of the emulator uses it: events injected into the devices, the state saved by a snapshot
  (\<open>src/emu/named_snapshot.rs\<close>), and the record of methods through which the processor of \<open>Cpu\<close> reaches the devices.
\<close>

section \<open>Events\<close>

datatype uart_event = Bytes "u8 list" | Break | ClearTxLog

primrec uart_inject_event :: "uart_event \<Rightarrow> uart \<Rightarrow> uart" where
  "uart_inject_event (Bytes bs) u = uart_inject_bytes bs u"
| "uart_inject_event Break u = u"
| "uart_inject_event ClearTxLog u = clear_tx_log u"

datatype timer_event = SetPrescaler u32 | SetCounter u32

primrec timer_inject_event :: "timer_event \<Rightarrow> epon_timer \<Rightarrow> epon_timer option" where
  "timer_inject_event (SetPrescaler p) t = timer_set_prescaler p t"
| "timer_inject_event (SetCounter v) t = Some (t\<lparr>et_counter := v\<rparr>)"

datatype efuse_event = SetSnapshot "u8 list"

datatype peripheral_event =
  Event_Uart uart_event | Event_Sfp sfp_event | Event_Bsc bsc_event | Event_Pbc pbc_event | Event_SerDes serdes_event
| Event_Epon epon_event | Event_Macsec macsec_event | Event_Dma dma_event | Event_Alarm alarm_event
| Event_Timer timer_event | Event_Efuse efuse_event | Event_FatalFilter fatal_filter_event | Event_Olt olt_event

text \<open>The devices are asked in turn, and each answers to its own events only. The answer is whether one took the event:
  a refused parameter leaves it untaken. An event of the flash or of the OLT may panic.\<close>

definition taken :: "(soc \<Rightarrow> soc) \<Rightarrow> (soc, bool) op" where
  "taken f = thenM (modifyM f) (returnM True)"

definition if_accepted :: "'d option \<Rightarrow> ('d \<Rightarrow> soc \<Rightarrow> soc) \<Rightarrow> (soc, bool) op" where
  "if_accepted r put = (case r of None \<Rightarrow> returnM False | Some d \<Rightarrow> taken (put d))"

definition or_panic :: "'d option \<Rightarrow> ('d \<Rightarrow> soc \<Rightarrow> soc) \<Rightarrow> (soc, bool) op" where
  "or_panic r put = (case r of None \<Rightarrow> (\<lambda>s. (Inl Panic, s)) | Some d \<Rightarrow> taken (put d))"

definition soc_inject_event :: "peripheral_event \<Rightarrow> (soc, bool) op" where
  "soc_inject_event event s =
     (case event of
        Event_Uart e \<Rightarrow> taken (so_uart_update (uart_inject_event e))
      | Event_Sfp e \<Rightarrow> taken (so_bsc_update (bs_sfp_update (sfp_inject_event e)))
      | Event_Bsc e \<Rightarrow> taken (so_bsc_update (bsc_inject_event e))
      | Event_Pbc e \<Rightarrow> or_panic (pbc_inject_event e (so_pbc s)) (\<lambda>p. so_pbc_update (\<lambda>_. p))
      | Event_SerDes e \<Rightarrow> if_accepted (serdes_inject_event e (so_serdes s)) (\<lambda>d. so_serdes_update (\<lambda>_. d))
      | Event_Epon e \<Rightarrow> taken (so_epon_update (epon_inject_event e))
      | Event_Macsec e \<Rightarrow> taken (so_macsec_update (macsec_inject_event e))
      | Event_Dma e \<Rightarrow> taken (so_dma_update (dma_inject_event e))
      | Event_Alarm e \<Rightarrow> taken (so_alarms_update (alarm_inject_event e))
      | Event_Timer e \<Rightarrow> if_accepted (timer_inject_event e (so_timer s)) (\<lambda>t. so_timer_update (\<lambda>_. t))
      | Event_Efuse e \<Rightarrow> (case e of SetSnapshot bytes \<Rightarrow> taken (so_efuse_update (efuse_set_snapshot bytes)))
      | Event_FatalFilter e \<Rightarrow> taken (so_fatal_update (fatal_filter_inject_event e))
      | Event_Olt e \<Rightarrow> or_panic (olt_inject_event e (so_olt s)) (\<lambda>h. so_olt_update (\<lambda>_. h))) s"

section \<open>Snapshots\<close>

text \<open>The devices and the oscillator are saved together with the state of the bank that is in no device.\<close>

record save_state =
  sv_nco :: nco
  sv_devices :: soc

text \<open>Not saved: the bytes still in the channel of the UART, the answer to unmapped addresses, the context of the processor.
  The fields of \<open>sv_devices\<close> for the first two are the ones of an empty bank.\<close>

definition capture_for_snapshot :: "soc_bank \<Rightarrow> save_state" where
  "capture_for_snapshot b =
     \<lparr>sv_nco = bank_nco b, sv_devices = (bank_rest b)\<lparr>so_uart_channel := [], so_unmapped_exception := False\<rparr>\<rparr>"

definition restore_from_snapshot :: "save_state \<Rightarrow> soc_bank \<Rightarrow> soc_bank" where
  "restore_from_snapshot st b =
     b\<lparr>bank_nco := sv_nco st,
       bank_rest := (sv_devices st)\<lparr>so_uart_channel := so_uart_channel (bank_rest b),
         so_unmapped_exception := so_unmapped_exception (bank_rest b)\<rparr>,
       bank_irq_pending := 0, bank_current_pc := 0, bank_current_blink := 0, bank_current_insn := 0, bank_current_di := False\<rparr>"

section \<open>The methods the processor calls\<close>

text \<open>A tick that would panic leaves the bank as the panic found it; \<open>soc_tick_succeeds\<close> in \<open>Soc_Bank_Safe\<close> shows that
  none does while the clock of the OLT has room.\<close>

definition soc_devices :: "soc device_ops" where
  "soc_devices =
     \<lparr>dev_read_byte = soc_read_byte, dev_read_half = soc_read_half, dev_read_word = soc_read_word,
      dev_write_byte = soc_write_byte, dev_write_half = soc_write_half, dev_write_word = soc_write_word,
      dev_take_datapath = soc_take_pending_datapath, dev_complete_flash = soc_complete_flash_write,
      dev_sysreg_context = (\<lambda>pc insn. so_sysreg_update (sysreg_context pc insn)), dev_tick = (\<lambda>n b. snd (soc_tick n b)),
      dev_uart_irq = (\<lambda>b. uart_irq_pending (so_uart (bank_rest b)) \<noteq> 0), dev_flash = (\<lambda>b. fl_data (pb_flash (so_pbc (bank_rest b)))),
      dev_reset_cold = soc_reset_cold, dev_reset_warm = soc_reset_warm, dev_pause_requested = scenario_pause_requested\<rparr>"

end
