(* ===== verification/Soc_Routing.thy ===== *)
theory Soc_Routing
  imports Soc_Chip
begin

text \<open>
  Which device answers an address: the windows of the devices, where they overlap, and what an overlap hides.
\<close>

definition device_claims :: "device \<Rightarrow> u32 \<Rightarrow> bool" where
  "device_claims d addr =
     (case d of
        D_uart \<Rightarrow> uart_claims addr | D_pbc \<Rightarrow> pbc_claims addr | D_bsc_i2c \<Rightarrow> bsc_claims addr | D_lue \<Rightarrow> lue_claims addr
      | D_serdes \<Rightarrow> serdes_claims addr | D_mpcp_tssync \<Rightarrow> tssync_claims addr | D_epon_mac \<Rightarrow> epon_claims addr
      | D_macsec \<Rightarrow> macsec_claims addr | D_dma \<Rightarrow> dma_claims addr | D_timer \<Rightarrow> timer_claims addr
      | D_efuse_udr \<Rightarrow> efuse_claims addr | D_fatal_filter \<Rightarrow> fatal_filter_claims addr | D_mpcp \<Rightarrow> mpcp_claims addr
      | D_nco \<Rightarrow> nco_claims addr | D_mac_filter \<Rightarrow> mac_filter_claims addr | D_sysreg \<Rightarrow> sysreg_claims addr)"

section \<open>Windows in words\<close>

text \<open>Every bound is a multiple of 4, so a claim depends on the number of the word only.\<close>

abbreviation word_of :: "u32 \<Rightarrow> nat" where "word_of addr \<equiv> unat addr div 4"

lemma word_bounds:
  assumes "unat c mod 4 = 0"
  shows "c \<le> a \<longleftrightarrow> unat c div 4 \<le> word_of a" and "a < c \<longleftrightarrow> word_of a < unat c div 4"
proof -
  obtain k where k: "unat c = 4 * k" using assms by auto
  show "c \<le> a \<longleftrightarrow> unat c div 4 \<le> word_of a" unfolding word_le_nat_alt k by simp linarith
  show "a < c \<longleftrightarrow> word_of a < unat c div 4" unfolding word_less_nat_alt k by simp linarith
qed

lemma word_aligned:
  assumes "unat c mod 4 = 0"
  shows "a AND - 4 = c \<longleftrightarrow> word_of a = unat c div 4"
proof -
  have "unat (a AND NOT 3) = 4 * word_of a"
    unfolding unat_and_not_3 using mult_div_mod_eq [of 4 "unat a"] by linarith
  moreover obtain k where "unat c = 4 * k" using assms by auto
  ultimately show ?thesis by (simp add: word_unat_eq_iff)
qed

lemma word_of_aligned: "word_of (a AND - 4) = word_of a"
  using word_aligned [of "a AND - 4" a] unat_and_not_3 [of a] unat_and_not_3 [of "a AND - 4"] by simp

text \<open>Word 4194304 is the first of the register space.\<close>

lemma claim_words:
  "uart_claims a \<longleftrightarrow> 0x3F0400 \<le> word_of a \<and> word_of a < 0x3F0440"
  "pbc_claims a \<longleftrightarrow> 0x40007C \<le> word_of a \<and> word_of a < 0x400090"
  "bsc_claims a \<longleftrightarrow> 0x400050 \<le> word_of a \<and> word_of a < 0x400056"
  "lue_claims a \<longleftrightarrow> 0x400903 \<le> word_of a \<and> word_of a < 0x400908 \<or> 0x400A03 \<le> word_of a \<and> word_of a < 0x400A08"
  "serdes_claims a \<longleftrightarrow> 0x40005D \<le> word_of a \<and> word_of a < 0x40007E \<or> 0x400900 \<le> word_of a \<and> word_of a < 0x400A80
     \<or> 0x400B40 \<le> word_of a \<and> word_of a < 0x400B50 \<or> 0x8928000 \<le> word_of a \<and> word_of a < 0x8928200"
  "tssync_claims a \<longleftrightarrow> word_of a = 0x40002D \<or> word_of a = 0x4000C0 \<or> word_of a = 0x4000C1 \<or> word_of a = 0x4000C5
     \<or> word_of a = 0x4000C6 \<or> word_of a = 0x4000C7 \<or> word_of a = 0x400362 \<or> word_of a = 0x400363"
  "epon_claims a \<longleftrightarrow> word_of a = 0x400000 \<or> word_of a = 0x400001 \<or> word_of a = 0x400003 \<or> word_of a = 0x400006
     \<or> word_of a = 0x400008 \<or> word_of a = 0x400009 \<or> word_of a = 0x40000A \<or> word_of a = 0x40000C \<or> word_of a = 0x40000D
     \<or> word_of a = 0x400011 \<or> word_of a = 0x400015 \<or> word_of a = 0x400018 \<or> word_of a = 0x400019
     \<or> word_of a = 0x400410 \<or> 0x400100 \<le> word_of a \<and> word_of a < 0x4003A0 \<or> 0x400500 \<le> word_of a \<and> word_of a < 0x400800"
  "macsec_claims a \<longleftrightarrow> 0x400900 \<le> word_of a \<and> word_of a < 0x400B50 \<or> 0x400D40 \<le> word_of a \<and> word_of a < 0x400D50"
  "dma_claims a \<longleftrightarrow> 0x400800 \<le> word_of a \<and> word_of a < 0x401000 \<and> \<not> (0x400900 \<le> word_of a \<and> word_of a < 0x400B50)
     \<and> \<not> (0x400C00 \<le> word_of a \<and> word_of a < 0x400C20) \<and> \<not> (0x400D40 \<le> word_of a \<and> word_of a < 0x400D50)
     \<and> \<not> (0x400D80 \<le> word_of a \<and> word_of a < 0x400D85)"
  "timer_claims a \<longleftrightarrow> word_of a = 0x400014"
  "efuse_claims a \<longleftrightarrow> word_of a = 0x400010 \<or> word_of a = 0x400012 \<or> word_of a = 0x400013"
  "fatal_filter_claims a \<longleftrightarrow> 0x400D80 \<le> word_of a \<and> word_of a < 0x400D85"
  "mpcp_claims a \<longleftrightarrow> 0x400048 \<le> word_of a \<and> word_of a < 0x400050 \<or> 0x4000C8 \<le> word_of a \<and> word_of a < 0x4000CA
     \<or> 0x400460 \<le> word_of a \<and> word_of a < 0x400470 \<or> 0x40049A \<le> word_of a \<and> word_of a < 0x4004E4"
  "nco_claims a \<longleftrightarrow> word_of a = 0x4003E0"
  "mac_filter_claims a \<longleftrightarrow> 0x400C00 \<le> word_of a \<and> word_of a < 0x400C20"
  "sysreg_claims a \<longleftrightarrow> 0x400000 \<le> word_of a \<and> word_of a < 0x400E00"
  by (auto simp: uart_claims_def pbc_claims_def bsc_claims_def lue_claims_def lue_locate_def LUE_CMD_ADDR_def serdes_claims_def
      tssync_claims_def CLAIMED_def epon_claims_def CORE_REGS_def macsec_claims_def dma_claims_def MACSEC_CARVEOUTS_def
      timer_claims_def nco_claims_def efuse_claims_def fatal_filter_claims_def mpcp_claims_def REGIONS_def mac_filter_claims_def
      sysreg_claims_def word_bounds word_aligned word_of_aligned)


section \<open>The map of the addresses\<close>

text \<open>The windows of a device, in words, from the first to the one past the last\<close>

primrec windows :: "device \<Rightarrow> (nat \<times> nat) list" where
  "windows D_uart = [(0x3F0400, 0x3F0440)]"
| "windows D_pbc = [(0x40007C, 0x400090)]"
| "windows D_bsc_i2c = [(0x400050, 0x400056)]"
| "windows D_lue = [(0x400903, 0x400908), (0x400A03, 0x400A08)]"
| "windows D_serdes = [(0x40005D, 0x40007E), (0x400900, 0x400A80), (0x400B40, 0x400B50), (0x8928000, 0x8928200)]"
| "windows D_mpcp_tssync =
     [(0x40002D, 0x40002E), (0x4000C0, 0x4000C1), (0x4000C1, 0x4000C2), (0x4000C5, 0x4000C6),
      (0x4000C6, 0x4000C7), (0x4000C7, 0x4000C8), (0x400362, 0x400363), (0x400363, 0x400364)]"
| "windows D_epon_mac =
     [(0x400000, 0x400001), (0x400001, 0x400002), (0x400003, 0x400004), (0x400006, 0x400007),
      (0x400008, 0x400009), (0x400009, 0x40000A), (0x40000A, 0x40000B), (0x40000C, 0x40000D),
      (0x40000D, 0x40000E), (0x400011, 0x400012), (0x400015, 0x400016), (0x400018, 0x400019),
      (0x400019, 0x40001A), (0x400410, 0x400411), (0x400100, 0x4003A0), (0x400500, 0x400800)]"
| "windows D_macsec = [(0x400900, 0x400B50), (0x400D40, 0x400D50)]"
| "windows D_dma = [(0x400800, 0x400900), (0x400B50, 0x400C00), (0x400C20, 0x400D40), (0x400D50, 0x400D80), (0x400D85, 0x401000)]"
| "windows D_timer = [(0x400014, 0x400015)]"
| "windows D_efuse_udr = [(0x400010, 0x400011), (0x400012, 0x400013), (0x400013, 0x400014)]"
| "windows D_fatal_filter = [(0x400D80, 0x400D85)]"
| "windows D_mpcp = [(0x400048, 0x400050), (0x4000C8, 0x4000CA), (0x400460, 0x400470), (0x40049A, 0x4004E4)]"
| "windows D_nco = [(0x4003E0, 0x4003E1)]"
| "windows D_mac_filter = [(0x400C00, 0x400C20)]"
| "windows D_sysreg = [(0x400000, 0x400E00)]"

definition within :: "nat \<Rightarrow> nat \<times> nat \<Rightarrow> bool" where
  "within n w \<longleftrightarrow> fst w \<le> n \<and> n < snd w"

lemma within_single: "c' = Suc c \<Longrightarrow> within n (c, c') \<longleftrightarrow> n = c"
  by (auto simp: within_def)

lemma dma_windows: "dma_claims addr \<longleftrightarrow> list_ex (within (word_of addr)) (windows D_dma)"
  unfolding claim_words by (auto simp: within_def)

lemma claims_windows: "device_claims d addr \<longleftrightarrow> list_ex (within (word_of addr)) (windows d)"
proof (cases "d = D_dma")
  case True
  then show ?thesis by (simp only: device_claims_def device.case dma_windows)
next
  case False
  then show ?thesis
    by (cases d; simp add: device_claims_def claim_words within_single; simp add: within_def)
qed

definition meet :: "nat \<times> nat \<Rightarrow> nat \<times> nat \<Rightarrow> bool" where
  "meet v w \<longleftrightarrow> fst v < snd w \<and> fst w < snd v"

lemma within_meet: "within n v \<Longrightarrow> within n w \<Longrightarrow> meet v w"
  by (simp add: within_def meet_def)

text \<open>The devices in the order they are asked\<close>

definition chain :: "device list" where
  "chain = [D_uart, D_pbc, D_bsc_i2c, D_lue, D_serdes, D_mpcp_tssync, D_epon_mac, D_macsec, D_dma, D_timer, D_efuse_udr,
            D_fatal_filter, D_mpcp, D_nco, D_mac_filter, D_sysreg]"

lemma in_chain: "d \<in> set chain"
  by (cases d) (simp_all add: chain_def)

lemma peripheral_for_find: "peripheral_for addr = find (\<lambda>d. device_claims d addr) chain"
  by (simp add: peripheral_for_def inner_for_def chain_def device_claims_def)

text \<open>The pairs of devices whose windows overlap, the one that answers first\<close>

definition overlaps :: "(device \<times> device) set" where
  "overlaps = {(D_pbc, D_serdes), (D_lue, D_serdes), (D_lue, D_macsec), (D_serdes, D_macsec), (D_mpcp_tssync, D_epon_mac)}"

fun disjoint_after :: "device list \<Rightarrow> bool" where
  "disjoint_after [] \<longleftrightarrow> True"
| "disjoint_after (d # ds) \<longleftrightarrow>
     list_all (\<lambda>e. e = D_sysreg \<or> (d, e) \<in> overlaps \<or> \<not> list_ex (\<lambda>v. list_ex (meet v) (windows e)) (windows d)) ds
     \<and> disjoint_after ds"

lemma chain_disjoint: "disjoint_after chain"
  by (simp add: chain_def meet_def overlaps_def)

lemma find_disjoint:
  assumes "disjoint_after ds" "find (\<lambda>d. device_claims d addr) ds = Some d" "e \<in> set ds" "device_claims e addr"
  shows "d = e \<or> e = D_sysreg \<or> (d, e) \<in> overlaps"
  using assms
proof (induction ds)
  case (Cons c cs)
  show ?case
  proof (cases "device_claims c addr")
    case True
    then have "d = c" using Cons.prems(2) by simp
    then show ?thesis
      using Cons.prems(1,3,4) True within_meet by (fastforce simp: claims_windows list_all_iff list_ex_iff)
  next
    case False
    then show ?thesis using Cons by auto
  qed
qed simp


lemma answers_what_it_claims: "peripheral_for addr = Some d \<Longrightarrow> device_claims d addr"
  unfolding peripheral_for_find find_Some_iff by auto



text \<open>The second status word of the transfers to the mailbox is read from the MAC.\<close>

lemma dma_status_1_unreachable:
  "peripheral_for 0x01000018 = Some D_epon_mac" "peripheral_for 0x01000010 = Some D_sysreg"
  by (simp_all add: peripheral_for_find chain_def device_claims_def claim_words)

text \<open>The halves and bytes of a word are answered by the device of the word.\<close>

lemma device_claims_aligned: "device_claims d (addr AND NOT 3) \<longleftrightarrow> device_claims d addr"
  by (simp add: claims_windows word_of_aligned)

end
