(* ===== verification/Soc_Safe.thy ===== *)
theory Soc_Safe
  imports Soc_Routing
begin

text \<open>
  The stores of the devices keep their lengths, and no access to an address of a device runs past the end of one.
\<close>

section \<open>Stores\<close>

lemma safe_index_at [safe_intro]: "(\<And>s. I s \<Longrightarrow> i < length (get s)) \<Longrightarrow> safe I (index_at get i)"
  by (auto simp: safe_def index_at_def)

lemma safe_index_put [safe_intro]:
  "(\<And>s. I s \<Longrightarrow> i < length (get s) \<and> I (upd (\<lambda>xs. xs[i := v]) s)) \<Longrightarrow> safe I (index_put get upd i v)"
  by (auto simp: safe_def index_put_def)

lemma safe_read_slot [safe_intro]:
  assumes "\<And>s. I s \<Longrightarrow> i < length (st s) \<and> i < length (pe s)"
    and "\<And>s v. I s \<Longrightarrow> I (stu (\<lambda>xs. xs[i := v]) s)" "\<And>s v. I s \<Longrightarrow> I (peu (\<lambda>xs. xs[i := v]) s)"
  shows "safe I (read_slot st stu pe peu i)"
  unfolding read_slot_def Let_def by (intro safe_intro) (use assms in auto)

lemma safe_op_read_byte: "safe I (rd (a AND NOT 3)) \<Longrightarrow> safe I (op_read_byte rd a)"
  and safe_op_read_half: "safe I (rd (a AND NOT 3)) \<Longrightarrow> safe I (op_read_half rd a)"
  by (simp_all add: op_read_byte_def op_read_half_def safe_intro)

lemma safe_op_write_byte:
  "safe I (rd (a AND NOT 3)) \<Longrightarrow> (\<And>v. safe I (wr (a AND NOT 3) v)) \<Longrightarrow> safe I (op_write_byte rd wr a b)"
  and safe_op_write_half:
  "safe I (rd (a AND NOT 3)) \<Longrightarrow> (\<And>v. safe I (wr (a AND NOT 3) v)) \<Longrightarrow> safe I (op_write_half rd wr a h)"
  by (simp_all add: op_write_byte_def op_write_half_def Let_def safe_intro)

lemma slot_index_less: "base \<le> a \<Longrightarrow> a < e \<Longrightarrow> unat e - unat base \<le> 4 * n \<Longrightarrow> slot_index base a < n"
  by (simp add: slot_index_def unat_div word_le_nat_alt word_less_nat_alt unat_sub)

lemma power_on_keeps: "(\<And>a v s. I s \<Longrightarrow> I (f a v s)) \<Longrightarrow> I s \<Longrightarrow> I (power_on f s)"
proof -
  assume f: "\<And>a v s. I s \<Longrightarrow> I (f a v s)" and s: "I s"
  have "I (fold (\<lambda>(off, val). f (0x01000000 + off) val) xs s)" for xs
    using s by (induction xs arbitrary: s) (auto intro: f)
  then show "I (power_on f s)" by (simp add: power_on_def)
qed

section \<open>Devices\<close>

definition dma_ok :: "dma \<Rightarrow> bool" where
  "dma_ok d \<longleftrightarrow> length (dm_store d) = 2048 \<and> length (dm_pending_clear d) = 2048 \<and> length (dm_drain_flag d) = 16"

lemma dma_bounds:
  assumes "dma_claims a"
  shows "slot_index DMA_BASE a < 2048" "fst (dma_slot_of a) < 16"
  using assms slot_index_less [of DMA_BASE a DMA_END 2048]
  by (simp_all add: dma_claims_def dma_slot_of_def Let_def unat_div word_le_nat_alt word_less_nat_alt unat_sub) linarith

lemma safe_dma_read [safe_intro]: "dma_claims a \<Longrightarrow> safe dma_ok (dma_read_word a)"
  unfolding dma_read_word_def Let_def
  by (cases "dma_slot_of a") (auto intro!: safe_intro dest: dma_bounds simp: dma_ok_def)

lemma safe_dma_write [safe_intro]: "dma_claims a \<Longrightarrow> safe dma_ok (dma_write_word a v)"
  unfolding dma_write_word_def Let_def
  by (cases "dma_slot_of a") (auto intro!: safe_intro dest: dma_bounds simp: dma_ok_def)

definition macsec_ok :: "macsec \<Rightarrow> bool" where
  "macsec_ok m \<longleftrightarrow> length (mc_sa_store m) = 592 \<and> length (mc_sa_pending_clear m) = 592
     \<and> length (mc_key_tail_store m) = 16 \<and> length (mc_key_tail_pending_clear m) = 16"

lemma macsec_bounds:
  "in_sa a \<Longrightarrow> slot_index MACSEC_SA_BASE a < 592" "in_key_tail a \<Longrightarrow> slot_index MACSEC_KEY_TAIL_BASE a < 16"
  using slot_index_less [of MACSEC_SA_BASE a MACSEC_SA_END 592]
    slot_index_less [of MACSEC_KEY_TAIL_BASE a MACSEC_KEY_TAIL_END 16] by simp_all

lemma safe_macsec_read [safe_intro]: "safe macsec_ok (macsec_read_word a)"
  unfolding macsec_read_word_def
  by (intro safe_intro; use macsec_bounds [of a] in \<open>auto simp: macsec_ok_def\<close>)

lemma safe_macsec_write [safe_intro]: "safe macsec_ok (macsec_write_word a v)"
  unfolding macsec_write_word_def write_slot_sparse_def
  by (intro safe_intro; use macsec_bounds [of a] in \<open>auto simp: macsec_ok_def\<close>)

definition serdes_ok :: "serdes \<Rightarrow> bool" where
  "serdes_ok s \<longleftrightarrow> length (sd_raw_store s) = 33 \<and> length (sd_lane_store s) = 384 \<and> length (sd_mode_store s) = 16
     \<and> length (sd_lanes s) = 4 \<and> length (sd_lane_lock_countdown s) = 4 \<and> length (sd_window s) = 2048"

lemma serdes_bounds:
  "in_main a \<Longrightarrow> slot_index SERDES_MAIN_BASE a < 33" "in_lane a \<Longrightarrow> slot_index SERDES_LANE_BASE a < 384"
  "in_mode a \<Longrightarrow> slot_index SERDES_MODE_BASE a < 16"
  using slot_index_less [of SERDES_MAIN_BASE a SERDES_MAIN_END 33] slot_index_less [of SERDES_LANE_BASE a SERDES_LANE_END 384]
    slot_index_less [of SERDES_MODE_BASE a SERDES_MODE_END 16] by simp_all

lemma window_bounds:
  assumes "in_window a"
  shows "unat (a - SERDES_WINDOW_BASE) < 2048"
  using assms by (simp add: word_le_nat_alt word_less_nat_alt unat_sub) linarith

text \<open>An aligned word of the window has its four bytes in it.\<close>

lemma window_word:
  assumes "in_window a" "a AND 3 = 0"
  shows "unat (a - SERDES_WINDOW_BASE) < 2048" "unat (a + 1 - SERDES_WINDOW_BASE) < 2048"
    "unat (a + 2 - SERDES_WINDOW_BASE) < 2048" "unat (a + 3 - SERDES_WINDOW_BASE) < 2048"
proof -
  have "unat a mod 4 = 0" using unat_and_mask [of a 2] assms(2) by (simp add: mask_eq_exp_minus_1)
  moreover have bounds: "unat a < 575277056" "575275008 \<le> unat a" using assms(1) by (simp_all add: word_le_nat_alt word_less_nat_alt)
  ultimately have small: "unat a + 3 < 575277056" by presburger
  have step: "unat (a + of_nat n - SERDES_WINDOW_BASE) < 2048" if "n \<le> 3" for n
  proof -
    have "unat (a + of_nat n) = unat a + n" using unat_plus_small [of a n] small that by simp
    moreover have "SERDES_WINDOW_BASE \<le> a + of_nat n" using calculation bounds by (simp add: word_le_nat_alt)
    ultimately show ?thesis using small bounds that by (simp add: unat_sub)
  qed
  show "unat (a - SERDES_WINDOW_BASE) < 2048" "unat (a + 1 - SERDES_WINDOW_BASE) < 2048"
    "unat (a + 2 - SERDES_WINDOW_BASE) < 2048" "unat (a + 3 - SERDES_WINDOW_BASE) < 2048"
    using step [of 0] step [of 1] step [of 2] step [of 3] by simp_all
qed

lemma safe_window [safe_intro]:
  "unat (a - SERDES_WINDOW_BASE) < 2048 \<Longrightarrow> safe serdes_ok (window_read a)"
  "unat (a - SERDES_WINDOW_BASE) < 2048 \<Longrightarrow> safe serdes_ok (window_write a b)"
  unfolding window_read_def window_write_def by (intro safe_intro; simp add: serdes_ok_def)+

lemma safe_lane_lock [safe_intro]: "i < 2 \<Longrightarrow> safe serdes_ok (compute_lane_lock i)"
  unfolding compute_lane_lock_def Let_def
  by (intro safe_intro) (auto simp: serdes_ok_def slot_index_def)

lemma safe_serdes_read [safe_intro]: "serdes_claims a \<Longrightarrow> a AND 3 = 0 \<Longrightarrow> safe serdes_ok (serdes_read_word a)"
  unfolding serdes_read_word_def Let_def
  by (intro safe_intro; use serdes_bounds [of a] window_word [of a] in \<open>auto simp: serdes_ok_def serdes_claims_def\<close>)

lemma safe_serdes_write [safe_intro]: "serdes_claims a \<Longrightarrow> a AND 3 = 0 \<Longrightarrow> safe serdes_ok (serdes_write_word a v)"
  unfolding serdes_write_word_def Let_def select_lane_def
  by (intro safe_intro; use serdes_bounds [of a] window_word [of a] in \<open>auto simp: serdes_ok_def serdes_claims_def\<close>)

lemma safe_serdes_read_byte [safe_intro]: "serdes_claims a \<Longrightarrow> safe serdes_ok (serdes_read_byte a)"
  unfolding serdes_read_byte_def
  by (intro safe_intro safe_op_read_byte window_bounds)
    (use device_claims_aligned [of D_serdes a] in \<open>simp_all add: device_claims_def and.assoc\<close>)

lemma safe_serdes_write_byte [safe_intro]: "serdes_claims a \<Longrightarrow> safe serdes_ok (serdes_write_byte a b)"
  unfolding serdes_write_byte_def
  by (intro safe_intro safe_op_write_byte window_bounds)
    (use device_claims_aligned [of D_serdes a] in \<open>simp_all add: device_claims_def and.assoc\<close>)

text \<open>The four register windows and the four banks of the MPCP registers\<close>

definition mpcp_ok :: "mpcp \<Rightarrow> bool" where
  "mpcp_ok m \<longleftrightarrow> map length (mp_stores m) = [8, 2, 16, 74] \<and> map length (mp_banks m) = [52, 52, 52, 52] \<and> mp_bank m < 4"

lemma map_length_put2: "map length (put2 i j v xss) = map length xss"
  by (cases "i < length xss") (simp_all add: put2_def list_eq_iff_nth_eq nth_list_update)

lemma index2_some: "map length xss = ls \<Longrightarrow> i < length ls \<Longrightarrow> j < ls ! i \<Longrightarrow> \<exists>x. index2 xss i j = Some x"
  by (auto simp: index2_def)

lemma window_index_less: "mp_window_index a = Some i \<Longrightarrow> i < 52"
  using slot_index_less [of WINDOW_START "a AND NOT 3" WINDOW_END 52]
  by (auto simp: mp_window_index_def Let_def split: if_splits)

lemma locate_less:
  "mpcp_locate a = Some (r, i) \<Longrightarrow> r < 4 \<and> i < [8, 2, 16, 74] ! r"
  using slot_index_less [of "0x01000120" "a AND NOT 3" "0x01000140" 8]
    slot_index_less [of "0x01000320" "a AND NOT 3" "0x01000328" 2]
    slot_index_less [of "0x01001180" "a AND NOT 3" "0x010011C0" 16]
    slot_index_less [of "0x01001268" "a AND NOT 3" "0x01001390" 74]
  by (auto simp: mpcp_locate_def REGIONS_def split: if_splits)

lemma mpcp_in_bounds:
  assumes "mpcp_ok m"
  shows "mp_window_index a = Some i \<Longrightarrow> \<exists>x. index2 (mp_banks m) (mp_bank m) i = Some x"
    and "mpcp_locate a = Some (r, i) \<Longrightarrow> \<exists>x. index2 (mp_stores m) r i = Some x"
proof -
  have "[52, 52, 52, 52] ! mp_bank m = (52 :: nat)"
    using assms by (auto simp: mpcp_ok_def less_Suc_eq numeral_eq_Suc)
  then show "mp_window_index a = Some i \<Longrightarrow> \<exists>x. index2 (mp_banks m) (mp_bank m) i = Some x"
    using assms window_index_less [of a i] index2_some [of "mp_banks m" "[52, 52, 52, 52]" "mp_bank m" i]
    by (simp add: mpcp_ok_def)
  show "mpcp_locate a = Some (r, i) \<Longrightarrow> \<exists>x. index2 (mp_stores m) r i = Some x"
    using assms locate_less [of a r i] index2_some [of "mp_stores m" "[8, 2, 16, 74]" r i]
    by (simp add: mpcp_ok_def)
qed

lemma mpcp_ok_poke:
  assumes "mpcp_ok m" shows "\<exists>m'. poke_tx_rate a v m = Some m' \<and> mpcp_ok m'"
proof (cases "mp_window_index a")
  case (Some i)
  then show ?thesis
    using mpcp_in_bounds(1) [OF assms Some] assms by (auto simp: poke_tx_rate_def mpcp_ok_def map_length_put2)
next
  case None
  show ?thesis
  proof (cases "mpcp_locate a")
    case (Some ri)
    then obtain r i where ri: "mpcp_locate a = Some (r, i)" by (cases ri) auto
    then show ?thesis
      using None mpcp_in_bounds(2) [OF assms ri] assms by (auto simp: poke_tx_rate_def mpcp_ok_def map_length_put2)
  qed (use None assms in \<open>simp add: poke_tx_rate_def\<close>)
qed

lemma mpcp_ok_peek:
  assumes "mpcp_ok m" shows "\<exists>v. peek_tx_rate a m = Some v"
proof (cases "mp_window_index a")
  case (Some i)
  then show ?thesis using mpcp_in_bounds(1) [OF assms Some] by (simp add: peek_tx_rate_def)
next
  case None
  then show ?thesis using mpcp_in_bounds(2) [OF assms] by (auto simp: peek_tx_rate_def split: option.split)
qed

lemma mpcp_ok_bank: "mpcp_ok m \<Longrightarrow> mpcp_ok (m\<lparr>mp_bank := unat (val AND 3)\<rparr>)" for val :: u32
  using unat_and_mask [of val 2] by (simp add: mpcp_ok_def mask_eq_exp_minus_1)

lemma mpcp_ok_write: "mpcp_ok m \<Longrightarrow> \<exists>m'. mpcp_write a v m = Some m' \<and> mpcp_ok m'"
  using mpcp_ok_poke [OF mpcp_ok_bank] mpcp_ok_poke by (simp add: mpcp_write_def)

lemma safe_mpcp [safe_intro]: "safe mpcp_ok (mpcp_read_word a)" "safe mpcp_ok (mpcp_write_word a v)"
  using mpcp_ok_peek [of _ a] mpcp_ok_write [of _ a v]
  by (fastforce simp: safe_def mpcp_read_word_def mpcp_write_word_def)+

section \<open>Resets\<close>

lemma dma_ok_reset [simp]: "dma_ok d \<Longrightarrow> dma_ok (dma_reset_cold d)"
  unfolding dma_reset_cold_def dma_power_on_def by (rule power_on_keeps) (simp_all add: dma_ok_def)

lemma macsec_ok_reset [simp]: "macsec_ok m \<Longrightarrow> macsec_ok (macsec_reset_cold m)"
  unfolding macsec_reset_cold_def macsec_power_on_def by (rule power_on_keeps) (simp_all add: macsec_ok_def)

lemma serdes_ok_reset [simp]: "serdes_ok s \<Longrightarrow> serdes_ok (serdes_reset_cold s)"
  unfolding serdes_reset_cold_def serdes_power_on_def by (rule power_on_keeps) (simp_all add: serdes_ok_def)

lemma mpcp_ok_power_on:
  assumes "mpcp_ok m" shows "mpcp_ok (mpcp_power_on m)"
proof -
  have poke: "mpcp_ok (case poke_tx_rate a v m of None \<Rightarrow> m | Some m' \<Rightarrow> m')" if "mpcp_ok m" for a v m
    using mpcp_ok_poke [OF that, of a v] that by auto
  have wr: "mpcp_ok (snd (mpcp_write_word a v m))" if "mpcp_ok m" for a v m
    using safeD [OF safe_mpcp(2) that] by blast
  show ?thesis
    unfolding mpcp_power_on_def
    by (rule power_on_keeps, simp add: poke, rule power_on_keeps) (simp_all add: wr assms)
qed

lemma mpcp_ok_reset [simp]: "mpcp_ok m \<Longrightarrow> mpcp_ok (mpcp_reset_cold m)"
  unfolding mpcp_reset_cold_def by (rule mpcp_ok_power_on) (simp add: mpcp_ok_def comp_def)

lemma replicate_4: "replicate 4 x = [x, x, x, x]"
  by (simp add: numeral_eq_Suc)

lemma stores_ok_new [simp]: "dma_ok dma_new" "macsec_ok macsec_new" "serdes_ok serdes_new" "mpcp_ok mpcp_new"
  by (simp_all add: dma_ok_def dma_new_def macsec_ok_def macsec_new_def serdes_ok_def serdes_new_def mpcp_ok_def mpcp_new_def
      REGIONS_def replicate_4 Let_def)

lemma stores_ok_tick [simp]: "dma_ok d \<Longrightarrow> dma_ok (dma_tick d)" "serdes_ok s \<Longrightarrow> serdes_ok (serdes_tick s)"
  by (simp_all add: dma_ok_def dma_tick_def serdes_ok_def serdes_tick_def Let_def)

end
