(* ===== verification/Soc_Line.thy ===== *)
theory Soc_Line
  imports Soc_Chip
begin

text \<open>
  The link of the OLT on the chip keeps its rates and the order of its downstream, so what the program and the ticks make the OLT
  send never fails, and a tick returns as long as the clock does not overflow.
\<close>

definition link_fit :: "link \<Rightarrow> bool" where
  "link_fit l \<longleftrightarrow> fc_rate_bps (fi_config (lk_upstream l)) \<noteq> 0 \<and> fc_rate_bps (fi_config (lk_downstream l)) \<noteq> 0
     \<and> line_ok (lk_downstream l)"

abbreviation olt_fit :: "olt \<Rightarrow> bool" where "olt_fit h \<equiv> link_fit (ol_link h)"

section \<open>The link\<close>

lemma send_keeps_config: "fibre_send frame t f = Some (acc, f') \<Longrightarrow> fi_config f' = fi_config f"
  by (erule send_cases) simp_all

lemma send_upstream_fit:
  assumes "link_fit l"
  obtains acc l' where "send_upstream frame t l = Some (acc, l')" "link_fit l'" "lk_peer l' = lk_peer l"
proof -
  obtain acc f where send: "fibre_send frame t (lk_upstream l) = Some (acc, f)"
    using assms send_returns by (metis link_fit_def)
  show ?thesis
    by (rule that [of acc "l\<lparr>lk_upstream := f\<rparr>"])
      (use send send_keeps_config [OF send] assms in \<open>simp_all add: send_upstream_def link_fit_def\<close>)
qed

lemma link_arrivals_config:
  "link_arrivals now l = Some l' \<Longrightarrow> fi_config (lk_upstream l') = fi_config (lk_upstream l)"
proof (induction now l rule: link_arrivals.induct)
  case (1 now l)
  obtain r u where pop: "pop_arrived now (lk_upstream l) = (r, u)" by (cases "pop_arrived now (lk_upstream l)")
  have u: "fi_config u = fi_config (lk_upstream l)" using pop_arrived_fields(1) [of now "lk_upstream l"] pop by simp
  show ?case
  proof (cases r)
    case None
    then show ?thesis using 1(2) pop u by (subst (asm) link_arrivals.simps) auto
  next
    case (Some x)
    then obtain p where p: "advance_to (arrives_at x) (lk_peer l) = Some p"
      "link_arrivals now (l\<lparr>lk_upstream := u, lk_peer := deliver (if_frame x) (arrives_at x) p\<rparr>) = Some l'"
      using 1(2) pop by (subst (asm) link_arrivals.simps) (auto simp: bind_eq_Some_conv)
    from 1(1) [OF pop [symmetric] Some p(1) p(2)] u show ?thesis by simp
  qed
qed

lemma link_advance_fit:
  assumes "link_fit l" and "link_advance_to now l = Some l'"
  shows "link_fit l'"
proof -
  obtain l1 p outs p' d where steps: "link_arrivals now l = Some l1" "advance_to now (lk_peer l1) = Some p"
    "take_downstream p = (outs, p')" "send_all outs (lk_downstream l1) = Some d" "l' = l1\<lparr>lk_peer := p', lk_downstream := d\<rparr>"
    using assms(2) by (auto simp: link_advance_to_def bind_eq_Some_conv take_downstream_def)
  have "lk_downstream l1 = lk_downstream l" using link_arrivals_downstream [OF steps(1)] by simp
  then have "line_ok d \<and> fi_config d = fi_config (lk_downstream l)"
    using send_all_returns [of "lk_downstream l" outs] assms(1) steps(4) by (auto simp: link_fit_def)
  then show ?thesis using steps(5) link_arrivals_config [OF steps(1)] assms(1) by (simp add: link_fit_def)
qed

lemma link_set_fit: "link_fit l \<Longrightarrow> link_fit (link_set_link up t l)"
  by (simp add: link_fit_def link_set_link_def Let_def fibre_clear_def line_ok_def)

lemma poll_fit: "link_fit l \<Longrightarrow> link_fit (snd (poll_downstream now l))"
  using poll_ok [of "lk_downstream l" now] pop_arrived_fields(1) [of now "lk_downstream l"]
  by (cases "pop_arrived now (lk_downstream l)") (simp add: link_fit_def poll_downstream_def)

section \<open>The OLT\<close>

lemma on_tx_fit:
  assumes "olt_fit h"
  obtains h' where "on_tx_frame frame h = Some h'" "olt_fit h'"
proof -
  obtain acc l' where "send_upstream frame (ol_wire_now h) (ol_link h) = Some (acc, l')" "link_fit l'"
    by (rule send_upstream_fit [OF assms])
  then show ?thesis using that [of "h\<lparr>ol_link := l'\<rparr>"] by (simp add: on_tx_frame_def)
qed

lemma olt_fit_peer: "olt_fit (on_peer f h) = olt_fit h"
  by (simp add: link_fit_def)

lemma captured_fit:
  assumes "olt_fit h" obtains h' where "on_captured_tx frame h = Some h'" "olt_fit h'"
  by (rule on_tx_fit [of "if ol_real_tx_seen h then h
        else (on_peer rewind_handshake h)\<lparr>ol_real_tx_seen := True, ol_registration_complete := False\<rparr>" frame])
    (use assms in \<open>auto simp: on_captured_tx_def link_fit_def\<close>)

lemma observe_write_fit:
  assumes "olt_fit h" shows "\<exists>h'. observe_write addr val h = Some h' \<and> olt_fit h'"
proof -
  obtain r a where push: "push_word addr val (ol_assembler h) = (r, a)" by (cases "push_word addr val (ol_assembler h)")
  have fit: "olt_fit (h\<lparr>ol_assembler := a\<rparr>)" using assms by simp
  have "\<exists>h'. on_captured_tx f (h\<lparr>ol_assembler := a\<rparr>) = Some h' \<and> olt_fit h'" for f
    using captured_fit [OF fit, of f] by blast
  then show ?thesis
    using assms push by (auto simp: observe_write_def split: option.split command.split)
qed

lemma refresh_fit: "olt_fit (refresh_bitmap h) = olt_fit h"
  by (simp add: refresh_bitmap_def)

lemma write_cmd_fit: "olt_fit h \<Longrightarrow> olt_fit (snd (olt_write_cmd addr val h))"
  by (auto simp: olt_write_cmd_def refresh_fit Let_def split: option.splits command.splits list.splits)

lemma read_data_fit: "olt_fit h \<Longrightarrow> olt_fit (snd (olt_read_data addr h))"
  by (simp add: olt_read_data_def split: option.split list.split)

lemma burst_fit: "olt_fit h \<Longrightarrow> \<exists>h'. handle_mpcp_burst_trigger h = Some h' \<and> olt_fit h'"
  using on_tx_fit [of h] by (auto simp: handle_mpcp_burst_trigger_def Let_def)

lemma set_link_up_fit: "olt_fit h \<Longrightarrow> olt_fit (olt_set_link_up up h)"
  by (simp add: olt_set_link_up_def Let_def refresh_fit link_set_fit)

lemma load_loop_fit: "olt_fit h \<Longrightarrow> olt_fit (load_loop c h)"
proof (induction c h rule: load_loop.induct)
  case (1 c h)
  show ?case
  proof (cases "total_pending_count h < MAILBOX_DEPTH")
    case True
    obtain r l where poll: "poll_downstream (ol_wire_now h) (ol_link h) = (r, l)"
      by (cases "poll_downstream (ol_wire_now h) (ol_link h)")
    have l: "link_fit l" using poll_fit [OF 1(2), of "ol_wire_now h"] poll by simp
    show ?thesis
    proof (cases r)
      case None
      then show ?thesis using True poll l by (subst load_loop.simps) simp
    next
      case (Some x)
      obtain s h1 where c: "choose_slot c (if_frame x) (h\<lparr>ol_link := l\<rparr>) = (s, h1)" by fastforce
      have "olt_fit (enqueue (slot_u8 s) (encode_frame (if_frame x)) h1)"
        using choose_slot_line [OF c] l by (simp add: enqueue_def)
      from 1(1) [OF True poll [symmetric] Some c [symmetric] this]
      show ?thesis using True poll Some c by (subst load_loop.simps) simp
    qed
  qed (use 1(2) in \<open>subst load_loop.simps; simp\<close>)
qed

lemma load_fit: "olt_fit h \<Longrightarrow> olt_fit (load_frames_into_mailbox c h)"
  by (simp add: load_frames_into_mailbox_def refresh_fit load_loop_fit)

lemma apply_config_fit: "olt_fit (apply_config h) = olt_fit h"
  by (simp add: apply_config_def Let_def link_fit_def)

lemma advance_fit: "olt_fit h \<Longrightarrow> olt_advance h = Some h' \<Longrightarrow> olt_fit h'"
  using link_advance_fit [of "ol_link h" "ol_wire_now h + tick_duration h"]
  by (auto simp: olt_advance_def Let_def link_fit_def split_beta)

lemma emit_report_fit:
  assumes "olt_fit h" shows "\<exists>r h'. emit_report h = Some (r, h') \<and> olt_fit h'"
proof (cases "mac_is_zero (p_onu_mac (lk_peer (ol_link h)))")
  case True
  then show ?thesis using assms by (simp add: emit_report_def Let_def)
next
  case False
  let ?p = "lk_peer (ol_link h)"
  show ?thesis
  proof (cases "template_build (p_onu_mac ?p) (pc_mac (p_config ?p)) (mpcp_timestamp (ol_wire_now h)) (ol_template h)")
    case None
    then show ?thesis using False assms by (simp add: emit_report_def Let_def)
  next
    case (Some frame)
    obtain h' where "on_tx_frame frame h = Some h'" "olt_fit h'" by (rule on_tx_fit [OF assms])
    then show ?thesis using False Some by (simp add: emit_report_def Let_def)
  qed
qed

lemma answer_fit:
  assumes "olt_fit h" shows "\<exists>h'. answer_grants h = Some h' \<and> olt_fit h'"
proof -
  let ?h1 = "h\<lparr>ol_grants_answered := gates_normal_sent (p_counters (lk_peer (ol_link h)))\<rparr>"
  obtain r h' where "emit_report ?h1 = Some (r, h')" "olt_fit h'" using emit_report_fit [of ?h1] assms by auto
  then show ?thesis using assms by (simp add: answer_grants_def Let_def)
qed

lemma tick_fit:
  assumes "olt_fit h" and "olt_tick h = Some h'" shows "olt_fit h'"
proof -
  let ?a = "apply_config h"
  define h1 where "h1 = (if ol_link_up_delay ?a = 0 then ?a
    else let h' = ?a\<lparr>ol_link_up_delay := ol_link_up_delay ?a - 1\<rparr> in if ol_link_up_delay h' = 0 then olt_set_link_up True h' else h')"
  obtain h2 where h2: "olt_advance h1 = Some h2" "answer_grants h2 = Some h'"
    using assms(2) by (auto simp: olt_tick_def Let_def h1_def bind_eq_Some_conv)
  have "olt_fit h1" using assms(1) by (simp add: h1_def Let_def apply_config_fit set_link_up_fit)
  then show ?thesis using answer_fit [OF advance_fit [OF _ h2(1)]] h2(2) by auto
qed

lemma new_fit: "olt_fit olt_new" and reset_fit: "olt_fit (olt_reset_cold h)"
proof -
  show "olt_fit olt_new"
    by (simp add: olt_new_def link_new_def link_fit_def config_upstream_def config_downstream_def fibre_new_def line_ok_def)
  then show "olt_fit (olt_reset_cold h)"
    by (simp add: olt_reset_cold_def Let_def) (simp add: apply_config_def Let_def link_fit_def)
qed


section \<open>A tick returns\<close>

lemma link_returns:
  assumes "link_fit l" and "runs_until now (p_config (lk_peer l))"
  shows "\<exists>l'. link_advance_to now l = Some l'"
proof -
  have "\<forall>(t, frame) \<in> set (landed_by now (lk_upstream l)). runs_until t (p_config (lk_peer l))"
    using runs_until_earlier [OF assms(2)] by (auto simp: landed_by_def dest: set_takeWhileD)
  then obtain p where p: "serve (landed_by now (lk_upstream l)) (lk_peer l) = Some p" using serve_returns by blast
  then obtain l1 where l1: "link_arrivals now l = Some l1" "lk_peer l1 = p" using link_arrivals_serve [of now l] by auto
  obtain q where q: "advance_to now p = Some q"
    using advance_loop_ends [of now p] assms(2) serve_config [OF p] by (auto simp: advance_to_def)
  obtain d where "send_all (p_downstream q) (lk_downstream l) = Some d"
    using send_all_returns [of "lk_downstream l" "p_downstream q"] assms(1) by (auto simp: link_fit_def)
  then show ?thesis
    using l1 link_arrivals_downstream [OF l1(1)] q by (simp add: link_advance_to_def take_downstream_def)
qed

text \<open>The clock after the next tick leaves room for one more period of every timer.\<close>

definition clock_room :: "olt \<Rightarrow> bool" where
  "clock_room h \<longleftrightarrow> runs_until (ol_wire_now h + tick_duration h) (peer_config_of (ol_config h))"

lemma set_link_config: "p_config (set_link up t p) = p_config p"
  by (simp add: set_link_def Let_def)

lemma olt_tick_returns:
  assumes "olt_fit h" and "clock_room h"
  shows "\<exists>h'. olt_tick h = Some h' \<and> olt_fit h'"
proof -
  let ?a = "apply_config h"
  define h1 where "h1 = (if ol_link_up_delay ?a = 0 then ?a
    else let h' = ?a\<lparr>ol_link_up_delay := ol_link_up_delay ?a - 1\<rparr> in if ol_link_up_delay h' = 0 then olt_set_link_up True h' else h')"
  have fit: "olt_fit h1" using assms(1) by (simp add: h1_def Let_def apply_config_fit set_link_up_fit)
  have conf: "p_config (lk_peer (ol_link h1)) = peer_config_of (ol_config h)" "ol_wire_now h1 = ol_wire_now h"
    "ol_config h1 = ol_config h"
    by (simp_all add: h1_def Let_def apply_config_def olt_set_link_up_def link_set_link_def set_link_config)
  obtain l where "link_advance_to (ol_wire_now h1 + tick_duration h1) (ol_link h1) = Some l"
    using link_returns [OF fit, of "ol_wire_now h + tick_duration h"] assms(2) conf
    by (auto simp: clock_room_def tick_duration_def)
  then obtain h2 where h2: "olt_advance h1 = Some h2" by (simp add: olt_advance_def Let_def split_beta)
  obtain h' where h': "answer_grants h2 = Some h'" using answer_fit [OF advance_fit [OF fit h2]] by blast
  then have "olt_tick h = Some h'" using h2 by (simp add: olt_tick_def Let_def h1_def)
  then show ?thesis using tick_fit [OF assms(1)] by blast
qed

end
