(* ===== verification/Soc_Bank_Safe.thy ===== *)
theory Soc_Bank_Safe
  imports Soc_Safe Soc_Line
begin

text \<open>
  The invariant of the bank: stores of their lengths, a link with rates, and a scenario engine that nothing drives. Every access,
  whatever its address and width, as long as a word or half is aligned, keeps it and does not panic.
\<close>

section \<open>The invariant\<close>

text \<open>No event and no watchpoint: the engine only counts. Overrides are allowed.\<close>

definition engine_idle :: "scenario \<Rightarrow> bool" where
  "engine_idle s \<longleftrightarrow> sn_events s = [] \<and> sn_insn_queue s = [] \<and> sn_read_triggers s = Map.empty \<and> sn_write_triggers s = Map.empty
     \<and> sn_watchpoints s = [] \<and> sn_deferred_writes s = []"

definition soc_inv :: "soc \<Rightarrow> bool" where
  "soc_inv s \<longleftrightarrow> dma_ok (so_dma s) \<and> macsec_ok (so_macsec s) \<and> serdes_ok (so_serdes s) \<and> mpcp_ok (so_mpcp s)
     \<and> olt_fit (so_olt s) \<and> engine_idle (so_scenario s)"

definition soc_bank_inv :: "soc_bank \<Rightarrow> bool" where
  "soc_bank_inv b \<longleftrightarrow> nco_ok (bank_nco b) \<and> soc_inv (bank_rest b)"

lemma engine_idle_seen [simp]:
  "engine_idle s \<Longrightarrow> engine_idle (on_mmio_read a v s)" "engine_idle s \<Longrightarrow> engine_idle (on_mmio_write a v s)"
  "engine_idle s \<Longrightarrow> engine_idle (scenario_tick n s)" "engine_idle s \<Longrightarrow> take_deferred_writes s = ([], s)"
  by (simp_all add: engine_idle_def on_mmio_read_def on_mmio_write_def check_watchpoints_def scenario_tick_def Let_def
      take_deferred_writes_def)

section \<open>Zooming\<close>

lemma safe_valueM: "(\<And>s. I s \<Longrightarrow> I (snd (f s))) \<Longrightarrow> safe I (valueM f)"
  by (auto simp: safe_def valueM_def split: prod.splits) (metis snd_conv)

lemma safe_valueM_any [safe_intro]: "safe (\<lambda>_. True) (valueM f)"
  by (rule safe_valueM) simp

lemma safe_updateM: "(\<And>s. I s \<Longrightarrow> \<exists>s'. f s = Some s' \<and> I s') \<Longrightarrow> safe I (updateM f)"
  by (fastforce simp: safe_def updateM_def)

lemma safe_deviceM:
  assumes "safe J m" and "\<And>s. soc_inv s \<Longrightarrow> J (get s)" and "\<And>s d. soc_inv s \<Longrightarrow> J d \<Longrightarrow> soc_inv (upd (\<lambda>_. d) s)"
  shows "safe soc_bank_inv (deviceM get upd m)"
  unfolding deviceM_def by (rule safe_zoomM [OF assms(1)]) (use assms(2,3) in \<open>auto simp: soc_bank_inv_def\<close>)

lemma safe_socM: "safe soc_inv m \<Longrightarrow> safe soc_bank_inv (socM m)"
  unfolding socM_def by (erule safe_zoomM) (auto simp: soc_bank_inv_def)

lemma safe_ncoM: "safe nco_ok m \<Longrightarrow> safe soc_bank_inv (ncoM m)"
  unfolding ncoM_def by (erule safe_zoomM) (auto simp: soc_bank_inv_def)

text \<open>A device without an invariant, and each of the devices with one\<close>

lemma safe_plain_device [safe_intro]:
  assumes "\<And>s d. soc_inv (upd (\<lambda>_. d) s) = soc_inv s"
  shows "safe (\<lambda>_. True) m \<Longrightarrow> safe soc_bank_inv (deviceM get upd m)"
  by (rule safe_deviceM) (simp_all add: assms)

lemma safe_devices:
  "safe dma_ok m1 \<Longrightarrow> safe soc_bank_inv (deviceM so_dma so_dma_update m1)"
  "safe macsec_ok m2 \<Longrightarrow> safe soc_bank_inv (deviceM so_macsec so_macsec_update m2)"
  "safe serdes_ok m3 \<Longrightarrow> safe soc_bank_inv (deviceM so_serdes so_serdes_update m3)"
  "safe mpcp_ok m4 \<Longrightarrow> safe soc_bank_inv (deviceM so_mpcp so_mpcp_update m4)"
  "safe olt_fit m5 \<Longrightarrow> safe soc_bank_inv (deviceM so_olt so_olt_update m5)"
  "safe engine_idle m6 \<Longrightarrow> safe soc_bank_inv (deviceM so_scenario so_scenario_update m6)"
  by (erule safe_deviceM; simp add: soc_inv_def)+

lemma safe_nco_ops:
  "safe nco_ok (valueM (default_read_byte (pure_word nco_read_word) a))" 
  "safe nco_ok (valueM (default_read_half (pure_word nco_read_word) a))"
  "safe nco_ok (getsM (nco_read_word a))" "safe nco_ok (modifyM (nco_write_word a v))"
  "safe nco_ok (modifyM (default_write_half (pure_word nco_read_word) nco_write_word a h))"
  "safe nco_ok (modifyM (default_write_byte (pure_word nco_read_word) nco_write_word a b))"
  by (auto intro!: safe_intro safe_valueM simp: default_read_byte_def default_read_half_def default_write_half_def
      default_write_byte_def Let_def nco_write_word_def nco_ok_def)

section \<open>Devices behind the dispatch\<close>

lemma aligned_and: "a AND 3 = 0 \<Longrightarrow> a AND NOT 3 = a" for a :: u32
  using split_word [of a] by simp

lemma word_part_aligned: "(a AND NOT 3) AND 3 = 0" for a :: u32
  by (simp add: and.assoc)

lemma safe_dev_read_word:
  assumes "device_claims d a" and "a AND 3 = 0"
  shows "safe soc_bank_inv (device_read_word a d)"
  using assms
  by (cases d; simp add: device_read_word_def device_claims_def; intro safe_ncoM safe_nco_ops safe_devices safe_intro;
      simp add: soc_inv_def)


lemma claims_low:
  "dma_claims (a AND NOT 3) = dma_claims a" "serdes_claims (a AND NOT 3) = serdes_claims a"
  using device_claims_aligned [of D_dma a] device_claims_aligned [of D_serdes a] by (simp_all add: device_claims_def)

lemma safe_narrow_dma:
  "dma_claims a \<Longrightarrow> safe dma_ok (op_read_byte dma_read_word a)" "dma_claims a \<Longrightarrow> safe dma_ok (op_read_half dma_read_word a)"
  "dma_claims a \<Longrightarrow> safe dma_ok (op_write_byte dma_read_word dma_write_word a b)"
  "dma_claims a \<Longrightarrow> safe dma_ok (op_write_half dma_read_word dma_write_word a h)"
  by (intro safe_op_read_byte safe_op_read_half safe_op_write_byte safe_op_write_half safe_dma_read safe_dma_write;
      simp only: claims_low)+

lemma safe_narrow_serdes:
  "serdes_claims a \<Longrightarrow> safe serdes_ok (op_read_half serdes_read_word a)"
  "serdes_claims a \<Longrightarrow> safe serdes_ok (op_write_half serdes_read_word serdes_write_word a h)"
  by (intro safe_op_read_half safe_op_write_half safe_serdes_read safe_serdes_write;
      simp only: claims_low word_part_aligned)+

lemmas safe_narrow = safe_narrow_dma safe_narrow_serdes safe_op_read_byte safe_op_read_half safe_op_write_byte safe_op_write_half

lemma safe_dev_read_half: "device_claims d a \<Longrightarrow> safe soc_bank_inv (device_read_half a d)"
  by (cases d; simp add: device_read_half_def device_claims_def;
      intro safe_ncoM safe_nco_ops safe_devices safe_narrow safe_intro; simp add: soc_inv_def)

lemma safe_dev_read_byte: "device_claims d a \<Longrightarrow> safe soc_bank_inv (device_read_byte a d)"
  by (cases d; simp add: device_read_byte_def device_claims_def;
      intro safe_ncoM safe_nco_ops safe_devices safe_narrow safe_intro; simp add: soc_inv_def)

lemma safe_dev_write_half: "device_claims d a \<Longrightarrow> safe soc_bank_inv (device_write_half a v d)"
  by (cases d; simp add: device_write_half_def device_claims_def;
      intro safe_ncoM safe_nco_ops safe_devices safe_narrow safe_intro; simp add: soc_inv_def)

lemma safe_dev_write_byte: "device_claims d a \<Longrightarrow> safe soc_bank_inv (device_write_byte a v d)"
  by (cases d; simp add: device_write_byte_def device_claims_def;
      intro safe_ncoM safe_nco_ops safe_devices safe_narrow safe_intro; simp add: soc_inv_def)

section \<open>Writes of words\<close>

lemma safe_write_serdes:
  assumes "serdes_claims a" and "a AND 3 = 0"
  shows "safe soc_bank_inv (write_serdes a v)"
  unfolding write_serdes_def Let_def
  by (intro safe_intro safe_devices safe_updateM burst_fit assms)

lemma soc_inv_routes:
  "soc_inv s \<Longrightarrow> soc_inv (write_pbc a v s)" "soc_inv s \<Longrightarrow> soc_inv (write_epon a v s)"
  "soc_inv s \<Longrightarrow> soc_inv (write_efuse a v s)" "soc_inv s \<Longrightarrow> soc_inv (write_mpcp_bus a v s)"
  by (auto simp: write_pbc_def spi_command_def write_epon_def write_efuse_def write_mpcp_bus_def Let_def soc_inv_def
      split: prod.splits option.splits)

lemma safe_dev_write_word:
  assumes "device_claims d a" and "a AND 3 = 0"
  shows "safe soc_bank_inv (device_write_word a v d)"
  using assms
  by (cases d; simp add: device_write_word_def device_claims_def;
      intro safe_ncoM safe_nco_ops safe_devices safe_write_serdes safe_socM safe_intro; simp add: soc_inv_routes; simp add: soc_inv_def)


section \<open>The dispatch\<close>

lemma inner_claims: "inner_for a = Some d \<Longrightarrow> device_claims d a"
  by (auto simp: inner_for_def device_claims_def split: if_splits)

lemma safe_unmapped [safe_intro]: "safe I (unmapped a w v)"
  unfolding unmapped_def by (intro safe_intro)

lemma safe_read_dispatch:
  assumes "a AND 3 = 0" shows "safe soc_bank_inv (read_dispatch a)"
proof -
  have inner: "safe soc_bank_inv
      (case inner_for a of
         Some D_sysreg \<Rightarrow> (case read_dma_mailbox a s of Some v \<Rightarrow> returnM v | None \<Rightarrow> device_read_word a D_sysreg)
       | Some d \<Rightarrow> device_read_word a d | None \<Rightarrow> unmapped a False 0)" for s
  proof (cases "inner_for a")
    case (Some d)
    then show ?thesis
      using safe_dev_read_word [OF inner_claims [OF Some] assms] by (cases d) (simp_all add: safe_intro)
  qed (simp add: safe_unmapped)
  show ?thesis
    unfolding read_dispatch_def
    by (intro safe_intro safe_dev_read_word inner assms) (simp_all add: device_claims_def soc_inv_def)
qed

lemma safe_try_override [safe_intro]: "safe soc_bank_inv (try_override a)"
  unfolding try_override_def
  by (intro safe_devices safe_valueM) (simp add: engine_idle_def split: prod.split)

lemma safe_read_mailbox [safe_intro]: "safe olt_fit (valueM (read_mailbox a))"
  by (rule safe_valueM) (simp add: read_mailbox_def read_data_fit split: option.split)

lemma safe_soc_read_word_inner: "a AND 3 = 0 \<Longrightarrow> safe soc_bank_inv (read_word_inner a)"
  unfolding read_word_inner_def by (intro safe_intro safe_devices safe_read_dispatch)

lemma safe_write_dispatch:
  assumes "a AND 3 = 0" shows "safe soc_bank_inv (write_dispatch a v)"
proof -
  have mailbox: "soc_inv s' = soc_inv s" if "write_dma_mailbox a v s = Some s'" for s s'
    using that by (auto simp: write_dma_mailbox_def soc_inv_def split: if_splits)
  have safe_bus: "safe soc_bank_inv (socM (modifyM (write_mpcp_bus a v)))"
    by (intro safe_socM safe_intro) (simp add: soc_inv_routes)
  show ?thesis
  proof (rule safeI)
    fix b assume b: "soc_bank_inv b"
    have inv: "soc_inv (bank_rest b)" using b by (simp add: soc_bank_inv_def)
    have dev: "fst (device_write_word a v d b) \<noteq> Inl Panic \<and> soc_bank_inv (snd (device_write_word a v d b))"
      if "device_claims d a" for d
      using safeD [OF safe_dev_write_word [OF that assms] b] .
    have bus: "fst (socM (modifyM (write_mpcp_bus a v)) b) \<noteq> Inl Panic \<and> soc_bank_inv (snd (socM (modifyM (write_mpcp_bus a v)) b))"
      by (rule safeD [OF safe_bus b])
    have put: "fst (socM (modifyM (\<lambda>_. s')) b) \<noteq> Inl Panic \<and> soc_bank_inv (snd (socM (modifyM (\<lambda>_. s')) b))"
      if "write_dma_mailbox a v (bank_rest b) = Some s'" for s'
      using b mailbox [OF that] by (simp add: socM_def zoomM_def modifyM_def soc_bank_inv_def)
    have none: "fst (unmapped a True () b) \<noteq> Inl Panic \<and> soc_bank_inv (snd (unmapped a True () b))"
      using safeD [OF safe_unmapped [of soc_bank_inv a True "()"] b] .
    have inner: "device_claims d a" if "inner_for a = Some d" for d using inner_claims [OF that] .
    show "fst (write_dispatch a v b) \<noteq> Inl Panic \<and> soc_bank_inv (snd (write_dispatch a v b))"
      using dev bus put none inner
      by (auto simp: write_dispatch_def bindM_def getsM_def device_claims_def split: option.split device.split)
  qed
qed


lemma sync_bitmap_inv [simp]: "soc_inv (s\<lparr>so_epon := e\<rparr>) = soc_inv s"
  by (simp add: soc_inv_def)

lemma safe_soc_write_word_inner:
  assumes "a AND 3 = 0" shows "safe soc_bank_inv (write_word_inner a v)"
proof -
  have template: "safe olt_fit (modifyM (\<lambda>h. snd (observe_report_template a w h)))" for w
    by (intro safe_intro) (simp add: observe_report_template_def split: prod.split)
  have cmd: "safe olt_fit (valueM (olt_write_cmd a w))" for w by (intro safe_valueM write_cmd_fit)
  have observe: "safe olt_fit (updateM (observe_write a w))" for w by (intro safe_updateM observe_write_fit)
  have sync: "safe soc_bank_inv (socM (modifyM (\<lambda>s. s\<lparr>so_epon := sync_bitmap (so_olt s) (so_epon s)\<rparr>)))"
    by (intro safe_socM safe_intro) simp
  show ?thesis
    unfolding write_word_inner_def Let_def
    by (intro safe_intro safe_devices(5) template cmd observe sync safe_write_dispatch assms)
qed

section \<open>Accesses\<close>

lemma drain_idle: "soc_bank_inv b \<Longrightarrow> drain_scenario_deferred b = (Inr (), b)"
  by (simp add: drain_scenario_deferred_def deviceM_def zoomM_def bindM_def valueM_def soc_bank_inv_def soc_inv_def)

lemma safe_with_scenario:
  assumes "safe soc_bank_inv m" and "\<And>r s. engine_idle s \<Longrightarrow> engine_idle (see r s)"
  shows "safe soc_bank_inv (with_scenario see m)"
proof (rule safeI)
  fix b assume "soc_bank_inv b"
  note m = safeD [OF assms(1) this]
  obtain r b1 where eq: "m b = (r, b1)" by (cases "m b")
  let ?b2 = "on_soc (so_scenario_update (see r)) b1"
  have inv: "soc_bank_inv ?b2" using m eq assms(2) by (simp add: soc_bank_inv_def soc_inv_def)
  have "with_scenario see m b = (r, ?b2)"
  proof (cases r)
    case (Inl e)
    then have "e \<noteq> Panic" using m eq by simp
    then show ?thesis using Inl eq drain_idle [OF inv] by (cases e) (simp_all add: with_scenario_def split: unit.split)
  next
    case (Inr x)
    then show ?thesis using eq drain_idle [OF inv] by (simp add: with_scenario_def split: unit.split)
  qed
  then show "fst (with_scenario see m b) \<noteq> Inl Panic \<and> soc_bank_inv (snd (with_scenario see m b))"
    using m eq inv by simp
qed

lemma safe_soc_read_word: "a AND 3 = 0 \<Longrightarrow> safe soc_bank_inv (soc_read_word a)"
  and safe_soc_write_word: "a AND 3 = 0 \<Longrightarrow> safe soc_bank_inv (soc_write_word a v)"
  unfolding soc_read_word_def soc_write_word_def
  by (intro safe_with_scenario safe_soc_read_word_inner safe_soc_write_word_inner; simp)+

lemma safe_dispatch_narrow:
  "(\<And>d. device_claims d a \<Longrightarrow> safe soc_bank_inv (f d)) \<Longrightarrow> safe soc_bank_inv (dispatch_narrow a w v f)"
  using answers_what_it_claims [of a] by (auto simp: dispatch_narrow_def safe_unmapped split: option.split)

lemma safe_soc_narrow:
  "safe soc_bank_inv (soc_read_half a)" "safe soc_bank_inv (soc_read_byte a)"
  "safe soc_bank_inv (soc_write_half a h)" "safe soc_bank_inv (soc_write_byte a w)"
  unfolding soc_read_half_def soc_read_byte_def soc_write_half_def soc_write_byte_def
  by (intro safe_intro safe_dispatch_narrow safe_dev_read_half safe_dev_read_byte safe_dev_write_half safe_dev_write_byte; assumption)+


section \<open>Ticks, resets and transfers\<close>

lemma soc_inv_tick:
  "soc_inv s \<Longrightarrow> soc_inv (drain_uart_channel s)" "soc_inv s \<Longrightarrow> soc_inv (tick_devices s)"
  "soc_inv s \<Longrightarrow> soc_inv (push_ops ops s)" "soc_inv s \<Longrightarrow> soc_inv (on_epon f s)"
  "soc_inv s \<Longrightarrow> olt_fit (g (so_olt s)) = olt_fit (so_olt s) \<Longrightarrow> soc_inv (on_olt g s)"
  "soc_inv s \<Longrightarrow> soc_inv (tick_scenario n s)"
  by (simp_all add: soc_inv_def drain_uart_channel_def tick_devices_def push_ops_def on_epon_def on_olt_def tick_scenario_def Let_def)

lemma soc_inv_load: "soc_inv s \<Longrightarrow> soc_inv (load_mailbox s)"
  by (simp add: load_mailbox_def Let_def drain_arrivals_def soc_inv_def push_ops_def load_fit)

lemma soc_inv_fields [simp]:
  "soc_inv (s\<lparr>so_guard_clear_countdown := n\<rparr>) = soc_inv s" "soc_inv (s\<lparr>so_nco_tx_ts_counter := c\<rparr>) = soc_inv s"
  "soc_inv (s\<lparr>so_tssync := t\<rparr>) = soc_inv s"
  by (simp_all add: soc_inv_def)

lemma soc_inv_carry:
  assumes "soc_inv s"
  shows "soc_inv (update_llid_tables s)" "soc_inv (carry_link_change s)" "soc_inv (carry_link_level s)"
    "soc_inv (llid_state_countdown s)" "soc_inv (carry_bitmap s)" "soc_inv (clear_guard s)"
proof -
  show "soc_inv (update_llid_tables s)"
    using assms by (simp add: update_llid_tables_def soc_inv_tick split_beta soc_inv_tick(3) split: option.split)
  show "soc_inv (carry_link_change s)" "soc_inv (carry_link_level s)"
    using assms by (simp_all add: carry_link_change_def carry_link_level_def Let_def soc_inv_tick)
  show "soc_inv (llid_state_countdown s)" "soc_inv (carry_bitmap s)" "soc_inv (clear_guard s)"
    using assms by (simp_all add: llid_state_countdown_def carry_bitmap_def clear_guard_def Let_def soc_inv_tick)
qed

lemma drive_timestamps_returns: "soc_inv s \<Longrightarrow> \<exists>s'. drive_timestamps s = Some s' \<and> soc_inv s'"
  using mpcp_ok_poke [of "so_mpcp s" "0x01000320" "ol_mpcp_timestamp (so_olt s)"]
  by (auto simp: drive_timestamps_def Let_def soc_inv_def push_ops_def)


lemma keeps_updateM [keeps_intro]: "(\<And>s s'. I s \<Longrightarrow> f s = Some s' \<Longrightarrow> I s') \<Longrightarrow> keeps I (updateM f)"
  by (auto simp: keeps_def wp_def updateM_def split: option.split)

lemma tick_parts:
  "keeps soc_bank_inv (socM (modifyM (tick_devices \<circ> drain_uart_channel)))"
  "keeps soc_bank_inv (deviceM so_olt so_olt_update (updateM olt_tick))"
  "keeps soc_bank_inv (socM (modifyM (carry_link_level \<circ> carry_link_change \<circ> update_llid_tables \<circ> load_mailbox)))"
  "keeps soc_bank_inv (socM (updateM drive_timestamps))"
  "keeps soc_bank_inv (socM (modifyM (tick_scenario n \<circ> clear_guard \<circ> carry_bitmap \<circ> llid_state_countdown)))"
  "keeps soc_bank_inv (modifyM (\<lambda>b. b\<lparr>bank_irq_pending := uart_irq_pending (so_uart (bank_rest b))\<rparr>))"
proof -
  show "keeps soc_bank_inv (deviceM so_olt so_olt_update (updateM olt_tick))"
    unfolding deviceM_def
    by (rule keeps_zoomM [where J = olt_fit])
      (auto intro!: keeps_updateM simp: soc_bank_inv_def soc_inv_def dest: tick_fit)
  show "keeps soc_bank_inv (socM (updateM drive_timestamps))"
    unfolding socM_def
    by (rule keeps_zoomM [where J = soc_inv])
      (auto intro!: keeps_updateM simp: soc_bank_inv_def dest: drive_timestamps_returns)
qed (auto intro!: safe_keeps safe_socM safe_intro simp: soc_inv_tick soc_inv_carry soc_inv_load soc_bank_inv_def)

lemma keeps_soc_tick: "keeps soc_bank_inv (soc_tick n)"
  unfolding soc_tick_def by (intro keeps_intro tick_parts)

lemma tick_inv: "soc_bank_inv b \<Longrightarrow> soc_bank_inv (snd (soc_tick n b))"
  using keeps_soc_tick [of n] by (cases "soc_tick n b") (auto simp: keeps_def wp_def split: prod.splits sum.splits)


text \<open>With room on the clock of the OLT every part of a tick succeeds.\<close>

lemma soc_tick_succeeds:
  assumes "soc_bank_inv b" and "clock_room (so_olt (bank_rest b))"
  shows "fst (soc_tick n b) = Inr ()"
proof -
  define b1 where "b1 = snd (socM (modifyM (tick_devices \<circ> drain_uart_channel)) b)"
  have olt1: "so_olt (bank_rest b1) = so_olt (bank_rest b)"
    by (simp add: b1_def socM_def zoomM_def modifyM_def tick_devices_def drain_uart_channel_def)
  have inv1: "soc_bank_inv b1"
    using assms(1) by (simp add: b1_def socM_def zoomM_def modifyM_def soc_bank_inv_def soc_inv_tick)
  obtain h where h: "olt_tick (so_olt (bank_rest b1)) = Some h" "olt_fit h"
    using olt_tick_returns [of "so_olt (bank_rest b1)"] inv1 assms(2) olt1 by (auto simp: soc_bank_inv_def soc_inv_def)
  define b2 where "b2 = on_soc (so_olt_update (\<lambda>_. h)) b1"
  let ?carry = "carry_link_level \<circ> carry_link_change \<circ> update_llid_tables \<circ> load_mailbox"
  have "soc_inv (bank_rest b2)" using inv1 h(2) by (simp add: b2_def soc_bank_inv_def soc_inv_def)
  then have "soc_inv (?carry (bank_rest b2))" by (simp add: soc_inv_carry soc_inv_load)
  then obtain s3 where s3: "drive_timestamps (?carry (bank_rest b2)) = Some s3" using drive_timestamps_returns by blast
  have start: "socM (modifyM (tick_devices \<circ> drain_uart_channel)) b = (Inr (), b1)"
    by (simp add: b1_def socM_def zoomM_def modifyM_def)
  have olt: "deviceM so_olt so_olt_update (updateM olt_tick) b1 = (Inr (), b2)"
    using h(1) by (simp add: b2_def deviceM_def zoomM_def updateM_def)
  show ?thesis
    unfolding soc_tick_def
    using s3 by (simp add: thenM_def bindM_def start olt) (simp add: bindM_def socM_def zoomM_def modifyM_def updateM_def)
qed

lemma clear_all_inv [simp]: "soc_inv (s\<lparr>so_alarms := a\<rparr>) = soc_inv s"
  by (simp add: soc_inv_def)

lemma reset_devices_inv: "soc_inv s \<Longrightarrow> soc_inv (reset_devices f s)"
  by (simp add: reset_devices_def soc_inv_def reset_fit)

lemma soc_bank_inv_reset:
  "soc_bank_inv b \<Longrightarrow> soc_bank_inv (soc_reset_cold b)" "soc_bank_inv b \<Longrightarrow> soc_bank_inv (soc_reset_warm b)"
  using reset_devices_inv [of "bank_rest b"]
  by (simp_all add: soc_reset_cold_def soc_reset_warm_def soc_bank_inv_def nco_ok_reset soc_inv_def)

lemma soc_bank_inv_new: "soc_bank_inv (soc_new warm)"
proof -
  have "soc_inv soc_blank"
    by (simp add: soc_inv_def soc_blank_def new_fit engine_idle_def scenario_new_def)
  then show ?thesis
    unfolding soc_new_def using soc_bank_inv_reset nco_ok_new by (auto simp: soc_bank_inv_def)
qed

lemma soc_bank_inv_transfers:
  "soc_bank_inv b \<Longrightarrow> soc_bank_inv (snd (soc_take_pending_datapath b))"
  "soc_bank_inv b \<Longrightarrow> soc_bank_inv (soc_complete_flash_write i a bytes b)"
  "soc_bank_inv b \<Longrightarrow> soc_bank_inv (snd (scenario_pause_requested b))"
  "soc_inv s \<Longrightarrow> soc_inv (so_sysreg_update g s)"
  by (auto simp: soc_bank_inv_def soc_inv_def soc_take_pending_datapath_def soc_complete_flash_write_def engine_idle_def
      scenario_pause_requested_def take_pause_def Let_def split: prod.splits peripheral_id.split)

end
