(* ===== verification/Hooks.thy ===== *)
theory Hooks
  imports Executor
begin

text \<open>
  \<open>src/hooks.rs\<close>: hooks at a program counter, run before its instruction. A custom hook is any
  operation on the register state and the memory; the table is a map from addresses. A log hook
  only prints.
\<close>

datatype hook_action = HookAction_Skip | HookAction_Continue | HookAction_Pause

datatype 'p hook =
    Hook_ReturnImmediate
  | Hook_ReturnValue u32
  | Hook_Log string
  | Hook_Custom "('p machine, hook_action) op"
  | Hook_Breakpoint

type_synonym 'p hook_table = "u32 \<rightharpoonup> 'p hook"

fun execute_hook :: "'p hook \<Rightarrow> ('p machine, hook_action) op" where
  "execute_hook Hook_ReturnImmediate =
     thenM (on_cpu (modifyM (\<lambda>s. s\<lparr>pc := core_regs s ! 31, instruction_count := instruction_count s + 1\<rparr>)))
       (returnM HookAction_Skip)"
| "execute_hook (Hook_ReturnValue val) =
     thenM (on_cpu (modifyM (\<lambda>s.
         let s1 = s\<lparr>core_regs := (core_regs s)[0 := val]\<rparr>
         in s1\<lparr>pc := core_regs s1 ! 31, instruction_count := instruction_count s1 + 1\<rparr>)))
       (returnM HookAction_Skip)"
| "execute_hook (Hook_Log msg) = returnM HookAction_Continue"
| "execute_hook (Hook_Custom f) = f"
| "execute_hook Hook_Breakpoint = returnM HookAction_Pause"

end
