(* ===== verification/Cpu.thy ===== *)
theory Cpu
  imports Hooks Nco
begin

text \<open>
  \<open>src/cpu/mod.rs\<close>: the processor loop. One \<open>step\<close> runs hooks, the zero-overhead loop, fetch,
  decode and execute, the delay slot, the detection of a stalled program counter, and then the
  timers, the peripheral bank and the interrupts. \<open>Cpu\<close> and its memory share one bank; here it is
  the bank of the memory. Debug information, traces and the \<open>timing\<close> feature are left out.
\<close>

abbreviation (input) "UART_IRQ \<equiv> (5 :: nat)"
abbreviation (input) "UART_PRESCALER \<equiv> (256 :: u64)"
abbreviation (input) "TIGHT_LOOP_THRESHOLD \<equiv> (64 :: u32)"
abbreviation (input) "TIMER_CTRL_IE \<equiv> (1 :: u32)"
abbreviation (input) "TIMER_CTRL_W \<equiv> (4 :: u32)"
abbreviation (input) "BANK_TICK_PRESCALER \<equiv> (64 :: u64)"

datatype spin_verdict = WatchdogArmed | Interruptible | Hung

datatype boot_mode = Cold | Warm

record 'p cpu =
  c_machine :: "'p machine" \<comment> \<open>\<open>state\<close> and \<open>mem\<close>\<close>
  c_hooks :: "'p hook_table"
  c_shadow_stack :: "u32 list" \<comment> \<open>\<open>shadow_call_stack\<close>, top last\<close>
  c_profile :: "u32 \<rightharpoonup> u64" \<comment> \<open>\<open>function_profile\<close>\<close>
  c_profiling :: bool
  c_timer_frac :: u32
  c_bank_ticks :: u64
  c_tight_count :: u32
  c_tight_last_pc :: u32
  c_tight_halts :: bool

abbreviation cpu_regs :: "'p cpu \<Rightarrow> cpu_state" where
  "cpu_regs c \<equiv> m_cpu (c_machine c)"

abbreviation cpu_mem :: "'p cpu \<Rightarrow> 'p memory" where
  "cpu_mem c \<equiv> m_mem (c_machine c)"

abbreviation cpu_bank :: "'p cpu \<Rightarrow> 'p bank option" where
  "cpu_bank c \<equiv> m_bank (cpu_mem c)"

definition new_cpu :: "nat \<Rightarrow> 'p cpu" where
  "new_cpu mem_size =
     \<lparr>c_machine = \<lparr>m_cpu = new_cpu_state, m_mem = memory_new mem_size\<rparr>, c_hooks = Map.empty,
      c_shadow_stack = [], c_profile = Map.empty, c_profiling = False, c_timer_frac = 0,
      c_bank_ticks = 0, c_tight_count = 0, c_tight_last_pc = 0xFFFFFFFF, c_tight_halts = False\<rparr>"

text \<open>With the initial SRAM image and the new bank as arguments, as \<^const>\<open>memory_new_soc\<close> has them\<close>

definition new_bcm55030 :: "u8 list \<Rightarrow> 'p bank \<Rightarrow> 'p cpu" where
  "new_bcm55030 img b =
     \<lparr>c_machine = \<lparr>m_cpu = new_cpu_state\<lparr>timer1_irq := 7\<rparr>, m_mem = memory_new_soc img b\<rparr>,
      c_hooks = Map.empty, c_shadow_stack = [], c_profile = Map.empty, c_profiling = False,
      c_timer_frac = 0, c_bank_ticks = 0, c_tight_count = 0, c_tight_last_pc = 0xFFFFFFFF,
      c_tight_halts = False\<rparr>"

section \<open>Parts of the processor\<close>

definition on_machine :: "('p machine, 'a) op \<Rightarrow> ('p cpu, 'a) op" where
  "on_machine m = zoomM c_machine (\<lambda>x c. c\<lparr>c_machine := x\<rparr>) m"

abbreviation on_regs :: "(cpu_state, 'a) op \<Rightarrow> ('p cpu, 'a) op" where
  "on_regs m \<equiv> on_machine (on_cpu m)"

abbreviation on_memory :: "('p memory, 'a) op \<Rightarrow> ('p cpu, 'a) op" where
  "on_memory m \<equiv> on_machine (on_mem m)"

definition regs_modify :: "(cpu_state \<Rightarrow> cpu_state) \<Rightarrow> 'p cpu \<Rightarrow> 'p cpu" where
  "regs_modify f c = c\<lparr>c_machine := (c_machine c)\<lparr>m_cpu := f (cpu_regs c)\<rparr>\<rparr>"

definition mem_modify :: "('p memory \<Rightarrow> 'p memory) \<Rightarrow> 'p cpu \<Rightarrow> 'p cpu" where
  "mem_modify f c = c\<lparr>c_machine := (c_machine c)\<lparr>m_mem := f (cpu_mem c)\<rparr>\<rparr>"

text \<open>\<open>.ok()\<close> drops an exception; a panic goes on\<close>

definition ignoreM :: "('s, 'a) op \<Rightarrow> ('s, unit) op" where
  "ignoreM m s =
     (case m s of
        (Inl Panic, t) \<Rightarrow> (Inl Panic, t)
      | (Inl (Exn _), t) \<Rightarrow> (Inr (), t)
      | (Inr _, t) \<Rightarrow> (Inr (), t))"

section \<open>Resets\<close>

definition reset_loop_detection :: "'p cpu \<Rightarrow> 'p cpu" where
  "reset_loop_detection c = c\<lparr>c_tight_count := 0, c_tight_last_pc := 0xFFFFFFFF\<rparr>"

definition reset_soc_in_place :: "'p device_ops \<Rightarrow> boot_mode \<Rightarrow> ('p cpu, unit) op" where
  "reset_soc_in_place D mode =
     thenM (modifyM (regs_modify (\<lambda>s. new_cpu_state\<lparr>timer1_irq := timer1_irq s\<rparr>)))
    (bindM (getsM (\<lambda>c. length (m_data (cpu_mem c)))) (\<lambda>sram_size.
     thenM (on_memory (load_binary 0 (replicate sram_size 0)))
    (thenM (ignoreM (on_memory (dcache_invalidate_all D)))
    (thenM (modifyM (mem_modify icache_invalidate_all))
    (thenM (modifyM reset_loop_detection)
           (modifyM (mem_modify (bank_modify
              (case mode of Warm \<Rightarrow> dev_reset_warm D | Cold \<Rightarrow> dev_reset_cold D)))))))))"

definition warm_reboot_from_flash :: "'p device_ops \<Rightarrow> ('p cpu, unit) op" where
  "warm_reboot_from_flash D =
     bindM (getsM cpu_bank) (\<lambda>bk. case bk of
       None \<Rightarrow> returnM ()
     | Some b \<Rightarrow>
         let dma_bytes = take (64 * 1024) (dev_flash D b)
         in thenM (reset_soc_in_place D Warm)
           (thenM (on_memory (load_binary 0 dma_bytes))
           (thenM (ignoreM (on_memory (dcache_invalidate_all D)))
           (thenM (modifyM (mem_modify icache_invalidate_all))
           (thenM (modifyM (regs_modify (\<lambda>s. s\<lparr>flag_e1 := True, flag_e2 := True\<rparr>)))
                  (modifyM (\<lambda>c. c\<lparr>c_shadow_stack := []\<rparr>)))))))"

section \<open>Timers\<close>

definition timer_is_watchdog :: "u32 \<Rightarrow> u32 \<Rightarrow> bool" where
  "timer_is_watchdog control limit \<longleftrightarrow> control AND TIMER_CTRL_W \<noteq> 0 \<and> limit \<noteq> 0"

text \<open>One tick of timer 0, of timer 1: whether the watchdog fires, and the registers after\<close>

definition tick_timer0 :: "cpu_state \<Rightarrow> bool \<times> cpu_state" where
  "tick_timer0 s0 =
     (let s = s0\<lparr>aux_count0 := aux_count0 s0 + 1\<rparr>
      in if aux_limit0 s \<noteq> 0 \<and> aux_count0 s \<ge> aux_limit0 s then
           let s1 = s\<lparr>aux_control0 := aux_control0 s OR 0x08\<rparr>;
               s2 = (if aux_control0 s1 AND TIMER_CTRL_IE \<noteq> 0
                     then s1\<lparr>aux_irq_pending := aux_irq_pending s1 OR push_bit 3 1\<rparr> else s1);
               w = (aux_control0 s2 AND TIMER_CTRL_W \<noteq> 0);
               s3 = (if aux_control0 s2 AND 0x02 = 0 then s2\<lparr>aux_count0 := 0\<rparr> else s2)
           in (w, s3)
         else (False, s))"

definition tick_timer1 :: "cpu_state \<Rightarrow> bool \<times> cpu_state" where
  "tick_timer1 s0 =
     (let s = s0\<lparr>aux_count1 := aux_count1 s0 + 1\<rparr>
      in if aux_limit1 s \<noteq> 0 \<and> aux_count1 s \<ge> aux_limit1 s then
           let s1 = s\<lparr>aux_control1 := aux_control1 s OR 0x08\<rparr>;
               s2 = (if aux_control1 s1 AND TIMER_CTRL_IE \<noteq> 0
                     then s1\<lparr>aux_irq_pending := aux_irq_pending s1 OR push_bit (unat (timer1_irq s1 AND 31)) 1\<rparr>
                     else s1);
               w = (aux_control1 s2 AND TIMER_CTRL_W \<noteq> 0)
           in (w, s2\<lparr>aux_count1 := 0\<rparr>)
         else (False, s))"

definition tick_arc_timers_once :: "'p device_ops \<Rightarrow> ('p cpu, unit) op" where
  "tick_arc_timers_once D =
     bindM (getsM cpu_regs) (\<lambda>s.
       case tick_timer0 s of (w0, s1) \<Rightarrow>
       case tick_timer1 s1 of (w1, s2) \<Rightarrow>
         thenM (modifyM (regs_modify (\<lambda>_. s2)))
           (bindM (getsM (\<lambda>c. cpu_bank c \<noteq> None)) (\<lambda>has_bank.
              if (w0 \<or> w1) \<and> has_bank then warm_reboot_from_flash D else returnM ())))"

text \<open>\<open>while acc >= 100 { acc -= 100; tick }\<close>: a tick leaves the accumulator alone, so the number of
  ticks is known before the loop (\<open>timer_loop_unfold\<close> below is the loop's own equation).\<close>

primrec repeatM :: "nat \<Rightarrow> ('s, unit) op \<Rightarrow> ('s, unit) op" where
  "repeatM 0 m = returnM ()"
| "repeatM (Suc n) m = thenM m (repeatM n m)"

definition timer_body :: "'p device_ops \<Rightarrow> ('p cpu, unit) op" where
  "timer_body D =
     thenM (modifyM (\<lambda>c. c\<lparr>c_timer_frac := c_timer_frac c - 100\<rparr>)) (tick_arc_timers_once D)"

definition timer_loop :: "'p device_ops \<Rightarrow> ('p cpu, unit) op" where
  "timer_loop D = bindM (getsM (\<lambda>c. unat (c_timer_frac c) div 100)) (\<lambda>n. repeatM n (timer_body D))"

definition tick_timers_and_bank :: "'p device_ops \<Rightarrow> ('p cpu, unit) op" where
  "tick_timers_and_bank D =
     thenM (modifyM (\<lambda>c. c\<lparr>c_timer_frac := c_timer_frac c + 176\<rparr>))
    (thenM (timer_loop D)
    (thenM (modifyM (\<lambda>c. c\<lparr>c_bank_ticks := c_bank_ticks c + 1\<rparr>))
    (bindM (getsM (\<lambda>c. c_bank_ticks c \<ge> BANK_TICK_PRESCALER)) (\<lambda>due.
       if due then
         modifyM (\<lambda>c. mem_modify (drain_datapath D)
           (mem_modify (bank_modify (dev_tick D BANK_TICK_PRESCALER)) (c\<lparr>c_bank_ticks := 0\<rparr>)))
       else returnM ()))))"

section \<open>Interrupts\<close>

definition check_uart_irq :: "'p device_ops \<Rightarrow> 'p cpu \<Rightarrow> 'p cpu" where
  "check_uart_irq D c =
     (if instruction_count (cpu_regs c) mod UART_PRESCALER \<noteq> 0 then c
      else
        (case cpu_bank c of
           None \<Rightarrow> c
         | Some b \<Rightarrow>
             regs_modify (\<lambda>s.
               let s1 = (if dev_uart_irq D b
                         then s\<lparr>aux_irq_pending := aux_irq_pending s OR push_bit UART_IRQ 1\<rparr> else s)
               in s1\<lparr>aux_irq_pending := aux_irq_pending s1 OR bank_irq_pending b\<rparr>) c))"

definition trailing_zeros :: "u32 \<Rightarrow> nat" where
  "trailing_zeros x = length (takeWhile (\<lambda>n. \<not> bit x n) [0..<32])"

text \<open>Saving the state and the flags of the two interrupt levels; level 2 leaves E1 set\<close>

definition enter_level1 :: "nat \<Rightarrow> cpu_state \<Rightarrow> cpu_state" where
  "enter_level1 irq s =
     s\<lparr>aux_status32_l1 := status32 s, aux_bta_l1 := aux_bta s,
       core_regs := (core_regs s)[29 := pc s], aux_icause1 := of_nat irq,
       flag_e1 := False, flag_e2 := False, flag_a1 := True, flag_de := False, flag_u := False,
       flag_l := True,
       irq_shadow_r0_r3 := take 4 (core_regs s)\<rparr>"

definition enter_level2 :: "nat \<Rightarrow> cpu_state \<Rightarrow> cpu_state" where
  "enter_level2 irq s =
     s\<lparr>aux_status32_l2 := status32 s, aux_bta_l2 := aux_bta s,
       core_regs := (core_regs s)[30 := pc s], aux_icause2 := of_nat irq,
       flag_e2 := False, flag_a2 := True, flag_de := False, flag_u := False,
       flag_l := True,
       irq_shadow_r0_r3 := take 4 (core_regs s)\<rparr>"

definition vector_target :: "'p bank option \<Rightarrow> nat \<Rightarrow> cpu_state \<Rightarrow> u32" where
  "vector_target bk irq s =
     (case Option.bind bk (\<lambda>b. interrupt_vector (of_nat irq) (bank_nco b)) of
        Some target \<Rightarrow> target
      | None \<Rightarrow> aux_int_vector_base s + of_nat irq * 8)"

definition take_interrupt :: "'p bank option \<Rightarrow> cpu_state \<Rightarrow> bool \<times> cpu_state" where
  "take_interrupt bk s =
     (if delay_state s \<noteq> Delay_None then (False, s)
      else if aux_irq_pending s = 0 then (False, s)
      else
        let irq = trailing_zeros (aux_irq_pending s)
        in if irq \<ge> 32 then (False, s)
           else
             let is_level2 = bit_set (aux_irq_lev s) irq
             in if (if is_level2 then \<not> flag_e2 s \<or> flag_a2 s else \<not> flag_e1 s \<or> flag_a1 s)
                then (False, s)
                else
                  let s1 = (if is_level2 then enter_level2 irq s else enter_level1 irq s);
                      s2 = s1\<lparr>aux_irq_pending := aux_irq_pending s1 AND NOT (push_bit irq 1)\<rparr>
                  in (True, s2\<lparr>pc := vector_target bk irq s2, pc_written := True\<rparr>))"

definition check_interrupts :: "('p cpu, bool) op" where
  "check_interrupts c =
     (case take_interrupt (cpu_bank c) (cpu_regs c) of
        (taken, s) \<Rightarrow> (Inr taken, regs_modify (\<lambda>_. s) c))"

section \<open>A stalled program counter\<close>

definition classify_spin :: "'p cpu \<Rightarrow> spin_verdict" where
  "classify_spin c =
     (let s = cpu_regs c
      in if timer_is_watchdog (aux_control0 s) (aux_limit0 s)
            \<or> timer_is_watchdog (aux_control1 s) (aux_limit1 s) then WatchdogArmed
         else
           let globally_enabled = flag_e1 s \<or> flag_e2 s;
               timer_irq_source = (aux_control0 s AND TIMER_CTRL_IE \<noteq> 0 \<and> aux_limit0 s \<noteq> 0
                                   \<or> aux_control1 s AND TIMER_CTRL_IE \<noteq> 0 \<and> aux_limit1 s \<noteq> 0);
               external_source = (aux_irq_pending s \<noteq> 0
                                  \<or> (case cpu_bank c of None \<Rightarrow> False | Some b \<Rightarrow> bank_irq_pending b \<noteq> 0))
           in if globally_enabled \<and> (timer_irq_source \<or> external_source) then Interruptible else Hung)"

definition fast_forward_armed_watchdog :: "cpu_state \<Rightarrow> cpu_state" where
  "fast_forward_armed_watchdog s =
     (let s1 = (if timer_is_watchdog (aux_control0 s) (aux_limit0 s)
                then s\<lparr>aux_count0 := (if aux_limit0 s = 0 then 0 else aux_limit0 s - 1)\<rparr> else s)
      in if timer_is_watchdog (aux_control1 s1) (aux_limit1 s1)
         then s1\<lparr>aux_count1 := (if aux_limit1 s1 = 0 then 0 else aux_limit1 s1 - 1)\<rparr> else s1)"

text \<open>\<open>true\<close> for the early returns, which skip the rest of the step\<close>

definition detect_spin :: "('p cpu, bool) op" where
  "detect_spin c =
     (if cpu_bank c = None then (Inr False, c)
      else if pc (cpu_regs c) = c_tight_last_pc c then
        let c1 = c\<lparr>c_tight_count := c_tight_count c + 1\<rparr>
        in if c_tight_count c1 \<ge> TIGHT_LOOP_THRESHOLD then
             (if c_tight_halts c1 then (Inr True, regs_modify (\<lambda>s. s\<lparr>halted := True\<rparr>) c1)
              else
                (case classify_spin c1 of
                   WatchdogArmed \<Rightarrow>
                     (Inr False, (regs_modify fast_forward_armed_watchdog c1)\<lparr>c_tight_count := 0\<rparr>)
                 | Interruptible \<Rightarrow> (Inr False, c1\<lparr>c_tight_count := 0\<rparr>)
                 | Hung \<Rightarrow>
                     (Inr True, regs_modify (\<lambda>s. s\<lparr>halted := True,
                                                  pause_reason := SpinNoWatchdog (pc s)\<rparr>) c1)))
           else (Inr False, c1)
      else (Inr False, c\<lparr>c_tight_count := 0, c_tight_last_pc := pc (cpu_regs c)\<rparr>))"

section \<open>The step\<close>

text \<open>\<open>true\<close> when the hook ends the step\<close>

definition dispatch_hook :: "('p cpu, bool) op" where
  "dispatch_hook =
     bindM (getsM (\<lambda>c. c_hooks c (pc (cpu_regs c)))) (\<lambda>h. case h of
       None \<Rightarrow> returnM False
     | Some hook \<Rightarrow>
         bindM (on_machine (execute_hook hook)) (\<lambda>action. case action of
           HookAction_Skip \<Rightarrow> returnM True
         | HookAction_Continue \<Rightarrow> returnM False
         | HookAction_Pause \<Rightarrow>
             thenM (modifyM (regs_modify (\<lambda>s. s\<lparr>paused := True, pause_reason := Breakpoint (pc s)\<rparr>)))
               (returnM True)))"

definition step_sleeping :: "'p device_ops \<Rightarrow> ('p cpu, unit) op" where
  "step_sleeping D =
     thenM (tick_timers_and_bank D)
    (thenM (modifyM (check_uart_irq D))
    (bindM check_interrupts (\<lambda>taken.
       if taken then modifyM (regs_modify (\<lambda>s. s\<lparr>sleeping := False\<rparr>)) else returnM ())))"

definition take_delay :: "cpu_state \<Rightarrow> (u32 \<times> bool) option \<times> cpu_state" where
  "take_delay s =
     (case delay_state s of
        DelaySlot target is_link \<Rightarrow> (Some (target, is_link), s\<lparr>delay_state := Delay_None\<rparr>)
      | Delay_None \<Rightarrow> (None, s))"

text \<open>The zero-overhead loop; \<open>true\<close> when the step ends with the jump back\<close>

definition loop_back :: "(u32 \<times> bool) option \<Rightarrow> cpu_state \<Rightarrow> bool \<times> cpu_state" where
  "loop_back delay_info s =
     (if delay_info = None \<and> \<not> flag_l s then
        (let lp_count = core_regs s ! 60
         in if pc s = aux_lp_end s \<and> lp_count > 0 then
              let new_count = lp_count - 1; s1 = s\<lparr>core_regs := (core_regs s)[60 := new_count]\<rparr>
              in if new_count > 0 then (True, s1\<lparr>pc := aux_lp_start s1\<rparr>) else (False, s1)
            else (False, s))
      else (False, s))"

definition publish_context :: "'p device_ops \<Rightarrow> decoded_instruction \<Rightarrow> 'p cpu \<Rightarrow> 'p cpu" where
  "publish_context D d c =
     (let s = cpu_regs c
      in mem_modify (bank_modify (\<lambda>b.
           (update_cpu_context D (pc s) (core_regs s ! 31) (instruction_count s) b)
             \<lparr>bank_current_di :=
               (case inst d of
                  Store _ _ _ _ _ cache_bypass \<Rightarrow> cache_bypass
                | Load _ _ _ _ _ _ cache_bypass \<Rightarrow> cache_bypass
                | _ \<Rightarrow> False)\<rparr>)) c)"

definition value_or_0 :: "u32 result \<Rightarrow> u32" where
  "value_or_0 r = (case r of Inl _ \<Rightarrow> 0 | Inr v \<Rightarrow> v)"

definition log_aux_write :: "decoded_instruction \<Rightarrow> 'p cpu \<Rightarrow> 'p cpu" where
  "log_aux_write d c =
     (case inst d of
        StoreAux src addr \<Rightarrow>
          (let addr_val = value_or_0 (resolve_value addr (cpu_regs c));
               val = value_or_0 (resolve_value src (cpu_regs c))
           in mem_modify (bank_modify (record_aux_write addr_val val)) c)
      | _ \<Rightarrow> c)"

definition update_pc :: "(u32 \<times> bool) option \<Rightarrow> u32 \<Rightarrow> cpu_state \<Rightarrow> cpu_state" where
  "update_pc delay_info next_pc s =
     (case delay_info of
        Some (target, _) \<Rightarrow> s\<lparr>pc := target\<rparr>
      | None \<Rightarrow>
          if delay_state s \<noteq> Delay_None then s\<lparr>pc := next_pc\<rparr>
          else if \<not> pc_written s then s\<lparr>pc := next_pc\<rparr>
          else s)"

definition track_calls :: "(u32 \<times> bool) option \<Rightarrow> u32 \<Rightarrow> 'p cpu \<Rightarrow> 'p cpu" where
  "track_calls delay_info next_pc c =
     (let s = cpu_regs c; stack = c_shadow_stack c; blink = core_regs s ! 31
      in if (case delay_info of Some (_, is_link) \<Rightarrow> is_link | None \<Rightarrow> False) then
           (if length stack < 64 then c\<lparr>c_shadow_stack := stack @ [next_pc]\<rparr> else c)
         else if link_executed s then
           (if length stack < 64 then c\<lparr>c_shadow_stack := stack @ [blink]\<rparr> else c)
         else if pc_written s then
           (if pc s = blink \<and> stack \<noteq> [] then c\<lparr>c_shadow_stack := butlast stack\<rparr> else c)
         else c)"

definition profile_step :: "'p cpu \<Rightarrow> 'p cpu" where
  "profile_step c =
     (if c_profiling c \<and> c_shadow_stack c \<noteq> [] then
        let frame_pc = last (c_shadow_stack c);
            n = (case c_profile c frame_pc of None \<Rightarrow> 0 | Some n \<Rightarrow> n)
        in c\<lparr>c_profile := (c_profile c)(frame_pc \<mapsto> n + 1)\<rparr>
      else c)"

definition watchpoint_trap :: "'p cpu \<Rightarrow> 'p cpu" where
  "watchpoint_trap c =
     (case watch_take_hit (m_watchpoints (cpu_mem c)) of
        (hit, table) \<Rightarrow>
          let c1 = mem_modify (\<lambda>m. m\<lparr>m_watchpoints := table\<rparr>) c
          in case hit of
               None \<Rightarrow> c1
             | Some (addr, mode) \<Rightarrow>
                 regs_modify (\<lambda>s. s\<lparr>paused := True, pause_reason := Watch addr mode\<rparr>) c1)"

text \<open>What follows the execution of an instruction: the timers come last, then the interrupts\<close>

definition end_of_step :: "'p device_ops \<Rightarrow> (u32 \<times> bool) option \<Rightarrow> u32 \<Rightarrow> ('p cpu, unit) op" where
  "end_of_step D delay_info next_pc =
     thenM (modifyM (watchpoint_trap \<circ> profile_step \<circ> track_calls delay_info next_pc))
    (thenM (tick_timers_and_bank D)
    (thenM (modifyM (check_uart_irq D))
    (bindM check_interrupts (\<lambda>_. returnM ()))))"

definition step_instruction ::
    "'p device_ops \<Rightarrow> (u32 \<times> bool) option \<Rightarrow> decoded_instruction \<Rightarrow> ('p cpu, unit) op" where
  "step_instruction D delay_info d =
     bindM (getsM (\<lambda>c. pc (cpu_regs c) + total_size d)) (\<lambda>next_pc.
     thenM (case delay_info of
              Some (_, True) \<Rightarrow> on_regs (write_core_reg 31 next_pc)
            | _ \<Rightarrow> returnM ())
    (thenM (modifyM (publish_context D d))
    (thenM (modifyM (regs_modify (\<lambda>s. s\<lparr>pc_written := False, link_executed := False\<rparr>)))
    (thenM (on_machine (execute D d))
    (thenM (modifyM (log_aux_write d))
    (thenM (modifyM (regs_modify (\<lambda>s.
              (update_pc delay_info next_pc s)\<lparr>instruction_count := instruction_count s + 1\<rparr>)))
    (bindM detect_spin (\<lambda>done.
       if done then returnM () else end_of_step D delay_info next_pc))))))))"

definition step_awake :: "'p device_ops \<Rightarrow> ('p cpu, unit) op" where
  "step_awake D =
     bindM (getsM (\<lambda>c. take_delay (cpu_regs c))) (\<lambda>(delay_info, s).
       case loop_back delay_info s of (looped, s') \<Rightarrow>
         thenM (modifyM (regs_modify (\<lambda>_. s')))
           (if looped then returnM ()
            else bindM (getsM (\<lambda>c. pc (cpu_regs c))) (\<lambda>a.
                   bindM (on_memory (decode_with a memory_fetch)) (step_instruction D delay_info))))"

definition step :: "'p device_ops \<Rightarrow> ('p cpu, unit) op" where
  "step D =
     bindM (getsM cpu_regs) (\<lambda>s.
       if halted s \<or> paused s then returnM ()
       else
         bindM dispatch_hook (\<lambda>done.
           if done then returnM ()
           else bindM (getsM (\<lambda>c. sleeping (cpu_regs c))) (\<lambda>asleep.
                  if asleep then step_sleeping D else step_awake D)))"

primrec run :: "'p device_ops \<Rightarrow> nat \<Rightarrow> ('p cpu, unit) op" where
  "run D 0 = returnM ()"
| "run D (Suc n) =
     bindM (getsM (\<lambda>c. halted (cpu_regs c) \<or> sleeping (cpu_regs c))) (\<lambda>stop.
       if stop then returnM () else thenM (step D) (run D n))"

end
