(* ===== verification/Memory_Dma.thy ===== *)
theory Memory_Dma
  imports Memory_Fetch
begin

text \<open>
  The DMA of \<open>src/memory.rs\<close> (\<open>apply_datapath_op\<close>) against the data cache: a transfer into SRAM drops
  the clean lines under it and leaves dirty ones, so a program reads the transferred bytes except
  where it has unwritten stores of its own.
\<close>

section \<open>Dropping the clean lines\<close>

lemma dma_dirty_at:
  assumes "dcache_ok dc"
  shows "dirty_at (snd (dma_sram_overwrite a dc)) b = dirty_at dc b"
    and "way_of (snd (dma_sram_overwrite a dc)) b \<noteq> None \<Longrightarrow> way_of dc b \<noteq> None"
    and "dirty_at dc b \<Longrightarrow> peek_byte (snd (dma_sram_overwrite a dc)) b = peek_byte dc b"
proof -
  have "dirty_at (snd (dma_sram_overwrite a dc)) b = dirty_at dc b
    \<and> (dirty_at dc b \<longrightarrow> peek_byte (snd (dma_sram_overwrite a dc)) b = peek_byte dc b)
    \<and> (way_of (snd (dma_sram_overwrite a dc)) b \<noteq> None \<longrightarrow> way_of dc b \<noteq> None)"
  proof (cases "way_of dc a")
    case None
    then show ?thesis by (simp add: dma_sram_overwrite_def decompose_fields way_of_def)
  next
    case (Some w)
    show ?thesis
    proof (cases "line_dirty (dc_line dc (set_of a) w)")
      case True
      then show ?thesis using Some by (simp add: dma_sram_overwrite_def decompose_fields way_of_def)
    next
      case False
      have dc': "snd (dma_sram_overwrite a dc) = put_line (set_of a) w empty_line dc"
        using Some False by (simp add: dma_sram_overwrite_def decompose_fields way_of_def)
      show ?thesis
      proof (cases "line_of b = line_of a")
        case True
        then show ?thesis
          using Some False drop_line(2) [OF assms Some, of b] way_of_same_line [OF True, of dc]
          by (simp add: dirty_at_def dc' line_of_eq_iff)
      next
        case other: False
        then show ?thesis
          using drop_line(2) [OF assms Some, of b] drop_line(3) [OF assms Some, where b = b] way_of_less [of dc b]
          by (auto simp: dirty_at_def dc' drop_line_peek [OF assms Some] split: option.split)
      qed
    qed
  qed
  then show "dirty_at (snd (dma_sram_overwrite a dc)) b = dirty_at dc b"
    "way_of (snd (dma_sram_overwrite a dc)) b \<noteq> None \<Longrightarrow> way_of dc b \<noteq> None"
    "dirty_at dc b \<Longrightarrow> peek_byte (snd (dma_sram_overwrite a dc)) b = peek_byte dc b" by simp_all
qed

text \<open>The loop over the lines: \<open>g\<close> is the store after the transfer.\<close>

lemma dma_fold:
  fixes ls :: "u32 list"
  assumes ok: "dcache_ok dc" and cl: "clean_lines dc f"
  defines "dc' \<equiv> fold (\<lambda>a dc. snd (dma_sram_overwrite a dc)) ls dc"
  shows "dcache_ok dc' \<and> clean_lines dc' (\<lambda>b. if line_of b \<in> line_of ` set ls then g b else f b)
    \<and> (\<forall>b. dirty_at dc' b = dirty_at dc b) \<and> (\<forall>b. way_of dc' b \<noteq> None \<longrightarrow> way_of dc b \<noteq> None)
    \<and> dc_enabled dc' = dc_enabled dc
    \<and> (\<forall>b. dirty_at dc b \<longrightarrow> peek_byte dc' b = peek_byte dc b)"
  unfolding dc'_def
proof (induction ls rule: rev_induct)
  case Nil
  then show ?case using ok cl by simp
next
  case (snoc a ls)
  let ?dc = "fold (\<lambda>a dc. snd (dma_sram_overwrite a dc)) ls dc"
  let ?f = "\<lambda>b. if line_of b \<in> line_of ` set ls then g b else f b"
  let ?g = "\<lambda>b. if line_of b \<in> line_of ` set (ls @ [a]) then g b else f b"
  have ih: "dcache_ok ?dc" "clean_lines ?dc ?f" "\<And>b. dirty_at ?dc b = dirty_at dc b"
    "\<And>b. way_of ?dc b \<noteq> None \<Longrightarrow> way_of dc b \<noteq> None" "dc_enabled ?dc = dc_enabled dc"
    "\<And>b. dirty_at dc b \<Longrightarrow> peek_byte ?dc b = peek_byte dc b"
    using snoc.IH by auto
  obtain kept dc1 where dma: "dma_sram_overwrite a ?dc = (kept, dc1)" by (cases "dma_sram_overwrite a ?dc")
  have g: "?g b = ?f b" if "line_of b \<noteq> line_of a" for b using that by auto
  have "dc_enabled dc1 = dc_enabled ?dc"
    using dma by (auto simp: dma_sram_overwrite_def put_line_def split: prod.splits option.splits if_splits)
  moreover note dma_sram_overwrite_view(2,3) [OF ih(1,2) g dma] dma_dirty_at(1,2) [OF ih(1), of a]
  moreover have "peek_byte dc1 b = peek_byte dc b" if "dirty_at dc b" for b
    using dma_dirty_at(3) [OF ih(1), of b a] ih(3,6) [of b] that dma by simp
  ultimately show ?case using ih dma by auto
qed

section \<open>The lines of a transfer\<close>

lemma line_of_mask: "a AND NOT 0x1F = line_of a"
  by (simp add: line_of_def)

lemma dma_lines_cover:
  assumes fits: "unat a + n < 2 ^ 32" and b: "unat a \<le> unat b" "unat b < unat a + n"
  shows "line_of b \<in> line_of ` set (dma_lines a n)"
proof -
  define i where "i = unat b div 32 - unat a div 32"
  have past: "unat (a + of_nat n) = unat a + n" by (rule unat_plus_small [OF fits])
  have n: "0 < n" using b by simp
  then have ne: "a + of_nat n \<noteq> 0" using past by (metis add_gr_0 not_less0 unsigned_0)
  have last: "unat (a + of_nat n - 1) = unat a + n - 1"
    using past ne by (metis unat_minus_one)
  have le: "unat (line_of a) \<le> unat (line_of (a + of_nat n - 1))"
    unfolding unat_line_of last using n by (simp add: div_le_mono)
  then have len: "unat (line_of (a + of_nat n - 1) - line_of a)
      = 32 * ((unat a + n - 1) div 32) - 32 * (unat a div 32)"
    by (simp add: unat_sub word_le_nat_alt unat_line_of last)
  have i: "i < unat (line_of (a + of_nat n - 1) - line_of a) div 32 + 1"
  proof -
    have "unat b div 32 \<le> (unat a + n - 1) div 32" using b by (intro div_le_mono) simp
    moreover have "(32 * x - 32 * y) div 32 = x - y" for x y :: nat
      by (metis diff_mult_distrib2 nonzero_mult_div_cancel_left zero_neq_numeral)
    ultimately show ?thesis unfolding len i_def by (simp add: less_Suc_eq_le diff_le_mono)
  qed
  define k where "k = unat (line_of (a + of_nat n - 1) - line_of a) div 32 + 1"
  have "dma_lines a n = map (\<lambda>i. line_of a + 32 * of_nat i) [0..<k]"
    unfolding dma_lines_def Let_def line_of_mask k_def
    using le ne by (simp add: word_less_nat_alt not_less)
  then have "line_of a + 32 * of_nat i \<in> set (dma_lines a n)"
    using i unfolding k_def [symmetric] by auto
  moreover have "line_of (line_of a + 32 * of_nat i) = line_of b"
  proof -
    have ab: "unat a div 32 \<le> unat b div 32" using b by (simp add: div_le_mono)
    have sum: "unat (line_of a) + 32 * i = 32 * (unat b div 32)"
      unfolding unat_line_of i_def using ab by simp
    also have "\<dots> < 2 ^ 32" using unat_less_32 [of b] by simp
    finally have "unat (line_of a + of_nat (32 * i)) = unat (line_of a) + 32 * i"
      by (rule unat_plus_small)
    then have "unat (line_of a + 32 * of_nat i) = 32 * (unat b div 32)" using sum by simp
    then show ?thesis by (simp add: word_unat_eq_iff unat_line_of)
  qed
  ultimately show ?thesis by (metis image_eqI)
qed

section \<open>The transfer\<close>

definition dirty_in :: "'p memory \<Rightarrow> u32 \<Rightarrow> bool" where
  "dirty_in m b \<longleftrightarrow> (case m_dcache m of None \<Rightarrow> False | Some dc \<Rightarrow> dirty_at dc b)"

lemma clean_view:
  "clean_lines dc f \<Longrightarrow> \<not> dirty_at dc b \<Longrightarrow> backing_view dc f b = f b"
  by (auto simp: clean_lines_def dirty_at_def backing_view_way split: option.splits)

lemma dirty_peek: "dirty_at dc b \<Longrightarrow> \<exists>v. peek_byte dc b = Some v"
  by (auto simp: dirty_at_def peek_byte_way split: option.splits)

lemma store_of_splice:
  assumes "unat a + length d \<le> length (m_data m)"
  shows "store_of (m\<lparr>m_data := splice (unat a) d (m_data m)\<rparr>) b
    = (if unat a \<le> unat b \<and> unat b < unat a + length d then d ! (unat b - unat a) else store_of m b)"
  using assms by (auto simp: store_of_def nth_splice)

lemma dma_write_ok:
  fixes D :: "'p device_ops"
  assumes ok: "soc_ok m" and fits: "unat a + length d \<le> length (m_data m)"
  defines "m' \<equiv> apply_datapath_op D (SramWrite a d) m"
  shows "soc_ok m'" and "in_sram m' = in_sram m" and "dcache_enabled m' = dcache_enabled m"
    and "m_bank m' = m_bank m"
    and "store_of m' b = (if unat a \<le> unat b \<and> unat b < unat a + length d then d ! (unat b - unat a) else store_of m b)"
    and "mem_view m' b = (if unat a \<le> unat b \<and> unat b < unat a + length d \<and> \<not> dirty_in m b
                          then d ! (unat b - unat a) else mem_view m b)"
proof -
  obtain dc where dc: "m_dcache m = Some dc" and fit: "dcache_fits m dc" and shape: "soc_shape m"
    using ok by (rule soc_okE)
  let ?ls = "dma_lines a (length d)"
  let ?dc = "fold (\<lambda>a dc. snd (dma_sram_overwrite a dc)) ?ls dc"
  let ?m1 = "m\<lparr>m_data := splice (unat a) d (m_data m)\<rparr>"
  have m': "m' = icache_modify (fold ic_invalidate_line ?ls) (?m1\<lparr>m_dcache := Some ?dc\<rparr>)"
    using fits by (simp add: m'_def dcache_modify_def dc)
  have same: "store_of m' = store_of ?m1" "m_dcache m' = Some ?dc" "m_data m' = m_data ?m1"
    "soc_shape m' = soc_shape ?m1" "m_bank m' = m_bank m"
    by (simp_all add: m' icache_modify_def soc_shape_def store_of_def fun_eq_iff)
  have len: "length (m_data ?m1) = length (m_data m)" using fits by simp
  let ?f = "store_of m" and ?g = "store_of ?m1"
  have g: "?g b = (if unat a \<le> unat b \<and> unat b < unat a + length d then d ! (unat b - unat a) else ?f b)" for b
    by (rule store_of_splice [OF fits])
  have cover: "line_of b \<in> line_of ` set ?ls" if "unat a \<le> unat b \<and> unat b < unat a + length d" for b
    by (rule dma_lines_cover) (use that fits shape in \<open>auto simp: soc_shape_def\<close>)
  then have "(\<lambda>b. if line_of b \<in> line_of ` set ?ls then ?g b else ?f b) = ?g"
    using g by (fastforce simp: fun_eq_iff)
  with dma_fold [of dc ?f ?ls ?g] fit
  have dok: "dcache_ok ?dc" and cl: "clean_lines ?dc ?g" and dirty: "\<And>b. dirty_at ?dc b = dirty_at dc b"
    and ways: "\<And>b. way_of ?dc b \<noteq> None \<Longrightarrow> way_of dc b \<noteq> None" and en: "dc_enabled ?dc = dc_enabled dc"
    and peek: "\<And>b. dirty_at dc b \<Longrightarrow> peek_byte ?dc b = peek_byte dc b"
    by (auto simp: dcache_fits_def)
  show "store_of m' b = (if unat a \<le> unat b \<and> unat b < unat a + length d then d ! (unat b - unat a) else store_of m b)"
    unfolding same by (rule g)
  show "in_sram m' = in_sram m" using len by (intro ext) (simp add: in_sram_def same)
  show "m_bank m' = m_bank m" by (rule same)
  show "dcache_enabled m' = dcache_enabled m" by (simp add: dcache_enabled_def same dc en)
  have "soc_shape m'" using shape len unfolding same by (simp add: soc_shape_def)
  moreover have "dcache_fits m' ?dc"
    using dok cl ways fit len unfolding dcache_fits_def same by auto
  ultimately show "soc_ok m'" using same by (simp add: soc_ok_def)
  have view: "mem_view m' b = backing_view ?dc ?g b" "mem_view m b = backing_view dc ?f b"
    "dirty_in m b = dirty_at dc b"
    by (simp_all add: mem_view_def same dc dirty_in_def)
  show "mem_view m' b = (if unat a \<le> unat b \<and> unat b < unat a + length d \<and> \<not> dirty_in m b
                          then d ! (unat b - unat a) else mem_view m b)"
  proof (cases "dirty_at dc b")
    case True
    then have "backing_view ?dc ?g b = backing_view dc ?f b"
      using peek [of b] dirty_peek [of dc b] by (auto simp: backing_view_def)
    then show ?thesis using True by (simp add: view)
  next
    case False
    then have "backing_view ?dc ?g b = ?g b" "backing_view dc ?f b = ?f b"
      using clean_view [OF cl, of b] clean_view [of dc ?f b] dirty [of b] fit by (auto simp: dcache_fits_def)
    then show ?thesis using False g [of b] by (simp add: view)
  qed
qed

section \<open>The property\<close>

text \<open>C5. A DMA transfer into SRAM: the bytes of the transfer reach SRAM, and a program reads them at once,
  no matter how the transfer lies across cache lines, except at addresses whose line it has
  written to and not yet flushed; everything outside the transfer reads as before.\<close>

theorem dma_write_visible:
  assumes "soc_ok m" and "unat a + length d \<le> length (m_data m)"
  shows "soc_ok (apply_datapath_op D (SramWrite a d) m)
    \<and> (\<forall>b. store_of (apply_datapath_op D (SramWrite a d) m) b
            = (if unat a \<le> unat b \<and> unat b < unat a + length d then d ! (unat b - unat a) else store_of m b))
    \<and> (\<forall>b. mem_view (apply_datapath_op D (SramWrite a d) m) b
            = (if unat a \<le> unat b \<and> unat b < unat a + length d \<and> \<not> dirty_in m b
               then d ! (unat b - unat a) else mem_view m b))"
  using dma_write_ok [OF assms] by blast

theorem dma_write_visible_witness:
  "\<forall>(D :: unit device_ops) (b :: unit bank) i.
     mem_view (apply_datapath_op D (SramWrite 30 [1, 2, 3, 4]) (memory_new_soc (replicate 64 0) b)) i
       = (if 30 \<le> unat i \<and> unat i < 34 then [1, 2, 3, 4] ! (unat i - 30) else 0)"
proof (intro allI)
  fix D :: "unit device_ops" and b :: "unit bank" and i :: u32
  let ?m = "memory_new_soc (replicate 64 0) b"
  have "soc_ok ?m" using cached_ok_new_soc [of "replicate 64 0" b] by (simp add: cached_ok_def)
  moreover have "unat (30 :: u32) + length [1, 2, 3, 4 :: u8] \<le> length (m_data ?m)"
    by (simp add: memory_new_soc_def)
  moreover have none: "way_of dc_new j = None" for j
    by (simp add: way_of_def find_way_def dc_line_def dc_new_def line_matches_def empty_line_def)
  moreover have "mem_view ?m i = 0" "\<not> dirty_in ?m i"
    by (simp_all add: mem_view_def dirty_in_def dirty_at_def memory_new_soc_def backing_view_way none store_of_def)
  ultimately show "mem_view (apply_datapath_op D (SramWrite 30 [1, 2, 3, 4]) ?m) i
       = (if 30 \<le> unat i \<and> unat i < 34 then [1, 2, 3, 4] ! (unat i - 30) else 0)"
    using dma_write_visible [of ?m 30 "[1, 2, 3, 4]" D] by simp
qed

end
