(* ===== verification/Memory_Safe.thy ===== *)
theory Memory_Safe
  imports Memory_Dma
begin

text \<open>
  The invariant of a SoC memory, and that every operation of \<open>src/memory.rs\<close> keeps it without a
  panic, whatever the address, the width and the contents of the cache, provided the devices
  behind the bank do not panic themselves while an invariant \<open>I\<close> of theirs holds, and keep it.
\<close>

section \<open>The invariant\<close>

text \<open>Every notion takes the invariant \<open>I\<close> of the devices behind the bank.\<close>

definition bank_ok :: "('p \<Rightarrow> bool) \<Rightarrow> 'p bank \<Rightarrow> bool" where
  "bank_ok I b \<longleftrightarrow> nco_ok (bank_nco b) \<and> I (bank_rest b)"

text \<open>SRAM also holds the 64 KiB boot image that a watchdog reset copies from flash.\<close>

definition mem_ok :: "('p \<Rightarrow> bool) \<Rightarrow> 'p memory \<Rightarrow> bool" where
  "mem_ok I m \<longleftrightarrow> soc_ok m \<and> 64 * 1024 \<le> length (m_data m) \<and> (\<forall>ic. m_icache m = Some ic \<longrightarrow> icache_ok ic)
     \<and> (\<forall>b. m_bank m = Some b \<longrightarrow> bank_ok I b)"

text \<open>What the devices promise: they do not panic, keep their invariant and leave the oscillator table well formed. Words
  are only accessed at aligned addresses.\<close>

definition devices_ok :: "('p \<Rightarrow> bool) \<Rightarrow> 'p device_ops \<Rightarrow> bool" where
  "devices_ok I D \<longleftrightarrow>
     (\<forall>a. safe (bank_ok I) (dev_read_byte D a)) \<and> (\<forall>a. safe (bank_ok I) (dev_read_half D a))
     \<and> (\<forall>a. a AND 3 = 0 \<longrightarrow> safe (bank_ok I) (dev_read_word D a)) \<and> (\<forall>a v. safe (bank_ok I) (dev_write_byte D a v))
     \<and> (\<forall>a v. safe (bank_ok I) (dev_write_half D a v)) \<and> (\<forall>a v. a AND 3 = 0 \<longrightarrow> safe (bank_ok I) (dev_write_word D a v))
     \<and> (\<forall>b. bank_ok I b \<longrightarrow> bank_ok I (snd (dev_take_datapath D b)))
     \<and> (\<forall>p a d b. bank_ok I b \<longrightarrow> bank_ok I (dev_complete_flash D p a d b))
     \<and> (\<forall>n b. bank_ok I b \<longrightarrow> bank_ok I (dev_tick D n b))
     \<and> (\<forall>b. bank_ok I b \<longrightarrow> bank_ok I (dev_reset_cold D b))
     \<and> (\<forall>b. bank_ok I b \<longrightarrow> bank_ok I (dev_reset_warm D b))
     \<and> (\<forall>a n p. I p \<longrightarrow> I (dev_sysreg_context D a n p))"

lemma zero_devices_ok: "devices_ok (\<lambda>_. True) zero_devices" and zero_bank_ok: "bank_ok (\<lambda>_. True) zero_bank"
  by (simp_all add: devices_ok_def zero_devices_def safe_intro bank_ok_def zero_bank_def nco_ok_new)

lemma devices_okD:
  assumes "devices_ok I D"
  shows "safe (bank_ok I) (dev_read_byte D a)" "safe (bank_ok I) (dev_read_half D a)"
    "a AND 3 = 0 \<Longrightarrow> safe (bank_ok I) (dev_read_word D a)" "safe (bank_ok I) (dev_write_byte D a v)"
    "safe (bank_ok I) (dev_write_half D a h)" "a AND 3 = 0 \<Longrightarrow> safe (bank_ok I) (dev_write_word D a w)"
    "bank_ok I b \<Longrightarrow> bank_ok I (snd (dev_take_datapath D b))"
    "bank_ok I b \<Longrightarrow> bank_ok I (dev_complete_flash D p a d b)"
    "bank_ok I b \<Longrightarrow> bank_ok I (dev_tick D n b)"
    "bank_ok I b \<Longrightarrow> bank_ok I (dev_reset_cold D b)" "bank_ok I b \<Longrightarrow> bank_ok I (dev_reset_warm D b)"
    "I s \<Longrightarrow> I (dev_sysreg_context D pc k s)"
  using assms by (simp_all add: devices_ok_def)

lemma mem_okD: "mem_ok I m \<Longrightarrow> soc_ok m" "mem_ok I m \<Longrightarrow> soc_shape m"
  by (simp_all add: mem_ok_def soc_ok_shape)

text \<open>An operation that answers, and keeps the cache and the bank well formed next to a memory that
  is well formed.\<close>

lemma mem_ok_update:
  "mem_ok I m \<Longrightarrow> soc_ok m' \<Longrightarrow> length (m_data m') = length (m_data m) \<Longrightarrow> m_icache m' = m_icache m
     \<Longrightarrow> m_bank m' = m_bank m \<Longrightarrow> mem_ok I m'"
  by (simp add: mem_ok_def)

lemma store_of_bank [simp]: "store_of (m\<lparr>m_bank := b\<rparr>) = store_of m"
  by (simp add: store_of_def fun_eq_iff)

lemma soc_ok_bank: "soc_ok m \<Longrightarrow> soc_ok (m\<lparr>m_bank := Some b\<rparr>)"
  by (simp add: soc_ok_def soc_shape_def dcache_fits_def)

lemma mem_ok_bank: "mem_ok I m \<Longrightarrow> bank_ok I b \<Longrightarrow> mem_ok I (m\<lparr>m_bank := Some b\<rparr>)"
  by (simp add: mem_ok_def soc_ok_bank)

lemma mem_ok_bank_modify:
  assumes "mem_ok I m" and "\<And>b. bank_ok I b \<Longrightarrow> bank_ok I (f b)"
  shows "mem_ok I (bank_modify f m)"
proof -
  obtain b where b: "m_bank m = Some b" using mem_okD(2) [OF assms(1)] by (auto simp: soc_shape_def)
  then have "bank_ok I b" using assms(1) by (simp add: mem_ok_def)
  then show ?thesis using b mem_ok_bank [OF assms(1)] assms(2) by (simp add: bank_modify_def)
qed

lemma mem_ok_same_store: "mem_ok I m \<Longrightarrow> same_store m m' \<Longrightarrow> m_bank m' = m_bank m \<Longrightarrow> mem_ok I m'"
  by (simp add: mem_ok_def same_store_eqs) (simp add: same_store_def)

lemma bookkeeping_bank:
  "m_bank (check_watch a w md m) = m_bank m" "m_bank (trace_data_read a sz x m) = m_bank m"
  "m_bank (record_misaligned a ea sz is_w m) = m_bank m"
  by (simp_all add: check_watch_def trace_data_read_def record_misaligned_def Let_def split: option.split)

lemma mem_ok_bookkeeping:
  assumes "mem_ok I m"
  shows "mem_ok I (check_watch a w md m)" "mem_ok I (trace_data_read a sz x m)"
    "mem_ok I (record_misaligned a ea sz is_w m)" "mem_ok I (nco_ivt_mirror a y sz m)"
proof -
  show "mem_ok I (check_watch a w md m)"
    by (rule mem_ok_same_store [OF assms same_store_steps(1) bookkeeping_bank(1)])
  show "mem_ok I (trace_data_read a sz x m)"
    by (rule mem_ok_same_store [OF assms same_store_steps(2) bookkeeping_bank(2)])
  show "mem_ok I (record_misaligned a ea sz is_w m)"
    by (rule mem_ok_same_store [OF assms same_store_steps(3) bookkeeping_bank(3)])
  show "mem_ok I (nco_ivt_mirror a y sz m)"
    unfolding nco_ivt_mirror_def
    by (rule mem_ok_bank_modify [OF assms]) (simp add: bank_ok_def nco_ok_ivt_di_store)
qed

lemma mem_ok_prologue: "mem_ok I m \<Longrightarrow> mem_ok I (store_prologue a v w bp m)"
  by (simp add: store_prologue_def Let_def mem_ok_bookkeeping)

lemma mem_ok_effective_addr: "mem_ok I m \<Longrightarrow> data_effective_addr a w is_w m = (b, m') \<Longrightarrow> mem_ok I m'"
  by (auto simp: data_effective_addr_def Let_def mem_ok_bookkeeping split: if_splits)

section \<open>Through the bank\<close>

lemma safe_with_bank [safe_intro]:
  assumes "safe (bank_ok I) f" and "safe (mem_ok I) d"
  shows "safe (mem_ok I) (with_bank d f)"
proof (rule safeI)
  fix m :: "'a memory" assume m: "mem_ok I m"
  obtain b where b: "m_bank m = Some b" using mem_okD(2) [OF m] by (auto simp: soc_shape_def)
  then have "bank_ok I b" using m by (simp add: mem_ok_def)
  from safeD [OF assms(1) this]
  show "fst (with_bank d f m) \<noteq> Inl Panic \<and> mem_ok I (snd (with_bank d f m))"
    using m by (simp add: with_bank_def b split_beta mem_ok_bank)
qed

lemma safe_fold_bindM_list:
  "(\<And>i. safe I (f i)) \<Longrightarrow> safe I acc \<Longrightarrow>
     safe I (fold (\<lambda>i acc. bindM acc (\<lambda>bs. bindM (f i) (\<lambda>b. returnM (bs @ [b])))) xs acc)"
  by (induction xs arbitrary: acc) (simp_all add: safe_intro)

text \<open>An operation defined by cases on the state is safe when it is in every case.\<close>

lemma safe_at: "safe I k \<Longrightarrow> I s \<Longrightarrow> m s = k s \<Longrightarrow> fst (m s) \<noteq> Inl Panic \<and> I (snd (m s))"
  by (simp add: safe_def)

lemma mem_ok_bank_present: "mem_ok I m \<Longrightarrow> m_bank m \<noteq> None"
  using mem_okD(2) bank_present by blast

lemma safe_read_byte_backing:
  assumes "devices_ok I D"
  shows "safe (mem_ok I) (read_byte_backing D a)"
proof (rule safeI)
  fix m :: "'a memory" assume m: "mem_ok I m"
  show "fst (read_byte_backing D a m) \<noteq> Inl Panic \<and> mem_ok I (snd (read_byte_backing D a m))"
    using m safeD [OF safe_with_bank [OF devices_okD(1) [OF assms, of a] safe_returnM] m]
      mem_ok_bank_present [OF m]
    by (simp add: read_byte_backing_def split: option.split)
qed

section \<open>Writes that drain the datapath\<close>

lemma mem_ok_dcache_drop:
  assumes "mem_ok I m"
  shows "mem_ok I (dcache_modify (\<lambda>dc. snd (invalidate_line a dc)) m)"
proof -
  obtain dc where dc: "m_dcache m = Some dc" and fits: "dcache_fits m dc" and shape: "soc_shape m"
    using mem_okD(1) [OF assms] by (rule soc_okE)
  have dok: "dcache_ok dc" and cl: "clean_lines dc (store_of m)" using fits by (auto simp: dcache_fits_def)
  let ?dc = "snd (invalidate_line a dc)"
  have "dcache_ok ?dc \<and> clean_lines ?dc (store_of m)"
  proof (cases "way_of dc a")
    case None
    then show ?thesis using dok cl by (simp add: invalidate_line_cases)
  next
    case (Some w)
    then show ?thesis
      using drop_line(1) [OF dok Some] drop_line_clean [OF dok Some cl] by (simp add: invalidate_line_cases)
  qed
  moreover have "\<forall>b. way_of ?dc b \<noteq> None \<longrightarrow> unat b < length (m_data m)"
    using invalidate_line_drops [OF dok] fits by (simp add: dcache_fits_def)
  ultimately have "soc_ok (dcache_modify (\<lambda>dc. snd (invalidate_line a dc)) m)"
    using shape by (simp add: dcache_modify_def dc soc_ok_def dcache_fits_def)
  then show ?thesis
    by (rule mem_ok_update [OF assms]) (simp_all add: dcache_modify_def)
qed

lemma icache_ok_invalidate_line: "icache_ok ic \<Longrightarrow> icache_ok (ic_invalidate_line a ic)"
  by (auto simp: icache_ok_def ic_invalidate_line_def ic_empty_line_def split: prod.split
      dest!: set_update_subset_insert [THEN subsetD])

lemma icache_ok_fold: "icache_ok ic \<Longrightarrow> icache_ok (fold ic_invalidate_line ls ic)"
  by (induction ls arbitrary: ic) (simp_all add: icache_ok_invalidate_line)

lemma mem_ok_apply_datapath:
  assumes D: "devices_ok I D" and m: "mem_ok I m"
  shows "mem_ok I (apply_datapath_op D op m)"
proof (cases op)
  case (SramWrite a d)
  show ?thesis
  proof (cases "unat a + length d \<le> length (m_data m)")
    case True
    have "\<forall>ic. m_icache (apply_datapath_op D (SramWrite a d) m) = Some ic \<longrightarrow> icache_ok ic"
      using m True by (auto simp: icache_modify_def dcache_modify_def mem_ok_def icache_ok_fold)
    moreover have "length (m_data (apply_datapath_op D (SramWrite a d) m)) = length (m_data m)"
      using True by (simp add: icache_modify_def dcache_modify_def)
    moreover note dma_write_ok(1,4) [OF mem_okD(1) [OF m] True, of D]
    ultimately show ?thesis
      using m unfolding SramWrite mem_ok_def by simp
  next
    case False
    then show ?thesis using SramWrite m by simp
  qed
next
  case (CacheInvalidate a)
  then show ?thesis using mem_ok_dcache_drop [OF m] by simp
next
  case (FlashWrite p a b n)
  then show ?thesis using m devices_okD(8) [OF D] by (simp add: Let_def mem_ok_bank_modify)
qed

lemma mem_ok_drain:
  assumes D: "devices_ok I D" and m: "mem_ok I m"
  shows "mem_ok I (drain_datapath D m)"
proof -
  obtain b where b: "m_bank m = Some b" using mem_ok_bank_present [OF m] by auto
  then have bok: "bank_ok I b" using m by (simp add: mem_ok_def)
  obtain ops b' where t: "dev_take_datapath D b = (ops, b')" by (cases "dev_take_datapath D b")
  then have "mem_ok I (m\<lparr>m_bank := Some b'\<rparr>)"
    using mem_ok_bank [OF m] devices_okD(7) [OF D bok] by simp
  then have "mem_ok I (fold (apply_datapath_op D) ops (m\<lparr>m_bank := Some b'\<rparr>))"
    by (induction ops arbitrary: m b' rule: rev_induct) (simp_all add: mem_ok_apply_datapath [OF D])
  then show ?thesis by (simp add: drain_datapath_def b t)
qed

lemma safe_bank_write:
  "devices_ok I D \<Longrightarrow> safe (bank_ok I) f \<Longrightarrow> safe (mem_ok I) (bank_write D f)"
  unfolding bank_write_def by (intro safe_intro mem_ok_drain)

section \<open>Stores\<close>

lemma unat_next:
  assumes "soc_shape m" and "unat a + k < length (m_data m)"
  shows "unat (a + of_nat k) = unat a + k" and "in_sram m (a + of_nat k)"
proof -
  have "unat a + k < 2 ^ 32" using assms by (simp add: soc_shape_def)
  then show u: "unat (a + of_nat k) = unat a + k" by (rule unat_plus_small)
  show "in_sram m (a + of_nat k)" using assms(2) by (simp add: in_sram_def u)
qed

lemma store_of_put_half:
  assumes "soc_shape m" and "unat a + 1 < length (m_data m)"
  shows "store_of (m\<lparr>m_data := put_half (unat a) v (m_data m)\<rparr>) = stored (half_stores a v) (store_of m)"
proof -
  have "in_sram m a" using assms(2) by (simp add: in_sram_def)
  moreover have 1: "unat (a + 1) = unat a + 1" "in_sram m (a + 1)" using unat_next [OF assms] by simp_all
  ultimately show ?thesis
    unfolding put_half_def half_stores_def stored_simps 1(1) [symmetric]
    by (simp only: store_of_updates store_of_list_update length_list_update 1(2) store_of_same_data)
qed

lemma store_of_put_word_at:
  assumes shape: "soc_shape m" and fits: "unat a + 3 < length (m_data m)"
  shows "store_of (m\<lparr>m_data := put_word (unat a) v (m_data m)\<rparr>) = stored (word_stores a v) (store_of m)"
proof -
  have a: "in_sram m a" using fits by (simp add: in_sram_def)
  have k: "unat (a + 1) = unat a + 1" "in_sram m (a + 1)" "unat (a + 2) = unat a + 2" "in_sram m (a + 2)"
    "unat (a + 3) = unat a + 3" "in_sram m (a + 3)"
    using unat_next [OF shape, of a 1] unat_next [OF shape, of a 2] unat_next [OF shape, of a 3] fits by simp_all
  show ?thesis
    unfolding put_word_def word_stores_def stored_simps k(1,3,5) [symmetric]
    by (simp only: store_of_updates store_of_list_update length_list_update a k(2,4,6) store_of_same_data)
qed

lemma mem_ok_write_through:
  assumes m: "mem_ok I m" and "length d = length (m_data m)"
    and "store_of (m\<lparr>m_data := d\<rparr>) = stored ws (store_of m)"
  shows "mem_ok I (dcache_modify (dc_store ws) (m\<lparr>m_data := d\<rparr>))"
  using write_through(1) [OF mem_okD(1) [OF m] assms(2,3)] assms(2)
  by (intro mem_ok_update [OF m]) (simp_all add: dcache_modify_def)

lemma safe_write_byte:
  assumes D: "devices_ok I D"
  shows "safe (mem_ok I) (write_byte D a v)"
proof (rule safeI)
  fix m :: "'a memory" assume m0: "mem_ok I m"
  define m1 where "m1 = check_watch a 1 WatchWrite m"
  have m: "mem_ok I m1" unfolding m1_def by (rule mem_ok_bookkeeping [OF m0])
  note shape = mem_okD(2) [OF m]
  show "fst (write_byte D a v m) \<noteq> Inl Panic \<and> mem_ok I (snd (write_byte D a v m))"
    using mem_ok_bank_present [OF m] safeD [OF safe_bank_write [OF D devices_okD(4) [OF D, of a v]] m]
      mem_ok_write_through [OF m, of "(m_data m1)[unat a := v]" "[(a, v)]"] store_of_list_update [of m1 a v]
    by (simp add: write_byte_def m1_def [symmetric] sram_offset_eq [OF shape])
qed

lemma safe_write_half:
  assumes D: "devices_ok I D"
  shows "safe (mem_ok I) (write_half D a v)"
proof (rule safeI)
  fix m :: "'a memory" assume m0: "mem_ok I m"
  define m1 where "m1 = check_watch a 2 WatchWrite m"
  have m: "mem_ok I m1" unfolding m1_def by (rule mem_ok_bookkeeping [OF m0])
  note shape = mem_okD(2) [OF m]
  show "fst (write_half D a v m) \<noteq> Inl Panic \<and> mem_ok I (snd (write_half D a v m))"
    using mem_ok_bank_present [OF m] m safeD [OF safe_bank_write [OF D devices_okD(5) [OF D, of a v]] m]
      mem_ok_write_through [OF m _ store_of_put_half [OF shape, of a v]]
    by (auto simp: write_half_def Let_def m1_def [symmetric] sram_offset_eq [OF shape] put_half_def split: option.split)
qed

lemma safe_write_word:
  assumes D: "devices_ok I D"
  shows "safe (mem_ok I) (write_word D a v)"
proof (rule safeI)
  fix m :: "'a memory" assume m0: "mem_ok I m"
  define m1 where "m1 = check_watch a 4 WatchWrite m"
  have m: "mem_ok I m1" unfolding m1_def by (rule mem_ok_bookkeeping [OF m0])
  note shape = mem_okD(2) [OF m]
  have dev: "fst (bank_write D (dev_write_word D a v) m1) \<noteq> Inl Panic \<and> mem_ok I (snd (bank_write D (dev_write_word D a v) m1))"
    if "a AND 3 = 0"
    using safeD [OF safe_bank_write [OF D devices_okD(6) [OF D that]] m] .
  show "fst (write_word D a v m) \<noteq> Inl Panic \<and> mem_ok I (snd (write_word D a v m))"
    using mem_ok_bank_present [OF m] m dev
      mem_ok_write_through [OF m _ store_of_put_word_at [OF shape, of a v]]
    by (auto simp: write_word_def Let_def m1_def [symmetric] sram_offset_eq [OF shape] put_word_def split: option.split)
qed

section \<open>The data port\<close>

lemma safe_cached:
  assumes m: "mem_ok I m" and a: "in_sram m a"
    and k: "\<And>m1 dc. mem_ok I m1 \<Longrightarrow> m_dcache m1 = Some dc \<Longrightarrow>
        (\<And>b. line_of b = line_of a \<Longrightarrow> way_of dc b \<noteq> None) \<Longrightarrow> fst (k m1) \<noteq> Inl Panic \<and> mem_ok I (snd (k m1))"
  shows "fst (thenM (ensure_cache_line D a) k m) \<noteq> Inl Panic \<and> mem_ok I (snd (thenM (ensure_cache_line D a) k m))"
proof -
  obtain m1 dc where 1: "ensure_cache_line D a m = (Inr (), m1)" "refilled m m1" "soc_ok m1"
    "m_dcache m1 = Some dc" "way_of dc a \<noteq> None"
    by (rule ensure_cache_line_ok [OF mem_okD(1) [OF m] a])
  have "mem_ok I m1" using 1(2) by (intro mem_ok_update [OF m 1(3)]) (auto simp: refilled_def)
  moreover have "way_of dc b \<noteq> None" if "line_of b = line_of a" for b
    using way_of_same_line [OF that] 1(5) by simp
  ultimately show ?thesis using k [OF _ 1(4)] 1(1) by (simp add: thenM_def bindM_def)
qed

lemma cached_byte_at:
  "mem_ok I m \<Longrightarrow> m_dcache m = Some dc \<Longrightarrow> way_of dc b \<noteq> None \<Longrightarrow> cached_byte b m = (Inr (mem_view m b), m)"
  by (rule cached_byte_ok [OF mem_okD(1)])

lemma cached_store_at:
  assumes m: "mem_ok I m" and dc: "m_dcache m = Some dc" and ws: "\<And>b v. (b, v) \<in> set ws \<Longrightarrow> way_of dc b \<noteq> None"
  shows "fst (cached_store ws m) \<noteq> Inl Panic \<and> mem_ok I (snd (cached_store ws m))"
proof -
  obtain m' where 1: "cached_store ws m = (Inr (), m')" "soc_ok m'"
    by (rule cached_store_ok [OF mem_okD(1) [OF m] dc ws])
  have "mem_ok I m'" using 1(1) dc by (intro mem_ok_update [OF m 1(2)]) (auto simp: cached_store_def)
  then show ?thesis using 1 by simp
qed

lemma safe_traced: "safe (mem_ok I) f \<Longrightarrow> safe (mem_ok I) (traced a w val f)"
  unfolding traced_def by (intro safe_intro mem_ok_bookkeeping(2))

lemma cached_side:
  assumes "mem_ok I m" and "\<not> uncached m a bp"
  shows "in_sram m a"
  using assms uncached_iff [OF mem_okD(2) [OF assms(1)], of a bp] by simp

lemma safe_read_byte_inner:
  assumes D: "devices_ok I D"
  shows "safe (mem_ok I) (read_byte_data_inner D a bp)"
proof (rule safeI)
  fix m :: "'a memory" assume m: "mem_ok I m"
  show "fst (read_byte_data_inner D a bp m) \<noteq> Inl Panic \<and> mem_ok I (snd (read_byte_data_inner D a bp m))"
  proof (cases "uncached m a bp")
    case True
    then show ?thesis using safeD [OF safe_read_byte_backing [OF D] m] by (simp add: read_byte_data_inner_def)
  next
    case False
    have "fst (thenM (ensure_cache_line D a) (cached_byte a) m) \<noteq> Inl Panic
      \<and> mem_ok I (snd (thenM (ensure_cache_line D a) (cached_byte a) m))"
      by (rule safe_cached [OF m cached_side [OF m False]]) (simp add: cached_byte_at)
    then show ?thesis using False by (simp add: read_byte_data_inner_def)
  qed
qed

text \<open>Halfword and word accesses: the address has been aligned, so the bytes share one line.\<close>

lemma effective_addrE:
  assumes "mem_ok I m"
  obtains m' where "data_effective_addr a w is_w m = (align_down w a, m')" and "mem_ok I m'"
  using mem_ok_effective_addr [OF assms] data_effective_addr_eq by metis

lemmas safe_bytes = safe_bindM [OF safe_read_byte_backing]

lemma safe_read_half_inner:
  assumes D: "devices_ok I D" and m: "mem_ok I m"
  shows "fst (read_half_data_inner D (align_down 2 a) bp m) \<noteq> Inl Panic
    \<and> mem_ok I (snd (read_half_data_inner D (align_down 2 a) bp m))"
proof (cases "uncached m (align_down 2 a) bp")
  case True
  have "safe (mem_ok I) (bindM (read_byte_backing D (align_down 2 a)) (\<lambda>b0.
          bindM (read_byte_backing D (align_down 2 a + 1)) (\<lambda>b1. returnM (be_half b0 b1))))"
    by (intro safe_bytes [OF D] safe_intro)
  from safeD [OF this m] safeD [OF safe_with_bank [OF devices_okD(2) [OF D, of "align_down 2 a"] safe_returnM] m]
  show ?thesis using True by (simp add: read_half_data_inner_def)
next
  case False
  let ?k = "bindM (cached_byte (align_down 2 a)) (\<lambda>hi. bindM (cached_byte (align_down 2 a + 1)) (\<lambda>lo. returnM (be_half hi lo)))"
  have "fst (thenM (ensure_cache_line D (align_down 2 a)) ?k m) \<noteq> Inl Panic
      \<and> mem_ok I (snd (thenM (ensure_cache_line D (align_down 2 a)) ?k m))"
    by (rule safe_cached [OF m cached_side [OF m False]])
      (simp add: bindM_def returnM_def cached_byte_at)
  then show ?thesis using False by (simp add: read_half_data_inner_def)
qed

lemma safe_read_word_inner:
  assumes D: "devices_ok I D" and m: "mem_ok I m"
  shows "fst (read_word_data_inner D (align_down 4 a) bp m) \<noteq> Inl Panic
    \<and> mem_ok I (snd (read_word_data_inner D (align_down 4 a) bp m))"
proof (cases "uncached m (align_down 4 a) bp")
  case True
  let ?a = "align_down 4 a"
  have "safe (mem_ok I) (bindM (read_byte_backing D ?a) (\<lambda>b0. bindM (read_byte_backing D (?a + 1)) (\<lambda>b1.
          bindM (read_byte_backing D (?a + 2)) (\<lambda>b2. bindM (read_byte_backing D (?a + 3)) (\<lambda>b3.
            returnM (be_word b0 b1 b2 b3))))))"
    by (intro safe_bytes [OF D] safe_intro)
  from safeD [OF this m] safeD [OF safe_with_bank [OF devices_okD(3) [OF D aligned_and_3 [of a]] safe_returnM] m]
  show ?thesis using True by (simp add: read_word_data_inner_def)
next
  case False
  let ?a = "align_down 4 a"
  let ?k = "bindM (cached_byte ?a) (\<lambda>b0. bindM (cached_byte (?a + 1)) (\<lambda>b1.
          bindM (cached_byte (?a + 2)) (\<lambda>b2. bindM (cached_byte (?a + 3)) (\<lambda>b3.
            returnM (be_word b0 b1 b2 b3)))))"
  have "fst (thenM (ensure_cache_line D ?a) ?k m) \<noteq> Inl Panic
      \<and> mem_ok I (snd (thenM (ensure_cache_line D ?a) ?k m))"
    by (rule safe_cached [OF m cached_side [OF m False]])
      (simp add: bindM_def returnM_def cached_byte_at)
  then show ?thesis using False by (simp add: read_word_data_inner_def)
qed

lemma safe_traced_at:
  assumes "fst (f m) \<noteq> Inl Panic \<and> mem_ok I (snd (f m))"
  shows "fst (traced a w val f m) \<noteq> Inl Panic \<and> mem_ok I (snd (traced a w val f m))"
  using assms mem_ok_bookkeeping(2)
  by (auto simp: traced_def bindM_def modifyM_def returnM_def split: prod.split sum.split)

lemma safe_read_byte_data [safe_intro]: "devices_ok I D \<Longrightarrow> safe (mem_ok I) (read_byte_data D a bp)"
  unfolding read_byte_data_def by (intro safe_traced safe_read_byte_inner)

lemma safe_read_half_data [safe_intro]:
  assumes "devices_ok I D"
  shows "safe (mem_ok I) (read_half_data D a bp)"
proof (rule safeI)
  fix m :: "'a memory" assume m: "mem_ok I m"
  obtain m' where "data_effective_addr a 2 False m = (align_down 2 a, m')" "mem_ok I m'"
    by (rule effective_addrE [OF m])
  then show "fst (read_half_data D a bp m) \<noteq> Inl Panic \<and> mem_ok I (snd (read_half_data D a bp m))"
    using safe_traced_at [where f = "read_half_data_inner D (align_down 2 a) bp" and m = m' and I = I] safe_read_half_inner [OF assms, of m' a bp] by (simp add: read_half_data_def)
qed

lemma safe_read_word_data [safe_intro]:
  assumes "devices_ok I D"
  shows "safe (mem_ok I) (read_word_data D a bp)"
proof (rule safeI)
  fix m :: "'a memory" assume m: "mem_ok I m"
  obtain m' where "data_effective_addr a 4 False m = (align_down 4 a, m')" "mem_ok I m'"
    by (rule effective_addrE [OF m])
  then show "fst (read_word_data D a bp m) \<noteq> Inl Panic \<and> mem_ok I (snd (read_word_data D a bp m))"
    using safe_traced_at [where f = "read_word_data_inner D (align_down 4 a) bp" and m = m' and I = I] safe_read_word_inner [OF assms, of m' a bp] by (simp add: read_word_data_def)
qed

text \<open>Stores: the prologue, then the uncached write or the write into the line.\<close>

lemma safe_store_cached:
  assumes m: "mem_ok I m" and u: "\<not> uncached m a bp"
    and ws: "\<And>b v. (b, v) \<in> set ws \<Longrightarrow> line_of b = line_of a"
  shows "fst (thenM (ensure_cache_line D a) (cached_store ws) m) \<noteq> Inl Panic
    \<and> mem_ok I (snd (thenM (ensure_cache_line D a) (cached_store ws) m))"
proof (rule safe_cached [OF m cached_side [OF m u]])
  fix m1 dc
  assume "mem_ok I m1" "m_dcache m1 = Some dc" and "\<And>b. line_of b = line_of a \<Longrightarrow> way_of dc b \<noteq> None"
  then show "fst (cached_store ws m1) \<noteq> Inl Panic \<and> mem_ok I (snd (cached_store ws m1))"
    using ws by (intro cached_store_at) blast+
qed

lemma same_line_stores:
  "(b, x) \<in> set (half_stores (align_down 2 a) v) \<Longrightarrow> line_of b = line_of (align_down 2 a)"
  "(b, x) \<in> set (word_stores (align_down 4 a) w) \<Longrightarrow> line_of b = line_of (align_down 4 a)"
  by (auto simp: half_stores_def word_stores_def)

lemma safe_write_byte_data [safe_intro]:
  assumes D: "devices_ok I D"
  shows "safe (mem_ok I) (write_byte_data D a v bp)"
proof (rule safeI)
  fix m :: "'a memory" assume m: "mem_ok I m"
  let ?m = "store_prologue a (ucast v) 1 bp m"
  note p = mem_ok_prologue [OF m, of a "ucast v" 1 bp]
  show "fst (write_byte_data D a v bp m) \<noteq> Inl Panic \<and> mem_ok I (snd (write_byte_data D a v bp m))"
    using safeD [OF safe_write_byte [OF D, of a v] p] safe_store_cached [OF p, of a bp "[(a, v)]" D]
    by (simp add: write_byte_data_def Let_def)
qed

lemma safe_write_half_data [safe_intro]:
  assumes D: "devices_ok I D"
  shows "safe (mem_ok I) (write_half_data D a v bp)"
proof (rule safeI)
  fix m :: "'a memory" assume m: "mem_ok I m"
  obtain m' where 1: "data_effective_addr a 2 True m = (align_down 2 a, m')" and m': "mem_ok I m'"
    by (rule effective_addrE [OF m])
  note p = mem_ok_prologue [OF m', of "align_down 2 a" "ucast v" 2 bp]
  show "fst (write_half_data D a v bp m) \<noteq> Inl Panic \<and> mem_ok I (snd (write_half_data D a v bp m))"
    using safeD [OF safe_write_half [OF D, of "align_down 2 a" v] p]
      safe_store_cached [OF p _ same_line_stores(1)]
    by (simp add: write_half_data_def 1 Let_def)
qed

lemma safe_write_word_data [safe_intro]:
  assumes D: "devices_ok I D"
  shows "safe (mem_ok I) (write_word_data D a v bp)"
proof (rule safeI)
  fix m :: "'a memory" assume m: "mem_ok I m"
  obtain m' where 1: "data_effective_addr a 4 True m = (align_down 4 a, m')" and m': "mem_ok I m'"
    by (rule effective_addrE [OF m])
  note p = mem_ok_prologue [OF m', of "align_down 4 a" v 4 bp]
  show "fst (write_word_data D a v bp m) \<noteq> Inl Panic \<and> mem_ok I (snd (write_word_data D a v bp m))"
    using safeD [OF safe_write_word [OF D, of "align_down 4 a" v] p]
      safe_store_cached [OF p _ same_line_stores(2)]
    by (simp add: write_word_data_def 1 Let_def)
qed

text \<open>EX reads and writes through the observers, without alignment.\<close>

lemma safe_read_word [safe_intro]:
  assumes D: "devices_ok I D"
  shows "safe (mem_ok I) (read_word D a)"
proof (rule safeI)
  fix m :: "'a memory" assume m0: "mem_ok I m"
  define m1 where "m1 = check_watch a 4 WatchRead m"
  have m: "mem_ok I m1" unfolding m1_def by (rule mem_ok_bookkeeping [OF m0])
  have dev: "fst (with_bank (returnM 0) (dev_read_word D a) m1) \<noteq> Inl Panic
      \<and> mem_ok I (snd (with_bank (returnM 0) (dev_read_word D a) m1))" if "a AND 3 = 0"
    using safeD [OF safe_with_bank [OF devices_okD(3) [OF D that] safe_returnM] m] .
  show "fst (read_word D a m) \<noteq> Inl Panic \<and> mem_ok I (snd (read_word D a m))"
    using mem_ok_bank_present [OF m] m dev
    by (auto simp: read_word_def Let_def m1_def [symmetric] split: option.split)
qed

lemmas safe_write_word' [safe_intro] = safe_write_word

section \<open>Cache control\<close>

lemma dc_ctrl_simps [simp]:
  "dcache_fits m (write_dc_ctrl v dc) = dcache_fits m dc" "dcache_fits m (set_ram_addr a dc) = dcache_fits m dc"
  by (simp_all add: dcache_fits_def dcache_ok_def clean_lines_def way_of_def find_way_def dc_line_def
      write_dc_ctrl_def set_ram_addr_def Let_def)

lemma mem_ok_dcache_modify:
  assumes m: "mem_ok I m" and f: "\<And>dc. dcache_fits m dc \<Longrightarrow> dcache_fits m (f dc)"
  shows "mem_ok I (dcache_modify f m)"
proof -
  obtain dc where dc: "m_dcache m = Some dc" and fits: "dcache_fits m dc" and shape: "soc_shape m"
    using mem_okD(1) [OF m] by (rule soc_okE)
  have "dcache_fits (m\<lparr>m_dcache := Some (f dc)\<rparr>) (f dc)" using f [OF fits] by (simp add: dcache_fits_def)
  then have "soc_ok (dcache_modify f m)" using shape by (simp add: dcache_modify_def dc soc_ok_def)
  then show ?thesis by (rule mem_ok_update [OF m]) (simp_all add: dcache_modify_def)
qed

lemma mem_ok_cache_control:
  assumes "mem_ok I m"
  shows "mem_ok I (dcache_sync_ctrl v m)" "mem_ok I (dcache_set_ram_addr a m)" "mem_ok I (icache_invalidate_all m)"
proof -
  show "mem_ok I (dcache_sync_ctrl v m)" "mem_ok I (dcache_set_ram_addr a m)"
    unfolding dcache_sync_ctrl_def dcache_set_ram_addr_def by (rule mem_ok_dcache_modify [OF assms], simp)+
  have "soc_ok (icache_invalidate_all m)"
    using mem_okD(1) [OF assms]
    by (simp add: icache_invalidate_all_def icache_modify_def soc_ok_def dcache_fits_def)
  then show "mem_ok I (icache_invalidate_all m)"
    using assms by (auto simp: mem_ok_def icache_invalidate_all_def icache_modify_def icache_ok_invalidate)
qed

text \<open>Writing a list of dirty lines back to SRAM.\<close>

lemma thenM_Inr: "m s = (Inr a, t) \<Longrightarrow> thenM m k s = k t"
  by (simp add: thenM_def bindM_Inr)

lemma writeback_all:
  assumes shape: "soc_shape m"
    and evs: "\<And>ev. ev \<in> set evs \<Longrightarrow> length (ev_data ev) = 32 \<and> (\<exists>b. in_sram m b \<and> ev_addr ev = line_of b)"
  shows "\<exists>d. fold (\<lambda>ev acc. thenM acc (writeback_line D (ev_addr ev) (ev_data ev))) evs (returnM ()) m
      = (Inr (), m\<lparr>m_data := d\<rparr>) \<and> length d = length (m_data m)
    \<and> store_of (m\<lparr>m_data := d\<rparr>) = write_back_all evs (store_of m)"
  using evs
proof (induction evs rule: rev_induct)
  case Nil
  then show ?case by (intro exI [of _ "m_data m"]) (simp add: returnM_def write_back_all_def)
next
  case (snoc ev evs)
  then obtain d where d: "fold (\<lambda>ev acc. thenM acc (writeback_line D (ev_addr ev) (ev_data ev))) evs (returnM ()) m
      = (Inr (), m\<lparr>m_data := d\<rparr>)" "length d = length (m_data m)"
    "store_of (m\<lparr>m_data := d\<rparr>) = write_back_all evs (store_of m)" by auto
  let ?m = "m\<lparr>m_data := d\<rparr>"
  obtain b where b: "length (ev_data ev) = 32" "in_sram m b" "ev_addr ev = line_of b"
    using snoc.prems [of ev] by auto
  have shape': "soc_shape ?m" and b': "in_sram ?m b"
    using shape b(2) d(2) by (simp_all add: soc_shape_def in_sram_def)
  have ev: "ev = \<lparr>ev_addr = line_of b, ev_data = ev_data ev\<rparr>" using b(3) by simp
  note wb = writeback_line_sram [OF shape' b' b(1), of D] store_of_splice_line [OF shape' b' b(1)]
  let ?d = "splice (unat (line_of b)) (ev_data ev) d"
  have "length ?d = length (m_data m)" using line_fits [OF shape' b'] b(1) d(2) by simp
  moreover have "store_of (m\<lparr>m_data := ?d\<rparr>) = write_back_all (evs @ [ev]) (store_of m)"
    using wb(2) d(3) ev by (simp add: write_back_all_def)
  ultimately show ?case
    using d(1) wb(1) b(3) by (intro exI [of _ ?d]) (simp add: thenM_Inr)
qed

text \<open>The dirty bytes over a store: what invalidating with IM set leaves in SRAM.\<close>

definition flushed :: "dcache \<Rightarrow> (u32 \<Rightarrow> u8) \<Rightarrow> u32 \<Rightarrow> u8" where
  "flushed dc f b = (if dc_im dc \<and> dirty_at dc b then backing_view dc f b else f b)"

lemma invalidate_all_flushed:
  assumes ok: "dcache_ok dc" and inv: "invalidate_all dc = (evs, dc')"
  shows "write_back_all evs f = flushed dc f" and "way_of dc' b = None" and "dcache_ok dc'"
    and "dc_enabled dc' = dc_enabled dc"
proof -
  let ?ps = "concat (map (\<lambda>s. map (\<lambda>w. (s, w)) [0..<2]) [0..<64])"
  have ps: "(s, w) \<in> set ?ps \<longleftrightarrow> s < 64 \<and> w < 2" for s w by (auto intro!: bexI [of _ s])
  have evs: "evs = concat (map (\<lambda>(s, w). evict_if_dirty (dc_im dc) s (dc_line dc s w)) ?ps)"
    using inv by (auto simp: invalidate_all_def Let_def map_concat concat_concat comp_def)
  show "write_back_all evs f = flushed dc f"
  proof
    fix b
    show "write_back_all evs f b = flushed dc f b"
    proof (cases "dc_im dc")
      case True
      have "write_back_all evs f b = (case way_of dc b of None \<Rightarrow> f b
         | Some w \<Rightarrow> if line_dirty (dc_line dc (set_of b) w)
                     then line_data (dc_line dc (set_of b) w) ! off_of b else f b)"
        unfolding write_back_all_def evs eqTrueI [OF True]
        by (subst write_back_slots [OF ok]) (use ps in \<open>auto split: option.split dest: way_of_less\<close>)
      then show ?thesis
        using True by (auto simp: flushed_def dirty_at_def backing_view_way split: option.split)
    next
      case False
      then have "evs = []" unfolding evs by (simp add: evict_if_dirty_def split_beta)
      then show ?thesis using False by (simp add: write_back_all_def flushed_def)
    qed
  qed
  have dc': "dc_lines dc' = replicate 64 (replicate 2 empty_line)" "dc_next_way dc' = replicate 64 0"
    "dc_enabled dc' = dc_enabled dc"
    using inv by (auto simp: invalidate_all_def Let_def)
  show "way_of dc' b = None" for b
    by (simp add: way_of_def find_way_def dc_line_def dc' set_of_less)
  show "dcache_ok dc'"
    by (simp add: dcache_ok_def dc' set_ok_def line_ok_def empty_line_def)
  show "dc_enabled dc' = dc_enabled dc" by (rule dc')
qed

text \<open>A memory whose cache need not agree with SRAM: what is left of the invariant when SRAM is
  overwritten behind the cache.\<close>

definition soc_weak :: "'p memory \<Rightarrow> bool" where
  "soc_weak m \<longleftrightarrow> soc_shape m
     \<and> (\<exists>dc. m_dcache m = Some dc \<and> dcache_ok dc \<and> (\<forall>a. way_of dc a \<noteq> None \<longrightarrow> in_sram m a))"

lemma soc_ok_weak: "soc_ok m \<Longrightarrow> soc_weak m"
  by (auto simp: soc_ok_def soc_weak_def dcache_fits_def in_sram_def)

lemma dcache_invalidate_all_ok:
  assumes "soc_weak m" and dc: "m_dcache m = Some dc"
  shows "\<exists>m'. dcache_invalidate_all D m = (Inr (), m') \<and> soc_ok m'
    \<and> store_of m' = flushed dc (store_of m) \<and> mem_view m' = store_of m' \<and> in_sram m' = in_sram m
    \<and> m_icache m' = m_icache m \<and> m_bank m' = m_bank m \<and> length (m_data m') = length (m_data m)
    \<and> dcache_enabled m' = dcache_enabled m \<and> (\<forall>b. \<not> dirty_in m' b)"
proof -
  have shape: "soc_shape m" and ok: "dcache_ok dc" and inside: "\<And>a. way_of dc a \<noteq> None \<Longrightarrow> in_sram m a"
    using assms by (auto simp: soc_weak_def)
  obtain evs dc' where inv: "invalidate_all dc = (evs, dc')" by (cases "invalidate_all dc")
  note fl = invalidate_all_flushed [OF ok inv]
  let ?m = "m\<lparr>m_dcache := Some dc'\<rparr>"
  have "length (ev_data ev) = 32 \<and> (\<exists>b. in_sram ?m b \<and> ev_addr ev = line_of b)" if "ev \<in> set evs" for ev
    using invalidate_all_evicted [OF ok inv that] inside by (auto simp: evicted_from_def)
  then obtain d where d: "fold (\<lambda>ev acc. thenM acc (writeback_line D (ev_addr ev) (ev_data ev))) evs (returnM ()) ?m
      = (Inr (), ?m\<lparr>m_data := d\<rparr>)" "length d = length (m_data ?m)"
    "store_of (?m\<lparr>m_data := d\<rparr>) = write_back_all evs (store_of ?m)"
    using writeback_all [of ?m evs D] shape by auto
  let ?n = "?m\<lparr>m_data := d\<rparr>"
  have st: "store_of ?n = flushed dc (store_of m)" using d(3) fl(1) by simp
  have "clean_lines dc' f" for f using fl(2) by (simp add: clean_lines_def)
  moreover have "soc_shape ?n" using shape d(2) by (simp add: soc_shape_def)
  ultimately have "soc_ok ?n" using fl(2,3) by (simp add: soc_ok_def dcache_fits_def)
  moreover have "mem_view ?n = store_of ?n"
    using fl(2) by (simp add: mem_view_def backing_view_way fun_eq_iff)
  moreover have "in_sram ?n = in_sram m" using d(2) by (intro ext) (simp add: in_sram_def)
  ultimately show ?thesis
    using d(1,2) st fl(2,4)
    by (intro exI [of _ ?n]) (simp add: dcache_invalidate_all_def dc inv dcache_enabled_def dirty_in_def dirty_at_def)
qed

lemma safe_dcache_invalidate_all [safe_intro]: "safe (mem_ok I) (dcache_invalidate_all D)"
proof (rule safeI)
  fix m :: "'a memory" assume m: "mem_ok I m"
  obtain dc where dc: "m_dcache m = Some dc" using mem_okD(1) [OF m] by (rule soc_okE)
  obtain m' where 1: "dcache_invalidate_all D m = (Inr (), m')" "soc_ok m'" "length (m_data m') = length (m_data m)"
    "m_icache m' = m_icache m" "m_bank m' = m_bank m"
    using dcache_invalidate_all_ok [OF soc_ok_weak [OF mem_okD(1) [OF m]] dc] by blast
  then show "fst (dcache_invalidate_all D m) \<noteq> Inl Panic \<and> mem_ok I (snd (dcache_invalidate_all D m))"
    using mem_ok_update [OF m 1(2-5)] by simp
qed

lemma safe_dcache_invalidate_line [safe_intro]: "safe (mem_ok I) (dcache_invalidate_line D a)"
proof (rule safeI)
  fix m :: "'a memory" assume m: "mem_ok I m"
  obtain dc where dc: "m_dcache m = Some dc" and fits: "dcache_fits m dc" and shape: "soc_shape m"
    using mem_okD(1) [OF m] by (rule soc_okE)
  have dok: "dcache_ok dc" and cl: "clean_lines dc (store_of m)"
    and inside: "\<And>b. way_of dc b \<noteq> None \<Longrightarrow> in_sram m b"
    using fits by (auto simp: dcache_fits_def in_sram_def)
  obtain ev dc' where inv: "invalidate_line a dc = (ev, dc')" by (cases "invalidate_line a dc")
  let ?m = "m\<lparr>m_dcache := Some dc'\<rparr>"
  have m1: "mem_ok I ?m" if "ev = None"
    using mem_ok_dcache_drop [OF m, of a] by (simp add: dcache_modify_def dc inv)
  show "fst (dcache_invalidate_line D a m) \<noteq> Inl Panic \<and> mem_ok I (snd (dcache_invalidate_line D a m))"
  proof (cases ev)
    case None
    then show ?thesis using m1 by (simp add: dcache_invalidate_line_def dc inv)
  next
    case (Some e)
    have ways: "way_of dc b \<noteq> None" if "way_of dc' b \<noteq> None" for b
      using invalidate_line_drops [OF dok, of a b] that inv by simp
    have im: "dc_im dc"
      using inv Some by (cases "way_of dc a") (auto simp: invalidate_line_cases split: if_splits)
    note view = invalidate_line_view [OF dok cl im inv]
    have shape1: "soc_shape ?m" using shape by simp
    obtain d where wb: "writeback_line D (ev_addr e) (ev_data e) ?m = (Inr (), ?m\<lparr>m_data := d\<rparr>)"
      and dlen: "length d = length (m_data ?m)"
      and store: "store_of (?m\<lparr>m_data := d\<rparr>) = write_back e (store_of ?m)"
      by (rule writeback_evicted [OF shape1, of dc])
        (use inside invalidate_line_evicted [OF dok] inv Some in auto)
    let ?n = "?m\<lparr>m_data := d\<rparr>"
    have "store_of ?n = write_back_option ev (store_of m)"
      using store Some by (simp add: write_back_option_def)
    moreover have "\<forall>b. way_of dc' b \<noteq> None \<longrightarrow> unat b < length (m_data ?n)"
      using ways inside dlen by (simp add: in_sram_def)
    moreover have "soc_shape ?n" using shape dlen by (simp add: soc_shape_def)
    ultimately have "soc_ok ?n" using view(2,3) by (simp add: soc_ok_def dcache_fits_def)
    then have "mem_ok I ?n" using dlen by (intro mem_ok_update [OF m]) simp_all
    then show ?thesis using wb Some by (simp add: dcache_invalidate_line_def dc inv)
  qed
qed

section \<open>Fetches\<close>

lemma mem_ok_icache:
  assumes "mem_ok I m" and "icache_ok ic"
  shows "mem_ok I (m\<lparr>m_icache := Some ic\<rparr>)"
  using assms by (simp add: mem_ok_def soc_ok_def dcache_fits_def)

lemma mem_ok_icache_fill:
  assumes m: "mem_ok I m"
  shows "mem_ok I (icache_fill a m)"
proof (cases "m_icache m")
  case None
  then show ?thesis using m by (simp add: icache_fill_def)
next
  case (Some ic)
  then have ok: "icache_ok ic" using m by (simp add: mem_ok_def)
  show ?thesis
  proof (cases "sram_offset m (a AND NOT (32 - 1))")
    case None
    then show ?thesis using m Some by (simp only: icache_fill_def option.case if_cancel)
  next
    case off: (Some off)
    show ?thesis
      unfolding icache_fill_def Some off option.case Let_def
      using m ok by (auto simp del: take_replicate intro!: mem_ok_icache icache_ok_fill)
  qed
qed

lemma mem_ok_fetch_half: "mem_ok I m \<Longrightarrow> mem_ok I (snd (mem_fetch_half a m))"
  by (auto simp: mem_fetch_half_def sram_fetch_def icache_lookup_def Let_def mem_ok_icache_fill
      split: option.splits prod.splits sum.splits)

lemma mem_ok_fetch_word: "mem_ok I m \<Longrightarrow> mem_ok I (snd (mem_fetch_word a m))"
proof -
  assume m: "mem_ok I m"
  have half: "mem_ok I t" if "mem_fetch_half b n = (r, t)" "mem_ok I n" for b n r and t :: "'a memory"
    using mem_ok_fetch_half [OF that(2), of b] that(1) by simp
  have "mem_ok I (snd (bindM (mem_fetch_half a) (\<lambda>hi. bindM (mem_fetch_half (a + 2)) (\<lambda>lo. returnM (h hi lo))) m))"
    for h :: "u16 \<Rightarrow> u16 \<Rightarrow> u32"
    using m by (auto simp: bindM_def returnM_def split: prod.split sum.split dest: half)
  then show ?thesis
    using m by (auto simp: mem_fetch_word_def sram_fetch_def icache_lookup_def Let_def mem_ok_icache_fill
        split: option.splits prod.splits sum.splits)
qed

text \<open>Decoding runs fetches only, so it keeps what they keep.\<close>

interpretation mem_ok_port: fetch_agreement "\<lambda>m n. n = m \<and> mem_ok I m" memory_fetch memory_fetch
  by unfold_locales (simp_all add: agree_def memory_fetch_def mem_ok_fetch_half mem_ok_fetch_word)

lemma safe_decode_with [safe_intro]: "safe (mem_ok I) (decode_with a memory_fetch)"
proof (rule safeI)
  fix m :: "'a memory" assume m: "mem_ok I m"
  have "mem_ok I (snd (decode_with a memory_fetch m))"
    using agreeD [OF mem_ok_port.agree_decode_with [where I = I], of m m a] m by simp
  moreover have "fst (decode_with a memory_fetch m) \<noteq> Inl Panic"
    using yields_not_Panic [OF mem_port.yields_decode_with, of a m] by (metis prod.collapse)
  ultimately show "fst (decode_with a memory_fetch m) \<noteq> Inl Panic \<and> mem_ok I (snd (decode_with a memory_fetch m))"
    by simp
qed

section \<open>Flushing the data cache\<close>

lemma mem_ok_new_soc:
  assumes "32 dvd length img" and "length img < 2 ^ 32" and "64 * 1024 \<le> length img" and "bank_ok I b"
  shows "mem_ok I (memory_new_soc img b)"
  using cached_ok_new_soc [OF assms(1,2), of b] assms(3,4) icache_ok_new
  by (simp add: mem_ok_def cached_ok_def memory_new_soc_def)

text \<open>C6. Invalidating the data cache (DC_IVDC): with IM set SRAM then holds exactly what the program read
  through the cache before, with IM clear the unwritten stores are lost and SRAM stays as it was; in
  both cases the cache is empty after, so reads return SRAM, and no instruction cache or bank changes.\<close>

theorem flush_or_discard:
  assumes "soc_ok m" and "m_dcache m = Some dc"
  shows "\<exists>m'. dcache_invalidate_all D m = (Inr (), m') \<and> soc_ok m'
    \<and> store_of m' = (if dc_im dc then mem_view m else store_of m)
    \<and> mem_view m' = store_of m' \<and> m_icache m' = m_icache m \<and> m_bank m' = m_bank m"
proof -
  have cl: "clean_lines dc (store_of m)" using assms by (auto simp: soc_ok_def dcache_fits_def)
  have "flushed dc (store_of m) = (if dc_im dc then mem_view m else store_of m)"
    using clean_view [OF cl] by (auto simp: flushed_def mem_view_def assms(2))
  then show ?thesis
    using dcache_invalidate_all_ok [OF soc_ok_weak [OF assms(1)] assms(2), of D] by metis
qed

theorem flush_or_discard_witness:
  "\<forall>(D :: unit device_ops) (b :: unit bank). \<exists>m'.
     dcache_invalidate_all D (memory_new_soc (replicate 64 7) b) = (Inr (), m')
     \<and> store_of m' 63 = 7 \<and> m_bank m' = Some b"
proof (intro allI)
  fix D :: "unit device_ops" and b :: "unit bank"
  let ?m = "memory_new_soc (replicate 64 7) b"
  have ok: "soc_ok ?m" using cached_ok_new_soc [of "replicate 64 7" b] by (simp add: cached_ok_def)
  have dc: "m_dcache ?m = Some dc_new" and bank: "m_bank ?m = Some b" by (simp_all add: memory_new_soc_def)
  have none: "way_of dc_new j = None" for j
    by (simp add: way_of_def find_way_def dc_line_def dc_new_def line_matches_def empty_line_def)
  have "mem_view ?m 63 = 7" "store_of ?m 63 = 7"
    by (simp_all add: mem_view_def dc backing_view_way none store_of_def) (simp_all add: memory_new_soc_def)
  then show "\<exists>m'. dcache_invalidate_all D ?m = (Inr (), m') \<and> store_of m' 63 = 7 \<and> m_bank m' = Some b"
    using flush_or_discard [OF ok dc, of D] bank by metis
qed

end
