(* ===== verification/Executor_Safe.thy ===== *)
theory Executor_Safe
  imports Executor Memory_Safe
begin

text \<open>
  No instruction panics: the register operations never do, and the memory operations keep the
  invariant of \<open>Memory_Safe\<close>. The invariant of the machine is the shape of the register file next
  to a well-formed memory.
\<close>

section \<open>Register operations\<close>

abbreviation (input) no_panic :: "('s, 'a) op \<Rightarrow> bool" where
  "no_panic m \<equiv> yields m (\<lambda>_. True)"

lemma no_panic_basic [yields_intro]:
  "no_panic (modifyM f)" "no_panic (getsM g)"
  by (simp_all add: yields_def)

lemma no_panic_readM [yields_intro]: "(\<And>s. f s \<noteq> Inl Panic) \<Longrightarrow> no_panic (readM f)"
  by (auto simp: yields_def split: sum.split)

lemma no_panic_thenM [yields_intro]: "no_panic m \<Longrightarrow> no_panic k \<Longrightarrow> no_panic (thenM m k)"
  by (simp add: thenM_def yields_bindM_any)

lemma no_panic_case_prod [yields_intro]:
  "(\<And>a b. no_panic (f a b)) \<Longrightarrow> no_panic (case p of (a, b) \<Rightarrow> f a b)"
  by (simp add: split_beta)

lemma no_panic_write_core_reg [yields_intro]: "no_panic (write_core_reg r v)"
  by (rule yieldsI) simp

lemma no_panic_write_dest [yields_intro]: "no_panic (write_dest x v)"
  by (cases x) (simp_all add: write_dest_def yields_intro)

lemma no_panic_when_condition [yields_intro]: "no_panic m \<Longrightarrow> no_panic (when_condition cc m)"
  by (simp add: yields_def)

lemma no_panic_write_aux_reg [yields_intro]: "no_panic (write_aux_reg a v)"
  unfolding write_aux_reg_def by (intro yields_intro)

lemma read_aux_reg_not_Panic [simp]: "read_aux_reg a s \<noteq> Inl Panic"
  by (simp add: read_aux_reg_def)

lemma no_panic_resolve [yields_intro]: "no_panic (readM (resolve_value x))"
  by (intro yields_intro) simp

lemma no_panic_take_branch [yields_intro]: "no_panic (take_branch d t delay link)"
  by (cases delay) (auto simp: take_branch_def intro!: yields_intro)

lemma no_panic_register_ops:
  "no_panic (execute_alu op dst src1 src2 f cc)" "no_panic (execute_ext_arith eop dst src1 src2 f cc)"
  "no_panic (execute_branch d off cc delay link)" "no_panic (execute_branch_compare kind src1 src2 off delay d)"
  "no_panic (execute_jump d src1 cc delay link fr)" "no_panic (execute_zero_op z)"
  "no_panic (execute_loop off' cc d)" "no_panic (execute_flag src1 cc)"
  "no_panic (execute_load_aux dst src1)" "no_panic (execute_store_aux src1 src2)"
  "no_panic (write_back_base dst wb v)"
proof -
  show "no_panic (execute_alu op dst src1 src2 f cc)"
    unfolding execute_alu_def Let_def by (intro yields_intro) simp_all
  show "no_panic (execute_ext_arith eop dst src1 src2 f cc)"
    unfolding execute_ext_arith_def Let_def by (intro yields_intro) simp_all
  show "no_panic (execute_branch d off cc delay link)"
    unfolding execute_branch_def Let_def by (intro yields_intro)
  show "no_panic (execute_branch_compare kind src1 src2 off delay d)"
    unfolding execute_branch_compare_def Let_def by (cases delay) (auto intro!: yields_intro)
  show "no_panic (execute_jump d src1 cc delay link fr)"
    unfolding execute_jump_def by (intro yields_intro) simp_all
  show "no_panic (execute_zero_op z)"
    by (cases z) (auto simp: execute_zero_op_def Let_def intro!: yields_intro)
  show "no_panic (execute_loop off' cc d)"
    unfolding execute_loop_def Let_def by (intro yields_intro)
  show "no_panic (execute_flag src1 cc)"
    unfolding execute_flag_def by (intro yields_intro) simp_all
  show "no_panic (execute_load_aux dst src1)"
    unfolding execute_load_aux_def by (intro yields_intro) simp_all
  show "no_panic (execute_store_aux src1 src2)"
    unfolding execute_store_aux_def by (intro yields_intro) simp_all
  show "no_panic (write_back_base dst wb v)"
    unfolding write_back_base_def by (cases dst) (auto intro!: yields_intro)
qed

lemma safe_no_panic: "keeps I m \<Longrightarrow> no_panic m \<Longrightarrow> safe I m"
proof (rule safeI)
  fix s assume k: "keeps I m" and p: "no_panic m" and "I s"
  obtain r t where r: "m s = (r, t)" by (cases "m s")
  then show "fst (m s) \<noteq> Inl Panic \<and> I (snd (m s))"
    using keeps_result [OF k \<open>I s\<close> r] yields_not_Panic [OF p, of s t] by auto
qed

section \<open>The machine\<close>

definition machine_ok :: "('p \<Rightarrow> bool) \<Rightarrow> 'p machine \<Rightarrow> bool" where
  "machine_ok I x \<longleftrightarrow> regs_ok (m_cpu x) \<and> mem_ok I (m_mem x)"

lemma safe_on_mem [safe_intro]: "safe (mem_ok I) m \<Longrightarrow> safe (machine_ok I) (on_mem m)"
  unfolding on_mem_def by (erule safe_zoomM) (simp_all add: machine_ok_def)

lemma safe_on_cpu: "safe regs_ok m \<Longrightarrow> safe (machine_ok I) (on_cpu m)"
  unfolding on_cpu_def by (erule safe_zoomM) (simp_all add: machine_ok_def)

lemma safe_on_regs: "keeps regs_ok m \<Longrightarrow> no_panic m \<Longrightarrow> safe (machine_ok I) (on_cpu m)"
  by (intro safe_on_cpu safe_no_panic)

lemma safe_value_of [safe_intro]: "safe (machine_ok I) (value_of x)"
  by (intro safe_on_regs keeps_intro yields_intro) simp

lemma safe_write_dest [safe_intro]: "safe (machine_ok I) (on_cpu (write_dest x v))"
  by (intro safe_on_regs regs.keeps_write_dest yields_intro)

lemma safe_write_back_base [safe_intro]: "safe (machine_ok I) (on_cpu (write_back_base x wb v))"
  by (intro safe_on_regs regs.keeps_write_back_base no_panic_register_ops)

lemma safe_execute_single_op:
  assumes D: "devices_ok I D"
  shows "safe (machine_ok I) (execute_single_op D op dst src f cc)"
proof -
  have "regs_ok (set_v b (set_c c (set_zn r s))) = regs_ok s" for b c r s
    by (simp add: regs_ok_def set_v_def set_c_def set_zn_def split: option.split)
  then have "safe (machine_ok I) (on_cpu (modifyM (set_v b \<circ> set_c c \<circ> set_zn r)))" for b c r
    by (intro safe_on_cpu safe_modifyM) simp
  then show ?thesis
    unfolding execute_single_op_def by (intro safe_intro D)
qed

lemma safe_load_value [safe_intro]: "devices_ok I D \<Longrightarrow> safe (mem_ok I) (load_value D sz sx ea bp)"
  by (cases sz) (auto simp: load_value_def intro!: safe_intro)

lemma safe_store_value [safe_intro]: "devices_ok I D \<Longrightarrow> safe (mem_ok I) (store_value D sz ea v bp)"
  by (cases sz) (auto simp: store_value_def intro!: safe_intro)

lemma safe_execute_load: "devices_ok I D \<Longrightarrow> safe (machine_ok I) (execute_load D dst base off sz sx wb bp)"
  unfolding execute_load_def by (intro safe_intro)

lemma safe_execute_store: "devices_ok I D \<Longrightarrow> safe (machine_ok I) (execute_store D src base off sz wb bp)"
  unfolding execute_store_def by (intro safe_intro)

lemma safe_dispatch_load_aux: "safe (machine_ok I) (dispatch_load_aux dst addr)"
  unfolding dispatch_load_aux_def
  by (intro safe_intro safe_on_regs regs.keeps_execute_load_aux no_panic_register_ops)

lemma safe_dispatch_store_aux: "safe (machine_ok I) (dispatch_store_aux D src addr)"
  unfolding dispatch_store_aux_def cache_control_def
  by (intro safe_intro safe_on_regs regs.keeps_execute_store_aux no_panic_register_ops mem_ok_cache_control
      keeps_intro yields_intro) simp_all

lemma safe_execute:
  assumes D: "devices_ok I D" and wf: "wf_instruction (inst d)"
  shows "safe (machine_ok I) (execute D d)"
  using wf
  by (cases "inst d")
    (auto simp: execute_def intro!: safe_on_regs no_panic_register_ops regs.keeps_execute_alu
      safe_execute_single_op D regs.keeps_execute_zero_op regs.keeps_execute_branch
      regs.keeps_execute_branch_compare regs.keeps_execute_jump safe_execute_load safe_execute_store
      regs.keeps_execute_loop safe_dispatch_load_aux safe_dispatch_store_aux regs.keeps_execute_flag
      regs.keeps_execute_ext_arith safe_returnM)

end
