(* ===== verification/Cpu_Safe.thy ===== *)
theory Cpu_Safe
  imports Cpu Executor_Safe
begin

text \<open>
  The emulator never panics: from a well-formed processor, \<open>step\<close> of \<open>src/cpu/mod.rs\<close> returns or
  raises an architectural exception, and leaves a well-formed processor, for any program, any
  devices that keep an invariant and do not panic under it, and any hooks but custom ones. Reachable processors are those that
  steps lead to from a new one, faults included.
\<close>

section \<open>The invariant\<close>

definition cpu_ok :: "('p \<Rightarrow> bool) \<Rightarrow> 'p cpu \<Rightarrow> bool" where
  "cpu_ok I c \<longleftrightarrow> machine_ok I (c_machine c) \<and> (\<forall>a f. c_hooks c a \<noteq> Some (Hook_Custom f))
     \<and> length (c_shadow_stack c) \<le> 64"

lemma safe_on_machine [safe_intro]: "safe (machine_ok I) m \<Longrightarrow> safe (cpu_ok I) (on_machine m)"
  unfolding on_machine_def by (erule safe_zoomM) (simp_all add: cpu_ok_def)

lemma cpu_ok_regs: "cpu_ok I c \<Longrightarrow> (\<And>s. regs_ok s \<Longrightarrow> regs_ok (f s)) \<Longrightarrow> cpu_ok I (regs_modify f c)"
  by (simp add: cpu_ok_def machine_ok_def regs_modify_def)

lemma cpu_ok_mem: "cpu_ok I c \<Longrightarrow> (\<And>m. mem_ok I m \<Longrightarrow> mem_ok I (f m)) \<Longrightarrow> cpu_ok I (mem_modify f c)"
  by (simp add: cpu_ok_def machine_ok_def mem_modify_def)

lemma safe_regs_modify [safe_intro]: "(\<And>s. regs_ok s \<Longrightarrow> regs_ok (f s)) \<Longrightarrow> safe (cpu_ok I) (modifyM (regs_modify f))"
  by (intro safe_modifyM cpu_ok_regs)

lemma safe_mem_modify [safe_intro]: "(\<And>m. mem_ok I m \<Longrightarrow> mem_ok I (f m)) \<Longrightarrow> safe (cpu_ok I) (modifyM (mem_modify f))"
  by (intro safe_modifyM cpu_ok_mem)

lemma safe_ignoreM [safe_intro]: "safe I m \<Longrightarrow> safe I (ignoreM m)"
  by (fastforce simp: safe_def ignoreM_def split: prod.split sum.split fault.split)

lemma thenM_assoc: "thenM (thenM a b) c = thenM a (thenM b c)"
  by (simp add: thenM_def bindM_assoc)

section \<open>Resets\<close>

text \<open>Overwriting SRAM behind the cache and invalidating the cache: well formed again.\<close>

lemma load_then_invalidate:
  assumes m: "mem_ok I m" and len: "length d \<le> length (m_data m)"
  shows "\<exists>m1 m2. load_binary 0 d m = (Inr (), m1) \<and> dcache_invalidate_all D m1 = (Inr (), m2) \<and> mem_ok I m2"
proof -
  obtain dc where dc: "m_dcache m = Some dc" and fits: "dcache_fits m dc" and shape: "soc_shape m"
    using mem_okD(1) [OF m] by (rule soc_okE)
  let ?m1 = "m\<lparr>m_data := splice 0 d (m_data m)\<rparr>"
  have l: "length (m_data ?m1) = length (m_data m)" using len by simp
  have "load_binary 0 d m = (Inr (), ?m1)" using len by (simp add: load_binary_def)
  moreover have "soc_shape ?m1" using shape l by (simp add: soc_shape_def)
  then have "soc_weak ?m1" using fits dc l by (auto simp: soc_weak_def dcache_fits_def in_sram_def)
  then obtain m2 where m2: "dcache_invalidate_all D ?m1 = (Inr (), m2)" "soc_ok m2"
    "m_icache m2 = m_icache ?m1" "m_bank m2 = m_bank ?m1" "length (m_data m2) = length (m_data ?m1)"
    using dcache_invalidate_all_ok [of ?m1 dc D] dc by auto
  moreover have "mem_ok I m2" using m m2(2-5) l by (simp add: mem_ok_def)
  ultimately show ?thesis by blast
qed

lemma on_memory_Inr:
  "f (cpu_mem c) = (Inr a, m) \<Longrightarrow>
     on_memory f c = (Inr a, c\<lparr>c_machine := (c_machine c)\<lparr>m_mem := m\<rparr>\<rparr>)"
  by (simp add: on_machine_def on_mem_def zoomM_def)

lemma safe_load_then_invalidate:
  assumes "cpu_ok I c" and "length d \<le> length (m_data (cpu_mem c))"
  shows "\<exists>c'. thenM (on_memory (load_binary 0 d)) (ignoreM (on_memory (dcache_invalidate_all D))) c = (Inr (), c')
    \<and> cpu_ok I c'"
proof -
  obtain m1 m2 where 1: "load_binary 0 d (cpu_mem c) = (Inr (), m1)" "dcache_invalidate_all D m1 = (Inr (), m2)"
    "mem_ok I m2"
    using load_then_invalidate [of I "cpu_mem c" d D] assms by (auto simp: cpu_ok_def machine_ok_def)
  let ?c1 = "c\<lparr>c_machine := (c_machine c)\<lparr>m_mem := m1\<rparr>\<rparr>"
  have "on_memory (load_binary 0 d) c = (Inr (), ?c1)" by (rule on_memory_Inr) (rule 1)
  moreover have "on_memory (dcache_invalidate_all D) ?c1
      = (Inr (), ?c1\<lparr>c_machine := (c_machine ?c1)\<lparr>m_mem := m2\<rparr>\<rparr>)"
    by (rule on_memory_Inr) (simp add: 1)
  note steps = calculation this
  show ?thesis
    using steps assms(1) 1(3) by (simp add: thenM_def bindM_def ignoreM_def cpu_ok_def machine_ok_def)
qed

lemma safe_reset_soc:
  assumes D: "devices_ok I D"
  shows "safe (cpu_ok I) (reset_soc_in_place D mode)"
proof -
  have zero: "safe (cpu_ok I) (bindM (getsM (\<lambda>c. length (m_data (cpu_mem c)))) (\<lambda>n.
       thenM (on_memory (load_binary 0 (replicate n 0))) (thenM (ignoreM (on_memory (dcache_invalidate_all D))) k)))"
    if "safe (cpu_ok I) k" for k
  proof (rule safeI)
    fix c :: "'a cpu" assume c: "cpu_ok I c"
    let ?n = "length (m_data (cpu_mem c))"
    obtain c' where "thenM (on_memory (load_binary 0 (replicate ?n 0))) (ignoreM (on_memory (dcache_invalidate_all D))) c
        = (Inr (), c')" "cpu_ok I c'"
      using safe_load_then_invalidate [OF c, of "replicate ?n 0" D] by auto
    then show "fst (bindM (getsM (\<lambda>c. length (m_data (cpu_mem c)))) (\<lambda>n. thenM (on_memory (load_binary 0 (replicate n 0)))
          (thenM (ignoreM (on_memory (dcache_invalidate_all D))) k)) c) \<noteq> Inl Panic
      \<and> cpu_ok I (snd (bindM (getsM (\<lambda>c. length (m_data (cpu_mem c)))) (\<lambda>n. thenM (on_memory (load_binary 0 (replicate n 0)))
          (thenM (ignoreM (on_memory (dcache_invalidate_all D))) k)) c))"
      using safeD [OF that] by (simp add: bindM_def [of "getsM _"] getsM_def thenM_Inr flip: thenM_assoc)
  qed
  have bank: "mem_ok I (bank_modify (case mode of Warm \<Rightarrow> dev_reset_warm D | Cold \<Rightarrow> dev_reset_cold D) m)"
    if "mem_ok I m" for m
    using mem_ok_bank_modify [OF that] devices_okD(10,11) [OF D] by (cases mode) auto
  have loop: "cpu_ok I (reset_loop_detection c) = cpu_ok I c" for c :: "'a cpu"
    by (simp add: cpu_ok_def reset_loop_detection_def)
  show ?thesis
    unfolding reset_soc_in_place_def
    by (intro safe_thenM safe_regs_modify zero safe_mem_modify safe_modifyM)
      (auto simp: regs_ok_def new_cpu_state_def mem_ok_cache_control bank loop)
qed

lemma safe_load_boot:
  assumes "length d \<le> 64 * 1024" and k: "safe (cpu_ok I) k"
  shows "safe (cpu_ok I) (thenM (on_memory (load_binary 0 d)) (thenM (ignoreM (on_memory (dcache_invalidate_all D))) k))"
proof (rule safeI)
  fix c :: "'a cpu" assume c: "cpu_ok I c"
  then have "length d \<le> length (m_data (cpu_mem c))"
    using assms(1) by (simp add: cpu_ok_def machine_ok_def mem_ok_def)
  from safe_load_then_invalidate [OF c this, of D]
  show "fst (thenM (on_memory (load_binary 0 d)) (thenM (ignoreM (on_memory (dcache_invalidate_all D))) k) c) \<noteq> Inl Panic
    \<and> cpu_ok I (snd (thenM (on_memory (load_binary 0 d)) (thenM (ignoreM (on_memory (dcache_invalidate_all D))) k) c))"
    using safeD [OF k] by (auto simp: thenM_Inr simp flip: thenM_assoc)
qed

lemma safe_warm_reboot [safe_intro]: "devices_ok I D \<Longrightarrow> safe (cpu_ok I) (warm_reboot_from_flash D)"
  unfolding warm_reboot_from_flash_def Let_def
  by (intro safe_bindM safe_getsM safe_case_option safe_returnM safe_thenM [OF safe_reset_soc] safe_load_boot
      safe_thenM safe_mem_modify mem_ok_cache_control safe_regs_modify safe_modifyM)
    (auto simp: regs_ok_def cpu_ok_def)

section \<open>Timers and interrupts\<close>

lemma regs_ok_ticks:
  "regs_ok s \<Longrightarrow> tick_timer0 s = (w, t) \<Longrightarrow> regs_ok t" "regs_ok s \<Longrightarrow> tick_timer1 s = (w, t) \<Longrightarrow> regs_ok t"
  by (auto simp: tick_timer0_def tick_timer1_def regs_ok_def Let_def split: if_splits)

lemma safe_tick_once:
  assumes D: "devices_ok I D"
  shows "safe (cpu_ok I) (tick_arc_timers_once D)"
proof (rule safeI)
  fix c :: "'a cpu" assume c: "cpu_ok I c"
  obtain w0 s1 where 0: "tick_timer0 (cpu_regs c) = (w0, s1)" by (cases "tick_timer0 (cpu_regs c)")
  obtain w1 s2 where 1: "tick_timer1 s1 = (w1, s2)" by (cases "tick_timer1 s1")
  have "regs_ok (cpu_regs c)" using c by (simp add: cpu_ok_def machine_ok_def)
  then have "regs_ok s2" using 0 1 by (blast dest: regs_ok_ticks)
  then have c2: "cpu_ok I (regs_modify (\<lambda>_. s2) c)" by (intro cpu_ok_regs [OF c])
  have "safe (cpu_ok I) (bindM (getsM (\<lambda>c. cpu_bank c \<noteq> None)) (\<lambda>has_bank.
      if (w0 \<or> w1) \<and> has_bank then warm_reboot_from_flash D else returnM ()))"
    by (intro safe_intro D)
  from safeD [OF this c2]
  show "fst (tick_arc_timers_once D c) \<noteq> Inl Panic \<and> cpu_ok I (snd (tick_arc_timers_once D c))"
    by (simp add: tick_arc_timers_once_def bindM_def [of "getsM cpu_regs"] getsM_def [of cpu_regs] 0 1
        thenM_def bindM_def [of "modifyM _"] modifyM_def)
qed

lemma safe_repeatM [safe_intro]: "safe I m \<Longrightarrow> safe I (repeatM n m)"
  by (induction n) (simp_all add: safe_intro)

lemma cpu_ok_counters:
  "cpu_ok I c \<Longrightarrow> cpu_ok I (c\<lparr>c_timer_frac := x\<rparr>)" "cpu_ok I c \<Longrightarrow> cpu_ok I (c\<lparr>c_bank_ticks := y\<rparr>)"
  "cpu_ok I c \<Longrightarrow> cpu_ok I (c\<lparr>c_tight_count := x\<rparr>)" "cpu_ok I c \<Longrightarrow> cpu_ok I (c\<lparr>c_tight_last_pc := x\<rparr>)"
  "cpu_ok I c \<Longrightarrow> cpu_ok I (c\<lparr>c_profile := p\<rparr>)"
  by (simp_all add: cpu_ok_def)

lemma safe_tick_timers_and_bank [safe_intro]:
  assumes D: "devices_ok I D"
  shows "safe (cpu_ok I) (tick_timers_and_bank D)"
  unfolding tick_timers_and_bank_def timer_loop_def timer_body_def
  by (intro safe_intro safe_tick_once D cpu_ok_mem mem_ok_drain mem_ok_bank_modify cpu_ok_counters devices_okD(9))

lemma cpu_ok_check_uart_irq: "cpu_ok I c \<Longrightarrow> cpu_ok I (check_uart_irq D c)"
  by (auto simp: check_uart_irq_def Let_def regs_ok_def split: option.split intro!: cpu_ok_regs)

lemma regs_ok_take_interrupt: "regs_ok s \<Longrightarrow> regs_ok (snd (take_interrupt bk s))"
  by (auto simp: take_interrupt_def enter_level1_def enter_level2_def Let_def regs_ok_def)

lemma safe_check_interrupts [safe_intro]: "safe (cpu_ok I) check_interrupts"
proof (rule safeI)
  fix c :: "'a cpu" assume c: "cpu_ok I c"
  then have "regs_ok (snd (take_interrupt (cpu_bank c) (cpu_regs c)))"
    by (intro regs_ok_take_interrupt) (simp add: cpu_ok_def machine_ok_def)
  then show "fst (check_interrupts c) \<noteq> Inl Panic \<and> cpu_ok I (snd (check_interrupts c))"
    using cpu_ok_regs [OF c] by (simp add: check_interrupts_def split_beta)
qed

lemma safe_detect_spin [safe_intro]: "safe (cpu_ok I) detect_spin"
proof (rule safeI)
  fix c :: "'a cpu" assume c: "cpu_ok I c"
  have ff: "core_regs (fast_forward_armed_watchdog s) = core_regs s"
    "irq_shadow_r0_r3 (fast_forward_armed_watchdog s) = irq_shadow_r0_r3 s" for s
    by (simp_all add: fast_forward_armed_watchdog_def Let_def)
  show "fst (detect_spin c) \<noteq> Inl Panic \<and> cpu_ok I (snd (detect_spin c))"
    using c by (auto simp: detect_spin_def Let_def ff regs_ok_def split: spin_verdict.split
        intro!: cpu_ok_regs cpu_ok_counters)
qed

section \<open>The step\<close>

lemma safe_dispatch_hook: "safe (cpu_ok I) dispatch_hook"
proof (rule safeI)
  fix c :: "'a cpu" assume c: "cpu_ok I c"
  show "fst (dispatch_hook c) \<noteq> Inl Panic \<and> cpu_ok I (snd (dispatch_hook c))"
  proof (cases "c_hooks c (pc (cpu_regs c))")
    case None
    then show ?thesis using c by (simp add: dispatch_hook_def op_defs)
  next
    case (Some hook)
    have "safe (machine_ok I) (execute_hook hook)"
      using Some c
      by (cases hook) (auto simp: cpu_ok_def regs_ok_def Let_def
          intro!: safe_thenM safe_on_cpu safe_modifyM safe_returnM)
    then have "safe (cpu_ok I) (bindM (on_machine (execute_hook hook)) (\<lambda>action. case action of
           HookAction_Skip \<Rightarrow> returnM True
         | HookAction_Continue \<Rightarrow> returnM False
         | HookAction_Pause \<Rightarrow>
             thenM (modifyM (regs_modify (\<lambda>s. s\<lparr>paused := True, pause_reason := Breakpoint (pc s)\<rparr>)))
               (returnM True)))"
      by (auto simp: regs_ok_def split: hook_action.split intro!: safe_intro)
    from safeD [OF this c] show ?thesis
      by (simp add: dispatch_hook_def bindM_def [of "getsM _"] getsM_def Some)
  qed
qed

lemma cpu_ok_publish_context:
  assumes "devices_ok I D" and "cpu_ok I c"
  shows "cpu_ok I (publish_context D d c)"
proof -
  have "bank_ok I (update_cpu_context D a l n b)" if "bank_ok I b" for a l n b
    using that devices_okD(12) [OF assms(1)] by (simp add: update_cpu_context_def bank_ok_def)
  moreover have "bank_ok I (b\<lparr>bank_current_di := x\<rparr>)" if "bank_ok I b" for b x
    using that by (simp add: bank_ok_def)
  ultimately show ?thesis
    using assms(2) by (auto simp: publish_context_def Let_def intro!: cpu_ok_mem mem_ok_bank_modify)
qed

lemma cpu_ok_log_aux_write: "cpu_ok I c \<Longrightarrow> cpu_ok I (log_aux_write d c)"
  by (auto simp: log_aux_write_def Let_def bank_ok_def record_aux_write_def split: instruction.split
      intro!: cpu_ok_mem mem_ok_bank_modify)

lemma cpu_ok_bookkeeping:
  assumes "cpu_ok I c"
  shows "cpu_ok I (track_calls delay_info n c)" "cpu_ok I (profile_step c)" "cpu_ok I (watchpoint_trap c)"
proof -
  show "cpu_ok I (track_calls delay_info n c)" "cpu_ok I (profile_step c)"
    using assms by (auto simp: track_calls_def profile_step_def Let_def cpu_ok_def)
  have "mem_ok I (m\<lparr>m_watchpoints := t\<rparr>)" if "mem_ok I m" for m :: "'a memory" and t
    by (rule mem_ok_same_store [OF that]) (simp_all add: same_store_def)
  then show "cpu_ok I (watchpoint_trap c)"
    by (auto simp: watchpoint_trap_def Let_def regs_ok_def split: prod.split option.split
        intro!: cpu_ok_regs cpu_ok_mem assms)
qed

lemma safe_end_of_step:
  assumes "devices_ok I D"
  shows "safe (cpu_ok I) (end_of_step D delay_info n)"
  unfolding end_of_step_def
  by (intro safe_intro assms cpu_ok_check_uart_irq) (simp add: cpu_ok_bookkeeping)

lemma safe_step_instruction:
  assumes D: "devices_ok I D" and wf: "wf_instruction (inst d)"
  shows "safe (cpu_ok I) (step_instruction D delay_info d)"
proof -
  have "safe (cpu_ok I) (on_regs (write_core_reg 31 n))" for n
    by (intro safe_on_machine safe_on_regs regs.core yields_intro)
  then have link: "safe (cpu_ok I) (case delay_info of Some (_, True) \<Rightarrow> on_regs (write_core_reg 31 n) | _ \<Rightarrow> returnM ())" for n
    by (auto split: option.split bool.split intro: safe_returnM)
  have upd: "regs_ok ((update_pc delay_info n s)\<lparr>instruction_count := k\<rparr>) = regs_ok s" for n s k
    by (simp add: update_pc_def regs_ok_def split: option.split)
  show ?thesis
    unfolding step_instruction_def
    by (intro safe_intro link safe_execute [OF D wf] safe_end_of_step D cpu_ok_publish_context
        cpu_ok_log_aux_write) (simp_all add: upd, simp add: regs_ok_def)
qed

lemma yields_on_machine: "yields m Q \<Longrightarrow> yields (on_machine m) Q"
  by (simp add: yields_def on_machine_def)

lemma yields_on_mem': "yields m Q \<Longrightarrow> yields (on_mem m) Q"
  by (simp add: yields_def on_mem_def)

lemma safe_decode_step:
  assumes D: "devices_ok I D"
  shows "safe (cpu_ok I) (bindM (on_memory (decode_with a memory_fetch)) (step_instruction D delay_info))"
proof (rule safe_bindM_yields)
  show "safe (cpu_ok I) (on_memory (decode_with a memory_fetch))" by (intro safe_intro)
  show "yields (on_memory (decode_with a memory_fetch)) (wf_at a)"
    by (intro yields_on_machine yields_on_mem' mem_port.yields_decode_with)
  show "safe (cpu_ok I) (step_instruction D delay_info d)" if "wf_at a d" for d
    by (rule safe_step_instruction [OF D wf_at_inst [OF that]])
qed

lemma safe_step_awake:
  assumes D: "devices_ok I D"
  shows "safe (cpu_ok I) (step_awake D)"
proof (rule safeI)
  fix c :: "'a cpu" assume c: "cpu_ok I c"
  obtain di s where t: "take_delay (cpu_regs c) = (di, s)" by (cases "take_delay (cpu_regs c)")
  obtain looped s' where l: "loop_back di s = (looped, s')" by (cases "loop_back di s")
  have "regs_ok (cpu_regs c)" using c by (simp add: cpu_ok_def machine_ok_def)
  then have "regs_ok s" using t by (auto simp: take_delay_def regs_ok_def split: delay_state.splits)
  then have "regs_ok s'" using l by (auto simp: loop_back_def Let_def regs_ok_def split: if_splits)
  then have "cpu_ok I (regs_modify (\<lambda>_. s') c)" by (intro cpu_ok_regs [OF c])
  moreover have "safe (cpu_ok I) (if looped then returnM () else bindM (getsM (\<lambda>c. pc (cpu_regs c))) (\<lambda>a.
      bindM (on_memory (decode_with a memory_fetch)) (step_instruction D di)))"
    by (intro safe_if safe_returnM safe_bindM [OF safe_getsM] safe_decode_step [OF D])
  ultimately show "fst (step_awake D c) \<noteq> Inl Panic \<and> cpu_ok I (snd (step_awake D c))"
    using safeD by (fastforce simp: step_awake_def bindM_def [of "getsM _"] getsM_def t l
        thenM_def bindM_def [of "modifyM _"] modifyM_def)
qed

lemma safe_step_sleeping: "devices_ok I D \<Longrightarrow> safe (cpu_ok I) (step_sleeping D)"
  unfolding step_sleeping_def
  by (intro safe_intro cpu_ok_check_uart_irq) (simp_all add: regs_ok_def)

lemma safe_step: "devices_ok I D \<Longrightarrow> safe (cpu_ok I) (step D)"
  unfolding step_def
  by (intro safe_bindM safe_getsM safe_if safe_returnM safe_dispatch_hook safe_step_sleeping safe_step_awake)

lemma safe_run: "devices_ok I D \<Longrightarrow> safe (cpu_ok I) (run D n)"
  by (induction n) (simp_all add: safe_intro safe_step)

lemma cpu_ok_new:
  assumes "32 dvd length img" and "length img < 2 ^ 32" and "64 * 1024 \<le> length img" and "bank_ok I b"
  shows "cpu_ok I (new_bcm55030 img b)"
  using mem_ok_new_soc [OF assms]
  by (simp add: cpu_ok_def machine_ok_def new_bcm55030_def regs_ok_def new_cpu_state_def)

end
