(* ===== verification/Cpu_Timers.thy ===== *)
theory Cpu_Timers
  imports Cpu
begin

text \<open>
  The timers of \<open>src/cpu/mod.rs\<close>: their rate, their period, the watchdog, and the verdict on a
  stalled program counter that is read off them.
\<close>

section \<open>Running the pieces\<close>

lemma regs_modify_simps [simp]:
  "cpu_regs (regs_modify f c) = f (cpu_regs c)" "cpu_mem (regs_modify f c) = cpu_mem c"
  "c_timer_frac (regs_modify f c) = c_timer_frac c" "c_bank_ticks (regs_modify f c) = c_bank_ticks c"
  "cpu_regs (mem_modify g c) = cpu_regs c" "cpu_mem (mem_modify g c) = g (cpu_mem c)"
  "c_timer_frac (mem_modify g c) = c_timer_frac c" "c_bank_ticks (mem_modify g c) = c_bank_ticks c"
  by (simp_all add: regs_modify_def mem_modify_def)

lemma tick_once_eq:
  "tick_arc_timers_once D c =
     (case tick_timer0 (cpu_regs c) of (w0, s1) \<Rightarrow>
      case tick_timer1 s1 of (w1, s2) \<Rightarrow>
        if (w0 \<or> w1) \<and> cpu_bank c \<noteq> None then warm_reboot_from_flash D (regs_modify (\<lambda>_. s2) c)
        else (Inr (), regs_modify (\<lambda>_. s2) c))"
  by (simp add: tick_arc_timers_once_def op_defs split: prod.split)

section \<open>The loop of a step\<close>

text \<open>The accumulator loop, as the source writes it.\<close>

lemma thenM_repeatM_Suc: "repeatM (Suc n) m c = thenM m (repeatM n m) c"
  by simp

text \<open>A timer tick leaves the accumulator alone, the reset included.\<close>

definition keeps_frac :: "('p cpu, 'a) op \<Rightarrow> bool" where
  "keeps_frac m \<longleftrightarrow> (\<forall>c. c_timer_frac (snd (m c)) = c_timer_frac c)"

lemma keeps_frac_intro:
  "keeps_frac (returnM a)" "keeps_frac (getsM f)" "keeps_frac (on_machine k)"
  "keeps_frac (modifyM (regs_modify g))" "keeps_frac (modifyM (mem_modify h))"
  "keeps_frac (modifyM reset_loop_detection)" "keeps_frac (modifyM (\<lambda>c. c\<lparr>c_shadow_stack := st\<rparr>))"
  "keeps_frac m \<Longrightarrow> keeps_frac (ignoreM m)"
  "keeps_frac m \<Longrightarrow> keeps_frac m' \<Longrightarrow> keeps_frac (thenM m m')"
  "keeps_frac m1 \<Longrightarrow> (\<And>a. keeps_frac (f1 a)) \<Longrightarrow> keeps_frac (bindM m1 f1)"
  "(\<And>x. keeps_frac (f2 x)) \<Longrightarrow> keeps_frac k2 \<Longrightarrow> keeps_frac (case opt of None \<Rightarrow> k2 | Some x \<Rightarrow> f2 x)"
  by (auto simp: keeps_frac_def op_defs on_machine_def ignoreM_def reset_loop_detection_def
      split: prod.split sum.split option.split fault.split) (metis snd_conv)+

lemma keeps_frac_warm_reboot: "keeps_frac (warm_reboot_from_flash D)"
  unfolding warm_reboot_from_flash_def reset_soc_in_place_def Let_def by (intro keeps_frac_intro)

lemma frac_tick_once: "c_timer_frac (snd (tick_arc_timers_once D c)) = c_timer_frac c"
  using keeps_frac_warm_reboot [of D] by (auto simp: tick_once_eq keeps_frac_def split: prod.split)

lemma timer_loop_unfold:
  "timer_loop D = bindM (getsM (\<lambda>c. c_timer_frac c \<ge> 100)) (\<lambda>more.
     if more then thenM (modifyM (\<lambda>c. c\<lparr>c_timer_frac := c_timer_frac c - 100\<rparr>))
                    (thenM (tick_arc_timers_once D) (timer_loop D))
     else returnM ())"
proof
  fix c :: "'a cpu"
  let ?c = "c\<lparr>c_timer_frac := c_timer_frac c - 100\<rparr>"
  show "timer_loop D c = bindM (getsM (\<lambda>c. c_timer_frac c \<ge> 100)) (\<lambda>more.
     if more then thenM (modifyM (\<lambda>c. c\<lparr>c_timer_frac := c_timer_frac c - 100\<rparr>))
                    (thenM (tick_arc_timers_once D) (timer_loop D))
     else returnM ()) c"
  proof (cases "c_timer_frac c \<ge> 100")
    case True
    then have le: "100 \<le> unat (c_timer_frac c)" by (simp add: word_le_nat_alt)
    have frac: "unat (c_timer_frac c - 100) = unat (c_timer_frac c) - 100"
      using unat_sub [OF True] by simp
    obtain n where n: "unat (c_timer_frac c) div 100 = Suc n"
      using le by (metis Suc_pred div_greater_zero_iff zero_less_numeral)
    then have m: "unat (c_timer_frac c - 100) div 100 = n"
      unfolding frac using le_div_geq [OF _ le] by simp
    obtain r c' where t: "tick_arc_timers_once D ?c = (r, c')" by (cases "tick_arc_timers_once D ?c")
    then have "c_timer_frac c' = c_timer_frac c - 100" using frac_tick_once [of D ?c] by simp
    then show ?thesis
      using True n m t
      by (cases r) (simp_all add: timer_loop_def op_defs timer_body_def)
  next
    case False
    then have "unat (c_timer_frac c) div 100 = 0" by (simp add: word_le_nat_alt)
    then show ?thesis using False by (simp add: timer_loop_def op_defs)
  qed
qed

section \<open>The period of a timer\<close>

definition after_ticks1 :: "nat \<Rightarrow> cpu_state \<Rightarrow> cpu_state" where
  "after_ticks1 n = (\<lambda>s. snd (tick_timer1 s)) ^^ n"

lemma unat_count_next:
  fixes c l :: u32
  assumes "c < l"
  shows "unat (c + 1) = unat c + 1" "c + 1 \<le> l" "l \<le> c + 1 \<longleftrightarrow> unat c + 1 = unat l"
proof -
  have "unat c < unat l" using assms by (simp add: word_less_nat_alt)
  moreover have "unat c + 1 < 2 ^ 32" using calculation unat_less_32 [of l] by simp
  then show u: "unat (c + 1) = unat c + 1" using unat_plus_small [of c 1] by simp
  ultimately show "c + 1 \<le> l" "l \<le> c + 1 \<longleftrightarrow> unat c + 1 = unat l"
    by (auto simp: word_le_nat_alt u)
qed

lemma control_bit3: "bit (c OR 8) n \<longleftrightarrow> bit c n \<or> n = 3" for c :: u32
proof -
  have "bit (8 :: u32) n \<longleftrightarrow> n = 3" using bit_exp_iff [of 3 n, where ?'a = "32 word"] by auto
  then show ?thesis by (simp add: bit_or_iff)
qed

text \<open>The invariant of the iteration: what each number of ticks leaves.\<close>

lemma after_ticks1_state:
  assumes lim: "aux_limit1 s \<noteq> 0" and lt: "aux_count1 s < aux_limit1 s"
  defines "t n \<equiv> after_ticks1 n s"
  shows "aux_limit1 (t n) = aux_limit1 s \<and> aux_count1 (t n) < aux_limit1 s \<and> timer1_irq (t n) = timer1_irq s
    \<and> unat (aux_count1 (t n)) = (unat (aux_count1 s) + n) mod unat (aux_limit1 s)
    \<and> (\<forall>k. bit (aux_control1 (t n)) k \<longleftrightarrow>
          bit (aux_control1 s) k \<or> k = 3 \<and> unat (aux_limit1 s) \<le> unat (aux_count1 s) + n)
    \<and> aux_irq_pending (t n) = (if bit (aux_control1 s) 0 \<and> unat (aux_limit1 s) \<le> unat (aux_count1 s) + n
        then aux_irq_pending s OR push_bit (unat (timer1_irq s AND 31)) 1 else aux_irq_pending s)"
  unfolding t_def
proof (induction n)
  case 0
  have "unat (aux_count1 s) < unat (aux_limit1 s)" using lt by (simp add: word_less_nat_alt)
  then show ?case using lt by (auto simp: after_ticks1_def)
next
  case (Suc n)
  let ?t = "after_ticks1 n s" and ?L = "unat (aux_limit1 s)" and ?c = "unat (aux_count1 s)"
  have step: "after_ticks1 (Suc n) s = snd (tick_timer1 ?t)" by (simp add: after_ticks1_def)
  have ih: "aux_limit1 ?t = aux_limit1 s" "aux_count1 ?t < aux_limit1 s" "timer1_irq ?t = timer1_irq s"
    "unat (aux_count1 ?t) = (?c + n) mod ?L"
    "\<And>k. bit (aux_control1 ?t) k \<longleftrightarrow> bit (aux_control1 s) k \<or> k = 3 \<and> ?L \<le> ?c + n"
    "aux_irq_pending ?t = (if bit (aux_control1 s) 0 \<and> ?L \<le> ?c + n
        then aux_irq_pending s OR push_bit (unat (timer1_irq s AND 31)) 1 else aux_irq_pending s)"
    using Suc.IH by auto
  note next1 = unat_count_next [OF ih(2)]
  have pos: "0 < ?L" using lim by (simp add: unat_gt_0)
  show ?case
  proof (cases "aux_limit1 s \<le> aux_count1 ?t + 1")
    case True
    then have wrap: "(?c + n) mod ?L + 1 = ?L" using next1(3) ih(4) by simp
    then have reach: "?L \<le> ?c + Suc n"
      using mod_less_eq_dividend [of "?c + n" ?L] by linarith
    have zero: "(?c + Suc n) mod ?L = 0" using wrap by (simp add: mod_Suc)
    have ie: "(aux_control1 ?t OR 8) AND 1 \<noteq> 0 \<longleftrightarrow> bit (aux_control1 s) 0"
      using control_bit3 [of "aux_control1 ?t" 0] ih(5) [of 0] by simp
    show ?thesis
      using True lim pos reach zero wrap ih
      by (auto simp: step tick_timer1_def Let_def control_bit3 word_gt_0 or.assoc)
  next
    case False
    then have ne: "(?c + n) mod ?L + 1 \<noteq> ?L" using next1(3) ih(4) by simp
    have "unat (aux_count1 ?t) + 1 < ?L" using ne ih(2,4) by (simp add: word_less_nat_alt)
    then have "(?c + Suc n) mod ?L = (?c + n) mod ?L + 1" using ne mod_Suc [of "?c + n" ?L] by simp
    moreover have "?L \<le> ?c + Suc n \<longleftrightarrow> ?L \<le> ?c + n"
    proof -
      have "?c + Suc n \<noteq> ?L" using ne pos mod_Suc [of "?c + n" ?L] by (metis add_Suc_right add.commute mod_self nat.simps(3) plus_1_eq_Suc)
      then show ?thesis by linarith
    qed
    ultimately show ?thesis
      using False lim ih next1 \<open>unat (aux_count1 ?t) + 1 < ?L\<close>
      by (auto simp: step tick_timer1_def Let_def word_less_nat_alt)
  qed
qed

text \<open>Timer 1 with limit L counts modulo L: after n ticks the count is \<open>(c + n) mod L\<close>, and the first
  tick that reaches the limit sets the IP bit and, with IE set, makes the interrupt of the timer
  pending; no tick before it does.\<close>

theorem timer1_period:
  assumes "aux_limit1 s \<noteq> 0" and "aux_count1 s < aux_limit1 s"
  shows "unat (aux_count1 (after_ticks1 n s)) = (unat (aux_count1 s) + n) mod unat (aux_limit1 s)
    \<and> (bit (aux_control1 (after_ticks1 n s)) 3 \<longleftrightarrow>
         bit (aux_control1 s) 3 \<or> unat (aux_limit1 s) \<le> unat (aux_count1 s) + n)
    \<and> (bit (aux_irq_pending (after_ticks1 n s)) (unat (timer1_irq s AND 31)) \<longleftrightarrow>
         bit (aux_irq_pending s) (unat (timer1_irq s AND 31))
         \<or> bit (aux_control1 s) 0 \<and> unat (aux_limit1 s) \<le> unat (aux_count1 s) + n)"
proof -
  have "bit (push_bit (unat (timer1_irq s AND 31)) (1 :: u32)) (unat (timer1_irq s AND 31))"
  proof -
    have "timer1_irq s AND 31 \<le> 31" by (rule word_and_le1)
    then have "unat (timer1_irq s AND 31) < 32" by (simp add: word_le_nat_alt)
    then show ?thesis by (simp add: bit_simps)
  qed
  then show ?thesis using after_ticks1_state [OF assms, of n] by (auto simp: bit_or_iff)
qed

theorem timer1_period_witness:
  "unat (aux_count1 (after_ticks1 25 (new_cpu_state\<lparr>aux_limit1 := 10, aux_count1 := 3\<rparr>))) = 8"
  using timer1_period [of "new_cpu_state\<lparr>aux_limit1 := 10, aux_count1 := 3\<rparr>" 25] by simp

section \<open>The rate of the timers\<close>

text \<open>With both limits 0 the timers only count.\<close>

definition free_running :: "cpu_state \<Rightarrow> bool" where
  "free_running s \<longleftrightarrow> aux_limit0 s = 0 \<and> aux_limit1 s = 0"

definition counted :: "nat \<Rightarrow> cpu_state \<Rightarrow> cpu_state" where
  "counted n s = s\<lparr>aux_count0 := aux_count0 s + of_nat n, aux_count1 := aux_count1 s + of_nat n\<rparr>"

lemma counted_simps [simp]:
  "counted m (counted n s) = counted (n + m) s" "free_running (counted n s) = free_running s"
  "counted 0 s = s"
  by (simp_all add: counted_def free_running_def add.assoc)

lemma tick_once_free:
  "free_running (cpu_regs c) \<Longrightarrow> tick_arc_timers_once D c = (Inr (), regs_modify (counted 1) c)"
  by (simp add: tick_once_eq tick_timer0_def tick_timer1_def free_running_def counted_def Let_def regs_modify_def)

lemma timer_loop_free:
  "free_running (cpu_regs c) \<Longrightarrow> timer_loop D c =
     (Inr (), regs_modify (counted (unat (c_timer_frac c) div 100))
                (c\<lparr>c_timer_frac := of_nat (unat (c_timer_frac c) mod 100)\<rparr>))"
proof (induction "unat (c_timer_frac c)" arbitrary: c rule: less_induct)
  case less
  show ?case
  proof (cases "c_timer_frac c \<ge> 100")
    case True
    then have le: "100 \<le> unat (c_timer_frac c)" by (simp add: word_le_nat_alt)
    have frac: "unat (c_timer_frac c - 100) = unat (c_timer_frac c) - 100"
      using unat_sub [OF True] by simp
    let ?c = "regs_modify (counted 1) (c\<lparr>c_timer_frac := c_timer_frac c - 100\<rparr>)"
    have "unat (c_timer_frac ?c) < unat (c_timer_frac c)" "free_running (cpu_regs ?c)"
      using frac le less.prems by simp_all
    note ih = less.hyps [OF this]
    have tick: "tick_arc_timers_once D (c\<lparr>c_timer_frac := c_timer_frac c - 100\<rparr>) = (Inr (), ?c)"
      by (rule tick_once_free) (use less.prems in simp)
    have "timer_loop D c = timer_loop D ?c"
      by (subst timer_loop_unfold) (use True tick in \<open>simp add: op_defs\<close>)
    also have "\<dots> = (Inr (), regs_modify (counted (unat (c_timer_frac c) div 100))
                (c\<lparr>c_timer_frac := of_nat (unat (c_timer_frac c) mod 100)\<rparr>))"
      unfolding ih using le le_div_geq [OF _ le] le_mod_geq [OF le]
      by (simp add: regs_modify_def frac)
    finally show ?thesis .
  next
    case False
    then have "unat (c_timer_frac c) < 100" by (simp add: word_le_nat_alt not_le)
    then show ?thesis
      using False by (subst timer_loop_unfold) (simp add: op_defs regs_modify_def)
  qed
qed

lemma timers_and_bank_free:
  assumes "free_running (cpu_regs c)" and "c_timer_frac c < 100"
  obtains c' where "tick_timers_and_bank D c = (Inr (), c')"
    and "cpu_regs c' = counted ((unat (c_timer_frac c) + 176) div 100) (cpu_regs c)"
    and "unat (c_timer_frac c') = (unat (c_timer_frac c) + 176) mod 100"
proof -
  have lt: "unat (c_timer_frac c) < 100" using assms(2) by (simp add: word_less_nat_alt)
  then have sum: "unat (c_timer_frac c + 176) = unat (c_timer_frac c) + 176"
    using unat_plus_small [of "c_timer_frac c" 176] by simp
  have small: "unat (of_nat (k mod 100) :: u32) = k mod 100" for k :: nat
    by (rule of_nat_inverse) (auto intro: less_trans [OF mod_less_divisor])
  let ?c = "c\<lparr>c_timer_frac := c_timer_frac c + 176\<rparr>"
  have "timer_loop D ?c = (Inr (), regs_modify (counted ((unat (c_timer_frac c) + 176) div 100))
        (?c\<lparr>c_timer_frac := of_nat ((unat (c_timer_frac c) + 176) mod 100)\<rparr>))"
    using timer_loop_free [of ?c D] assms(1) sum by simp
  then show thesis
    using that
    by (cases "BANK_TICK_PRESCALER \<le> c_bank_ticks c + 1")
      (simp_all add: tick_timers_and_bank_def op_defs small regs_modify_def mem_modify_def)
qed

text \<open>The free-running timers tick 1.76 times per step, exactly: after n steps both counts have advanced by
  \<open>(176 * n + f) div 100\<close>, where f is what the accumulator held, and the accumulator holds the rest.\<close>

theorem timer_rate:
  assumes "free_running (cpu_regs c)" and "c_timer_frac c < 100"
  shows "\<exists>c'. repeatM n (tick_timers_and_bank D) c = (Inr (), c')
    \<and> cpu_regs c' = counted ((unat (c_timer_frac c) + 176 * n) div 100) (cpu_regs c)
    \<and> unat (c_timer_frac c') = (unat (c_timer_frac c) + 176 * n) mod 100"
  using assms
proof (induction n arbitrary: c)
  case 0
  then show ?case by (simp add: returnM_def word_less_nat_alt)
next
  case (Suc n)
  obtain c1 where 1: "tick_timers_and_bank D c = (Inr (), c1)"
    "cpu_regs c1 = counted ((unat (c_timer_frac c) + 176) div 100) (cpu_regs c)"
    "unat (c_timer_frac c1) = (unat (c_timer_frac c) + 176) mod 100"
    by (rule timers_and_bank_free [OF Suc.prems])
  have "free_running (cpu_regs c1)" "c_timer_frac c1 < 100"
    using Suc.prems 1(2,3) by (simp_all add: word_less_nat_alt)
  from Suc.IH [OF this] obtain c2 where 2: "repeatM n (tick_timers_and_bank D) c1 = (Inr (), c2)"
    "cpu_regs c2 = counted ((unat (c_timer_frac c1) + 176 * n) div 100) (cpu_regs c1)"
    "unat (c_timer_frac c2) = (unat (c_timer_frac c1) + 176 * n) mod 100" by blast
  let ?x = "unat (c_timer_frac c) + 176"
  have "x div 100 + (x mod 100 + y) div 100 = (x + y) div 100" for x y :: nat
  proof -
    have "(x + y) div 100 = ((x mod 100 + y) + x div 100 * 100) div 100" by presburger
    also have "\<dots> = x div 100 + (x mod 100 + y) div 100" by (rule div_mult_self1) simp
    finally show ?thesis by simp
  qed
  then have "cpu_regs c2 = counted ((?x + 176 * n) div 100) (cpu_regs c)"
    unfolding 2(2) 1(2,3) counted_simps by (simp only: add.commute)
  moreover have "unat (c_timer_frac c2) = (?x + 176 * n) mod 100"
    unfolding 2(3) 1(3) by (rule mod_add_left_eq)
  moreover have "?x + 176 * n = unat (c_timer_frac c) + 176 * Suc n" by simp
  ultimately show ?case
    using 1(1) 2(1) by (auto simp: thenM_def bindM_def)
qed

theorem timer_rate_witness:
  "\<forall>D :: unit device_ops. \<exists>c'. repeatM 25 (tick_timers_and_bank D) (new_cpu 64) = (Inr (), c')
     \<and> aux_count0 (cpu_regs c') = 44"
proof
  fix D :: "unit device_ops"
  have "free_running (cpu_regs (new_cpu 64))" "c_timer_frac (new_cpu 64) < 100"
    by (simp_all add: free_running_def new_cpu_def new_cpu_state_def)
  from timer_rate [OF this, of 25 D]
  show "\<exists>c'. repeatM 25 (tick_timers_and_bank D) (new_cpu 64) = (Inr (), c') \<and> aux_count0 (cpu_regs c') = 44"
    by (auto simp: counted_def new_cpu_def new_cpu_state_def)
qed

section \<open>The watchdog\<close>

lemma or_8_and: "(c OR 8) AND 4 = c AND 4" "(c OR 8) AND 1 = c AND 1" "(c OR 8) AND 2 = c AND 2" for c :: u32
  by (simp_all add: bit.conj_disj_distrib2)

text \<open>The watchdog signal of a tick, and what the tick does besides.\<close>

lemma tick_timer0_cases:
  "tick_timer0 s =
     (if aux_limit0 s \<noteq> 0 \<and> aux_limit0 s \<le> aux_count0 s + 1 then
        (aux_control0 s AND 4 \<noteq> 0,
         s\<lparr>aux_count0 := (if aux_control0 s AND 2 = 0 then 0 else aux_count0 s + 1),
           aux_control0 := aux_control0 s OR 8,
           aux_irq_pending := (if aux_control0 s AND 1 \<noteq> 0 then aux_irq_pending s OR push_bit 3 1 else aux_irq_pending s)\<rparr>)
      else (False, s\<lparr>aux_count0 := aux_count0 s + 1\<rparr>))"
  unfolding tick_timer0_def Let_def
  by (simp del: bit_set_iff_bit bit_set_0_iff_bit push_bit_Suc push_bit_of_1 add: or_8_and)

lemma tick_timer1_cases:
  "tick_timer1 s =
     (if aux_limit1 s \<noteq> 0 \<and> aux_limit1 s \<le> aux_count1 s + 1 then
        (aux_control1 s AND 4 \<noteq> 0,
         s\<lparr>aux_count1 := 0, aux_control1 := aux_control1 s OR 8,
           aux_irq_pending := (if aux_control1 s AND 1 \<noteq> 0
             then aux_irq_pending s OR push_bit (unat (timer1_irq s AND 31)) 1 else aux_irq_pending s)\<rparr>)
      else (False, s\<lparr>aux_count1 := aux_count1 s + 1\<rparr>))"
  unfolding tick_timer1_def Let_def
  by (simp del: bit_set_iff_bit bit_set_0_iff_bit add: or_8_and)

definition timer_fields_only :: "cpu_state \<Rightarrow> cpu_state \<Rightarrow> bool" where
  "timer_fields_only s t \<longleftrightarrow>
     t = s\<lparr>aux_count0 := aux_count0 t, aux_control0 := aux_control0 t, aux_count1 := aux_count1 t,
           aux_control1 := aux_control1 t, aux_irq_pending := aux_irq_pending t\<rparr>"

lemma ticks_timer_fields:
  assumes "tick_timer0 s = (w0, s1)" and "tick_timer1 s1 = (w1, s2)"
  shows "timer_fields_only s s2" and "w0 \<Longrightarrow> timer_is_watchdog (aux_control0 s) (aux_limit0 s)"
    and "w1 \<Longrightarrow> timer_is_watchdog (aux_control1 s) (aux_limit1 s)"
  using assms
  by (auto simp: tick_timer0_cases tick_timer1_cases timer_fields_only_def timer_is_watchdog_def split: if_splits)

text \<open>The chip resets only when the firmware armed a watchdog: a timer tick with no W bit set on a timer
  with a limit changes the counts, the control bits and the pending interrupts alone; memory, caches,
  devices, program counter and call stack stay as they are, however long the program has been spinning.\<close>

theorem reset_only_by_watchdog:
  assumes "\<not> timer_is_watchdog (aux_control0 (cpu_regs c)) (aux_limit0 (cpu_regs c))"
    and "\<not> timer_is_watchdog (aux_control1 (cpu_regs c)) (aux_limit1 (cpu_regs c))"
  shows "\<exists>s. tick_arc_timers_once D c = (Inr (), regs_modify (\<lambda>_. s) c) \<and> timer_fields_only (cpu_regs c) s"
proof -
  obtain w0 s1 where 0: "tick_timer0 (cpu_regs c) = (w0, s1)" by (cases "tick_timer0 (cpu_regs c)")
  obtain w1 s2 where 1: "tick_timer1 s1 = (w1, s2)" by (cases "tick_timer1 s1")
  have "\<not> w0" "\<not> w1" "timer_fields_only (cpu_regs c) s2"
    using ticks_timer_fields [OF 0 1] assms by blast+
  then show ?thesis by (auto simp: tick_once_eq 0 1)
qed

theorem reset_only_by_watchdog_witness:
  "\<forall>D :: unit device_ops. \<exists>s. tick_arc_timers_once D (new_cpu 8) = (Inr (), regs_modify (\<lambda>_. s) (new_cpu 8))
     \<and> timer_fields_only (cpu_regs (new_cpu 8)) s"
  using reset_only_by_watchdog [of "new_cpu 8 :: unit cpu"]
  by (simp add: timer_is_watchdog_def new_cpu_def new_cpu_state_def)

section \<open>A stalled program counter\<close>

lemma limit_reached: "(l :: u32) \<noteq> 0 \<Longrightarrow> l \<le> (if l = 0 then 0 else l - 1) + 1"
  by simp

text \<open>A program that spins with an armed watchdog is reset by the very next timer tick, which the
  fast-forward leaves one short of the limit; the fast-forward touches the counts alone.\<close>

theorem armed_watchdog_fires:
  assumes "classify_spin c = WatchdogArmed" and "cpu_bank c = Some b"
  defines "c' \<equiv> regs_modify fast_forward_armed_watchdog c"
  shows "timer_fields_only (cpu_regs c) (cpu_regs c') \<and> aux_irq_pending (cpu_regs c') = aux_irq_pending (cpu_regs c)
    \<and> (\<exists>s. tick_arc_timers_once D c' = warm_reboot_from_flash D (regs_modify (\<lambda>_. s) c'))"
proof -
  let ?s = "cpu_regs c" and ?t = "cpu_regs c'"
  have armed: "timer_is_watchdog (aux_control0 ?s) (aux_limit0 ?s) \<or> timer_is_watchdog (aux_control1 ?s) (aux_limit1 ?s)"
    using assms(1) by (auto simp: classify_spin_def Let_def split: if_splits)
  have t: "?t = fast_forward_armed_watchdog ?s" by (simp add: c'_def)
  have only: "timer_fields_only ?s ?t \<and> aux_irq_pending ?t = aux_irq_pending ?s"
    by (simp add: t fast_forward_armed_watchdog_def timer_fields_only_def Let_def)
  obtain w0 s1 where 0: "tick_timer0 ?t = (w0, s1)" by (cases "tick_timer0 ?t")
  obtain w1 s2 where 1: "tick_timer1 s1 = (w1, s2)" by (cases "tick_timer1 s1")
  have "w0 \<or> w1"
    using armed 0 1
    by (auto simp: t fast_forward_armed_watchdog_def tick_timer0_cases tick_timer1_cases timer_is_watchdog_def
        Let_def split: if_splits)
  moreover have "cpu_bank c' \<noteq> None" using assms(2) by (simp add: c'_def)
  ultimately have "tick_arc_timers_once D c' = warm_reboot_from_flash D (regs_modify (\<lambda>_. s2) c')"
    by (simp add: tick_once_eq 0 1)
  then show ?thesis using only by blast
qed

theorem armed_watchdog_fires_witness:
  "\<forall>(D :: unit device_ops) (b :: unit bank). let c = new_bcm55030 [] b;
       c0 = regs_modify (\<lambda>s. s\<lparr>aux_control0 := 4, aux_limit0 := 15625000\<rparr>) c in
     aux_count0 (cpu_regs (regs_modify fast_forward_armed_watchdog c0)) = 15624999
     \<and> (\<exists>s. tick_arc_timers_once D (regs_modify fast_forward_armed_watchdog c0)
            = warm_reboot_from_flash D (regs_modify (\<lambda>_. s) (regs_modify fast_forward_armed_watchdog c0)))"
proof (intro allI)
  fix D :: "unit device_ops" and b :: "unit bank"
  let ?c0 = "regs_modify (\<lambda>s. s\<lparr>aux_control0 := 4, aux_limit0 := 15625000\<rparr>) (new_bcm55030 [] b)"
  have "classify_spin ?c0 = WatchdogArmed" "cpu_bank ?c0 = Some b"
    by (simp_all add: classify_spin_def timer_is_watchdog_def Let_def new_bcm55030_def memory_new_soc_def)
  from armed_watchdog_fires [OF this, of D]
  show "let c = new_bcm55030 [] b;
       c0 = regs_modify (\<lambda>s. s\<lparr>aux_control0 := 4, aux_limit0 := 15625000\<rparr>) c in
     aux_count0 (cpu_regs (regs_modify fast_forward_armed_watchdog c0)) = 15624999
     \<and> (\<exists>s. tick_arc_timers_once D (regs_modify fast_forward_armed_watchdog c0)
            = warm_reboot_from_flash D (regs_modify (\<lambda>_. s) (regs_modify fast_forward_armed_watchdog c0)))"
    by (simp add: Let_def fast_forward_armed_watchdog_def timer_is_watchdog_def new_bcm55030_def new_cpu_state_def)
qed

text \<open>Nothing can wake a hung processor: no interrupt is taken, however many ticks pass.\<close>

definition quiet :: "'p device_ops \<Rightarrow> 'p cpu \<Rightarrow> bool" where
  "quiet D c \<longleftrightarrow> (\<exists>b. cpu_bank c = Some b \<and> \<not> dev_uart_irq D b)"

lemma hung_fields:
  assumes "classify_spin c = Hung"
  shows "\<not> timer_is_watchdog (aux_control0 (cpu_regs c)) (aux_limit0 (cpu_regs c))"
    "\<not> timer_is_watchdog (aux_control1 (cpu_regs c)) (aux_limit1 (cpu_regs c))"
    "\<not> flag_e1 (cpu_regs c) \<and> \<not> flag_e2 (cpu_regs c)
     \<or> aux_irq_pending (cpu_regs c) = 0
       \<and> (aux_control0 (cpu_regs c) AND 1 = 0 \<or> aux_limit0 (cpu_regs c) = 0)
       \<and> (aux_control1 (cpu_regs c) AND 1 = 0 \<or> aux_limit1 (cpu_regs c) = 0)
       \<and> (\<forall>b. cpu_bank c = Some b \<longrightarrow> bank_irq_pending b = 0)"
  using assms by (auto simp: classify_spin_def Let_def split: if_splits option.splits)

lemma tick0_keeps [simp]:
  "aux_limit0 (snd (tick_timer0 s)) = aux_limit0 s" "aux_limit1 (snd (tick_timer0 s)) = aux_limit1 s"
  "flag_e1 (snd (tick_timer0 s)) = flag_e1 s" "flag_e2 (snd (tick_timer0 s)) = flag_e2 s"
  "aux_control1 (snd (tick_timer0 s)) = aux_control1 s"
  "aux_control0 (snd (tick_timer0 s)) AND 4 = aux_control0 s AND 4"
  "bit (aux_control0 (snd (tick_timer0 s))) 0 = bit (aux_control0 s) 0"
  by (simp_all add: tick_timer0_cases or_8_and control_bit3)

lemma tick1_keeps [simp]:
  "aux_limit0 (snd (tick_timer1 s)) = aux_limit0 s" "aux_limit1 (snd (tick_timer1 s)) = aux_limit1 s"
  "flag_e1 (snd (tick_timer1 s)) = flag_e1 s" "flag_e2 (snd (tick_timer1 s)) = flag_e2 s"
  "aux_control0 (snd (tick_timer1 s)) = aux_control0 s"
  "aux_control1 (snd (tick_timer1 s)) AND 4 = aux_control1 s AND 4"
  "bit (aux_control1 (snd (tick_timer1 s))) 0 = bit (aux_control1 s) 0"
  by (simp_all add: tick_timer1_cases or_8_and control_bit3)

lemma ticks_keep_pending:
  "\<not> bit (aux_control0 s) 0 \<or> aux_limit0 s = 0 \<Longrightarrow> aux_irq_pending (snd (tick_timer0 s)) = aux_irq_pending s"
  "\<not> bit (aux_control1 s) 0 \<or> aux_limit1 s = 0 \<Longrightarrow> aux_irq_pending (snd (tick_timer1 s)) = aux_irq_pending s"
  by (auto simp: tick_timer0_cases tick_timer1_cases)

definition irq_deliverable :: "'p device_ops \<Rightarrow> 'p cpu \<Rightarrow> bool" where
  "irq_deliverable D c \<longleftrightarrow> fst (take_interrupt (cpu_bank c) (cpu_regs (check_uart_irq D c)))"

lemma hung_not_deliverable:
  assumes hung: "classify_spin c = Hung" and quiet: "quiet D c"
  shows "\<not> irq_deliverable D c"
proof -
  obtain b where b: "cpu_bank c = Some b" "\<not> dev_uart_irq D b" using quiet by (auto simp: quiet_def)
  from hung_fields(3) [OF hung] show ?thesis
  proof
    assume "\<not> flag_e1 (cpu_regs c) \<and> \<not> flag_e2 (cpu_regs c)"
    then show ?thesis
      using b by (simp add: irq_deliverable_def take_interrupt_def check_uart_irq_def Let_def)
  next
    assume "aux_irq_pending (cpu_regs c) = 0
       \<and> (aux_control0 (cpu_regs c) AND 1 = 0 \<or> aux_limit0 (cpu_regs c) = 0)
       \<and> (aux_control1 (cpu_regs c) AND 1 = 0 \<or> aux_limit1 (cpu_regs c) = 0)
       \<and> (\<forall>b. cpu_bank c = Some b \<longrightarrow> bank_irq_pending b = 0)"
    then show ?thesis
      using b by (simp add: irq_deliverable_def take_interrupt_def check_uart_irq_def)
  qed
qed

text \<open>C9. A spin judged hung stays hung: as long as the bank raises no line and the UART stays quiet, a timer
  tick causes no reset, leaves the verdict Hung, and neither before nor after it an interrupt can be
  delivered.\<close>

theorem hung_stays_hung:
  assumes hung: "classify_spin c = Hung" and quiet: "quiet D c"
  shows "\<exists>s. tick_arc_timers_once D c = (Inr (), regs_modify (\<lambda>_. s) c)
    \<and> classify_spin (regs_modify (\<lambda>_. s) c) = Hung
    \<and> \<not> irq_deliverable D c \<and> \<not> irq_deliverable D (regs_modify (\<lambda>_. s) c)"
proof -
  let ?s = "cpu_regs c"
  obtain w0 s1 where 0: "tick_timer0 ?s = (w0, s1)" by (cases "tick_timer0 ?s")
  obtain w1 s2 where 1: "tick_timer1 s1 = (w1, s2)" by (cases "tick_timer1 s1")
  have "\<not> w0" "\<not> w1" using ticks_timer_fields(2,3) [OF 0 1] hung_fields(1,2) [OF hung] by blast+
  then have tick: "tick_arc_timers_once D c = (Inr (), regs_modify (\<lambda>_. s2) c)" by (simp add: tick_once_eq 0 1)
  have s2: "s2 = snd (tick_timer1 (snd (tick_timer0 ?s)))" by (simp add: 0 1)
  have "classify_spin (regs_modify (\<lambda>_. s2) c) = Hung"
  proof (cases "flag_e1 ?s \<or> flag_e2 ?s")
    case True
    then have off: "aux_irq_pending ?s = 0" "\<not> bit (aux_control0 ?s) 0 \<or> aux_limit0 ?s = 0"
      "\<not> bit (aux_control1 ?s) 0 \<or> aux_limit1 ?s = 0" "\<forall>b. cpu_bank c = Some b \<longrightarrow> bank_irq_pending b = 0"
      using hung_fields(3) [OF hung] by (simp_all, blast+)
    have "aux_irq_pending s2 = 0"
      unfolding s2 using off ticks_keep_pending(1) [of ?s] ticks_keep_pending(2) [of "snd (tick_timer0 ?s)"] by simp
    then show ?thesis
      using hung_fields(1,2) [OF hung] off
      by (simp add: classify_spin_def timer_is_watchdog_def Let_def s2 split: option.split)
  next
    case False
    then show ?thesis
      using hung_fields(1,2) [OF hung] by (simp add: classify_spin_def timer_is_watchdog_def Let_def s2)
  qed
  moreover have "quiet D (regs_modify (\<lambda>_. s2) c)" using quiet by (simp add: quiet_def)
  ultimately show ?thesis
    using tick hung_not_deliverable [OF hung quiet] hung_not_deliverable by blast
qed

definition spinning_idle :: "unit cpu" where
  "spinning_idle = new_bcm55030 [] zero_bank"

theorem hung_stays_hung_witness:
  "\<exists>s. tick_arc_timers_once zero_devices spinning_idle = (Inr (), regs_modify (\<lambda>_. s) spinning_idle)
     \<and> classify_spin (regs_modify (\<lambda>_. s) spinning_idle) = Hung"
proof -
  have "classify_spin spinning_idle = Hung" "quiet zero_devices spinning_idle"
    by (simp_all add: classify_spin_def timer_is_watchdog_def Let_def spinning_idle_def new_bcm55030_def
        new_cpu_state_def quiet_def zero_devices_def memory_new_soc_def zero_bank_def)
  from hung_stays_hung [OF this] show ?thesis by blast
qed

text \<open>The verdict does not look at the UART: with interrupts enabled and a byte waiting, a processor judged
  hung would have taken the interrupt.\<close>

lemma hung_despite_uart:
  defines "D \<equiv> zero_devices\<lparr>dev_uart_irq := \<lambda>_. True\<rparr>"
    and "c \<equiv> regs_modify (\<lambda>s. s\<lparr>flag_e1 := True\<rparr>) spinning_idle"
  shows "classify_spin c = Hung \<and> irq_deliverable D c"
proof -
  have fields: "aux_irq_pending (cpu_regs c) = 0" "flag_e1 (cpu_regs c)" "\<not> flag_a1 (cpu_regs c)"
    "aux_irq_lev (cpu_regs c) = 0" "delay_state (cpu_regs c) = Delay_None" "cpu_bank c = Some zero_bank"
    "instruction_count (cpu_regs c) = 0" "aux_limit0 (cpu_regs c) = 0" "aux_limit1 (cpu_regs c) = 0"
    by (simp_all add: c_def spinning_idle_def new_bcm55030_def new_cpu_state_def memory_new_soc_def)
  have b: "bank_irq_pending zero_bank = 0" "dev_uart_irq D zero_bank"
    by (simp_all add: zero_bank_def D_def)
  have "[0..<32] = [0, 1, 2, 3, 4] @ 5 # [6..<32]" by (simp add: upt_rec)
  moreover have "bit (32 :: u32) 5" "\<not> bit (32 :: u32) 0" "\<not> bit (32 :: u32) 1" "\<not> bit (32 :: u32) 2"
    "\<not> bit (32 :: u32) 3" "\<not> bit (32 :: u32) 4"
    using bit_exp_iff [of 5 _, where ?'a = "32 word"] by simp_all
  ultimately have "trailing_zeros 32 = 5" by (simp add: trailing_zeros_def)
  moreover have "aux_irq_pending (cpu_regs (check_uart_irq D c)) = 32"
    by (simp add: check_uart_irq_def fields b Let_def)
  ultimately have "fst (take_interrupt (cpu_bank c) (cpu_regs (check_uart_irq D c)))"
    by (simp add: take_interrupt_def Let_def) (simp add: check_uart_irq_def fields b Let_def)
  moreover have "classify_spin c = Hung"
    by (simp add: classify_spin_def timer_is_watchdog_def fields b)
  ultimately show ?thesis by (simp add: irq_deliverable_def)
qed

end
