(* ===== verification/Cpu_Props.thy ===== *)
theory Cpu_Props
  imports Cpu_Safe Cpu_Timers
begin

text \<open>
  Properties of the processor loop: absence of panics on reachable states, interrupt entry and
  return, the timers and the watchdog, the verdict on a stalled program counter, zero-overhead
  loops and resets.
\<close>

section \<open>Reachable processors\<close>

text \<open>A processor is built with an SRAM image and a bank; then it takes steps, and between steps its
  host may set and clear breakpoints, resume it or reset it.\<close>

inductive reachable :: "'p device_ops \<Rightarrow> u8 list \<Rightarrow> 'p bank \<Rightarrow> 'p cpu \<Rightarrow> bool"
  for D :: "'p device_ops" and img :: "u8 list" and b :: "'p bank" where
  start: "reachable D img b (new_bcm55030 img b)"
| step: "reachable D img b c \<Longrightarrow> step D c = (r, c') \<Longrightarrow> reachable D img b c'"
| breakpoint: "reachable D img b c \<Longrightarrow> reachable D img b (c\<lparr>c_hooks := (c_hooks c)(a := h)\<rparr>)"
    if "h = None \<or> h = Some Hook_Breakpoint"
| resume: "reachable D img b c \<Longrightarrow> reachable D img b (regs_modify (\<lambda>s. s\<lparr>paused := False\<rparr>) c)"
| reset: "reachable D img b c \<Longrightarrow> reset_soc_in_place D mode c = (r, c') \<Longrightarrow> reachable D img b c'"

inductive_cases reachable_cases: "reachable D img b c"

definition boot_image :: "u8 list \<Rightarrow> bool" where
  "boot_image img \<longleftrightarrow> 32 dvd length img \<and> length img < 2 ^ 32 \<and> 64 * 1024 \<le> length img"

lemma reachable_ok:
  assumes D: "devices_ok I D" and img: "boot_image img" and b: "bank_ok I b" and r: "reachable D img b c"
  shows "cpu_ok I c"
  using r
proof (induction rule: reachable.induct)
  case start
  then show ?case using img b by (intro cpu_ok_new) (auto simp: boot_image_def)
next
  case (step c r c')
  then show ?case using safeD [OF safe_step [OF D] step.IH] by simp
next
  case (breakpoint h c a)
  then show ?case by (auto simp: cpu_ok_def)
next
  case (resume c)
  then show ?case by (intro cpu_ok_regs) (auto simp: regs_ok_def)
next
  case (reset c mode r c')
  then show ?case using safeD [OF safe_reset_soc [OF D] reset.IH, of mode] by simp
qed


lemma boot_image_zeros: "boot_image (replicate 65536 0)"
  by (simp add: boot_image_def)


section \<open>Interrupt entry\<close>

lemma takeWhile_upt:
  "length (takeWhile (\<lambda>n. \<not> P n) [0..<k]) = (if \<exists>n < k. P n then LEAST n. P n else k)"
proof (cases "\<exists>n < k. P n")
  case True
  define l where "l = (LEAST n. P n)"
  have l: "P l" "l < k" "\<And>n. n < l \<Longrightarrow> \<not> P n"
    using True unfolding l_def by (auto intro: LeastI dest: not_less_Least order.strict_trans1 [OF Least_le])
  have "[0..<k] = [0..<l] @ l # [Suc l..<k]"
    using l(2) by (metis le_add_diff_inverse less_imp_le_nat upt_add_eq_append upt_conv_Cons zero_le)
  then have "takeWhile (\<lambda>n. \<not> P n) [0..<k] = [0..<l]"
    using l by (simp add: takeWhile_append2 takeWhile_tail)
  then show ?thesis using True l_def by simp
next
  case False
  then have tw: "takeWhile (\<lambda>n. \<not> P n) [0..<k] = [0..<k]" by (simp add: takeWhile_eq_all_conv)
  show ?thesis unfolding if_not_P [OF False] tw by simp
qed

lemma trailing_zeros_least:
  assumes "x \<noteq> 0"
  shows "trailing_zeros x = (LEAST n. bit x n)" "bit x (trailing_zeros x)" "trailing_zeros x < 32"
proof -
  obtain n where "bit x n" using assms by (metis bit_eqI bit_0_eq bot_apply bot_bool_def)
  moreover from this have "n < 32" using bit_imp_le_length by fastforce
  ultimately show "trailing_zeros x = (LEAST n. bit x n)"
    using takeWhile_upt [of "bit x" 32] by (auto simp: trailing_zeros_def)
  then show "bit x (trailing_zeros x)" using \<open>bit x n\<close> LeastI by metis
  then show "trailing_zeros x < 32" using bit_imp_le_length by fastforce
qed

text \<open>The line that would be taken and its level.\<close>

definition next_irq :: "cpu_state \<Rightarrow> nat" where
  "next_irq s = (LEAST n. bit (aux_irq_pending s) n)"

definition irq_level2 :: "cpu_state \<Rightarrow> bool" where
  "irq_level2 s \<longleftrightarrow> bit (aux_irq_lev s) (next_irq s)"

definition irq_allowed :: "cpu_state \<Rightarrow> bool" where
  "irq_allowed s \<longleftrightarrow> delay_state s = Delay_None \<and> aux_irq_pending s \<noteq> 0
     \<and> (if irq_level2 s then flag_e2 s \<and> \<not> flag_a2 s else flag_e1 s \<and> \<not> flag_a1 s)"

definition entered :: "'p bank option \<Rightarrow> cpu_state \<Rightarrow> cpu_state" where
  "entered bk s =
     (let s1 = (if irq_level2 s then enter_level2 (next_irq s) s else enter_level1 (next_irq s) s)
      in s1\<lparr>aux_irq_pending := aux_irq_pending s AND NOT (push_bit (next_irq s) 1),
            pc := vector_target bk (next_irq s) s, pc_written := True\<rparr>)"

lemma take_interrupt_eq:
  "take_interrupt bk s = (if irq_allowed s then (True, entered bk s) else (False, s))"
proof (cases "aux_irq_pending s = 0")
  case True
  then show ?thesis by (simp add: take_interrupt_def irq_allowed_def)
next
  case False
  note tz = trailing_zeros_least [OF False]
  have base: "vector_target bk n (enter_level1 n s) = vector_target bk n s"
    "vector_target bk n (enter_level2 n s) = vector_target bk n s"
    "vector_target bk n (t\<lparr>aux_irq_pending := x\<rparr>) = vector_target bk n t" for n t x
    by (simp_all add: vector_target_def enter_level1_def enter_level2_def split: option.split)
  have pend: "aux_irq_pending (enter_level1 n s) = aux_irq_pending s"
    "aux_irq_pending (enter_level2 n s) = aux_irq_pending s" for n
    by (simp_all add: enter_level1_def enter_level2_def)
  show ?thesis
    using False tz(3)
    by (simp add: take_interrupt_def irq_allowed_def entered_def irq_level2_def next_irq_def
        tz(1) [symmetric] Let_def base pend)
qed

text \<open>C13. Which interrupt is taken: the pending line with the lowest number, and only that one is considered,
  so it is taken exactly when no delay slot is open and its own level is enabled and not active; then its
  pending bit alone is cleared, the old program counter is in the link register of its level, user mode is
  left, and execution goes on at the vector the oscillator table gives, else in SRAM at base plus 8 times
  the line.\<close>

theorem interrupt_selection:
  "case take_interrupt bk s of (taken, t) \<Rightarrow>
     (taken \<longleftrightarrow> irq_allowed s) \<and> (\<not> taken \<longrightarrow> t = s)
     \<and> (taken \<longrightarrow> bit (aux_irq_pending s) (next_irq s) \<and> (\<forall>n < next_irq s. \<not> bit (aux_irq_pending s) n)
          \<and> (\<forall>n. bit (aux_irq_pending t) n \<longleftrightarrow> bit (aux_irq_pending s) n \<and> n \<noteq> next_irq s)
          \<and> core_regs t = (core_regs s)[(if irq_level2 s then 30 else 29) := pc s]
          \<and> \<not> flag_u t
          \<and> pc t = (case Option.bind bk (\<lambda>b. interrupt_vector (of_nat (next_irq s)) (bank_nco b)) of
                      Some target \<Rightarrow> target
                    | None \<Rightarrow> aux_int_vector_base s + of_nat (next_irq s) * 8))"
proof (cases "irq_allowed s")
  case True
  then have ne: "aux_irq_pending s \<noteq> 0" by (simp add: irq_allowed_def)
  have bits: "bit (aux_irq_pending s) (next_irq s)" "next_irq s < 32"
    using trailing_zeros_least [OF ne] by (simp_all add: next_irq_def)
  have clear: "bit (aux_irq_pending s AND NOT (push_bit (next_irq s) 1)) n
      \<longleftrightarrow> bit (aux_irq_pending s) n \<and> n \<noteq> next_irq s" for n
    using bits(2) by (auto simp: bit_simps bit_1_iff dest: bit_imp_le_length)
  have least: "\<not> bit (aux_irq_pending s) n" if "n < next_irq s" for n
    using that not_less_Least unfolding next_irq_def by blast
  show ?thesis
    using True bits clear least
    by (auto simp: take_interrupt_eq entered_def Let_def enter_level1_def enter_level2_def vector_target_def)
next
  case False
  then show ?thesis by (simp add: take_interrupt_eq)
qed

text \<open>C7. Entering an interrupt and returning from it with \<open>j.f [ilink]\<close> of its level puts back the
  program counter, all of STATUS32 and the branch target address, and every register but the link
  register, so the interrupted program goes on as if nothing had happened.\<close>

theorem interrupt_return:
  assumes "irq_allowed s" and "regs_ok s"
  defines "link \<equiv> (if irq_level2 s then 30 else 29 :: u8)"
  shows "\<exists>t. execute_jump d (Reg link) None NoDelay False True (entered bk s) = (Inr (), t)
    \<and> pc t = pc s \<and> status32 t = status32 s \<and> aux_bta t = aux_bta s
    \<and> (\<forall>i. i \<noteq> unat link \<longrightarrow> core_regs t ! i = core_regs s ! i)
    \<and> aux_lp_start t = aux_lp_start s \<and> aux_lp_end t = aux_lp_end s \<and> delay_state t = delay_state s"
proof -
  let ?e = "entered bk s"
  have e: "\<not> flag_u ?e" "pc ?e = vector_target bk (next_irq s) s"
    "core_regs ?e = (core_regs s)[unat link := pc s]" "delay_state ?e = delay_state s"
    "aux_lp_start ?e = aux_lp_start s" "aux_lp_end ?e = aux_lp_end s"
    by (simp_all add: entered_def link_def enter_level1_def enter_level2_def Let_def)
  have saved: "irq_level2 s \<Longrightarrow> aux_status32_l2 ?e = status32 s \<and> aux_bta_l2 ?e = aux_bta s"
    "\<not> irq_level2 s \<Longrightarrow> aux_status32_l1 ?e = status32 s \<and> aux_bta_l1 ?e = aux_bta s"
    by (simp_all add: entered_def enter_level1_def enter_level2_def Let_def)
  have "resolve_value (Reg link) ?e = Inr (pc s)"
    using assms(2) e(1,3) by (simp add: resolve_value_def read_core_reg_def link_def regs_ok_def)
  then have jump: "execute_jump d (Reg link) None NoDelay False True ?e
      = (Inr (), (restore_level (Reg link) (?e\<lparr>aux_bta := pc s\<rparr>))\<lparr>pc := pc s, pc_written := True\<rparr>)"
    by (simp add: execute_jump_def when_condition_def condition_holds_def take_branch_def op_defs)
  have s32: "status32 (t\<lparr>pc := a, pc_written := x\<rparr>) = status32 t" "status32 (t\<lparr>aux_bta := a\<rparr>) = status32 t"
    for t a x
    by (simp_all add: status32_def)
  have "status32 (set_status32 (status32 s) t) = status32 (set_status32 (status32 s) s)" for t
    by (simp only: status32_set_status32)
  then have restored: "status32 (set_status32 (status32 s) t) = status32 s" for t
    by (simp only: set_status32_status32)
  let ?u = "?e\<lparr>aux_bta := pc s\<rparr>"
  have level: "restore_level (Reg link) ?u = (set_status32 (status32 s) ?u)\<lparr>aux_bta := aux_bta s\<rparr>"
    using saved by (simp add: restore_level_def link_def)
  have keep: "core_regs (set_status32 v t) = core_regs t" "aux_lp_start (set_status32 v t) = aux_lp_start t"
    "aux_lp_end (set_status32 v t) = aux_lp_end t" "delay_state (set_status32 v t) = delay_state t" for v t
    by (simp_all add: set_status32_def)
  show ?thesis
    unfolding jump level
    by (intro exI [of _ "((set_status32 (status32 s) ?u)\<lparr>aux_bta := aux_bta s\<rparr>)\<lparr>pc := pc s, pc_written := True\<rparr>"] conjI)
      (simp_all add: s32 restored keep e)
qed

definition pending_timer :: cpu_state where
  "pending_timer = new_cpu_state\<lparr>pc := 0x1000, flag_e1 := True, flag_u := True, aux_irq_pending := 8\<rparr>"

lemma pending_timer_allowed: "irq_allowed pending_timer" "regs_ok pending_timer" "\<not> irq_level2 pending_timer"
  by (simp_all add: pending_timer_def irq_allowed_def irq_level2_def new_cpu_state_def regs_ok_def)

theorem interrupt_return_witness:
  "\<forall>d (bk :: unit bank option). \<exists>t. execute_jump d (Reg 29) None NoDelay False True (entered bk pending_timer) = (Inr (), t)
    \<and> pc t = 0x1000 \<and> flag_u t"
proof (intro allI)
  fix d and bk :: "unit bank option"
  obtain t where t: "execute_jump d (Reg 29) None NoDelay False True (entered bk pending_timer) = (Inr (), t)"
    "pc t = pc pending_timer" "status32 t = status32 pending_timer"
    using interrupt_return [OF pending_timer_allowed(1,2), of d bk] pending_timer_allowed(3) by auto
  then have "flag_u t"
    using bit_status32 [of t 7] bit_status32 [of pending_timer 7] by (simp add: pending_timer_def)
  then show "\<exists>t. execute_jump d (Reg 29) None NoDelay False True (entered bk pending_timer) = (Inr (), t)
    \<and> pc t = 0x1000 \<and> flag_u t"
    using t by (auto simp: pending_timer_def)
qed

theorem interrupt_selection_witness:
  "\<forall>bk :: unit bank option. fst (take_interrupt bk pending_timer) \<and> \<not> flag_u (snd (take_interrupt bk pending_timer))
     \<and> core_regs (snd (take_interrupt bk pending_timer)) = (core_regs pending_timer)[29 := 0x1000]"
proof
  fix bk :: "unit bank option"
  have "pc pending_timer = 0x1000" by (simp add: pending_timer_def)
  moreover have "\<not> irq_level2 pending_timer" using pending_timer_allowed(3) by simp
  ultimately show "fst (take_interrupt bk pending_timer) \<and> \<not> flag_u (snd (take_interrupt bk pending_timer))
     \<and> core_regs (snd (take_interrupt bk pending_timer)) = (core_regs pending_timer)[29 := 0x1000]"
    using interrupt_selection [of pending_timer bk] pending_timer_allowed(1)
    by (simp add: case_prod_unfold)
qed

section \<open>Resets\<close>

lemma on_memory_run: "f (cpu_mem c) = (Inr a, m) \<Longrightarrow> on_memory f c = (Inr a, mem_modify (\<lambda>_. m) c)"
  by (simp add: on_memory_Inr mem_modify_def)

lemma ignoreM_Inr: "m s = (Inr a, t) \<Longrightarrow> ignoreM m s = (Inr (), t)"
  by (simp add: ignoreM_def)

lemma modifyM_run: "modifyM f s = (Inr (), f s)"
  by (simp add: modifyM_def)

lemma bindM_gets: "bindM (getsM f) k s = k (f s) s"
  by (simp add: bindM_def getsM_def)

text \<open>Overwriting SRAM and invalidating the cache, exactly: stores the cache held back come after the copy.\<close>

lemma load_invalidate_exact:
  assumes m: "soc_ok m" and len: "length d \<le> length (m_data m)" and dc: "m_dcache m = Some dc"
  shows "\<exists>m1 m2. load_binary 0 d m = (Inr (), m1) \<and> dcache_invalidate_all D m1 = (Inr (), m2) \<and> soc_ok m2
    \<and> store_of m2 = flushed dc (\<lambda>a. if unat a < length d then d ! unat a else store_of m a)
    \<and> mem_view m2 = store_of m2 \<and> (\<forall>b. \<not> dirty_in m2 b) \<and> length (m_data m2) = length (m_data m)
    \<and> m_icache m2 = m_icache m \<and> m_bank m2 = m_bank m \<and> dcache_enabled m2 = dcache_enabled m"
proof -
  have fits: "dcache_fits m dc" and shape: "soc_shape m" using m dc by (auto simp: soc_ok_def)
  let ?m1 = "m\<lparr>m_data := splice 0 d (m_data m)\<rparr>"
  have l: "length (m_data ?m1) = length (m_data m)" using len by simp
  have "load_binary 0 d m = (Inr (), ?m1)" using len by (simp add: load_binary_def)
  moreover have st: "store_of ?m1 = (\<lambda>a. if unat a < length d then d ! unat a else store_of m a)"
  proof
    fix a
    show "store_of ?m1 a = (if unat a < length d then d ! unat a else store_of m a)"
      using store_of_splice [of 0 d m a] len by (cases "unat a < length d") simp_all
  qed
  moreover have "soc_shape ?m1" using shape l by (simp add: soc_shape_def)
  then have "soc_weak ?m1" using fits dc l by (auto simp: soc_weak_def dcache_fits_def in_sram_def)
  moreover have "dcache_enabled ?m1 = dcache_enabled m" by (simp add: dcache_enabled_def)
  ultimately show ?thesis
    using dcache_invalidate_all_ok [of ?m1 dc D] dc l by (simp only: st) (metis (no_types, lifting) memory.select_convs(2,4,5) memory.update_convs(1) memory.surjective)
qed

lemma reset_soc_exact:
  assumes ok: "cpu_ok I c" and dc: "m_dcache (cpu_mem c) = Some dc"
  shows "\<exists>c'. reset_soc_in_place D mode c = (Inr (), c')
    \<and> cpu_regs c' = new_cpu_state\<lparr>timer1_irq := timer1_irq (cpu_regs c)\<rparr>
    \<and> store_of (cpu_mem c') = flushed dc (\<lambda>_. 0) \<and> mem_view (cpu_mem c') = store_of (cpu_mem c')
    \<and> (\<forall>a. \<not> dirty_in (cpu_mem c') a) \<and> soc_ok (cpu_mem c')
    \<and> length (m_data (cpu_mem c')) = length (m_data (cpu_mem c))
    \<and> m_icache (cpu_mem c') = map_option ic_invalidate_all (m_icache (cpu_mem c))
    \<and> cpu_bank c' = map_option (case mode of Warm \<Rightarrow> dev_reset_warm D | Cold \<Rightarrow> dev_reset_cold D) (cpu_bank c)
    \<and> dcache_enabled (cpu_mem c') = dcache_enabled (cpu_mem c)"
proof -
  let ?n = "length (m_data (cpu_mem c))"
  have soc: "soc_ok (cpu_mem c)" using ok by (simp add: cpu_ok_def machine_ok_def mem_ok_def)
  obtain m1 m2 where m: "load_binary 0 (replicate ?n 0) (cpu_mem c) = (Inr (), m1)"
    "dcache_invalidate_all D m1 = (Inr (), m2)" "soc_ok m2"
    "store_of m2 = flushed dc (\<lambda>a. if unat a < length (replicate ?n (0 :: u8)) then replicate ?n 0 ! unat a else store_of (cpu_mem c) a)"
    "mem_view m2 = store_of m2" "\<forall>b. \<not> dirty_in m2 b" "length (m_data m2) = ?n"
    "m_icache m2 = m_icache (cpu_mem c)" "m_bank m2 = cpu_bank c" "dcache_enabled m2 = dcache_enabled (cpu_mem c)"
    using load_invalidate_exact [OF soc _ dc, of "replicate ?n 0" D] by auto
  have "(\<lambda>a. if unat a < length (replicate ?n (0 :: u8)) then replicate ?n 0 ! unat a else store_of (cpu_mem c) a) = (\<lambda>_. 0)"
    by (auto simp: fun_eq_iff store_of_def)
  then have zero: "store_of m2 = flushed dc (\<lambda>_. 0)" using m(4) by simp
  let ?c1 = "regs_modify (\<lambda>s. new_cpu_state\<lparr>timer1_irq := timer1_irq s\<rparr>) c"
  have r1: "on_memory (load_binary 0 (replicate ?n 0)) ?c1 = (Inr (), mem_modify (\<lambda>_. m1) ?c1)"
    by (rule on_memory_run) (simp add: m(1))
  have r2: "ignoreM (on_memory (dcache_invalidate_all D)) (mem_modify (\<lambda>_. m1) ?c1)
      = (Inr (), mem_modify (\<lambda>_. m2) (mem_modify (\<lambda>_. m1) ?c1))"
    by (rule ignoreM_Inr, rule on_memory_run) (simp add: m(2))
  let ?f = "bank_modify (case mode of Warm \<Rightarrow> dev_reset_warm D | Cold \<Rightarrow> dev_reset_cold D)"
  let ?m3 = "?f (icache_invalidate_all m2)"
  let ?c' = "reset_loop_detection (mem_modify (\<lambda>_. ?m3) ?c1)"
  have "reset_soc_in_place D mode c = (Inr (), mem_modify ?f (reset_loop_detection
      (mem_modify icache_invalidate_all (mem_modify (\<lambda>_. m2) (mem_modify (\<lambda>_. m1) ?c1)))))"
    unfolding reset_soc_in_place_def
    by (simp add: modifyM_run bindM_gets thenM_Inr r1 r2)
  moreover have "store_of ?m3 = store_of m2" "dcache_enabled ?m3 = dcache_enabled m2"
    "mem_view ?m3 = mem_view m2" "\<And>a. dirty_in ?m3 a = dirty_in m2 a" "length (m_data ?m3) = length (m_data m2)"
    "m_icache ?m3 = map_option ic_invalidate_all (m_icache m2)"
    by (simp_all add: icache_invalidate_all_def icache_modify_def bank_modify_def dcache_enabled_def mem_view_def
        dirty_in_def split: option.split)
  moreover have "soc_ok ?m3"
    using m(3) by (auto simp: icache_invalidate_all_def icache_modify_def bank_modify_def soc_ok_def soc_shape_def
        dcache_fits_def)
  ultimately show ?thesis
    using m(5-10) zero
    by (intro exI [of _ "mem_modify ?f (reset_loop_detection
      (mem_modify icache_invalidate_all (mem_modify (\<lambda>_. m2) (mem_modify (\<lambda>_. m1) ?c1))))"])
      (simp add: reset_loop_detection_def mem_modify_def regs_modify_def,
       simp add: icache_invalidate_all_def icache_modify_def bank_modify_def)
qed

lemma cpu_ok_sample: "cpu_ok (\<lambda>_. True) (new_bcm55030 (replicate 65536 0) zero_bank)"
  by (rule cpu_ok_new) (simp_all add: zero_bank_ok)

lemma sample_parts:
  "m_dcache (cpu_mem (new_bcm55030 img b)) = Some dc_new" "cpu_bank (new_bcm55030 img b) = Some b"
  by (simp_all add: new_bcm55030_def memory_new_soc_def)

text \<open>C30. A reset of the chip in place (\<open>reset_soc_in_place\<close>) gives a fresh register file, empty caches and an
  SRAM that is zero except for one thing: with IM set, the lines the old program had written and not
  flushed are written back over the zeroed SRAM, and the data cache stays disabled if the old program
  disabled it, while its control register reads as enabled.\<close>

theorem reset_leaves_dirty_lines:
  assumes "cpu_ok I c" and "m_dcache (cpu_mem c) = Some dc"
  shows "\<exists>c'. reset_soc_in_place D mode c = (Inr (), c')
    \<and> cpu_regs c' = new_cpu_state\<lparr>timer1_irq := timer1_irq (cpu_regs c)\<rparr>
    \<and> (\<forall>a. store_of (cpu_mem c') a
           = (if dc_im dc \<and> dirty_in (cpu_mem c) a then mem_view (cpu_mem c) a else 0))
    \<and> mem_view (cpu_mem c') = store_of (cpu_mem c')
    \<and> dcache_enabled (cpu_mem c') = dcache_enabled (cpu_mem c) \<and> aux_dc_ctrl (cpu_regs c') = 0xC2"
proof -
  have "flushed dc (\<lambda>_. 0) a = (if dc_im dc \<and> dirty_in (cpu_mem c) a then mem_view (cpu_mem c) a else 0)" for a
    using dirty_peek [of dc a] assms(2)
    by (auto simp: flushed_def dirty_in_def mem_view_def backing_view_def)
  then show ?thesis
    using reset_soc_exact [OF assms, of D mode] by (auto simp: new_cpu_state_def)
qed

theorem reset_leaves_dirty_lines_witness:
  "\<exists>c'. reset_soc_in_place zero_devices Cold (new_bcm55030 (replicate 65536 0) zero_bank) = (Inr (), c')
    \<and> aux_dc_ctrl (cpu_regs c') = 0xC2"
  using reset_leaves_dirty_lines [OF cpu_ok_sample sample_parts(1), of zero_devices Cold] by blast

text \<open>C12. A watchdog reset boots from flash: the registers are fresh with interrupts enabled and the program
  counter at 0, the call stack is empty, the bank went through its warm reset, and both the data port
  and the fetch port read the first 64 KiB of flash at address 0, whatever the caches held before.\<close>

theorem warm_reboot_boots_flash:
  assumes ok: "cpu_ok I c" and b: "cpu_bank c = Some b"
  shows "\<exists>c'. warm_reboot_from_flash D c = (Inr (), c')
    \<and> cpu_regs c' = new_cpu_state\<lparr>timer1_irq := timer1_irq (cpu_regs c), flag_e1 := True, flag_e2 := True\<rparr>
    \<and> c_shadow_stack c' = [] \<and> cpu_bank c' = Some (dev_reset_warm D b)
    \<and> (\<forall>a. unat a < min (64 * 1024) (length (dev_flash D b)) \<longrightarrow> mem_view (cpu_mem c') a = dev_flash D b ! unat a)
    \<and> soc_ok (cpu_mem c') \<and> fetch_ok (m_data (cpu_mem c')) (cpu_mem c')"
proof -
  have soc: "soc_ok (cpu_mem c)" and ic: "\<forall>ic. m_icache (cpu_mem c) = Some ic \<longrightarrow> icache_ok ic"
    and size: "64 * 1024 \<le> length (m_data (cpu_mem c))"
    using ok by (simp_all add: cpu_ok_def machine_ok_def mem_ok_def)
  obtain dc where dc: "m_dcache (cpu_mem c) = Some dc" using soc by (rule soc_okE)
  obtain c1 where 1: "reset_soc_in_place D Warm c = (Inr (), c1)"
    "cpu_regs c1 = new_cpu_state\<lparr>timer1_irq := timer1_irq (cpu_regs c)\<rparr>" "\<forall>a. \<not> dirty_in (cpu_mem c1) a"
    "soc_ok (cpu_mem c1)" "length (m_data (cpu_mem c1)) = length (m_data (cpu_mem c))"
    "m_icache (cpu_mem c1) = map_option ic_invalidate_all (m_icache (cpu_mem c))"
    "cpu_bank c1 = Some (dev_reset_warm D b)"
    using reset_soc_exact [OF ok dc, of D Warm] b by auto
  obtain dc1 where dc1: "m_dcache (cpu_mem c1) = Some dc1" using 1(4) by (rule soc_okE)
  define d where "d = take (64 * 1024) (dev_flash D b)"
  have len: "length d \<le> length (m_data (cpu_mem c1))" using size 1(5) by (simp add: d_def)
  obtain m1 m2 where m: "load_binary 0 d (cpu_mem c1) = (Inr (), m1)" "dcache_invalidate_all D m1 = (Inr (), m2)"
    "soc_ok m2" "store_of m2 = flushed dc1 (\<lambda>a. if unat a < length d then d ! unat a else store_of (cpu_mem c1) a)"
    "mem_view m2 = store_of m2" "m_icache m2 = m_icache (cpu_mem c1)" "m_bank m2 = cpu_bank c1"
    using load_invalidate_exact [OF 1(4) len dc1, of D] by blast
  let ?m3 = "icache_invalidate_all m2"
  let ?c' = "(regs_modify (\<lambda>s. s\<lparr>flag_e1 := True, flag_e2 := True\<rparr>) (mem_modify (\<lambda>_. ?m3) c1))\<lparr>c_shadow_stack := []\<rparr>"
  have r1: "on_memory (load_binary 0 d) c1 = (Inr (), mem_modify (\<lambda>_. m1) c1)"
    by (rule on_memory_run) (rule m)
  have r2: "ignoreM (on_memory (dcache_invalidate_all D)) (mem_modify (\<lambda>_. m1) c1)
      = (Inr (), mem_modify (\<lambda>_. m2) (mem_modify (\<lambda>_. m1) c1))"
    by (rule ignoreM_Inr, rule on_memory_run) (simp add: m(2))
  have "warm_reboot_from_flash D c = (Inr (), ?c')"
    unfolding warm_reboot_from_flash_def bindM_gets b option.case Let_def d_def [symmetric]
    by (simp add: thenM_Inr 1(1) r1 r2 modifyM_run) (simp add: mem_modify_def regs_modify_def)
  moreover have "mem_view ?m3 a = dev_flash D b ! unat a" if "unat a < min (64 * 1024) (length (dev_flash D b))" for a
  proof -
    have "mem_view ?m3 = mem_view m2"
      by (simp add: icache_invalidate_all_def icache_modify_def mem_view_def split: option.split)
    moreover have "\<not> dirty_at dc1 a" using 1(3) dc1 by (simp add: dirty_in_def)
    ultimately show ?thesis using that m(4,5) by (simp add: flushed_def d_def)
  qed
  moreover have "soc_ok ?m3" using m(3) by (simp add: icache_invalidate_all_def icache_modify_def soc_ok_def dcache_fits_def)
  moreover have "fetch_ok (m_data ?m3) ?m3"
    using m(3) m(6) 1(6) ic soc_ok_shape [OF m(3)]
    by (auto simp: fetch_ok_def icache_invalidate_all_def icache_modify_def icache_ok_invalidate
        ic_coherent_invalidate split: option.split)
      (simp add: ic_contains_fields ic_invalidate_all_def ic_empty_line_def)
  moreover have "m_bank ?m3 = Some (dev_reset_warm D b)"
    using m(7) 1(7) by (simp add: icache_invalidate_all_def icache_modify_def)
  ultimately show ?thesis
    using 1(2) by (intro exI [of _ ?c']) (simp add: mem_modify_def regs_modify_def)
qed

theorem warm_reboot_boots_flash_witness:
  "\<exists>c'. warm_reboot_from_flash (zero_devices\<lparr>dev_flash := \<lambda>_. [0x20, 0x20]\<rparr>)
           (new_bcm55030 (replicate 65536 0) zero_bank) = (Inr (), c')
     \<and> mem_view (cpu_mem c') 1 = 0x20 \<and> flag_e1 (cpu_regs c')"
  using warm_reboot_boots_flash [OF cpu_ok_sample sample_parts(2), of "zero_devices\<lparr>dev_flash := \<lambda>_. [0x20, 0x20]\<rparr>"]
  by (force simp: zero_devices_def)

section \<open>Zero-overhead loops\<close>

text \<open>Arriving at the end of the loop body, again and again: the body leaves the loop registers alone.\<close>

definition arrive :: "nat \<Rightarrow> cpu_state \<Rightarrow> cpu_state" where
  "arrive n = (\<lambda>s. (snd (loop_back None s))\<lparr>pc := aux_lp_end s\<rparr>) ^^ n"

lemma loop_back_at_end:
  assumes "\<not> flag_l s" and "pc s = aux_lp_end s" and "length (core_regs s) = 64"
  shows "fst (loop_back None s) \<longleftrightarrow> 1 < core_regs s ! 60"
    and "core_regs (snd (loop_back None s)) ! 60 = (if core_regs s ! 60 = 0 then 0 else core_regs s ! 60 - 1)"
    and "fst (loop_back None s) \<Longrightarrow> pc (snd (loop_back None s)) = aux_lp_start s"
    and "\<not> fst (loop_back None s) \<Longrightarrow> pc (snd (loop_back None s)) = pc s"
    and "aux_lp_end (snd (loop_back None s)) = aux_lp_end s \<and> flag_l (snd (loop_back None s)) = flag_l s
      \<and> length (core_regs (snd (loop_back None s))) = 64"
proof -
  have one: "(0 :: u32) < x \<and> 0 < x - 1 \<longleftrightarrow> 1 < x" for x
    by unat_arith
  show "fst (loop_back None s) \<longleftrightarrow> 1 < core_regs s ! 60"
    using assms one by (auto simp: loop_back_def Let_def)
qed (use assms in \<open>auto simp: loop_back_def Let_def word_gt_0 split: if_splits\<close>)

text \<open>A zero-overhead loop runs its body exactly LP_COUNT times: with LP_COUNT n at least 1 on the first
  arrival at LP_END, the first n - 1 arrivals go back to LP_START, the n-th falls through with LP_COUNT
  0, and with LP_COUNT 0 there is no jump back at all.\<close>

theorem loop_runs_lp_count_times:
  assumes "\<not> flag_l s" and "pc s = aux_lp_end s" and "length (core_regs s) = 64"
  defines "n \<equiv> unat (core_regs s ! 60)"
  shows "(\<forall>k. (fst (loop_back None (arrive k s)) \<longleftrightarrow> k + 1 < n)
            \<and> (k + 1 < n \<longrightarrow> pc (snd (loop_back None (arrive k s))) = aux_lp_start (arrive k s))
            \<and> (\<not> k + 1 < n \<longrightarrow> pc (snd (loop_back None (arrive k s))) = aux_lp_end s))
    \<and> core_regs (arrive n s) ! 60 = 0"
proof -
  have inv: "\<not> flag_l (arrive k s) \<and> pc (arrive k s) = aux_lp_end s \<and> aux_lp_end (arrive k s) = aux_lp_end s
    \<and> length (core_regs (arrive k s)) = 64 \<and> unat (core_regs (arrive k s) ! 60) = n - k" for k
  proof (induction k)
    case 0
    then show ?case using assms by (simp add: arrive_def)
  next
    case (Suc k)
    let ?t = "arrive k s"
    have step: "arrive (Suc k) s = (snd (loop_back None ?t))\<lparr>pc := aux_lp_end ?t\<rparr>" by (simp add: arrive_def)
    have ih: "\<not> flag_l ?t" "pc ?t = aux_lp_end ?t" "length (core_regs ?t) = 64" "unat (core_regs ?t ! 60) = n - k"
      "aux_lp_end ?t = aux_lp_end s"
      using Suc.IH by simp_all
    have "unat (if core_regs ?t ! 60 = 0 then 0 else core_regs ?t ! 60 - 1) = n - Suc k"
      using ih(4) by (auto simp: unat_minus_one)
    then show ?case
      using loop_back_at_end(2,5) [OF ih(1-3)] ih by (simp add: step)
  qed
  have more: "fst (loop_back None (arrive k s)) \<longleftrightarrow> k + 1 < n" for k
  proof -
    have "1 < core_regs (arrive k s) ! 60 \<longleftrightarrow> 1 < n - k" using inv [of k] by (simp add: word_less_nat_alt)
    then show ?thesis using loop_back_at_end(1) [of "arrive k s"] inv [of k] by auto
  qed
  have "core_regs (arrive n s) ! 60 = 0" using inv [of n] by (simp add: unat_eq_0)
  then show ?thesis
    using more loop_back_at_end(3,4) [of "arrive _ s"] inv by simp
qed

theorem loop_runs_lp_count_times_witness:
  "fst (loop_back None (arrive 3 (new_cpu_state\<lparr>core_regs := (replicate 64 0)[60 := 5]\<rparr>)))
   \<and> \<not> fst (loop_back None (arrive 4 (new_cpu_state\<lparr>core_regs := (replicate 64 0)[60 := 5]\<rparr>)))"
  using loop_runs_lp_count_times [of "new_cpu_state\<lparr>core_regs := (replicate 64 0)[60 := 5]\<rparr>"]
  by (simp add: new_cpu_state_def)

end
