(* ===== verification/Soc_Whole.thy ===== *)
theory Soc_Whole
  imports Soc_Bank_Safe Cpu_Props
begin

text \<open>
  The processor on the bank of the chip: the devices keep what the proof of the processor asks of its devices, so nothing a
  program does makes the emulator panic, whatever it writes to whatever register.
\<close>

lemma soc_bank_inv_ok: "soc_bank_inv = bank_ok soc_inv"
  by (simp add: fun_eq_iff soc_bank_inv_def bank_ok_def)

lemma soc_devices_ok: "devices_ok soc_inv soc_devices"
  by (simp add: devices_ok_def soc_devices_def safe_soc_read_word safe_soc_write_word safe_soc_narrow tick_inv soc_bank_inv_reset
      soc_bank_inv_transfers flip: soc_bank_inv_ok)


lemma soc_new_olt: "so_olt (bank_rest (soc_new False)) = olt_reset_cold olt_new"
  by (simp add: soc_new_def soc_reset_cold_def reset_devices_def soc_blank_def)

lemma clock_room_new: "clock_room (olt_reset_cold olt_new)"
  by (simp add: clock_room_def olt_reset_cold_def olt_new_def apply_config_def Let_def tick_duration_def runs_until_def
      peer_config_of_def olt_config_default_def config_default_def)


end
