(* ===== verification/Spec2Isabelle.thy ===== *)
theory Spec2Isabelle
  imports Executor_Props Olt_Handshake Olt_Host_Props Soc_Whole
begin

text \<open>
  A model of the BCM55030 emulator (\<open>src/\<close>, Rust): an ARC700 big-endian instruction set
  simulator with its caches, memory map and the on-chip devices of an EPON ONU, and the OLT at the
  other end of the fibre (\<open>crates/epon-olt\<close>). The model is a shallow embedding: a Rust function is an
  Isabelle function of the same name over records that mirror the Rust structs.

  How the parts interact. The processor reads halfwords and words through the fetch port of the
  memory, the decoder turns them into an instruction, the executor runs it on the processor state
  and the data port of the memory, which goes through the data cache, SRAM, the oscillator table
  or the bank of peripherals. The processor loop wraps this with hooks, delay slots, zero-overhead
  loops, timers, interrupts, the watchdog and resets. The OLT is a crate of its own: a state machine
  driven by a scheduler of timers and by the frames that arrive over a fibre, on a clock of
  picoseconds its host advances. The bank of peripherals sends each access to the device that claims its address; its tick
  advances the OLT and carries what arrives into the registers of the MAC and, as transfers, into memory.

  Conventions. \<open>&mut self\<close> methods that return a \<open>Result\<close> are state transformers of type \<open>('s, 'a) op\<close>
  (theory \<open>Machine_Monad\<close>): a result \<open>Inl fault\<close> or \<open>Inr value\<close> together with the state reached. A Rust
  panic is the fault \<open>Panic\<close>, apart from the exceptions of the emulated processor; in the OLT, which
  has none but a division by a line rate of 0, it is \<open>None\<close>, and so is a loop that does not end. Integers keep
  their width (\<open>u32 = 32 word\<close>); arithmetic is that of the release build, where it wraps and shift
  counts are masked. The feature \<open>timing\<close>, console output and traces for display are left out.

  The processor.
  \<^item> \<open>Prelude\<close>: machine integers, byte splits, shared lemmas. \<open>Machine_Monad\<close>: state transformers,
    their weakest preconditions (\<open>wp\<close>), invariants (\<open>keeps\<close>) and agreement of two runs (\<open>agree\<close>).
  \<^item> \<open>Exceptions\<close>, \<open>Condition\<close>, \<open>Register_Names\<close>, \<open>Registers\<close>: \<open>src/cpu/exception.rs\<close>,
    \<open>condition.rs\<close>, \<open>registers.rs\<close>. \<open>Watchpoints\<close>: the watchpoint table of \<open>src/memory.rs\<close>.
  \<^item> \<open>Instruction\<close>, \<open>Bit_Fields\<close>, \<open>Decode32\<close>, \<open>Decode16\<close>, \<open>Decoder\<close>: \<open>src/decoder/\<close>. The Rust trait
    \<open>InstructionFetch\<close> is the record \<open>fetch\<close>; the locale \<open>instruction_fetch\<close> states that a port never
    panics, \<open>fetch_agreement\<close> that two ports agree, and both are interpreted for a byte slice and
    for the memory.
  \<^item> \<open>Executor_Base\<close>, \<open>Alu\<close>, \<open>Extended\<close>, \<open>Branches\<close>, \<open>Executor\<close>: \<open>src/executor/\<close>.
    \<open>Executor_Invariants\<close>: the locale \<open>cpu_invariant\<close>, what a predicate of the processor state must
    satisfy to be kept by every instruction; interpreted for the shape of the register file and
    for the confinement of user mode. \<open>Executor_Safe\<close>: no instruction panics. \<open>Executor_Props\<close>:
    properties of whole instructions.
  \<^item> \<open>DCache\<close>, \<open>ICache\<close>: \<open>src/cache.rs\<close>. \<open>Memory\<close>: \<open>src/memory.rs\<close>. \<open>Memory_Port\<close>: the bytes a program sees
    (\<open>mem_view\<close>: cached line if present, else SRAM) and the locale \<open>data_port\<close>, the contract of an
    access of one width, interpreted for the cached and the uncached port. \<open>Memory_Fetch\<close>: the fetch
    port. \<open>Memory_Dma\<close>: transfers of the devices into SRAM. \<open>Memory_Safe\<close>: the shape of the memory is
    kept and no access panics; what invalidation does to dirty lines.
  \<^item> \<open>Nco\<close>: \<open>src/soc/nco.rs\<close>. \<open>Bank\<close>: what the processor and the memory see of \<open>src/soc/bank.rs\<close>.
  \<^item> \<open>Hooks\<close>, \<open>Cpu\<close>: \<open>src/hooks.rs\<close> and \<open>src/cpu/mod.rs\<close>. \<open>Cpu_Safe\<close>: the processors reachable by steps,
    breakpoints and resets keep their shape. \<open>Cpu_Timers\<close>: timers, watchdog, spin detection; the timer
    loop runs as often as the accumulated hundredths say, a number computed before it starts, so it needs no
    fuel. \<open>Cpu_Props\<close>: properties of whole steps.

  The OLT, files of \<open>crates/epon-olt/src\<close>.
  \<^item> \<open>Olt_Types\<close>: \<open>types.rs\<close>, \<open>clock.rs\<close>, \<open>state.rs\<close>. \<open>Olt_Mpcp\<close>: \<open>mpcp.rs\<close>. \<open>Olt_Oam\<close>: \<open>oam.rs\<close>, frames and the
    discovery of one end, with the proof that two ends settle. \<open>Olt_Extended\<close>: \<open>extended.rs\<close>.
  \<^item> \<open>Olt_Sched\<close>: \<open>sched.rs\<close>. The locale \<open>timer_queue\<close> is what the OLT needs of it, a map of armed timers;
    the interpretation \<open>sq\<close> shows that the heap with generations is one, as long as the 64-bit counters have room
    (\<open>sched_ok n\<close>: for \<open>n\<close> more armings).
  \<^item> \<open>Olt_Peer\<close>: \<open>peer.rs\<close>. The loop of \<open>advance_to\<close> is \<open>advance_loop\<close>, a partial function. \<open>Olt_Loop\<close>: it ends
    (the measure \<open>work\<close> bounds what is due by what it can still cause, no fuel) and does not depend on
    the size of the steps. \<open>Olt_Registration\<close>: the peers a host can reach, the two ledgers of the counters,
    and the moves of the registration state.
  \<^item> \<open>Olt_Fibre\<close>: \<open>fibre.rs\<close>, a bounded queue that keeps order. \<open>Olt_Link\<close>: \<open>link.rs\<close>, the OLT between two
    fibres. \<open>Olt_Onu\<close>: \<open>onu.rs\<close>. \<open>Olt_Handshake\<close>: OLT and ONU together register.

  The packet classifier, files of \<open>src/soc/lue\<close>.
  \<^item> \<open>Lue_Rule\<close>: \<open>rule.rs\<close>, the entries and rules in 128-bit words. \<open>Lue_Port\<close>: \<open>port.rs\<close> and the window in
    memory of \<open>mod.rs\<close>. \<open>Lue_Engine\<close>: \<open>engine.rs\<close> and \<open>Lue::classify\<close>. The loops of the codec end after
    \<open>MAX_RULE_ENTRIES\<close> entries, their measure. The refusal texts of the code are the constructors of \<open>reason\<close>.

  The OLT as the chip sees it, files of \<open>src/soc/olt\<close>.
  \<^item> \<open>Olt_Mailbox\<close>: \<open>mailbox.rs\<close> and \<open>report.rs\<close>. \<open>Olt_Host\<close>: \<open>mod.rs\<close>, the link behind the mailbox, with the
    classifier of \<open>Lue_Engine\<close> choosing the queue of a frame. \<open>Olt_Host_Props\<close>: frames through the mailbox in
    both directions. The loops that load and read frames shorten the queue they read, no fuel.

  Devices, files of \<open>src/soc\<close>. Each is a record with its own operations.
  \<^item> \<open>Dev_Words\<close>: the default sub-word accesses of the trait in \<open>peripheral.rs\<close>; the locale \<open>register_words\<close>, a
    device whose word registers are plain, gives the byte and halfword accesses as slices of them.
  \<^item> \<open>Dev_Flash\<close>: \<open>spi_flash.rs\<close>. \<open>Dev_Pbc\<close>: \<open>pbc.rs\<close>, the controller that starts its commands and transfers; the
    interpretation \<open>pbw\<close> of \<open>register_words\<close>. \<open>Dev_Uart\<close>: \<open>uart.rs\<close> and \<open>timer.rs\<close>.
  \<^item> \<open>Dev_Init\<close>: the power-on tables of \<open>mmio_init.rs\<close>. \<open>Dev_Sfp\<close>: \<open>sfp_eeprom.rs\<close>, the pages of the optical module with
    their live readings. \<open>Dev_Lane\<close>: \<open>lane_bus.rs\<close>, the indirect bus of a SerDes lane with its calibration engines.
    \<open>Dev_Bsc\<close>: \<open>bsc_i2c.rs\<close>, the serial controller that reads the module in bursts.

  The bank of the chip, files of \<open>src/soc\<close>. A device whose registers are a vector is a record with a list, and an access past
  its end is a panic.
  \<^item> \<open>Soc_Stores\<close>: \<open>dma.rs\<close>, \<open>macsec.rs\<close>, \<open>fatal_filter.rs\<close>. \<open>Soc_Regs\<close>: \<open>mac_filter.rs\<close>, \<open>mpcp.rs\<close>, \<open>mpcp_tssync.rs\<close>. \<open>Soc_Shim\<close>:
    \<open>efuse_udr.rs\<close>, \<open>alarm_events.rs\<close>, \<open>sysreg_shim.rs\<close>. \<open>Soc_Serdes\<close>: \<open>serdes.rs\<close>. \<open>Soc_Epon\<close>: \<open>epon_mac.rs\<close>.
  \<^item> \<open>Soc_Scenario\<close>: \<open>scenario.rs\<close>, overrides, scheduled events and watchpoints, and when an event fires.
  \<^item> \<open>Soc_Bank\<close>: \<open>bank.rs\<close>, the state \<open>soc\<close> of the devices, the dispatch and word accesses. \<open>Soc_System\<close>: narrower
    accesses, the tick, resets and transfers. \<open>Soc_Chip\<close>: injected events, the saved state of a snapshot and \<open>soc_devices\<close>, the
    methods of the bank as the processor calls them. There a tick that panics leaves the bank as the panic found it, as the methods
    of \<open>device_ops\<close> cannot fail.
  \<^item> \<open>Soc_Routing\<close>: the windows of the devices and where they overlap. \<open>Soc_Line\<close>: the OLT on the chip keeps what makes its
    tick return. \<open>Soc_Safe\<close>: no access to an address of a device runs past the end of its store. \<open>Soc_Bank_Safe\<close>: the
    invariant \<open>soc_inv\<close> of the bank, for an engine no event is scheduled in. \<open>Soc_Whole\<close>: the processor on this bank never panics.

  What is proved of the processor and of the memory holds for every choice of the devices: they are the component
  \<open>bank_rest\<close> of any type, reached through the record \<open>device_ops\<close>, and \<open>devices_ok I D\<close> is what is asked of them, with an
  invariant \<open>I\<close> of their own. \<open>soc_devices_ok\<close> shows it for the devices of the chip.

  Not modelled: disassembly text, the dissection of frames as text, descriptions and log lines, the histories and traces of
  accesses, the parsers of scenario files, the table of register names, the user interface, the MCP server, threads, files and
  console, and the cycle costs of the feature \<open>timing\<close>.
\<close>

end
